(* ===== verification/MP_Prelude.thy ===== *)
theory MP_Prelude
  imports Main
begin

text \<open>
  Shared vocabulary of the development: the first-match search behind every
  \<open>for i := range xs\<close> loop of the services, the tenant scope every service
  filters by, the call environment (clock, random source, outcome of
  \<open>stateStore.Save\<close>) and the state store itself.  The contracts that several
  services share are locales here; each service interprets them on its own
  operations.
\<close>

named_theorems scope_simps \<open>facts on tenant scopes and scoped searches\<close>
named_theorems store_simps \<open>facts on the state store\<close>

type_synonym ('e, 'a) result = "'e + 'a"

type_synonym time = int

section \<open>First-match search and positional update\<close>

fun find_idx :: "('a \<Rightarrow> bool) \<Rightarrow> 'a list \<Rightarrow> nat option" where
  "find_idx P [] = None"
| "find_idx P (x # xs) = (if P x then Some 0 else map_option Suc (find_idx P xs))"

definition remove_at :: "nat \<Rightarrow> 'a list \<Rightarrow> 'a list" where
  "remove_at i xs = take i xs @ drop (Suc i) xs"

definition get_or :: "'a \<Rightarrow> 'a option \<Rightarrow> 'a" where
  "get_or d x = (case x of None \<Rightarrow> d | Some v \<Rightarrow> v)"

section \<open>Tenant scopes\<close>

text \<open>
  A service operation names a tenant; the empty string is the platform scope, which
  matches every record.  Two idioms search a list: one takes the first record with the
  identifier and then checks its tenant, the other looks for a record that matches both.
\<close>

definition in_scope :: "string \<Rightarrow> string \<Rightarrow> bool" where
  "in_scope flt t \<longleftrightarrow> flt = '''' \<or> t = flt"

definition list_scoped :: "('r \<Rightarrow> string) \<Rightarrow> string \<Rightarrow> 'r list \<Rightarrow> 'r list" where
  "list_scoped tenant_of flt xs = filter (\<lambda>r. in_scope flt (tenant_of r)) xs"

definition lookup_strict ::
  "('r \<Rightarrow> string) \<Rightarrow> ('r \<Rightarrow> string) \<Rightarrow> string \<Rightarrow> string \<Rightarrow> 'r list \<Rightarrow> nat option" where
  "lookup_strict id_of tenant_of flt i xs =
     (case find_idx (\<lambda>r. id_of r = i) xs of
        None \<Rightarrow> None
      | Some k \<Rightarrow> if in_scope flt (tenant_of (xs ! k)) then Some k else None)"

definition lookup_scan ::
  "('r \<Rightarrow> string) \<Rightarrow> ('r \<Rightarrow> string) \<Rightarrow> string \<Rightarrow> string \<Rightarrow> 'r list \<Rightarrow> nat option" where
  "lookup_scan id_of tenant_of flt i xs =
     find_idx (\<lambda>r. id_of r = i \<and> in_scope flt (tenant_of r)) xs"

section \<open>The call environment and the state store\<close>

text \<open>
  \<open>env_now\<close> is what \<open>time.Now().UTC()\<close> returns during the call (nanoseconds since
  the Unix epoch), \<open>env_save_ok\<close> whether \<open>stateStore.Save\<close> succeeds, \<open>env_rand\<close>
  the hexadecimal text of the bytes \<open>rand.Read\<close> delivers, \<open>None\<close> when it fails.
  A store is absent (\<open>stateStore == nil\<close>) or holds the last snapshot saved under the
  module's key.
\<close>

record env =
  env_now :: time
  env_save_ok :: bool
  env_rand :: "string option"

text \<open>An operation that draws several identifiers makes several random reads.\<close>

type_synonym reads = "nat \<Rightarrow> string option"

datatype 'snap store = NoStore | Store "'snap option"

definition store_save :: "env \<Rightarrow> 'snap \<Rightarrow> 'snap store \<Rightarrow> bool \<times> 'snap store" where
  "store_save e snap st =
     (case st of
        NoStore \<Rightarrow> (True, NoStore)
      | Store old \<Rightarrow> if env_save_ok e then (True, Store (Some snap)) else (False, Store old))"

definition in_sync :: "'snap \<Rightarrow> 'snap store \<Rightarrow> bool" where
  "in_sync snap st \<longleftrightarrow> (case st of NoStore \<Rightarrow> True | Store old \<Rightarrow> old = Some snap)"

section \<open>Lemmas on searches\<close>

lemma find_idx_Some_iff:
  "find_idx P xs = Some i \<longleftrightarrow> i < length xs \<and> P (xs ! i) \<and> (\<forall>j<i. \<not> P (xs ! j))"
proof (induction xs arbitrary: i)
  case Nil
  then show ?case by simp
next
  case (Cons x xs)
  show ?case
    by (cases i) (auto simp: Cons.IH less_Suc_eq_0_disj)
qed

lemma find_idx_None_iff: "find_idx P xs = None \<longleftrightarrow> (\<forall>x\<in>set xs. \<not> P x)"
  by (induction xs) auto

lemma find_idx_SomeD:
  assumes "find_idx P xs = Some i"
  shows "i < length xs" and "P (xs ! i)" and "j < i \<Longrightarrow> \<not> P (xs ! j)"
  using assms by (auto simp: find_idx_Some_iff)

lemma find_idx_cong:
  "(\<And>x. x \<in> set xs \<Longrightarrow> P x = Q x) \<Longrightarrow> find_idx P xs = find_idx Q xs"
  by (induction xs) auto

lemma find_idx_exists: "x \<in> set xs \<Longrightarrow> P x \<Longrightarrow> \<exists>i. find_idx P xs = Some i"
  by (cases "find_idx P xs") (auto simp: find_idx_None_iff)

lemma length_remove_at: "i < length xs \<Longrightarrow> length (remove_at i xs) = length xs - 1"
  by (auto simp: remove_at_def)

lemma set_remove_at: "set (remove_at i xs) \<subseteq> set xs"
  by (auto simp: remove_at_def dest: in_set_takeD in_set_dropD)

lemma filter_remove_at:
  assumes "i < length xs" and "\<not> P (xs ! i)"
  shows "filter P (remove_at i xs) = filter P xs"
proof -
  have "filter P xs = filter P (take i xs @ xs ! i # drop (Suc i) xs)"
    using assms(1) by (simp add: id_take_nth_drop [symmetric])
  also have "\<dots> = filter P (remove_at i xs)"
    using assms(2) by (simp add: remove_at_def)
  finally show ?thesis by simp
qed

lemma filter_update_other:
  assumes "i < length xs" and "\<not> P (xs ! i)" and "\<not> P y"
  shows "filter P (xs[i := y]) = filter P xs"
proof -
  have "filter P (xs[i := y]) = filter P (take i xs @ y # drop (Suc i) xs)"
    using assms(1) by (simp add: upd_conv_take_nth_drop)
  also have "\<dots> = filter P (take i xs @ xs ! i # drop (Suc i) xs)"
    using assms(2,3) by simp
  also have "\<dots> = filter P xs"
    using assms(1) by (simp add: id_take_nth_drop [symmetric])
  finally show ?thesis .
qed

lemma map_update_same: "f y = f (xs ! i) \<Longrightarrow> map f (xs[i := y]) = map f xs"
  by (metis list_update_id map_update)

lemma set_update_distinct:
  assumes "distinct (map f xs)" and "i < length xs" and "f y = f (xs ! i)"
  shows "set (xs[i := y]) = insert y {x \<in> set xs. f x \<noteq> f y}"
proof -
  have "distinct xs" using assms(1) by (simp add: distinct_map)
  moreover have "x \<in> set xs \<Longrightarrow> f x = f (xs ! i) \<Longrightarrow> x = xs ! i" for x
    using assms(1,2) by (auto simp: distinct_map inj_on_def)
  ultimately show ?thesis
    using assms(2,3) by (auto simp: set_update_distinct)
qed

lemma set_remove_distinct:
  assumes "distinct (map f xs)" and "i < length xs"
  shows "set (remove_at i xs) = {x \<in> set xs. f x \<noteq> f (xs ! i)}"
proof -
  have xs: "xs = take i xs @ xs ! i # drop (Suc i) xs"
    using assms(2) by (rule id_take_nth_drop)
  then have "distinct (map f (take i xs @ xs ! i # drop (Suc i) xs))"
    using assms(1) by simp
  then have "f (xs ! i) \<notin> f ` set (take i xs)" "f (xs ! i) \<notin> f ` set (drop (Suc i) xs)"
    by auto
  moreover have "set xs = set (take i xs) \<union> {xs ! i} \<union> set (drop (Suc i) xs)"
    by (subst xs) auto
  ultimately show ?thesis by (auto simp: remove_at_def) (metis image_eqI)+
qed

lemma distinct_map_remove_at: "distinct (map f xs) \<Longrightarrow> distinct (map f (remove_at i xs))"
proof -
  assume "distinct (map f xs)"
  then have d: "distinct (map f (take i xs) @ map f (drop i xs))"
    by (simp only: map_append [symmetric] append_take_drop_id)
  have sub: "set (drop (Suc i) xs) \<subseteq> set (drop i xs)" by (rule set_drop_subset_set_drop) simp
  have "distinct (map f (drop (Suc i) xs))"
    using distinct_drop [of "map f xs" "Suc i"] \<open>distinct (map f xs)\<close> by (simp add: drop_map)
  with d sub show ?thesis
    unfolding distinct_append by (fastforce simp: remove_at_def)
qed

lemma find_find_idx: "find P xs = map_option ((!) xs) (find_idx P xs)"
  by (induction xs) (auto simp: option.map_comp o_def)

lemma find_update_key:
  assumes "find_idx (\<lambda>x. f x = k) xs = Some i" and "f y = k"
  shows "find (\<lambda>x. f x = k') (xs[i := y]) = (if k' = k then Some y else find (\<lambda>x. f x = k') xs)"
  using assms
proof (induction xs arbitrary: i)
  case (Cons x xs)
  then show ?case by (cases i) (auto split: if_splits)
qed simp

lemma find_memberD: "find P xs = Some x \<Longrightarrow> x \<in> set xs \<and> P x"
  by (auto simp: find_Some_iff)

section \<open>Lemmas on scopes\<close>

lemma in_scope_empty [scope_simps, simp]: "in_scope '''' t"
  by (simp add: in_scope_def)

lemma in_scope_nonempty [scope_simps]: "flt \<noteq> '''' \<Longrightarrow> in_scope flt t \<longleftrightarrow> t = flt"
  by (simp add: in_scope_def)

lemma lookup_strict_SomeD:
  assumes "lookup_strict id_of tenant_of flt i xs = Some k"
  shows "k < length xs" and "id_of (xs ! k) = i" and "in_scope flt (tenant_of (xs ! k))"
  using assms by (auto simp: lookup_strict_def find_idx_Some_iff split: option.splits if_splits)

lemma lookup_scan_SomeD:
  assumes "lookup_scan id_of tenant_of flt i xs = Some k"
  shows "k < length xs" and "id_of (xs ! k) = i" and "in_scope flt (tenant_of (xs ! k))"
  using assms by (auto simp: lookup_scan_def find_idx_Some_iff)

lemma lookup_strictD:
  "lookup_strict f g t i xs = Some k \<Longrightarrow> t \<noteq> '''' \<Longrightarrow> k < length xs \<and> f (xs ! k) = i \<and> g (xs ! k) = t"
  by (auto dest: lookup_strict_SomeD simp: in_scope_nonempty)

text \<open>When identifiers are unique the two idioms find the same record.\<close>

lemma lookup_strict_eq_scan:
  assumes "distinct (map id_of xs)"
  shows "lookup_strict id_of tenant_of flt i xs = lookup_scan id_of tenant_of flt i xs"
proof (cases "find_idx (\<lambda>r. id_of r = i) xs")
  case None
  then have "lookup_scan id_of tenant_of flt i xs = None"
    by (auto simp: lookup_scan_def find_idx_None_iff)
  with None show ?thesis by (simp add: lookup_strict_def)
next
  case (Some k)
  note k = find_idx_SomeD [OF Some]
  have uniq: "j < length xs \<Longrightarrow> id_of (xs ! j) = i \<Longrightarrow> j = k" for j
    using k(1,2) assms by (metis distinct_conv_nth length_map nth_map)
  show ?thesis
  proof (cases "in_scope flt (tenant_of (xs ! k))")
    case True
    then have "lookup_scan id_of tenant_of flt i xs = Some k"
      using k by (auto simp: lookup_scan_def find_idx_Some_iff)
    with Some True show ?thesis by (simp add: lookup_strict_def)
  next
    case False
    then have "lookup_scan id_of tenant_of flt i xs = None"
      using uniq by (auto simp: lookup_scan_def find_idx_None_iff in_set_conv_nth)
    with Some False show ?thesis by (simp add: lookup_strict_def)
  qed
qed

lemma in_scope_other: "in_scope flt t \<Longrightarrow> flt \<noteq> '''' \<Longrightarrow> u \<noteq> flt \<Longrightarrow> t \<noteq> u"
  by (auto simp: in_scope_def)

section \<open>Lemmas on the store\<close>

lemma store_save_in_sync [store_simps]:
  "store_save e snap st = (True, st') \<Longrightarrow> in_sync snap st'"
  by (auto simp: store_save_def in_sync_def split: store.splits if_splits)

lemma store_save_ok [store_simps]: "env_save_ok e \<Longrightarrow> fst (store_save e snap st)"
  by (auto simp: store_save_def split: store.splits)

lemma store_save_fails [store_simps]:
  "\<not> fst (store_save e snap st) \<Longrightarrow> snd (store_save e snap st) = st"
  by (auto simp: store_save_def split: store.splits if_splits)

section \<open>Shared contracts\<close>

text \<open>
  Tenant isolation: an operation run for a tenant leaves the records of every other
  tenant as they were.  A service that promises it for each operation keeps it for any
  sequence of operations.
\<close>

locale tenant_isolated =
  fixes recs :: "'s \<Rightarrow> 'r list"
    and tenant_of :: "'r \<Rightarrow> string"
    and scope_of :: "'op \<Rightarrow> string"
    and step :: "env \<Rightarrow> 'op \<Rightarrow> 's \<Rightarrow> 's"
  assumes step_isolated:
    "scope_of op \<noteq> '''' \<Longrightarrow> t \<noteq> scope_of op \<Longrightarrow>
     filter (\<lambda>r. tenant_of r = t) (recs (step e op s)) = filter (\<lambda>r. tenant_of r = t) (recs s)"
begin

lemma run_isolated:
  "(\<And>e op. (e, op) \<in> set ops \<Longrightarrow> scope_of op \<noteq> '''' \<and> scope_of op \<noteq> t) \<Longrightarrow>
   filter (\<lambda>r. tenant_of r = t) (recs (fold (\<lambda>(e, op). step e op) ops s)) =
   filter (\<lambda>r. tenant_of r = t) (recs s)"
proof (induction ops arbitrary: s)
  case Nil
  then show ?case by simp
next
  case (Cons eo ops)
  obtain e op where eo: "eo = (e, op)" by fastforce
  from Cons.prems [of e op] eo have ne: "scope_of op \<noteq> ''''" "t \<noteq> scope_of op"
    by auto
  have "filter (\<lambda>r. tenant_of r = t) (recs (fold (\<lambda>(e, op). step e op) ops (step e op s))) =
        filter (\<lambda>r. tenant_of r = t) (recs (step e op s))"
    by (rule Cons.IH) (use Cons.prems in auto)
  with step_isolated [OF ne] eo show ?case by simp
qed

end

text \<open>
  Durability: while every save succeeds, the stored snapshot is the in-memory state after
  each operation, so a restart restores it.
\<close>

locale durable =
  fixes snap_of :: "'s \<Rightarrow> 'snap"
    and store_of :: "'s \<Rightarrow> 'snap store"
    and step :: "env \<Rightarrow> 'op \<Rightarrow> 's \<Rightarrow> 's"
  assumes step_in_sync:
    "env_save_ok e \<Longrightarrow> in_sync (snap_of s) (store_of s) \<Longrightarrow>
     in_sync (snap_of (step e op s)) (store_of (step e op s))"
begin

lemma run_in_sync:
  "(\<And>e op. (e, op) \<in> set ops \<Longrightarrow> env_save_ok e) \<Longrightarrow> in_sync (snap_of s) (store_of s) \<Longrightarrow>
   in_sync (snap_of (fold (\<lambda>(e, op). step e op) ops s))
           (store_of (fold (\<lambda>(e, op). step e op) ops s))"
proof (induction ops arbitrary: s)
  case Nil
  then show ?case by simp
next
  case (Cons eo ops)
  obtain e op where eo: "eo = (e, op)" by fastforce
  with Cons.prems have "env_save_ok e" by auto
  then have "in_sync (snap_of (step e op s)) (store_of (step e op s))"
    using Cons.prems(2) by (rule step_in_sync)
  then have "in_sync (snap_of (fold (\<lambda>(e, op). step e op) ops (step e op s)))
                     (store_of (fold (\<lambda>(e, op). step e op) ops (step e op s)))"
    by (rule Cons.IH [rotated]) (use Cons.prems(1) in auto)
  with eo show ?case by simp
qed

end

text \<open>
  Update-or-insert by key: looking a key up after a put gives the value put under an equal
  key, else what was there.  Putting a list of values leaves the last one for each key.
\<close>

locale upsert =
  fixes lookup :: "'k \<Rightarrow> 's \<Rightarrow> 'v option"
    and put :: "'v \<Rightarrow> 's \<Rightarrow> 's"
    and has_key :: "'v \<Rightarrow> 'k \<Rightarrow> bool"
  assumes lookup_put: "lookup k (put v s) = (if has_key v k then Some v else lookup k s)"
begin

lemma lookup_fold_put:
  "lookup k (fold put vs s) =
   (case find (\<lambda>v. has_key v k) (rev vs) of Some v \<Rightarrow> Some v | None \<Rightarrow> lookup k s)"
proof (induction vs rule: rev_induct)
  case Nil
  then show ?case by simp
next
  case (snoc v vs)
  then show ?case by (simp add: lookup_put)
qed

end

text \<open>
  A status field driven by a transition table: a terminal status has no exit, so once a
  record reaches it every later update leaves it there.
\<close>

locale status_machine =
  fixes can_transit :: "string \<Rightarrow> string \<Rightarrow> bool"
    and terminal :: "string \<Rightarrow> bool"
  assumes stay: "can_transit s s"
    and terminal_closed: "terminal s \<Longrightarrow> can_transit s s' \<Longrightarrow> s' = s"
begin

lemma terminal_forever: "can_transit\<^sup>*\<^sup>* s s' \<Longrightarrow> terminal s \<Longrightarrow> s' = s"
  by (induction rule: rtranclp_induct) (auto dest: terminal_closed)

end

end
