(* ===== verification/Go_Strings.thy ===== *)
theory Go_Strings
  imports MP_Prelude "HOL-Library.Char_ord"
begin

text \<open>
  Go strings are byte sequences, here \<open>string\<close> (a list of 8-bit characters).
  \<open>strings.TrimSpace\<close> removes the UTF-8 encodings of the 25 code points of
  \<open>unicode.IsSpace\<close>.  \<open>strings.ToLower\<close>, \<open>strings.ToUpper\<close> and
  \<open>strings.EqualFold\<close> are modelled on ASCII letters: bytes from 0x80 on are left as
  they are.  A Go \<open>int\<close> is 64 bits wide; \<open>wrap64\<close> writes its wrap-around out.
\<close>

section \<open>White space\<close>

definition space_seqs :: "string list" where
  "space_seqs =
     [[CHR 0x20], [CHR 0x09], [CHR 0x0A], [CHR 0x0B], [CHR 0x0C], [CHR 0x0D],
      [CHR 0xC2, CHR 0x85], [CHR 0xC2, CHR 0xA0], [CHR 0xE1, CHR 0x9A, CHR 0x80],
      [CHR 0xE2, CHR 0x80, CHR 0x80], [CHR 0xE2, CHR 0x80, CHR 0x81],
      [CHR 0xE2, CHR 0x80, CHR 0x82], [CHR 0xE2, CHR 0x80, CHR 0x83],
      [CHR 0xE2, CHR 0x80, CHR 0x84], [CHR 0xE2, CHR 0x80, CHR 0x85],
      [CHR 0xE2, CHR 0x80, CHR 0x86], [CHR 0xE2, CHR 0x80, CHR 0x87],
      [CHR 0xE2, CHR 0x80, CHR 0x88], [CHR 0xE2, CHR 0x80, CHR 0x89],
      [CHR 0xE2, CHR 0x80, CHR 0x8A], [CHR 0xE2, CHR 0x80, CHR 0xA8],
      [CHR 0xE2, CHR 0x80, CHR 0xA9], [CHR 0xE2, CHR 0x80, CHR 0xAF],
      [CHR 0xE2, CHR 0x81, CHR 0x9F], [CHR 0xE3, CHR 0x80, CHR 0x80]]"

definition leading :: "string list \<Rightarrow> string \<Rightarrow> string option" where
  "leading seqs s = find (\<lambda>q. q \<noteq> [] \<and> take (length q) s = q) seqs"

function strip_left :: "string list \<Rightarrow> string \<Rightarrow> string" where
  "strip_left seqs s =
     (case leading seqs s of None \<Rightarrow> s | Some q \<Rightarrow> strip_left seqs (drop (length q) s))"
  by pat_completeness auto
termination
proof (relation "measure (\<lambda>(seqs, s). length s)", goal_cases)
  case 1
  show ?case by simp
next
  case (2 seqs s q)
  then have q: "q \<noteq> []" "take (length q) s = q"
    by (auto simp: leading_def find_Some_iff)
  then have "s \<noteq> []" by auto
  with q show ?case by simp
qed

declare strip_left.simps [simp del]

definition strip_right :: "string list \<Rightarrow> string \<Rightarrow> string" where
  "strip_right seqs s = rev (strip_left (map rev seqs) (rev s))"

definition trim_space :: "string \<Rightarrow> string" where
  "trim_space s = strip_right space_seqs (strip_left space_seqs s)"

section \<open>Case, splitting, digits\<close>

definition lower_char :: "char \<Rightarrow> char" where
  "lower_char c = (let n = (of_char c :: nat) in if 65 \<le> n \<and> n \<le> 90 then char_of (n + 32) else c)"

definition upper_char :: "char \<Rightarrow> char" where
  "upper_char c = (let n = (of_char c :: nat) in if 97 \<le> n \<and> n \<le> 122 then char_of (n - 32) else c)"

definition to_lower :: "string \<Rightarrow> string" where
  "to_lower s = map lower_char s"

definition to_upper :: "string \<Rightarrow> string" where
  "to_upper s = map upper_char s"

definition equal_fold :: "string \<Rightarrow> string \<Rightarrow> bool" where
  "equal_fold a b \<longleftrightarrow> to_lower a = to_lower b"

fun split_on :: "char \<Rightarrow> string \<Rightarrow> string list" where
  "split_on c [] = [[]]"
| "split_on c (x # xs) =
     (if x = c then [] # split_on c xs
      else (case split_on c xs of [] \<Rightarrow> [[x]] | w # ws \<Rightarrow> (x # w) # ws))"

text \<open>\<open>strings.SplitN(s, sep, 2)\<close>: the part before and after the first separator.\<close>

fun split_first :: "char \<Rightarrow> string \<Rightarrow> (string \<times> string) option" where
  "split_first c [] = None"
| "split_first c (x # xs) =
     (if x = c then Some ([], xs)
      else (case split_first c xs of None \<Rightarrow> None | Some (a, b) \<Rightarrow> Some (x # a, b)))"

definition is_digit :: "char \<Rightarrow> bool" where
  "is_digit c \<longleftrightarrow> (let n = (of_char c :: nat) in 48 \<le> n \<and> n \<le> 57)"

definition digit_val :: "char \<Rightarrow> int" where
  "digit_val c = of_char c - 48"

definition wrap64 :: "int \<Rightarrow> int" where
  "wrap64 x = (x + 2 ^ 63) mod 2 ^ 64 - 2 ^ 63"

text \<open>
  \<open>for _, ch := range s { if ch >= '0' && ch <= '9' { n = n*10 + int(ch-'0') } }\<close>:
  every other character is skipped.
\<close>

fun digits_acc :: "int \<Rightarrow> string \<Rightarrow> int" where
  "digits_acc n [] = n"
| "digits_acc n (c # cs) =
     digits_acc (if is_digit c then wrap64 (n * 10 + digit_val c) else n) cs"

section \<open>Lemmas on trimming\<close>

lemma leading_SomeD:
  assumes "leading seqs s = Some q"
  shows "q \<in> set seqs" and "q \<noteq> []" and "take (length q) s = q"
  using assms by (auto simp: leading_def find_Some_iff)

lemma leading_None_iff:
  "leading seqs s = None \<longleftrightarrow> (\<forall>q\<in>set seqs. q \<noteq> [] \<longrightarrow> take (length q) s \<noteq> q)"
  by (auto simp: leading_def find_None_iff)

lemma strip_left_fixed: "leading seqs s = None \<Longrightarrow> strip_left seqs s = s"
  by (simp add: strip_left.simps [of seqs s])

lemma leading_strip_left [simp]: "leading seqs (strip_left seqs s) = None"
proof (induction seqs s rule: strip_left.induct)
  case (1 seqs s)
  then show ?case
    by (cases "leading seqs s") (simp_all add: strip_left.simps [of seqs s])
qed

lemma strip_left_idem [simp]: "strip_left seqs (strip_left seqs s) = strip_left seqs s"
  by (simp add: strip_left_fixed)

lemma strip_left_suffix: "\<exists>p. s = p @ strip_left seqs s"
proof (induction seqs s rule: strip_left.induct)
  case (1 seqs s)
  show ?case
  proof (cases "leading seqs s")
    case None
    then show ?thesis by (simp add: strip_left_fixed)
  next
    case (Some q)
    then obtain p where p: "drop (length q) s = p @ strip_left seqs (drop (length q) s)"
      using 1 by blast
    have "s = take (length q) s @ drop (length q) s" by simp
    also have "\<dots> = (take (length q) s @ p) @ strip_left seqs s"
      using p Some by (simp add: strip_left.simps [of seqs s])
    finally show ?thesis by blast
  qed
qed

lemma strip_right_idem [simp]: "strip_right seqs (strip_right seqs s) = strip_right seqs s"
  by (simp add: strip_right_def)

lemma strip_right_prefix: "\<exists>u. s = strip_right seqs s @ u"
proof -
  obtain p where "rev s = p @ strip_left (map rev seqs) (rev s)"
    using strip_left_suffix by blast
  then have "s = strip_right seqs s @ rev p"
    by (metis strip_right_def rev_append rev_rev_ident)
  then show ?thesis ..
qed

lemma leading_strip_right:
  assumes "leading seqs s = None"
  shows "leading seqs (strip_right seqs s) = None"
proof -
  obtain u where u: "s = strip_right seqs s @ u"
    using strip_right_prefix by blast
  show ?thesis
    unfolding leading_None_iff
  proof (intro ballI impI notI)
    fix q
    assume q: "q \<in> set seqs" "q \<noteq> []" "take (length q) (strip_right seqs s) = q"
    then have "length q \<le> length (strip_right seqs s)"
      by (metis length_take min.absorb_iff2 min.commute)
    then have "take (length q) s = q"
      using q(3) by (subst u) simp
    with assms q(1,2) show False by (auto simp: leading_None_iff)
  qed
qed

lemma trim_space_idem [simp]: "trim_space (trim_space s) = trim_space s"
  by (simp add: trim_space_def strip_left_fixed [OF leading_strip_right])

lemma trim_space_Nil [simp]: "trim_space [] = []"
  by (simp add: trim_space_def strip_right_def strip_left_fixed leading_None_iff)

text \<open>Printable ASCII at both ends: nothing to trim.\<close>

definition plain_char :: "char \<Rightarrow> bool" where
  "plain_char c \<longleftrightarrow> (let n = (of_char c :: nat) in 32 < n \<and> n < 127)"

lemma space_ends: "q \<in> set space_seqs \<Longrightarrow> q \<noteq> [] \<and> \<not> plain_char (hd q) \<and> \<not> plain_char (last q)"
  by (auto simp: space_seqs_def plain_char_def)

lemma leading_plain:
  assumes "\<And>q. q \<in> set seqs \<Longrightarrow> q \<noteq> [] \<and> \<not> plain_char (hd q)" and "s \<noteq> []" "plain_char (hd s)"
  shows "leading seqs s = None"
  unfolding leading_None_iff
proof (intro ballI impI notI)
  fix q
  assume q: "q \<in> set seqs" "q \<noteq> []" "take (length q) s = q"
  then have "hd s = hd q" using assms(2) by (metis hd_take length_greater_0_conv)
  with assms q show False by auto
qed

lemma trim_space_plain:
  assumes "s \<noteq> []" and "plain_char (hd s)" and "plain_char (last s)"
  shows "trim_space s = s"
proof -
  have "leading space_seqs s = None"
    using assms space_ends by (intro leading_plain) auto
  moreover have "leading (map rev space_seqs) (rev s) = None"
    using assms space_ends by (intro leading_plain) (auto simp: hd_rev)
  ultimately show ?thesis
    by (simp add: trim_space_def strip_right_def strip_left_fixed)
qed

lemma digit_plain: "is_digit c \<Longrightarrow> plain_char c"
  by (simp add: is_digit_def plain_char_def Let_def)

section \<open>Lemmas on case\<close>

lemma lower_char_idem [simp]: "lower_char (lower_char c) = lower_char c"
  by (simp add: lower_char_def Let_def)

lemma to_lower_idem [simp]: "to_lower (to_lower s) = to_lower s"
  by (simp add: to_lower_def comp_def)

lemma to_lower_Nil [simp]: "to_lower [] = []"
  by (simp add: to_lower_def)

lemma to_lower_eq_Nil [simp]: "to_lower s = [] \<longleftrightarrow> s = []"
  by (simp add: to_lower_def)

lemma equal_fold_refl [simp]: "equal_fold s s"
  by (simp add: equal_fold_def)

lemma equal_fold_sym: "equal_fold a b \<longleftrightarrow> equal_fold b a"
  by (auto simp: equal_fold_def)

lemma equal_fold_trans: "equal_fold a b \<Longrightarrow> equal_fold b c \<Longrightarrow> equal_fold a c"
  by (simp add: equal_fold_def)

lemma equal_fold_Nil [simp]: "equal_fold a [] \<longleftrightarrow> a = []"
  by (simp add: equal_fold_def)

section \<open>Lemmas on 64-bit wrap-around\<close>

lemma wrap64_small: "- (2 ^ 63) \<le> x \<Longrightarrow> x < 2 ^ 63 \<Longrightarrow> wrap64 x = x"
  by (simp add: wrap64_def)

lemma wrap64_range: "- (2 ^ 63) \<le> wrap64 x \<and> wrap64 x < 2 ^ 63"
proof -
  have "0 \<le> (x + 2 ^ 63) mod 2 ^ 64" and "(x + 2 ^ 63) mod 2 ^ 64 < (2 ^ 64 :: int)"
    by simp_all
  then show ?thesis by (simp add: wrap64_def)
qed

end
