(* ===== verification/Retry_Backoff.thy ===== *)
theory Retry_Backoff
  imports Go_Strings
begin

text \<open>
  Package \<open>retrybackoff\<close>: the delay before the n-th retry.  Durations are 64-bit
  integers; the doubling is written with its wrap-around and proved never to need it.
\<close>

definition Normalize :: "int \<Rightarrow> int \<Rightarrow> int \<times> int" where
  "Normalize base mx =
     (let base = (if base < 0 then 0 else base)
      in if base = 0 then (0, 0)
         else (base, if mx \<le> 0 \<or> mx < base then base else mx))"

text \<open>
  The loop \<open>for i := 1; i < attempt; i++\<close> with \<open>k\<close> iterations left; \<open>mx\<close> is
  positive here, so \<open>max/2\<close> is \<open>mx div 2\<close>.
\<close>

fun backoff_loop :: "nat \<Rightarrow> int \<Rightarrow> int \<Rightarrow> int" where
  "backoff_loop 0 mx delay = (if delay > mx then mx else delay)"
| "backoff_loop (Suc k) mx delay =
     (if delay \<ge> mx then mx
      else if delay > mx div 2 then mx
      else backoff_loop k mx (wrap64 (delay * 2)))"

definition Exponential :: "int \<Rightarrow> int \<Rightarrow> int \<Rightarrow> int" where
  "Exponential attempt base mx =
     (case Normalize base mx of
        (b, m) \<Rightarrow>
          if attempt \<le> 0 \<or> b \<le> 0 then 0 else backoff_loop (nat attempt - 1) m b)"

lemma backoff_loop_eq:
  assumes "0 < delay" and "delay \<le> mx" and "mx < 2 ^ 63"
  shows "backoff_loop k mx delay = min mx (delay * 2 ^ k)"
  using assms
proof (induction k arbitrary: delay)
  case 0
  then show ?case by simp
next
  case (Suc k)
  show ?case
  proof (cases "delay \<ge> mx \<or> delay > mx div 2")
    case True
    have "mx \<le> delay * 2"
      using True Suc.prems(1) by auto
    also have "\<dots> \<le> delay * 2 ^ Suc k"
      using Suc.prems(1) by simp
    finally show ?thesis using True by (auto simp: min_def)
  next
    case False
    then have d: "delay * 2 \<le> mx" by linarith
    then have "wrap64 (delay * 2) = delay * 2"
      using Suc.prems by (intro wrap64_small) linarith+
    moreover have "backoff_loop k mx (delay * 2) = min mx (delay * 2 * 2 ^ k)"
      using Suc.prems d by (intro Suc.IH) auto
    ultimately show ?thesis using False by (simp add: mult.assoc)
  qed
qed

lemma Normalize_bounds:
  "Normalize base mx = (b, m) \<Longrightarrow>
   0 \<le> b \<and> b \<le> m \<and> (0 < b \<longrightarrow> b = base \<and> m = max mx base) \<and> (base \<le> 0 \<longrightarrow> b = 0 \<and> m = 0)"
  by (auto simp: Normalize_def Let_def split: if_splits)

lemma Exponential_eq:
  assumes "0 < base" and "base < 2 ^ 63" and "mx < 2 ^ 63" and "0 < attempt"
  shows "Exponential attempt base mx = min (max mx base) (base * 2 ^ (nat attempt - 1))"
proof -
  have "Normalize base mx = (base, max mx base)"
    using assms(1) by (auto simp: Normalize_def)
  with assms show ?thesis
    by (simp add: Exponential_def backoff_loop_eq)
qed

text \<open>
  the retry delay of attempt n is \<open>min(max, base * 2^(n-1))\<close>, with \<open>max\<close> raised
  to \<open>base\<close> when it is smaller, for every pair of positive 64-bit durations (no doubling
  overflows on the way), and it never shrinks as attempts go on.
\<close>

lemma Exponential_closed_form:
  assumes "0 < base" and "base < 2 ^ 63" and "mx < 2 ^ 63" and "0 < a" and "a \<le> b"
  shows "Exponential a base mx = min (max mx base) (base * 2 ^ (nat a - 1)) \<and>
         Exponential a base mx \<le> Exponential b base mx"
proof
  show "Exponential a base mx = min (max mx base) (base * 2 ^ (nat a - 1))"
    using assms(1-4) by (rule Exponential_eq)
  have "(2 :: int) ^ (nat a - 1) \<le> 2 ^ (nat b - 1)"
    using assms(4,5) by (intro power_increasing) auto
  then have "base * 2 ^ (nat a - 1) \<le> base * 2 ^ (nat b - 1)"
    using assms(1) by (intro mult_left_mono) simp_all
  moreover have "0 < b" using assms(4,5) by simp
  ultimately show "Exponential a base mx \<le> Exponential b base mx"
    unfolding Exponential_eq [OF assms(1-4)] Exponential_eq [OF assms(1-3) \<open>0 < b\<close>]
    by (intro min.mono order_refl)
qed

lemma Exponential_closed_form_instance:
  "Exponential 3 5 30 = min (max 30 5) (5 * 2 ^ (nat 3 - 1)) \<and> Exponential 3 5 30 \<le> Exponential 4 5 30"
  using Exponential_closed_form [of 5 30 3 4] by simp

lemma Exponential_zero: "attempt \<le> 0 \<or> base \<le> 0 \<Longrightarrow> Exponential attempt base mx = 0"
  by (auto simp: Exponential_def Normalize_def Let_def split: if_splits)

end
