(* ===== verification/Go_Time.thy ===== *)
theory Go_Time
  imports Go_Strings "HOL-Library.Monad_Syntax"
begin

text \<open>
  The part of Go's \<open>time\<close> package the services use.  A \<open>time.Time\<close> is an instant:
  nanoseconds since the Unix epoch in UTC; the zero \<open>time.Time\<close> is the first of January
  of year 1.  A \<open>time.Duration\<close> is a number of nanoseconds; \<open>Sub\<close> saturates at the
  64-bit limits.  The calendar is the proleptic Gregorian one, computed as the library
  does, by 400-, 100-, 4- and 1-year cycles counted from the first of March.
  \<open>parse_rfc3339\<close> is \<open>time.Parse(time.RFC3339, s)\<close>, error as \<open>None\<close>.
\<close>

section \<open>Durations and comparisons\<close>

definition ns_second :: int where "ns_second = 1000000000"
definition ns_minute :: int where "ns_minute = 60 * ns_second"
definition ns_hour :: int where "ns_hour = 60 * ns_minute"

definition zero_time :: time where
  "zero_time = - 62135596800 * 1000000000"

definition is_zero :: "time \<Rightarrow> bool" where
  "is_zero t \<longleftrightarrow> t = zero_time"

definition time_sub :: "time \<Rightarrow> time \<Rightarrow> int" where
  "time_sub t u = max (- (2 ^ 63)) (min (2 ^ 63 - 1) (t - u))"

definition unix_sec :: "time \<Rightarrow> int" where
  "unix_sec t = t div ns_second"

lemmas duration_defs = ns_second_def ns_minute_def ns_hour_def

section \<open>Calendar\<close>

definition days_from_civil :: "int \<Rightarrow> int \<Rightarrow> int \<Rightarrow> int" where
  "days_from_civil y m d =
     (let y' = (if m \<le> 2 then y - 1 else y);
          era = y' div 400;
          yoe = y' mod 400;
          mp = (if m \<le> 2 then m + 9 else m - 3);
          doy = (153 * mp + 2) div 5 + d - 1
      in era * 146097 + (yoe * 365 + yoe div 4 - yoe div 100 + doy) - 719468)"

definition civil_from_days :: "int \<Rightarrow> int \<times> int \<times> int" where
  "civil_from_days z =
     (let z' = z + 719468;
          era = z' div 146097;
          doe = z' mod 146097;
          c = min 3 (doe div 36524);
          r1 = doe - c * 36524;
          q = r1 div 1461;
          r2 = r1 mod 1461;
          a = min 3 (r2 div 365);
          doy = r2 - a * 365;
          mp = (5 * doy + 2) div 153;
          d = doy - (153 * mp + 2) div 5 + 1;
          m = (if mp < 10 then mp + 3 else mp - 9);
          y = era * 400 + c * 100 + q * 4 + a
      in (if m \<le> 2 then y + 1 else y, m, d))"

definition day_of :: "time \<Rightarrow> int" where
  "day_of t = unix_sec t div 86400"

definition sec_of_day :: "time \<Rightarrow> int" where
  "sec_of_day t = unix_sec t mod 86400"

definition hour_of :: "time \<Rightarrow> int" where
  "hour_of t = sec_of_day t div 3600"

definition minute_of :: "time \<Rightarrow> int" where
  "minute_of t = sec_of_day t mod 3600 div 60"

definition second_of :: "time \<Rightarrow> int" where
  "second_of t = sec_of_day t mod 60"

datatype weekday = Sunday | Monday | Tuesday | Wednesday | Thursday | Friday | Saturday

fun weekday_num :: "weekday \<Rightarrow> int" where
  "weekday_num Sunday = 0"
| "weekday_num Monday = 1"
| "weekday_num Tuesday = 2"
| "weekday_num Wednesday = 3"
| "weekday_num Thursday = 4"
| "weekday_num Friday = 5"
| "weekday_num Saturday = 6"

definition weekday_of_num :: "int \<Rightarrow> weekday" where
  "weekday_of_num n =
     (if n = 0 then Sunday else if n = 1 then Monday else if n = 2 then Tuesday
      else if n = 3 then Wednesday else if n = 4 then Thursday else if n = 5 then Friday
      else Saturday)"

text \<open>The first of January 1970 was a Thursday.\<close>

definition weekday_of :: "time \<Rightarrow> weekday" where
  "weekday_of t = weekday_of_num ((day_of t + 4) mod 7)"

text \<open>Go compares weekdays by their number.\<close>

instantiation weekday :: linorder
begin

definition less_eq_weekday :: "weekday \<Rightarrow> weekday \<Rightarrow> bool" where
  "less_eq_weekday a b \<longleftrightarrow> weekday_num a \<le> weekday_num b"

definition less_weekday :: "weekday \<Rightarrow> weekday \<Rightarrow> bool" where
  "less_weekday a b \<longleftrightarrow> weekday_num a < weekday_num b"

instance
proof
  fix x y z :: weekday
  show "(x < y) = (x \<le> y \<and> \<not> y \<le> x)"
    by (auto simp: less_eq_weekday_def less_weekday_def)
  show "x \<le> x"
    by (simp add: less_eq_weekday_def)
  show "x \<le> y \<Longrightarrow> y \<le> z \<Longrightarrow> x \<le> z"
    by (simp add: less_eq_weekday_def)
  show "x \<le> y \<Longrightarrow> y \<le> x \<Longrightarrow> x = y"
    by (cases x; cases y) (simp_all add: less_eq_weekday_def)
  show "x \<le> y \<or> y \<le> x"
    by (auto simp: less_eq_weekday_def)
qed

end

section \<open>Formatting\<close>

definition digit_char :: "int \<Rightarrow> char" where
  "digit_char n = char_of (nat (48 + n mod 10))"

definition fmt2 :: "int \<Rightarrow> string" where
  "fmt2 n = [digit_char (n div 10), digit_char n]"

fun show_nat :: "nat \<Rightarrow> string" where
  "show_nat n = (if n < 10 then [digit_char (int n)] else show_nat (n div 10) @ [digit_char (int n)])"

declare show_nat.simps [simp del]

definition show_int :: "int \<Rightarrow> string" where
  "show_int n = (if n < 0 then CHR ''-'' # show_nat (nat (- n)) else show_nat (nat n))"

definition fmt4 :: "int \<Rightarrow> string" where
  "fmt4 n =
     (if 0 \<le> n \<and> n \<le> 9999
      then [digit_char (n div 1000), digit_char (n div 100), digit_char (n div 10), digit_char n]
      else show_int n)"

definition format_date :: "time \<Rightarrow> string" where
  "format_date t =
     (case civil_from_days (day_of t) of
        (y, m, d) \<Rightarrow> fmt4 y @ ''-'' @ fmt2 m @ ''-'' @ fmt2 d)"

definition format_rfc3339 :: "time \<Rightarrow> string" where
  "format_rfc3339 t =
     format_date t @ ''T'' @ fmt2 (hour_of t) @ '':'' @ fmt2 (minute_of t) @ '':'' @
     fmt2 (second_of t) @ ''Z''"

section \<open>Parsing RFC 3339\<close>

fun num_fixed :: "nat \<Rightarrow> string \<Rightarrow> (int \<times> string) option" where
  "num_fixed 0 s = Some (0, s)"
| "num_fixed (Suc n) s =
     (case s of
        [] \<Rightarrow> None
      | c # cs \<Rightarrow>
          if is_digit c
          then map_option (\<lambda>(v, r). (digit_val c * 10 ^ n + v, r)) (num_fixed n cs)
          else None)"

text \<open>The library's \<open>getnum(value, false)\<close>: one digit or two.\<close>

definition num_one_or_two :: "string \<Rightarrow> (int \<times> string) option" where
  "num_one_or_two s =
     (case s of
        a # b # r \<Rightarrow>
          if is_digit a then
            (if is_digit b then Some (digit_val a * 10 + digit_val b, r)
             else Some (digit_val a, b # r))
          else None
      | [a] \<Rightarrow> if is_digit a then Some (digit_val a, []) else None
      | [] \<Rightarrow> None)"

definition expect :: "char \<Rightarrow> string \<Rightarrow> string option" where
  "expect c s = (case s of [] \<Rightarrow> None | x # xs \<Rightarrow> if x = c then Some xs else None)"

definition in_range :: "int \<Rightarrow> int \<Rightarrow> int \<Rightarrow> unit option" where
  "in_range lo hi n = (if lo \<le> n \<and> n \<le> hi then Some () else None)"

definition is_leap :: "int \<Rightarrow> bool" where
  "is_leap y \<longleftrightarrow> y mod 4 = 0 \<and> (y mod 100 \<noteq> 0 \<or> y mod 400 = 0)"

definition days_in :: "int \<Rightarrow> int \<Rightarrow> int" where
  "days_in m y =
     (if m = 2 then (if is_leap y then 29 else 28)
      else if m = 4 \<or> m = 6 \<or> m = 9 \<or> m = 11 then 30 else 31)"

definition frac_ns :: "string \<Rightarrow> int \<times> string" where
  "frac_ns s =
     (case s of
        p # d # r \<Rightarrow>
          if (p = CHR ''.'' \<or> p = CHR '','') \<and> is_digit d then
            (let ds = takeWhile is_digit (d # r);
                 ds9 = take 9 ds
             in (foldl (\<lambda>n c. n * 10 + digit_val c) 0 ds9 * 10 ^ (9 - length ds9),
                 dropWhile is_digit (d # r)))
          else (0, s)
      | _ \<Rightarrow> (0, s))"

definition zone_offset :: "string \<Rightarrow> (int \<times> string) option" where
  "zone_offset s =
     (case s of
        [] \<Rightarrow> None
      | z # r \<Rightarrow>
          if z = CHR ''Z'' then Some (0, r)
          else do {
            (hh, r1) \<leftarrow> num_fixed 2 r;
            r2 \<leftarrow> expect (CHR '':'') r1;
            (mm, r3) \<leftarrow> num_fixed 2 r2;
            in_range 0 24 hh;
            in_range 0 60 mm;
            (if z = CHR ''+'' then Some ((hh * 60 + mm) * 60, r3)
             else if z = CHR ''-'' then Some (- ((hh * 60 + mm) * 60), r3)
             else None)
          })"

definition parse_rfc3339 :: "string \<Rightarrow> time option" where
  "parse_rfc3339 s = do {
     (y, s) \<leftarrow> num_fixed 4 s;
     s \<leftarrow> expect (CHR ''-'') s;
     (mo, s) \<leftarrow> num_fixed 2 s;
     in_range 1 12 mo;
     s \<leftarrow> expect (CHR ''-'') s;
     (d, s) \<leftarrow> num_fixed 2 s;
     s \<leftarrow> expect (CHR ''T'') s;
     (h, s) \<leftarrow> num_one_or_two s;
     in_range 0 23 h;
     s \<leftarrow> expect (CHR '':'') s;
     (mi, s) \<leftarrow> num_fixed 2 s;
     in_range 0 59 mi;
     s \<leftarrow> expect (CHR '':'') s;
     (sec, s) \<leftarrow> num_fixed 2 s;
     in_range 0 59 sec;
     (let (ns, s) = frac_ns s in do {
        (off, s) \<leftarrow> zone_offset s;
        in_range 1 (days_in mo y) d;
        (if s = [] then
           Some ((days_from_civil y mo d * 86400 + h * 3600 + mi * 60 + sec - off)
                 * 1000000000 + ns)
         else None)
     })
   }"

section \<open>Lemmas\<close>

lemma hour_of_range: "0 \<le> hour_of t \<and> hour_of t \<le> 23"
proof -
  have "0 \<le> sec_of_day t" and "sec_of_day t < 86400"
    by (simp_all add: sec_of_day_def)
  then have "0 \<le> sec_of_day t div 3600" and "sec_of_day t div 3600 \<le> 86399 div 3600"
    by (simp, intro zdiv_mono1) simp_all
  then show ?thesis by (simp add: hour_of_def)
qed

lemma minute_of_range: "0 \<le> minute_of t \<and> minute_of t \<le> 59"
proof -
  have "0 \<le> sec_of_day t mod 3600" and "sec_of_day t mod 3600 < 3600"
    by simp_all
  then have "0 \<le> sec_of_day t mod 3600 div 60"
    and "sec_of_day t mod 3600 div 60 \<le> 3599 div 60"
    by (simp, intro zdiv_mono1) simp_all
  then show ?thesis by (simp add: minute_of_def)
qed

lemma second_of_range: "0 \<le> second_of t \<and> second_of t \<le> 59"
  by (simp add: second_of_def)

lemma weekday_of_num_inverse: "0 \<le> n \<Longrightarrow> n \<le> 6 \<Longrightarrow> weekday_num (weekday_of_num n) = n"
  by (auto simp: weekday_of_num_def)

lemma weekday_num_range: "0 \<le> weekday_num w \<and> weekday_num w \<le> 6"
  by (cases w) simp_all

lemma time_sub_small:
  "\<bar>t - u\<bar> < 2 ^ 63 \<Longrightarrow> time_sub t u = t - u"
  by (simp add: time_sub_def)

text \<open>
  Whatever the saturation, comparing a difference with a duration of the 64-bit range is
  comparing the instants.
\<close>

lemma time_sub_less_iff:
  "- (2 ^ 63) < d \<Longrightarrow> d \<le> 2 ^ 63 - 1 \<Longrightarrow> time_sub t u < d \<longleftrightarrow> t - u < d"
  by (auto simp: time_sub_def)

lemma time_sub_gt_iff:
  "- (2 ^ 63) \<le> d \<Longrightarrow> d < 2 ^ 63 - 1 \<Longrightarrow> d < time_sub t u \<longleftrightarrow> d < t - u"
  by (auto simp: time_sub_def)

text \<open>The calendar computed from a day number names that day again.\<close>

lemma civil_round_trip:
  "(case civil_from_days z of (y, m, d) \<Rightarrow> days_from_civil y m d) = z"
proof -
  define z' where "z' = z + 719468"
  define era where "era = z' div 146097"
  define doe where "doe = z' mod 146097"
  define c where "c = min 3 (doe div 36524)"
  define r1 where "r1 = doe - c * 36524"
  define q where "q = r1 div 1461"
  define r2 where "r2 = r1 mod 1461"
  define a where "a = min 3 (r2 div 365)"
  define doy where "doy = r2 - a * 365"
  define mp where "mp = (5 * doy + 2) div 153"
  define y where "y = era * 400 + c * 100 + q * 4 + a"
  have z: "z = era * 146097 + doe - 719468"
    by (simp add: era_def doe_def z'_def)
  have doe: "0 \<le> doe" "doe < 146097"
    by (simp_all add: doe_def)
  have c: "0 \<le> c" "c \<le> 3" and r1: "0 \<le> r1" "r1 \<le> 36524" "c < 3 \<longrightarrow> r1 < 36524"
    using doe unfolding r1_def c_def by (auto simp: min_def)
  have q: "0 \<le> q" "q \<le> 24" and r2: "0 \<le> r2" "r2 < 1461" and r1q: "r1 = 1461 * q + r2"
    using r1 unfolding q_def r2_def by auto
  have a: "0 \<le> a" "a \<le> 3" and doy: "0 \<le> doy" "doy \<le> 365"
    using r2 unfolding doy_def a_def by (auto simp: min_def)
  have mp: "0 \<le> mp" "mp \<le> 11"
    using doy unfolding mp_def by auto
  have yoe: "y mod 400 = c * 100 + q * 4 + a" "y div 400 = era"
  proof -
    have y': "y = (c * 100 + q * 4 + a) + era * 400"
      by (simp add: y_def)
    have lt: "0 \<le> c * 100 + q * 4 + a" "c * 100 + q * 4 + a < 400"
      using c q a by linarith+
    show "y mod 400 = c * 100 + q * 4 + a"
      unfolding y' using lt by (simp only: mod_mult_self1 mod_pos_pos_trivial)
    show "y div 400 = era"
      unfolding y' using lt by (simp only: div_mult_self1 div_pos_pos_trivial)
  qed
  have y4: "(c * 100 + q * 4 + a) div 4 = c * 25 + q"
    using a by auto
  have y100: "(c * 100 + q * 4 + a) div 100 = c"
    using q a by auto
  have days: "doe = c * 36524 + q * 1461 + a * 365 + doy"
    using r1q by (simp add: r1_def doy_def)
  let ?m = "if mp < 10 then mp + 3 else mp - 9"
  let ?d = "doy - (153 * mp + 2) div 5 + 1"
  have civil: "civil_from_days z = (if ?m \<le> 2 then y + 1 else y, ?m, ?d)"
    unfolding civil_from_days_def Let_def y_def mp_def doy_def a_def r2_def q_def r1_def c_def
      doe_def era_def z'_def by (rule refl)
  have "days_from_civil (if ?m \<le> 2 then y + 1 else y) ?m ?d = z"
  proof (cases "mp < 10")
    case True
    with mp have "\<not> ?m \<le> 2" by simp
    with True yoe y4 y100 days z show ?thesis
      by (simp add: days_from_civil_def Let_def)
  next
    case False
    with mp have "?m \<le> 2" by simp
    with False yoe y4 y100 days z show ?thesis
      by (simp add: days_from_civil_def Let_def)
  qed
  with civil show ?thesis by simp
qed

text \<open>The month and the day it names exist.\<close>

lemma decode_month:
  "0 \<le> (k :: int) \<Longrightarrow> k \<le> 11 \<Longrightarrow> k \<in> {0, 1, 2, 3, 4, 5, 6, 7, 8, 9, 10, 11}"
  by (cases "k \<le> 5") auto

lemma month_day_bounds:
  fixes doy :: int
  assumes "0 \<le> doy" and "doy \<le> 365" and "mp = (5 * doy + 2) div 153"
    and "m = (if mp < 10 then mp + 3 else mp - 9)" and "d = doy - (153 * mp + 2) div 5 + 1"
  shows "1 \<le> m \<and> m \<le> 12 \<and> 1 \<le> d" and "m \<noteq> 2 \<Longrightarrow> d \<le> days_in m y"
    and "m = 2 \<Longrightarrow> d \<le> 29 \<and> (d = 29 \<longrightarrow> doy = 365)"
proof -
  have mp0: "0 \<le> mp" "mp \<le> 11"
    using assms by auto
  have dm: "153 * mp \<le> 5 * doy + 2" "5 * doy + 2 < 153 * mp + 153"
    using assms(3) by auto
  consider "mp = 0" | "mp = 1" | "mp = 2" | "mp = 3" | "mp = 4" | "mp = 5" | "mp = 6"
    | "mp = 7" | "mp = 8" | "mp = 9" | "mp = 10" | "mp = 11"
    using decode_month [OF mp0] by auto
  then have *: "(1 \<le> m \<and> m \<le> 12 \<and> 1 \<le> d) \<and> (m \<noteq> 2 \<longrightarrow> d \<le> days_in m y) \<and>
      (m = 2 \<longrightarrow> d \<le> 29 \<and> (d = 29 \<longrightarrow> doy = 365))"
    using dm assms(2,4,5) by cases (simp_all add: days_in_def)
  then show "1 \<le> m \<and> m \<le> 12 \<and> 1 \<le> d" and "m \<noteq> 2 \<Longrightarrow> d \<le> days_in m y"
    and "m = 2 \<Longrightarrow> d \<le> 29 \<and> (d = 29 \<longrightarrow> doy = 365)"
    by blast+
qed

lemma civil_valid:
  assumes "civil_from_days z = (y, m, d)"
  shows "1 \<le> m \<and> m \<le> 12 \<and> 1 \<le> d \<and> d \<le> days_in m y"
proof -
  define doe where "doe = (z + 719468) mod 146097"
  define c where "c = min 3 (doe div 36524)"
  define r1 where "r1 = doe - c * 36524"
  define q where "q = r1 div 1461"
  define r2 where "r2 = r1 mod 1461"
  define a where "a = min 3 (r2 div 365)"
  define doy where "doy = r2 - a * 365"
  define y0 where "y0 = (z + 719468) div 146097 * 400 + c * 100 + q * 4 + a"
  let ?mp = "(5 * doy + 2) div 153"
  let ?m = "if ?mp < 10 then ?mp + 3 else ?mp - 9"
  let ?d = "doy - (153 * ?mp + 2) div 5 + 1"
  have civil: "civil_from_days z = (if ?m \<le> 2 then y0 + 1 else y0, ?m, ?d)"
    unfolding civil_from_days_def Let_def y0_def doy_def a_def r2_def q_def r1_def c_def doe_def
    by (rule refl)
  note tup = trans [OF civil [symmetric] assms]
  have md: "m = ?m" "d = ?d"
    using arg_cong [OF tup, of "\<lambda>p. fst (snd p)"] arg_cong [OF tup, of "\<lambda>p. snd (snd p)"]
    by (simp_all only: fst_conv snd_conv)
  have yeq: "y = (if m \<le> 2 then y0 + 1 else y0)"
    using arg_cong [OF tup, of fst] unfolding md(1) [symmetric] fst_conv by (rule sym)
  have doe: "0 \<le> doe" "doe < 146097"
    by (simp_all add: doe_def)
  have c: "0 \<le> c" "c \<le> 3" and r1: "0 \<le> r1" "r1 \<le> 36524" "c < 3 \<longrightarrow> r1 < 36524"
    using doe unfolding r1_def c_def by (auto simp: min_def)
  have q: "0 \<le> q" "q \<le> 24" and r2: "0 \<le> r2" "r2 < 1461" and r1q: "r1 = 1461 * q + r2"
    using r1 unfolding q_def r2_def by auto
  have a: "0 \<le> a" "a \<le> 3" and doy: "0 \<le> doy" "doy \<le> 365"
    using r2 unfolding doy_def a_def by (auto simp: min_def)
  note b = month_day_bounds [OF doy refl md]
  have leap: "is_leap y" if "m = 2" "doy = 365"
  proof -
    from that(2) have r2v: "r2 = 1460" "a = 3"
      using r2 unfolding doy_def a_def by (auto simp: min_def split: if_splits)
    have y: "y = ((z + 719468) div 146097) * 400 + c * 100 + (q + 1) * 4"
      using yeq that(1) r2v by (simp add: y0_def)
    show ?thesis
    proof (cases "q = 24")
      case True
      with r1q r2v r1 have "c = 3" using c by auto
      with True y have "y = ((z + 719468) div 146097 + 1) * 400" by simp
      then have "y mod 400 = 0" "y mod 4 = 0" by (auto simp: mod_mult_right_eq)
      then show ?thesis by (simp add: is_leap_def)
    next
      case False
      have y4: "y = 4 * (((z + 719468) div 146097) * 100 + c * 25 + q + 1)"
        using y by simp
      have "y = (q + 1) * 4 + 100 * (((z + 719468) div 146097) * 4 + c)"
        using y by simp
      then have "y mod 100 = ((q + 1) * 4) mod 100"
        by (metis mod_mult_self2)
      also have "\<dots> = (q + 1) * 4"
        using q False by (intro mod_pos_pos_trivial) auto
      finally have "y mod 100 \<noteq> 0" using q by simp
      moreover from y4 have "y mod 4 = 0" by simp
      ultimately show ?thesis by (simp add: is_leap_def)
    qed
  qed
  show ?thesis
  proof (cases "m = 2")
    case True
    with b(3) leap have "d \<le> days_in m y"
      by (cases "d = 29") (auto simp: days_in_def)
    with b(1) show ?thesis by blast
  next
    case False
    with b(1,2) show ?thesis by blast
  qed
qed

lemma of_char_digit_char: "(of_char (digit_char n) :: nat) = nat (48 + n mod 10)"
proof -
  have "0 \<le> n mod 10" and "n mod 10 < 10" by simp_all
  then have "nat (48 + n mod 10) < 256" by linarith
  then show ?thesis by (simp add: digit_char_def)
qed

lemma digit_char_digit [simp]: "is_digit (digit_char n)"
proof -
  have "0 \<le> n mod 10" and "n mod 10 < 10" by simp_all
  then show ?thesis by (simp add: is_digit_def of_char_digit_char nat_le_iff le_nat_iff)
qed

lemma digit_char_val [simp]: "digit_val (digit_char n) = n mod 10"
proof -
  have "0 \<le> n mod 10" by simp
  moreover have "(of_char (digit_char n) :: int) = int (nat (48 + n mod 10))"
    by (subst of_nat_of_char [symmetric]) (simp only: of_char_digit_char)
  ultimately show ?thesis by (simp add: digit_val_def)
qed

lemma two_digits: "0 \<le> n \<Longrightarrow> n \<le> 99 \<Longrightarrow> n div 10 mod 10 * 10 + n mod 10 = (n :: int)"
proof -
  assume n: "0 \<le> n" "n \<le> 99"
  then have "0 \<le> n div 10" "n div 10 \<le> 99 div 10" by (simp, intro zdiv_mono1) simp_all
  then have "n div 10 mod 10 = n div 10" by (intro mod_pos_pos_trivial) simp_all
  then show ?thesis by simp
qed

lemma recompose_digits:
  assumes "n = a * 10 + d0" and "a = b * 10 + d1" and "c * 10 + d2 = (b :: int)"
  shows "c * 1000 + (d2 * 100 + (d1 * 10 + d0)) = n"
  using assms by simp

lemma four_digits:
  assumes "0 \<le> (n :: int)" and "n \<le> 9999"
  shows "n div 1000 mod 10 * 1000 + (n div 100 mod 10 * 100 + (n div 10 mod 10 * 10 + n mod 10)) = n"
proof -
  have "0 \<le> n div 100" "n div 100 \<le> 9999 div 100"
    using assms by (simp, intro zdiv_mono1) simp_all
  then have hi: "n div 100 div 10 mod 10 * 10 + n div 100 mod 10 = n div 100"
    by (intro two_digits) simp_all
  have d: "n div 1000 = n div 100 div 10" "n div 100 = n div 10 div 10"
    by (simp_all flip: zdiv_zmult2_eq)
  show ?thesis
    unfolding d(1)
  proof (rule recompose_digits)
    show "n = n div 10 * 10 + n mod 10" by simp
    show "n div 10 = n div 100 * 10 + n div 10 mod 10" by (simp add: d(2))
  qed (rule hi)
qed

lemma num_fixed_fmt2: "0 \<le> n \<Longrightarrow> n \<le> 99 \<Longrightarrow> num_fixed 2 (fmt2 n @ s) = Some (n, s)"
  using two_digits [of n] by (simp add: fmt2_def numeral_2_eq_2)

lemma num_fixed_4:
  "num_fixed 4 ([digit_char a, digit_char b, digit_char c, digit_char d] @ s) =
   Some (a mod 10 * 1000 + (b mod 10 * 100 + (c mod 10 * 10 + d mod 10)), s)"
  by (simp add: eval_nat_numeral)

lemma num_fixed_fmt4: "0 \<le> n \<Longrightarrow> n \<le> 9999 \<Longrightarrow> num_fixed 4 (fmt4 n @ s) = Some (n, s)"
  by (simp only: fmt4_def num_fixed_4 four_digits simp_thms if_True)

lemma num_one_or_two_fmt2: "0 \<le> n \<Longrightarrow> n \<le> 99 \<Longrightarrow> num_one_or_two (fmt2 n @ s) = Some (n, s)"
  using two_digits [of n] by (simp add: num_one_or_two_def fmt2_def)

lemma day_split: "unix_sec t = day_of t * 86400 + hour_of t * 3600 + minute_of t * 60 + second_of t"
proof -
  have "sec_of_day t = hour_of t * 3600 + sec_of_day t mod 3600"
    by (simp add: hour_of_def)
  moreover have "sec_of_day t mod 3600 = minute_of t * 60 + sec_of_day t mod 3600 mod 60"
    by (simp add: minute_of_def)
  moreover have "sec_of_day t mod 3600 mod 60 = second_of t"
    by (simp add: second_of_def mod_mod_cancel)
  moreover have "unix_sec t = day_of t * 86400 + sec_of_day t"
    by (simp add: day_of_def sec_of_day_def)
  ultimately show ?thesis by linarith
qed

text \<open>
  Formatting an instant and parsing the text gives the instant back, cut to whole
  seconds, for the four-digit years the layout can write.
\<close>

lemma parse_format_rfc3339:
  assumes "fst (civil_from_days (day_of t)) \<in> {0..9999}"
  shows "parse_rfc3339 (format_rfc3339 t) = Some (unix_sec t * ns_second)"
proof -
  obtain y m d where civ: "civil_from_days (day_of t) = (y, m, d)"
    by (metis prod_cases3)
  note v = civil_valid [OF civ]
  have y: "0 \<le> y" "y \<le> 9999" using assms civ by auto
  have d: "d \<le> 99" using v by (auto simp: days_in_def split: if_splits)
  have days: "days_from_civil y m d = day_of t"
    using civil_round_trip [of "day_of t"] civ by simp
  have h: "0 \<le> hour_of t" "hour_of t \<le> 23" "0 \<le> minute_of t" "minute_of t \<le> 59"
    "0 \<le> second_of t" "second_of t \<le> 59"
    using hour_of_range minute_of_range second_of_range by blast+
  show ?thesis
    using y d v h days day_split [of t]
    by (simp add: format_rfc3339_def format_date_def civ parse_rfc3339_def num_fixed_fmt4
        num_fixed_fmt2 num_one_or_two_fmt2 expect_def in_range_def frac_ns_def zone_offset_def
        ns_second_def)
qed

text \<open>The years a 64-bit nanosecond count can reach are four-digit years.\<close>

lemma civil_year_range:
  assumes "0 \<le> z" and "z \<le> 2000000"
  shows "fst (civil_from_days z) \<in> {0..9999}"
proof -
  define era doe c r1 where "era = (z + 719468) div 146097" and "doe = (z + 719468) mod 146097"
    and "c = min 3 (doe div 36524)" and "r1 = doe - c * 36524"
  define q a where "q = r1 div 1461" and "a = min 3 ((r1 mod 1461) div 365)"
  have era: "0 \<le> era" "era \<le> 20" using assms by (simp_all add: era_def)
  have doe: "0 \<le> doe" "doe < 146097" by (simp_all add: doe_def)
  have c: "0 \<le> c" "c \<le> 3" "c \<le> doe div 36524" using doe by (simp_all add: c_def)
  have "0 \<le> r1" "r1 < 146097" using c doe by (simp_all add: r1_def)
  then have q: "0 \<le> q" "q \<le> 100" by (simp_all add: q_def)
  have a: "0 \<le> a" "a \<le> 3" by (simp_all add: a_def)
  have "fst (civil_from_days z) \<in> {era * 400 + c * 100 + q * 4 + a, era * 400 + c * 100 + q * 4 + a + 1}"
    unfolding civil_from_days_def Let_def fst_conv era_def [symmetric] doe_def [symmetric]
      c_def [symmetric] r1_def [symmetric] q_def [symmetric] a_def [symmetric]
    by (cases "(if (5 * (r1 mod 1461 - a * 365) + 2) div 153 < 10 then
          (5 * (r1 mod 1461 - a * 365) + 2) div 153 + 3
        else (5 * (r1 mod 1461 - a * 365) + 2) div 153 - 9) \<le> 2")
       (simp_all only: if_True if_False insertI1 insertI2)
  then show ?thesis using era c q a by auto
qed

lemma parse_format_int64:
  assumes "0 \<le> t" and "t < 2 ^ 63"
  shows "parse_rfc3339 (format_rfc3339 t) = Some (unix_sec t * ns_second)"
proof (rule parse_format_rfc3339, rule civil_year_range)
  show "0 \<le> day_of t" using assms by (simp add: day_of_def unix_sec_def ns_second_def)
  have "t div 1000000000 \<le> 9223372037" using assms by simp
  then show "day_of t \<le> 2000000" by (simp add: day_of_def unix_sec_def ns_second_def)
qed

end
