(* ===== verification/Go_Bytes.thy ===== *)
theory Go_Bytes
  imports Go_Strings "HOL-Library.Word"
begin

text \<open>
  Byte slices: big-endian integers (\<open>encoding/binary\<close>), hexadecimal text
  (\<open>encoding/hex\<close>), conversion between strings and bytes.
\<close>

type_synonym byte = "8 word"

fun put_be :: "nat \<Rightarrow> nat \<Rightarrow> byte list" where
  "put_be 0 v = []"
| "put_be (Suc n) v = word_of_nat (v div 256 ^ n) # put_be n v"

fun get_be :: "byte list \<Rightarrow> nat" where
  "get_be [] = 0"
| "get_be (b # bs) = unat b * 256 ^ length bs + get_be bs"

definition bytes_of :: "string \<Rightarrow> byte list" where
  "bytes_of s = map (\<lambda>c. word_of_nat (of_char c)) s"

definition string_of :: "byte list \<Rightarrow> string" where
  "string_of bs = map (\<lambda>b. char_of (unat b)) bs"

definition hex_digit :: "nat \<Rightarrow> char" where
  "hex_digit n = char_of (if n < 10 then 48 + n else 87 + n)"

fun hex_encode :: "byte list \<Rightarrow> string" where
  "hex_encode [] = []"
| "hex_encode (b # bs) =
     hex_digit (unat b div 16) # hex_digit (unat b mod 16) # hex_encode bs"

lemma length_put_be [simp]: "length (put_be n v) = n"
  by (induction n) simp_all

lemma unat_byte_less: "unat (b :: byte) < 256"
  using unsigned_less [of b, where ?'a = nat] by simp

lemma get_be_less: "get_be bs < 256 ^ length bs"
proof (induction bs)
  case Nil
  then show ?case by simp
next
  case (Cons b bs)
  have "unat b * 256 ^ length bs + get_be bs < unat b * 256 ^ length bs + 256 ^ length bs"
    using Cons.IH by simp
  also have "\<dots> = (unat b + 1) * 256 ^ length bs"
    by simp
  also have "\<dots> \<le> 256 * 256 ^ length bs"
    using unat_byte_less [of b] by (intro mult_right_mono) simp_all
  finally show ?case by simp
qed

text \<open>Reading back a big-endian field gives the value modulo the width.\<close>

lemma get_be_put_be: "get_be (put_be n v) = v mod 256 ^ n"
proof (induction n)
  case 0
  then show ?case by simp
next
  case (Suc n)
  have "unat (word_of_nat (v div 256 ^ n) :: byte) = v div 256 ^ n mod 256"
    by (simp add: unat_of_nat)
  then show ?case
    using mod_mult2_eq [of v "256 ^ n" 256] by (simp add: Suc.IH mult.commute)
qed

lemma get_be_put_be_small: "v < 256 ^ n \<Longrightarrow> get_be (put_be n v) = v"
  by (simp add: get_be_put_be)

lemma put_be_mod: "put_be n (v + k * 256 ^ n) = put_be n v"
proof (induction n arbitrary: k)
  case 0
  then show ?case by simp
next
  case (Suc n)
  have "(v + k * 256 ^ Suc n) div 256 ^ n = v div 256 ^ n + k * 256"
    by (simp add: mult.assoc [symmetric])
  moreover have "put_be n (v + k * 256 * 256 ^ n) = put_be n v"
    by (rule Suc.IH)
  moreover have "(256 :: byte) = 0" by simp
  ultimately show ?case
    by (simp only: put_be.simps power_Suc of_nat_add of_nat_mult of_nat_numeral mult_zero_right
        add_0_right mult.assoc)
qed

lemma put_be_get_be: "put_be (length bs) (get_be bs) = bs"
proof (induction bs)
  case Nil
  then show ?case by simp
next
  case (Cons b bs)
  have "(unat b * 256 ^ length bs + get_be bs) div 256 ^ length bs = unat b"
    using get_be_less [of bs] by simp
  moreover have "put_be (length bs) (unat b * 256 ^ length bs + get_be bs) = bs"
    using put_be_mod [of "length bs" "get_be bs" "unat b"] Cons.IH by (simp add: add.commute)
  ultimately show ?case by simp
qed

lemma string_of_bytes_of [simp]: "string_of (bytes_of s) = s"
proof -
  have "char_of (unat (word_of_nat (of_char c) :: byte)) = c" for c
    by (simp add: unat_of_nat)
  then show ?thesis by (simp add: string_of_def bytes_of_def comp_def)
qed

lemma bytes_of_string_of [simp]: "bytes_of (string_of bs) = bs"
  using unat_byte_less by (simp add: string_of_def bytes_of_def comp_def)

lemma bytes_of_append: "bytes_of (s @ t) = bytes_of s @ bytes_of t"
  by (simp add: bytes_of_def)

lemma bytes_of_inject: "bytes_of s = bytes_of t \<longleftrightarrow> s = t"
  by (metis string_of_bytes_of)

lemma length_bytes_of [simp]: "length (bytes_of s) = length s"
  by (simp add: bytes_of_def)

lemma length_string_of [simp]: "length (string_of bs) = length bs"
  by (simp add: string_of_def)

lemma hex_digit_inject:
  assumes "m < 16" and "n < 16" and "hex_digit m = hex_digit n"
  shows "m = n"
proof -
  have "(if m < 10 then 48 + m else 87 + m) < 256" "(if n < 10 then 48 + n else 87 + n) < 256"
    using assms(1,2) by auto
  then have "(if m < 10 then 48 + m else 87 + m) = (if n < 10 then 48 + n else 87 + n)"
    using arg_cong [OF assms(3), of "of_char :: char \<Rightarrow> nat"] by (simp add: hex_digit_def)
  with assms(1,2) show ?thesis by (auto split: if_splits)
qed

lemma hex_encode_inject: "hex_encode a = hex_encode b \<longleftrightarrow> a = b"
proof (induction a arbitrary: b)
  case Nil
  then show ?case by (cases b) auto
next
  case (Cons x xs)
  show ?case
  proof (cases b)
    case Nil
    then show ?thesis by simp
  next
    case (Cons y ys)
    have lt: "unat z div 16 < 16" "unat z mod 16 < 16" for z :: byte
      using unat_byte_less [of z] by auto
    have "x = y" if "hex_digit (unat x div 16) = hex_digit (unat y div 16)"
      "hex_digit (unat x mod 16) = hex_digit (unat y mod 16)"
    proof -
      have "unat x div 16 = unat y div 16" "unat x mod 16 = unat y mod 16"
        using that lt by (auto dest: hex_digit_inject [rotated 2])
      then have "unat x = unat y" by (metis div_mult_mod_eq)
      then show ?thesis by (simp add: word_unat_eq_iff)
    qed
    then show ?thesis using Cons Cons.IH by auto
  qed
qed

section \<open>Base64\<close>

text \<open>
  \<open>base64.StdEncoding\<close>: decoding skips line breaks and requires padding.
\<close>

definition b64_val :: "char \<Rightarrow> nat option" where
  "b64_val c =
     (let n = (of_char c :: nat) in
      if 65 \<le> n \<and> n \<le> 90 then Some (n - 65)
      else if 97 \<le> n \<and> n \<le> 122 then Some (n - 71)
      else if 48 \<le> n \<and> n \<le> 57 then Some (n + 4)
      else if c = CHR ''+'' then Some 62 else if c = CHR ''/'' then Some 63 else None)"

fun b64_quads :: "string \<Rightarrow> byte list option" where
  "b64_quads [] = Some []"
| "b64_quads (a # b # c # d # rest) =
     (case (b64_val a, b64_val b) of
        (Some x, Some y) \<Rightarrow>
          if c = CHR ''='' then
            (if d = CHR ''='' \<and> rest = [] then Some [of_nat (x * 4 + y div 16)] else None)
          else
            (case b64_val c of
               None \<Rightarrow> None
             | Some z \<Rightarrow>
                 if d = CHR ''='' then
                   (if rest = [] then Some [of_nat (x * 4 + y div 16), of_nat (y mod 16 * 16 + z div 4)] else None)
                 else
                   (case (b64_val d, b64_quads rest) of
                      (Some w, Some bs) \<Rightarrow>
                        Some (of_nat (x * 4 + y div 16) # of_nat (y mod 16 * 16 + z div 4) # of_nat (z mod 4 * 64 + w) # bs)
                    | _ \<Rightarrow> None))
      | _ \<Rightarrow> None)"
| "b64_quads _ = None"

definition b64_decode :: "string \<Rightarrow> byte list option" where
  "b64_decode x = b64_quads (filter (\<lambda>c. c \<noteq> CHR 0x0A \<and> c \<noteq> CHR 0x0D) x)"

definition b64_char :: "nat \<Rightarrow> char" where
  "b64_char n =
     (if n < 26 then char_of (n + 65) else if n < 52 then char_of (n + 71) else if n < 62 then char_of (n - 4)
      else if n = 62 then CHR ''+'' else CHR ''/'')"

fun b64_encode :: "byte list \<Rightarrow> string" where
  "b64_encode [] = []"
| "b64_encode [a] = [b64_char (unat a div 4), b64_char (unat a mod 4 * 16), CHR ''='', CHR ''='']"
| "b64_encode [a, b] =
     [b64_char (unat a div 4), b64_char (unat a mod 4 * 16 + unat b div 16), b64_char (unat b mod 16 * 4), CHR ''='']"
| "b64_encode (a # b # c # rest) =
     b64_char (unat a div 4) # b64_char (unat a mod 4 * 16 + unat b div 16) #
     b64_char (unat b mod 16 * 4 + unat c div 64) # b64_char (unat c mod 64) # b64_encode rest"

lemma b64_char_code:
  "n < 64 \<Longrightarrow> (of_char (b64_char n) :: nat) =
     (if n < 26 then n + 65 else if n < 52 then n + 71 else if n < 62 then n - 4 else if n = 62 then 43 else 47)"
  by (simp add: b64_char_def)

lemma b64_char_cases:
  assumes "n < 64"
  shows "b64_val (b64_char n) = Some n" and "b64_char n \<noteq> CHR ''=''"
    and "b64_char n \<notin> {CHR 0x0A, CHR 0x0D, CHR '':''}" and "plain_char (b64_char n)"
proof -
  have "n < 26 \<or> 26 \<le> n \<and> n < 52 \<or> 52 \<le> n \<and> n < 62 \<or> n = 62 \<or> n = 63" using assms by linarith
  then show "b64_val (b64_char n) = Some n"
    by (elim disjE) (auto simp: b64_val_def b64_char_code Let_def, simp_all add: b64_char_def)
  have ne: "b64_char n \<noteq> c" if "(of_char c :: nat) \<in> {10, 13, 58, 61}" for c
    using b64_char_code [OF assms] assms that by (auto split: if_splits)
  show "b64_char n \<noteq> CHR ''=''" by (rule ne) simp
  have "b64_char n \<noteq> CHR 0x0A" "b64_char n \<noteq> CHR 0x0D" "b64_char n \<noteq> CHR '':''" by (rule ne; simp)+
  then show "b64_char n \<notin> {CHR 0x0A, CHR 0x0D, CHR '':''}" by simp
  show "plain_char (b64_char n)" using assms by (auto simp: plain_char_def b64_char_code Let_def)
qed

lemma byte_parts:
  fixes x :: byte
  shows "unat x div 4 < 64" "unat x div 16 < 16" "unat x div 64 < 4" "unat x mod 4 < 4" "unat x mod 16 < 16" "unat x mod 64 < 64"
  using unat_byte_less [of x] by linarith+

lemma sextets:
  fixes a b c :: byte
  shows "unat a div 4 < 64" "unat a mod 4 * 16 < 64" "unat a mod 4 * 16 + unat b div 16 < 64"
    "unat b mod 16 * 4 < 64" "unat b mod 16 * 4 + unat c div 64 < 64" "unat c mod 64 < 64"
  using byte_parts [of a] byte_parts [of b] byte_parts [of c] by linarith+

lemma split_sextets:
  fixes a b c :: byte
  shows "(unat a mod 4 * 16 + unat b div 16) div 16 = unat a mod 4" "(unat a mod 4 * 16 + unat b div 16) mod 16 = unat b div 16"
    "(unat b mod 16 * 4 + unat c div 64) div 4 = unat b mod 16" "(unat b mod 16 * 4 + unat c div 64) mod 4 = unat c div 64"
  using byte_parts(2) [of b] byte_parts(3) [of c] by simp_all

lemma octets:
  fixes a b c :: byte
  shows "of_nat (unat a div 4 * 4 + unat a mod 4 * 16 div 16) = a"
    "of_nat (unat a div 4 * 4 + (unat a mod 4 * 16 + unat b div 16) div 16) = a"
    "of_nat ((unat a mod 4 * 16 + unat b div 16) mod 16 * 16 + unat b mod 16 * 4 div 4) = b"
    "of_nat ((unat a mod 4 * 16 + unat b div 16) mod 16 * 16 + (unat b mod 16 * 4 + unat c div 64) div 4) = b"
    "of_nat ((unat b mod 16 * 4 + unat c div 64) mod 4 * 64 + unat c mod 64) = c"
  by (simp_all only: split_sextets nonzero_mult_div_cancel_right numeral_neq_zero not_False_eq_True
      div_mult_mod_eq of_nat_unat ucast_id)

definition b64_text :: "char \<Rightarrow> bool" where
  "b64_text c \<longleftrightarrow> c \<notin> {CHR 0x0A, CHR 0x0D, CHR '':''} \<and> plain_char c"

lemma b64_text_char: "n < 64 \<Longrightarrow> b64_text (b64_char n)" "b64_text CHR ''=''"
  by (simp_all only: b64_text_def b64_char_cases simp_thms) (simp add: plain_char_def)

lemma b64_encode_text: "list_all b64_text (b64_encode bs)"
  by (induction bs rule: b64_encode.induct) (simp_all only: b64_encode.simps list.pred_inject b64_text_char sextets simp_thms)

lemma b64_encode_chars: "c \<in> set (b64_encode bs) \<Longrightarrow> c \<notin> {CHR 0x0A, CHR 0x0D, CHR '':''} \<and> plain_char c"
  using b64_encode_text [of bs] unfolding list_all_iff b64_text_def by (rule bspec)

lemma b64_quads_encode: "b64_quads (b64_encode bs) = Some bs"
proof (induction bs rule: b64_encode.induct)
  case (2 a)
  show ?case by (simp only: b64_encode.simps b64_quads.simps b64_char_cases(1,2) sextets option.case prod.case simp_thms if_True octets(1))
next
  case (3 a b)
  show ?case
    by (simp only: b64_encode.simps b64_quads.simps b64_char_cases(1,2) sextets option.case prod.case simp_thms if_True if_False octets(2,3))
next
  case (4 a b c rest)
  then show ?case
    by (simp only: b64_encode.simps b64_quads.simps b64_char_cases(1,2) sextets option.case prod.case simp_thms if_False octets(2,4,5))
qed simp

lemma b64_decode_encode [simp]: "b64_decode (b64_encode bs) = Some bs"
proof -
  have "filter (\<lambda>c. c \<noteq> CHR 0x0A \<and> c \<noteq> CHR 0x0D) (b64_encode bs) = b64_encode bs"
    using b64_encode_chars by (intro filter_True) blast
  then show ?thesis by (simp add: b64_decode_def b64_quads_encode)
qed

end
