(* ===== verification/Ble_Protocol.thy ===== *)
theory Ble_Protocol
  imports Go_Time Go_Bytes
begin

text \<open>
  \<open>cmd/gateway-agent/ble_protocol.go\<close> and \<open>nfc_protocol.go\<close>: the wire formats of the BLE
  and NFC-HCE authentication protocol and signature verification.  A \<open>[32]byte\<close> nonce is a
  byte list; where its length matters the statement says so.  \<open>rand.Read\<close> is an argument
  (\<open>None\<close> when it fails).  The cryptography the code calls (\<open>encoding/pem\<close>,
  \<open>crypto/x509\<close>, \<open>crypto/sha256\<close>, \<open>crypto/ecdsa\<close>) is the record \<open>crypto\<close>, a parameter.
\<close>

section \<open>Challenges\<close>

definition challengeValidDuration :: int where
  "challengeValidDuration = 30 * ns_second"

definition ChallengeV2Size :: nat where "ChallengeV2Size = 52"

definition TransportTagBLE :: string where "TransportTagBLE = ''BLE''"

definition TransportTagNFCHCE :: string where "TransportTagNFCHCE = ''NFC_HCE''"

datatype ble_error =
    NonceFailed
  | TooShort
  | BadUserIDLength
  | EmptySignature
  | Truncated nat nat
  | UserIDTooLong nat
  | SignatureTooShort nat
  | BadChallengeSize nat
  | ApduTooShort nat
  | PemFailed
  | KeyParseFailed string
  | NotECKey
  | WrongCurve string
  | SignatureInvalid

text \<open>The text of each error, as \<open>err.Error()\<close> returns it.\<close>

fun Error_text :: "ble_error \<Rightarrow> string" where
  "Error_text NonceFailed = ''generate nonce''"
| "Error_text TooShort = ''auth response too short''"
| "Error_text BadUserIDLength = ''invalid user_id length in auth response''"
| "Error_text EmptySignature = ''empty signature in auth response''"
| "Error_text (Truncated need have) =
     ''auth response truncated: need '' @ show_nat need @ '' bytes for userId, have '' @ show_nat have"
| "Error_text (UserIDTooLong n) = ''userId too long: '' @ show_nat n @ '' bytes, max 180''"
| "Error_text (SignatureTooShort n) = ''signature too short: '' @ show_nat n @ '' bytes, minimum 64''"
| "Error_text (BadChallengeSize n) = ''v2 challenge must be 52 bytes, got '' @ show_nat n"
| "Error_text (ApduTooShort n) = ''APDU response too short: '' @ show_nat n @ '' bytes''"
| "Error_text PemFailed = ''parse public key: failed to decode PEM block''"
| "Error_text (KeyParseFailed e) = ''parse public key: '' @ e"
| "Error_text NotECKey = ''parse public key: not an EC public key''"
| "Error_text (WrongCurve c) = ''parse public key: expected P-256, got '' @ c"
| "Error_text SignatureInvalid = ''ECDSA signature verification failed''"

record bleChallenge =
  ch_Nonce :: "byte list"
  ch_IssuedAt :: time
  ch_ExpiresAt :: time

record bleChallengeV2 = bleChallenge +
  ch_GatewayID :: "32 word"

definition NewBLEChallenge :: "time \<Rightarrow> byte list option \<Rightarrow> (ble_error, bleChallenge) result" where
  "NewBLEChallenge now rnd =
     (case rnd of
        None \<Rightarrow> Inl NonceFailed
      | Some nonce \<Rightarrow>
          Inr \<lparr>ch_Nonce = nonce, ch_IssuedAt = now, ch_ExpiresAt = now + challengeValidDuration\<rparr>)"

definition NewBLEChallengeV2 ::
  "time \<Rightarrow> byte list option \<Rightarrow> 32 word \<Rightarrow> (ble_error, bleChallengeV2) result" where
  "NewBLEChallengeV2 now rnd gatewayID =
     (case rnd of
        None \<Rightarrow> Inl NonceFailed
      | Some nonce \<Rightarrow>
          Inr \<lparr>ch_Nonce = nonce, ch_IssuedAt = now, ch_ExpiresAt = now + challengeValidDuration,
               ch_GatewayID = gatewayID\<rparr>)"

text \<open>\<open>uint64(t.Unix())\<close> and \<open>int64(u)\<close> keep the 64 bits; \<open>time.Unix(s, 0)\<close>.\<close>

definition uint64_of_unix :: "time \<Rightarrow> nat" where
  "uint64_of_unix t = nat (unix_sec t mod 2 ^ 64)"

definition unix_of_uint64 :: "nat \<Rightarrow> time" where
  "unix_of_uint64 u = wrap64 (int u) * ns_second"

definition Encode_challenge :: "('a) bleChallenge_scheme \<Rightarrow> byte list" where
  "Encode_challenge c =
     ch_Nonce c @ put_be 8 (uint64_of_unix (ch_IssuedAt c))
                @ put_be 8 (uint64_of_unix (ch_ExpiresAt c))"

definition Encode_challengeV2 :: "bleChallengeV2 \<Rightarrow> byte list" where
  "Encode_challengeV2 c =
     ch_Nonce c @ put_be 8 (uint64_of_unix (ch_IssuedAt c))
                @ put_be 8 (uint64_of_unix (ch_ExpiresAt c))
                @ put_be 4 (unat (ch_GatewayID c))"

definition DecodeBLEChallengeV2 :: "byte list \<Rightarrow> (ble_error, bleChallengeV2) result" where
  "DecodeBLEChallengeV2 data =
     (if length data \<noteq> ChallengeV2Size then Inl (BadChallengeSize (length data))
      else Inr \<lparr>ch_Nonce = take 32 data,
                ch_IssuedAt = unix_of_uint64 (get_be (take 8 (drop 32 data))),
                ch_ExpiresAt = unix_of_uint64 (get_be (take 8 (drop 40 data))),
                ch_GatewayID = word_of_nat (get_be (take 4 (drop 48 data)))\<rparr>)"

definition IsExpired_challenge :: "time \<Rightarrow> ('a) bleChallenge_scheme \<Rightarrow> bool" where
  "IsExpired_challenge now c \<longleftrightarrow> now > ch_ExpiresAt c"

section \<open>Responses and results\<close>

record bleAuthResponse =
  ar_UserID :: string
  ar_Signature :: "byte list"

definition DecodeBLEAuthResponse :: "byte list \<Rightarrow> (ble_error, bleAuthResponse) result" where
  "DecodeBLEAuthResponse data =
     (if length data < 3 then Inl TooShort
      else
        let userIDLen = unat (data ! 0) in
        if userIDLen = 0 \<or> 1 + userIDLen \<ge> length data then Inl BadUserIDLength
        else
          let userID = string_of (take userIDLen (drop 1 data));
              signature = drop (1 + userIDLen) data in
          if length signature = 0 then Inl EmptySignature
          else Inr \<lparr>ar_UserID = userID, ar_Signature = signature\<rparr>)"

definition EncodeBLEAuthResponse :: "string \<Rightarrow> byte list \<Rightarrow> byte list" where
  "EncodeBLEAuthResponse userID signature =
     word_of_nat (length userID) # bytes_of userID @ signature"

record bleAuthResult =
  br_Code :: byte
  br_Reason :: string

definition Encode_result :: "bleAuthResult \<Rightarrow> byte list" where
  "Encode_result r = br_Code r # bytes_of (br_Reason r)"

section \<open>APDUs\<close>

definition NFCAID :: "byte list" where
  "NFCAID = [0xF0, 0x4D, 0x49, 0x53, 0x54, 0x59, 0x01, 0x00]"

definition BuildSelectAID :: "byte list" where
  "BuildSelectAID = [0x00, 0xA4, 0x04, 0x00, word_of_nat (length NFCAID)] @ NFCAID @ [0x00]"

definition BuildAuthenticate :: "byte list \<Rightarrow> (ble_error, byte list) result" where
  "BuildAuthenticate challenge =
     (if length challenge \<noteq> ChallengeV2Size then Inl (BadChallengeSize (length challenge))
      else Inr ([0x80, 0x88, 0x00, 0x00, word_of_nat ChallengeV2Size] @ challenge @ [0x00]))"

definition ParseAPDUResponse :: "byte list \<Rightarrow> (ble_error, byte list \<times> 16 word) result" where
  "ParseAPDUResponse resp =
     (if length resp < 2 then Inl (ApduTooShort (length resp))
      else Inr (take (length resp - 2) resp, word_of_nat (get_be (drop (length resp - 2) resp))))"

definition ParseNFCAuthResponse :: "byte list \<Rightarrow> (ble_error, bleAuthResponse) result" where
  "ParseNFCAuthResponse data =
     (if length data < 2 then Inl TooShort
      else
        let userIDLen = unat (data ! 0) in
        if length data < 1 + userIDLen + 1 then Inl (Truncated userIDLen (length data - 1))
        else if userIDLen > 180 then Inl (UserIDTooLong userIDLen)
        else
          let userID = string_of (take userIDLen (drop 1 data));
              signature = drop (1 + userIDLen) data in
          if length signature < 64 then Inl (SignatureTooShort (length signature))
          else Inr \<lparr>ar_UserID = userID, ar_Signature = signature\<rparr>)"

section \<open>Signature verification\<close>

text \<open>A parsed key is an EC key on a named curve or a key of another kind.\<close>

datatype 'k pubkey = ECKey string 'k | OtherKey

record 'k crypto =
  pem_Decode :: "string \<Rightarrow> byte list option"
  ParsePKIXPublicKey :: "byte list \<Rightarrow> (string, 'k pubkey) result"
  Sum256 :: "byte list \<Rightarrow> byte list"
  VerifyASN1 :: "'k \<Rightarrow> byte list \<Rightarrow> byte list \<Rightarrow> bool"
  ecdsa_Verify :: "'k \<Rightarrow> byte list \<Rightarrow> nat \<Rightarrow> nat \<Rightarrow> bool"

definition parseBLEPublicKey :: "'k crypto \<Rightarrow> string \<Rightarrow> (ble_error, 'k) result" where
  "parseBLEPublicKey cr pemStr =
     (case pem_Decode cr pemStr of
        None \<Rightarrow> Inl PemFailed
      | Some block \<Rightarrow>
          (case ParsePKIXPublicKey cr block of
             Inl e \<Rightarrow> Inl (KeyParseFailed e)
           | Inr OtherKey \<Rightarrow> Inl NotECKey
           | Inr (ECKey curve k) \<Rightarrow> if curve \<noteq> ''P-256'' then Inl (WrongCurve curve) else Inr k))"

text \<open>\<open>messageV1\<close> and \<open>messageV2\<close> are the byte strings the two verifiers hash;
  \<open>verify_hash\<close> is the part they share: ASN.1 first, then the raw 64-byte form.\<close>

definition messageV1 :: "byte list \<Rightarrow> string \<Rightarrow> byte list" where
  "messageV1 nonce userID = nonce @ bytes_of userID"

definition messageV2 :: "byte list \<Rightarrow> string \<Rightarrow> string \<Rightarrow> byte list" where
  "messageV2 nonce userID transportTag = nonce @ bytes_of userID @ bytes_of transportTag"

definition verify_hash :: "'k crypto \<Rightarrow> 'k \<Rightarrow> byte list \<Rightarrow> byte list \<Rightarrow> bool" where
  "verify_hash cr k hash signature \<longleftrightarrow>
     VerifyASN1 cr k hash signature \<or>
     (length signature = 64 \<and>
      ecdsa_Verify cr k hash (get_be (take 32 signature)) (get_be (drop 32 signature)))"

definition VerifyBLESignature ::
  "'k crypto \<Rightarrow> string \<Rightarrow> byte list \<Rightarrow> string \<Rightarrow> byte list \<Rightarrow> (ble_error, unit) result" where
  "VerifyBLESignature cr publicKeyPEM nonce userID signature =
     (case parseBLEPublicKey cr publicKeyPEM of
        Inl e \<Rightarrow> Inl e
      | Inr k \<Rightarrow>
          if verify_hash cr k (Sum256 cr (messageV1 nonce userID)) signature then Inr ()
          else Inl SignatureInvalid)"

definition VerifyBLESignatureV2 ::
  "'k crypto \<Rightarrow> string \<Rightarrow> byte list \<Rightarrow> string \<Rightarrow> string \<Rightarrow> byte list \<Rightarrow>
   (ble_error, unit) result" where
  "VerifyBLESignatureV2 cr publicKeyPEM nonce userID transportTag signature =
     (case parseBLEPublicKey cr publicKeyPEM of
        Inl e \<Rightarrow> Inl e
      | Inr k \<Rightarrow>
          if verify_hash cr k (Sum256 cr (messageV2 nonce userID transportTag)) signature then Inr ()
          else Inl SignatureInvalid)"

section \<open>Wire formats as an interface\<close>

text \<open>
  A wire format is an encoder, a decoder and the set of values that may be sent; the decoder
  accepts exactly the encodings of such values.  The formats below are instances.
\<close>

locale wire_format =
  fixes encode :: "'v \<Rightarrow> byte list"
    and decode :: "byte list \<Rightarrow> ('e, 'v) result"
    and sendable :: "'v \<Rightarrow> bool"
  assumes decode_iff: "decode d = Inr v \<longleftrightarrow> sendable v \<and> d = encode v"
begin

lemma decode_encode: "sendable v \<Longrightarrow> decode (encode v) = Inr v"
  by (simp add: decode_iff)

lemma encode_inject: "sendable v \<Longrightarrow> sendable w \<Longrightarrow> encode v = encode w \<Longrightarrow> v = w"
  by (metis decode_encode sum.inject(2))

lemma decode_rejects: "(\<exists>e. decode d = Inl e) \<longleftrightarrow> (\<forall>v. sendable v \<longrightarrow> d \<noteq> encode v)"
proof -
  have "(\<exists>e. decode d = Inl e) \<longleftrightarrow> \<not> (\<exists>v. decode d = Inr v)"
    by (cases "decode d") auto
  then show ?thesis by (auto simp: decode_iff)
qed

end

lemma unat_word_length: "length s \<le> 255 \<Longrightarrow> unat (word_of_nat (length s) :: byte) = length s"
  by (simp add: unat_of_nat)

text \<open>A length-prefixed user id followed by a signature.\<close>

lemma prefixed_split:
  assumes "d \<noteq> []" and "unat (d ! 0) < length d"
  shows "d = EncodeBLEAuthResponse (string_of (take (unat (d ! 0)) (drop 1 d)))
               (drop (1 + unat (d ! 0)) d)"
proof (cases d)
  case Nil
  with assms show ?thesis by simp
next
  case (Cons b bs)
  with assms have "min (length bs) (unat b) = unat b" by simp
  with Cons show ?thesis by (simp add: EncodeBLEAuthResponse_def)
qed

lemma encoded_fields:
  assumes "length u \<le> 255"
  shows "unat (EncodeBLEAuthResponse u sg ! 0) = length u"
    and "take (length u) (drop 1 (EncodeBLEAuthResponse u sg)) = bytes_of u"
    and "drop (1 + length u) (EncodeBLEAuthResponse u sg) = sg"
    and "length (EncodeBLEAuthResponse u sg) = 1 + length u + length sg"
  using unat_word_length [OF assms] by (simp_all add: EncodeBLEAuthResponse_def)

definition ble_sendable :: "bleAuthResponse \<Rightarrow> bool" where
  "ble_sendable r \<longleftrightarrow>
     1 \<le> length (ar_UserID r) \<and> length (ar_UserID r) \<le> 255 \<and> ar_Signature r \<noteq> []"

definition nfc_sendable :: "bleAuthResponse \<Rightarrow> bool" where
  "nfc_sendable r \<longleftrightarrow> length (ar_UserID r) \<le> 180 \<and> 64 \<le> length (ar_Signature r)"

lemma DecodeBLEAuthResponse_iff:
  "DecodeBLEAuthResponse d = Inr r \<longleftrightarrow>
   ble_sendable r \<and> d = EncodeBLEAuthResponse (ar_UserID r) (ar_Signature r)"
proof
  assume L: "DecodeBLEAuthResponse d = Inr r"
  let ?n = "unat (d ! 0)"
  have c: "3 \<le> length d" "?n \<noteq> 0" "1 + ?n < length d"
    and r: "r = \<lparr>ar_UserID = string_of (take ?n (drop 1 d)), ar_Signature = drop (1 + ?n) d\<rparr>"
    using L by (auto simp: DecodeBLEAuthResponse_def Let_def split: if_splits)
  from c(1) have "d \<noteq> []" by auto
  moreover have "?n \<le> 255" using unat_byte_less [of "d ! 0"] by simp
  ultimately show "ble_sendable r \<and> d = EncodeBLEAuthResponse (ar_UserID r) (ar_Signature r)"
    using prefixed_split [of d] c r by (auto simp: ble_sendable_def)
next
  assume R: "ble_sendable r \<and> d = EncodeBLEAuthResponse (ar_UserID r) (ar_Signature r)"
  then have l: "length (ar_UserID r) \<le> 255" by (simp add: ble_sendable_def)
  have "ar_Signature r \<noteq> []" "ar_UserID r \<noteq> []"
    using R by (auto simp: ble_sendable_def)
  then have "Suc 0 \<le> length (ar_Signature r)" "Suc 0 \<le> length (ar_UserID r)"
    by (simp_all add: Suc_le_eq)
  then have "\<not> length (ar_UserID r) + length (ar_Signature r) < 2" by linarith
  with \<open>ar_Signature r \<noteq> []\<close> \<open>ar_UserID r \<noteq> []\<close> show "DecodeBLEAuthResponse d = Inr r"
    using R encoded_fields [OF l, of "ar_Signature r"]
    by (simp add: DecodeBLEAuthResponse_def Let_def)
qed

lemma ParseNFCAuthResponse_iff:
  "ParseNFCAuthResponse d = Inr r \<longleftrightarrow>
   nfc_sendable r \<and> d = EncodeBLEAuthResponse (ar_UserID r) (ar_Signature r)"
proof
  assume L: "ParseNFCAuthResponse d = Inr r"
  let ?n = "unat (d ! 0)"
  have c: "2 \<le> length d" "1 + ?n + 1 \<le> length d" "?n \<le> 180" "64 \<le> length (drop (1 + ?n) d)"
    and r: "r = \<lparr>ar_UserID = string_of (take ?n (drop 1 d)), ar_Signature = drop (1 + ?n) d\<rparr>"
    using L by (auto simp: ParseNFCAuthResponse_def Let_def split: if_splits)
  from c(1) have "d \<noteq> []" by auto
  then show "nfc_sendable r \<and> d = EncodeBLEAuthResponse (ar_UserID r) (ar_Signature r)"
    using prefixed_split [of d] c r by (auto simp: nfc_sendable_def)
next
  assume R: "nfc_sendable r \<and> d = EncodeBLEAuthResponse (ar_UserID r) (ar_Signature r)"
  then have l: "length (ar_UserID r) \<le> 255" by (simp add: nfc_sendable_def)
  have "ar_Signature r \<noteq> []" using R by (auto simp: nfc_sendable_def)
  then show "ParseNFCAuthResponse d = Inr r"
    using R encoded_fields [OF l, of "ar_Signature r"]
    by (simp add: ParseNFCAuthResponse_def Let_def nfc_sendable_def)
qed

interpretation ble_response: wire_format
  "\<lambda>r. EncodeBLEAuthResponse (ar_UserID r) (ar_Signature r)" DecodeBLEAuthResponse ble_sendable
  by unfold_locales (rule DecodeBLEAuthResponse_iff)

interpretation nfc_response: wire_format
  "\<lambda>r. EncodeBLEAuthResponse (ar_UserID r) (ar_Signature r)" ParseNFCAuthResponse nfc_sendable
  by unfold_locales (rule ParseNFCAuthResponse_iff)

text \<open>The 52-byte challenge: instants are whole seconds that fit an \<open>int64\<close>.\<close>

definition whole_second :: "time \<Rightarrow> bool" where
  "whole_second t \<longleftrightarrow> t mod ns_second = 0 \<and> - (2 ^ 63) \<le> unix_sec t \<and> unix_sec t < 2 ^ 63"

definition challenge_sendable :: "bleChallengeV2 \<Rightarrow> bool" where
  "challenge_sendable c \<longleftrightarrow>
     length (ch_Nonce c) = 32 \<and> whole_second (ch_IssuedAt c) \<and> whole_second (ch_ExpiresAt c)"

lemma uint64_round_trip:
  assumes "- (2 ^ 63) \<le> unix_sec t" and "unix_sec t < 2 ^ 63"
  shows "unix_of_uint64 (uint64_of_unix t) = unix_sec t * ns_second"
  using assms by (simp add: unix_of_uint64_def uint64_of_unix_def wrap64_def mod_simps)

lemma uint64_of_unix_less: "uint64_of_unix t < 256 ^ 8"
  by (simp add: uint64_of_unix_def nat_less_iff)

lemma unix_round_trip:
  assumes "u < 256 ^ 8"
  shows "uint64_of_unix (unix_of_uint64 u) = u" and "whole_second (unix_of_uint64 u)"
proof -
  have s: "unix_sec (unix_of_uint64 u) = wrap64 (int u)"
    by (simp add: unix_sec_def unix_of_uint64_def ns_second_def)
  have "wrap64 (int u) mod 2 ^ 64 = int u mod 2 ^ 64"
    by (simp add: wrap64_def mod_simps)
  then show "uint64_of_unix (unix_of_uint64 u) = u"
    using assms by (simp add: uint64_of_unix_def s nat_mod_as_int)
  show "whole_second (unix_of_uint64 u)"
    using wrap64_range [of "int u"] s by (simp add: whole_second_def unix_of_uint64_def)
qed

lemma whole_second_eq: "whole_second t \<Longrightarrow> unix_sec t * ns_second = t"
  using div_mult_mod_eq [of t ns_second] by (simp add: whole_second_def unix_sec_def)

lemma challenge_fields:
  assumes "length (ch_Nonce c) = 32"
  shows "length (Encode_challengeV2 c) = 52"
    and "take 32 (Encode_challengeV2 c) = ch_Nonce c"
    and "take 8 (drop 32 (Encode_challengeV2 c)) = put_be 8 (uint64_of_unix (ch_IssuedAt c))"
    and "take 8 (drop 40 (Encode_challengeV2 c)) = put_be 8 (uint64_of_unix (ch_ExpiresAt c))"
    and "take 4 (drop 48 (Encode_challengeV2 c)) = put_be 4 (unat (ch_GatewayID c))"
  using assms by (simp_all add: Encode_challengeV2_def)

lemma word32_be: "word_of_nat (get_be (put_be 4 (unat (w :: 32 word)))) = w"
  using unsigned_less [of w, where ?'a = nat] by (simp add: get_be_put_be)

lemma field_split:
  assumes "length d = 52"
  shows "d = take 32 d @ take 8 (drop 32 d) @ take 8 (drop 40 d) @ take 4 (drop 48 d)"
proof -
  have "d = take 32 d @ drop 32 d" by simp
  also have "drop 32 d = take 8 (drop 32 d) @ drop 40 d"
    using append_take_drop_id [of 8 "drop 32 d"] by simp
  also have "drop 40 d = take 8 (drop 40 d) @ drop 48 d"
    using append_take_drop_id [of 8 "drop 40 d"] by simp
  also have "drop 48 d = take 4 (drop 48 d)"
    using assms by simp
  finally show ?thesis .
qed

lemma DecodeBLEChallengeV2_iff:
  "DecodeBLEChallengeV2 d = Inr c \<longleftrightarrow> challenge_sendable c \<and> d = Encode_challengeV2 c"
proof
  assume L: "DecodeBLEChallengeV2 d = Inr c"
  then have len: "length d = 52"
    by (simp add: DecodeBLEChallengeV2_def ChallengeV2Size_def split: if_splits)
  have c: "c = \<lparr>ch_Nonce = take 32 d,
                ch_IssuedAt = unix_of_uint64 (get_be (take 8 (drop 32 d))),
                ch_ExpiresAt = unix_of_uint64 (get_be (take 8 (drop 40 d))),
                ch_GatewayID = word_of_nat (get_be (take 4 (drop 48 d)))\<rparr>"
    using L by (simp add: DecodeBLEChallengeV2_def split: if_splits)
  have f8: "put_be 8 (get_be f) = f" "get_be f < 256 ^ 8" if "length f = 8" for f
    using put_be_get_be [of f] get_be_less [of f] that by simp_all
  have f4: "put_be 4 (unat (word_of_nat (get_be f) :: 32 word)) = f" if "length f = 4" for f
    using put_be_get_be [of f] get_be_less [of f] that by (simp add: unat_of_nat)
  have "challenge_sendable c"
    using len f8 unix_round_trip(2) by (simp add: c challenge_sendable_def)
  moreover have "Encode_challengeV2 c = d"
    using len f8 f4 unix_round_trip(1) field_split [OF len]
    by (simp add: c Encode_challengeV2_def)
  ultimately show "challenge_sendable c \<and> d = Encode_challengeV2 c" by simp
next
  assume R: "challenge_sendable c \<and> d = Encode_challengeV2 c"
  then have n: "length (ch_Nonce c) = 32" and w: "whole_second (ch_IssuedAt c)"
    "whole_second (ch_ExpiresAt c)"
    by (auto simp: challenge_sendable_def)
  have "unix_of_uint64 (get_be (put_be 8 (uint64_of_unix t))) = t" if "whole_second t" for t
    using that get_be_put_be_small [OF uint64_of_unix_less] uint64_round_trip [of t]
      whole_second_eq [of t]
    by (simp add: whole_second_def)
  then show "DecodeBLEChallengeV2 d = Inr c"
    using R challenge_fields [OF n] w word32_be
    by (simp add: DecodeBLEChallengeV2_def ChallengeV2Size_def)
qed

interpretation challenge_v2: wire_format Encode_challengeV2 DecodeBLEChallengeV2 challenge_sendable
  by unfold_locales (rule DecodeBLEChallengeV2_iff)

definition apdu_response :: "byte list \<times> 16 word \<Rightarrow> byte list" where
  "apdu_response v = fst v @ put_be 2 (unat (snd v))"

lemma ParseAPDUResponse_iff: "ParseAPDUResponse d = Inr v \<longleftrightarrow> True \<and> d = apdu_response v"
proof
  assume L: "ParseAPDUResponse d = Inr v"
  let ?n = "length d - 2"
  have len: "2 \<le> length d" and v: "v = (take ?n d, word_of_nat (get_be (drop ?n d)))"
    using L by (auto simp: ParseAPDUResponse_def split: if_splits)
  from len have "length (drop ?n d) = 2" by simp
  then have "put_be 2 (unat (word_of_nat (get_be (drop ?n d)) :: 16 word)) = drop ?n d"
    using put_be_get_be [of "drop ?n d"] get_be_less [of "drop ?n d"]
    by (simp add: unat_of_nat del: length_drop)
  then show "True \<and> d = apdu_response v"
    by (simp add: v apdu_response_def)
next
  assume R: "True \<and> d = apdu_response v"
  have "word_of_nat (get_be (put_be 2 (unat (snd v)))) = snd v"
    using unsigned_less [of "snd v", where ?'a = nat] by (simp add: get_be_put_be)
  with R show "ParseAPDUResponse d = Inr v"
    by (simp add: ParseAPDUResponse_def apdu_response_def)
qed

interpretation apdu: wire_format apdu_response ParseAPDUResponse "\<lambda>_. True"
  by unfold_locales (rule ParseAPDUResponse_iff)

lemma messageV2_inject:
  assumes "length n = 32" and "length n' = 32"
    and "tag \<in> {TransportTagBLE, TransportTagNFCHCE}"
    and "tag' \<in> {TransportTagBLE, TransportTagNFCHCE}"
    and "messageV2 n u tag = messageV2 n' u' tag'"
  shows "n = n'" and "u = u'" and "tag = tag'"
proof -
  have nn: "n = n'" and "bytes_of (u @ tag) = bytes_of (u' @ tag')"
    using assms(1,2,5) by (auto simp: messageV2_def bytes_of_append)
  then have ut: "u @ tag = u' @ tag'" by (simp add: bytes_of_inject)
  then have "rev tag @ rev u = rev tag' @ rev u'"
    by (metis rev_append)
  then have "tag = tag'"
    using assms(3,4) by (auto simp: TransportTagBLE_def TransportTagNFCHCE_def)
  with ut nn show "n = n'" "u = u'" "tag = tag'" by auto
qed

section \<open>Properties\<close>

text \<open>
  The challenge a gateway sends survives the wire: decoding the 52 encoded bytes of a v2
  challenge gives back nonce, gateway and both instants to the second, so the phone and the
  gateway agree on the expiry to the second; and the decoder accepts exactly the 52-byte
  strings.
\<close>

lemma challenge_round_trip:
  assumes "length (ch_Nonce c) = 32"
    and "- (2 ^ 63) \<le> unix_sec (ch_IssuedAt c) \<and> unix_sec (ch_IssuedAt c) < 2 ^ 63"
    and "- (2 ^ 63) \<le> unix_sec (ch_ExpiresAt c) \<and> unix_sec (ch_ExpiresAt c) < 2 ^ 63"
  shows "DecodeBLEChallengeV2 (Encode_challengeV2 c) =
         Inr (c\<lparr>ch_IssuedAt := unix_sec (ch_IssuedAt c) * ns_second,
                ch_ExpiresAt := unix_sec (ch_ExpiresAt c) * ns_second\<rparr>)
       \<and> ((\<exists>c'. DecodeBLEChallengeV2 d = Inr c') \<longleftrightarrow> length d = 52)"
proof
  let ?c = "c\<lparr>ch_IssuedAt := unix_sec (ch_IssuedAt c) * ns_second,
              ch_ExpiresAt := unix_sec (ch_ExpiresAt c) * ns_second\<rparr>"
  have tr: "unix_sec (unix_sec t * ns_second) = unix_sec t" for t
    by (simp add: unix_sec_def ns_second_def)
  then have "Encode_challengeV2 c = Encode_challengeV2 ?c"
    by (simp add: Encode_challengeV2_def uint64_of_unix_def)
  moreover have "challenge_sendable ?c"
    using assms tr by (simp add: challenge_sendable_def whole_second_def)
  ultimately show "DecodeBLEChallengeV2 (Encode_challengeV2 c) = Inr ?c"
    using challenge_v2.decode_encode by simp
  show "(\<exists>c'. DecodeBLEChallengeV2 d = Inr c') \<longleftrightarrow> length d = 52"
    by (auto simp: DecodeBLEChallengeV2_def ChallengeV2Size_def)
qed

lemma challenge_round_trip_instance:
  "DecodeBLEChallengeV2 (Encode_challengeV2
     \<lparr>ch_Nonce = replicate 32 7, ch_IssuedAt = 1500000000123456789,
      ch_ExpiresAt = 1500000030123456789, ch_GatewayID = 9\<rparr>) =
   Inr \<lparr>ch_Nonce = replicate 32 7, ch_IssuedAt = 1500000000000000000,
        ch_ExpiresAt = 1500000030000000000, ch_GatewayID = 9\<rparr>"
  using challenge_round_trip
    [of "\<lparr>ch_Nonce = replicate 32 7, ch_IssuedAt = 1500000000123456789,
          ch_ExpiresAt = 1500000030123456789, ch_GatewayID = 9\<rparr>" "[]"]
  by (auto simp: unix_sec_def ns_second_def)

text \<open>
  C30: The two response parsers accept exactly what a phone may send.  The BLE parser returns
  a response if and only if the bytes are its encoding, the user id has 1 to 255 bytes and a
  signature follows; the NFC parser if and only if the id has at most 180 bytes and the
  signature at least 64.  Everything else is an error.
\<close>

theorem auth_response_exact:
  "(DecodeBLEAuthResponse d = Inr r \<longleftrightarrow>
     d = EncodeBLEAuthResponse (ar_UserID r) (ar_Signature r) \<and>
     1 \<le> length (ar_UserID r) \<and> length (ar_UserID r) \<le> 255 \<and> ar_Signature r \<noteq> []) \<and>
   (ParseNFCAuthResponse d = Inr r \<longleftrightarrow>
     d = EncodeBLEAuthResponse (ar_UserID r) (ar_Signature r) \<and>
     length (ar_UserID r) \<le> 180 \<and> 64 \<le> length (ar_Signature r))"
  by (auto simp: ble_response.decode_iff nfc_response.decode_iff ble_sendable_def nfc_sendable_def)

text \<open>
  A v2 signature cannot be replayed on another transport, for another user or for
  another nonce.  If one signature is accepted twice under the same key, with two 32-byte
  nonces, two user ids and transport tags BLE or NFC\_HCE, then nonce, user and transport are
  the same, provided the two signed messages do not collide under the hash and the signature
  is valid for no second digest.
\<close>

lemma transport_replay_rejected:
  assumes first: "VerifyBLESignatureV2 cr pem n u tag sg = Inr ()"
    and second: "VerifyBLESignatureV2 cr pem n' u' tag' sg = Inr ()"
    and nonces: "length n = 32" "length n' = 32"
    and tags: "tag \<in> {TransportTagBLE, TransportTagNFCHCE}"
      "tag' \<in> {TransportTagBLE, TransportTagNFCHCE}"
    and no_collision: "Sum256 cr (messageV2 n u tag) = Sum256 cr (messageV2 n' u' tag') \<Longrightarrow>
      messageV2 n u tag = messageV2 n' u' tag'"
    and one_digest: "\<And>k h h'. verify_hash cr k h sg \<Longrightarrow> verify_hash cr k h' sg \<Longrightarrow> h = h'"
  shows "n' = n \<and> u' = u \<and> tag' = tag"
proof -
  obtain k where "verify_hash cr k (Sum256 cr (messageV2 n u tag)) sg"
    "verify_hash cr k (Sum256 cr (messageV2 n' u' tag')) sg"
    using first second by (auto simp: VerifyBLESignatureV2_def split: sum.splits if_splits)
  then have "messageV2 n u tag = messageV2 n' u' tag'"
    using one_digest no_collision by blast
  from messageV2_inject [OF nonces tags this] show ?thesis by simp
qed

text \<open>A concrete instance of the parameter: the key is its own text, the hash is the
  identity and a signature is the digest in reverse.\<close>

definition demo_crypto :: "byte list crypto" where
  "demo_crypto =
     \<lparr>pem_Decode = (\<lambda>s. if s = '''' then None else Some (bytes_of s)),
      ParsePKIXPublicKey = (\<lambda>b. Inr (ECKey ''P-256'' b)),
      Sum256 = (\<lambda>m. m),
      VerifyASN1 = (\<lambda>k h s. s = rev h),
      ecdsa_Verify = (\<lambda>k h r s. False)\<rparr>"

lemma transport_replay_rejected_instance:
  "VerifyBLESignatureV2 demo_crypto ''key'' (replicate 32 1) ''alice'' TransportTagNFCHCE
     (rev (messageV2 (replicate 32 1) ''alice'' TransportTagBLE)) \<noteq> Inr ()"
proof
  let ?n = "replicate 32 (1 :: byte)"
  assume "VerifyBLESignatureV2 demo_crypto ''key'' ?n ''alice'' TransportTagNFCHCE
     (rev (messageV2 ?n ''alice'' TransportTagBLE)) = Inr ()"
  then have "?n = ?n \<and> ''alice'' = ''alice'' \<and> TransportTagNFCHCE = TransportTagBLE"
    by (rule transport_replay_rejected [rotated])
       (auto simp: VerifyBLESignatureV2_def parseBLEPublicKey_def verify_hash_def demo_crypto_def)
  then show False by (simp add: TransportTagNFCHCE_def TransportTagBLE_def)
qed

end
