(* ===== verification/Nonce_Cache.thy ===== *)
theory Nonce_Cache
  imports Go_Time Go_Bytes "HOL-Library.AList"
begin

text \<open>
  \<open>cmd/gateway-agent/nonce_cache.go\<close>: the agent's replay cache.  \<open>entries\<close> is the
  Go map (an association list with one entry per key, so its length is \<open>len(c.entries)\<close>),
  \<open>order\<close> the slice in insertion order.  The clock is an argument: one reading of
  \<open>time.Now()\<close> per call.  What a client relies on is the locale \<open>replay_guard\<close>,
  interpreted on this cache at the end of the theory.
\<close>

section \<open>State and operations\<close>

record nonceCache =
  nc_entries :: "(string \<times> time) list"
  nc_order :: "(string \<times> time) list"
  nc_maxSize :: int
  nc_ttl :: int

definition NewNonceCache :: "int \<Rightarrow> int \<Rightarrow> nonceCache" where
  "NewNonceCache maxSize ttl =
     \<lparr>nc_entries = [], nc_order = [], nc_maxSize = maxSize, nc_ttl = ttl\<rparr>"

text \<open>The loop of \<open>evictExpired\<close>: it stops at the first entry that is still valid.\<close>

fun evict_loop ::
  "time \<Rightarrow> (string \<times> time) list \<Rightarrow> (string \<times> time) list
   \<Rightarrow> (string \<times> time) list \<times> (string \<times> time) list" where
  "evict_loop now ents [] = (ents, [])"
| "evict_loop now ents ((k, x) # ord) =
     (if x < now then evict_loop now (AList.delete k ents) ord else (ents, (k, x) # ord))"

definition evictExpired :: "time \<Rightarrow> nonceCache \<Rightarrow> nonceCache" where
  "evictExpired now c =
     (case evict_loop now (nc_entries c) (nc_order c) of
        (ents, ord) \<Rightarrow> c\<lparr>nc_entries := ents, nc_order := ord\<rparr>)"

definition Contains :: "time \<Rightarrow> byte list \<Rightarrow> nonceCache \<Rightarrow> bool \<times> nonceCache" where
  "Contains now nonce c =
     (let c' = evictExpired now c
      in (map_of (nc_entries c') (hex_encode nonce) \<noteq> None, c'))"

text \<open>\<open>for len(c.entries) >= c.maxSize && len(c.order) > 0\<close>: drop the oldest entry.\<close>

fun make_room ::
  "int \<Rightarrow> (string \<times> time) list \<Rightarrow> (string \<times> time) list
   \<Rightarrow> (string \<times> time) list \<times> (string \<times> time) list" where
  "make_room mx ents [] = (ents, [])"
| "make_room mx ents ((k, x) # ord) =
     (if mx \<le> int (length ents) then make_room mx (AList.delete k ents) ord
      else (ents, (k, x) # ord))"

definition Add :: "time \<Rightarrow> byte list \<Rightarrow> nonceCache \<Rightarrow> nonceCache" where
  "Add now nonce c =
     (let key = hex_encode nonce;
          c1 = evictExpired now c
      in if map_of (nc_entries c1) key \<noteq> None then c1
         else
           (case make_room (nc_maxSize c1) (nc_entries c1) (nc_order c1) of
              (ents, ord) \<Rightarrow>
                c1\<lparr>nc_entries := AList.update key (now + nc_ttl c1) ents,
                   nc_order := ord @ [(key, now + nc_ttl c1)]\<rparr>))"

section \<open>Invariant\<close>

text \<open>The map and the slice hold the same entries, one per key.\<close>

definition nc_inv :: "nonceCache \<Rightarrow> bool" where
  "nc_inv c \<longleftrightarrow> nc_entries c = nc_order c \<and> distinct (map fst (nc_order c))"

lemma delete_head:
  "distinct (map fst ((k, x) # ord)) \<Longrightarrow> AList.delete k ((k, x) # ord) = ord"
  by (simp add: AList.delete_id)

lemma update_fresh: "k \<notin> fst ` set al \<Longrightarrow> AList.update k v al = al @ [(k, v)]"
  by (induction al) auto

lemma evict_loop_eq:
  "distinct (map fst ord) \<Longrightarrow>
   evict_loop now ord ord =
     (dropWhile (\<lambda>(k, x). x < now) ord, dropWhile (\<lambda>(k, x). x < now) ord)"
proof (induction ord)
  case Nil
  then show ?case by simp
next
  case (Cons p ord)
  then show ?case by (cases p) (simp add: AList.delete_id)
qed

definition room_left :: "int \<Rightarrow> (string \<times> time) list \<Rightarrow> (string \<times> time) list" where
  "room_left mx ord = drop (length ord - nat (mx - 1)) ord"

lemma make_room_eq:
  "distinct (map fst ord) \<Longrightarrow>
   make_room mx ord ord = (room_left mx ord, room_left mx ord)"
proof (induction ord)
  case Nil
  then show ?case by (simp add: room_left_def)
next
  case (Cons p ord)
  show ?case
  proof (cases "mx \<le> int (length (p # ord))")
    case True
    obtain k x where p: "p = (k, x)" by fastforce
    have "make_room mx (p # ord) (p # ord) = make_room mx ord ord"
      using True Cons.prems p by (simp add: AList.delete_id)
    also have "\<dots> = (room_left mx ord, room_left mx ord)"
      using Cons by simp
    also have "room_left mx ord = room_left mx (p # ord)"
    proof -
      have "length (p # ord) - nat (mx - 1) = Suc (length ord - nat (mx - 1))"
        using True by auto
      then show ?thesis by (simp add: room_left_def)
    qed
    finally show ?thesis .
  next
    case False
    then have "length (p # ord) - nat (mx - 1) = 0" by auto
    with False show ?thesis by (cases p) (simp add: room_left_def)
  qed
qed

lemma evictExpired_eq:
  assumes "nc_inv c"
  shows "evictExpired now c =
     c\<lparr>nc_entries := dropWhile (\<lambda>(k, x). x < now) (nc_order c),
       nc_order := dropWhile (\<lambda>(k, x). x < now) (nc_order c)\<rparr>"
  using assms by (simp add: evictExpired_def nc_inv_def evict_loop_eq)

lemma distinct_dropWhile_fst:
  "distinct (map fst ord) \<Longrightarrow> distinct (map fst (dropWhile P ord))"
  by (induction ord) auto

lemma nc_inv_new: "nc_inv (NewNonceCache m t)"
  by (simp add: nc_inv_def NewNonceCache_def)

lemma nc_inv_evictExpired: "nc_inv c \<Longrightarrow> nc_inv (evictExpired now c)"
  by (simp add: evictExpired_eq) (simp add: nc_inv_def distinct_dropWhile_fst)

lemma nc_inv_Contains: "nc_inv c \<Longrightarrow> nc_inv (snd (Contains now n c))"
  by (simp add: Contains_def Let_def nc_inv_evictExpired)

text \<open>What \<open>Add\<close> does to the slice, with the map gone.\<close>

definition live :: "time \<Rightarrow> nonceCache \<Rightarrow> (string \<times> time) list" where
  "live now c = dropWhile (\<lambda>(k, x). x < now) (nc_order c)"

lemma map_of_None_fst: "map_of al k = None \<longleftrightarrow> k \<notin> fst ` set al"
  by (simp add: map_of_eq_None_iff)

lemma Add_eq:
  assumes "nc_inv c"
  shows "nc_order (Add now n c) =
     (if hex_encode n \<in> fst ` set (live now c) then live now c
      else room_left (nc_maxSize c) (live now c) @ [(hex_encode n, now + nc_ttl c)])"
    and "nc_entries (Add now n c) = nc_order (Add now n c)"
    and "nc_maxSize (Add now n c) = nc_maxSize c" and "nc_ttl (Add now n c) = nc_ttl c"
proof -
  have d: "distinct (map fst (live now c))"
    using assms by (simp add: nc_inv_def live_def distinct_dropWhile_fst)
  have fresh: "hex_encode n \<notin> fst ` set (room_left (nc_maxSize c) (live now c))"
    if "hex_encode n \<notin> fst ` set (live now c)"
    using that by (auto simp: room_left_def dest: in_set_dropD intro: rev_image_eqI)
  show "nc_order (Add now n c) =
     (if hex_encode n \<in> fst ` set (live now c) then live now c
      else room_left (nc_maxSize c) (live now c) @ [(hex_encode n, now + nc_ttl c)])"
    and "nc_entries (Add now n c) = nc_order (Add now n c)"
    and "nc_maxSize (Add now n c) = nc_maxSize c" and "nc_ttl (Add now n c) = nc_ttl c"
    using assms d update_fresh [OF fresh]
    by (simp_all add: Add_def Let_def evictExpired_eq live_def [symmetric] make_room_eq
        map_of_eq_None_iff)
qed

lemma nc_inv_Add:
  assumes "nc_inv c"
  shows "nc_inv (Add now n c)"
proof -
  have d: "distinct (map fst (live now c))"
    using assms by (simp add: nc_inv_def live_def distinct_dropWhile_fst)
  then have "distinct (map fst (room_left m (live now c)))" for m
    by (simp add: room_left_def distinct_drop flip: drop_map)
  moreover have "fst ` set (room_left m (live now c)) \<subseteq> fst ` set (live now c)" for m
    by (auto simp: room_left_def dest: in_set_dropD)
  ultimately show ?thesis
    using d by (auto simp: nc_inv_def Add_eq [OF assms])
qed

lemmas nc_inv_intros = nc_inv_new nc_inv_evictExpired nc_inv_Contains nc_inv_Add

section \<open>Bounded memory\<close>

lemma length_live: "length (live now c) \<le> length (nc_order c)"
  by (simp add: live_def length_dropWhile_le)

lemma Add_bounded:
  assumes "nc_inv c" and "int (length (nc_order c)) \<le> max 1 (nc_maxSize c)"
  shows "int (length (nc_order (Add now n c))) \<le> max 1 (nc_maxSize c)"
  using assms(2) length_live [of now c]
  by (auto simp: Add_eq [OF assms(1)] room_left_def)

section \<open>The contract of a replay guard\<close>

text \<open>
  \<open>held c n x j\<close>: the guard remembers \<open>n\<close> until \<open>x\<close> and at most \<open>j\<close> values were
  remembered after it.  A run is a list of uses: \<open>(True, t, m)\<close> remembers \<open>m\<close> at time
  \<open>t\<close>, \<open>(False, t, m)\<close> asks for it.
\<close>

fun guard_run ::
  "(time \<Rightarrow> 'n \<Rightarrow> 'c \<Rightarrow> bool \<times> 'c) \<Rightarrow> (time \<Rightarrow> 'n \<Rightarrow> 'c \<Rightarrow> 'c)
   \<Rightarrow> (bool \<times> time \<times> 'n) list \<Rightarrow> 'c \<Rightarrow> 'c" where
  "guard_run seen remember [] c = c"
| "guard_run seen remember ((b, t, m) # ops) c =
     guard_run seen remember ops (if b then remember t m c else snd (seen t m c))"

locale replay_guard =
  fixes inv :: "'c \<Rightarrow> bool"
    and seen :: "time \<Rightarrow> 'n \<Rightarrow> 'c \<Rightarrow> bool \<times> 'c"
    and remember :: "time \<Rightarrow> 'n \<Rightarrow> 'c \<Rightarrow> 'c"
    and capacity :: "'c \<Rightarrow> int"
    and window :: "'c \<Rightarrow> int"
    and held :: "'c \<Rightarrow> 'n \<Rightarrow> time \<Rightarrow> nat \<Rightarrow> bool"
  assumes inv_seen: "inv c \<Longrightarrow> inv (snd (seen t n c))"
    and inv_remember: "inv c \<Longrightarrow> inv (remember t n c)"
    and capacity_seen: "inv c \<Longrightarrow> capacity (snd (seen t n c)) = capacity c"
    and capacity_remember: "inv c \<Longrightarrow> capacity (remember t n c) = capacity c"
    and held_seen: "inv c \<Longrightarrow> held c n x j \<Longrightarrow> t \<le> x \<Longrightarrow> fst (seen t n c)"
    and held_keep_seen: "inv c \<Longrightarrow> held c n x j \<Longrightarrow> t \<le> x \<Longrightarrow> held (snd (seen t m c)) n x j"
    and held_keep_remember:
      "inv c \<Longrightarrow> held c n x j \<Longrightarrow> t \<le> x \<Longrightarrow> int j + 1 < capacity c \<Longrightarrow>
       held (remember t m c) n x (Suc j)"
    and held_new: "inv c \<Longrightarrow> \<not> fst (seen t n c) \<Longrightarrow> held (remember t n c) n (t + window c) 0"
begin

lemma run_held:
  assumes "inv c" and "held c n x j" and "\<And>b t m. (b, t, m) \<in> set ops \<Longrightarrow> t \<le> x"
    and "int j + int (length (filter fst ops)) < capacity c"
  shows "inv (guard_run seen remember ops c) \<and> (\<exists>k. held (guard_run seen remember ops c) n x k)"
  using assms
proof (induction ops arbitrary: c j)
  case Nil
  then show ?case by auto
next
  case (Cons o1 ops)
  obtain b t m where o1: "o1 = (b, t, m)" by (metis prod_cases3)
  have t: "t \<le> x" using Cons.prems(3) o1 by auto
  have rest: "\<And>b t m. (b, t, m) \<in> set ops \<Longrightarrow> t \<le> x"
    using Cons.prems(3) by auto
  show ?case
  proof (cases b)
    case True
    have "held (remember t m c) n x (Suc j)"
      using Cons.prems t True o1 by (intro held_keep_remember) auto
    moreover have "int (Suc j) + int (length (filter fst ops)) < capacity (remember t m c)"
      using Cons.prems(1,4) True o1 by (simp add: capacity_remember)
    ultimately show ?thesis
      using Cons.IH [OF inv_remember [OF Cons.prems(1)] _ rest] True o1 by simp
  next
    case False
    have "held (snd (seen t m c)) n x j"
      using Cons.prems(1,2) t by (rule held_keep_seen)
    moreover have "int j + int (length (filter fst ops)) < capacity (snd (seen t m c))"
      using Cons.prems(1,4) False o1 by (simp add: capacity_seen)
    ultimately show ?thesis
      using Cons.IH [OF inv_seen [OF Cons.prems(1)] _ rest] False o1 by simp
  qed
qed

lemma replay_seen:
  assumes "inv c" and "\<not> fst (seen t0 n c)"
    and "\<And>b t m. (b, t, m) \<in> set ops \<Longrightarrow> t \<le> t0 + window c"
    and "int (length (filter fst ops)) < capacity c" and "t \<le> t0 + window c"
  shows "fst (seen t n (guard_run seen remember ops (remember t0 n c)))"
proof -
  have "inv (guard_run seen remember ops (remember t0 n c)) \<and>
        (\<exists>k. held (guard_run seen remember ops (remember t0 n c)) n (t0 + window c) k)"
    using assms(3,4)
    by (intro run_held [where j = 0])
      (auto simp: inv_remember assms(1) capacity_remember held_new [OF assms(1,2)])
  then show ?thesis using held_seen assms(5) by blast
qed

end

definition nc_held :: "nonceCache \<Rightarrow> byte list \<Rightarrow> time \<Rightarrow> nat \<Rightarrow> bool" where
  "nc_held c n x j \<longleftrightarrow>
     (\<exists>pre post. nc_order c = pre @ (hex_encode n, x) # post \<and> length post \<le> j)"

lemma nc_heldI:
  "nc_order c = pre @ (hex_encode n, x) # post \<Longrightarrow> length post \<le> j \<Longrightarrow> nc_held c n x j"
  by (auto simp: nc_held_def)

lemma fst_Contains:
  "nc_inv c \<Longrightarrow> fst (Contains t n c) \<longleftrightarrow> hex_encode n \<in> fst ` set (live t c)"
  by (auto simp: Contains_def Let_def evictExpired_eq live_def [symmetric] map_of_eq_None_iff
      simp del: not_None_eq)

lemma Contains_order: "nc_inv c \<Longrightarrow> nc_order (snd (Contains t n c)) = live t c"
  by (simp add: Contains_def Let_def evictExpired_eq live_def)

lemma Contains_frame:
  "nc_inv c \<Longrightarrow> nc_maxSize (snd (Contains t n c)) = nc_maxSize c"
  "nc_inv c \<Longrightarrow> nc_ttl (snd (Contains t n c)) = nc_ttl c"
  by (simp_all add: Contains_def Let_def evictExpired_eq)

lemma live_split:
  assumes "nc_order c = pre @ (k, x) # post" and "t \<le> x"
  shows "\<exists>pre'. live t c = pre' @ (k, x) # post"
  using assms by (auto simp: live_def dropWhile_append3)

lemma nc_held_remember:
  assumes "nc_inv c" and "nc_held c n x j" and "t \<le> x" and "int j + 1 < nc_maxSize c"
  shows "nc_held (Add t m c) n x (Suc j)"
proof -
  obtain pre post where o: "nc_order c = pre @ (hex_encode n, x) # post" "length post \<le> j"
    using assms(2) by (auto simp: nc_held_def)
  obtain pre' where l: "live t c = pre' @ (hex_encode n, x) # post"
    using live_split [OF o(1) assms(3)] by blast
  show ?thesis
  proof (cases "hex_encode m \<in> fst ` set (live t c)")
    case True
    then have "nc_order (Add t m c) = pre' @ (hex_encode n, x) # post"
      by (simp add: Add_eq(1) [OF assms(1)] l)
    then show ?thesis by (rule nc_heldI) (use o(2) in simp)
  next
    case False
    have "length (live t c) - nat (nc_maxSize c - 1) \<le> length pre'"
      using l o(2) assms(4) by auto
    then have "room_left (nc_maxSize c) (live t c) =
        drop (length (live t c) - nat (nc_maxSize c - 1)) pre' @ (hex_encode n, x) # post"
      by (simp add: room_left_def l)
    with False have "nc_order (Add t m c) =
        drop (length (live t c) - nat (nc_maxSize c - 1)) pre' @
        (hex_encode n, x) # (post @ [(hex_encode m, t + nc_ttl c)])"
      by (simp add: Add_eq(1) [OF assms(1)])
    then show ?thesis by (rule nc_heldI) (use o(2) in simp)
  qed
qed

interpretation nonce_guard: replay_guard nc_inv Contains Add nc_maxSize nc_ttl nc_held
proof
  fix c :: nonceCache and t x n m j
  assume inv: "nc_inv c"
  show "nc_inv (snd (Contains t n c))" "nc_inv (Add t n c)"
    using inv by (simp_all add: nc_inv_intros)
  show "nc_maxSize (snd (Contains t n c)) = nc_maxSize c" "nc_maxSize (Add t n c) = nc_maxSize c"
    using inv by (simp_all add: Contains_frame Add_eq)
  show "nc_held (Add t n c) n (t + nc_ttl c) 0" if "\<not> fst (Contains t n c)"
    using that inv by (auto simp: nc_held_def fst_Contains Add_eq)
  assume held: "nc_held c n x j" and t: "t \<le> x"
  then obtain pre post where o: "nc_order c = pre @ (hex_encode n, x) # post" "length post \<le> j"
    by (auto simp: nc_held_def)
  obtain pre' where l: "live t c = pre' @ (hex_encode n, x) # post"
    using live_split [OF o(1) t] by blast
  show "fst (Contains t n c)"
    using inv l by (simp add: fst_Contains)
  show "nc_held (snd (Contains t m c)) n x j"
    using inv l o(2) by (auto simp: nc_held_def Contains_order)
  show "nc_held (Add t m c) n x (Suc j)" if "int j + 1 < nc_maxSize c"
    using inv held t that by (rule nc_held_remember)
qed

section \<open>Reachable caches\<close>

text \<open>A cache the agent can be in at time \<open>t\<close>, the clock never running backwards.\<close>

inductive nc_reach :: "int \<Rightarrow> int \<Rightarrow> time \<Rightarrow> nonceCache \<Rightarrow> bool" for m ttl where
  start: "nc_reach m ttl t (NewNonceCache m ttl)"
| ask: "nc_reach m ttl t c \<Longrightarrow> t \<le> t' \<Longrightarrow> nc_reach m ttl t' (snd (Contains t' n c))"
| add: "nc_reach m ttl t c \<Longrightarrow> t \<le> t' \<Longrightarrow> nc_reach m ttl t' (Add t' n c)"

definition nc_clocked :: "int \<Rightarrow> int \<Rightarrow> time \<Rightarrow> nonceCache \<Rightarrow> bool" where
  "nc_clocked m ttl t c \<longleftrightarrow>
     nc_inv c \<and> nc_maxSize c = m \<and> nc_ttl c = ttl \<and> int (length (nc_order c)) \<le> max 1 m \<and>
     sorted (map snd (nc_order c)) \<and> (\<forall>p\<in>set (nc_order c). snd p \<le> t + ttl)"

lemma live_suffix: "\<exists>p. nc_order c = p @ live t c"
  unfolding live_def by (metis takeWhile_dropWhile_id)

lemma sorted_live: "sorted (map snd (nc_order c)) \<Longrightarrow> sorted (map snd (live t c))"
  using live_suffix [of c t] by (auto simp: sorted_append)

lemma set_live: "set (live t c) \<subseteq> set (nc_order c)"
  unfolding live_def by (auto dest: set_dropWhileD)

lemma live_sorted_mem:
  assumes "sorted (map snd (nc_order c))"
  shows "(k, x) \<in> set (live t c) \<longleftrightarrow> (k, x) \<in> set (nc_order c) \<and> t \<le> x"
proof -
  have "sorted (map snd ord) \<Longrightarrow>
     (k, x) \<in> set (dropWhile (\<lambda>(k, x). x < t) ord) \<longleftrightarrow> (k, x) \<in> set ord \<and> t \<le> x" for ord
  proof (induction ord)
    case Nil
    then show ?case by simp
  next
    case (Cons p ord)
    then show ?case by (cases p) force
  qed
  then show ?thesis using assms by (simp add: live_def)
qed

lemma room_left_suffix: "\<exists>p. ord = p @ room_left m ord"
  unfolding room_left_def by (metis append_take_drop_id)

lemma nc_clocked_ask:
  assumes "nc_clocked m ttl t c" and "t \<le> t'"
  shows "nc_clocked m ttl t' (snd (Contains t' n c))"
proof -
  have inv: "nc_inv c" using assms(1) by (simp add: nc_clocked_def)
  show ?thesis
    using assms length_live [of t' c] set_live [of t' c] sorted_live [of c t']
    by (fastforce simp: nc_clocked_def Contains_order [OF inv] Contains_frame [OF inv]
        nc_inv_Contains [OF inv])
qed

lemma nc_clocked_add:
  assumes "nc_clocked m ttl t c" and "t \<le> t'"
  shows "nc_clocked m ttl t' (Add t' n c)"
proof -
  have inv: "nc_inv c" and c: "nc_maxSize c = m" "nc_ttl c = ttl"
      "int (length (nc_order c)) \<le> max 1 m" "sorted (map snd (nc_order c))"
      "\<forall>p\<in>set (nc_order c). snd p \<le> t + ttl"
    using assms(1) by (simp_all add: nc_clocked_def)
  have le: "\<forall>p\<in>set (live t' c). snd p \<le> t' + ttl"
    using c(5) assms(2) set_live [of t' c] by fastforce
  obtain p where p: "live t' c = p @ room_left m (live t' c)"
    using room_left_suffix by blast
  have srt: "sorted (map snd (p @ room_left m (live t' c)))"
    using sorted_live [OF c(4)] p by metis
  have "set (room_left m (live t' c)) \<subseteq> set (live t' c)"
    by (auto simp: room_left_def dest: in_set_dropD)
  with le srt have "sorted (map snd (nc_order (Add t' n c)))"
    and "\<forall>p\<in>set (nc_order (Add t' n c)). snd p \<le> t' + ttl"
    using sorted_live [OF c(4), of t'] by (auto simp: Add_eq [OF inv] c(1,2) sorted_append)
  then show ?thesis
    using Add_bounded [OF inv] c by (simp add: nc_clocked_def Add_eq(3,4) [OF inv] nc_inv_Add [OF inv])
qed

lemma nc_reach_clocked: "nc_reach m ttl t c \<Longrightarrow> nc_clocked m ttl t c"
proof (induction rule: nc_reach.induct)
  case (start t)
  then show ?case by (simp add: nc_clocked_def nc_inv_new) (simp add: NewNonceCache_def)
next
  case (ask t c t' n)
  then show ?case by (blast intro: nc_clocked_ask)
next
  case (add t c t' n)
  then show ?case by (blast intro: nc_clocked_add)
qed

section \<open>Properties\<close>

text \<open>
  replay protection of the nonce cache.  A nonce that was not in the cache and is
  added at \<open>t0\<close> is reported by \<open>Contains\<close> at every time up to \<open>t0 + ttl\<close>, whatever
  calls to \<open>Contains\<close> and fewer than \<open>maxSize\<close> calls to \<open>Add\<close> come in between.
\<close>

lemma nonce_replay_blocked:
  assumes "nc_inv c" and "\<not> fst (Contains t0 n c)"
    and "\<And>b t m. (b, t, m) \<in> set ops \<Longrightarrow> t \<le> t0 + nc_ttl c"
    and "int (length (filter fst ops)) < nc_maxSize c" and "t \<le> t0 + nc_ttl c"
  shows "fst (Contains t n (guard_run Contains Add ops (Add t0 n c)))"
  using assms by (rule nonce_guard.replay_seen)

lemma nonce_replay_blocked_instance:
  "fst (Contains 1030 [1] (guard_run Contains Add [(True, 1001, [2]), (False, 1010, [3]), (True, 1020, [4])]
     (Add 1000 [1] (NewNonceCache 3 30))))"
proof (rule nonce_replay_blocked)
  show "nc_inv (NewNonceCache 3 30)" by (rule nc_inv_new)
  show "\<not> fst (Contains 1000 [1] (NewNonceCache 3 30))" by code_simp
  show "(b, t, m) \<in> set [(True, 1001, [2]), (False, 1010, [3]), (True, 1020, [4])] \<Longrightarrow>
      t \<le> 1000 + nc_ttl (NewNonceCache 3 30)" for b t m
    by (auto simp: NewNonceCache_def)
qed (simp_all add: NewNonceCache_def)

text \<open>
  in every state the cache can reach with a clock that does not run backwards, it holds
  at most \<open>maxSize\<close> entries (one, when \<open>maxSize\<close> is not positive), the map and the order
  slice agree, and \<open>Contains\<close> answers yes exactly for the nonces whose entry has not
  expired.
\<close>

lemma nonce_cache_reachable:
  assumes "nc_reach m ttl t c" and "t \<le> t'"
  shows "int (length (nc_entries c)) \<le> max 1 m \<and> nc_entries c = nc_order c \<and>
    (fst (Contains t' n c) \<longleftrightarrow> (\<exists>x. (hex_encode n, x) \<in> set (nc_order c) \<and> t' \<le> x))"
proof -
  have c: "nc_clocked m ttl t c" using assms(1) by (rule nc_reach_clocked)
  then have inv: "nc_inv c" and "sorted (map snd (nc_order c))"
    by (simp_all add: nc_clocked_def)
  then have "fst (Contains t' n c) \<longleftrightarrow> (\<exists>x. (hex_encode n, x) \<in> set (nc_order c) \<and> t' \<le> x)"
    using live_sorted_mem [of c _ _ t'] by (force simp: fst_Contains)
  with c show ?thesis by (simp add: nc_clocked_def nc_inv_def)
qed

lemma nonce_cache_reachable_instance:
  "int (length (nc_entries (Add 5 [7] (NewNonceCache 2 30)))) \<le> max 1 2 \<and>
   nc_entries (Add 5 [7] (NewNonceCache 2 30)) = nc_order (Add 5 [7] (NewNonceCache 2 30)) \<and>
   (fst (Contains 6 [7] (Add 5 [7] (NewNonceCache 2 30))) \<longleftrightarrow>
     (\<exists>x. (hex_encode [7], x) \<in> set (nc_order (Add 5 [7] (NewNonceCache 2 30))) \<and> 6 \<le> x))"
proof (rule nonce_cache_reachable)
  show "nc_reach 2 30 5 (Add 5 [7] (NewNonceCache 2 30))"
    by (rule nc_reach.add [OF nc_reach.start [of 2 30 5]]) simp
qed simp

end
