(* ===== verification/Wiegand.thy ===== *)
theory Wiegand
  imports Go_Time Go_Bytes
begin

unbundle bit_operations_syntax

text \<open>
  \<open>cmd/gateway-agent/wiegand_reader.go\<close>: decoding of 26- and 34-bit Wiegand frames and
  the read loop that assembles them.  Bits arrive as bytes 0 and 1.  A slice expression
  \<open>bits[a:b]\<close> is \<open>slice a b bits\<close>; the length test before it keeps it in range.  The
  select loop of \<open>readLoop\<close> is a step function on its local variables: a bit from a pin
  watcher, or the frame timer firing after 50 ms of silence.  The GPIO registry, the pin
  watchers' waiting and the timer itself are the environment.
\<close>

section \<open>Parity and frame decoding\<close>

definition slice :: "nat \<Rightarrow> nat \<Rightarrow> 'a list \<Rightarrow> 'a list" where
  "slice a b xs = take (b - a) (drop a xs)"

definition checkEvenParity :: "byte list \<Rightarrow> bool" where
  "checkEvenParity bits \<longleftrightarrow> length (filter (\<lambda>b. b \<noteq> 0) bits) mod 2 = 0"

definition checkOddParity :: "byte list \<Rightarrow> bool" where
  "checkOddParity bits \<longleftrightarrow> \<not> checkEvenParity bits"

definition bitsToUint :: "byte list \<Rightarrow> 32 word" where
  "bitsToUint bits = foldl (\<lambda>v b. push_bit 1 v OR ucast (b AND 1)) 0 bits"

datatype wiegand_error =
    WrongLength nat nat
  | EvenParityFailed nat
  | OddParityFailed nat
  | UnsupportedLength nat

definition decodeWiegand26 :: "byte list \<Rightarrow> (wiegand_error, 16 word \<times> 32 word) result" where
  "decodeWiegand26 bits =
     (if length bits \<noteq> 26 then Inl (WrongLength 26 (length bits))
      else if \<not> checkEvenParity (slice 0 13 bits) then Inl (EvenParityFailed 26)
      else if \<not> checkOddParity (slice 13 26 bits) then Inl (OddParityFailed 26)
      else Inr (ucast (bitsToUint (slice 1 9 bits)), bitsToUint (slice 9 25 bits)))"

definition decodeWiegand34 :: "byte list \<Rightarrow> (wiegand_error, 16 word \<times> 32 word) result" where
  "decodeWiegand34 bits =
     (if length bits \<noteq> 34 then Inl (WrongLength 34 (length bits))
      else if \<not> checkEvenParity (slice 0 17 bits) then Inl (EvenParityFailed 34)
      else if \<not> checkOddParity (slice 17 34 bits) then Inl (OddParityFailed 34)
      else Inr (ucast (bitsToUint (slice 1 17 bits)), bitsToUint (slice 17 33 bits)))"

definition decodeWiegandFrame ::
  "byte list \<Rightarrow> (wiegand_error, string \<times> 16 word \<times> 32 word) result" where
  "decodeWiegandFrame bits =
     (if length bits = 26 then
        (case decodeWiegand26 bits of Inl e \<Rightarrow> Inl e | Inr (fc, cn) \<Rightarrow> Inr (''wiegand_26'', fc, cn))
      else if length bits = 34 then
        (case decodeWiegand34 bits of Inl e \<Rightarrow> Inl e | Inr (fc, cn) \<Rightarrow> Inr (''wiegand_34'', fc, cn))
      else Inl (UnsupportedLength (length bits)))"

section \<open>The read loop\<close>

record wiegandReader =
  wr_bits :: "byte list"
  wr_debounceUntil :: time

datatype wiegand_event = Bit byte | FrameTimer

definition wr_start :: wiegandReader where
  "wr_start = \<lparr>wr_bits = [], wr_debounceUntil = zero_time\<rparr>"

text \<open>One turn of the select loop at clock \<open>now\<close>; the second component is the argument
  pair of \<open>onCredential\<close> when it is called.\<close>

definition readLoop ::
  "time \<Rightarrow> wiegand_event \<Rightarrow> wiegandReader \<Rightarrow> wiegandReader \<times> (string \<times> string) option" where
  "readLoop now ev r =
     (case ev of
        Bit b \<Rightarrow>
          if now < wr_debounceUntil r then (r, None)
          else (r\<lparr>wr_bits := wr_bits r @ [b]\<rparr>, None)
      | FrameTimer \<Rightarrow>
          if wr_bits r = [] then (r, None)
          else if now < wr_debounceUntil r then (r\<lparr>wr_bits := []\<rparr>, None)
          else
            (case decodeWiegandFrame (wr_bits r) of
               Inl _ \<Rightarrow> (r\<lparr>wr_bits := []\<rparr>, None)
             | Inr (credType, fc, cn) \<Rightarrow>
                 (r\<lparr>wr_bits := [], wr_debounceUntil := now + 2 * ns_second\<rparr>,
                  Some (credType, show_nat (unat fc) @ '':'' @ show_nat (unat cn)))))"

fun readLoop_run ::
  "(time \<times> wiegand_event) list \<Rightarrow> wiegandReader \<Rightarrow> (time \<times> string \<times> string) list" where
  "readLoop_run [] r = []"
| "readLoop_run ((t, ev) # evs) r =
     (case readLoop t ev r of
        (r', None) \<Rightarrow> readLoop_run evs r'
      | (r', Some cred) \<Rightarrow> (t, cred) # readLoop_run evs r')"

section \<open>The frame a card sends\<close>

text \<open>
  Specification side: the bits of a number, most significant first, and the frame a reader
  puts on the wire, parity bits included.
\<close>

fun bits_of :: "nat \<Rightarrow> nat \<Rightarrow> byte list" where
  "bits_of 0 v = []"
| "bits_of (Suc n) v = (if odd (v div 2 ^ n) then 1 else 0) # bits_of n v"

definition parity_bit :: "byte list \<Rightarrow> bool \<Rightarrow> byte" where
  "parity_bit bits want_odd = (if checkEvenParity bits = want_odd then 1 else 0)"

definition with_parity :: "nat \<Rightarrow> byte list \<Rightarrow> byte list" where
  "with_parity h data =
     [parity_bit (take h data) False] @ data @ [parity_bit (drop h data) True]"

definition frame26 :: "8 word \<Rightarrow> 16 word \<Rightarrow> byte list" where
  "frame26 fc cn = with_parity 12 (bits_of 8 (unat fc) @ bits_of 16 (unat cn))"

definition frame34 :: "16 word \<Rightarrow> 16 word \<Rightarrow> byte list" where
  "frame34 fc cn = with_parity 16 (bits_of 16 (unat fc) @ bits_of 16 (unat cn))"

definition flip_bit_at :: "nat \<Rightarrow> byte list \<Rightarrow> byte list" where
  "flip_bit_at i bits = bits[i := (if bits ! i = 0 then 1 else 0)]"

section \<open>Lemmas\<close>

lemma length_bits_of [simp]: "length (bits_of n v) = n"
  by (induction n) auto

lemma bits_of_01: "b \<in> set (bits_of n v) \<Longrightarrow> b = 0 \<or> b = 1"
  by (induction n) (auto split: if_splits)

lemma even_parity_Nil [simp]: "checkEvenParity []"
  by (simp add: checkEvenParity_def)

lemma even_parity_Cons:
  "checkEvenParity (b # bs) \<longleftrightarrow> (if b = 0 then checkEvenParity bs else \<not> checkEvenParity bs)"
  by (auto simp: checkEvenParity_def mod_Suc)

lemma even_parity_append:
  "checkEvenParity (xs @ ys) \<longleftrightarrow> (checkEvenParity xs = checkEvenParity ys)"
  by (induction xs) (auto simp: even_parity_Cons)

lemma even_parity_update:
  assumes "i < length xs" and "(xs ! i = 0) \<noteq> (y = 0)"
  shows "checkEvenParity (xs[i := y]) \<longleftrightarrow> \<not> checkEvenParity xs"
proof -
  have "checkEvenParity xs \<longleftrightarrow> checkEvenParity (take i xs @ xs ! i # drop (Suc i) xs)"
    using assms(1) by (simp add: id_take_nth_drop [symmetric])
  then show ?thesis
    using assms by (auto simp: upd_conv_take_nth_drop even_parity_append even_parity_Cons)
qed

text \<open>The value of a bit string, as a natural number.\<close>

fun bits_val :: "byte list \<Rightarrow> nat" where
  "bits_val [] = 0"
| "bits_val (b # bs) = (if odd (unat b) then 2 ^ length bs else 0) + bits_val bs"

lemma bits_val_less: "bits_val bs < 2 ^ length bs"
  by (induction bs) auto

lemma bits_val_bits_of: "v < 2 ^ n \<Longrightarrow> bits_val (bits_of n v) = v"
proof (induction n arbitrary: v)
  case 0
  then show ?case by simp
next
  case (Suc n)
  have "bits_of n v = bits_of n (v mod 2 ^ n)"
  proof -
    have "m \<le> n \<Longrightarrow> bits_of m v = bits_of m (v mod 2 ^ n)" for m
    proof (induction m)
      case 0
      then show ?case by simp
    next
      case (Suc m)
      have "bit v m = bit (take_bit n v) m"
        using Suc.prems by (simp add: bit_take_bit_iff)
      then have "odd (v div 2 ^ m) = odd (v mod 2 ^ n div 2 ^ m)"
        by (simp add: bit_iff_odd take_bit_eq_mod)
      with Suc show ?case by simp
    qed
    then show ?thesis by blast
  qed
  then have "bits_val (bits_of n v) = v mod 2 ^ n"
    using Suc.IH [of "v mod 2 ^ n"] by simp
  moreover have "v div 2 ^ n < 2"
    using Suc.prems by (simp add: less_mult_imp_div_less mult.commute)
  then have "(if odd (v div 2 ^ n) then 2 ^ n else 0) = v div 2 ^ n * 2 ^ n"
    by (cases "v div 2 ^ n") auto
  moreover have "bits_val (bits_of (Suc n) v) =
      (if odd (v div 2 ^ n) then 2 ^ n else 0) + bits_val (bits_of n v)"
    by simp
  ultimately show ?case by (simp only: div_mult_mod_eq)
qed

lemma bitsToUint_acc:
  "foldl (\<lambda>v b. push_bit 1 v OR ucast (b AND 1)) (w :: 32 word) bits =
   w * 2 ^ length bits + word_of_nat (bits_val bits)"
proof (induction bits arbitrary: w)
  case Nil
  then show ?case by simp
next
  case (Cons b bs)
  have b1: "b AND 1 = (if odd b then 1 else 0)"
    by (simp add: and_one_eq mod_2_eq_odd)
  have odd: "odd (unat b) \<longleftrightarrow> odd b"
    by transfer (simp add: even_take_bit_eq even_nat_iff)
  have step: "push_bit 1 w OR ucast (b AND 1) = w * 2 + (if odd b then 1 else 0)"
  proof -
    have "push_bit 1 w = w * 2" by (simp add: push_bit_eq_mult)
    moreover have "w * 2 OR 1 = w * 2 + 1" by (simp add: or_one_eq)
    ultimately show ?thesis by (simp add: b1)
  qed
  show ?case
    unfolding foldl_Cons step Cons.IH by (simp add: odd algebra_simps)
qed

lemma bitsToUint_eq: "bitsToUint bits = word_of_nat (bits_val bits)"
  unfolding bitsToUint_def bitsToUint_acc by simp

lemma uint_of_bits_of: "v < 2 ^ n \<Longrightarrow> bitsToUint (bits_of n v) = word_of_nat v"
  by (simp add: bitsToUint_eq bits_val_bits_of)

lemma parity_bit_01: "parity_bit bits w = 0 \<or> parity_bit bits w = 1"
  by (simp add: parity_bit_def)

lemma with_parity_even: "checkEvenParity (parity_bit bits False # bits)"
  by (simp add: parity_bit_def even_parity_Cons)

lemma with_parity_odd: "\<not> checkEvenParity (bits @ [parity_bit bits True])"
  by (simp add: parity_bit_def even_parity_append even_parity_Cons)

lemma slice_with_parity:
  assumes "length data = 2 * h"
  shows "slice 0 (Suc h) (with_parity h data) = parity_bit (take h data) False # take h data"
    and "slice (Suc h) (2 * h + 2) (with_parity h data) =
         drop h data @ [parity_bit (drop h data) True]"
    and "a \<le> b \<Longrightarrow> b \<le> 2 * h \<Longrightarrow>
         slice (Suc a) (Suc b) (with_parity h data) = slice a b data"
  using assms by (auto simp: slice_def with_parity_def)

lemma slice_append_left:
  "length xs = n \<Longrightarrow> slice 0 n (xs @ ys) = xs"
  by (simp add: slice_def)

lemma slice_append_right:
  "length xs = n \<Longrightarrow> length ys = k \<Longrightarrow> slice n (n + k) (xs @ ys) = ys"
  by (simp add: slice_def)

lemma length_with_parity: "length (with_parity h data) = length data + 2"
  by (simp add: with_parity_def)

lemma ucast_8_32_16: "ucast (ucast (fc :: 8 word) :: 32 word) = (ucast fc :: 16 word)"
  by (rule bit_word_eqI) (auto simp: bit_unsigned_iff dest: bit_imp_le_length)

lemma ucast_16_32_16: "ucast (ucast (fc :: 16 word) :: 32 word) = (fc :: 16 word)"
  by (rule bit_word_eqI) (auto simp: bit_unsigned_iff dest: bit_imp_le_length)

lemma decode26_frame: "decodeWiegand26 (frame26 fc cn) = Inr (ucast fc, ucast cn)"
proof -
  let ?d = "bits_of 8 (unat fc) @ bits_of 16 (unat cn)"
  have len: "length ?d = 2 * 12" by simp
  note sl = slice_with_parity [OF len]
  have "slice 0 8 ?d = bits_of 8 (unat fc)" "slice 8 (8 + 16) ?d = bits_of 16 (unat cn)"
    by (simp_all only: slice_append_left slice_append_right length_bits_of)
  then have "slice 1 9 (with_parity 12 ?d) = bits_of 8 (unat fc)"
    and "slice 9 25 (with_parity 12 ?d) = bits_of 16 (unat cn)"
    using sl(3) [of 0 8] sl(3) [of 8 24] by simp_all
  moreover have "checkEvenParity (slice 0 13 (with_parity 12 ?d))"
    and "\<not> checkEvenParity (slice 13 26 (with_parity 12 ?d))"
    using sl(1,2) with_parity_even with_parity_odd by simp_all
  moreover have "bitsToUint (bits_of 8 (unat fc)) = ucast fc"
    and "bitsToUint (bits_of 16 (unat cn)) = ucast cn"
    using unsigned_less [of fc, where ?'a = nat] unsigned_less [of cn, where ?'a = nat]
    by (simp_all add: uint_of_bits_of)
  ultimately show ?thesis
    by (simp add: decodeWiegand26_def frame26_def length_with_parity checkOddParity_def
        ucast_8_32_16)
qed

lemma decode34_frame: "decodeWiegand34 (frame34 fc cn) = Inr (fc, ucast cn)"
proof -
  let ?d = "bits_of 16 (unat fc) @ bits_of 16 (unat cn)"
  have len: "length ?d = 2 * 16" by simp
  note sl = slice_with_parity [OF len]
  have "slice 0 16 ?d = bits_of 16 (unat fc)" "slice 16 (16 + 16) ?d = bits_of 16 (unat cn)"
    by (simp_all only: slice_append_left slice_append_right length_bits_of)
  then have "slice 1 17 (with_parity 16 ?d) = bits_of 16 (unat fc)"
    and "slice 17 33 (with_parity 16 ?d) = bits_of 16 (unat cn)"
    using sl(3) [of 0 16] sl(3) [of 16 32] by simp_all
  moreover have "checkEvenParity (slice 0 17 (with_parity 16 ?d))"
    and "\<not> checkEvenParity (slice 17 34 (with_parity 16 ?d))"
    using sl(1,2) with_parity_even with_parity_odd by simp_all
  moreover have "bitsToUint (bits_of 16 (unat fc)) = ucast fc"
    and "bitsToUint (bits_of 16 (unat cn)) = ucast cn"
    using unsigned_less [of fc, where ?'a = nat] unsigned_less [of cn, where ?'a = nat]
    by (simp_all add: uint_of_bits_of)
  ultimately show ?thesis
    by (simp add: decodeWiegand34_def frame34_def length_with_parity checkOddParity_def
        ucast_16_32_16)
qed

lemma decode_frame26:
  "decodeWiegandFrame (frame26 fc cn) = Inr (''wiegand_26'', ucast fc, ucast cn)"
  using decode26_frame [of fc cn]
  by (simp add: decodeWiegandFrame_def frame26_def length_with_parity)

lemma decode_frame34:
  "decodeWiegandFrame (frame34 fc cn) = Inr (''wiegand_34'', fc, ucast cn)"
  using decode34_frame [of fc cn]
  by (simp add: decodeWiegandFrame_def frame34_def length_with_parity)

lemma length_flip_bit_at [simp]: "length (flip_bit_at i bits) = length bits"
  by (simp add: flip_bit_at_def)

lemma slice_flip_outside:
  "i < a \<or> b \<le> i \<Longrightarrow> slice a b (flip_bit_at i bits) = slice a b bits"
  by (rule nth_equalityI) (auto simp: slice_def flip_bit_at_def nth_list_update)

lemma slice_flip_inside:
  assumes "a \<le> i" and "i < b" and "b \<le> length bits"
  shows "slice a b (flip_bit_at i bits) = (slice a b bits)[i - a := (if bits ! i = 0 then 1 else 0)]"
  using assms by (simp add: slice_def flip_bit_at_def drop_update_swap take_update_swap)

lemma even_parity_flip:
  assumes "a \<le> i" and "i < b" and "b \<le> length bits"
  shows "checkEvenParity (slice a b (flip_bit_at i bits)) \<longleftrightarrow> \<not> checkEvenParity (slice a b bits)"
proof -
  have "slice a b bits ! (i - a) = bits ! i" and "i - a < length (slice a b bits)"
    using assms by (auto simp: slice_def)
  then show ?thesis
    using assms by (simp add: slice_flip_inside even_parity_update)
qed

text \<open>The parity sections cover the frame, so a flipped bit fails one of the two checks.\<close>

lemma decode26_flip:
  "decodeWiegand26 bits = Inr x \<Longrightarrow> i < 26 \<Longrightarrow> \<exists>e. decodeWiegand26 (flip_bit_at i bits) = Inl e"
  by (cases "i < 13")
     (auto simp: decodeWiegand26_def checkOddParity_def even_parity_flip slice_flip_outside
       split: if_splits)

lemma decode34_flip:
  "decodeWiegand34 bits = Inr x \<Longrightarrow> i < 34 \<Longrightarrow> \<exists>e. decodeWiegand34 (flip_bit_at i bits) = Inl e"
  by (cases "i < 17")
     (auto simp: decodeWiegand34_def checkOddParity_def even_parity_flip slice_flip_outside
       split: if_splits)

lemma readLoop_debounce:
  assumes "readLoop t ev r = (r', out)"
  shows "out \<noteq> None \<Longrightarrow> wr_debounceUntil r \<le> t \<and> wr_debounceUntil r' = t + 2 * ns_second"
    and "out = None \<Longrightarrow> wr_debounceUntil r' = wr_debounceUntil r"
  using assms
  by (auto simp: readLoop_def split: wiegand_event.splits if_splits sum.splits prod.splits)

lemma readLoop_run_after:
  "(t, c) \<in> set (readLoop_run evs r) \<Longrightarrow> wr_debounceUntil r \<le> t"
proof (induction evs arbitrary: r)
  case Nil
  then show ?case by simp
next
  case (Cons a evs)
  obtain t' ev where a: "a = (t', ev)" by fastforce
  obtain r' out where st: "readLoop t' ev r = (r', out)" by fastforce
  note d = readLoop_debounce [OF st]
  show ?case
  proof (cases out)
    case None
    with Cons a st d(2) show ?thesis by fastforce
  next
    case (Some c')
    then have "wr_debounceUntil r \<le> t'" "wr_debounceUntil r \<le> wr_debounceUntil r'"
      using d(1) by (auto simp: ns_second_def)
    with Cons a st Some show ?thesis by fastforce
  qed
qed

section \<open>Properties\<close>

text \<open>
  C31: Every card is read as it was sent: decoding the frame of a facility code and a card
  number gives the format and exactly that pair, for both the 26-bit and the 34-bit format.
\<close>

theorem wiegand_round_trip:
  "decodeWiegandFrame (frame26 fc8 cn) = Inr (''wiegand_26'', ucast fc8, ucast cn) \<and>
   decodeWiegandFrame (frame34 fc cn) = Inr (''wiegand_34'', fc, ucast cn)"
  by (simp add: decode_frame26 decode_frame34)

text \<open>
  A single corrupted bit is always detected: if a frame decodes, then flipping any one
  of its bits, a parity bit included, makes the decoder return an error.
\<close>

lemma wiegand_single_bit_error:
  assumes "decodeWiegandFrame bits = Inr x" and "i < length bits"
  shows "\<exists>e. decodeWiegandFrame (flip_bit_at i bits) = Inl e"
proof (cases "length bits = 26")
  case True
  with assms obtain y where "decodeWiegand26 bits = Inr y"
    by (auto simp: decodeWiegandFrame_def split: sum.splits)
  then obtain e where "decodeWiegand26 (flip_bit_at i bits) = Inl e"
    using decode26_flip assms(2) True by metis
  with True show ?thesis by (simp add: decodeWiegandFrame_def)
next
  case False
  with assms obtain y where "length bits = 34" "decodeWiegand34 bits = Inr y"
    by (auto simp: decodeWiegandFrame_def split: sum.splits if_splits)
  then obtain e where "decodeWiegand34 (flip_bit_at i bits) = Inl e"
    using decode34_flip assms(2) by metis
  with \<open>length bits = 34\<close> show ?thesis by (simp add: decodeWiegandFrame_def)
qed

lemma wiegand_single_bit_error_instance:
  "\<exists>e. decodeWiegandFrame (flip_bit_at 5 (frame26 200 1234)) = Inl e"
proof (rule wiegand_single_bit_error)
  show "decodeWiegandFrame (frame26 200 1234) = Inr (''wiegand_26'', 200, 1234)"
    by (simp add: decode_frame26)
  show "5 < length (frame26 200 1234)"
    by (simp add: frame26_def length_with_parity)
qed

text \<open>
  The reader never reports twice within two seconds: whatever bits and timer ticks
  arrive, each report is at least two seconds after every earlier one.
\<close>

lemma wiegand_debounce:
  "sorted_wrt (\<lambda>a b. fst a + 2 * ns_second \<le> fst b) (readLoop_run evs r)"
proof (induction evs arbitrary: r)
  case Nil
  then show ?case by simp
next
  case (Cons a evs)
  obtain t ev where a: "a = (t, ev)" by fastforce
  obtain r' out where st: "readLoop t ev r = (r', out)" by fastforce
  show ?case
    using Cons a st readLoop_debounce(1) [OF st] readLoop_run_after [of _ _ evs r']
    by (cases out) auto
qed

end
