(* ===== verification/Gateway_Agent.thy ===== *)
theory Gateway_Agent
  imports MP_Prelude Ble_Protocol Nonce_Cache Wiegand "HOL-Library.Sublist"
begin

text \<open>
  \<open>cmd/gateway-agent/agent.go\<close>, \<open>ble_reader.go\<close>, \<open>nfc_reader.go\<close>, \<open>nfc_hce_reader.go\<close> and
  the push handlers of \<open>ws_client.go\<close>: the agent that decides at the door from cached rules.
  The record \<open>agent\<close> holds the fields of \<open>Agent\<close> that change or that a decision reads.  Time
  is an argument, one reading per handler (two for a session that waits for the phone).  HTTP
  and JSON are outside: what \<open>apiRequest\<close> and the decoder deliver is a value of
  \<open>pull_reply\<close> or \<open>push_reply\<close>.  The relay's \<open>Unlock\<close> is the flag a handler returns.
  Logging has no effect on the state and is left out.
\<close>

section \<open>State\<close>

record accessRule =
  ru_CredentialType :: string
  ru_CredentialData :: string
  ru_UserID :: string
  ru_UserEmail :: string
  ru_LockIDs :: "string list"
  ru_ValidUntil :: string

record accessEvent =
  ae_GatewayID :: string
  ae_EventType :: string
  ae_LockID :: string
  ae_Actor :: string
  ae_Result :: string
  ae_OccurredAt :: string

record agent =
  ag_gatewayID :: string
  ag_bootstrapToken :: string
  ag_deviceToken :: string
  ag_accessRules :: "accessRule list"
  ag_ruleVersion :: string
  ag_rulesUpdatedAt :: time
  ag_rulesCacheTTL :: int
  ag_eventQueue :: "accessEvent list"
  ag_nonceCache :: "nonceCache option"
  ag_gatewayIDUint32 :: "32 word"
  ag_offlineSince :: time
  ag_eventPushBackoff :: int
  ag_eventQueueDropped :: int

definition BLEResultGranted :: byte where "BLEResultGranted = 1"
definition BLEResultDenied :: byte where "BLEResultDenied = 2"
definition BLEResultExpiredChallenge :: byte where "BLEResultExpiredChallenge = 3"
definition BLEResultInvalidSignature :: byte where "BLEResultInvalidSignature = 4"
definition BLEResultUnknownUser :: byte where "BLEResultUnknownUser = 5"

lemmas result_code_defs = BLEResultGranted_def BLEResultDenied_def BLEResultExpiredChallenge_def
  BLEResultInvalidSignature_def BLEResultUnknownUser_def

section \<open>Tokens\<close>

definition activeToken :: "agent \<Rightarrow> string" where
  "activeToken a = (if ag_deviceToken a \<noteq> '''' then ag_deviceToken a else ag_bootstrapToken a)"

text \<open>\<open>file\<close>: what \<open>os.ReadFile\<close> delivers; \<open>None\<close> when no file is configured or it fails.\<close>

definition loadDeviceToken :: "string option \<Rightarrow> agent \<Rightarrow> bool \<times> agent" where
  "loadDeviceToken file a =
     (case file of
        None \<Rightarrow> (False, a)
      | Some data \<Rightarrow>
          let token = trim_space data in
          if token = '''' then (False, a) else (True, a\<lparr>ag_deviceToken := token\<rparr>))"

section \<open>Rule updates\<close>

datatype pull_reply =
    PullFailed
  | PullStatus int
  | PullUndecodable
  | PullRules string "accessRule list"

definition set_rules :: "time \<Rightarrow> string \<Rightarrow> accessRule list \<Rightarrow> agent \<Rightarrow> agent" where
  "set_rules now version rules a =
     a\<lparr>ag_accessRules := rules, ag_ruleVersion := version, ag_rulesUpdatedAt := now\<rparr>"

definition pullConfig :: "time \<Rightarrow> pull_reply \<Rightarrow> agent \<Rightarrow> bool \<times> agent" where
  "pullConfig now reply a =
     (case reply of
        PullRules version rules \<Rightarrow> (True, set_rules now version rules a)
      | _ \<Rightarrow> (False, a))"

definition same_rule_key :: "accessRule \<Rightarrow> accessRule \<Rightarrow> bool" where
  "same_rule_key x y \<longleftrightarrow>
     ru_CredentialType x = ru_CredentialType y \<and> ru_CredentialData x = ru_CredentialData y \<and>
     ru_UserID x = ru_UserID y"

text \<open>One turn of the merge loop: replace the first rule with the same key, else append.\<close>

definition merge_rule :: "accessRule \<Rightarrow> accessRule list \<Rightarrow> accessRule list" where
  "merge_rule incoming rules =
     (case find_idx (\<lambda>r. same_rule_key r incoming) rules of
        Some i \<Rightarrow> rules[i := incoming]
      | None \<Rightarrow> rules @ [incoming])"

definition handleCredentialPush ::
  "time \<Rightarrow> (bool \<times> string \<times> accessRule list) option \<Rightarrow> agent \<Rightarrow> agent" where
  "handleCredentialPush now push a =
     (case push of
        None \<Rightarrow> a
      | Some (incremental, version, rules) \<Rightarrow>
          set_rules now version
            (if incremental then fold merge_rule rules (ag_accessRules a) else rules) a)"

definition handleConfigPush ::
  "time \<Rightarrow> (string \<times> accessRule list) option \<Rightarrow> agent \<Rightarrow> agent" where
  "handleConfigPush now push a =
     (case push of None \<Rightarrow> a | Some (version, rules) \<Rightarrow> set_rules now version rules a)"

section \<open>Local decision\<close>

definition cacheExpired :: "time \<Rightarrow> agent \<Rightarrow> bool" where
  "cacheExpired now a \<longleftrightarrow>
     ag_rulesCacheTTL a > 0 \<and> \<not> is_zero (ag_rulesUpdatedAt a) \<and>
     time_sub now (ag_rulesUpdatedAt a) > ag_rulesCacheTTL a"

text \<open>\<open>rule.ValidUntil\<close> is set, parses, and lies in the past.\<close>

definition rule_expired :: "time \<Rightarrow> accessRule \<Rightarrow> bool" where
  "rule_expired now r \<longleftrightarrow>
     ru_ValidUntil r \<noteq> '''' \<and>
     (case parse_rfc3339 (ru_ValidUntil r) of None \<Rightarrow> False | Some expiry \<Rightarrow> now > expiry)"

datatype decision = Allow | Deny

fun verify_rules ::
  "time \<Rightarrow> string \<Rightarrow> string \<Rightarrow> string \<Rightarrow> accessRule list \<Rightarrow> decision \<times> string \<times> string" where
  "verify_rules now ty data lockID [] = (Deny, '''', '''')"
| "verify_rules now ty data lockID (r # rs) =
     (if to_lower (ru_CredentialType r) \<noteq> ty then verify_rules now ty data lockID rs
      else if to_upper (ru_CredentialData r) \<noteq> data then verify_rules now ty data lockID rs
      else if rule_expired now r then (Deny, ru_UserID r, ru_UserEmail r)
      else if lockID \<in> set (ru_LockIDs r) then (Allow, ru_UserID r, ru_UserEmail r)
      else (Deny, ru_UserID r, ru_UserEmail r))"

definition VerifyCredential ::
  "time \<Rightarrow> string \<Rightarrow> string \<Rightarrow> string \<Rightarrow> agent \<Rightarrow> decision \<times> string \<times> string" where
  "VerifyCredential now credentialType credentialData lockID a =
     (if cacheExpired now a then (Deny, '''', '''')
      else verify_rules now (to_lower (trim_space credentialType))
             (to_upper (trim_space credentialData)) lockID (ag_accessRules a))"

fun verify_ble_rules ::
  "'k crypto \<Rightarrow> byte list \<Rightarrow> bleAuthResponse \<Rightarrow> string \<Rightarrow> accessRule list \<Rightarrow>
   decision \<times> string \<times> string" where
  "verify_ble_rules cr nonce resp lockID [] = (Deny, ar_UserID resp, '''')"
| "verify_ble_rules cr nonce resp lockID (r # rs) =
     (if to_lower (ru_CredentialType r) \<noteq> ''ble_signature'' then verify_ble_rules cr nonce resp lockID rs
      else if ru_UserID r \<noteq> ar_UserID resp then verify_ble_rules cr nonce resp lockID rs
      else
        (case VerifyBLESignature cr (ru_CredentialData r) nonce (ar_UserID resp) (ar_Signature resp) of
           Inl _ \<Rightarrow> (Deny, ru_UserID r, ru_UserEmail r)
         | Inr _ \<Rightarrow>
             if lockID \<in> set (ru_LockIDs r) then (Allow, ru_UserID r, ru_UserEmail r)
             else (Deny, ru_UserID r, ru_UserEmail r)))"

definition VerifyBLEAuth ::
  "'k crypto \<Rightarrow> time \<Rightarrow> bleChallenge option \<Rightarrow> bleAuthResponse option \<Rightarrow> string \<Rightarrow> agent \<Rightarrow>
   decision \<times> string \<times> string" where
  "VerifyBLEAuth cr now challenge response lockID a =
     (case (challenge, response) of
        (Some ch, Some resp) \<Rightarrow>
          if IsExpired_challenge now ch then (Deny, ar_UserID resp, '''')
          else if cacheExpired now a then (Deny, ar_UserID resp, '''')
          else verify_ble_rules cr (ch_Nonce ch) resp lockID (ag_accessRules a)
      | _ \<Rightarrow> (Deny, '''', ''''))"

section \<open>Version 2 verification\<close>

text \<open>The keys the user may sign with: one per unexpired rule, in rule order.\<close>

definition candidates :: "time \<Rightarrow> string \<Rightarrow> accessRule list \<Rightarrow> string list" where
  "candidates now user rules =
     map ru_CredentialData
       (filter (\<lambda>r. ru_CredentialType r = ''ble_signature'' \<and> ru_UserID r = user \<and>
                    \<not> rule_expired now r) rules)"

text \<open>The key loop: stop at the first key that verifies, else keep the last error.\<close>

fun try_keys ::
  "'k crypto \<Rightarrow> byte list \<Rightarrow> bleAuthResponse \<Rightarrow> string \<Rightarrow> string list \<Rightarrow> ble_error option \<Rightarrow>
   ble_error option" where
  "try_keys cr nonce resp transport [] lastErr = lastErr"
| "try_keys cr nonce resp transport (k # ks) lastErr =
     (case VerifyBLESignatureV2 cr k nonce (ar_UserID resp) transport (ar_Signature resp) of
        Inr _ \<Rightarrow> None
      | Inl e \<Rightarrow> try_keys cr nonce resp transport ks (Some e))"

definition auth_result :: "byte \<Rightarrow> string \<Rightarrow> bleAuthResult" where
  "auth_result code reason = \<lparr>br_Code = code, br_Reason = reason\<rparr>"

text \<open>\<open>a.nonceCache != nil && a.nonceCache.Contains(nonce)\<close> and \<open>Add\<close>.\<close>

definition ask_nonce :: "time \<Rightarrow> byte list \<Rightarrow> agent \<Rightarrow> bool \<times> agent" where
  "ask_nonce now nonce a =
     (case ag_nonceCache a of
        None \<Rightarrow> (False, a)
      | Some c \<Rightarrow> (fst (Contains now nonce c), a\<lparr>ag_nonceCache := Some (snd (Contains now nonce c))\<rparr>))"

definition add_nonce :: "time \<Rightarrow> byte list \<Rightarrow> agent \<Rightarrow> agent" where
  "add_nonce now nonce a =
     (case ag_nonceCache a of None \<Rightarrow> a | Some c \<Rightarrow> a\<lparr>ag_nonceCache := Some (Add now nonce c)\<rparr>)"

definition VerifyAuthResponseV2 ::
  "'k crypto \<Rightarrow> time \<Rightarrow> bleAuthResponse \<Rightarrow> byte list \<Rightarrow> string \<Rightarrow> agent \<Rightarrow> bleAuthResult \<times> agent" where
  "VerifyAuthResponseV2 cr now resp challenge transport a =
     (if length challenge < 32 then (auth_result BLEResultDenied ''challenge_too_short'', a)
      else if cacheExpired now a then
        (auth_result BLEResultDenied ''cache_expired_offline_too_long'', a)
      else
        let nonce = take 32 challenge;
            (reused, a1) = ask_nonce now nonce a in
        if reused then (auth_result BLEResultDenied ''nonce_reuse'', a1)
        else if length challenge \<ge> ChallengeV2Size \<and>
                word_of_nat (get_be (take 4 (drop 48 challenge))) \<noteq> ag_gatewayIDUint32 a1 then
          (auth_result BLEResultDenied ''gateway_id_mismatch'', a1)
        else
          (case candidates now (ar_UserID resp) (ag_accessRules a1) of
             [] \<Rightarrow> (auth_result BLEResultUnknownUser ''unknown_user'', a1)
           | ks \<Rightarrow>
               (case try_keys cr nonce resp transport ks None of
                  Some e \<Rightarrow> (auth_result BLEResultInvalidSignature (Error_text e), a1)
                | None \<Rightarrow> (auth_result BLEResultGranted ''access_granted'', add_nonce now nonce a1))))"

section \<open>The event queue\<close>

definition eventQueueMaxSize :: nat where "eventQueueMaxSize = 10000"
definition eventPushInterval :: int where "eventPushInterval = 5 * ns_second"
definition eventBackoffMax :: int where "eventBackoffMax = 5 * ns_minute"
definition eventBatchMaxSize :: nat where "eventBatchMaxSize = 200"

definition queueEvent :: "accessEvent \<Rightarrow> agent \<Rightarrow> agent" where
  "queueEvent evt a =
     (let a1 = (if length (ag_eventQueue a) \<ge> eventQueueMaxSize then
                  let drp = length (ag_eventQueue a) - eventQueueMaxSize + 1 in
                  a\<lparr>ag_eventQueue := drop drp (ag_eventQueue a),
                    ag_eventQueueDropped := ag_eventQueueDropped a + int drp\<rparr>
                else a)
      in a1\<lparr>ag_eventQueue := ag_eventQueue a1 @ [evt]\<rparr>)"

text \<open>
  \<open>pushEvents\<close> holds the mutex twice: to take a batch, and to record the outcome after the
  network call.  Other goroutines run in between, so the two critical sections are separate
  definitions and \<open>pushEvents\<close> is their composition when nothing runs in between.
\<close>

definition push_take :: "agent \<Rightarrow> accessEvent list option \<times> agent" where
  "push_take a =
     (if ag_eventQueue a = [] then (None, a)
      else
        let b = ag_eventPushBackoff a - eventPushInterval;
            a1 = (if ag_eventPushBackoff a > 0
                  then a\<lparr>ag_eventPushBackoff := (if b > 0 then b else 0)\<rparr> else a) in
        if ag_eventPushBackoff a > 0 \<and> b > 0 then (None, a1)
        else
          let batchSize = (if length (ag_eventQueue a) > eventBatchMaxSize then eventBatchMaxSize
                           else length (ag_eventQueue a)) in
          (Some (take batchSize (ag_eventQueue a)),
           a1\<lparr>ag_eventQueue := drop batchSize (ag_eventQueue a)\<rparr>))"

text \<open>\<open>ws\<close>: \<open>None\<close> when no WebSocket is connected, else what \<open>SendEvents\<close> returned.
  \<open>http\<close>: \<open>None\<close> when \<open>apiRequest\<close> failed, else the status code.\<close>

record push_reply =
  pr_ws :: "bool option"
  pr_http :: "int option"

definition push_handed_over :: "push_reply \<Rightarrow> bool" where
  "push_handed_over reply \<longleftrightarrow> pr_ws reply = Some True \<or> pr_http reply \<noteq> None"

definition push_finish :: "time \<Rightarrow> push_reply \<Rightarrow> accessEvent list \<Rightarrow> agent \<Rightarrow> agent" where
  "push_finish now reply batch a =
     (if push_handed_over reply then
        a\<lparr>ag_offlineSince := zero_time, ag_eventPushBackoff := 0, ag_eventQueueDropped := 0\<rparr>
      else
        a\<lparr>ag_eventQueue := batch @ ag_eventQueue a,
          ag_offlineSince := (if is_zero (ag_offlineSince a) then now else ag_offlineSince a),
          ag_eventPushBackoff :=
            (if ag_eventPushBackoff a = 0 then 10 * ns_second
             else if ag_eventPushBackoff a * 2 > eventBackoffMax then eventBackoffMax
             else ag_eventPushBackoff a * 2)\<rparr>)"

definition pushEvents :: "time \<Rightarrow> push_reply \<Rightarrow> agent \<Rightarrow> agent" where
  "pushEvents now reply a =
     (case push_take a of
        (None, a1) \<Rightarrow> a1
      | (Some batch, a1) \<Rightarrow> push_finish now reply batch a1)"

section \<open>Handlers\<close>

definition access_event :: "agent \<Rightarrow> time \<Rightarrow> string \<Rightarrow> string \<Rightarrow> string \<Rightarrow> string \<Rightarrow> accessEvent" where
  "access_event a now eventType lockID actor res =
     \<lparr>ae_GatewayID = ag_gatewayID a, ae_EventType = eventType, ae_LockID = lockID,
      ae_Actor = actor, ae_Result = res, ae_OccurredAt = format_rfc3339 now\<rparr>"

text \<open>A handler returns whether it called \<open>relay.Unlock\<close>, beside its result and the agent.\<close>

definition HandleBLEAuth ::
  "'k crypto \<Rightarrow> time \<Rightarrow> bleChallenge \<Rightarrow> bleAuthResponse \<Rightarrow> string \<Rightarrow> agent \<Rightarrow>
   bool \<times> bleAuthResult \<times> agent" where
  "HandleBLEAuth cr now challenge response lockID a =
     (case VerifyBLEAuth cr now (Some challenge) (Some response) lockID a of
        (Allow, userID, userEmail) \<Rightarrow>
          (True, auth_result BLEResultGranted ''access_granted'',
           queueEvent (access_event a now ''access_granted'' lockID userEmail ''allow'') a)
      | (Deny, userID, userEmail) \<Rightarrow>
          let (code, reason) =
                (if IsExpired_challenge now challenge then
                   (BLEResultExpiredChallenge, ''challenge_expired'')
                 else if userID = '''' then (BLEResultUnknownUser, ''unknown_user'')
                 else (BLEResultDenied, ''no_access'')) in
          (False, auth_result code reason,
           queueEvent (access_event a now ''access_denied'' lockID userEmail reason) a))"

definition HandleCredentialPresented ::
  "time \<Rightarrow> string \<Rightarrow> string \<Rightarrow> string \<Rightarrow> agent \<Rightarrow> bool \<times> agent" where
  "HandleCredentialPresented now credentialType credentialData lockID a =
     (case VerifyCredential now credentialType credentialData lockID a of
        (Allow, userID, userEmail) \<Rightarrow>
          (True, queueEvent (access_event a now ''access_granted'' lockID userEmail ''allow'') a)
      | (Deny, userID, userEmail) \<Rightarrow>
          (False, queueEvent (access_event a now ''access_denied'' lockID userEmail ''deny'') a))"

text \<open>The part the BLE and the NFC reader share after a response was parsed.\<close>

definition record_v2 ::
  "time \<Rightarrow> string \<Rightarrow> string \<Rightarrow> bleAuthResult \<Rightarrow> agent \<Rightarrow> agent" where
  "record_v2 now lockID user res a =
     (if br_Code res = BLEResultGranted then
        queueEvent (access_event a now ''access_granted'' lockID user ''allow'') a
      else queueEvent (access_event a now ''access_denied'' lockID user (br_Reason res)) a)"

text \<open>\<open>handleSession\<close>: the challenge is made at \<open>t0\<close>, the response handled at \<open>t1\<close>.
  \<open>phone\<close> maps the bytes sent to the bytes read back (\<open>None\<close>: write or read failed);
  the read buffer has 384 bytes.  The list is what the reader writes to the connection.\<close>

definition handleSession ::
  "'k crypto \<Rightarrow> time \<Rightarrow> time \<Rightarrow> byte list option \<Rightarrow> (byte list \<Rightarrow> byte list option) \<Rightarrow> string \<Rightarrow>
   agent \<Rightarrow> bool \<times> byte list list \<times> agent" where
  "handleSession cr t0 t1 rnd phone lockID a =
     (case NewBLEChallengeV2 t0 rnd (ag_gatewayIDUint32 a) of
        Inl _ \<Rightarrow> (False, [], a)
      | Inr challenge \<Rightarrow>
          let challengeBytes = Encode_challengeV2 challenge in
          (case phone challengeBytes of
             None \<Rightarrow> (False, [challengeBytes], a)
           | Some reply \<Rightarrow>
               (case DecodeBLEAuthResponse (take 384 reply) of
                  Inl _ \<Rightarrow>
                    (False, [challengeBytes, Encode_result (auth_result BLEResultDenied ''invalid_response'')], a)
                | Inr response \<Rightarrow>
                    let (res, a1) = VerifyAuthResponseV2 cr t1 response challengeBytes TransportTagBLE a in
                    (br_Code res = BLEResultGranted, [challengeBytes, Encode_result res],
                     record_v2 t1 lockID (ar_UserID response) res a1))))"

datatype nfc_error = DriverFailed | NfcProtocol ble_error | NfcStatus "16 word"

text \<open>\<open>Authenticate\<close>: \<open>wait\<close> and \<open>transmit\<close> are the driver.\<close>

definition Authenticate ::
  "bool \<Rightarrow> (byte list \<Rightarrow> byte list option) \<Rightarrow> byte list \<Rightarrow> (nfc_error, bleAuthResponse) result" where
  "Authenticate wait transmit challenge =
     (if \<not> wait then Inl DriverFailed
      else
        (case BuildAuthenticate challenge of
           Inl e \<Rightarrow> Inl (NfcProtocol e)
         | Inr authCmd \<Rightarrow>
             (case transmit authCmd of
                None \<Rightarrow> Inl DriverFailed
              | Some authResp \<Rightarrow>
                  (case ParseAPDUResponse authResp of
                     Inl e \<Rightarrow> Inl (NfcProtocol e)
                   | Inr (data, sw) \<Rightarrow>
                       if sw = 0x9000 then
                         (case ParseNFCAuthResponse data of
                            Inl e \<Rightarrow> Inl (NfcProtocol e)
                          | Inr resp \<Rightarrow> Inr resp)
                       else Inl (NfcStatus sw)))))"

record nfcHCEReader =
  nr_lockID :: string
  nr_lastGrantedUser :: string
  nr_lastGrantedAt :: time
  nr_cooldown :: int

definition handleOnce ::
  "'k crypto \<Rightarrow> time \<Rightarrow> time \<Rightarrow> byte list option \<Rightarrow> bool \<Rightarrow> (byte list \<Rightarrow> byte list option) \<Rightarrow>
   nfcHCEReader \<Rightarrow> agent \<Rightarrow> bool \<times> nfcHCEReader \<times> agent" where
  "handleOnce cr t0 t1 rnd wait transmit r a =
     (case NewBLEChallengeV2 t0 rnd (ag_gatewayIDUint32 a) of
        Inl _ \<Rightarrow> (False, r, a)
      | Inr challenge \<Rightarrow>
          let challengeBytes = Encode_challengeV2 challenge in
          (case Authenticate wait transmit challengeBytes of
             Inl _ \<Rightarrow> (False, r, a)
           | Inr response \<Rightarrow>
               let (res, a1) = VerifyAuthResponseV2 cr t1 response challengeBytes TransportTagNFCHCE a;
                   user = ar_UserID response in
               if br_Code res = BLEResultGranted \<and> user = nr_lastGrantedUser r \<and>
                  time_sub t1 (nr_lastGrantedAt r) < nr_cooldown r then (False, r, a1)
               else
                 (br_Code res = BLEResultGranted,
                  (if br_Code res = BLEResultGranted
                   then r\<lparr>nr_lastGrantedUser := user, nr_lastGrantedAt := t1\<rparr> else r),
                  record_v2 t1 (nr_lockID r) user res a1)))"

section \<open>The agent as a state machine\<close>

text \<open>Everything that can happen at the edge: a credential at a reader, a BLE or NFC
  exchange, a reply to a poll or a push from the cloud, and the event queue.\<close>

datatype agent_op =
    Present string string string
  | BleV1 bleChallenge bleAuthResponse string
  | BleSession time "byte list option" "byte list \<Rightarrow> byte list option" string
  | NfcCycle time "byte list option" bool "byte list \<Rightarrow> byte list option"
  | Pull pull_reply
  | CredentialPush "(bool \<times> string \<times> accessRule list) option"
  | ConfigPush "(string \<times> accessRule list) option"
  | Queue accessEvent
  | Push push_reply

fun agent_step ::
  "'k crypto \<Rightarrow> time \<Rightarrow> agent_op \<Rightarrow> nfcHCEReader \<times> agent \<Rightarrow> bool \<times> nfcHCEReader \<times> agent" where
  "agent_step cr now (Present ty data lk) (r, a) =
     (case HandleCredentialPresented now ty data lk a of (u, a') \<Rightarrow> (u, r, a'))"
| "agent_step cr now (BleV1 ch resp lk) (r, a) =
     (case HandleBLEAuth cr now ch resp lk a of (u, _, a') \<Rightarrow> (u, r, a'))"
| "agent_step cr now (BleSession t0 rnd phone lk) (r, a) =
     (case handleSession cr t0 now rnd phone lk a of (u, _, a') \<Rightarrow> (u, r, a'))"
| "agent_step cr now (NfcCycle t0 rnd wait transmit) (r, a) =
     handleOnce cr t0 now rnd wait transmit r a"
| "agent_step cr now (Pull reply) (r, a) = (False, r, snd (pullConfig now reply a))"
| "agent_step cr now (CredentialPush push) (r, a) = (False, r, handleCredentialPush now push a)"
| "agent_step cr now (ConfigPush push) (r, a) = (False, r, handleConfigPush now push a)"
| "agent_step cr now (Queue evt) (r, a) = (False, r, queueEvent evt a)"
| "agent_step cr now (Push reply) (r, a) = (False, r, pushEvents now reply a)"

fun updates_rules :: "agent_op \<Rightarrow> bool" where
  "updates_rules (Pull (PullRules _ _)) = True"
| "updates_rules (CredentialPush (Some _)) = True"
| "updates_rules (ConfigPush (Some _)) = True"
| "updates_rules _ = False"

text \<open>The times at which a run of operations drives the relay.\<close>

fun unlock_times ::
  "'k crypto \<Rightarrow> (time \<times> agent_op) list \<Rightarrow> nfcHCEReader \<times> agent \<Rightarrow> time list" where
  "unlock_times cr [] w = []"
| "unlock_times cr ((t, op) # ops) w =
     (case agent_step cr t op w of
        (u, w') \<Rightarrow> (if u then [t] else []) @ unlock_times cr ops w')"

section \<open>Lemmas on decisions\<close>

definition rule_matches :: "string \<Rightarrow> string \<Rightarrow> accessRule \<Rightarrow> bool" where
  "rule_matches ty data r \<longleftrightarrow>
     to_lower (ru_CredentialType r) = to_lower (trim_space ty) \<and>
     to_upper (ru_CredentialData r) = to_upper (trim_space data)"

lemma verify_rules_eq:
  "verify_rules now (to_lower (trim_space ty)) (to_upper (trim_space data)) lk rules =
   (case find (rule_matches ty data) rules of
      None \<Rightarrow> (Deny, '''', '''')
    | Some r \<Rightarrow> (if \<not> rule_expired now r \<and> lk \<in> set (ru_LockIDs r) then Allow else Deny,
                ru_UserID r, ru_UserEmail r))"
  by (induction rules) (auto simp: rule_matches_def)

lemma verify_ble_rules_allow:
  "verify_ble_rules cr n resp lk rules = (Allow, u, e) \<Longrightarrow>
   \<exists>r\<in>set rules. to_lower (ru_CredentialType r) = ''ble_signature'' \<and>
     ru_UserID r = ar_UserID resp \<and> lk \<in> set (ru_LockIDs r) \<and>
     VerifyBLESignature cr (ru_CredentialData r) n (ar_UserID resp) (ar_Signature resp) = Inr ()"
  by (induction rules) (auto split: if_splits sum.splits)

lemma try_keys_None:
  "try_keys cr n resp tr ks le = None \<longleftrightarrow>
   (\<exists>k\<in>set ks. VerifyBLESignatureV2 cr k n (ar_UserID resp) tr (ar_Signature resp) = Inr ()) \<or>
   ks = [] \<and> le = None"
  by (induction ks arbitrary: le) (auto split: sum.splits)

text \<open>What a v2 response needs to be granted.\<close>

definition v2_authorised ::
  "'k crypto \<Rightarrow> time \<Rightarrow> bleAuthResponse \<Rightarrow> byte list \<Rightarrow> string \<Rightarrow> agent \<Rightarrow> bool" where
  "v2_authorised cr now resp challenge transport a \<longleftrightarrow>
     32 \<le> length challenge \<and> \<not> cacheExpired now a \<and>
     \<not> fst (ask_nonce now (take 32 challenge) a) \<and>
     (ChallengeV2Size \<le> length challenge \<longrightarrow>
        word_of_nat (get_be (take 4 (drop 48 challenge))) = ag_gatewayIDUint32 a) \<and>
     (\<exists>r\<in>set (ag_accessRules a).
        ru_CredentialType r = ''ble_signature'' \<and> ru_UserID r = ar_UserID resp \<and>
        \<not> rule_expired now r \<and>
        VerifyBLESignatureV2 cr (ru_CredentialData r) (take 32 challenge) (ar_UserID resp)
          transport (ar_Signature resp) = Inr ())"

lemma ask_nonce_frame [simp]:
  "ag_accessRules (snd (ask_nonce now n a)) = ag_accessRules a"
  "ag_gatewayIDUint32 (snd (ask_nonce now n a)) = ag_gatewayIDUint32 a"
  "ag_rulesUpdatedAt (snd (ask_nonce now n a)) = ag_rulesUpdatedAt a"
  "ag_rulesCacheTTL (snd (ask_nonce now n a)) = ag_rulesCacheTTL a"
  by (auto simp: ask_nonce_def split: option.splits)

lemma add_nonce_frame [simp]:
  "ag_rulesUpdatedAt (add_nonce now n a) = ag_rulesUpdatedAt a"
  "ag_rulesCacheTTL (add_nonce now n a) = ag_rulesCacheTTL a"
  by (auto simp: add_nonce_def split: option.splits)

lemma candidates_ex:
  "(\<exists>k\<in>set (candidates now u rules). P k) \<longleftrightarrow>
   (\<exists>r\<in>set rules. ru_CredentialType r = ''ble_signature'' \<and> ru_UserID r = u \<and>
      \<not> rule_expired now r \<and> P (ru_CredentialData r))"
  by (auto simp: candidates_def)

lemma V2_granted_iff:
  "br_Code (fst (VerifyAuthResponseV2 cr now resp ch tr a)) = BLEResultGranted \<longleftrightarrow>
   v2_authorised cr now resp ch tr a"
proof (cases "length ch < 32 \<or> cacheExpired now a \<or> fst (ask_nonce now (take 32 ch) a) \<or>
    (length ch \<ge> ChallengeV2Size \<and>
     word_of_nat (get_be (take 4 (drop 48 ch))) \<noteq> ag_gatewayIDUint32 a)")
  case True
  then show ?thesis
    by (auto simp: VerifyAuthResponseV2_def v2_authorised_def auth_result_def result_code_defs
        Let_def case_prod_unfold)
next
  case False
  let ?ks = "candidates now (ar_UserID resp) (ag_accessRules a)"
  let ?ok = "\<exists>k\<in>set ?ks. VerifyBLESignatureV2 cr k (take 32 ch) (ar_UserID resp) tr
      (ar_Signature resp) = Inr ()"
  have "br_Code (fst (VerifyAuthResponseV2 cr now resp ch tr a)) = BLEResultGranted \<longleftrightarrow>
      ?ks \<noteq> [] \<and> try_keys cr (take 32 ch) resp tr ?ks None = None"
    using False
    by (auto simp: VerifyAuthResponseV2_def auth_result_def result_code_defs Let_def
        case_prod_unfold split: list.splits option.splits)
  also have "\<dots> \<longleftrightarrow> ?ok"
    by (auto simp: try_keys_None)
  also have "\<dots> \<longleftrightarrow> v2_authorised cr now resp ch tr a"
    using False by (auto simp: v2_authorised_def candidates_ex)
  finally show ?thesis .
qed

lemma V2_frame:
  "ag_rulesUpdatedAt (snd (VerifyAuthResponseV2 cr now resp ch tr a)) = ag_rulesUpdatedAt a"
  "ag_rulesCacheTTL (snd (VerifyAuthResponseV2 cr now resp ch tr a)) = ag_rulesCacheTTL a"
  by (auto simp: VerifyAuthResponseV2_def Let_def case_prod_unfold split: list.splits option.splits)

lemma cacheExpired_iff:
  assumes "0 < ag_rulesCacheTTL a" and "ag_rulesCacheTTL a < 2 ^ 63 - 1"
    and "\<not> is_zero (ag_rulesUpdatedAt a)"
  shows "cacheExpired now a \<longleftrightarrow> now > ag_rulesUpdatedAt a + ag_rulesCacheTTL a"
  using assms time_sub_gt_iff [of "ag_rulesCacheTTL a" now "ag_rulesUpdatedAt a"]
  by (auto simp: cacheExpired_def)

lemma cacheExpired_frame:
  "ag_rulesUpdatedAt b = ag_rulesUpdatedAt a \<Longrightarrow> ag_rulesCacheTTL b = ag_rulesCacheTTL a \<Longrightarrow>
   cacheExpired now b = cacheExpired now a"
  by (simp add: cacheExpired_def)

lemma queueEvent_frame [simp]:
  "ag_rulesUpdatedAt (queueEvent e a) = ag_rulesUpdatedAt a"
  "ag_rulesCacheTTL (queueEvent e a) = ag_rulesCacheTTL a"
  "ag_eventPushBackoff (queueEvent e a) = ag_eventPushBackoff a"
  by (simp_all add: queueEvent_def Let_def)

lemma record_v2_frame [simp]:
  "ag_rulesUpdatedAt (record_v2 now lk u res a) = ag_rulesUpdatedAt a"
  "ag_rulesCacheTTL (record_v2 now lk u res a) = ag_rulesCacheTTL a"
  by (simp_all add: record_v2_def)

lemma pushEvents_frame [simp]:
  "ag_rulesUpdatedAt (pushEvents now reply a) = ag_rulesUpdatedAt a"
  "ag_rulesCacheTTL (pushEvents now reply a) = ag_rulesCacheTTL a"
  by (auto simp: pushEvents_def push_take_def push_finish_def Let_def)

lemma handleSession_frame:
  assumes "handleSession cr t0 t1 rnd phone lk a = (u, out, a')"
  shows "ag_rulesUpdatedAt a' = ag_rulesUpdatedAt a" "ag_rulesCacheTTL a' = ag_rulesCacheTTL a"
    "u \<Longrightarrow> \<not> cacheExpired t1 a"
  using assms
  by (auto simp: handleSession_def Let_def case_prod_unfold V2_frame V2_granted_iff
      v2_authorised_def split: sum.splits option.splits)

lemma handleOnce_frame:
  assumes "handleOnce cr t0 t1 rnd wait transmit r a = (u, r', a')"
  shows "ag_rulesUpdatedAt a' = ag_rulesUpdatedAt a" "ag_rulesCacheTTL a' = ag_rulesCacheTTL a"
    "u \<Longrightarrow> \<not> cacheExpired t1 a"
  using assms
  by (auto simp: handleOnce_def Let_def case_prod_unfold V2_frame V2_granted_iff
      v2_authorised_def split: sum.splits if_splits)

lemma HandleCredentialPresented_frame:
  assumes "HandleCredentialPresented now ty data lk a = (u, a')"
  shows "ag_rulesUpdatedAt a' = ag_rulesUpdatedAt a" "ag_rulesCacheTTL a' = ag_rulesCacheTTL a"
    "u \<Longrightarrow> \<not> cacheExpired now a"
  using assms
  by (auto simp: HandleCredentialPresented_def VerifyCredential_def
      split: prod.splits decision.splits if_splits)

lemma HandleBLEAuth_frame:
  assumes "HandleBLEAuth cr now ch resp lk a = (u, res, a')"
  shows "ag_rulesUpdatedAt a' = ag_rulesUpdatedAt a" "ag_rulesCacheTTL a' = ag_rulesCacheTTL a"
    "u \<Longrightarrow> \<not> cacheExpired now a"
  using assms
  by (auto simp: HandleBLEAuth_def VerifyBLEAuth_def Let_def
      split: prod.splits decision.splits if_splits)

lemma agent_step_frame:
  assumes "agent_step cr now op (r, a) = (u, r', a')"
  shows "u \<Longrightarrow> \<not> cacheExpired now a" and "ag_rulesCacheTTL a' = ag_rulesCacheTTL a"
    and "\<not> updates_rules op \<Longrightarrow> ag_rulesUpdatedAt a' = ag_rulesUpdatedAt a"
  using assms
  by (cases op;
      auto dest: handleSession_frame handleOnce_frame HandleCredentialPresented_frame
        HandleBLEAuth_frame split: prod.splits;
      auto simp: pullConfig_def handleCredentialPush_def handleConfigPush_def set_rules_def
        split: pull_reply.splits option.splits)+

lemma unlock_times_window:
  assumes "0 < ag_rulesCacheTTL a" and "ag_rulesCacheTTL a < 2 ^ 63 - 1"
    and "\<not> is_zero (ag_rulesUpdatedAt a)"
    and "\<And>t op. (t, op) \<in> set ops \<Longrightarrow> \<not> updates_rules op"
  shows "t \<in> set (unlock_times cr ops (r, a)) \<Longrightarrow> t \<le> ag_rulesUpdatedAt a + ag_rulesCacheTTL a"
  using assms
proof (induction ops arbitrary: r a)
  case Nil
  then show ?case by simp
next
  case (Cons o1 ops)
  obtain t1 op where o1: "o1 = (t1, op)" by fastforce
  obtain u r' a' where st: "agent_step cr t1 op (r, a) = (u, r', a')"
    by (metis prod_cases3)
  have same: "ag_rulesUpdatedAt a' = ag_rulesUpdatedAt a" "ag_rulesCacheTTL a' = ag_rulesCacheTTL a"
    using agent_step_frame [OF st] Cons.prems(5) [of t1 op] o1 by auto
  have rest: "\<And>t op. (t, op) \<in> set ops \<Longrightarrow> \<not> updates_rules op"
    using Cons.prems(5) by auto
  have "t = t1 \<and> u \<or> t \<in> set (unlock_times cr ops (r', a'))"
    using Cons.prems(1) o1 st by (auto split: if_splits)
  then show ?case
  proof
    assume "t = t1 \<and> u"
    then show ?thesis
      using agent_step_frame(1) [OF st] cacheExpired_iff [OF Cons.prems(2-4)] by force
  next
    assume "t \<in> set (unlock_times cr ops (r', a'))"
    then show ?thesis
      using Cons.IH [of r' a'] Cons.prems(2-4) rest same by simp
  qed
qed

section \<open>Replay of a v2 response\<close>

fun v2_run ::
  "'k crypto \<Rightarrow> (time \<times> bleAuthResponse \<times> byte list \<times> string) list \<Rightarrow> agent \<Rightarrow> agent" where
  "v2_run cr [] a = a"
| "v2_run cr ((t, resp, ch, tr) # reqs) a =
     v2_run cr reqs (snd (VerifyAuthResponseV2 cr t resp ch tr a))"

lemma guard_run_append:
  "guard_run s r (xs @ ys) c = guard_run s r ys (guard_run s r xs c)"
  by (induction xs arbitrary: c) auto

text \<open>One verification uses the guard at its own time and remembers at most one nonce.\<close>

lemma V2_cache:
  assumes "ag_nonceCache a = Some c"
  obtains gops where
    "ag_nonceCache (snd (VerifyAuthResponseV2 cr now resp ch tr a)) = Some (guard_run Contains Add gops c)"
    "length (filter fst gops) \<le> 1" "\<And>b t m. (b, t, m) \<in> set gops \<Longrightarrow> t = now"
proof -
  let ?n = "take 32 ch"
  let ?c1 = "snd (Contains now ?n c)"
  have "ag_nonceCache (snd (VerifyAuthResponseV2 cr now resp ch tr a)) \<in>
        {Some c, Some ?c1, Some (Add now ?n ?c1)}"
    using assms
    by (auto simp: VerifyAuthResponseV2_def ask_nonce_def add_nonce_def Let_def case_prod_unfold
        split: list.splits option.splits)
  then consider "ag_nonceCache (snd (VerifyAuthResponseV2 cr now resp ch tr a)) = Some c"
    | "ag_nonceCache (snd (VerifyAuthResponseV2 cr now resp ch tr a)) = Some ?c1"
    | "ag_nonceCache (snd (VerifyAuthResponseV2 cr now resp ch tr a)) = Some (Add now ?n ?c1)"
    by blast
  then show thesis
  proof cases
    case 1
    then show ?thesis using that [of "[]"] by simp
  next
    case 2
    then show ?thesis using that [of "[(False, now, ?n)]"] by simp
  next
    case 3
    then show ?thesis using that [of "[(False, now, ?n), (True, now, ?n)]"] by auto
  qed
qed

lemma v2_run_cache:
  assumes "ag_nonceCache a = Some c"
  obtains gops where "ag_nonceCache (v2_run cr reqs a) = Some (guard_run Contains Add gops c)"
    "length (filter fst gops) \<le> length reqs" "\<And>b t m. (b, t, m) \<in> set gops \<Longrightarrow> t \<in> fst ` set reqs"
  using assms
proof (induction reqs arbitrary: a c thesis)
  case Nil
  show ?case by (rule Nil.prems(1) [of "[]"]) (use Nil.prems(2) in auto)
next
  case (Cons q reqs)
  obtain t resp ch tr where q: "q = (t, resp, ch, tr)" by (metis prod_cases4)
  let ?a1 = "snd (VerifyAuthResponseV2 cr t resp ch tr a)"
  obtain g1 where g1: "ag_nonceCache ?a1 = Some (guard_run Contains Add g1 c)"
    "length (filter fst g1) \<le> 1" "\<And>b t' m. (b, t', m) \<in> set g1 \<Longrightarrow> t' = t"
    using V2_cache [OF Cons.prems(2)] by metis
  obtain g2 where g2: "ag_nonceCache (v2_run cr reqs ?a1) =
      Some (guard_run Contains Add g2 (guard_run Contains Add g1 c))"
    "length (filter fst g2) \<le> length reqs" "\<And>b t m. (b, t, m) \<in> set g2 \<Longrightarrow> t \<in> fst ` set reqs"
    using Cons.IH [OF _ g1(1)] by metis
  show ?case
  proof (rule Cons.prems(1) [of "g1 @ g2"])
    show "ag_nonceCache (v2_run cr (q # reqs) a) = Some (guard_run Contains Add (g1 @ g2) c)"
      using g2(1) q by (simp add: guard_run_append)
  next
    show "length (filter fst (g1 @ g2)) \<le> length (q # reqs)"
      using g1(2) g2(2) by simp
  next
    show "t' \<in> fst ` set (q # reqs)" if "(b, t', m) \<in> set (g1 @ g2)" for b t' m
      using that g1(3) g2(3) q by force
  qed
qed

text \<open>A grant leaves the cache with the nonce just added.\<close>

lemma V2_granted_cache:
  assumes "ag_nonceCache a = Some c" and "v2_authorised cr now resp ch tr a"
  shows "ag_nonceCache (snd (VerifyAuthResponseV2 cr now resp ch tr a)) =
         Some (Add now (take 32 ch) (snd (Contains now (take 32 ch) c)))"
    and "\<not> fst (Contains now (take 32 ch) c)"
proof -
  have g: "br_Code (fst (VerifyAuthResponseV2 cr now resp ch tr a)) = BLEResultGranted"
    using assms(2) by (simp add: V2_granted_iff)
  then show "ag_nonceCache (snd (VerifyAuthResponseV2 cr now resp ch tr a)) =
         Some (Add now (take 32 ch) (snd (Contains now (take 32 ch) c)))"
    using assms(1)
    by (auto simp: VerifyAuthResponseV2_def ask_nonce_def add_nonce_def Let_def case_prod_unfold
        auth_result_def result_code_defs split: list.splits option.splits if_splits)
  show "\<not> fst (Contains now (take 32 ch) c)"
    using assms by (simp add: v2_authorised_def ask_nonce_def)
qed

lemma Contains_twice:
  assumes "nc_inv c" and "\<not> fst (Contains t n c)"
  shows "\<not> fst (Contains t n (snd (Contains t n c)))"
proof -
  have "live t (snd (Contains t n c)) = live t c"
    using assms(1) by (simp add: live_def Contains_order dropWhile_idem)
  then show ?thesis
    using assms by (simp add: fst_Contains nc_inv_Contains)
qed

section \<open>The queue under interleaving\<close>

text \<open>
  States of the queue with the pusher between or inside its critical sections.
  \<open>queue_reach a infl all sent cleared\<close>: agent \<open>a\<close>, batch in flight, all events queued so
  far, events handed over so far, and what the hand-overs have read from the agent's own
  counter of dropped events before setting it back to zero.
\<close>

inductive queue_reach ::
  "agent \<Rightarrow> accessEvent list option \<Rightarrow> accessEvent list \<Rightarrow> accessEvent list \<Rightarrow> int \<Rightarrow> bool" where
  start: "ag_eventQueue a = [] \<Longrightarrow> ag_eventPushBackoff a = 0 \<Longrightarrow> ag_eventQueueDropped a = 0 \<Longrightarrow>
     queue_reach a None [] [] 0"
| queued: "queue_reach a infl al sent cleared \<Longrightarrow>
     queue_reach (queueEvent evt a) infl (al @ [evt]) sent cleared"
| takes: "queue_reach a None al sent cleared \<Longrightarrow> push_take a = (infl, a') \<Longrightarrow>
     queue_reach a' infl al sent cleared"
| finishes: "queue_reach a (Some batch) al sent cleared \<Longrightarrow>
     queue_reach (push_finish now reply batch a) None al
       (if push_handed_over reply then sent @ batch else sent)
       (if push_handed_over reply then cleared + ag_eventQueueDropped a else cleared)"

definition in_flight :: "accessEvent list option \<Rightarrow> accessEvent list" where
  "in_flight infl = (case infl of None \<Rightarrow> [] | Some b \<Rightarrow> b)"

definition queue_inv ::
  "agent \<Rightarrow> accessEvent list option \<Rightarrow> accessEvent list \<Rightarrow> accessEvent list \<Rightarrow> int \<Rightarrow> bool" where
  "queue_inv a infl al sent cleared \<longleftrightarrow>
     subseq (sent @ in_flight infl @ ag_eventQueue a) al \<and>
     int (length al) = int (length sent + length (in_flight infl) + length (ag_eventQueue a)) +
       cleared + ag_eventQueueDropped a \<and>
     length (in_flight infl) \<le> eventBatchMaxSize \<and>
     length (ag_eventQueue a) \<le>
       eventQueueMaxSize + (if infl = None then eventBatchMaxSize else 0) \<and>
     ag_eventPushBackoff a \<in> {0, 5 * ns_second, 10 * ns_second} \<and>
     (infl \<noteq> None \<longrightarrow> ag_eventPushBackoff a = 0)"

lemma queue_of_queueEvent:
  "ag_eventQueue (queueEvent e a) =
   drop (Suc (length (ag_eventQueue a)) - eventQueueMaxSize) (ag_eventQueue a) @ [e]"
  by (auto simp: queueEvent_def Let_def Suc_diff_le)

lemma dropped_of_queueEvent:
  "ag_eventQueueDropped (queueEvent e a) =
   ag_eventQueueDropped a + int (Suc (length (ag_eventQueue a)) - eventQueueMaxSize)"
  by (auto simp: queueEvent_def Let_def Suc_diff_le)

lemma queue_inv_queued:
  assumes "queue_inv a infl al sent lost"
  shows "queue_inv (queueEvent evt a) infl (al @ [evt]) sent lost"
proof -
  let ?q = "ag_eventQueue a"
  let ?d = "drop (Suc (length ?q) - eventQueueMaxSize) ?q"
  have "subseq ?d ?q" by (rule suffix_imp_subseq [OF suffix_drop])
  then have "subseq (sent @ in_flight infl @ ?d) (sent @ in_flight infl @ ?q)"
    by (intro list_emb_append_mono subseq_order.refl)
  with assms have "subseq (sent @ in_flight infl @ ?d) al"
    by (auto simp: queue_inv_def intro: subseq_order.trans)
  then have "subseq ((sent @ in_flight infl @ ?d) @ [evt]) (al @ [evt])"
    by (intro list_emb_append_mono subseq_order.refl)
  then show ?thesis
    using assms
    by (auto simp: queue_inv_def queue_of_queueEvent dropped_of_queueEvent eventQueueMaxSize_def)
qed

lemma queue_inv_takes:
  assumes "queue_inv a None al sent lost" and "push_take a = (infl, a')"
  shows "queue_inv a' infl al sent lost"
proof (cases infl)
  case None
  then have "ag_eventQueue a' = ag_eventQueue a" "ag_eventQueueDropped a' = ag_eventQueueDropped a"
    and "ag_eventPushBackoff a' \<in> {0, 5 * ns_second, 10 * ns_second}"
    using assms
    by (auto simp: push_take_def queue_inv_def eventPushInterval_def ns_second_def Let_def
        split: if_splits)
  with assms(1) None show ?thesis by (simp add: queue_inv_def)
next
  case (Some batch)
  then have "batch @ ag_eventQueue a' = ag_eventQueue a" "ag_eventPushBackoff a' = 0"
    and "ag_eventQueueDropped a' = ag_eventQueueDropped a"
    and "length batch = min eventBatchMaxSize (length (ag_eventQueue a))"
    using assms
    by (auto simp: push_take_def queue_inv_def Let_def eventBatchMaxSize_def ns_second_def
        split: if_splits)
  moreover from this have "length (ag_eventQueue a) = length batch + length (ag_eventQueue a')"
    by (metis length_append)
  ultimately show ?thesis
    using assms(1) Some
    by (auto simp: queue_inv_def in_flight_def eventBatchMaxSize_def eventQueueMaxSize_def)
qed

lemma queue_inv_finishes:
  "queue_inv a (Some batch) al sent lost \<Longrightarrow>
   queue_inv (push_finish now reply batch a) None al
     (if push_handed_over reply then sent @ batch else sent)
     (if push_handed_over reply then lost + ag_eventQueueDropped a else lost)"
  by (auto simp: queue_inv_def in_flight_def push_finish_def)

lemma queue_reach_inv: "queue_reach a infl al sent lost \<Longrightarrow> queue_inv a infl al sent lost"
proof (induction rule: queue_reach.induct)
  case (start a)
  then show ?case by (simp add: queue_inv_def in_flight_def)
next
  case (queued a infl al sent lost evt)
  then show ?case by (intro queue_inv_queued)
next
  case (takes a al sent lost infl a')
  then show ?case by (blast intro: queue_inv_takes)
next
  case (finishes a batch al sent lost now reply)
  then show ?case by (intro queue_inv_finishes)
qed

section \<open>Rule merging\<close>

lemma find_as_idx: "find P xs = map_option ((!) xs) (find_idx P xs)"
  by (induction xs) (auto simp: option.map_comp comp_def)

lemma find_update_hit:
  assumes "find_idx P xs = Some i" and "P y"
  shows "find P (xs[i := y]) = Some y"
proof -
  have "find_idx P (xs[i := y]) = Some i"
    using assms by (auto simp: find_idx_Some_iff)
  then show ?thesis
    using assms find_idx_SomeD(1) [OF assms(1)] by (simp add: find_as_idx)
qed

lemma find_update_miss:
  assumes "i < length xs" and "\<not> P (xs ! i)" and "\<not> P y"
  shows "find P (xs[i := y]) = find P xs"
  using assms
proof (induction xs arbitrary: i)
  case Nil
  then show ?case by simp
next
  case (Cons x xs)
  then show ?case by (cases i) auto
qed

lemma find_append: "find P (xs @ ys) = (case find P xs of None \<Rightarrow> find P ys | Some x \<Rightarrow> Some x)"
  by (induction xs) auto

text \<open>A merged rule is the one its key finds; other keys find what they found.\<close>

lemma find_merge_rule:
  "find (\<lambda>r. same_rule_key r k) (merge_rule x rules) =
   (if same_rule_key x k then Some x else find (\<lambda>r. same_rule_key r k) rules)"
proof (cases "find_idx (\<lambda>r. same_rule_key r x) rules")
  case None
  then have n: "find (\<lambda>r. same_rule_key r x) rules = None" by (simp add: find_as_idx)
  show ?thesis
  proof (cases "same_rule_key x k")
    case True
    then have "(\<lambda>r. same_rule_key r k) = (\<lambda>r. same_rule_key r x)"
      by (auto simp: same_rule_key_def)
    with None n True show ?thesis by (simp add: merge_rule_def find_append same_rule_key_def)
  next
    case False
    with None show ?thesis
      by (simp add: merge_rule_def find_append split: option.splits)
  qed
next
  case (Some i)
  note i = find_idx_SomeD(1,2) [OF Some]
  show ?thesis
  proof (cases "same_rule_key x k")
    case True
    then have "(\<lambda>r. same_rule_key r k) = (\<lambda>r. same_rule_key r x)"
      by (auto simp: same_rule_key_def)
    with Some True show ?thesis
      using find_update_hit [OF Some, of x] by (simp add: merge_rule_def same_rule_key_def)
  next
    case False
    with i have "\<not> same_rule_key (rules ! i) k"
      by (auto simp: same_rule_key_def)
    with Some i False show ?thesis
      using find_update_miss [of i rules "\<lambda>r. same_rule_key r k" x] by (simp add: merge_rule_def)
  qed
qed


interpretation rule_cache: upsert
  "\<lambda>k rules. find (\<lambda>r. same_rule_key r k) rules" merge_rule same_rule_key
  by unfold_locales (rule find_merge_rule)

section \<open>Properties\<close>

text \<open>
  C25: The agent's local decision, in full, as the code takes it.  A presented credential is
  allowed exactly when the rule cache is within its offline limit (one that was never stamped, or
  without a limit, always is) and the first rule with that type and data (ignoring case and
  surrounding space) has not expired and names the lock; the user reported is that rule's.
  Section 5.2 of \<open>docs/credential-security-architecture.md\<close> describes another decision;
  \<open>later_rule_ignored\<close> and \<open>unstamped_cache_allows\<close> at the end show where they part.
\<close>

theorem VerifyCredential_exact:
  "VerifyCredential now ty data lk a =
     (if cacheExpired now a then (Deny, '''', '''')
      else case find (rule_matches ty data) (ag_accessRules a) of
        None \<Rightarrow> (Deny, '''', '''')
      | Some r \<Rightarrow> (if \<not> rule_expired now r \<and> lk \<in> set (ru_LockIDs r) then Allow else Deny,
                   ru_UserID r, ru_UserEmail r))"
  by (simp add: VerifyCredential_def verify_rules_eq)

text \<open>
  C26: The offline window.  Let the rules have been refreshed at some instant and let the
  cache limit be positive.  However many credentials are presented, BLE and NFC exchanges
  run, events queued and failed updates received, the relay is never driven later than that
  instant plus the limit.
\<close>

theorem offline_window:
  assumes "0 < ag_rulesCacheTTL a" and "ag_rulesCacheTTL a < 2 ^ 63 - 1"
    and "\<not> is_zero (ag_rulesUpdatedAt a)"
    and "\<And>t op. (t, op) \<in> set ops \<Longrightarrow> \<not> updates_rules op"
    and "t \<in> set (unlock_times cr ops (r, a))"
  shows "t \<le> ag_rulesUpdatedAt a + ag_rulesCacheTTL a"
  using unlock_times_window assms by blast

definition demo_agent :: agent where
  "demo_agent =
     \<lparr>ag_gatewayID = ''gw1'', ag_bootstrapToken = '''', ag_deviceToken = ''tok'',
      ag_accessRules =
        [\<lparr>ru_CredentialType = ''nfc'', ru_CredentialData = ''aa01'', ru_UserID = ''u1'',
          ru_UserEmail = ''u1@x'', ru_LockIDs = [''l1''], ru_ValidUntil = ''''\<rparr>,
         \<lparr>ru_CredentialType = ''ble_signature'', ru_CredentialData = ''key'', ru_UserID = ''u1'',
          ru_UserEmail = ''u1@x'', ru_LockIDs = [''l1''], ru_ValidUntil = ''''\<rparr>],
      ag_ruleVersion = ''v1'', ag_rulesUpdatedAt = 1000, ag_rulesCacheTTL = 500,
      ag_eventQueue = [], ag_nonceCache = Some (NewNonceCache 4 30), ag_gatewayIDUint32 = 7,
      ag_offlineSince = zero_time, ag_eventPushBackoff = 0, ag_eventQueueDropped = 0\<rparr>"

definition demo_reader :: nfcHCEReader where
  "demo_reader = \<lparr>nr_lockID = ''l1'', nr_lastGrantedUser = '''', nr_lastGrantedAt = zero_time,
                  nr_cooldown = 5\<rparr>"

theorem offline_window_witness: "1200 \<le> ag_rulesUpdatedAt demo_agent + ag_rulesCacheTTL demo_agent"
proof (rule offline_window)
  show "1200 \<in> set (unlock_times demo_crypto
      [(1200, Present '' NFC '' ''AA01'' ''l1''), (1501, Present ''nfc'' ''AA01'' ''l1'')]
      (demo_reader, demo_agent))"
    by code_simp
qed (auto simp: demo_agent_def is_zero_def zero_time_def)

text \<open>
  What opens a door over BLE or NFC.  A v2 response is granted exactly when the rules are
  within the offline limit, the nonce was not used, the challenge names this gateway and
  some unexpired key registered for the claimed user verifies the signature over nonce, user
  and transport.
\<close>

lemma v2_grant_exact:
  "br_Code (fst (VerifyAuthResponseV2 cr now resp ch tr a)) = BLEResultGranted \<longleftrightarrow>
     32 \<le> length ch \<and> \<not> cacheExpired now a \<and>
     (case ag_nonceCache a of None \<Rightarrow> True | Some c \<Rightarrow> \<not> fst (Contains now (take 32 ch) c)) \<and>
     (if 52 \<le> length ch then word_of_nat (get_be (take 4 (drop 48 ch))) = ag_gatewayIDUint32 a
      else True) \<and>
     (\<exists>r. r \<in> set (ag_accessRules a) \<and>
        ru_CredentialType r = ''ble_signature'' \<and> ru_UserID r = ar_UserID resp \<and>
        \<not> rule_expired now r \<and>
        VerifyBLESignatureV2 cr (ru_CredentialData r) (take 32 ch) (ar_UserID resp) tr
          (ar_Signature resp) = Inr ())"
  unfolding V2_granted_iff v2_authorised_def
  by (auto simp: ask_nonce_def ChallengeV2Size_def split: option.splits)

text \<open>
  C27: A granted response cannot be replayed.  After a grant, any response over the same nonce
  is refused during the cache's lifetime, for any user, signature, transport and
  challenge tail, even after other verifications, as long as these are fewer than the cache
  can hold.
\<close>

theorem v2_replay_denied:
  assumes cache: "ag_nonceCache a = Some c" "nc_inv c"
    and granted: "br_Code (fst (VerifyAuthResponseV2 cr t0 resp ch tr a)) = BLEResultGranted"
    and times: "\<And>t. t \<in> fst ` set reqs \<Longrightarrow> t \<le> t0 + nc_ttl c" "t \<le> t0 + nc_ttl c"
    and few: "int (length reqs) < nc_maxSize c"
    and same: "take 32 ch' = take 32 ch"
  shows "br_Code (fst (VerifyAuthResponseV2 cr t resp' ch' tr'
           (v2_run cr reqs (snd (VerifyAuthResponseV2 cr t0 resp ch tr a))))) \<noteq> BLEResultGranted"
proof -
  let ?n = "take 32 ch" and ?a1 = "snd (VerifyAuthResponseV2 cr t0 resp ch tr a)"
  let ?c1 = "snd (Contains t0 ?n c)"
  from granted have auth: "v2_authorised cr t0 resp ch tr a" by (simp add: V2_granted_iff)
  note g = V2_granted_cache [OF cache(1) auth]
  have fresh: "\<not> fst (Contains t0 ?n ?c1)" and inv: "nc_inv ?c1"
    using g(2) cache(2) by (simp_all add: Contains_twice nc_inv_Contains)
  have par: "nc_ttl ?c1 = nc_ttl c" "nc_maxSize ?c1 = nc_maxSize c"
    using cache(2) by (simp_all add: Contains_frame)
  obtain gops where r: "ag_nonceCache (v2_run cr reqs ?a1) =
      Some (guard_run Contains Add gops (Add t0 ?n ?c1))"
    "length (filter fst gops) \<le> length reqs" "\<And>b t m. (b, t, m) \<in> set gops \<Longrightarrow> t \<in> fst ` set reqs"
    using v2_run_cache [OF g(1), of cr reqs] by metis
  have "fst (Contains t ?n (guard_run Contains Add gops (Add t0 ?n ?c1)))"
    by (rule nonce_guard.replay_seen [OF inv fresh]) (use r times few par in force)+
  then show ?thesis
    using r(1) same by (simp add: V2_granted_iff v2_authorised_def ask_nonce_def)
qed

definition demo_response :: bleAuthResponse where
  "demo_response =
     \<lparr>ar_UserID = ''u1'', ar_Signature = rev (messageV2 (replicate 32 5) ''u1'' TransportTagBLE)\<rparr>"

theorem v2_replay_denied_witness:
  "br_Code (fst (VerifyAuthResponseV2 demo_crypto 1120 demo_response (replicate 32 5) TransportTagBLE
     (v2_run demo_crypto [(1110, demo_response, replicate 32 6, TransportTagBLE)]
       (snd (VerifyAuthResponseV2 demo_crypto 1100 demo_response (replicate 32 5) TransportTagBLE
         demo_agent))))) \<noteq> BLEResultGranted"
proof (rule v2_replay_denied)
  show "ag_nonceCache demo_agent = Some (NewNonceCache 4 30)" by (simp add: demo_agent_def)
  show "nc_inv (NewNonceCache 4 30)" by (rule nc_inv_new)
  show "br_Code (fst (VerifyAuthResponseV2 demo_crypto 1100 demo_response (replicate 32 5)
     TransportTagBLE demo_agent)) = BLEResultGranted"
    by code_simp
qed (simp_all add: NewNonceCache_def)

text \<open>
  C28: A BLE session opens the door only for a signature over its own challenge.  If
  \<open>handleSession\<close> drives the relay, a nonce was drawn for this session, the phone's reply
  parses as a response, and an unexpired key registered for the user it names verifies the
  signature over exactly that nonce, that user and the BLE tag; the grant is reported to the
  phone and recorded for the lock at the end of the event queue.
\<close>

theorem session_sound:
  assumes "handleSession cr t0 t1 (Some nonce) phone lk a = (True, out, a')" and "length nonce = 32"
  shows "\<exists>bytes reply resp rule.
      out = [bytes, Encode_result (auth_result BLEResultGranted ''access_granted'')] \<and>
      phone bytes = Some reply \<and> DecodeBLEAuthResponse (take 384 reply) = Inr resp \<and>
      rule \<in> set (ag_accessRules a) \<and> ru_CredentialType rule = ''ble_signature'' \<and>
      ru_UserID rule = ar_UserID resp \<and> \<not> rule_expired t1 rule \<and>
      VerifyBLESignatureV2 cr (ru_CredentialData rule) nonce (ar_UserID resp) TransportTagBLE
        (ar_Signature resp) = Inr () \<and>
      last (ag_eventQueue a') =
        access_event a t1 ''access_granted'' lk (ar_UserID resp) ''allow''"
proof -
  let ?ch = "\<lparr>ch_Nonce = nonce, ch_IssuedAt = t0, ch_ExpiresAt = t0 + challengeValidDuration,
              ch_GatewayID = ag_gatewayIDUint32 a\<rparr>"
  let ?b = "Encode_challengeV2 ?ch"
  have n: "take 32 ?b = nonce"
    using challenge_fields(2) [of ?ch] assms(2) by simp
  obtain reply where reply: "phone ?b = Some reply"
    using assms(1) by (auto simp: handleSession_def NewBLEChallengeV2_def Let_def split: option.splits)
  then obtain resp where resp: "DecodeBLEAuthResponse (take 384 reply) = Inr resp"
    using assms(1)
    by (auto simp: handleSession_def NewBLEChallengeV2_def Let_def split: sum.splits)
  let ?v = "VerifyAuthResponseV2 cr t1 resp ?b TransportTagBLE a"
  have g: "br_Code (fst ?v) = BLEResultGranted"
    and o: "out = [?b, Encode_result (fst ?v)]"
    and a': "a' = record_v2 t1 lk (ar_UserID resp) (fst ?v) (snd ?v)"
    using assms(1) reply resp
    by (auto simp: handleSession_def NewBLEChallengeV2_def Let_def case_prod_unfold)
  have "fst ?v = auth_result BLEResultGranted ''access_granted''"
    and gw: "ag_gatewayID (snd ?v) = ag_gatewayID a"
    using g by (auto simp: VerifyAuthResponseV2_def ask_nonce_def add_nonce_def Let_def
        case_prod_unfold auth_result_def result_code_defs
        split: list.splits option.splits if_splits)
  moreover have "last (ag_eventQueue a') =
      access_event a t1 ''access_granted'' lk (ar_UserID resp) ''allow''"
    using g gw by (simp add: a' record_v2_def queue_of_queueEvent access_event_def)
  moreover from g have "v2_authorised cr t1 resp ?b TransportTagBLE a"
    by (simp add: V2_granted_iff)
  then obtain rule where "rule \<in> set (ag_accessRules a)" "ru_CredentialType rule = ''ble_signature''"
    "ru_UserID rule = ar_UserID resp" "\<not> rule_expired t1 rule"
    "VerifyBLESignatureV2 cr (ru_CredentialData rule) nonce (ar_UserID resp) TransportTagBLE
        (ar_Signature resp) = Inr ()"
    unfolding v2_authorised_def n by blast
  ultimately show ?thesis
    using reply resp o by metis
qed

lemma open_triple:
  assumes "fst x"
  obtains out a where "x = (True, out, a)"
  using assms by (cases x) auto

lemma handleSession_grants:
  assumes "length nonce = 32" and "ble_sendable resp"
    and "length (ar_UserID resp) + length (ar_Signature resp) < 384"
    and "\<not> cacheExpired t1 a" and "\<not> fst (ask_nonce t1 nonce a)"
    and "rule \<in> set (ag_accessRules a)" "ru_CredentialType rule = ''ble_signature''"
      "ru_UserID rule = ar_UserID resp" "\<not> rule_expired t1 rule"
    and "VerifyBLESignatureV2 cr (ru_CredentialData rule) nonce (ar_UserID resp) TransportTagBLE
        (ar_Signature resp) = Inr ()"
  shows "fst (handleSession cr t0 t1 (Some nonce)
     (\<lambda>_. Some (EncodeBLEAuthResponse (ar_UserID resp) (ar_Signature resp))) lk a)"
proof -
  let ?ch = "\<lparr>ch_Nonce = nonce, ch_IssuedAt = t0, ch_ExpiresAt = t0 + challengeValidDuration,
              ch_GatewayID = ag_gatewayIDUint32 a\<rparr>"
  let ?e = "EncodeBLEAuthResponse (ar_UserID resp) (ar_Signature resp)"
  have "length (ar_UserID resp) \<le> 255" using assms(2) by (simp add: ble_sendable_def)
  from encoded_fields(4) [OF this] have "take 384 ?e = ?e"
    using assms(3) by simp
  then have d: "DecodeBLEAuthResponse (take 384 ?e) = Inr resp"
    using ble_response.decode_encode [OF assms(2)] by simp
  have "length (ch_Nonce ?ch) = 32" using assms(1) by simp
  note f = challenge_fields [OF this]
  have "v2_authorised cr t1 resp (Encode_challengeV2 ?ch) TransportTagBLE a"
    using assms f word32_be [of "ag_gatewayIDUint32 a"] by (auto simp: v2_authorised_def)
  then show ?thesis
    using d by (simp add: handleSession_def NewBLEChallengeV2_def Let_def case_prod_unfold V2_granted_iff)
qed

theorem session_sound_witness:
  "\<exists>out a'. handleSession demo_crypto 1000 1100 (Some (replicate 32 5))
       (\<lambda>_. Some (EncodeBLEAuthResponse ''u1'' (ar_Signature demo_response))) ''l1'' demo_agent =
       (True, out, a') \<and>
     (\<exists>resp :: bleAuthResponse. last (ag_eventQueue a') =
        access_event demo_agent 1100 ''access_granted'' ''l1'' (ar_UserID resp) ''allow'')"
proof -
  let ?s = "handleSession demo_crypto 1000 1100 (Some (replicate 32 5))
       (\<lambda>_. Some (EncodeBLEAuthResponse ''u1'' (ar_Signature demo_response))) ''l1'' demo_agent"
  have "ar_UserID demo_response = ''u1''" by (simp add: demo_response_def)
  moreover have "fst (handleSession demo_crypto 1000 1100 (Some (replicate 32 5))
       (\<lambda>_. Some (EncodeBLEAuthResponse (ar_UserID demo_response) (ar_Signature demo_response)))
       ''l1'' demo_agent)"
    by (rule handleSession_grants [where rule = "ag_accessRules demo_agent ! 1"]) code_simp+
  ultimately have "fst ?s" by simp
  then obtain out a' where s: "?s = (True, out, a')" by (rule open_triple)
  have "length (replicate 32 (5 :: byte)) = 32" by simp
  from session_sound [OF s this] s show ?thesis by blast
qed

lemma push_take_single:
  "ag_eventQueue a = [e] \<Longrightarrow> ag_eventPushBackoff a = 0 \<Longrightarrow>
   push_take a = (Some [e], a\<lparr>ag_eventQueue := []\<rparr>)"
  by (simp add: push_take_def eventBatchMaxSize_def)

text \<open>
  C29: No event is lost uncounted, duplicated or reordered on the edge.  However queueing and
  the two critical sections of the pusher interleave, the events handed over, in flight and
  queued form, in this order, a subsequence of the events queued, and every missing one is in
  the agent's own counter \<open>eventQueueDropped\<close>: in its present value, or in a value that a
  hand-over read before it set the counter back.  The batch in flight has at most 200 events
  and the queue at most 10\,200.
\<close>

theorem queue_conservation:
  assumes "queue_reach a infl al sent cleared"
  shows "subseq (sent @ in_flight infl @ ag_eventQueue a) al \<and>
    int (length al) = int (length sent + length (in_flight infl) + length (ag_eventQueue a)) +
      cleared + ag_eventQueueDropped a \<and>
    length (in_flight infl) \<le> 200 \<and> length (ag_eventQueue a) \<le> 10200"
  using queue_reach_inv [OF assms]
  by (auto simp: queue_inv_def eventQueueMaxSize_def eventBatchMaxSize_def split: if_splits)

definition demo_event :: accessEvent where
  "demo_event = access_event demo_agent 0 ''access_denied'' ''l1'' ''u1@x'' ''deny''"

theorem queue_conservation_witness:
  "\<exists>a'. push_take (queueEvent demo_event demo_agent) = (Some [demo_event], a') \<and>
     subseq ([] @ in_flight (Some [demo_event]) @ ag_eventQueue a') ([] @ [demo_event]) \<and>
     ag_eventQueue a' = []"
proof -
  let ?q = "queueEvent demo_event demo_agent"
  have q: "queue_reach ?q None ([] @ [demo_event]) [] 0"
    by (intro queue_reach.queued queue_reach.start) (simp_all add: demo_agent_def)
  have t: "push_take ?q = (Some [demo_event], ?q\<lparr>ag_eventQueue := []\<rparr>)"
    by (rule push_take_single) (simp_all add: queue_of_queueEvent demo_agent_def)
  from queue_conservation [OF queue_reach.takes [OF q t]] t show ?thesis by force
qed

text \<open>
  Retrying backs off by a constant ten seconds.  In every reachable state of the queue
  the pending back-off is 0, 5 or 10 seconds, and after each failed push it is 10 seconds:
  the doubling branch of the code is never taken, because the back-off has always run down
  to zero before the next attempt.
\<close>

lemma backoff_constant:
  assumes "queue_reach a (Some batch) al sent lost"
  shows "ag_eventPushBackoff a = 0 \<and>
    (\<not> push_handed_over reply \<longrightarrow>
       ag_eventPushBackoff (push_finish now reply batch a) = 10 * ns_second)"
  using queue_reach_inv [OF assms] by (simp add: queue_inv_def push_finish_def)

lemma backoff_constant_instance:
  "\<exists>a'. push_take (queueEvent demo_event demo_agent) = (Some [demo_event], a') \<and>
     ag_eventPushBackoff (push_finish 0 \<lparr>pr_ws = None, pr_http = None\<rparr> [demo_event] a') =
       10 * ns_second"
proof -
  let ?q = "queueEvent demo_event demo_agent"
  have q: "queue_reach ?q None ([] @ [demo_event]) [] 0"
    by (intro queue_reach.queued queue_reach.start) (simp_all add: demo_agent_def)
  have t: "push_take ?q = (Some [demo_event], ?q\<lparr>ag_eventQueue := []\<rparr>)"
    by (rule push_take_single) (simp_all add: queue_of_queueEvent demo_agent_def)
  from backoff_constant [OF queue_reach.takes [OF q t], of "\<lparr>pr_ws = None, pr_http = None\<rparr>" 0] t
  show ?thesis by (auto simp: push_handed_over_def)
qed

text \<open>
  An incremental credential push behaves like a map update.  Afterwards the rule found
  under a key (type, data, user) is the last pushed rule with that key, or, when none was
  pushed, the rule cached before; a full push leaves exactly the pushed rules.
\<close>

lemma credential_push_merge:
  "find (\<lambda>r. same_rule_key r k)
     (ag_accessRules (handleCredentialPush now (Some (incremental, version, rules)) a)) =
   (if incremental then
      (case find (\<lambda>r. same_rule_key r k) (rev rules) of
         Some r \<Rightarrow> Some r
       | None \<Rightarrow> find (\<lambda>r. same_rule_key r k) (ag_accessRules a))
    else find (\<lambda>r. same_rule_key r k) rules)"
  by (simp add: handleCredentialPush_def set_rules_def rule_cache.lookup_fold_put)

section \<open>What the code leaves open\<close>

text \<open>The decision of section 5.2 of \<open>docs/credential-security-architecture.md\<close>: every matching rule is tried,
  no rule expires, and the limit of the cache knows no exception.\<close>

definition documented_decision :: "time \<Rightarrow> string \<Rightarrow> string \<Rightarrow> string \<Rightarrow> agent \<Rightarrow> decision" where
  "documented_decision now ty data lk a =
     (if 0 < ag_rulesCacheTTL a \<and> ag_rulesCacheTTL a < time_sub now (ag_rulesUpdatedAt a) then Deny
      else if list_ex (\<lambda>r. ru_CredentialType r = ty \<and> equal_fold (ru_CredentialData r) data \<and> lk \<in> set (ru_LockIDs r)) (ag_accessRules a)
      then Allow else Deny)"

definition card_rule :: "string list \<Rightarrow> accessRule" where
  "card_rule locks = (hd (ag_accessRules demo_agent))\<lparr>ru_CredentialType := ''nfc'', ru_CredentialData := ''AA'', ru_LockIDs := locks,
     ru_ValidUntil := ''''\<rparr>"

text \<open>Of two rules for one card, the code looks at the first only.\<close>

lemma later_rule_ignored:
  "fst (VerifyCredential 0 ''nfc'' ''AA'' ''l2'' (demo_agent\<lparr>ag_accessRules := [card_rule [''l1''], card_rule [''l2'']]\<rparr>)) = Deny"
  "documented_decision 0 ''nfc'' ''AA'' ''l2'' (demo_agent\<lparr>ag_accessRules := [card_rule [''l1''], card_rule [''l2'']]\<rparr>) = Allow"
  by code_simp+

text \<open>Rules that were never stamped are never too old for the code.\<close>

lemma unstamped_cache_allows:
  defines "a \<equiv> demo_agent\<lparr>ag_accessRules := [card_rule [''l1'']], ag_rulesCacheTTL := 1, ag_rulesUpdatedAt := zero_time\<rparr>"
  shows "fst (VerifyCredential 0 ''nfc'' ''AA'' ''l1'' a) = Allow" "documented_decision 0 ''nfc'' ''AA'' ''l1'' a = Deny"
  unfolding a_def by code_simp+


text \<open>The v2 verifier never reads \<open>LockIDs\<close>: a user with a key for one door of the
  gateway is granted at every door of it.\<close>

lemma v2_ignores_lock_ids:
  "fst (VerifyAuthResponseV2 cr now resp ch tr
          (a\<lparr>ag_accessRules := map (\<lambda>r. r\<lparr>ru_LockIDs := locks r\<rparr>) (ag_accessRules a)\<rparr>)) =
   fst (VerifyAuthResponseV2 cr now resp ch tr a)"
proof -
  have "candidates now u (map (\<lambda>r. r\<lparr>ru_LockIDs := locks r\<rparr>) rules) = candidates now u rules"
    for u rules
    by (induction rules) (auto simp: candidates_def rule_expired_def)
  then show ?thesis
    by (auto simp: VerifyAuthResponseV2_def ask_nonce_def cacheExpired_def Let_def
        split: list.splits option.splits)
qed

text \<open>Any HTTP status counts as delivery: after a 500 the batch is gone.\<close>

lemma push_500_discards:
  "push_take a = (Some batch, a1) \<Longrightarrow>
   ag_eventQueue (pushEvents now \<lparr>pr_ws = None, pr_http = Some 500\<rparr> a) = ag_eventQueue a1"
  by (simp add: pushEvents_def push_finish_def push_handed_over_def)

end
