(* ===== verification/Alarm_Service.thy ===== *)
theory Alarm_Service
  imports MP_Prelude Go_Time Go_Bytes
begin

text \<open>
  \<open>internal/modules/alarm/service.go\<close>: alarms and alarm schedules of all tenants, their
  change subscribers, and the weekly calendar.  A subscriber's channel holds at most one
  pending signal, so it is a flag.  An operation that changes a record in place and then
  fails keeps the change, as the code does.
\<close>

section \<open>State\<close>

record alarm =
  al_ID :: string
  al_TenantID :: string
  al_BuildingID :: string
  al_AreaID :: string
  al_DoorID :: string
  al_Type :: string
  al_Severity :: string
  al_Location :: string
  al_Status :: string
  al_CreatedAt :: time

record alarmSchedule =
  as_ID :: string
  as_TenantID :: string
  as_Name :: string
  as_Description :: string
  as_DaysOfWeek :: "int list"
  as_StartTime :: string
  as_EndTime :: string
  as_Timezone :: string
  as_AlarmTypes :: "string list"
  as_Enabled :: bool
  as_CreatedAt :: time
  as_UpdatedAt :: time

record alarmScheduleCalendarEntry =
  ce_ScheduleID :: string
  ce_Name :: string
  ce_DayOfWeek :: int
  ce_StartTime :: string
  ce_EndTime :: string
  ce_AlarmTypes :: "string list"

datatype alarm_error =
    AlarmNotFound | InvalidAlarmStatus | AlarmScheduleNotFound | ScheduleNameRequired
  | ScheduleInvalidDayOfWeek | ScheduleInvalidTime | ScheduleTimezoneRequired
  | AlarmTenantRequired | AlarmRandFailed | AlarmStoreFailed

record alarmService =
  am_alarms :: "alarm list"
  am_schedules :: "alarmSchedule list"
  am_store :: "(alarm list \<times> alarmSchedule list) store"
  am_subscribers :: "(64 word \<times> bool) list"
  am_nextSubID :: "64 word"

definition alarm_snapshot :: "alarmService \<Rightarrow> alarm list \<times> alarmSchedule list" where
  "alarm_snapshot s = (am_alarms s, am_schedules s)"

definition persistLocked_alarm :: "env \<Rightarrow> alarmService \<Rightarrow> bool \<times> alarmService" where
  "persistLocked_alarm e s =
     (case store_save e (alarm_snapshot s) (am_store s) of (ok, st) \<Rightarrow> (ok, s\<lparr>am_store := st\<rparr>))"

definition restoreFromStateStore_alarm :: "env \<Rightarrow> alarmService \<Rightarrow> bool \<times> alarmService" where
  "restoreFromStateStore_alarm e s =
     (case am_store s of
        NoStore \<Rightarrow> (True, s)
      | Store None \<Rightarrow> persistLocked_alarm e s
      | Store (Some (as, ss)) \<Rightarrow> (True, s\<lparr>am_alarms := as, am_schedules := ss\<rparr>))"

section \<open>Subscribers\<close>

definition SubscribeChanges_alarm :: "alarmService \<Rightarrow> 64 word \<times> alarmService" where
  "SubscribeChanges_alarm s =
     (am_nextSubID s,
      s\<lparr>am_subscribers := filter (\<lambda>p. fst p \<noteq> am_nextSubID s) (am_subscribers s) @ [(am_nextSubID s, False)],
        am_nextSubID := am_nextSubID s + 1\<rparr>)"

definition unsubscribe_alarm :: "64 word \<Rightarrow> alarmService \<Rightarrow> alarmService" where
  "unsubscribe_alarm i s = s\<lparr>am_subscribers := filter (\<lambda>p. fst p \<noteq> i) (am_subscribers s)\<rparr>"

definition notifySubscribersLocked_alarm :: "alarmService \<Rightarrow> alarmService" where
  "notifySubscribersLocked_alarm s =
     s\<lparr>am_subscribers := map (\<lambda>(i, pending). (i, True)) (am_subscribers s)\<rparr>"

section \<open>Alarms\<close>

definition List_alarm :: "string \<Rightarrow> alarmService \<Rightarrow> alarm list" where
  "List_alarm tenantID s = list_scoped al_TenantID (trim_space tenantID) (am_alarms s)"

definition alarm_statuses :: "string list" where
  "alarm_statuses = [''open'', ''acknowledged'', ''investigating'', ''mitigated'', ''escalated'',
                     ''resolved'', ''false_positive'']"

definition normalizeStatus_alarm :: "string \<Rightarrow> (alarm_error, string) result" where
  "normalizeStatus_alarm status =
     (let st = to_lower (trim_space status) in
      if st \<in> set alarm_statuses then Inr st else Inl InvalidAlarmStatus)"

definition UpdateStatus ::
  "env \<Rightarrow> string \<Rightarrow> string \<Rightarrow> string \<Rightarrow> alarmService \<Rightarrow> (alarm_error, alarm) result \<times> alarmService" where
  "UpdateStatus e tenantID alarmID status s =
     (case normalizeStatus_alarm status of
        Inl err \<Rightarrow> (Inl err, s)
      | Inr nextStatus \<Rightarrow>
          if trim_space alarmID = '''' then (Inl AlarmNotFound, s)
          else
            (case lookup_strict al_ID al_TenantID (trim_space tenantID) (trim_space alarmID) (am_alarms s) of
               None \<Rightarrow> (Inl AlarmNotFound, s)
             | Some i \<Rightarrow>
                 let a = (am_alarms s ! i)\<lparr>al_Status := nextStatus\<rparr>;
                     s1 = s\<lparr>am_alarms := (am_alarms s)[i := a]\<rparr> in
                 (case persistLocked_alarm e s1 of
                    (False, s2) \<Rightarrow> (Inl AlarmStoreFailed, s2)
                  | (True, s2) \<Rightarrow> (Inr a, notifySubscribersLocked_alarm s2))))"

section \<open>Schedules\<close>

text \<open>The digits are bytes: \<open>(t[0]-'0')*10 + (t[1]-'0')\<close> wraps at 256.\<close>

definition byte_at :: "string \<Rightarrow> nat \<Rightarrow> 8 word" where
  "byte_at t i = word_of_nat (of_char (t ! i))"

definition isValidTimeHHMM :: "string \<Rightarrow> bool" where
  "isValidTimeHHMM t \<longleftrightarrow>
     length t = 5 \<and> t ! 2 = CHR '':'' \<and>
     (byte_at t 0 - 48) * 10 + (byte_at t 1 - 48) \<le> 23 \<and>
     (byte_at t 3 - 48) * 10 + (byte_at t 4 - 48) \<le> 59"

definition days_ok :: "int list \<Rightarrow> bool" where
  "days_ok ds \<longleftrightarrow> (\<forall>d\<in>set ds. 0 \<le> d \<and> d \<le> 6)"

definition validateSchedule :: "alarmSchedule \<Rightarrow> alarm_error option" where
  "validateSchedule sc =
     (if trim_space (as_Name sc) = '''' then Some ScheduleNameRequired
      else if \<not> days_ok (as_DaysOfWeek sc) then Some ScheduleInvalidDayOfWeek
      else if \<not> isValidTimeHHMM (as_StartTime sc) \<or> \<not> isValidTimeHHMM (as_EndTime sc)
        then Some ScheduleInvalidTime
      else if trim_space (as_Timezone sc) = '''' then Some ScheduleTimezoneRequired
      else None)"

definition new_schedule :: "env \<Rightarrow> string \<Rightarrow> string \<Rightarrow> alarmSchedule \<Rightarrow> alarmSchedule" where
  "new_schedule e hex tenantID sc =
     \<lparr>as_ID = ''alarm_schedule_'' @ hex, as_TenantID = trim_space tenantID,
      as_Name = trim_space (as_Name sc), as_Description = trim_space (as_Description sc),
      as_DaysOfWeek = as_DaysOfWeek sc, as_StartTime = as_StartTime sc,
      as_EndTime = as_EndTime sc, as_Timezone = trim_space (as_Timezone sc),
      as_AlarmTypes = as_AlarmTypes sc, as_Enabled = as_Enabled sc,
      as_CreatedAt = env_now e, as_UpdatedAt = env_now e\<rparr>"

definition CreateSchedule_alarm ::
  "env \<Rightarrow> string \<Rightarrow> alarmSchedule \<Rightarrow> alarmService \<Rightarrow> (alarm_error, alarmSchedule) result \<times> alarmService" where
  "CreateSchedule_alarm e tenantID sc s =
     (if trim_space tenantID = '''' then (Inl AlarmTenantRequired, s)
      else
        (case validateSchedule sc of
           Some err \<Rightarrow> (Inl err, s)
         | None \<Rightarrow>
             (case env_rand e of
                None \<Rightarrow> (Inl AlarmRandFailed, s)
              | Some hex \<Rightarrow>
                  let r = new_schedule e hex tenantID sc in
                  (case persistLocked_alarm e (s\<lparr>am_schedules := r # am_schedules s\<rparr>) of
                     (False, s2) \<Rightarrow> (Inl AlarmStoreFailed, s2)
                   | (True, s2) \<Rightarrow> (Inr r, s2)))))"

definition ListSchedules_alarm :: "string \<Rightarrow> alarmService \<Rightarrow> alarmSchedule list" where
  "ListSchedules_alarm tenantID s = list_scoped as_TenantID (trim_space tenantID) (am_schedules s)"

definition GetSchedule_alarm :: "string \<Rightarrow> string \<Rightarrow> alarmService \<Rightarrow> alarmSchedule option" where
  "GetSchedule_alarm tenantID scheduleID s =
     map_option ((!) (am_schedules s))
       (lookup_scan as_ID as_TenantID (trim_space tenantID) (trim_space scheduleID) (am_schedules s))"

text \<open>The field updates of \<open>UpdateSchedule\<close>, in order: the record as far as it got, and
  the error that stopped it.\<close>

definition apply_update ::
  "time \<Rightarrow> alarmSchedule \<Rightarrow> alarmSchedule \<Rightarrow> alarm_error option \<times> alarmSchedule" where
  "apply_update now sc r =
     (let r1 = (if trim_space (as_Name sc) \<noteq> '''' then r\<lparr>as_Name := trim_space (as_Name sc)\<rparr> else r);
          r2 = (if trim_space (as_Description sc) \<noteq> ''''
                then r1\<lparr>as_Description := trim_space (as_Description sc)\<rparr> else r1) in
      if as_DaysOfWeek sc \<noteq> [] \<and> \<not> days_ok (as_DaysOfWeek sc) then (Some ScheduleInvalidDayOfWeek, r2)
      else
        let r3 = (if as_DaysOfWeek sc \<noteq> [] then r2\<lparr>as_DaysOfWeek := as_DaysOfWeek sc\<rparr> else r2) in
        if as_StartTime sc \<noteq> '''' \<and> \<not> isValidTimeHHMM (as_StartTime sc) then (Some ScheduleInvalidTime, r3)
        else
          let r4 = (if as_StartTime sc \<noteq> '''' then r3\<lparr>as_StartTime := as_StartTime sc\<rparr> else r3) in
          if as_EndTime sc \<noteq> '''' \<and> \<not> isValidTimeHHMM (as_EndTime sc) then (Some ScheduleInvalidTime, r4)
          else
            let r5 = (if as_EndTime sc \<noteq> '''' then r4\<lparr>as_EndTime := as_EndTime sc\<rparr> else r4);
                r6 = (if trim_space (as_Timezone sc) \<noteq> ''''
                      then r5\<lparr>as_Timezone := trim_space (as_Timezone sc)\<rparr> else r5);
                r7 = (if as_AlarmTypes sc \<noteq> [] then r6\<lparr>as_AlarmTypes := as_AlarmTypes sc\<rparr> else r6) in
            (None, r7\<lparr>as_Enabled := as_Enabled sc, as_UpdatedAt := now\<rparr>))"

definition UpdateSchedule_alarm ::
  "env \<Rightarrow> string \<Rightarrow> string \<Rightarrow> alarmSchedule \<Rightarrow> alarmService \<Rightarrow>
   (alarm_error, alarmSchedule) result \<times> alarmService" where
  "UpdateSchedule_alarm e tenantID scheduleID sc s =
     (if trim_space scheduleID = '''' then (Inl AlarmScheduleNotFound, s)
      else
        (case lookup_strict as_ID as_TenantID (trim_space tenantID) (trim_space scheduleID) (am_schedules s) of
           None \<Rightarrow> (Inl AlarmScheduleNotFound, s)
         | Some i \<Rightarrow>
             (case apply_update (env_now e) sc (am_schedules s ! i) of
                (err, r) \<Rightarrow>
                  let s1 = s\<lparr>am_schedules := (am_schedules s)[i := r]\<rparr> in
                  (case err of
                     Some er \<Rightarrow> (Inl er, s1)
                   | None \<Rightarrow>
                       (case persistLocked_alarm e s1 of
                          (False, s2) \<Rightarrow> (Inl AlarmStoreFailed, s2)
                        | (True, s2) \<Rightarrow> (Inr r, s2))))))"

definition DeleteSchedule_alarm ::
  "env \<Rightarrow> string \<Rightarrow> string \<Rightarrow> alarmService \<Rightarrow> (alarm_error, unit) result \<times> alarmService" where
  "DeleteSchedule_alarm e tenantID scheduleID s =
     (if trim_space scheduleID = '''' then (Inl AlarmScheduleNotFound, s)
      else
        (case lookup_strict as_ID as_TenantID (trim_space tenantID) (trim_space scheduleID) (am_schedules s) of
           None \<Rightarrow> (Inl AlarmScheduleNotFound, s)
         | Some i \<Rightarrow>
             (case persistLocked_alarm e (s\<lparr>am_schedules := remove_at i (am_schedules s)\<rparr>) of
                (ok, s2) \<Rightarrow> (if ok then Inr () else Inl AlarmStoreFailed, s2))))"

definition calendar_of :: "alarmSchedule \<Rightarrow> alarmScheduleCalendarEntry list" where
  "calendar_of sc =
     map (\<lambda>day. \<lparr>ce_ScheduleID = as_ID sc, ce_Name = as_Name sc, ce_DayOfWeek = day,
                 ce_StartTime = as_StartTime sc, ce_EndTime = as_EndTime sc,
                 ce_AlarmTypes = as_AlarmTypes sc\<rparr>) (as_DaysOfWeek sc)"

definition GetWeeklyCalendar :: "string \<Rightarrow> alarmService \<Rightarrow> alarmScheduleCalendarEntry list" where
  "GetWeeklyCalendar tenantID s =
     concat (map calendar_of
       (filter (\<lambda>sc. in_scope (trim_space tenantID) (as_TenantID sc) \<and> as_Enabled sc) (am_schedules s)))"

section \<open>The service as a state machine\<close>

datatype alarm_op =
    AlarmSetStatus string string string
  | AlarmCreate string alarmSchedule
  | AlarmUpdate string string alarmSchedule
  | AlarmDelete string string
  | AlarmSubscribe
  | AlarmUnsubscribe "64 word"

fun alarm_step :: "env \<Rightarrow> alarm_op \<Rightarrow> alarmService \<Rightarrow> alarmService" where
  "alarm_step e (AlarmSetStatus t i st) s = snd (UpdateStatus e t i st s)"
| "alarm_step e (AlarmCreate t sc) s = snd (CreateSchedule_alarm e t sc s)"
| "alarm_step e (AlarmUpdate t i sc) s = snd (UpdateSchedule_alarm e t i sc s)"
| "alarm_step e (AlarmDelete t i) s = snd (DeleteSchedule_alarm e t i s)"
| "alarm_step e AlarmSubscribe s = snd (SubscribeChanges_alarm s)"
| "alarm_step e (AlarmUnsubscribe i) s = unsubscribe_alarm i s"

fun alarm_scope :: "alarm_op \<Rightarrow> string" where
  "alarm_scope (AlarmSetStatus t _ _) = trim_space t"
| "alarm_scope (AlarmCreate t _) = trim_space t"
| "alarm_scope (AlarmUpdate t _ _) = trim_space t"
| "alarm_scope (AlarmDelete t _) = trim_space t"
| "alarm_scope _ = ''''"

section \<open>Invariant\<close>

definition schedule_ok :: "alarmSchedule \<Rightarrow> bool" where
  "schedule_ok sc \<longleftrightarrow> validateSchedule sc = None \<and> as_TenantID sc \<noteq> ''''"

definition alarm_inv :: "alarmService \<Rightarrow> bool" where
  "alarm_inv s \<longleftrightarrow>
     (\<forall>a\<in>set (am_alarms s). al_Status a \<in> set alarm_statuses) \<and>
     (\<forall>sc\<in>set (am_schedules s). schedule_ok sc)"

lemma persist_alarm_frame [simp]:
  "am_alarms (snd (persistLocked_alarm e s)) = am_alarms s"
  "am_schedules (snd (persistLocked_alarm e s)) = am_schedules s"
  "am_subscribers (snd (persistLocked_alarm e s)) = am_subscribers s"
  by (simp_all add: persistLocked_alarm_def case_prod_unfold)

lemma notify_alarm_frame [simp]:
  "am_alarms (notifySubscribersLocked_alarm s) = am_alarms s"
  "am_schedules (notifySubscribersLocked_alarm s) = am_schedules s"
  by (simp_all add: notifySubscribersLocked_alarm_def)

lemma schedule_ok_iff:
  "schedule_ok sc \<longleftrightarrow>
     trim_space (as_Name sc) \<noteq> '''' \<and> days_ok (as_DaysOfWeek sc) \<and>
     isValidTimeHHMM (as_StartTime sc) \<and> isValidTimeHHMM (as_EndTime sc) \<and>
     trim_space (as_Timezone sc) \<noteq> '''' \<and> as_TenantID sc \<noteq> ''''"
  by (auto simp: schedule_ok_def validateSchedule_def)

lemma new_schedule_tenant: "as_TenantID (new_schedule e hex t sc) = trim_space t"
  by (simp add: new_schedule_def)

lemma new_schedule_ok:
  "validateSchedule sc = None \<Longrightarrow> trim_space t \<noteq> '''' \<Longrightarrow> schedule_ok (new_schedule e hex t sc)"
  by (auto simp: schedule_ok_iff new_schedule_def validateSchedule_def trim_space_idem
      split: if_splits)

lemma apply_update_ok:
  "schedule_ok r \<Longrightarrow> schedule_ok (snd (apply_update now sc r))"
  by (simp add: apply_update_def schedule_ok_iff Let_def trim_space_idem)

lemma apply_update_tenant: "as_TenantID (snd (apply_update now sc r)) = as_TenantID r"
  by (simp add: apply_update_def Let_def)

lemma apply_update_id: "as_ID (snd (apply_update now sc r)) = as_ID r"
  by (simp add: apply_update_def Let_def)

lemma UpdateStatus_alarms:
  "am_schedules (snd (UpdateStatus e t i st s)) = am_schedules s \<and>
   (am_alarms (snd (UpdateStatus e t i st s)) = am_alarms s \<or>
    (\<exists>k st'. lookup_strict al_ID al_TenantID (trim_space t) (trim_space i) (am_alarms s) = Some k \<and>
       st' \<in> set alarm_statuses \<and>
       am_alarms (snd (UpdateStatus e t i st s)) = (am_alarms s)[k := (am_alarms s ! k)\<lparr>al_Status := st'\<rparr>]))"
  by (auto simp: UpdateStatus_def normalizeStatus_alarm_def Let_def case_prod_unfold
      split: option.splits sum.splits bool.splits if_splits)

lemma schedules_of_step:
  obtains (same) "am_schedules (alarm_step e op s) = am_schedules s"
  | (created) r t where "alarm_scope op = t" "t \<noteq> ''''" "as_TenantID r = t" "schedule_ok r"
      "am_schedules (alarm_step e op s) = r # am_schedules s"
  | (updated) i sc k where "lookup_strict as_ID as_TenantID (alarm_scope op) i (am_schedules s) = Some k"
      "am_schedules (alarm_step e op s) =
         (am_schedules s)[k := snd (apply_update (env_now e) sc (am_schedules s ! k))]"
  | (deleted) i k where "lookup_strict as_ID as_TenantID (alarm_scope op) i (am_schedules s) = Some k"
      "am_schedules (alarm_step e op s) = remove_at k (am_schedules s)"
proof (cases op)
  case (AlarmSetStatus t i st)
  then show ?thesis using UpdateStatus_alarms [of e t i st s] same by simp
next
  case (AlarmCreate t sc)
  show ?thesis
  proof (cases "am_schedules (alarm_step e op s) = am_schedules s")
    case True
    then show ?thesis by (rule same)
  next
    case False
    then obtain hex where "validateSchedule sc = None" "trim_space t \<noteq> ''''"
      "am_schedules (alarm_step e op s) = new_schedule e hex t sc # am_schedules s"
      using AlarmCreate
      by (auto simp: CreateSchedule_alarm_def Let_def case_prod_unfold
          split: option.splits bool.splits if_splits)
    then show ?thesis
      using created [of "trim_space t" "new_schedule e hex t sc"] AlarmCreate
      by (simp add: new_schedule_tenant new_schedule_ok)
  qed
next
  case (AlarmUpdate t i sc)
  show ?thesis
  proof (cases "am_schedules (alarm_step e op s) = am_schedules s")
    case True
    then show ?thesis by (rule same)
  next
    case False
    then show ?thesis
      using AlarmUpdate updated [of "trim_space i" _ sc]
      by (auto simp: UpdateSchedule_alarm_def Let_def case_prod_unfold
          split: option.splits bool.splits if_splits)
  qed
next
  case (AlarmDelete t i)
  show ?thesis
  proof (cases "am_schedules (alarm_step e op s) = am_schedules s")
    case True
    then show ?thesis by (rule same)
  next
    case False
    then show ?thesis
      using AlarmDelete deleted [of "trim_space i"]
      by (auto simp: DeleteSchedule_alarm_def Let_def case_prod_unfold
          split: option.splits bool.splits if_splits)
  qed
next
  case AlarmSubscribe
  then show ?thesis using same by (simp add: SubscribeChanges_alarm_def)
next
  case (AlarmUnsubscribe i)
  then show ?thesis using same by (simp add: unsubscribe_alarm_def)
qed

lemma alarms_of_step:
  obtains (same) "am_alarms (alarm_step e op s) = am_alarms s"
  | (status) i k st where "lookup_strict al_ID al_TenantID (alarm_scope op) i (am_alarms s) = Some k"
      "st \<in> set alarm_statuses"
      "am_alarms (alarm_step e op s) = (am_alarms s)[k := (am_alarms s ! k)\<lparr>al_Status := st\<rparr>]"
proof (cases op)
  case (AlarmSetStatus t i st)
  then show ?thesis
    using UpdateStatus_alarms [of e t i st s] same status [of "trim_space i"] by auto
qed (use same in \<open>auto simp: CreateSchedule_alarm_def UpdateSchedule_alarm_def
       DeleteSchedule_alarm_def SubscribeChanges_alarm_def unsubscribe_alarm_def Let_def
       case_prod_unfold split: option.splits bool.splits if_splits\<close>)

lemma alarm_inv_step:
  assumes "alarm_inv s"
  shows "alarm_inv (alarm_step e op s)"
proof -
  have "\<forall>a\<in>set (am_alarms (alarm_step e op s)). al_Status a \<in> set alarm_statuses"
    using assms
    by (cases rule: alarms_of_step [of e op s])
       (auto simp: alarm_inv_def dest!: subsetD [OF set_update_subset_insert])
  moreover have "\<forall>sc\<in>set (am_schedules (alarm_step e op s)). schedule_ok sc"
  proof (cases rule: schedules_of_step [of e op s])
    case same
    with assms show ?thesis by (simp add: alarm_inv_def)
  next
    case (created r t)
    with assms show ?thesis by (simp add: alarm_inv_def)
  next
    case (updated i sc k)
    have "schedule_ok (am_schedules s ! k)"
      using assms lookup_strict_SomeD(1) [OF updated(1)] by (simp add: alarm_inv_def)
    then have "schedule_ok (snd (apply_update (env_now e) sc (am_schedules s ! k)))"
      by (rule apply_update_ok)
    then show ?thesis
      using assms updated(2)
      by (auto simp: alarm_inv_def dest!: subsetD [OF set_update_subset_insert])
  next
    case (deleted i k)
    with assms set_remove_at [of k "am_schedules s"] show ?thesis
      by (auto simp: alarm_inv_def)
  qed
  ultimately show ?thesis by (simp add: alarm_inv_def)
qed

lemma alarm_inv_run: "alarm_inv s \<Longrightarrow> alarm_inv (fold (\<lambda>(e, op). alarm_step e op) ops s)"
  by (induction ops arbitrary: s) (auto intro: alarm_inv_step)

section \<open>Isolation\<close>

interpretation alarm_isolation: tenant_isolated am_alarms al_TenantID alarm_scope alarm_step
proof
  fix op t e s
  assume "alarm_scope op \<noteq> ''''" and "t \<noteq> alarm_scope op"
  then show "filter (\<lambda>r. al_TenantID r = t) (am_alarms (alarm_step e op s)) =
             filter (\<lambda>r. al_TenantID r = t) (am_alarms s)"
  proof (cases rule: alarms_of_step [of e op s])
    case same
    then show ?thesis by simp
  next
    case (status i k st)
    then show ?thesis
      using lookup_strict_SomeD [OF status(1)] \<open>alarm_scope op \<noteq> ''''\<close> \<open>t \<noteq> alarm_scope op\<close>
      by (simp add: in_scope_def filter_update_other)
  qed
qed

interpretation schedule_isolation: tenant_isolated am_schedules as_TenantID alarm_scope alarm_step
proof
  fix op t e s
  assume ne: "alarm_scope op \<noteq> ''''" "t \<noteq> alarm_scope op"
  then show "filter (\<lambda>r. as_TenantID r = t) (am_schedules (alarm_step e op s)) =
             filter (\<lambda>r. as_TenantID r = t) (am_schedules s)"
  proof (cases rule: schedules_of_step [of e op s])
    case same
    then show ?thesis by simp
  next
    case (created r u)
    then show ?thesis using ne by simp
  next
    case (updated i sc k)
    then show ?thesis
      using lookup_strict_SomeD [OF updated(1)] ne
      by (simp add: in_scope_def filter_update_other apply_update_tenant)
  next
    case (deleted i k)
    then show ?thesis
      using lookup_strict_SomeD [OF deleted(1)] ne by (simp add: in_scope_def filter_remove_at)
  qed
qed

section \<open>Times of day\<close>

lemma digit_code: "is_digit c \<Longrightarrow> \<exists>k\<le>9. (of_char c :: nat) = 48 + k"
  unfolding is_digit_def Let_def by (rule exI [of _ "of_char c - 48"]) auto

lemma digit_val_nat: "(of_char c :: nat) = 48 + k \<Longrightarrow> digit_val c = int k"
  by (metis add_diff_cancel_left' digit_val_def of_nat_add of_nat_numeral of_nat_of_char)

lemma two_digit_le:
  assumes "i \<le> 9" "j \<le> 9" "n < 100"
  shows "(word_of_nat i * 10 + word_of_nat j :: 8 word) \<le> word_of_nat n \<longleftrightarrow> i * 10 + j \<le> n"
proof -
  have "word_of_nat i * 10 + word_of_nat j = (word_of_nat (i * 10 + j) :: 8 word)" by simp
  then show ?thesis
    using assms by (simp add: word_le_nat_alt unat_of_nat del: of_nat_add of_nat_mult)
qed

section \<open>Properties\<close>

text \<open>
  Stored alarms and schedules stay valid.  Starting from valid data, every alarm keeps one
  of the seven statuses and every schedule a name, days between 0 and 6, valid times, a
  timezone and a tenant, through any sequence of operations, also when an update is refused
  half-way or a save fails; so every calendar entry names a day of the week.
\<close>

lemma alarm_data_valid:
  assumes "alarm_inv s" and "s' = fold (\<lambda>(e, op). alarm_step e op) ops s"
  shows "alarm_inv s' \<and> days_ok (map ce_DayOfWeek (GetWeeklyCalendar t s'))"
proof -
  from assms have inv: "alarm_inv s'" by (simp add: alarm_inv_run)
  then have "days_ok (as_DaysOfWeek sc)" if "sc \<in> set (am_schedules s')" for sc
    using that by (simp add: alarm_inv_def schedule_ok_iff)
  then show ?thesis
    using inv by (auto simp: days_ok_def GetWeeklyCalendar_def calendar_of_def)
qed

definition demo_schedule :: alarmSchedule where
  "demo_schedule = \<lparr>as_ID = ''s1'', as_TenantID = ''t1'', as_Name = ''night'', as_Description = '''',
     as_DaysOfWeek = [0, 6], as_StartTime = ''22:00'', as_EndTime = ''06:00'',
     as_Timezone = ''UTC'', as_AlarmTypes = [], as_Enabled = True, as_CreatedAt = 0,
     as_UpdatedAt = 0\<rparr>"

definition demo_alarms :: alarmService where
  "demo_alarms = \<lparr>am_alarms = [], am_schedules = [demo_schedule], am_store = NoStore,
     am_subscribers = [], am_nextSubID = 0\<rparr>"

definition alarm_env :: env where
  "alarm_env = \<lparr>env_now = 7, env_save_ok = True, env_rand = Some ''00ff''\<rparr>"

lemma alarm_data_valid_instance:
  "days_ok (map ce_DayOfWeek (GetWeeklyCalendar ''t1''
     (fold (\<lambda>(e, op). alarm_step e op)
       [(alarm_env, AlarmUpdate ''t1'' ''s1'' (demo_schedule\<lparr>as_DaysOfWeek := [9]\<rparr>))] demo_alarms)))"
proof -
  have "alarm_inv demo_alarms" by code_simp
  from alarm_data_valid [OF this refl] show ?thesis by blast
qed

text \<open>
  Alarm tenants are isolated.  Operations run for other tenants leave the alarms and the
  schedules of a tenant exactly as they were.
\<close>

lemma alarms_isolated:
  assumes "\<And>e op. (e, op) \<in> set ops \<Longrightarrow> alarm_scope op \<noteq> '''' \<and> alarm_scope op \<noteq> t"
  shows "filter (\<lambda>r. al_TenantID r = t) (am_alarms (fold (\<lambda>(e, op). alarm_step e op) ops s)) =
         filter (\<lambda>r. al_TenantID r = t) (am_alarms s) \<and>
         filter (\<lambda>r. as_TenantID r = t) (am_schedules (fold (\<lambda>(e, op). alarm_step e op) ops s)) =
         filter (\<lambda>r. as_TenantID r = t) (am_schedules s)"
  by (rule conjI; rule alarm_isolation.run_isolated schedule_isolation.run_isolated; rule assms)

lemma alarms_isolated_instance:
  "filter (\<lambda>r. as_TenantID r = ''t1'') (am_schedules (fold (\<lambda>(e, op). alarm_step e op)
      [(alarm_env, AlarmDelete ''t2'' ''s1''), (alarm_env, AlarmCreate ''t2'' demo_schedule)] demo_alarms)) =
   filter (\<lambda>r. as_TenantID r = ''t1'') (am_schedules demo_alarms)"
proof (rule conjunct2 [OF alarms_isolated])
  have t2: "trim_space ''t2'' = ''t2''" by code_simp
  show "(e, op) \<in> set [(alarm_env, AlarmDelete ''t2'' ''s1''), (alarm_env, AlarmCreate ''t2'' demo_schedule)]
      \<Longrightarrow> alarm_scope op \<noteq> '''' \<and> alarm_scope op \<noteq> ''t1''" for e op
    by (auto simp: t2)
qed

text \<open>
  The time check of alarm schedules.  On five characters with a colon in the middle and
  digits around it, exactly the times 00:00 to 23:59 pass.
\<close>

lemma isValidTimeHHMM_digits:
  assumes "is_digit a" "is_digit b" "is_digit c" "is_digit d"
  shows "isValidTimeHHMM [a, b, CHR '':'', c, d] \<longleftrightarrow>
         digit_val a * 10 + digit_val b \<le> 23 \<and> digit_val c * 10 + digit_val d \<le> 59"
proof -
  obtain i j k l where v: "i \<le> 9" "j \<le> 9" "k \<le> 9" "l \<le> 9"
    "(of_char a :: nat) = 48 + i" "(of_char b :: nat) = 48 + j"
    "(of_char c :: nat) = 48 + k" "(of_char d :: nat) = 48 + l"
    using assms digit_code by metis
  have "byte_at [a, b, CHR '':'', c, d] 0 - 48 = word_of_nat i"
    "byte_at [a, b, CHR '':'', c, d] 1 - 48 = word_of_nat j"
    "byte_at [a, b, CHR '':'', c, d] 3 - 48 = word_of_nat k"
    "byte_at [a, b, CHR '':'', c, d] 4 - 48 = word_of_nat l"
    using v by (simp_all add: byte_at_def)
  moreover have "digit_val a = int i" "digit_val b = int j" "digit_val c = int k" "digit_val d = int l"
    using v by (simp_all add: digit_val_nat)
  ultimately show ?thesis
    using two_digit_le [OF v(1,2), of 23] two_digit_le [OF v(3,4), of 59]
    by (simp add: isValidTimeHHMM_def) linarith
qed

lemma isValidTimeHHMM_digits_instance:
  "isValidTimeHHMM ''23:59'' \<longleftrightarrow>
   digit_val (CHR ''2'') * 10 + digit_val (CHR ''3'') \<le> 23 \<and>
   digit_val (CHR ''5'') * 10 + digit_val (CHR ''9'') \<le> 59"
  by (rule isValidTimeHHMM_digits) code_simp+

section \<open>What the code leaves open\<close>

text \<open>Other characters wrap: the hour of \<open>J0:00\<close> is 260 modulo 256.\<close>

lemma time_wraps: "isValidTimeHHMM ''J0:00''"
  by code_simp

text \<open>A refused update keeps the fields set before the error, without saving them.\<close>

lemma refused_update_sticks:
  "UpdateSchedule_alarm alarm_env ''t1'' ''s1''
     (demo_schedule\<lparr>as_Name := ''changed'', as_DaysOfWeek := [9]\<rparr>) demo_alarms =
   (Inl ScheduleInvalidDayOfWeek,
    demo_alarms\<lparr>am_schedules := [demo_schedule\<lparr>as_Name := ''changed''\<rparr>]\<rparr>)"
  by code_simp

end
