(* ===== verification/Access_State.thy ===== *)
theory Access_State
  imports Complex_Main MP_Prelude Go_Time Go_Bytes
begin

text \<open>
  \<open>internal/modules/access/service.go\<close> and the persistence part of
  \<open>service_policies.go\<close>: the records of the access module, the service state shared by its
  operations, and how it is saved and restored.  The state has the slices the modelled
  operations read or write; elevators, presences, card imports and OAuth2 clients are not part of the model.
\<close>

section \<open>Records\<close>

record timeWindow =
  tw_StartTime :: string
  tw_EndTime :: string
  tw_DayOfWeekSet :: string
  tw_Timezone :: string

record holidayEntry =
  he_Date :: string
  he_Name :: string
  he_Description :: string

record holidayCalendar =
  hc_ID :: string
  hc_TenantID :: string
  hc_Name :: string
  hc_Country :: string
  hc_Entries :: "holidayEntry list"
  hc_UpdatedAt :: time

record roleAssignment =
  ra_ID :: string
  ra_TenantID :: string
  ra_RoleID :: string
  ra_AppliesToType :: string
  ra_AppliesToID :: string
  ra_AssigneeType :: string
  ra_AssigneeID :: string
  ra_AssigneeEmail :: string
  ra_ValidFrom :: string
  ra_ValidUntil :: string
  ra_TimeWindows :: "timeWindow list"
  ra_ExceptionDates :: "string list"
  ra_HolidayCalendarID :: string
  ra_ReviewedAt :: string
  ra_ReviewedBy :: string
  ra_CreatedAt :: time
  ra_UpdatedAt :: time

record accessUser =
  us_ID :: string
  us_TenantID :: string
  us_BuildingID :: string
  us_Name :: string
  us_Email :: string
  us_Role :: string
  us_Status :: string
  us_GroupIDs :: "string list"
  us_SyncSource :: string
  us_SyncRef :: string
  us_CreatedAt :: time

record groupLink =
  gl_ID :: string
  gl_ResourceType :: string
  gl_TenantID :: string
  gl_GroupID :: string
  gl_GroupName :: string
  gl_Name :: string
  gl_Email :: string
  gl_Phone :: string
  gl_LastUsedAt :: string
  gl_LinkEnabled :: bool
  gl_QuickResponseCodeType :: string
  gl_ValidFrom :: string
  gl_ValidUntil :: string
  gl_CreatedByType :: string
  gl_CreatedByID :: string
  gl_CreatedByEmail :: string
  gl_CreatedByName :: string
  gl_IssuedByID :: string
  gl_Secret :: string
  gl_QuickResponseCodeToken :: string
  gl_QuickResponseCodeImage :: string
  gl_CreatedAt :: time
  gl_UpdatedAt :: time

record guest =
  gu_ID :: string
  gu_TenantID :: string
  gu_BuildingID :: string
  gu_Name :: string
  gu_Email :: string
  gu_Phone :: string
  gu_Company :: string
  gu_Purpose :: string
  gu_HostName :: string
  gu_HostEmail :: string
  gu_HostPhone :: string
  gu_IDDocumentType :: string
  gu_IDDocumentNumber :: string
  gu_Status :: string
  gu_CheckedInAt :: string
  gu_CheckedOutAt :: string
  gu_ExpectedAt :: string
  gu_NotifyHost :: bool
  gu_HostNotifiedAt :: string
  gu_AccessToken :: string
  gu_AccessTokenExpiresAt :: string
  gu_DoorIDs :: "string list"
  gu_CreatedAt :: time
  gu_UpdatedAt :: time

record bookableSpace =
  bs_ID :: string
  bs_TenantID :: string
  bs_Name :: string
  bs_Description :: string
  bs_SpaceType :: string
  bs_CapacityMode :: string
  bs_MaxCapacity :: int
  bs_CurrentOccupancy :: int
  bs_LockID :: string
  bs_RequiresBooking :: bool
  bs_Enabled :: bool
  bs_CreatedAt :: time
  bs_UpdatedAt :: time

record booking =
  bk_ID :: string
  bk_TenantID :: string
  bk_SpaceID :: string
  bk_UserID :: string
  bk_UserName :: string
  bk_Title :: string
  bk_StartTime :: string
  bk_EndTime :: string
  bk_Status :: string
  bk_CheckedInAt :: string
  bk_CheckedOutAt :: string
  bk_CreatedAt :: time
  bk_UpdatedAt :: time

record schedule =
  sc_ID :: string
  sc_TenantID :: string
  sc_Name :: string
  sc_Description :: string
  sc_ValidFrom :: string
  sc_ValidUntil :: string
  sc_TimeWindows :: "timeWindow list"
  sc_ExceptionDates :: "string list"
  sc_HolidayCalendarID :: string
  sc_CreatedAt :: time
  sc_UpdatedAt :: time

record userGroup =
  ug_ID :: string
  ug_ResourceType :: string
  ug_TenantID :: string
  ug_BuildingID :: string
  ug_PlaceID :: string
  ug_Name :: string
  ug_Description :: string
  ug_LoginEnabled :: bool
  ug_GeofenceRestrictionEnabled :: bool
  ug_GeofenceRestrictionRadius :: real
  ug_PrimaryDeviceRestrictionEnabled :: bool
  ug_ManagedDeviceRestrictionEnabled :: bool
  ug_ReaderRestrictionEnabled :: bool
  ug_TimeRestrictionEnabled :: bool
  ug_TapToAccessRestrictionEnabled :: bool
  ug_TimeRestrictionTimeZone :: string
  ug_Members :: "string list"
  ug_UsersCount :: nat
  ug_LocksCount :: int
  ug_ElevatorStopsCount :: int
  ug_CreatedAt :: time
  ug_UpdatedAt :: time

record team =
  tm_ID :: string
  tm_ResourceType :: string
  tm_TenantID :: string
  tm_Name :: string
  tm_Scope :: string
  tm_PlaceID :: string
  tm_Description :: string
  tm_Source :: string
  tm_CreatedAt :: time
  tm_UpdatedAt :: time

record teamMembership =
  mb_ID :: string
  mb_ResourceType :: string
  mb_TenantID :: string
  mb_TeamID :: string
  mb_MemberType :: string
  mb_MemberID :: string
  mb_MemberEmail :: string
  mb_MemberName :: string
  mb_Source :: string
  mb_CreatedAt :: time
  mb_UpdatedAt :: time

record policy =
  pl_ID :: string
  pl_TenantID :: string
  pl_Name :: string
  pl_ScopeType :: string
  pl_BuildingID :: string
  pl_AreaID :: string
  pl_DoorID :: string
  pl_Schedule :: string
  pl_Members :: int
  pl_Status :: string
  pl_UpdatedAt :: time

record temporaryAccess =
  ta_ID :: string
  ta_TenantID :: string
  ta_ScopeType :: string
  ta_BuildingID :: string
  ta_AreaID :: string
  ta_DoorID :: string
  ta_GroupID :: string
  ta_RoleID :: string
  ta_DeliveryMethod :: string
  ta_GranteeName :: string
  ta_GranteeGender :: string
  ta_GranteePhone :: string
  ta_GranteeEmail :: string
  ta_MobileModel :: string
  ta_PassType :: string
  ta_ValidFrom :: string
  ta_ValidUntil :: string
  ta_TimeWindows :: "timeWindow list"
  ta_ExceptionDates :: "string list"
  ta_HolidayCalendarID :: string
  ta_AuthorizedByID :: string
  ta_AuthorizedByEmail :: string
  ta_AuthorizedByRole :: string
  ta_AuthorizedAt :: time
  ta_ReviewedAt :: string
  ta_ReviewedBy :: string
  ta_CreatedAt :: time

record visitorPass =
  vi_ID :: string
  vi_TenantID :: string
  vi_BuildingID :: string
  vi_Host :: string
  vi_Visitor :: string
  vi_DeliveryMethod :: string
  vi_ExpiresAt :: string
  vi_CreatedAt :: time

record userInvitationDelivery =
  iv_ID :: string
  iv_ResourceType :: string
  iv_TenantID :: string
  iv_UserID :: string
  iv_Email :: string
  iv_PlaceID :: string
  iv_DeliveryMethod :: string
  iv_Status :: string
  iv_Provider :: string
  iv_ProviderDeliveryID :: string
  iv_ProviderError :: string
  iv_Retryable :: bool
  iv_QueuedAt :: time
  iv_DeliveredAt :: "time option"
  iv_UpdatedAt :: time

record organizationSettings =
  os_TenantID :: string
  os_Name :: string
  os_PrimaryDomain :: string
  os_Timezone :: string
  os_SupportEmail :: string
  os_EmailNotifications :: bool
  os_PushNotifications :: bool
  os_WeeklyReports :: bool
  os_EnforceMFA :: bool
  os_WebAuthnEnabled :: bool
  os_PasswordPolicy :: string
  os_SessionTimeoutMinutes :: int
  os_WebhookSigningKey :: string
  os_WebhookRotatedAt :: time
  os_Status :: string
  os_UpdatedAt :: time

section \<open>State and persistence\<close>

record access_snapshot =
  sn_Users :: "accessUser list"
  sn_Guests :: "guest list"
  sn_RoleAssignments :: "roleAssignment list"
  sn_GroupLinks :: "groupLink list"
  sn_BookableSpaces :: "bookableSpace list"
  sn_Bookings :: "booking list"
  sn_Invitations :: "userInvitationDelivery list"
  sn_UserGroups :: "userGroup list"
  sn_Policies :: "policy list"
  sn_TemporaryAccess :: "temporaryAccess list"
  sn_VisitorPasses :: "visitorPass list"
  sn_Teams :: "team list"
  sn_TeamMemberships :: "teamMembership list"

record accessService =
  ac_users :: "accessUser list"
  ac_guests :: "guest list"
  ac_roleAssignments :: "roleAssignment list"
  ac_groupLinks :: "groupLink list"
  ac_bookableSpaces :: "bookableSpace list"
  ac_bookings :: "booking list"
  ac_userInvitationDeliveries :: "userInvitationDelivery list"
  ac_userGroups :: "userGroup list"
  ac_policies :: "policy list"
  ac_temporaryAccess :: "temporaryAccess list"
  ac_visitorPasses :: "visitorPass list"
  ac_teams :: "team list"
  ac_teamMemberships :: "teamMembership list"
  ac_holidayCalendars :: "holidayCalendar list"
  ac_schedules :: "schedule list"
  ac_organizationSettings :: "string \<rightharpoonup> organizationSettings"
  ac_store :: "access_snapshot store"

datatype group_error =
    UserGroupNameRequired | UserGroupNotFound | GroupIDRequired | GroupLinkNameRequired | GroupLinkNotFound
  | GroupLinkTokenRequired | GroupLinkTokenInvalid | GroupLinkDisabled | GroupLinkNotYetValid | GroupLinkExpired
  | InvalidGroupLinkValidityWindow | InvalidGroupLinkQRCodeType | TeamNameRequired | TeamNotFound | TeamIDRequired
  | InvalidTeamMemberType | TeamMemberIDRequired | TeamMembershipNotFound

datatype grant_error =
    PolicyNameRequired | PolicyNotFound | InvalidPolicyStatus | DoorIDRequired | ValidUntilRequired
  | TemporaryAccessNotFound | HostRequired | VisitorRequired | ExpiresAtRequired | DeliveryMethodInvalid
  | GranteeNameRequired | GranteeEmailRequired | GranteePhoneRequired | AccessRightSelectionRequired

datatype invite_error =
    UserInvitationDeliveryNotFound | InvalidUserInvitationStatus | UsersImportRecordsRequired | CannotCancelDelivered

text \<open>The error values of the module; those of groups, grants and invitations are grouped.\<close>

datatype access_error =
    TenantIDRequired | UserNotFound | UserNameRequired | UserEmailRequired | InvalidUserStatus
  | UserIDsRequired | GuestNotFound
  | RoleIDRequired | RoleNotFound | InvalidRoleScope | AppliesToIDRequired
  | InvalidAssigneeType | AssigneeIDRequired | RoleAssignmentNotFound
  | HolidayCalendarNotFound | HolidayCalendarNameRequired
  | ScheduleNotFound | AccessScheduleNameRequired
  | BookableSpaceNotFound | SpaceNameRequired | SpaceTypeRequired | InvalidSpaceType
  | InvalidCapacityMode | SpaceAtCapacity
  | BookingNotFound | BookingSpaceIDRequired | BookingUserIDRequired | BookingStartTimeRequired
  | BookingEndTimeRequired | BookingEndBeforeStart | BookingTimeConflict
  | BookingAlreadyCheckedIn | BookingNotCheckedIn | BookingStatusInvalid
  | GuestNameRequired | GuestPhoneRequired | GuestHostRequired | GuestIDDocumentTypeInvalid
  | GuestStatusInvalid | InvalidScopeType
  | GroupError group_error | GrantError grant_error | InviteError invite_error
  | SameTransferTenant | AccessRandFailed | AccessStoreFailed

definition cloneGroupLink :: "groupLink \<Rightarrow> groupLink" where
  "cloneGroupLink g = g\<lparr>gl_ResourceType := ''GroupLink''\<rparr>"

definition cloneUserInvitationDelivery :: "userInvitationDelivery \<Rightarrow> userInvitationDelivery" where
  "cloneUserInvitationDelivery d = d\<lparr>iv_ResourceType := ''UserInvitationDelivery''\<rparr>"

text \<open>Copies of user groups fill in defaults.\<close>

definition applyUserGroupDefaults :: "userGroup \<Rightarrow> userGroup" where
  "applyUserGroupDefaults g =
     g\<lparr>ug_ResourceType := ''Group'',
       ug_PlaceID := (if trim_space (ug_PlaceID g) = '''' then trim_space (ug_BuildingID g) else ug_PlaceID g),
       ug_GeofenceRestrictionRadius := (if ug_GeofenceRestrictionRadius g \<le> 0 then 150 else ug_GeofenceRestrictionRadius g),
       ug_UsersCount := length (ug_Members g)\<rparr>"

definition cloneUserGroup :: "userGroup \<Rightarrow> userGroup" where
  "cloneUserGroup g = applyUserGroupDefaults g"

definition snapshot_of :: "accessService \<Rightarrow> access_snapshot" where
  "snapshot_of s =
     \<lparr>sn_Users = ac_users s, sn_Guests = ac_guests s, sn_RoleAssignments = ac_roleAssignments s,
      sn_GroupLinks = map cloneGroupLink (ac_groupLinks s), sn_BookableSpaces = ac_bookableSpaces s,
      sn_Bookings = ac_bookings s,
      sn_Invitations = map cloneUserInvitationDelivery (ac_userInvitationDeliveries s),
      sn_UserGroups = map cloneUserGroup (ac_userGroups s), sn_Policies = ac_policies s, sn_TemporaryAccess = ac_temporaryAccess s,
      sn_VisitorPasses = ac_visitorPasses s, sn_Teams = ac_teams s, sn_TeamMemberships = ac_teamMemberships s\<rparr>"

definition persistLocked :: "env \<Rightarrow> accessService \<Rightarrow> bool \<times> accessService" where
  "persistLocked e s =
     (case store_save e (snapshot_of s) (ac_store s) of (ok, st) \<Rightarrow> (ok, s\<lparr>ac_store := st\<rparr>))"

text \<open>\<open>restoreFromStateStore\<close>: the first save leaves guests, spaces and bookings out; a
  stored empty list of assignments, links, spaces or bookings does not replace the seed.\<close>

definition restoreFromStateStore :: "env \<Rightarrow> accessService \<Rightarrow> bool \<times> accessService" where
  "restoreFromStateStore e s =
     (case ac_store s of
        NoStore \<Rightarrow> (True, s)
      | Store None \<Rightarrow>
          (case store_save e ((snapshot_of s)\<lparr>sn_Guests := [], sn_BookableSpaces := [], sn_Bookings := []\<rparr>)
                  (ac_store s) of
             (ok, st) \<Rightarrow> (ok, s\<lparr>ac_store := st\<rparr>))
      | Store (Some snap) \<Rightarrow>
          (True, s\<lparr>ac_users := sn_Users snap, ac_guests := sn_Guests snap,
             ac_roleAssignments :=
               (if sn_RoleAssignments snap \<noteq> [] then sn_RoleAssignments snap else ac_roleAssignments s),
             ac_groupLinks :=
               (if sn_GroupLinks snap \<noteq> [] then map cloneGroupLink (sn_GroupLinks snap) else ac_groupLinks s),
             ac_bookableSpaces :=
               (if sn_BookableSpaces snap \<noteq> [] then sn_BookableSpaces snap else ac_bookableSpaces s),
             ac_bookings := (if sn_Bookings snap \<noteq> [] then sn_Bookings snap else ac_bookings s),
             ac_userInvitationDeliveries := map cloneUserInvitationDelivery (sn_Invitations snap),
             ac_userGroups := map cloneUserGroup (sn_UserGroups snap),
             ac_policies := sn_Policies snap, ac_temporaryAccess := sn_TemporaryAccess snap, ac_visitorPasses := sn_VisitorPasses snap,
             ac_teams := (if sn_Teams snap \<noteq> [] then sn_Teams snap else ac_teams s),
             ac_teamMemberships := (if sn_TeamMemberships snap \<noteq> [] then sn_TeamMemberships snap else ac_teamMemberships s)\<rparr>))"

section \<open>Helpers\<close>

definition accessID :: "env \<Rightarrow> string \<Rightarrow> (access_error, string) result" where
  "accessID e prefix =
     (case env_rand e of None \<Rightarrow> Inl AccessRandFailed | Some hex \<Rightarrow> Inr (prefix @ hex))"

definition firstNonEmpty2 :: "string \<Rightarrow> string \<Rightarrow> string" where
  "firstNonEmpty2 a b = (if trim_space a \<noteq> '''' then trim_space a else trim_space b)"

definition normalizeEmail :: "string \<Rightarrow> string" where
  "normalizeEmail email = to_lower (trim_space email)"

text \<open>\<open>if err := s.persistLocked(); err != nil { return T{}, err }; return v, nil\<close>.\<close>

definition save_return ::
  "env \<Rightarrow> 'a \<Rightarrow> accessService \<Rightarrow> (access_error, 'a) result \<times> accessService" where
  "save_return e v s =
     (case persistLocked e s of
        (True, s') \<Rightarrow> (Inr v, s') | (False, s') \<Rightarrow> (Inl AccessStoreFailed, s'))"

text \<open>\<open>_ = s.persistLocked(); return v, nil\<close>.\<close>

definition save_ignore ::
  "env \<Rightarrow> 'a \<Rightarrow> accessService \<Rightarrow> (access_error, 'a) result \<times> accessService" where
  "save_ignore e v s = (Inr v, snd (persistLocked e s))"

lemma persistLocked_frame [simp]:
  "ac_users (snd (persistLocked e s)) = ac_users s"
  "ac_guests (snd (persistLocked e s)) = ac_guests s"
  "ac_roleAssignments (snd (persistLocked e s)) = ac_roleAssignments s"
  "ac_groupLinks (snd (persistLocked e s)) = ac_groupLinks s"
  "ac_bookableSpaces (snd (persistLocked e s)) = ac_bookableSpaces s"
  "ac_bookings (snd (persistLocked e s)) = ac_bookings s"
  "ac_userInvitationDeliveries (snd (persistLocked e s)) = ac_userInvitationDeliveries s"
  "ac_userGroups (snd (persistLocked e s)) = ac_userGroups s"
  "ac_policies (snd (persistLocked e s)) = ac_policies s"
  "ac_temporaryAccess (snd (persistLocked e s)) = ac_temporaryAccess s"
  "ac_visitorPasses (snd (persistLocked e s)) = ac_visitorPasses s"
  "ac_teams (snd (persistLocked e s)) = ac_teams s"
  "ac_teamMemberships (snd (persistLocked e s)) = ac_teamMemberships s"
  "ac_holidayCalendars (snd (persistLocked e s)) = ac_holidayCalendars s"
  "ac_schedules (snd (persistLocked e s)) = ac_schedules s"
  "ac_organizationSettings (snd (persistLocked e s)) = ac_organizationSettings s"
  by (simp_all add: persistLocked_def case_prod_unfold)

lemma save_return_state [simp]: "snd (save_return e v s) = snd (persistLocked e s)"
  by (simp add: save_return_def case_prod_unfold split: bool.splits)

lemma save_ignore_state [simp]: "snd (save_ignore e v s) = snd (persistLocked e s)"
  by (simp add: save_ignore_def)

lemma save_return_value:
  "fst (save_return e v s) = Inr w \<longleftrightarrow> w = v \<and> fst (persistLocked e s)"
  by (auto simp: save_return_def case_prod_unfold split: bool.splits)

definition access_synced :: "accessService \<Rightarrow> bool" where
  "access_synced s \<longleftrightarrow> in_sync (snapshot_of s) (ac_store s)"

lemma persistLocked_synced: "env_save_ok e \<Longrightarrow> access_synced (snd (persistLocked e s))"
  by (auto simp: access_synced_def in_sync_def persistLocked_def store_save_def snapshot_of_def
      case_prod_unfold split: store.splits)

text \<open>Restoring a saved state gives it back when no list the code skips is empty.\<close>

lemma restore_synced:
  assumes "access_synced s" and "ac_store s \<noteq> NoStore"
    and "ac_roleAssignments s \<noteq> []" "ac_groupLinks s \<noteq> []" "ac_bookableSpaces s \<noteq> []"
      "ac_bookings s \<noteq> []" "ac_teams s \<noteq> []" "ac_teamMemberships s \<noteq> []"
  shows "snapshot_of (snd (restoreFromStateStore e (seed\<lparr>ac_store := ac_store s\<rparr>))) = snapshot_of s"
  using assms
  by (auto simp: access_synced_def in_sync_def restoreFromStateStore_def snapshot_of_def
      cloneUserGroup_def cloneGroupLink_def cloneUserInvitationDelivery_def applyUserGroupDefaults_def o_def
      split: store.splits option.splits)

end
