(* ===== verification/Booking_Service.thy ===== *)
theory Booking_Service
  imports Access_State "HOL-Library.Sublist"
begin

text \<open>
  \<open>internal/modules/access/service_bookings.go\<close>: bookable spaces and bookings.  Times are
  RFC 3339 strings, parsed at each use.  An update that fails half-way keeps the fields it
  has already set, as the code does.  The OAuth2 client operations of the same file are not
  modelled.
\<close>

section \<open>Spaces\<close>

record space_input =
  bi_TenantID :: string
  bi_Name :: string
  bi_Description :: string
  bi_SpaceType :: string
  bi_CapacityMode :: string
  bi_MaxCapacity :: int
  bi_LockID :: string
  bi_RequiresBooking :: bool
  bi_Enabled :: bool

record space_update =
  bu_Name :: "string option"
  bu_Description :: "string option"
  bu_SpaceType :: "string option"
  bu_CapacityMode :: "string option"
  bu_MaxCapacity :: "int option"
  bu_LockID :: "string option"
  bu_RequiresBooking :: "bool option"
  bu_Enabled :: "bool option"

definition ListBookableSpaces :: "string \<Rightarrow> accessService \<Rightarrow> bookableSpace list" where
  "ListBookableSpaces tenantID s = list_scoped bs_TenantID (trim_space tenantID) (ac_bookableSpaces s)"

definition find_space :: "string \<Rightarrow> string \<Rightarrow> accessService \<Rightarrow> nat option" where
  "find_space tenantID spaceID s =
     lookup_scan bs_ID bs_TenantID tenantID (trim_space spaceID) (ac_bookableSpaces s)"

definition GetBookableSpace ::
  "string \<Rightarrow> string \<Rightarrow> accessService \<Rightarrow> (access_error, bookableSpace) result" where
  "GetBookableSpace tenantID spaceID s =
     (case find_space tenantID spaceID s of
        None \<Rightarrow> Inl BookableSpaceNotFound | Some i \<Rightarrow> Inr (ac_bookableSpaces s ! i))"

definition validateSpaceType :: "string \<Rightarrow> bool" where
  "validateSpaceType t \<longleftrightarrow> t \<in> {''meeting_room'', ''prayer_room'', ''phone_booth'', ''custom''}"

definition validateCapacityMode :: "string \<Rightarrow> bool" where
  "validateCapacityMode m \<longleftrightarrow> m \<in> {''single_occupancy'', ''limited_capacity'', ''unlimited''}"

definition CreateBookableSpace ::
  "env \<Rightarrow> space_input \<Rightarrow> accessService \<Rightarrow> (access_error, bookableSpace) result \<times> accessService" where
  "CreateBookableSpace e inp s =
     (let nextType = trim_space (to_lower (bi_SpaceType inp));
          mode0 = trim_space (to_lower (bi_CapacityMode inp));
          nextCapMode = (if mode0 = '''' then ''unlimited'' else mode0) in
      if trim_space (bi_TenantID inp) = '''' then (Inl TenantIDRequired, s)
      else if trim_space (bi_Name inp) = '''' then (Inl SpaceNameRequired, s)
      else if nextType = '''' then (Inl SpaceTypeRequired, s)
      else if \<not> validateSpaceType nextType then (Inl InvalidSpaceType, s)
      else if \<not> validateCapacityMode nextCapMode then (Inl InvalidCapacityMode, s)
      else
        (case accessID e ''bsp_'' of
           Inl err \<Rightarrow> (Inl err, s)
         | Inr newID \<Rightarrow>
             let r = \<lparr>bs_ID = newID, bs_TenantID = trim_space (bi_TenantID inp),
                      bs_Name = trim_space (bi_Name inp),
                      bs_Description = trim_space (bi_Description inp), bs_SpaceType = nextType,
                      bs_CapacityMode = nextCapMode, bs_MaxCapacity = bi_MaxCapacity inp,
                      bs_CurrentOccupancy = 0, bs_LockID = trim_space (bi_LockID inp),
                      bs_RequiresBooking = bi_RequiresBooking inp, bs_Enabled = bi_Enabled inp,
                      bs_CreatedAt = env_now e, bs_UpdatedAt = env_now e\<rparr> in
             save_return e r (s\<lparr>ac_bookableSpaces := r # ac_bookableSpaces s\<rparr>)))"

text \<open>The field updates of \<open>UpdateBookableSpace\<close>: the record as far as it got, and the
  error that stopped it.\<close>


definition apply_space_update ::
  "time \<Rightarrow> space_update \<Rightarrow> bookableSpace \<Rightarrow> access_error option \<times> bookableSpace" where
  "apply_space_update now inp r =
     (let nm = map_option trim_space (bu_Name inp);
          ty = map_option (\<lambda>t. trim_space (to_lower t)) (bu_SpaceType inp);
          md = map_option (\<lambda>m. trim_space (to_lower m)) (bu_CapacityMode inp) in
      if nm = Some '''' then (Some SpaceNameRequired, r)
      else
        let r1 = r\<lparr>bs_Name := get_or (bs_Name r) nm,
                   bs_Description := get_or (bs_Description r) (map_option trim_space (bu_Description inp))\<rparr> in
        if (case ty of None \<Rightarrow> False | Some t \<Rightarrow> \<not> validateSpaceType t) then (Some InvalidSpaceType, r1)
        else
          let r2 = r1\<lparr>bs_SpaceType := get_or (bs_SpaceType r1) ty\<rparr> in
          if (case md of None \<Rightarrow> False | Some m \<Rightarrow> \<not> validateCapacityMode m)
          then (Some InvalidCapacityMode, r2)
          else
            (None, r2\<lparr>bs_CapacityMode := get_or (bs_CapacityMode r2) md,
                      bs_MaxCapacity := get_or (bs_MaxCapacity r2) (bu_MaxCapacity inp),
                      bs_LockID := get_or (bs_LockID r2) (map_option trim_space (bu_LockID inp)),
                      bs_RequiresBooking := get_or (bs_RequiresBooking r2) (bu_RequiresBooking inp),
                      bs_Enabled := get_or (bs_Enabled r2) (bu_Enabled inp),
                      bs_UpdatedAt := now\<rparr>))"

definition UpdateBookableSpace ::
  "env \<Rightarrow> string \<Rightarrow> string \<Rightarrow> space_update \<Rightarrow> accessService \<Rightarrow>
   (access_error, bookableSpace) result \<times> accessService" where
  "UpdateBookableSpace e tenantID spaceID inp s =
     (case find_space tenantID spaceID s of
        None \<Rightarrow> (Inl BookableSpaceNotFound, s)
      | Some i \<Rightarrow>
          (case apply_space_update (env_now e) inp (ac_bookableSpaces s ! i) of
             (err, r) \<Rightarrow>
               let s1 = s\<lparr>ac_bookableSpaces := (ac_bookableSpaces s)[i := r]\<rparr> in
               (case err of Some er \<Rightarrow> (Inl er, s1) | None \<Rightarrow> save_return e r s1)))"

definition DeleteBookableSpace ::
  "env \<Rightarrow> string \<Rightarrow> string \<Rightarrow> accessService \<Rightarrow> (access_error, unit) result \<times> accessService" where
  "DeleteBookableSpace e tenantID spaceID s =
     (case find_space tenantID spaceID s of
        None \<Rightarrow> (Inl BookableSpaceNotFound, s)
      | Some i \<Rightarrow> save_return e () (s\<lparr>ac_bookableSpaces := remove_at i (ac_bookableSpaces s)\<rparr>))"

definition GetBookableSpaceStatus ::
  "string \<Rightarrow> string \<Rightarrow> accessService \<Rightarrow> (access_error, bookableSpace \<times> booking list) result" where
  "GetBookableSpaceStatus tenantID spaceID s =
     (case find_space tenantID spaceID s of
        None \<Rightarrow> Inl BookableSpaceNotFound
      | Some i \<Rightarrow>
          let sp = ac_bookableSpaces s ! i in
          Inr (sp, filter (\<lambda>b. bk_SpaceID b = trim_space spaceID \<and> bk_TenantID b = bs_TenantID sp \<and>
                             bk_Status b \<in> {''confirmed'', ''checked_in''}) (ac_bookings s)))"

section \<open>Bookings\<close>

definition ListBookings :: "string \<Rightarrow> string \<Rightarrow> accessService \<Rightarrow> booking list" where
  "ListBookings tenantID spaceID s =
     filter (\<lambda>b. in_scope (trim_space tenantID) (bk_TenantID b) \<and>
                 in_scope (trim_space spaceID) (bk_SpaceID b)) (ac_bookings s)"

definition find_booking :: "string \<Rightarrow> string \<Rightarrow> accessService \<Rightarrow> nat option" where
  "find_booking tenantID bookingID s =
     lookup_scan bk_ID bk_TenantID tenantID (trim_space bookingID) (ac_bookings s)"

definition GetBooking :: "string \<Rightarrow> string \<Rightarrow> accessService \<Rightarrow> (access_error, booking) result" where
  "GetBooking tenantID bookingID s =
     (case find_booking tenantID bookingID s of
        None \<Rightarrow> Inl BookingNotFound | Some i \<Rightarrow> Inr (ac_bookings s ! i))"

record booking_input =
  ki_TenantID :: string
  ki_SpaceID :: string
  ki_UserID :: string
  ki_UserName :: string
  ki_Title :: string
  ki_StartTime :: string
  ki_EndTime :: string

record booking_update =
  ku_Title :: "string option"
  ku_StartTime :: "string option"
  ku_EndTime :: "string option"
  ku_Status :: "string option"

text \<open>The times of a booking, when both parse; whether a booking counts for a space; whether
  it overlaps an interval.\<close>

definition booking_span :: "booking \<Rightarrow> (time \<times> time) option" where
  "booking_span b =
     (case (parse_rfc3339 (bk_StartTime b), parse_rfc3339 (bk_EndTime b)) of
        (Some st, Some en) \<Rightarrow> Some (st, en) | _ \<Rightarrow> None)"

definition counts_for :: "string \<Rightarrow> string \<Rightarrow> booking \<Rightarrow> bool" where
  "counts_for tenantID spaceID b \<longleftrightarrow>
     bk_SpaceID b = spaceID \<and> bk_TenantID b = tenantID \<and>
     bk_Status b \<in> {''confirmed'', ''checked_in''}"

definition overlaps :: "time \<Rightarrow> time \<Rightarrow> booking \<Rightarrow> bool" where
  "overlaps startT endT b =
     (case booking_span b of None \<Rightarrow> False | Some (st, en) \<Rightarrow> startT < en \<and> endT > st)"

definition overlapping :: "string \<Rightarrow> string \<Rightarrow> time \<Rightarrow> time \<Rightarrow> accessService \<Rightarrow> nat" where
  "overlapping tenantID spaceID startT endT s =
     length (filter (\<lambda>b. counts_for tenantID spaceID b \<and> overlaps startT endT b) (ac_bookings s))"

definition new_booking :: "env \<Rightarrow> string \<Rightarrow> booking_input \<Rightarrow> booking" where
  "new_booking e newID inp =
     \<lparr>bk_ID = newID, bk_TenantID = trim_space (ki_TenantID inp),
      bk_SpaceID = trim_space (ki_SpaceID inp), bk_UserID = trim_space (ki_UserID inp),
      bk_UserName = trim_space (ki_UserName inp), bk_Title = trim_space (ki_Title inp),
      bk_StartTime = trim_space (ki_StartTime inp), bk_EndTime = trim_space (ki_EndTime inp),
      bk_Status = ''confirmed'', bk_CheckedInAt = '''', bk_CheckedOutAt = '''',
      bk_CreatedAt = env_now e, bk_UpdatedAt = env_now e\<rparr>"

definition CreateBooking ::
  "env \<Rightarrow> booking_input \<Rightarrow> accessService \<Rightarrow> (access_error, booking) result \<times> accessService" where
  "CreateBooking e inp s =
     (let t = trim_space (ki_TenantID inp); sp = trim_space (ki_SpaceID inp) in
      if t = '''' then (Inl TenantIDRequired, s)
      else if sp = '''' then (Inl BookingSpaceIDRequired, s)
      else if trim_space (ki_UserID inp) = '''' then (Inl BookingUserIDRequired, s)
      else if trim_space (ki_StartTime inp) = '''' then (Inl BookingStartTimeRequired, s)
      else if trim_space (ki_EndTime inp) = '''' then (Inl BookingEndTimeRequired, s)
      else
        (case parse_rfc3339 (trim_space (ki_StartTime inp)) of
           None \<Rightarrow> (Inl BookingStartTimeRequired, s)
         | Some startT \<Rightarrow>
             (case parse_rfc3339 (trim_space (ki_EndTime inp)) of
                None \<Rightarrow> (Inl BookingEndTimeRequired, s)
              | Some endT \<Rightarrow>
                  if \<not> endT > startT then (Inl BookingEndBeforeStart, s)
                  else
                    (case find (\<lambda>x. bs_ID x = sp \<and> bs_TenantID x = t) (ac_bookableSpaces s) of
                       None \<Rightarrow> (Inl BookableSpaceNotFound, s)
                     | Some space \<Rightarrow>
                         let n = overlapping t sp startT endT s in
                         if bs_CapacityMode space = ''single_occupancy'' \<and> n > 0
                           then (Inl BookingTimeConflict, s)
                         else if bs_CapacityMode space = ''limited_capacity'' \<and>
                                 bs_MaxCapacity space > 0 \<and> int n \<ge> bs_MaxCapacity space
                           then (Inl SpaceAtCapacity, s)
                         else
                           (case accessID e ''bkg_'' of
                              Inl err \<Rightarrow> (Inl err, s)
                            | Inr newID \<Rightarrow>
                                let r = new_booking e newID inp in
                                save_return e r (s\<lparr>ac_bookings := r # ac_bookings s\<rparr>))))))"

definition booking_statuses :: "string list" where
  "booking_statuses = [''confirmed'', ''checked_in'', ''completed'', ''cancelled'', ''no_show'']"

definition apply_booking_update ::
  "time \<Rightarrow> booking_update \<Rightarrow> booking \<Rightarrow> access_error option \<times> booking" where
  "apply_booking_update now inp r =
     (let st = map_option trim_space (ku_StartTime inp);
          et = map_option trim_space (ku_EndTime inp);
          status = map_option (\<lambda>x. to_lower (trim_space x)) (ku_Status inp);
          bad = (\<lambda>x. case x of None \<Rightarrow> False | Some v \<Rightarrow> parse_rfc3339 v = None);
          r1 = r\<lparr>bk_Title := get_or (bk_Title r) (map_option trim_space (ku_Title inp))\<rparr> in
      if bad st then (Some BookingStartTimeRequired, r1)
      else
        let r2 = r1\<lparr>bk_StartTime := get_or (bk_StartTime r1) st\<rparr> in
        if bad et then (Some BookingEndTimeRequired, r2)
        else
          let r3 = r2\<lparr>bk_EndTime := get_or (bk_EndTime r2) et\<rparr> in
          if (case status of None \<Rightarrow> False | Some x \<Rightarrow> x \<notin> set booking_statuses)
          then (Some BookingStatusInvalid, r3)
          else
            let r4 = r3\<lparr>bk_Status := get_or (bk_Status r3) status\<rparr> in
            if (case booking_span r4 of None \<Rightarrow> False | Some (a, b) \<Rightarrow> \<not> b > a)
            then (Some BookingEndBeforeStart, r4)
            else (None, r4\<lparr>bk_UpdatedAt := now\<rparr>))"

definition UpdateBooking ::
  "env \<Rightarrow> string \<Rightarrow> string \<Rightarrow> booking_update \<Rightarrow> accessService \<Rightarrow>
   (access_error, booking) result \<times> accessService" where
  "UpdateBooking e tenantID bookingID inp s =
     (case find_booking tenantID bookingID s of
        None \<Rightarrow> (Inl BookingNotFound, s)
      | Some i \<Rightarrow>
          (case apply_booking_update (env_now e) inp (ac_bookings s ! i) of
             (err, r) \<Rightarrow>
               let s1 = s\<lparr>ac_bookings := (ac_bookings s)[i := r]\<rparr> in
               (case err of Some er \<Rightarrow> (Inl er, s1) | None \<Rightarrow> save_return e r s1)))"

definition DeleteBooking ::
  "env \<Rightarrow> string \<Rightarrow> string \<Rightarrow> accessService \<Rightarrow> (access_error, unit) result \<times> accessService" where
  "DeleteBooking e tenantID bookingID s =
     (case find_booking tenantID bookingID s of
        None \<Rightarrow> (Inl BookingNotFound, s)
      | Some i \<Rightarrow> save_return e () (s\<lparr>ac_bookings := remove_at i (ac_bookings s)\<rparr>))"

text \<open>The inner loop over the spaces: change the first space of the booking.\<close>

definition with_space ::
  "booking \<Rightarrow> (bookableSpace \<Rightarrow> bookableSpace) \<Rightarrow> bookableSpace list \<Rightarrow> bookableSpace list" where
  "with_space b f spaces =
     (case find_idx (\<lambda>x. bs_ID x = bk_SpaceID b \<and> bs_TenantID x = bk_TenantID b) spaces of
        None \<Rightarrow> spaces | Some j \<Rightarrow> spaces[j := f (spaces ! j)])"

definition CheckInBooking ::
  "env \<Rightarrow> string \<Rightarrow> string \<Rightarrow> accessService \<Rightarrow> (access_error, booking) result \<times> accessService" where
  "CheckInBooking e tenantID bookingID s =
     (case find_booking tenantID bookingID s of
        None \<Rightarrow> (Inl BookingNotFound, s)
      | Some i \<Rightarrow>
          let b = ac_bookings s ! i;
              b' = b\<lparr>bk_Status := ''checked_in'', bk_CheckedInAt := format_rfc3339 (env_now e),
                     bk_UpdatedAt := env_now e\<rparr> in
          if bk_Status b = ''checked_in'' then (Inl BookingAlreadyCheckedIn, s)
          else save_return e b' (s\<lparr>ac_bookings := (ac_bookings s)[i := b'],
                 ac_bookableSpaces := with_space b' (\<lambda>x. x\<lparr>bs_CurrentOccupancy := bs_CurrentOccupancy x + 1,
                   bs_UpdatedAt := env_now e\<rparr>) (ac_bookableSpaces s)\<rparr>))"

definition CheckOutBooking ::
  "env \<Rightarrow> string \<Rightarrow> string \<Rightarrow> accessService \<Rightarrow> (access_error, booking) result \<times> accessService" where
  "CheckOutBooking e tenantID bookingID s =
     (case find_booking tenantID bookingID s of
        None \<Rightarrow> (Inl BookingNotFound, s)
      | Some i \<Rightarrow>
          let b = ac_bookings s ! i;
              b' = b\<lparr>bk_Status := ''completed'', bk_CheckedOutAt := format_rfc3339 (env_now e),
                     bk_UpdatedAt := env_now e\<rparr> in
          if bk_Status b \<noteq> ''checked_in'' then (Inl BookingNotCheckedIn, s)
          else save_return e b' (s\<lparr>ac_bookings := (ac_bookings s)[i := b'],
                 ac_bookableSpaces := with_space b' (\<lambda>x. x\<lparr>bs_CurrentOccupancy :=
                     (if bs_CurrentOccupancy x > 0 then bs_CurrentOccupancy x - 1 else bs_CurrentOccupancy x),
                   bs_UpdatedAt := env_now e\<rparr>) (ac_bookableSpaces s)\<rparr>))"

definition cleanup_keeps :: "time \<Rightarrow> booking \<Rightarrow> bool" where
  "cleanup_keeps olderThan b \<longleftrightarrow>
     \<not> (bk_Status b \<in> {''completed'', ''cancelled'', ''no_show''} \<and> bk_UpdatedAt b < olderThan)"

definition CleanupOldBookings :: "env \<Rightarrow> time \<Rightarrow> accessService \<Rightarrow> nat \<times> accessService" where
  "CleanupOldBookings e olderThan s =
     (let kept = filter (cleanup_keeps olderThan) (ac_bookings s);
          removed = length (ac_bookings s) - length kept in
      if removed = 0 then (0, s)
      else (removed, snd (persistLocked e (s\<lparr>ac_bookings := kept\<rparr>))))"

section \<open>Isolation\<close>

datatype desk_op =
    SpaceCreate space_input | SpaceUpdate string string space_update | SpaceDelete string string
  | BookingCreate booking_input | BookingUpdate string string booking_update
  | BookingDelete string string | CheckIn string string | CheckOut string string

fun desk_scope :: "desk_op \<Rightarrow> string" where
  "desk_scope (SpaceCreate inp) = trim_space (bi_TenantID inp)"
| "desk_scope (SpaceUpdate t i u) = t"
| "desk_scope (SpaceDelete t i) = t"
| "desk_scope (BookingCreate inp) = trim_space (ki_TenantID inp)"
| "desk_scope (BookingUpdate t i u) = t"
| "desk_scope (BookingDelete t i) = t"
| "desk_scope (CheckIn t i) = t"
| "desk_scope (CheckOut t i) = t"

fun desk_step :: "env \<Rightarrow> desk_op \<Rightarrow> accessService \<Rightarrow> accessService" where
  "desk_step e (SpaceCreate inp) s = snd (CreateBookableSpace e inp s)"
| "desk_step e (SpaceUpdate t i u) s = snd (UpdateBookableSpace e t i u s)"
| "desk_step e (SpaceDelete t i) s = snd (DeleteBookableSpace e t i s)"
| "desk_step e (BookingCreate inp) s = snd (CreateBooking e inp s)"
| "desk_step e (BookingUpdate t i u) s = snd (UpdateBooking e t i u s)"
| "desk_step e (BookingDelete t i) s = snd (DeleteBooking e t i s)"
| "desk_step e (CheckIn t i) s = snd (CheckInBooking e t i s)"
| "desk_step e (CheckOut t i) s = snd (CheckOutBooking e t i s)"

lemma find_booking_SomeD: "find_booking t b s = Some i \<Longrightarrow> i < length (ac_bookings s)"
  by (auto simp: find_booking_def dest: lookup_scan_SomeD)

lemma find_booking_tenant:
  "find_booking t b s = Some i \<Longrightarrow> t \<noteq> '''' \<Longrightarrow> bk_TenantID (ac_bookings s ! i) = t"
  by (auto simp: find_booking_def in_scope_nonempty dest: lookup_scan_SomeD)

lemma find_space_SomeD:
  "find_space t b s = Some i \<Longrightarrow> i < length (ac_bookableSpaces s)"
  "find_space t b s = Some i \<Longrightarrow> t \<noteq> '''' \<Longrightarrow> bs_TenantID (ac_bookableSpaces s ! i) = t"
  by (auto simp: find_space_def in_scope_nonempty dest: lookup_scan_SomeD)

lemma booking_update_tenant [simp]:
  "bs_TenantID (snd (apply_space_update now u r)) = bs_TenantID r"
  "bk_TenantID (snd (apply_booking_update now k b)) = bk_TenantID b"
  by (simp_all add: apply_space_update_def apply_booking_update_def Let_def split: option.splits)

lemma with_space_tenant:
  assumes "t \<noteq> bk_TenantID b" and "\<And>x. bs_TenantID (f x) = bs_TenantID x"
  shows "filter (\<lambda>r. bs_TenantID r = t) (with_space b f xs) = filter (\<lambda>r. bs_TenantID r = t) xs"
  using assms
  by (auto simp: with_space_def dest: find_idx_SomeD intro!: filter_update_other split: option.split)

interpretation space_isolation: tenant_isolated ac_bookableSpaces bs_TenantID desk_scope desk_step
proof
  fix op t e s
  assume "desk_scope op \<noteq> ''''" and "t \<noteq> desk_scope op"
  then show "filter (\<lambda>r. bs_TenantID r = t) (ac_bookableSpaces (desk_step e op s)) =
             filter (\<lambda>r. bs_TenantID r = t) (ac_bookableSpaces s)"
    by (cases op)
       (auto simp: CreateBookableSpace_def UpdateBookableSpace_def DeleteBookableSpace_def
         CreateBooking_def UpdateBooking_def DeleteBooking_def CheckInBooking_def CheckOutBooking_def
         Let_def case_prod_unfold find_space_SomeD find_booking_tenant
         intro!: filter_update_other filter_remove_at with_space_tenant
         split: option.splits sum.splits)
qed

interpretation booking_isolation: tenant_isolated ac_bookings bk_TenantID desk_scope desk_step
proof
  fix op t e s
  assume "desk_scope op \<noteq> ''''" and "t \<noteq> desk_scope op"
  then show "filter (\<lambda>r. bk_TenantID r = t) (ac_bookings (desk_step e op s)) =
             filter (\<lambda>r. bk_TenantID r = t) (ac_bookings s)"
    by (cases op)
       (auto simp: CreateBookableSpace_def UpdateBookableSpace_def DeleteBookableSpace_def
         CreateBooking_def UpdateBooking_def DeleteBooking_def CheckInBooking_def CheckOutBooking_def
         Let_def case_prod_unfold find_booking_SomeD find_booking_tenant new_booking_def
         intro!: filter_update_other filter_remove_at split: option.splits sum.splits)
qed

text \<open>The spaces and bookings of a tenant are untouched by any run of operations made for
  other tenants.\<close>

lemma bookings_isolated:
  assumes "\<And>e op. (e, op) \<in> set ops \<Longrightarrow> desk_scope op \<noteq> '''' \<and> desk_scope op \<noteq> t"
  shows "filter (\<lambda>r. bs_TenantID r = t) (ac_bookableSpaces (fold (\<lambda>(e, op). desk_step e op) ops s)) =
         filter (\<lambda>r. bs_TenantID r = t) (ac_bookableSpaces s) \<and>
         filter (\<lambda>r. bk_TenantID r = t) (ac_bookings (fold (\<lambda>(e, op). desk_step e op) ops s)) =
         filter (\<lambda>r. bk_TenantID r = t) (ac_bookings s)"
  by (rule conjI; rule space_isolation.run_isolated booking_isolation.run_isolated; rule assms)

section \<open>Exclusive use of a space\<close>

definition spans_disjoint :: "(time \<times> time) option \<Rightarrow> (time \<times> time) option \<Rightarrow> bool" where
  "spans_disjoint x y =
     (case (x, y) of (Some (a, b), Some (c, d)) \<Rightarrow> \<not> (a < d \<and> b > c) | _ \<Rightarrow> True)"

definition active_spans :: "string \<Rightarrow> string \<Rightarrow> accessService \<Rightarrow> (time \<times> time) option list" where
  "active_spans t sp s = map booking_span (filter (counts_for t sp) (ac_bookings s))"

text \<open>No two bookings that count for the space overlap.\<close>

definition exclusive :: "string \<Rightarrow> string \<Rightarrow> accessService \<Rightarrow> bool" where
  "exclusive t sp s \<longleftrightarrow> sorted_wrt spans_disjoint (active_spans t sp s)"

definition single_space :: "string \<Rightarrow> string \<Rightarrow> accessService \<Rightarrow> bool" where
  "single_space t sp s \<longleftrightarrow>
     (\<forall>x\<in>set (ac_bookableSpaces s). bs_ID x = sp \<and> bs_TenantID x = t \<longrightarrow>
        bs_CapacityMode x = ''single_occupancy'')"

text \<open>How many bookings hold the space at an instant, and the spaces of limited capacity.\<close>

definition covers :: "time \<Rightarrow> (time \<times> time) option \<Rightarrow> bool" where
  "covers tau x = (case x of None \<Rightarrow> False | Some (a, b) \<Rightarrow> a \<le> tau \<and> tau < b)"

definition held_at :: "string \<Rightarrow> string \<Rightarrow> time \<Rightarrow> accessService \<Rightarrow> nat" where
  "held_at t sp tau s = length (filter (covers tau) (active_spans t sp s))"

definition limited_space :: "string \<Rightarrow> string \<Rightarrow> int \<Rightarrow> accessService \<Rightarrow> bool" where
  "limited_space t sp m s \<longleftrightarrow>
     (\<forall>x\<in>set (ac_bookableSpaces s). bs_ID x = sp \<and> bs_TenantID x = t \<longrightarrow>
        bs_CapacityMode x = ''limited_capacity'' \<and> bs_MaxCapacity x = m)"

text \<open>What the front desk does: book, check in a confirmed booking, check out, close a
  booking (cancelled, no-show, completed), delete, clean up.  Failed calls are steps too.\<close>

inductive front_desk :: "accessService \<Rightarrow> accessService \<Rightarrow> bool" where
  book: "front_desk s (snd (CreateBooking e inp s))"
| check_in: "find_booking t bid s = Some i \<Longrightarrow> bk_Status (ac_bookings s ! i) = ''confirmed'' \<Longrightarrow>
    front_desk s (snd (CheckInBooking e t bid s))"
| check_out: "front_desk s (snd (CheckOutBooking e t bid s))"
| close: "x \<in> {''cancelled'', ''no_show'', ''completed''} \<Longrightarrow>
    front_desk s (snd (UpdateBooking e t bid
      \<lparr>ku_Title = title, ku_StartTime = None, ku_EndTime = None, ku_Status = Some x\<rparr> s))"
| delete: "front_desk s (snd (DeleteBooking e t bid s))"
| clean: "front_desk s (snd (CleanupOldBookings e older s))"

lemma sorted_wrt_subseq: "subseq xs ys \<Longrightarrow> sorted_wrt P ys \<Longrightarrow> sorted_wrt P xs"
proof (induction rule: list_emb.induct)
  case (list_emb_Nil ys)
  then show ?case by simp
next
  case (list_emb_Cons xs ys y)
  then show ?case by simp
next
  case (list_emb_Cons2 x y xs ys)
  then show ?case using list_emb_set [OF list_emb_Cons2.hyps(2)] by fastforce
qed

lemma subseq_remove_at: "subseq (remove_at i xs) xs"
proof -
  have "subseq (drop (Suc i) xs) (drop i xs)"
    using suffix_imp_subseq [OF suffix_drop [of 1 "drop i xs"]] by simp
  then have "subseq (take i xs @ drop (Suc i) xs) (take i xs @ drop i xs)"
    by (rule list_emb_append_mono [OF subseq_order.refl])
  then show ?thesis by (simp add: remove_at_def)
qed

lemma filter_update_out:
  assumes "i < length xs" and "\<not> P y"
  shows "subseq (filter P (xs[i := y])) (filter P xs)"
proof -
  have "filter P (xs[i := y]) = filter P (remove_at i xs)"
    using assms by (simp add: upd_conv_take_nth_drop remove_at_def)
  then show ?thesis using subseq_filter [OF subseq_remove_at] by metis
qed

lemma new_booking_span:
  "booking_span (new_booking e i inp) =
   (case (parse_rfc3339 (trim_space (ki_StartTime inp)), parse_rfc3339 (trim_space (ki_EndTime inp))) of
      (Some a, Some b) \<Rightarrow> Some (a, b) | _ \<Rightarrow> None)"
  by (simp add: booking_span_def new_booking_def)

lemma overlapping_zero:
  assumes "overlapping t sp a b s = 0" and "x \<in> set (active_spans t sp s)"
  shows "spans_disjoint (Some (a, b)) x"
  using assms
  by (auto simp: overlapping_def active_spans_def filter_empty_conv overlaps_def spans_disjoint_def
      split: option.splits)

lemma length_filter_mono:
  "(\<And>x. P x \<Longrightarrow> Q x) \<Longrightarrow> length (filter P xs) \<le> length (filter Q xs)"
  by (induction xs) (auto intro: le_SucI)

lemma overlapping_bounds_held:
  assumes "a \<le> tau" and "tau < b"
  shows "held_at t sp tau s \<le> overlapping t sp a b s"
proof -
  have "held_at t sp tau s =
      length (filter (\<lambda>x. counts_for t sp x \<and> covers tau (booking_span x)) (ac_bookings s))"
    by (simp add: held_at_def active_spans_def filter_map comp_def conj_commute)
  also have "\<dots> \<le> length (filter (\<lambda>x. counts_for t sp x \<and> overlaps a b x) (ac_bookings s))"
  proof -
    have "counts_for t sp x \<and> covers tau (booking_span x) \<Longrightarrow>
        counts_for t sp x \<and> overlaps a b x" for x
      using assms by (auto simp: covers_def overlaps_def split: option.splits)
    then show ?thesis by (rule length_filter_mono)
  qed
  finally show ?thesis by (simp add: overlapping_def)
qed

text \<open>\<open>CreateBooking\<close> leaves the bookings alone or adds one in front, for an existing space
  whose capacity rule holds.\<close>

lemma bookings_of_create:
  obtains (same) "ac_bookings (snd (CreateBooking e inp s)) = ac_bookings s"
  | (added) newID a b space where
      "ac_bookings (snd (CreateBooking e inp s)) = new_booking e newID inp # ac_bookings s"
      "booking_span (new_booking e newID inp) = Some (a, b)" "a < b"
      "space \<in> set (ac_bookableSpaces s)" "bs_ID space = trim_space (ki_SpaceID inp)"
      "bs_TenantID space = trim_space (ki_TenantID inp)"
      "bs_CapacityMode space = ''single_occupancy'' \<Longrightarrow>
         overlapping (trim_space (ki_TenantID inp)) (trim_space (ki_SpaceID inp)) a b s = 0"
      "bs_CapacityMode space = ''limited_capacity'' \<Longrightarrow> 0 < bs_MaxCapacity space \<Longrightarrow>
         int (overlapping (trim_space (ki_TenantID inp)) (trim_space (ki_SpaceID inp)) a b s)
           < bs_MaxCapacity space"
proof (cases "ac_bookings (snd (CreateBooking e inp s)) = ac_bookings s")
  case True
  then show ?thesis by (rule same)
next
  case False
  then obtain a b space newID where
    "parse_rfc3339 (trim_space (ki_StartTime inp)) = Some a"
    "parse_rfc3339 (trim_space (ki_EndTime inp)) = Some b" "a < b"
    "find (\<lambda>x. bs_ID x = trim_space (ki_SpaceID inp) \<and> bs_TenantID x = trim_space (ki_TenantID inp))
       (ac_bookableSpaces s) = Some space"
    "\<not> (bs_CapacityMode space = ''single_occupancy'' \<and>
        overlapping (trim_space (ki_TenantID inp)) (trim_space (ki_SpaceID inp)) a b s > 0)"
    "\<not> (bs_CapacityMode space = ''limited_capacity'' \<and> bs_MaxCapacity space > 0 \<and>
        int (overlapping (trim_space (ki_TenantID inp)) (trim_space (ki_SpaceID inp)) a b s)
          \<ge> bs_MaxCapacity space)"
    "ac_bookings (snd (CreateBooking e inp s)) = new_booking e newID inp # ac_bookings s"
    by (auto simp: CreateBooking_def Let_def split: if_splits option.splits sum.splits)
  then show ?thesis
    by (intro added [of newID a b space]) (auto simp: new_booking_span find_Some_iff in_set_conv_nth)
qed

lemma counts_for_new:
  "counts_for t sp (new_booking e newID inp) \<longleftrightarrow>
   trim_space (ki_SpaceID inp) = sp \<and> trim_space (ki_TenantID inp) = t"
  by (simp add: counts_for_def new_booking_def)

text \<open>The other steps only ever free intervals: the active intervals afterwards are a
  subsequence of those before.\<close>

lemma spans_check_in:
  assumes "find_booking u bid s = Some i" and "bk_Status (ac_bookings s ! i) = ''confirmed''"
  shows "active_spans t sp (snd (CheckInBooking e u bid s)) = active_spans t sp s"
proof -
  let ?b = "ac_bookings s ! i"
  let ?b' = "?b\<lparr>bk_Status := ''checked_in'', bk_CheckedInAt := format_rfc3339 (env_now e),
                bk_UpdatedAt := env_now e\<rparr>"
  have i: "i < length (ac_bookings s)" using assms(1) by (rule find_booking_SomeD)
  have st: "ac_bookings (snd (CheckInBooking e u bid s)) = (ac_bookings s)[i := ?b']"
    using assms by (simp add: CheckInBooking_def Let_def)
  have "counts_for t sp ?b' = counts_for t sp ?b" "booking_span ?b' = booking_span ?b"
    using assms(2) by (simp_all add: counts_for_def booking_span_def)
  then have "map booking_span (filter (counts_for t sp) ((ac_bookings s)[i := ?b'])) =
      map booking_span (filter (counts_for t sp) (ac_bookings s))"
    using i by (simp add: upd_conv_take_nth_drop)
      (metis (no_types, lifting) filter.simps(2) filter_append id_take_nth_drop list.simps(9) map_append)
  with st show ?thesis by (simp add: active_spans_def)
qed

lemma spans_update_out:
  assumes "i < length (ac_bookings s)" and "\<not> counts_for t sp b"
    and "ac_bookings s' = (ac_bookings s)[i := b]"
  shows "subseq (active_spans t sp s') (active_spans t sp s)"
  using assms filter_update_out [of i "ac_bookings s" "counts_for t sp" b]
  by (simp add: active_spans_def subseq_map)

lemma spans_check_out:
  "subseq (active_spans t sp (snd (CheckOutBooking e u bid s))) (active_spans t sp s)"
proof (cases "\<exists>i. find_booking u bid s = Some i \<and> bk_Status (ac_bookings s ! i) = ''checked_in''")
  case True
  then obtain i where i: "find_booking u bid s = Some i" "bk_Status (ac_bookings s ! i) = ''checked_in''"
    by blast
  let ?b = "(ac_bookings s ! i)\<lparr>bk_Status := ''completed'',
    bk_CheckedOutAt := format_rfc3339 (env_now e), bk_UpdatedAt := env_now e\<rparr>"
  have "ac_bookings (snd (CheckOutBooking e u bid s)) = (ac_bookings s)[i := ?b]"
    using i by (simp add: CheckOutBooking_def Let_def)
  then show ?thesis
    by (rule spans_update_out [OF find_booking_SomeD [OF i(1)], rotated]) (simp add: counts_for_def)
next
  case False
  then show ?thesis by (auto simp: CheckOutBooking_def Let_def split: option.split)
qed

lemma spans_close:
  assumes "x \<in> {''cancelled'', ''no_show'', ''completed''}"
  shows "subseq (active_spans t sp (snd (UpdateBooking e u bid
    \<lparr>ku_Title = title, ku_StartTime = None, ku_EndTime = None, ku_Status = Some x\<rparr> s)))
    (active_spans t sp s)"
proof (cases "find_booking u bid s")
  case None
  then show ?thesis by (simp add: UpdateBooking_def)
next
  case (Some i)
  let ?inp = "\<lparr>ku_Title = title, ku_StartTime = None, ku_EndTime = None, ku_Status = Some x\<rparr>"
  let ?b = "snd (apply_booking_update (env_now e) ?inp (ac_bookings s ! i))"
  have "to_lower (trim_space ''cancelled'') = ''cancelled''"
    "to_lower (trim_space ''no_show'') = ''no_show''"
    "to_lower (trim_space ''completed'') = ''completed''"
    by code_simp+
  then have "to_lower (trim_space x) = x" using assms by auto
  then have "bk_Status ?b = x"
    using assms by (auto simp: apply_booking_update_def Let_def get_or_def booking_statuses_def)
  then have out: "\<not> counts_for t sp ?b"
    using assms by (auto simp: counts_for_def)
  have "ac_bookings (snd (UpdateBooking e u bid ?inp s)) = (ac_bookings s)[i := ?b]"
    using Some by (simp add: UpdateBooking_def Let_def case_prod_unfold split: option.split)
  then show ?thesis
    by (rule spans_update_out [OF find_booking_SomeD [OF Some] out])
qed

lemma spans_delete:
  "subseq (active_spans t sp (snd (DeleteBooking e u bid s))) (active_spans t sp s)"
  by (simp add: DeleteBooking_def active_spans_def subseq_map subseq_filter subseq_remove_at
      split: option.split)

lemma spans_cleanup: "active_spans t sp (snd (CleanupOldBookings e older s)) = active_spans t sp s"
proof -
  have "counts_for t sp b \<Longrightarrow> cleanup_keeps older b" for b
    by (auto simp: counts_for_def cleanup_keeps_def)
  then have "filter (counts_for t sp) (filter (cleanup_keeps older) bs) = filter (counts_for t sp) bs" for bs
    by (auto simp: filter_filter intro: filter_cong)
  then show ?thesis
    by (simp add: CleanupOldBookings_def Let_def active_spans_def)
qed

lemma spans_step:
  assumes "front_desk s s'"
  shows "(\<exists>e inp. s' = snd (CreateBooking e inp s)) \<or>
         subseq (active_spans t sp s') (active_spans t sp s)"
  using assms
  by cases (auto simp: spans_check_in spans_check_out spans_delete spans_cleanup spans_close)

lemma exclusive_step:
  assumes "front_desk s s'" and "single_space t sp s" and "exclusive t sp s"
  shows "exclusive t sp s'"
  using spans_step [OF assms(1), of t sp]
proof
  assume "\<exists>e inp. s' = snd (CreateBooking e inp s)"
  then obtain e inp where s': "s' = snd (CreateBooking e inp s)" by blast
  show ?thesis
  proof (cases rule: bookings_of_create [of e inp s])
    case same
    with assms(3) s' show ?thesis by (simp add: exclusive_def active_spans_def)
  next
    case (added newID a b space)
    have "\<forall>x\<in>set (active_spans t sp s). spans_disjoint (Some (a, b)) x"
      if "counts_for t sp (new_booking e newID inp)"
      using that added(4-7) assms(2) overlapping_zero
      by (auto simp: single_space_def counts_for_new)
    with added(1,2) assms(3) s' show ?thesis
      by (simp add: exclusive_def active_spans_def)
  qed
next
  assume "subseq (active_spans t sp s') (active_spans t sp s)"
  with assms(3) show ?thesis by (auto simp: exclusive_def intro: sorted_wrt_subseq)
qed

lemma held_step:
  assumes "front_desk s s'" and "limited_space t sp m s" and "0 < m"
    and "int (held_at t sp tau s) \<le> m"
  shows "int (held_at t sp tau s') \<le> m"
  using spans_step [OF assms(1), of t sp]
proof
  assume "\<exists>e inp. s' = snd (CreateBooking e inp s)"
  then obtain e inp where s': "s' = snd (CreateBooking e inp s)" by blast
  show ?thesis
  proof (cases rule: bookings_of_create [of e inp s])
    case same
    with assms(4) s' show ?thesis by (simp add: held_at_def active_spans_def)
  next
    case (added newID a b space)
    have "int (held_at t sp tau s) < m"
      if "counts_for t sp (new_booking e newID inp)" and "covers tau (Some (a, b))"
    proof -
      have "int (overlapping t sp a b s) < m"
        using that(1) added(4-6,8) assms(2,3) by (auto simp: limited_space_def counts_for_new)
      moreover have "held_at t sp tau s \<le> overlapping t sp a b s"
        using that(2) by (intro overlapping_bounds_held) (simp_all add: covers_def)
      ultimately show ?thesis by linarith
    qed
    with added(1,2) assms(4) s' show ?thesis
      by (auto simp: held_at_def active_spans_def)
  qed
next
  assume "subseq (active_spans t sp s') (active_spans t sp s)"
  then have "subseq (filter (covers tau) (active_spans t sp s')) (filter (covers tau) (active_spans t sp s))"
    by (rule subseq_filter)
  then have "held_at t sp tau s' \<le> held_at t sp tau s"
    unfolding held_at_def by (rule list_emb_length)
  with assms(4) show ?thesis by linarith
qed

text \<open>The steps never change what a space is: only its occupancy and its time stamp.\<close>

definition space_kind :: "bookableSpace \<Rightarrow> string \<times> string \<times> string \<times> int" where
  "space_kind x = (bs_ID x, bs_TenantID x, bs_CapacityMode x, bs_MaxCapacity x)"

lemma with_space_kind:
  "(\<And>x. space_kind (f x) = space_kind x) \<Longrightarrow> map space_kind (with_space b f xs) = map space_kind xs"
  by (simp add: with_space_def map_update_same split: option.split)

lemma front_desk_kinds:
  assumes "front_desk s s'"
  shows "map space_kind (ac_bookableSpaces s') = map space_kind (ac_bookableSpaces s)"
  using assms
proof cases
  case (book e inp)
  then show ?thesis
    by (auto simp: CreateBooking_def Let_def split: if_splits option.splits sum.splits)
next
  case (check_in t bid i e)
  then show ?thesis by (simp add: CheckInBooking_def Let_def with_space_kind space_kind_def)
next
  case (check_out e t bid)
  then show ?thesis
    by (simp add: CheckOutBooking_def Let_def with_space_kind space_kind_def split: option.split)
next
  case (close x e t bid title)
  then show ?thesis
    by (simp add: UpdateBooking_def Let_def case_prod_unfold split: option.split)
next
  case (delete e t bid)
  then show ?thesis by (simp add: DeleteBooking_def split: option.split)
next
  case (clean e older)
  then show ?thesis by (simp add: CleanupOldBookings_def Let_def)
qed

lemma single_space_kinds:
  "single_space t sp s \<longleftrightarrow>
   (\<forall>k\<in>set (map space_kind (ac_bookableSpaces s)). fst k = sp \<and> fst (snd k) = t \<longrightarrow>
      fst (snd (snd k)) = ''single_occupancy'')"
  by (auto simp: single_space_def space_kind_def)

lemma limited_space_kinds:
  "limited_space t sp m s \<longleftrightarrow>
   (\<forall>k\<in>set (map space_kind (ac_bookableSpaces s)). fst k = sp \<and> fst (snd k) = t \<longrightarrow>
      fst (snd (snd k)) = ''limited_capacity'' \<and> snd (snd (snd k)) = m)"
  by (auto simp: limited_space_def space_kind_def)

section \<open>No double booking\<close>

text \<open>C35: At the front desk, two active bookings of a single-occupancy space never overlap in time: however
  bookings are created, checked in while they are confirmed, checked out, closed by an update, deleted and
  cleaned up, with every failing call and failing save included, as long as the spaces are not edited.
  The restriction is the code's: an update that moves a booking is not checked for conflicts
  (\<open>update_double_books\<close>), and a check-in also revives a cancelled booking (\<open>check_in_revives\<close>), whose time
  may have been given away.\<close>

theorem no_double_booking:
  assumes "front_desk\<^sup>*\<^sup>* s s'" and "single_space t sp s" and "exclusive t sp s"
  shows "exclusive t sp s'"
proof -
  from assms(1) have "single_space t sp s' \<and> exclusive t sp s'"
  proof (induction rule: rtranclp_induct)
    case base
    with assms show ?case by simp
  next
    case (step y z)
    then show ?case
      using front_desk_kinds [of y z] by (simp add: exclusive_step single_space_kinds)
  qed
  then show ?thesis by simp
qed

text \<open>A limited-capacity space is never held by more active bookings at one instant than
  its capacity, over any run of the same operations.\<close>

lemma capacity_respected:
  assumes "front_desk\<^sup>*\<^sup>* s s'" and "limited_space t sp m s" and "0 < m"
    and "\<forall>tau. int (held_at t sp tau s) \<le> m"
  shows "\<forall>tau. int (held_at t sp tau s') \<le> m"
proof -
  from assms(1) have "limited_space t sp m s' \<and> (\<forall>tau. int (held_at t sp tau s') \<le> m)"
  proof (induction rule: rtranclp_induct)
    case base
    with assms show ?case by simp
  next
    case (step y z)
    then show ?case
      using front_desk_kinds [of y z] held_step [OF step.hyps(2) _ assms(3)]
      by (simp add: limited_space_kinds)
  qed
  then show ?thesis by simp
qed

text \<open>A desk with one meeting room, for the concrete instances.\<close>

definition demo_room :: "string \<Rightarrow> int \<Rightarrow> bookableSpace" where
  "demo_room mode m =
     \<lparr>bs_ID = ''r1'', bs_TenantID = ''t1'', bs_Name = ''Room'', bs_Description = '''',
      bs_SpaceType = ''meeting_room'', bs_CapacityMode = mode, bs_MaxCapacity = m,
      bs_CurrentOccupancy = 0, bs_LockID = '''', bs_RequiresBooking = True, bs_Enabled = True,
      bs_CreatedAt = 0, bs_UpdatedAt = 0\<rparr>"

definition demo_desk :: "string \<Rightarrow> int \<Rightarrow> accessService" where
  "demo_desk mode m =
     \<lparr>ac_users = [], ac_guests = [], ac_roleAssignments = [], ac_groupLinks = [],
      ac_bookableSpaces = [demo_room mode m], ac_bookings = [], ac_userInvitationDeliveries = [], ac_userGroups = [], ac_policies = [], ac_temporaryAccess = [],
     ac_visitorPasses = [], ac_teams = [], ac_teamMemberships = [], ac_holidayCalendars = [],
      ac_schedules = [], ac_organizationSettings = Map.empty, ac_store = Store None\<rparr>"

definition demo_booking :: "string \<Rightarrow> string \<Rightarrow> booking_input" where
  "demo_booking a b =
     \<lparr>ki_TenantID = ''t1'', ki_SpaceID = ''r1'', ki_UserID = ''u1'', ki_UserName = '''',
      ki_Title = '''', ki_StartTime = a, ki_EndTime = b\<rparr>"

definition desk_env :: "string \<Rightarrow> env" where
  "desk_env r = \<lparr>env_now = 0, env_save_ok = True, env_rand = Some r\<rparr>"

definition two_bookings :: "string \<Rightarrow> int \<Rightarrow> accessService" where
  "two_bookings mode m =
     snd (CreateBooking (desk_env ''b2'')
            (demo_booking ''2026-03-02T11:00:00Z'' ''2026-03-02T12:00:00Z'')
       (snd (CreateBooking (desk_env ''b1'')
            (demo_booking ''2026-03-02T10:00:00Z'' ''2026-03-02T11:00:00Z'') (demo_desk mode m))))"

lemma two_bookings_run: "front_desk\<^sup>*\<^sup>* (demo_desk mode m) (two_bookings mode m)"
  unfolding two_bookings_def
  by (rule rtranclp.rtrancl_into_rtrancl, rule r_into_rtranclp, rule book, rule book)

theorem no_double_booking_witness:
  "exclusive ''t1'' ''r1'' (two_bookings ''single_occupancy'' 1) \<and>
   length (active_spans ''t1'' ''r1'' (two_bookings ''single_occupancy'' 1)) = 2"
proof
  show "exclusive ''t1'' ''r1'' (two_bookings ''single_occupancy'' 1)"
    by (rule no_double_booking [OF two_bookings_run])
       (simp_all add: single_space_def exclusive_def active_spans_def demo_desk_def demo_room_def)
  show "length (active_spans ''t1'' ''r1'' (two_bookings ''single_occupancy'' 1)) = 2"
    by code_simp
qed

lemma capacity_respected_instance:
  "\<forall>tau. int (held_at ''t1'' ''r1'' tau (two_bookings ''limited_capacity'' 1)) \<le> 1"
  by (rule capacity_respected [OF two_bookings_run])
     (simp_all add: limited_space_def held_at_def active_spans_def demo_desk_def demo_room_def)

text \<open>The rule is checked on creation only: moving a booking by \<open>UpdateBooking\<close> can put it on
  top of another one, and \<open>CheckInBooking\<close> revives a cancelled booking.\<close>

lemma update_double_books:
  "fst (UpdateBooking (desk_env ''x'') ''t1'' ''bkg_b2''
     \<lparr>ku_Title = None, ku_StartTime = Some ''2026-03-02T10:30:00Z'', ku_EndTime = None, ku_Status = None\<rparr>
     (two_bookings ''single_occupancy'' 1)) \<noteq> Inl BookingTimeConflict"
  "\<not> exclusive ''t1'' ''r1'' (snd (UpdateBooking (desk_env ''x'') ''t1'' ''bkg_b2''
     \<lparr>ku_Title = None, ku_StartTime = Some ''2026-03-02T10:30:00Z'', ku_EndTime = None, ku_Status = None\<rparr>
     (two_bookings ''single_occupancy'' 1)))"
  by code_simp+

lemma check_in_revives:
  assumes "find_booking t bid s = Some i" and "bk_Status (ac_bookings s ! i) = ''cancelled''"
  shows "bk_Status (ac_bookings (snd (CheckInBooking e t bid s)) ! i) = ''checked_in''"
  using assms by (auto simp: CheckInBooking_def Let_def dest: find_booking_SomeD)

lemma bookings_isolated_instance:
  "filter (\<lambda>r. bk_TenantID r = ''t1'') (ac_bookings (fold (\<lambda>(e, op). desk_step e op)
      [(desk_env ''a'', CheckIn ''t2'' ''bkg_b1''), (desk_env ''a'', BookingDelete ''t2'' ''bkg_b1'')]
      (two_bookings ''unlimited'' 0))) =
   filter (\<lambda>r. bk_TenantID r = ''t1'') (ac_bookings (two_bookings ''unlimited'' 0))"
  by (rule conjunct2 [OF bookings_isolated]) auto

end
