(* ===== verification/Gateway_State.thy ===== *)
theory Gateway_State
  imports MP_Prelude Go_Time Go_Bytes
begin

text \<open>
  \<open>internal/modules/gateway/service.go\<close>: the state of the gateway module (the gateways of all
  tenants with their devices and bound doors, the inventory of provisioned serial numbers,
  desired and applied configuration versions, event checkpoints, ingest totals, firmware tasks
  and revoked client certificates), the normalisation of inputs, and the searches, store and
  serial-number bookkeeping its operations share.
\<close>

section \<open>State\<close>

record rs485Config =
  gwc_BaudRate :: int
  gwc_Parity :: string
  gwc_StopBits :: int
  gwc_DeviceAddress :: int
  gwc_TimeoutMS :: int

record rs485Health =
  gwh_RetryCount :: int
  gwh_TimeoutCount :: int
  gwh_CollisionCount :: int
  gwh_ConsecutiveTimeouts :: int
  gwh_LastError :: string
  gwh_LastReportAt :: time

record rs485TelemetryReport =
  gwt_Retries :: int
  gwt_Timeouts :: int
  gwt_Collisions :: int
  gwt_LastError :: string
  gwt_ResetConsecutiveTimeouts :: bool

record gatewayDevice =
  gwd_ID :: string
  gwd_GatewayID :: string
  gwd_SerialNumber :: string
  gwd_Kind :: string
  gwd_Source :: string
  gwd_Protocol :: string
  gwd_RS485Config :: "rs485Config option"
  gwd_RS485Health :: "rs485Health option"
  gwd_Status :: string
  gwd_LastSeenAt :: time

record gateway =
  gw_ID :: string
  gw_TenantID :: string
  gw_SerialNumber :: string
  gw_BuildingID :: string
  gw_DeviceCapacity :: int
  gw_Devices :: "gatewayDevice list"
  gw_Status :: string
  gw_LastSeenAt :: time
  gw_BoundDoorIDs :: "string list"

record serialInventoryItem =
  gsi_ID :: string
  gsi_TenantID :: string
  gsi_SerialNumber :: string
  gsi_ProductType :: string
  gsi_Status :: string
  gsi_BatchCode :: string
  gsi_Source :: string
  gsi_ConsumedGatewayID :: string
  gsi_ConsumedAt :: "time option"
  gsi_CreatedAt :: time
  gsi_UpdatedAt :: time

record serialInventoryImportItem =
  gii_SerialNumber :: string
  gii_ProductType :: string
  gii_BatchCode :: string
  gii_Source :: string

record commandAck =
  gca_TaskID :: string
  gca_GatewayID :: string
  gca_Command :: string
  gca_Status :: string
  gca_CreatedAt :: time

record gatewayConfigState =
  gcs_GatewayID :: string
  gcs_DesiredVersion :: string
  gcs_DesiredUpdatedAt :: "time option"
  gcs_AppliedVersion :: string
  gcs_AppliedAt :: "time option"

record gatewayConfigSnapshot =
  gss_GatewayID :: string
  gss_TenantID :: string
  gss_DesiredVersion :: string
  gss_DesiredUpdatedAt :: "time option"
  gss_AppliedVersion :: string
  gss_AppliedAt :: "time option"
  gss_BoundDoorIDs :: "string list"
  gss_Devices :: "gatewayDevice list"

record gatewayEventCheckpoint =
  gec_GatewayID :: string
  gec_Queue :: string
  gec_CheckpointID :: string
  gec_LastRequestID :: string
  gec_AckedCount :: int
  gec_LastOccurredAt :: "time option"
  gec_UpdatedAt :: time

record gatewayQueueIngestTotal =
  gqt_GatewayID :: string
  gqt_Queue :: string
  gqt_IngestedTotal :: int
  gqt_UpdatedAt :: time

record gatewayOTATask =
  got_ID :: string
  got_GatewayID :: string
  got_TenantID :: string
  got_FirmwareVersion :: string
  got_FirmwareURL :: string
  got_FirmwareSHA256 :: string
  got_FirmwareSignature :: string
  got_Status :: string
  got_ErrorMessage :: string
  got_RequestedBy :: string
  got_UpdatedBy :: string
  got_CreatedAt :: time
  got_UpdatedAt :: time

record gatewayCertificateRevocation =
  gcr_ID :: string
  gcr_TenantID :: string
  gcr_GatewayID :: string
  gcr_SerialNumber :: string
  gcr_Reason :: string
  gcr_RevokedBy :: string
  gcr_RevokedAt :: "time option"
  gcr_Source :: string

record gateway_snapshot =
  gsn_Gateways :: "gateway list"
  gsn_SerialInventory :: "serialInventoryItem list"
  gsn_CertificateRevocations :: "gatewayCertificateRevocation list"
  gsn_ConfigStates :: "gatewayConfigState list"
  gsn_EventCheckpoints :: "gatewayEventCheckpoint list"
  gsn_QueueIngestTotals :: "gatewayQueueIngestTotal list"
  gsn_OTATasks :: "gatewayOTATask list"

record gatewayService =
  gr_gateways :: "gateway list"
  gr_serialInventory :: "serialInventoryItem list"
  gr_certificateRevocations :: "gatewayCertificateRevocation list"
  gr_configStates :: "gatewayConfigState list"
  gr_eventCheckpoints :: "gatewayEventCheckpoint list"
  gr_queueIngestTotals :: "gatewayQueueIngestTotal list"
  gr_otaTasks :: "gatewayOTATask list"
  gr_store :: "gateway_snapshot store"

text \<open>The errors, grouped by what they are about.\<close>

datatype serial_error =
    SerialNumberRequired | SerialNumberInvalid | GatewaySerialAlreadyRegistered
  | SerialNumberNotProvisioned | SerialNumberAlreadyConsumed | SerialNumberNotAvailable
  | SerialNumberTenantMismatch | SerialNumberProductTypeMismatch

datatype gateway_fault =
    GwTenantIDRequired | GatewayNotFound | GatewayIDRequired
  | GatewayStatusRequired | GatewayStatusInvalid | DoorIDRequired
  | ConfigVersionRequired | InvalidDeviceCapacity

datatype device_error =
    DeviceSerialRequired | DeviceIDRequired | DeviceSerialConflict
  | DeviceCapacityExceeded | DeviceNotFound | DeviceKindInvalid
  | DeviceSourceInvalid | DeviceStatusInvalid | DeviceProtocolInvalid
  | RS485ConfigInvalid | RS485ConfigProtocolMismatch | RS485TelemetryInvalid
  | RS485TelemetryProtocolMismatch | DeviceSerialNotProvisioned | DeviceSerialNotAvailable
  | DeviceSerialProductTypeMismatch

datatype inventory_error =
    InventoryRecordsRequired | InventoryProductTypeInvalid | InventoryStatusInvalid
  | InventoryTenantMismatch | InventoryProductTypeMismatch | InventoryNotFound
  | InventoryStatusTransitionInvalid | InventorySerialNumbersRequired

datatype queue_error =
    CheckpointRequired | CheckpointQueueRequired | CheckpointNotFound
  | CheckpointAckedCountInvalid | CheckpointAckedCountRegression | IngestTotalNotFound
  | IngestDeltaInvalid

datatype ota_error =
    OTATaskIDRequired | OTAFirmwareVersionRequired | OTAFirmwareURLRequired
  | OTAFirmwareSHA256Invalid | OTAFirmwareSignatureInvalid | OTATaskStatusInvalid
  | OTATaskNotFound

datatype cert_error =
    CertificateSerialRequired | CertificateSerialInvalid | CertificateSerialNotFound
  | CertificateSerialConflict

datatype gateway_error =
    SerialE serial_error | GatewayE gateway_fault | DeviceE device_error | InventoryE inventory_error
  | QueueE queue_error | OtaE ota_error | CertE cert_error
  | GatewayRandFailed | GatewayStoreFailed

section \<open>Normalisation\<close>

definition normalizeDeviceCapacity :: "int \<Rightarrow> (gateway_error, int) result" where
  "normalizeDeviceCapacity c =
     (if c = 0 then Inr 4 else if c = 4 \<or> c = 8 then Inr c else Inl (GatewayE InvalidDeviceCapacity))"

definition normalizeDeviceKind :: "string \<Rightarrow> (gateway_error, string) result" where
  "normalizeDeviceKind kind =
     (let k = to_lower (trim_space kind) in
      if k = '''' then Inr ''reader''
      else if k \<in> {''reader'', ''door_controller'', ''relay'', ''sensor'', ''legacy_reader'', ''legacy_controller''}
      then Inr k else Inl (DeviceE DeviceKindInvalid))"

definition normalizeDeviceSource :: "string \<Rightarrow> (gateway_error, string) result" where
  "normalizeDeviceSource source =
     (let x = to_lower (trim_space source) in
      if x = '''' then Inr ''mistypass_procured''
      else if x \<in> {''mistypass_procured'', ''legacy_integration''} then Inr x else Inl (DeviceE DeviceSourceInvalid))"

definition normalizeDeviceStatus :: "string \<Rightarrow> (gateway_error, string) result" where
  "normalizeDeviceStatus status =
     (let x = to_lower (trim_space status) in
      if x = '''' then Inr ''online''
      else if x \<in> {''online'', ''offline''} then Inr x else Inl (DeviceE DeviceStatusInvalid))"

definition normalizeSerialInventoryProductType :: "string \<Rightarrow> (gateway_error, string) result" where
  "normalizeSerialInventoryProductType productType =
     (let x = to_lower (trim_space productType) in
      if x \<in> {''gateway'', ''reader'', ''controller'', ''relay'', ''sensor''} then Inr x
      else Inl (InventoryE InventoryProductTypeInvalid))"

definition normalizeGatewayStatus :: "string \<Rightarrow> (gateway_error, string) result" where
  "normalizeGatewayStatus status =
     (let x = to_lower (trim_space status) in
      if x = '''' then Inl (GatewayE GatewayStatusRequired)
      else if x \<in> {''online'', ''offline'', ''disabled'', ''revoked''} then Inr x else Inl (GatewayE GatewayStatusInvalid))"

definition normalizeSerialInventoryStatus :: "string \<Rightarrow> (gateway_error, string) result" where
  "normalizeSerialInventoryStatus status =
     (let x = to_lower (trim_space status) in
      if x \<in> {''available'', ''consumed'', ''frozen'', ''scrapped''} then Inr x
      else Inl (InventoryE InventoryStatusInvalid))"

definition normalizeDeviceProtocol :: "string \<Rightarrow> string \<Rightarrow> string \<Rightarrow> (gateway_error, string) result" where
  "normalizeDeviceProtocol kind source protocol =
     (let p = to_lower (trim_space protocol) in
      if p = '''' then
        Inr (if source = ''legacy_integration'' \<or> kind = ''legacy_reader'' \<or> kind = ''legacy_controller''
             then ''wiegand_26'' else ''osdp_v2'')
      else if p \<in> {''wiegand_26'', ''wiegand_34'', ''osdp_v2'', ''ble'', ''rs485''} then Inr p
      else Inl (DeviceE DeviceProtocolInvalid))"

definition isSupportedRS485BaudRate :: "int \<Rightarrow> bool" where
  "isSupportedRS485BaudRate b \<longleftrightarrow> b \<in> {1200, 2400, 4800, 9600, 19200, 38400, 57600, 115200}"

definition or_default :: "int \<Rightarrow> int \<Rightarrow> int" where
  "or_default x d = (if x \<noteq> 0 then x else d)"

definition normalizeRS485Config ::
  "string \<Rightarrow> rs485Config option \<Rightarrow> (gateway_error, rs485Config option) result" where
  "normalizeRS485Config protocol cfg =
     (if protocol \<noteq> ''rs485'' then
        (case cfg of None \<Rightarrow> Inr None | Some _ \<Rightarrow> Inl (DeviceE RS485ConfigProtocolMismatch))
      else
        let d = \<lparr>gwc_BaudRate = 9600, gwc_Parity = ''none'', gwc_StopBits = 1, gwc_DeviceAddress = 1,
                 gwc_TimeoutMS = 800\<rparr>;
            nxt = (case cfg of
                     None \<Rightarrow> d
                   | Some c \<Rightarrow>
                       let parity = to_lower (trim_space (gwc_Parity c)) in
                       \<lparr>gwc_BaudRate = or_default (gwc_BaudRate c) 9600,
                        gwc_Parity = (if parity \<noteq> '''' then parity else ''none''),
                        gwc_StopBits = or_default (gwc_StopBits c) 1,
                        gwc_DeviceAddress = or_default (gwc_DeviceAddress c) 1,
                        gwc_TimeoutMS = or_default (gwc_TimeoutMS c) 800\<rparr>) in
        if \<not> isSupportedRS485BaudRate (gwc_BaudRate nxt) then Inl (DeviceE RS485ConfigInvalid)
        else if gwc_Parity nxt \<notin> {''none'', ''even'', ''odd''} then Inl (DeviceE RS485ConfigInvalid)
        else if gwc_StopBits nxt \<noteq> 1 \<and> gwc_StopBits nxt \<noteq> 2 then Inl (DeviceE RS485ConfigInvalid)
        else if gwc_DeviceAddress nxt < 1 \<or> gwc_DeviceAddress nxt > 247 then Inl (DeviceE RS485ConfigInvalid)
        else if gwc_TimeoutMS nxt < 100 \<or> gwc_TimeoutMS nxt > 5000 then Inl (DeviceE RS485ConfigInvalid)
        else Inr (Some nxt))"

definition normalizeRS485TelemetryReport ::
  "rs485TelemetryReport \<Rightarrow> (gateway_error, rs485TelemetryReport) result" where
  "normalizeRS485TelemetryReport r =
     (let nxt = r\<lparr>gwt_LastError := trim_space (gwt_LastError r)\<rparr> in
      if gwt_Retries nxt < 0 \<or> gwt_Timeouts nxt < 0 \<or> gwt_Collisions nxt < 0 then Inl (DeviceE RS485TelemetryInvalid)
      else if gwt_Retries nxt = 0 \<and> gwt_Timeouts nxt = 0 \<and> gwt_Collisions nxt = 0 \<and>
              gwt_LastError nxt = '''' \<and> \<not> gwt_ResetConsecutiveTimeouts nxt then Inl (DeviceE RS485TelemetryInvalid)
      else Inr nxt)"

definition serial_char :: "char \<Rightarrow> bool" where
  "serial_char c \<longleftrightarrow> c = CHR ''-'' \<or> (CHR ''A'' \<le> c \<and> c \<le> CHR ''Z'') \<or> (CHR ''0'' \<le> c \<and> c \<le> CHR ''9'')"

definition normalizeGatewaySerial :: "string \<Rightarrow> (gateway_error, string) result" where
  "normalizeGatewaySerial serialNumber =
     (let x = to_upper (trim_space serialNumber) in
      if x = '''' then Inl (SerialE SerialNumberRequired)
      else if length x < 9 \<or> length x > 64 then Inl (SerialE SerialNumberInvalid)
      else if take 6 x \<noteq> ''MP-GW-'' then Inl (SerialE SerialNumberInvalid)
      else if \<not> list_all serial_char x then Inl (SerialE SerialNumberInvalid)
      else Inr x)"

definition normalizeInventorySerial :: "string \<Rightarrow> string \<Rightarrow> (gateway_error, string) result" where
  "normalizeInventorySerial productType serialNumber =
     (let x = to_upper (trim_space serialNumber) in
      if productType = ''gateway'' then normalizeGatewaySerial serialNumber
      else if x = '''' then Inl (SerialE SerialNumberRequired)
      else if length x < 3 \<or> length x > 64 then Inl (SerialE SerialNumberInvalid)
      else if \<not> list_all serial_char x then Inl (SerialE SerialNumberInvalid)
      else Inr x)"

definition inventoryProductTypeByDeviceKind :: "string \<Rightarrow> string" where
  "inventoryProductTypeByDeviceKind kind =
     (if kind = ''reader'' \<or> kind = ''legacy_reader'' then ''reader''
      else if kind = ''door_controller'' \<or> kind = ''legacy_controller'' then ''controller''
      else if kind = ''relay'' then ''relay''
      else if kind = ''sensor'' then ''sensor''
      else ''reader'')"

definition normalizeGatewayOTATaskStatus :: "string \<Rightarrow> (gateway_error, string) result" where
  "normalizeGatewayOTATaskStatus status =
     (let x = to_lower (trim_space status) in
      if x \<in> {''queued'', ''dispatching'', ''succeeded'', ''failed'', ''canceled''} then Inr x
      else Inl (OtaE OTATaskStatusInvalid))"

definition is_hex_char :: "char \<Rightarrow> bool" where
  "is_hex_char c \<longleftrightarrow> (CHR ''0'' \<le> c \<and> c \<le> CHR ''9'') \<or> (CHR ''a'' \<le> c \<and> c \<le> CHR ''f'') \<or>
     (CHR ''A'' \<le> c \<and> c \<le> CHR ''F'')"

definition isValidSHA256Hex :: "string \<Rightarrow> bool" where
  "isValidSHA256Hex v \<longleftrightarrow> length v = 64 \<and> list_all is_hex_char v"

definition isValidEd25519SignatureHex :: "string \<Rightarrow> bool" where
  "isValidEd25519SignatureHex v \<longleftrightarrow> length v = 128 \<and> list_all is_hex_char v"

definition tail :: "string \<Rightarrow> nat \<Rightarrow> string" where
  "tail v n = drop (length v - n) v"

definition gateway_id_of :: "string \<Rightarrow> string option \<Rightarrow> (gateway_error, string) result" where
  "gateway_id_of pre r = (case r of None \<Rightarrow> Inl GatewayRandFailed | Some h \<Rightarrow> Inr (pre @ h))"

section \<open>Store and searches\<close>

definition gateway_snapshot_of :: "gatewayService \<Rightarrow> gateway_snapshot" where
  "gateway_snapshot_of s =
     \<lparr>gsn_Gateways = gr_gateways s, gsn_SerialInventory = gr_serialInventory s,
      gsn_CertificateRevocations = gr_certificateRevocations s, gsn_ConfigStates = gr_configStates s,
      gsn_EventCheckpoints = gr_eventCheckpoints s, gsn_QueueIngestTotals = gr_queueIngestTotals s,
      gsn_OTATasks = gr_otaTasks s\<rparr>"

definition persistLocked_gateway :: "env \<Rightarrow> gatewayService \<Rightarrow> bool \<times> gatewayService" where
  "persistLocked_gateway e s =
     (case store_save e (gateway_snapshot_of s) (gr_store s) of (ok, st) \<Rightarrow> (ok, s\<lparr>gr_store := st\<rparr>))"

definition gateway_return ::
  "env \<Rightarrow> 'a \<Rightarrow> gatewayService \<Rightarrow> (gateway_error, 'a) result \<times> gatewayService" where
  "gateway_return e v s =
     (case persistLocked_gateway e s of
        (True, s') \<Rightarrow> (Inr v, s') | (False, s') \<Rightarrow> (Inl GatewayStoreFailed, s'))"

text \<open>The loop shared by the operations on one gateway: the first gateway with the identifier,
  refused when it belongs to another tenant than the one asked for.\<close>

definition find_gateway :: "string \<Rightarrow> string \<Rightarrow> gatewayService \<Rightarrow> nat option" where
  "find_gateway tenantID gwID s = lookup_strict gw_ID gw_TenantID (trim_space tenantID) gwID (gr_gateways s)"

definition set_gateway :: "nat \<Rightarrow> gateway \<Rightarrow> gatewayService \<Rightarrow> gatewayService" where
  "set_gateway i g s = s\<lparr>gr_gateways := (gr_gateways s)[i := g]\<rparr>"

definition touch_gateway :: "nat \<Rightarrow> time \<Rightarrow> gatewayService \<Rightarrow> gatewayService" where
  "touch_gateway i now s = set_gateway i ((gr_gateways s ! i)\<lparr>gw_LastSeenAt := now\<rparr>) s"

definition existsGateway :: "string \<Rightarrow> string \<Rightarrow> gatewayService \<Rightarrow> bool" where
  "existsGateway tenantID gatewayID s \<longleftrightarrow> find_gateway tenantID gatewayID s \<noteq> None"

definition findSerialInventoryIndexLocked :: "string \<Rightarrow> gatewayService \<Rightarrow> nat option" where
  "findSerialInventoryIndexLocked serial s =
     find_idx (\<lambda>x. equal_fold (gsi_SerialNumber x) serial) (gr_serialInventory s)"

definition set_serial :: "nat \<Rightarrow> serialInventoryItem \<Rightarrow> gatewayService \<Rightarrow> gatewayService" where
  "set_serial i x s = s\<lparr>gr_serialInventory := (gr_serialInventory s)[i := x]\<rparr>"

definition findConfigStateIndexLocked :: "string \<Rightarrow> gatewayService \<Rightarrow> nat option" where
  "findConfigStateIndexLocked gatewayID s =
     (if trim_space gatewayID = '''' then None
      else find_idx (\<lambda>c. gcs_GatewayID c = trim_space gatewayID) (gr_configStates s))"

definition findEventCheckpointIndexLocked :: "string \<Rightarrow> string \<Rightarrow> gatewayService \<Rightarrow> nat option" where
  "findEventCheckpointIndexLocked gatewayID queue s =
     (if trim_space gatewayID = '''' \<or> trim_space queue = '''' then None
      else find_idx (\<lambda>c. gec_GatewayID c = trim_space gatewayID \<and> gec_Queue c = trim_space queue)
             (gr_eventCheckpoints s))"

definition findQueueIngestTotalIndexLocked :: "string \<Rightarrow> string \<Rightarrow> gatewayService \<Rightarrow> nat option" where
  "findQueueIngestTotalIndexLocked gatewayID queue s =
     (if trim_space gatewayID = '''' \<or> trim_space queue = '''' then None
      else find_idx (\<lambda>c. gqt_GatewayID c = trim_space gatewayID \<and> gqt_Queue c = trim_space queue)
             (gr_queueIngestTotals s))"

definition findOTATaskIndexLocked :: "string \<Rightarrow> string \<Rightarrow> gatewayService \<Rightarrow> nat option" where
  "findOTATaskIndexLocked taskID gatewayID s =
     (if trim_space taskID = '''' \<or> trim_space gatewayID = '''' then None
      else find_idx (\<lambda>x. got_ID x = trim_space taskID \<and> got_GatewayID x = trim_space gatewayID)
             (gr_otaTasks s))"

section \<open>Serial numbers\<close>

definition applySerialInventoryStatusTransition ::
  "serialInventoryItem \<Rightarrow> string \<Rightarrow> string \<Rightarrow> time \<Rightarrow> (gateway_error, serialInventoryItem) result" where
  "applySerialInventoryStatusTransition item nextStatus consumedGatewayID now =
     (let current = trim_space (gsi_Status item) in
      if current = nextStatus then Inr (item\<lparr>gsi_UpdatedAt := now\<rparr>)
      else if nextStatus = ''available'' then
        (if current = ''scrapped'' then Inl (InventoryE InventoryStatusTransitionInvalid)
         else Inr (item\<lparr>gsi_Status := ''available'', gsi_ConsumedGatewayID := '''', gsi_ConsumedAt := None,
                        gsi_UpdatedAt := now\<rparr>))
      else if nextStatus = ''consumed'' then
        (if current = ''scrapped'' then Inl (InventoryE InventoryStatusTransitionInvalid)
         else Inr (item\<lparr>gsi_Status := ''consumed'',
                gsi_ConsumedGatewayID := (if trim_space consumedGatewayID \<noteq> '''' then trim_space consumedGatewayID
                                          else gsi_ConsumedGatewayID item),
                gsi_ConsumedAt := (case gsi_ConsumedAt item of None \<Rightarrow> Some now | Some x \<Rightarrow> Some x),
                gsi_UpdatedAt := now\<rparr>))
      else if nextStatus = ''frozen'' then
        (if current = ''scrapped'' then Inl (InventoryE InventoryStatusTransitionInvalid)
         else Inr (item\<lparr>gsi_Status := ''frozen'', gsi_UpdatedAt := now\<rparr>))
      else if nextStatus = ''scrapped'' then
        Inr (item\<lparr>gsi_Status := ''scrapped'', gsi_ConsumedGatewayID := '''', gsi_ConsumedAt := None,
                  gsi_UpdatedAt := now\<rparr>)
      else Inl (InventoryE InventoryStatusInvalid))"

definition releaseSerialInventoryLocked :: "string \<Rightarrow> string \<Rightarrow> time \<Rightarrow> gatewayService \<Rightarrow> gatewayService" where
  "releaseSerialInventoryLocked serial tenantID now s =
     (case findSerialInventoryIndexLocked serial s of
        None \<Rightarrow> s
      | Some i \<Rightarrow>
          if gsi_TenantID (gr_serialInventory s ! i) \<noteq> tenantID then s
          else
            (case applySerialInventoryStatusTransition (gr_serialInventory s ! i) ''available'' '''' now of
               Inl _ \<Rightarrow> s | Inr x \<Rightarrow> set_serial i x s))"

definition consumed :: "string \<Rightarrow> time \<Rightarrow> serialInventoryItem \<Rightarrow> serialInventoryItem" where
  "consumed gwID now x =
     x\<lparr>gsi_Status := ''consumed'', gsi_ConsumedGatewayID := gwID, gsi_ConsumedAt := Some now, gsi_UpdatedAt := now\<rparr>"

definition consumeGatewaySerialLocked ::
  "time \<Rightarrow> string \<Rightarrow> string \<Rightarrow> string \<Rightarrow> gatewayService \<Rightarrow> (gateway_error, gatewayService) result" where
  "consumeGatewaySerialLocked now serial tenantID gwID s =
     (case findSerialInventoryIndexLocked serial s of
        None \<Rightarrow> Inl (SerialE SerialNumberNotProvisioned)
      | Some i \<Rightarrow>
          let x = gr_serialInventory s ! i in
          if gsi_TenantID x \<noteq> tenantID then Inl (SerialE SerialNumberTenantMismatch)
          else if gsi_ProductType x \<noteq> ''gateway'' then Inl (SerialE SerialNumberProductTypeMismatch)
          else if gsi_Status x = ''available'' then Inr (set_serial i (consumed gwID now x) s)
          else if gsi_Status x = ''consumed'' then Inl (SerialE SerialNumberAlreadyConsumed)
          else Inl (SerialE SerialNumberNotAvailable))"

definition consumeDeviceSerialLocked ::
  "time \<Rightarrow> string \<Rightarrow> string \<Rightarrow> string \<Rightarrow> string \<Rightarrow> string \<Rightarrow> gatewayService \<Rightarrow>
   (gateway_error, gatewayService) result" where
  "consumeDeviceSerialLocked now serial tenantID gwID kind source s =
     (if source \<noteq> ''mistypass_procured'' then Inr s
      else
        (case findSerialInventoryIndexLocked serial s of
           None \<Rightarrow> Inl (DeviceE DeviceSerialNotProvisioned)
         | Some i \<Rightarrow>
             let x = gr_serialInventory s ! i in
             if gsi_TenantID x \<noteq> tenantID then Inl (SerialE SerialNumberTenantMismatch)
             else if gsi_ProductType x \<noteq> inventoryProductTypeByDeviceKind kind
               then Inl (DeviceE DeviceSerialProductTypeMismatch)
             else if gsi_Status x = ''available'' then Inr (set_serial i (consumed gwID now x) s)
             else if gsi_Status x = ''consumed'' then
               (if gsi_ConsumedGatewayID x \<noteq> '''' \<and> gsi_ConsumedGatewayID x \<noteq> gwID
                then Inl (DeviceE DeviceSerialConflict)
                else Inr (set_serial i (x\<lparr>gsi_UpdatedAt := now,
                       gsi_ConsumedGatewayID := (if gsi_ConsumedGatewayID x = '''' then gwID else gsi_ConsumedGatewayID x),
                       gsi_ConsumedAt := (case gsi_ConsumedAt x of None \<Rightarrow> Some now | Some y \<Rightarrow> Some y)\<rparr>) s))
             else Inl (DeviceE DeviceSerialNotAvailable)))"

section \<open>Back-filling the inventory\<close>

definition serialInventorySeedID :: "string \<Rightarrow> string \<Rightarrow> string" where
  "serialInventorySeedID serial gwID =
     (let base = to_lower (trim_space (serial @ ''-'' @ gwID)) in
      if base = '''' then ''siv_seed_empty''
      else ''siv_seed_'' @ take 42 (hex_encode (bytes_of base)))"

definition append_consumed ::
  "time \<Rightarrow> string \<Rightarrow> string \<Rightarrow> string \<Rightarrow> string \<Rightarrow> time \<Rightarrow> serialInventoryItem list \<Rightarrow> serialInventoryItem list" where
  "append_consumed now tenantID serialNumber productType gwID consumedAt items =
     (let serial = to_upper (trim_space serialNumber); ts = (if is_zero consumedAt then now else consumedAt) in
      if serial = '''' \<or> serial \<in> gsi_SerialNumber ` set items then items
      else items @ [\<lparr>gsi_ID = serialInventorySeedID serial gwID, gsi_TenantID = trim_space tenantID,
        gsi_SerialNumber = serial, gsi_ProductType = productType, gsi_Status = ''consumed'',
        gsi_BatchCode = ''legacy-seed'', gsi_Source = ''seed'', gsi_ConsumedGatewayID = trim_space gwID,
        gsi_ConsumedAt = Some ts, gsi_CreatedAt = ts, gsi_UpdatedAt = ts\<rparr>])"

definition serialInventoryFromGateways :: "time \<Rightarrow> gateway list \<Rightarrow> serialInventoryItem list" where
  "serialInventoryFromGateways now gs =
     fold (\<lambda>g items.
        fold (\<lambda>d items.
            if gwd_Source d \<noteq> ''mistypass_procured'' then items
            else append_consumed now (gw_TenantID g) (gwd_SerialNumber d)
                   (inventoryProductTypeByDeviceKind (gwd_Kind d)) (gw_ID g) (gwd_LastSeenAt d) items)
          (gw_Devices g)
          (append_consumed now (gw_TenantID g) (gw_SerialNumber g) ''gateway'' (gw_ID g) (gw_LastSeenAt g) items))
       gs []"

definition load_gateway :: "gateway_snapshot \<Rightarrow> gatewayService \<Rightarrow> gatewayService" where
  "load_gateway snap s =
     s\<lparr>gr_gateways := gsn_Gateways snap, gr_serialInventory := gsn_SerialInventory snap,
       gr_certificateRevocations := gsn_CertificateRevocations snap, gr_configStates := gsn_ConfigStates snap,
       gr_eventCheckpoints := gsn_EventCheckpoints snap, gr_queueIngestTotals := gsn_QueueIngestTotals snap,
       gr_otaTasks := gsn_OTATasks snap\<rparr>"

definition restoreFromStateStore_gateway :: "env \<Rightarrow> gatewayService \<Rightarrow> bool \<times> gatewayService" where
  "restoreFromStateStore_gateway e s =
     (case gr_store s of
        NoStore \<Rightarrow> (True, s)
      | Store None \<Rightarrow> persistLocked_gateway e s
      | Store (Some snap) \<Rightarrow>
          if gsn_SerialInventory snap = [] then
            persistLocked_gateway e
              (load_gateway (snap\<lparr>gsn_SerialInventory := serialInventoryFromGateways (env_now e) (gsn_Gateways snap)\<rparr>) s)
          else (True, load_gateway snap s))"

end
