(* ===== verification/Gateway_Registry.thy ===== *)
theory Gateway_Registry
  imports Gateway_State
begin

text \<open>
  \<open>internal/modules/gateway/service.go\<close>: registration of gateways and devices, door bindings,
  telemetry, the serial-number inventory.  The invariant says that serial numbers are unique,
  capacities are respected and every device belongs to its gateway.
\<close>

section \<open>Gateways\<close>

definition List_gateway :: "string \<Rightarrow> gatewayService \<Rightarrow> gateway list" where
  "List_gateway tenantID s = list_scoped gw_TenantID (trim_space tenantID) (gr_gateways s)"

definition FindGatewayByID :: "string \<Rightarrow> string \<Rightarrow> gatewayService \<Rightarrow> gateway option" where
  "FindGatewayByID tenantID gatewayID s =
     (if trim_space gatewayID = '''' then None
      else find (\<lambda>g. gw_ID g = trim_space gatewayID \<and> in_scope (trim_space tenantID) (gw_TenantID g)) (gr_gateways s))"

definition FindGatewayByDoorID :: "string \<Rightarrow> string \<Rightarrow> gatewayService \<Rightarrow> gateway option" where
  "FindGatewayByDoorID tenantID doorID s =
     (if trim_space doorID = '''' then None
      else find (\<lambda>g. in_scope (trim_space tenantID) (gw_TenantID g) \<and> trim_space doorID \<in> set (gw_BoundDoorIDs g))
             (gr_gateways s))"

definition UpdateGatewayStatus ::
  "env \<Rightarrow> string \<Rightarrow> string \<Rightarrow> string \<Rightarrow> gatewayService \<Rightarrow> (gateway_error, gateway) result \<times> gatewayService" where
  "UpdateGatewayStatus e tenantID gatewayID status s =
     (let gwID = trim_space gatewayID in
      if gwID = '''' then (Inl (GatewayE GatewayIDRequired), s)
      else
        (case normalizeGatewayStatus status of
           Inl err \<Rightarrow> (Inl err, s)
         | Inr st \<Rightarrow>
             (case find_gateway tenantID gwID s of
                None \<Rightarrow> (Inl (GatewayE GatewayNotFound), s)
              | Some i \<Rightarrow>
                  let g = (gr_gateways s ! i)\<lparr>gw_Status := st, gw_LastSeenAt := env_now e\<rparr> in
                  gateway_return e g (set_gateway i g s))))"

definition new_gateway :: "env \<Rightarrow> string \<Rightarrow> string \<Rightarrow> string \<Rightarrow> string \<Rightarrow> int \<Rightarrow> gateway" where
  "new_gateway e newID tenantID serial buildingID capacity =
     \<lparr>gw_ID = newID, gw_TenantID = tenantID, gw_SerialNumber = serial, gw_BuildingID = trim_space buildingID,
      gw_DeviceCapacity = capacity, gw_Devices = [], gw_Status = ''online'', gw_LastSeenAt = env_now e,
      gw_BoundDoorIDs = []\<rparr>"

definition Register ::
  "env \<Rightarrow> string \<Rightarrow> string \<Rightarrow> string \<Rightarrow> int \<Rightarrow> gatewayService \<Rightarrow> (gateway_error, gateway) result \<times> gatewayService" where
  "Register e serialNumber tenantID buildingID deviceCapacity s =
     (if trim_space serialNumber = '''' then (Inl (SerialE SerialNumberRequired), s)
      else
        (case normalizeGatewaySerial serialNumber of
           Inl err \<Rightarrow> (Inl err, s)
         | Inr serial \<Rightarrow>
             if trim_space tenantID = '''' then (Inl (GatewayE GwTenantIDRequired), s)
             else
               (case normalizeDeviceCapacity deviceCapacity of
                  Inl err \<Rightarrow> (Inl err, s)
                | Inr capacity \<Rightarrow>
                    (case gateway_id_of ''gw_'' (env_rand e) of
                       Inl err \<Rightarrow> (Inl err, s)
                     | Inr newID \<Rightarrow>
                         if list_ex (\<lambda>g. equal_fold (gw_SerialNumber g) serial) (gr_gateways s)
                           then (Inl (SerialE GatewaySerialAlreadyRegistered), s)
                         else
                           (case consumeGatewaySerialLocked (env_now e) serial (trim_space tenantID) newID s of
                              Inl err \<Rightarrow> (Inl err, s)
                            | Inr s1 \<Rightarrow>
                                let g = new_gateway e newID (trim_space tenantID) serial buildingID capacity in
                                gateway_return e g (s1\<lparr>gr_gateways := gr_gateways s1 @ [g]\<rparr>))))))"

definition removeGatewayRuntimeStateLocked :: "string \<Rightarrow> gatewayService \<Rightarrow> gatewayService" where
  "removeGatewayRuntimeStateLocked gatewayID s =
     (let g = trim_space gatewayID in
      if g = '''' then s
      else s\<lparr>gr_configStates := filter (\<lambda>c. gcs_GatewayID c \<noteq> g) (gr_configStates s),
             gr_eventCheckpoints := filter (\<lambda>c. gec_GatewayID c \<noteq> g) (gr_eventCheckpoints s),
             gr_queueIngestTotals := filter (\<lambda>c. gqt_GatewayID c \<noteq> g) (gr_queueIngestTotals s),
             gr_otaTasks := filter (\<lambda>x. got_GatewayID x \<noteq> g) (gr_otaTasks s)\<rparr>)"

text \<open>The serials a gateway gives back: its own and those of the procured devices.\<close>

definition release_devices :: "time \<Rightarrow> gateway \<Rightarrow> gatewayService \<Rightarrow> gatewayService" where
  "release_devices now g s =
     fold (\<lambda>d s. if gwd_Source d = ''mistypass_procured''
                 then releaseSerialInventoryLocked (gwd_SerialNumber d) (gw_TenantID g) now s else s)
       (gw_Devices g) s"

definition Deassign ::
  "env \<Rightarrow> string \<Rightarrow> string \<Rightarrow> gatewayService \<Rightarrow> (gateway_error, gateway) result \<times> gatewayService" where
  "Deassign e tenantID gatewayID s =
     (let gwID = trim_space gatewayID in
      if gwID = '''' then (Inl (GatewayE GatewayIDRequired), s)
      else
        (case find_gateway tenantID gwID s of
           None \<Rightarrow> (Inl (GatewayE GatewayNotFound), s)
         | Some i \<Rightarrow>
             let removed = gr_gateways s ! i;
                 s1 = releaseSerialInventoryLocked (gw_SerialNumber removed) (gw_TenantID removed) (env_now e) s;
                 s2 = release_devices (env_now e) removed s1;
                 s3 = s2\<lparr>gr_gateways := remove_at i (gr_gateways s2)\<rparr> in
             gateway_return e removed (removeGatewayRuntimeStateLocked gwID s3)))"

definition BindDoor ::
  "env \<Rightarrow> string \<Rightarrow> string \<Rightarrow> string \<Rightarrow> gatewayService \<Rightarrow> (gateway_error, gateway) result \<times> gatewayService" where
  "BindDoor e tenantID gatewayID doorID s =
     (let gwID = trim_space gatewayID; d = trim_space doorID in
      if gwID = '''' then (Inl (GatewayE GatewayIDRequired), s)
      else if d = '''' then (Inl (GatewayE DoorIDRequired), s)
      else
        (case find_gateway tenantID gwID s of
           None \<Rightarrow> (Inl (GatewayE GatewayNotFound), s)
         | Some i \<Rightarrow>
             let old = gr_gateways s ! i;
                 g = old\<lparr>gw_BoundDoorIDs := gw_BoundDoorIDs old @ [d], gw_LastSeenAt := env_now e\<rparr> in
             if d \<in> set (gw_BoundDoorIDs old) then (Inr old, s)
             else gateway_return e g (set_gateway i g s)))"

definition UnbindDoor ::
  "env \<Rightarrow> string \<Rightarrow> string \<Rightarrow> string \<Rightarrow> gatewayService \<Rightarrow> (gateway_error, gateway) result \<times> gatewayService" where
  "UnbindDoor e tenantID gatewayID doorID s =
     (let gwID = trim_space gatewayID; d = trim_space doorID in
      if gwID = '''' then (Inl (GatewayE GatewayIDRequired), s)
      else if d = '''' then (Inl (GatewayE DoorIDRequired), s)
      else
        (case find_gateway tenantID gwID s of
           None \<Rightarrow> (Inl (GatewayE GatewayNotFound), s)
         | Some i \<Rightarrow>
             let old = gr_gateways s ! i;
                 g = old\<lparr>gw_BoundDoorIDs := filter (\<lambda>x. x \<noteq> d) (gw_BoundDoorIDs old), gw_LastSeenAt := env_now e\<rparr> in
             gateway_return e g (set_gateway i g s)))"

section \<open>Devices\<close>

text \<open>What a device registration asks for, after normalisation.\<close>

record device_request =
  dq_Kind :: string
  dq_Source :: string
  dq_Status :: string
  dq_Protocol :: string
  dq_RS485Config :: "rs485Config option"

definition normalize_device ::
  "string \<Rightarrow> string \<Rightarrow> string \<Rightarrow> string \<Rightarrow> rs485Config option \<Rightarrow> (gateway_error, device_request) result" where
  "normalize_device kind source status protocol cfg =
     (case normalizeDeviceKind kind of
        Inl err \<Rightarrow> Inl err
      | Inr k \<Rightarrow>
          (case normalizeDeviceSource source of
             Inl err \<Rightarrow> Inl err
           | Inr src \<Rightarrow>
               (case normalizeDeviceStatus status of
                  Inl err \<Rightarrow> Inl err
                | Inr st \<Rightarrow>
                    (case normalizeDeviceProtocol k src protocol of
                       Inl err \<Rightarrow> Inl err
                     | Inr p \<Rightarrow>
                         (case normalizeRS485Config p cfg of
                            Inl err \<Rightarrow> Inl err
                          | Inr c \<Rightarrow> Inr \<lparr>dq_Kind = k, dq_Source = src, dq_Status = st, dq_Protocol = p,
                                         dq_RS485Config = c\<rparr>)))))"

definition serial_elsewhere :: "string \<Rightarrow> string \<Rightarrow> gatewayService \<Rightarrow> bool" where
  "serial_elsewhere gwID serial s \<longleftrightarrow>
     list_ex (\<lambda>g. gw_ID g \<noteq> gwID \<and> list_ex (\<lambda>d. equal_fold (gwd_SerialNumber d) serial) (gw_Devices g)) (gr_gateways s)"

definition refresh_device :: "env \<Rightarrow> device_request \<Rightarrow> gatewayDevice \<Rightarrow> gatewayDevice" where
  "refresh_device e q d =
     d\<lparr>gwd_Status := dq_Status q, gwd_Protocol := dq_Protocol q, gwd_RS485Config := dq_RS485Config q,
       gwd_LastSeenAt := env_now e\<rparr>"

definition new_device :: "env \<Rightarrow> string \<Rightarrow> string \<Rightarrow> string \<Rightarrow> device_request \<Rightarrow> gatewayDevice" where
  "new_device e newID gwID serial q =
     \<lparr>gwd_ID = newID, gwd_GatewayID = gwID, gwd_SerialNumber = serial, gwd_Kind = dq_Kind q, gwd_Source = dq_Source q,
      gwd_Protocol = dq_Protocol q, gwd_RS485Config = dq_RS485Config q, gwd_RS485Health = None,
      gwd_Status = dq_Status q, gwd_LastSeenAt = env_now e\<rparr>"

definition with_device :: "env \<Rightarrow> device_request \<Rightarrow> gatewayDevice \<Rightarrow> gateway \<Rightarrow> gateway" where
  "with_device e q d g =
     g\<lparr>gw_Devices := d # gw_Devices g, gw_LastSeenAt := env_now e,
       gw_Status := (if dq_Status q = ''online'' then ''online'' else gw_Status g)\<rparr>"

definition RegisterDevice ::
  "env \<Rightarrow> string \<Rightarrow> string \<Rightarrow> string \<Rightarrow> string \<Rightarrow> string \<Rightarrow> string \<Rightarrow> string \<Rightarrow> rs485Config option \<Rightarrow> gatewayService \<Rightarrow>
   (gateway_error, gateway) result \<times> gatewayService" where
  "RegisterDevice e tenantID gatewayID serialNumber kind source status protocol cfg s =
     (let gwID = trim_space gatewayID; serial = trim_space serialNumber in
      if gwID = '''' then (Inl (GatewayE GatewayIDRequired), s)
      else if serial = '''' then (Inl (DeviceE DeviceSerialRequired), s)
      else
        (case normalize_device kind source status protocol cfg of
           Inl err \<Rightarrow> (Inl err, s)
         | Inr q \<Rightarrow>
             (case find_gateway tenantID gwID s of
                None \<Rightarrow> (Inl (GatewayE GatewayNotFound), s)
              | Some i \<Rightarrow>
                  let g = gr_gateways s ! i;
                      consume = consumeDeviceSerialLocked (env_now e) serial (gw_TenantID g) gwID (dq_Kind q) (dq_Source q) s in
                  if serial_elsewhere gwID serial s then (Inl (DeviceE DeviceSerialConflict), s)
                  else
                    (case find_idx (\<lambda>d. equal_fold (gwd_SerialNumber d) serial) (gw_Devices g) of
                       Some j \<Rightarrow>
                         (case consume of
                            Inl err \<Rightarrow> (Inl err, s)
                          | Inr s1 \<Rightarrow>
                              let g' = g\<lparr>gw_Devices := (gw_Devices g)[j := refresh_device e q (gw_Devices g ! j)]\<rparr> in
                              gateway_return e g' (set_gateway i g' s1))
                     | None \<Rightarrow>
                         if int (length (gw_Devices g)) \<ge> gw_DeviceCapacity g then (Inl (DeviceE DeviceCapacityExceeded), s)
                         else
                           (case consume of
                              Inl err \<Rightarrow> (Inl err, s)
                            | Inr s1 \<Rightarrow>
                                (case gateway_id_of ''gdv_'' (env_rand e) of
                                   Inl err \<Rightarrow> (Inl err, s1)
                                 | Inr newID \<Rightarrow>
                                     let g' = with_device e q (new_device e newID gwID serial q) g in
                                     gateway_return e g' (set_gateway i g' s1)))))))"

text \<open>The double loop of the operations that know only a device: the first gateway in scope
  that has it, and its position there.\<close>

definition find_device :: "string \<Rightarrow> string \<Rightarrow> gatewayService \<Rightarrow> (nat \<times> nat) option" where
  "find_device flt devID s =
     (case find_idx (\<lambda>g. in_scope flt (gw_TenantID g) \<and> list_ex (\<lambda>d. gwd_ID d = devID) (gw_Devices g)) (gr_gateways s) of
        None \<Rightarrow> None
      | Some i \<Rightarrow> map_option (Pair i) (find_idx (\<lambda>d. gwd_ID d = devID) (gw_Devices (gr_gateways s ! i))))"

definition trim_terminal :: "string \<Rightarrow> string" where
  "trim_terminal x = (if take 9 x = ''terminal_'' then drop 9 x else x)"

definition without_device :: "env \<Rightarrow> nat \<Rightarrow> gateway \<Rightarrow> gateway" where
  "without_device e j g =
     (let ds = remove_at j (gw_Devices g) in
      g\<lparr>gw_Devices := ds, gw_LastSeenAt := env_now e,
        gw_Status := (if ds = [] then ''offline'' else gw_Status g)\<rparr>)"

definition DeassignDevice ::
  "env \<Rightarrow> string \<Rightarrow> string \<Rightarrow> gatewayService \<Rightarrow> (gateway_error, gateway \<times> gatewayDevice) result \<times> gatewayService" where
  "DeassignDevice e tenantID deviceID s =
     (let devID = trim_terminal (trim_space deviceID) in
      if devID = '''' then (Inl (DeviceE DeviceIDRequired), s)
      else
        (case find_device (trim_space tenantID) devID s of
           None \<Rightarrow> (Inl (DeviceE DeviceNotFound), s)
         | Some (i, j) \<Rightarrow>
             let g = gr_gateways s ! i; removed = gw_Devices g ! j;
                 s1 = (if gwd_Source removed = ''mistypass_procured''
                       then releaseSerialInventoryLocked (gwd_SerialNumber removed) (gw_TenantID g) (env_now e) s else s);
                 g' = without_device e j g in
             gateway_return e (g', removed) (set_gateway i g' s1)))"

definition set_device :: "nat \<Rightarrow> nat \<Rightarrow> gatewayDevice \<Rightarrow> gatewayService \<Rightarrow> gatewayService" where
  "set_device i j d s =
     set_gateway i ((gr_gateways s ! i)\<lparr>gw_Devices := (gw_Devices (gr_gateways s ! i))[j := d]\<rparr>) s"

definition UpdateDevice ::
  "env \<Rightarrow> string \<Rightarrow> string \<Rightarrow> string \<Rightarrow> string \<Rightarrow> gatewayService \<Rightarrow>
   (gateway_error, gateway \<times> gatewayDevice) result \<times> gatewayService" where
  "UpdateDevice e tenantID deviceID status protocol s =
     (let devID = trim_space deviceID in
      if devID = '''' then (Inl (DeviceE DeviceIDRequired), s)
      else
        (case find_device tenantID devID s of
           None \<Rightarrow> (Inl (DeviceE DeviceNotFound), s)
         | Some (i, j) \<Rightarrow>
             let d = gw_Devices (gr_gateways s ! i) ! j in
             (case (if trim_space status = '''' then Inr d
                    else case normalizeDeviceStatus (trim_space status) of
                           Inl err \<Rightarrow> Inl err | Inr st \<Rightarrow> Inr (d\<lparr>gwd_Status := st\<rparr>)) of
                Inl err \<Rightarrow> (Inl err, s)
              | Inr d1 \<Rightarrow>
                  (case (if trim_space protocol = '''' then Inr d1
                         else case normalizeDeviceProtocol (gwd_Kind d1) (gwd_Source d1) (trim_space protocol) of
                                Inl err \<Rightarrow> Inl err | Inr p \<Rightarrow> Inr (d1\<lparr>gwd_Protocol := p\<rparr>)) of
                     Inl err \<Rightarrow> (Inl err, set_device i j d1 s)
                   | Inr d2 \<Rightarrow>
                       let d3 = d2\<lparr>gwd_LastSeenAt := env_now e\<rparr>; s' = set_device i j d3 s in
                       gateway_return e (gr_gateways s' ! i, d3) s'))))"

definition ResetDeviceTamper ::
  "env \<Rightarrow> string \<Rightarrow> string \<Rightarrow> gatewayService \<Rightarrow> (gateway_error, gateway \<times> gatewayDevice) result \<times> gatewayService" where
  "ResetDeviceTamper e tenantID deviceID s =
     (let devID = trim_space deviceID in
      if devID = '''' then (Inl (DeviceE DeviceIDRequired), s)
      else
        (case find_device tenantID devID s of
           None \<Rightarrow> (Inl (DeviceE DeviceNotFound), s)
         | Some (i, j) \<Rightarrow>
             let d = (gw_Devices (gr_gateways s ! i) ! j)\<lparr>gwd_RS485Health := None, gwd_LastSeenAt := env_now e\<rparr>;
                 s' = set_device i j d s in
             gateway_return e (gr_gateways s' ! i, d) s'))"

section \<open>Line telemetry\<close>

record protocolLineQualityPolicy =
  lq_WarningConsecutiveTimeouts :: int
  lq_WarningCollisions :: int
  lq_CriticalConsecutiveTimeouts :: int
  lq_CriticalCollisions :: int

record deviceTelemetrySummary =
  dt_Protocol :: string
  dt_AlertLevel :: string
  dt_LineQuality :: string
  dt_GovernanceAction :: string
  dt_Degraded :: bool
  dt_ReasonCodes :: "string list"
  dt_LinePolicy :: protocolLineQualityPolicy
  dt_LastReportAt :: "time option"

definition defaultProtocolLineQualityPolicy :: protocolLineQualityPolicy where
  "defaultProtocolLineQualityPolicy =
     \<lparr>lq_WarningConsecutiveTimeouts = 3, lq_WarningCollisions = 5, lq_CriticalConsecutiveTimeouts = 6,
      lq_CriticalCollisions = 10\<rparr>"

definition no_health :: rs485Health where
  "no_health = \<lparr>gwh_RetryCount = 0, gwh_TimeoutCount = 0, gwh_CollisionCount = 0, gwh_ConsecutiveTimeouts = 0,
     gwh_LastError = '''', gwh_LastReportAt = zero_time\<rparr>"

definition add_report :: "time \<Rightarrow> rs485TelemetryReport \<Rightarrow> rs485Health \<Rightarrow> rs485Health" where
  "add_report now r h =
     \<lparr>gwh_RetryCount = wrap64 (gwh_RetryCount h + gwt_Retries r),
      gwh_TimeoutCount = wrap64 (gwh_TimeoutCount h + gwt_Timeouts r),
      gwh_CollisionCount = wrap64 (gwh_CollisionCount h + gwt_Collisions r),
      gwh_ConsecutiveTimeouts =
        (if gwt_ResetConsecutiveTimeouts r then 0
         else if gwt_Timeouts r > 0 then wrap64 (gwh_ConsecutiveTimeouts h + gwt_Timeouts r) else 0),
      gwh_LastError = (if gwt_LastError r \<noteq> '''' then gwt_LastError r else gwh_LastError h),
      gwh_LastReportAt = now\<rparr>"

definition ReportRS485Telemetry ::
  "env \<Rightarrow> string \<Rightarrow> string \<Rightarrow> string \<Rightarrow> rs485TelemetryReport \<Rightarrow> gatewayService \<Rightarrow>
   (gateway_error, gatewayDevice \<times> bool) result \<times> gatewayService" where
  "ReportRS485Telemetry e tenantID gatewayID deviceID report s =
     (let gwID = trim_space gatewayID; devID = trim_space deviceID in
      if gwID = '''' then (Inl (GatewayE GatewayIDRequired), s)
      else if devID = '''' then (Inl (DeviceE DeviceIDRequired), s)
      else
        (case normalizeRS485TelemetryReport report of
           Inl err \<Rightarrow> (Inl err, s)
         | Inr r \<Rightarrow>
             (case find_gateway tenantID gwID s of
                None \<Rightarrow> (Inl (GatewayE GatewayNotFound), s)
              | Some i \<Rightarrow>
                  let g = gr_gateways s ! i in
                  (case find_idx (\<lambda>d. gwd_ID d = devID) (gw_Devices g) of
                     None \<Rightarrow> (Inl (DeviceE DeviceNotFound), s)
                   | Some j \<Rightarrow>
                       let d = gw_Devices g ! j;
                           h = add_report (env_now e) r (get_or no_health (gwd_RS485Health d));
                           d' = d\<lparr>gwd_RS485Health := Some h, gwd_LastSeenAt := env_now e\<rparr>;
                           g' = g\<lparr>gw_Devices := (gw_Devices g)[j := d'], gw_LastSeenAt := env_now e,
                                  gw_Status := ''online''\<rparr> in
                       if gwd_Protocol d \<noteq> ''rs485'' then (Inl (DeviceE RS485TelemetryProtocolMismatch), s)
                       else gateway_return e
                              (d', gwh_ConsecutiveTimeouts h \<ge> 3 \<or> gwh_CollisionCount h \<ge> 5)
                              (set_gateway i g' s)))))"

definition summarizeDeviceTelemetry :: "gatewayDevice \<Rightarrow> deviceTelemetrySummary" where
  "summarizeDeviceTelemetry d =
     (let policy = defaultProtocolLineQualityPolicy;
          p = (if trim_space (gwd_Protocol d) = '''' then ''unknown'' else trim_space (gwd_Protocol d));
          base = \<lparr>dt_Protocol = p, dt_AlertLevel = ''none'', dt_LineQuality = ''healthy'',
                  dt_GovernanceAction = ''keep_observing'', dt_Degraded = False, dt_ReasonCodes = [],
                  dt_LinePolicy = policy, dt_LastReportAt = None\<rparr> in
      if p \<noteq> ''rs485'' then base\<lparr>dt_GovernanceAction := ''follow_protocol_default''\<rparr>
      else
        (case gwd_RS485Health d of
           None \<Rightarrow> base\<lparr>dt_GovernanceAction := ''report_telemetry''\<rparr>
         | Some h \<Rightarrow>
             let reasons = (if gwh_ConsecutiveTimeouts h \<ge> lq_WarningConsecutiveTimeouts policy
                            then [''consecutive_timeouts''] else []) @
                           (if gwh_CollisionCount h \<ge> lq_WarningCollisions policy then [''collision_spike''] else []);
                 reported = base\<lparr>dt_LastReportAt :=
                   (if is_zero (gwh_LastReportAt h) then None else Some (gwh_LastReportAt h)),
                   dt_ReasonCodes := reasons\<rparr> in
             if gwh_ConsecutiveTimeouts h \<ge> lq_CriticalConsecutiveTimeouts policy \<or>
                gwh_CollisionCount h \<ge> lq_CriticalCollisions policy
             then reported\<lparr>dt_AlertLevel := ''critical'', dt_LineQuality := ''critical'',
                dt_GovernanceAction := ''switch_to_offline_cache_and_schedule_line_repair'', dt_Degraded := True\<rparr>
             else if reasons \<noteq> []
             then reported\<lparr>dt_AlertLevel := ''warning'', dt_LineQuality := ''degraded'',
                dt_GovernanceAction := ''inspect_line_and_prepare_osdp_upgrade'', dt_Degraded := True\<rparr>
             else reported))"

text \<open>The governance text of the result is constant; the model has the serials.\<close>

definition ProbeLegacyDevicePlan ::
  "string \<Rightarrow> string \<Rightarrow> gatewayService \<Rightarrow> (gateway_error, string list) result" where
  "ProbeLegacyDevicePlan tenantID gatewayID s =
     (let gwID = trim_space gatewayID in
      if gwID = '''' then Inl (GatewayE GatewayIDRequired)
      else
        (case find_gateway tenantID gwID s of
           None \<Rightarrow> Inl (GatewayE GatewayNotFound)
         | Some i \<Rightarrow>
             let remain = gw_DeviceCapacity (gr_gateways s ! i) - int (length (gw_Devices (gr_gateways s ! i))) in
             if remain \<le> 0 then Inr []
             else Inr (map (\<lambda>k. to_upper (''LEG-'' @ tail gwID 6 @ ''-'' @ fmt2 k)) [1..min remain 3])))"

section \<open>Serial inventory\<close>

definition ListSerialInventory ::
  "string \<Rightarrow> string \<Rightarrow> string \<Rightarrow> gatewayService \<Rightarrow> (gateway_error, serialInventoryItem list) result" where
  "ListSerialInventory tenantID productType status s =
     (case (if trim_space productType = '''' then Inr '''' else normalizeSerialInventoryProductType productType) of
        Inl err \<Rightarrow> Inl err
      | Inr p \<Rightarrow>
          (case (if trim_space status = '''' then Inr '''' else normalizeSerialInventoryStatus status) of
             Inl err \<Rightarrow> Inl err
           | Inr st \<Rightarrow>
               Inr (filter (\<lambda>x. in_scope (trim_space tenantID) (gsi_TenantID x) \<and> (p = '''' \<or> gsi_ProductType x = p) \<and>
                              (st = '''' \<or> gsi_Status x = st)) (gr_serialInventory s))))"

definition source_or_factory :: "string \<Rightarrow> string" where
  "source_or_factory x = (if trim_space x = '''' then ''factory'' else trim_space x)"

definition new_serial :: "env \<Rightarrow> string \<Rightarrow> string \<Rightarrow> string \<Rightarrow> string \<Rightarrow> serialInventoryImportItem \<Rightarrow> serialInventoryItem" where
  "new_serial e newID t serial p r =
     \<lparr>gsi_ID = newID, gsi_TenantID = t, gsi_SerialNumber = serial, gsi_ProductType = p, gsi_Status = ''available'',
      gsi_BatchCode = trim_space (gii_BatchCode r), gsi_Source = source_or_factory (gii_Source r),
      gsi_ConsumedGatewayID = '''', gsi_ConsumedAt = None, gsi_CreatedAt = env_now e, gsi_UpdatedAt = env_now e\<rparr>"

text \<open>The import loop; \<open>k\<close> counts the random reads.  A refused record ends it, and the records
  before it stay in memory unsaved.\<close>

fun import_serials ::
  "env \<Rightarrow> reads \<Rightarrow> nat \<Rightarrow> string \<Rightarrow> serialInventoryImportItem list \<Rightarrow> gatewayService \<Rightarrow>
   (gateway_error, serialInventoryItem list) result \<times> gatewayService" where
  "import_serials e rnd k t [] s = (Inr [], s)"
| "import_serials e rnd k t (r # rs) s =
     (let more = (\<lambda>x out. case out of (Inl err, s') \<Rightarrow> (Inl err, s') | (Inr xs, s') \<Rightarrow> (Inr (x # xs), s')) in
      case normalizeSerialInventoryProductType (gii_ProductType r) of
        Inl err \<Rightarrow> (Inl err, s)
      | Inr p \<Rightarrow>
          (case normalizeInventorySerial p (gii_SerialNumber r) of
             Inl err \<Rightarrow> (Inl err, s)
           | Inr serial \<Rightarrow>
               (case findSerialInventoryIndexLocked serial s of
                  Some i \<Rightarrow>
                    let x = gr_serialInventory s ! i;
                        x' = x\<lparr>gsi_BatchCode := trim_space (gii_BatchCode r),
                               gsi_Source := source_or_factory (gii_Source r), gsi_UpdatedAt := env_now e\<rparr> in
                    if gsi_TenantID x \<noteq> t then (Inl (InventoryE InventoryTenantMismatch), s)
                    else if gsi_ProductType x \<noteq> p then (Inl (InventoryE InventoryProductTypeMismatch), s)
                    else if gsi_Status x = ''available''
                      then more x' (import_serials e rnd k t rs (set_serial i x' s))
                    else more x (import_serials e rnd k t rs s)
                | None \<Rightarrow>
                    (case gateway_id_of ''siv_'' (rnd k) of
                       Inl err \<Rightarrow> (Inl err, s)
                     | Inr newID \<Rightarrow>
                         let x = new_serial e newID t serial p r in
                         more x (import_serials e rnd (Suc k) t rs
                                   (s\<lparr>gr_serialInventory := x # gr_serialInventory s\<rparr>))))))"

definition ImportSerialInventory ::
  "env \<Rightarrow> reads \<Rightarrow> string \<Rightarrow> serialInventoryImportItem list \<Rightarrow> gatewayService \<Rightarrow>
   (gateway_error, serialInventoryItem list) result \<times> gatewayService" where
  "ImportSerialInventory e rnd tenantID records s =
     (if trim_space tenantID = '''' then (Inl (GatewayE GwTenantIDRequired), s)
      else if records = [] then (Inl (InventoryE InventoryRecordsRequired), s)
      else
        (case import_serials e rnd 0 (trim_space tenantID) records s of
           (Inl err, s') \<Rightarrow> (Inl err, s')
         | (Inr xs, s') \<Rightarrow> gateway_return e xs s'))"

definition UpdateSerialInventoryStatus ::
  "env \<Rightarrow> string \<Rightarrow> string \<Rightarrow> string \<Rightarrow> string \<Rightarrow> gatewayService \<Rightarrow>
   (gateway_error, serialInventoryItem) result \<times> gatewayService" where
  "UpdateSerialInventoryStatus e tenantID serialNumber status consumedGatewayID s =
     (let serial = to_upper (trim_space serialNumber) in
      if trim_space tenantID = '''' then (Inl (GatewayE GwTenantIDRequired), s)
      else if serial = '''' then (Inl (SerialE SerialNumberRequired), s)
      else
        (case normalizeSerialInventoryStatus status of
           Inl err \<Rightarrow> (Inl err, s)
         | Inr st \<Rightarrow>
             (case findSerialInventoryIndexLocked serial s of
                None \<Rightarrow> (Inl (InventoryE InventoryNotFound), s)
              | Some i \<Rightarrow>
                  let x = gr_serialInventory s ! i in
                  if gsi_TenantID x \<noteq> trim_space tenantID then (Inl (InventoryE InventoryTenantMismatch), s)
                  else if gsi_Status x = st then (Inr x, s)
                  else
                    (case applySerialInventoryStatusTransition x st consumedGatewayID (env_now e) of
                       Inl err \<Rightarrow> (Inl err, s)
                     | Inr x' \<Rightarrow> gateway_return e x' (set_serial i x' s)))))"

fun unique_serials :: "string list \<Rightarrow> string list \<Rightarrow> string list" where
  "unique_serials seen [] = []"
| "unique_serials seen (raw # rest) =
     (let x = to_upper (trim_space raw) in
      if x = '''' \<or> x \<in> set seen then unique_serials seen rest else x # unique_serials (x # seen) rest)"

fun serial_indexes :: "string \<Rightarrow> string list \<Rightarrow> gatewayService \<Rightarrow> (gateway_error, nat list) result" where
  "serial_indexes t [] s = Inr []"
| "serial_indexes t (x # xs) s =
     (case findSerialInventoryIndexLocked x s of
        None \<Rightarrow> Inl (InventoryE InventoryNotFound)
      | Some i \<Rightarrow>
          if gsi_TenantID (gr_serialInventory s ! i) \<noteq> t then Inl (InventoryE InventoryTenantMismatch)
          else (case serial_indexes t xs s of Inl err \<Rightarrow> Inl err | Inr ks \<Rightarrow> Inr (i # ks)))"

fun transit_serials ::
  "time \<Rightarrow> string \<Rightarrow> string \<Rightarrow> nat list \<Rightarrow> gatewayService \<Rightarrow> (gateway_error, unit) result \<times> gatewayService" where
  "transit_serials now st gwID [] s = (Inr (), s)"
| "transit_serials now st gwID (i # ks) s =
     (case applySerialInventoryStatusTransition (gr_serialInventory s ! i) st gwID now of
        Inl err \<Rightarrow> (Inl err, s)
      | Inr x \<Rightarrow> transit_serials now st gwID ks (set_serial i x s))"

definition BatchUpdateSerialInventoryStatus ::
  "env \<Rightarrow> string \<Rightarrow> string list \<Rightarrow> string \<Rightarrow> string \<Rightarrow> gatewayService \<Rightarrow>
   (gateway_error, serialInventoryItem list) result \<times> gatewayService" where
  "BatchUpdateSerialInventoryStatus e tenantID serialNumbers status consumedGatewayID s =
     (if trim_space tenantID = '''' then (Inl (GatewayE GwTenantIDRequired), s)
      else
        (case normalizeSerialInventoryStatus status of
           Inl err \<Rightarrow> (Inl err, s)
         | Inr st \<Rightarrow>
             if unique_serials [] serialNumbers = [] then (Inl (InventoryE InventorySerialNumbersRequired), s)
             else
               (case serial_indexes (trim_space tenantID) (unique_serials [] serialNumbers) s of
                  Inl err \<Rightarrow> (Inl err, s)
                | Inr ks \<Rightarrow>
                    (case transit_serials (env_now e) st consumedGatewayID ks s of
                       (Inl err, s') \<Rightarrow> (Inl err, s')
                     | (Inr _, s') \<Rightarrow> gateway_return e (map ((!) (gr_serialInventory s')) ks) s'))))"

section \<open>The registry invariant\<close>

abbreviation folded_serial :: "gatewayDevice \<Rightarrow> string" where
  "folded_serial d \<equiv> to_lower (gwd_SerialNumber d)"

definition gateway_ok :: "gateway \<Rightarrow> bool" where
  "gateway_ok g \<longleftrightarrow> gw_DeviceCapacity g \<in> {4, 8} \<and> int (length (gw_Devices g)) \<le> gw_DeviceCapacity g \<and>
     (\<forall>d\<in>set (gw_Devices g). gwd_GatewayID d = gw_ID g)"

text \<open>Identifiers and serial numbers are unique, up to the case of letters; each gateway has the
  capacity for its devices, and each device names its gateway.\<close>

definition registry_ok :: "gatewayService \<Rightarrow> bool" where
  "registry_ok s \<longleftrightarrow>
     distinct (map gw_ID (gr_gateways s)) \<and>
     distinct (map (\<lambda>g. to_lower (gw_SerialNumber g)) (gr_gateways s)) \<and>
     distinct (map folded_serial (concat (map gw_Devices (gr_gateways s)))) \<and>
     distinct (map (\<lambda>x. to_lower (gsi_SerialNumber x)) (gr_serialInventory s)) \<and>
     (\<forall>g\<in>set (gr_gateways s). gateway_ok g)"

text \<open>What the invariant reads of a gateway and of the inventory.\<close>

definition gateway_key :: "gateway \<Rightarrow> string \<times> string \<times> int \<times> (string \<times> string) list" where
  "gateway_key g = (gw_ID g, to_lower (gw_SerialNumber g), gw_DeviceCapacity g,
     map (\<lambda>d. (folded_serial d, gwd_GatewayID d)) (gw_Devices g))"

definition keys_ok :: "(string \<times> string \<times> int \<times> (string \<times> string) list) list \<Rightarrow> string list \<Rightarrow> bool" where
  "keys_ok ks xs \<longleftrightarrow> distinct (map fst ks) \<and> distinct (map (fst \<circ> snd) ks) \<and>
     distinct (map fst (concat (map (snd \<circ> snd \<circ> snd) ks))) \<and> distinct xs \<and>
     (\<forall>(i, _, c, ds)\<in>set ks. c \<in> {4, 8} \<and> int (length ds) \<le> c \<and> (\<forall>d\<in>set ds. snd d = i))"

lemma registry_ok_keys:
  "registry_ok s \<longleftrightarrow> keys_ok (map gateway_key (gr_gateways s))
     (map (\<lambda>x. to_lower (gsi_SerialNumber x)) (gr_serialInventory s))"
proof -
  have "map fst (concat (map (snd \<circ> snd \<circ> snd) (map gateway_key gs))) = map folded_serial (concat (map gw_Devices gs))"
    for gs :: "gateway list"
    by (induction gs) (simp_all add: gateway_key_def o_def)
  then show ?thesis
    by (simp add: registry_ok_def keys_ok_def gateway_key_def gateway_ok_def o_def split_def)
qed

lemma registry_ok_cong:
  assumes "map gateway_key (gr_gateways s') = map gateway_key (gr_gateways s)"
    and "map (\<lambda>x. to_lower (gsi_SerialNumber x)) (gr_serialInventory s') =
         map (\<lambda>x. to_lower (gsi_SerialNumber x)) (gr_serialInventory s)"
  shows "registry_ok s' \<longleftrightarrow> registry_ok s"
  using assms by (simp add: registry_ok_keys)

subsection \<open>What the helpers leave alone\<close>

lemma persist_gateway_frame [simp]:
  "gr_gateways (snd (persistLocked_gateway e s)) = gr_gateways s"
  "gr_serialInventory (snd (persistLocked_gateway e s)) = gr_serialInventory s"
  "gr_certificateRevocations (snd (persistLocked_gateway e s)) = gr_certificateRevocations s"
  "gr_configStates (snd (persistLocked_gateway e s)) = gr_configStates s"
  "gr_eventCheckpoints (snd (persistLocked_gateway e s)) = gr_eventCheckpoints s"
  "gr_queueIngestTotals (snd (persistLocked_gateway e s)) = gr_queueIngestTotals s"
  "gr_otaTasks (snd (persistLocked_gateway e s)) = gr_otaTasks s"
  by (simp_all add: persistLocked_gateway_def case_prod_unfold)

lemma gateway_return_state [simp]: "snd (gateway_return e v s) = snd (persistLocked_gateway e s)"
  by (simp add: gateway_return_def case_prod_unfold split: bool.splits)

lemma registry_ok_persist [simp]: "registry_ok (snd (persistLocked_gateway e s)) = registry_ok s"
  by (rule registry_ok_cong) simp_all

lemma set_gateway_frame [simp]:
  "gr_gateways (set_gateway i g s) = (gr_gateways s)[i := g]"
  "gr_serialInventory (set_gateway i g s) = gr_serialInventory s"
  "gr_certificateRevocations (set_gateway i g s) = gr_certificateRevocations s"
  "gr_eventCheckpoints (set_gateway i g s) = gr_eventCheckpoints s"
  by (simp_all add: set_gateway_def)

lemma set_serial_frame [simp]:
  "gr_gateways (set_serial i x s) = gr_gateways s"
  "gr_serialInventory (set_serial i x s) = (gr_serialInventory s)[i := x]"
  "gr_certificateRevocations (set_serial i x s) = gr_certificateRevocations s"
  "gr_eventCheckpoints (set_serial i x s) = gr_eventCheckpoints s"
  by (simp_all add: set_serial_def)

text \<open>The inventory operations that keep the list of serial numbers.\<close>

definition same_serials :: "gatewayService \<Rightarrow> gatewayService \<Rightarrow> bool" where
  "same_serials s s' \<longleftrightarrow> gr_gateways s' = gr_gateways s \<and>
     gr_eventCheckpoints s' = gr_eventCheckpoints s \<and> gr_certificateRevocations s' = gr_certificateRevocations s \<and>
     map gsi_SerialNumber (gr_serialInventory s') = map gsi_SerialNumber (gr_serialInventory s)"

lemma same_serials_refl [simp]: "same_serials s s"
  by (simp add: same_serials_def)

lemma same_serials_trans: "same_serials s t \<Longrightarrow> same_serials t u \<Longrightarrow> same_serials s u"
  by (simp add: same_serials_def)

lemma same_serials_set:
  "gsi_SerialNumber x = gsi_SerialNumber (gr_serialInventory s ! i) \<Longrightarrow> same_serials s (set_serial i x s)"
  by (simp add: same_serials_def map_update_same)

lemma same_serials_ok: "same_serials s s' \<Longrightarrow> registry_ok s' \<longleftrightarrow> registry_ok s"
  by (rule registry_ok_cong) (simp_all add: same_serials_def map_map [symmetric, unfolded o_def] del: map_map)

lemma transition_serial:
  "applySerialInventoryStatusTransition x st gwID now = Inr y \<Longrightarrow> gsi_SerialNumber y = gsi_SerialNumber x"
  by (auto simp: applySerialInventoryStatusTransition_def Let_def split: if_splits)

lemma release_same: "same_serials s (releaseSerialInventoryLocked serial t now s)"
  by (auto simp: releaseSerialInventoryLocked_def intro: same_serials_set dest: transition_serial
      split: option.split sum.split)

lemma release_devices_same: "same_serials s (release_devices now g s)"
proof -
  have "same_serials s (fold (\<lambda>d s. if gwd_Source d = ''mistypass_procured''
      then releaseSerialInventoryLocked (gwd_SerialNumber d) t now s else s) ds s)" for ds t
    by (induction ds arbitrary: s) (auto intro: same_serials_trans release_same)
  then show ?thesis by (simp add: release_devices_def)
qed

lemma consume_gateway_same:
  "consumeGatewaySerialLocked now serial t gwID s = Inr s' \<Longrightarrow> same_serials s s'"
  by (auto simp: consumeGatewaySerialLocked_def Let_def consumed_def intro: same_serials_set
      split: option.splits if_splits)

lemma consume_device_same:
  "consumeDeviceSerialLocked now serial t gwID kind source s = Inr s' \<Longrightarrow> same_serials s s'"
  by (auto simp: consumeDeviceSerialLocked_def Let_def consumed_def intro: same_serials_set
      split: option.splits if_splits)

lemma transit_same: "same_serials s (snd (transit_serials now st gwID ks s))"
proof (induction ks arbitrary: s)
  case (Cons i ks)
  show ?case
  proof (cases "applySerialInventoryStatusTransition (gr_serialInventory s ! i) st gwID now")
    case (Inr x)
    then have "same_serials s (set_serial i x s)" by (intro same_serials_set transition_serial)
    with Inr Cons.IH show ?thesis by (simp add: same_serials_trans)
  qed simp
qed simp

subsection \<open>Operations on one gateway\<close>

lemma set_gateway_ok:
  assumes "registry_ok s" and "i < length (gr_gateways s) \<Longrightarrow> gateway_key g = gateway_key (gr_gateways s ! i)"
  shows "registry_ok (set_gateway i g s)"
proof (cases "i < length (gr_gateways s)")
  case True
  then show ?thesis
    using assms registry_ok_cong [of "set_gateway i g s" s] by (simp add: map_update_same)
next
  case False
  then show ?thesis
    using assms(1) registry_ok_cong [of "set_gateway i g s" s] by (simp add: list_update_beyond)
qed

lemma set_device_ok:
  assumes "registry_ok s"
    and "folded_serial d = folded_serial (gw_Devices (gr_gateways s ! i) ! j)"
    and "gwd_GatewayID d = gwd_GatewayID (gw_Devices (gr_gateways s ! i) ! j)"
  shows "registry_ok (set_device i j d s)"
  unfolding set_device_def using assms(2,3)
  by (intro set_gateway_ok [OF assms(1)]) (simp add: gateway_key_def map_update_same)

text \<open>Adding, removing and replacing elements of a concatenation.\<close>

lemma concat_update:
  "i < length xs \<Longrightarrow> concat (map f (xs[i := y])) =
     concat (map f (take i xs)) @ f y @ concat (map f (drop (Suc i) xs))"
  by (simp add: upd_conv_take_nth_drop)

lemma concat_split:
  "i < length xs \<Longrightarrow> concat (map f xs) =
     concat (map f (take i xs)) @ f (xs ! i) @ concat (map f (drop (Suc i) xs))"
  using concat_update [of i xs f "xs ! i"] by simp

lemma distinct_shrink:
  "distinct (xs @ ys @ zs) \<Longrightarrow> distinct ys' \<Longrightarrow> set ys' \<subseteq> set ys \<Longrightarrow> distinct (xs @ ys' @ zs)"
  by auto

lemma distinct_insert:
  "distinct (xs @ ys @ zs) \<Longrightarrow> y \<notin> set (xs @ ys @ zs) \<Longrightarrow> distinct (xs @ (y # ys) @ zs)"
  by auto

lemma distinct_middle: "distinct (xs @ ys @ zs) \<Longrightarrow> distinct (xs @ zs)"
  by auto

lemma find_gateway_SomeD:
  assumes "find_gateway t gwID s = Some i"
  shows "i < length (gr_gateways s)" and "gw_ID (gr_gateways s ! i) = gwID"
  using assms by (auto simp: find_gateway_def dest: lookup_strict_SomeD)

lemma registry_gateway:
  assumes "registry_ok s" and "i < length (gr_gateways s)"
  shows "gateway_ok (gr_gateways s ! i)"
  using assms by (simp add: registry_ok_def)

lemma update_devices_ok:
  assumes ok: "registry_ok s" and i: "i < length (gr_gateways s)" and g: "gateway_ok g"
    and id: "gw_ID g = gw_ID (gr_gateways s ! i)" "gw_SerialNumber g = gw_SerialNumber (gr_gateways s ! i)"
    and d: "distinct (map folded_serial (concat (map gw_Devices ((gr_gateways s)[i := g]))))"
  shows "registry_ok (set_gateway i g s)"
proof -
  have "\<forall>x\<in>set ((gr_gateways s)[i := g]). gateway_ok x"
    using ok g set_update_subset_insert [of "gr_gateways s" i g] by (auto simp: registry_ok_def)
  with ok id d show ?thesis by (simp add: registry_ok_def map_update_same)
qed

lemma add_device_ok:
  assumes ok: "registry_ok s" and i: "i < length (gr_gateways s)"
    and room: "int (length (gw_Devices (gr_gateways s ! i))) < gw_DeviceCapacity (gr_gateways s ! i)"
    and new: "\<forall>g\<in>set (gr_gateways s). \<forall>x\<in>set (gw_Devices g). folded_serial x \<noteq> folded_serial d"
    and own: "gwd_GatewayID d = gw_ID (gr_gateways s ! i)"
  shows "registry_ok (set_gateway i (with_device e q d (gr_gateways s ! i)) s)"
proof (rule update_devices_ok [OF ok i])
  let ?g = "gr_gateways s ! i"
  show "gateway_ok (with_device e q d ?g)"
    using registry_gateway [OF ok i] room own by (auto simp: gateway_ok_def with_device_def)
  have n: "folded_serial d \<notin> set (map folded_serial (concat (map gw_Devices (gr_gateways s))))"
    using new by fastforce
  have c: "distinct (map folded_serial (concat (map gw_Devices (gr_gateways s))))"
    using ok by (simp add: registry_ok_def)
  have wd: "gw_Devices (with_device e q d ?g) = d # gw_Devices ?g"
    by (simp add: with_device_def)
  from c n show "distinct (map folded_serial (concat (map gw_Devices ((gr_gateways s)[i := with_device e q d ?g]))))"
    unfolding concat_update [OF i] concat_split [OF i] map_append wd list.map
    by (rule distinct_insert)
qed (simp_all add: with_device_def)

lemma remove_device_ok:
  assumes ok: "registry_ok s" and i: "i < length (gr_gateways s)"
  shows "registry_ok (set_gateway i (without_device e j (gr_gateways s ! i)) s)"
proof (rule update_devices_ok [OF ok i])
  let ?g = "gr_gateways s ! i"
  have "length (remove_at j (gw_Devices ?g)) \<le> length (gw_Devices ?g)" by (simp add: remove_at_def)
  with registry_gateway [OF ok i] subsetD [OF set_remove_at [of j "gw_Devices ?g"]]
  show "gateway_ok (without_device e j ?g)"
    by (auto simp: gateway_ok_def without_device_def Let_def)
  have d: "distinct (map folded_serial (concat (map gw_Devices (gr_gateways s))))"
    using ok by (simp add: registry_ok_def)
  then have "distinct (map folded_serial (gw_Devices ?g))"
    unfolding concat_split [OF i] by simp
  then have r: "distinct (map folded_serial (remove_at j (gw_Devices ?g)))"
    by (rule distinct_map_remove_at)
  have sub: "set (map folded_serial (remove_at j (gw_Devices ?g))) \<subseteq> set (map folded_serial (gw_Devices ?g))"
    using set_remove_at [of j "gw_Devices ?g"] by auto
  have wd: "gw_Devices (without_device e j ?g) = remove_at j (gw_Devices ?g)"
    by (simp add: without_device_def Let_def)
  from d show "distinct (map folded_serial (concat (map gw_Devices ((gr_gateways s)[i := without_device e j ?g]))))"
    unfolding concat_update [OF i] concat_split [OF i] map_append wd
    by (rule distinct_shrink [OF _ r sub])
qed (simp_all add: without_device_def Let_def)

subsection \<open>Every operation\<close>

lemma UpdateGatewayStatus_ok: "registry_ok s \<Longrightarrow> registry_ok (snd (UpdateGatewayStatus e t g st s))"
  by (auto simp: UpdateGatewayStatus_def Let_def gateway_key_def intro!: set_gateway_ok
      split: sum.split option.split)

lemma BindDoor_ok: "registry_ok s \<Longrightarrow> registry_ok (snd (BindDoor e t g d s))"
  by (auto simp: BindDoor_def Let_def gateway_key_def intro!: set_gateway_ok split: option.split)

lemma UnbindDoor_ok: "registry_ok s \<Longrightarrow> registry_ok (snd (UnbindDoor e t g d s))"
  by (auto simp: UnbindDoor_def Let_def gateway_key_def intro!: set_gateway_ok split: option.split)

lemma normalizeDeviceCapacity_range: "normalizeDeviceCapacity c = Inr d \<Longrightarrow> d = 4 \<or> d = 8"
  by (auto simp: normalizeDeviceCapacity_def split: if_splits)

lemma append_gateway_ok:
  assumes "registry_ok s" and "gw_ID g \<notin> set (map gw_ID (gr_gateways s))"
    and "\<not> list_ex (\<lambda>x. equal_fold (gw_SerialNumber x) (gw_SerialNumber g)) (gr_gateways s)"
    and "gw_DeviceCapacity g \<in> {4, 8}" and "gw_Devices g = []"
  shows "registry_ok (s\<lparr>gr_gateways := gr_gateways s @ [g]\<rparr>)"
  using assms by (auto simp: registry_ok_def gateway_ok_def list_ex_iff equal_fold_def)

lemma Register_ok:
  assumes ok: "registry_ok s" and fresh: "\<forall>h. env_rand e = Some h \<longrightarrow> ''gw_'' @ h \<notin> set (map gw_ID (gr_gateways s))"
  shows "registry_ok (snd (Register e sn t b c s))"
proof -
  have "registry_ok (s1\<lparr>gr_gateways := gr_gateways s1 @ [new_gateway e i t' serial b c']\<rparr>)"
    if "consumeGatewaySerialLocked now serial t' i s = Inr s1" "gateway_id_of ''gw_'' (env_rand e) = Inr i"
      "\<not> list_ex (\<lambda>g. equal_fold (gw_SerialNumber g) serial) (gr_gateways s)"
      "normalizeDeviceCapacity c = Inr c'" for s1 now serial t' i c'
  proof (rule append_gateway_ok)
    have same: "same_serials s s1" using that(1) by (rule consume_gateway_same)
    then show "registry_ok s1" using ok by (simp add: same_serials_ok)
    from same have gs: "gr_gateways s1 = gr_gateways s" by (simp add: same_serials_def)
    show "gw_ID (new_gateway e i t' serial b c') \<notin> set (map gw_ID (gr_gateways s1))"
      using fresh that(2) gs by (auto simp: new_gateway_def gateway_id_of_def split: option.splits)
    show "\<not> list_ex (\<lambda>x. equal_fold (gw_SerialNumber x) (gw_SerialNumber (new_gateway e i t' serial b c')))
        (gr_gateways s1)"
      using that(3) gs by (simp add: new_gateway_def)
  qed (use that(4) in \<open>simp_all add: new_gateway_def normalizeDeviceCapacity_range\<close>)
  with ok show ?thesis
    by (auto simp: Register_def Let_def split: sum.splits)
qed

lemma runtime_frame [simp]:
  "gr_gateways (removeGatewayRuntimeStateLocked g s) = gr_gateways s"
  "gr_serialInventory (removeGatewayRuntimeStateLocked g s) = gr_serialInventory s"
  by (simp_all add: removeGatewayRuntimeStateLocked_def Let_def)

lemma remove_gateway_ok:
  assumes ok: "registry_ok s" and i: "i < length (gr_gateways s)"
  shows "registry_ok (s\<lparr>gr_gateways := remove_at i (gr_gateways s)\<rparr>)"
proof -
  have c: "concat (map gw_Devices (remove_at i (gr_gateways s))) =
      concat (map gw_Devices (take i (gr_gateways s))) @ concat (map gw_Devices (drop (Suc i) (gr_gateways s)))"
    by (simp add: remove_at_def)
  have "distinct (map folded_serial (concat (map gw_Devices (gr_gateways s))))"
    using ok by (simp add: registry_ok_def)
  then have "distinct (map folded_serial (concat (map gw_Devices (remove_at i (gr_gateways s)))))"
    unfolding c concat_split [OF i] map_append by (rule distinct_middle)
  with ok show ?thesis
    using subsetD [OF set_remove_at [of i "gr_gateways s"]]
    by (auto simp: registry_ok_def intro!: distinct_map_remove_at)
qed

lemma Deassign_ok: "registry_ok s \<Longrightarrow> registry_ok (snd (Deassign e t g s))"
proof -
  assume ok: "registry_ok s"
  have "registry_ok (s2\<lparr>gr_gateways := remove_at i (gr_gateways s2)\<rparr>)"
    if "same_serials s s2" "i < length (gr_gateways s)" for s2 i
    using that ok by (intro remove_gateway_ok) (simp_all add: same_serials_ok, simp add: same_serials_def)
  note rm = this [OF same_serials_trans [OF release_same release_devices_same]]
  have rt: "registry_ok (removeGatewayRuntimeStateLocked g s') = registry_ok s'" for g s'
    by (rule registry_ok_cong) simp_all
  show ?thesis
    using ok rm find_gateway_SomeD(1) [of t "trim_space g" s]
    by (auto simp: Deassign_def Let_def rt split: option.split)
qed

lemma serial_not_registered:
  assumes ok: "registry_ok s" and i: "i < length (gr_gateways s)" "gw_ID (gr_gateways s ! i) = gwID"
    and "\<not> serial_elsewhere gwID serial s"
    and "find_idx (\<lambda>d. equal_fold (gwd_SerialNumber d) serial) (gw_Devices (gr_gateways s ! i)) = None"
  shows "\<forall>g\<in>set (gr_gateways s). \<forall>x\<in>set (gw_Devices g). folded_serial x \<noteq> to_lower serial"
proof (intro ballI)
  fix g x assume g: "g \<in> set (gr_gateways s)" "x \<in> set (gw_Devices g)"
  show "folded_serial x \<noteq> to_lower serial"
  proof (cases "gw_ID g = gwID")
    case True
    moreover have "gr_gateways s ! i \<in> set (gr_gateways s)" using i(1) by simp
    moreover have "inj_on gw_ID (set (gr_gateways s))" using ok by (simp add: registry_ok_def distinct_map)
    ultimately have "g = gr_gateways s ! i" using g(1) i(2) by (metis inj_onD)
    with g(2) assms(5) show ?thesis by (auto simp: find_idx_None_iff equal_fold_def)
  next
    case False
    with g assms(4) show ?thesis by (auto simp: serial_elsewhere_def list_ex_iff equal_fold_def)
  qed
qed

lemma RegisterDevice_ok:
  assumes ok: "registry_ok s"
  shows "registry_ok (snd (RegisterDevice e t g sn k src st p cfg s))"
proof -
  have upd: "registry_ok (set_gateway i ((gr_gateways s ! i)\<lparr>gw_Devices := (gw_Devices (gr_gateways s ! i))
      [j := refresh_device e q (gw_Devices (gr_gateways s ! i) ! j)]\<rparr>) s1)"
    if "same_serials s s1" for s1 i j q
    using that ok
    by (intro set_gateway_ok)
      (simp_all add: same_serials_ok, simp add: same_serials_def gateway_key_def refresh_device_def map_update_same)
  have add: "registry_ok (set_gateway i (with_device e q (new_device e newID gwID serial q) (gr_gateways s ! i)) s1)"
    if "same_serials s s1" "find_gateway t gwID s = Some i" "\<not> serial_elsewhere gwID serial s"
      "find_idx (\<lambda>d. equal_fold (gwd_SerialNumber d) serial) (gw_Devices (gr_gateways s ! i)) = None"
      "\<not> gw_DeviceCapacity (gr_gateways s ! i) \<le> int (length (gw_Devices (gr_gateways s ! i)))"
    for s1 i gwID serial newID q
  proof -
    note i = find_gateway_SomeD [OF that(2)]
    have gs: "gr_gateways s1 = gr_gateways s" using that(1) by (simp add: same_serials_def)
    have "registry_ok (set_gateway i (with_device e q (new_device e newID gwID serial q) (gr_gateways s1 ! i)) s1)"
      using ok that(1,5) i serial_not_registered [OF ok i that(3,4)]
      by (intro add_device_ok) (simp_all add: same_serials_ok gs new_device_def)
    then show ?thesis by (simp add: gs)
  qed
  show ?thesis
    using ok upd add consume_device_same same_serials_ok [OF consume_device_same]
    by (auto simp: RegisterDevice_def Let_def split: sum.splits option.splits)
qed

lemma find_device_SomeD:
  "find_device flt d s = Some (i, j) \<Longrightarrow> i < length (gr_gateways s)"
  by (auto simp: find_device_def dest: find_idx_SomeD split: option.splits)

lemma DeassignDevice_ok:
  assumes ok: "registry_ok s"
  shows "registry_ok (snd (DeassignDevice e t d s))"
proof -
  have "registry_ok (set_gateway i (without_device e j (gr_gateways s ! i)) s1)"
    if "same_serials s s1" "i < length (gr_gateways s)" for s1 i j
    using that ok remove_device_ok [of s1 i e j] by (simp add: same_serials_ok) (simp add: same_serials_def)
  with ok show ?thesis
    by (auto simp: DeassignDevice_def Let_def release_same dest: find_device_SomeD split: option.split)
qed

lemma UpdateDevice_ok: "registry_ok s \<Longrightarrow> registry_ok (snd (UpdateDevice e t d st p s))"
  by (auto simp: UpdateDevice_def Let_def intro!: set_device_ok split: option.split sum.split if_split)

lemma ResetDeviceTamper_ok: "registry_ok s \<Longrightarrow> registry_ok (snd (ResetDeviceTamper e t d s))"
  by (auto simp: ResetDeviceTamper_def Let_def intro!: set_device_ok split: option.split)

lemma ReportRS485Telemetry_ok: "registry_ok s \<Longrightarrow> registry_ok (snd (ReportRS485Telemetry e t g d r s))"
  by (auto simp: ReportRS485Telemetry_def Let_def gateway_key_def map_update_same
      intro!: set_gateway_ok split: option.split sum.split)

lemma UpdateSerialInventoryStatus_ok:
  assumes ok: "registry_ok s"
  shows "registry_ok (snd (UpdateSerialInventoryStatus e t sn st g s))"
proof -
  have "registry_ok (set_serial i x s)"
    if "applySerialInventoryStatusTransition (gr_serialInventory s ! i) a b c = Inr x" for i x a b c
    using ok same_serials_ok [OF same_serials_set [OF transition_serial [OF that]]] by simp
  with ok show ?thesis
    by (auto simp: UpdateSerialInventoryStatus_def Let_def split: option.split sum.split)
qed

lemma BatchUpdateSerialInventoryStatus_ok:
  assumes ok: "registry_ok s"
  shows "registry_ok (snd (BatchUpdateSerialInventoryStatus e t sns st g s))"
proof -
  have "registry_ok s'" if "transit_serials a b c ks s = (r, s')" for a b c ks r s'
    using ok same_serials_ok [OF transit_same [where s = s and now = a and st = b and gwID = c and ks = ks]] that by simp
  with ok show ?thesis
    by (auto simp: BatchUpdateSerialInventoryStatus_def split: sum.split prod.split)
qed

lemma import_serials_ok:
  "registry_ok s \<Longrightarrow> registry_ok (snd (import_serials e rnd k t rs s))"
proof (induction rs arbitrary: k s)
  case Nil
  then show ?case by simp
next
  case (Cons r rs)
  have upd: "registry_ok (set_serial i ((gr_serialInventory s ! i)\<lparr>gsi_BatchCode := b, gsi_Source := c, gsi_UpdatedAt := d\<rparr>) s)"
    for i b c d
    using Cons.prems by (subst same_serials_ok [OF same_serials_set]) simp_all
  have new: "registry_ok (s\<lparr>gr_serialInventory := new_serial e i t serial p r # gr_serialInventory s\<rparr>)"
    if "findSerialInventoryIndexLocked serial s = None" for i serial p
    using that Cons.prems
    by (auto simp: registry_ok_def new_serial_def findSerialInventoryIndexLocked_def find_idx_None_iff equal_fold_def)
  have more: "snd (case out of (Inl err, s') \<Rightarrow> (Inl err, s') | (Inr xs, s') \<Rightarrow> (Inr (x # xs), s')) = snd out"
    for out :: "(gateway_error, serialInventoryItem list) result \<times> gatewayService" and x
    by (auto split: prod.split sum.split)
  show ?case
  proof (cases "normalizeSerialInventoryProductType (gii_ProductType r)")
    case (Inl err)
    with Cons.prems show ?thesis by simp
  next
    case p: (Inr p)
    show ?thesis
    proof (cases "normalizeInventorySerial p (gii_SerialNumber r)")
      case (Inl err)
      with p Cons.prems show ?thesis by simp
    next
      case x: (Inr serial)
      show ?thesis
      proof (cases "findSerialInventoryIndexLocked serial s")
        case None
        then show ?thesis
          using p x Cons.prems Cons.IH [OF new [OF None]]
          by (auto simp: Let_def more split: sum.split)
      next
        case (Some i)
        then show ?thesis
          using p x Cons.prems Cons.IH [OF Cons.prems] Cons.IH [OF upd]
          by (auto simp: Let_def more)
      qed
    qed
  qed
qed

end
