(* ===== verification/Gateway_Queues.thy ===== *)
theory Gateway_Queues
  imports Gateway_Registry
begin

text \<open>
  \<open>internal/modules/gateway/service.go\<close> and \<open>cert_revocation.go\<close>: configuration versions, event
  checkpoints and ingest totals of the gateways' queues, commands, firmware tasks and revoked
  client certificates.  The theory ends with the steps of the whole module and the properties
  that hold along every run of them.
\<close>

section \<open>Configuration\<close>

text \<open>\<open>ensureConfigStateLocked\<close> returns a pointer into the list; the model returns its position.\<close>

definition ensureConfigStateLocked :: "string \<Rightarrow> gatewayService \<Rightarrow> nat \<times> gatewayService" where
  "ensureConfigStateLocked gatewayID s =
     (case findConfigStateIndexLocked (trim_space gatewayID) s of
        Some i \<Rightarrow> (i, s)
      | None \<Rightarrow> (length (gr_configStates s),
                 s\<lparr>gr_configStates := gr_configStates s @ [\<lparr>gcs_GatewayID = trim_space gatewayID,
                     gcs_DesiredVersion = '''', gcs_DesiredUpdatedAt = None, gcs_AppliedVersion = '''',
                     gcs_AppliedAt = None\<rparr>]\<rparr>))"

definition set_config :: "nat \<Rightarrow> gatewayConfigState \<Rightarrow> gatewayService \<Rightarrow> gatewayService" where
  "set_config i c s = s\<lparr>gr_configStates := (gr_configStates s)[i := c]\<rparr>"

definition PublishConfig ::
  "env \<Rightarrow> string \<Rightarrow> string \<Rightarrow> string \<Rightarrow> gatewayService \<Rightarrow> (gateway_error, commandAck) result \<times> gatewayService" where
  "PublishConfig e tenantID gatewayID version s =
     (let gwID = trim_space gatewayID; v = trim_space version in
      if gwID = '''' then (Inl (GatewayE GatewayIDRequired), s)
      else if v = '''' then (Inl (GatewayE ConfigVersionRequired), s)
      else
        (case gateway_id_of ''task_'' (env_rand e) of
           Inl err \<Rightarrow> (Inl err, s)
         | Inr taskID \<Rightarrow>
             (case find_gateway tenantID gwID s of
                None \<Rightarrow> (Inl (GatewayE GatewayNotFound), s)
              | Some i \<Rightarrow>
                  (case ensureConfigStateLocked gwID (touch_gateway i (env_now e) s) of
                     (k, s1) \<Rightarrow>
                       gateway_return e
                         \<lparr>gca_TaskID = taskID, gca_GatewayID = gwID, gca_Command = ''update_config'',
                          gca_Status = ''queued'', gca_CreatedAt = env_now e\<rparr>
                         (set_config k ((gr_configStates s1 ! k)\<lparr>gcs_DesiredVersion := v,
                            gcs_DesiredUpdatedAt := Some (env_now e)\<rparr>) s1)))))"

definition config_snapshot :: "gateway \<Rightarrow> gatewayConfigState option \<Rightarrow> gatewayConfigSnapshot" where
  "config_snapshot g c =
     \<lparr>gss_GatewayID = gw_ID g, gss_TenantID = gw_TenantID g,
      gss_DesiredVersion = (case c of None \<Rightarrow> '''' | Some x \<Rightarrow> gcs_DesiredVersion x),
      gss_DesiredUpdatedAt = (case c of None \<Rightarrow> None | Some x \<Rightarrow> gcs_DesiredUpdatedAt x),
      gss_AppliedVersion = (case c of None \<Rightarrow> '''' | Some x \<Rightarrow> gcs_AppliedVersion x),
      gss_AppliedAt = (case c of None \<Rightarrow> None | Some x \<Rightarrow> gcs_AppliedAt x),
      gss_BoundDoorIDs = gw_BoundDoorIDs g, gss_Devices = gw_Devices g\<rparr>"

definition PullConfig ::
  "string \<Rightarrow> string \<Rightarrow> gatewayService \<Rightarrow> (gateway_error, gatewayConfigSnapshot) result" where
  "PullConfig tenantID gatewayID s =
     (let gwID = trim_space gatewayID in
      if gwID = '''' then Inl (GatewayE GatewayIDRequired)
      else
        (case find_gateway tenantID gwID s of
           None \<Rightarrow> Inl (GatewayE GatewayNotFound)
         | Some i \<Rightarrow>
             Inr (config_snapshot (gr_gateways s ! i)
                    (map_option ((!) (gr_configStates s)) (findConfigStateIndexLocked gwID s)))))"

definition apply_version :: "time \<Rightarrow> string \<Rightarrow> gatewayConfigState \<Rightarrow> gatewayConfigState" where
  "apply_version now v c =
     (let c1 = c\<lparr>gcs_AppliedVersion := v, gcs_AppliedAt := Some now\<rparr> in
      if gcs_DesiredVersion c1 = '''' then c1\<lparr>gcs_DesiredVersion := v, gcs_DesiredUpdatedAt := Some now\<rparr> else c1)"

definition MarkConfigApplied ::
  "env \<Rightarrow> string \<Rightarrow> string \<Rightarrow> string \<Rightarrow> gatewayService \<Rightarrow>
   (gateway_error, gatewayConfigSnapshot) result \<times> gatewayService" where
  "MarkConfigApplied e tenantID gatewayID version s =
     (let gwID = trim_space gatewayID; v = trim_space version in
      if gwID = '''' then (Inl (GatewayE GatewayIDRequired), s)
      else if v = '''' then (Inl (GatewayE ConfigVersionRequired), s)
      else
        (case find_gateway tenantID gwID s of
           None \<Rightarrow> (Inl (GatewayE GatewayNotFound), s)
         | Some i \<Rightarrow>
             let g = (gr_gateways s ! i)\<lparr>gw_Status := ''online'', gw_LastSeenAt := env_now e\<rparr> in
             (case ensureConfigStateLocked gwID (set_gateway i g s) of
                (k, s1) \<Rightarrow>
                  let c = apply_version (env_now e) v (gr_configStates s1 ! k) in
                  gateway_return e (config_snapshot g (Some c)) (set_config k c s1))))"

section \<open>Event checkpoints and ingest totals\<close>

definition checkpoint :: "time \<Rightarrow> string \<Rightarrow> string \<Rightarrow> string \<Rightarrow> string \<Rightarrow> int \<Rightarrow> time option \<Rightarrow> gatewayEventCheckpoint" where
  "checkpoint now gwID queue c r n occurred =
     \<lparr>gec_GatewayID = gwID, gec_Queue = queue, gec_CheckpointID = c, gec_LastRequestID = r, gec_AckedCount = n,
      gec_LastOccurredAt = occurred, gec_UpdatedAt = now\<rparr>"

definition known_time :: "time option \<Rightarrow> time option" where
  "known_time x = (case x of None \<Rightarrow> None | Some v \<Rightarrow> if is_zero v then None else Some v)"

definition UpsertEventCheckpoint ::
  "env \<Rightarrow> string \<Rightarrow> string \<Rightarrow> string \<Rightarrow> string \<Rightarrow> string \<Rightarrow> int \<Rightarrow> time option \<Rightarrow> gatewayService \<Rightarrow>
   (gateway_error, gatewayEventCheckpoint) result \<times> gatewayService" where
  "UpsertEventCheckpoint e tenantID gatewayID queue checkpointID lastRequestID ackedCount lastOccurredAt s =
     (let gwID = trim_space gatewayID; q = trim_space queue; c = trim_space checkpointID in
      if gwID = '''' then (Inl (GatewayE GatewayIDRequired), s)
      else if q = '''' then (Inl (QueueE CheckpointQueueRequired), s)
      else if c = '''' then (Inl (QueueE CheckpointRequired), s)
      else if ackedCount < 0 then (Inl (QueueE CheckpointAckedCountInvalid), s)
      else
        (case find_gateway tenantID gwID s of
           None \<Rightarrow> (Inl (GatewayE GatewayNotFound), s)
         | Some i \<Rightarrow>
             let s1 = touch_gateway i (env_now e) s;
                 r = checkpoint (env_now e) gwID q c (trim_space lastRequestID) ackedCount (known_time lastOccurredAt) in
             (case findEventCheckpointIndexLocked gwID q s1 of
                None \<Rightarrow> gateway_return e r (s1\<lparr>gr_eventCheckpoints := gr_eventCheckpoints s1 @ [r]\<rparr>)
              | Some k \<Rightarrow>
                  if ackedCount < gec_AckedCount (gr_eventCheckpoints s1 ! k) then (Inl (QueueE CheckpointAckedCountRegression), s1)
                  else gateway_return e r (s1\<lparr>gr_eventCheckpoints := (gr_eventCheckpoints s1)[k := r]\<rparr>))))"

definition ListEventCheckpoints ::
  "string \<Rightarrow> string \<Rightarrow> gatewayService \<Rightarrow> (gateway_error, gatewayEventCheckpoint list) result" where
  "ListEventCheckpoints tenantID gatewayID s =
     (let gwID = trim_space gatewayID in
      if gwID = '''' then Inl (GatewayE GatewayIDRequired)
      else if find_gateway tenantID gwID s = None then Inl (GatewayE GatewayNotFound)
      else Inr (filter (\<lambda>c. gec_GatewayID c = gwID) (gr_eventCheckpoints s)))"

definition ListEventCheckpointsByTenant ::
  "string \<Rightarrow> string \<Rightarrow> string \<Rightarrow> gatewayService \<Rightarrow> (gateway_error, gatewayEventCheckpoint list) result" where
  "ListEventCheckpointsByTenant tenantID gatewayID queue s =
     (let t = trim_space tenantID; g = trim_space gatewayID; q = trim_space queue;
          allowed = map gw_ID (filter (\<lambda>x. in_scope t (gw_TenantID x) \<and> (g = '''' \<or> gw_ID x = g)) (gr_gateways s)) in
      if g \<noteq> '''' \<and> (g \<notin> set (map gw_ID (gr_gateways s)) \<or> allowed = []) then Inl (GatewayE GatewayNotFound)
      else Inr (map (\<lambda>c. if trim_space (gec_Queue c) = '''' then c\<lparr>gec_Queue := ''default''\<rparr> else c)
        (filter (\<lambda>c. (gec_GatewayID c \<in> set allowed \<or>
                       g = '''' \<and> t = '''' \<and> gec_GatewayID c \<in> set (map gw_ID (gr_gateways s))) \<and>
                     (q = '''' \<or> gec_Queue c = q) \<and> trim_space (gec_GatewayID c) \<noteq> '''')
           (gr_eventCheckpoints s))))"

definition GetEventCheckpoint ::
  "string \<Rightarrow> string \<Rightarrow> string \<Rightarrow> gatewayService \<Rightarrow> (gateway_error, gatewayEventCheckpoint) result" where
  "GetEventCheckpoint tenantID gatewayID queue s =
     (let gwID = trim_space gatewayID; q = trim_space queue in
      if gwID = '''' then Inl (GatewayE GatewayIDRequired)
      else if q = '''' then Inl (QueueE CheckpointQueueRequired)
      else if find_gateway tenantID gwID s = None then Inl (GatewayE GatewayNotFound)
      else
        (case findEventCheckpointIndexLocked gwID q s of
           None \<Rightarrow> Inl (QueueE CheckpointNotFound)
         | Some k \<Rightarrow> Inr (gr_eventCheckpoints s ! k)))"

definition AddQueueIngestTotal ::
  "env \<Rightarrow> string \<Rightarrow> string \<Rightarrow> string \<Rightarrow> int \<Rightarrow> gatewayService \<Rightarrow>
   (gateway_error, gatewayQueueIngestTotal) result \<times> gatewayService" where
  "AddQueueIngestTotal e tenantID gatewayID queue delta s =
     (let gwID = trim_space gatewayID; q = trim_space queue in
      if gwID = '''' then (Inl (GatewayE GatewayIDRequired), s)
      else if q = '''' then (Inl (QueueE CheckpointQueueRequired), s)
      else if delta \<le> 0 then (Inl (QueueE IngestDeltaInvalid), s)
      else
        (case find_gateway tenantID gwID s of
           None \<Rightarrow> (Inl (GatewayE GatewayNotFound), s)
         | Some i \<Rightarrow>
             let s1 = touch_gateway i (env_now e) s in
             (case findQueueIngestTotalIndexLocked gwID q s1 of
                None \<Rightarrow>
                  let r = \<lparr>gqt_GatewayID = gwID, gqt_Queue = q, gqt_IngestedTotal = delta, gqt_UpdatedAt = env_now e\<rparr> in
                  gateway_return e r (s1\<lparr>gr_queueIngestTotals := gr_queueIngestTotals s1 @ [r]\<rparr>)
              | Some k \<Rightarrow>
                  let old = gr_queueIngestTotals s1 ! k;
                      r = old\<lparr>gqt_IngestedTotal := wrap64 (gqt_IngestedTotal old + delta), gqt_UpdatedAt := env_now e\<rparr> in
                  gateway_return e r (s1\<lparr>gr_queueIngestTotals := (gr_queueIngestTotals s1)[k := r]\<rparr>))))"

definition GetQueueIngestTotal ::
  "string \<Rightarrow> string \<Rightarrow> string \<Rightarrow> gatewayService \<Rightarrow> (gateway_error, gatewayQueueIngestTotal) result" where
  "GetQueueIngestTotal tenantID gatewayID queue s =
     (let gwID = trim_space gatewayID; q = trim_space queue in
      if gwID = '''' then Inl (GatewayE GatewayIDRequired)
      else if q = '''' then Inl (QueueE CheckpointQueueRequired)
      else if find_gateway tenantID gwID s = None then Inl (GatewayE GatewayNotFound)
      else
        (case findQueueIngestTotalIndexLocked gwID q s of
           None \<Rightarrow> Inl (QueueE IngestTotalNotFound)
         | Some k \<Rightarrow> Inr (gr_queueIngestTotals s ! k)))"

section \<open>Commands and firmware tasks\<close>

definition Reboot ::
  "env \<Rightarrow> string \<Rightarrow> string \<Rightarrow> gatewayService \<Rightarrow> (gateway_error, commandAck) result \<times> gatewayService" where
  "Reboot e tenantID gatewayID s =
     (let gwID = trim_space gatewayID in
      if gwID = '''' then (Inl (GatewayE GatewayIDRequired), s)
      else
        (case gateway_id_of ''task_'' (env_rand e) of
           Inl err \<Rightarrow> (Inl err, s)
         | Inr taskID \<Rightarrow>
             (case find_gateway tenantID gwID s of
                None \<Rightarrow> (Inl (GatewayE GatewayNotFound), s)
              | Some i \<Rightarrow>
                  gateway_return e
                    \<lparr>gca_TaskID = taskID, gca_GatewayID = gwID, gca_Command = ''reboot'', gca_Status = ''queued'',
                     gca_CreatedAt = env_now e\<rparr>
                    (set_gateway i ((gr_gateways s ! i)\<lparr>gw_Status := ''online'', gw_LastSeenAt := env_now e\<rparr>) s))))"

definition ota_task ::
  "env \<Rightarrow> string \<Rightarrow> string \<Rightarrow> string \<Rightarrow> string \<Rightarrow> string \<Rightarrow> string \<Rightarrow> string \<Rightarrow> string \<Rightarrow> gatewayOTATask" where
  "ota_task e taskID gwID t v url sha sig by_whom =
     \<lparr>got_ID = taskID, got_GatewayID = gwID, got_TenantID = t, got_FirmwareVersion = v, got_FirmwareURL = url,
      got_FirmwareSHA256 = sha, got_FirmwareSignature = sig, got_Status = ''queued'', got_ErrorMessage = '''',
      got_RequestedBy = by_whom, got_UpdatedBy = by_whom, got_CreatedAt = env_now e, got_UpdatedAt = env_now e\<rparr>"

definition CreateOTATask ::
  "env \<Rightarrow> string \<Rightarrow> string \<Rightarrow> string \<Rightarrow> string \<Rightarrow> string \<Rightarrow> string \<Rightarrow> string \<Rightarrow> gatewayService \<Rightarrow>
   (gateway_error, gatewayOTATask) result \<times> gatewayService" where
  "CreateOTATask e tenantID gatewayID firmwareVersion firmwareURL firmwareSHA256 firmwareSignature requestedBy s =
     (let gwID = trim_space gatewayID; v = trim_space firmwareVersion; url = trim_space firmwareURL;
          sha = to_lower (trim_space firmwareSHA256); sig = to_lower (trim_space firmwareSignature) in
      if gwID = '''' then (Inl (GatewayE GatewayIDRequired), s)
      else if v = '''' then (Inl (OtaE OTAFirmwareVersionRequired), s)
      else if url = '''' then (Inl (OtaE OTAFirmwareURLRequired), s)
      else if sha \<noteq> '''' \<and> \<not> isValidSHA256Hex sha then (Inl (OtaE OTAFirmwareSHA256Invalid), s)
      else if sig \<noteq> '''' \<and> \<not> isValidEd25519SignatureHex sig then (Inl (OtaE OTAFirmwareSignatureInvalid), s)
      else
        (case gateway_id_of ''ota_'' (env_rand e) of
           Inl err \<Rightarrow> (Inl err, s)
         | Inr taskID \<Rightarrow>
             (case find_gateway tenantID gwID s of
                None \<Rightarrow> (Inl (GatewayE GatewayNotFound), s)
              | Some i \<Rightarrow>
                  let t = gw_TenantID (gr_gateways s ! i); s1 = touch_gateway i (env_now e) s;
                      task = ota_task e taskID gwID t v url sha sig (trim_space requestedBy) in
                  if t = '''' then (Inl (GatewayE GatewayNotFound), s1)
                  else gateway_return e task (s1\<lparr>gr_otaTasks := task # gr_otaTasks s1\<rparr>))))"

definition ListOTATasks ::
  "string \<Rightarrow> string \<Rightarrow> gatewayService \<Rightarrow> (gateway_error, gatewayOTATask list) result" where
  "ListOTATasks tenantID gatewayID s =
     (let gwID = trim_space gatewayID in
      if gwID = '''' then Inl (GatewayE GatewayIDRequired)
      else if find_gateway tenantID gwID s = None then Inl (GatewayE GatewayNotFound)
      else Inr (filter (\<lambda>x. got_GatewayID x = gwID) (gr_otaTasks s)))"

definition advance_task :: "time \<Rightarrow> string \<Rightarrow> string \<Rightarrow> string \<Rightarrow> gatewayOTATask \<Rightarrow> gatewayOTATask" where
  "advance_task now st msg by_whom x =
     x\<lparr>got_Status := st, got_ErrorMessage := (if st \<noteq> ''failed'' then '''' else msg),
       got_UpdatedBy := (if by_whom \<noteq> '''' then by_whom else got_UpdatedBy x), got_UpdatedAt := now\<rparr>"

definition UpdateOTATaskStatus ::
  "env \<Rightarrow> string \<Rightarrow> string \<Rightarrow> string \<Rightarrow> string \<Rightarrow> string \<Rightarrow> string \<Rightarrow> gatewayService \<Rightarrow>
   (gateway_error, gatewayOTATask) result \<times> gatewayService" where
  "UpdateOTATaskStatus e tenantID gatewayID taskID status errorMessage updatedBy s =
     (let gwID = trim_space gatewayID; tid = trim_space taskID in
      if gwID = '''' then (Inl (GatewayE GatewayIDRequired), s)
      else if tid = '''' then (Inl (OtaE OTATaskIDRequired), s)
      else
        (case normalizeGatewayOTATaskStatus status of
           Inl err \<Rightarrow> (Inl err, s)
         | Inr st \<Rightarrow>
             (case find_gateway tenantID gwID s of
                None \<Rightarrow> (Inl (GatewayE GatewayNotFound), s)
              | Some i \<Rightarrow>
                  let s1 = touch_gateway i (env_now e) s in
                  (case findOTATaskIndexLocked tid gwID s1 of
                     None \<Rightarrow> (Inl (OtaE OTATaskNotFound), s1)
                   | Some k \<Rightarrow>
                       let x = advance_task (env_now e) st (trim_space errorMessage) (trim_space updatedBy)
                                 (gr_otaTasks s1 ! k) in
                       if \<not> in_scope (trim_space tenantID) (got_TenantID (gr_otaTasks s1 ! k))
                         then (Inl (OtaE OTATaskNotFound), s1)
                       else gateway_return e x (s1\<lparr>gr_otaTasks := (gr_otaTasks s1)[k := x]\<rparr>)))))"

section \<open>Revoked certificates\<close>

definition isCertificateSerialHex :: "char \<Rightarrow> bool" where
  "isCertificateSerialHex c \<longleftrightarrow> (CHR ''0'' \<le> c \<and> c \<le> CHR ''9'') \<or> (CHR ''a'' \<le> c \<and> c \<le> CHR ''f'')"

definition strip_zeros :: "string \<Rightarrow> string" where
  "strip_zeros x = (let y = dropWhile (\<lambda>c. c = CHR ''0'') x in if y = '''' then ''0'' else y)"

definition NormalizeCertificateSerial :: "string \<Rightarrow> string" where
  "NormalizeCertificateSerial raw =
     (let hex = filter isCertificateSerialHex (to_lower (trim_space raw)) in
      if hex = '''' then '''' else strip_zeros hex)"

definition separator :: "char \<Rightarrow> bool" where
  "separator c \<longleftrightarrow> c = CHR '':'' \<or> c = CHR ''-'' \<or> c = CHR '' '' \<or> c = CHR 0x09"

definition normalizeCertificateSerialInput :: "string \<Rightarrow> (gateway_error, string) result" where
  "normalizeCertificateSerialInput raw =
     (let v = to_lower (trim_space raw); hex = filter isCertificateSerialHex v in
      if v = '''' then Inl (CertE CertificateSerialRequired)
      else if \<not> list_all (\<lambda>c. isCertificateSerialHex c \<or> separator c) v then Inl (CertE CertificateSerialInvalid)
      else if hex = '''' then Inl (CertE CertificateSerialRequired)
      else if length (strip_zeros hex) > 128 then Inl (CertE CertificateSerialInvalid)
      else Inr (strip_zeros hex))"

definition clone_revocation :: "gatewayCertificateRevocation \<Rightarrow> gatewayCertificateRevocation" where
  "clone_revocation r = (if gcr_Source r = '''' then r\<lparr>gcr_Source := ''runtime''\<rparr> else r)"

definition ListCertificateRevocations :: "string \<Rightarrow> gatewayService \<Rightarrow> gatewayCertificateRevocation list" where
  "ListCertificateRevocations tenantID s =
     map clone_revocation (list_scoped gcr_TenantID (trim_space tenantID) (gr_certificateRevocations s))"

text \<open>The tenant a revocation is recorded for: the gateway's when one is named.\<close>

definition revocation_tenant :: "string \<Rightarrow> string \<Rightarrow> gatewayService \<Rightarrow> (gateway_error, string) result" where
  "revocation_tenant t gwID s =
     (if gwID = '''' then Inr t
      else
        (case find_gateway t gwID s of
           None \<Rightarrow> Inl (GatewayE GatewayNotFound)
         | Some i \<Rightarrow> Inr (if t = '''' then gw_TenantID (gr_gateways s ! i) else t)))"

definition renew_revocation ::
  "string \<Rightarrow> string \<Rightarrow> gatewayCertificateRevocation \<Rightarrow> gatewayCertificateRevocation \<Rightarrow> gatewayCertificateRevocation" where
  "renew_revocation t gwID new old =
     old\<lparr>gcr_TenantID := (if gcr_TenantID old = '''' then t else gcr_TenantID old),
         gcr_GatewayID := (if gwID \<noteq> '''' then gwID else gcr_GatewayID old),
         gcr_Reason := gcr_Reason new, gcr_RevokedBy := gcr_RevokedBy new, gcr_RevokedAt := gcr_RevokedAt new,
         gcr_Source := ''runtime''\<rparr>"

definition RevokeCertificateSerial ::
  "env \<Rightarrow> string \<Rightarrow> string \<Rightarrow> string \<Rightarrow> string \<Rightarrow> string \<Rightarrow> gatewayService \<Rightarrow>
   (gateway_error, gatewayCertificateRevocation) result \<times> gatewayService" where
  "RevokeCertificateSerial e tenantID gatewayID serialNumber reason revokedBy s =
     (case normalizeCertificateSerialInput serialNumber of
        Inl err \<Rightarrow> (Inl err, s)
      | Inr serial \<Rightarrow>
          (case revocation_tenant (trim_space tenantID) (trim_space gatewayID) s of
             Inl err \<Rightarrow> (Inl err, s)
           | Inr t \<Rightarrow>
               let r = \<lparr>gcr_ID = ''gw_cert_rev_'' @ serial, gcr_TenantID = t, gcr_GatewayID = trim_space gatewayID,
                        gcr_SerialNumber = serial, gcr_Reason = trim_space reason, gcr_RevokedBy = trim_space revokedBy,
                        gcr_RevokedAt = Some (env_now e), gcr_Source = ''runtime''\<rparr> in
               (case find_idx (\<lambda>x. gcr_SerialNumber x = serial) (gr_certificateRevocations s) of
                  Some k \<Rightarrow>
                    let old = gr_certificateRevocations s ! k; x = renew_revocation t (trim_space gatewayID) r old in
                    if t \<noteq> '''' \<and> gcr_TenantID old \<noteq> '''' \<and> gcr_TenantID old \<noteq> t
                      then (Inl (CertE CertificateSerialConflict), s)
                    else gateway_return e (clone_revocation x)
                           (s\<lparr>gr_certificateRevocations := (gr_certificateRevocations s)[k := x]\<rparr>)
                | None \<Rightarrow>
                    gateway_return e (clone_revocation r)
                      (s\<lparr>gr_certificateRevocations := r # gr_certificateRevocations s\<rparr>))))"

definition RestoreCertificateSerial ::
  "env \<Rightarrow> string \<Rightarrow> string \<Rightarrow> gatewayService \<Rightarrow> (gateway_error, gatewayCertificateRevocation) result \<times> gatewayService" where
  "RestoreCertificateSerial e tenantID serialNumber s =
     (case normalizeCertificateSerialInput serialNumber of
        Inl err \<Rightarrow> (Inl err, s)
      | Inr serial \<Rightarrow>
          (case find_idx (\<lambda>x. gcr_SerialNumber x = serial) (gr_certificateRevocations s) of
             None \<Rightarrow> (Inl (CertE CertificateSerialNotFound), s)
           | Some k \<Rightarrow>
               let old = gr_certificateRevocations s ! k in
               if trim_space tenantID \<noteq> '''' \<and> gcr_TenantID old \<noteq> '''' \<and> gcr_TenantID old \<noteq> trim_space tenantID
                 then (Inl (CertE CertificateSerialNotFound), s)
               else gateway_return e (clone_revocation old)
                      (s\<lparr>gr_certificateRevocations := remove_at k (gr_certificateRevocations s)\<rparr>)))"

definition IsCertificateSerialRevoked :: "string \<Rightarrow> gatewayService \<Rightarrow> bool" where
  "IsCertificateSerialRevoked serialNumber s =
     (let serial = NormalizeCertificateSerial serialNumber in
      serial \<noteq> '''' \<and> list_ex (\<lambda>x. gcr_SerialNumber x = serial) (gr_certificateRevocations s))"

section \<open>Steps of the module\<close>

text \<open>A step is labelled with the gateway it removes or the certificate it restores.\<close>

datatype gateway_label = Other | Removes string | Restores string

inductive gateway_step :: "gateway_label \<Rightarrow> gatewayService \<Rightarrow> gatewayService \<Rightarrow> bool" where
  status: "gateway_step Other s (snd (UpdateGatewayStatus e t g st s))"
| register: "\<forall>h. env_rand e = Some h \<longrightarrow> ''gw_'' @ h \<notin> set (map gw_ID (gr_gateways s)) \<Longrightarrow>
     gateway_step Other s (snd (Register e sn t b c s))"
| deassign: "gateway_step (Removes (trim_space g)) s (snd (Deassign e t g s))"
| bind: "gateway_step Other s (snd (BindDoor e t g d s))"
| unbind: "gateway_step Other s (snd (UnbindDoor e t g d s))"
| register_device: "gateway_step Other s (snd (RegisterDevice e t g sn k src st p cfg s))"
| deassign_device: "gateway_step Other s (snd (DeassignDevice e t d s))"
| update_device: "gateway_step Other s (snd (UpdateDevice e t d st p s))"
| reset_tamper: "gateway_step Other s (snd (ResetDeviceTamper e t d s))"
| telemetry: "gateway_step Other s (snd (ReportRS485Telemetry e t g d r s))"
| import_inventory: "gateway_step Other s (snd (ImportSerialInventory e rnd t rs s))"
| inventory_status: "gateway_step Other s (snd (UpdateSerialInventoryStatus e t sn st g s))"
| inventory_batch: "gateway_step Other s (snd (BatchUpdateSerialInventoryStatus e t sns st g s))"
| publish: "gateway_step Other s (snd (PublishConfig e t g v s))"
| applied: "gateway_step Other s (snd (MarkConfigApplied e t g v s))"
| checkpointed: "gateway_step Other s (snd (UpsertEventCheckpoint e t g q c r n at s))"
| ingested: "gateway_step Other s (snd (AddQueueIngestTotal e t g q n s))"
| reboot: "gateway_step Other s (snd (Reboot e t g s))"
| ota_create: "gateway_step Other s (snd (CreateOTATask e t g v url sha sig who s))"
| ota_status: "gateway_step Other s (snd (UpdateOTATaskStatus e t g i st msg who s))"
| revoke: "gateway_step Other s (snd (RevokeCertificateSerial e t g sn reason who s))"
| restore: "gateway_step (Restores (NormalizeCertificateSerial sn)) s (snd (RestoreCertificateSerial e t sn s))"

subsection \<open>The registry\<close>

lemma touch_gateway_ok: "registry_ok s \<Longrightarrow> registry_ok (touch_gateway i now s)"
  unfolding touch_gateway_def by (rule set_gateway_ok) (simp_all add: gateway_key_def)

lemma touch_frame [simp]:
  "gr_certificateRevocations (touch_gateway i now s) = gr_certificateRevocations s"
  "gr_eventCheckpoints (touch_gateway i now s) = gr_eventCheckpoints s"
  by (simp_all add: touch_gateway_def)

lemma config_frame [simp]:
  "gr_gateways (snd (ensureConfigStateLocked g s)) = gr_gateways s"
  "gr_serialInventory (snd (ensureConfigStateLocked g s)) = gr_serialInventory s"
  "gr_certificateRevocations (snd (ensureConfigStateLocked g s)) = gr_certificateRevocations s"
  "gr_eventCheckpoints (snd (ensureConfigStateLocked g s)) = gr_eventCheckpoints s"
  "gr_gateways (set_config k c s) = gr_gateways s"
  "gr_serialInventory (set_config k c s) = gr_serialInventory s"
  "gr_certificateRevocations (set_config k c s) = gr_certificateRevocations s"
  "gr_eventCheckpoints (set_config k c s) = gr_eventCheckpoints s"
  by (simp_all add: ensureConfigStateLocked_def set_config_def split: option.split)

text \<open>The other lists of the state do not matter to the registry.\<close>

lemma registry_ok_other [simp]:
  "registry_ok (set_config k c s) = registry_ok s"
  "registry_ok (snd (ensureConfigStateLocked g s)) = registry_ok s"
  "registry_ok (s\<lparr>gr_eventCheckpoints := cs\<rparr>) = registry_ok s"
  "registry_ok (s\<lparr>gr_queueIngestTotals := qs\<rparr>) = registry_ok s"
  "registry_ok (s\<lparr>gr_otaTasks := xs\<rparr>) = registry_ok s"
  "registry_ok (s\<lparr>gr_certificateRevocations := rs\<rparr>) = registry_ok s"
  by (simp_all add: registry_ok_keys)

lemma status_online_ok:
  "registry_ok s \<Longrightarrow> registry_ok (set_gateway i ((gr_gateways s ! i)\<lparr>gw_Status := st, gw_LastSeenAt := now\<rparr>) s)"
  by (rule set_gateway_ok) (simp_all add: gateway_key_def)

lemma ImportSerialInventory_ok:
  assumes ok: "registry_ok s"
  shows "registry_ok (snd (ImportSerialInventory e rnd t rs s))"
proof -
  have "registry_ok s'" if "import_serials e rnd 0 t' rs s = (r, s')" for t' r s'
    using import_serials_ok [OF ok, of e rnd 0 t' rs] that by simp
  with ok show ?thesis by (auto simp: ImportSerialInventory_def split: prod.split sum.split)
qed

lemma queue_ops_ok:
  assumes "registry_ok s"
  shows "registry_ok (snd (PublishConfig e t g v s))"
    and "registry_ok (snd (MarkConfigApplied e t g v s))"
    and "registry_ok (snd (UpsertEventCheckpoint e t g q c r n at s))"
    and "registry_ok (snd (AddQueueIngestTotal e t g q n s))"
    and "registry_ok (snd (Reboot e t g s))"
    and "registry_ok (snd (CreateOTATask e t g v url sha sig who s))"
    and "registry_ok (snd (UpdateOTATaskStatus e t g i st msg who s))"
    and "registry_ok (snd (RevokeCertificateSerial e t g sn reason who s))"
    and "registry_ok (snd (RestoreCertificateSerial e t sn s))"
  using assms
  by (simp_all add: PublishConfig_def MarkConfigApplied_def UpsertEventCheckpoint_def AddQueueIngestTotal_def
      Reboot_def CreateOTATask_def UpdateOTATaskStatus_def RevokeCertificateSerial_def
      RestoreCertificateSerial_def Let_def case_prod_unfold touch_gateway_ok status_online_ok
      split: option.split sum.split)

lemma gateway_step_ok: "gateway_step l s s' \<Longrightarrow> registry_ok s \<Longrightarrow> registry_ok s'"
  by (induction rule: gateway_step.induct)
    (simp_all add: UpdateGatewayStatus_ok Register_ok Deassign_ok BindDoor_ok UnbindDoor_ok RegisterDevice_ok
      DeassignDevice_ok UpdateDevice_ok ResetDeviceTamper_ok ReportRS485Telemetry_ok ImportSerialInventory_ok
      UpdateSerialInventoryStatus_ok BatchUpdateSerialInventoryStatus_ok queue_ops_ok)

subsection \<open>Checkpoints and revocations\<close>

text \<open>What the two properties below read, and which operations leave it as it is.\<close>

definition unchanged :: "gatewayService \<Rightarrow> gatewayService \<Rightarrow> bool" where
  "unchanged s s' \<longleftrightarrow> gr_eventCheckpoints s' = gr_eventCheckpoints s \<and>
     gr_certificateRevocations s' = gr_certificateRevocations s"

lemma unchanged_refl [simp]: "unchanged s s"
  by (simp add: unchanged_def)

lemma unchanged_set [simp]:
  "unchanged s (set_gateway i g s') = unchanged s s'"
  "unchanged s (set_device i j d s') = unchanged s s'"
  "unchanged s (set_serial i x s') = unchanged s s'"
  "unchanged s (touch_gateway i now s') = unchanged s s'"
  "unchanged s (set_config k c s') = unchanged s s'"
  "unchanged s (snd (ensureConfigStateLocked gw s')) = unchanged s s'"
  "unchanged s (snd (persistLocked_gateway e s')) = unchanged s s'"
  "unchanged s (s'\<lparr>gr_gateways := gs\<rparr>) = unchanged s s'"
  "unchanged s (s'\<lparr>gr_queueIngestTotals := qs\<rparr>) = unchanged s s'"
  "unchanged s (s'\<lparr>gr_otaTasks := ts\<rparr>) = unchanged s s'"
  by (simp_all add: unchanged_def set_device_def)

lemma unchanged_same: "same_serials s s' \<Longrightarrow> unchanged s s'"
  by (simp add: same_serials_def unchanged_def)

lemmas unchanged_serials =
  unchanged_same [OF consume_gateway_same] unchanged_same [OF consume_device_same]
  unchanged_same [OF release_same] unchanged_same [OF transit_same]

lemma unchanged_import: "unchanged s (snd (import_serials e rnd k t rs s))"
proof (induction rs arbitrary: k s)
  case (Cons r rs)
  have more: "snd (case out of (Inl err, s') \<Rightarrow> (Inl err, s') | (Inr xs, s') \<Rightarrow> (Inr (x # xs), s')) = snd out"
    for out :: "(gateway_error, serialInventoryItem list) result \<times> gatewayService" and x
    by (auto split: prod.split sum.split)
  have "unchanged s s'" if "unchanged s1 s'" "unchanged s s1" for s1 s'
    using that by (simp add: unchanged_def)
  from this [OF Cons.IH] Cons.IH show ?case
    by (simp add: Let_def more unchanged_def split: sum.split option.split)
qed simp

lemma registry_ops_unchanged:
  "unchanged s (snd (UpdateGatewayStatus e t g st s))"
  "unchanged s (snd (Register e sn t b c s))"
  "unchanged s (snd (BindDoor e t g d s))"
  "unchanged s (snd (UnbindDoor e t g d s))"
  "unchanged s (snd (DeassignDevice e t d s))"
  "unchanged s (snd (UpdateDevice e t d st p s))"
  "unchanged s (snd (ResetDeviceTamper e t d s))"
  "unchanged s (snd (ReportRS485Telemetry e t g d r s))"
  "unchanged s (snd (UpdateSerialInventoryStatus e t sn st g s))"
  "unchanged s (snd (PublishConfig e t g v s))"
  "unchanged s (snd (MarkConfigApplied e t g v s))"
  "unchanged s (snd (AddQueueIngestTotal e t g q n s))"
  "unchanged s (snd (Reboot e t g s))"
  "unchanged s (snd (CreateOTATask e t g v url sha sig who s))"
  "unchanged s (snd (UpdateOTATaskStatus e t g i st msg who s))"
  by (simp_all add: UpdateGatewayStatus_def Register_def BindDoor_def UnbindDoor_def DeassignDevice_def
      UpdateDevice_def ResetDeviceTamper_def ReportRS485Telemetry_def UpdateSerialInventoryStatus_def
      PublishConfig_def MarkConfigApplied_def AddQueueIngestTotal_def Reboot_def CreateOTATask_def
      UpdateOTATaskStatus_def Let_def case_prod_unfold unchanged_serials split: option.split sum.split)

lemma serial_ops_unchanged:
  "unchanged s (snd (RegisterDevice e t g sn k src st p cfg s))"
  "unchanged s (snd (ImportSerialInventory e rnd t rs s))"
  "unchanged s (snd (BatchUpdateSerialInventoryStatus e t sns st g s))"
proof -
  show "unchanged s (snd (RegisterDevice e t g sn k src st p cfg s))"
    by (auto simp: RegisterDevice_def Let_def unchanged_serials split: sum.splits option.splits)
  have "unchanged s s'" if "import_serials e rnd 0 t' rs s = (r, s')" for t' r s'
    using unchanged_import [of s e rnd 0 t' rs] that by simp
  then show "unchanged s (snd (ImportSerialInventory e rnd t rs s))"
    by (auto simp: ImportSerialInventory_def split: prod.split sum.split)
  have "unchanged s s'" if "transit_serials a b c ks s = (r, s')" for a b c ks r s'
    using unchanged_serials(4) [where s = s and now = a and st = b and gwID = c and ks = ks] that by simp
  then show "unchanged s (snd (BatchUpdateSerialInventoryStatus e t sns st g s))"
    by (auto simp: BatchUpdateSerialInventoryStatus_def split: sum.split prod.split)
qed

lemmas ops_unchanged = registry_ops_unchanged serial_ops_unchanged

text \<open>The count a queue of a gateway has acknowledged.\<close>

abbreviation queue_key :: "gatewayEventCheckpoint \<Rightarrow> string \<times> string" where
  "queue_key c \<equiv> (gec_GatewayID c, gec_Queue c)"

definition acked :: "string \<Rightarrow> string \<Rightarrow> gatewayService \<Rightarrow> int option" where
  "acked g q s = map_option gec_AckedCount
     (find (\<lambda>c. queue_key c = (g, q)) (gr_eventCheckpoints s))"

lemma acked_unchanged: "unchanged s s' \<Longrightarrow> acked g q s' = acked g q s"
  by (simp add: acked_def unchanged_def)

lemma find_filter_keep:
  "(\<And>x. P x \<Longrightarrow> Q x) \<Longrightarrow> find P (filter Q xs) = find P xs"
  by (induction xs) auto

lemma acked_upsert:
  assumes "acked g q s = Some n"
  shows "\<exists>m. acked g q (snd (UpsertEventCheckpoint e t g' q' c r k at s)) = Some m \<and> n \<le> m"
proof -
  let ?key = "(trim_space g', trim_space q')"
  have upd: "\<exists>m. map_option gec_AckedCount (find (\<lambda>x. queue_key x = (g, q))
        ((gr_eventCheckpoints s)[i := checkpoint now (trim_space g') (trim_space q') c' r' k at'])) = Some m \<and> n \<le> m"
    if i: "find_idx (\<lambda>x. queue_key x = ?key) (gr_eventCheckpoints s) = Some i"
      and k: "\<not> k < gec_AckedCount (gr_eventCheckpoints s ! i)" for i now c' r' at'
  proof -
    have "n \<le> k" if "(g, q) = ?key"
      using assms i k that unfolding acked_def find_find_idx that by simp
    with assms show ?thesis
      unfolding acked_def
      by (subst find_update_key [OF i]) (auto simp: checkpoint_def)
  qed
  have new: "find P (xs @ [x]) = find P xs" if "find P xs = Some y" for P and xs :: "gatewayEventCheckpoint list" and x y
    using that by (induction xs) auto
  obtain x where x: "find (\<lambda>c. queue_key c = (g, q)) (gr_eventCheckpoints s) = Some x" "gec_AckedCount x = n"
    using assms by (auto simp: acked_def)
  show ?thesis
    using assms upd x
    by (auto simp: UpsertEventCheckpoint_def Let_def findEventCheckpointIndexLocked_def trim_space_idem acked_def new
        split: option.splits)
qed

lemma release_devices_unchanged: "unchanged s (release_devices now g s)"
  by (rule unchanged_same [OF release_devices_same])

lemma Deassign_lists:
  "gr_certificateRevocations (snd (Deassign e t g s)) = gr_certificateRevocations s"
  "g' \<noteq> trim_space g \<Longrightarrow> acked g' q (snd (Deassign e t g s)) = acked g' q s"
proof -
  have u: "unchanged s (release_devices now x (releaseSerialInventoryLocked sn t' now' s))" for now x sn t' now'
    using release_devices_unchanged [of "releaseSerialInventoryLocked sn t' now' s" now x]
      unchanged_serials(3) [of s sn t' now'] by (simp add: unchanged_def)
  then show "gr_certificateRevocations (snd (Deassign e t g s)) = gr_certificateRevocations s"
    by (simp add: Deassign_def Let_def unchanged_def removeGatewayRuntimeStateLocked_def split: option.split)
  assume "g' \<noteq> trim_space g"
  then have "find (\<lambda>c. queue_key c = (g', q)) (filter (\<lambda>c. gec_GatewayID c \<noteq> trim_space g) cs) =
      find (\<lambda>c. queue_key c = (g', q)) cs" for cs
    by (intro find_filter_keep) auto
  with u show "acked g' q (snd (Deassign e t g s)) = acked g' q s"
    by (simp add: Deassign_def Let_def unchanged_def removeGatewayRuntimeStateLocked_def acked_def trim_space_idem
        split: option.split)
qed

lemma certificate_ops_checkpoints:
  "gr_eventCheckpoints (snd (RevokeCertificateSerial e t g sn reason who s)) = gr_eventCheckpoints s"
  "gr_eventCheckpoints (snd (RestoreCertificateSerial e t sn s)) = gr_eventCheckpoints s"
  "gr_certificateRevocations (snd (UpsertEventCheckpoint e t g q c r n at s)) = gr_certificateRevocations s"
  by (simp_all add: RevokeCertificateSerial_def RestoreCertificateSerial_def UpsertEventCheckpoint_def Let_def
      split: sum.split option.split)

lemma step_acked:
  assumes "gateway_step l s s'" and "l \<noteq> Removes g" and "acked g q s = Some n"
  shows "\<exists>m. acked g q s' = Some m \<and> n \<le> m"
  using assms
proof (induction rule: gateway_step.induct)
  case (checkpointed s e t g' q' c r n' at)
  then show ?case by (intro acked_upsert) simp
next
  case (deassign g' s e t)
  then show ?case by (auto simp: Deassign_lists)
next
  case (revoke s e t g' sn reason who)
  then show ?case unfolding acked_def certificate_ops_checkpoints by auto
next
  case (restore sn s e t)
  then show ?case unfolding acked_def certificate_ops_checkpoints by auto
qed (simp_all add: ops_unchanged [THEN acked_unchanged])

text \<open>The two normalisations of a certificate serial agree on the serials the administrator may
  enter.\<close>

lemma serial_input_normal: "normalizeCertificateSerialInput raw = Inr x \<Longrightarrow> x = NormalizeCertificateSerial raw \<and> x \<noteq> ''''"
  by (auto simp: normalizeCertificateSerialInput_def NormalizeCertificateSerial_def strip_zeros_def Let_def split: if_splits)

definition revoked :: "string \<Rightarrow> gatewayService \<Rightarrow> bool" where
  "revoked x s \<longleftrightarrow> x \<in> gcr_SerialNumber ` set (gr_certificateRevocations s)"

lemma IsCertificateSerialRevoked_iff:
  "IsCertificateSerialRevoked raw s \<longleftrightarrow> NormalizeCertificateSerial raw \<noteq> '''' \<and> revoked (NormalizeCertificateSerial raw) s"
  unfolding IsCertificateSerialRevoked_def Let_def revoked_def list_ex_iff image_iff by metis

lemma revoked_unchanged: "unchanged s s' \<Longrightarrow> revoked x s' = revoked x s"
  by (simp add: revoked_def unchanged_def)

lemma revoked_persist [simp]: "revoked x (snd (persistLocked_gateway e s)) = revoked x s"
  by (simp add: revoked_def)

lemma renew_serial: "gcr_SerialNumber (renew_revocation t g r old) = gcr_SerialNumber old"
  by (simp add: renew_revocation_def)

lemma RevokeCertificateSerial_keeps:
  "revoked x s \<Longrightarrow> revoked x (snd (RevokeCertificateSerial e t g sn reason who s))"
proof -
  assume x: "revoked x s"
  have "x \<in> gcr_SerialNumber ` set ((gr_certificateRevocations s)[k := renew_revocation t' g' r (gr_certificateRevocations s ! k)])"
    for k t' g' r
    using x map_update_same [of gcr_SerialNumber "renew_revocation t' g' r (gr_certificateRevocations s ! k)"
        "gr_certificateRevocations s" k, OF renew_serial]
    by (metis revoked_def set_map)
  with x show ?thesis
    by (simp add: RevokeCertificateSerial_def Let_def revoked_def split: sum.split option.split)
qed

lemma revoke_effect:
  assumes "RevokeCertificateSerial e t g sn reason who s = (Inr r, s')"
  shows "revoked (NormalizeCertificateSerial sn) s'"
proof -
  from assms obtain x where x: "normalizeCertificateSerialInput sn = Inr x"
    by (auto simp: RevokeCertificateSerial_def split: sum.splits)
  have ret: "s2 = snd (persistLocked_gateway e s1)" if "gateway_return e v s1 = (Inr y, s2)"
    for v y and s1 s2 :: gatewayService
    using that by (auto simp: gateway_return_def split: prod.splits bool.splits)
  have "x \<in> gcr_SerialNumber ` set (gr_certificateRevocations s')"
  proof (cases "find_idx (\<lambda>y. gcr_SerialNumber y = x) (gr_certificateRevocations s)")
    case None
    with assms x show ?thesis
      by (auto simp: RevokeCertificateSerial_def Let_def dest!: ret split: sum.splits)
  next
    case (Some k)
    then have "revoked x s" using find_idx_SomeD(1,2) [OF Some] by (auto simp: revoked_def)
    with assms show ?thesis using RevokeCertificateSerial_keeps [of x s e t g sn reason who] by (simp add: revoked_def)
  qed
  with serial_input_normal [OF x] show ?thesis by (simp add: revoked_def)
qed

lemma RestoreCertificateSerial_keeps:
  assumes "revoked x s" and "x \<noteq> NormalizeCertificateSerial sn"
  shows "revoked x (snd (RestoreCertificateSerial e t sn s))"
proof -
  have "revoked x (s\<lparr>gr_certificateRevocations := remove_at k (gr_certificateRevocations s)\<rparr>)"
    if "find_idx (\<lambda>y. gcr_SerialNumber y = n) (gr_certificateRevocations s) = Some k" "n \<noteq> x" for k n
  proof -
    note k = find_idx_SomeD(1,2) [OF that(1)]
    from assms(1) obtain y where y: "y \<in> set (gr_certificateRevocations s)" "gcr_SerialNumber y = x"
      by (auto simp: revoked_def)
    have "filter (\<lambda>z. gcr_SerialNumber z = x) (remove_at k (gr_certificateRevocations s)) =
          filter (\<lambda>z. gcr_SerialNumber z = x) (gr_certificateRevocations s)"
      using k that(2) by (intro filter_remove_at) auto
    moreover have "y \<in> set (filter (\<lambda>z. gcr_SerialNumber z = x) (gr_certificateRevocations s))"
      using y by simp
    ultimately have "y \<in> set (filter (\<lambda>z. gcr_SerialNumber z = x) (remove_at k (gr_certificateRevocations s)))"
      by simp
    with y(2) show ?thesis by (auto simp: revoked_def)
  qed
  with assms show ?thesis
    by (auto simp: RestoreCertificateSerial_def Let_def dest!: serial_input_normal split: sum.split option.split)
qed

lemma step_revoked:
  assumes "gateway_step l s s'" and "l \<noteq> Restores x" and "revoked x s"
  shows "revoked x s'"
  using assms
proof (induction rule: gateway_step.induct)
  case (revoke s e t g sn reason who)
  then show ?case by (simp add: RevokeCertificateSerial_keeps)
next
  case (restore sn s e t)
  then show ?case by (simp add: RestoreCertificateSerial_keeps)
next
  case (deassign g s e t)
  then show ?case by (simp add: revoked_def Deassign_lists)
next
  case (checkpointed s e t g q c r n at)
  then show ?case by (simp add: revoked_def certificate_ops_checkpoints)
qed (simp_all add: ops_unchanged [THEN revoked_unchanged])

section \<open>Properties\<close>

definition demo_gateway :: gateway where
  "demo_gateway = \<lparr>gw_ID = ''gw_1'', gw_TenantID = ''t1'', gw_SerialNumber = ''MP-GW-001'', gw_BuildingID = ''b1'',
     gw_DeviceCapacity = 4, gw_Devices = [], gw_Status = ''revoked'', gw_LastSeenAt = 0, gw_BoundDoorIDs = [''d1'']\<rparr>"

definition demo_registry :: gatewayService where
  "demo_registry = \<lparr>gr_gateways = [demo_gateway], gr_serialInventory = [], gr_certificateRevocations = [],
     gr_configStates = [], gr_eventCheckpoints = [checkpoint 0 ''gw_1'' ''q'' ''c1'' '''' 5 None],
     gr_queueIngestTotals = [], gr_otaTasks = [], gr_store = Store None\<rparr>"

definition gateway_env :: env where
  "gateway_env = \<lparr>env_now = 9, env_save_ok = True, env_rand = Some ''aa''\<rparr>"

abbreviation demo_import :: "serialInventoryImportItem list" where
  "demo_import \<equiv> [\<lparr>gii_SerialNumber = ''mp-gw-002'', gii_ProductType = ''gateway'', gii_BatchCode = '''', gii_Source = ''''\<rparr>]"

text \<open>C5: Through every run of the gateway module's operations, refused and unsaved ones included, gateway
  identifiers stay unique, no serial number is registered or provisioned twice (letter case aside),
  no gateway holds more devices than its capacity of four or eight, and every device names the
  gateway that holds it.\<close>

theorem registry_consistent:
  assumes "(\<lambda>s s'. \<exists>l. gateway_step l s s')\<^sup>*\<^sup>* s s'" and "registry_ok s"
  shows "registry_ok s'"
  using assms by (induction rule: rtranclp_induct) (auto intro: gateway_step_ok)

theorem registry_consistent_witness:
  "registry_ok (snd (Register gateway_env ''MP-gw-002'' ''t1'' '''' 8
     (snd (ImportSerialInventory gateway_env (\<lambda>_. Some ''bb'') ''t1'' demo_import demo_registry))))"
proof (rule registry_consistent)
  let ?s = "snd (ImportSerialInventory gateway_env (\<lambda>_. Some ''bb'') ''t1'' demo_import demo_registry)"
  have f: "\<forall>h. env_rand gateway_env = Some h \<longrightarrow> ''gw_'' @ h \<notin> set (map gw_ID (gr_gateways ?s))"
    by (simp add: gateway_env_def demo_registry_def demo_gateway_def ImportSerialInventory_def) code_simp
  show "(\<lambda>s s'. \<exists>l. gateway_step l s s')\<^sup>*\<^sup>* demo_registry (snd (Register gateway_env ''MP-gw-002'' ''t1'' '''' 8 ?s))"
    by (rule rtranclp.rtrancl_into_rtrancl [OF r_into_rtranclp])
      (intro exI, rule import_inventory, intro exI, rule register [OF f])
  show "registry_ok demo_registry" by code_simp
qed

text \<open>C6: While a gateway is registered, the number of events one of its queues has acknowledged never
  goes down, whatever operations run in between; only removing the gateway forgets it.\<close>

theorem checkpoint_monotone:
  assumes "(\<lambda>s s'. \<exists>l. gateway_step l s s' \<and> l \<noteq> Removes g)\<^sup>*\<^sup>* s s'" and "acked g q s = Some n"
  shows "\<exists>m. acked g q s' = Some m \<and> n \<le> m"
  using assms
proof (induction rule: rtranclp_induct)
  case (step s1 s2)
  then obtain m l where m: "acked g q s1 = Some m" "n \<le> m" and l: "gateway_step l s1 s2" "l \<noteq> Removes g" by auto
  from step_acked [OF l m(1)] m(2) show ?case by force
qed auto

theorem checkpoint_monotone_witness:
  "\<exists>m. acked ''gw_1'' ''q'' (snd (UpsertEventCheckpoint gateway_env ''t1'' ''gw_1'' ''q'' ''c0'' '''' 3 None demo_registry)) = Some m
     \<and> 5 \<le> m"
proof (rule checkpoint_monotone)
  show "(\<lambda>s s'. \<exists>l. gateway_step l s s' \<and> l \<noteq> Removes ''gw_1'')\<^sup>*\<^sup>* demo_registry
      (snd (UpsertEventCheckpoint gateway_env ''t1'' ''gw_1'' ''q'' ''c0'' '''' 3 None demo_registry))"
    by (intro r_into_rtranclp exI [of _ Other] conjI checkpointed) simp
  show "acked ''gw_1'' ''q'' demo_registry = Some 5" by code_simp
qed

text \<open>A revoked client certificate is refused under every spelling of its serial number (case, colons,
  dashes, blanks, leading zeros) until exactly that serial is restored, whatever else runs.\<close>

lemma revoked_certificate_refused:
  assumes "RevokeCertificateSerial e t g sn reason who s = (Inr r, s')"
    and "(\<lambda>s s'. \<exists>l. gateway_step l s s' \<and> l \<noteq> Restores (NormalizeCertificateSerial sn))\<^sup>*\<^sup>* s' s''"
    and "NormalizeCertificateSerial raw = NormalizeCertificateSerial sn"
  shows "IsCertificateSerialRevoked raw s''"
proof -
  from assms(1) have ne: "NormalizeCertificateSerial sn \<noteq> ''''"
    by (auto simp: RevokeCertificateSerial_def dest: serial_input_normal split: sum.splits)
  from assms(2) revoke_effect [OF assms(1)] have "revoked (NormalizeCertificateSerial sn) s''"
    by (induction rule: rtranclp_induct) (auto intro: step_revoked)
  with ne assms(3) show ?thesis by (simp add: IsCertificateSerialRevoked_iff)
qed

lemma revoked_certificate_refused_instance:
  "IsCertificateSerialRevoked ''0a:1B''
     (snd (Reboot gateway_env ''t1'' ''gw_1''
       (snd (RevokeCertificateSerial gateway_env ''t1'' ''gw_1'' ''A1-b'' ''lost'' ''ops'' demo_registry))))"
proof (rule revoked_certificate_refused)
  let ?r = "RevokeCertificateSerial gateway_env ''t1'' ''gw_1'' ''A1-b'' ''lost'' ''ops'' demo_registry"
  show "?r = (Inr (projr (fst ?r)), snd ?r)" by code_simp
  show "(\<lambda>s s'. \<exists>l. gateway_step l s s' \<and> l \<noteq> Restores (NormalizeCertificateSerial ''A1-b''))\<^sup>*\<^sup>* (snd ?r)
      (snd (Reboot gateway_env ''t1'' ''gw_1'' (snd ?r)))"
    by (intro r_into_rtranclp exI [of _ Other] conjI reboot) simp
  show "NormalizeCertificateSerial ''0a:1B'' = NormalizeCertificateSerial ''A1-b''" by code_simp
qed

section \<open>Divergences\<close>

text \<open>A revoked gateway is back online after a reboot command: the status that bars it from
  authenticating is overwritten.\<close>

lemma reboot_unrevokes:
  "map gw_Status (gr_gateways demo_registry) = [''revoked'']"
  "map gw_Status (gr_gateways (snd (Reboot gateway_env ''t1'' ''gw_1'' demo_registry))) = [''online'']"
  by code_simp+

text \<open>A door can be bound to two gateways; only the first is found for it.\<close>

lemma door_bound_twice:
  defines "g2 \<equiv> demo_gateway\<lparr>gw_ID := ''gw_2'', gw_SerialNumber := ''MP-GW-002'', gw_BoundDoorIDs := []\<rparr>"
  defines "s \<equiv> snd (BindDoor gateway_env ''t1'' ''gw_2'' ''d1'' (demo_registry\<lparr>gr_gateways := [demo_gateway, g2]\<rparr>))"
  shows "map gw_BoundDoorIDs (gr_gateways s) = [[''d1''], [''d1'']]"
    and "map_option gw_ID (FindGatewayByDoorID ''t1'' ''d1'' s) = Some ''gw_1''"
  unfolding s_def g2_def by code_simp+

end
