(* ===== verification/Gateway_Request.thy ===== *)
theory Gateway_Request
  imports Gateway_Queues
begin

text \<open>
  \<open>internal/http/router_middleware.go\<close> and \<open>gateway_device_request.go\<close>: how a request of a gateway
  device is authenticated, by a verified client certificate or a device token, and protected
  against replay by a nonce and a timestamp.  The token store and the shared nonce store are
  parameters of one call (\<open>backends\<close>: absent, or the store's answer); without a nonce store
  the server keeps the nonces itself, which is the case the replay property is about.
\<close>

section \<open>Requests and the server's state\<close>

record certificate =
  ct_CommonName :: string
  ct_Organization :: "string list"
  ct_SerialNumber :: "string option"

record gatewayRequest =
  rq_DeviceToken :: string
  rq_Authorization :: string
  rq_Nonce :: string
  rq_Timestamp :: string
  rq_TLS :: "(certificate list \<times> certificate list list) option"
  rq_MTLSRequired :: bool

record backends =
  bk_tokens :: "(string \<Rightarrow> string \<Rightarrow> (unit, bool \<times> bool) result) option"
  bk_nonces :: "(string \<Rightarrow> string \<Rightarrow> int \<Rightarrow> (unit, bool) result) option"

record requestServer =
  rs_gatewaySvc :: "gatewayService option"
  rs_deviceTokens :: "string \<rightharpoonup> string"
  rs_nonces :: "string \<rightharpoonup> time"
  rs_RevokedSerials :: "string list"
  rs_RequireRequestNonce :: bool

text \<open>A refusal is the HTTP status and message; \<open>None\<close> lets the request through.\<close>

type_synonym refusal = "nat \<times> string"

section \<open>Client certificates\<close>

definition gatewayCertificateStatusRevoked :: "string \<Rightarrow> bool" where
  "gatewayCertificateStatusRevoked status \<longleftrightarrow> to_lower (trim_space status) \<in> {''disabled'', ''revoked''}"

definition gatewayIdentityStatusRevoked :: "string \<Rightarrow> requestServer \<Rightarrow> bool" where
  "gatewayIdentityStatusRevoked gatewayID s =
     (case rs_gatewaySvc s of
        None \<Rightarrow> False
      | Some svc \<Rightarrow>
          trim_space gatewayID \<noteq> '''' \<and>
          (case FindGatewayByID '''' (trim_space gatewayID) svc of
             None \<Rightarrow> False | Some g \<Rightarrow> gatewayCertificateStatusRevoked (gw_Status g)))"

definition verifiedGatewayClientCertificate :: "gatewayRequest \<Rightarrow> certificate option" where
  "verifiedGatewayClientCertificate r =
     (case rq_TLS r of
        Some (leaf # _, verified) \<Rightarrow>
          if list_ex (\<lambda>chain. case chain of [] \<Rightarrow> False | c # _ \<Rightarrow> c = leaf) verified then Some leaf else None
      | _ \<Rightarrow> None)"

definition gatewayClientSerialRevoked :: "string \<Rightarrow> requestServer \<Rightarrow> bool" where
  "gatewayClientSerialRevoked serialNumber s =
     (let serial = NormalizeCertificateSerial serialNumber in
      serial \<noteq> '''' \<and>
      (list_ex (\<lambda>x. NormalizeCertificateSerial x = serial) (rs_RevokedSerials s) \<or>
       (case rs_gatewaySvc s of None \<Rightarrow> False | Some svc \<Rightarrow> IsCertificateSerialRevoked serial svc)))"

definition gatewayClientCertificateRevoked :: "certificate \<Rightarrow> requestServer \<Rightarrow> bool" where
  "gatewayClientCertificateRevoked c s =
     (case ct_SerialNumber c of None \<Rightarrow> False | Some x \<Rightarrow> gatewayClientSerialRevoked x s)"

definition authorizeGatewayClientCertificate :: "gatewayRequest \<Rightarrow> string \<Rightarrow> requestServer \<Rightarrow> bool" where
  "authorizeGatewayClientCertificate r gatewayID s =
     (case verifiedGatewayClientCertificate r of
        None \<Rightarrow> False
      | Some c \<Rightarrow>
          if gatewayClientCertificateRevoked c s then False
          else if trim_space gatewayID = '''' \<or> trim_space (ct_CommonName c) \<noteq> trim_space gatewayID then False
          else
            (case rs_gatewaySvc s of
               None \<Rightarrow> True
             | Some svc \<Rightarrow>
                 (case FindGatewayByID '''' (trim_space gatewayID) svc of
                    None \<Rightarrow> False
                  | Some g \<Rightarrow>
                      \<not> gatewayCertificateStatusRevoked (gw_Status g) \<and>
                      (case ct_Organization c of
                         [] \<Rightarrow> False | org # _ \<Rightarrow> trim_space org = trim_space (gw_TenantID g)))))"

section \<open>Device tokens\<close>

definition bearerToken :: "string \<Rightarrow> string option" where
  "bearerToken authHeader =
     (let header = trim_space authHeader; token = trim_space (drop 7 header) in
      if take 7 header \<noteq> ''Bearer '' then None else if token = '''' then None else Some token)"

definition provided_token :: "gatewayRequest \<Rightarrow> string" where
  "provided_token r =
     (if trim_space (rq_DeviceToken r) \<noteq> '''' then trim_space (rq_DeviceToken r)
      else get_or '''' (bearerToken (rq_Authorization r)))"

definition authorizeGatewayDeviceToken ::
  "backends \<Rightarrow> gatewayRequest \<Rightarrow> string \<Rightarrow> requestServer \<Rightarrow> refusal option" where
  "authorizeGatewayDeviceToken b r gatewayID s =
     (let provided = provided_token r; gwID = trim_space gatewayID in
      if gatewayIdentityStatusRevoked gatewayID s then Some (401, ''gateway revoked'')
      else if authorizeGatewayClientCertificate r gatewayID s then None
      else if rq_MTLSRequired r then Some (401, ''valid gateway client certificate required'')
      else if provided = '''' then Some (401, ''missing device token'')
      else
        (case bk_tokens b of
           Some verify \<Rightarrow>
             (case verify gwID provided of
                Inl _ \<Rightarrow> Some (500, ''device token verification failed'')
              | Inr (exists_, matched) \<Rightarrow>
                  if exists_ \<and> matched then None
                  else if \<not> exists_ then Some (401, ''device not registered'')
                  else Some (401, ''invalid device token''))
         | None \<Rightarrow>
             (case rs_deviceTokens s gwID of
                None \<Rightarrow> Some (401, ''device not registered'')
              | Some expected \<Rightarrow>
                  if trim_space expected = '''' then Some (401, ''device not registered'')
                  else if provided = expected then None
                  else Some (401, ''invalid device token''))))"

section \<open>Nonces\<close>

definition nonceWindow :: int where "nonceWindow = 5 * ns_minute"

definition drop_expired :: "time \<Rightarrow> (string \<rightharpoonup> time) \<Rightarrow> (string \<rightharpoonup> time)" where
  "drop_expired now m = (\<lambda>k. case m k of None \<Rightarrow> None | Some ex \<Rightarrow> if now > ex then None else Some ex)"

definition validateGatewayRequestNonce ::
  "backends \<Rightarrow> time \<Rightarrow> gatewayRequest \<Rightarrow> string \<Rightarrow> requestServer \<Rightarrow> refusal option \<times> requestServer" where
  "validateGatewayRequestNonce b now r gatewayID s =
     (let nonce = trim_space (rq_Nonce r); tsRaw = trim_space (rq_Timestamp r) in
      if nonce = '''' \<and> tsRaw = '''' then
        (if rs_RequireRequestNonce s then Some (401, ''gateway request nonce required'') else None, s)
      else if nonce = '''' \<or> tsRaw = '''' then (Some (400, ''X-Request-Nonce and X-Request-Timestamp must both be present''), s)
      else
        (case parse_rfc3339 tsRaw of
           None \<Rightarrow> (Some (400, ''invalid X-Request-Timestamp format''), s)
         | Some ts \<Rightarrow>
             if time_sub now ts > nonceWindow \<or> time_sub ts now > nonceWindow
               then (Some (401, ''request timestamp outside acceptable window''), s)
             else
               (case bk_nonces b of
                  Some mark \<Rightarrow>
                    (case mark gatewayID nonce nonceWindow of
                       Inl _ \<Rightarrow> (Some (503, ''gateway request nonce store unavailable''), s)
                     | Inr inserted \<Rightarrow> (if inserted then None else Some (409, ''duplicate request nonce''), s))
                | None \<Rightarrow>
                    let live = drop_expired now (rs_nonces s); key = trim_space gatewayID @ '':'' @ nonce in
                    if live key \<noteq> None then (Some (409, ''duplicate request nonce''), s\<lparr>rs_nonces := live\<rparr>)
                    else (None, s\<lparr>rs_nonces := live(key \<mapsto> now + nonceWindow)\<rparr>))))"

definition authorizeGatewayHTTPDeviceRequest ::
  "backends \<Rightarrow> time \<Rightarrow> gatewayRequest \<Rightarrow> string \<Rightarrow> requestServer \<Rightarrow> refusal option \<times> requestServer" where
  "authorizeGatewayHTTPDeviceRequest b now r gatewayID s =
     (case authorizeGatewayDeviceToken b r gatewayID s of
        Some err \<Rightarrow> (Some err, s)
      | None \<Rightarrow> validateGatewayRequestNonce b now r gatewayID s)"

definition findGatewayByTenant :: "string \<Rightarrow> string \<Rightarrow> gatewayService \<Rightarrow> gateway option" where
  "findGatewayByTenant tenantID gatewayID svc =
     (if trim_space gatewayID = '''' then None
      else find (\<lambda>g. gw_ID g = trim_space gatewayID) (List_gateway (trim_space tenantID) svc))"

section \<open>Replay\<close>

text \<open>The answers of the server to a sequence of calls (time, request, gateway), and its state.\<close>

fun nonce_run :: "backends \<Rightarrow> (time \<times> gatewayRequest \<times> string) list \<Rightarrow> requestServer \<Rightarrow> requestServer" where
  "nonce_run b [] s = s"
| "nonce_run b ((now, r, g) # calls) s = nonce_run b calls (snd (validateGatewayRequestNonce b now r g s))"

abbreviation nonce_key :: "gatewayRequest \<Rightarrow> string \<Rightarrow> string" where
  "nonce_key r g \<equiv> trim_space g @ '':'' @ trim_space (rq_Nonce r)"

text \<open>A stored nonce stays until a call later than its expiry.\<close>

lemma validate_keeps:
  assumes "rs_nonces s k = Some ex" and "now \<le> ex"
  shows "rs_nonces (snd (validateGatewayRequestNonce b now r g s)) k = Some ex"
proof -
  have live: "drop_expired now (rs_nonces s) k = Some ex"
    using assms by (simp add: drop_expired_def)
  then have "drop_expired now (rs_nonces s) key = None \<Longrightarrow> k \<noteq> key" for key by auto
  with assms live show ?thesis
    by (auto simp: validateGatewayRequestNonce_def Let_def split: option.split sum.split)
qed

lemma run_keeps:
  "rs_nonces s k = Some ex \<Longrightarrow> list_all (\<lambda>(now, _). now \<le> ex) calls \<Longrightarrow>
   rs_nonces (nonce_run b calls s) k = Some ex"
proof (induction calls arbitrary: s)
  case (Cons c calls)
  then show ?case by (cases c) (simp add: validate_keeps)
qed simp

lemma accepted_stores:
  assumes "validateGatewayRequestNonce b now r g s = (None, s')" and "bk_nonces b = None"
    and "trim_space (rq_Nonce r) \<noteq> ''''"
  shows "rs_nonces s' (nonce_key r g) = Some (now + nonceWindow)"
    and "\<exists>ts. parse_rfc3339 (trim_space (rq_Timestamp r)) = Some ts"
  using assms
  by (auto simp: validateGatewayRequestNonce_def Let_def split: if_splits option.splits)

lemma window_closed:
  assumes "now - ts > nonceWindow" and "parse_rfc3339 (trim_space (rq_Timestamp r)) = Some ts"
    and "trim_space (rq_Nonce r) \<noteq> ''''"
  shows "fst (validateGatewayRequestNonce b now r g s) \<noteq> None"
proof -
  have "time_sub now ts > nonceWindow"
    using assms(1) by (subst time_sub_gt_iff) (simp_all add: nonceWindow_def ns_minute_def ns_second_def)
  with assms show ?thesis by (simp add: validateGatewayRequestNonce_def Let_def)
qed

lemma duplicate_refused:
  assumes "rs_nonces s (nonce_key r g) = Some ex" and "now \<le> ex" and "bk_nonces b = None"
    and "trim_space (rq_Nonce r) \<noteq> ''''"
  shows "fst (validateGatewayRequestNonce b now r g s) \<noteq> None"
  using assms
  by (simp add: validateGatewayRequestNonce_def Let_def drop_expired_def split: option.split)

text \<open>A request whose timestamp is not in the future and that the server accepted once is refused when
  it is sent again, at any later time and after any other requests.\<close>

lemma request_replay_refused:
  assumes accepted: "validateGatewayRequestNonce b now r g s = (None, s')"
    and memory: "bk_nonces b = None" and nonce: "trim_space (rq_Nonce r) \<noteq> ''''"
    and past: "parse_rfc3339 (trim_space (rq_Timestamp r)) = Some ts" "ts \<le> now"
    and order: "list_all (\<lambda>(t, _). t \<le> later) calls"
  shows "fst (validateGatewayRequestNonce b later r g (nonce_run b calls s')) \<noteq> None"
proof (cases "later \<le> now + nonceWindow")
  case True
  with order have "list_all (\<lambda>(t, _). t \<le> now + nonceWindow) calls"
    by (auto simp: list_all_iff)
  then have "rs_nonces (nonce_run b calls s') (nonce_key r g) = Some (now + nonceWindow)"
    by (rule run_keeps [OF accepted_stores(1) [OF accepted memory nonce]])
  then show ?thesis using True memory nonce by (rule duplicate_refused)
next
  case False
  with past(2) have "later - ts > nonceWindow" by simp
  then show ?thesis using past(1) nonce by (rule window_closed)
qed

definition demo_request :: gatewayRequest where
  "demo_request = \<lparr>rq_DeviceToken = ''tok'', rq_Authorization = '''', rq_Nonce = ''n1'',
     rq_Timestamp = ''1970-01-01T00:04:00Z'', rq_TLS = None, rq_MTLSRequired = False\<rparr>"

definition demo_request_server :: requestServer where
  "demo_request_server = \<lparr>rs_gatewaySvc = None, rs_deviceTokens = [''gw_1'' \<mapsto> ''tok''], rs_nonces = (\<lambda>_. None),
     rs_RevokedSerials = [], rs_RequireRequestNonce = True\<rparr>"

abbreviation no_backends :: backends where
  "no_backends \<equiv> \<lparr>bk_tokens = None, bk_nonces = None\<rparr>"

lemma request_replay_refused_instance:
  "fst (validateGatewayRequestNonce no_backends (6 * ns_minute) demo_request ''gw_1''
     (nonce_run no_backends [(5 * ns_minute, demo_request\<lparr>rq_Nonce := ''n2''\<rparr>, ''gw_1'')]
       (snd (validateGatewayRequestNonce no_backends (4 * ns_minute) demo_request ''gw_1'' demo_request_server)))) \<noteq> None"
proof (rule request_replay_refused)
  have "fst (validateGatewayRequestNonce no_backends (4 * ns_minute) demo_request ''gw_1'' demo_request_server) = None"
    by code_simp
  then show "validateGatewayRequestNonce no_backends (4 * ns_minute) demo_request ''gw_1'' demo_request_server =
      (None, snd (validateGatewayRequestNonce no_backends (4 * ns_minute) demo_request ''gw_1'' demo_request_server))"
    by (simp add: prod_eq_iff)
  show "parse_rfc3339 (trim_space (rq_Timestamp demo_request)) = Some (4 * ns_minute)" by code_simp
  show "trim_space (rq_Nonce demo_request) \<noteq> ''''" by code_simp
qed (simp_all add: ns_minute_def ns_second_def)

text \<open>A timestamp ahead of the server's clock outlives the stored nonce: the same request is
  accepted a second time six minutes later.\<close>

lemma future_timestamp_replays:
  "fst (validateGatewayRequestNonce no_backends 0 demo_request ''gw_1'' demo_request_server) = None"
  "fst (validateGatewayRequestNonce no_backends (6 * ns_minute) demo_request ''gw_1''
     (snd (validateGatewayRequestNonce no_backends 0 demo_request ''gw_1'' demo_request_server))) = None"
  by code_simp+

end
