(* ===== verification/Access_Directory.thy ===== *)
theory Access_Directory
  imports Access_State
begin

text \<open>
  Users, guests, roles and role assignments of the access module: the first part of
  \<open>service_users.go\<close>, the guest and role sections of \<open>service_policies.go\<close> and the role
  assignment operations of \<open>service.go\<close>.  The copies the code returns are the values
  themselves here.  Deleting users, which also edits user groups and team memberships, is in
  \<open>Access_Groups\<close>.
\<close>

section \<open>Users\<close>

definition ListUsers :: "string \<Rightarrow> accessService \<Rightarrow> accessUser list" where
  "ListUsers tenantID s = list_scoped us_TenantID (trim_space tenantID) (ac_users s)"

definition find_user :: "string \<Rightarrow> string \<Rightarrow> accessService \<Rightarrow> nat option" where
  "find_user tenantID userID s =
     (if trim_space userID = '''' then None
      else lookup_strict us_ID us_TenantID (trim_space tenantID) (trim_space userID) (ac_users s))"

definition GetUser :: "string \<Rightarrow> string \<Rightarrow> accessService \<Rightarrow> (access_error, accessUser) result" where
  "GetUser tenantID userID s =
     (case find_user tenantID userID s of
        None \<Rightarrow> Inl UserNotFound | Some i \<Rightarrow> Inr (ac_users s ! i))"

definition FindUserByEmail :: "string \<Rightarrow> string \<Rightarrow> accessService \<Rightarrow> accessUser option" where
  "FindUserByEmail tenantID email s =
     (if normalizeEmail email = '''' then None
      else find (\<lambda>u. in_scope (trim_space tenantID) (us_TenantID u) \<and>
                     normalizeEmail (us_Email u) = normalizeEmail email) (ac_users s))"

definition normalizeUserStatus :: "string \<Rightarrow> (access_error, string) result" where
  "normalizeUserStatus status =
     (let x = to_lower (trim_space status) in
      if x = '''' \<or> x = ''active'' then Inr ''active''
      else if x = ''inactive'' then Inr ''inactive''
      else if x = ''suspended'' then Inr ''suspended''
      else Inl InvalidUserStatus)"

fun uniqueIDs_from :: "string list \<Rightarrow> string list \<Rightarrow> string list" where
  "uniqueIDs_from seen [] = []"
| "uniqueIDs_from seen (raw # rest) =
     (let v = trim_space raw in
      if v = '''' \<or> v \<in> set seen then uniqueIDs_from seen rest
      else v # uniqueIDs_from (v # seen) rest)"

definition uniqueIDs :: "string list \<Rightarrow> string list" where
  "uniqueIDs values = uniqueIDs_from [] values"

record user_input =
  ui_BuildingID :: string
  ui_Name :: string
  ui_Email :: string
  ui_Role :: string
  ui_Status :: string
  ui_GroupIDs :: "string list"

definition role_or_employee :: "string \<Rightarrow> string" where
  "role_or_employee r = (let x = to_lower (trim_space r) in if x = '''' then ''employee'' else x)"

definition new_user :: "env \<Rightarrow> string \<Rightarrow> string \<Rightarrow> user_input \<Rightarrow> string \<Rightarrow> accessUser" where
  "new_user e newID tenantID inp status =
     \<lparr>us_ID = newID, us_TenantID = tenantID, us_BuildingID = trim_space (ui_BuildingID inp),
      us_Name = trim_space (ui_Name inp), us_Email = normalizeEmail (ui_Email inp),
      us_Role = role_or_employee (ui_Role inp), us_Status = status,
      us_GroupIDs = uniqueIDs (ui_GroupIDs inp), us_SyncSource = '''', us_SyncRef = '''',
      us_CreatedAt = env_now e\<rparr>"

definition apply_user :: "user_input \<Rightarrow> string \<Rightarrow> accessUser \<Rightarrow> accessUser" where
  "apply_user inp status u =
     u\<lparr>us_BuildingID := trim_space (ui_BuildingID inp), us_Name := trim_space (ui_Name inp),
       us_Email := normalizeEmail (ui_Email inp), us_Role := role_or_employee (ui_Role inp),
       us_Status := status, us_GroupIDs := uniqueIDs (ui_GroupIDs inp)\<rparr>"

definition CreateUser ::
  "env \<Rightarrow> string \<Rightarrow> user_input \<Rightarrow> accessService \<Rightarrow> (access_error, accessUser) result \<times> accessService" where
  "CreateUser e tenantID inp s =
     (if trim_space tenantID = '''' then (Inl TenantIDRequired, s)
      else if trim_space (ui_Name inp) = '''' then (Inl UserNameRequired, s)
      else if normalizeEmail (ui_Email inp) = '''' then (Inl UserEmailRequired, s)
      else
        (case normalizeUserStatus (ui_Status inp) of
           Inl err \<Rightarrow> (Inl err, s)
         | Inr status \<Rightarrow>
             (case accessID e ''usr_'' of
                Inl err \<Rightarrow> (Inl err, s)
              | Inr newID \<Rightarrow>
                  let r = new_user e newID (trim_space tenantID) inp status in
                  save_return e r (s\<lparr>ac_users := r # ac_users s\<rparr>))))"

definition UpdateUser ::
  "env \<Rightarrow> string \<Rightarrow> string \<Rightarrow> user_input \<Rightarrow> accessService \<Rightarrow>
   (access_error, accessUser) result \<times> accessService" where
  "UpdateUser e tenantID userID inp s =
     (if trim_space userID = '''' then (Inl UserNotFound, s)
      else if trim_space (ui_Name inp) = '''' then (Inl UserNameRequired, s)
      else if normalizeEmail (ui_Email inp) = '''' then (Inl UserEmailRequired, s)
      else
        (case normalizeUserStatus (ui_Status inp) of
           Inl err \<Rightarrow> (Inl err, s)
         | Inr status \<Rightarrow>
             (case find_user tenantID userID s of
                None \<Rightarrow> (Inl UserNotFound, s)
              | Some i \<Rightarrow>
                  let r = apply_user inp status (ac_users s ! i) in
                  save_return e r (s\<lparr>ac_users := (ac_users s)[i := r]\<rparr>))))"

record batchUserStatusResult =
  br_TenantID :: string
  br_Status :: string
  br_Updated :: nat
  br_Skipped :: nat
  br_NotFound :: nat
  br_UserIDs :: "string list"

definition batch_target :: "string \<Rightarrow> string list \<Rightarrow> accessUser \<Rightarrow> bool" where
  "batch_target tenantID ids u \<longleftrightarrow> us_TenantID u = tenantID \<and> us_ID u \<in> set ids"

definition BatchUpdateUserStatus ::
  "env \<Rightarrow> string \<Rightarrow> string list \<Rightarrow> string \<Rightarrow> accessService \<Rightarrow>
   (access_error, batchUserStatusResult) result \<times> accessService" where
  "BatchUpdateUserStatus e tenantID userIDs status s =
     (let t = trim_space tenantID; ids = uniqueIDs userIDs in
      if t = '''' then (Inl TenantIDRequired, s)
      else if userIDs = [] then (Inl UserIDsRequired, s)
      else
        (case normalizeUserStatus status of
           Inl err \<Rightarrow> (Inl err, s)
         | Inr x \<Rightarrow>
             let hit = filter (batch_target t ids) (ac_users s);
                 changed = filter (\<lambda>u. \<not> equal_fold (us_Status u) x) hit;
                 s1 = s\<lparr>ac_users := map (\<lambda>u. if batch_target t ids u \<and> \<not> equal_fold (us_Status u) x
                                             then u\<lparr>us_Status := x\<rparr> else u) (ac_users s)\<rparr>;
                 r = \<lparr>br_TenantID = t, br_Status = x, br_Updated = length changed,
                      br_Skipped = length hit - length changed,
                      br_NotFound = length ids - length (remdups (map us_ID hit)),
                      br_UserIDs = map us_ID changed\<rparr> in
             if changed \<noteq> [] then save_return e r s1 else (Inr r, s1)))"

section \<open>Group links\<close>

definition ListGroupLinks :: "string \<Rightarrow> accessService \<Rightarrow> groupLink list" where
  "ListGroupLinks tenantID s =
     map cloneGroupLink (list_scoped gl_TenantID (trim_space tenantID) (ac_groupLinks s))"

section \<open>Guests\<close>

definition ListGuests :: "string \<Rightarrow> accessService \<Rightarrow> guest list" where
  "ListGuests tenantID s = list_scoped gu_TenantID (trim_space tenantID) (ac_guests s)"

definition find_guest :: "string \<Rightarrow> string \<Rightarrow> accessService \<Rightarrow> nat option" where
  "find_guest tenantID guestID s =
     lookup_scan gu_ID gu_TenantID tenantID (trim_space guestID) (ac_guests s)"

definition GetGuest :: "string \<Rightarrow> string \<Rightarrow> accessService \<Rightarrow> (access_error, guest) result" where
  "GetGuest tenantID guestID s =
     (case find_guest tenantID guestID s of
        None \<Rightarrow> Inl GuestNotFound | Some i \<Rightarrow> Inr (ac_guests s ! i))"

definition guest_token_live :: "time \<Rightarrow> guest \<Rightarrow> bool" where
  "guest_token_live now g \<longleftrightarrow>
     gu_Status g \<noteq> ''cancelled'' \<and> gu_Status g \<noteq> ''checked_out'' \<and>
     (gu_AccessTokenExpiresAt g = '''' \<or>
      (case parse_rfc3339 (gu_AccessTokenExpiresAt g) of None \<Rightarrow> True | Some t \<Rightarrow> now \<le> t))"

definition GetGuestByAccessToken :: "time \<Rightarrow> string \<Rightarrow> string \<Rightarrow> accessService \<Rightarrow> guest option" where
  "GetGuestByAccessToken now tenantID token s =
     (if trim_space token = '''' then None
      else
        (case find (\<lambda>g. gu_AccessToken g = trim_space token \<and> in_scope tenantID (gu_TenantID g))
                (ac_guests s) of
           None \<Rightarrow> None
         | Some g \<Rightarrow> if guest_token_live now g then Some g else None))"

record guest_input =
  gi_TenantID :: string
  gi_BuildingID :: string
  gi_Name :: string
  gi_Email :: string
  gi_Phone :: string
  gi_Company :: string
  gi_Purpose :: string
  gi_HostName :: string
  gi_HostEmail :: string
  gi_HostPhone :: string
  gi_IDDocumentType :: string
  gi_IDDocumentNumber :: string
  gi_ExpectedAt :: string
  gi_NotifyHost :: bool
  gi_DoorIDs :: "string list"
  gi_AccessTTLHours :: int

definition document_types :: "string list" where
  "document_types = [''KTP'', ''KITAS'', ''ITAS'', ''SIM'', ''PASSPORT'', ''OTHER'']"

definition guest_ttl :: "int \<Rightarrow> int" where
  "guest_ttl h = (let h1 = (if h \<le> 0 then 24 else h) in if h1 > 72 then 72 else h1)"

definition new_guest :: "env \<Rightarrow> string \<Rightarrow> string \<Rightarrow> guest_input \<Rightarrow> guest" where
  "new_guest e newID token inp =
     \<lparr>gu_ID = newID, gu_TenantID = trim_space (gi_TenantID inp),
      gu_BuildingID = trim_space (gi_BuildingID inp), gu_Name = trim_space (gi_Name inp),
      gu_Email = trim_space (gi_Email inp), gu_Phone = trim_space (gi_Phone inp),
      gu_Company = trim_space (gi_Company inp), gu_Purpose = trim_space (gi_Purpose inp),
      gu_HostName = trim_space (gi_HostName inp), gu_HostEmail = trim_space (gi_HostEmail inp),
      gu_HostPhone = trim_space (gi_HostPhone inp),
      gu_IDDocumentType = trim_space (to_upper (gi_IDDocumentType inp)),
      gu_IDDocumentNumber = trim_space (gi_IDDocumentNumber inp), gu_Status = ''expected'',
      gu_CheckedInAt = '''', gu_CheckedOutAt = '''', gu_ExpectedAt = trim_space (gi_ExpectedAt inp),
      gu_NotifyHost = gi_NotifyHost inp, gu_HostNotifiedAt = '''', gu_AccessToken = token,
      gu_AccessTokenExpiresAt = format_rfc3339 (env_now e + guest_ttl (gi_AccessTTLHours inp) * ns_hour),
      gu_DoorIDs = filter (\<lambda>d. d \<noteq> '''') (map trim_space (gi_DoorIDs inp)),
      gu_CreatedAt = env_now e, gu_UpdatedAt = env_now e\<rparr>"

text \<open>\<open>tok\<close> is the outcome of the second random read, for the access token.\<close>

definition CreateGuest ::
  "env \<Rightarrow> string option \<Rightarrow> guest_input \<Rightarrow> accessService \<Rightarrow> (access_error, guest) result \<times> accessService" where
  "CreateGuest e tok inp s =
     (let docType = trim_space (to_upper (gi_IDDocumentType inp)) in
      if trim_space (gi_TenantID inp) = '''' then (Inl TenantIDRequired, s)
      else if trim_space (gi_Name inp) = '''' then (Inl GuestNameRequired, s)
      else if trim_space (gi_Phone inp) = '''' then (Inl GuestPhoneRequired, s)
      else if trim_space (gi_HostName inp) = '''' then (Inl GuestHostRequired, s)
      else if docType \<noteq> '''' \<and> docType \<notin> set document_types then (Inl GuestIDDocumentTypeInvalid, s)
      else
        (case accessID e ''gst_'' of
           Inl err \<Rightarrow> (Inl err, s)
         | Inr newID \<Rightarrow>
             (case accessID (e\<lparr>env_rand := tok\<rparr>) ''gqr_'' of
                Inl err \<Rightarrow> (Inl err, s)
              | Inr token \<Rightarrow>
                  let r = new_guest e newID token inp in
                  save_return e r (s\<lparr>ac_guests := r # ac_guests s\<rparr>))))"

definition guest_statuses :: "string list" where
  "guest_statuses = [''expected'', ''checked_in'', ''checked_out'', ''cancelled'']"

definition set_guest_status :: "time \<Rightarrow> string \<Rightarrow> guest \<Rightarrow> guest" where
  "set_guest_status now x g =
     g\<lparr>gu_Status := x, gu_UpdatedAt := now,
       gu_CheckedInAt := (if x = ''checked_in'' \<and> gu_CheckedInAt g = '''' then format_rfc3339 now
                          else gu_CheckedInAt g),
       gu_CheckedOutAt := (if x = ''checked_out'' \<and> gu_CheckedOutAt g = '''' then format_rfc3339 now
                           else gu_CheckedOutAt g)\<rparr>"

definition UpdateGuestStatus ::
  "env \<Rightarrow> string \<Rightarrow> string \<Rightarrow> string \<Rightarrow> accessService \<Rightarrow> (access_error, guest) result \<times> accessService" where
  "UpdateGuestStatus e tenantID guestID status s =
     (let x = to_lower (trim_space status) in
      if x \<notin> set guest_statuses then (Inl GuestStatusInvalid, s)
      else
        (case find_guest tenantID guestID s of
           None \<Rightarrow> (Inl GuestNotFound, s)
         | Some i \<Rightarrow>
             let r = set_guest_status (env_now e) x (ac_guests s ! i) in
             save_return e r (s\<lparr>ac_guests := (ac_guests s)[i := r]\<rparr>)))"

definition DeleteGuest ::
  "env \<Rightarrow> string \<Rightarrow> string \<Rightarrow> accessService \<Rightarrow> (access_error, unit) result \<times> accessService" where
  "DeleteGuest e tenantID guestID s =
     (case find_guest tenantID guestID s of
        None \<Rightarrow> (Inl GuestNotFound, s)
      | Some i \<Rightarrow> save_return e () (s\<lparr>ac_guests := remove_at i (ac_guests s)\<rparr>))"

section \<open>Roles and role assignments\<close>

text \<open>The built-in roles with their identifier and the kind of object they apply to; the
  names, descriptions and permission tables are not read by the modelled operations.\<close>

definition builtInRoles :: "(string \<times> string) list" where
  "builtInRoles = [(''role_organization_admin'', ''Organization''), (''role_place_admin'', ''Place''),
     (''role_group_access'', ''Group'')]"

definition roleByID :: "string \<Rightarrow> string option" where
  "roleByID roleID = map_of builtInRoles (trim_space roleID)"

definition normalizeRoleScope :: "string \<Rightarrow> (access_error, string) result" where
  "normalizeRoleScope v =
     (let x = to_lower (trim_space v) in
      if x = ''organization'' then Inr ''Organization'' else if x = ''place'' then Inr ''Place''
      else if x = ''group'' then Inr ''Group'' else Inl InvalidRoleScope)"

definition normalizeAssigneeType :: "string \<Rightarrow> (access_error, string) result" where
  "normalizeAssigneeType v =
     (let x = to_lower (trim_space v) in
      if x = ''user'' then Inr ''User'' else if x = ''team'' then Inr ''Team''
      else if x = ''guest'' then Inr ''Guest'' else Inl InvalidAssigneeType)"

record roleAssignmentInput =
  ri_TenantID :: string
  ri_RoleID :: string
  ri_AppliesToType :: string
  ri_AppliesToID :: string
  ri_AssigneeType :: string
  ri_AssigneeID :: string
  ri_AssigneeEmail :: string
  ri_ValidFrom :: string
  ri_ValidUntil :: string
  ri_TimeWindows :: "timeWindow list"
  ri_ExceptionDates :: "string list"
  ri_HolidayCalendarID :: string

definition normalizeRoleAssignmentInput ::
  "roleAssignmentInput \<Rightarrow> (access_error, roleAssignmentInput) result" where
  "normalizeRoleAssignmentInput inp =
     (if trim_space (ri_TenantID inp) = '''' then Inl TenantIDRequired
      else if trim_space (ri_RoleID inp) = '''' then Inl RoleIDRequired
      else
        (case roleByID (trim_space (ri_RoleID inp)) of
           None \<Rightarrow> Inl RoleNotFound
         | Some applies \<Rightarrow>
             (case normalizeRoleScope (ri_AppliesToType inp) of
                Inl err \<Rightarrow> Inl err
              | Inr scope \<Rightarrow>
                  if applies \<noteq> scope then Inl InvalidRoleScope
                  else if trim_space (ri_AppliesToID inp) = '''' then Inl AppliesToIDRequired
                  else
                    (case normalizeAssigneeType (ri_AssigneeType inp) of
                       Inl err \<Rightarrow> Inl err
                     | Inr atype \<Rightarrow>
                         if trim_space (ri_AssigneeID inp) = '''' then Inl AssigneeIDRequired
                         else Inr \<lparr>ri_TenantID = trim_space (ri_TenantID inp),
                                   ri_RoleID = trim_space (ri_RoleID inp), ri_AppliesToType = scope,
                                   ri_AppliesToID = trim_space (ri_AppliesToID inp),
                                   ri_AssigneeType = atype,
                                   ri_AssigneeID = trim_space (ri_AssigneeID inp),
                                   ri_AssigneeEmail = trim_space (ri_AssigneeEmail inp),
                                   ri_ValidFrom = trim_space (ri_ValidFrom inp),
                                   ri_ValidUntil = trim_space (ri_ValidUntil inp),
                                   ri_TimeWindows = [], ri_ExceptionDates = [],
                                   ri_HolidayCalendarID = ''''\<rparr>))))"

definition ListRoleAssignments :: "string \<Rightarrow> accessService \<Rightarrow> roleAssignment list" where
  "ListRoleAssignments tenantID s =
     list_scoped ra_TenantID (trim_space tenantID) (ac_roleAssignments s)"

definition find_assignment :: "string \<Rightarrow> string \<Rightarrow> accessService \<Rightarrow> nat option" where
  "find_assignment tenantID assignmentID s =
     (if trim_space assignmentID = '''' then None
      else lookup_strict ra_ID ra_TenantID (trim_space tenantID) (trim_space assignmentID)
             (ac_roleAssignments s))"

definition GetRoleAssignment ::
  "string \<Rightarrow> string \<Rightarrow> accessService \<Rightarrow> (access_error, roleAssignment) result" where
  "GetRoleAssignment tenantID assignmentID s =
     (case find_assignment tenantID assignmentID s of
        None \<Rightarrow> Inl RoleAssignmentNotFound | Some i \<Rightarrow> Inr (ac_roleAssignments s ! i))"

definition new_assignment :: "env \<Rightarrow> string \<Rightarrow> roleAssignmentInput \<Rightarrow> roleAssignment" where
  "new_assignment e newID n =
     \<lparr>ra_ID = newID, ra_TenantID = ri_TenantID n, ra_RoleID = ri_RoleID n,
      ra_AppliesToType = ri_AppliesToType n, ra_AppliesToID = ri_AppliesToID n,
      ra_AssigneeType = ri_AssigneeType n, ra_AssigneeID = ri_AssigneeID n,
      ra_AssigneeEmail = normalizeEmail (ri_AssigneeEmail n),
      ra_ValidFrom = trim_space (ri_ValidFrom n), ra_ValidUntil = trim_space (ri_ValidUntil n),
      ra_TimeWindows = [], ra_ExceptionDates = [], ra_HolidayCalendarID = '''',
      ra_ReviewedAt = '''', ra_ReviewedBy = '''', ra_CreatedAt = env_now e, ra_UpdatedAt = env_now e\<rparr>"

definition apply_assignment :: "env \<Rightarrow> roleAssignmentInput \<Rightarrow> roleAssignment \<Rightarrow> roleAssignment" where
  "apply_assignment e n r =
     r\<lparr>ra_TenantID := ri_TenantID n, ra_RoleID := ri_RoleID n,
       ra_AppliesToType := ri_AppliesToType n, ra_AppliesToID := ri_AppliesToID n,
       ra_AssigneeType := ri_AssigneeType n, ra_AssigneeID := ri_AssigneeID n,
       ra_AssigneeEmail := normalizeEmail (ri_AssigneeEmail n),
       ra_ValidFrom := trim_space (ri_ValidFrom n), ra_ValidUntil := trim_space (ri_ValidUntil n),
       ra_UpdatedAt := env_now e\<rparr>"

definition CreateRoleAssignment ::
  "env \<Rightarrow> roleAssignmentInput \<Rightarrow> accessService \<Rightarrow> (access_error, roleAssignment) result \<times> accessService" where
  "CreateRoleAssignment e inp s =
     (case normalizeRoleAssignmentInput inp of
        Inl err \<Rightarrow> (Inl err, s)
      | Inr n \<Rightarrow>
          (case accessID e ''ra_'' of
             Inl err \<Rightarrow> (Inl err, s)
           | Inr newID \<Rightarrow>
               let r = new_assignment e newID n in
               save_return e r (s\<lparr>ac_roleAssignments := r # ac_roleAssignments s\<rparr>)))"

definition UpdateRoleAssignment ::
  "env \<Rightarrow> string \<Rightarrow> string \<Rightarrow> roleAssignmentInput \<Rightarrow> accessService \<Rightarrow>
   (access_error, roleAssignment) result \<times> accessService" where
  "UpdateRoleAssignment e tenantID assignmentID inp0 s =
     (let inp = inp0\<lparr>ri_TenantID := firstNonEmpty2 (ri_TenantID inp0) (trim_space tenantID)\<rparr> in
      if trim_space assignmentID = '''' then (Inl RoleAssignmentNotFound, s)
      else
        (case normalizeRoleAssignmentInput inp of
           Inl err \<Rightarrow> (Inl err, s)
         | Inr n \<Rightarrow>
             (case find_assignment tenantID assignmentID s of
                None \<Rightarrow> (Inl RoleAssignmentNotFound, s)
              | Some i \<Rightarrow>
                  let r = apply_assignment e n (ac_roleAssignments s ! i) in
                  save_return e r
                    (s\<lparr>ac_roleAssignments := (ac_roleAssignments s)[i := r]\<rparr>))))"

text \<open>A deletion whose save fails is undone.\<close>

definition DeleteRoleAssignment ::
  "env \<Rightarrow> string \<Rightarrow> string \<Rightarrow> accessService \<Rightarrow> (access_error, unit) result \<times> accessService" where
  "DeleteRoleAssignment e tenantID assignmentID s =
     (case find_assignment tenantID assignmentID s of
        None \<Rightarrow> (Inl RoleAssignmentNotFound, s)
      | Some i \<Rightarrow>
          (case persistLocked e (s\<lparr>ac_roleAssignments := remove_at i (ac_roleAssignments s)\<rparr>) of
             (True, s') \<Rightarrow> (Inr (), s')
           | (False, s') \<Rightarrow> (Inl AccessStoreFailed, s'\<lparr>ac_roleAssignments := ac_roleAssignments s\<rparr>)))"

section \<open>Steps\<close>

datatype dir_op =
    UserCreate string user_input | UserUpdate string string user_input
  | UserBatch string "string list" string
  | GuestCreate "string option" guest_input | GuestStatus string string string
  | GuestDelete string string
  | RoleCreate roleAssignmentInput | RoleUpdate string string roleAssignmentInput
  | RoleDelete string string

fun dir_step :: "env \<Rightarrow> dir_op \<Rightarrow> accessService \<Rightarrow> accessService" where
  "dir_step e (UserCreate t inp) s = snd (CreateUser e t inp s)"
| "dir_step e (UserUpdate t i inp) s = snd (UpdateUser e t i inp s)"
| "dir_step e (UserBatch t ids x) s = snd (BatchUpdateUserStatus e t ids x s)"
| "dir_step e (GuestCreate tok inp) s = snd (CreateGuest e tok inp s)"
| "dir_step e (GuestStatus t g x) s = snd (UpdateGuestStatus e t g x s)"
| "dir_step e (GuestDelete t g) s = snd (DeleteGuest e t g s)"
| "dir_step e (RoleCreate inp) s = snd (CreateRoleAssignment e inp s)"
| "dir_step e (RoleUpdate t i inp) s = snd (UpdateRoleAssignment e t i inp s)"
| "dir_step e (RoleDelete t i) s = snd (DeleteRoleAssignment e t i s)"

text \<open>The tenant an operation is made for.  A role update may name a second tenant in its
  input; the operation is inside one tenant when the two agree.\<close>

fun dir_scope :: "dir_op \<Rightarrow> string" where
  "dir_scope (UserCreate t inp) = trim_space t"
| "dir_scope (UserUpdate t i inp) = trim_space t"
| "dir_scope (UserBatch t ids x) = trim_space t"
| "dir_scope (GuestCreate tok inp) = trim_space (gi_TenantID inp)"
| "dir_scope (GuestStatus t g x) = t"
| "dir_scope (GuestDelete t g) = t"
| "dir_scope (RoleCreate inp) = trim_space (ri_TenantID inp)"
| "dir_scope (RoleUpdate t i inp) =
     (if trim_space (ri_TenantID inp) \<in> {'''', trim_space t} then trim_space t else '''')"
| "dir_scope (RoleDelete t i) = trim_space t"

lemma find_user_SomeD:
  "find_user t u s = Some i \<Longrightarrow> i < length (ac_users s)"
  "find_user t u s = Some i \<Longrightarrow> in_scope (trim_space t) (us_TenantID (ac_users s ! i))"
  by (auto simp: find_user_def split: if_splits dest: lookup_strict_SomeD)

lemma find_guest_SomeD:
  "find_guest t u s = Some i \<Longrightarrow> i < length (ac_guests s)"
  "find_guest t u s = Some i \<Longrightarrow> in_scope t (gu_TenantID (ac_guests s ! i))"
  by (auto simp: find_guest_def dest: lookup_scan_SomeD)

lemma find_assignment_SomeD:
  "find_assignment t u s = Some i \<Longrightarrow> i < length (ac_roleAssignments s)"
  "find_assignment t u s = Some i \<Longrightarrow> in_scope (trim_space t) (ra_TenantID (ac_roleAssignments s ! i))"
  by (auto simp: find_assignment_def split: if_splits dest: lookup_strict_SomeD)

lemma set_guest_status_frame [simp]:
  "gu_TenantID (set_guest_status now x g) = gu_TenantID g"
  "gu_CreatedAt (set_guest_status now x g) = gu_CreatedAt g"
  "gu_AccessToken (set_guest_status now x g) = gu_AccessToken g"
  "gu_AccessTokenExpiresAt (set_guest_status now x g) = gu_AccessTokenExpiresAt g"
  "gu_Status (set_guest_status now x g) = x"
  by (simp_all add: set_guest_status_def)

lemma normalized_input:
  assumes "normalizeRoleAssignmentInput inp = Inr n"
  shows "ri_TenantID n = trim_space (ri_TenantID inp)" "ri_TenantID n \<noteq> ''''"
    "(ri_RoleID n, ri_AppliesToType n) \<in> set builtInRoles" "ri_AppliesToID n \<noteq> ''''"
    "ri_AssigneeType n \<in> {''User'', ''Team'', ''Guest''}" "ri_AssigneeID n \<noteq> ''''"
  using assms
  by (auto simp: normalizeRoleAssignmentInput_def roleByID_def normalizeAssigneeType_def Let_def
      split: if_splits option.splits sum.splits dest: map_of_SomeD)

section \<open>What the directory holds\<close>

definition assignment_ok :: "roleAssignment \<Rightarrow> bool" where
  "assignment_ok r \<longleftrightarrow>
     ra_TenantID r \<noteq> '''' \<and> (ra_RoleID r, ra_AppliesToType r) \<in> set builtInRoles \<and>
     ra_AppliesToID r \<noteq> '''' \<and> ra_AssigneeType r \<in> {''User'', ''Team'', ''Guest''} \<and>
     ra_AssigneeID r \<noteq> ''''"

definition guest_ok :: "guest \<Rightarrow> bool" where
  "guest_ok g \<longleftrightarrow>
     gu_Status g \<in> set guest_statuses \<and>
     list_ex (\<lambda>h. gu_AccessTokenExpiresAt g = format_rfc3339 (gu_CreatedAt g + h * ns_hour)) [1..72]"

definition user_ok :: "accessUser \<Rightarrow> bool" where
  "user_ok u \<longleftrightarrow> us_TenantID u \<noteq> '''' \<and> us_Name u \<noteq> '''' \<and> us_Email u \<noteq> '''' \<and>
     us_Status u \<in> {''active'', ''inactive'', ''suspended''} \<and> distinct (us_GroupIDs u)"

definition directory_ok :: "accessService \<Rightarrow> bool" where
  "directory_ok s \<longleftrightarrow> list_all user_ok (ac_users s) \<and> list_all guest_ok (ac_guests s) \<and>
     list_all assignment_ok (ac_roleAssignments s)"

lemma uniqueIDs_from_props:
  "distinct (uniqueIDs_from seen xs) \<and> set (uniqueIDs_from seen xs) \<inter> set seen = {} \<and>
   '''' \<notin> set (uniqueIDs_from seen xs)"
  by (induction seen xs rule: uniqueIDs_from.induct) (auto simp: Let_def)

lemma distinct_uniqueIDs [simp]: "distinct (uniqueIDs xs)"
  using uniqueIDs_from_props [of "[]" xs] by (simp add: uniqueIDs_def)

lemma normalizeUserStatus_range:
  "normalizeUserStatus x = Inr y \<Longrightarrow> y \<in> {''active'', ''inactive'', ''suspended''}"
  by (auto simp: normalizeUserStatus_def Let_def split: if_splits)

lemma guest_ttl_range: "1 \<le> guest_ttl h" "guest_ttl h \<le> 72"
  by (simp_all add: guest_ttl_def Let_def)

lemma new_guest_ok: "guest_ok (new_guest e i tok inp)"
  using guest_ttl_range [of "gi_AccessTTLHours inp"]
  by (auto simp: guest_ok_def new_guest_def guest_statuses_def list_ex_iff)

lemma list_all_update: "list_all P xs \<Longrightarrow> P y \<Longrightarrow> list_all P (xs[i := y])"
  by (auto simp: list_all_iff dest: set_update_subset_insert [THEN subsetD])

lemma list_all_remove_at: "list_all P xs \<Longrightarrow> list_all P (remove_at i xs)"
  using set_remove_at by (fastforce simp: list_all_iff)

lemma list_all_nth': "list_all P xs \<Longrightarrow> i < length xs \<Longrightarrow> P (xs ! i)"
  by (simp add: list_all_length)

lemmas preserve_all = list_all_update list_all_remove_at

lemmas dir_op_defs = CreateUser_def UpdateUser_def BatchUpdateUserStatus_def CreateGuest_def
  UpdateGuestStatus_def DeleteGuest_def CreateRoleAssignment_def UpdateRoleAssignment_def
  DeleteRoleAssignment_def

lemma user_record_ok:
  assumes "normalizeUserStatus x = Inr st" and "trim_space (ui_Name inp) \<noteq> ''''"
    and "normalizeEmail (ui_Email inp) \<noteq> ''''"
  shows "t \<noteq> '''' \<Longrightarrow> user_ok (new_user e i t inp st)"
    and "user_ok u \<Longrightarrow> user_ok (apply_user inp st u)"
  using assms normalizeUserStatus_range [OF assms(1)]
  by (simp_all add: user_ok_def new_user_def apply_user_def)

lemma user_status_ok:
  "user_ok u \<Longrightarrow> normalizeUserStatus x = Inr y \<Longrightarrow> user_ok (u\<lparr>us_Status := y\<rparr>)"
  by (drule normalizeUserStatus_range) (simp add: user_ok_def)

lemma guest_status_ok:
  "guest_ok g \<Longrightarrow> y \<in> set guest_statuses \<Longrightarrow> guest_ok (set_guest_status now y g)"
  by (simp add: guest_ok_def)

lemma assignment_record_ok:
  assumes "normalizeRoleAssignmentInput inp = Inr n"
  shows "assignment_ok (new_assignment e i n)" "assignment_ok (apply_assignment e n r)"
  using normalized_input [OF assms]
  by (simp_all add: assignment_ok_def new_assignment_def apply_assignment_def)

lemma found_ok:
  "list_all user_ok (ac_users s) \<Longrightarrow> find_user t i s = Some k \<Longrightarrow> user_ok (ac_users s ! k)"
  "list_all guest_ok (ac_guests s) \<Longrightarrow> find_guest t i s = Some k \<Longrightarrow> guest_ok (ac_guests s ! k)"
  by (auto intro: list_all_nth' dest: find_user_SomeD(1) find_guest_SomeD(1))

lemma list_all_map_if:
  "list_all Q xs \<Longrightarrow> (\<And>x. Q x \<Longrightarrow> P x \<Longrightarrow> Q (f x)) \<Longrightarrow> list_all Q (map (\<lambda>x. if P x then f x else x) xs)"
  by (auto simp: list_all_iff)

lemma directory_users:
  assumes "list_all user_ok (ac_users s)"
  shows "list_all user_ok (ac_users (dir_step e op s))"
  using assms
  by (cases op)
     (auto simp: dir_op_defs Let_def case_prod_unfold
       intro!: preserve_all list_all_map_if user_record_ok intro: found_ok user_status_ok
       split: sum.splits option.splits bool.splits)

lemma directory_guests:
  assumes "list_all guest_ok (ac_guests s)"
  shows "list_all guest_ok (ac_guests (dir_step e op s))"
  using assms
  by (cases op)
     (auto simp: dir_op_defs Let_def case_prod_unfold new_guest_ok
       intro!: preserve_all guest_status_ok intro: found_ok
       split: sum.splits option.splits bool.splits)

lemma directory_assignments:
  assumes "list_all assignment_ok (ac_roleAssignments s)"
  shows "list_all assignment_ok (ac_roleAssignments (dir_step e op s))"
  using assms
  by (cases op)
     (auto simp: dir_op_defs Let_def case_prod_unfold assignment_record_ok
       intro!: preserve_all split: sum.splits option.splits bool.splits)

section \<open>Isolation and durability\<close>

lemma batch_isolated:
  "t \<noteq> u \<Longrightarrow> filter (\<lambda>r. us_TenantID r = t)
     (map (\<lambda>r. if batch_target u ids r \<and> P r then r\<lparr>us_Status := x\<rparr> else r) us) =
   filter (\<lambda>r. us_TenantID r = t) us"
  by (induction us) (auto simp: batch_target_def)

interpretation user_isolation: tenant_isolated ac_users us_TenantID dir_scope dir_step
proof
  fix op t e s
  assume "dir_scope op \<noteq> ''''" and "t \<noteq> dir_scope op"
  then show "filter (\<lambda>r. us_TenantID r = t) (ac_users (dir_step e op s)) =
             filter (\<lambda>r. us_TenantID r = t) (ac_users s)"
    by (cases op)
       (auto simp: dir_op_defs Let_def case_prod_unfold batch_isolated new_user_def apply_user_def
         in_scope_nonempty dest: find_user_SomeD
         intro!: filter_update_other split: sum.splits option.splits bool.splits)
qed

interpretation guest_isolation: tenant_isolated ac_guests gu_TenantID dir_scope dir_step
proof
  fix op t e s
  assume "dir_scope op \<noteq> ''''" and "t \<noteq> dir_scope op"
  then show "filter (\<lambda>r. gu_TenantID r = t) (ac_guests (dir_step e op s)) =
             filter (\<lambda>r. gu_TenantID r = t) (ac_guests s)"
    by (cases op)
       (auto simp: dir_op_defs Let_def case_prod_unfold new_guest_def in_scope_nonempty
         dest: find_guest_SomeD intro!: filter_update_other filter_remove_at
         split: sum.splits option.splits bool.splits)
qed

interpretation assignment_isolation: tenant_isolated ac_roleAssignments ra_TenantID dir_scope dir_step
proof
  fix op t e s
  assume "dir_scope op \<noteq> ''''" and "t \<noteq> dir_scope op"
  then show "filter (\<lambda>r. ra_TenantID r = t) (ac_roleAssignments (dir_step e op s)) =
             filter (\<lambda>r. ra_TenantID r = t) (ac_roleAssignments s)"
    by (cases op)
       (auto simp: dir_op_defs Let_def case_prod_unfold new_assignment_def apply_assignment_def
         in_scope_nonempty firstNonEmpty2_def normalized_input(1)
         dest: find_assignment_SomeD intro!: filter_update_other filter_remove_at
         split: sum.splits option.splits bool.splits if_splits)
qed

lemma persist_in_sync:
  "env_save_ok e \<Longrightarrow> in_sync (snapshot_of (snd (persistLocked e s))) (ac_store (snd (persistLocked e s)))"
  using persistLocked_synced [of e s] by (simp add: access_synced_def)

lemma persist_ok: "env_save_ok e \<Longrightarrow> fst (persistLocked e s)"
  by (simp add: persistLocked_def case_prod_unfold store_simps)

lemma batch_noop:
  "\<forall>x. batch_target t ids x \<longrightarrow> x \<in> set us \<longrightarrow> equal_fold (us_Status x) y \<Longrightarrow>
   map (\<lambda>u. if batch_target t ids u \<and> \<not> equal_fold (us_Status u) y then u\<lparr>us_Status := y\<rparr> else u) us = us"
  by (rule map_idI) auto

lemma snapshot_same: "snapshot_of (s\<lparr>ac_users := ac_users s\<rparr>) = snapshot_of s"
  by (simp add: snapshot_of_def)

interpretation directory_durable: durable snapshot_of ac_store dir_step
proof
  fix e :: env and s op
  assume "env_save_ok e" and "in_sync (snapshot_of s) (ac_store s)"
  then show "in_sync (snapshot_of (dir_step e op s)) (ac_store (dir_step e op s))"
    by (cases op)
       (auto simp: dir_op_defs Let_def case_prod_unfold persist_in_sync persist_ok
         filter_empty_conv batch_noop snapshot_same split: sum.splits option.splits bool.splits)
qed

section \<open>Properties\<close>

lemma directory_ok_run:
  "directory_ok s \<Longrightarrow> directory_ok (fold (\<lambda>(e, op). dir_step e op) ops s)"
proof (induction ops arbitrary: s)
  case Nil
  then show ?case by simp
next
  case (Cons eo ops)
  obtain e op where "eo = (e, op)" by fastforce
  with Cons show ?case
    by (simp add: directory_ok_def directory_users directory_guests directory_assignments)
qed

lemma parse_rfc3339_empty: "parse_rfc3339 '''' = None"
  by code_simp

lemma token_found:
  assumes "GetGuestByAccessToken now t token s = Some g"
  shows "g \<in> set (ac_guests s)" "gu_AccessToken g = trim_space token"
    "in_scope t (gu_TenantID g)" "guest_token_live now g"
  using assms
  by (auto simp: GetGuestByAccessToken_def find_Some_iff split: if_splits option.splits)

text \<open>
  A guest token is never accepted later than 72 hours after the guest was registered,
  nor once the guest is cancelled or checked out, whatever status changes, deletions and
  other registrations happened in between.  Times are those a 64-bit nanosecond clock can
  show.
\<close>

lemma guest_token_window:
  assumes "directory_ok s"
    and "GetGuestByAccessToken now t token (fold (\<lambda>(e, op). dir_step e op) ops s) = Some g"
    and "0 \<le> gu_CreatedAt g" and "gu_CreatedAt g + 72 * ns_hour < 2 ^ 63"
  shows "now \<le> gu_CreatedAt g + 72 * ns_hour \<and> gu_Status g \<in> {''expected'', ''checked_in''} \<and>
    gu_AccessToken g = trim_space token \<and> (t = '''' \<or> gu_TenantID g = t)"
proof -
  let ?s = "fold (\<lambda>(e, op). dir_step e op) ops s"
  note f = token_found [OF assms(2)]
  from directory_ok_run [OF assms(1), of ops] f(1) have "guest_ok g"
    by (simp add: directory_ok_def list_all_iff)
  then obtain h where h: "1 \<le> h" "h \<le> 72"
    "gu_AccessTokenExpiresAt g = format_rfc3339 (gu_CreatedAt g + h * ns_hour)"
    and st: "gu_Status g \<in> set guest_statuses"
    by (auto simp: guest_ok_def list_ex_iff)
  let ?x = "gu_CreatedAt g + h * ns_hour"
  have le: "?x \<le> gu_CreatedAt g + 72 * ns_hour" and "0 \<le> ?x"
    using h(1,2) assms(3) by (simp_all add: duration_defs)
  then have p: "parse_rfc3339 (gu_AccessTokenExpiresAt g) = Some (unix_sec ?x * ns_second)"
    using assms(4) h(3) parse_format_int64 [of ?x] by simp
  moreover have "gu_AccessTokenExpiresAt g \<noteq> ''''"
    using p parse_rfc3339_empty by auto
  ultimately have "now \<le> unix_sec ?x * ns_second"
    using f(4) by (simp add: guest_token_live_def)
  also have "\<dots> \<le> ?x"
    by (simp add: unix_sec_def ns_second_def)
  finally show ?thesis
    using le st f(2-4) by (auto simp: guest_token_live_def guest_statuses_def in_scope_def)
qed

definition demo_guest :: guest_input where
  "demo_guest = \<lparr>gi_TenantID = ''t1'', gi_BuildingID = ''b1'', gi_Name = ''Ana'', gi_Email = '''',
     gi_Phone = ''1'', gi_Company = '''', gi_Purpose = '''', gi_HostName = ''Ben'', gi_HostEmail = '''',
     gi_HostPhone = '''', gi_IDDocumentType = ''ktp'', gi_IDDocumentNumber = '''', gi_ExpectedAt = '''',
     gi_NotifyHost = False, gi_DoorIDs = [''d1''], gi_AccessTTLHours = 500\<rparr>"

definition demo_directory :: accessService where
  "demo_directory = \<lparr>ac_users = [], ac_guests = [], ac_roleAssignments = [], ac_groupLinks = [],
     ac_bookableSpaces = [], ac_bookings = [], ac_userInvitationDeliveries = [], ac_userGroups = [], ac_policies = [], ac_temporaryAccess = [],
     ac_visitorPasses = [], ac_teams = [], ac_teamMemberships = [], ac_holidayCalendars = [], ac_schedules = [],
     ac_organizationSettings = Map.empty, ac_store = Store None\<rparr>"

definition dir_env :: env where
  "dir_env = \<lparr>env_now = 0, env_save_ok = True, env_rand = Some ''0a''\<rparr>"

definition demo_role :: roleAssignmentInput where
  "demo_role = \<lparr>ri_TenantID = ''t1'', ri_RoleID = ''role_place_admin'', ri_AppliesToType = ''place'',
     ri_AppliesToID = ''b1'', ri_AssigneeType = ''user'', ri_AssigneeID = ''u1'', ri_AssigneeEmail = '''',
     ri_ValidFrom = '''', ri_ValidUntil = '''', ri_TimeWindows = [], ri_ExceptionDates = [],
     ri_HolidayCalendarID = ''''\<rparr>"

lemma demo_directory_ok: "directory_ok demo_directory"
  by (simp add: directory_ok_def demo_directory_def)

lemma guest_token_window_instance:
  "\<exists>g. GetGuestByAccessToken 5 ''t1'' ''gqr_0b'' (fold (\<lambda>(e, op). dir_step e op)
     [(dir_env, GuestCreate (Some ''0b'') demo_guest), (dir_env, GuestStatus ''t1'' ''gst_0a'' ''checked_in'')]
     demo_directory) = Some g \<and> gu_Status g \<in> {''expected'', ''checked_in''}"
proof -
  let ?s = "fold (\<lambda>(e, op). dir_step e op)
     [(dir_env, GuestCreate (Some ''0b'') demo_guest), (dir_env, GuestStatus ''t1'' ''gst_0a'' ''checked_in'')]
     demo_directory"
  let ?r = "map_option (\<lambda>g. gu_CreatedAt g) (GetGuestByAccessToken 5 ''t1'' ''gqr_0b'' ?s)"
  have "?r = Some 0" by code_simp
  then obtain g where g: "GetGuestByAccessToken 5 ''t1'' ''gqr_0b'' ?s = Some g" "gu_CreatedAt g = 0"
    by auto
  from guest_token_window [OF demo_directory_ok g(1)] g show ?thesis
    by (auto simp: duration_defs)
qed

section \<open>What the code leaves open\<close>

text \<open>Time windows, exception dates and the holiday calendar of an input never reach the
  assignment.\<close>

lemma assignment_restrictions_dropped:
  assumes "CreateRoleAssignment e inp s = (Inr r, s')"
  shows "ra_TimeWindows r = []" "ra_ExceptionDates r = []" "ra_HolidayCalendarID r = ''''"
  using assms save_return_value
  by (auto simp: CreateRoleAssignment_def Let_def new_assignment_def save_return_def case_prod_unfold
      split: sum.splits bool.splits)

text \<open>An update made for tenant \<open>t1\<close> can move an assignment into tenant \<open>t2\<close>.\<close>

lemma role_update_moves_tenant:
  "map ra_TenantID (ac_roleAssignments (snd (UpdateRoleAssignment dir_env ''t1'' ''ra_0a''
      (demo_role\<lparr>ri_TenantID := ''t2''\<rparr>) (dir_step dir_env (RoleCreate demo_role) demo_directory)))) = [''t2'']"
  by code_simp

text \<open>A failed deletion leaves the assignments and the store as they were.\<close>

lemma delete_rolls_back:
  assumes "DeleteRoleAssignment e t i s = (Inl err, s')"
  shows "ac_roleAssignments s' = ac_roleAssignments s" "ac_store s' = ac_store s"
  using assms store_save_fails
  by (auto simp: DeleteRoleAssignment_def persistLocked_def case_prod_unfold
      split: option.splits bool.splits)

end
