(* ===== verification/Access_Schedule.thy ===== *)
theory Access_Schedule
  imports Access_State
begin

text \<open>
  \<open>internal/modules/access/service_schedules.go\<close>: holiday calendars, schedules,
  organisation settings, and the evaluation of a schedule at an instant.  A Go slice
  argument that may be nil is an option; \<open>now\<close> is in UTC, as every caller passes it.
\<close>

section \<open>Holiday calendars\<close>

definition ListHolidayCalendars :: "string \<Rightarrow> accessService \<Rightarrow> holidayCalendar list" where
  "ListHolidayCalendars tenantID s =
     list_scoped hc_TenantID (trim_space tenantID) (ac_holidayCalendars s)"

definition find_calendar :: "string \<Rightarrow> string \<Rightarrow> accessService \<Rightarrow> nat option" where
  "find_calendar tenantID calendarID s =
     lookup_scan hc_ID hc_TenantID (trim_space tenantID) (trim_space calendarID) (ac_holidayCalendars s)"

definition GetHolidayCalendar ::
  "string \<Rightarrow> string \<Rightarrow> accessService \<Rightarrow> (access_error, holidayCalendar) result" where
  "GetHolidayCalendar tenantID calendarID s =
     (case find_calendar tenantID calendarID s of
        None \<Rightarrow> Inl HolidayCalendarNotFound | Some i \<Rightarrow> Inr (ac_holidayCalendars s ! i))"

definition normalizeHolidayEntries :: "holidayEntry list \<Rightarrow> holidayEntry list" where
  "normalizeHolidayEntries entries =
     map (\<lambda>h. \<lparr>he_Date = trim_space (he_Date h), he_Name = trim_space (he_Name h),
               he_Description = trim_space (he_Description h)\<rparr>)
       (filter (\<lambda>h. trim_space (he_Date h) \<noteq> '''') entries)"

text \<open>The identifier's random bytes stay zero when \<open>rand.Read\<close> fails.\<close>

definition CreateHolidayCalendar ::
  "env \<Rightarrow> string \<Rightarrow> string \<Rightarrow> string \<Rightarrow> holidayEntry list option \<Rightarrow> accessService \<Rightarrow>
   (access_error, holidayCalendar) result \<times> accessService" where
  "CreateHolidayCalendar e tenantID name country entries s =
     (if trim_space tenantID = '''' then (Inl TenantIDRequired, s)
      else if trim_space name = '''' then (Inl HolidayCalendarNameRequired, s)
      else
        let cal = \<lparr>hc_ID = ''hcal_'' @ get_or (replicate 12 (CHR ''0'')) (env_rand e),
                   hc_TenantID = trim_space tenantID, hc_Name = trim_space name,
                   hc_Country = trim_space country,
                   hc_Entries = normalizeHolidayEntries (get_or [] entries),
                   hc_UpdatedAt = env_now e\<rparr> in
        save_ignore e cal (s\<lparr>ac_holidayCalendars := ac_holidayCalendars s @ [cal]\<rparr>))"

definition UpdateHolidayCalendar ::
  "env \<Rightarrow> string \<Rightarrow> string \<Rightarrow> string \<Rightarrow> string \<Rightarrow> holidayEntry list option \<Rightarrow> accessService \<Rightarrow>
   (access_error, holidayCalendar) result \<times> accessService" where
  "UpdateHolidayCalendar e tenantID calendarID name country entries s =
     (case find_calendar tenantID calendarID s of
        None \<Rightarrow> (Inl HolidayCalendarNotFound, s)
      | Some i \<Rightarrow>
          let c0 = ac_holidayCalendars s ! i;
              c1 = (if trim_space name \<noteq> '''' then c0\<lparr>hc_Name := trim_space name\<rparr> else c0);
              c2 = (if trim_space country \<noteq> '''' then c1\<lparr>hc_Country := trim_space country\<rparr> else c1);
              c3 = (case entries of None \<Rightarrow> c2
                    | Some es \<Rightarrow> c2\<lparr>hc_Entries := normalizeHolidayEntries es\<rparr>);
              c4 = c3\<lparr>hc_UpdatedAt := env_now e\<rparr> in
          save_ignore e c4 (s\<lparr>ac_holidayCalendars := (ac_holidayCalendars s)[i := c4]\<rparr>))"

definition DeleteHolidayCalendar ::
  "env \<Rightarrow> string \<Rightarrow> string \<Rightarrow> accessService \<Rightarrow> (access_error, unit) result \<times> accessService" where
  "DeleteHolidayCalendar e tenantID calendarID s =
     (case find_calendar tenantID calendarID s of
        None \<Rightarrow> (Inl HolidayCalendarNotFound, s)
      | Some i \<Rightarrow> save_ignore e () (s\<lparr>ac_holidayCalendars := remove_at i (ac_holidayCalendars s)\<rparr>))"

section \<open>Schedules\<close>

definition ListSchedules :: "string \<Rightarrow> accessService \<Rightarrow> schedule list" where
  "ListSchedules tenantID s = list_scoped sc_TenantID (trim_space tenantID) (ac_schedules s)"

definition find_schedule :: "string \<Rightarrow> string \<Rightarrow> accessService \<Rightarrow> nat option" where
  "find_schedule tenantID scheduleID s =
     (if trim_space scheduleID = '''' then None
      else lookup_scan sc_ID sc_TenantID (trim_space tenantID) (trim_space scheduleID) (ac_schedules s))"

definition GetSchedule :: "string \<Rightarrow> string \<Rightarrow> accessService \<Rightarrow> (access_error, schedule) result" where
  "GetSchedule tenantID scheduleID s =
     (case find_schedule tenantID scheduleID s of
        None \<Rightarrow> Inl ScheduleNotFound | Some i \<Rightarrow> Inr (ac_schedules s ! i))"

definition normalizeExceptionDates :: "string list \<Rightarrow> string list" where
  "normalizeExceptionDates dates = filter (\<lambda>d. d \<noteq> '''') (map trim_space dates)"

record schedule_input =
  si_Name :: string
  si_Description :: string
  si_ValidFrom :: string
  si_ValidUntil :: string
  si_HolidayCalendarID :: string
  si_TimeWindows :: "timeWindow list option"
  si_ExceptionDates :: "string list option"

definition CreateSchedule ::
  "env \<Rightarrow> string \<Rightarrow> schedule_input \<Rightarrow> accessService \<Rightarrow> (access_error, schedule) result \<times> accessService" where
  "CreateSchedule e tenantID inp s =
     (if trim_space tenantID = '''' then (Inl TenantIDRequired, s)
      else if trim_space (si_Name inp) = '''' then (Inl AccessScheduleNameRequired, s)
      else
        (case accessID e ''sched_'' of
           Inl err \<Rightarrow> (Inl err, s)
         | Inr newID \<Rightarrow>
             let sch = \<lparr>sc_ID = newID, sc_TenantID = trim_space tenantID,
                        sc_Name = trim_space (si_Name inp),
                        sc_Description = trim_space (si_Description inp),
                        sc_ValidFrom = trim_space (si_ValidFrom inp),
                        sc_ValidUntil = trim_space (si_ValidUntil inp),
                        sc_TimeWindows = get_or [] (si_TimeWindows inp),
                        sc_ExceptionDates = normalizeExceptionDates (get_or [] (si_ExceptionDates inp)),
                        sc_HolidayCalendarID = trim_space (si_HolidayCalendarID inp),
                        sc_CreatedAt = env_now e, sc_UpdatedAt = env_now e\<rparr> in
             save_return e sch (s\<lparr>ac_schedules := sch # ac_schedules s\<rparr>)))"

definition set_if :: "string \<Rightarrow> (string \<Rightarrow> 'r \<Rightarrow> 'r) \<Rightarrow> 'r \<Rightarrow> 'r" where
  "set_if v upd r = (if trim_space v \<noteq> '''' then upd (trim_space v) r else r)"

definition UpdateSchedule ::
  "env \<Rightarrow> string \<Rightarrow> string \<Rightarrow> schedule_input \<Rightarrow> accessService \<Rightarrow>
   (access_error, schedule) result \<times> accessService" where
  "UpdateSchedule e tenantID scheduleID inp s =
     (case find_schedule tenantID scheduleID s of
        None \<Rightarrow> (Inl ScheduleNotFound, s)
      | Some i \<Rightarrow>
          let r1 = set_if (si_ValidUntil inp) (\<lambda>v r. r\<lparr>sc_ValidUntil := v\<rparr>)
                   (set_if (si_ValidFrom inp) (\<lambda>v r. r\<lparr>sc_ValidFrom := v\<rparr>)
                   (set_if (si_Description inp) (\<lambda>v r. r\<lparr>sc_Description := v\<rparr>)
                   (set_if (si_Name inp) (\<lambda>v r. r\<lparr>sc_Name := v\<rparr>) (ac_schedules s ! i))));
              r2 = (case si_TimeWindows inp of None \<Rightarrow> r1 | Some tws \<Rightarrow> r1\<lparr>sc_TimeWindows := tws\<rparr>);
              r3 = (case si_ExceptionDates inp of None \<Rightarrow> r2
                    | Some ds \<Rightarrow> r2\<lparr>sc_ExceptionDates := normalizeExceptionDates ds\<rparr>);
              r4 = (set_if (si_HolidayCalendarID inp) (\<lambda>v r. r\<lparr>sc_HolidayCalendarID := v\<rparr>) r3)
                     \<lparr>sc_UpdatedAt := env_now e\<rparr> in
          save_return e r4 (s\<lparr>ac_schedules := (ac_schedules s)[i := r4]\<rparr>))"

definition DeleteSchedule ::
  "env \<Rightarrow> string \<Rightarrow> string \<Rightarrow> accessService \<Rightarrow> (access_error, unit) result \<times> accessService" where
  "DeleteSchedule e tenantID scheduleID s =
     (case find_schedule tenantID scheduleID s of
        None \<Rightarrow> (Inl ScheduleNotFound, s)
      | Some i \<Rightarrow> save_return e () (s\<lparr>ac_schedules := remove_at i (ac_schedules s)\<rparr>))"

section \<open>Organisation settings\<close>

definition defaultOrganizationSettings :: "time \<Rightarrow> string \<Rightarrow> organizationSettings" where
  "defaultOrganizationSettings now tenantID =
     \<lparr>os_TenantID = tenantID, os_Name = ''Mistyislet'', os_PrimaryDomain = ''mistypass.local'',
      os_Timezone = ''Asia/Jakarta'', os_SupportEmail = ''support@mistypass.local'',
      os_EmailNotifications = True, os_PushNotifications = True, os_WeeklyReports = False,
      os_EnforceMFA = False, os_WebAuthnEnabled = False, os_PasswordPolicy = ''standard'',
      os_SessionTimeoutMinutes = 480, os_WebhookSigningKey = '''', os_WebhookRotatedAt = zero_time,
      os_Status = ''active'', os_UpdatedAt = now\<rparr>"

definition settings_of :: "time \<Rightarrow> string \<Rightarrow> accessService \<Rightarrow> organizationSettings" where
  "settings_of now tenantID s =
     get_or (defaultOrganizationSettings now tenantID) (ac_organizationSettings s tenantID)"

definition GetOrganizationSettings :: "time \<Rightarrow> string \<Rightarrow> accessService \<Rightarrow> organizationSettings" where
  "GetOrganizationSettings now tenantID s =
     (if trim_space tenantID = '''' then defaultOrganizationSettings now ''''
      else settings_of now (trim_space tenantID) s)"

record settings_input =
  oi_Name :: "string option"
  oi_PrimaryDomain :: "string option"
  oi_Timezone :: "string option"
  oi_SupportEmail :: "string option"
  oi_EmailNotifications :: "bool option"
  oi_PushNotifications :: "bool option"
  oi_WeeklyReports :: "bool option"
  oi_EnforceMFA :: "bool option"
  oi_WebAuthnEnabled :: "bool option"
  oi_PasswordPolicy :: "string option"
  oi_SessionTimeoutMinutes :: "int option"

definition apply_settings :: "settings_input \<Rightarrow> organizationSettings \<Rightarrow> organizationSettings" where
  "apply_settings inp o1 =
     o1\<lparr>os_Name := get_or (os_Name o1) (map_option trim_space (oi_Name inp)),
        os_PrimaryDomain := get_or (os_PrimaryDomain o1) (map_option trim_space (oi_PrimaryDomain inp)),
        os_Timezone := get_or (os_Timezone o1) (map_option trim_space (oi_Timezone inp)),
        os_SupportEmail := get_or (os_SupportEmail o1) (map_option trim_space (oi_SupportEmail inp)),
        os_EmailNotifications := get_or (os_EmailNotifications o1) (oi_EmailNotifications inp),
        os_PushNotifications := get_or (os_PushNotifications o1) (oi_PushNotifications inp),
        os_WeeklyReports := get_or (os_WeeklyReports o1) (oi_WeeklyReports inp),
        os_EnforceMFA := get_or (os_EnforceMFA o1) (oi_EnforceMFA inp),
        os_WebAuthnEnabled := get_or (os_WebAuthnEnabled o1) (oi_WebAuthnEnabled inp),
        os_PasswordPolicy :=
          (case oi_PasswordPolicy inp of
             None \<Rightarrow> os_PasswordPolicy o1
           | Some p \<Rightarrow> if trim_space p \<in> {''standard'', ''strict''} then trim_space p
                       else os_PasswordPolicy o1),
        os_SessionTimeoutMinutes :=
          (case oi_SessionTimeoutMinutes inp of
             None \<Rightarrow> os_SessionTimeoutMinutes o1
           | Some n \<Rightarrow> if n > 0 then n else os_SessionTimeoutMinutes o1)\<rparr>"

definition put_settings :: "string \<Rightarrow> organizationSettings \<Rightarrow> accessService \<Rightarrow> accessService" where
  "put_settings t o1 s = s\<lparr>ac_organizationSettings := (ac_organizationSettings s)(t \<mapsto> o1)\<rparr>"

definition UpdateOrganizationSettings ::
  "env \<Rightarrow> string \<Rightarrow> settings_input \<Rightarrow> accessService \<Rightarrow>
   (access_error, organizationSettings) result \<times> accessService" where
  "UpdateOrganizationSettings e tenantID inp s =
     (let t = trim_space tenantID;
          o1 = (apply_settings inp (settings_of (env_now e) t s))\<lparr>os_UpdatedAt := env_now e\<rparr> in
      if t = '''' then (Inl TenantIDRequired, s) else save_return e o1 (put_settings t o1 s))"

definition RotateWebhookSecret ::
  "env \<Rightarrow> string \<Rightarrow> accessService \<Rightarrow> (access_error, string) result \<times> accessService" where
  "RotateWebhookSecret e tenantID s =
     (let t = trim_space tenantID in
      if t = '''' then (Inl TenantIDRequired, s)
      else
        (case env_rand e of
           None \<Rightarrow> (Inl AccessRandFailed, s)
         | Some newKey \<Rightarrow>
             save_return e newKey
               (put_settings t ((settings_of (env_now e) t s)
                  \<lparr>os_WebhookSigningKey := newKey, os_WebhookRotatedAt := env_now e,
                   os_UpdatedAt := env_now e\<rparr>) s)))"

definition DisableOrganization ::
  "env \<Rightarrow> string \<Rightarrow> accessService \<Rightarrow> (access_error, unit) result \<times> accessService" where
  "DisableOrganization e tenantID s =
     (let t = trim_space tenantID in
      if t = '''' then (Inl TenantIDRequired, s)
      else save_return e () (put_settings t ((settings_of (env_now e) t s)
             \<lparr>os_Status := ''disabled'', os_UpdatedAt := env_now e\<rparr>) s))"

section \<open>Evaluation\<close>

record scheduleEvaluation =
  ev_IsActive :: bool
  ev_Reason :: string
  ev_ValidFrom :: string
  ev_ValidUntil :: string
  ev_TimeWindows :: "timeWindow list"
  ev_EvaluatedAt :: string

definition parseHHMM :: "string \<Rightarrow> int" where
  "parseHHMM s =
     (case split_first (CHR '':'') (trim_space s) of
        None \<Rightarrow> -1
      | Some (a, b) \<Rightarrow>
          let hour = digits_acc 0 (trim_space a); minute = digits_acc 0 (trim_space b) in
          if hour > 23 \<or> minute > 59 then -1 else wrap64 (hour * 60 + minute))"

definition isDayInSet :: "weekday \<Rightarrow> string \<Rightarrow> bool" where
  "isDayInSet wd daySet =
     (let normalized = to_lower (trim_space daySet);
          isoDay = (if weekday_num wd = 0 then 7 else weekday_num wd) in
      if normalized \<in> {'''', ''all'', ''everyday''} then True
      else if normalized \<in> {''weekday'', ''weekdays''} then Monday \<le> wd \<and> wd \<le> Friday
      else if normalized \<in> {''weekend'', ''weekends''} then wd = Saturday \<or> wd = Sunday
      else list_ex (\<lambda>part. trim_space part \<noteq> '''' \<and> digits_acc 0 (trim_space part) = isoDay)
             (split_on (CHR '','') normalized))"

definition isInTimeWindow :: "time \<Rightarrow> timeWindow \<Rightarrow> bool" where
  "isInTimeWindow now tw =
     (let startTime = parseHHMM (tw_StartTime tw);
          endTime = parseHHMM (tw_EndTime tw);
          currentMinutes = hour_of now * 60 + minute_of now in
      if \<not> isDayInSet (weekday_of now) (tw_DayOfWeekSet tw) then False
      else if startTime < 0 \<or> endTime < 0 then True
      else currentMinutes \<ge> startTime \<and> currentMinutes < endTime)"

definition EvaluateSchedule ::
  "time \<Rightarrow> string \<Rightarrow> string \<Rightarrow> timeWindow list \<Rightarrow> string list \<Rightarrow> holidayEntry list \<Rightarrow>
   scheduleEvaluation" where
  "EvaluateSchedule now validFrom validUntil timeWindows exceptionDates holidays =
     (let eval = \<lparr>ev_IsActive = False, ev_Reason = '''', ev_ValidFrom = validFrom,
                  ev_ValidUntil = validUntil, ev_TimeWindows = timeWindows,
                  ev_EvaluatedAt = format_rfc3339 now\<rparr>;
          todayStr = format_date now in
      if validFrom \<noteq> '''' \<and>
         (case parse_rfc3339 validFrom of None \<Rightarrow> False | Some from \<Rightarrow> now < from)
        then eval\<lparr>ev_Reason := ''not_yet_valid''\<rparr>
      else if validUntil \<noteq> '''' \<and>
         (case parse_rfc3339 validUntil of None \<Rightarrow> False | Some until \<Rightarrow> now > until)
        then eval\<lparr>ev_Reason := ''expired''\<rparr>
      else if list_ex (\<lambda>d. trim_space d = todayStr) exceptionDates
        then eval\<lparr>ev_Reason := ''exception_date''\<rparr>
      else
        (case find (\<lambda>h. trim_space (he_Date h) = todayStr) holidays of
           Some h \<Rightarrow> eval\<lparr>ev_Reason := ''holiday:'' @ he_Name h\<rparr>
         | None \<Rightarrow>
             if timeWindows \<noteq> [] \<and> \<not> list_ex (isInTimeWindow now) timeWindows
             then eval\<lparr>ev_Reason := ''outside_time_window''\<rparr>
             else eval\<lparr>ev_IsActive := True, ev_Reason := ''active''\<rparr>))"

section \<open>Lemmas on evaluation\<close>

lemma fmt2_digits: "is_digit (hd (fmt2 n))" "is_digit (last (fmt2 n))" "fmt2 n \<noteq> []"
  by (simp_all add: fmt2_def)

lemma trim_fmt2: "trim_space (fmt2 n) = fmt2 n"
  using fmt2_digits by (intro trim_space_plain digit_plain)

lemma digits_fmt2: "0 \<le> n \<Longrightarrow> n \<le> 99 \<Longrightarrow> digits_acc 0 (fmt2 n) = n"
  using two_digits [of n] by (simp add: fmt2_def wrap64_small)

lemma split_hhmm: "split_first (CHR '':'') (fmt2 h @ CHR '':'' # s) = Some (fmt2 h, s)"
proof -
  have "digit_char n \<noteq> CHR '':''" for n
    using digit_char_digit [of n] by (auto simp: is_digit_def)
  then show ?thesis by (simp add: fmt2_def)
qed

text \<open>A time of day written as two digits, a colon and two digits is read back.\<close>

lemma parseHHMM_fmt:
  assumes "0 \<le> h" "h \<le> 23" "0 \<le> m" "m \<le> 59"
  shows "parseHHMM (fmt2 h @ '':'' @ fmt2 m) = h * 60 + m"
proof -
  have "trim_space (fmt2 h @ '':'' @ fmt2 m) = fmt2 h @ '':'' @ fmt2 m"
    by (intro trim_space_plain digit_plain) (simp_all add: fmt2_def)
  then show ?thesis
    using assms by (simp add: parseHHMM_def split_hhmm trim_fmt2 digits_fmt2 wrap64_small)
qed

lemma minutes_range: "0 \<le> hour_of t * 60 + minute_of t \<and> hour_of t * 60 + minute_of t < 1440"
  using hour_of_range [of t] minute_of_range [of t] by auto

lemma EvaluateSchedule_active:
  "ev_IsActive (EvaluateSchedule now vf vu tws exc hol) \<longleftrightarrow>
     (vf = '''' \<or> (case parse_rfc3339 vf of None \<Rightarrow> True | Some from \<Rightarrow> from \<le> now)) \<and>
     (vu = '''' \<or> (case parse_rfc3339 vu of None \<Rightarrow> True | Some until \<Rightarrow> now \<le> until)) \<and>
     format_date now \<notin> trim_space ` set exc \<and>
     format_date now \<notin> trim_space ` he_Date ` set hol \<and>
     (tws = [] \<or> list_ex (isInTimeWindow now) tws)"
proof (cases "find (\<lambda>h. trim_space (he_Date h) = format_date now) hol")
  case None
  then have "format_date now \<notin> trim_space ` he_Date ` set hol"
    by (auto simp: find_None_iff)
  moreover have "list_ex (\<lambda>d. trim_space d = format_date now) exc \<longleftrightarrow>
      format_date now \<in> trim_space ` set exc"
    unfolding list_ex_iff by (metis image_iff)
  ultimately show ?thesis
    using None by (simp add: EvaluateSchedule_def Let_def not_less split: option.split)
next
  case (Some h)
  then have "format_date now \<in> trim_space ` he_Date ` set hol"
    by (force simp: find_Some_iff in_set_conv_nth)
  with Some show ?thesis by (simp add: EvaluateSchedule_def Let_def)
qed

lemma EvaluateSchedule_reason:
  "ev_IsActive (EvaluateSchedule now vf vu tws exc hol) \<longleftrightarrow>
   ev_Reason (EvaluateSchedule now vf vu tws exc hol) = ''active''"
  by (auto simp: EvaluateSchedule_def Let_def split: option.splits)

section \<open>The calendar and schedule operations as a state machine\<close>

datatype sched_op =
    CalCreate string string string "holidayEntry list option"
  | CalUpdate string string string string "holidayEntry list option"
  | CalDelete string string
  | SchedCreate string schedule_input
  | SchedUpdate string string schedule_input
  | SchedDelete string string
  | SettingsUpdate string settings_input
  | SecretRotate string
  | OrgDisable string

fun sched_step :: "env \<Rightarrow> sched_op \<Rightarrow> accessService \<Rightarrow> accessService" where
  "sched_step e (CalCreate t n c es) s = snd (CreateHolidayCalendar e t n c es s)"
| "sched_step e (CalUpdate t i n c es) s = snd (UpdateHolidayCalendar e t i n c es s)"
| "sched_step e (CalDelete t i) s = snd (DeleteHolidayCalendar e t i s)"
| "sched_step e (SchedCreate t inp) s = snd (CreateSchedule e t inp s)"
| "sched_step e (SchedUpdate t i inp) s = snd (UpdateSchedule e t i inp s)"
| "sched_step e (SchedDelete t i) s = snd (DeleteSchedule e t i s)"
| "sched_step e (SettingsUpdate t inp) s = snd (UpdateOrganizationSettings e t inp s)"
| "sched_step e (SecretRotate t) s = snd (RotateWebhookSecret e t s)"
| "sched_step e (OrgDisable t) s = snd (DisableOrganization e t s)"

fun sched_scope :: "sched_op \<Rightarrow> string" where
  "sched_scope (CalCreate t _ _ _) = trim_space t"
| "sched_scope (CalUpdate t _ _ _ _) = trim_space t"
| "sched_scope (CalDelete t _) = trim_space t"
| "sched_scope (SchedCreate t _) = trim_space t"
| "sched_scope (SchedUpdate t _ _) = trim_space t"
| "sched_scope (SchedDelete t _) = trim_space t"
| "sched_scope (SettingsUpdate t _) = trim_space t"
| "sched_scope (SecretRotate t) = trim_space t"
| "sched_scope (OrgDisable t) = trim_space t"

lemma find_calendar_SomeD:
  assumes "find_calendar t c s = Some i" and "trim_space t \<noteq> ''''"
  shows "i < length (ac_holidayCalendars s)" and "hc_TenantID (ac_holidayCalendars s ! i) = trim_space t"
  using assms lookup_scan_SomeD by (fastforce simp: find_calendar_def in_scope_def)+

lemma find_schedule_SomeD:
  assumes "find_schedule t c s = Some i" and "trim_space t \<noteq> ''''"
  shows "i < length (ac_schedules s)" and "sc_TenantID (ac_schedules s ! i) = trim_space t"
  using assms lookup_scan_SomeD by (fastforce simp: find_schedule_def in_scope_def split: if_splits)+

lemma set_if_tenant:
  "(\<And>v r. sc_TenantID (upd v r) = sc_TenantID r) \<Longrightarrow> sc_TenantID (set_if x upd r) = sc_TenantID r"
  by (simp add: set_if_def)

interpretation calendar_isolation: tenant_isolated ac_holidayCalendars hc_TenantID sched_scope sched_step
proof
  fix op t e s
  assume ne: "sched_scope op \<noteq> ''''" "t \<noteq> sched_scope op"
  show "filter (\<lambda>r. hc_TenantID r = t) (ac_holidayCalendars (sched_step e op s)) =
        filter (\<lambda>r. hc_TenantID r = t) (ac_holidayCalendars s)"
    using ne
    by (cases op)
       (auto simp: CreateHolidayCalendar_def UpdateHolidayCalendar_def DeleteHolidayCalendar_def
         CreateSchedule_def UpdateSchedule_def DeleteSchedule_def UpdateOrganizationSettings_def
         RotateWebhookSecret_def DisableOrganization_def put_settings_def Let_def
         dest: find_calendar_SomeD intro!: filter_update_other filter_remove_at
         split: option.splits sum.splits)
qed

interpretation access_schedule_isolation: tenant_isolated ac_schedules sc_TenantID sched_scope sched_step
proof
  fix op t e s
  assume ne: "sched_scope op \<noteq> ''''" "t \<noteq> sched_scope op"
  show "filter (\<lambda>r. sc_TenantID r = t) (ac_schedules (sched_step e op s)) =
        filter (\<lambda>r. sc_TenantID r = t) (ac_schedules s)"
    using ne
    by (cases op)
       (auto simp: CreateHolidayCalendar_def UpdateHolidayCalendar_def DeleteHolidayCalendar_def
         CreateSchedule_def UpdateSchedule_def DeleteSchedule_def UpdateOrganizationSettings_def
         RotateWebhookSecret_def DisableOrganization_def put_settings_def Let_def set_if_tenant
         dest: find_schedule_SomeD intro!: filter_update_other filter_remove_at
         split: option.splits sum.splits)
qed

lemma settings_isolated:
  "t \<noteq> sched_scope op \<Longrightarrow>
   ac_organizationSettings (sched_step e op s) t = ac_organizationSettings s t"
  by (cases op)
     (auto simp: CreateHolidayCalendar_def UpdateHolidayCalendar_def DeleteHolidayCalendar_def
         CreateSchedule_def UpdateSchedule_def DeleteSchedule_def UpdateOrganizationSettings_def
         RotateWebhookSecret_def DisableOrganization_def put_settings_def Let_def
         split: option.splits sum.splits)

section \<open>Properties\<close>

text \<open>
  When a schedule is active, in full.  Evaluation says active exactly when the instant is
  not before a readable start, not after a readable end, its date is neither an exception
  date nor a holiday, and, if there are time windows, one of them contains it; and the
  reason reads active exactly then.
\<close>

lemma EvaluateSchedule_exact:
  "(ev_IsActive (EvaluateSchedule now vf vu tws exc hol) \<longleftrightarrow>
     (vf = '''' \<or> (case parse_rfc3339 vf of None \<Rightarrow> True | Some from \<Rightarrow> from \<le> now)) \<and>
     (vu = '''' \<or> (case parse_rfc3339 vu of None \<Rightarrow> True | Some until \<Rightarrow> now \<le> until)) \<and>
     format_date now \<notin> trim_space ` set exc \<and>
     format_date now \<notin> trim_space ` he_Date ` set hol \<and>
     (tws = [] \<or> list_ex (isInTimeWindow now) tws)) \<and>
   (ev_Reason (EvaluateSchedule now vf vu tws exc hol) = ''active'' \<longleftrightarrow>
    ev_IsActive (EvaluateSchedule now vf vu tws exc hol))"
  by (simp only: EvaluateSchedule_active EvaluateSchedule_reason [symmetric] simp_thms)

text \<open>
  What a time window admits.  For a window from \<open>h1:m1\<close> to \<open>h2:m2\<close>, both times of
  day, an instant is inside exactly when its weekday is in the day set and its minute of the
  day, in UTC whatever time zone the window names, is at least the start and before the
  end; in particular a window whose end is not after its start admits nothing.
\<close>

lemma time_window_exact:
  assumes "0 \<le> h1" "h1 \<le> 23" "0 \<le> m1" "m1 \<le> 59" "0 \<le> h2" "h2 \<le> 23" "0 \<le> m2" "m2 \<le> 59"
  shows "isInTimeWindow now \<lparr>tw_StartTime = fmt2 h1 @ '':'' @ fmt2 m1,
             tw_EndTime = fmt2 h2 @ '':'' @ fmt2 m2, tw_DayOfWeekSet = days, tw_Timezone = tz\<rparr> \<longleftrightarrow>
           isDayInSet (weekday_of now) days \<and>
           h1 * 60 + m1 \<le> hour_of now * 60 + minute_of now \<and>
           hour_of now * 60 + minute_of now < h2 * 60 + m2"
  using assms parseHHMM_fmt [of h1 m1] parseHHMM_fmt [of h2 m2]
  by (auto simp: isInTimeWindow_def Let_def)

lemma time_window_exact_instance:
  "\<not> isInTimeWindow 0 \<lparr>tw_StartTime = fmt2 22 @ '':'' @ fmt2 0, tw_EndTime = fmt2 6 @ '':'' @ fmt2 0,
      tw_DayOfWeekSet = '''', tw_Timezone = ''Asia/Jakarta''\<rparr>"
proof -
  have "hour_of 0 = 0" "minute_of 0 = 0" by code_simp+
  then show ?thesis
    using time_window_exact [of 22 0 6 0 0 "''''" "''Asia/Jakarta''"] by simp
qed

text \<open>
  Calendars, schedules and settings of a tenant are untouched by other tenants'
  operations.
\<close>

lemma schedules_isolated:
  assumes "\<And>e op. (e, op) \<in> set ops \<Longrightarrow> sched_scope op \<noteq> '''' \<and> sched_scope op \<noteq> t"
  shows "filter (\<lambda>r. hc_TenantID r = t) (ac_holidayCalendars (fold (\<lambda>(e, op). sched_step e op) ops s)) =
         filter (\<lambda>r. hc_TenantID r = t) (ac_holidayCalendars s) \<and>
         filter (\<lambda>r. sc_TenantID r = t) (ac_schedules (fold (\<lambda>(e, op). sched_step e op) ops s)) =
         filter (\<lambda>r. sc_TenantID r = t) (ac_schedules s) \<and>
         ac_organizationSettings (fold (\<lambda>(e, op). sched_step e op) ops s) t = ac_organizationSettings s t"
proof -
  have "ac_organizationSettings (fold (\<lambda>(e, op). sched_step e op) ops s) t = ac_organizationSettings s t"
    using assms
  proof (induction ops arbitrary: s)
    case Nil
    then show ?case by simp
  next
    case (Cons eo ops)
    obtain e op where eo: "eo = (e, op)" by fastforce
    have "ac_organizationSettings (fold (\<lambda>(e, op). sched_step e op) ops (sched_step e op s)) t =
        ac_organizationSettings (sched_step e op s) t"
      by (rule Cons.IH) (use Cons.prems in auto)
    moreover have "t \<noteq> sched_scope op" using Cons.prems [of e op] eo by auto
    ultimately show ?case using eo settings_isolated by simp
  qed
  moreover have "filter (\<lambda>r. hc_TenantID r = t)
      (ac_holidayCalendars (fold (\<lambda>(e, op). sched_step e op) ops s)) =
      filter (\<lambda>r. hc_TenantID r = t) (ac_holidayCalendars s)"
    by (rule calendar_isolation.run_isolated) (rule assms)
  moreover have "filter (\<lambda>r. sc_TenantID r = t) (ac_schedules (fold (\<lambda>(e, op). sched_step e op) ops s)) =
      filter (\<lambda>r. sc_TenantID r = t) (ac_schedules s)"
    by (rule access_schedule_isolation.run_isolated) (rule assms)
  ultimately show ?thesis by simp
qed

definition empty_access :: accessService where
  "empty_access = \<lparr>ac_users = [], ac_guests = [], ac_roleAssignments = [], ac_groupLinks = [],
     ac_bookableSpaces = [], ac_bookings = [], ac_userInvitationDeliveries = [], ac_userGroups = [], ac_policies = [], ac_temporaryAccess = [],
     ac_visitorPasses = [], ac_teams = [], ac_teamMemberships = [], ac_holidayCalendars = [], ac_schedules = [],
     ac_organizationSettings = Map.empty, ac_store = NoStore\<rparr>"

definition sched_env :: env where
  "sched_env = \<lparr>env_now = 7, env_save_ok = True, env_rand = Some ''00ff''\<rparr>"

lemma schedules_isolated_instance:
  "ac_organizationSettings (fold (\<lambda>(e, op). sched_step e op)
      [(sched_env, OrgDisable ''t2''), (sched_env, SecretRotate ''t2'')] empty_access) ''t1'' = None"
proof -
  have t2: "trim_space ''t2'' = ''t2''" by code_simp
  have "ac_organizationSettings (fold (\<lambda>(e, op). sched_step e op)
      [(sched_env, OrgDisable ''t2''), (sched_env, SecretRotate ''t2'')] empty_access) ''t1'' =
      ac_organizationSettings empty_access ''t1''"
    by (rule conjunct2 [OF conjunct2 [OF schedules_isolated]]) (auto simp: t2)
  then show ?thesis by (simp add: empty_access_def)
qed

section \<open>What the code leaves open\<close>

text \<open>Schedules, calendars and settings are not part of the snapshot: a restart keeps the
  seeded ones and forgets the others.\<close>

lemma restart_forgets_schedules:
  "ac_schedules (snd (restoreFromStateStore e s)) = ac_schedules s"
  "ac_holidayCalendars (snd (restoreFromStateStore e s)) = ac_holidayCalendars s"
  "ac_organizationSettings (snd (restoreFromStateStore e s)) = ac_organizationSettings s"
  by (simp_all add: restoreFromStateStore_def case_prod_unfold split: store.splits option.splits)

text \<open>The day names of the seeded schedules match no day.\<close>

lemma day_names_match_nothing: "\<not> isDayInSet wd ''Mon,Tue,Wed,Thu,Fri''"
proof -
  let ?t = "to_lower (trim_space ''Mon,Tue,Wed,Thu,Fri'')"
  have t: "?t = ''mon,tue,wed,thu,fri''" by code_simp
  have "list_all (\<lambda>part. digits_acc 0 (trim_space part) < 1) (split_on (CHR '','') ''mon,tue,wed,thu,fri'')"
    by code_simp
  then show ?thesis
    unfolding isDayInSet_def Let_def t by (cases wd) (auto simp: list_all_iff list_ex_iff)
qed

end
