(* ===== verification/Wallet_Pass.thy ===== *)
theory Wallet_Pass
  imports MP_Prelude Go_Time
begin

text \<open>
  \<open>internal/modules/wallet\<close>: the state of the wallet service as far as passes and physical
  cards use it, and the pass operations of \<open>service_passes.go\<close> and \<open>service.go\<close>.  Every
  identifier is a fresh random read; \<open>rnd\<close> gives the outcomes of the reads of a call.
  Issuing from a template through the Apple and Google providers, batch issuing and the job
  queue are not part of the model, nor are the configuration, delivery and alert slices of
  the state.
\<close>

section \<open>State\<close>

record passTemplate =
  pt_ID :: string
  pt_TenantID :: string
  pt_Provider :: string
  pt_PassType :: string
  pt_ClassID :: string
  pt_Name :: string
  pt_StyleConfig :: "string \<rightharpoonup> string"
  pt_Status :: string
  pt_CreatedAt :: time
  pt_UpdatedAt :: time

record passInstance =
  pi_ID :: string
  pi_TenantID :: string
  pi_Provider :: string
  pi_CredentialKind :: string
  pi_TemplateID :: string
  pi_TargetType :: string
  pi_TargetID :: string
  pi_ObjectID :: string
  pi_Token :: string
  pi_UID :: string
  pi_CardNumber :: string
  pi_DeviceName :: string
  pi_Status :: string
  pi_SaveLink :: string
  pi_ExpiresAt :: string
  pi_IssuedAt :: time
  pi_ActivatedAt :: "time option"
  pi_RevokedAt :: "time option"
  pi_CreatedBy :: string
  pi_UpdatedBy :: string
  pi_CreatedAt :: time
  pi_UpdatedAt :: time

record physicalCardTask =
  ct_ID :: string
  ct_TenantID :: string
  ct_PassID :: string
  ct_TemplateID :: string
  ct_TargetType :: string
  ct_TargetID :: string
  ct_TaskType :: string
  ct_Status :: string
  ct_CardNumber :: string
  ct_InventoryID :: string
  ct_VendorID :: string
  ct_VendorName :: string
  ct_Note :: string
  ct_PassStatus :: string
  ct_CompletedAt :: "time option"
  ct_CreatedBy :: string
  ct_UpdatedBy :: string
  ct_CreatedAt :: time
  ct_UpdatedAt :: time

record physicalCardVendor =
  cv_ID :: string
  cv_TenantID :: string
  cv_Name :: string
  cv_Provider :: string
  cv_Status :: string
  cv_CreatedAt :: time
  cv_UpdatedAt :: time

record physicalCardInventoryItem =
  ci_ID :: string
  ci_TenantID :: string
  ci_CardNumber :: string
  ci_UID :: string
  ci_VendorID :: string
  ci_VendorName :: string
  ci_Source :: string
  ci_ReaderID :: string
  ci_Status :: string
  ci_AssignedPassID :: string
  ci_ActiveTaskID :: string
  ci_ScannedAt :: "time option"
  ci_CreatedAt :: time
  ci_UpdatedAt :: time

record auditLog =
  al_ID :: string
  al_TenantID :: string
  al_Action :: string
  al_Actor :: string
  al_TargetID :: string
  al_Result :: string
  al_At :: time

record wallet_snapshot =
  ws_Templates :: "passTemplate list"
  ws_Passes :: "passInstance list"
  ws_PhysicalCardTasks :: "physicalCardTask list"
  ws_PhysicalCardVendors :: "physicalCardVendor list"
  ws_PhysicalCardInventory :: "physicalCardInventoryItem list"
  ws_AuditLogs :: "auditLog list"

record walletService =
  wa_templates :: "passTemplate list"
  wa_passes :: "passInstance list"
  wa_physicalCardTasks :: "physicalCardTask list"
  wa_physicalCardVendors :: "physicalCardVendor list"
  wa_physicalCardInventory :: "physicalCardInventoryItem list"
  wa_auditLogs :: "auditLog list"
  wa_store :: "wallet_snapshot store"

datatype wallet_error =
    PassNotFound | InvalidPassTransition | InvalidTargetType | TargetIDRequired
  | TemplateIDRequired | TemplateNotFound | TemplateInactive | PassIDRequired
  | PhysicalCardTaskNotFound | InvalidPhysicalCardTaskType | InvalidPhysicalCardTaskStatus
  | InvalidPhysicalCardTaskTransition | PhysicalCardTaskEmployeePassRequired
  | PhysicalCardVendorNotFound | PhysicalCardInventoryNotFound
  | PhysicalCardInventoryAlreadyExists | PhysicalCardInventoryCardNumberRequired
  | PhysicalCardInventoryUIDRequired | PhysicalCardInventoryIDsRequired
  | PhysicalCardInventoryRecordsRequired | InvalidPhysicalCardInventoryStatus
  | InvalidPhysicalCardInventoryTransition
  | WalletRandFailed | WalletStoreFailed

definition walletID :: "string option \<Rightarrow> string \<Rightarrow> (wallet_error, string) result" where
  "walletID r prefix = (case r of None \<Rightarrow> Inl WalletRandFailed | Some h \<Rightarrow> Inr (prefix @ h))"

definition wallet_snapshot_of :: "walletService \<Rightarrow> wallet_snapshot" where
  "wallet_snapshot_of s =
     \<lparr>ws_Templates = wa_templates s, ws_Passes = wa_passes s,
      ws_PhysicalCardTasks = wa_physicalCardTasks s, ws_PhysicalCardVendors = wa_physicalCardVendors s,
      ws_PhysicalCardInventory = wa_physicalCardInventory s, ws_AuditLogs = wa_auditLogs s\<rparr>"

definition persistLocked_wallet :: "env \<Rightarrow> walletService \<Rightarrow> bool \<times> walletService" where
  "persistLocked_wallet e s =
     (case store_save e (wallet_snapshot_of s) (wa_store s) of (ok, st) \<Rightarrow> (ok, s\<lparr>wa_store := st\<rparr>))"

definition restoreFromStateStore_wallet :: "env \<Rightarrow> walletService \<Rightarrow> bool \<times> walletService" where
  "restoreFromStateStore_wallet e s =
     (case wa_store s of
        NoStore \<Rightarrow> (True, s)
      | Store None \<Rightarrow> persistLocked_wallet e s
      | Store (Some snap) \<Rightarrow>
          (True, s\<lparr>wa_templates := ws_Templates snap, wa_passes := ws_Passes snap,
             wa_physicalCardTasks := ws_PhysicalCardTasks snap,
             wa_physicalCardVendors := ws_PhysicalCardVendors snap,
             wa_physicalCardInventory := ws_PhysicalCardInventory snap,
             wa_auditLogs := ws_AuditLogs snap\<rparr>))"

definition wallet_return ::
  "env \<Rightarrow> 'a \<Rightarrow> walletService \<Rightarrow> (wallet_error, 'a) result \<times> walletService" where
  "wallet_return e v s =
     (case persistLocked_wallet e s of
        (True, s') \<Rightarrow> (Inr v, s') | (False, s') \<Rightarrow> (Inl WalletStoreFailed, s'))"

text \<open>\<open>appendAuditLocked\<close>: when the random read fails the clock names the entry.\<close>

definition appendAuditLocked ::
  "env \<Rightarrow> string option \<Rightarrow> string \<Rightarrow> string \<Rightarrow> string \<Rightarrow> string \<Rightarrow> string \<Rightarrow> walletService \<Rightarrow> walletService" where
  "appendAuditLocked e r tenantID action actor targetID res s =
     s\<lparr>wa_auditLogs :=
         \<lparr>al_ID = (case walletID r ''wal_'' of
                    Inl _ \<Rightarrow> ''wal_fallback_'' @ show_int (env_now e) | Inr i \<Rightarrow> i),
          al_TenantID = tenantID, al_Action = action, al_Actor = actor, al_TargetID = targetID,
          al_Result = res, al_At = env_now e\<rparr> # wa_auditLogs s\<rparr>"

section \<open>Helpers\<close>

definition normalizeTenantID :: "string \<Rightarrow> string" where
  "normalizeTenantID tenantID =
     (if trim_space tenantID = '''' then ''tenant_demo_jakarta'' else trim_space tenantID)"

definition normalizeActor :: "string \<Rightarrow> string" where
  "normalizeActor actor = (if trim_space actor = '''' then ''system'' else trim_space actor)"

definition normalizeTargetType :: "string \<Rightarrow> (wallet_error, string) result" where
  "normalizeTargetType t =
     (let x = to_lower (trim_space t) in
      if x = ''user'' then Inr ''user'' else if x = ''visitor'' then Inr ''visitor''
      else Inl InvalidTargetType)"

definition canTransitPassStatus :: "string \<Rightarrow> string \<Rightarrow> bool" where
  "canTransitPassStatus current nxt \<longleftrightarrow>
     current = nxt \<or>
     (nxt = ''suspended'' \<and> current \<in> {''active'', ''issued''}) \<or>
     (nxt = ''active'' \<and> current \<in> {''issued'', ''suspended''}) \<or>
     (nxt = ''revoked'' \<and> current \<in> {''issued'', ''active'', ''suspended''})"

definition normalizeNFCUID :: "string \<Rightarrow> string" where
  "normalizeNFCUID raw = to_upper (filter (\<lambda>c. c \<notin> {CHR '':'', CHR ''-'', CHR '' ''}) (trim_space raw))"

definition firstNonEmpty3 :: "string \<Rightarrow> string \<Rightarrow> string \<Rightarrow> string" where
  "firstNonEmpty3 a b c =
     (if trim_space a \<noteq> '''' then trim_space a else if trim_space b \<noteq> '''' then trim_space b
      else trim_space c)"

definition credentialKindForProvider :: "string \<Rightarrow> string" where
  "credentialKindForProvider provider =
     (let p = to_lower (trim_space provider) in
      if p = ''apple'' then ''apple_wallet''
      else if p = ''google'' \<or> p = '''' then ''google_wallet''
      else if p \<in> {''physical_card'', ''desfire'', ''mifare'', ''mifare_desfire'', ''third_party_hf'',
                   ''hid'', ''fob''} then ''physical_card''
      else ''credential'')"

definition normalizeCardCredentialProvider ::
  "string \<Rightarrow> string \<Rightarrow> string \<Rightarrow> string \<Rightarrow> string \<Rightarrow> string \<times> string" where
  "normalizeCardCredentialProvider cardType token uid cardNumber fallback =
     (let t = to_lower (trim_space cardType) in
      if t \<in> {''apple'', ''apple_wallet'', ''apple_pass'', ''apple_passes''} then (''apple'', ''apple_wallet'')
      else if t \<in> {''google'', ''google_wallet'', ''wallet''} then (''google'', ''google_wallet'')
      else if t \<in> {''physical'', ''physical_card'', ''card''} then (''physical_card'', ''physical_card'')
      else if t \<in> {''desfire'', ''mifare'', ''mifare_desfire'', ''third_party_hf'', ''hid'', ''fob''}
        then (t, ''physical_card'')
      else if trim_space token \<noteq> '''' \<or> trim_space uid \<noteq> '''' \<or> trim_space cardNumber \<noteq> ''''
        then (''physical_card'', ''physical_card'')
      else
        let p = (if to_lower (trim_space fallback) \<noteq> '''' then trim_space (to_lower (trim_space fallback))
                 else ''google'') in
        (p, credentialKindForProvider p))"

section \<open>Pass operations\<close>

definition ListPasses :: "string \<Rightarrow> walletService \<Rightarrow> passInstance list" where
  "ListPasses tenantID s = filter (\<lambda>p. pi_TenantID p = normalizeTenantID tenantID) (wa_passes s)"

text \<open>The first pass with the identifier, when it belongs to the tenant.\<close>

definition find_pass :: "string \<Rightarrow> string \<Rightarrow> walletService \<Rightarrow> nat option" where
  "find_pass tenantID passID s =
     (if trim_space passID = '''' then None
      else lookup_strict pi_ID pi_TenantID (normalizeTenantID tenantID) (trim_space passID) (wa_passes s))"

definition GetPass :: "string \<Rightarrow> string \<Rightarrow> walletService \<Rightarrow> (wallet_error, passInstance) result" where
  "GetPass tenantID passID s =
     (case find_pass tenantID passID s of
        None \<Rightarrow> Inl PassNotFound | Some i \<Rightarrow> Inr (wa_passes s ! i))"

definition GetSaveLink :: "string \<Rightarrow> string \<Rightarrow> walletService \<Rightarrow> (wallet_error, string) result" where
  "GetSaveLink tenantID passID s =
     (case GetPass tenantID passID s of Inl err \<Rightarrow> Inl err | Inr p \<Rightarrow> Inr (pi_SaveLink p))"

definition set_pass :: "nat \<Rightarrow> passInstance \<Rightarrow> walletService \<Rightarrow> walletService" where
  "set_pass i p s = s\<lparr>wa_passes := (wa_passes s)[i := p]\<rparr>"

definition with_status :: "time \<Rightarrow> string \<Rightarrow> string \<Rightarrow> passInstance \<Rightarrow> passInstance" where
  "with_status now actor status p =
     p\<lparr>pi_Status := status, pi_UpdatedBy := actor, pi_UpdatedAt := now,
       pi_ActivatedAt := (if status = ''active'' then Some now else pi_ActivatedAt p),
       pi_RevokedAt := (if status = ''revoked'' then Some now else pi_RevokedAt p)\<rparr>"

definition updatePassStatus ::
  "env \<Rightarrow> reads \<Rightarrow> string \<Rightarrow> string \<Rightarrow> string \<Rightarrow> string \<Rightarrow> walletService \<Rightarrow>
   (wallet_error, passInstance) result \<times> walletService" where
  "updatePassStatus e rnd tenantID passID status actor s =
     (case find_pass tenantID passID s of
        None \<Rightarrow> (Inl PassNotFound, s)
      | Some i \<Rightarrow>
          let p = wa_passes s ! i; x = trim_space status; a = normalizeActor actor;
              p' = with_status (env_now e) a x p in
          if \<not> canTransitPassStatus (pi_Status p) x then (Inl InvalidPassTransition, s)
          else wallet_return e p'
                 (appendAuditLocked e (rnd 0) (pi_TenantID p) (''wallet.pass.'' @ x) a (pi_ID p) ''success''
                    (set_pass i p' s)))"

definition SuspendPass where
  "SuspendPass e rnd t i actor s = updatePassStatus e rnd t i ''suspended'' actor s"

definition ActivatePass where
  "ActivatePass e rnd t i actor s = updatePassStatus e rnd t i ''active'' actor s"

definition RevokePass where
  "RevokePass e rnd t i actor s = updatePassStatus e rnd t i ''revoked'' actor s"

definition AssignPass ::
  "env \<Rightarrow> reads \<Rightarrow> string \<Rightarrow> string \<Rightarrow> string \<Rightarrow> string \<Rightarrow> string \<Rightarrow> walletService \<Rightarrow>
   (wallet_error, passInstance) result \<times> walletService" where
  "AssignPass e rnd tenantID passID targetType targetID actor s =
     (if trim_space passID = '''' then (Inl PassNotFound, s)
      else
        (case normalizeTargetType targetType of
           Inl err \<Rightarrow> (Inl err, s)
         | Inr tt \<Rightarrow>
             if trim_space targetID = '''' then (Inl TargetIDRequired, s)
             else
               (case find_pass tenantID passID s of
                  None \<Rightarrow> (Inl PassNotFound, s)
                | Some i \<Rightarrow>
                    let p = wa_passes s ! i; a = normalizeActor actor;
                        p' = p\<lparr>pi_TargetType := tt, pi_TargetID := trim_space targetID,
                               pi_Status := ''active'', pi_UpdatedBy := a, pi_UpdatedAt := env_now e,
                               pi_ActivatedAt := Some (env_now e), pi_RevokedAt := None\<rparr> in
                    if pi_Status p = ''revoked'' then (Inl InvalidPassTransition, s)
                    else wallet_return e p'
                           (appendAuditLocked e (rnd 0) (normalizeTenantID tenantID) ''wallet.card.assign''
                              a (pi_ID p) ''success'' (set_pass i p' s)))))"

definition DeassignPass ::
  "env \<Rightarrow> reads \<Rightarrow> string \<Rightarrow> string \<Rightarrow> string \<Rightarrow> walletService \<Rightarrow>
   (wallet_error, passInstance) result \<times> walletService" where
  "DeassignPass e rnd tenantID passID actor s =
     (case find_pass tenantID passID s of
        None \<Rightarrow> (Inl PassNotFound, s)
      | Some i \<Rightarrow>
          let p = wa_passes s ! i; a = normalizeActor actor;
              p' = p\<lparr>pi_TargetType := '''', pi_TargetID := '''', pi_Status := ''issued'',
                     pi_UpdatedBy := a, pi_UpdatedAt := env_now e, pi_ActivatedAt := None\<rparr> in
          if pi_Status p = ''revoked'' then (Inl InvalidPassTransition, s)
          else wallet_return e p'
                 (appendAuditLocked e (rnd 0) (normalizeTenantID tenantID) ''wallet.card.deassign''
                    a (pi_ID p) ''success'' (set_pass i p' s)))"

definition blank_pass :: "env \<Rightarrow> string \<Rightarrow> string \<Rightarrow> string \<Rightarrow> passInstance" where
  "blank_pass e newID tenantID actor =
     \<lparr>pi_ID = newID, pi_TenantID = tenantID, pi_Provider = '''', pi_CredentialKind = '''',
      pi_TemplateID = '''', pi_TargetType = '''', pi_TargetID = '''', pi_ObjectID = '''', pi_Token = '''',
      pi_UID = '''', pi_CardNumber = '''', pi_DeviceName = '''', pi_Status = ''issued'', pi_SaveLink = '''',
      pi_ExpiresAt = '''', pi_IssuedAt = env_now e, pi_ActivatedAt = None, pi_RevokedAt = None,
      pi_CreatedBy = actor, pi_UpdatedBy = actor, pi_CreatedAt = env_now e, pi_UpdatedAt = env_now e\<rparr>"

definition RegisterNFCCard ::
  "env \<Rightarrow> reads \<Rightarrow> string \<Rightarrow> string \<Rightarrow> string \<Rightarrow> string \<Rightarrow> string \<Rightarrow> string \<Rightarrow> walletService \<Rightarrow>
   (wallet_error, passInstance) result \<times> walletService" where
  "RegisterNFCCard e rnd tenantID uid targetID label expiresAt actor s =
     (case walletID (rnd 0) ''wps_'' of
        Inl err \<Rightarrow> (Inl err, s)
      | Inr newID \<Rightarrow>
          let p = (blank_pass e newID (trim_space tenantID) actor)
                    \<lparr>pi_Provider := ''physical_card'', pi_CredentialKind := ''physical_card'',
                     pi_TemplateID := ''nfc_card'', pi_ObjectID := ''mistypass.nfc.'' @ newID,
                     pi_UID := normalizeNFCUID uid, pi_Token := normalizeNFCUID uid,
                     pi_DeviceName := label, pi_TargetType := ''user'',
                     pi_TargetID := trim_space targetID, pi_Status := ''active'',
                     pi_ExpiresAt := trim_space expiresAt, pi_ActivatedAt := Some (env_now e)\<rparr> in
          wallet_return e p
            (appendAuditLocked e (rnd 1) (trim_space tenantID) ''wallet.nfc.register'' actor newID ''success''
               (s\<lparr>wa_passes := p # wa_passes s\<rparr>)))"

definition findTemplateByID :: "passTemplate list \<Rightarrow> string \<Rightarrow> passTemplate option" where
  "findTemplateByID items templateID = find (\<lambda>t. pt_ID t = templateID) items"

definition CreateUnassignedCard ::
  "env \<Rightarrow> reads \<Rightarrow> string \<Rightarrow> string \<Rightarrow> string \<Rightarrow> string \<Rightarrow> string \<Rightarrow> string \<Rightarrow> string \<Rightarrow> string \<Rightarrow>
   walletService \<Rightarrow> (wallet_error, passInstance) result \<times> walletService" where
  "CreateUnassignedCard e rnd tenantID templateID token uid cardNumber cardType expiresAt actor s =
     (let t = normalizeTenantID tenantID; a = normalizeActor actor in
      if trim_space templateID = '''' then (Inl TemplateIDRequired, s)
      else
        (case findTemplateByID (wa_templates s) (trim_space templateID) of
           None \<Rightarrow> (Inl TemplateNotFound, s)
         | Some tm \<Rightarrow>
             if pt_TenantID tm \<noteq> t then (Inl TemplateNotFound, s)
             else if pt_Status tm \<noteq> ''active'' then (Inl TemplateInactive, s)
             else
               (case walletID (rnd 0) ''wps_'' of
                  Inl err \<Rightarrow> (Inl err, s)
                | Inr newID \<Rightarrow>
                    let obj = firstNonEmpty3 token uid cardNumber;
                        (provider, kind) =
                          normalizeCardCredentialProvider cardType token uid cardNumber (pt_Provider tm);
                        p = (blank_pass e newID t a)
                          \<lparr>pi_Provider := provider, pi_CredentialKind := kind,
                           pi_TemplateID := trim_space templateID,
                           pi_ObjectID := (if obj = '''' then pt_ClassID tm @ ''.'' @ newID else obj),
                           pi_Token := trim_space token, pi_UID := trim_space uid,
                           pi_CardNumber := trim_space cardNumber,
                           pi_SaveLink := (if kind = ''google_wallet''
                                           then ''https://pay.google.com/gp/v/save/'' @ newID else ''''),
                           pi_ExpiresAt := trim_space expiresAt\<rparr> in
                    wallet_return e p
                      (appendAuditLocked e (rnd 1) t ''wallet.card.create'' a newID ''success''
                         (s\<lparr>wa_passes := p # wa_passes s\<rparr>)))))"

definition apple_match :: "string \<Rightarrow> string \<Rightarrow> string \<Rightarrow> string \<Rightarrow> passInstance \<Rightarrow> bool" where
  "apple_match t user device serial p \<longleftrightarrow>
     pi_TenantID p = t \<and> pi_TargetType p = ''user'' \<and> pi_TargetID p = user \<and>
     (credentialKindForProvider (pi_Provider p) = ''apple_wallet'' \<or>
      to_lower (trim_space (pi_CredentialKind p)) = ''apple_wallet'') \<and>
     pi_Status p \<noteq> ''revoked'' \<and>
     (serial = '''' \<or> pi_ObjectID p = serial) \<and> (device = '''' \<or> pi_Token p = device)"

definition EnrollApplePass ::
  "env \<Rightarrow> reads \<Rightarrow> string \<Rightarrow> string \<Rightarrow> string \<Rightarrow> string \<Rightarrow> string \<Rightarrow> string \<Rightarrow> walletService \<Rightarrow>
   (wallet_error, passInstance) result \<times> walletService" where
  "EnrollApplePass e rnd tenantID userID deviceID passSerial expiresAt actor s =
     (let t = normalizeTenantID tenantID; u = trim_space userID; a = normalizeActor actor;
          device = trim_space deviceID; serial = trim_space passSerial in
      if u = '''' then (Inl TargetIDRequired, s)
      else
        (case find (apple_match t u device serial) (wa_passes s) of
           Some p \<Rightarrow> (Inr p, s)
         | None \<Rightarrow>
             (case walletID (rnd 0) ''wps_'' of
                Inl err \<Rightarrow> (Inl err, s)
              | Inr newID \<Rightarrow>
                  let p = (blank_pass e newID t a)
                        \<lparr>pi_Provider := ''apple'', pi_CredentialKind := ''apple_wallet'',
                         pi_TemplateID := ''wpt_apple_pass_self'', pi_TargetType := ''user'',
                         pi_TargetID := u,
                         pi_ObjectID := (if serial = '''' then ''apple.'' @ u @ ''.'' @ newID else serial),
                         pi_Token := device, pi_Status := ''active'',
                         pi_ExpiresAt := trim_space expiresAt, pi_ActivatedAt := Some (env_now e)\<rparr> in
                  wallet_return e p
                    (appendAuditLocked e (rnd 1) t ''wallet.apple_pass.enroll'' a newID ''success''
                       (s\<lparr>wa_passes := p # wa_passes s\<rparr>)))))"

section \<open>Lemmas\<close>

lemma normalizeTenantID_nonempty [simp]: "normalizeTenantID t \<noteq> ''''"
  by (simp add: normalizeTenantID_def)

lemma persist_wallet_frame [simp]:
  "wa_templates (snd (persistLocked_wallet e s)) = wa_templates s"
  "wa_passes (snd (persistLocked_wallet e s)) = wa_passes s"
  "wa_physicalCardTasks (snd (persistLocked_wallet e s)) = wa_physicalCardTasks s"
  "wa_physicalCardVendors (snd (persistLocked_wallet e s)) = wa_physicalCardVendors s"
  "wa_physicalCardInventory (snd (persistLocked_wallet e s)) = wa_physicalCardInventory s"
  "wa_auditLogs (snd (persistLocked_wallet e s)) = wa_auditLogs s"
  by (simp_all add: persistLocked_wallet_def case_prod_unfold)

lemma wallet_return_state [simp]: "snd (wallet_return e v s) = snd (persistLocked_wallet e s)"
  by (simp add: wallet_return_def case_prod_unfold split: bool.splits)

lemma audit_frame [simp]:
  "wa_templates (appendAuditLocked e r t a b c d s) = wa_templates s"
  "wa_passes (appendAuditLocked e r t a b c d s) = wa_passes s"
  "wa_physicalCardTasks (appendAuditLocked e r t a b c d s) = wa_physicalCardTasks s"
  "wa_physicalCardVendors (appendAuditLocked e r t a b c d s) = wa_physicalCardVendors s"
  "wa_physicalCardInventory (appendAuditLocked e r t a b c d s) = wa_physicalCardInventory s"
  "wa_store (appendAuditLocked e r t a b c d s) = wa_store s"
  by (simp_all add: appendAuditLocked_def)

lemma set_pass_frame [simp]:
  "wa_passes (set_pass i p s) = (wa_passes s)[i := p]"
  "wa_physicalCardTasks (set_pass i p s) = wa_physicalCardTasks s"
  "wa_physicalCardInventory (set_pass i p s) = wa_physicalCardInventory s"
  "wa_store (set_pass i p s) = wa_store s"
  by (simp_all add: set_pass_def)

lemma find_pass_SomeD:
  "find_pass t i s = Some k \<Longrightarrow> k < length (wa_passes s)"
  "find_pass t i s = Some k \<Longrightarrow> pi_TenantID (wa_passes s ! k) = normalizeTenantID t"
  by (auto simp: find_pass_def in_scope_nonempty split: if_splits dest: lookup_strict_SomeD)

text \<open>The pass status table is a status machine whose end is revocation.\<close>

interpretation pass_status: status_machine canTransitPassStatus "\<lambda>x. x = ''revoked''"
  by unfold_locales (auto simp: canTransitPassStatus_def)

text \<open>How a pass may change: identifier and tenant stay, and a revoked pass keeps its target
  and its status.\<close>

definition pass_evolves :: "passInstance \<Rightarrow> passInstance \<Rightarrow> bool" where
  "pass_evolves p q \<longleftrightarrow>
     pi_ID q = pi_ID p \<and> pi_TenantID q = pi_TenantID p \<and> pi_UID q = pi_UID p \<and> pi_Token q = pi_Token p \<and>
     (pi_Status p = ''revoked'' \<longrightarrow>
        pi_Status q = ''revoked'' \<and> pi_TargetType q = pi_TargetType p \<and> pi_TargetID q = pi_TargetID p)"

text \<open>New passes are put in front, so the passes of before are the tail of those of now.\<close>

definition passes_evolve :: "passInstance list \<Rightarrow> passInstance list \<Rightarrow> bool" where
  "passes_evolve ps qs \<longleftrightarrow>
     length ps \<le> length qs \<and> list_all2 pass_evolves ps (drop (length qs - length ps) qs)"

lemma pass_evolves_refl [simp]: "pass_evolves p p"
  by (simp add: pass_evolves_def)

lemma pass_evolves_trans: "pass_evolves a b \<Longrightarrow> pass_evolves b c \<Longrightarrow> pass_evolves a c"
  by (auto simp: pass_evolves_def)

lemma passes_evolve_refl [simp]: "passes_evolve ps ps"
  by (simp add: passes_evolve_def list_all2_refl)

lemma passes_evolve_Cons: "passes_evolve ps qs \<Longrightarrow> passes_evolve ps (q # qs)"
  by (simp add: passes_evolve_def Suc_diff_le)

lemma passes_evolve_update: "pass_evolves (ps ! i) q \<Longrightarrow> passes_evolve ps (ps[i := q])"
  by (cases "i < length ps") (auto simp: passes_evolve_def list_all2_conv_all_nth nth_list_update)

lemma passes_evolve_trans:
  assumes "passes_evolve a b" and "passes_evolve b c"
  shows "passes_evolve a c"
proof -
  let ?k = "length b - length a"
  from assms(2) have "list_all2 pass_evolves (drop ?k b) (drop ?k (drop (length c - length b) c))"
    unfolding passes_evolve_def by (blast intro: list_all2_dropI)
  moreover have "drop ?k (drop (length c - length b) c) = drop (length c - length a) c"
    using assms by (simp add: passes_evolve_def)
  ultimately have "list_all2 pass_evolves a (drop (length c - length a) c)"
    using assms(1) pass_evolves_trans
    by (auto simp: passes_evolve_def intro: list_all2_trans [of pass_evolves pass_evolves pass_evolves a "drop ?k b"])
  then show ?thesis using assms by (simp add: passes_evolve_def)
qed

lemma with_status_evolves:
  assumes "canTransitPassStatus (pi_Status p) x"
  shows "pass_evolves p (with_status now a x p)"
  using assms pass_status.terminal_closed [of "pi_Status p" x]
  by (auto simp: pass_evolves_def with_status_def)

lemma updatePassStatus_evolves:
  "passes_evolve (wa_passes s) (wa_passes (snd (updatePassStatus e rnd t i x a s)))"
  by (auto simp: updatePassStatus_def Let_def intro!: passes_evolve_update with_status_evolves
      split: option.splits)

end
