(* ===== verification/Physical_Card.thy ===== *)
theory Physical_Card
  imports Wallet_Pass
begin

text \<open>
  \<open>internal/modules/wallet/physical_card.go\<close>: the card inventory, the issue, reissue and
  loss tasks, and what both do to the pass a card belongs to.  Loops that return half-way
  keep what they have changed in memory, as the code does.
\<close>

section \<open>Status rules\<close>

definition inventory_statuses :: "string list" where
  "inventory_statuses = [''available'', ''reserved'', ''issued'', ''lost'', ''frozen'', ''scrapped'']"

definition normalizePhysicalCardInventoryStatus :: "string \<Rightarrow> (wallet_error, string) result" where
  "normalizePhysicalCardInventoryStatus raw =
     (let x0 = to_lower (trim_space raw); x = (if x0 = '''' then ''available'' else x0) in
      if x \<in> set inventory_statuses then Inr x else Inl InvalidPhysicalCardInventoryStatus)"

definition canTransitPhysicalCardInventoryStatus :: "string \<Rightarrow> string \<Rightarrow> bool" where
  "canTransitPhysicalCardInventoryStatus current nxt \<longleftrightarrow>
     current = nxt \<or>
     (current = ''available'' \<and> nxt \<in> {''frozen'', ''scrapped''}) \<or>
     (current = ''frozen'' \<and> nxt \<in> {''available'', ''scrapped''}) \<or>
     (current = ''lost'' \<and> nxt = ''scrapped'')"

definition normalizePhysicalCardTaskType :: "string \<Rightarrow> (wallet_error, string) result" where
  "normalizePhysicalCardTaskType raw =
     (let x = to_lower (trim_space raw) in
      if x \<in> {''issue'', ''reissue'', ''loss_report''} then Inr x else Inl InvalidPhysicalCardTaskType)"

definition normalizePhysicalCardTaskStatus :: "string \<Rightarrow> string \<Rightarrow> (wallet_error, string) result" where
  "normalizePhysicalCardTaskStatus taskType raw =
     (let x0 = to_lower (trim_space raw); x = (if x0 = '''' then ''queued'' else x0) in
      if taskType \<in> {''issue'', ''reissue''} \<and> x \<in> {''queued'', ''printing'', ''ready'', ''issued'', ''cancelled''}
        then Inr x
      else if taskType = ''loss_report'' \<and> x \<in> {''queued'', ''reported_lost'', ''cancelled''} then Inr x
      else Inl InvalidPhysicalCardTaskStatus)"

definition canTransitPhysicalCardTaskStatus :: "string \<Rightarrow> string \<Rightarrow> string \<Rightarrow> bool" where
  "canTransitPhysicalCardTaskStatus taskType current nxt \<longleftrightarrow>
     current = nxt \<or>
     (taskType \<in> {''issue'', ''reissue''} \<and>
       ((current = ''queued'' \<and> nxt \<in> {''printing'', ''ready'', ''issued'', ''cancelled''}) \<or>
        (current = ''printing'' \<and> nxt \<in> {''ready'', ''issued'', ''cancelled''}) \<or>
        (current = ''ready'' \<and> nxt \<in> {''issued'', ''cancelled''}))) \<or>
     (taskType = ''loss_report'' \<and> current = ''queued'' \<and> nxt \<in> {''reported_lost'', ''cancelled''})"

section \<open>Searches\<close>

definition findPhysicalCardVendorLocked ::
  "physicalCardVendor list \<Rightarrow> string \<Rightarrow> string \<Rightarrow> physicalCardVendor option" where
  "findPhysicalCardVendorLocked items tenantID vendorID =
     (if trim_space vendorID = '''' then None
      else find (\<lambda>v. cv_TenantID v = tenantID \<and> cv_ID v = trim_space vendorID) items)"

definition findPhysicalCardInventoryIndexLocked ::
  "physicalCardInventoryItem list \<Rightarrow> string \<Rightarrow> string \<Rightarrow> string \<Rightarrow> nat option" where
  "findPhysicalCardInventoryIndexLocked items tenantID inventoryID cardNumber =
     find_idx (\<lambda>x. ci_TenantID x = tenantID \<and>
        (if trim_space inventoryID \<noteq> '''' then ci_ID x = trim_space inventoryID
         else trim_space cardNumber \<noteq> '''' \<and> equal_fold (ci_CardNumber x) (trim_space cardNumber))) items"

definition findPhysicalCardInventoryIndexByUIDLocked ::
  "physicalCardInventoryItem list \<Rightarrow> string \<Rightarrow> string \<Rightarrow> nat option" where
  "findPhysicalCardInventoryIndexByUIDLocked items tenantID uid =
     (if trim_space uid = '''' then None
      else find_idx (\<lambda>x. ci_TenantID x = tenantID \<and> equal_fold (trim_space (ci_UID x)) (trim_space uid)) items)"

definition ListPhysicalCardVendors :: "string \<Rightarrow> walletService \<Rightarrow> physicalCardVendor list" where
  "ListPhysicalCardVendors tenantID s =
     filter (\<lambda>v. cv_TenantID v = normalizeTenantID tenantID) (wa_physicalCardVendors s)"

definition ListPhysicalCardInventory :: "string \<Rightarrow> string \<Rightarrow> walletService \<Rightarrow> physicalCardInventoryItem list" where
  "ListPhysicalCardInventory tenantID status s =
     (let x = to_lower (trim_space status) in
      filter (\<lambda>c. ci_TenantID c = normalizeTenantID tenantID \<and> in_scope x (ci_Status c))
        (wa_physicalCardInventory s))"

definition ListPhysicalCardTasks :: "string \<Rightarrow> walletService \<Rightarrow> physicalCardTask list" where
  "ListPhysicalCardTasks tenantID s =
     filter (\<lambda>t. ct_TenantID t = normalizeTenantID tenantID) (wa_physicalCardTasks s)"

text \<open>The vendor of an input: none when the identifier is blank, else it must exist.\<close>

definition vendor_of ::
  "string \<Rightarrow> string \<Rightarrow> walletService \<Rightarrow> (wallet_error, string \<times> string) result" where
  "vendor_of tenantID vendorID s =
     (if trim_space vendorID = '''' then Inr ('''', '''')
      else
        (case findPhysicalCardVendorLocked (wa_physicalCardVendors s) tenantID vendorID of
           None \<Rightarrow> Inl PhysicalCardVendorNotFound
         | Some v \<Rightarrow> Inr (cv_ID v, cv_Name v)))"

section \<open>Inventory\<close>

definition new_item ::
  "env \<Rightarrow> string \<Rightarrow> string \<Rightarrow> string \<Rightarrow> string \<Rightarrow> string \<times> string \<Rightarrow> string \<Rightarrow> string \<Rightarrow> physicalCardInventoryItem" where
  "new_item e newID tenantID cardNumber uid vendor source status =
     \<lparr>ci_ID = newID, ci_TenantID = tenantID, ci_CardNumber = cardNumber, ci_UID = uid,
      ci_VendorID = fst vendor, ci_VendorName = snd vendor, ci_Source = source, ci_ReaderID = '''',
      ci_Status = status, ci_AssignedPassID = '''', ci_ActiveTaskID = '''', ci_ScannedAt = None,
      ci_CreatedAt = env_now e, ci_UpdatedAt = env_now e\<rparr>"

definition CreatePhysicalCardInventoryItem ::
  "env \<Rightarrow> reads \<Rightarrow> string \<Rightarrow> string \<Rightarrow> string \<Rightarrow> string \<Rightarrow> string \<Rightarrow> string \<Rightarrow> walletService \<Rightarrow>
   (wallet_error, physicalCardInventoryItem) result \<times> walletService" where
  "CreatePhysicalCardInventoryItem e rnd tenantID cardNumber uid vendorID status actor s =
     (let t = normalizeTenantID tenantID; num = trim_space cardNumber in
      if num = '''' then (Inl PhysicalCardInventoryCardNumberRequired, s)
      else
        (case normalizePhysicalCardInventoryStatus status of
           Inl err \<Rightarrow> (Inl err, s)
         | Inr st \<Rightarrow>
             (case walletID (rnd 0) ''wpci_'' of
                Inl err \<Rightarrow> (Inl err, s)
              | Inr newID \<Rightarrow>
                  if findPhysicalCardInventoryIndexLocked (wa_physicalCardInventory s) t '''' num \<noteq> None
                  then (Inl PhysicalCardInventoryAlreadyExists, s)
                  else
                    (case vendor_of t vendorID s of
                       Inl err \<Rightarrow> (Inl err, s)
                     | Inr vendor \<Rightarrow>
                         let item = new_item e newID t num (trim_space uid) vendor ''manual'' st in
                         wallet_return e item
                           (appendAuditLocked e (rnd 1) t ''wallet.physical_card_inventory.create''
                              (normalizeActor actor) newID ''success''
                              (s\<lparr>wa_physicalCardInventory := item # wa_physicalCardInventory s\<rparr>))))))"

definition current_status :: "physicalCardInventoryItem \<Rightarrow> string" where
  "current_status x = (if trim_space (ci_Status x) = '''' then ''available'' else trim_space (ci_Status x))"

definition applyPhysicalCardInventoryStatusTransition ::
  "physicalCardInventoryItem \<Rightarrow> string \<Rightarrow> time \<Rightarrow> (wallet_error, physicalCardInventoryItem) result" where
  "applyPhysicalCardInventoryStatusTransition item nxt now =
     (if current_status item = nxt then Inr (item\<lparr>ci_UpdatedAt := now\<rparr>)
      else if \<not> canTransitPhysicalCardInventoryStatus (current_status item) nxt
        then Inl InvalidPhysicalCardInventoryTransition
      else if nxt \<in> {''available'', ''frozen'', ''scrapped''}
        then Inr (item\<lparr>ci_Status := nxt, ci_AssignedPassID := '''', ci_ActiveTaskID := '''',
                        ci_UpdatedAt := now\<rparr>)
      else Inr (item\<lparr>ci_Status := nxt, ci_UpdatedAt := now\<rparr>))"

definition set_item :: "nat \<Rightarrow> physicalCardInventoryItem \<Rightarrow> walletService \<Rightarrow> walletService" where
  "set_item i x s = s\<lparr>wa_physicalCardInventory := (wa_physicalCardInventory s)[i := x]\<rparr>"

definition UpdatePhysicalCardInventoryStatus ::
  "env \<Rightarrow> reads \<Rightarrow> string \<Rightarrow> string \<Rightarrow> string \<Rightarrow> string \<Rightarrow> string \<Rightarrow> walletService \<Rightarrow>
   (wallet_error, physicalCardInventoryItem) result \<times> walletService" where
  "UpdatePhysicalCardInventoryStatus e rnd tenantID inventoryID status reason actor s =
     (let t = normalizeTenantID tenantID in
      if trim_space inventoryID = '''' then (Inl PhysicalCardInventoryNotFound, s)
      else
        (case normalizePhysicalCardInventoryStatus status of
           Inl err \<Rightarrow> (Inl err, s)
         | Inr st \<Rightarrow>
             (case findPhysicalCardInventoryIndexLocked (wa_physicalCardInventory s) t inventoryID '''' of
                None \<Rightarrow> (Inl PhysicalCardInventoryNotFound, s)
              | Some i \<Rightarrow>
                  (case applyPhysicalCardInventoryStatusTransition
                          (wa_physicalCardInventory s ! i) st (env_now e) of
                     Inl err \<Rightarrow> (Inl err, s)
                   | Inr x \<Rightarrow>
                       wallet_return e x
                         (appendAuditLocked e (rnd 0) t ''wallet.physical_card_inventory.status''
                            (normalizeActor actor) (ci_ID x)
                            (''status='' @ st @ '',reason='' @ trim_space reason) (set_item i x s))))))"

fun unique_ids :: "string list \<Rightarrow> string list \<Rightarrow> string list" where
  "unique_ids seen [] = []"
| "unique_ids seen (raw # rest) =
     (let v = trim_space raw in
      if v = '''' \<or> v \<in> set seen then unique_ids seen rest else v # unique_ids (v # seen) rest)"

text \<open>The checking loop and the applying loop of the batch update.\<close>

fun check_batch ::
  "string \<Rightarrow> string \<Rightarrow> physicalCardInventoryItem list \<Rightarrow> string list \<Rightarrow> (wallet_error, nat list) result" where
  "check_batch t st items [] = Inr []"
| "check_batch t st items (i # ids) =
     (case findPhysicalCardInventoryIndexLocked items t i '''' of
        None \<Rightarrow> Inl PhysicalCardInventoryNotFound
      | Some k \<Rightarrow>
          if \<not> canTransitPhysicalCardInventoryStatus (current_status (items ! k)) st
          then Inl InvalidPhysicalCardInventoryTransition
          else (case check_batch t st items ids of Inl err \<Rightarrow> Inl err | Inr ks \<Rightarrow> Inr (k # ks)))"

fun apply_batch ::
  "string \<Rightarrow> time \<Rightarrow> nat list \<Rightarrow> walletService \<Rightarrow> (wallet_error, unit) result \<times> walletService" where
  "apply_batch st now [] s = (Inr (), s)"
| "apply_batch st now (k # ks) s =
     (case applyPhysicalCardInventoryStatusTransition (wa_physicalCardInventory s ! k) st now of
        Inl err \<Rightarrow> (Inl err, s)
      | Inr x \<Rightarrow> apply_batch st now ks (set_item k x s))"

definition BatchUpdatePhysicalCardInventoryStatus ::
  "env \<Rightarrow> reads \<Rightarrow> string \<Rightarrow> string list \<Rightarrow> string \<Rightarrow> string \<Rightarrow> string \<Rightarrow> walletService \<Rightarrow>
   (wallet_error, physicalCardInventoryItem list) result \<times> walletService" where
  "BatchUpdatePhysicalCardInventoryStatus e rnd tenantID inventoryIDs status reason actor s =
     (let t = normalizeTenantID tenantID; ids = unique_ids [] inventoryIDs in
      case normalizePhysicalCardInventoryStatus status of
        Inl err \<Rightarrow> (Inl err, s)
      | Inr st \<Rightarrow>
          if ids = [] then (Inl PhysicalCardInventoryIDsRequired, s)
          else
            (case check_batch t st (wa_physicalCardInventory s) ids of
               Inl err \<Rightarrow> (Inl err, s)
             | Inr ks \<Rightarrow>
                 (case apply_batch st (env_now e) ks s of
                    (Inl err, s1) \<Rightarrow> (Inl err, s1)
                  | (Inr _, s1) \<Rightarrow>
                      wallet_return e (map (\<lambda>k. wa_physicalCardInventory s1 ! k) ks)
                        (appendAuditLocked e (rnd 0) t ''wallet.physical_card_inventory.status_batch''
                           (normalizeActor actor) (''count='' @ show_int (int (length ks)))
                           (''status='' @ st @ '',reason='' @ trim_space reason) s1))))"

record import_item =
  ii_CardNumber :: string
  ii_UID :: string
  ii_VendorID :: string
  ii_Status :: string

text \<open>The import loop; \<open>k\<close> counts the random reads.\<close>

fun import_loop ::
  "env \<Rightarrow> reads \<Rightarrow> nat \<Rightarrow> string \<Rightarrow> import_item list \<Rightarrow> walletService \<Rightarrow>
   (wallet_error, physicalCardInventoryItem list \<times> nat) result \<times> walletService" where
  "import_loop e rnd k t [] s = (Inr ([], k), s)"
| "import_loop e rnd k t (r # rs) s =
     (let num = trim_space (ii_CardNumber r);
          more = (\<lambda>x out. case out of (Inl err, s') \<Rightarrow> (Inl err, s')
                            | (Inr (xs, k'), s') \<Rightarrow> (Inr (x # xs, k'), s')) in
      if num = '''' then (Inl PhysicalCardInventoryCardNumberRequired, s)
      else
        (case normalizePhysicalCardInventoryStatus (ii_Status r) of
           Inl err \<Rightarrow> (Inl err, s)
         | Inr st \<Rightarrow>
             (case vendor_of t (ii_VendorID r) s of
                Inl err \<Rightarrow> (Inl err, s)
              | Inr vendor \<Rightarrow>
                  (case findPhysicalCardInventoryIndexLocked (wa_physicalCardInventory s) t '''' num of
                     Some i \<Rightarrow>
                       let x = wa_physicalCardInventory s ! i;
                           x' = x\<lparr>ci_UID := trim_space (ii_UID r), ci_VendorID := fst vendor,
                                  ci_VendorName := snd vendor,
                                  ci_Source := (if trim_space (ci_Source x) \<noteq> '''' then trim_space (ci_Source x)
                                                else ''import''),
                                  ci_Status := st, ci_UpdatedAt := env_now e\<rparr> in
                       if ci_Status x \<noteq> ''available'' then more x (import_loop e rnd k t rs s)
                       else more x' (import_loop e rnd k t rs (set_item i x' s))
                   | None \<Rightarrow>
                       (case walletID (rnd k) ''wpci_'' of
                          Inl err \<Rightarrow> (Inl err, s)
                        | Inr newID \<Rightarrow>
                            let x = new_item e newID t num (trim_space (ii_UID r)) vendor ''import'' st in
                            more x (import_loop e rnd (Suc k) t rs
                              (s\<lparr>wa_physicalCardInventory := x # wa_physicalCardInventory s\<rparr>)))))))"

definition ImportPhysicalCardInventory ::
  "env \<Rightarrow> reads \<Rightarrow> string \<Rightarrow> import_item list \<Rightarrow> string \<Rightarrow> walletService \<Rightarrow>
   (wallet_error, physicalCardInventoryItem list) result \<times> walletService" where
  "ImportPhysicalCardInventory e rnd tenantID records actor s =
     (let t = normalizeTenantID tenantID in
      if records = [] then (Inl PhysicalCardInventoryRecordsRequired, s)
      else
        (case import_loop e rnd 0 t records s of
           (Inl err, s1) \<Rightarrow> (Inl err, s1)
         | (Inr (xs, k), s1) \<Rightarrow>
             wallet_return e xs
               (appendAuditLocked e (rnd k) t ''wallet.physical_card_inventory.import''
                  (normalizeActor actor) (''count='' @ show_int (int (length xs))) ''success'' s1)))"

definition scan_update ::
  "env \<Rightarrow> string \<Rightarrow> string \<Rightarrow> string \<times> string \<Rightarrow> string \<Rightarrow> physicalCardInventoryItem \<Rightarrow> physicalCardInventoryItem" where
  "scan_update e uid requested vendor reader x =
     x\<lparr>ci_UID := uid,
       ci_CardNumber := (if requested \<noteq> '''' \<and> ci_Status x = ''available'' then requested else ci_CardNumber x),
       ci_VendorID := (if fst vendor \<noteq> '''' \<and> ci_Status x = ''available'' then fst vendor else ci_VendorID x),
       ci_VendorName := (if fst vendor \<noteq> '''' \<and> ci_Status x = ''available'' then snd vendor else ci_VendorName x),
       ci_Source := ''reader_scan'', ci_ReaderID := reader, ci_ScannedAt := Some (env_now e),
       ci_UpdatedAt := env_now e\<rparr>"

definition ScanPhysicalCardInventory ::
  "env \<Rightarrow> reads \<Rightarrow> string \<Rightarrow> string \<Rightarrow> string \<Rightarrow> string \<Rightarrow> string \<Rightarrow> string \<Rightarrow> walletService \<Rightarrow>
   (wallet_error, physicalCardInventoryItem) result \<times> walletService" where
  "ScanPhysicalCardInventory e rnd tenantID uid cardNumber readerID vendorID actor s =
     (let t = normalizeTenantID tenantID; u = trim_space uid; requested = trim_space cardNumber;
          num = (if requested = '''' then u else requested);
          audit = (\<lambda>i. appendAuditLocked e (rnd 1) t ''wallet.physical_card_inventory.scan''
                     (normalizeActor actor) i ''success'') in
      if u = '''' then (Inl PhysicalCardInventoryUIDRequired, s)
      else
        (case walletID (rnd 0) ''wpci_'' of
           Inl err \<Rightarrow> (Inl err, s)
         | Inr newID \<Rightarrow>
             (case vendor_of t vendorID s of
                Inl err \<Rightarrow> (Inl err, s)
              | Inr vendor \<Rightarrow>
                  (case (case findPhysicalCardInventoryIndexByUIDLocked (wa_physicalCardInventory s) t u of
                           Some i \<Rightarrow> Some i
                         | None \<Rightarrow> findPhysicalCardInventoryIndexLocked (wa_physicalCardInventory s) t '''' num) of
                     Some i \<Rightarrow>
                       let x = scan_update e u requested vendor (trim_space readerID)
                                 (wa_physicalCardInventory s ! i) in
                       wallet_return e x (audit (ci_ID x) (set_item i x s))
                   | None \<Rightarrow>
                       let x = (new_item e newID t num u vendor ''reader_scan'' ''available'')
                             \<lparr>ci_ReaderID := trim_space readerID, ci_ScannedAt := Some (env_now e)\<rparr> in
                       wallet_return e x
                         (audit newID (s\<lparr>wa_physicalCardInventory := x # wa_physicalCardInventory s\<rparr>))))))"

section \<open>Tasks\<close>

definition pass_of_tenant :: "string \<Rightarrow> string \<Rightarrow> walletService \<Rightarrow> nat option" where
  "pass_of_tenant t passID s = lookup_strict pi_ID pi_TenantID t passID (wa_passes s)"

definition CreatePhysicalCardTask ::
  "env \<Rightarrow> reads \<Rightarrow> string \<Rightarrow> string \<Rightarrow> string \<Rightarrow> string \<Rightarrow> string \<Rightarrow> string \<Rightarrow> string \<Rightarrow> string \<Rightarrow>
   walletService \<Rightarrow> (wallet_error, physicalCardTask) result \<times> walletService" where
  "CreatePhysicalCardTask e rnd tenantID passID taskType cardNumber inventoryID vendorID note actor s =
     (let t = normalizeTenantID tenantID; a = normalizeActor actor in
      if trim_space passID = '''' then (Inl PassIDRequired, s)
      else
       (case normalizePhysicalCardTaskType taskType of
         Inl err \<Rightarrow> (Inl err, s)
       | Inr tt \<Rightarrow>
        (case normalizePhysicalCardTaskStatus tt '''' of
          Inl err \<Rightarrow> (Inl err, s)
        | Inr st \<Rightarrow>
         (case walletID (rnd 0) ''wpc_'' of
           Inl err \<Rightarrow> (Inl err, s)
         | Inr newID \<Rightarrow>
          (case pass_of_tenant t (trim_space passID) s of
            None \<Rightarrow> (Inl PassNotFound, s)
          | Some pidx \<Rightarrow>
              let p = wa_passes s ! pidx;
                  found = findPhysicalCardInventoryIndexLocked (wa_physicalCardInventory s) t
                            (trim_space inventoryID) (trim_space cardNumber) in
              if pi_TargetType p \<noteq> ''user'' then (Inl PhysicalCardTaskEmployeePassRequired, s)
              else if (case found of None \<Rightarrow> False
                       | Some i \<Rightarrow> ci_Status (wa_physicalCardInventory s ! i) \<noteq> ''available'')
                then (Inl PhysicalCardInventoryNotFound, s)
              else
                let (invID, num, vID, vName0) =
                      (case found of
                         None \<Rightarrow> (trim_space inventoryID, trim_space cardNumber, trim_space vendorID, '''')
                       | Some i \<Rightarrow> let x = wa_physicalCardInventory s ! i in
                           (ci_ID x, ci_CardNumber x, ci_VendorID x, ci_VendorName x));
                    vName = (if vID \<noteq> '''' \<and> vName0 = ''''
                             then map_option cv_Name
                                    (findPhysicalCardVendorLocked (wa_physicalCardVendors s) t vID)
                             else Some vName0) in
                (case vName of
                   None \<Rightarrow> (Inl PhysicalCardVendorNotFound, s)
                 | Some vn \<Rightarrow>
                     let task = \<lparr>ct_ID = newID, ct_TenantID = t, ct_PassID = pi_ID p,
                           ct_TemplateID = pi_TemplateID p, ct_TargetType = pi_TargetType p,
                           ct_TargetID = pi_TargetID p, ct_TaskType = tt, ct_Status = st,
                           ct_CardNumber = num, ct_InventoryID = invID, ct_VendorID = vID,
                           ct_VendorName = vn, ct_Note = trim_space note,
                           ct_PassStatus = pi_Status p, ct_CompletedAt = None, ct_CreatedBy = a,
                           ct_UpdatedBy = a, ct_CreatedAt = env_now e, ct_UpdatedAt = env_now e\<rparr>;
                         s1 = (case found of None \<Rightarrow> s
                               | Some i \<Rightarrow> set_item i ((wa_physicalCardInventory s ! i)
                                   \<lparr>ci_Status := ''reserved'', ci_AssignedPassID := pi_ID p,
                                    ci_ActiveTaskID := newID, ci_UpdatedAt := env_now e\<rparr>) s) in
                     wallet_return e task
                       (appendAuditLocked e (rnd 1) t ''wallet.physical_card_task.create'' a newID ''success''
                          (s1\<lparr>wa_physicalCardTasks := task # wa_physicalCardTasks s1\<rparr>))))))))"

text \<open>What a task status does to the pass and to the card.\<close>

definition task_pass :: "time \<Rightarrow> string \<Rightarrow> string \<Rightarrow> string \<Rightarrow> passInstance \<Rightarrow> passInstance" where
  "task_pass now actor taskType st p =
     (if st = ''reported_lost'' \<and> canTransitPassStatus (pi_Status p) ''suspended''
      then p\<lparr>pi_Status := ''suspended'', pi_UpdatedBy := actor, pi_UpdatedAt := now\<rparr>
      else if st = ''issued'' \<and> taskType = ''reissue'' \<and> canTransitPassStatus (pi_Status p) ''active''
      then p\<lparr>pi_Status := ''active'', pi_UpdatedBy := actor, pi_UpdatedAt := now,
             pi_ActivatedAt := Some now\<rparr>
      else p)"

definition task_item :: "time \<Rightarrow> string \<Rightarrow> physicalCardTask \<Rightarrow> physicalCardInventoryItem \<Rightarrow> physicalCardInventoryItem" where
  "task_item now st task x =
     (let bind = (\<lambda>y. x\<lparr>ci_Status := y, ci_AssignedPassID := ct_PassID task,
                        ci_ActiveTaskID := ct_ID task\<rparr>) in
      (if st = ''issued'' then bind ''issued''
       else if st = ''reported_lost'' then bind ''lost''
       else if st = ''cancelled''
         then x\<lparr>ci_Status := ''available'', ci_AssignedPassID := '''', ci_ActiveTaskID := ''''\<rparr>
       else if ci_Status x = ''available'' then bind ''reserved'' else x)\<lparr>ci_UpdatedAt := now\<rparr>)"

text \<open>The audit entry for a pass the task changed, and the update of the task's card.\<close>

definition task_audit ::
  "env \<Rightarrow> string option \<Rightarrow> string \<Rightarrow> string \<Rightarrow> string \<Rightarrow> string \<Rightarrow> passInstance \<Rightarrow> walletService \<Rightarrow> walletService" where
  "task_audit e r t a taskType st p s =
     (if st = ''reported_lost'' \<and> canTransitPassStatus (pi_Status p) ''suspended''
      then appendAuditLocked e r t ''wallet.pass.suspended'' a (pi_ID p) ''success'' s
      else if st = ''issued'' \<and> taskType = ''reissue'' \<and> canTransitPassStatus (pi_Status p) ''active''
      then appendAuditLocked e r t ''wallet.pass.active'' a (pi_ID p) ''success'' s
      else s)"

definition task_card :: "time \<Rightarrow> string \<Rightarrow> string \<Rightarrow> physicalCardTask \<Rightarrow> walletService \<Rightarrow> walletService" where
  "task_card now t st task s =
     (case findPhysicalCardInventoryIndexLocked (wa_physicalCardInventory s) t
             (ct_InventoryID task) (ct_CardNumber task) of
        None \<Rightarrow> s
      | Some i \<Rightarrow> set_item i (task_item now st task (wa_physicalCardInventory s ! i)) s)"

definition find_task :: "string \<Rightarrow> string \<Rightarrow> walletService \<Rightarrow> nat option" where
  "find_task t taskID s = lookup_strict ct_ID ct_TenantID t taskID (wa_physicalCardTasks s)"

definition UpdatePhysicalCardTaskStatus ::
  "env \<Rightarrow> reads \<Rightarrow> string \<Rightarrow> string \<Rightarrow> string \<Rightarrow> string \<Rightarrow> string \<Rightarrow> string \<Rightarrow> walletService \<Rightarrow>
   (wallet_error, physicalCardTask) result \<times> walletService" where
  "UpdatePhysicalCardTaskStatus e rnd tenantID taskID status cardNumber note actor s =
     (let t = normalizeTenantID tenantID; a = normalizeActor actor; now = env_now e in
      if trim_space taskID = '''' then (Inl PhysicalCardTaskNotFound, s)
      else
       (case find_task t (trim_space taskID) s of
         None \<Rightarrow> (Inl PhysicalCardTaskNotFound, s)
       | Some ti \<Rightarrow>
          let task = wa_physicalCardTasks s ! ti in
          (case normalizePhysicalCardTaskStatus (ct_TaskType task) status of
            Inl err \<Rightarrow> (Inl err, s)
          | Inr st \<Rightarrow>
              if \<not> canTransitPhysicalCardTaskStatus (ct_TaskType task) (ct_Status task) st
              then (Inl InvalidPhysicalCardTaskTransition, s)
              else
               (case pass_of_tenant t (ct_PassID task) s of
                 None \<Rightarrow> (Inl PassNotFound, s)
               | Some pidx \<Rightarrow>
                   let p = wa_passes s ! pidx;
                       p' = task_pass now a (ct_TaskType task) st p;
                       task' = task\<lparr>ct_Status := st, ct_UpdatedBy := a, ct_UpdatedAt := now,
                         ct_CardNumber := (if trim_space cardNumber \<noteq> '''' then trim_space cardNumber
                                           else ct_CardNumber task),
                         ct_Note := (if trim_space note \<noteq> '''' then trim_space note else ct_Note task),
                         ct_CompletedAt := (if st \<in> {''issued'', ''reported_lost'', ''cancelled''}
                                            then Some now else ct_CompletedAt task),
                         ct_PassStatus := pi_Status p'\<rparr>;
                       s1 = set_pass pidx p' (s\<lparr>wa_physicalCardTasks := (wa_physicalCardTasks s)[ti := task']\<rparr>);
                       s2 = task_audit e (rnd 0) t a (ct_TaskType task) st p s1;
                       s3 = task_card now t st task' s2 in
                   wallet_return e task'
                     (appendAuditLocked e (rnd 1) t ''wallet.physical_card_task.status'' a (ct_ID task)
                        ''success'' s3)))))"

section \<open>Steps\<close>

datatype wallet_op =
    PassSuspend string string string | PassActivate string string string
  | PassRevoke string string string
  | PassAssign string string string string string | PassDeassign string string string
  | NFCRegister string string string string string string
  | CardCreate string string string string string string string string
  | AppleEnroll string string string string string string
  | InvCreate string string string string string string
  | InvStatus string string string string string
  | InvBatch string "string list" string string string
  | InvImport string "import_item list" string
  | InvScan string string string string string string
  | TaskCreate string string string string string string string string
  | TaskStatus string string string string string string

text \<open>An operation comes with the random reads it makes.\<close>

fun wallet_step :: "env \<Rightarrow> reads \<times> wallet_op \<Rightarrow> walletService \<Rightarrow> walletService" where
  "wallet_step e (r, PassSuspend t i a) s = snd (SuspendPass e r t i a s)"
| "wallet_step e (r, PassActivate t i a) s = snd (ActivatePass e r t i a s)"
| "wallet_step e (r, PassRevoke t i a) s = snd (RevokePass e r t i a s)"
| "wallet_step e (r, PassAssign t i ty tg a) s = snd (AssignPass e r t i ty tg a s)"
| "wallet_step e (r, PassDeassign t i a) s = snd (DeassignPass e r t i a s)"
| "wallet_step e (r, NFCRegister t u tg l x a) s = snd (RegisterNFCCard e r t u tg l x a s)"
| "wallet_step e (r, CardCreate t tm tk u n ty x a) s = snd (CreateUnassignedCard e r t tm tk u n ty x a s)"
| "wallet_step e (r, AppleEnroll t u d ser x a) s = snd (EnrollApplePass e r t u d ser x a s)"
| "wallet_step e (r, InvCreate t n u v st a) s = snd (CreatePhysicalCardInventoryItem e r t n u v st a s)"
| "wallet_step e (r, InvStatus t i st rs a) s = snd (UpdatePhysicalCardInventoryStatus e r t i st rs a s)"
| "wallet_step e (r, InvBatch t is st rs a) s = snd (BatchUpdatePhysicalCardInventoryStatus e r t is st rs a s)"
| "wallet_step e (r, InvImport t rs a) s = snd (ImportPhysicalCardInventory e r t rs a s)"
| "wallet_step e (r, InvScan t u n rd v a) s = snd (ScanPhysicalCardInventory e r t u n rd v a s)"
| "wallet_step e (r, TaskCreate t p ty n i v nt a) s = snd (CreatePhysicalCardTask e r t p ty n i v nt a s)"
| "wallet_step e (r, TaskStatus t i st n nt a) s = snd (UpdatePhysicalCardTaskStatus e r t i st n nt a s)"

lemma set_item_frame [simp]:
  "wa_physicalCardInventory (set_item i x s) = (wa_physicalCardInventory s)[i := x]"
  "wa_passes (set_item i x s) = wa_passes s"
  "wa_physicalCardTasks (set_item i x s) = wa_physicalCardTasks s"
  "wa_physicalCardVendors (set_item i x s) = wa_physicalCardVendors s"
  "wa_store (set_item i x s) = wa_store s"
  by (simp_all add: set_item_def)

lemma task_frame [simp]:
  "wa_passes (task_audit e r t a tt st p s) = wa_passes s"
  "wa_physicalCardInventory (task_audit e r t a tt st p s) = wa_physicalCardInventory s"
  "wa_passes (task_card now t st task s) = wa_passes s"
  by (simp_all add: task_audit_def task_card_def split: option.split)

lemma apply_batch_passes [simp]: "wa_passes (snd (apply_batch st now ks s)) = wa_passes s"
  by (induction ks arbitrary: s) (auto split: sum.splits)

lemma import_loop_passes [simp]: "wa_passes (snd (import_loop e rnd k t rs s)) = wa_passes s"
proof (induction rs arbitrary: k s)
  case Nil
  then show ?case by simp
next
  case (Cons r rs)
  have more: "snd (case out of (Inl err, s') \<Rightarrow> (Inl err, s') | (Inr (xs, k'), s') \<Rightarrow> (Inr (x # xs, k'), s'))
      = snd out" for out :: "(wallet_error, physicalCardInventoryItem list \<times> nat) result \<times> walletService" and x
    by (auto split: prod.splits sum.splits)
  show ?case
    by (auto simp: Let_def more Cons.IH split: sum.splits option.splits)
qed

lemma loop_passesD:
  "import_loop e rnd k t rs s = (out, s') \<Longrightarrow> wa_passes s' = wa_passes s"
  "apply_batch st now ks s = (res, s') \<Longrightarrow> wa_passes s' = wa_passes s"
  using import_loop_passes [of e rnd k t rs s] apply_batch_passes [of st now ks s] by simp_all

lemma task_pass_evolves: "pass_evolves p (task_pass now a tt st p)"
  by (auto simp: task_pass_def pass_evolves_def canTransitPassStatus_def)

lemma wallet_step_evolves: "passes_evolve (wa_passes s) (wa_passes (wallet_step e ro s))"
proof -
  obtain r op where ro: "ro = (r, op)" by (cases ro)
  show ?thesis
  proof (cases op)
    case (TaskStatus t i st n nt a)
    then show ?thesis
      using ro by (auto simp: UpdatePhysicalCardTaskStatus_def Let_def
        intro!: passes_evolve_update task_pass_evolves split: option.splits sum.splits)
  next
    case (InvImport t rs a)
    then show ?thesis
      using ro by (auto simp: ImportPhysicalCardInventory_def Let_def loop_passesD
        split: prod.splits sum.splits)
  next
    case (InvBatch t ids st rs a)
    then show ?thesis
      using ro by (auto simp: BatchUpdatePhysicalCardInventoryStatus_def Let_def loop_passesD
        split: prod.splits sum.splits)
  qed (use ro in \<open>auto simp: SuspendPass_def ActivatePass_def RevokePass_def updatePassStatus_evolves
    AssignPass_def DeassignPass_def RegisterNFCCard_def CreateUnassignedCard_def EnrollApplePass_def
    CreatePhysicalCardInventoryItem_def UpdatePhysicalCardInventoryStatus_def
    ScanPhysicalCardInventory_def CreatePhysicalCardTask_def Let_def case_prod_unfold pass_evolves_def
    intro!: passes_evolve_update passes_evolve_Cons split: option.splits sum.splits if_splits\<close>)
qed

lemma wallet_run_evolves:
  "passes_evolve (wa_passes s) (wa_passes (fold (\<lambda>(e, ro). wallet_step e ro) ops s))"
proof (induction ops arbitrary: s)
  case Nil
  then show ?case by simp
next
  case (Cons eo ops)
  obtain e ro where "eo = (e, ro)" by (cases eo)
  then show ?case
    using passes_evolve_trans [OF wallet_step_evolves [of s e ro] Cons.IH] by simp
qed

section \<open>Revocation\<close>

text \<open>
  A revoked pass stays revoked, with the same holder, identifier and tenant, through any
  run of pass, card, inventory and task operations: not even the reissue of its card or a
  new assignment brings it back.
\<close>

lemma revoked_pass_forever:
  assumes "i < length (wa_passes s)" and "pi_Status (wa_passes s ! i) = ''revoked''"
    and "s' = fold (\<lambda>(e, ro). wallet_step e ro) ops s"
  shows "\<exists>j<length (wa_passes s').
    j = length (wa_passes s') - length (wa_passes s) + i \<and>
    pi_ID (wa_passes s' ! j) = pi_ID (wa_passes s ! i) \<and>
    pi_TenantID (wa_passes s' ! j) = pi_TenantID (wa_passes s ! i) \<and>
    pi_Status (wa_passes s' ! j) = ''revoked'' \<and>
    pi_TargetID (wa_passes s' ! j) = pi_TargetID (wa_passes s ! i)"
proof -
  let ?ps = "wa_passes s" and ?qs = "wa_passes s'"
  have ev: "passes_evolve ?ps ?qs"
    using wallet_run_evolves [of s ops] assms(3) by simp
  then have "pass_evolves (?ps ! i) (drop (length ?qs - length ?ps) ?qs ! i)"
    using assms(1) unfolding passes_evolve_def by (blast intro: list_all2_nthD)
  moreover have "length ?ps \<le> length ?qs" using ev by (simp add: passes_evolve_def)
  ultimately show ?thesis
    using assms(1,2) by (auto simp: pass_evolves_def)
qed

section \<open>What the inventory holds\<close>

text \<open>A card that is available, frozen or scrapped belongs to no pass and no task.\<close>

definition item_ok :: "physicalCardInventoryItem \<Rightarrow> bool" where
  "item_ok x \<longleftrightarrow> ci_Status x \<in> set inventory_statuses \<and>
     (ci_Status x \<in> {''available'', ''frozen'', ''scrapped''} \<longrightarrow>
        ci_AssignedPassID x = '''' \<and> ci_ActiveTaskID x = '''')"

definition inventory_ok :: "walletService \<Rightarrow> bool" where
  "inventory_ok s \<longleftrightarrow> list_all item_ok (wa_physicalCardInventory s)"

lemma normalize_status_range:
  "normalizePhysicalCardInventoryStatus x = Inr y \<Longrightarrow> y \<in> set inventory_statuses"
  by (auto simp: normalizePhysicalCardInventoryStatus_def Let_def split: if_splits)

lemma new_item_ok: "st \<in> set inventory_statuses \<Longrightarrow> item_ok (new_item e i t n u v src st)"
  by (simp add: item_ok_def new_item_def)

lemma statuses_trimmed: "x \<in> set inventory_statuses \<Longrightarrow> trim_space x = x \<and> x \<noteq> ''''"
proof -
  have "trim_space ''available'' = ''available''" "trim_space ''reserved'' = ''reserved''"
    "trim_space ''issued'' = ''issued''" "trim_space ''lost'' = ''lost''"
    "trim_space ''frozen'' = ''frozen''" "trim_space ''scrapped'' = ''scrapped''"
    by code_simp+
  then show "x \<in> set inventory_statuses \<Longrightarrow> trim_space x = x \<and> x \<noteq> ''''"
    by (auto simp: inventory_statuses_def)
qed

lemma transition_ok:
  assumes "item_ok x" and "applyPhysicalCardInventoryStatusTransition x st now = Inr y"
    and "st \<in> set inventory_statuses"
  shows "item_ok y"
proof -
  consider "y = x\<lparr>ci_UpdatedAt := now\<rparr>"
    | "y = x\<lparr>ci_Status := st, ci_AssignedPassID := '''', ci_ActiveTaskID := '''', ci_UpdatedAt := now\<rparr>"
    | "st \<notin> {''available'', ''frozen'', ''scrapped''}" "y = x\<lparr>ci_Status := st, ci_UpdatedAt := now\<rparr>"
    using assms(2) unfolding applyPhysicalCardInventoryStatusTransition_def by (auto split: if_splits)
  then show ?thesis using assms(1,3) by cases (simp_all add: item_ok_def)
qed

lemma scan_ok: "item_ok x \<Longrightarrow> item_ok (scan_update e u n v r x)"
  by (simp add: item_ok_def scan_update_def)

lemma task_item_ok: "item_ok x \<Longrightarrow> item_ok (task_item now st task x)"
  by (auto simp: item_ok_def task_item_def Let_def inventory_statuses_def)

lemma inventory_ok_update:
  "inventory_ok s \<Longrightarrow> item_ok x \<Longrightarrow> inventory_ok (set_item i x s)"
  by (auto simp: inventory_ok_def list_all_iff dest: set_update_subset_insert [THEN subsetD])

lemma inventory_ok_nth: "inventory_ok s \<Longrightarrow> i < length (wa_physicalCardInventory s) \<Longrightarrow>
  item_ok (wa_physicalCardInventory s ! i)"
  by (simp add: inventory_ok_def list_all_length)

lemma inventory_ok_cong:
  "wa_physicalCardInventory s = wa_physicalCardInventory s' \<Longrightarrow> inventory_ok s = inventory_ok s'"
  by (simp add: inventory_ok_def)

lemma inventory_ok_frame [simp]:
  "inventory_ok (snd (persistLocked_wallet e s)) = inventory_ok s"
  "inventory_ok (appendAuditLocked e r t a b c d s) = inventory_ok s"
  "inventory_ok (set_pass i p s) = inventory_ok s"
  "inventory_ok (task_audit e r t a tt st pp s) = inventory_ok s"
  "inventory_ok (s\<lparr>wa_passes := ps\<rparr>) = inventory_ok s"
  "inventory_ok (s\<lparr>wa_physicalCardTasks := ts\<rparr>) = inventory_ok s"
  "inventory_ok (s\<lparr>wa_physicalCardInventory := x # wa_physicalCardInventory s\<rparr>) =
     (item_ok x \<and> inventory_ok s)"
  by (simp_all add: inventory_ok_def)

lemma find_item_length:
  "findPhysicalCardInventoryIndexLocked xs t i n = Some k \<Longrightarrow> k < length xs"
  "findPhysicalCardInventoryIndexByUIDLocked xs t u = Some k \<Longrightarrow> k < length xs"
  by (auto simp: findPhysicalCardInventoryIndexLocked_def
      findPhysicalCardInventoryIndexByUIDLocked_def dest: find_idx_SomeD split: if_splits)

lemma apply_batch_ok:
  "inventory_ok s \<Longrightarrow> st \<in> set inventory_statuses \<Longrightarrow>
   \<forall>k\<in>set ks. k < length (wa_physicalCardInventory s) \<Longrightarrow>
   inventory_ok (snd (apply_batch st now ks s))"
proof (induction ks arbitrary: s)
  case Nil
  then show ?case by simp
next
  case (Cons k ks)
  have "item_ok (wa_physicalCardInventory s ! k)"
    using Cons.prems by (intro inventory_ok_nth) simp_all
  then show ?case
    using Cons.prems
    by (auto intro!: Cons.IH inventory_ok_update dest: transition_ok split: sum.splits)
qed

lemma check_batch_length:
  "check_batch t st items ids = Inr ks \<Longrightarrow> \<forall>k\<in>set ks. k < length items"
  by (induction ids arbitrary: ks)
     (auto dest: find_item_length split: option.splits if_splits sum.splits)

lemma import_item_ok:
  assumes "item_ok x" and "ci_Status x = ''available''" and "st \<in> set inventory_statuses"
  shows "item_ok (x\<lparr>ci_UID := u, ci_VendorID := v, ci_VendorName := w, ci_Source := src,
    ci_Status := st, ci_UpdatedAt := now\<rparr>)"
  using assms by (simp add: item_ok_def)

lemma import_loop_ok:
  "inventory_ok s \<Longrightarrow> inventory_ok (snd (import_loop e rnd k t rs s))"
proof (induction rs arbitrary: k s)
  case Nil
  then show ?case by simp
next
  case (Cons r rs)
  have more: "snd (case out of (Inl err, s') \<Rightarrow> (Inl err, s') | (Inr (xs, k'), s') \<Rightarrow> (Inr (x # xs, k'), s'))
      = snd out" for out :: "(wallet_error, physicalCardInventoryItem list \<times> nat) result \<times> walletService" and x
    by (auto split: prod.splits sum.splits)
  show ?case
    using Cons.prems
    by (auto simp: Let_def more new_item_ok normalize_status_range
        intro!: Cons.IH inventory_ok_update import_item_ok inventory_ok_nth
        dest: find_item_length split: sum.splits option.splits)
qed

lemma task_card_ok: "inventory_ok s \<Longrightarrow> inventory_ok (task_card now t st task s)"
  by (auto simp: task_card_def intro!: inventory_ok_update task_item_ok inventory_ok_nth
      dest: find_item_length split: option.split)

lemma reserved_ok: "item_ok (x\<lparr>ci_Status := ''reserved'', ci_AssignedPassID := p, ci_ActiveTaskID := i,
    ci_UpdatedAt := now\<rparr>)"
  by (simp add: item_ok_def inventory_statuses_def)

lemma scan_new_ok: "item_ok ((new_item e i t n u v src ''available'')\<lparr>ci_ReaderID := r, ci_ScannedAt := x\<rparr>)"
  by (simp add: item_ok_def new_item_def inventory_statuses_def)

lemma inv_status_ok:
  "inventory_ok s \<Longrightarrow> inventory_ok (snd (UpdatePhysicalCardInventoryStatus e r t i st rs a s))"
  by (auto simp: UpdatePhysicalCardInventoryStatus_def Let_def
      intro!: inventory_ok_update transition_ok [OF inventory_ok_nth]
      dest: find_item_length normalize_status_range split: sum.splits option.splits)

lemma inv_batch_ok:
  "inventory_ok s \<Longrightarrow> inventory_ok (snd (BatchUpdatePhysicalCardInventoryStatus e r t ids st rs a s))"
proof -
  assume ok: "inventory_ok s"
  have "check_batch t' x (wa_physicalCardInventory s) ys = Inr ks \<Longrightarrow>
      normalizePhysicalCardInventoryStatus y = Inr x \<Longrightarrow> apply_batch x now ks s = (out, s1) \<Longrightarrow>
      inventory_ok s1" for t' x ys ks y now out s1
    using apply_batch_ok [OF ok, of x ks now] check_batch_length normalize_status_range by fastforce
  then show ?thesis
    using ok by (auto simp: BatchUpdatePhysicalCardInventoryStatus_def Let_def split: prod.splits sum.splits)
qed

lemma inv_import_ok:
  "inventory_ok s \<Longrightarrow> inventory_ok (snd (ImportPhysicalCardInventory e r t rs a s))"
  using import_loop_ok [of s e r 0 "normalizeTenantID t" rs]
  by (auto simp: ImportPhysicalCardInventory_def Let_def split: prod.splits sum.splits)

lemma inv_scan_ok:
  "inventory_ok s \<Longrightarrow> inventory_ok (snd (ScanPhysicalCardInventory e r t u n rd v a s))"
  by (auto simp: ScanPhysicalCardInventory_def Let_def scan_new_ok
      intro!: inventory_ok_update scan_ok inventory_ok_nth dest: find_item_length
      split: sum.splits option.splits)

lemma task_create_ok:
  "inventory_ok s \<Longrightarrow> inventory_ok (snd (CreatePhysicalCardTask e r t p ty n i v nt a s))"
  by (auto simp: CreatePhysicalCardTask_def Let_def case_prod_unfold reserved_ok
      intro!: inventory_ok_update split: sum.splits option.splits)

lemma task_status_ok:
  "inventory_ok s \<Longrightarrow> inventory_ok (snd (UpdatePhysicalCardTaskStatus e r t i st n nt a s))"
  by (auto simp: UpdatePhysicalCardTaskStatus_def Let_def intro!: task_card_ok
      split: sum.splits option.splits)

lemma wallet_step_ok: "inventory_ok s \<Longrightarrow> inventory_ok (wallet_step e ro s)"
proof -
  assume ok: "inventory_ok s"
  obtain r op where ro: "ro = (r, op)" by (cases ro)
  show ?thesis
    using ok ro
    by (cases op)
       (auto simp: inv_status_ok inv_batch_ok inv_import_ok inv_scan_ok task_create_ok task_status_ok
         SuspendPass_def ActivatePass_def RevokePass_def updatePassStatus_def AssignPass_def
         DeassignPass_def RegisterNFCCard_def CreateUnassignedCard_def EnrollApplePass_def
         CreatePhysicalCardInventoryItem_def Let_def case_prod_unfold new_item_ok normalize_status_range
         split: option.splits sum.splits)
qed

text \<open>
  C37: Through any run of operations, failing ones included, every card of the inventory has
  a known status, and a card that is available, frozen or scrapped is bound to no pass and
  no task.
\<close>

theorem inventory_consistent:
  assumes "inventory_ok s"
  shows "inventory_ok (fold (\<lambda>(e, ro). wallet_step e ro) ops s)"
  using assms
proof (induction ops arbitrary: s)
  case Nil
  then show ?case by simp
next
  case (Cons eo ops)
  obtain e ro where "eo = (e, ro)" by (cases eo)
  with Cons show ?case by (simp add: wallet_step_ok)
qed

section \<open>Concrete runs\<close>

definition demo_wallet :: walletService where
  "demo_wallet = \<lparr>wa_templates = [], wa_passes = [], wa_physicalCardTasks = [], wa_physicalCardVendors = [],
     wa_physicalCardInventory = [], wa_auditLogs = [], wa_store = Store None\<rparr>"

definition wallet_env :: env where
  "wallet_env = \<lparr>env_now = 0, env_save_ok = True, env_rand = None\<rparr>"

text \<open>A card is registered for a user, entered into the inventory and issued; then it is
  reported lost.\<close>

definition demo_issue :: "(env \<times> reads \<times> wallet_op) list" where
  "demo_issue =
     [(wallet_env, (\<lambda>_. Some ''p1''), NFCRegister ''t1'' ''04:aa'' ''u1'' '''' '''' ''op''),
      (wallet_env, (\<lambda>_. Some ''c1''), InvScan ''t1'' ''04AA'' ''N1'' ''r1'' '''' ''op''),
      (wallet_env, (\<lambda>_. Some ''k1''), TaskCreate ''t1'' ''wps_p1'' ''issue'' ''N1'' '''' '''' '''' ''op''),
      (wallet_env, (\<lambda>_. Some ''x''), TaskStatus ''t1'' ''wpc_k1'' ''issued'' '''' '''' ''op'')]"

definition demo_loss :: "(env \<times> reads \<times> wallet_op) list" where
  "demo_loss =
     [(wallet_env, (\<lambda>_. Some ''k2''), TaskCreate ''t1'' ''wps_p1'' ''loss_report'' '''' '''' '''' '''' ''op''),
      (wallet_env, (\<lambda>_. Some ''x''), TaskStatus ''t1'' ''wpc_k2'' ''reported_lost'' ''N1'' '''' ''op'')]"

definition run_wallet :: "(env \<times> reads \<times> wallet_op) list \<Rightarrow> walletService \<Rightarrow> walletService" where
  "run_wallet ops s = fold (\<lambda>(e, ro). wallet_step e ro) ops s"

theorem inventory_consistent_witness:
  "inventory_ok (fold (\<lambda>(e, ro). wallet_step e ro) (demo_issue @ demo_loss) demo_wallet) \<and>
   map ci_Status (wa_physicalCardInventory (run_wallet (demo_issue @ demo_loss) demo_wallet)) = [''lost'']"
proof
  show "inventory_ok (fold (\<lambda>(e, ro). wallet_step e ro) (demo_issue @ demo_loss) demo_wallet)"
    by (rule inventory_consistent) (simp add: demo_wallet_def inventory_ok_def)
  show "map ci_Status (wa_physicalCardInventory (run_wallet (demo_issue @ demo_loss) demo_wallet)) = [''lost'']"
    by code_simp
qed

definition revoked_wallet :: walletService where
  "revoked_wallet = run_wallet (demo_issue @
     [(wallet_env, (\<lambda>_. Some ''y''), PassRevoke ''t1'' ''wps_p1'' ''op'')]) demo_wallet"

lemma revoked_pass_forever_instance:
  "\<exists>j<length (wa_passes (fold (\<lambda>(e, ro). wallet_step e ro)
        [(wallet_env, (\<lambda>_. Some ''z''), PassAssign ''t1'' ''wps_p1'' ''user'' ''u2'' ''op''),
         (wallet_env, (\<lambda>_. Some ''z''), PassActivate ''t1'' ''wps_p1'' ''op'')] revoked_wallet)).
     pi_Status (wa_passes (fold (\<lambda>(e, ro). wallet_step e ro)
        [(wallet_env, (\<lambda>_. Some ''z''), PassAssign ''t1'' ''wps_p1'' ''user'' ''u2'' ''op''),
         (wallet_env, (\<lambda>_. Some ''z''), PassActivate ''t1'' ''wps_p1'' ''op'')] revoked_wallet) ! j) = ''revoked''"
proof -
  have "0 < length (wa_passes revoked_wallet)" "pi_Status (wa_passes revoked_wallet ! 0) = ''revoked''"
    by code_simp+
  from revoked_pass_forever [OF this refl, of
      "[(wallet_env, (\<lambda>_. Some ''z''), PassAssign ''t1'' ''wps_p1'' ''user'' ''u2'' ''op''),
        (wallet_env, (\<lambda>_. Some ''z''), PassActivate ''t1'' ''wps_p1'' ''op'')]"]
  show ?thesis by blast
qed

section \<open>What the code leaves open\<close>

text \<open>A lost card keeps its binding, so reactivating the suspended pass brings the lost card
  back with it.\<close>

lemma lost_card_still_bound:
  "(let s = run_wallet (demo_issue @ demo_loss @
        [(wallet_env, (\<lambda>_. Some ''z''), PassActivate ''t1'' ''wps_p1'' ''op'')]) demo_wallet in
    map ci_Status (wa_physicalCardInventory s) = [''lost''] \<and>
    map ci_AssignedPassID (wa_physicalCardInventory s) = [''wps_p1''] \<and>
    map pi_Status (wa_passes s) = [''active''])"
  by code_simp

text \<open>Scanning an available card with another card's number gives two cards that number.\<close>

lemma scan_duplicates_number:
  "map ci_CardNumber (wa_physicalCardInventory (run_wallet
     [(wallet_env, (\<lambda>_. Some ''c1''), InvScan ''t1'' ''AA'' ''N1'' ''r1'' '''' ''op''),
      (wallet_env, (\<lambda>_. Some ''c2''), InvScan ''t1'' ''BB'' ''N2'' ''r1'' '''' ''op''),
      (wallet_env, (\<lambda>_. Some ''c3''), InvScan ''t1'' ''BB'' ''N1'' ''r1'' '''' ''op'')] demo_wallet)) = [''N1'', ''N1'']"
  by code_simp

end
