(* ===== verification/Space_Topology.thy ===== *)
theory Space_Topology
  imports MP_Prelude Go_Time
begin

text \<open>
  \<open>internal/modules/space/service.go\<close>: buildings, floors, areas, doors and door groups.  The
  create operations validate under the read lock and insert under the write lock; each has
  both halves as definitions of their own, and the operation runs them one after the other.
\<close>

section \<open>State\<close>

record building =
  bd_ID :: string
  bd_TenantID :: string
  bd_Name :: string
  bd_Address :: string
  bd_Region :: string
  bd_Status :: string
  bd_ArchivedAt :: "time option"
  bd_CreatedAt :: time

record floor =
  fl_ID :: string
  fl_TenantID :: string
  fl_BuildingID :: string
  fl_Name :: string
  fl_CreatedAt :: time

record area =
  ar_ID :: string
  ar_TenantID :: string
  ar_BuildingID :: string
  ar_FloorID :: string
  ar_Name :: string
  ar_CreatedAt :: time

record door =
  dr_ID :: string
  dr_TenantID :: string
  dr_BuildingID :: string
  dr_FloorID :: string
  dr_AreaID :: string
  dr_Name :: string
  dr_GatewayID :: string
  dr_Kind :: string
  dr_Status :: string
  dr_CreatedAt :: time

record doorGroup =
  dg_ID :: string
  dg_TenantID :: string
  dg_Name :: string
  dg_DoorIDs :: "string list"
  dg_CreatedAt :: time

record tenantTopology =
  tt_TenantID :: string
  tt_Buildings :: "building list"
  tt_Floors :: "floor list"
  tt_Areas :: "area list"
  tt_Doors :: "door list"

record space_snapshot =
  ss_Buildings :: "building list"
  ss_Floors :: "floor list"
  ss_Areas :: "area list"
  ss_Doors :: "door list"
  ss_DoorGroups :: "doorGroup list"

record spaceService =
  sp_buildings :: "building list"
  sp_floors :: "floor list"
  sp_areas :: "area list"
  sp_doors :: "door list"
  sp_doorGroups :: "doorGroup list"
  sp_store :: "space_snapshot store"

datatype space_error =
    SpTenantIDRequired | BuildingIDRequired | BuildingNameRequired | BuildingNotFound
  | FloorIDRequired | FloorNameRequired | FloorNotFound
  | AreaIDRequired | AreaNameRequired | AreaNotFound
  | DoorNameRequired | DoorGroupNameRequired | DoorGroupNotFound | DoorNotFound
  | FloorBuildingMismatch | AreaFloorMismatch | TenantOwnershipMismatch
  | InvalidDoorKind | InvalidDoorStatus | SpaceRandFailed | SpaceStoreFailed

section \<open>Helpers\<close>

definition normalizeBuildingStatus :: "string \<Rightarrow> string" where
  "normalizeBuildingStatus x = (if to_lower (trim_space x) = ''archived'' then ''archived'' else ''active'')"

definition normalizeBuildingRecord :: "building \<Rightarrow> building" where
  "normalizeBuildingRecord b = b\<lparr>bd_Status := normalizeBuildingStatus (bd_Status b)\<rparr>"

definition isBuildingArchived :: "building \<Rightarrow> bool" where
  "isBuildingArchived b \<longleftrightarrow> normalizeBuildingStatus (bd_Status b) = ''archived''"

definition space_snapshot_of :: "spaceService \<Rightarrow> space_snapshot" where
  "space_snapshot_of s =
     \<lparr>ss_Buildings = map normalizeBuildingRecord (sp_buildings s), ss_Floors = sp_floors s,
      ss_Areas = sp_areas s, ss_Doors = sp_doors s, ss_DoorGroups = sp_doorGroups s\<rparr>"

definition persistLocked_space :: "env \<Rightarrow> spaceService \<Rightarrow> bool \<times> spaceService" where
  "persistLocked_space e s =
     (case store_save e (space_snapshot_of s) (sp_store s) of (ok, st) \<Rightarrow> (ok, s\<lparr>sp_store := st\<rparr>))"

definition restoreFromStateStore_space :: "env \<Rightarrow> spaceService \<Rightarrow> bool \<times> spaceService" where
  "restoreFromStateStore_space e s =
     (case sp_store s of
        NoStore \<Rightarrow> (True, s)
      | Store None \<Rightarrow> persistLocked_space e s
      | Store (Some snap) \<Rightarrow>
          (True, s\<lparr>sp_buildings := map normalizeBuildingRecord (ss_Buildings snap),
             sp_floors := ss_Floors snap, sp_areas := ss_Areas snap, sp_doors := ss_Doors snap,
             sp_doorGroups := ss_DoorGroups snap\<rparr>))"

definition space_return ::
  "env \<Rightarrow> 'a \<Rightarrow> spaceService \<Rightarrow> (space_error, 'a) result \<times> spaceService" where
  "space_return e v s =
     (case persistLocked_space e s of
        (True, s') \<Rightarrow> (Inr v, s') | (False, s') \<Rightarrow> (Inl SpaceStoreFailed, s'))"

definition entityID :: "env \<Rightarrow> string \<Rightarrow> (space_error, string) result" where
  "entityID e pre = (case env_rand e of None \<Rightarrow> Inl SpaceRandFailed | Some h \<Rightarrow> Inr (pre @ h))"

definition findBuildingLocked :: "string \<Rightarrow> spaceService \<Rightarrow> building option" where
  "findBuildingLocked i s = find (\<lambda>b. bd_ID b = i \<and> \<not> isBuildingArchived b) (sp_buildings s)"

definition findBuildingIncludingArchivedLocked :: "string \<Rightarrow> spaceService \<Rightarrow> building option" where
  "findBuildingIncludingArchivedLocked i s = find (\<lambda>b. bd_ID b = i) (sp_buildings s)"

definition findFloorLocked :: "string \<Rightarrow> spaceService \<Rightarrow> floor option" where
  "findFloorLocked i s = find (\<lambda>f. fl_ID f = i) (sp_floors s)"

definition findAreaLocked :: "string \<Rightarrow> spaceService \<Rightarrow> area option" where
  "findAreaLocked i s = find (\<lambda>a. ar_ID a = i) (sp_areas s)"

definition findDoorLocked :: "string \<Rightarrow> spaceService \<Rightarrow> door option" where
  "findDoorLocked i s = find (\<lambda>d. dr_ID d = i) (sp_doors s)"

definition removeDoorIDsFromGroupsLocked :: "string list \<Rightarrow> spaceService \<Rightarrow> spaceService" where
  "removeDoorIDsFromGroupsLocked doorIDs s =
     s\<lparr>sp_doorGroups := map (\<lambda>g. g\<lparr>dg_DoorIDs := filter (\<lambda>d. d \<notin> set doorIDs) (dg_DoorIDs g)\<rparr>)
                          (sp_doorGroups s)\<rparr>"

definition normalizeDoorKind :: "string \<Rightarrow> (space_error, string) result" where
  "normalizeDoorKind kind =
     (let k = to_lower (trim_space kind) in
      if k = '''' then Inr ''office''
      else if k \<in> {''office'', ''turnstile'', ''server-room'', ''elevator'', ''parking-gate'', ''emergency-exit''}
      then Inr k else Inl InvalidDoorKind)"

definition normalizeDoorStatus :: "string \<Rightarrow> (space_error, string) result" where
  "normalizeDoorStatus status =
     (let x = to_lower (trim_space status) in
      if x = '''' then Inr ''offline''
      else if x = ''online'' \<or> x = ''offline'' then Inr x else Inl InvalidDoorStatus)"

section \<open>Buildings\<close>

definition ListBuildings :: "string \<Rightarrow> spaceService \<Rightarrow> building list" where
  "ListBuildings tenantID s =
     map normalizeBuildingRecord
       (filter (\<lambda>b. in_scope (trim_space tenantID) (bd_TenantID b) \<and> \<not> isBuildingArchived b) (sp_buildings s))"

definition ListBuildingsIncludingArchived :: "string \<Rightarrow> spaceService \<Rightarrow> building list" where
  "ListBuildingsIncludingArchived tenantID s =
     map normalizeBuildingRecord (list_scoped bd_TenantID (trim_space tenantID) (sp_buildings s))"

definition new_building :: "env \<Rightarrow> string \<Rightarrow> string \<Rightarrow> string \<Rightarrow> string \<Rightarrow> string \<Rightarrow> building" where
  "new_building e newID t name address region =
     \<lparr>bd_ID = newID, bd_TenantID = t, bd_Name = name, bd_Address = trim_space address,
      bd_Region = trim_space region, bd_Status = ''active'', bd_ArchivedAt = None, bd_CreatedAt = env_now e\<rparr>"

definition CreateBuilding ::
  "env \<Rightarrow> string \<Rightarrow> string \<Rightarrow> string \<Rightarrow> string \<Rightarrow> spaceService \<Rightarrow> (space_error, building) result \<times> spaceService" where
  "CreateBuilding e tenantID name address region s =
     (if trim_space tenantID = '''' then (Inl SpTenantIDRequired, s)
      else if trim_space name = '''' then (Inl BuildingNameRequired, s)
      else
        (case entityID e ''building_'' of
           Inl err \<Rightarrow> (Inl err, s)
         | Inr newID \<Rightarrow>
             let r = new_building e newID (trim_space tenantID) (trim_space name) address region in
             space_return e r (s\<lparr>sp_buildings := r # sp_buildings s\<rparr>)))"

definition GetBuilding :: "string \<Rightarrow> string \<Rightarrow> spaceService \<Rightarrow> (space_error, building) result" where
  "GetBuilding tenantID buildingID s =
     (if trim_space tenantID = '''' then Inl SpTenantIDRequired
      else if trim_space buildingID = '''' then Inl BuildingIDRequired
      else
        (case findBuildingLocked (trim_space buildingID) s of
           None \<Rightarrow> Inl BuildingNotFound
         | Some b \<Rightarrow> if bd_TenantID b \<noteq> trim_space tenantID then Inl BuildingNotFound
                     else Inr (normalizeBuildingRecord b)))"

definition GetBuildingIncludingArchived ::
  "string \<Rightarrow> string \<Rightarrow> spaceService \<Rightarrow> (space_error, building) result" where
  "GetBuildingIncludingArchived tenantID buildingID s =
     (if trim_space tenantID = '''' then Inl SpTenantIDRequired
      else if trim_space buildingID = '''' then Inl BuildingIDRequired
      else
        (case findBuildingIncludingArchivedLocked (trim_space buildingID) s of
           None \<Rightarrow> Inl BuildingNotFound
         | Some b \<Rightarrow> if bd_TenantID b \<noteq> trim_space tenantID then Inl BuildingNotFound
                     else Inr (normalizeBuildingRecord b)))"

text \<open>The first building with the identifier, when it is the tenant's and not archived.\<close>

definition live_building :: "string \<Rightarrow> string \<Rightarrow> spaceService \<Rightarrow> nat option" where
  "live_building t i s =
     (case lookup_strict bd_ID bd_TenantID t i (sp_buildings s) of
        None \<Rightarrow> None
      | Some k \<Rightarrow> if isBuildingArchived (sp_buildings s ! k) then None else Some k)"

definition UpdateBuilding ::
  "env \<Rightarrow> string \<Rightarrow> string \<Rightarrow> string \<Rightarrow> string \<Rightarrow> string \<Rightarrow> spaceService \<Rightarrow>
   (space_error, building) result \<times> spaceService" where
  "UpdateBuilding e tenantID buildingID name address region s =
     (if trim_space tenantID = '''' then (Inl SpTenantIDRequired, s)
      else if trim_space buildingID = '''' then (Inl BuildingIDRequired, s)
      else if trim_space name = '''' then (Inl BuildingNameRequired, s)
      else
        (case live_building (trim_space tenantID) (trim_space buildingID) s of
           None \<Rightarrow> (Inl BuildingNotFound, s)
         | Some i \<Rightarrow>
             let r = (sp_buildings s ! i)\<lparr>bd_Name := trim_space name, bd_Address := trim_space address,
                        bd_Region := trim_space region\<rparr> in
             space_return e r (s\<lparr>sp_buildings := (sp_buildings s)[i := r]\<rparr>)))"

text \<open>The building stays, archived; its floors, areas and doors go, and the doors leave the
  groups.\<close>

definition DeleteBuilding ::
  "env \<Rightarrow> string \<Rightarrow> string \<Rightarrow> spaceService \<Rightarrow> (space_error, unit) result \<times> spaceService" where
  "DeleteBuilding e tenantID buildingID s =
     (let b = trim_space buildingID in
      if trim_space tenantID = '''' then (Inl SpTenantIDRequired, s)
      else if b = '''' then (Inl BuildingIDRequired, s)
      else
        (case live_building (trim_space tenantID) b s of
           None \<Rightarrow> (Inl BuildingNotFound, s)
         | Some i \<Rightarrow>
             let gone = map dr_ID (filter (\<lambda>d. dr_BuildingID d = b) (sp_doors s));
                 s1 = s\<lparr>sp_buildings := (sp_buildings s)[i := (sp_buildings s ! i)
                            \<lparr>bd_Status := ''archived'', bd_ArchivedAt := Some (env_now e)\<rparr>],
                        sp_floors := filter (\<lambda>f. fl_BuildingID f \<noteq> b) (sp_floors s),
                        sp_areas := filter (\<lambda>a. ar_BuildingID a \<noteq> b) (sp_areas s),
                        sp_doors := filter (\<lambda>d. dr_BuildingID d \<noteq> b) (sp_doors s)\<rparr> in
             space_return e () (if gone \<noteq> [] then removeDoorIDsFromGroupsLocked gone s1 else s1)))"

section \<open>Floors\<close>

definition ListFloors :: "string \<Rightarrow> spaceService \<Rightarrow> floor list" where
  "ListFloors tenantID s = list_scoped fl_TenantID (trim_space tenantID) (sp_floors s)"

definition check_floor ::
  "env \<Rightarrow> string \<Rightarrow> string \<Rightarrow> string \<Rightarrow> spaceService \<Rightarrow> (space_error, floor) result" where
  "check_floor e tenantID buildingID name s =
     (let t = trim_space tenantID; b = trim_space buildingID in
      if t = '''' then Inl SpTenantIDRequired
      else if b = '''' then Inl BuildingIDRequired
      else if trim_space name = '''' then Inl FloorNameRequired
      else
        (case findBuildingLocked b s of
           None \<Rightarrow> Inl BuildingNotFound
         | Some bld \<Rightarrow>
             if bd_TenantID bld \<noteq> t then Inl TenantOwnershipMismatch
             else
               (case entityID e ''floor_'' of
                  Inl err \<Rightarrow> Inl err
                | Inr newID \<Rightarrow> Inr \<lparr>fl_ID = newID, fl_TenantID = t, fl_BuildingID = b,
                                   fl_Name = trim_space name, fl_CreatedAt = env_now e\<rparr>)))"

definition insert_floor :: "env \<Rightarrow> floor \<Rightarrow> spaceService \<Rightarrow> (space_error, floor) result \<times> spaceService" where
  "insert_floor e r s = space_return e r (s\<lparr>sp_floors := r # sp_floors s\<rparr>)"

definition CreateFloor ::
  "env \<Rightarrow> string \<Rightarrow> string \<Rightarrow> string \<Rightarrow> spaceService \<Rightarrow> (space_error, floor) result \<times> spaceService" where
  "CreateFloor e tenantID buildingID name s =
     (case check_floor e tenantID buildingID name s of
        Inl err \<Rightarrow> (Inl err, s) | Inr r \<Rightarrow> insert_floor e r s)"

definition GetFloor :: "string \<Rightarrow> string \<Rightarrow> spaceService \<Rightarrow> (space_error, floor) result" where
  "GetFloor tenantID floorID s =
     (if trim_space tenantID = '''' then Inl SpTenantIDRequired
      else if trim_space floorID = '''' then Inl FloorIDRequired
      else
        (case findFloorLocked (trim_space floorID) s of
           None \<Rightarrow> Inl FloorNotFound
         | Some f \<Rightarrow> if fl_TenantID f \<noteq> trim_space tenantID then Inl FloorNotFound else Inr f))"

definition UpdateFloor ::
  "env \<Rightarrow> string \<Rightarrow> string \<Rightarrow> string \<Rightarrow> string \<Rightarrow> spaceService \<Rightarrow> (space_error, floor) result \<times> spaceService" where
  "UpdateFloor e tenantID floorID buildingID name s =
     (let t = trim_space tenantID; f = trim_space floorID; b = trim_space buildingID in
      if t = '''' then (Inl SpTenantIDRequired, s)
      else if f = '''' then (Inl FloorIDRequired, s)
      else if b = '''' then (Inl BuildingIDRequired, s)
      else if trim_space name = '''' then (Inl FloorNameRequired, s)
      else
        (case lookup_strict fl_ID fl_TenantID t f (sp_floors s) of
           None \<Rightarrow> (Inl FloorNotFound, s)
         | Some i \<Rightarrow>
             (case findBuildingLocked b s of
                None \<Rightarrow> (Inl BuildingNotFound, s)
              | Some bld \<Rightarrow>
                  if bd_TenantID bld \<noteq> t then (Inl TenantOwnershipMismatch, s)
                  else
                    let old = sp_floors s ! i;
                        r = old\<lparr>fl_BuildingID := b, fl_Name := trim_space name\<rparr>;
                        s1 = s\<lparr>sp_floors := (sp_floors s)[i := r]\<rparr>;
                        s2 = (if fl_BuildingID old \<noteq> b
                              then s1\<lparr>sp_areas := map (\<lambda>a. if ar_FloorID a = f then a\<lparr>ar_BuildingID := b\<rparr> else a)
                                                   (sp_areas s),
                                      sp_doors := map (\<lambda>d. if dr_FloorID d = f then d\<lparr>dr_BuildingID := b\<rparr> else d)
                                                   (sp_doors s)\<rparr>
                              else s1) in
                    space_return e r s2)))"

definition DeleteFloor ::
  "env \<Rightarrow> string \<Rightarrow> string \<Rightarrow> spaceService \<Rightarrow> (space_error, unit) result \<times> spaceService" where
  "DeleteFloor e tenantID floorID s =
     (let f = trim_space floorID in
      if trim_space tenantID = '''' then (Inl SpTenantIDRequired, s)
      else if f = '''' then (Inl FloorIDRequired, s)
      else
        (case lookup_strict fl_ID fl_TenantID (trim_space tenantID) f (sp_floors s) of
           None \<Rightarrow> (Inl FloorNotFound, s)
         | Some i \<Rightarrow>
             let gone = map dr_ID (filter (\<lambda>d. dr_FloorID d = f) (sp_doors s));
                 s1 = s\<lparr>sp_floors := remove_at i (sp_floors s),
                        sp_areas := filter (\<lambda>a. ar_FloorID a \<noteq> f) (sp_areas s),
                        sp_doors := filter (\<lambda>d. dr_FloorID d \<noteq> f) (sp_doors s)\<rparr> in
             space_return e () (if gone \<noteq> [] then removeDoorIDsFromGroupsLocked gone s1 else s1)))"

section \<open>Areas\<close>

definition ListAreas :: "string \<Rightarrow> spaceService \<Rightarrow> area list" where
  "ListAreas tenantID s = list_scoped ar_TenantID (trim_space tenantID) (sp_areas s)"

definition check_area ::
  "env \<Rightarrow> string \<Rightarrow> string \<Rightarrow> string \<Rightarrow> string \<Rightarrow> spaceService \<Rightarrow> (space_error, area) result" where
  "check_area e tenantID buildingID floorID name s =
     (let t = trim_space tenantID; b = trim_space buildingID; f = trim_space floorID in
      if t = '''' then Inl SpTenantIDRequired
      else if b = '''' then Inl BuildingIDRequired
      else if f = '''' then Inl FloorIDRequired
      else if trim_space name = '''' then Inl AreaNameRequired
      else
        (case findBuildingLocked b s of
           None \<Rightarrow> Inl BuildingNotFound
         | Some bld \<Rightarrow>
             (case findFloorLocked f s of
                None \<Rightarrow> Inl FloorNotFound
              | Some fl \<Rightarrow>
                  if bd_TenantID bld \<noteq> t \<or> fl_TenantID fl \<noteq> t then Inl TenantOwnershipMismatch
                  else if fl_BuildingID fl \<noteq> b then Inl FloorBuildingMismatch
                  else
                    (case entityID e ''area_'' of
                       Inl err \<Rightarrow> Inl err
                     | Inr newID \<Rightarrow> Inr \<lparr>ar_ID = newID, ar_TenantID = t, ar_BuildingID = b,
                                        ar_FloorID = f, ar_Name = trim_space name,
                                        ar_CreatedAt = env_now e\<rparr>))))"

definition insert_area :: "env \<Rightarrow> area \<Rightarrow> spaceService \<Rightarrow> (space_error, area) result \<times> spaceService" where
  "insert_area e r s = space_return e r (s\<lparr>sp_areas := r # sp_areas s\<rparr>)"

definition CreateArea ::
  "env \<Rightarrow> string \<Rightarrow> string \<Rightarrow> string \<Rightarrow> string \<Rightarrow> spaceService \<Rightarrow> (space_error, area) result \<times> spaceService" where
  "CreateArea e tenantID buildingID floorID name s =
     (case check_area e tenantID buildingID floorID name s of
        Inl err \<Rightarrow> (Inl err, s) | Inr r \<Rightarrow> insert_area e r s)"

definition GetArea :: "string \<Rightarrow> string \<Rightarrow> spaceService \<Rightarrow> (space_error, area) result" where
  "GetArea tenantID areaID s =
     (if trim_space tenantID = '''' then Inl SpTenantIDRequired
      else if trim_space areaID = '''' then Inl AreaIDRequired
      else
        (case findAreaLocked (trim_space areaID) s of
           None \<Rightarrow> Inl AreaNotFound
         | Some a \<Rightarrow> if ar_TenantID a \<noteq> trim_space tenantID then Inl AreaNotFound else Inr a))"

definition UpdateArea ::
  "env \<Rightarrow> string \<Rightarrow> string \<Rightarrow> string \<Rightarrow> string \<Rightarrow> string \<Rightarrow> spaceService \<Rightarrow>
   (space_error, area) result \<times> spaceService" where
  "UpdateArea e tenantID areaID buildingID floorID name s =
     (let t = trim_space tenantID; a = trim_space areaID; b = trim_space buildingID;
          f = trim_space floorID in
      if t = '''' then (Inl SpTenantIDRequired, s)
      else if a = '''' then (Inl AreaIDRequired, s)
      else if b = '''' then (Inl BuildingIDRequired, s)
      else if f = '''' then (Inl FloorIDRequired, s)
      else if trim_space name = '''' then (Inl AreaNameRequired, s)
      else
        (case lookup_strict ar_ID ar_TenantID t a (sp_areas s) of
           None \<Rightarrow> (Inl AreaNotFound, s)
         | Some i \<Rightarrow>
             (case findBuildingLocked b s of
                None \<Rightarrow> (Inl BuildingNotFound, s)
              | Some bld \<Rightarrow>
                  (case findFloorLocked f s of
                     None \<Rightarrow> (Inl FloorNotFound, s)
                   | Some fl \<Rightarrow>
                       if bd_TenantID bld \<noteq> t \<or> fl_TenantID fl \<noteq> t then (Inl TenantOwnershipMismatch, s)
                       else if fl_BuildingID fl \<noteq> b then (Inl FloorBuildingMismatch, s)
                       else
                         let old = sp_areas s ! i;
                             r = old\<lparr>ar_BuildingID := b, ar_FloorID := f, ar_Name := trim_space name\<rparr>;
                             s1 = s\<lparr>sp_areas := (sp_areas s)[i := r]\<rparr>;
                             s2 = (if ar_BuildingID old \<noteq> b \<or> ar_FloorID old \<noteq> f
                                   then s1\<lparr>sp_doors := map (\<lambda>d. if dr_AreaID d = a
                                             then d\<lparr>dr_BuildingID := b, dr_FloorID := f\<rparr> else d) (sp_doors s)\<rparr>
                                   else s1) in
                         space_return e r s2))))"

section \<open>Doors\<close>

definition ListDoors :: "string \<Rightarrow> spaceService \<Rightarrow> door list" where
  "ListDoors tenantID s = list_scoped dr_TenantID (trim_space tenantID) (sp_doors s)"

definition GetDoor :: "string \<Rightarrow> string \<Rightarrow> spaceService \<Rightarrow> (space_error, door) result" where
  "GetDoor tenantID doorID s =
     (if trim_space tenantID = '''' then Inl SpTenantIDRequired
      else if trim_space doorID = '''' then Inl DoorNotFound
      else
        (case findDoorLocked (trim_space doorID) s of
           None \<Rightarrow> Inl DoorNotFound
         | Some d \<Rightarrow> if dr_TenantID d \<noteq> trim_space tenantID then Inl DoorNotFound else Inr d))"

record door_input =
  dn_BuildingID :: string
  dn_FloorID :: string
  dn_AreaID :: string
  dn_Name :: string
  dn_GatewayID :: string
  dn_Kind :: string
  dn_Status :: string

text \<open>The checks the two door operations share, in their order: the fields, then kind and
  status, then the place.\<close>

definition door_fields :: "door_input \<Rightarrow> (space_error, string \<times> string) result" where
  "door_fields inp =
     (if trim_space (dn_BuildingID inp) = '''' then Inl BuildingIDRequired
      else if trim_space (dn_FloorID inp) = '''' then Inl FloorIDRequired
      else if trim_space (dn_AreaID inp) = '''' then Inl AreaIDRequired
      else if trim_space (dn_Name inp) = '''' then Inl DoorNameRequired
      else
        (case normalizeDoorKind (dn_Kind inp) of
           Inl err \<Rightarrow> Inl err
         | Inr k \<Rightarrow> (case normalizeDoorStatus (dn_Status inp) of Inl err \<Rightarrow> Inl err | Inr x \<Rightarrow> Inr (k, x))))"

definition door_place :: "string \<Rightarrow> string \<Rightarrow> string \<Rightarrow> string \<Rightarrow> spaceService \<Rightarrow> space_error option" where
  "door_place t b f a s =
     (case findBuildingLocked b s of
        None \<Rightarrow> Some BuildingNotFound
      | Some bld \<Rightarrow>
          (case findFloorLocked f s of
             None \<Rightarrow> Some FloorNotFound
           | Some fl \<Rightarrow>
               (case findAreaLocked a s of
                  None \<Rightarrow> Some AreaNotFound
                | Some ar \<Rightarrow>
                    if bd_TenantID bld \<noteq> t \<or> fl_TenantID fl \<noteq> t \<or> ar_TenantID ar \<noteq> t
                      then Some TenantOwnershipMismatch
                    else if fl_BuildingID fl \<noteq> b then Some FloorBuildingMismatch
                    else if ar_FloorID ar \<noteq> f \<or> ar_BuildingID ar \<noteq> b then Some AreaFloorMismatch
                    else None)))"

definition check_door ::
  "env \<Rightarrow> string \<Rightarrow> door_input \<Rightarrow> spaceService \<Rightarrow> (space_error, door) result" where
  "check_door e tenantID inp s =
     (let t = trim_space tenantID; b = trim_space (dn_BuildingID inp); f = trim_space (dn_FloorID inp);
          a = trim_space (dn_AreaID inp) in
      if t = '''' then Inl SpTenantIDRequired
      else
        (case door_fields inp of
           Inl err \<Rightarrow> Inl err
         | Inr (k, x) \<Rightarrow>
             (case door_place t b f a s of
                Some err \<Rightarrow> Inl err
              | None \<Rightarrow>
                  (case entityID e ''door_'' of
                     Inl err \<Rightarrow> Inl err
                   | Inr newID \<Rightarrow>
                       Inr \<lparr>dr_ID = newID, dr_TenantID = t, dr_BuildingID = b, dr_FloorID = f, dr_AreaID = a,
                            dr_Name = trim_space (dn_Name inp), dr_GatewayID = trim_space (dn_GatewayID inp),
                            dr_Kind = k, dr_Status = x, dr_CreatedAt = env_now e\<rparr>))))"

definition insert_door :: "env \<Rightarrow> door \<Rightarrow> spaceService \<Rightarrow> (space_error, door) result \<times> spaceService" where
  "insert_door e r s = space_return e r (s\<lparr>sp_doors := r # sp_doors s\<rparr>)"

definition CreateDoor ::
  "env \<Rightarrow> string \<Rightarrow> door_input \<Rightarrow> spaceService \<Rightarrow> (space_error, door) result \<times> spaceService" where
  "CreateDoor e tenantID inp s =
     (case check_door e tenantID inp s of Inl err \<Rightarrow> (Inl err, s) | Inr r \<Rightarrow> insert_door e r s)"

definition UpdateDoor ::
  "env \<Rightarrow> string \<Rightarrow> string \<Rightarrow> door_input \<Rightarrow> spaceService \<Rightarrow> (space_error, door) result \<times> spaceService" where
  "UpdateDoor e tenantID doorID inp s =
     (let t = trim_space tenantID; b = trim_space (dn_BuildingID inp); f = trim_space (dn_FloorID inp);
          a = trim_space (dn_AreaID inp) in
      if t = '''' then (Inl SpTenantIDRequired, s)
      else if trim_space doorID = '''' then (Inl DoorNotFound, s)
      else
        (case door_fields inp of
           Inl err \<Rightarrow> (Inl err, s)
         | Inr (k, x) \<Rightarrow>
             (case lookup_strict dr_ID dr_TenantID t (trim_space doorID) (sp_doors s) of
                None \<Rightarrow> (Inl DoorNotFound, s)
              | Some i \<Rightarrow>
                  (case door_place t b f a s of
                     Some err \<Rightarrow> (Inl err, s)
                   | None \<Rightarrow>
                       let r = (sp_doors s ! i)\<lparr>dr_BuildingID := b, dr_FloorID := f, dr_AreaID := a,
                             dr_Name := trim_space (dn_Name inp), dr_GatewayID := trim_space (dn_GatewayID inp),
                             dr_Kind := k, dr_Status := x\<rparr> in
                       space_return e r (s\<lparr>sp_doors := (sp_doors s)[i := r]\<rparr>)))))"

definition DeleteDoor ::
  "env \<Rightarrow> string \<Rightarrow> string \<Rightarrow> spaceService \<Rightarrow> (space_error, unit) result \<times> spaceService" where
  "DeleteDoor e tenantID doorID s =
     (let d = trim_space doorID in
      if trim_space tenantID = '''' then (Inl SpTenantIDRequired, s)
      else if d = '''' then (Inl DoorNotFound, s)
      else
        (case lookup_strict dr_ID dr_TenantID (trim_space tenantID) d (sp_doors s) of
           None \<Rightarrow> (Inl DoorNotFound, s)
         | Some i \<Rightarrow>
             space_return e ()
               (removeDoorIDsFromGroupsLocked [d] (s\<lparr>sp_doors := remove_at i (sp_doors s)\<rparr>))))"

section \<open>Door groups\<close>

definition ListDoorGroups :: "string \<Rightarrow> spaceService \<Rightarrow> doorGroup list" where
  "ListDoorGroups tenantID s = list_scoped dg_TenantID (trim_space tenantID) (sp_doorGroups s)"

text \<open>The validation loop of \<open>CreateDoorGroup\<close>: the distinct non-empty identifiers, in order.\<close>

fun group_doors ::
  "string \<Rightarrow> spaceService \<Rightarrow> string list \<Rightarrow> string list \<Rightarrow> (space_error, string list) result" where
  "group_doors t s seen [] = Inr []"
| "group_doors t s seen (raw # rest) =
     (let d = trim_space raw in
      if d = '''' \<or> d \<in> set seen then group_doors t s seen rest
      else
        (case findDoorLocked d s of
           None \<Rightarrow> Inl DoorNotFound
         | Some dr \<Rightarrow>
             if dr_TenantID dr \<noteq> t then Inl TenantOwnershipMismatch
             else (case group_doors t s (d # seen) rest of Inl err \<Rightarrow> Inl err | Inr ds \<Rightarrow> Inr (d # ds))))"

definition check_group ::
  "env \<Rightarrow> string \<Rightarrow> string \<Rightarrow> string list \<Rightarrow> spaceService \<Rightarrow> (space_error, doorGroup) result" where
  "check_group e tenantID name doorIDs s =
     (let t = trim_space tenantID in
      if t = '''' then Inl SpTenantIDRequired
      else if trim_space name = '''' then Inl DoorGroupNameRequired
      else
        (case group_doors t s [] doorIDs of
           Inl err \<Rightarrow> Inl err
         | Inr ds \<Rightarrow>
             (case entityID e ''dg_'' of
                Inl err \<Rightarrow> Inl err
              | Inr newID \<Rightarrow> Inr \<lparr>dg_ID = newID, dg_TenantID = t, dg_Name = trim_space name,
                                 dg_DoorIDs = ds, dg_CreatedAt = env_now e\<rparr>)))"

definition insert_group :: "env \<Rightarrow> doorGroup \<Rightarrow> spaceService \<Rightarrow> (space_error, doorGroup) result \<times> spaceService" where
  "insert_group e r s = space_return e r (s\<lparr>sp_doorGroups := r # sp_doorGroups s\<rparr>)"

definition CreateDoorGroup ::
  "env \<Rightarrow> string \<Rightarrow> string \<Rightarrow> string list \<Rightarrow> spaceService \<Rightarrow> (space_error, doorGroup) result \<times> spaceService" where
  "CreateDoorGroup e tenantID name doorIDs s =
     (case check_group e tenantID name doorIDs s of
        Inl err \<Rightarrow> (Inl err, s) | Inr r \<Rightarrow> insert_group e r s)"

definition AddDoorToGroup ::
  "env \<Rightarrow> string \<Rightarrow> string \<Rightarrow> string \<Rightarrow> spaceService \<Rightarrow> (space_error, doorGroup) result \<times> spaceService" where
  "AddDoorToGroup e tenantID groupID doorID s =
     (let t = trim_space tenantID; g = trim_space groupID; d = trim_space doorID in
      if t = '''' then (Inl SpTenantIDRequired, s)
      else if g = '''' then (Inl DoorGroupNotFound, s)
      else if d = '''' then (Inl DoorNotFound, s)
      else
        (case findDoorLocked d s of
           None \<Rightarrow> (Inl DoorNotFound, s)
         | Some dr \<Rightarrow>
             if dr_TenantID dr \<noteq> t then (Inl TenantOwnershipMismatch, s)
             else
               (case lookup_strict dg_ID dg_TenantID t g (sp_doorGroups s) of
                  None \<Rightarrow> (Inl DoorGroupNotFound, s)
                | Some i \<Rightarrow>
                    let old = sp_doorGroups s ! i; r = old\<lparr>dg_DoorIDs := dg_DoorIDs old @ [d]\<rparr> in
                    if d \<in> set (dg_DoorIDs old) then (Inr old, s)
                    else space_return e r (s\<lparr>sp_doorGroups := (sp_doorGroups s)[i := r]\<rparr>))))"

definition RemoveDoorFromGroup ::
  "env \<Rightarrow> string \<Rightarrow> string \<Rightarrow> string \<Rightarrow> spaceService \<Rightarrow> (space_error, doorGroup) result \<times> spaceService" where
  "RemoveDoorFromGroup e tenantID groupID doorID s =
     (let t = trim_space tenantID; g = trim_space groupID; d = trim_space doorID in
      if t = '''' then (Inl SpTenantIDRequired, s)
      else if g = '''' then (Inl DoorGroupNotFound, s)
      else if d = '''' then (Inl DoorNotFound, s)
      else
        (case lookup_strict dg_ID dg_TenantID t g (sp_doorGroups s) of
           None \<Rightarrow> (Inl DoorGroupNotFound, s)
         | Some i \<Rightarrow>
             let old = sp_doorGroups s ! i;
                 r = old\<lparr>dg_DoorIDs := filter (\<lambda>x. x \<noteq> d) (dg_DoorIDs old)\<rparr> in
             if d \<notin> set (dg_DoorIDs old) then (Inl DoorNotFound, s)
             else space_return e r (s\<lparr>sp_doorGroups := (sp_doorGroups s)[i := r]\<rparr>)))"

definition TopologyByTenant :: "string \<Rightarrow> spaceService \<Rightarrow> (space_error, tenantTopology) result" where
  "TopologyByTenant tenantID s =
     (let t = trim_space tenantID in
      if t = '''' then Inl SpTenantIDRequired
      else Inr \<lparr>tt_TenantID = t,
                tt_Buildings = map normalizeBuildingRecord
                  (filter (\<lambda>b. bd_TenantID b = t \<and> \<not> isBuildingArchived b) (sp_buildings s)),
                tt_Floors = filter (\<lambda>f. fl_TenantID f = t) (sp_floors s),
                tt_Areas = filter (\<lambda>a. ar_TenantID a = t) (sp_areas s),
                tt_Doors = filter (\<lambda>d. dr_TenantID d = t) (sp_doors s)\<rparr>)"

section \<open>Consistent topologies\<close>

definition floor_placed :: "spaceService \<Rightarrow> floor \<Rightarrow> bool" where
  "floor_placed s f \<longleftrightarrow> (\<exists>b\<in>set (sp_buildings s). bd_ID b = fl_BuildingID f \<and>
     bd_TenantID b = fl_TenantID f \<and> \<not> isBuildingArchived b)"

definition area_placed :: "spaceService \<Rightarrow> area \<Rightarrow> bool" where
  "area_placed s a \<longleftrightarrow> (\<exists>f\<in>set (sp_floors s). fl_ID f = ar_FloorID a \<and>
     fl_BuildingID f = ar_BuildingID a \<and> fl_TenantID f = ar_TenantID a)"

definition door_placed :: "spaceService \<Rightarrow> door \<Rightarrow> bool" where
  "door_placed s d \<longleftrightarrow> (\<exists>a\<in>set (sp_areas s). ar_ID a = dr_AreaID d \<and> ar_FloorID a = dr_FloorID d \<and>
     ar_BuildingID a = dr_BuildingID d \<and> ar_TenantID a = dr_TenantID d)"

definition group_valid :: "spaceService \<Rightarrow> doorGroup \<Rightarrow> bool" where
  "group_valid s g \<longleftrightarrow> (\<forall>i\<in>set (dg_DoorIDs g). \<exists>d\<in>set (sp_doors s). dr_ID d = i \<and>
     dr_TenantID d = dg_TenantID g)"

text \<open>Identifiers are unique, and every record lies in the record it names, with the same
  tenant: floors in a building that is not archived, areas on a floor of their building,
  doors in an area of their floor, group members among the doors of the group's tenant.\<close>

definition topology_ok :: "spaceService \<Rightarrow> bool" where
  "topology_ok s \<longleftrightarrow>
     distinct (map bd_ID (sp_buildings s)) \<and> distinct (map fl_ID (sp_floors s)) \<and>
     distinct (map ar_ID (sp_areas s)) \<and> distinct (map dr_ID (sp_doors s)) \<and>
     (\<forall>f\<in>set (sp_floors s). floor_placed s f) \<and> (\<forall>a\<in>set (sp_areas s). area_placed s a) \<and>
     (\<forall>d\<in>set (sp_doors s). door_placed s d) \<and> (\<forall>g\<in>set (sp_doorGroups s). group_valid s g)"

lemmas placed_defs = floor_placed_def area_placed_def door_placed_def group_valid_def

lemma persist_space_frame [simp]:
  "sp_buildings (snd (persistLocked_space e s)) = sp_buildings s"
  "sp_floors (snd (persistLocked_space e s)) = sp_floors s"
  "sp_areas (snd (persistLocked_space e s)) = sp_areas s"
  "sp_doors (snd (persistLocked_space e s)) = sp_doors s"
  "sp_doorGroups (snd (persistLocked_space e s)) = sp_doorGroups s"
  by (simp_all add: persistLocked_space_def case_prod_unfold)

lemma space_return_state [simp]: "snd (space_return e v s) = snd (persistLocked_space e s)"
  by (simp add: space_return_def case_prod_unfold split: bool.splits)

lemma topology_ok_persist [simp]: "topology_ok (snd (persistLocked_space e s)) = topology_ok s"
  by (simp add: topology_ok_def placed_defs)

text \<open>Adding a placed record with a new identifier.\<close>

lemma add_building:
  assumes "topology_ok s" and "bd_ID b \<notin> bd_ID ` set (sp_buildings s)"
  shows "topology_ok (s\<lparr>sp_buildings := b # sp_buildings s\<rparr>)"
  using assms by (auto simp: topology_ok_def placed_defs)

lemma add_floor:
  assumes "topology_ok s" and "fl_ID f \<notin> fl_ID ` set (sp_floors s)" and "floor_placed s f"
  shows "topology_ok (s\<lparr>sp_floors := f # sp_floors s\<rparr>)"
  using assms by (auto simp: topology_ok_def placed_defs)

lemma add_area:
  assumes "topology_ok s" and "ar_ID a \<notin> ar_ID ` set (sp_areas s)" and "area_placed s a"
  shows "topology_ok (s\<lparr>sp_areas := a # sp_areas s\<rparr>)"
  using assms by (auto simp: topology_ok_def placed_defs)

lemma add_door:
  assumes "topology_ok s" and "dr_ID d \<notin> dr_ID ` set (sp_doors s)" and "door_placed s d"
  shows "topology_ok (s\<lparr>sp_doors := d # sp_doors s\<rparr>)"
  using assms by (auto simp: topology_ok_def placed_defs)

lemma add_group:
  assumes "topology_ok s" and "group_valid s g"
  shows "topology_ok (s\<lparr>sp_doorGroups := g # sp_doorGroups s\<rparr>)"
  using assms by (auto simp: topology_ok_def placed_defs)

text \<open>What the checks of the create operations establish.\<close>

lemma check_floor_placed:
  "check_floor e t b n s = Inr r \<Longrightarrow> floor_placed s r"
  by (auto simp: check_floor_def Let_def floor_placed_def findBuildingLocked_def
      dest!: find_memberD split: if_splits option.splits sum.splits)

lemma check_area_placed:
  "check_area e t b f n s = Inr r \<Longrightarrow> area_placed s r"
  by (auto simp: check_area_def Let_def area_placed_def findFloorLocked_def
      dest!: find_memberD split: if_splits option.splits sum.splits)

lemma door_place_None:
  "door_place t b f a s = None \<Longrightarrow> \<exists>x\<in>set (sp_areas s). ar_ID x = a \<and> ar_FloorID x = f \<and>
     ar_BuildingID x = b \<and> ar_TenantID x = t"
  by (auto simp: door_place_def findAreaLocked_def dest!: find_memberD
      split: if_splits option.splits)

lemma check_door_placed:
  "check_door e t inp s = Inr r \<Longrightarrow> door_placed s r"
  by (auto simp: check_door_def Let_def door_placed_def intro!: door_place_None
      split: if_splits option.splits sum.splits)

lemma group_doors_valid:
  "group_doors t s seen raws = Inr ds \<Longrightarrow>
   (\<forall>i\<in>set ds. \<exists>d\<in>set (sp_doors s). dr_ID d = i \<and> dr_TenantID d = t) \<and>
   distinct ds \<and> set ds \<inter> set seen = {}"
proof (induction t s seen raws arbitrary: ds rule: group_doors.induct)
  case (1 t s seen)
  then show ?case by simp
next
  case (2 t s seen raw rest)
  show ?case
  proof (cases "trim_space raw = '''' \<or> trim_space raw \<in> set seen")
    case True
    with 2 show ?thesis by (simp add: Let_def)
  next
    case False
    with "2.prems" obtain d ds' where d: "findDoorLocked (trim_space raw) s = Some d"
      "dr_TenantID d = t" "group_doors t s (trim_space raw # seen) rest = Inr ds'"
      "ds = trim_space raw # ds'"
      by (auto simp: Let_def split: option.splits if_splits sum.splits)
    from d(1) have "d \<in> set (sp_doors s)" "dr_ID d = trim_space raw"
      by (auto simp: findDoorLocked_def dest: find_memberD)
    moreover note "2.IH"(2) [OF refl False d(1) _ d(3)]
    ultimately show ?thesis using d(2,4) False by auto
  qed
qed

lemma check_group_valid: "check_group e t n ds s = Inr g \<Longrightarrow> group_valid s g"
  by (auto simp: check_group_def Let_def group_valid_def dest!: group_doors_valid
      split: if_splits sum.splits)

text \<open>The archived building and what goes with it.\<close>

lemma removed_frame [simp]:
  "sp_buildings (removeDoorIDsFromGroupsLocked ds s) = sp_buildings s"
  "sp_floors (removeDoorIDsFromGroupsLocked ds s) = sp_floors s"
  "sp_areas (removeDoorIDsFromGroupsLocked ds s) = sp_areas s"
  "sp_doors (removeDoorIDsFromGroupsLocked ds s) = sp_doors s"
  by (simp_all add: removeDoorIDsFromGroupsLocked_def)

lemma removed_nil [simp]: "removeDoorIDsFromGroupsLocked [] s = s"
  by (simp add: removeDoorIDsFromGroupsLocked_def map_idI)

lemma removed_if: "(if ds \<noteq> [] then removeDoorIDsFromGroupsLocked ds s else s) =
    removeDoorIDsFromGroupsLocked ds s"
  by simp

lemma groups_after_removal:
  assumes "\<forall>g\<in>set (sp_doorGroups s). group_valid s g"
    and "\<And>d. d \<in> set (sp_doors s) \<Longrightarrow> dr_ID d \<notin> set gone \<Longrightarrow> d \<in> set (sp_doors s')"
    and "sp_doorGroups s' = sp_doorGroups s" and "g \<in> set (sp_doorGroups (removeDoorIDsFromGroupsLocked gone s'))"
  shows "group_valid (removeDoorIDsFromGroupsLocked gone s') g"
proof -
  from assms(3,4) obtain g0 where g0: "g0 \<in> set (sp_doorGroups s)"
    "g = g0\<lparr>dg_DoorIDs := filter (\<lambda>d. d \<notin> set gone) (dg_DoorIDs g0)\<rparr>"
    by (auto simp: removeDoorIDsFromGroupsLocked_def)
  with assms(1) have "group_valid s g0" by blast
  with g0(2) assms(2) show ?thesis by (fastforce simp: group_valid_def)
qed

lemma delete_building_ok:
  assumes ok: "topology_ok s" and i: "live_building t b s = Some i" and t: "t \<noteq> ''''"
  shows "topology_ok (removeDoorIDsFromGroupsLocked (map dr_ID (filter (\<lambda>d. dr_BuildingID d = b) (sp_doors s)))
    (s\<lparr>sp_buildings := (sp_buildings s)[i := (sp_buildings s ! i)\<lparr>bd_Status := ''archived'', bd_ArchivedAt := x\<rparr>],
       sp_floors := filter (\<lambda>f. fl_BuildingID f \<noteq> b) (sp_floors s),
       sp_areas := filter (\<lambda>a. ar_BuildingID a \<noteq> b) (sp_areas s),
       sp_doors := filter (\<lambda>d. dr_BuildingID d \<noteq> b) (sp_doors s)\<rparr>))" (is "topology_ok (?rm ?s)")
proof -
  from i have k: "i < length (sp_buildings s)" "bd_ID (sp_buildings s ! i) = b"
    by (auto simp: live_building_def dest: lookup_strict_SomeD split: option.splits if_splits)
  have d: "distinct (map bd_ID (sp_buildings s))" using ok by (simp add: topology_ok_def)
  have bs: "set (sp_buildings ?s) = insert ((sp_buildings s ! i)\<lparr>bd_Status := ''archived'', bd_ArchivedAt := x\<rparr>)
      {y \<in> set (sp_buildings s). bd_ID y \<noteq> b}"
    using set_update_distinct [OF d k(1), of "(sp_buildings s ! i)\<lparr>bd_Status := ''archived'', bd_ArchivedAt := x\<rparr>"] k(2)
    by simp
  have "distinct (map bd_ID (sp_buildings ?s))" using d by (simp add: map_update_same)
  moreover have "\<forall>f\<in>set (sp_floors ?s). floor_placed (?rm ?s) f"
    using ok bs by (auto simp: topology_ok_def floor_placed_def)
  moreover have "\<forall>a\<in>set (sp_areas ?s). area_placed (?rm ?s) a"
    using ok by (fastforce simp: topology_ok_def area_placed_def)
  moreover have "\<forall>x\<in>set (sp_doors ?s). door_placed (?rm ?s) x"
    using ok by (fastforce simp: topology_ok_def door_placed_def)
  moreover have "\<forall>g\<in>set (sp_doorGroups (?rm ?s)). group_valid (?rm ?s) g"
    using ok by (intro ballI groups_after_removal [of s]) (auto simp: topology_ok_def)
  ultimately show ?thesis
    using ok by (simp add: topology_ok_def distinct_map_filter)
qed

lemma delete_floor_ok:
  assumes ok: "topology_ok s" and i: "lookup_strict fl_ID fl_TenantID t f (sp_floors s) = Some i"
  shows "topology_ok (removeDoorIDsFromGroupsLocked (map dr_ID (filter (\<lambda>d. dr_FloorID d = f) (sp_doors s)))
    (s\<lparr>sp_floors := remove_at i (sp_floors s), sp_areas := filter (\<lambda>a. ar_FloorID a \<noteq> f) (sp_areas s),
       sp_doors := filter (\<lambda>d. dr_FloorID d \<noteq> f) (sp_doors s)\<rparr>))" (is "topology_ok (?rm ?s)")
proof -
  note k = lookup_strict_SomeD(1,2) [OF i]
  have d: "distinct (map fl_ID (sp_floors s))" using ok by (simp add: topology_ok_def)
  have fs: "set (sp_floors ?s) = {y \<in> set (sp_floors s). fl_ID y \<noteq> f}"
    using set_remove_distinct [OF d k(1)] k(2) by simp
  have "\<forall>y\<in>set (sp_floors ?s). floor_placed (?rm ?s) y"
    using ok fs by (auto simp: topology_ok_def floor_placed_def)
  moreover have "\<forall>a\<in>set (sp_areas ?s). area_placed (?rm ?s) a"
    using ok fs by (fastforce simp: topology_ok_def area_placed_def)
  moreover have "\<forall>y\<in>set (sp_doors ?s). door_placed (?rm ?s) y"
    using ok by (fastforce simp: topology_ok_def door_placed_def)
  moreover have "\<forall>g\<in>set (sp_doorGroups (?rm ?s)). group_valid (?rm ?s) g"
    using ok by (intro ballI groups_after_removal [of s]) (auto simp: topology_ok_def)
  ultimately show ?thesis
    using ok by (simp add: topology_ok_def distinct_map_filter distinct_map_remove_at)
qed

lemma delete_door_ok:
  assumes ok: "topology_ok s" and i: "lookup_strict dr_ID dr_TenantID t d (sp_doors s) = Some i"
  shows "topology_ok (removeDoorIDsFromGroupsLocked [d] (s\<lparr>sp_doors := remove_at i (sp_doors s)\<rparr>))"
    (is "topology_ok (?rm ?s)")
proof -
  note k = lookup_strict_SomeD(1,2) [OF i]
  have ds: "set (sp_doors ?s) = {y \<in> set (sp_doors s). dr_ID y \<noteq> d}"
    using ok set_remove_distinct [of dr_ID "sp_doors s" i] k by (simp add: topology_ok_def)
  have "\<forall>g\<in>set (sp_doorGroups (?rm ?s)). group_valid (?rm ?s) g"
    using ok ds by (intro ballI groups_after_removal [of s]) (auto simp: topology_ok_def)
  then show ?thesis
    using ok ds by (auto simp: topology_ok_def distinct_map_remove_at placed_defs(1-3))
qed

lemma topologyD:
  assumes "topology_ok s"
  shows "f \<in> set (sp_floors s) \<Longrightarrow> floor_placed s f"
    and "a \<in> set (sp_areas s) \<Longrightarrow> area_placed s a"
    and "d \<in> set (sp_doors s) \<Longrightarrow> door_placed s d"
    and "g \<in> set (sp_doorGroups s) \<Longrightarrow> group_valid s g"
  using assms by (simp_all add: topology_ok_def)

lemma group_valid_mono:
  assumes "group_valid s g"
    and "\<And>d. d \<in> set (sp_doors s) \<Longrightarrow>
      \<exists>d'\<in>set (sp_doors s'). dr_ID d' = dr_ID d \<and> dr_TenantID d' = dr_TenantID d"
  shows "group_valid s' g"
  using assms unfolding group_valid_def by metis

text \<open>Moving a floor takes its areas and doors along, moving an area its doors.\<close>

lemma move_floor_ok:
  assumes ok: "topology_ok s" and i: "lookup_strict fl_ID fl_TenantID t f (sp_floors s) = Some i"
    and t: "t \<noteq> ''''" and b: "findBuildingLocked b s = Some bld" "bd_TenantID bld = t"
  shows "topology_ok (s\<lparr>sp_floors := (sp_floors s)[i := (sp_floors s ! i)\<lparr>fl_BuildingID := b, fl_Name := n\<rparr>],
    sp_areas := map (\<lambda>a. if ar_FloorID a = f then a\<lparr>ar_BuildingID := b\<rparr> else a) (sp_areas s),
    sp_doors := map (\<lambda>d. if dr_FloorID d = f then d\<lparr>dr_BuildingID := b\<rparr> else d) (sp_doors s)\<rparr>)"
    (is "topology_ok ?s")
proof -
  let ?r = "(sp_floors s ! i)\<lparr>fl_BuildingID := b, fl_Name := n\<rparr>"
  note k = lookup_strictD [OF i t]
  have fs: "set (sp_floors ?s) = insert ?r {y \<in> set (sp_floors s). fl_ID y \<noteq> f}"
    using ok set_update_distinct [of fl_ID "sp_floors s" i ?r] k by (simp add: topology_ok_def)
  have bld: "bld \<in> set (sp_buildings s)" "bd_ID bld = b" "\<not> isBuildingArchived bld"
    using b(1) by (auto simp: findBuildingLocked_def dest: find_memberD)
  have old: "sp_floors s ! i \<in> set (sp_floors s)" using k by simp
  have uniq: "y \<in> set (sp_floors s) \<Longrightarrow> fl_ID y = f \<Longrightarrow> y = sp_floors s ! i" for y
    using ok old k by (auto simp: topology_ok_def distinct_map inj_on_def)
  have "\<forall>y\<in>set (sp_floors ?s). floor_placed ?s y"
    unfolding fs using ok bld b(2) k by (auto simp: topology_ok_def floor_placed_def)
  moreover have "\<forall>a\<in>set (sp_areas ?s). area_placed ?s a"
  proof
    fix a assume "a \<in> set (sp_areas ?s)"
    then obtain a0 where a0: "a0 \<in> set (sp_areas s)"
      "a = (if ar_FloorID a0 = f then a0\<lparr>ar_BuildingID := b\<rparr> else a0)" by auto
    from a0(1) ok obtain y where y: "y \<in> set (sp_floors s)" "fl_ID y = ar_FloorID a0"
      "fl_BuildingID y = ar_BuildingID a0" "fl_TenantID y = ar_TenantID a0"
      by (auto simp: topology_ok_def area_placed_def)
    show "area_placed ?s a"
    proof (cases "ar_FloorID a0 = f")
      case True
      then have "fl_TenantID ?r = ar_TenantID a" using y uniq [of y] a0(2) by simp
      with True a0(2) k fs show ?thesis unfolding area_placed_def by (intro bexI [of _ ?r]) simp_all
    next
      case False
      with y a0(2) fs show ?thesis unfolding area_placed_def by (intro bexI [of _ y]) simp_all
    qed
  qed
  moreover have "\<forall>y\<in>set (sp_doors ?s). door_placed ?s y"
  proof
    fix y assume "y \<in> set (sp_doors ?s)"
    then obtain d where d: "d \<in> set (sp_doors s)"
      "y = (if dr_FloorID d = f then d\<lparr>dr_BuildingID := b\<rparr> else d)" by auto
    from topologyD(3) [OF ok d(1)] obtain a where a: "a \<in> set (sp_areas s)" "ar_ID a = dr_AreaID d"
      "ar_FloorID a = dr_FloorID d" "ar_BuildingID a = dr_BuildingID d" "ar_TenantID a = dr_TenantID d"
      by (auto simp: door_placed_def)
    let ?a = "if ar_FloorID a = f then a\<lparr>ar_BuildingID := b\<rparr> else a"
    have "?a \<in> set (sp_areas ?s)" using a(1) by auto
    with a d(2) show "door_placed ?s y" unfolding door_placed_def by (intro bexI [of _ ?a]) simp_all
  qed
  moreover have "group_valid ?s g" if "g \<in> set (sp_doorGroups s)" for g
  proof (rule group_valid_mono [OF topologyD(4) [OF ok that]])
    fix d assume "d \<in> set (sp_doors s)"
    then have "(if dr_FloorID d = f then d\<lparr>dr_BuildingID := b\<rparr> else d) \<in> set (sp_doors ?s)" by auto
    then show "\<exists>d'\<in>set (sp_doors ?s). dr_ID d' = dr_ID d \<and> dr_TenantID d' = dr_TenantID d"
      by (rule bexI [rotated]) simp
  qed
  moreover have "ar_ID \<circ> (\<lambda>a :: area. if ar_FloorID a = f then a\<lparr>ar_BuildingID := b\<rparr> else a) = ar_ID"
    "dr_ID \<circ> (\<lambda>d :: door. if dr_FloorID d = f then d\<lparr>dr_BuildingID := b\<rparr> else d) = dr_ID"
    by (simp_all add: fun_eq_iff)
  ultimately show ?thesis
    using ok k by (simp add: topology_ok_def map_update_same)
qed

lemma move_area_ok:
  assumes ok: "topology_ok s" and i: "lookup_strict ar_ID ar_TenantID t a (sp_areas s) = Some i"
    and t: "t \<noteq> ''''" and f: "findFloorLocked f s = Some fl" "fl_TenantID fl = t" "fl_BuildingID fl = b"
  shows "topology_ok (s\<lparr>sp_areas := (sp_areas s)[i := (sp_areas s ! i)
      \<lparr>ar_BuildingID := b, ar_FloorID := f, ar_Name := n\<rparr>],
    sp_doors := map (\<lambda>d. if dr_AreaID d = a then d\<lparr>dr_BuildingID := b, dr_FloorID := f\<rparr> else d) (sp_doors s)\<rparr>)"
    (is "topology_ok ?s")
proof -
  let ?r = "(sp_areas s ! i)\<lparr>ar_BuildingID := b, ar_FloorID := f, ar_Name := n\<rparr>"
  note k = lookup_strictD [OF i t]
  have as: "set (sp_areas ?s) = insert ?r {y \<in> set (sp_areas s). ar_ID y \<noteq> a}"
    using ok set_update_distinct [of ar_ID "sp_areas s" i ?r] k by (simp add: topology_ok_def)
  have fl: "fl \<in> set (sp_floors s)" "fl_ID fl = f"
    using f(1) by (auto simp: findFloorLocked_def dest: find_memberD)
  have old: "sp_areas s ! i \<in> set (sp_areas s)" using k by simp
  have uniq: "y \<in> set (sp_areas s) \<Longrightarrow> ar_ID y = a \<Longrightarrow> y = sp_areas s ! i" for y
    using ok old k by (auto simp: topology_ok_def distinct_map inj_on_def)
  have "\<forall>y\<in>set (sp_areas ?s). area_placed ?s y"
    unfolding as using ok fl f k by (auto simp: topology_ok_def area_placed_def)
  moreover have "\<forall>d\<in>set (sp_doors ?s). door_placed ?s d"
  proof
    fix d assume "d \<in> set (sp_doors ?s)"
    then obtain d0 where d0: "d0 \<in> set (sp_doors s)"
      "d = (if dr_AreaID d0 = a then d0\<lparr>dr_BuildingID := b, dr_FloorID := f\<rparr> else d0)" by auto
    from d0(1) ok obtain y where y: "y \<in> set (sp_areas s)" "ar_ID y = dr_AreaID d0"
      "ar_FloorID y = dr_FloorID d0" "ar_BuildingID y = dr_BuildingID d0" "ar_TenantID y = dr_TenantID d0"
      by (auto simp: topology_ok_def door_placed_def)
    show "door_placed ?s d"
    proof (cases "dr_AreaID d0 = a")
      case True
      then have "ar_TenantID ?r = dr_TenantID d" using y uniq [of y] d0(2) by simp
      with True d0(2) k as show ?thesis unfolding door_placed_def by (intro bexI [of _ ?r]) simp_all
    next
      case False
      with y d0(2) as show ?thesis unfolding door_placed_def by (intro bexI [of _ y]) simp_all
    qed
  qed
  moreover have "\<forall>y\<in>set (sp_floors s). floor_placed ?s y"
    using topologyD(1) [OF ok] by (simp add: floor_placed_def)
  moreover have "group_valid ?s g" if "g \<in> set (sp_doorGroups s)" for g
  proof (rule group_valid_mono [OF topologyD(4) [OF ok that]])
    fix d assume "d \<in> set (sp_doors s)"
    then have "(if dr_AreaID d = a then d\<lparr>dr_BuildingID := b, dr_FloorID := f\<rparr> else d) \<in> set (sp_doors ?s)" by auto
    then show "\<exists>d'\<in>set (sp_doors ?s). dr_ID d' = dr_ID d \<and> dr_TenantID d' = dr_TenantID d"
      by (rule bexI [rotated]) simp
  qed
  moreover have "dr_ID \<circ> (\<lambda>d :: door. if dr_AreaID d = a then d\<lparr>dr_BuildingID := b, dr_FloorID := f\<rparr> else d) = dr_ID"
    by (simp add: fun_eq_iff)
  ultimately show ?thesis
    using ok k by (simp add: topology_ok_def map_update_same)
qed

text \<open>When the floor or area stays where it is, the code skips the loops: they would change
  nothing.\<close>

lemma same_floor_noop:
  assumes "topology_ok s" and "lookup_strict fl_ID fl_TenantID t f (sp_floors s) = Some i"
    and "fl_BuildingID (sp_floors s ! i) = b"
  shows "map (\<lambda>a. if ar_FloorID a = f then a\<lparr>ar_BuildingID := b\<rparr> else a) (sp_areas s) = sp_areas s"
    and "map (\<lambda>d. if dr_FloorID d = f then d\<lparr>dr_BuildingID := b\<rparr> else d) (sp_doors s) = sp_doors s"
proof -
  note k = lookup_strict_SomeD(1,2) [OF assms(2)]
  have uniq: "y \<in> set (sp_floors s) \<Longrightarrow> fl_ID y = f \<Longrightarrow> y = sp_floors s ! i" for y
    using assms(1) k by (auto simp: topology_ok_def distinct_map inj_on_def)
  have area: "a \<in> set (sp_areas s) \<Longrightarrow> ar_FloorID a = f \<Longrightarrow> ar_BuildingID a = b" for a
    using assms(1,3) uniq by (fastforce simp: topology_ok_def area_placed_def)
  moreover have "d \<in> set (sp_doors s) \<Longrightarrow> dr_FloorID d = f \<Longrightarrow> dr_BuildingID d = b" for d
    using assms(1) area by (fastforce simp: topology_ok_def door_placed_def)
  ultimately show "map (\<lambda>a. if ar_FloorID a = f then a\<lparr>ar_BuildingID := b\<rparr> else a) (sp_areas s) = sp_areas s"
    and "map (\<lambda>d. if dr_FloorID d = f then d\<lparr>dr_BuildingID := b\<rparr> else d) (sp_doors s) = sp_doors s"
    by (auto intro!: map_idI)
qed

lemma same_area_noop:
  assumes "topology_ok s" and "lookup_strict ar_ID ar_TenantID t a (sp_areas s) = Some i"
    and "ar_BuildingID (sp_areas s ! i) = b" and "ar_FloorID (sp_areas s ! i) = f"
  shows "map (\<lambda>d. if dr_AreaID d = a then d\<lparr>dr_BuildingID := b, dr_FloorID := f\<rparr> else d) (sp_doors s) = sp_doors s"
proof -
  note k = lookup_strict_SomeD(1,2) [OF assms(2)]
  have uniq: "y \<in> set (sp_areas s) \<Longrightarrow> ar_ID y = a \<Longrightarrow> y = sp_areas s ! i" for y
    using assms(1) k by (auto simp: topology_ok_def distinct_map inj_on_def)
  have "d \<in> set (sp_doors s) \<Longrightarrow> dr_AreaID d = a \<Longrightarrow> dr_BuildingID d = b \<and> dr_FloorID d = f" for d
    using assms(1,3,4) uniq by (fastforce simp: topology_ok_def door_placed_def)
  then show ?thesis by (auto intro!: map_idI)
qed

lemma update_building_ok:
  assumes ok: "topology_ok s" and i: "live_building t b s = Some i"
  shows "topology_ok (s\<lparr>sp_buildings := (sp_buildings s)[i := (sp_buildings s ! i)
    \<lparr>bd_Name := n, bd_Address := x, bd_Region := y\<rparr>]\<rparr>)" (is "topology_ok ?s")
proof -
  let ?r = "(sp_buildings s ! i)\<lparr>bd_Name := n, bd_Address := x, bd_Region := y\<rparr>"
  from i have k: "i < length (sp_buildings s)"
    by (auto simp: live_building_def dest: lookup_strict_SomeD split: option.splits if_splits)
  have bs: "set (sp_buildings ?s) = insert ?r {z \<in> set (sp_buildings s). bd_ID z \<noteq> bd_ID ?r}"
    using ok set_update_distinct [of bd_ID "sp_buildings s" i ?r] k by (simp add: topology_ok_def)
  have uniq: "z \<in> set (sp_buildings s) \<Longrightarrow> bd_ID z = bd_ID ?r \<Longrightarrow> z = sp_buildings s ! i" for z
    using ok k by (auto simp: topology_ok_def distinct_map inj_on_def)
  have "floor_placed ?s f" if f: "f \<in> set (sp_floors s)" for f
  proof -
    from f ok obtain z where z: "z \<in> set (sp_buildings s)" "bd_ID z = fl_BuildingID f"
      "bd_TenantID z = fl_TenantID f" "\<not> isBuildingArchived z"
      by (auto simp: topology_ok_def floor_placed_def)
    show ?thesis
    proof (cases "bd_ID z = bd_ID ?r")
      case True
      then have "z = sp_buildings s ! i" using z(1) uniq by blast
      with z have "bd_ID ?r = fl_BuildingID f" "bd_TenantID ?r = fl_TenantID f" "\<not> isBuildingArchived ?r"
        by (simp_all add: isBuildingArchived_def)
      with bs show ?thesis unfolding floor_placed_def by blast
    next
      case False
      with z bs show ?thesis unfolding floor_placed_def by (intro bexI [of _ z]) simp_all
    qed
  qed
  then show ?thesis
    using ok k by (auto simp: topology_ok_def map_update_same placed_defs(2-4))
qed

lemma update_door_ok:
  assumes ok: "topology_ok s" and i: "lookup_strict dr_ID dr_TenantID t d (sp_doors s) = Some i" and t: "t \<noteq> ''''"
    and p: "door_place t b f a s = None"
  shows "topology_ok (s\<lparr>sp_doors := (sp_doors s)[i := (sp_doors s ! i)\<lparr>dr_BuildingID := b, dr_FloorID := f,
    dr_AreaID := a, dr_Name := n, dr_GatewayID := g, dr_Kind := k, dr_Status := x\<rparr>]\<rparr>)" (is "topology_ok ?s")
proof -
  let ?r = "(sp_doors s ! i)\<lparr>dr_BuildingID := b, dr_FloorID := f, dr_AreaID := a, dr_Name := n,
    dr_GatewayID := g, dr_Kind := k, dr_Status := x\<rparr>"
  note k = lookup_strictD [OF i t]
  have ds: "set (sp_doors ?s) = insert ?r {y \<in> set (sp_doors s). dr_ID y \<noteq> d}"
    using ok set_update_distinct [of dr_ID "sp_doors s" i ?r] k by (simp add: topology_ok_def)
  have uniq: "y \<in> set (sp_doors s) \<Longrightarrow> dr_ID y = d \<Longrightarrow> y = sp_doors s ! i" for y
    using ok k by (auto simp: topology_ok_def distinct_map inj_on_def)
  have "\<forall>y\<in>set (sp_doors ?s). door_placed ?s y"
    unfolding ds using ok door_place_None [OF p] k by (auto simp: topology_ok_def door_placed_def)
  moreover have "group_valid ?s g" if g: "g \<in> set (sp_doorGroups s)" for g
    unfolding group_valid_def
  proof
    fix j assume "j \<in> set (dg_DoorIDs g)"
    with topologyD(4) [OF ok g] obtain y where y: "y \<in> set (sp_doors s)" "dr_ID y = j"
      "dr_TenantID y = dg_TenantID g"
      by (auto simp: group_valid_def)
    show "\<exists>z\<in>set (sp_doors ?s). dr_ID z = j \<and> dr_TenantID z = dg_TenantID g"
    proof (cases "j = d")
      case True
      with y uniq k ds show ?thesis by (intro bexI [of _ ?r]) auto
    next
      case False
      with y ds show ?thesis by (intro bexI [of _ y]) simp_all
    qed
  qed
  ultimately show ?thesis
    using ok k by (simp add: topology_ok_def map_update_same placed_defs(1,2))
qed

lemma update_group_ok:
  assumes ok: "topology_ok s" and k: "i < length (sp_doorGroups s)" and v: "group_valid s r"
  shows "topology_ok (s\<lparr>sp_doorGroups := (sp_doorGroups s)[i := r]\<rparr>)"
  using assms set_update_subset_insert [of "sp_doorGroups s" i r]
  by (auto simp: topology_ok_def placed_defs)

section \<open>Steps\<close>

text \<open>The identifier an operation draws is new: what eight random bytes give the code in
  practice.\<close>

definition fresh :: "string \<Rightarrow> string list \<Rightarrow> env \<Rightarrow> bool" where
  "fresh pre ids e \<longleftrightarrow> (case env_rand e of None \<Rightarrow> True | Some h \<Rightarrow> pre @ h \<notin> set ids)"

text \<open>Floors, areas, doors and door groups are created in two locked regions: the checks run under
  the read lock and build the record, the insertion takes the write lock afterwards.  A creation
  between the two is pending, and anything may happen in between.\<close>

datatype creation = NewFloor floor | NewArea area | NewDoor door | NewGroup doorGroup

fun finish_creation :: "env \<Rightarrow> creation \<Rightarrow> spaceService \<Rightarrow> spaceService" where
  "finish_creation e (NewFloor f) s = snd (insert_floor e f s)"
| "finish_creation e (NewArea a) s = snd (insert_area e a s)"
| "finish_creation e (NewDoor d) s = snd (insert_door e d s)"
| "finish_creation e (NewGroup g) s = snd (insert_group e g s)"

definition new_floors :: "creation list \<Rightarrow> floor list" where
  "new_floors cs = concat (map (\<lambda>c. case c of NewFloor f \<Rightarrow> [f] | _ \<Rightarrow> []) cs)"

definition new_areas :: "creation list \<Rightarrow> area list" where
  "new_areas cs = concat (map (\<lambda>c. case c of NewArea a \<Rightarrow> [a] | _ \<Rightarrow> []) cs)"

definition new_doors :: "creation list \<Rightarrow> door list" where
  "new_doors cs = concat (map (\<lambda>c. case c of NewDoor d \<Rightarrow> [d] | _ \<Rightarrow> []) cs)"

text \<open>The records a pending creation was checked against are still there.\<close>

fun creation_placed :: "spaceService \<Rightarrow> creation \<Rightarrow> bool" where
  "creation_placed s (NewFloor f) = floor_placed s f"
| "creation_placed s (NewArea a) = area_placed s a"
| "creation_placed s (NewDoor d) = door_placed s d"
| "creation_placed s (NewGroup g) = group_valid s g"

definition undisturbed :: "creation list \<Rightarrow> spaceService \<Rightarrow> bool" where
  "undisturbed cs s \<longleftrightarrow> (\<forall>c\<in>set cs. creation_placed s c)"

text \<open>The moves and deletions carry the one restriction: they do not take the place of a creation
  that is pending.  Insertions, in any order, and all other updates need none.\<close>

inductive space_step :: "creation list \<times> spaceService \<Rightarrow> creation list \<times> spaceService \<Rightarrow> bool" where
  begin_floor: "check_floor e t b n s = Inr f \<Longrightarrow>
     fresh ''floor_'' (map fl_ID (new_floors cs @ sp_floors s)) e \<Longrightarrow>
     space_step (cs, s) (NewFloor f # cs, s)"
| begin_area: "check_area e t b fl n s = Inr a \<Longrightarrow>
     fresh ''area_'' (map ar_ID (new_areas cs @ sp_areas s)) e \<Longrightarrow>
     space_step (cs, s) (NewArea a # cs, s)"
| begin_door: "check_door e t inp s = Inr d \<Longrightarrow>
     fresh ''door_'' (map dr_ID (new_doors cs @ sp_doors s)) e \<Longrightarrow>
     space_step (cs, s) (NewDoor d # cs, s)"
| begin_group: "check_group e t n ds s = Inr g \<Longrightarrow> space_step (cs, s) (NewGroup g # cs, s)"
| finish: "space_step (cs @ c # cs', s) (cs @ cs', finish_creation e c s)"
| create_building: "fresh ''building_'' (map bd_ID (sp_buildings s)) e \<Longrightarrow>
     space_step (cs, s) (cs, snd (CreateBuilding e t n a r s))"
| update_building: "space_step (cs, s) (cs, snd (UpdateBuilding e t b n a r s))"
| update_door: "space_step (cs, s) (cs, snd (UpdateDoor e t d inp s))"
| add_door_to_group: "space_step (cs, s) (cs, snd (AddDoorToGroup e t g d s))"
| remove_door_from_group: "space_step (cs, s) (cs, snd (RemoveDoorFromGroup e t g d s))"
| update_floor: "undisturbed cs (snd (UpdateFloor e t f b n s)) \<Longrightarrow>
     space_step (cs, s) (cs, snd (UpdateFloor e t f b n s))"
| update_area: "undisturbed cs (snd (UpdateArea e t a b f n s)) \<Longrightarrow>
     space_step (cs, s) (cs, snd (UpdateArea e t a b f n s))"
| delete_building: "undisturbed cs (snd (DeleteBuilding e t b s)) \<Longrightarrow>
     space_step (cs, s) (cs, snd (DeleteBuilding e t b s))"
| delete_floor: "undisturbed cs (snd (DeleteFloor e t f s)) \<Longrightarrow>
     space_step (cs, s) (cs, snd (DeleteFloor e t f s))"
| delete_door: "undisturbed cs (snd (DeleteDoor e t d s)) \<Longrightarrow>
     space_step (cs, s) (cs, snd (DeleteDoor e t d s))"

lemma fresh_entityID:
  "fresh pre ids e \<Longrightarrow> entityID e pre = Inr i \<Longrightarrow> i \<notin> set ids"
  by (auto simp: fresh_def entityID_def split: option.splits)

lemma CreateBuilding_ok:
  assumes "topology_ok s" and "fresh ''building_'' (map bd_ID (sp_buildings s)) e"
  shows "topology_ok (snd (CreateBuilding e t n a r s))"
  using assms fresh_entityID [OF assms(2)]
  by (auto simp: CreateBuilding_def Let_def new_building_def intro!: add_building split: sum.splits)

lemma check_ids:
  "check_floor e t b n s = Inr fl \<Longrightarrow> entityID e ''floor_'' = Inr (fl_ID fl)"
  "check_area e t b f n s = Inr ar \<Longrightarrow> entityID e ''area_'' = Inr (ar_ID ar)"
  "check_door e t inp s = Inr dr \<Longrightarrow> entityID e ''door_'' = Inr (dr_ID dr)"
  by (auto simp: check_floor_def check_area_def check_door_def Let_def
      split: if_splits option.splits sum.splits)

lemma UpdateBuilding_ok: "topology_ok s \<Longrightarrow> topology_ok (snd (UpdateBuilding e t b n a r s))"
  by (auto simp: UpdateBuilding_def Let_def intro!: update_building_ok split: option.splits)

lemma DeleteBuilding_ok: "topology_ok s \<Longrightarrow> topology_ok (snd (DeleteBuilding e t b s))"
  unfolding DeleteBuilding_def Let_def removed_if
  by (auto intro!: delete_building_ok split: option.splits)

lemma DeleteFloor_ok: "topology_ok s \<Longrightarrow> topology_ok (snd (DeleteFloor e t f s))"
  unfolding DeleteFloor_def Let_def removed_if
  by (auto intro!: delete_floor_ok split: option.splits)

lemma DeleteDoor_ok: "topology_ok s \<Longrightarrow> topology_ok (snd (DeleteDoor e t d s))"
  by (auto simp: DeleteDoor_def Let_def intro!: delete_door_ok split: option.splits)

lemma UpdateDoor_ok: "topology_ok s \<Longrightarrow> topology_ok (snd (UpdateDoor e t d inp s))"
  by (auto simp: UpdateDoor_def Let_def intro!: update_door_ok split: option.splits sum.splits)

lemma group_at:
  assumes "topology_ok s" and "lookup_strict dg_ID dg_TenantID t g (sp_doorGroups s) = Some i" and "t \<noteq> ''''"
  shows "i < length (sp_doorGroups s)" and "group_valid s (sp_doorGroups s ! i)"
    and "dg_TenantID (sp_doorGroups s ! i) = t"
  using lookup_strictD [OF assms(2,3)] topologyD(4) [OF assms(1)] by auto

lemma AddDoorToGroup_ok:
  assumes ok: "topology_ok s"
  shows "topology_ok (snd (AddDoorToGroup e t g d s))"
proof -
  have "group_valid s (x\<lparr>dg_DoorIDs := dg_DoorIDs x @ [i]\<rparr>)"
    if "group_valid s x" "findDoorLocked i s = Some dr" "dr_TenantID dr = dg_TenantID x" for x :: doorGroup and i dr
    using that by (auto simp: group_valid_def findDoorLocked_def dest!: find_memberD)
  with ok show ?thesis
    by (auto simp: AddDoorToGroup_def Let_def group_at intro!: update_group_ok split: option.splits)
qed

lemma RemoveDoorFromGroup_ok:
  assumes ok: "topology_ok s"
  shows "topology_ok (snd (RemoveDoorFromGroup e t g d s))"
proof -
  have "group_valid s (x\<lparr>dg_DoorIDs := filter (\<lambda>y. y \<noteq> i) (dg_DoorIDs x)\<rparr>)"
    if "group_valid s x" for x :: doorGroup and i
    using that by (auto simp: group_valid_def)
  with ok show ?thesis
    by (auto simp: RemoveDoorFromGroup_def Let_def group_at intro!: update_group_ok split: option.splits)
qed

lemma UpdateFloor_ok:
  assumes ok: "topology_ok s"
  shows "topology_ok (snd (UpdateFloor e t f b n s))"
proof -
  have "topology_ok (s\<lparr>sp_floors := (sp_floors s)[i := (sp_floors s ! i)
      \<lparr>fl_BuildingID := z, fl_Name := x\<rparr>]\<rparr>)"
    if "lookup_strict fl_ID fl_TenantID u y (sp_floors s) = Some i" "u \<noteq> ''''"
      "findBuildingLocked z s = Some bld" "bd_TenantID bld = u" "fl_BuildingID (sp_floors s ! i) = z" for u y i z bld x
    using move_floor_ok [OF ok that(1-4), of x] same_floor_noop [OF ok that(1,5)] by simp
  with ok show ?thesis
    using move_floor_ok [OF ok]
    by (auto simp: UpdateFloor_def Let_def split: option.splits)
qed

lemma UpdateArea_ok:
  assumes ok: "topology_ok s"
  shows "topology_ok (snd (UpdateArea e t a b f n s))"
proof -
  have "topology_ok (s\<lparr>sp_areas := (sp_areas s)[i := (sp_areas s ! i)
      \<lparr>ar_BuildingID := z, ar_FloorID := w, ar_Name := x\<rparr>]\<rparr>)"
    if "lookup_strict ar_ID ar_TenantID u y (sp_areas s) = Some i" "u \<noteq> ''''"
      "findFloorLocked w s = Some fl" "fl_TenantID fl = u" "fl_BuildingID fl = z"
      "ar_BuildingID (sp_areas s ! i) = z" "ar_FloorID (sp_areas s ! i) = w" for u y i fl x z w
    using move_area_ok [OF ok that(1-5), of x] same_area_noop [OF ok that(1,6,7)] by simp
  with ok show ?thesis
    using move_area_ok [OF ok]
    by (auto simp: UpdateArea_def Let_def split: option.splits)
qed

text \<open>What holds while creations are pending: the topology is consistent, each pending record still
  has its place, and the identifiers drawn are told apart from each other and from the stored
  ones.\<close>

definition pending_ok :: "creation list \<times> spaceService \<Rightarrow> bool" where
  "pending_ok = (\<lambda>(cs, s). topology_ok s \<and> undisturbed cs s \<and>
     distinct (map fl_ID (new_floors cs @ sp_floors s)) \<and>
     distinct (map ar_ID (new_areas cs @ sp_areas s)) \<and>
     distinct (map dr_ID (new_doors cs @ sp_doors s)))"

lemmas new_defs = new_floors_def new_areas_def new_doors_def

text \<open>No operation but the insertions brings an identifier in.\<close>

definition ids_within :: "spaceService \<Rightarrow> spaceService \<Rightarrow> bool" where
  "ids_within s s' \<longleftrightarrow> fl_ID ` set (sp_floors s') \<subseteq> fl_ID ` set (sp_floors s) \<and>
     ar_ID ` set (sp_areas s') \<subseteq> ar_ID ` set (sp_areas s) \<and>
     dr_ID ` set (sp_doors s') \<subseteq> dr_ID ` set (sp_doors s)"

lemma ids_of_update: "k (xs ! i) = k r \<Longrightarrow> k ` set (xs[i := r]) = k ` set xs"
  by (metis map_update_same list.set_map)

lemma ids_within_ops:
  "ids_within s (snd (CreateBuilding e t n a r s))"
  "ids_within s (snd (UpdateBuilding e t b n a r s))"
  "ids_within s (snd (UpdateDoor e t d inp s))"
  "ids_within s (snd (AddDoorToGroup e t g d s))"
  "ids_within s (snd (RemoveDoorFromGroup e t g d s))"
  "ids_within s (snd (UpdateFloor e t f b n s))"
  "ids_within s (snd (UpdateArea e t x b f n s))"
  "ids_within s (snd (DeleteBuilding e t b s))"
  "ids_within s (snd (DeleteFloor e t f s))"
  "ids_within s (snd (DeleteDoor e t d s))"
  unfolding ids_within_def
  by (auto simp: CreateBuilding_def UpdateBuilding_def UpdateDoor_def AddDoorToGroup_def RemoveDoorFromGroup_def
      UpdateFloor_def UpdateArea_def DeleteBuilding_def DeleteFloor_def DeleteDoor_def Let_def removed_if
      ids_of_update image_image split: option.splits sum.splits dest!: set_remove_at [THEN subsetD])

text \<open>The operations that are free to run between the two halves leave every place.\<close>

lemma undisturbed_CreateBuilding:
  assumes "undisturbed cs s"
  shows "undisturbed cs (snd (CreateBuilding e t n a r s))"
  unfolding undisturbed_def
proof
  fix c assume "c \<in> set cs"
  with assms have "creation_placed s c" by (simp add: undisturbed_def)
  then show "creation_placed (snd (CreateBuilding e t n a r s)) c"
    by (cases c) (auto simp: CreateBuilding_def Let_def placed_defs split: sum.splits)
qed

lemma undisturbed_UpdateBuilding:
  assumes "pending_ok (cs, s)"
  shows "undisturbed cs (snd (UpdateBuilding e t b n a r s))"
proof -
  have "floor_placed (snd (UpdateBuilding e t b n a r s)) f" if f: "NewFloor f \<in> set cs" for f
  proof -
    from f have "f \<in> set (new_floors cs)" by (force simp: new_floors_def)
    with assms f have "topology_ok (s\<lparr>sp_floors := f # sp_floors s\<rparr>)"
      by (intro add_floor) (auto simp: pending_ok_def undisturbed_def)
    from UpdateBuilding_ok [OF this, of e t b n a r] show ?thesis
      by (auto simp: UpdateBuilding_def Let_def live_building_def topology_ok_def floor_placed_def
          split: option.splits if_splits)
  qed
  moreover have "creation_placed s c" if "c \<in> set cs" for c
    using assms that by (simp add: pending_ok_def undisturbed_def)
  moreover have "creation_placed s c \<Longrightarrow> \<forall>f. c \<noteq> NewFloor f \<Longrightarrow>
      creation_placed (snd (UpdateBuilding e t b n a r s)) c" for c
    by (cases c) (auto simp: UpdateBuilding_def Let_def placed_defs(2-4) split: option.splits)
  ultimately show ?thesis unfolding undisturbed_def by (metis creation_placed.simps(1))
qed

lemma UpdateDoor_ignores_groups:
  "sp_doors (snd (UpdateDoor e t d inp (s\<lparr>sp_doorGroups := gs\<rparr>))) = sp_doors (snd (UpdateDoor e t d inp s))"
proof -
  have "door_place u b f a (s\<lparr>sp_doorGroups := gs\<rparr>) = door_place u b f a s" for u b f a
    by (simp add: door_place_def findBuildingLocked_def findFloorLocked_def findAreaLocked_def cong: option.case_cong)
  then show ?thesis by (simp add: UpdateDoor_def Let_def split: option.split sum.split prod.split)
qed

lemma undisturbed_UpdateDoor:
  assumes "pending_ok (cs, s)"
  shows "undisturbed cs (snd (UpdateDoor e t d inp s))"
proof -
  have "group_valid (snd (UpdateDoor e t d inp s)) g" if g: "NewGroup g \<in> set cs" for g
  proof -
    from assms g have "topology_ok (s\<lparr>sp_doorGroups := g # sp_doorGroups s\<rparr>)"
      by (intro add_group) (auto simp: pending_ok_def undisturbed_def)
    from UpdateDoor_ok [OF this, of e t d inp]
    have "group_valid (snd (UpdateDoor e t d inp (s\<lparr>sp_doorGroups := g # sp_doorGroups s\<rparr>))) g"
      by (rule topologyD(4)) (simp add: UpdateDoor_def Let_def split: option.split sum.split prod.split)
    then show ?thesis by (simp add: group_valid_def UpdateDoor_ignores_groups)
  qed
  moreover have "creation_placed s c" if "c \<in> set cs" for c
    using assms that by (simp add: pending_ok_def undisturbed_def)
  moreover have "creation_placed s c \<Longrightarrow> \<forall>g. c \<noteq> NewGroup g \<Longrightarrow>
      creation_placed (snd (UpdateDoor e t d inp s)) c" for c
    by (cases c) (auto simp: UpdateDoor_def Let_def placed_defs(1-3) split: option.splits sum.splits)
  ultimately show ?thesis unfolding undisturbed_def by (metis creation_placed.simps(4))
qed

lemma undisturbed_groups:
  assumes "undisturbed cs s" and "sp_buildings s' = sp_buildings s" and "sp_floors s' = sp_floors s"
    and "sp_areas s' = sp_areas s" and "sp_doors s' = sp_doors s"
  shows "undisturbed cs s'"
  unfolding undisturbed_def
proof
  fix c assume "c \<in> set cs"
  with assms(1) have "creation_placed s c" by (simp add: undisturbed_def)
  then show "creation_placed s' c" by (cases c) (simp_all add: placed_defs assms)
qed

lemma pending_ok_op:
  assumes "pending_ok (cs, s)" and "topology_ok s'" and "ids_within s s'" and "undisturbed cs s'"
  shows "pending_ok (cs, s')"
proof -
  have d: "distinct (map k (ns @ xs'))"
    if "distinct (map k (ns @ xs))" "distinct (map k xs')" "k ` set xs' \<subseteq> k ` set xs"
    for k :: "'a \<Rightarrow> string" and ns xs xs'
    using that by auto
  from assms(1,2) have "distinct (map fl_ID (new_floors cs @ sp_floors s))" "distinct (map fl_ID (sp_floors s'))"
    "distinct (map ar_ID (new_areas cs @ sp_areas s))" "distinct (map ar_ID (sp_areas s'))"
    "distinct (map dr_ID (new_doors cs @ sp_doors s))" "distinct (map dr_ID (sp_doors s'))"
    by (simp_all add: pending_ok_def topology_ok_def)
  with assms(3) have "distinct (map fl_ID (new_floors cs @ sp_floors s'))"
    "distinct (map ar_ID (new_areas cs @ sp_areas s'))" "distinct (map dr_ID (new_doors cs @ sp_doors s'))"
    unfolding ids_within_def by (blast intro: d)+
  with assms(2,4) show ?thesis unfolding pending_ok_def by simp
qed

lemma free_ops_ok:
  assumes "pending_ok (cs, s)"
  shows "fresh ''building_'' (map bd_ID (sp_buildings s)) e \<Longrightarrow>
      pending_ok (cs, snd (CreateBuilding e t n a r s))"
    and "pending_ok (cs, snd (UpdateBuilding e t b n a r s))"
    and "pending_ok (cs, snd (UpdateDoor e t d inp s))"
    and "pending_ok (cs, snd (AddDoorToGroup e t g d s))"
    and "pending_ok (cs, snd (RemoveDoorFromGroup e t g d s))"
proof -
  from assms have ok: "topology_ok s" and u: "undisturbed cs s" by (simp_all add: pending_ok_def)
  note op = pending_ok_op [OF assms]
  show "fresh ''building_'' (map bd_ID (sp_buildings s)) e \<Longrightarrow>
      pending_ok (cs, snd (CreateBuilding e t n a r s))"
    by (rule op [OF CreateBuilding_ok [OF ok] ids_within_ops(1) undisturbed_CreateBuilding [OF u]])
  show "pending_ok (cs, snd (UpdateBuilding e t b n a r s))"
    by (rule op [OF UpdateBuilding_ok [OF ok] ids_within_ops(2) undisturbed_UpdateBuilding [OF assms]])
  show "pending_ok (cs, snd (UpdateDoor e t d inp s))"
    by (rule op [OF UpdateDoor_ok [OF ok] ids_within_ops(3) undisturbed_UpdateDoor [OF assms]])
  show "pending_ok (cs, snd (AddDoorToGroup e t g d s))"
    by (rule op [OF AddDoorToGroup_ok [OF ok] ids_within_ops(4) undisturbed_groups [OF u]])
      (simp_all add: AddDoorToGroup_def Let_def split: option.split)
  show "pending_ok (cs, snd (RemoveDoorFromGroup e t g d s))"
    by (rule op [OF RemoveDoorFromGroup_ok [OF ok] ids_within_ops(5) undisturbed_groups [OF u]])
      (simp_all add: RemoveDoorFromGroup_def Let_def split: option.split)
qed

lemma placed_ops_ok:
  assumes "pending_ok (cs, s)"
  shows "undisturbed cs (snd (UpdateFloor e t f b n s)) \<Longrightarrow> pending_ok (cs, snd (UpdateFloor e t f b n s))"
    and "undisturbed cs (snd (UpdateArea e t a b f n s)) \<Longrightarrow> pending_ok (cs, snd (UpdateArea e t a b f n s))"
    and "undisturbed cs (snd (DeleteBuilding e t b s)) \<Longrightarrow> pending_ok (cs, snd (DeleteBuilding e t b s))"
    and "undisturbed cs (snd (DeleteFloor e t f s)) \<Longrightarrow> pending_ok (cs, snd (DeleteFloor e t f s))"
    and "undisturbed cs (snd (DeleteDoor e t d s)) \<Longrightarrow> pending_ok (cs, snd (DeleteDoor e t d s))"
proof -
  from assms have ok: "topology_ok s" by (simp add: pending_ok_def)
  note op = pending_ok_op [OF assms]
  show "undisturbed cs (snd (UpdateFloor e t f b n s)) \<Longrightarrow> pending_ok (cs, snd (UpdateFloor e t f b n s))"
    by (rule op [OF UpdateFloor_ok [OF ok] ids_within_ops(6)])
  show "undisturbed cs (snd (UpdateArea e t a b f n s)) \<Longrightarrow> pending_ok (cs, snd (UpdateArea e t a b f n s))"
    by (rule op [OF UpdateArea_ok [OF ok] ids_within_ops(7)])
  show "undisturbed cs (snd (DeleteBuilding e t b s)) \<Longrightarrow> pending_ok (cs, snd (DeleteBuilding e t b s))"
    by (rule op [OF DeleteBuilding_ok [OF ok] ids_within_ops(8)])
  show "undisturbed cs (snd (DeleteFloor e t f s)) \<Longrightarrow> pending_ok (cs, snd (DeleteFloor e t f s))"
    by (rule op [OF DeleteFloor_ok [OF ok] ids_within_ops(9)])
  show "undisturbed cs (snd (DeleteDoor e t d s)) \<Longrightarrow> pending_ok (cs, snd (DeleteDoor e t d s))"
    by (rule op [OF DeleteDoor_ok [OF ok] ids_within_ops(10)])
qed

lemma finish_creation_ok:
  assumes "pending_ok (cs @ c # cs', s)"
  shows "pending_ok (cs @ cs', finish_creation e c s)"
proof -
  have u: "undisturbed (cs @ cs') s" and p: "creation_placed s c" and ok: "topology_ok s"
    using assms by (auto simp: pending_ok_def undisturbed_def)
  have "undisturbed (cs @ cs') (finish_creation e c s)"
    unfolding undisturbed_def
  proof
    fix x assume "x \<in> set (cs @ cs')"
    with u have "creation_placed s x" unfolding undisturbed_def by blast
    then show "creation_placed (finish_creation e c s) x"
      by (cases c; cases x) (auto simp: insert_floor_def insert_area_def insert_door_def insert_group_def placed_defs)
  qed
  moreover have "topology_ok (finish_creation e c s)"
    using assms p ok
    by (cases c) (auto simp: insert_floor_def insert_area_def insert_door_def insert_group_def
        pending_ok_def new_defs intro!: add_floor add_area add_door add_group)
  ultimately show ?thesis
    using assms by (cases c) (auto simp: pending_ok_def new_defs insert_floor_def insert_area_def
        insert_door_def insert_group_def)
qed

lemma space_step_ok: "space_step x y \<Longrightarrow> pending_ok x \<Longrightarrow> pending_ok y"
proof (induction rule: space_step.induct)
  case (begin_floor e t b n s f cs)
  show ?case
    using begin_floor(3) fresh_entityID [OF begin_floor(2) check_ids(1) [OF begin_floor(1)]]
      check_floor_placed [OF begin_floor(1)]
    by (simp add: pending_ok_def undisturbed_def new_defs)
next
  case (begin_area e t b fl n s a cs)
  show ?case
    using begin_area(3) fresh_entityID [OF begin_area(2) check_ids(2) [OF begin_area(1)]]
      check_area_placed [OF begin_area(1)]
    by (simp add: pending_ok_def undisturbed_def new_defs)
next
  case (begin_door e t inp s d cs)
  show ?case
    using begin_door(3) fresh_entityID [OF begin_door(2) check_ids(3) [OF begin_door(1)]]
      check_door_placed [OF begin_door(1)]
    by (simp add: pending_ok_def undisturbed_def new_defs)
next
  case (begin_group e t n ds s g cs)
  then show ?case
    using check_group_valid [OF begin_group(1)] by (simp add: pending_ok_def undisturbed_def new_defs)
qed (simp_all add: finish_creation_ok free_ops_ok placed_ops_ok)

section \<open>Properties\<close>

definition sample_space :: spaceService where
  "sample_space = \<lparr>sp_buildings = [\<lparr>bd_ID = ''b1'', bd_TenantID = ''t1'', bd_Name = ''HQ'', bd_Address = '''',
       bd_Region = '''', bd_Status = ''active'', bd_ArchivedAt = None, bd_CreatedAt = 0\<rparr>],
     sp_floors = [\<lparr>fl_ID = ''f1'', fl_TenantID = ''t1'', fl_BuildingID = ''b1'', fl_Name = ''G'', fl_CreatedAt = 0\<rparr>],
     sp_areas = [\<lparr>ar_ID = ''a1'', ar_TenantID = ''t1'', ar_BuildingID = ''b1'', ar_FloorID = ''f1'',
       ar_Name = ''Lobby'', ar_CreatedAt = 0\<rparr>],
     sp_doors = [\<lparr>dr_ID = ''d1'', dr_TenantID = ''t1'', dr_BuildingID = ''b1'', dr_FloorID = ''f1'',
       dr_AreaID = ''a1'', dr_Name = ''Front'', dr_GatewayID = ''gw1'', dr_Kind = ''office'',
       dr_Status = ''online'', dr_CreatedAt = 0\<rparr>],
     sp_doorGroups = [\<lparr>dg_ID = ''g1'', dg_TenantID = ''t1'', dg_Name = ''All'', dg_DoorIDs = [''d1''],
       dg_CreatedAt = 0\<rparr>], sp_store = Store None\<rparr>"

definition sample_env :: env where
  "sample_env = \<lparr>env_now = 7, env_save_ok = True, env_rand = Some ''aa''\<rparr>"

text \<open>C39: However the operations of the space service are ordered, with any number of creations
  under way between their check and their insertion, and whether or not each save succeeds,
  identifiers stay unique and every floor, area, door and door-group member keeps lying in a live
  record of its own tenant, provided the identifiers drawn are new and no move or deletion takes
  away the record a creation was checked against before that creation is inserted (the code
  does not rule that out: \<open>create_floor_race\<close> below).\<close>

theorem topology_consistent:
  assumes "space_step\<^sup>*\<^sup>* ([], s) (cs, s')" and "topology_ok s"
  shows "topology_ok s'"
proof -
  have "pending_ok y" if "space_step\<^sup>*\<^sup>* x y" "pending_ok x" for x y
    using that by (induction rule: rtranclp_induct) (auto intro: space_step_ok)
  from this [OF assms(1)] show ?thesis
    using assms(2) by (auto simp: pending_ok_def undisturbed_def topology_ok_def new_defs)
qed

text \<open>Two floors are checked before either is inserted, the second checked is inserted first, and
  the building is deleted once both are in.\<close>

theorem topology_consistent_witness:
  "\<exists>f1 f2. check_floor sample_env ''t1'' ''b1'' ''One'' sample_space = Inr f1 \<and>
     check_floor (sample_env\<lparr>env_rand := Some ''bb''\<rparr>) ''t1'' ''b1'' ''Two'' sample_space = Inr f2 \<and>
     topology_ok (snd (DeleteBuilding sample_env ''t1'' ''b1''
       (snd (insert_floor sample_env f1 (snd (insert_floor sample_env f2 sample_space))))))"
proof -
  let ?e = "sample_env\<lparr>env_rand := Some ''bb''\<rparr>"
  obtain f1 where f1: "check_floor sample_env ''t1'' ''b1'' ''One'' sample_space = Inr f1" "fl_ID f1 = ''floor_aa''"
    by (rule that [of "\<lparr>fl_ID = ''floor_aa'', fl_TenantID = ''t1'', fl_BuildingID = ''b1'',
      fl_Name = ''One'', fl_CreatedAt = 7\<rparr>"]) code_simp+
  obtain f2 where f2: "check_floor ?e ''t1'' ''b1'' ''Two'' sample_space = Inr f2" "fl_ID f2 = ''floor_bb''"
    by (rule that [of "\<lparr>fl_ID = ''floor_bb'', fl_TenantID = ''t1'', fl_BuildingID = ''b1'',
      fl_Name = ''Two'', fl_CreatedAt = 7\<rparr>"]) code_simp+
  have n1: "fresh ''floor_'' (map fl_ID (new_floors [] @ sp_floors sample_space)) sample_env" by code_simp
  have n2: "fresh ''floor_'' (map fl_ID (new_floors [NewFloor f1] @ sp_floors sample_space)) ?e"
    by (simp add: new_floors_def fresh_def f1(2) sample_env_def sample_space_def)
  let ?s2 = "finish_creation sample_env (NewFloor f2) sample_space"
  let ?s1 = "finish_creation sample_env (NewFloor f1) ?s2"
  let ?s = "snd (DeleteBuilding sample_env ''t1'' ''b1'' ?s1)"
  have "space_step ([], sample_space) ([NewFloor f1], sample_space)" by (rule begin_floor [OF f1(1) n1])
  moreover have "space_step ([NewFloor f1], sample_space) ([NewFloor f2, NewFloor f1], sample_space)"
    by (rule begin_floor [OF f2(1) n2])
  moreover have "space_step ([NewFloor f2, NewFloor f1], sample_space) ([NewFloor f1], ?s2)"
    using finish [of "[]" "NewFloor f2" "[NewFloor f1]" sample_space sample_env] by simp
  moreover have "space_step ([NewFloor f1], ?s2) ([], ?s1)"
    using finish [of "[]" "NewFloor f1" "[]" ?s2 sample_env] by simp
  moreover have "space_step ([], ?s1) ([], ?s)"
    by (rule delete_building) (simp add: undisturbed_def)
  ultimately have "space_step\<^sup>*\<^sup>* ([], sample_space) ([], ?s)" by (meson converse_rtranclp_into_rtranclp rtranclp.rtrancl_refl)
  then have "topology_ok ?s" by (rule topology_consistent) code_simp
  with f1 f2 show ?thesis by auto
qed

text \<open>The code needs the last proviso: a deletion of the building between the check of a floor and its
  insertion leaves a floor in an archived building.\<close>

lemma create_floor_race:
  "topology_ok sample_space"
  "check_floor sample_env ''t1'' ''b1'' ''One'' sample_space = Inr f \<Longrightarrow>
   \<not> topology_ok (snd (insert_floor sample_env f (snd (DeleteBuilding sample_env ''t1'' ''b1'' sample_space))))"
proof -
  show "topology_ok sample_space" by code_simp
  assume "check_floor sample_env ''t1'' ''b1'' ''One'' sample_space = Inr f"
  moreover have "check_floor sample_env ''t1'' ''b1'' ''One'' sample_space = Inr \<lparr>fl_ID = ''floor_aa'',
    fl_TenantID = ''t1'', fl_BuildingID = ''b1'', fl_Name = ''One'', fl_CreatedAt = 7\<rparr>"
    by code_simp
  moreover have "\<not> topology_ok (snd (insert_floor sample_env \<lparr>fl_ID = ''floor_aa'',
    fl_TenantID = ''t1'', fl_BuildingID = ''b1'', fl_Name = ''One'', fl_CreatedAt = 7\<rparr>
      (snd (DeleteBuilding sample_env ''t1'' ''b1'' sample_space))))"
    by code_simp
  ultimately show "\<not> topology_ok (snd (insert_floor sample_env f
      (snd (DeleteBuilding sample_env ''t1'' ''b1'' sample_space))))"
    by simp
qed

subsection \<open>Door groups as a relation\<close>

text \<open>The abstract view of the groups: which doors a group opens.\<close>

definition groupDoors :: "spaceService \<Rightarrow> string \<Rightarrow> string set" where
  "groupDoors s g = (case find (\<lambda>x. dg_ID x = g) (sp_doorGroups s) of None \<Rightarrow> {} | Some x \<Rightarrow> set (dg_DoorIDs x))"

lemma groupDoors_persist [simp]: "groupDoors (snd (persistLocked_space e s)) = groupDoors s"
  by (simp add: groupDoors_def fun_eq_iff)

lemma groupDoors_cong: "sp_doorGroups s = sp_doorGroups s' \<Longrightarrow> groupDoors s = groupDoors s'"
  by (simp add: groupDoors_def fun_eq_iff)

lemma find_map_same:
  "(\<And>x. dg_ID (f x) = dg_ID x) \<Longrightarrow>
   find (\<lambda>x. dg_ID x = g) (map f xs) = map_option f (find (\<lambda>x. dg_ID x = g) xs)"
  by (induction xs) auto

lemma groupDoors_removed [simp]:
  "groupDoors (removeDoorIDsFromGroupsLocked ds s) = (\<lambda>g. groupDoors s g - set ds)"
  by (auto simp: groupDoors_def fun_eq_iff removeDoorIDsFromGroupsLocked_def find_map_same
      split: option.splits)

lemma groupDoors_update:
  assumes "lookup_strict dg_ID dg_TenantID t g (sp_doorGroups s) = Some i"
  shows "groupDoors (s\<lparr>sp_doorGroups := (sp_doorGroups s)[i := (sp_doorGroups s ! i)\<lparr>dg_DoorIDs := ds\<rparr>]\<rparr>) =
    (groupDoors s)(g := set ds)"
    and "groupDoors s g = set (dg_DoorIDs (sp_doorGroups s ! i))"
proof -
  from assms have i: "find_idx (\<lambda>x. dg_ID x = g) (sp_doorGroups s) = Some i"
    by (auto simp: lookup_strict_def split: option.splits if_splits)
  note k = find_idx_SomeD(1,2) [OF i]
  show "groupDoors (s\<lparr>sp_doorGroups := (sp_doorGroups s)[i := (sp_doorGroups s ! i)\<lparr>dg_DoorIDs := ds\<rparr>]\<rparr>) =
    (groupDoors s)(g := set ds)"
    using find_update_key [OF i, of "(sp_doorGroups s ! i)\<lparr>dg_DoorIDs := ds\<rparr>"] k
    by (auto simp: groupDoors_def fun_eq_iff)
  show "groupDoors s g = set (dg_DoorIDs (sp_doorGroups s ! i))"
    using i by (simp add: groupDoors_def find_find_idx)
qed



lemma space_return_InrD:
  "space_return e v s = (Inr r, s') \<Longrightarrow> r = v \<and> s' = snd (persistLocked_space e s)"
  by (auto simp: space_return_def split: prod.splits bool.splits)

lemma AddDoorToGroup_refines:
  assumes "AddDoorToGroup e t g d s = (Inr r, s')"
  shows "groupDoors s' = (groupDoors s)(trim_space g := insert (trim_space d) (groupDoors s (trim_space g)))"
proof -
  from assms obtain i where i: "lookup_strict dg_ID dg_TenantID (trim_space t) (trim_space g) (sp_doorGroups s) = Some i"
    by (auto simp: AddDoorToGroup_def Let_def split: if_splits option.splits)
  note u = groupDoors_update [OF i]
  show ?thesis
  proof (cases "trim_space d \<in> set (dg_DoorIDs (sp_doorGroups s ! i))")
    case True
    with assms i have "s' = s"
      by (auto simp: AddDoorToGroup_def Let_def split: if_splits option.splits)
    with True u(2) show ?thesis by (auto simp: fun_eq_iff)
  next
    case False
    with assms i have "s' = snd (persistLocked_space e (s\<lparr>sp_doorGroups := (sp_doorGroups s)[i := (sp_doorGroups s ! i)
        \<lparr>dg_DoorIDs := dg_DoorIDs (sp_doorGroups s ! i) @ [trim_space d]\<rparr>]\<rparr>))"
      by (auto simp: AddDoorToGroup_def Let_def split: if_splits option.splits dest: space_return_InrD)
    with u show ?thesis by simp
  qed
qed

lemma RemoveDoorFromGroup_refines:
  assumes "RemoveDoorFromGroup e t g d s = (Inr r, s')"
  shows "groupDoors s' = (groupDoors s)(trim_space g := groupDoors s (trim_space g) - {trim_space d})"
proof -
  from assms obtain i where i: "lookup_strict dg_ID dg_TenantID (trim_space t) (trim_space g) (sp_doorGroups s) = Some i"
    by (auto simp: RemoveDoorFromGroup_def Let_def split: if_splits option.splits)
  with assms have "s' = snd (persistLocked_space e (s\<lparr>sp_doorGroups := (sp_doorGroups s)[i := (sp_doorGroups s ! i)
      \<lparr>dg_DoorIDs := filter (\<lambda>x. x \<noteq> trim_space d) (dg_DoorIDs (sp_doorGroups s ! i))\<rparr>]\<rparr>))"
    by (auto simp: RemoveDoorFromGroup_def Let_def split: if_splits option.splits dest: space_return_InrD)
  with groupDoors_update [OF i] show ?thesis by (auto simp: fun_eq_iff)
qed

lemma CreateDoorGroup_refines:
  assumes "CreateDoorGroup e t n ds s = (Inr r, s')"
  shows "groupDoors s' = (groupDoors s)(dg_ID r := set (dg_DoorIDs r))"
  using assms
  by (auto simp: CreateDoorGroup_def insert_group_def groupDoors_def fun_eq_iff
      split: sum.splits dest!: space_return_InrD)

lemma DeleteDoor_refines:
  assumes "DeleteDoor e t d s = (Inr r, s')"
  shows "groupDoors s' = (\<lambda>g. groupDoors s g - {trim_space d})"
proof -
  from assms obtain i where "s' = snd (persistLocked_space e
      (removeDoorIDsFromGroupsLocked [trim_space d] (s\<lparr>sp_doors := remove_at i (sp_doors s)\<rparr>)))"
    by (auto simp: DeleteDoor_def Let_def split: if_splits option.splits dest!: space_return_InrD)
  then show ?thesis using groupDoors_cong [of "s\<lparr>sp_doors := remove_at i (sp_doors s)\<rparr>" s] by simp
qed

text \<open>C40: Seen as the relation of groups to the doors they open, the group operations are the
  set operations they stand for: creating a group defines its row, adding a door inserts it into
  the group's row, removing it takes it out, and deleting a door takes it out of every row.
  No other row changes.\<close>

theorem door_groups_refine:
  "(CreateDoorGroup e t n ds s = (Inr r, s') \<longrightarrow> groupDoors s' = (groupDoors s)(dg_ID r := set (dg_DoorIDs r))) \<and>
   (AddDoorToGroup e t g d s = (Inr r, s') \<longrightarrow>
      groupDoors s' = (groupDoors s)(trim_space g := insert (trim_space d) (groupDoors s (trim_space g)))) \<and>
   (RemoveDoorFromGroup e t g d s = (Inr r, s') \<longrightarrow>
      groupDoors s' = (groupDoors s)(trim_space g := groupDoors s (trim_space g) - {trim_space d})) \<and>
   (DeleteDoor e t d s = (Inr u, s') \<longrightarrow> groupDoors s' = (\<lambda>g. groupDoors s g - {trim_space d}))"
  by (intro conjI impI CreateDoorGroup_refines AddDoorToGroup_refines RemoveDoorFromGroup_refines DeleteDoor_refines)

theorem door_groups_refine_witness:
  "groupDoors (snd (RemoveDoorFromGroup sample_env ''t1'' ''g1'' ''d1'' sample_space)) =
   (groupDoors sample_space)(''g1'' := {})"
proof -
  have ok: "RemoveDoorFromGroup sample_env ''t1'' ''g1'' ''d1'' sample_space =
    (Inr (projr (fst (RemoveDoorFromGroup sample_env ''t1'' ''g1'' ''d1'' sample_space))),
     snd (RemoveDoorFromGroup sample_env ''t1'' ''g1'' ''d1'' sample_space))"
    by code_simp
  have g: "groupDoors sample_space ''g1'' = {''d1''}" "trim_space ''g1'' = ''g1''" "trim_space ''d1'' = ''d1''"
    by code_simp+
  show ?thesis
    using door_groups_refine [of sample_env "''t1''" "''''" "[]" sample_space
        "projr (fst (RemoveDoorFromGroup sample_env ''t1'' ''g1'' ''d1'' sample_space))"
        "snd (RemoveDoorFromGroup sample_env ''t1'' ''g1'' ''d1'' sample_space)" "''g1''" "''d1''" "()"] ok
    unfolding g by simp
qed

end
