(* ===== verification/Event_Log.thy ===== *)
theory Event_Log
  imports MP_Prelude Go_Time "HOL-Library.Word" "HOL-Library.Sublist"
begin

text \<open>
  \<open>internal/modules/event/service.go\<close>: the log of access and device events, with the
  deduplication by idempotency key and by event identifier that makes gateway retries safe.
  A subscriber is a channel of one slot; here its flag says whether the slot is full.
\<close>

section \<open>State\<close>

record accessEvent =
  ae_ID :: string
  ae_IdempotencyKey :: string
  ae_TenantID :: string
  ae_BuildingID :: string
  ae_AreaID :: string
  ae_Type :: string
  ae_Actor :: string
  ae_DoorID :: string
  ae_GatewayID :: string
  ae_Result :: string
  ae_At :: time

record deviceEvent =
  de_ID :: string
  de_IdempotencyKey :: string
  de_TenantID :: string
  de_BuildingID :: string
  de_Type :: string
  de_GatewayID :: string
  de_Detail :: string
  de_Result :: string
  de_At :: time

record eventService =
  ev_accessEvents :: "accessEvent list"
  ev_deviceEvents :: "deviceEvent list"
  ev_store :: "(accessEvent list \<times> deviceEvent list) store"
  ev_subscribers :: "(64 word \<times> bool) list"
  ev_nextSubID :: "64 word"

datatype event_error =
    EvTenantIDRequired | EvGatewayIDRequired | AccessEventTypeRequired | DeviceEventTypeRequired
  | EvRandFailed | EvStoreFailed

definition persistLocked_event :: "env \<Rightarrow> eventService \<Rightarrow> bool \<times> eventService" where
  "persistLocked_event e s =
     (case store_save e (ev_accessEvents s, ev_deviceEvents s) (ev_store s) of
        (ok, st) \<Rightarrow> (ok, s\<lparr>ev_store := st\<rparr>))"

definition restoreFromStateStore_event :: "env \<Rightarrow> eventService \<Rightarrow> bool \<times> eventService" where
  "restoreFromStateStore_event e s =
     (case ev_store s of
        NoStore \<Rightarrow> (True, s)
      | Store None \<Rightarrow> persistLocked_event e s
      | Store (Some (as, ds)) \<Rightarrow> (True, s\<lparr>ev_accessEvents := as, ev_deviceEvents := ds\<rparr>))"

definition notifySubscribersLocked_event :: "eventService \<Rightarrow> eventService" where
  "notifySubscribersLocked_event s = s\<lparr>ev_subscribers := map (\<lambda>(i, _). (i, True)) (ev_subscribers s)\<rparr>"

definition SubscribeChanges_event :: "eventService \<Rightarrow> 64 word \<times> eventService" where
  "SubscribeChanges_event s =
     (ev_nextSubID s,
      s\<lparr>ev_nextSubID := ev_nextSubID s + 1,
        ev_subscribers := (ev_nextSubID s, False) # filter (\<lambda>(i, _). i \<noteq> ev_nextSubID s) (ev_subscribers s)\<rparr>)"

definition unsubscribe_event :: "64 word \<Rightarrow> eventService \<Rightarrow> eventService" where
  "unsubscribe_event i s = s\<lparr>ev_subscribers := filter (\<lambda>(j, _). j \<noteq> i) (ev_subscribers s)\<rparr>"

section \<open>Reading\<close>

definition ListAccessEvents :: "string \<Rightarrow> eventService \<Rightarrow> accessEvent list" where
  "ListAccessEvents tenantID s = list_scoped ae_TenantID (trim_space tenantID) (ev_accessEvents s)"

definition ListDeviceEvents :: "string \<Rightarrow> eventService \<Rightarrow> deviceEvent list" where
  "ListDeviceEvents tenantID s = list_scoped de_TenantID (trim_space tenantID) (ev_deviceEvents s)"

definition CountEventsByGateway :: "string \<Rightarrow> string \<Rightarrow> eventService \<Rightarrow> nat \<times> nat" where
  "CountEventsByGateway tenantID gatewayID s =
     (let t = trim_space tenantID; g = trim_space gatewayID in
      (length (filter (\<lambda>x. in_scope t (ae_TenantID x) \<and> in_scope g (ae_GatewayID x)) (ev_accessEvents s)),
       length (filter (\<lambda>x. in_scope t (de_TenantID x) \<and> in_scope g (de_GatewayID x)) (ev_deviceEvents s))))"

section \<open>Ingestion\<close>

definition findAccessEventByIdempotencyLocked ::
  "accessEvent list \<Rightarrow> string \<Rightarrow> string \<Rightarrow> string \<Rightarrow> accessEvent option" where
  "findAccessEventByIdempotencyLocked events t g key =
     (if key = '''' then None
      else find (\<lambda>x. ae_TenantID x = t \<and> ae_GatewayID x = g \<and> ae_IdempotencyKey x = key) events)"

definition findAccessEventByIDLocked ::
  "accessEvent list \<Rightarrow> string \<Rightarrow> string \<Rightarrow> string \<Rightarrow> accessEvent option" where
  "findAccessEventByIDLocked events t g i =
     (if i = '''' then None
      else find (\<lambda>x. ae_TenantID x = t \<and> ae_GatewayID x = g \<and> ae_ID x = i) events)"

definition findDeviceEventByIdempotencyLocked ::
  "deviceEvent list \<Rightarrow> string \<Rightarrow> string \<Rightarrow> string \<Rightarrow> deviceEvent option" where
  "findDeviceEventByIdempotencyLocked events t g key =
     (if key = '''' then None
      else find (\<lambda>x. de_TenantID x = t \<and> de_GatewayID x = g \<and> de_IdempotencyKey x = key) events)"

definition findDeviceEventByIDLocked ::
  "deviceEvent list \<Rightarrow> string \<Rightarrow> string \<Rightarrow> string \<Rightarrow> deviceEvent option" where
  "findDeviceEventByIDLocked events t g i =
     (if i = '''' then None
      else find (\<lambda>x. de_TenantID x = t \<and> de_GatewayID x = g \<and> de_ID x = i) events)"

definition nextEventID :: "env \<Rightarrow> string \<Rightarrow> (event_error, string) result" where
  "nextEventID e pre =
     (case env_rand e of None \<Rightarrow> Inl EvRandFailed | Some h \<Rightarrow> Inr (trim_space pre @ ''_'' @ h))"

text \<open>The input of an access event has the shape of the event; trimming and the defaults.\<close>

definition norm_access :: "env \<Rightarrow> accessEvent \<Rightarrow> accessEvent" where
  "norm_access e i =
     \<lparr>ae_ID = trim_space (ae_ID i), ae_IdempotencyKey = trim_space (ae_IdempotencyKey i),
      ae_TenantID = trim_space (ae_TenantID i), ae_BuildingID = trim_space (ae_BuildingID i),
      ae_AreaID = trim_space (ae_AreaID i), ae_Type = trim_space (ae_Type i),
      ae_Actor = trim_space (ae_Actor i), ae_DoorID = trim_space (ae_DoorID i),
      ae_GatewayID = trim_space (ae_GatewayID i),
      ae_Result = (if trim_space (ae_Result i) = '''' then ''accepted'' else trim_space (ae_Result i)),
      ae_At = (if is_zero (ae_At i) then env_now e else ae_At i)\<rparr>"

definition norm_device :: "env \<Rightarrow> deviceEvent \<Rightarrow> deviceEvent" where
  "norm_device e i =
     \<lparr>de_ID = trim_space (de_ID i), de_IdempotencyKey = trim_space (de_IdempotencyKey i),
      de_TenantID = trim_space (de_TenantID i), de_BuildingID = trim_space (de_BuildingID i),
      de_Type = trim_space (de_Type i), de_GatewayID = trim_space (de_GatewayID i),
      de_Detail = trim_space (de_Detail i),
      de_Result = (if trim_space (de_Result i) = '''' then ''accepted'' else trim_space (de_Result i)),
      de_At = (if is_zero (de_At i) then env_now e else de_At i)\<rparr>"

text \<open>The result carries the event and whether it was already known.\<close>

definition IngestAccessEvent ::
  "env \<Rightarrow> accessEvent \<Rightarrow> eventService \<Rightarrow> (event_error, accessEvent \<times> bool) result \<times> eventService" where
  "IngestAccessEvent e inp s =
     (let n = norm_access e inp; t = ae_TenantID n; g = ae_GatewayID n in
      if t = '''' then (Inl EvTenantIDRequired, s)
      else if g = '''' then (Inl EvGatewayIDRequired, s)
      else if ae_Type n = '''' then (Inl AccessEventTypeRequired, s)
      else
        (case findAccessEventByIdempotencyLocked (ev_accessEvents s) t g (ae_IdempotencyKey n) of
           Some x \<Rightarrow> (Inr (x, True), s)
         | None \<Rightarrow>
             (case findAccessEventByIDLocked (ev_accessEvents s) t g (ae_ID n) of
                Some x \<Rightarrow> (Inr (x, True), s)
              | None \<Rightarrow>
                  (case (if ae_ID n = '''' then nextEventID e ''gwea'' else Inr (ae_ID n)) of
                     Inl err \<Rightarrow> (Inl err, s)
                   | Inr i \<Rightarrow>
                       let r = n\<lparr>ae_ID := i\<rparr> in
                       (case persistLocked_event e (s\<lparr>ev_accessEvents := r # ev_accessEvents s\<rparr>) of
                          (False, s1) \<Rightarrow> (Inl EvStoreFailed, s1)
                        | (True, s1) \<Rightarrow> (Inr (r, False), notifySubscribersLocked_event s1))))))"

definition IngestDeviceEvent ::
  "env \<Rightarrow> deviceEvent \<Rightarrow> eventService \<Rightarrow> (event_error, deviceEvent \<times> bool) result \<times> eventService" where
  "IngestDeviceEvent e inp s =
     (let n = norm_device e inp; t = de_TenantID n; g = de_GatewayID n in
      if t = '''' then (Inl EvTenantIDRequired, s)
      else if g = '''' then (Inl EvGatewayIDRequired, s)
      else if de_Type n = '''' then (Inl DeviceEventTypeRequired, s)
      else
        (case findDeviceEventByIdempotencyLocked (ev_deviceEvents s) t g (de_IdempotencyKey n) of
           Some x \<Rightarrow> (Inr (x, True), s)
         | None \<Rightarrow>
             (case findDeviceEventByIDLocked (ev_deviceEvents s) t g (de_ID n) of
                Some x \<Rightarrow> (Inr (x, True), s)
              | None \<Rightarrow>
                  (case (if de_ID n = '''' then nextEventID e ''gwed'' else Inr (de_ID n)) of
                     Inl err \<Rightarrow> (Inl err, s)
                   | Inr i \<Rightarrow>
                       let r = n\<lparr>de_ID := i\<rparr> in
                       (case persistLocked_event e (s\<lparr>ev_deviceEvents := r # ev_deviceEvents s\<rparr>) of
                          (False, s1) \<Rightarrow> (Inl EvStoreFailed, s1)
                        | (True, s1) \<Rightarrow> (Inr (r, False), notifySubscribersLocked_event s1))))))"

section \<open>Exactly once\<close>

datatype event_op = IngestA accessEvent | IngestD deviceEvent | Subscribe | Unsubscribe "64 word"

fun event_step :: "env \<Rightarrow> event_op \<Rightarrow> eventService \<Rightarrow> eventService" where
  "event_step e (IngestA i) s = snd (IngestAccessEvent e i s)"
| "event_step e (IngestD i) s = snd (IngestDeviceEvent e i s)"
| "event_step e Subscribe s = snd (SubscribeChanges_event s)"
| "event_step e (Unsubscribe i) s = unsubscribe_event i s"

definition access_key :: "accessEvent \<Rightarrow> string \<times> string \<times> string" where
  "access_key x = (ae_TenantID x, ae_GatewayID x, ae_IdempotencyKey x)"

definition keyed :: "eventService \<Rightarrow> (string \<times> string \<times> string) list" where
  "keyed s = map access_key (filter (\<lambda>x. ae_IdempotencyKey x \<noteq> '''') (ev_accessEvents s))"

lemma persist_event_frame [simp]:
  "ev_accessEvents (snd (persistLocked_event e s)) = ev_accessEvents s"
  "ev_deviceEvents (snd (persistLocked_event e s)) = ev_deviceEvents s"
  "ev_accessEvents (notifySubscribersLocked_event s) = ev_accessEvents s"
  "ev_deviceEvents (notifySubscribersLocked_event s) = ev_deviceEvents s"
  "ev_store (notifySubscribersLocked_event s) = ev_store s"
  by (simp_all add: persistLocked_event_def notifySubscribersLocked_event_def case_prod_unfold)

lemma persist_eventD:
  "persistLocked_event e s = (ok, s') \<Longrightarrow>
   ev_accessEvents s' = ev_accessEvents s \<and> ev_deviceEvents s' = ev_deviceEvents s"
  using persist_event_frame(1,2) [of e s] by simp

lemma stored_frame:
  "ev_accessEvents (snd (case persistLocked_event e s of (False, s1) \<Rightarrow> (Inl x, s1)
     | (True, s1) \<Rightarrow> (Inr y, notifySubscribersLocked_event s1))) = ev_accessEvents s"
  by (auto dest: persist_eventD split: prod.split bool.split)

text \<open>What one ingestion does to the log: nothing, or one event in front whose key is new.\<close>

lemma ingest_access_cases:
  obtains (same) "ev_accessEvents (snd (IngestAccessEvent e i s)) = ev_accessEvents s"
  | (added) r where
      "ev_accessEvents (snd (IngestAccessEvent e i s)) = r # ev_accessEvents s"
      "access_key r = access_key (norm_access e i)"
      "ae_IdempotencyKey r = '''' \<or> access_key r \<notin> access_key ` set (ev_accessEvents s)"
proof (cases "ev_accessEvents (snd (IngestAccessEvent e i s)) = ev_accessEvents s")
  case True
  then show ?thesis by (rule same)
next
  case False
  define n where "n = norm_access e i"
  from False obtain r where
    none: "findAccessEventByIdempotencyLocked (ev_accessEvents s) (ae_TenantID n) (ae_GatewayID n)
       (ae_IdempotencyKey n) = None" and k: "access_key r = access_key n" and
    st: "ev_accessEvents (snd (IngestAccessEvent e i s)) = r # ev_accessEvents s"
    by atomize_elim
       (auto simp: IngestAccessEvent_def n_def [symmetric] Let_def access_key_def stored_frame
        split: if_splits option.splits sum.splits)
  from none have "ae_IdempotencyKey n = '''' \<or> access_key n \<notin> access_key ` set (ev_accessEvents s)"
    by (auto simp: findAccessEventByIdempotencyLocked_def access_key_def find_None_iff split: if_splits)
  with st k show ?thesis by (intro added [of r]) (simp_all add: access_key_def n_def)
qed

lemma ingest_device_access:
  "ev_accessEvents (snd (IngestDeviceEvent e i s)) = ev_accessEvents s"
  by (simp add: IngestDeviceEvent_def Let_def stored_frame split: option.split sum.split)

lemma event_step_log:
  assumes "distinct (keyed s)"
  shows "distinct (keyed (event_step e op s)) \<and>
         suffix (ev_accessEvents s) (ev_accessEvents (event_step e op s))"
proof (cases op)
  case (IngestA i)
  show ?thesis
  proof (cases rule: ingest_access_cases [of e i s])
    case same
    with IngestA assms show ?thesis by (simp add: keyed_def)
  next
    case (added r)
    with IngestA assms show ?thesis by (auto simp: keyed_def suffix_ConsI)
  qed
qed (use assms in \<open>auto simp: keyed_def ingest_device_access SubscribeChanges_event_def unsubscribe_event_def\<close>)

lemma event_run_log:
  "distinct (keyed s) \<Longrightarrow>
   distinct (keyed (fold (\<lambda>(e, op). event_step e op) ops s)) \<and>
   suffix (ev_accessEvents s) (ev_accessEvents (fold (\<lambda>(e, op). event_step e op) ops s))"
proof (induction ops arbitrary: s)
  case Nil
  then show ?case by simp
next
  case (Cons eo ops)
  obtain e op where eo: "eo = (e, op)" by (cases eo)
  note st = event_step_log [OF Cons.prems, of e op]
  show ?case
    using Cons.IH [of "event_step e op s"] st eo by (auto intro: suffix_order.trans)
qed

lemma unique_filter:
  "distinct (map f xs) \<Longrightarrow> x \<in> set xs \<Longrightarrow> filter (\<lambda>y. f y = f x) xs = [x]"
proof (induction xs)
  case Nil
  then show ?case by simp
next
  case (Cons a xs)
  show ?case
  proof (cases "x = a")
    case True
    then have "filter (\<lambda>y. f y = f x) xs = []"
      using Cons.prems(1) by (auto simp: filter_empty_conv) (metis image_eqI)
    with True show ?thesis by simp
  next
    case False
    with Cons.prems have "f a \<noteq> f x" "x \<in> set xs" by auto
    with Cons show ?thesis by simp
  qed
qed

lemma find_of_filter: "filter P xs = x # ys \<Longrightarrow> find P xs = Some x"
  by (induction xs) (auto split: if_splits)

lemma keyed_filter:
  assumes "distinct (keyed s)" and "r \<in> set (ev_accessEvents s)" and "ae_IdempotencyKey r \<noteq> ''''"
  shows "filter (\<lambda>x. access_key x = access_key r) (ev_accessEvents s) = [r]"
proof -
  have "filter (\<lambda>x. access_key x = access_key r) (ev_accessEvents s) =
      filter (\<lambda>x. access_key x = access_key r)
        (filter (\<lambda>x. ae_IdempotencyKey x \<noteq> '''') (ev_accessEvents s))"
    using assms(3) by (auto simp: access_key_def filter_filter intro: filter_cong)
  also have "\<dots> = [r]"
    using assms by (intro unique_filter) (simp_all add: keyed_def)
  finally show ?thesis .
qed

text \<open>
  C38: Ingestion is exactly-once per idempotency key.  Once an access event with a key has been
  accepted as new, any later retry with the same tenant, gateway and key, whatever else
  happened in between, answers with that event as a duplicate and changes nothing, and the
  log holds that one event under the key.  Nothing that was in the log is ever dropped or
  changed.
\<close>

theorem ingest_exactly_once:
  assumes "distinct (keyed s)" and "fst (IngestAccessEvent e i s) = Inr (r, False)"
    and "ae_IdempotencyKey (norm_access e i) \<noteq> ''''"
    and "s' = fold (\<lambda>(e, op). event_step e op) ops (snd (IngestAccessEvent e i s))"
    and "access_key (norm_access e' i') = access_key (norm_access e i)"
    and "ae_Type (norm_access e' i') \<noteq> ''''"
  shows "IngestAccessEvent e' i' s' = (Inr (r, True), s') \<and>
         filter (\<lambda>x. access_key x = access_key r) (ev_accessEvents s') = [r] \<and>
         suffix (ev_accessEvents s) (ev_accessEvents s')"
proof -
  let ?n = "norm_access e i" and ?s1 = "snd (IngestAccessEvent e i s)"
  have r: "access_key r = access_key ?n" "ev_accessEvents ?s1 = r # ev_accessEvents s"
    "ae_TenantID ?n \<noteq> ''''" "ae_GatewayID ?n \<noteq> ''''"
    using assms(2)
    by (auto simp: IngestAccessEvent_def Let_def persist_eventD access_key_def
        split: if_splits option.splits sum.splits prod.splits bool.splits)
  have s1: "distinct (keyed ?s1) \<and> suffix (ev_accessEvents s) (ev_accessEvents ?s1)"
    using event_step_log [OF assms(1), of e "IngestA i"] by simp
  then have run: "distinct (keyed s')" "suffix (ev_accessEvents ?s1) (ev_accessEvents s')"
    using event_run_log [of ?s1 ops] assms(4) by simp_all
  have mem: "r \<in> set (ev_accessEvents s')"
    using run(2) r(2) by (auto dest!: set_mono_suffix)
  have key: "ae_IdempotencyKey r \<noteq> ''''" using r(1) assms(3) by (simp add: access_key_def)
  have one: "filter (\<lambda>x. access_key x = access_key r) (ev_accessEvents s') = [r]"
    by (rule keyed_filter [OF run(1) mem key])
  then have "find (\<lambda>x. access_key x = access_key r) (ev_accessEvents s') = Some r"
    by (rule find_of_filter)
  then have "IngestAccessEvent e' i' s' = (Inr (r, True), s')"
    using r assms(3,5,6) key
    by (simp add: IngestAccessEvent_def Let_def findAccessEventByIdempotencyLocked_def access_key_def)
  moreover have "suffix (ev_accessEvents s) (ev_accessEvents s')"
    using s1 run(2) suffix_order.trans by blast
  ultimately show ?thesis using one by blast
qed

section \<open>Isolation and durability\<close>

fun event_scope :: "event_op \<Rightarrow> string" where
  "event_scope (IngestA i) = trim_space (ae_TenantID i)"
| "event_scope (IngestD i) = trim_space (de_TenantID i)"
| "event_scope Subscribe = ''*''"
| "event_scope (Unsubscribe i) = ''*''"

lemma access_isolated:
  assumes "t \<noteq> trim_space (ae_TenantID i)"
  shows "filter (\<lambda>r. ae_TenantID r = t) (ev_accessEvents (snd (IngestAccessEvent e i s))) =
         filter (\<lambda>r. ae_TenantID r = t) (ev_accessEvents s)"
proof (cases rule: ingest_access_cases [of e i s])
  case same
  then show ?thesis by simp
next
  case (added r)
  then have "ae_TenantID r = trim_space (ae_TenantID i)"
    by (simp add: access_key_def norm_access_def)
  with added(1) assms show ?thesis by simp
qed

interpretation access_event_isolation: tenant_isolated ev_accessEvents ae_TenantID event_scope event_step
proof
  fix op t e s
  assume "t \<noteq> event_scope op"
  then show "filter (\<lambda>r. ae_TenantID r = t) (ev_accessEvents (event_step e op s)) =
             filter (\<lambda>r. ae_TenantID r = t) (ev_accessEvents s)"
    by (cases op)
       (simp_all add: access_isolated ingest_device_access SubscribeChanges_event_def
         unsubscribe_event_def)
qed

lemma persist_event_synced:
  assumes "env_save_ok e" and "persistLocked_event e s = (ok, s')"
  shows "ok" "in_sync (ev_accessEvents s', ev_deviceEvents s') (ev_store s')"
  using assms
  by (auto simp: persistLocked_event_def store_save_def in_sync_def case_prod_unfold split: store.splits)

lemma stored_synced:
  fixes s :: eventService and x :: event_error and y :: 'a
  assumes "env_save_ok e"
  defines "s' \<equiv> snd (case persistLocked_event e s of (False, s1) \<Rightarrow> (Inl x, s1)
     | (True, s1) \<Rightarrow> (Inr y, notifySubscribersLocked_event s1))"
  shows "in_sync (ev_accessEvents s', ev_deviceEvents s') (ev_store s')"
  using persist_event_synced [OF assms(1), of s]
  by (auto simp: s'_def split: prod.split bool.split)

interpretation event_durable: durable "\<lambda>s. (ev_accessEvents s, ev_deviceEvents s)" ev_store event_step
proof
  fix e :: env and s :: eventService and op
  assume "env_save_ok e" and "in_sync (ev_accessEvents s, ev_deviceEvents s) (ev_store s)"
  then show "in_sync (ev_accessEvents (event_step e op s), ev_deviceEvents (event_step e op s))
               (ev_store (event_step e op s))"
    by (cases op)
       (simp_all add: IngestAccessEvent_def IngestDeviceEvent_def SubscribeChanges_event_def
         unsubscribe_event_def Let_def stored_synced split: option.split sum.split)
qed

section \<open>A concrete log\<close>

definition demo_event :: accessEvent where
  "demo_event = \<lparr>ae_ID = '''', ae_IdempotencyKey = ''k1'', ae_TenantID = ''t1'', ae_BuildingID = '''',
     ae_AreaID = '''', ae_Type = ''access_granted'', ae_Actor = ''u1'', ae_DoorID = ''d1'',
     ae_GatewayID = ''g1'', ae_Result = ''success'', ae_At = 5\<rparr>"

definition demo_log :: eventService where
  "demo_log = \<lparr>ev_accessEvents = [], ev_deviceEvents = [], ev_store = Store None, ev_subscribers = [],
     ev_nextSubID = 0\<rparr>"

definition event_env :: "bool \<Rightarrow> env" where
  "event_env ok = \<lparr>env_now = 9, env_save_ok = ok, env_rand = Some ''0a''\<rparr>"

theorem ingest_exactly_once_witness:
  "\<exists>r. IngestAccessEvent (event_env False) demo_event (fold (\<lambda>(e, op). event_step e op)
       [(event_env True, IngestA (demo_event\<lparr>ae_IdempotencyKey := ''k2''\<rparr>)), (event_env False, Subscribe)]
       (snd (IngestAccessEvent (event_env True) demo_event demo_log))) =
     (Inr (r, True), fold (\<lambda>(e, op). event_step e op)
       [(event_env True, IngestA (demo_event\<lparr>ae_IdempotencyKey := ''k2''\<rparr>)), (event_env False, Subscribe)]
       (snd (IngestAccessEvent (event_env True) demo_event demo_log)))"
proof -
  let ?r = "demo_event\<lparr>ae_ID := ''gwea_0a''\<rparr>"
  have "distinct (keyed demo_log)" by code_simp
  moreover have "fst (IngestAccessEvent (event_env True) demo_event demo_log) = Inr (?r, False)"
    by code_simp
  moreover have "ae_IdempotencyKey (norm_access (event_env True) demo_event) \<noteq> ''''"
    "access_key (norm_access (event_env False) demo_event) = access_key (norm_access (event_env True) demo_event)"
    "ae_Type (norm_access (event_env False) demo_event) \<noteq> ''''"
    by code_simp+
  ultimately show ?thesis
    using ingest_exactly_once [OF _ _ _ refl, of demo_log "event_env True" demo_event ?r "event_env False"
        demo_event "[(event_env True, IngestA (demo_event\<lparr>ae_IdempotencyKey := ''k2''\<rparr>)),
          (event_env False, Subscribe)]"]
    by blast
qed

end
