(* ===== verification/Mobile_Credential.thy ===== *)
theory Mobile_Credential
  imports MP_Prelude Ble_Protocol
begin

text \<open>
  \<open>internal/modules/credential/\<close>: registration, suspension and revocation of mobile
  credentials, signature verification in the cloud, and the credential lists sent to
  gateways.  The service state is the credential slice and its store; \<open>persistLocked\<close> logs
  a failed save and goes on.  Methods that return a pointer into the slice return the record.
  X.509 parsing and checking is the record \<open>x509\<close>, a parameter beside \<open>crypto\<close>.
\<close>

section \<open>Data\<close>

record mobileCredential =
  mc_ID :: string
  mc_TenantID :: string
  mc_UserID :: string
  mc_UserEmail :: string
  mc_DeviceID :: string
  mc_Platform :: string
  mc_DeviceModel :: string
  mc_KeystoreLevel :: string
  mc_PublicKeyPEM :: string
  mc_Status :: string
  mc_IssuedAt :: time
  mc_ExpiresAt :: time
  mc_RevokedAt :: "time option"
  mc_LastUsedAt :: "time option"

record registerDeviceInput =
  rd_TenantID :: string
  rd_UserID :: string
  rd_UserEmail :: string
  rd_PublicKeyPEM :: string
  rd_Platform :: string
  rd_DeviceID :: string
  rd_DeviceModel :: string
  rd_KeystoreLevel :: string
  rd_AttestationCertChain :: "string list"

record gatewayCredentialSync =
  gs_UserID :: string
  gs_UserEmail :: string
  gs_PublicKeyPEM :: string
  gs_LockIDs :: "string list"
  gs_ExpiresAt :: int
  gs_RevokedAt :: "int option"
  gs_SuspendedAt :: "int option"
  gs_SyncVersion :: int

definition TTLStrongBox :: int where "TTLStrongBox = 90 * 24 * ns_hour"
definition TTLTee :: int where "TTLTee = 30 * 24 * ns_hour"
definition TTLSoftware :: int where "TTLSoftware = 7 * 24 * ns_hour"

definition CredentialTTL :: "string \<Rightarrow> int" where
  "CredentialTTL level =
     (if level = ''strongbox'' then TTLStrongBox else if level = ''tee'' then TTLTee
      else TTLSoftware)"

datatype cred_error =
    TenantRequired | UserRequired | KeyRequired | DeviceRequired | BadPlatform | BadKeystoreLevel
  | InvalidKey ble_error
  | AttestationFailed att_error
  | CredentialNotFound | AlreadyRevoked | CannotSuspendRevoked | AlreadySuspended
  | CannotActivateRevoked | AlreadyActive | NotActive
  | NoActiveCredential | StoredKeyInvalid ble_error | SignatureFailed
and att_error =
    BadBase64 nat | BadX509 nat | ChainTooShort | ChainSignature nat | LeafMarshal
  | ExpectedKey ble_error | ExpectedMarshal | LeafMismatch

record credService =
  cs_credentials :: "mobileCredential list"
  cs_store :: "mobileCredential list store"

definition persistLocked_cred :: "env \<Rightarrow> credService \<Rightarrow> credService" where
  "persistLocked_cred e s = s\<lparr>cs_store := snd (store_save e (cs_credentials s) (cs_store s))\<rparr>"

definition restoreFromStateStore_cred :: "credService \<Rightarrow> credService" where
  "restoreFromStateStore_cred s =
     (case cs_store s of Store (Some snap) \<Rightarrow> s\<lparr>cs_credentials := snap\<rparr> | _ \<Rightarrow> s)"

section \<open>Attestation\<close>

record ('k, 'c) x509 =
  b64_Decode :: "string \<Rightarrow> byte list option"
  ParseCertificate :: "byte list \<Rightarrow> 'c option"
  CheckSignatureFrom :: "'c \<Rightarrow> 'c \<Rightarrow> bool"
  Marshal_cert_key :: "'c \<Rightarrow> byte list option"
  MarshalPKIXPublicKey :: "'k \<Rightarrow> byte list option"

fun parse_chain :: "('k, 'c) x509 \<Rightarrow> nat \<Rightarrow> string list \<Rightarrow> (att_error, 'c list) result" where
  "parse_chain x i [] = Inr []"
| "parse_chain x i (b # bs) =
     (case b64_Decode x b of
        None \<Rightarrow> Inl (BadBase64 i)
      | Some der \<Rightarrow>
          (case ParseCertificate x der of
             None \<Rightarrow> Inl (BadX509 i)
           | Some c \<Rightarrow>
               (case parse_chain x (Suc i) bs of Inl e \<Rightarrow> Inl e | Inr cs \<Rightarrow> Inr (c # cs))))"

fun check_chain :: "('k, 'c) x509 \<Rightarrow> nat \<Rightarrow> 'c list \<Rightarrow> att_error option" where
  "check_chain x i (c # d # cs) =
     (if CheckSignatureFrom x c d then check_chain x (Suc i) (d # cs) else Some (ChainSignature i))"
| "check_chain x i _ = None"

definition ParseECPublicKey :: "'k crypto \<Rightarrow> string \<Rightarrow> (ble_error, 'k) result" where
  "ParseECPublicKey cr pemStr =
     (case pem_Decode cr pemStr of
        None \<Rightarrow> Inl PemFailed
      | Some block \<Rightarrow>
          (case ParsePKIXPublicKey cr block of
             Inl e \<Rightarrow> Inl (KeyParseFailed e)
           | Inr OtherKey \<Rightarrow> Inl NotECKey
           | Inr (ECKey curve k) \<Rightarrow> if curve \<noteq> ''P-256'' then Inl (WrongCurve curve) else Inr k))"

text \<open>The last test of the code, for the attestation extension, returns nil on both
  branches and is left out.\<close>

definition ValidateAttestation ::
  "'k crypto \<Rightarrow> ('k, 'c) x509 \<Rightarrow> string list \<Rightarrow> string \<Rightarrow> att_error option" where
  "ValidateAttestation cr x chain expectedPublicKeyPEM =
     (if chain = [] then None
      else
        (case parse_chain x 0 chain of
           Inl e \<Rightarrow> Some e
         | Inr certs \<Rightarrow>
             if length certs < 2 then Some ChainTooShort
             else
               (case check_chain x 0 certs of
                  Some e \<Rightarrow> Some e
                | None \<Rightarrow>
                    (case Marshal_cert_key x (hd certs) of
                       None \<Rightarrow> Some LeafMarshal
                     | Some leaf \<Rightarrow>
                         (case ParseECPublicKey cr expectedPublicKeyPEM of
                            Inl e \<Rightarrow> Some (ExpectedKey e)
                          | Inr k \<Rightarrow>
                              (case MarshalPKIXPublicKey x k of
                                 None \<Rightarrow> Some ExpectedMarshal
                               | Some expected \<Rightarrow>
                                   if leaf \<noteq> expected then Some LeafMismatch else None))))))"

section \<open>Registration\<close>

definition validateRegisterInput :: "registerDeviceInput \<Rightarrow> cred_error option" where
  "validateRegisterInput input =
     (if rd_TenantID input = '''' then Some TenantRequired
      else if rd_UserID input = '''' then Some UserRequired
      else if rd_PublicKeyPEM input = '''' then Some KeyRequired
      else if rd_DeviceID input = '''' then Some DeviceRequired
      else if to_lower (rd_Platform input) \<notin> {''android'', ''ios''} then Some BadPlatform
      else if to_lower (rd_KeystoreLevel input) \<notin> {''strongbox'', ''tee'', ''software''}
        then Some BadKeystoreLevel
      else None)"

text \<open>\<open>rand.Read\<close>'s error is ignored: the twelve bytes stay zero then.\<close>

definition generateCredentialID :: "env \<Rightarrow> string" where
  "generateCredentialID e = ''mcred_'' @ get_or (replicate 24 (CHR ''0'')) (env_rand e)"

definition revoke_at :: "time \<Rightarrow> mobileCredential \<Rightarrow> mobileCredential" where
  "revoke_at now c = c\<lparr>mc_Status := ''revoked'', mc_RevokedAt := Some now\<rparr>"

definition RegisterDevice ::
  "'k crypto \<Rightarrow> ('k, 'c) x509 \<Rightarrow> env \<Rightarrow> registerDeviceInput \<Rightarrow> credService \<Rightarrow>
   (cred_error, mobileCredential) result \<times> credService" where
  "RegisterDevice cr x e input s =
     (case validateRegisterInput input of
        Some err \<Rightarrow> (Inl err, s)
      | None \<Rightarrow>
          (case ParseECPublicKey cr (rd_PublicKeyPEM input) of
             Inl err \<Rightarrow> (Inl (InvalidKey err), s)
           | Inr _ \<Rightarrow>
               (case ValidateAttestation cr x (rd_AttestationCertChain input) (rd_PublicKeyPEM input) of
                  Some err \<Rightarrow> (Inl (AttestationFailed err), s)
                | None \<Rightarrow>
                    let now = env_now e;
                        cred = \<lparr>mc_ID = generateCredentialID e, mc_TenantID = rd_TenantID input,
                          mc_UserID = rd_UserID input, mc_UserEmail = rd_UserEmail input,
                          mc_DeviceID = rd_DeviceID input, mc_Platform = rd_Platform input,
                          mc_DeviceModel = rd_DeviceModel input,
                          mc_KeystoreLevel = rd_KeystoreLevel input,
                          mc_PublicKeyPEM = rd_PublicKeyPEM input, mc_Status = ''active'',
                          mc_IssuedAt = now, mc_ExpiresAt = now + CredentialTTL (rd_KeystoreLevel input),
                          mc_RevokedAt = None, mc_LastUsedAt = None\<rparr>;
                        old = map (\<lambda>c.
                          if mc_TenantID c = rd_TenantID input \<and> mc_UserID c = rd_UserID input \<and>
                             mc_DeviceID c = rd_DeviceID input \<and> mc_Status c = ''active''
                          then revoke_at now c else c) (cs_credentials s) in
                    (Inr cred, persistLocked_cred e (s\<lparr>cs_credentials := old @ [cred]\<rparr>)))))"

section \<open>Queries\<close>

definition find_cred :: "string \<Rightarrow> string \<Rightarrow> credService \<Rightarrow> nat option" where
  "find_cred tenantID credentialID s =
     find_idx (\<lambda>c. mc_ID c = credentialID \<and> mc_TenantID c = tenantID) (cs_credentials s)"

definition GetCredential ::
  "string \<Rightarrow> string \<Rightarrow> credService \<Rightarrow> (cred_error, mobileCredential) result" where
  "GetCredential tenantID credentialID s =
     (case find_cred tenantID credentialID s of
        None \<Rightarrow> Inl CredentialNotFound | Some i \<Rightarrow> Inr (cs_credentials s ! i))"

definition ListUserCredentials :: "string \<Rightarrow> string \<Rightarrow> credService \<Rightarrow> mobileCredential list" where
  "ListUserCredentials tenantID userID s =
     filter (\<lambda>c. mc_TenantID c = tenantID \<and> mc_UserID c = userID) (cs_credentials s)"

definition ListActiveCredentials :: "time \<Rightarrow> string \<Rightarrow> credService \<Rightarrow> mobileCredential list" where
  "ListActiveCredentials now tenantID s =
     filter (\<lambda>c. mc_TenantID c = tenantID \<and> mc_Status c = ''active'' \<and> mc_ExpiresAt c > now)
       (cs_credentials s)"

section \<open>Life cycle\<close>

definition set_cred :: "env \<Rightarrow> nat \<Rightarrow> mobileCredential \<Rightarrow> credService \<Rightarrow> credService" where
  "set_cred e i c s = persistLocked_cred e (s\<lparr>cs_credentials := (cs_credentials s)[i := c]\<rparr>)"

definition RevokeCredential ::
  "env \<Rightarrow> string \<Rightarrow> string \<Rightarrow> credService \<Rightarrow> (cred_error, unit) result \<times> credService" where
  "RevokeCredential e tenantID credentialID s =
     (case find_cred tenantID credentialID s of
        None \<Rightarrow> (Inl CredentialNotFound, s)
      | Some i \<Rightarrow>
          let c = cs_credentials s ! i in
          if mc_Status c = ''revoked'' then (Inl AlreadyRevoked, s)
          else (Inr (), set_cred e i (revoke_at (env_now e) c) s))"

definition SuspendCredential ::
  "env \<Rightarrow> string \<Rightarrow> string \<Rightarrow> credService \<Rightarrow> (cred_error, unit) result \<times> credService" where
  "SuspendCredential e tenantID credentialID s =
     (case find_cred tenantID credentialID s of
        None \<Rightarrow> (Inl CredentialNotFound, s)
      | Some i \<Rightarrow>
          let c = cs_credentials s ! i in
          if mc_Status c = ''revoked'' then (Inl CannotSuspendRevoked, s)
          else if mc_Status c = ''suspended'' then (Inl AlreadySuspended, s)
          else (Inr (), set_cred e i (c\<lparr>mc_Status := ''suspended''\<rparr>) s))"

definition ActivateCredential ::
  "env \<Rightarrow> string \<Rightarrow> string \<Rightarrow> credService \<Rightarrow> (cred_error, unit) result \<times> credService" where
  "ActivateCredential e tenantID credentialID s =
     (case find_cred tenantID credentialID s of
        None \<Rightarrow> (Inl CredentialNotFound, s)
      | Some i \<Rightarrow>
          let c = cs_credentials s ! i in
          if mc_Status c = ''revoked'' then (Inl CannotActivateRevoked, s)
          else if mc_Status c = ''active'' then (Inl AlreadyActive, s)
          else (Inr (), set_cred e i (c\<lparr>mc_Status := ''active''\<rparr>) s))"

definition RevokeAllUserCredentials ::
  "env \<Rightarrow> string \<Rightarrow> string \<Rightarrow> credService \<Rightarrow> nat \<times> credService" where
  "RevokeAllUserCredentials e tenantID userID s =
     (let hit = (\<lambda>c. mc_TenantID c = tenantID \<and> mc_UserID c = userID \<and> mc_Status c = ''active'');
          count = length (filter hit (cs_credentials s));
          s1 = s\<lparr>cs_credentials :=
                  map (\<lambda>c. if hit c then revoke_at (env_now e) c else c) (cs_credentials s)\<rparr> in
      (count, if count > 0 then persistLocked_cred e s1 else s1))"

definition RefreshCredential ::
  "env \<Rightarrow> string \<Rightarrow> string \<Rightarrow> credService \<Rightarrow> (cred_error, mobileCredential) result \<times> credService" where
  "RefreshCredential e tenantID credentialID s =
     (case find_cred tenantID credentialID s of
        None \<Rightarrow> (Inl CredentialNotFound, s)
      | Some i \<Rightarrow>
          let c = cs_credentials s ! i;
              c' = c\<lparr>mc_ExpiresAt := env_now e + CredentialTTL (mc_KeystoreLevel c)\<rparr> in
          if mc_Status c \<noteq> ''active'' then (Inl NotActive, s)
          else (Inr c', set_cred e i c' s))"

definition TouchCredential :: "env \<Rightarrow> string \<Rightarrow> string \<Rightarrow> credService \<Rightarrow> credService" where
  "TouchCredential e tenantID credentialID s =
     (case find_cred tenantID credentialID s of
        None \<Rightarrow> s
      | Some i \<Rightarrow>
          s\<lparr>cs_credentials := (cs_credentials s)
             [i := (cs_credentials s ! i)\<lparr>mc_LastUsedAt := Some (env_now e)\<rparr>]\<rparr>)"

section \<open>Signature verification in the cloud\<close>

definition active_cred :: "time \<Rightarrow> string \<Rightarrow> string \<Rightarrow> credService \<Rightarrow> mobileCredential option" where
  "active_cred now tenantID userID s =
     find (\<lambda>c. mc_TenantID c = tenantID \<and> mc_UserID c = userID \<and> mc_Status c = ''active'' \<and>
              mc_ExpiresAt c > now) (cs_credentials s)"

definition VerifyBLESignature_svc ::
  "'k crypto \<Rightarrow> time \<Rightarrow> string \<Rightarrow> string \<Rightarrow> byte list \<Rightarrow> byte list \<Rightarrow> credService \<Rightarrow>
   (cred_error, mobileCredential) result" where
  "VerifyBLESignature_svc cr now tenantID userID nonce signature s =
     (case active_cred now tenantID userID s of
        None \<Rightarrow> Inl NoActiveCredential
      | Some c \<Rightarrow>
          (case ParseECPublicKey cr (mc_PublicKeyPEM c) of
             Inl e \<Rightarrow> Inl (StoredKeyInvalid e)
           | Inr k \<Rightarrow>
               if VerifyASN1 cr k (Sum256 cr (nonce @ bytes_of userID)) signature then Inr c
               else Inl SignatureFailed))"

definition VerifyBLESignatureV2_svc ::
  "'k crypto \<Rightarrow> time \<Rightarrow> string \<Rightarrow> string \<Rightarrow> byte list \<Rightarrow> string \<Rightarrow> byte list \<Rightarrow> credService \<Rightarrow>
   (cred_error, mobileCredential) result" where
  "VerifyBLESignatureV2_svc cr now tenantID userID nonce transportTag signature s =
     (case active_cred now tenantID userID s of
        None \<Rightarrow> Inl NoActiveCredential
      | Some c \<Rightarrow>
          (case ParseECPublicKey cr (mc_PublicKeyPEM c) of
             Inl e \<Rightarrow> Inl (StoredKeyInvalid e)
           | Inr k \<Rightarrow>
               let hash = Sum256 cr (nonce @ bytes_of userID @ bytes_of transportTag) in
               if VerifyASN1 cr k hash signature then Inr c
               else if length signature = 64 \<and>
                 ecdsa_Verify cr k hash (get_be (take 32 signature)) (get_be (drop 32 signature)) then Inr c
               else Inl SignatureFailed))"

definition VerifyECDSASignature ::
  "'k crypto \<Rightarrow> string \<Rightarrow> byte list \<Rightarrow> string \<Rightarrow> byte list \<Rightarrow> (ble_error, bool) result" where
  "VerifyECDSASignature cr publicKeyPEM nonce userID signature =
     (case ParseECPublicKey cr publicKeyPEM of
        Inl e \<Rightarrow> Inl e
      | Inr k \<Rightarrow>
          let hash = Sum256 cr (nonce @ bytes_of userID) in
          Inr (VerifyASN1 cr k hash signature \<or>
            (length signature = 64 \<and> ecdsa_Verify cr k hash (get_be (take 32 signature)) (get_be (drop 32 signature)))))"

section \<open>Lists for gateways\<close>

definition sync_entry :: "mobileCredential \<Rightarrow> string list \<Rightarrow> int \<Rightarrow> gatewayCredentialSync" where
  "sync_entry c lockIDs version =
     \<lparr>gs_UserID = mc_UserID c, gs_UserEmail = mc_UserEmail c, gs_PublicKeyPEM = mc_PublicKeyPEM c,
      gs_LockIDs = lockIDs, gs_ExpiresAt = unix_sec (mc_ExpiresAt c), gs_RevokedAt = None,
      gs_SuspendedAt = None, gs_SyncVersion = version\<rparr>"

definition with_revocation :: "mobileCredential \<Rightarrow> gatewayCredentialSync \<Rightarrow> gatewayCredentialSync" where
  "with_revocation c entry =
     (case mc_RevokedAt c of
        Some r \<Rightarrow> if mc_Status c = ''revoked'' then entry\<lparr>gs_RevokedAt := Some (unix_sec r)\<rparr> else entry
      | None \<Rightarrow> entry)"

text \<open>\<open>userLockAccess\<close> is a Go map: an association list read through \<open>map_of\<close>.\<close>

definition BuildGatewayCredentialSync ::
  "time \<Rightarrow> string \<Rightarrow> string list \<Rightarrow> (string \<times> string list) list \<Rightarrow> credService \<Rightarrow>
   gatewayCredentialSync list" where
  "BuildGatewayCredentialSync now tenantID gatewayLockIDs userLockAccess s =
     List.map_filter (\<lambda>c.
        case map_of userLockAccess (mc_UserID c) of
          None \<Rightarrow> None
        | Some userLocks \<Rightarrow>
            let matched = filter (\<lambda>g. g \<in> set userLocks) gatewayLockIDs in
            if matched = [] then None else Some (sync_entry c matched 0))
       (ListActiveCredentials now tenantID s)"

definition UnixNano :: "time \<Rightarrow> int" where
  "UnixNano t = wrap64 t"

definition gatewayCredentialSyncVersion :: "mobileCredential \<Rightarrow> int" where
  "gatewayCredentialSyncVersion c =
     (case mc_RevokedAt c of
        None \<Rightarrow> UnixNano (mc_IssuedAt c)
      | Some r \<Rightarrow>
          if UnixNano r > UnixNano (mc_IssuedAt c) then UnixNano r
          else wrap64 (UnixNano (mc_IssuedAt c) + 1))"

definition intersectGatewayLocks :: "string list \<Rightarrow> string list \<Rightarrow> string list" where
  "intersectGatewayLocks gatewayLockSet userLocks =
     rev (remdups (rev (filter (\<lambda>i. i \<noteq> '''' \<and> i \<in> set gatewayLockSet) (map trim_space userLocks))))"

definition BuildGatewayCredentialSyncSince ::
  "time \<Rightarrow> string \<Rightarrow> string list \<Rightarrow> (string \<times> string list) list \<Rightarrow> int \<Rightarrow> credService \<Rightarrow>
   gatewayCredentialSync list" where
  "BuildGatewayCredentialSyncSince now tenantID gatewayLockIDs userLockAccess sinceVersion s =
     (let gatewayLockSet = filter (\<lambda>i. i \<noteq> '''') (map trim_space gatewayLockIDs) in
      if trim_space tenantID = '''' \<or> gatewayLockIDs = [] \<or> userLockAccess = [] \<or>
         gatewayLockSet = [] then []
      else
        List.map_filter (\<lambda>c.
          let version = gatewayCredentialSyncVersion c;
              lockIDs = intersectGatewayLocks gatewayLockSet
                          (get_or [] (map_of userLockAccess (mc_UserID c))) in
          if mc_TenantID c \<noteq> tenantID then None
          else if version \<le> sinceVersion then None
          else if mc_Status c \<noteq> ''active'' \<and> mc_Status c \<noteq> ''revoked'' then None
          else if mc_Status c = ''active'' \<and> \<not> mc_ExpiresAt c > now then None
          else if lockIDs = [] then None
          else Some (with_revocation c (sync_entry c lockIDs version)))
         (cs_credentials s))"

definition GetGatewayCredentialSyncSince :: "int \<Rightarrow> credService \<Rightarrow> gatewayCredentialSync list" where
  "GetGatewayCredentialSyncSince sinceVersion s =
     List.map_filter (\<lambda>c.
        let version = unix_sec (mc_IssuedAt c) in
        if version \<le> sinceVersion then None
        else Some (with_revocation c (sync_entry c [] version))) (cs_credentials s)"

section \<open>The service as a state machine\<close>

datatype cred_op =
    Register registerDeviceInput
  | Revoke string string
  | Suspend string string
  | Activate string string
  | RevokeAll string string
  | Refresh string string
  | Touch string string

fun cred_step ::
  "'k crypto \<Rightarrow> ('k, 'c) x509 \<Rightarrow> env \<Rightarrow> cred_op \<Rightarrow> credService \<Rightarrow> credService" where
  "cred_step cr x e (Register inp) s = snd (RegisterDevice cr x e inp s)"
| "cred_step cr x e (Revoke t c) s = snd (RevokeCredential e t c s)"
| "cred_step cr x e (Suspend t c) s = snd (SuspendCredential e t c s)"
| "cred_step cr x e (Activate t c) s = snd (ActivateCredential e t c s)"
| "cred_step cr x e (RevokeAll t u) s = snd (RevokeAllUserCredentials e t u s)"
| "cred_step cr x e (Refresh t c) s = snd (RefreshCredential e t c s)"
| "cred_step cr x e (Touch t c) s = TouchCredential e t c s"

fun cred_scope :: "cred_op \<Rightarrow> string" where
  "cred_scope (Register inp) = rd_TenantID inp"
| "cred_scope (Revoke t _) = t"
| "cred_scope (Suspend t _) = t"
| "cred_scope (Activate t _) = t"
| "cred_scope (RevokeAll t _) = t"
| "cred_scope (Refresh t _) = t"
| "cred_scope (Touch t _) = t"

section \<open>Lemmas\<close>

lemma credentials_persist [simp]:
  "cs_credentials (persistLocked_cred e s) = cs_credentials s"
  "cs_credentials (set_cred e i c s) = (cs_credentials s)[i := c]"
  by (simp_all add: persistLocked_cred_def set_cred_def)

text \<open>How one operation may change one record: never its identity or key, and a revoked
  credential only in its last use.\<close>

definition cred_evolves :: "mobileCredential \<Rightarrow> mobileCredential \<Rightarrow> bool" where
  "cred_evolves c d \<longleftrightarrow>
     mc_ID d = mc_ID c \<and> mc_TenantID d = mc_TenantID c \<and> mc_UserID d = mc_UserID c \<and>
     mc_DeviceID d = mc_DeviceID c \<and> mc_PublicKeyPEM d = mc_PublicKeyPEM c \<and>
     mc_IssuedAt d = mc_IssuedAt c \<and>
     (mc_Status c = ''revoked'' \<longrightarrow>
        mc_Status d = ''revoked'' \<and> mc_RevokedAt d = mc_RevokedAt c \<and> mc_ExpiresAt d = mc_ExpiresAt c)"

lemma cred_evolves_refl [simp]: "cred_evolves c c"
  by (simp add: cred_evolves_def)

lemma cred_evolves_trans: "cred_evolves a b \<Longrightarrow> cred_evolves b c \<Longrightarrow> cred_evolves a c"
  by (auto simp: cred_evolves_def)

definition creds_evolve :: "mobileCredential list \<Rightarrow> mobileCredential list \<Rightarrow> bool" where
  "creds_evolve cs ds \<longleftrightarrow>
     length cs \<le> length ds \<and> (\<forall>i<length cs. cred_evolves (cs ! i) (ds ! i))"

lemma creds_evolve_refl [simp]: "creds_evolve cs cs"
  by (simp add: creds_evolve_def)

lemma creds_evolve_trans: "creds_evolve a b \<Longrightarrow> creds_evolve b c \<Longrightarrow> creds_evolve a c"
  unfolding creds_evolve_def by (meson cred_evolves_trans le_trans less_le_trans)

lemma creds_evolve_update:
  "cred_evolves (cs ! i) d \<Longrightarrow> creds_evolve cs (cs[i := d])"
proof -
  assume h: "cred_evolves (cs ! i) d"
  have "cred_evolves (cs ! j) (cs[i := d] ! j)" if "j < length cs" for j
    using h that by (cases "j = i") simp_all
  then show ?thesis by (simp add: creds_evolve_def)
qed

lemma creds_evolve_map: "(\<And>c. cred_evolves c (f c)) \<Longrightarrow> creds_evolve cs (map f cs)"
  by (simp add: creds_evolve_def)

lemma creds_evolve_append: "creds_evolve cs ds \<Longrightarrow> creds_evolve cs (ds @ es)"
  by (auto simp: creds_evolve_def nth_append)

lemma find_cred_SomeD:
  assumes "find_cred t c s = Some i"
  shows "i < length (cs_credentials s)" and "mc_TenantID (cs_credentials s ! i) = t"
    and "mc_ID (cs_credentials s ! i) = c"
  using assms by (auto simp: find_cred_def find_idx_Some_iff)

lemma cred_step_evolves: "creds_evolve (cs_credentials s) (cs_credentials (cred_step cr x e op s))"
  by (cases op)
     (auto simp: RegisterDevice_def RevokeCredential_def SuspendCredential_def
       ActivateCredential_def RevokeAllUserCredentials_def RefreshCredential_def
       TouchCredential_def Let_def cred_evolves_def revoke_at_def
       intro!: creds_evolve_append creds_evolve_map creds_evolve_update
       split: option.splits sum.splits)

lemma cred_run_evolves:
  "creds_evolve (cs_credentials s)
     (cs_credentials (fold (\<lambda>(e, op). cred_step cr x e op) ops s))"
proof (induction ops arbitrary: s)
  case Nil
  then show ?case by simp
next
  case (Cons eo ops)
  obtain e op where "eo = (e, op)" by fastforce
  then show ?case
    using creds_evolve_trans [OF cred_step_evolves [of s cr x e op] Cons.IH] by simp
qed

section \<open>Isolation and durability\<close>

lemma filter_map_other:
  "(\<And>c. P c \<Longrightarrow> f c = c) \<Longrightarrow> (\<And>c. P (f c) = P c) \<Longrightarrow> filter P (map f cs) = filter P cs"
  by (induction cs) auto

lemma set_cred_other:
  assumes "find_cred t c s = Some i" and "mc_TenantID d = t" and "u \<noteq> t"
  shows "filter (\<lambda>r. mc_TenantID r = u) ((cs_credentials s)[i := d]) =
         filter (\<lambda>r. mc_TenantID r = u) (cs_credentials s)"
  using assms find_cred_SomeD [OF assms(1)] by (intro filter_update_other) auto

lemma cred_step_isolated:
  assumes "t \<noteq> cred_scope op"
  shows "filter (\<lambda>r. mc_TenantID r = t) (cs_credentials (cred_step cr x e op s)) =
         filter (\<lambda>r. mc_TenantID r = t) (cs_credentials s)"
  using assms
  by (cases op)
     (auto simp: RegisterDevice_def RevokeCredential_def SuspendCredential_def
       ActivateCredential_def RevokeAllUserCredentials_def RefreshCredential_def
       TouchCredential_def Let_def revoke_at_def
       intro!: set_cred_other filter_map_other dest: find_cred_SomeD
       split: option.splits sum.splits)

interpretation credential_isolation: tenant_isolated
  cs_credentials mc_TenantID cred_scope "cred_step cr x" for cr x
  by unfold_locales (rule cred_step_isolated)

text \<open>\<open>TouchCredential\<close> does not save, so the store is current up to the last use.\<close>

definition untouched :: "mobileCredential \<Rightarrow> mobileCredential" where
  "untouched c = c\<lparr>mc_LastUsedAt := None\<rparr>"

definition saved_untouched :: "credService \<Rightarrow> mobileCredential list store" where
  "saved_untouched s = map_store (map untouched) (cs_store s)"

definition cred_synced :: "credService \<Rightarrow> bool" where
  "cred_synced s \<longleftrightarrow> in_sync (map untouched (cs_credentials s)) (saved_untouched s)"

lemma persist_synced: "env_save_ok e \<Longrightarrow> cred_synced (persistLocked_cred e s)"
  by (auto simp: cred_synced_def in_sync_def saved_untouched_def persistLocked_cred_def
      store_save_def split: store.splits)

lemma set_cred_synced: "env_save_ok e \<Longrightarrow> cred_synced (set_cred e i c s)"
  by (simp add: set_cred_def persist_synced)

lemma map_none_hit: "filter P cs = [] \<Longrightarrow> map (\<lambda>c. if P c then f c else c) cs = cs"
  by (induction cs) (auto split: if_splits)

lemma touch_synced:
  "cred_synced s \<Longrightarrow> cred_synced (TouchCredential e t c s)"
  by (auto simp: cred_synced_def TouchCredential_def saved_untouched_def untouched_def
      map_update_same split: option.splits)

lemma revoke_all_synced:
  assumes "env_save_ok e" and "cred_synced s"
  shows "cred_synced (snd (RevokeAllUserCredentials e t u s))"
proof (cases "fst (RevokeAllUserCredentials e t u s) > 0")
  case True
  then show ?thesis
    using persist_synced [OF assms(1)] by (simp add: RevokeAllUserCredentials_def Let_def)
next
  case False
  then have "snd (RevokeAllUserCredentials e t u s) = s"
    by (simp add: RevokeAllUserCredentials_def Let_def map_none_hit)
  with assms(2) show ?thesis by simp
qed

lemma cred_step_synced:
  assumes "env_save_ok e" and "cred_synced s"
  shows "cred_synced (cred_step cr x e op s)"
  using assms
  by (cases op)
     (auto simp: RegisterDevice_def RevokeCredential_def SuspendCredential_def
       ActivateCredential_def RefreshCredential_def Let_def
       persist_synced set_cred_synced touch_synced revoke_all_synced
       split: option.splits sum.splits)

interpretation credential_durable: durable
  "\<lambda>s. map untouched (cs_credentials s)" saved_untouched "cred_step cr x" for cr x
  by unfold_locales (use cred_step_synced in \<open>simp add: cred_synced_def\<close>)

section \<open>Lemmas on verification and synchronisation\<close>

lemma parse_same: "ParseECPublicKey cr p = parseBLEPublicKey cr p"
  by (simp add: ParseECPublicKey_def parseBLEPublicKey_def)

lemma active_cred_SomeD:
  assumes "active_cred now t u s = Some c"
  shows "c \<in> set (cs_credentials s)" "mc_TenantID c = t" "mc_UserID c = u"
    "mc_Status c = ''active''" "mc_ExpiresAt c > now"
  using assms by (auto simp: active_cred_def find_Some_iff in_set_conv_nth)

lemma active_cred_None_iff:
  "active_cred now t u s = None \<longleftrightarrow>
   (\<forall>c\<in>set (cs_credentials s). mc_TenantID c = t \<and> mc_UserID c = u \<and> mc_Status c = ''active'' \<longrightarrow>
      mc_ExpiresAt c \<le> now)"
  by (auto simp: active_cred_def find_None_iff)

lemma intersect_Nil: "intersectGatewayLocks [] us = []" "intersectGatewayLocks gs [] = []"
  by (simp_all add: intersectGatewayLocks_def)

lemma ball_map_if:
  "(\<And>x. P x \<Longrightarrow> Q (f x)) \<Longrightarrow> (\<And>x. \<not> P x \<Longrightarrow> Q x) \<Longrightarrow>
   \<forall>y\<in>set (map (\<lambda>x. if P x then f x else x) xs). Q y"
  by (induction xs) auto

lemma sync_since_mem:
  assumes "c \<in> set (cs_credentials s)" and "mc_TenantID c = t" and "trim_space t \<noteq> ''''"
    and "gatewayCredentialSyncVersion c > since" and "mc_Status c = ''revoked''"
    and "intersectGatewayLocks (filter (\<lambda>i. i \<noteq> '''') (map trim_space gwLocks))
           (get_or [] (map_of acc (mc_UserID c))) = locks" and "locks \<noteq> []"
  shows "with_revocation c (sync_entry c locks (gatewayCredentialSyncVersion c))
         \<in> set (BuildGatewayCredentialSyncSince now t gwLocks acc since s)"
proof -
  have ne: "filter (\<lambda>i. i \<noteq> '''') (map trim_space gwLocks) \<noteq> []"
    using assms(6,7) by (metis intersect_Nil(1))
  then have "gwLocks \<noteq> []" by auto
  moreover have "acc \<noteq> []"
    using assms(6,7) by (auto simp: get_or_def intersect_Nil)
  ultimately show ?thesis
    using assms ne
    by (force simp: BuildGatewayCredentialSyncSince_def Let_def List.map_filter_def)
qed

lemma UnixNano_small: "0 \<le> t \<Longrightarrow> t < 2 ^ 63 \<Longrightarrow> UnixNano t = t"
  by (simp add: UnixNano_def wrap64_small)

section \<open>Properties\<close>

text \<open>
  C32: Revocation is final.  Once a credential is revoked, no sequence of registrations,
  suspensions, activations, revocations, refreshes and touches, with any clock and store
  behaviour, changes its status, owner, key or revocation time, and no later signature check
  returns it.
\<close>

theorem revoked_forever:
  assumes "i < length (cs_credentials s)" and "mc_Status (cs_credentials s ! i) = ''revoked''"
    and "s' = fold (\<lambda>(e, op). cred_step cr x e op) ops s"
  shows "i < length (cs_credentials s') \<and> mc_Status (cs_credentials s' ! i) = ''revoked'' \<and>
    mc_RevokedAt (cs_credentials s' ! i) = mc_RevokedAt (cs_credentials s ! i) \<and>
    mc_PublicKeyPEM (cs_credentials s' ! i) = mc_PublicKeyPEM (cs_credentials s ! i) \<and>
    VerifyBLESignatureV2_svc cr now t u n tag sg s' \<noteq> Inr (cs_credentials s' ! i) \<and>
    VerifyBLESignature_svc cr now t u n sg s' \<noteq> Inr (cs_credentials s' ! i)"
proof -
  have ev: "creds_evolve (cs_credentials s) (cs_credentials s')"
    unfolding assms(3) by (rule cred_run_evolves)
  then have r: "i < length (cs_credentials s')"
    "cred_evolves (cs_credentials s ! i) (cs_credentials s' ! i)"
    using assms(1) by (auto simp: creds_evolve_def)
  then have "mc_Status (cs_credentials s' ! i) = ''revoked''"
    using assms(2) by (simp add: cred_evolves_def)
  then have "active_cred now t u s' \<noteq> Some (cs_credentials s' ! i)"
    using active_cred_SomeD(4) by force
  then show ?thesis
    using r assms(2)
    by (auto simp: cred_evolves_def VerifyBLESignatureV2_svc_def VerifyBLESignature_svc_def Let_def
        split: option.splits sum.splits if_splits)
qed

definition demo_cred :: mobileCredential where
  "demo_cred =
     \<lparr>mc_ID = ''c1'', mc_TenantID = ''t1'', mc_UserID = ''u1'', mc_UserEmail = ''u1@x'',
      mc_DeviceID = ''d1'', mc_Platform = ''android'', mc_DeviceModel = '''',
      mc_KeystoreLevel = ''tee'', mc_PublicKeyPEM = ''key'', mc_Status = ''active'',
      mc_IssuedAt = 1000, mc_ExpiresAt = 100000, mc_RevokedAt = None, mc_LastUsedAt = None\<rparr>"

definition demo_creds :: credService where
  "demo_creds = \<lparr>cs_credentials = [revoke_at 2000 demo_cred, demo_cred\<lparr>mc_ID := ''c2''\<rparr>],
                 cs_store = NoStore\<rparr>"

definition demo_env :: env where
  "demo_env = \<lparr>env_now = 5000, env_save_ok = True, env_rand = Some ''ab''\<rparr>"

definition demo_x509 :: "(byte list, unit) x509" where
  "demo_x509 = \<lparr>b64_Decode = (\<lambda>s. None), ParseCertificate = (\<lambda>b. None),
     CheckSignatureFrom = (\<lambda>a b. False), Marshal_cert_key = (\<lambda>c. None),
     MarshalPKIXPublicKey = (\<lambda>k. None)\<rparr>"

theorem revoked_forever_witness:
  "mc_Status (cs_credentials (fold (\<lambda>(e, op). cred_step demo_crypto demo_x509 e op)
      [(demo_env, Activate ''t1'' ''c1''), (demo_env, Refresh ''t1'' ''c1'')] demo_creds) ! 0) =
   ''revoked''"
proof -
  have "0 < length (cs_credentials demo_creds)" "mc_Status (cs_credentials demo_creds ! 0) = ''revoked''"
    by code_simp+
  from revoked_forever [OF this refl] show ?thesis by blast
qed

text \<open>
  C33: A revocation reaches every gateway.  After a successful \<open>RevokeCredential\<close>, a gateway
  that controls one of the user's locks and whose last version is older than the revocation
  is sent the credential's key together with its revocation time.
\<close>

theorem revocation_reaches_gateways:
  assumes "RevokeCredential e t cid s = (Inr (), s')"
    and "find_cred t cid s = Some i" and "c = cs_credentials s ! i"
    and "0 \<le> mc_IssuedAt c" and "mc_IssuedAt c \<le> env_now e" and "env_now e < 2 ^ 63 - 1"
    and "since < env_now e" and "trim_space t \<noteq> ''''"
    and "intersectGatewayLocks (filter (\<lambda>i. i \<noteq> '''') (map trim_space gwLocks))
           (get_or [] (map_of acc (mc_UserID c))) \<noteq> []"
  shows "\<exists>entry. entry \<in> set (BuildGatewayCredentialSyncSince now t gwLocks acc since s') \<and>
    gs_UserID entry = mc_UserID c \<and> gs_PublicKeyPEM entry = mc_PublicKeyPEM c \<and>
    gs_RevokedAt entry = Some (unix_sec (env_now e))"
proof -
  let ?c = "revoke_at (env_now e) c"
  note f = find_cred_SomeD [OF assms(2)]
  have s': "cs_credentials s' = (cs_credentials s)[i := ?c]"
    using assms(1-3) by (auto simp: RevokeCredential_def Let_def split: if_splits)
  then have "?c \<in> set (cs_credentials s')"
    using f(1) by (simp add: set_update_memI)
  moreover have "gatewayCredentialSyncVersion ?c > since"
    using assms(4-7) by (simp add: gatewayCredentialSyncVersion_def revoke_at_def UnixNano_small wrap64_small)
  ultimately have "with_revocation ?c (sync_entry ?c
      (intersectGatewayLocks (filter (\<lambda>i. i \<noteq> '''') (map trim_space gwLocks))
        (get_or [] (map_of acc (mc_UserID c)))) (gatewayCredentialSyncVersion ?c))
      \<in> set (BuildGatewayCredentialSyncSince now t gwLocks acc since s')"
    using f(2) assms(3,8,9) by (intro sync_since_mem) (auto simp: revoke_at_def)
  then show ?thesis
    by (rule_tac exI, rule_tac conjI, assumption)
       (simp add: with_revocation_def sync_entry_def revoke_at_def)
qed

theorem revocation_reaches_gateways_witness:
  "\<exists>entry. entry \<in> set (BuildGatewayCredentialSyncSince 6000 ''t1'' [''l1''] [(''u1'', [''l1''])] 4999
       (snd (RevokeCredential demo_env ''t1'' ''c2'' demo_creds))) \<and>
     gs_UserID entry = ''u1'' \<and> gs_PublicKeyPEM entry = ''key'' \<and> gs_RevokedAt entry = Some 0"
proof -
  have r: "RevokeCredential demo_env ''t1'' ''c2'' demo_creds =
      (Inr (), snd (RevokeCredential demo_env ''t1'' ''c2'' demo_creds))"
    by (simp add: prod_eq_iff) code_simp
  have f: "find_cred ''t1'' ''c2'' demo_creds = Some 1" by code_simp
  have "\<exists>entry. entry \<in> set (BuildGatewayCredentialSyncSince 6000 ''t1'' [''l1''] [(''u1'', [''l1''])] 4999
       (snd (RevokeCredential demo_env ''t1'' ''c2'' demo_creds))) \<and>
     gs_UserID entry = mc_UserID (cs_credentials demo_creds ! 1) \<and>
     gs_PublicKeyPEM entry = mc_PublicKeyPEM (cs_credentials demo_creds ! 1) \<and>
     gs_RevokedAt entry = Some (unix_sec (env_now demo_env))"
    by (rule revocation_reaches_gateways [OF r f refl]) code_simp+
  then show ?thesis
    by (simp add: demo_creds_def demo_cred_def demo_env_def unix_sec_def ns_second_def)
qed

text \<open>
  Terminating a user closes the cloud check at once.  After \<open>RevokeAllUserCredentials\<close>
  the returned count is the number of credentials that were active, every signature check
  for that user and tenant fails for lack of a credential, at any time and for any
  signature, and the user's keys are in no list of active credentials.
\<close>

lemma revoke_all_effective:
  assumes "RevokeAllUserCredentials e t u s = (n, s')"
  shows "n = length (filter (\<lambda>c. mc_TenantID c = t \<and> mc_UserID c = u \<and> mc_Status c = ''active'')
                     (cs_credentials s)) \<and>
    VerifyBLESignature_svc cr now t u nonce sg s' = Inl NoActiveCredential \<and>
    VerifyBLESignatureV2_svc cr now t u nonce tag sg s' = Inl NoActiveCredential \<and>
    filter (\<lambda>c. mc_UserID c = u) (ListActiveCredentials now t s') = []"
proof -
  have s': "cs_credentials s' = map (\<lambda>c. if mc_TenantID c = t \<and> mc_UserID c = u \<and>
      mc_Status c = ''active'' then revoke_at (env_now e) c else c) (cs_credentials s)"
    using assms by (auto simp: RevokeAllUserCredentials_def Let_def split: if_splits)
  have none: "\<forall>c\<in>set (cs_credentials s').
      \<not> (mc_TenantID c = t \<and> mc_UserID c = u \<and> mc_Status c = ''active'')"
    unfolding s' by (rule ball_map_if) (simp_all add: revoke_at_def)
  then have "active_cred now t u s' = None"
    unfolding active_cred_None_iff by blast
  moreover have "filter (\<lambda>c. mc_UserID c = u) (ListActiveCredentials now t s') = []"
    using none by (auto simp: ListActiveCredentials_def filter_empty_conv)
  ultimately show ?thesis
    using assms
    by (auto simp: VerifyBLESignature_svc_def VerifyBLESignatureV2_svc_def
        RevokeAllUserCredentials_def Let_def)
qed

lemma revoke_all_effective_instance:
  "VerifyBLESignatureV2_svc demo_crypto 6000 ''t1'' ''u1'' [] ''BLE'' []
     (snd (RevokeAllUserCredentials demo_env ''t1'' ''u1'' demo_creds)) = Inl NoActiveCredential"
  using revoke_all_effective
    [OF surjective_pairing, where e = demo_env and t = "''t1''" and u = "''u1''" and s = demo_creds
      and cr = demo_crypto and now = 6000 and nonce = "[]" and tag = "''BLE''" and sg = "[]"]
  by (elim conjE)

text \<open>
  The cloud's own check of a v2 response (\<open>credential/service.go\<close>) accepts what the gateway agent's
  (\<open>ble_protocol.go\<close>) accepts under the key of the user's first active credential.
\<close>

lemma cloud_check_as_gateway:
  "VerifyBLESignatureV2_svc cr now t u nonce tag sg s = Inr c \<longleftrightarrow>
   active_cred now t u s = Some c \<and> VerifyBLESignatureV2 cr (mc_PublicKeyPEM c) nonce u tag sg = Inr ()"
  by (auto simp: VerifyBLESignatureV2_svc_def VerifyBLESignatureV2_def messageV2_def verify_hash_def parse_same Let_def
      split: sum.splits option.splits)

text \<open>
  Registering a device replaces it.  A successful registration has a valid P-256 key and
  an attestation chain, if one is given, whose leaf carries that key; the new credential is
  active, expires after the time its keystore level allows, and is the only active
  credential of that tenant, user and device.
\<close>

lemma register_replaces:
  assumes "RegisterDevice cr x e input s = (Inr cred, s')"
  shows "(\<exists>k. ParseECPublicKey cr (rd_PublicKeyPEM input) = Inr k) \<and>
    ValidateAttestation cr x (rd_AttestationCertChain input) (rd_PublicKeyPEM input) = None \<and>
    last (cs_credentials s') = cred \<and> mc_Status cred = ''active'' \<and>
    mc_PublicKeyPEM cred = rd_PublicKeyPEM input \<and>
    mc_ExpiresAt cred = env_now e + CredentialTTL (rd_KeystoreLevel input) \<and>
    filter (\<lambda>c. mc_TenantID c = rd_TenantID input \<and> mc_UserID c = rd_UserID input \<and>
      mc_DeviceID c = rd_DeviceID input \<and> mc_Status c = ''active'') (cs_credentials s') = [cred]"
  using assms
  by (auto simp: RegisterDevice_def Let_def revoke_at_def filter_empty_conv
      split: option.splits sum.splits if_splits)

definition demo_input :: registerDeviceInput where
  "demo_input = \<lparr>rd_TenantID = ''t1'', rd_UserID = ''u1'', rd_UserEmail = ''u1@x'',
     rd_PublicKeyPEM = ''key2'', rd_Platform = ''Android'', rd_DeviceID = ''d1'',
     rd_DeviceModel = '''', rd_KeystoreLevel = ''tee'', rd_AttestationCertChain = []\<rparr>"

lemma register_replaces_instance:
  "\<exists>cred s'. RegisterDevice demo_crypto demo_x509 demo_env demo_input demo_creds = (Inr cred, s') \<and>
     filter (\<lambda>c. mc_TenantID c = rd_TenantID demo_input \<and> mc_UserID c = rd_UserID demo_input \<and>
       mc_DeviceID c = rd_DeviceID demo_input \<and> mc_Status c = ''active'') (cs_credentials s') = [cred]"
proof -
  let ?r = "RegisterDevice demo_crypto demo_x509 demo_env demo_input demo_creds"
  have "(case fst ?r of Inr _ \<Rightarrow> True | Inl _ \<Rightarrow> False)" by code_simp
  then obtain cred s' where r: "?r = (Inr cred, s')"
    by (cases "fst ?r"; cases ?r) auto
  from register_replaces [OF r] r show ?thesis by blast
qed

text \<open>
  One tenant's operations never touch another's credentials.  Running any operations for
  tenants other than \<open>t\<close> leaves the list of \<open>t\<close>'s credentials exactly as it was.
\<close>

lemma credentials_isolated:
  assumes "\<And>e op. (e, op) \<in> set ops \<Longrightarrow> cred_scope op \<noteq> '''' \<and> cred_scope op \<noteq> t"
  shows "filter (\<lambda>c. mc_TenantID c = t)
           (cs_credentials (fold (\<lambda>(e, op). cred_step cr x e op) ops s)) =
         filter (\<lambda>c. mc_TenantID c = t) (cs_credentials s)"
  using assms by (rule credential_isolation.run_isolated)

lemma credentials_isolated_instance:
  "filter (\<lambda>c. mc_TenantID c = ''t1'') (cs_credentials
     (fold (\<lambda>(e, op). cred_step demo_crypto demo_x509 e op)
       [(demo_env, RevokeAll ''t2'' ''u1''), (demo_env, Suspend ''t2'' ''c2'')] demo_creds)) =
   filter (\<lambda>c. mc_TenantID c = ''t1'') (cs_credentials demo_creds)"
  by (rule credentials_isolated) auto

text \<open>
  A restart loses nothing but last-use times.  While every save succeeds, a service that
  started in step with its store and ran any operations is restored from the store with the
  same credentials, in the same order, up to \<open>LastUsedAt\<close>.
\<close>

lemma credentials_survive_restart:
  assumes "\<And>e op. (e, op) \<in> set ops \<Longrightarrow> env_save_ok e"
    and "cs_store s = Store (Some (cs_credentials s))"
    and "s' = fold (\<lambda>(e, op). cred_step cr x e op) ops s"
  shows "map untouched (cs_credentials (restoreFromStateStore_cred (s'\<lparr>cs_credentials := seed\<rparr>))) =
         map untouched (cs_credentials s')"
proof -
  have "in_sync (map untouched (cs_credentials s)) (saved_untouched s)"
    using assms(2) by (simp add: in_sync_def saved_untouched_def)
  with assms(1) have sync: "in_sync (map untouched (cs_credentials s')) (saved_untouched s')"
    unfolding assms(3) by (rule credential_durable.run_in_sync)
  have "cs_store s' \<noteq> NoStore"
  proof -
    have "(cs_store (cred_step cr x e op r) = NoStore) = (cs_store r = NoStore)" for e op r
      by (cases op)
         (auto simp: RegisterDevice_def RevokeCredential_def SuspendCredential_def
           ActivateCredential_def RevokeAllUserCredentials_def RefreshCredential_def
           TouchCredential_def Let_def persistLocked_cred_def set_cred_def store_save_def
           split: option.splits sum.splits store.splits)
    then have "(cs_store (fold (\<lambda>(e, op). cred_step cr x e op) ops r) = NoStore) =
        (cs_store r = NoStore)" for r
      by (induction ops arbitrary: r) auto
    then show ?thesis using assms(2,3) by simp
  qed
  with sync show ?thesis
    by (auto simp: in_sync_def saved_untouched_def restoreFromStateStore_cred_def
        split: store.splits option.splits)
qed

lemma credentials_survive_restart_instance:
  "map untouched (cs_credentials (restoreFromStateStore_cred
     ((fold (\<lambda>(e, op). cred_step demo_crypto demo_x509 e op)
       [(demo_env, Touch ''t1'' ''c2''), (demo_env, Suspend ''t1'' ''c2'')]
       (demo_creds\<lparr>cs_store := Store (Some (cs_credentials demo_creds))\<rparr>))\<lparr>cs_credentials := []\<rparr>))) =
   map untouched (cs_credentials (fold (\<lambda>(e, op). cred_step demo_crypto demo_x509 e op)
       [(demo_env, Touch ''t1'' ''c2''), (demo_env, Suspend ''t1'' ''c2'')]
       (demo_creds\<lparr>cs_store := Store (Some (cs_credentials demo_creds))\<rparr>)))"
  by (rule credentials_survive_restart [OF _ _ refl]) (auto simp: demo_env_def)

section \<open>What the code leaves open\<close>

text \<open>A suspended credential is in no list: a gateway that holds its key keeps it.\<close>

lemma suspension_not_synced:
  assumes "cs_credentials s = [c]" and "mc_Status c = ''suspended''"
  shows "BuildGatewayCredentialSyncSince now t gwLocks acc since s = []"
  using assms by (simp add: BuildGatewayCredentialSyncSince_def Let_def List.map_filter_def)

text \<open>The keystore level is validated without regard to case, but the lifetime is looked up
  with case: a StrongBox key registered as such gets seven days instead of ninety.\<close>

lemma keystore_case_lifetime:
  "validateRegisterInput (demo_input\<lparr>rd_KeystoreLevel := ''StrongBox''\<rparr>) = None"
  "CredentialTTL ''StrongBox'' = TTLSoftware"
  by code_simp+

end
