(* ===== verification/Verify_Credential.thy ===== *)
theory Verify_Credential
  imports Gateway_Request Access_Directory Access_Schedule Physical_Card Space_Topology Event_Log Mobile_Credential
    "HOL-Library.AList"
begin

text \<open>
  \<open>internal/http/routes_gateway_verify.go\<close>: the decision whether a credential presented at a lock
  opens it.  The route asks the access, wallet, space and credential modules, records the decision
  in the event log and tells the gateway to unlock.  One clock reading stands for the several of a
  call; camera snapshots are left out; the message bus keeps the commands handed to it.
\<close>

section \<open>Requests, answers, state\<close>

record verifyCredentialRequest =
  vr_GatewayID :: string
  vr_ReaderID :: string
  vr_LockID :: string
  vr_TenantID :: string
  vr_CredentialType :: string
  vr_CredentialData :: string
  vr_UserID :: string
  vr_TransportTag :: string
  vr_Signature :: string

record verifyCredentialResponse =
  vp_Decision :: string
  vp_Reason :: string
  vp_UserID :: string
  vp_UserName :: string
  vp_UserEmail :: string
  vp_GroupName :: string
  vp_LockID :: string
  vp_GatewayID :: string
  vp_CredentialType :: string
  vp_EvaluatedAt :: string

record credentialSighting =
  sg_LockID :: string
  sg_SeenAt :: time
  sg_Count :: int

record gatewayCommand =
  gm_RequestID :: string
  gm_GatewayID :: string
  gm_Command :: string
  gm_LockID :: string
  gm_TenantID :: string
  gm_IssuedBy :: string
  gm_IssuedAt :: string

record verifyServer =
  vs_access :: accessService
  vs_wallet :: walletService
  vs_space :: spaceService
  vs_events :: eventService
  vs_credentials :: "credService option"
  vs_request :: requestServer
  vs_lastSeen :: "(string \<times> credentialSighting) list"
  vs_busEnabled :: bool
  vs_commands :: "(string \<times> gatewayCommand) list"

section \<open>Who presents the credential\<close>

definition isPassExpired :: "string \<Rightarrow> time \<Rightarrow> bool" where
  "isPassExpired expiresAt now =
     (let ea = trim_space expiresAt in
      ea \<noteq> '''' \<and> (case parse_rfc3339 ea of None \<Rightarrow> False | Some t \<Rightarrow> now > t))"

definition isGroupLinkExpired :: "string \<Rightarrow> time \<Rightarrow> bool" where
  "isGroupLinkExpired validUntil now =
     (let vu = trim_space validUntil in
      vu \<noteq> '''' \<and> (case parse_rfc3339 vu of None \<Rightarrow> False | Some t \<Rightarrow> now > t))"

definition pass_usable :: "time \<Rightarrow> passInstance \<Rightarrow> bool" where
  "pass_usable now p \<longleftrightarrow> pi_TargetType p = ''user'' \<and> pi_Status p = ''active'' \<and> \<not> isPassExpired (pi_ExpiresAt p) now"

text \<open>The loop over the inventory: the holder of the usable pass of the first matching card.\<close>

definition card_pass :: "time \<Rightarrow> string \<Rightarrow> physicalCardInventoryItem \<Rightarrow> walletService \<Rightarrow> passInstance option" where
  "card_pass now t c s =
     (if ci_AssignedPassID c = '''' then None
      else
        (case GetPass t (ci_AssignedPassID c) s of
           Inl _ \<Rightarrow> None | Inr p \<Rightarrow> if pass_usable now p then Some p else None))"

definition card_holder ::
  "(physicalCardInventoryItem \<Rightarrow> string) \<Rightarrow> time \<Rightarrow> string \<Rightarrow> string \<Rightarrow> walletService \<Rightarrow> string option" where
  "card_holder key now t data s =
     (case find (\<lambda>c. equal_fold (key c) data \<and> card_pass now t c s \<noteq> None) (ListPhysicalCardInventory t '''' s) of
        None \<Rightarrow> None
      | Some c \<Rightarrow> map_option pi_TargetID (card_pass now t c s))"

definition pass_holder :: "(passInstance \<Rightarrow> bool) \<Rightarrow> time \<Rightarrow> string \<Rightarrow> walletService \<Rightarrow> string option" where
  "pass_holder P now t s = map_option pi_TargetID (find (\<lambda>p. P p \<and> pass_usable now p) (ListPasses t s))"

definition link_holder :: "time \<Rightarrow> string \<Rightarrow> string \<Rightarrow> accessService \<Rightarrow> string option" where
  "link_holder now t data s =
     (case find (\<lambda>l. gl_Secret l = data \<or> gl_QuickResponseCodeToken l = data) (ListGroupLinks t s) of
        None \<Rightarrow> None
      | Some l \<Rightarrow> if \<not> gl_LinkEnabled l \<or> isGroupLinkExpired (gl_ValidUntil l) now then None
                  else Some (''qr_visitor:'' @ gl_GroupID l))"

definition resolveCredentialToUser :: "time \<Rightarrow> string \<Rightarrow> string \<Rightarrow> string \<Rightarrow> verifyServer \<Rightarrow> string option" where
  "resolveCredentialToUser now t credType data s =
     (if credType = ''nfc_uid'' then
        (case card_holder ci_UID now t data (vs_wallet s) of
           Some u \<Rightarrow> Some u
         | None \<Rightarrow> pass_holder (\<lambda>p. equal_fold (pi_UID p) data) now t (vs_wallet s))
      else if credType = ''card_number'' then card_holder ci_CardNumber now t data (vs_wallet s)
      else if credType = ''ble_token'' then pass_holder (\<lambda>p. pi_Token p = data) now t (vs_wallet s)
      else if credType = ''qr_code'' then link_holder now t data (vs_access s)
      else None)"

definition resolveBLESignatureToUser ::
  "'k crypto \<Rightarrow> time \<Rightarrow> string \<Rightarrow> string \<Rightarrow> verifyCredentialRequest \<Rightarrow> verifyServer \<Rightarrow> string option" where
  "resolveBLESignatureToUser cr now nonceHeader t req s =
     (case vs_credentials s of
        None \<Rightarrow> None
      | Some creds \<Rightarrow>
          let u = trim_space (vr_UserID req); nonce = trim_space nonceHeader; sig = trim_space (vr_Signature req);
              tag = (if trim_space (vr_TransportTag req) = '''' then ''BLE'' else trim_space (vr_TransportTag req)) in
          if u = '''' \<or> nonce = '''' \<or> sig = '''' then None
          else
            (case b64_decode sig of
               None \<Rightarrow> None
             | Some signature \<Rightarrow>
                 (case VerifyBLESignatureV2_svc cr now t u (bytes_of nonce) tag signature creds of
                    Inl _ \<Rightarrow> None | Inr _ \<Rightarrow> Some u)))"

definition guestCanAccessDoor :: "string \<Rightarrow> guest \<Rightarrow> string \<Rightarrow> verifyServer \<Rightarrow> bool" where
  "guestCanAccessDoor t g lockID s =
     (if gu_DoorIDs g \<noteq> [] then list_ex (\<lambda>d. equal_fold (trim_space d) lockID) (gu_DoorIDs g)
      else if trim_space (gu_BuildingID g) = '''' then True
      else
        (case GetDoor t lockID (vs_space s) of
           Inl _ \<Rightarrow> False
         | Inr d \<Rightarrow> equal_fold (trim_space (dr_BuildingID d)) (trim_space (gu_BuildingID g))))"

section \<open>Anomalies\<close>

definition sighting_key :: "string \<Rightarrow> string \<Rightarrow> string" where
  "sighting_key t data = t @ '':'' @ data"

definition first_sighting ::
  "string \<Rightarrow> string \<Rightarrow> time \<Rightarrow> (string \<times> credentialSighting) list \<Rightarrow> (string \<times> credentialSighting) list" where
  "first_sighting key lockID now seen =
     (let seen' = AList.update key \<lparr>sg_LockID = lockID, sg_SeenAt = now, sg_Count = 1\<rparr> seen in
      if length seen' > 500 then filter (\<lambda>(k, v). \<not> sg_SeenAt v < now - 2 * ns_minute) seen' else seen')"

definition checkCredentialAnomaly ::
  "string \<Rightarrow> string \<Rightarrow> string \<Rightarrow> time \<Rightarrow> (string \<times> credentialSighting) list \<Rightarrow>
   string \<times> (string \<times> credentialSighting) list" where
  "checkCredentialAnomaly t data lockID now seen =
     (let key = sighting_key t data in
      case map_of seen key of
        None \<Rightarrow> ('''', first_sighting key lockID now seen)
      | Some prev \<Rightarrow>
          let elapsed = time_sub now (sg_SeenAt prev); n = wrap64 (sg_Count prev + 1) in
          if sg_LockID prev \<noteq> lockID \<and> elapsed < 30 * ns_second then (''anomaly_impossible_travel'', seen)
          else if sg_LockID prev = lockID \<and> elapsed < 60 * ns_second then
            (if n > 5 then (''anomaly_rate_limit'', AList.update key (prev\<lparr>sg_Count := n\<rparr>) seen)
             else ('''', AList.update key (prev\<lparr>sg_Count := n, sg_SeenAt := now\<rparr>) seen))
          else ('''', first_sighting key lockID now seen))"

section \<open>What the user may open\<close>

definition checkUserLockAccess :: "string \<Rightarrow> string list \<Rightarrow> string \<Rightarrow> spaceService \<Rightarrow> string option" where
  "checkUserLockAccess t groupIDs lockID s =
     map_option dg_Name (find (\<lambda>g. dg_ID g \<in> set groupIDs \<and> lockID \<in> set (dg_DoorIDs g)) (ListDoorGroups t s))"

definition checkRoleAssignmentAccess :: "string \<Rightarrow> string \<Rightarrow> string \<Rightarrow> accessService \<Rightarrow> bool" where
  "checkRoleAssignmentAccess t userID placeID s =
     list_ex (\<lambda>ra. ra_AssigneeType ra = ''User'' \<and> ra_AssigneeID ra = userID \<and>
                (ra_AppliesToType ra = ''Organization'' \<or> ra_AppliesToType ra = ''Place'' \<and> ra_AppliesToID ra = placeID))
       (ListRoleAssignments t s)"

definition assignment_evaluation :: "string \<Rightarrow> time \<Rightarrow> accessService \<Rightarrow> roleAssignment \<Rightarrow> scheduleEvaluation" where
  "assignment_evaluation t now s ra =
     EvaluateSchedule now (ra_ValidFrom ra) (ra_ValidUntil ra) (ra_TimeWindows ra) (ra_ExceptionDates ra)
       (if ra_HolidayCalendarID ra = '''' then []
        else (case GetHolidayCalendar t (ra_HolidayCalendarID ra) s of Inl _ \<Rightarrow> [] | Inr c \<Rightarrow> hc_Entries c))"

definition time_restricted :: "roleAssignment \<Rightarrow> bool" where
  "time_restricted ra \<longleftrightarrow> ra_ValidFrom ra \<noteq> '''' \<or> ra_ValidUntil ra \<noteq> '''' \<or> ra_TimeWindows ra \<noteq> [] \<or> ra_ExceptionDates ra \<noteq> []"

definition evaluateAccessSchedule :: "string \<Rightarrow> string \<Rightarrow> string \<Rightarrow> time \<Rightarrow> accessService \<Rightarrow> string" where
  "evaluateAccessSchedule t userID placeID now s =
     (case find (\<lambda>ra. ra_AssigneeType ra = ''User'' \<and> ra_AssigneeID ra = userID \<and>
                   (placeID = '''' \<or> ra_AppliesToID ra = placeID) \<and> time_restricted ra \<and>
                   \<not> ev_IsActive (assignment_evaluation t now s ra)) (ListRoleAssignments t s) of
        None \<Rightarrow> '''' | Some ra \<Rightarrow> ev_Reason (assignment_evaluation t now s ra))"

section \<open>The decision\<close>

definition answer ::
  "verifyCredentialRequest \<Rightarrow> time \<Rightarrow> string \<Rightarrow> string \<Rightarrow> string \<Rightarrow> string \<Rightarrow> string \<Rightarrow> string \<Rightarrow> verifyCredentialResponse" where
  "answer req now decision reason userID name email grp =
     \<lparr>vp_Decision = decision, vp_Reason = reason, vp_UserID = userID, vp_UserName = name, vp_UserEmail = email,
      vp_GroupName = grp, vp_LockID = trim_space (vr_LockID req), vp_GatewayID = trim_space (vr_GatewayID req),
      vp_CredentialType = trim_space (vr_CredentialType req), vp_EvaluatedAt = format_rfc3339 now\<rparr>"

text \<open>A grant names the subject and the issuer of the unlock command.\<close>

datatype verdict = Unrecorded verifyCredentialResponse | Recorded verifyCredentialResponse "(string \<times> string) option"

text \<open>Steps 3 to 5, for an active user without anomaly.\<close>

definition decide_access ::
  "verifyCredentialRequest \<Rightarrow> time \<Rightarrow> string \<Rightarrow> accessUser \<Rightarrow> verifyServer \<Rightarrow> verdict" where
  "decide_access req now userID user s =
     (let t = trim_space (vr_TenantID req); lock = trim_space (vr_LockID req);
          say = (\<lambda>decision reason grp. answer req now decision reason (us_ID user) (us_Name user) (us_Email user) grp);
          grant = (\<lambda>grp. Recorded (say ''allow'' ''access_granted'' grp) (Some (userID, us_Email user)));
          deny = (\<lambda>reason grp. Recorded (say ''deny'' reason grp) None) in
      case checkUserLockAccess t (us_GroupIDs user) lock (vs_space s) of
        Some grp \<Rightarrow>
          if grp = ''role_assignment'' then
            (let reason = evaluateAccessSchedule t userID '''' now (vs_access s) in
             if reason \<noteq> '''' then deny reason grp else grant grp)
          else grant grp
      | None \<Rightarrow>
          (case GetDoor t lock (vs_space s) of
             Inl _ \<Rightarrow> deny ''no_access'' ''''
           | Inr d \<Rightarrow>
               if \<not> checkRoleAssignmentAccess t userID (dr_BuildingID d) (vs_access s) then deny ''no_access'' ''''
               else
                 (let reason = evaluateAccessSchedule t userID (dr_BuildingID d) now (vs_access s) in
                  if reason \<noteq> '''' then deny reason ''role_assignment'' else grant ''role_assignment'')))"

definition decide_user ::
  "'k crypto \<Rightarrow> time \<Rightarrow> string \<Rightarrow> verifyCredentialRequest \<Rightarrow> verifyServer \<Rightarrow>
   verdict \<times> (string \<times> credentialSighting) list" where
  "decide_user cr now nonceHeader req s =
     (let t = trim_space (vr_TenantID req); ct = trim_space (vr_CredentialType req);
          data = trim_space (vr_CredentialData req); seen = vs_lastSeen s in
      case (if ct = ''ble_signature'' then resolveBLESignatureToUser cr now nonceHeader t req s
            else resolveCredentialToUser now t ct data s) of
        None \<Rightarrow> (Recorded (answer req now ''deny'' ''credential_not_found'' '''' '''' '''' '''') None, seen)
      | Some u \<Rightarrow>
          (case GetUser t u (vs_access s) of
             Inl _ \<Rightarrow> (Recorded (answer req now ''deny'' ''user_not_found'' u '''' '''' '''') None, seen)
           | Inr user \<Rightarrow>
               if us_Status user \<noteq> ''active''
                 then (Recorded (answer req now ''deny'' ''user_suspended'' u '''' '''' '''') None, seen)
               else if ct = ''nfc_uid'' then
                 (case checkCredentialAnomaly t data (trim_space (vr_LockID req)) now seen of
                    (reason, seen') \<Rightarrow>
                      if reason \<noteq> ''''
                        then (Recorded (answer req now ''deny'' reason (us_ID user) (us_Name user) (us_Email user) '''') None, seen')
                      else (decide_access req now u user s, seen'))
               else (decide_access req now u user s, seen)))"

definition verify_decision ::
  "'k crypto \<Rightarrow> time \<Rightarrow> string \<Rightarrow> verifyCredentialRequest \<Rightarrow> verifyServer \<Rightarrow>
   verdict \<times> (string \<times> credentialSighting) list" where
  "verify_decision cr now nonceHeader req s =
     (let t = trim_space (vr_TenantID req); ct = trim_space (vr_CredentialType req);
          data = trim_space (vr_CredentialData req); lock = trim_space (vr_LockID req) in
      if data = '''' \<and> ct \<noteq> ''ble_signature''
        then (Unrecorded (answer req now ''deny'' ''empty_credential'' '''' '''' '''' ''''), vs_lastSeen s)
      else if lock = ''''
        then (Unrecorded ((answer req now ''deny'' ''missing_lock_id'' '''' '''' '''' '''')\<lparr>vp_GatewayID := ''''\<rparr>), vs_lastSeen s)
      else
        (case (if ct = ''qr_code'' then GetGuestByAccessToken now t data (vs_access s) else None) of
           Some g \<Rightarrow>
             (if guestCanAccessDoor t g lock s
              then Recorded (answer req now ''allow'' ''access_granted'' (''guest:'' @ gu_ID g) (gu_Name g) '''' '''')
                     (Some (gu_ID g, gu_Name g))
              else Recorded (answer req now ''deny'' ''door_not_in_guest_access'' (''guest:'' @ gu_ID g) (gu_Name g) '''' '''')
                     None, vs_lastSeen s)
         | None \<Rightarrow> decide_user cr now nonceHeader req s))"

section \<open>Effects\<close>

definition verify_event :: "time \<Rightarrow> string \<Rightarrow> string \<Rightarrow> string \<Rightarrow> verifyCredentialResponse \<Rightarrow> accessEvent" where
  "verify_event now t gatewayID lock resp =
     \<lparr>ae_ID = '''', ae_IdempotencyKey = '''', ae_TenantID = t, ae_BuildingID = '''', ae_AreaID = '''',
      ae_Type = (if vp_Decision resp = ''allow'' then ''access_granted'' else ''access_denied''),
      ae_Actor = vp_UserEmail resp, ae_DoorID = lock,
      ae_GatewayID = (if gatewayID = '''' then ''api_verify'' else gatewayID), ae_Result = vp_Reason resp, ae_At = now\<rparr>"

definition recordVerifyEvent ::
  "env \<Rightarrow> string \<Rightarrow> string \<Rightarrow> string \<Rightarrow> verifyCredentialResponse \<Rightarrow> eventService \<Rightarrow> string \<times> eventService" where
  "recordVerifyEvent e t gatewayID lock resp s =
     (if t = '''' then ('''', s)
      else
        (case IngestAccessEvent e (verify_event (env_now e) t gatewayID lock resp) s of
           (Inl _, s') \<Rightarrow> ('''', s') | (Inr (r, _), s') \<Rightarrow> (ae_ID r, s')))"

definition unlock_command :: "time \<Rightarrow> string \<Rightarrow> string \<Rightarrow> string \<Rightarrow> string \<Rightarrow> string \<Rightarrow> gatewayCommand" where
  "unlock_command now t gatewayID lock subject issuedBy =
     \<lparr>gm_RequestID = ''verify:'' @ lock @ '':'' @ subject @ '':'' @ show_int (UnixNano now),
      gm_GatewayID = gatewayID, gm_Command = ''unlock'', gm_LockID = lock, gm_TenantID = t, gm_IssuedBy = issuedBy,
      gm_IssuedAt = format_rfc3339 now\<rparr>"

definition onAccessGranted ::
  "time \<Rightarrow> string \<Rightarrow> string \<Rightarrow> string \<Rightarrow> string \<Rightarrow> string \<Rightarrow> verifyServer \<Rightarrow> verifyServer" where
  "onAccessGranted now t gatewayID lock subject issuedBy s =
     (if gatewayID \<noteq> '''' \<and> vs_busEnabled s
      then s\<lparr>vs_commands := vs_commands s @
               [(''gateway.'' @ gatewayID @ ''.command'', unlock_command now t gatewayID lock subject issuedBy)]\<rparr>
      else s)"

definition evaluateVerifyCredential ::
  "'k crypto \<Rightarrow> env \<Rightarrow> string \<Rightarrow> verifyCredentialRequest \<Rightarrow> verifyServer \<Rightarrow> verifyCredentialResponse \<times> verifyServer" where
  "evaluateVerifyCredential cr e nonceHeader req s =
     (let t = trim_space (vr_TenantID req); g = trim_space (vr_GatewayID req); lock = trim_space (vr_LockID req) in
      case verify_decision cr (env_now e) nonceHeader req s of
        (Unrecorded resp, seen) \<Rightarrow> (resp, s\<lparr>vs_lastSeen := seen\<rparr>)
      | (Recorded resp grant, seen) \<Rightarrow>
          let s1 = s\<lparr>vs_lastSeen := seen, vs_events := snd (recordVerifyEvent e t g lock resp (vs_events s))\<rparr> in
          (resp, case grant of None \<Rightarrow> s1
                 | Some (subject, issuedBy) \<Rightarrow> onAccessGranted (env_now e) t g lock subject issuedBy s1))"

text \<open>The route of the gateways: the tenant and the gateway come from the authenticated record.\<close>

definition verifyCredentialGateway ::
  "'k crypto \<Rightarrow> backends \<Rightarrow> env \<Rightarrow> gatewayRequest \<Rightarrow> verifyCredentialRequest \<Rightarrow> verifyServer \<Rightarrow>
   (refusal, verifyCredentialResponse) result \<times> verifyServer" where
  "verifyCredentialGateway cr b e r req s =
     (let gwID = trim_space (vr_GatewayID req); t = trim_space (vr_TenantID req);
          unauthenticated = (Inl (401, ''gateway authentication required''), s) in
      if gwID = '''' \<or> t = '''' then unauthenticated
      else
        (case rs_gatewaySvc (vs_request s) of
           None \<Rightarrow> unauthenticated
         | Some svc \<Rightarrow>
             (case findGatewayByTenant t gwID svc of
                None \<Rightarrow> unauthenticated
              | Some g \<Rightarrow>
                  (case authorizeGatewayHTTPDeviceRequest b (env_now e) r (gw_ID g) (vs_request s) of
                     (Some err, rs) \<Rightarrow> (Inl err, s\<lparr>vs_request := rs\<rparr>)
                   | (None, rs) \<Rightarrow>
                       if trim_space (rq_Nonce r) = '''' then (Inl (401, ''request nonce required''), s\<lparr>vs_request := rs\<rparr>)
                       else
                         (case evaluateVerifyCredential cr e (rq_Nonce r)
                                 (req\<lparr>vr_GatewayID := gw_ID g, vr_TenantID := gw_TenantID g\<rparr>) (s\<lparr>vs_request := rs\<rparr>) of
                            (resp, s') \<Rightarrow> (Inr resp, s'))))))"

section \<open>Who is let in\<close>

text \<open>Readable conditions for a grant: the door, the guest and the user.\<close>

definition schedule_open :: "string \<Rightarrow> string \<Rightarrow> string \<Rightarrow> time \<Rightarrow> accessService \<Rightarrow> bool" where
  "schedule_open t userID placeID now s \<longleftrightarrow>
     (\<forall>ra \<in> set (ListRoleAssignments t s).
        ra_AssigneeType ra = ''User'' \<and> ra_AssigneeID ra = userID \<and> (placeID = '''' \<or> ra_AppliesToID ra = placeID) \<longrightarrow>
        time_restricted ra \<longrightarrow> ev_IsActive (assignment_evaluation t now s ra))"

definition presents_something :: "verifyCredentialRequest \<Rightarrow> bool" where
  "presents_something req \<longleftrightarrow>
     trim_space (vr_LockID req) \<noteq> '''' \<and>
     (trim_space (vr_CredentialData req) \<noteq> '''' \<or> trim_space (vr_CredentialType req) = ''ble_signature'')"

definition presented_guest :: "time \<Rightarrow> verifyCredentialRequest \<Rightarrow> verifyServer \<Rightarrow> guest option" where
  "presented_guest now req s =
     (if trim_space (vr_CredentialType req) = ''qr_code''
      then GetGuestByAccessToken now (trim_space (vr_TenantID req)) (trim_space (vr_CredentialData req)) (vs_access s)
      else None)"

definition presented_user ::
  "'k crypto \<Rightarrow> time \<Rightarrow> string \<Rightarrow> verifyCredentialRequest \<Rightarrow> verifyServer \<Rightarrow> string option" where
  "presented_user cr now nonceHeader req s =
     (if trim_space (vr_CredentialType req) = ''ble_signature''
      then resolveBLESignatureToUser cr now nonceHeader (trim_space (vr_TenantID req)) req s
      else resolveCredentialToUser now (trim_space (vr_TenantID req)) (trim_space (vr_CredentialType req))
             (trim_space (vr_CredentialData req)) s)"

definition no_anomaly :: "time \<Rightarrow> verifyCredentialRequest \<Rightarrow> verifyServer \<Rightarrow> bool" where
  "no_anomaly now req s \<longleftrightarrow>
     (trim_space (vr_CredentialType req) = ''nfc_uid'' \<longrightarrow>
      fst (checkCredentialAnomaly (trim_space (vr_TenantID req)) (trim_space (vr_CredentialData req))
             (trim_space (vr_LockID req)) now (vs_lastSeen s)) = '''')"

definition user_may_open :: "time \<Rightarrow> string \<Rightarrow> accessUser \<Rightarrow> verifyCredentialRequest \<Rightarrow> verifyServer \<Rightarrow> bool" where
  "user_may_open now u user req s =
     (let t = trim_space (vr_TenantID req); lock = trim_space (vr_LockID req) in
      case checkUserLockAccess t (us_GroupIDs user) lock (vs_space s) of
        Some grp \<Rightarrow> grp = ''role_assignment'' \<longrightarrow> schedule_open t u '''' now (vs_access s)
      | None \<Rightarrow>
          (case GetDoor t lock (vs_space s) of
             Inl _ \<Rightarrow> False
           | Inr d \<Rightarrow> checkRoleAssignmentAccess t u (dr_BuildingID d) (vs_access s) \<and>
                      schedule_open t u (dr_BuildingID d) now (vs_access s)))"

definition may_enter ::
  "'k crypto \<Rightarrow> time \<Rightarrow> string \<Rightarrow> verifyCredentialRequest \<Rightarrow> verifyServer \<Rightarrow> bool" where
  "may_enter cr now nonceHeader req s =
     (presents_something req \<and>
      (case presented_guest now req s of
         Some g \<Rightarrow> guestCanAccessDoor (trim_space (vr_TenantID req)) g (trim_space (vr_LockID req)) s
       | None \<Rightarrow>
           (case presented_user cr now nonceHeader req s of
              None \<Rightarrow> False
            | Some u \<Rightarrow>
                (case GetUser (trim_space (vr_TenantID req)) u (vs_access s) of
                   Inl _ \<Rightarrow> False
                 | Inr user \<Rightarrow> us_Status user = ''active'' \<and> no_anomaly now req s \<and> user_may_open now u user req s))))"

lemma reason_nonempty: "ev_Reason (EvaluateSchedule now vf vu tws exc hol) \<noteq> ''''"
  by (auto simp: EvaluateSchedule_def Let_def split: option.splits)

lemma evaluateAccessSchedule_iff: "evaluateAccessSchedule t u p now s = '''' \<longleftrightarrow> schedule_open t u p now s"
proof -
  have r: "ev_Reason (assignment_evaluation t now s ra) \<noteq> ''''" for ra
    unfolding assignment_evaluation_def by (rule reason_nonempty)
  show ?thesis
    by (auto simp: evaluateAccessSchedule_def schedule_open_def r find_None_iff split: option.split
        dest!: find_memberD)
qed

fun verdict_of :: "verdict \<Rightarrow> verifyCredentialResponse" where
  "verdict_of (Unrecorded r) = r"
| "verdict_of (Recorded r _) = r"

fun granted :: "verdict \<Rightarrow> bool" where
  "granted (Recorded _ (Some _)) = True"
| "granted _ = False"

lemma answer_fields [simp]:
  "vp_Decision (answer req now d r u n m g) = d" "vp_Reason (answer req now d r u n m g) = r"
  "vp_UserEmail (answer req now d r u n m g) = m"
  by (simp_all add: answer_def)

lemma decide_access_iff:
  "granted (decide_access req now u user s) \<longleftrightarrow> user_may_open now u user req s"
  "vp_Decision (verdict_of (decide_access req now u user s)) = (if user_may_open now u user req s then ''allow'' else ''deny'')"
  by (auto simp: decide_access_def user_may_open_def Let_def evaluateAccessSchedule_iff [symmetric]
      split: option.split sum.split)

lemma decide_user_iff:
  fixes cr now n req s defines "v \<equiv> fst (decide_user cr now n req s)"
  defines "ok \<equiv> (case presented_user cr now n req s of
              None \<Rightarrow> False
            | Some u \<Rightarrow>
                (case GetUser (trim_space (vr_TenantID req)) u (vs_access s) of
                   Inl _ \<Rightarrow> False
                 | Inr user \<Rightarrow> us_Status user = ''active'' \<and> no_anomaly now req s \<and> user_may_open now u user req s))"
  shows "granted v \<longleftrightarrow> ok" "vp_Decision (verdict_of v) = (if ok then ''allow'' else ''deny'')"
  unfolding v_def ok_def decide_user_def presented_user_def [symmetric] Let_def
  by (auto simp: no_anomaly_def decide_access_iff split: option.split sum.split prod.split)

lemma verify_decision_iff:
  fixes cr now n req s defines "v \<equiv> fst (verify_decision cr now n req s)"
  shows "granted v \<longleftrightarrow> may_enter cr now n req s"
    "vp_Decision (verdict_of v) = (if may_enter cr now n req s then ''allow'' else ''deny'')"
  unfolding v_def verify_decision_def may_enter_def presented_guest_def [symmetric] Let_def
  by (auto simp: presents_something_def decide_user_iff split: option.split)

lemma evaluate_answer:
  "fst (evaluateVerifyCredential cr e n req s) = verdict_of (fst (verify_decision cr (env_now e) n req s))"
  by (simp add: evaluateVerifyCredential_def Let_def split: prod.split verdict.split)

section \<open>Effects of a decision\<close>

definition command_view :: "string \<times> gatewayCommand \<Rightarrow> string \<times> string \<times> string \<times> string" where
  "command_view p = (fst p, gm_Command (snd p), gm_TenantID (snd p), gm_LockID (snd p))"

lemma evaluate_commands:
  fixes req s defines "g \<equiv> trim_space (vr_GatewayID req)"
  shows "map command_view (vs_commands (snd (evaluateVerifyCredential cr e n req s))) =
    map command_view (vs_commands s) @
    (if granted (fst (verify_decision cr (env_now e) n req s)) \<and> g \<noteq> '''' \<and> vs_busEnabled s
     then [(''gateway.'' @ g @ ''.command'', ''unlock'', trim_space (vr_TenantID req), trim_space (vr_LockID req))] else [])"
  unfolding g_def
  by (auto simp: evaluateVerifyCredential_def onAccessGranted_def unlock_command_def command_view_def Let_def
      split: prod.split verdict.split option.split)

lemma evaluate_log:
  "ev_accessEvents (vs_events (snd (evaluateVerifyCredential cr e n req s))) =
     (case fst (verify_decision cr (env_now e) n req s) of
        Unrecorded _ \<Rightarrow> ev_accessEvents (vs_events s)
      | Recorded resp _ \<Rightarrow>
          ev_accessEvents (snd (recordVerifyEvent e (trim_space (vr_TenantID req)) (trim_space (vr_GatewayID req))
            (trim_space (vr_LockID req)) resp (vs_events s))))"
  by (auto simp: evaluateVerifyCredential_def onAccessGranted_def Let_def split: prod.split verdict.split option.split)

fun recorded :: "verdict \<Rightarrow> bool" where
  "recorded (Unrecorded _) = False"
| "recorded (Recorded _ _) = True"

lemma recordedE: "recorded v \<Longrightarrow> \<exists>resp gr. v = Recorded resp gr"
  by (cases v) auto

lemma decide_access_recorded: "recorded (decide_access req now u user s)"
  by (simp add: decide_access_def Let_def split: option.split sum.split)

lemma decide_user_recorded: "recorded (fst (decide_user cr now n req s))"
  by (simp add: decide_user_def Let_def decide_access_recorded split: option.split sum.split prod.split)

lemma verify_decision_recorded: "presents_something req \<Longrightarrow> recorded (fst (verify_decision cr now n req s))"
  by (auto simp: presents_something_def verify_decision_def Let_def decide_user_recorded split: option.split)

lemma ingest_fresh:
  assumes "ae_ID (norm_access e i) = ''''" "ae_IdempotencyKey (norm_access e i) = ''''"
    and "ae_TenantID (norm_access e i) \<noteq> ''''" "ae_GatewayID (norm_access e i) \<noteq> ''''"
    and "ae_Type (norm_access e i) \<noteq> ''''" and "env_rand e = Some h"
  shows "ev_accessEvents (snd (IngestAccessEvent e i s)) =
    (norm_access e i)\<lparr>ae_ID := trim_space ''gwea'' @ ''_'' @ h\<rparr> # ev_accessEvents s"
  using assms by (simp add: IngestAccessEvent_def Let_def nextEventID_def stored_frame
      findAccessEventByIdempotencyLocked_def findAccessEventByIDLocked_def)

lemma recordVerifyEvent_log:
  assumes "trim_space t \<noteq> ''''" and "env_rand e = Some h"
  shows "\<exists>ev. ev_accessEvents (snd (recordVerifyEvent e t (trim_space g) lock resp s)) = ev # ev_accessEvents s \<and>
    ae_TenantID ev = trim_space t \<and> ae_DoorID ev = trim_space lock \<and> ae_Actor ev = trim_space (vp_UserEmail resp) \<and>
    ae_Type ev = (if vp_Decision resp = ''allow'' then ''access_granted'' else ''access_denied'') \<and>
    ae_GatewayID ev = (if trim_space g = '''' then ''api_verify'' else trim_space g)"
proof -
  have lit: "trim_space ''api_verify'' = ''api_verify''" "trim_space ''access_granted'' = ''access_granted''"
    "trim_space ''access_denied'' = ''access_denied''" "trim_space '''' = ''''"
    by code_simp+
  from assms(1) have "t \<noteq> ''''" using lit(4) by metis
  then have "snd (recordVerifyEvent e t (trim_space g) lock resp s) =
      snd (IngestAccessEvent e (verify_event (env_now e) t (trim_space g) lock resp) s)"
    by (simp add: recordVerifyEvent_def split: prod.split sum.split)
  moreover have "ev_accessEvents (snd (IngestAccessEvent e (verify_event (env_now e) t (trim_space g) lock resp) s)) =
      (norm_access e (verify_event (env_now e) t (trim_space g) lock resp))\<lparr>ae_ID := trim_space ''gwea'' @ ''_'' @ h\<rparr>
        # ev_accessEvents s"
    by (rule ingest_fresh) (use assms in \<open>simp_all add: norm_access_def verify_event_def lit\<close>)
  ultimately show ?thesis by (simp add: norm_access_def verify_event_def lit)
qed

text \<open>C1: The lock opens exactly for those who may enter.  The answer is allow exactly when a lock is named, a
  credential presented, and it is a live guest token whose guest may pass this door, or it resolves
  to an active user of the tenant without anomaly whom a door group, or a role assignment within
  its schedule, lets through; it is deny otherwise.  One unlock command for that lock and tenant
  goes to the requesting gateway in the first case, when the bus is up, and none in the second.\<close>

theorem access_decision_exact:
  fixes req s defines "g \<equiv> trim_space (vr_GatewayID req)"
  shows "vp_Decision (fst (evaluateVerifyCredential cr e n req s)) =
      (if may_enter cr (env_now e) n req s then ''allow'' else ''deny'') \<and>
    map command_view (vs_commands (snd (evaluateVerifyCredential cr e n req s))) = map command_view (vs_commands s) @
      (if may_enter cr (env_now e) n req s \<and> g \<noteq> '''' \<and> vs_busEnabled s
       then [(''gateway.'' @ g @ ''.command'', ''unlock'', trim_space (vr_TenantID req), trim_space (vr_LockID req))] else [])"
  by (simp only: evaluate_answer evaluate_commands verify_decision_iff g_def simp_thms)

text \<open>C4: Every decision about a credential presented at a lock is in the event log: one entry is added, for the
  tenant and the lock, that says granted exactly when the answer is allow, whoever presented it.\<close>

theorem access_decision_logged:
  assumes "presents_something req" and "trim_space (vr_TenantID req) \<noteq> ''''" and "env_rand e = Some h"
  shows "\<exists>ev. ev_accessEvents (vs_events (snd (evaluateVerifyCredential cr e n req s))) = ev # ev_accessEvents (vs_events s) \<and>
    ae_TenantID ev = trim_space (vr_TenantID req) \<and> ae_DoorID ev = trim_space (vr_LockID req) \<and>
    ae_Type ev = (if vp_Decision (fst (evaluateVerifyCredential cr e n req s)) = ''allow''
                  then ''access_granted'' else ''access_denied'')"
proof -
  from assms(1) obtain resp gr where v: "fst (verify_decision cr (env_now e) n req s) = Recorded resp gr"
    using verify_decision_recorded recordedE by blast
  then show ?thesis
    using assms(2,3) recordVerifyEvent_log [of "trim_space (vr_TenantID req)" e h "vr_GatewayID req"
      "trim_space (vr_LockID req)" resp "vs_events s"]
    by (auto simp: evaluate_log evaluate_answer)
qed

section \<open>Impossible travel\<close>

text \<open>A sequence of taps (tenant, card, lock, time) and the verdicts; a history of the accepted ones.\<close>

fun tap_run :: "(string \<times> string \<times> string \<times> time) list \<Rightarrow> (string \<times> credentialSighting) list \<Rightarrow> string list" where
  "tap_run [] seen = []"
| "tap_run ((t, d, l, now) # taps) seen =
     (case checkCredentialAnomaly t d l now seen of (r, seen') \<Rightarrow> r # tap_run taps seen')"

definition sighting_covers :: "time \<Rightarrow> (string \<times> credentialSighting) list \<Rightarrow> string \<times> string \<times> time \<Rightarrow> bool" where
  "sighting_covers now seen x =
     (case x of (k, l, tm) \<Rightarrow>
        case map_of seen k of
          None \<Rightarrow> tm + 2 * ns_minute < now
        | Some p \<Rightarrow> tm \<le> sg_SeenAt p \<and> sg_SeenAt p \<le> now \<and> (sg_LockID p \<noteq> l \<longrightarrow> tm + 30 * ns_second \<le> sg_SeenAt p))"

definition sightings_ok ::
  "time \<Rightarrow> (string \<times> string \<times> time) list \<Rightarrow> (string \<times> credentialSighting) list \<Rightarrow> bool" where
  "sightings_ok now hist seen \<longleftrightarrow> distinct (map fst seen) \<and> list_all (sighting_covers now seen) hist"

lemma map_of_filter_value:
  "distinct (map fst xs) \<Longrightarrow>
   map_of (filter (\<lambda>(k, v). P v) xs) k = (case map_of xs k of None \<Rightarrow> None | Some v \<Rightarrow> if P v then Some v else None)"
proof (induction xs)
  case (Cons x xs)
  then show ?case by (cases x) (auto simp: map_of_eq_None_iff split: option.splits)
qed simp

lemma covers_mono:
  "sighting_covers now seen x \<Longrightarrow> now \<le> now' \<Longrightarrow> sighting_covers now' seen x"
  by (auto simp: sighting_covers_def split: option.splits)

lemma covers_update:
  assumes "sighting_covers now seen (k, l, tm)" "now \<le> now'" "sg_SeenAt p = now'"
    "key = k \<Longrightarrow> tm \<le> now' \<and> (sg_LockID p \<noteq> l \<longrightarrow> tm + 30 * ns_second \<le> now')"
  shows "sighting_covers now' (AList.update key p seen) (k, l, tm)"
  using assms covers_mono [OF assms(1,2)] by (auto simp: sighting_covers_def update_conv)

lemma covers_filter:
  assumes "sighting_covers now seen x" and "distinct (map fst seen)"
  shows "sighting_covers now (filter (\<lambda>(k, v). \<not> sg_SeenAt v < now - 2 * ns_minute) seen) x"
  using assms by (auto simp: sighting_covers_def map_of_filter_value [of seen "\<lambda>v. \<not> sg_SeenAt v < now - 2 * ns_minute"]
      split: option.splits)

text \<open>Accepting a tap whose earlier taps at other doors are old enough keeps the invariant.\<close>

lemma accept_ok:
  assumes ok: "sightings_ok now hist seen" "now \<le> now'" and p: "sg_SeenAt p = now'" "sg_LockID p = l"
    and far: "\<And>l' tm. (key, l', tm) \<in> set hist \<Longrightarrow> tm \<le> now' \<and> (l' \<noteq> l \<longrightarrow> tm + 30 * ns_second \<le> now')"
  shows "sightings_ok now' ((key, l, now') # hist) (AList.update key p seen)"
proof -
  have "sighting_covers now' (AList.update key p seen) (k, l', tm)" if x: "(k, l', tm) \<in> set hist" for k l' tm
  proof (rule covers_update [OF _ ok(2) p(1)])
    show "sighting_covers now seen (k, l', tm)" using ok(1) x by (auto simp: sightings_ok_def list_all_iff)
    show "key = k \<Longrightarrow> tm \<le> now' \<and> (sg_LockID p \<noteq> l' \<longrightarrow> tm + 30 * ns_second \<le> now')"
      using far [of l' tm] x p(2) by auto
  qed
  moreover have "sighting_covers now' (AList.update key p seen) (key, l, now')"
    using p by (simp add: sighting_covers_def update_conv)
  ultimately show ?thesis
    using ok by (auto simp: sightings_ok_def list_all_iff distinct_update)
qed

lemma filter_ok:
  assumes "sightings_ok now hist seen"
  shows "sightings_ok now hist (filter (\<lambda>(k, v). \<not> sg_SeenAt v < now - 2 * ns_minute) seen)"
  using assms covers_filter [of now seen]
  by (auto simp: sightings_ok_def list_all_iff distinct_map_filter)

lemma first_sighting_ok:
  assumes "sightings_ok now hist seen" "now \<le> now'"
    and "\<And>l' tm. (key, l', tm) \<in> set hist \<Longrightarrow> tm \<le> now' \<and> (l' \<noteq> l \<longrightarrow> tm + 30 * ns_second \<le> now')"
  shows "sightings_ok now' ((key, l, now') # hist) (first_sighting key l now' seen)"
  using filter_ok accept_ok [OF assms(1,2) _ _ assms(3)]
  by (simp add: first_sighting_def Let_def)

lemma sightings_ok_mono: "sightings_ok now hist seen \<Longrightarrow> now \<le> now' \<Longrightarrow> sightings_ok now' hist seen"
  by (auto simp: sightings_ok_def list_all_iff intro: covers_mono)

lemma anomaly_step:
  assumes ok: "sightings_ok now hist seen" "now \<le> now'"
    and step: "checkCredentialAnomaly t d l now' seen = (r, seen')"
  defines "key \<equiv> sighting_key t d"
  shows "sightings_ok now' (if r = '''' then (key, l, now') # hist else hist) seen' \<and>
    (r = '''' \<longrightarrow> (\<forall>(k, l', tm) \<in> set hist. k = key \<longrightarrow> l' \<noteq> l \<longrightarrow> tm + 30 * ns_second \<le> now'))"
proof -
  have cov: "(key, l', tm) \<in> set hist \<Longrightarrow> sighting_covers now' seen (key, l', tm)" for l' tm
    using sightings_ok_mono [OF ok] by (auto simp: sightings_ok_def list_all_iff)
  have pos: "0 < ns_second" "30 * ns_second \<le> 2 * ns_minute" by (simp_all add: duration_defs)
  show ?thesis
  proof (cases "map_of seen key")
    case None
    with step have r: "r = ''''" and s': "seen' = first_sighting key l now' seen"
      by (auto simp: checkCredentialAnomaly_def key_def [symmetric])
    have far: "tm \<le> now' \<and> tm + 30 * ns_second \<le> now'" if "(key, l', tm) \<in> set hist" for l' tm
      using cov [OF that] None pos by (simp add: sighting_covers_def)
    from first_sighting_ok [OF ok, of key l] far show ?thesis
      unfolding r s' by auto
  next
    case (Some p)
    have sub: "time_sub now' (sg_SeenAt p) < 30 * ns_second \<longleftrightarrow> now' - sg_SeenAt p < 30 * ns_second"
      by (rule time_sub_less_iff) (simp_all add: duration_defs)
    have far: "tm \<le> sg_SeenAt p \<and> sg_SeenAt p \<le> now' \<and> (sg_LockID p \<noteq> l' \<longrightarrow> tm + 30 * ns_second \<le> sg_SeenAt p)"
      if "(key, l', tm) \<in> set hist" for l' tm
      using cov [OF that] Some by (simp add: sighting_covers_def)
    show ?thesis
    proof (cases "r = ''''")
      case True
      have fits: "tm \<le> now' \<and> (l' \<noteq> l \<longrightarrow> tm + 30 * ns_second \<le> now')" if "(key, l', tm) \<in> set hist" for l' tm
        using far [OF that] step True Some sub
        by (auto simp: checkCredentialAnomaly_def key_def [symmetric] Let_def split: if_splits)
      have "seen' = first_sighting key l now' seen \<or>
          (\<exists>q. seen' = AList.update key q seen \<and> sg_SeenAt q = now' \<and> sg_LockID q = l)"
        using step True Some by (auto simp: checkCredentialAnomaly_def key_def [symmetric] Let_def split: if_splits)
      then have "sightings_ok now' ((key, l, now') # hist) seen'"
        using first_sighting_ok [OF ok fits] accept_ok [OF ok _ _ fits] by blast
      with True fits show ?thesis by auto
    next
      case False
      with step Some have "seen' = seen \<or> (\<exists>n. seen' = AList.update key (p\<lparr>sg_Count := n\<rparr>) seen)"
        by (auto simp: checkCredentialAnomaly_def key_def [symmetric] Let_def split: if_splits)
      moreover have "sighting_covers now' (AList.update key (p\<lparr>sg_Count := n\<rparr>) seen) x = sighting_covers now' seen x" for n x
        using Some by (auto simp: sighting_covers_def update_conv split: option.split prod.split)
      ultimately show ?thesis
        using False sightings_ok_mono [OF ok] by (auto simp: sightings_ok_def distinct_update list_all_iff)
    qed
  qed
qed

abbreviation tap_key :: "string \<times> string \<times> string \<times> time \<Rightarrow> string" where
  "tap_key x \<equiv> sighting_key (fst x) (fst (snd x))"

abbreviation tap_lock :: "string \<times> string \<times> string \<times> time \<Rightarrow> string" where
  "tap_lock x \<equiv> fst (snd (snd x))"

abbreviation tap_time :: "string \<times> string \<times> string \<times> time \<Rightarrow> time" where
  "tap_time x \<equiv> snd (snd (snd x))"

lemma tap_run_far:
  "sightings_ok now hist seen \<Longrightarrow> sorted (now # map tap_time taps) \<Longrightarrow> j < length taps \<Longrightarrow>
   tap_run taps seen ! j = '''' \<Longrightarrow> (tap_key (taps ! j), l, tm) \<in> set hist \<Longrightarrow> l \<noteq> tap_lock (taps ! j) \<Longrightarrow>
   tm + 30 * ns_second \<le> tap_time (taps ! j)"
proof (induction taps arbitrary: now hist seen j)
  case (Cons x taps)
  obtain t d l0 now' where x: "x = (t, d, l0, now')" by (cases x)
  obtain r seen' where c: "checkCredentialAnomaly t d l0 now' seen = (r, seen')" by (meson surj_pair)
  from Cons.prems x have "now \<le> now'" by simp
  note step = anomaly_step [OF Cons.prems(1) this c]
  show ?case
  proof (cases j)
    case 0
    with step Cons.prems x c show ?thesis by auto
  next
    case (Suc i)
    show ?thesis
      using Cons.IH [OF conjunct1 [OF step], of i] Cons.prems x c Suc by (auto split: if_splits)
  qed
qed simp

lemma tap_run_pairs:
  "sightings_ok now hist seen \<Longrightarrow> sorted (now # map tap_time taps) \<Longrightarrow> i < j \<Longrightarrow> j < length taps \<Longrightarrow>
   tap_run taps seen ! i = '''' \<Longrightarrow> tap_run taps seen ! j = '''' \<Longrightarrow> tap_key (taps ! i) = tap_key (taps ! j) \<Longrightarrow>
   tap_lock (taps ! i) \<noteq> tap_lock (taps ! j) \<Longrightarrow> tap_time (taps ! i) + 30 * ns_second \<le> tap_time (taps ! j)"
proof (induction taps arbitrary: now hist seen i j)
  case (Cons x taps)
  obtain t d l0 now' where x: "x = (t, d, l0, now')" by (cases x)
  obtain r seen' where c: "checkCredentialAnomaly t d l0 now' seen = (r, seen')" by (meson surj_pair)
  from Cons.prems x have "now \<le> now'" by simp
  note step = conjunct1 [OF anomaly_step [OF Cons.prems(1) this c]]
  obtain j' where j: "j = Suc j'" using Cons.prems(3) by (cases j) auto
  show ?case
  proof (cases i)
    case 0
    with Cons.prems x c have "r = ''''" by simp
    with tap_run_far [OF step, of taps j' l0 now'] show ?thesis using Cons.prems x c 0 j by simp
  next
    case (Suc i')
    with Cons.IH [OF step, of i' j'] Cons.prems x c j show ?thesis by simp
  qed
qed simp

text \<open>C3: A card cannot be in two places at once.  In any sequence of taps whose times never go back, two
  accepted taps of the same card of a tenant at different locks are at least 30 seconds apart,
  whatever other cards were tapped and however often the table of sightings was cleaned.\<close>

theorem impossible_travel_refused:
  assumes "sorted (map tap_time taps)" and "i < j" "j < length taps"
    and "tap_run taps [] ! i = ''''" "tap_run taps [] ! j = ''''"
    and "fst (taps ! i) = fst (taps ! j)" "fst (snd (taps ! i)) = fst (snd (taps ! j))"
    and "tap_lock (taps ! i) \<noteq> tap_lock (taps ! j)"
  shows "tap_time (taps ! i) + 30 * ns_second \<le> tap_time (taps ! j)"
proof -
  have "sorted (tap_time (taps ! 0) # map tap_time taps)"
    using assms(1-3) by (cases taps) auto
  moreover have "sightings_ok (tap_time (taps ! 0)) [] []" by (simp add: sightings_ok_def)
  ultimately show ?thesis using assms(2-8) tap_run_pairs [of "tap_time (taps ! 0)" "[]" "[]" taps i j] by simp
qed

definition demo_taps :: "(string \<times> string \<times> string \<times> time) list" where
  "demo_taps = [(''t1'', ''04AB'', ''door_1'', 0), (''t1'', ''04AB'', ''door_2'', 5 * ns_second),
     (''t1'', ''04CD'', ''door_2'', 6 * ns_second), (''t1'', ''04AB'', ''door_2'', 31 * ns_second)]"

theorem impossible_travel_refused_witness:
  "tap_run demo_taps [] = ['''', ''anomaly_impossible_travel'', '''', ''''] \<and>
   tap_time (demo_taps ! 0) + 30 * ns_second \<le> tap_time (demo_taps ! 3)"
proof -
  have run: "tap_run demo_taps [] = ['''', ''anomaly_impossible_travel'', '''', '''']" by code_simp
  have "sorted (map tap_time demo_taps)" "0 < (3::nat)" "3 < length demo_taps"
    "fst (demo_taps ! 0) = fst (demo_taps ! 3)" "fst (snd (demo_taps ! 0)) = fst (snd (demo_taps ! 3))"
    "tap_lock (demo_taps ! 0) \<noteq> tap_lock (demo_taps ! 3)"
    by (simp_all add: demo_taps_def duration_defs)
  then show ?thesis using run impossible_travel_refused [of demo_taps 0 3] by simp
qed

section \<open>The route of the gateways\<close>

lemma evaluate_request: "vs_request (snd (evaluateVerifyCredential cr e n req s)) = vs_request s"
  by (simp add: evaluateVerifyCredential_def onAccessGranted_def Let_def split: prod.split verdict.split option.split)

lemma evaluate_requestD:
  "evaluateVerifyCredential cr e n q (s\<lparr>vs_request := rs\<rparr>) = (resp, s') \<Longrightarrow> vs_request s' = rs"
  using evaluate_request [of cr e n q "s\<lparr>vs_request := rs\<rparr>"] by simp

lemma authorize_httpD:
  "authorizeGatewayHTTPDeviceRequest b now r g rs = (None, rs') \<Longrightarrow>
   authorizeGatewayDeviceToken b r g rs = None \<and> validateGatewayRequestNonce b now r g rs = (None, rs')"
  by (simp add: authorizeGatewayHTTPDeviceRequest_def split: option.splits)

lemma route_answered:
  assumes "verifyCredentialGateway cr b e r req s = (Inr resp, s')"
  obtains svc g where "rs_gatewaySvc (vs_request s) = Some svc"
    "findGatewayByTenant (trim_space (vr_TenantID req)) (trim_space (vr_GatewayID req)) svc = Some g"
    "authorizeGatewayDeviceToken b r (gw_ID g) (vs_request s) = None"
    "validateGatewayRequestNonce b (env_now e) r (gw_ID g) (vs_request s) = (None, vs_request s')"
    "trim_space (rq_Nonce r) \<noteq> ''''"
  using assms that
  by (auto simp: verifyCredentialGateway_def Let_def dest!: evaluate_requestD authorize_httpD
      split: if_splits option.splits prod.splits)

lemma validate_service: "rs_gatewaySvc (snd (validateGatewayRequestNonce b now r g rs)) = rs_gatewaySvc rs"
  by (simp add: validateGatewayRequestNonce_def Let_def split: option.split sum.split)

text \<open>Any call leaves the gateway records alone and the nonces that are still fresh.\<close>

lemma route_request:
  "vs_request (snd (verifyCredentialGateway cr b e r req s)) = vs_request s \<or>
   (\<exists>g. vs_request (snd (verifyCredentialGateway cr b e r req s)) =
          snd (validateGatewayRequestNonce b (env_now e) r g (vs_request s)))"
proof -
  have "snd (authorizeGatewayHTTPDeviceRequest b now r g rs) = rs \<or>
      snd (authorizeGatewayHTTPDeviceRequest b now r g rs) = snd (validateGatewayRequestNonce b now r g rs)" for now g rs
    by (simp add: authorizeGatewayHTTPDeviceRequest_def split: option.split)
  moreover have "vs_request (snd (verifyCredentialGateway cr b e r req s)) = vs_request s \<or>
    (\<exists>g. vs_request (snd (verifyCredentialGateway cr b e r req s)) =
          snd (authorizeGatewayHTTPDeviceRequest b (env_now e) r g (vs_request s)))"
    unfolding verifyCredentialGateway_def Let_def
    by (auto dest!: evaluate_requestD split: option.split prod.split) (metis snd_conv)+
  ultimately show ?thesis by metis
qed

fun verify_run :: "'k crypto \<Rightarrow> backends \<Rightarrow> (env \<times> gatewayRequest \<times> verifyCredentialRequest) list \<Rightarrow> verifyServer \<Rightarrow> verifyServer" where
  "verify_run cr b [] s = s"
| "verify_run cr b ((e, r, req) # calls) s = verify_run cr b calls (snd (verifyCredentialGateway cr b e r req s))"

lemma verify_run_service: "rs_gatewaySvc (vs_request (verify_run cr b calls s)) = rs_gatewaySvc (vs_request s)"
proof (induction calls arbitrary: s)
  case (Cons c calls)
  obtain e r req where "c = (e, r, req)" by (cases c)
  with Cons show ?case using route_request [of cr b e r req s] by (auto simp: validate_service)
qed simp

lemma verify_run_keeps:
  "rs_nonces (vs_request s) k = Some ex \<Longrightarrow> list_all (\<lambda>(e, _). env_now e \<le> ex) calls \<Longrightarrow>
   rs_nonces (vs_request (verify_run cr b calls s)) k = Some ex"
proof (induction calls arbitrary: s)
  case (Cons c calls)
  obtain e r req where c: "c = (e, r, req)" by (cases c)
  with Cons.prems have "rs_nonces (vs_request (snd (verifyCredentialGateway cr b e r req s))) k = Some ex"
    using route_request [of cr b e r req s] validate_keeps by auto
  with Cons c show ?case by simp
qed simp

text \<open>C2: Only a gateway of the tenant gets an answer, and only once per request.  When the route answers, the
  gateway is registered with the tenant, is neither revoked nor disabled, sent a nonce, and presented a
  valid client certificate or, where none is demanded, the token stored for it: one the token store
  confirms, or, without a token store, the one the server holds.  When the server keeps the nonces itself
  and the timestamp of the request is not in the future, sending the request again is refused and moves
  no lock, at any later time and after any other requests to the route.\<close>

theorem gateway_unlock_once:
  assumes answered: "verifyCredentialGateway cr b e r req s = (Inr resp, s1)"
    and memory: "bk_nonces b = None"
    and past: "parse_rfc3339 (trim_space (rq_Timestamp r)) = Some ts" "ts \<le> env_now e"
    and order: "list_all (\<lambda>(e', _). env_now e' \<le> env_now later) calls"
  shows "(\<exists>svc g. rs_gatewaySvc (vs_request s) = Some svc \<and>
      findGatewayByTenant (trim_space (vr_TenantID req)) (trim_space (vr_GatewayID req)) svc = Some g \<and>
      \<not> gatewayIdentityStatusRevoked (gw_ID g) (vs_request s) \<and>
      (authorizeGatewayClientCertificate r (gw_ID g) (vs_request s) \<or>
       (\<not> rq_MTLSRequired r \<and> provided_token r \<noteq> '''' \<and>
        (case bk_tokens b of
           Some verify \<Rightarrow> verify (trim_space (gw_ID g)) (provided_token r) = Inr (True, True)
         | None \<Rightarrow> rs_deviceTokens (vs_request s) (trim_space (gw_ID g)) = Some (provided_token r))))) \<and>
    (\<exists>err. fst (verifyCredentialGateway cr b later r req (verify_run cr b calls s1)) = Inl err) \<and>
    vs_commands (snd (verifyCredentialGateway cr b later r req (verify_run cr b calls s1))) =
      vs_commands (verify_run cr b calls s1)"
proof -
  let ?s = "verify_run cr b calls s1"
  from route_answered [OF answered] obtain svc g where svc: "rs_gatewaySvc (vs_request s) = Some svc"
    and g: "findGatewayByTenant (trim_space (vr_TenantID req)) (trim_space (vr_GatewayID req)) svc = Some g"
    and auth: "authorizeGatewayDeviceToken b r (gw_ID g) (vs_request s) = None"
    and val: "validateGatewayRequestNonce b (env_now e) r (gw_ID g) (vs_request s) = (None, vs_request s1)"
    and nonce: "trim_space (rq_Nonce r) \<noteq> ''''" .
  have svc': "rs_gatewaySvc (vs_request ?s) = Some svc"
    using svc val validate_service [of b "env_now e" r "gw_ID g" "vs_request s"] by (simp add: verify_run_service)
  have refused: "fst (validateGatewayRequestNonce b (env_now later) r (gw_ID g) (vs_request ?s)) \<noteq> None"
  proof (cases "env_now later \<le> env_now e + nonceWindow")
    case True
    with order have "list_all (\<lambda>(e', _). env_now e' \<le> env_now e + nonceWindow) calls" by (auto simp: list_all_iff)
    with accepted_stores(1) [OF val memory nonce]
    have "rs_nonces (vs_request ?s) (nonce_key r (gw_ID g)) = Some (env_now e + nonceWindow)"
      by (rule verify_run_keeps)
    then show ?thesis using True memory nonce by (rule duplicate_refused)
  next
    case False
    with past show ?thesis using nonce by (intro window_closed) simp_all
  qed
  then have "fst (authorizeGatewayHTTPDeviceRequest b (env_now later) r (gw_ID g) (vs_request ?s)) \<noteq> None"
    by (auto simp: authorizeGatewayHTTPDeviceRequest_def split: option.splits)
  then obtain err rs where "authorizeGatewayHTTPDeviceRequest b (env_now later) r (gw_ID g) (vs_request ?s) = (Some err, rs)"
    by (metis not_None_eq prod.collapse)
  then have "(\<exists>err. fst (verifyCredentialGateway cr b later r req ?s) = Inl err) \<and>
      vs_commands (snd (verifyCredentialGateway cr b later r req ?s)) = vs_commands ?s"
    using svc' g by (simp add: verifyCredentialGateway_def Let_def)
  moreover have "\<not> gatewayIdentityStatusRevoked (gw_ID g) (vs_request s) \<and>
      (authorizeGatewayClientCertificate r (gw_ID g) (vs_request s) \<or>
       (\<not> rq_MTLSRequired r \<and> provided_token r \<noteq> '''' \<and>
        (case bk_tokens b of
           Some verify \<Rightarrow> verify (trim_space (gw_ID g)) (provided_token r) = Inr (True, True)
         | None \<Rightarrow> rs_deviceTokens (vs_request s) (trim_space (gw_ID g)) = Some (provided_token r))))"
    using auth by (auto simp: authorizeGatewayDeviceToken_def Let_def split: if_splits option.splits sum.splits)
  ultimately show ?thesis using svc g by blast
qed

section \<open>A guest at a door\<close>

definition demo_access :: accessService where
  "demo_access = dir_step dir_env (GuestCreate (Some ''0b'') demo_guest) demo_directory"

definition demo_requests :: requestServer where
  "demo_requests = demo_request_server\<lparr>rs_gatewaySvc := Some (demo_registry\<lparr>gr_gateways := [demo_gateway\<lparr>gw_Status := ''online''\<rparr>]\<rparr>)\<rparr>"

definition demo_server :: verifyServer where
  "demo_server =
     \<lparr>vs_access = demo_access, vs_wallet = demo_wallet,
      vs_space = \<lparr>sp_buildings = [], sp_floors = [], sp_areas = [], sp_doors = [], sp_doorGroups = [], sp_store = NoStore\<rparr>,
      vs_events = demo_log, vs_credentials = None,
      vs_request = demo_requests,
      vs_lastSeen = [], vs_busEnabled = True, vs_commands = []\<rparr>"

definition demo_verify :: verifyCredentialRequest where
  "demo_verify = \<lparr>vr_GatewayID = ''gw_1'', vr_ReaderID = '''', vr_LockID = ''d1'', vr_TenantID = ''t1'',
     vr_CredentialType = ''qr_code'', vr_CredentialData = ''gqr_0b'', vr_UserID = '''', vr_TransportTag = '''', vr_Signature = ''''\<rparr>"

definition verify_env :: "time \<Rightarrow> env" where
  "verify_env t = \<lparr>env_now = t, env_save_ok = True, env_rand = Some ''ee''\<rparr>"

lemma demo_enters: "may_enter demo_crypto ns_second nh demo_verify demo_server"
proof -
  have "map_option gu_DoorIDs (GetGuestByAccessToken ns_second (trim_space ''t1'') (trim_space ''gqr_0b'') demo_access) =
      Some [''d1'']" "trim_space ''qr_code'' = ''qr_code''"
    by code_simp+
  then obtain g where "presented_guest ns_second demo_verify demo_server = Some g" "gu_DoorIDs g = [''d1'']"
    by (auto simp: presented_guest_def demo_verify_def demo_server_def)
  moreover have "presents_something demo_verify" "trim_space (vr_LockID demo_verify) = ''d1''"
    "equal_fold (trim_space ''d1'') ''d1''"
    by code_simp+
  ultimately show ?thesis by (simp add: may_enter_def guestCanAccessDoor_def)
qed

theorem access_decision_logged_witness:
  "\<exists>ev. ev_accessEvents (vs_events (snd (evaluateVerifyCredential demo_crypto (verify_env ns_second) '''' demo_verify demo_server))) =
      [ev] \<and> ae_DoorID ev = ''d1'' \<and> ae_Type ev = ''access_granted''"
proof -
  have "presents_something demo_verify" "trim_space (vr_TenantID demo_verify) \<noteq> ''''"
    "trim_space (vr_LockID demo_verify) = ''d1''"
    by code_simp+
  moreover have "ev_accessEvents (vs_events demo_server) = []" by (simp add: demo_server_def demo_log_def)
  moreover have "env_rand (verify_env ns_second) = Some ''ee''" by (simp add: verify_env_def)
  moreover have "vp_Decision (fst (evaluateVerifyCredential demo_crypto (verify_env ns_second) '''' demo_verify demo_server)) = ''allow''"
    by (simp add: evaluate_answer verify_decision_iff demo_enters verify_env_def)
  ultimately show ?thesis
    using access_decision_logged [of demo_verify "verify_env ns_second" "''ee''" demo_crypto "''''" demo_server] by auto
qed

theorem gateway_unlock_once_witness:
  "let s1 = snd (verifyCredentialGateway demo_crypto no_backends (verify_env (4 * ns_minute)) demo_request demo_verify demo_server) in
   \<exists>err. fst (verifyCredentialGateway demo_crypto no_backends (verify_env (8 * ns_minute)) demo_request demo_verify
     (verify_run demo_crypto no_backends [(verify_env (5 * ns_minute), demo_request\<lparr>rq_Nonce := ''n2''\<rparr>, demo_verify)] s1)) = Inl err"
proof -
  let ?r = "verifyCredentialGateway demo_crypto no_backends (verify_env (4 * ns_minute)) demo_request demo_verify demo_server"
  let ?a = "authorizeGatewayHTTPDeviceRequest no_backends (4 * ns_minute) demo_request ''gw_1'' demo_requests"
  have "(case rs_gatewaySvc demo_requests of None \<Rightarrow> False
      | Some svc \<Rightarrow> map_option gw_ID (findGatewayByTenant (trim_space ''t1'') (trim_space ''gw_1'') svc) = Some ''gw_1'')"
    "fst ?a = None" "trim_space ''t1'' \<noteq> ''''" "trim_space ''gw_1'' \<noteq> ''''" "trim_space (rq_Nonce demo_request) \<noteq> ''''"
    by code_simp+
  then have "\<exists>resp. fst ?r = Inr resp"
    by (auto simp: verifyCredentialGateway_def verify_env_def demo_verify_def demo_server_def split: option.splits prod.split)
  then obtain resp where "?r = (Inr resp, snd ?r)" by (metis prod.collapse)
  moreover have "parse_rfc3339 (trim_space (rq_Timestamp demo_request)) = Some (4 * ns_minute)" by code_simp
  ultimately show ?thesis
    using gateway_unlock_once [of demo_crypto no_backends "verify_env (4 * ns_minute)" demo_request demo_verify demo_server resp
      "snd ?r" "4 * ns_minute" "verify_env (8 * ns_minute)" "[(verify_env (5 * ns_minute), demo_request\<lparr>rq_Nonce := ''n2''\<rparr>, demo_verify)]"]
    by (simp add: verify_env_def duration_defs)
qed

end
