(* ===== verification/Auth_State.thy ===== *)
theory Auth_State
  imports MP_Prelude Go_Strings Go_Time Go_Bytes "HOL-Library.AList"
begin

text \<open>
  \<open>internal/modules/auth/service.go\<close> and the authentication tables of
  \<open>internal/state/postgres_store.go\<close>: users, refresh sessions, revoked access tokens and
  second factors, in memory and in the stores.  Go maps are association lists.  Tokens, password
  hashes, HMAC-SHA1 and the secret vault are parameters; the volatile store is an interface of
  the module and keeps what was put into it until it is deleted or expires.  During one call the stores
  answer throughout or fail throughout.
\<close>

section \<open>Data\<close>

record authUser =
  lu_ID :: string
  lu_Name :: string
  lu_Email :: string
  lu_Role :: string
  lu_TenantID :: string
  lu_BuildingIDs :: "string list"
  lu_Language :: string
  lu_PasswordAuthEnabled :: bool

text \<open>An empty password hash is none.\<close>

record userRecord =
  ur_User :: authUser
  ur_PasswordHash :: string

record refreshSession =
  se_UserID :: string
  se_ExpiresAt :: time
  se_IPAddress :: string
  se_UserAgent :: string
  se_LoginMethod :: string
  se_CreatedAt :: time

record sessionMetadata =
  sm_IPAddress :: string
  sm_UserAgent :: string
  sm_LoginMethod :: string

record mfaRecoveryCode =
  rc_CodeHash :: string
  rc_Used :: bool

record adminMFAState =
  ms_Secret :: string
  ms_PendingSecret :: string
  ms_Enabled :: bool
  ms_RecoveryCodes :: "mfaRecoveryCode list"
  ms_UpdatedAt :: time

record passwordResetToken =
  pt_Email :: string
  pt_ExpiresAt :: time

record tokenClaims =
  tc_UserID :: string
  tc_Name :: string
  tc_Email :: string
  tc_Role :: string
  tc_TenantID :: string
  tc_BuildingIDs :: "string list"
  tc_Language :: string
  tc_TokenType :: string
  tc_ID :: string
  tc_Subject :: string
  tc_Issuer :: string
  tc_Audience :: "string list"
  tc_IssuedAt :: "time option"
  tc_NotBefore :: "time option"
  tc_ExpiresAt :: "time option"

datatype auth_error =
    InvalidCredentials | InvalidRefreshToken | InvalidAccessToken | AuthUserNotFound
  | UserRoleUnsupported | AdminMFAEnrollmentRequired | AdminMFARequired | InvalidMFACode
  | AdminMFANotConfigured | PasswordTooWeak | PasswordResetTokenInvalid | PasswordResetTokenExpired
  | PasswordAuthDisabled | AuthEmailRequired | UserAlreadyExists | AuthInternal

text \<open>
  \<open>jwt_Parse\<close> reads a token signed with an HMAC method and the key, and checks its times;
  \<open>bc_Generate\<close> takes the random salt first.
\<close>

record authCrypto =
  jwt_Sign :: "string \<Rightarrow> tokenClaims \<Rightarrow> string option"
  jwt_Parse :: "string \<Rightarrow> time \<Rightarrow> string \<Rightarrow> tokenClaims option"
  bc_Generate :: "string \<Rightarrow> string \<Rightarrow> string option"
  bc_Compare :: "string \<Rightarrow> string \<Rightarrow> bool"
  hmac_sha1 :: "byte list \<Rightarrow> byte list \<Rightarrow> byte list"

record secretVault =
  sv_IsConfigured :: bool
  sv_EncryptVersioned :: "string \<Rightarrow> string option"
  sv_DecryptVersioned :: "string \<Rightarrow> string option"
  sv_NeedsReEncrypt :: "string \<Rightarrow> bool"

record authDB =
  db_users :: "userRecord list"
  db_sessions :: "(string \<times> string \<times> time) list"
  db_revoked :: "(string \<times> time) list"
  db_mfa :: "(string \<times> adminMFAState) list"

record volatileStore =
  vo_sessions :: "(string \<times> string \<times> time) list"
  vo_revoked :: "(string \<times> time) list"

record authService =
  au_signingKey :: string
  au_issuer :: string
  au_accessTTL :: int
  au_refreshTTL :: int
  au_adminMFARequired :: bool
  au_adminMFA :: "(string \<times> adminMFAState) list"
  au_persistence :: "authDB option"
  au_volatileStore :: "volatileStore option"
  au_secretVault :: "secretVault option"
  au_usersByEmail :: "(string \<times> userRecord) list"
  au_usersByID :: "(string \<times> authUser) list"
  au_refreshSessions :: "(string \<times> refreshSession) list"
  au_revokedAccess :: "(string \<times> time) list"
  au_passwordResetTokens :: "(string \<times> passwordResetToken) list"

abbreviation no_session :: refreshSession where
  "no_session \<equiv> \<lparr>se_UserID = '''', se_ExpiresAt = zero_time, se_IPAddress = '''', se_UserAgent = '''',
     se_LoginMethod = '''', se_CreatedAt = zero_time\<rparr>"

abbreviation no_mfa :: adminMFAState where
  "no_mfa \<equiv> \<lparr>ms_Secret = '''', ms_PendingSecret = '''', ms_Enabled = False, ms_RecoveryCodes = [], ms_UpdatedAt = zero_time\<rparr>"

section \<open>Normalisation\<close>

definition normalizeEmail_auth :: "string \<Rightarrow> string" where
  "normalizeEmail_auth email = to_lower (trim_space email)"

definition normalizeLanguage :: "string \<Rightarrow> string" where
  "normalizeLanguage language =
     (if trim_space language \<in> {''en-US'', ''id-ID'', ''zh-CN''} then trim_space language else '''')"

fun unique_ids_from :: "string list \<Rightarrow> string list \<Rightarrow> string list" where
  "unique_ids_from seen [] = []"
| "unique_ids_from seen (raw # rest) =
     (if trim_space raw = '''' \<or> trim_space raw \<in> set seen then unique_ids_from seen rest
      else trim_space raw # unique_ids_from (trim_space raw # seen) rest)"

definition uniqueNormalizedIDs :: "string list \<Rightarrow> string list" where
  "uniqueNormalizedIDs values = unique_ids_from [] values"

definition normalizeUser :: "authUser \<Rightarrow> authUser option" where
  "normalizeUser u =
     (let n = \<lparr>lu_ID = trim_space (lu_ID u), lu_Name = trim_space (lu_Name u), lu_Email = normalizeEmail_auth (lu_Email u),
               lu_Role = to_lower (trim_space (lu_Role u)), lu_TenantID = trim_space (lu_TenantID u),
               lu_BuildingIDs = uniqueNormalizedIDs (lu_BuildingIDs u), lu_Language = normalizeLanguage (lu_Language u),
               lu_PasswordAuthEnabled = lu_PasswordAuthEnabled u\<rparr> in
      if lu_ID n = '''' \<or> lu_Email n = '''' \<or> lu_Role n = '''' then None else Some n)"

definition isAdminRole :: "string \<Rightarrow> bool" where
  "isAdminRole role \<longleftrightarrow> to_lower (trim_space role) \<in> {''super_admin'', ''tenant_admin''}"

definition is_upper :: "char \<Rightarrow> bool" where
  "is_upper c \<longleftrightarrow> (let n = (of_char c :: nat) in 65 \<le> n \<and> n \<le> 90)"

definition is_lower :: "char \<Rightarrow> bool" where
  "is_lower c \<longleftrightarrow> (let n = (of_char c :: nat) in 97 \<le> n \<and> n \<le> 122)"

definition ValidatePasswordPolicy :: "string \<Rightarrow> auth_error option" where
  "ValidatePasswordPolicy password =
     (if length password < 8 then Some PasswordTooWeak
      else if list_ex is_upper password \<and> list_ex is_lower password \<and> list_ex is_digit password then None
      else Some PasswordTooWeak)"

definition verifyPassword :: "authCrypto \<Rightarrow> string \<Rightarrow> string \<Rightarrow> bool" where
  "verifyPassword ac hash plain \<longleftrightarrow> hash \<noteq> '''' \<and> plain \<noteq> '''' \<and> bc_Compare ac hash plain"

definition adminMFAStateForPersistence :: "adminMFAState \<Rightarrow> adminMFAState" where
  "adminMFAStateForPersistence st =
     st\<lparr>ms_Secret := trim_space (ms_Secret st), ms_PendingSecret := trim_space (ms_PendingSecret st)\<rparr>"

definition adminMFAStateFromPersistence :: "adminMFAState \<Rightarrow> adminMFAState" where
  "adminMFAStateFromPersistence st =
     st\<lparr>ms_Secret := trim_space (ms_Secret st), ms_PendingSecret := trim_space (ms_PendingSecret st)\<rparr>"

section \<open>The tables\<close>

text \<open>
  The user table has the identifier as its key and a unique index on the lowered e-mail, and no
  column for \<open>PasswordAuthEnabled\<close>; the table of second factors has none for recovery codes.
\<close>

definition UpsertAuthUser :: "env \<Rightarrow> authUser \<Rightarrow> string \<Rightarrow> authDB \<Rightarrow> bool \<times> authDB" where
  "UpsertAuthUser e user hash db =
     (case normalizeUser user of
        None \<Rightarrow> (False, db)
      | Some n \<Rightarrow>
          let row = \<lparr>ur_User = n\<lparr>lu_PasswordAuthEnabled := False\<rparr>, ur_PasswordHash = hash\<rparr> in
          if \<not> env_save_ok e \<or>
             list_ex (\<lambda>r. lu_ID (ur_User r) \<noteq> lu_ID n \<and> to_lower (lu_Email (ur_User r)) = to_lower (lu_Email n)) (db_users db)
            then (False, db)
          else
            (True, db\<lparr>db_users :=
               (case find_idx (\<lambda>r. lu_ID (ur_User r) = lu_ID n) (db_users db) of
                  None \<Rightarrow> db_users db @ [row] | Some i \<Rightarrow> (db_users db)[i := row])\<rparr>))"

definition found_user :: "userRecord option \<Rightarrow> (authUser \<times> string) option" where
  "found_user r =
     (case r of None \<Rightarrow> None
      | Some x \<Rightarrow> (case normalizeUser (ur_User x) of None \<Rightarrow> None | Some u \<Rightarrow> Some (u, ur_PasswordHash x)))"

definition FindAuthUserByEmail :: "env \<Rightarrow> string \<Rightarrow> authDB \<Rightarrow> (unit, (authUser \<times> string) option) result" where
  "FindAuthUserByEmail e email db =
     (if normalizeEmail_auth email = '''' then Inr None
      else if \<not> env_save_ok e then Inl ()
      else Inr (found_user (find (\<lambda>r. to_lower (lu_Email (ur_User r)) = normalizeEmail_auth email) (db_users db))))"

definition FindAuthUserByID :: "env \<Rightarrow> string \<Rightarrow> authDB \<Rightarrow> (unit, (authUser \<times> string) option) result" where
  "FindAuthUserByID e userID db =
     (if trim_space userID = '''' then Inr None
      else if \<not> env_save_ok e then Inl ()
      else Inr (found_user (find (\<lambda>r. lu_ID (ur_User r) = trim_space userID) (db_users db))))"

definition UpsertAuthRefreshSession :: "env \<Rightarrow> string \<Rightarrow> string \<Rightarrow> time \<Rightarrow> authDB \<Rightarrow> bool \<times> authDB" where
  "UpsertAuthRefreshSession e sid uid expiresAt db =
     (if trim_space sid = '''' \<or> trim_space uid = '''' \<or> is_zero expiresAt \<or> \<not> env_save_ok e then (False, db)
      else (True, db\<lparr>db_sessions := AList.update (trim_space sid) (trim_space uid, expiresAt) (db_sessions db)\<rparr>))"

definition FindAuthRefreshSession :: "env \<Rightarrow> string \<Rightarrow> authDB \<Rightarrow> (unit, (string \<times> time) option) result" where
  "FindAuthRefreshSession e sid db =
     (if trim_space sid = '''' then Inr None
      else if \<not> env_save_ok e then Inl ()
      else Inr (map_option (\<lambda>(u, t). (trim_space u, t)) (map_of (db_sessions db) (trim_space sid))))"

definition DeleteAuthRefreshSession :: "env \<Rightarrow> string \<Rightarrow> authDB \<Rightarrow> bool \<times> authDB" where
  "DeleteAuthRefreshSession e sid db =
     (if trim_space sid = '''' then (True, db)
      else if \<not> env_save_ok e then (False, db)
      else (True, db\<lparr>db_sessions := AList.delete (trim_space sid) (db_sessions db)\<rparr>))"

definition DeleteAuthRefreshSessionsByUserID :: "env \<Rightarrow> string \<Rightarrow> authDB \<Rightarrow> nat option \<times> authDB" where
  "DeleteAuthRefreshSessionsByUserID e uid db =
     (if trim_space uid = '''' then (Some 0, db)
      else if \<not> env_save_ok e then (None, db)
      else (Some (length (filter (\<lambda>(_, u, _). u = trim_space uid) (db_sessions db))),
            db\<lparr>db_sessions := filter (\<lambda>(_, u, _). u \<noteq> trim_space uid) (db_sessions db)\<rparr>))"

definition UpsertAuthRevokedAccessToken :: "env \<Rightarrow> string \<Rightarrow> time \<Rightarrow> authDB \<Rightarrow> bool \<times> authDB" where
  "UpsertAuthRevokedAccessToken e tid expiresAt db =
     (if trim_space tid = '''' \<or> is_zero expiresAt \<or> \<not> env_save_ok e then (False, db)
      else (True, db\<lparr>db_revoked := AList.update (trim_space tid) expiresAt (db_revoked db)\<rparr>))"

definition IsAuthAccessTokenRevoked :: "env \<Rightarrow> string \<Rightarrow> authDB \<Rightarrow> (unit, bool) result \<times> authDB" where
  "IsAuthAccessTokenRevoked e tid db =
     (if trim_space tid = '''' then (Inr False, db)
      else if \<not> env_save_ok e then (Inl (), db)
      else
        (case map_of (db_revoked db) (trim_space tid) of
           None \<Rightarrow> (Inr False, db)
         | Some expiresAt \<Rightarrow>
             if expiresAt > env_now e then (Inr True, db)
             else (Inr False, db\<lparr>db_revoked := AList.delete (trim_space tid) (db_revoked db)\<rparr>)))"

definition UpsertAuthAdminMFAState :: "env \<Rightarrow> string \<Rightarrow> adminMFAState \<Rightarrow> authDB \<Rightarrow> bool \<times> authDB" where
  "UpsertAuthAdminMFAState e uid st db =
     (if trim_space uid = '''' \<or> \<not> env_save_ok e then (False, db)
      else (True, db\<lparr>db_mfa := AList.update (trim_space uid) ((adminMFAStateForPersistence st)\<lparr>ms_RecoveryCodes := []\<rparr>) (db_mfa db)\<rparr>))"

definition FindAuthAdminMFAState :: "env \<Rightarrow> string \<Rightarrow> authDB \<Rightarrow> (unit, adminMFAState option) result" where
  "FindAuthAdminMFAState e uid db =
     (if trim_space uid = '''' then Inr None
      else if \<not> env_save_ok e then Inl ()
      else Inr (map_option adminMFAStateFromPersistence (map_of (db_mfa db) (trim_space uid))))"

section \<open>The volatile store\<close>

definition volatile_session :: "env \<Rightarrow> string \<Rightarrow> volatileStore \<Rightarrow> (unit, (string \<times> time) option) result" where
  "volatile_session e sid v =
     (if \<not> env_save_ok e then Inl ()
      else Inr (case map_of (vo_sessions v) sid of
                  None \<Rightarrow> None | Some (u, t) \<Rightarrow> if t > env_now e then Some (u, t) else None))"

definition volatile_revoked :: "env \<Rightarrow> string \<Rightarrow> volatileStore \<Rightarrow> (unit, bool) result" where
  "volatile_revoked e tid v =
     (if \<not> env_save_ok e then Inl ()
      else Inr (case map_of (vo_revoked v) tid of None \<Rightarrow> False | Some t \<Rightarrow> t > env_now e))"

section \<open>Expiry\<close>

definition cleanupExpiredLocked :: "time \<Rightarrow> authService \<Rightarrow> authService" where
  "cleanupExpiredLocked now s =
     s\<lparr>au_revokedAccess := filter (\<lambda>(_, t). t > now) (au_revokedAccess s),
       au_refreshSessions := filter (\<lambda>(_, r). se_ExpiresAt r > now) (au_refreshSessions s)\<rparr>"

end
