(* ===== verification/Auth_Users.thy ===== *)
theory Auth_Users
  imports Auth_State
begin

text \<open>
  \<open>internal/modules/auth/service.go\<close>: looking users up through the store and the cache, sign-up,
  profiles, passwords and password resets.  A lookup refreshes the cache, so it returns a state.
\<close>

section \<open>Lookup and cache\<close>

definition cacheUserLocked :: "authUser \<Rightarrow> string \<Rightarrow> authService \<Rightarrow> authService" where
  "cacheUserLocked user hash s =
     (let email = normalizeEmail_auth (lu_Email user);
          byEmail =
            (case map_of (au_usersByID s) (lu_ID user) of
               None \<Rightarrow> au_usersByEmail s
             | Some old \<Rightarrow>
                 let oldEmail = normalizeEmail_auth (lu_Email old) in
                 if oldEmail \<noteq> '''' \<and> oldEmail \<noteq> email then AList.delete oldEmail (au_usersByEmail s)
                 else au_usersByEmail s);
          cached = (if hash \<noteq> '''' \<and> \<not> lu_PasswordAuthEnabled user then user\<lparr>lu_PasswordAuthEnabled := True\<rparr> else user) in
      s\<lparr>au_usersByID := AList.update (lu_ID user) cached (au_usersByID s),
        au_usersByEmail := AList.update email \<lparr>ur_User = cached, ur_PasswordHash = hash\<rparr> byEmail\<rparr>)"

text \<open>What the store knows, normalised; \<open>None\<close> sends the caller to the cache.\<close>

definition stored_user ::
  "(authDB \<Rightarrow> (unit, (authUser \<times> string) option) result) \<Rightarrow> authService \<Rightarrow> (unit, (authUser \<times> string) option) result" where
  "stored_user find_row s =
     (case au_persistence s of
        None \<Rightarrow> Inr None
      | Some db \<Rightarrow>
          (case find_row db of
             Inl _ \<Rightarrow> Inl ()
           | Inr None \<Rightarrow> Inr None
           | Inr (Some (u, h)) \<Rightarrow> Inr (case normalizeUser u of None \<Rightarrow> None | Some n \<Rightarrow> Some (n, h))))"

definition findUserByEmail :: "env \<Rightarrow> string \<Rightarrow> authService \<Rightarrow> (unit, userRecord option) result \<times> authService" where
  "findUserByEmail e email s =
     (let nextEmail = normalizeEmail_auth email in
      if nextEmail = '''' then (Inr None, s)
      else
        (case stored_user (FindAuthUserByEmail e nextEmail) s of
           Inl _ \<Rightarrow> (Inl (), s)
         | Inr (Some (u, h)) \<Rightarrow>
             let u' = (if h \<noteq> '''' \<and> \<not> lu_PasswordAuthEnabled u then u\<lparr>lu_PasswordAuthEnabled := True\<rparr> else u) in
             (Inr (Some \<lparr>ur_User = u', ur_PasswordHash = h\<rparr>), cacheUserLocked u' h s)
         | Inr None \<Rightarrow> (Inr (map_of (au_usersByEmail s) nextEmail), s)))"

definition findUserByEmailLocked :: "env \<Rightarrow> string \<Rightarrow> authService \<Rightarrow> (unit, userRecord option) result \<times> authService" where
  "findUserByEmailLocked e email s =
     (let nextEmail = normalizeEmail_auth email in
      if nextEmail = '''' then (Inr None, s)
      else
        (case stored_user (FindAuthUserByEmail e nextEmail) s of
           Inl _ \<Rightarrow> (Inl (), s)
         | Inr (Some (u, h)) \<Rightarrow> (Inr (Some \<lparr>ur_User = u, ur_PasswordHash = h\<rparr>), cacheUserLocked u h s)
         | Inr None \<Rightarrow> (Inr (map_of (au_usersByEmail s) nextEmail), s)))"

definition findUserByID :: "env \<Rightarrow> string \<Rightarrow> authService \<Rightarrow> (unit, authUser option) result \<times> authService" where
  "findUserByID e userID s =
     (let nextUserID = trim_space userID in
      if nextUserID = '''' then (Inr None, s)
      else
        (case stored_user (FindAuthUserByID e nextUserID) s of
           Inl _ \<Rightarrow> (Inl (), s)
         | Inr (Some (u, h)) \<Rightarrow> (Inr (Some u), cacheUserLocked u h s)
         | Inr None \<Rightarrow> (Inr (map_of (au_usersByID s) nextUserID), s)))"

text \<open>The same steps under the lock.\<close>

definition findUserByIDLocked :: "env \<Rightarrow> string \<Rightarrow> authService \<Rightarrow> (unit, authUser option) result \<times> authService" where
  "findUserByIDLocked e userID s = findUserByID e userID s"

definition persistUserLocked :: "env \<Rightarrow> authUser \<Rightarrow> string \<Rightarrow> authService \<Rightarrow> bool \<times> authService" where
  "persistUserLocked e user hash s =
     (case normalizeUser user of
        None \<Rightarrow> (False, s)
      | Some n \<Rightarrow>
          (case au_persistence s of
             None \<Rightarrow> (True, cacheUserLocked n hash s)
           | Some db \<Rightarrow>
               (case UpsertAuthUser e n hash db of
                  (False, _) \<Rightarrow> (False, s)
                | (True, db') \<Rightarrow> (True, cacheUserLocked n hash (s\<lparr>au_persistence := Some db'\<rparr>)))))"

definition GetUserByID :: "env \<Rightarrow> string \<Rightarrow> authService \<Rightarrow> (auth_error, authUser) result \<times> authService" where
  "GetUserByID e userID s =
     (case findUserByID e userID s of
        (Inr (Some u), s1) \<Rightarrow> (Inr u, s1) | (_, s1) \<Rightarrow> (Inl AuthUserNotFound, s1))"

definition FindUserByEmail_auth :: "env \<Rightarrow> string \<Rightarrow> authService \<Rightarrow> (auth_error, authUser) result \<times> authService" where
  "FindUserByEmail_auth e email s =
     (case findUserByEmail e email s of
        (Inr (Some r), s1) \<Rightarrow> (Inr (ur_User r), s1) | (_, s1) \<Rightarrow> (Inl AuthUserNotFound, s1))"

section \<open>Sign-up and profiles\<close>

definition hash_password :: "authCrypto \<Rightarrow> string option \<Rightarrow> string \<Rightarrow> string option" where
  "hash_password ac salt password = (case salt of None \<Rightarrow> None | Some x \<Rightarrow> bc_Generate ac x password)"

definition CreateUser_auth ::
  "authCrypto \<Rightarrow> env \<Rightarrow> reads \<Rightarrow> string \<Rightarrow> string \<Rightarrow> string \<Rightarrow> authService \<Rightarrow> (auth_error, authUser) result \<times> authService" where
  "CreateUser_auth ac e rd email name password s =
     (let nextEmail = normalizeEmail_auth email in
      if nextEmail = '''' then (Inl AuthEmailRequired, s)
      else
        (case ValidatePasswordPolicy password of
           Some err \<Rightarrow> (Inl err, s)
         | None \<Rightarrow>
             (case (hash_password ac (rd 0) password, rd 1) of
                (Some hash, Some h) \<Rightarrow>
                  let user = \<lparr>lu_ID = ''usr_'' @ h, lu_Name = trim_space name, lu_Email = nextEmail, lu_Role = ''resident'',
                              lu_TenantID = '''', lu_BuildingIDs = [], lu_Language = '''', lu_PasswordAuthEnabled = True\<rparr> in
                  (case findUserByEmailLocked e nextEmail s of
                     (Inr (Some _), s1) \<Rightarrow> (Inl UserAlreadyExists, s1)
                   | (_, s1) \<Rightarrow>
                       (case persistUserLocked e user hash s1 of
                          (False, s2) \<Rightarrow> (Inl AuthInternal, s2) | (True, s2) \<Rightarrow> (Inr user, s2)))
              | _ \<Rightarrow> (Inl AuthInternal, s))))"

text \<open>The hash kept for a user, none when the e-mail is unknown.\<close>

definition kept_hash :: "userRecord option \<Rightarrow> string" where
  "kept_hash r = (case r of None \<Rightarrow> '''' | Some x \<Rightarrow> ur_PasswordHash x)"

definition store_changed ::
  "env \<Rightarrow> authUser \<Rightarrow> auth_error \<Rightarrow> authService \<Rightarrow> (auth_error, authUser) result \<times> authService" where
  "store_changed e user err s =
     (case findUserByEmailLocked e (lu_Email user) s of
        (Inl _, s1) \<Rightarrow> (Inl AuthUserNotFound, s1)
      | (Inr r, s1) \<Rightarrow>
          (case persistUserLocked e user (kept_hash r) s1 of
             (False, s2) \<Rightarrow> (Inl err, s2) | (True, s2) \<Rightarrow> (Inr user, s2)))"

definition UpdateUserBuildingScope ::
  "env \<Rightarrow> string \<Rightarrow> string list \<Rightarrow> authService \<Rightarrow> (auth_error, authUser) result \<times> authService" where
  "UpdateUserBuildingScope e userID buildingIDs s =
     (case findUserByIDLocked e userID s of
        (Inr (Some user), s1) \<Rightarrow>
          if to_lower (trim_space (lu_Role user)) \<noteq> ''building_admin'' then (Inl UserRoleUnsupported, s1)
          else store_changed e (user\<lparr>lu_BuildingIDs := uniqueNormalizedIDs buildingIDs\<rparr>) AuthUserNotFound s1
      | (_, s1) \<Rightarrow> (Inl AuthUserNotFound, s1))"

text \<open>Here a failing lookup of the hash counts as none.\<close>

definition UpdateUserPasswordAuth ::
  "env \<Rightarrow> string \<Rightarrow> bool \<Rightarrow> authService \<Rightarrow> (auth_error, authUser) result \<times> authService" where
  "UpdateUserPasswordAuth e userID enabled s =
     (case findUserByIDLocked e userID s of
        (Inr (Some u), s1) \<Rightarrow>
          let user = u\<lparr>lu_PasswordAuthEnabled := enabled\<rparr> in
          (case findUserByEmailLocked e (lu_Email user) s1 of
             (found, s2) \<Rightarrow>
               (case persistUserLocked e user (case found of Inl _ \<Rightarrow> '''' | Inr r \<Rightarrow> kept_hash r) s2 of
                  (False, s3) \<Rightarrow> (Inl AuthInternal, s3) | (True, s3) \<Rightarrow> (Inr user, s3)))
      | (_, s1) \<Rightarrow> (Inl AuthUserNotFound, s1))"

definition UpdateUserProfile ::
  "env \<Rightarrow> string \<Rightarrow> string \<Rightarrow> string \<Rightarrow> authService \<Rightarrow> (auth_error, authUser) result \<times> authService" where
  "UpdateUserProfile e userID name language s =
     (case findUserByIDLocked e userID s of
        (Inr (Some user), s1) \<Rightarrow>
          store_changed e (user\<lparr>lu_Name := trim_space name, lu_Language := normalizeLanguage language\<rparr>) AuthUserNotFound s1
      | (_, s1) \<Rightarrow> (Inl AuthUserNotFound, s1))"

definition DowngradeTrustedUserToLeastPrivilegeByEmail ::
  "env \<Rightarrow> string \<Rightarrow> string \<Rightarrow> authService \<Rightarrow> (authUser \<times> authUser) option \<times> authService" where
  "DowngradeTrustedUserToLeastPrivilegeByEmail e email fallbackTenantID s =
     (case findUserByEmail e email s of
        (Inr (Some r), s1) \<Rightarrow>
          let before = ur_User r;
              after = before\<lparr>lu_Role := ''resident'', lu_BuildingIDs := [],
                             lu_TenantID := (if trim_space (lu_TenantID before) = '''' \<and> trim_space fallbackTenantID \<noteq> ''''
                                             then trim_space fallbackTenantID else lu_TenantID before)\<rparr> in
          (case persistUserLocked e after (ur_PasswordHash r) (cleanupExpiredLocked (env_now e) s1) of
             (False, s2) \<Rightarrow> (None, s2) | (True, s2) \<Rightarrow> (Some (before, after), s2))
      | (_, s1) \<Rightarrow> (None, s1))"

section \<open>Passwords\<close>

definition VerifyUserPassword ::
  "authCrypto \<Rightarrow> env \<Rightarrow> string \<Rightarrow> string \<Rightarrow> authService \<Rightarrow> auth_error option \<times> authService" where
  "VerifyUserPassword ac e userID password s =
     (case findUserByID e userID s of
        (Inr (Some user), s1) \<Rightarrow>
          (case findUserByEmail e (lu_Email user) s1 of
             (Inr (Some r), s2) \<Rightarrow>
               (if verifyPassword ac (ur_PasswordHash r) password then None else Some InvalidCredentials, s2)
           | (_, s2) \<Rightarrow> (Some AuthUserNotFound, s2))
      | (_, s1) \<Rightarrow> (Some AuthUserNotFound, s1))"

definition ChangePassword ::
  "authCrypto \<Rightarrow> env \<Rightarrow> reads \<Rightarrow> string \<Rightarrow> string \<Rightarrow> string \<Rightarrow> authService \<Rightarrow> auth_error option \<times> authService" where
  "ChangePassword ac e rd userID currentPassword newPassword s =
     (if trim_space userID = '''' then (Some AuthUserNotFound, s)
      else
        (case ValidatePasswordPolicy newPassword of
           Some err \<Rightarrow> (Some err, s)
         | None \<Rightarrow>
             (case findUserByID e userID s of
                (Inr (Some user), s1) \<Rightarrow>
                  (case findUserByEmail e (lu_Email user) s1 of
                     (Inr (Some r), s2) \<Rightarrow>
                       if \<not> verifyPassword ac (ur_PasswordHash r) currentPassword then (Some InvalidCredentials, s2)
                       else
                         (case hash_password ac (rd 0) newPassword of
                            None \<Rightarrow> (Some AuthInternal, s2)
                          | Some hash \<Rightarrow>
                              (case findUserByEmailLocked e (lu_Email user) s2 of
                                 (Inr (Some r'), s3) \<Rightarrow>
                                   (case persistUserLocked e (ur_User r') hash s3 of
                                      (False, s4) \<Rightarrow> (Some AuthInternal, s4) | (True, s4) \<Rightarrow> (None, s4))
                               | (_, s3) \<Rightarrow> (Some AuthUserNotFound, s3)))
                   | (_, s2) \<Rightarrow> (Some AuthUserNotFound, s2))
              | (_, s1) \<Rightarrow> (Some AuthUserNotFound, s1))))"

definition passwordResetTokenTTL :: int where "passwordResetTokenTTL = 15 * ns_minute"

definition RequestPasswordReset ::
  "env \<Rightarrow> reads \<Rightarrow> string \<Rightarrow> authService \<Rightarrow> (auth_error, string) result \<times> authService" where
  "RequestPasswordReset e rd email s =
     (case findUserByEmail e email s of
        (Inr (Some _), s1) \<Rightarrow>
          (case rd 0 of
             None \<Rightarrow> (Inl AuthInternal, s1)
           | Some h \<Rightarrow>
               let token = ''prt_'' @ h;
                   live = filter (\<lambda>(_, t). \<not> pt_ExpiresAt t < env_now e) (au_passwordResetTokens s1) in
               (Inr token,
                s1\<lparr>au_passwordResetTokens :=
                     AList.update token \<lparr>pt_Email = normalizeEmail_auth email, pt_ExpiresAt = env_now e + passwordResetTokenTTL\<rparr> live\<rparr>))
      | (_, s1) \<Rightarrow> (Inr '''', s1))"

definition ConfirmPasswordReset ::
  "authCrypto \<Rightarrow> env \<Rightarrow> reads \<Rightarrow> string \<Rightarrow> string \<Rightarrow> authService \<Rightarrow> auth_error option \<times> authService" where
  "ConfirmPasswordReset ac e rd token newPassword s =
     (let nextToken = trim_space token in
      if nextToken = '''' then (Some PasswordResetTokenInvalid, s)
      else
        (case ValidatePasswordPolicy newPassword of
           Some err \<Rightarrow> (Some err, s)
         | None \<Rightarrow>
             (case map_of (au_passwordResetTokens s) nextToken of
                None \<Rightarrow> (Some PasswordResetTokenInvalid, s)
              | Some prt \<Rightarrow>
                  let s1 = s\<lparr>au_passwordResetTokens := AList.delete nextToken (au_passwordResetTokens s)\<rparr> in
                  if pt_ExpiresAt prt < env_now e then (Some PasswordResetTokenExpired, s1)
                  else
                    (case findUserByEmailLocked e (pt_Email prt) s1 of
                       (Inr (Some r), s2) \<Rightarrow>
                         (case hash_password ac (rd 0) newPassword of
                            None \<Rightarrow> (Some AuthInternal, s2)
                          | Some hash \<Rightarrow>
                              (case persistUserLocked e (ur_User r) hash s2 of
                                 (False, s3) \<Rightarrow> (Some AuthInternal, s3) | (True, s3) \<Rightarrow> (None, s3)))
                     | (_, s2) \<Rightarrow> (Some AuthUserNotFound, s2)))))"

end
