(* ===== verification/Auth_Mfa.thy ===== *)
theory Auth_Mfa
  imports Auth_Users
begin

unbundle bit_operations_syntax

text \<open>
  \<open>internal/modules/auth/service.go\<close>: the second factor.  Time-based codes after RFC 6238 over the HMAC
  parameter, one-time recovery codes, enrolment and its persistence.  The \<open>otpauth\<close> link of an
  enrolment, which only repeats the secret, is left out.  A random read gives the text the code
  makes of the bytes.
\<close>

section \<open>Time-based codes\<close>

text \<open>\<open>base32.StdEncoding\<close> without padding; a last group of one, three or six characters gives nothing.\<close>

definition b32_val :: "char \<Rightarrow> nat option" where
  "b32_val c =
     (let n = (of_char c :: nat) in
      if 65 \<le> n \<and> n \<le> 90 then Some (n - 65) else if 50 \<le> n \<and> n \<le> 55 then Some (n - 24) else None)"

fun b32_vals :: "string \<Rightarrow> nat list option" where
  "b32_vals [] = Some []"
| "b32_vals (c # cs) =
     (case (b32_val c, b32_vals cs) of (Some v, Some vs) \<Rightarrow> Some (v # vs) | _ \<Rightarrow> None)"

fun b32_bytes :: "nat list \<Rightarrow> byte list" where
  "b32_bytes (a # b # c # d # e # f # g # h # rest) =
     of_nat (a * 8 + b div 4) # of_nat (b mod 4 * 64 + c * 2 + d div 16) # of_nat (d mod 16 * 16 + e div 2)
       # of_nat (e mod 2 * 128 + f * 4 + g div 8) # of_nat (g mod 8 * 32 + h) # b32_bytes rest"
| "b32_bytes [a, b, c, d, e, f, g] =
     [of_nat (a * 8 + b div 4), of_nat (b mod 4 * 64 + c * 2 + d div 16), of_nat (d mod 16 * 16 + e div 2),
      of_nat (e mod 2 * 128 + f * 4 + g div 8)]"
| "b32_bytes [a, b, c, d, e] =
     [of_nat (a * 8 + b div 4), of_nat (b mod 4 * 64 + c * 2 + d div 16), of_nat (d mod 16 * 16 + e div 2)]"
| "b32_bytes [a, b, c, d] = [of_nat (a * 8 + b div 4), of_nat (b mod 4 * 64 + c * 2 + d div 16)]"
| "b32_bytes [a, b] = [of_nat (a * 8 + b div 4)]"
| "b32_bytes _ = []"

definition b32_decode :: "string \<Rightarrow> byte list option" where
  "b32_decode x = map_option b32_bytes (b32_vals (filter (\<lambda>c. c \<noteq> CHR 0x0A \<and> c \<noteq> CHR 0x0D) x))"

definition fmt6 :: "nat \<Rightarrow> string" where
  "fmt6 n = map (\<lambda>k. digit_char (int (n div 10 ^ k mod 10))) [5, 4, 3, 2, 1, 0]"

text \<open>Dynamic truncation; an index beyond the digest would panic, which twenty bytes exclude.\<close>

definition truncate_digest :: "byte list \<Rightarrow> nat" where
  "truncate_digest digest =
     (let off = unat (last digest AND 0x0f) in
      unat (digest ! off AND 0x7f) * 2 ^ 24 + unat (digest ! (off + 1)) * 2 ^ 16 +
      unat (digest ! (off + 2)) * 2 ^ 8 + unat (digest ! (off + 3)))"

definition totpCodeAt :: "authCrypto \<Rightarrow> string \<Rightarrow> int \<Rightarrow> string option" where
  "totpCodeAt ac secret counter =
     (let nextSecret = to_upper (trim_space secret) in
      if nextSecret = '''' then None
      else
        (case b32_decode nextSecret of
           None \<Rightarrow> None
         | Some key \<Rightarrow> Some (fmt6 (truncate_digest (hmac_sha1 ac key (put_be 8 (nat (counter mod 2 ^ 64)))) mod 1000000))))"

text \<open>Division of a Go \<open>int64\<close> truncates.\<close>

definition totp_counter :: "time \<Rightarrow> int" where
  "totp_counter now = (if unix_sec now < 0 then - (- unix_sec now div 30) else unix_sec now div 30)"

fun totp_window :: "authCrypto \<Rightarrow> string \<Rightarrow> string \<Rightarrow> int list \<Rightarrow> bool" where
  "totp_window ac secret code [] = False"
| "totp_window ac secret code (c # cs) =
     (case totpCodeAt ac secret c of
        None \<Rightarrow> False | Some g \<Rightarrow> if g = code then True else totp_window ac secret code cs)"

definition verifyTOTPCode :: "authCrypto \<Rightarrow> string \<Rightarrow> string \<Rightarrow> time \<Rightarrow> bool" where
  "verifyTOTPCode ac secret code now =
     (let nextCode = trim_space code; counter = totp_counter now in
      if length nextCode \<noteq> 6 then False
      else if \<not> list_all is_digit nextCode then False
      else totp_window ac secret nextCode [counter - 1, counter, counter + 1])"

section \<open>Recovery codes\<close>

fun recovery_codes :: "authCrypto \<Rightarrow> reads \<Rightarrow> nat \<Rightarrow> nat \<Rightarrow> (string list \<times> mfaRecoveryCode list) option" where
  "recovery_codes ac rd i 0 = Some ([], [])"
| "recovery_codes ac rd i (Suc n) =
     (case rd (2 * i) of
        None \<Rightarrow> None
      | Some code \<Rightarrow>
          (case (hash_password ac (rd (2 * i + 1)) code, recovery_codes ac rd (Suc i) n) of
             (Some h, Some (plain, hashed)) \<Rightarrow> Some (code # plain, \<lparr>rc_CodeHash = h, rc_Used = False\<rparr> # hashed)
           | _ \<Rightarrow> None))"

definition generateRecoveryCodes :: "authCrypto \<Rightarrow> reads \<Rightarrow> nat \<Rightarrow> (string list \<times> mfaRecoveryCode list) option" where
  "generateRecoveryCodes ac rd n = recovery_codes ac rd 0 n"

definition verifyAndConsumeRecoveryCode ::
  "authCrypto \<Rightarrow> mfaRecoveryCode list \<Rightarrow> string \<Rightarrow> mfaRecoveryCode list option" where
  "verifyAndConsumeRecoveryCode ac codes code =
     (case find_idx (\<lambda>c. \<not> rc_Used c \<and> bc_Compare ac (rc_CodeHash c) code) codes of
        None \<Rightarrow> None | Some i \<Rightarrow> Some (codes[i := (codes ! i)\<lparr>rc_Used := True\<rparr>]))"

section \<open>The state of a user's second factor\<close>

definition decrypt_or_keep :: "authService \<Rightarrow> string \<Rightarrow> string" where
  "decrypt_or_keep s x =
     (case au_secretVault s of
        Some v \<Rightarrow> if sv_IsConfigured v then (case sv_DecryptVersioned v x of None \<Rightarrow> x | Some y \<Rightarrow> y) else x
      | None \<Rightarrow> x)"

definition findAdminMFAStateLocked ::
  "env \<Rightarrow> string \<Rightarrow> authService \<Rightarrow> (unit, adminMFAState option) result \<times> authService" where
  "findAdminMFAStateLocked e userID s =
     (let uid = trim_space userID in
      if uid = '''' then (Inr None, s)
      else
        (case map_of (au_adminMFA s) uid of
           Some st \<Rightarrow> (Inr (Some st), s)
         | None \<Rightarrow>
             (case au_persistence s of
                None \<Rightarrow> (Inr None, s)
              | Some db \<Rightarrow>
                  (case FindAuthAdminMFAState e uid db of
                     Inl _ \<Rightarrow> (Inl (), s)
                   | Inr None \<Rightarrow> (Inr None, s)
                   | Inr (Some p) \<Rightarrow>
                       let st = adminMFAStateFromPersistence
                                  (p\<lparr>ms_Secret := decrypt_or_keep s (ms_Secret p),
                                     ms_PendingSecret := decrypt_or_keep s (ms_PendingSecret p)\<rparr>) in
                       (Inr (Some st), s\<lparr>au_adminMFA := AList.update uid st (au_adminMFA s)\<rparr>)))))"

text \<open>The same steps with the lock taken for each.\<close>

definition findAdminMFAState ::
  "env \<Rightarrow> string \<Rightarrow> authService \<Rightarrow> (unit, adminMFAState option) result \<times> authService" where
  "findAdminMFAState e userID s = findAdminMFAStateLocked e userID s"

definition encrypt_secret :: "authService \<Rightarrow> string \<Rightarrow> string option" where
  "encrypt_secret s x =
     (case au_secretVault s of
        Some v \<Rightarrow> if sv_IsConfigured v \<and> x \<noteq> '''' then sv_EncryptVersioned v x else Some x
      | None \<Rightarrow> Some x)"

definition persistAdminMFAStateLocked :: "env \<Rightarrow> string \<Rightarrow> adminMFAState \<Rightarrow> authService \<Rightarrow> bool \<times> authService" where
  "persistAdminMFAStateLocked e userID st s =
     (let uid = trim_space userID;
          state = st\<lparr>ms_Secret := trim_space (ms_Secret st), ms_PendingSecret := trim_space (ms_PendingSecret st)\<rparr>;
          cached = (\<lambda>s'. s'\<lparr>au_adminMFA := AList.update uid state (au_adminMFA s')\<rparr>) in
      if uid = '''' then (False, s)
      else
        (case au_persistence s of
           None \<Rightarrow> (True, cached s)
         | Some db \<Rightarrow>
             let persisted = adminMFAStateForPersistence state in
             (case (encrypt_secret s (ms_Secret persisted), encrypt_secret s (ms_PendingSecret persisted)) of
                (Some x, Some y) \<Rightarrow>
                  (case UpsertAuthAdminMFAState e uid (persisted\<lparr>ms_Secret := x, ms_PendingSecret := y\<rparr>) db of
                     (False, _) \<Rightarrow> (False, s)
                   | (True, db') \<Rightarrow> (True, cached (s\<lparr>au_persistence := Some db'\<rparr>)))
              | _ \<Rightarrow> (False, s))))"

definition mfa_active :: "adminMFAState option \<Rightarrow> bool" where
  "mfa_active st = (case st of None \<Rightarrow> False | Some m \<Rightarrow> ms_Enabled m \<and> trim_space (ms_Secret m) \<noteq> '''')"

text \<open>
  A matching recovery code is marked in the list the cache holds before the state is saved, so it
  is spent in memory even when saving fails.
\<close>

definition consume_recovery ::
  "authCrypto \<Rightarrow> env \<Rightarrow> string \<Rightarrow> string \<Rightarrow> authService \<Rightarrow> auth_error option \<times> authService" where
  "consume_recovery ac e userID code s =
     (case findAdminMFAStateLocked e (trim_space userID) s of
        (Inr (Some st), s1) \<Rightarrow>
          if \<not> ms_Enabled st then (Some InvalidMFACode, s1)
          else
            (case verifyAndConsumeRecoveryCode ac (ms_RecoveryCodes st) code of
               None \<Rightarrow> (Some InvalidMFACode, s1)
             | Some codes \<Rightarrow>
                 let marked = s1\<lparr>au_adminMFA := AList.update (trim_space userID) (st\<lparr>ms_RecoveryCodes := codes\<rparr>) (au_adminMFA s1)\<rparr> in
                 (case persistAdminMFAStateLocked e userID (st\<lparr>ms_RecoveryCodes := codes, ms_UpdatedAt := env_now e\<rparr>) marked of
                    (False, s2) \<Rightarrow> (Some AuthInternal, s2) | (True, s2) \<Rightarrow> (None, s2)))
      | (_, s1) \<Rightarrow> (Some InvalidMFACode, s1))"

definition enforceAdminMFA ::
  "authCrypto \<Rightarrow> env \<Rightarrow> authUser \<Rightarrow> string \<Rightarrow> authService \<Rightarrow> auth_error option \<times> authService" where
  "enforceAdminMFA ac e user mfaCode s =
     (case findAdminMFAState e (trim_space (lu_ID user)) s of
        (Inl _, s1) \<Rightarrow> (Some AuthInternal, s1)
      | (Inr state, s1) \<Rightarrow>
          if \<not> mfa_active state then
            (if isAdminRole (lu_Role user) \<and> au_adminMFARequired s1 then Some AdminMFAEnrollmentRequired else None, s1)
          else if trim_space mfaCode = '''' then (Some AdminMFARequired, s1)
          else if verifyTOTPCode ac (ms_Secret (the state)) (trim_space mfaCode) (env_now e) then (None, s1)
          else consume_recovery ac e (lu_ID user) (trim_space mfaCode) s1)"

section \<open>Enrolment\<close>

record adminMFAStatus =
  mx_UserID :: string
  mx_Enabled :: bool
  mx_Pending :: bool
  mx_UpdatedAt :: "time option"

definition mfa_status :: "string \<Rightarrow> adminMFAState option \<Rightarrow> adminMFAStatus" where
  "mfa_status uid st =
     (let m = get_or no_mfa st in
      \<lparr>mx_UserID = uid, mx_Enabled = mfa_active (Some m), mx_Pending = (trim_space (ms_PendingSecret m) \<noteq> ''''),
       mx_UpdatedAt = (if is_zero (ms_UpdatedAt m) then None else Some (ms_UpdatedAt m))\<rparr>)"

text \<open>The user an operation is about; \<open>adminOnly\<close> tells the administrators' operations from everybody's.\<close>

definition mfa_user ::
  "bool \<Rightarrow> env \<Rightarrow> string \<Rightarrow> authService \<Rightarrow> (auth_error, authUser) result \<times> authService" where
  "mfa_user adminOnly e userID s =
     (case findUserByIDLocked e userID s of
        (Inr (Some u), s1) \<Rightarrow> (if adminOnly \<and> \<not> isAdminRole (lu_Role u) then Inl UserRoleUnsupported else Inr u, s1)
      | (_, s1) \<Rightarrow> (Inl AuthUserNotFound, s1))"

definition mfa_status_of ::
  "bool \<Rightarrow> env \<Rightarrow> string \<Rightarrow> authService \<Rightarrow> (auth_error, adminMFAStatus) result \<times> authService" where
  "mfa_status_of adminOnly e userID s =
     (case mfa_user adminOnly e userID s of
        (Inl err, s1) \<Rightarrow> (Inl err, s1)
      | (Inr _, s1) \<Rightarrow>
          (case findAdminMFAState e (trim_space userID) s1 of
             (Inl _, s2) \<Rightarrow> (Inl AuthInternal, s2)
           | (Inr st, s2) \<Rightarrow> (Inr (mfa_status (trim_space userID) st), s2)))"

definition GetAdminMFAStatus :: "env \<Rightarrow> string \<Rightarrow> authService \<Rightarrow> (auth_error, adminMFAStatus) result \<times> authService" where
  "GetAdminMFAStatus e userID s = mfa_status_of True e userID s"

definition GetUserMFAStatus :: "env \<Rightarrow> string \<Rightarrow> authService \<Rightarrow> (auth_error, adminMFAStatus) result \<times> authService" where
  "GetUserMFAStatus e userID s = mfa_status_of False e userID s"

text \<open>The state is taken from the cache alone: one that is only in the store is not seen.\<close>

definition start_enrollment ::
  "bool \<Rightarrow> env \<Rightarrow> reads \<Rightarrow> string \<Rightarrow> authService \<Rightarrow> (auth_error, string \<times> string) result \<times> authService" where
  "start_enrollment adminOnly e rd userID s =
     (let uid = trim_space userID in
      case mfa_user adminOnly e userID s of
        (Inl err, s1) \<Rightarrow> (Inl err, s1)
      | (Inr _, s1) \<Rightarrow>
          (case rd 0 of
             None \<Rightarrow> (Inl AuthInternal, s1)
           | Some secret \<Rightarrow>
               (case persistAdminMFAStateLocked e uid
                       ((get_or no_mfa (map_of (au_adminMFA s1) uid))\<lparr>ms_PendingSecret := secret, ms_UpdatedAt := env_now e\<rparr>) s1 of
                  (False, s2) \<Rightarrow> (Inl AuthInternal, s2) | (True, s2) \<Rightarrow> (Inr (uid, secret), s2))))"

definition StartAdminMFAEnrollment ::
  "env \<Rightarrow> reads \<Rightarrow> string \<Rightarrow> authService \<Rightarrow> (auth_error, string \<times> string) result \<times> authService" where
  "StartAdminMFAEnrollment e rd userID s = start_enrollment True e rd userID s"

definition StartUserMFAEnrollment ::
  "env \<Rightarrow> reads \<Rightarrow> string \<Rightarrow> authService \<Rightarrow> (auth_error, string \<times> string) result \<times> authService" where
  "StartUserMFAEnrollment e rd userID s = start_enrollment False e rd userID s"

definition enable_mfa ::
  "bool \<Rightarrow> authCrypto \<Rightarrow> env \<Rightarrow> reads \<Rightarrow> string \<Rightarrow> string \<Rightarrow> authService \<Rightarrow>
   (auth_error, adminMFAStatus \<times> string list) result \<times> authService" where
  "enable_mfa adminOnly ac e rd userID code s =
     (let uid = trim_space userID in
      if uid = '''' then (Inl AuthUserNotFound, s)
      else if trim_space code = '''' then (Inl AdminMFARequired, s)
      else
        (case mfa_user adminOnly e userID s of
           (Inl err, s1) \<Rightarrow> (Inl err, s1)
         | (Inr _, s1) \<Rightarrow>
             (case findAdminMFAStateLocked e uid s1 of
                (Inl _, s2) \<Rightarrow> (Inl AuthInternal, s2)
              | (Inr None, s2) \<Rightarrow> (Inl AdminMFANotConfigured, s2)
              | (Inr (Some st), s2) \<Rightarrow>
                  if trim_space (ms_PendingSecret st) = '''' then (Inl AdminMFANotConfigured, s2)
                  else if \<not> verifyTOTPCode ac (ms_PendingSecret st) (trim_space code) (env_now e) then (Inl InvalidMFACode, s2)
                  else
                    (case generateRecoveryCodes ac rd 8 of
                       None \<Rightarrow> (Inl AuthInternal, s2)
                     | Some (plain, hashed) \<Rightarrow>
                         (case persistAdminMFAStateLocked e uid
                                 \<lparr>ms_Secret = ms_PendingSecret st, ms_PendingSecret = '''', ms_Enabled = True,
                                  ms_RecoveryCodes = hashed, ms_UpdatedAt = env_now e\<rparr> s2 of
                            (False, s3) \<Rightarrow> (Inl AuthInternal, s3)
                          | (True, s3) \<Rightarrow>
                              (Inr (\<lparr>mx_UserID = uid, mx_Enabled = True, mx_Pending = False, mx_UpdatedAt = Some (env_now e)\<rparr>, plain), s3))))))"

definition EnableAdminMFA ::
  "authCrypto \<Rightarrow> env \<Rightarrow> reads \<Rightarrow> string \<Rightarrow> string \<Rightarrow> authService \<Rightarrow>
   (auth_error, adminMFAStatus \<times> string list) result \<times> authService" where
  "EnableAdminMFA ac e rd userID code s = enable_mfa True ac e rd userID code s"

definition EnableUserMFA ::
  "authCrypto \<Rightarrow> env \<Rightarrow> reads \<Rightarrow> string \<Rightarrow> string \<Rightarrow> authService \<Rightarrow>
   (auth_error, adminMFAStatus \<times> string list) result \<times> authService" where
  "EnableUserMFA ac e rd userID code s = enable_mfa False ac e rd userID code s"

definition RegenerateAdminMFARecoveryCodes ::
  "authCrypto \<Rightarrow> env \<Rightarrow> reads \<Rightarrow> string \<Rightarrow> authService \<Rightarrow> (auth_error, string list) result \<times> authService" where
  "RegenerateAdminMFARecoveryCodes ac e rd userID s =
     (if trim_space userID = '''' then (Inl AuthUserNotFound, s)
      else
        (case findAdminMFAStateLocked e (trim_space userID) s of
           (Inl _, s1) \<Rightarrow> (Inl AuthInternal, s1)
         | (Inr None, s1) \<Rightarrow> (Inl AdminMFANotConfigured, s1)
         | (Inr (Some st), s1) \<Rightarrow>
             if \<not> ms_Enabled st then (Inl AdminMFANotConfigured, s1)
             else
               (case generateRecoveryCodes ac rd 8 of
                  None \<Rightarrow> (Inl AuthInternal, s1)
                | Some (plain, hashed) \<Rightarrow>
                    (case persistAdminMFAStateLocked e (trim_space userID)
                            (st\<lparr>ms_RecoveryCodes := hashed, ms_UpdatedAt := env_now e\<rparr>) s1 of
                       (False, s2) \<Rightarrow> (Inl AuthInternal, s2) | (True, s2) \<Rightarrow> (Inr plain, s2)))))"

definition disable_mfa ::
  "bool \<Rightarrow> env \<Rightarrow> string \<Rightarrow> authService \<Rightarrow> (auth_error, adminMFAStatus) result \<times> authService" where
  "disable_mfa adminOnly e userID s =
     (let uid = trim_space userID in
      case mfa_user adminOnly e userID s of
        (Inl err, s1) \<Rightarrow> (Inl err, s1)
      | (Inr _, s1) \<Rightarrow>
          (case findAdminMFAStateLocked e uid s1 of
             (Inl _, s2) \<Rightarrow> (Inl AuthInternal, s2)
           | (Inr st, s2) \<Rightarrow>
               (case persistAdminMFAStateLocked e uid
                       ((get_or no_mfa st)\<lparr>ms_Enabled := False, ms_Secret := '''', ms_PendingSecret := '''', ms_UpdatedAt := env_now e\<rparr>) s2 of
                  (False, s3) \<Rightarrow> (Inl AuthInternal, s3)
                | (True, s3) \<Rightarrow>
                    (Inr \<lparr>mx_UserID = uid, mx_Enabled = False, mx_Pending = False, mx_UpdatedAt = Some (env_now e)\<rparr>, s3))))"

definition DisableAdminMFA :: "env \<Rightarrow> string \<Rightarrow> authService \<Rightarrow> (auth_error, adminMFAStatus) result \<times> authService" where
  "DisableAdminMFA e userID s = disable_mfa True e userID s"

definition DisableUserMFA :: "env \<Rightarrow> string \<Rightarrow> authService \<Rightarrow> (auth_error, adminMFAStatus) result \<times> authService" where
  "DisableUserMFA e userID s = disable_mfa False e userID s"

definition VerifyUserMFACode ::
  "authCrypto \<Rightarrow> env \<Rightarrow> string \<Rightarrow> string \<Rightarrow> authService \<Rightarrow> auth_error option \<times> authService" where
  "VerifyUserMFACode ac e userID code s =
     (case findUserByID e userID s of
        (Inr (Some user), s1) \<Rightarrow>
          (case findAdminMFAState e (trim_space userID) s1 of
             (Inl _, s2) \<Rightarrow> (Some AuthInternal, s2)
           | (Inr st, s2) \<Rightarrow>
               if \<not> mfa_active st then (Some InvalidMFACode, s2)
               else if trim_space code = '''' then (Some InvalidMFACode, s2)
               else enforceAdminMFA ac e user code s2)
      | (_, s1) \<Rightarrow> (Some AuthUserNotFound, s1))"

fun reencrypt_from :: "env \<Rightarrow> secretVault \<Rightarrow> (string \<times> adminMFAState) list \<Rightarrow> nat \<Rightarrow> authService \<Rightarrow> (nat \<times> bool) \<times> authService" where
  "reencrypt_from e v [] n s = ((n, True), s)"
| "reencrypt_from e v ((uid, st) # rest) n s =
     (let p = adminMFAStateForPersistence st in
      if ms_Secret st \<noteq> '''' \<and> (sv_NeedsReEncrypt v (ms_Secret p) \<or> sv_NeedsReEncrypt v (ms_PendingSecret p)) then
        (case persistAdminMFAStateLocked e uid st s of
           (False, s1) \<Rightarrow> ((n, False), s1) | (True, s1) \<Rightarrow> reencrypt_from e v rest (Suc n) s1)
      else reencrypt_from e v rest n s)"

text \<open>The count, and whether every save succeeded.\<close>

definition ReEncryptMFASecrets :: "env \<Rightarrow> authService \<Rightarrow> (nat \<times> bool) \<times> authService" where
  "ReEncryptMFASecrets e s =
     (case (au_secretVault s, au_persistence s) of
        (Some v, Some _) \<Rightarrow> if sv_IsConfigured v then reencrypt_from e v (au_adminMFA s) 0 s else ((0, True), s)
      | _ \<Rightarrow> ((0, True), s))"

end
