(* ===== verification/Auth_Session.thy ===== *)
theory Auth_Session
  imports Auth_Mfa
begin

text \<open>
  \<open>internal/modules/auth/service.go\<close>: tokens and sessions.  An access token is a signed set of claims;
  a refresh token names a session that is kept in memory and in the volatile store, or without one in
  the tables, and is used up by a refresh.  The lemmas show which parts of the state each operation can change;
  the properties that rest on them are in \<open>Auth_Login\<close>.
\<close>

section \<open>Session and revocation storage\<close>

definition session_upsert :: "env \<Rightarrow> string \<Rightarrow> string \<Rightarrow> time \<Rightarrow> authService \<Rightarrow> bool \<times> authService" where
  "session_upsert e sid uid expiresAt s =
     (case au_volatileStore s of
        Some v \<Rightarrow>
          if env_save_ok e \<and> expiresAt > env_now e
          then (True, s\<lparr>au_volatileStore := Some (v\<lparr>vo_sessions := AList.update sid (uid, expiresAt) (vo_sessions v)\<rparr>)\<rparr>)
          else (False, s)
      | None \<Rightarrow>
          (case au_persistence s of
             None \<Rightarrow> (True, s)
           | Some db \<Rightarrow>
               (case UpsertAuthRefreshSession e sid uid expiresAt db of
                  (ok, db') \<Rightarrow> (ok, s\<lparr>au_persistence := Some db'\<rparr>))))"

definition upsertRefreshSessionLocked :: "env \<Rightarrow> string \<Rightarrow> refreshSession \<Rightarrow> authService \<Rightarrow> bool \<times> authService" where
  "upsertRefreshSessionLocked e sessionID session s =
     (let sid = trim_space sessionID; uid = trim_space (se_UserID session) in
      if sid = '''' \<or> uid = '''' \<or> is_zero (se_ExpiresAt session) then (False, s)
      else
        (case session_upsert e sid uid (se_ExpiresAt session) s of
           (False, s1) \<Rightarrow> (False, s1)
         | (True, s1) \<Rightarrow>
             (True, s1\<lparr>au_refreshSessions := AList.update sid (session\<lparr>se_UserID := uid\<rparr>) (au_refreshSessions s1)\<rparr>)))"

text \<open>The answer of the store in use; \<open>Inr None\<close> also when there is none.\<close>

definition stored_session :: "env \<Rightarrow> string \<Rightarrow> authService \<Rightarrow> (unit, (string \<times> time) option) result" where
  "stored_session e sid s =
     (case au_volatileStore s of
        Some v \<Rightarrow> volatile_session e sid v
      | None \<Rightarrow> (case au_persistence s of None \<Rightarrow> Inr None | Some db \<Rightarrow> FindAuthRefreshSession e sid db))"

text \<open>What the service makes of that answer: a usable row is put into memory, a missing one is replaced by
  what memory holds.\<close>

definition settle_session ::
  "string \<Rightarrow> (unit, (string \<times> time) option) result \<Rightarrow> authService \<Rightarrow>
   (unit, refreshSession option) result \<times> authService" where
  "settle_session sid answer s =
     (let cached = (Inr (map_option (\<lambda>r. r\<lparr>se_UserID := trim_space (se_UserID r)\<rparr>) (map_of (au_refreshSessions s) sid)), s) in
      (case answer of
         Inl _ \<Rightarrow> (Inl (), s)
       | Inr None \<Rightarrow> cached
       | Inr (Some (uid, expiresAt)) \<Rightarrow>
           let session = no_session\<lparr>se_UserID := trim_space uid, se_ExpiresAt := expiresAt\<rparr> in
           if se_UserID session \<noteq> '''' \<and> \<not> is_zero expiresAt
           then (Inr (Some session), s\<lparr>au_refreshSessions := AList.update sid session (au_refreshSessions s)\<rparr>)
           else cached))"

text \<open>Under the lock the two are one step.  \<open>findRefreshSession\<close> reads the store without the lock and takes
  it for the second part only: here the two run one after the other; \<open>auth_flight\<close> below takes them apart.\<close>

definition findRefreshSessionLocked ::
  "env \<Rightarrow> string \<Rightarrow> authService \<Rightarrow> (unit, refreshSession option) result \<times> authService" where
  "findRefreshSessionLocked e sessionID s =
     (let sid = trim_space sessionID in
      if sid = '''' then (Inr None, s) else settle_session sid (stored_session e sid s) s)"

definition findRefreshSession ::
  "env \<Rightarrow> string \<Rightarrow> authService \<Rightarrow> (unit, refreshSession option) result \<times> authService" where
  "findRefreshSession e sessionID s =
     (let sid = trim_space sessionID in
      if sid = '''' then (Inr None, s)
      else (let answer = stored_session e sid s in settle_session sid answer s))"

lemma find_session_same: "findRefreshSession e i s = findRefreshSessionLocked e i s"
  by (simp add: findRefreshSession_def findRefreshSessionLocked_def Let_def)

lemma find_session_flat:
  "findRefreshSessionLocked e i s =
     (if trim_space i = '''' then (Inr None, s) else settle_session (trim_space i) (stored_session e (trim_space i) s) s)"
  by (simp add: findRefreshSessionLocked_def Let_def)

definition deleteRefreshSessionLocked :: "env \<Rightarrow> string \<Rightarrow> authService \<Rightarrow> bool \<times> authService" where
  "deleteRefreshSessionLocked e sessionID s =
     (let sid = trim_space sessionID;
          forget = (\<lambda>s'. s'\<lparr>au_refreshSessions := AList.delete sid (au_refreshSessions s')\<rparr>) in
      if sid = '''' then (True, s)
      else
        (case au_volatileStore s of
           Some v \<Rightarrow>
             if env_save_ok e
             then (True, forget (s\<lparr>au_volatileStore := Some (v\<lparr>vo_sessions := AList.delete sid (vo_sessions v)\<rparr>)\<rparr>))
             else (False, s)
         | None \<Rightarrow>
             (case au_persistence s of
                None \<Rightarrow> (True, forget s)
              | Some db \<Rightarrow>
                  (case DeleteAuthRefreshSession e sid db of
                     (False, _) \<Rightarrow> (False, s) | (True, db') \<Rightarrow> (True, forget (s\<lparr>au_persistence := Some db'\<rparr>))))))"

definition revokeAccessTokenLocked :: "env \<Rightarrow> string \<Rightarrow> time \<Rightarrow> authService \<Rightarrow> bool \<times> authService" where
  "revokeAccessTokenLocked e tokenID expiresAt s =
     (let tid = trim_space tokenID;
          note = (\<lambda>s'. s'\<lparr>au_revokedAccess := AList.update tid expiresAt (au_revokedAccess s')\<rparr>) in
      if tid = '''' \<or> is_zero expiresAt then (False, s)
      else
        (case au_volatileStore s of
           Some v \<Rightarrow>
             if env_save_ok e \<and> expiresAt > env_now e
             then (True, note (s\<lparr>au_volatileStore := Some (v\<lparr>vo_revoked := AList.update tid expiresAt (vo_revoked v)\<rparr>)\<rparr>))
             else (False, s)
         | None \<Rightarrow>
             (case au_persistence s of
                None \<Rightarrow> (True, note s)
              | Some db \<Rightarrow>
                  (case UpsertAuthRevokedAccessToken e tid expiresAt db of
                     (False, _) \<Rightarrow> (False, s) | (True, db') \<Rightarrow> (True, note (s\<lparr>au_persistence := Some db'\<rparr>))))))"

definition isAccessTokenRevoked :: "env \<Rightarrow> string \<Rightarrow> authService \<Rightarrow> (unit, bool) result \<times> authService" where
  "isAccessTokenRevoked e tokenID s =
     (let tid = trim_space tokenID;
          here = (case map_of (au_revokedAccess s) tid of None \<Rightarrow> False | Some t \<Rightarrow> t > env_now e) in
      if tid = '''' then (Inr False, s)
      else
        (case au_volatileStore s of
           Some v \<Rightarrow>
             (case volatile_revoked e tid v of Inl _ \<Rightarrow> (Inl (), s) | Inr b \<Rightarrow> (Inr (b \<or> here), s))
         | None \<Rightarrow>
             (case au_persistence s of
                None \<Rightarrow> (Inr here, s)
              | Some db \<Rightarrow>
                  (case IsAuthAccessTokenRevoked e tid db of
                     (Inl _, _) \<Rightarrow> (Inl (), s)
                   | (Inr b, db') \<Rightarrow> (Inr (b \<or> here), s\<lparr>au_persistence := Some db'\<rparr>)))))"

section \<open>Tokens\<close>

record loginResponse =
  lr_AccessToken :: string
  lr_RefreshToken :: string
  lr_ExpiresIn :: int
  lr_User :: authUser

text \<open>\<open>jwt.NewNumericDate\<close> drops the fraction of a second.\<close>

definition numeric_date :: "time \<Rightarrow> time" where
  "numeric_date t = t div ns_second * ns_second"

definition token_claims :: "time \<Rightarrow> string \<Rightarrow> string \<Rightarrow> authUser \<Rightarrow> string \<Rightarrow> int \<Rightarrow> tokenClaims" where
  "token_claims now issuer jti user tokenType ttl =
     \<lparr>tc_UserID = lu_ID user, tc_Name = trim_space (lu_Name user), tc_Email = lu_Email user, tc_Role = lu_Role user,
      tc_TenantID = lu_TenantID user, tc_BuildingIDs = lu_BuildingIDs user, tc_Language = normalizeLanguage (lu_Language user),
      tc_TokenType = tokenType, tc_ID = jti, tc_Subject = lu_ID user, tc_Issuer = issuer, tc_Audience = [issuer],
      tc_IssuedAt = Some (numeric_date now), tc_NotBefore = Some (numeric_date now),
      tc_ExpiresAt = Some (numeric_date (now + ttl))\<rparr>"

definition signToken ::
  "authCrypto \<Rightarrow> time \<Rightarrow> string option \<Rightarrow> authUser \<Rightarrow> string \<Rightarrow> int \<Rightarrow> authService \<Rightarrow> (string \<times> tokenClaims) option" where
  "signToken ac now jti user tokenType ttl s =
     (case jti of
        None \<Rightarrow> None
      | Some j \<Rightarrow>
          let claims = token_claims now (au_issuer s) j user tokenType ttl in
          map_option (\<lambda>t. (t, claims)) (jwt_Sign ac (au_signingKey s) claims))"

definition parseTokenClaims :: "authCrypto \<Rightarrow> time \<Rightarrow> string \<Rightarrow> string \<Rightarrow> authService \<Rightarrow> tokenClaims option" where
  "parseTokenClaims ac now rawToken expectedType s =
     (if rawToken = '''' then None
      else
        (case jwt_Parse ac (au_signingKey s) now rawToken of
           None \<Rightarrow> None
         | Some c \<Rightarrow>
             if tc_TokenType c \<noteq> expectedType \<or> tc_Issuer c \<noteq> au_issuer s then None
             else if tc_Audience c \<noteq> [] \<and> au_issuer s \<notin> set (tc_Audience c) then None
             else if tc_UserID c = '''' \<or> tc_ID c = '''' then None
             else Some c))"

definition issueTokenPairWithMetadataLocked ::
  "authCrypto \<Rightarrow> env \<Rightarrow> reads \<Rightarrow> authUser \<Rightarrow> sessionMetadata \<Rightarrow> authService \<Rightarrow> (auth_error, loginResponse) result \<times> authService" where
  "issueTokenPairWithMetadataLocked ac e rd user meta s =
     (case (signToken ac (env_now e) (rd 0) user ''access'' (au_accessTTL s) s,
            signToken ac (env_now e) (rd 1) user ''refresh'' (au_refreshTTL s) s) of
        (Some (accessToken, _), Some (refreshToken, claims)) \<Rightarrow>
          (case upsertRefreshSessionLocked e (tc_ID claims)
                  \<lparr>se_UserID = lu_ID user, se_ExpiresAt = get_or zero_time (tc_ExpiresAt claims), se_IPAddress = sm_IPAddress meta,
                   se_UserAgent = sm_UserAgent meta, se_LoginMethod = sm_LoginMethod meta, se_CreatedAt = env_now e\<rparr> s of
             (False, s1) \<Rightarrow> (Inl AuthInternal, s1)
           | (True, s1) \<Rightarrow>
               (Inr \<lparr>lr_AccessToken = accessToken, lr_RefreshToken = refreshToken, lr_ExpiresIn = au_accessTTL s div ns_second,
                     lr_User = user\<rparr>, s1))
      | _ \<Rightarrow> (Inl AuthInternal, s))"

definition issueTokenPairLocked ::
  "authCrypto \<Rightarrow> env \<Rightarrow> reads \<Rightarrow> authUser \<Rightarrow> authService \<Rightarrow> (auth_error, loginResponse) result \<times> authService" where
  "issueTokenPairLocked ac e rd user s =
     issueTokenPairWithMetadataLocked ac e rd user \<lparr>sm_IPAddress = '''', sm_UserAgent = '''', sm_LoginMethod = ''''\<rparr> s"

section \<open>Logging in\<close>

definition metadata :: "string \<Rightarrow> sessionMetadata option \<Rightarrow> sessionMetadata" where
  "metadata method m =
     (case m of
        None \<Rightarrow> \<lparr>sm_IPAddress = '''', sm_UserAgent = '''', sm_LoginMethod = method\<rparr>
      | Some x \<Rightarrow> if sm_LoginMethod x = '''' then x\<lparr>sm_LoginMethod := method\<rparr> else x)"

definition Login ::
  "authCrypto \<Rightarrow> env \<Rightarrow> reads \<Rightarrow> string \<Rightarrow> string \<Rightarrow> string \<Rightarrow> sessionMetadata option \<Rightarrow> authService \<Rightarrow>
   (auth_error, loginResponse) result \<times> authService" where
  "Login ac e rd reqEmail reqPassword mfaCode meta s =
     (let email = normalizeEmail_auth reqEmail; password = trim_space reqPassword in
      if email = '''' \<or> password = '''' then (Inl InvalidCredentials, s)
      else
        (case findUserByEmail e email s of
           (Inr (Some r), s1) \<Rightarrow>
             if \<not> verifyPassword ac (ur_PasswordHash r) password then (Inl InvalidCredentials, s1)
             else if \<not> lu_PasswordAuthEnabled (ur_User r) then (Inl PasswordAuthDisabled, s1)
             else
               (case enforceAdminMFA ac e (ur_User r) mfaCode s1 of
                  (Some err, s2) \<Rightarrow> (Inl err, s2)
                | (None, s2) \<Rightarrow>
                    issueTokenPairWithMetadataLocked ac e rd (ur_User r) (metadata ''password'' meta)
                      (cleanupExpiredLocked (env_now e) s2))
         | (_, s1) \<Rightarrow> (Inl InvalidCredentials, s1)))"

definition LoginByTrustedIdentity ::
  "authCrypto \<Rightarrow> env \<Rightarrow> reads \<Rightarrow> string \<Rightarrow> sessionMetadata option \<Rightarrow> authService \<Rightarrow>
   (auth_error, loginResponse) result \<times> authService" where
  "LoginByTrustedIdentity ac e rd email meta s =
     (case findUserByEmail e (normalizeEmail_auth email) s of
        (Inr (Some r), s1) \<Rightarrow>
          issueTokenPairWithMetadataLocked ac e rd (ur_User r) (metadata ''sso'' meta) (cleanupExpiredLocked (env_now e) s1)
      | (_, s1) \<Rightarrow> (Inl InvalidCredentials, s1))"

definition LoginByWebAuthn ::
  "authCrypto \<Rightarrow> env \<Rightarrow> reads \<Rightarrow> string \<Rightarrow> string \<Rightarrow> sessionMetadata option \<Rightarrow> authService \<Rightarrow>
   (auth_error, loginResponse) result \<times> authService" where
  "LoginByWebAuthn ac e rd email mfaCode meta s =
     (case findUserByEmail e (normalizeEmail_auth email) s of
        (Inr (Some r), s1) \<Rightarrow>
          (case enforceAdminMFA ac e (ur_User r) mfaCode s1 of
             (Some err, s2) \<Rightarrow> (Inl err, s2)
           | (None, s2) \<Rightarrow>
               issueTokenPairWithMetadataLocked ac e rd (ur_User r) (metadata ''webauthn'' meta) (cleanupExpiredLocked (env_now e) s2))
      | (_, s1) \<Rightarrow> (Inl InvalidCredentials, s1))"

definition trusted_user :: "authUser \<Rightarrow> authUser" where
  "trusted_user u =
     \<lparr>lu_ID = trim_space (lu_ID u), lu_Name = trim_space (lu_Name u), lu_Email = normalizeEmail_auth (lu_Email u),
      lu_Role = to_lower (trim_space (lu_Role u)), lu_TenantID = trim_space (lu_TenantID u),
      lu_BuildingIDs = uniqueNormalizedIDs (lu_BuildingIDs u), lu_Language = normalizeLanguage (lu_Language u),
      lu_PasswordAuthEnabled = False\<rparr>"

definition LoginByTrustedUser ::
  "authCrypto \<Rightarrow> env \<Rightarrow> reads \<Rightarrow> authUser \<Rightarrow> authService \<Rightarrow> (auth_error, loginResponse) result \<times> authService" where
  "LoginByTrustedUser ac e rd user s =
     (let u = trusted_user user in
      if lu_ID u = '''' \<or> lu_Email u = '''' \<or> lu_Role u = '''' then (Inl InvalidCredentials, s)
      else
        (case findUserByEmail e (lu_Email u) s of
           (Inl _, s1) \<Rightarrow> (Inl InvalidCredentials, s1)
         | (Inr r, s1) \<Rightarrow>
             (case persistUserLocked e u (kept_hash r) (cleanupExpiredLocked (env_now e) s1) of
                (False, s2) \<Rightarrow> (Inl InvalidCredentials, s2)
              | (True, s2) \<Rightarrow> issueTokenPairLocked ac e rd u s2)))"

section \<open>Refreshing and revoking\<close>

text \<open>Both routes look the session up twice, before and under the lock; \<open>strict\<close> excludes the instant of expiry.\<close>

definition usable_session :: "bool \<Rightarrow> time \<Rightarrow> tokenClaims \<Rightarrow> (unit, refreshSession option) result \<Rightarrow> bool" where
  "usable_session strict now claims found =
     (case found of
        Inr (Some r) \<Rightarrow> se_UserID r = tc_UserID claims \<and> \<not> se_ExpiresAt r < now \<and> (\<not> strict \<or> se_ExpiresAt r > now)
      | _ \<Rightarrow> False)"

text \<open>The part of a refresh that holds the lock throughout: a second look, the deletion, the new pair.\<close>

definition refresh_commit ::
  "authCrypto \<Rightarrow> env \<Rightarrow> reads \<Rightarrow> tokenClaims \<Rightarrow> authUser \<Rightarrow> authService \<Rightarrow>
   (auth_error, loginResponse) result \<times> authService" where
  "refresh_commit ac e rd claims user s =
     (case findRefreshSessionLocked e (tc_ID claims) (cleanupExpiredLocked (env_now e) s) of
        (again, s3) \<Rightarrow>
          if \<not> usable_session False (env_now e) claims again then (Inl InvalidRefreshToken, s3)
          else
            (case deleteRefreshSessionLocked e (tc_ID claims) s3 of
               (False, s4) \<Rightarrow> (Inl InvalidRefreshToken, s4)
             | (True, s4) \<Rightarrow> issueTokenPairLocked ac e rd user s4))"

definition Refresh ::
  "authCrypto \<Rightarrow> env \<Rightarrow> reads \<Rightarrow> string \<Rightarrow> authService \<Rightarrow> (auth_error, loginResponse) result \<times> authService" where
  "Refresh ac e rd refreshToken s =
     (case parseTokenClaims ac (env_now e) (trim_space refreshToken) ''refresh'' s of
        None \<Rightarrow> (Inl InvalidRefreshToken, s)
      | Some claims \<Rightarrow>
          (case findRefreshSession e (tc_ID claims) s of
             (found, s1) \<Rightarrow>
               if \<not> usable_session False (env_now e) claims found then (Inl InvalidRefreshToken, s1)
               else
                 (case findUserByID e (tc_UserID claims) s1 of
                    (Inr (Some user), s2) \<Rightarrow> refresh_commit ac e rd claims user s2
                  | (_, s2) \<Rightarrow> (Inl InvalidRefreshToken, s2))))"

definition revoke_commit :: "env \<Rightarrow> tokenClaims \<Rightarrow> authService \<Rightarrow> auth_error option \<times> authService" where
  "revoke_commit e claims s =
     (case findRefreshSessionLocked e (tc_ID claims) (cleanupExpiredLocked (env_now e) s) of
        (again, s2) \<Rightarrow>
          if \<not> usable_session True (env_now e) claims again then (Some InvalidRefreshToken, s2)
          else
            (case deleteRefreshSessionLocked e (tc_ID claims) s2 of
               (False, s3) \<Rightarrow> (Some InvalidRefreshToken, s3) | (True, s3) \<Rightarrow> (None, s3)))"

definition RevokeRefreshToken :: "authCrypto \<Rightarrow> env \<Rightarrow> string \<Rightarrow> authService \<Rightarrow> auth_error option \<times> authService" where
  "RevokeRefreshToken ac e refreshToken s =
     (case parseTokenClaims ac (env_now e) (trim_space refreshToken) ''refresh'' s of
        None \<Rightarrow> (Some InvalidRefreshToken, s)
      | Some claims \<Rightarrow>
          (case findRefreshSession e (tc_ID claims) s of
             (found, s1) \<Rightarrow>
               if \<not> usable_session True (env_now e) claims found then (Some InvalidRefreshToken, s1)
               else revoke_commit e claims s1))"

definition delete_user_sessions :: "env \<Rightarrow> string \<Rightarrow> authService \<Rightarrow> nat \<times> authService" where
  "delete_user_sessions e uid s =
     (case au_volatileStore s of
        Some v \<Rightarrow>
          if env_save_ok e
          then (length (filter (\<lambda>(_, u, t). u = uid \<and> t > env_now e) (vo_sessions v)),
                s\<lparr>au_volatileStore := Some (v\<lparr>vo_sessions := filter (\<lambda>(_, u, _). u \<noteq> uid) (vo_sessions v)\<rparr>)\<rparr>)
          else (0, s)
      | None \<Rightarrow>
          (case au_persistence s of
             None \<Rightarrow> (0, s)
           | Some db \<Rightarrow>
               (case DeleteAuthRefreshSessionsByUserID e uid db of
                  (None, _) \<Rightarrow> (0, s) | (Some n, db') \<Rightarrow> (n, s\<lparr>au_persistence := Some db'\<rparr>))))"

definition RevokeRefreshTokensByUserEmail :: "env \<Rightarrow> string \<Rightarrow> authService \<Rightarrow> nat \<times> authService" where
  "RevokeRefreshTokensByUserEmail e email s =
     (case findUserByEmail e (normalizeEmail_auth email) s of
        (Inr (Some r), s1) \<Rightarrow>
          let uid = lu_ID (ur_User r) in
          (case delete_user_sessions e uid (cleanupExpiredLocked (env_now e) s1) of
             (stored, s2) \<Rightarrow>
               (max stored (length (filter (\<lambda>(_, x). se_UserID x = uid) (au_refreshSessions s2))),
                s2\<lparr>au_refreshSessions := filter (\<lambda>(_, x). se_UserID x \<noteq> uid) (au_refreshSessions s2)\<rparr>))
      | (_, s1) \<Rightarrow> (0, s1))"

definition Logout :: "authCrypto \<Rightarrow> env \<Rightarrow> string \<Rightarrow> authService \<Rightarrow> auth_error option \<times> authService" where
  "Logout ac e accessToken s =
     (case parseTokenClaims ac (env_now e) (trim_space accessToken) ''access'' s of
        None \<Rightarrow> (Some InvalidAccessToken, s)
      | Some claims \<Rightarrow>
          (case tc_ExpiresAt claims of
             None \<Rightarrow> (Some InvalidAccessToken, s)
           | Some expiresAt \<Rightarrow>
               if tc_ID claims = '''' then (Some InvalidAccessToken, s)
               else
                 (case revokeAccessTokenLocked e (tc_ID claims) expiresAt (cleanupExpiredLocked (env_now e) s) of
                    (False, s1) \<Rightarrow> (Some InvalidAccessToken, s1) | (True, s1) \<Rightarrow> (None, s1))))"

definition VerifyAccessToken ::
  "authCrypto \<Rightarrow> env \<Rightarrow> string \<Rightarrow> authService \<Rightarrow> (auth_error, authUser) result \<times> authService" where
  "VerifyAccessToken ac e accessToken s =
     (case parseTokenClaims ac (env_now e) (trim_space accessToken) ''access'' s of
        None \<Rightarrow> (Inl InvalidAccessToken, s)
      | Some c \<Rightarrow>
          (case isAccessTokenRevoked e (tc_ID c) s of
             (Inr False, s1) \<Rightarrow>
               (case findUserByID e (tc_UserID c) s1 of
                  (Inl _, s2) \<Rightarrow> (Inl InvalidAccessToken, s2)
                | (Inr (Some user), s2) \<Rightarrow> (Inr user, s2)
                | (Inr None, s2) \<Rightarrow>
                    (Inr \<lparr>lu_ID = tc_UserID c, lu_Name = tc_Name c, lu_Email = tc_Email c, lu_Role = tc_Role c,
                          lu_TenantID = tc_TenantID c, lu_BuildingIDs = tc_BuildingIDs c, lu_Language = tc_Language c,
                          lu_PasswordAuthEnabled = False\<rparr>, s2))
           | (_, s1) \<Rightarrow> (Inl InvalidAccessToken, s1)))"

definition ListActiveSessions :: "time \<Rightarrow> string \<Rightarrow> authService \<Rightarrow> (string \<times> refreshSession) list" where
  "ListActiveSessions now userID s =
     (if trim_space userID = '''' then []
      else filter (\<lambda>(_, r). se_UserID r = trim_space userID \<and> \<not> se_ExpiresAt r < now) (au_refreshSessions s))"

definition RevokeSession :: "env \<Rightarrow> string \<Rightarrow> string \<Rightarrow> authService \<Rightarrow> auth_error option \<times> authService" where
  "RevokeSession e userID sessionID s =
     (let uid = trim_space userID; sid = trim_space sessionID in
      if uid = '''' \<or> sid = '''' then (Some InvalidRefreshToken, s)
      else
        (case map_of (au_refreshSessions s) sid of
           None \<Rightarrow> (Some InvalidRefreshToken, s)
         | Some r \<Rightarrow>
             if se_UserID r \<noteq> uid then (Some InvalidRefreshToken, s)
             else
               (case deleteRefreshSessionLocked e sid s of
                  (False, s1) \<Rightarrow> (Some AuthInternal, s1) | (True, s1) \<Rightarrow> (None, s1))))"

section \<open>Attaching stores\<close>

text \<open>What the service holds is written to the new store first; a failing write leaves it detached.\<close>

fun write_all :: "('x \<Rightarrow> 'd \<Rightarrow> bool \<times> 'd) \<Rightarrow> 'x list \<Rightarrow> 'd \<Rightarrow> bool \<times> 'd" where
  "write_all w [] d = (True, d)"
| "write_all w (x # xs) d = (case w x d of (False, d') \<Rightarrow> (False, d') | (True, d') \<Rightarrow> write_all w xs d')"

definition then_write :: "bool \<times> 'd \<Rightarrow> ('d \<Rightarrow> bool \<times> 'd) \<Rightarrow> bool \<times> 'd" where
  "then_write r f = (case r of (False, d) \<Rightarrow> (False, d) | (True, d) \<Rightarrow> f d)"

definition SetPersistence :: "env \<Rightarrow> authDB option \<Rightarrow> authService \<Rightarrow> bool \<times> authService" where
  "SetPersistence e store s =
     (case store of
        None \<Rightarrow> (True, s\<lparr>au_persistence := None\<rparr>)
      | Some db \<Rightarrow>
          (case then_write (write_all (\<lambda>(_, r). UpsertAuthUser e (ur_User r) (ur_PasswordHash r)) (au_usersByEmail s) db)
                 (\<lambda>d. then_write
                    (if au_volatileStore s = None
                     then then_write (write_all (\<lambda>(i, r). UpsertAuthRefreshSession e i (se_UserID r) (se_ExpiresAt r)) (au_refreshSessions s) d)
                            (write_all (\<lambda>(i, t). UpsertAuthRevokedAccessToken e i t) (au_revokedAccess s))
                     else (True, d))
                    (write_all (\<lambda>(i, st). UpsertAuthAdminMFAState e i (adminMFAStateForPersistence st)) (au_adminMFA s))) of
             (False, _) \<Rightarrow> (False, s)
           | (True, db') \<Rightarrow> (True, s\<lparr>au_persistence := Some db'\<rparr>)))"

definition SetVolatileStore :: "env \<Rightarrow> volatileStore option \<Rightarrow> authService \<Rightarrow> bool \<times> authService" where
  "SetVolatileStore e store s =
     (case store of
        None \<Rightarrow> (True, s\<lparr>au_volatileStore := None\<rparr>)
      | Some v \<Rightarrow>
          if env_save_ok e \<and> list_all (\<lambda>(_, r). se_ExpiresAt r > env_now e) (au_refreshSessions s) \<and>
             list_all (\<lambda>(_, t). t > env_now e) (au_revokedAccess s)
          then (True, s\<lparr>au_volatileStore :=
                  Some \<lparr>vo_sessions = fold (\<lambda>(i, r). AList.update i (se_UserID r, se_ExpiresAt r)) (au_refreshSessions s) (vo_sessions v),
                        vo_revoked = fold (\<lambda>(i, t). AList.update i t) (au_revokedAccess s) (vo_revoked v)\<rparr>\<rparr>)
          else (au_refreshSessions s = [] \<and> au_revokedAccess s = [], if au_refreshSessions s = [] \<and> au_revokedAccess s = []
                then s\<lparr>au_volatileStore := Some v\<rparr> else s))"

definition SetSecretVault :: "secretVault option \<Rightarrow> authService \<Rightarrow> authService" where
  "SetSecretVault vault s = s\<lparr>au_secretVault := vault\<rparr>"

definition SetAdminMFARequired :: "bool \<Rightarrow> authService \<Rightarrow> authService" where
  "SetAdminMFARequired required s = s\<lparr>au_adminMFARequired := required\<rparr>"

section \<open>What users and second factors leave alone\<close>

text \<open>The part of the state that tokens and sessions are about.\<close>

definition tok_view where
  "tok_view s = (au_refreshSessions s, au_revokedAccess s, au_volatileStore s, au_signingKey s, au_issuer s,
     au_passwordResetTokens s, map_option (\<lambda>db. (db_sessions db, db_revoked db)) (au_persistence s))"

lemma tok_view_update [simp]:
  "tok_view (s\<lparr>au_adminMFA := m\<rparr>) = tok_view s"
  "tok_view (cacheUserLocked u h s) = tok_view s"
  by (simp_all add: tok_view_def cacheUserLocked_def Let_def)

lemma tok_view_persist:
  "au_persistence s = Some db \<Longrightarrow> db_sessions db' = db_sessions db \<Longrightarrow> db_revoked db' = db_revoked db \<Longrightarrow>
   tok_view (s\<lparr>au_persistence := Some db'\<rparr>) = tok_view s"
  by (simp add: tok_view_def)

lemma upsert_user_frame:
  "UpsertAuthUser e u h db = (b, db') \<Longrightarrow> db_sessions db' = db_sessions db \<and> db_revoked db' = db_revoked db"
  by (auto simp: UpsertAuthUser_def Let_def split: option.splits if_splits)

lemma upsert_mfa_frame:
  "UpsertAuthAdminMFAState e u st db = (b, db') \<Longrightarrow> db_sessions db' = db_sessions db \<and> db_revoked db' = db_revoked db"
  by (auto simp: UpsertAuthAdminMFAState_def split: if_splits)

lemma user_find_view:
  "findUserByEmail e m s = (r, s') \<Longrightarrow> tok_view s' = tok_view s"
  "findUserByEmailLocked e m s = (r, s') \<Longrightarrow> tok_view s' = tok_view s"
  "findUserByID e i s = (r', s') \<Longrightarrow> tok_view s' = tok_view s"
  "findUserByIDLocked e i s = (r', s') \<Longrightarrow> tok_view s' = tok_view s"
  by (auto simp: findUserByEmail_def findUserByEmailLocked_def findUserByID_def findUserByIDLocked_def Let_def
      split: if_splits sum.splits option.splits)

lemma persist_user_view: "persistUserLocked e u h s = (b, s') \<Longrightarrow> tok_view s' = tok_view s"
  by (auto simp: persistUserLocked_def tok_view_persist dest: upsert_user_frame split: option.splits prod.splits bool.splits)

lemma find_mfa_view:
  "findAdminMFAStateLocked e i s = (r, s') \<Longrightarrow> tok_view s' = tok_view s"
  "findAdminMFAState e i s = (r, s') \<Longrightarrow> tok_view s' = tok_view s"
  by (auto simp: findAdminMFAStateLocked_def findAdminMFAState_def Let_def split: if_splits sum.splits option.splits)

lemma persist_mfa_view: "persistAdminMFAStateLocked e i st s = (b, s') \<Longrightarrow> tok_view s' = tok_view s"
  by (auto simp: persistAdminMFAStateLocked_def Let_def tok_view_persist dest: upsert_mfa_frame
      split: if_splits option.splits prod.splits bool.splits)

lemmas view_rules = user_find_view persist_user_view find_mfa_view persist_mfa_view

lemma enforce_view: "enforceAdminMFA ac e u c s = (r, s') \<Longrightarrow> tok_view s' = tok_view s"
  by (auto simp: enforceAdminMFA_def consume_recovery_def Let_def dest!: view_rules
      split: prod.splits sum.splits option.splits if_splits bool.splits)

lemma enforce_view_snd [simp]: "tok_view (snd (enforceAdminMFA ac e u c s)) = tok_view s"
  using enforce_view [of ac e u c s] by (metis prod.collapse)

lemma cleanup_view:
  "tok_view s' = tok_view s \<Longrightarrow> tok_view (cleanupExpiredLocked now s') = tok_view (cleanupExpiredLocked now s)"
  by (simp add: tok_view_def cleanupExpiredLocked_def)

lemma mfa_user_view: "mfa_user a e i s = (r, s') \<Longrightarrow> tok_view s' = tok_view s"
  by (auto simp: mfa_user_def dest!: view_rules split: prod.splits sum.splits option.splits)

section \<open>Runs\<close>

datatype user_op =
    SignUp string string string | PasswordChange string string string | ResetRequest string | ResetConfirm string string
  | ScopeUpdate string "string list" | PasswordAuth string bool | ProfileUpdate string string string
  | Downgrade string string | PasswordCheck string string

datatype mfa_op =
    MfaStatus bool string | MfaStart bool string | MfaEnable bool string string | MfaDisable bool string
  | MfaCodes string | MfaCheck string string

datatype session_op =
    PasswordLogin string string string "sessionMetadata option" | IdentityLogin string "sessionMetadata option"
  | WebAuthnLogin string string "sessionMetadata option" | TrustedLogin authUser
  | TokenRefresh string | RefreshRevoke string | RevokeByEmail string | TokenLogout string | TokenVerify string
  | SessionRevoke string string

datatype auth_op = OnUser user_op | OnMfa mfa_op | OnSession session_op

fun user_step :: "authCrypto \<Rightarrow> env \<Rightarrow> reads \<Rightarrow> user_op \<Rightarrow> authService \<Rightarrow> authService" where
  "user_step ac e rd (SignUp m n p) s = snd (CreateUser_auth ac e rd m n p s)"
| "user_step ac e rd (PasswordChange u p q) s = snd (ChangePassword ac e rd u p q s)"
| "user_step ac e rd (ResetRequest m) s = snd (RequestPasswordReset e rd m s)"
| "user_step ac e rd (ResetConfirm t p) s = snd (ConfirmPasswordReset ac e rd t p s)"
| "user_step ac e rd (ScopeUpdate u bs) s = snd (UpdateUserBuildingScope e u bs s)"
| "user_step ac e rd (PasswordAuth u b) s = snd (UpdateUserPasswordAuth e u b s)"
| "user_step ac e rd (ProfileUpdate u n l) s = snd (UpdateUserProfile e u n l s)"
| "user_step ac e rd (Downgrade m t) s = snd (DowngradeTrustedUserToLeastPrivilegeByEmail e m t s)"
| "user_step ac e rd (PasswordCheck u p) s = snd (VerifyUserPassword ac e u p s)"

fun mfa_step :: "authCrypto \<Rightarrow> env \<Rightarrow> reads \<Rightarrow> mfa_op \<Rightarrow> authService \<Rightarrow> authService" where
  "mfa_step ac e rd (MfaStatus a u) s = snd (mfa_status_of a e u s)"
| "mfa_step ac e rd (MfaStart a u) s = snd (start_enrollment a e rd u s)"
| "mfa_step ac e rd (MfaEnable a u c) s = snd (enable_mfa a ac e rd u c s)"
| "mfa_step ac e rd (MfaDisable a u) s = snd (disable_mfa a e u s)"
| "mfa_step ac e rd (MfaCodes u) s = snd (RegenerateAdminMFARecoveryCodes ac e rd u s)"
| "mfa_step ac e rd (MfaCheck u c) s = snd (VerifyUserMFACode ac e u c s)"

fun session_step :: "authCrypto \<Rightarrow> env \<Rightarrow> reads \<Rightarrow> session_op \<Rightarrow> authService \<Rightarrow> authService" where
  "session_step ac e rd (PasswordLogin m p c x) s = snd (Login ac e rd m p c x s)"
| "session_step ac e rd (IdentityLogin m x) s = snd (LoginByTrustedIdentity ac e rd m x s)"
| "session_step ac e rd (WebAuthnLogin m c x) s = snd (LoginByWebAuthn ac e rd m c x s)"
| "session_step ac e rd (TrustedLogin u) s = snd (LoginByTrustedUser ac e rd u s)"
| "session_step ac e rd (TokenRefresh t) s = snd (Refresh ac e rd t s)"
| "session_step ac e rd (RefreshRevoke t) s = snd (RevokeRefreshToken ac e t s)"
| "session_step ac e rd (RevokeByEmail m) s = snd (RevokeRefreshTokensByUserEmail e m s)"
| "session_step ac e rd (TokenLogout t) s = snd (Logout ac e t s)"
| "session_step ac e rd (TokenVerify t) s = snd (VerifyAccessToken ac e t s)"
| "session_step ac e rd (SessionRevoke u i) s = snd (RevokeSession e u i s)"

fun auth_step :: "authCrypto \<Rightarrow> env \<times> reads \<times> auth_op \<Rightarrow> authService \<Rightarrow> authService" where
  "auth_step ac (e, rd, OnUser op) s = user_step ac e rd op s"
| "auth_step ac (e, rd, OnMfa op) s = mfa_step ac e rd op s"
| "auth_step ac (e, rd, OnSession op) s = session_step ac e rd op s"

definition auth_run :: "authCrypto \<Rightarrow> (env \<times> reads \<times> auth_op) list \<Rightarrow> authService \<Rightarrow> authService" where
  "auth_run ac ops s = fold (auth_step ac) ops s"

text \<open>All session identifiers in memory and in the store in use, and the cleaned view.\<close>

definition store_ids :: "authService \<Rightarrow> string set" where
  "store_ids s =
     (case au_volatileStore s of
        Some v \<Rightarrow> fst ` set (vo_sessions v)
      | None \<Rightarrow> (case au_persistence s of None \<Rightarrow> {} | Some db \<Rightarrow> fst ` set (db_sessions db)))"

definition session_ids :: "authService \<Rightarrow> string set" where
  "session_ids s = fst ` set (au_refreshSessions s) \<union> store_ids s"

lemma tok_view_ids: "tok_view s' = tok_view s \<Longrightarrow> session_ids s' = session_ids s"
  by (auto simp: tok_view_def session_ids_def store_ids_def split: option.splits)

lemma tok_view_key: "tok_view s' = tok_view s \<Longrightarrow> au_signingKey s' = au_signingKey s \<and> au_issuer s' = au_issuer s"
  by (simp add: tok_view_def)

lemma mfa_step_view: "tok_view (mfa_step ac e rd op s) = tok_view s"
  by (cases op)
     (auto simp: mfa_status_of_def start_enrollment_def enable_mfa_def disable_mfa_def RegenerateAdminMFARecoveryCodes_def
        VerifyUserMFACode_def Let_def dest!: view_rules mfa_user_view enforce_view
        split: prod.splits sum.splits option.splits if_splits bool.splits)

lemma user_step_cases:
  assumes "\<And>m. op \<noteq> ResetRequest m" and "\<And>t p. op \<noteq> ResetConfirm t p"
  shows "tok_view (user_step ac e rd op s) = tok_view s \<or>
   tok_view (user_step ac e rd op s) = tok_view (cleanupExpiredLocked (env_now e) s)"
proof (cases op)
  case (Downgrade m t)
  then show ?thesis
    by (auto simp: DowngradeTrustedUserToLeastPrivilegeByEmail_def Let_def dest!: view_rules dest: cleanup_view
        split: prod.split sum.split option.split bool.split)
qed (use assms in \<open>auto simp: CreateUser_auth_def ChangePassword_def UpdateUserBuildingScope_def UpdateUserPasswordAuth_def
      UpdateUserProfile_def VerifyUserPassword_def store_changed_def Let_def
      dest!: view_rules split: prod.split sum.split option.split bool.split\<close>)

section \<open>Relations that every operation respects\<close>

text \<open>
  A relation between states that the small steps respect is respected by every operation but
  logging out, and by that too when it is closed under entering a revoked token.
\<close>

locale auth_relation =
  fixes e :: env and rd :: reads and R :: "authService \<Rightarrow> authService \<Rightarrow> bool"
  assumes R_trans: "R s s' \<Longrightarrow> R s' s'' \<Longrightarrow> R s s''"
    and R_view: "tok_view s' = tok_view s \<Longrightarrow> R s s'"
    and R_cleanup: "R s (cleanupExpiredLocked (env_now e) s)"
    and R_find: "findRefreshSessionLocked e i s = (r, s') \<Longrightarrow> R s s'"
    and R_delete: "deleteRefreshSessionLocked e i s = (b, s') \<Longrightarrow> R s s'"
    and R_issue: "R s (snd (issueTokenPairWithMetadataLocked ac e rd u m s))"
    and R_check: "isAccessTokenRevoked e i s = (x, s') \<Longrightarrow> R s s'"
    and R_delete_user: "delete_user_sessions e i s = (n, s') \<Longrightarrow> R s s'"
    and R_drop: "R s (s\<lparr>au_refreshSessions := filter P (au_refreshSessions s)\<rparr>)"
    and R_reset: "R s (s\<lparr>au_passwordResetTokens := AList.delete k (au_passwordResetTokens s)\<rparr>)"
    and R_request: "rd 0 = Some h \<Longrightarrow>
      R s (s\<lparr>au_passwordResetTokens := AList.update (''prt_'' @ h) prt (filter Q (au_passwordResetTokens s))\<rparr>)"
begin

lemma R_refl: "R s s"
  by (rule R_view) (rule refl)

lemmas R_rules = user_find_view [THEN R_view] persist_user_view [THEN R_view] enforce_view [THEN R_view]
  R_find R_delete R_check R_delete_user

lemma login_R:
  "R s (snd (Login ac e rd m p c x s))" "R s (snd (LoginByTrustedIdentity ac e rd m x s))"
  "R s (snd (LoginByWebAuthn ac e rd m c x s))" "R s (snd (LoginByTrustedUser ac e rd u s))"
proof -
  note chain = R_trans [OF _ R_trans [OF R_cleanup R_issue]]
  show "R s (snd (Login ac e rd m p c x s))"
    by (auto simp: Login_def Let_def R_refl dest!: R_rules intro: chain R_trans split: prod.split sum.split option.split)
  show "R s (snd (LoginByTrustedIdentity ac e rd m x s))"
    by (auto simp: LoginByTrustedIdentity_def R_refl dest!: R_rules intro: chain split: prod.split sum.split option.split)
  show "R s (snd (LoginByWebAuthn ac e rd m c x s))"
    by (auto simp: LoginByWebAuthn_def R_refl dest!: R_rules intro: chain R_trans split: prod.split sum.split option.split)
  show "R s (snd (LoginByTrustedUser ac e rd u s))"
    by (auto simp: LoginByTrustedUser_def issueTokenPairLocked_def Let_def R_refl dest!: R_rules
        split: prod.split sum.split option.split bool.split; meson R_trans R_cleanup R_issue)
qed

lemma commit_R: "R s (snd (refresh_commit ac e rd c u s))" "R s (snd (revoke_commit e c s))"
proof -
  show "R s (snd (refresh_commit ac e rd c u s))"
    by (auto simp: refresh_commit_def issueTokenPairLocked_def dest!: R_rules
        split: prod.split bool.split; meson R_trans R_cleanup R_issue)
  show "R s (snd (revoke_commit e c s))"
    by (auto simp: revoke_commit_def dest!: R_rules split: prod.split bool.split; meson R_trans R_cleanup)
qed

lemma refresh_R: "R s (snd (Refresh ac e rd t s))"
  by (auto simp: Refresh_def find_session_same R_refl dest!: R_rules intro: R_trans commit_R
      split: prod.split sum.split option.split; meson R_trans commit_R)

lemma revoke_R:
  "R s (snd (RevokeRefreshToken ac e t s))" "R s (snd (RevokeRefreshTokensByUserEmail e m s))"
  "R s (snd (RevokeSession e u i s))"
proof -
  show "R s (snd (RevokeRefreshToken ac e t s))"
    by (auto simp: RevokeRefreshToken_def find_session_same R_refl dest!: R_rules intro: R_trans commit_R
        split: prod.split option.split)
  show "R s (snd (RevokeRefreshTokensByUserEmail e m s))"
  proof -
    have "R s1 (s2\<lparr>au_refreshSessions := filter P (au_refreshSessions s2)\<rparr>)"
      if "delete_user_sessions e i (cleanupExpiredLocked (env_now e) s1) = (n, s2)" for s1 s2 i n P
      using R_cleanup R_delete_user [OF that] R_drop by (rule R_trans [OF R_trans])
    then show ?thesis
      by (auto simp: RevokeRefreshTokensByUserEmail_def Let_def R_refl dest!: user_find_view [THEN R_view] intro: R_trans
          split: prod.split sum.split option.split)
  qed
  show "R s (snd (RevokeSession e u i s))"
    by (auto simp: RevokeSession_def Let_def R_refl dest!: R_rules split: prod.split option.split bool.split)
qed

lemma reset_R: "R s (snd (RequestPasswordReset e rd m s))" "R s (snd (ConfirmPasswordReset ac e rd t p s))"
proof -
  note request = R_trans [OF _ R_request [simplified]]
  show "R s (snd (RequestPasswordReset e rd m s))"
    by (auto simp: RequestPasswordReset_def Let_def R_refl dest!: user_find_view [THEN R_view] intro: request
        split: prod.split sum.split option.split)
  note drop = R_trans [OF R_reset] R_trans [OF R_reset R_trans]
  show "R s (snd (ConfirmPasswordReset ac e rd t p s))"
    by (auto simp: ConfirmPasswordReset_def Let_def R_refl R_reset intro: drop
        dest!: user_find_view(2) [THEN R_view] persist_user_view [THEN R_view]
        split: prod.split sum.split option.split bool.split)
qed

lemma verify_R: "R s (snd (VerifyAccessToken ac e t s))"
  by (auto simp: VerifyAccessToken_def R_refl dest!: R_rules split: prod.split sum.split option.split bool.split; meson R_trans)

lemma step_R:
  assumes "\<And>t. op \<noteq> OnSession (TokenLogout t)"
  shows "R s (auth_step ac (e, rd, op) s)"
proof (cases op)
  case (OnUser u)
  show ?thesis
  proof (cases "(\<exists>m. u = ResetRequest m) \<or> (\<exists>t p. u = ResetConfirm t p)")
    case True
    with OnUser show ?thesis by (auto simp: reset_R)
  next
    case False
    then have "tok_view (user_step ac e rd u s) = tok_view s \<or>
        tok_view (user_step ac e rd u s) = tok_view (cleanupExpiredLocked (env_now e) s)"
      by (intro user_step_cases) auto
    with OnUser show ?thesis using R_view R_cleanup R_trans by (metis auth_step.simps(1))
  qed
next
  case (OnMfa m)
  then show ?thesis by (simp add: R_view mfa_step_view)
next
  case (OnSession x)
  with assms show ?thesis by (cases x) (auto simp: login_R refresh_R revoke_R verify_R)
qed

lemma logout_R:
  assumes "\<And>i t s s' b. revokeAccessTokenLocked e i t s = (b, s') \<Longrightarrow> R s s'"
  shows "R s (snd (Logout ac e tok s))"
  by (auto simp: Logout_def R_refl dest!: assms split: prod.split option.split bool.split; meson R_trans R_cleanup)

end

section \<open>Growth of the session table\<close>

text \<open>A step adds no session identifier outside a given set and keeps the key.\<close>

definition grows :: "string set \<Rightarrow> authService \<Rightarrow> authService \<Rightarrow> bool" where
  "grows F s s' \<longleftrightarrow> session_ids s' \<subseteq> session_ids s \<union> F \<and> au_signingKey s' = au_signingKey s \<and> au_issuer s' = au_issuer s"

lemma grows_refl [intro, simp]: "grows F s s"
  by (simp add: grows_def)

lemma grows_trans: "grows F s s' \<Longrightarrow> grows F s' s'' \<Longrightarrow> grows F s s''"
  by (auto simp: grows_def)

lemma grows_view:
  assumes "tok_view s' = tok_view s"
  shows "grows F s s'"
  using tok_view_ids [OF assms] tok_view_key [OF assms] by (simp add: grows_def)

lemma store_ids_simps [simp]:
  "store_ids (s\<lparr>au_refreshSessions := r\<rparr>) = store_ids s"
  "store_ids (s\<lparr>au_revokedAccess := t\<rparr>) = store_ids s"
  "store_ids (s\<lparr>au_passwordResetTokens := p\<rparr>) = store_ids s"
  "store_ids (s\<lparr>au_volatileStore := Some v\<rparr>) = fst ` set (vo_sessions v)"
  "au_volatileStore s = None \<Longrightarrow> store_ids (s\<lparr>au_persistence := Some db\<rparr>) = fst ` set (db_sessions db)"
  "au_volatileStore s = Some v \<Longrightarrow> store_ids s = fst ` set (vo_sessions v)"
  "au_volatileStore s = None \<Longrightarrow> au_persistence s = Some db \<Longrightarrow> store_ids s = fst ` set (db_sessions db)"
  by (simp_all add: store_ids_def split: option.split)

lemma update_keys_sub: "fst ` set (AList.update k v xs) = insert k (fst ` set xs)"
  by (simp add: dom_update)

lemma update_memD: "(a, b) \<in> set (AList.update k v xs) \<Longrightarrow> a = k \<or> a \<in> fst ` set xs"
  by (metis dom_update fst_conv image_eqI insert_iff update_keys_sub)

lemma delete_keys: "fst ` set (AList.delete k xs) = fst ` set xs - {k}"
  by (auto simp: AList.delete_eq)

lemma delete_memD: "(a, b) \<in> set (AList.delete k xs) \<Longrightarrow> a \<noteq> k \<and> a \<in> fst ` set xs"
  by (metis DiffD1 DiffD2 delete_keys fst_conv image_eqI insertI1)

lemma grows_cleanup [intro, simp]: "grows F s (cleanupExpiredLocked now s)"
  by (auto simp: grows_def session_ids_def cleanupExpiredLocked_def)

lemma stored_session_id: "stored_session e i s = Inr (Some x) \<Longrightarrow> trim_space i = i \<Longrightarrow> i \<in> store_ids s"
  by (auto simp: stored_session_def store_ids_def volatile_session_def FindAuthRefreshSession_def image_iff
      dest!: map_of_SomeD split: option.splits if_splits) force+

lemma grows_find: "findRefreshSessionLocked e i s = (r, s') \<Longrightarrow> grows F s s'"
proof -
  assume f: "findRefreshSessionLocked e i s = (r, s')"
  have "s' = s \<or> (\<exists>v. s' = s\<lparr>au_refreshSessions := AList.update (trim_space i) v (au_refreshSessions s)\<rparr> \<and> trim_space i \<in> store_ids s)"
    using f stored_session_id [of e "trim_space i" s]
    by (auto simp: find_session_flat settle_session_def Let_def split: if_splits sum.splits option.splits)
  then show ?thesis
    by (auto simp: grows_def session_ids_def update_keys_sub dest: update_memD)
qed

lemma grows_delete: "deleteRefreshSessionLocked e i s = (b, s') \<Longrightarrow> grows F s s'"
  by (auto simp: deleteRefreshSessionLocked_def DeleteAuthRefreshSession_def Let_def grows_def session_ids_def
      delete_keys dest!: delete_memD split: if_splits option.splits)

lemma grows_upsert:
  "upsertRefreshSessionLocked e i r s = (b, s') \<Longrightarrow> trim_space i \<in> F \<Longrightarrow> grows F s s'"
  by (auto simp: upsertRefreshSessionLocked_def session_upsert_def UpsertAuthRefreshSession_def Let_def grows_def session_ids_def
      update_keys_sub dest!: update_memD split: if_splits option.splits)

lemma grows_issue:
  assumes "issueTokenPairWithMetadataLocked ac e rd u m s = (r, s')" and "trim_space ` set_option (rd 1) \<subseteq> F"
  shows "grows F s s'"
  using assms
  by (auto simp: issueTokenPairWithMetadataLocked_def signToken_def token_claims_def Let_def dest!: grows_upsert
      split: option.splits prod.splits bool.splits)

lemma grows_issue_snd:
  "trim_space ` set_option (rd 1) \<subseteq> F \<Longrightarrow> grows F s (snd (issueTokenPairWithMetadataLocked ac e rd u m s))"
  using grows_issue by (metis prod.collapse)

lemma grows_revoke: "revokeAccessTokenLocked e i t s = (b, s') \<Longrightarrow> grows F s s'"
  by (auto simp: revokeAccessTokenLocked_def UpsertAuthRevokedAccessToken_def Let_def grows_def session_ids_def
      split: if_splits option.splits)

lemma grows_revoked: "isAccessTokenRevoked e i s = (b, s') \<Longrightarrow> grows F s s'"
  by (auto simp: isAccessTokenRevoked_def IsAuthAccessTokenRevoked_def Let_def grows_def session_ids_def
      split: if_splits option.splits sum.splits)

lemma grows_delete_user: "delete_user_sessions e u s = (n, s') \<Longrightarrow> grows F s s'"
  by (auto simp: delete_user_sessions_def DeleteAuthRefreshSessionsByUserID_def grows_def session_ids_def
      split: if_splits option.splits)

lemmas grows_rules = user_find_view [THEN grows_view] persist_user_view [THEN grows_view] enforce_view [THEN grows_view]
  grows_find grows_delete grows_revoke grows_revoked grows_delete_user

lemma grows_reset: "grows F s (s\<lparr>au_passwordResetTokens := p\<rparr>)"
  by (auto simp: grows_def session_ids_def)

lemma grows_drop: "grows F s (s\<lparr>au_refreshSessions := filter P (au_refreshSessions s)\<rparr>)"
  by (auto simp: grows_def session_ids_def)

interpretation growth: auth_relation e rd "grows (trim_space ` set_option (rd 1))" for e rd
  by unfold_locales
     (blast intro: grows_trans grows_view grows_cleanup grows_find grows_delete grows_issue_snd grows_revoked grows_delete_user
        grows_drop grows_reset)+

lemma auth_step_grows: "grows (trim_space ` set_option (rd 1)) s (auth_step ac (e, rd, op) s)"
proof (cases "\<exists>t. op = OnSession (TokenLogout t)")
  case True
  then show ?thesis using growth.logout_R [of e rd] grows_revoke by auto
next
  case False
  then show ?thesis by (intro growth.step_R) auto
qed

lemma auth_run_grows:
  "(\<And>e rd op. (e, rd, op) \<in> set ops \<Longrightarrow> trim_space ` set_option (rd 1) \<subseteq> F) \<Longrightarrow> grows F s (auth_run ac ops s)"
proof (induction ops arbitrary: s)
  case (Cons x ops)
  obtain e rd op where x: "x = (e, rd, op)" by (cases x)
  have "grows F s (auth_step ac x s)"
    using auth_step_grows [of rd s ac e op] Cons.prems [of e rd op] x by (auto simp: grows_def)
  moreover have "grows F (auth_step ac x s) (auth_run ac ops (auth_step ac x s))"
    by (rule Cons.IH) (rule Cons.prems, erule list.set_intros(2))
  ultimately show ?case by (simp add: auth_run_def grows_trans)
qed (simp add: auth_run_def)

section \<open>A refresh token works once\<close>

lemma delete_gone:
  assumes "deleteRefreshSessionLocked e i s = (True, s')" and "trim_space i \<noteq> ''''"
  shows "trim_space i \<notin> session_ids s'"
  using assms
  by (auto simp: deleteRefreshSessionLocked_def DeleteAuthRefreshSession_def Let_def session_ids_def
      dest!: delete_memD split: if_splits option.splits) (simp_all add: store_ids_def)

lemma gone_unusable:
  assumes "trim_space i \<notin> session_ids s" and "findRefreshSessionLocked e i s = (r, s')"
  shows "\<not> usable_session strict now c r"
proof -
  have "map_of (au_refreshSessions s) (trim_space i) = None"
    using assms(1) by (simp add: session_ids_def map_of_eq_None_iff)
  moreover have "stored_session e (trim_space i) s \<noteq> Inr (Some x)" for x
    using assms(1) stored_session_id [of e "trim_space i" s x] by (auto simp: session_ids_def)
  ultimately show ?thesis
    using assms(2)
    by (auto simp: find_session_flat settle_session_def usable_session_def Let_def
        split: if_splits sum.splits option.splits)
qed

lemma gone_refused:
  assumes "trim_space (tc_ID c) \<notin> session_ids s"
  shows "fst (refresh_commit ac e rd c u s) = Inl InvalidRefreshToken" "fst (revoke_commit e c s) = Some InvalidRefreshToken"
proof -
  obtain r s' where f: "findRefreshSessionLocked e (tc_ID c) (cleanupExpiredLocked (env_now e) s) = (r, s')" by fastforce
  have "session_ids (cleanupExpiredLocked (env_now e) s) \<subseteq> session_ids s"
    using grows_cleanup [of "{}" s "env_now e"] by (simp add: grows_def)
  then have "\<not> usable_session strict now c r" for strict now using assms gone_unusable [OF _ f] by blast
  then show "fst (refresh_commit ac e rd c u s) = Inl InvalidRefreshToken" "fst (revoke_commit e c s) = Some InvalidRefreshToken"
    by (simp_all add: refresh_commit_def revoke_commit_def f)
qed

text \<open>A successful refresh deletes the session, then draws a new one.\<close>

lemma commit_deletes:
  assumes "refresh_commit ac e rd c user s = (Inr resp, s')"
  obtains s4 where "grows {} s s4" "trim_space (tc_ID c) = '''' \<or> trim_space (tc_ID c) \<notin> session_ids s4"
    "issueTokenPairLocked ac e rd user s4 = (Inr resp, s')"
proof -
  from assms obtain again s3 s4 where
    st: "findRefreshSessionLocked e (tc_ID c) (cleanupExpiredLocked (env_now e) s) = (again, s3)"
      "deleteRefreshSessionLocked e (tc_ID c) s3 = (True, s4)"
    and i: "issueTokenPairLocked ac e rd user s4 = (Inr resp, s')"
    by (auto simp: refresh_commit_def split: prod.splits if_splits bool.splits)
  have "grows {} (cleanupExpiredLocked (env_now e) s) s3" "grows {} s3 s4" using st by (simp_all add: grows_rules)
  then have "grows {} s s4" by (meson grows_trans grows_cleanup)
  with i delete_gone [OF st(2)] that show thesis by blast
qed

lemma issue_only_new:
  assumes "issueTokenPairLocked ac e rd user s = (r, s')"
  shows "grows (trim_space ` set_option (rd 1)) s s'"
  using assms unfolding issueTokenPairLocked_def by (rule grows_issue) simp

lemma parse_refresh_id:
  "parseTokenClaims ac now tok ty s = Some c \<Longrightarrow> jwt_Parse ac (au_signingKey s) now tok = Some c"
  by (auto simp: parseTokenClaims_def split: if_splits option.splits)

text \<open>
  \<open>Refresh\<close> and \<open>RevokeRefreshToken\<close> look the session up before they take the lock, and put what they read into
  memory.  A flight is such a look-up that has its answer from the store and has not put it into memory yet.  In a
  run, the operations of the module are atomic, or come in their pieces: a look-up, its second half, and the part
  under the lock, each with anything in between (the parts under the lock at any time at all).  No session
  draws the identifier \<open>i\<close>.
\<close>

type_synonym flights = "(string \<times> (unit, (string \<times> time) option) result) list"

inductive auth_flight :: "authCrypto \<Rightarrow> string \<Rightarrow> flights \<times> authService \<Rightarrow> flights \<times> authService \<Rightarrow> bool"
  for ac i where
  operation: "i \<notin> trim_space ` set_option (rd 1) \<Longrightarrow> auth_flight ac i (fs, s) (fs, auth_step ac (e, rd, op) s)"
| look_up: "auth_flight ac i (fs, s) ((trim_space j, stored_session e (trim_space j) s) # fs, s)"
| settle: "auth_flight ac i (fs @ (j, a) # fs', s) (fs @ fs', snd (settle_session j a s))"
| commit: "i \<notin> trim_space ` set_option (rd 1) \<Longrightarrow> auth_flight ac i (fs, s) (fs, snd (refresh_commit ac e rd c u s))"
| revoke: "auth_flight ac i (fs, s) (fs, snd (revoke_commit e c s))"

definition out_of_reach :: "string \<Rightarrow> flights \<times> authService \<Rightarrow> bool" where
  "out_of_reach i = (\<lambda>(fs, s). i \<notin> session_ids s \<and> (\<forall>x. (i, Inr (Some x)) \<notin> set fs))"

lemma settle_ids: "session_ids (snd (settle_session j a s)) \<subseteq> session_ids s \<union> (if \<exists>x. a = Inr (Some x) then {j} else {})"
  by (auto simp: settle_session_def Let_def session_ids_def update_keys_sub dest: update_memD
      split: sum.splits option.splits prod.splits if_splits)

lemma settle_key: "au_signingKey (snd (settle_session j a s)) = au_signingKey s"
  by (auto simp: settle_session_def Let_def split: sum.split option.split)

lemma commit_grows:
  assumes "i \<notin> trim_space ` set_option (rd 1)"
  shows "grows (- {i}) s (snd (refresh_commit ac e rd c u s))"
  using growth.commit_R(1) [of rd s ac e c u] assms by (auto simp: grows_def)

lemma auth_flight_keeps:
  assumes "auth_flight ac i x y" and "out_of_reach i x"
  shows "out_of_reach i y \<and> au_signingKey (snd y) = au_signingKey (snd x)"
  using assms
proof (induction rule: auth_flight.induct)
  case (operation rd fs s e op)
  then show ?case using auth_step_grows [of rd s ac e op] by (auto simp: out_of_reach_def grows_def)
next
  case (look_up fs s j e)
  have "stored_session e (trim_space j) s = Inr (Some x) \<Longrightarrow> trim_space j \<in> session_ids s" for x
    using stored_session_id [of e "trim_space j" s x] by (simp add: session_ids_def)
  with look_up show ?case by (auto simp: out_of_reach_def dest: sym)
next
  case (settle fs j a fs' s)
  then show ?case using settle_ids [of j a s] by (auto simp: out_of_reach_def settle_key split: if_splits)
next
  case (commit rd fs s e c u)
  then show ?case using commit_grows [of i rd s ac e c u] by (auto simp: out_of_reach_def grows_def)
next
  case (revoke fs s e c)
  then show ?case using growth.commit_R(2) [of "\<lambda>_. None" s e c] by (auto simp: out_of_reach_def grows_def)
qed

lemma auth_flights_keep:
  assumes "(auth_flight ac i)\<^sup>*\<^sup>* x y" and "out_of_reach i x"
  shows "out_of_reach i y \<and> au_signingKey (snd y) = au_signingKey (snd x)"
  using assms by (induction rule: rtranclp_induct) (auto dest: auth_flight_keeps)

section \<open>Logging out is final\<close>

text \<open>A token is on the list of revoked ones until its expiry.\<close>

definition listed :: "string \<Rightarrow> time \<Rightarrow> authService \<Rightarrow> bool" where
  "listed i x s \<longleftrightarrow> distinct (map fst (au_revokedAccess s)) \<and> map_of (au_revokedAccess s) i = Some x"

lemma listed_view: "tok_view s' = tok_view s \<Longrightarrow> listed i x s' = listed i x s"
  by (simp add: tok_view_def listed_def)

lemma map_of_filter_distinct:
  "distinct (map fst xs) \<Longrightarrow> map_of xs i = Some x \<Longrightarrow> P (i, x) \<Longrightarrow> map_of (filter P xs) i = Some x"
  by (induction xs) (auto simp: map_of_eq_None_iff image_iff dest: map_of_SomeD)

lemma listed_cleanup: "listed i x s \<Longrightarrow> now < x \<Longrightarrow> listed i x (cleanupExpiredLocked now s)"
  by (auto simp: listed_def cleanupExpiredLocked_def distinct_map_filter intro!: map_of_filter_distinct)

text \<open>Everything but logging out leaves the list of revoked tokens as it is, up to cleaning.\<close>

definition keeps_revoked :: "time \<Rightarrow> authService \<Rightarrow> authService \<Rightarrow> bool" where
  "keeps_revoked now s s' \<longleftrightarrow>
     (au_revokedAccess s' = au_revokedAccess s \<or> au_revokedAccess s' = filter (\<lambda>(_, t). t > now) (au_revokedAccess s)) \<and>
     au_signingKey s' = au_signingKey s \<and> au_issuer s' = au_issuer s"

lemma keeps_refl [intro, simp]: "keeps_revoked now s s"
  by (simp add: keeps_revoked_def)

lemma keeps_trans: "keeps_revoked now s s' \<Longrightarrow> keeps_revoked now s' s'' \<Longrightarrow> keeps_revoked now s s''"
  by (auto simp: keeps_revoked_def)

lemma keeps_view: "tok_view s' = tok_view s \<Longrightarrow> keeps_revoked now s s'"
  by (simp add: tok_view_def keeps_revoked_def)

lemma keeps_cleanup [intro, simp]: "keeps_revoked now s (cleanupExpiredLocked now s)"
  by (simp add: keeps_revoked_def cleanupExpiredLocked_def)

lemma keeps_listed: "keeps_revoked now s s' \<Longrightarrow> listed i x s \<Longrightarrow> now < x \<Longrightarrow> listed i x s'"
  by (auto simp: keeps_revoked_def listed_def distinct_map_filter intro!: map_of_filter_distinct)

lemma keeps_find: "findRefreshSessionLocked e i s = (r, s') \<Longrightarrow> keeps_revoked now s s'"
  by (auto simp: find_session_flat settle_session_def keeps_revoked_def Let_def split: if_splits sum.splits option.splits)

lemma keeps_delete: "deleteRefreshSessionLocked e i s = (b, s') \<Longrightarrow> keeps_revoked now s s'"
  by (auto simp: deleteRefreshSessionLocked_def keeps_revoked_def Let_def split: if_splits option.splits prod.splits bool.splits)

lemma keeps_issue: "keeps_revoked now s (snd (issueTokenPairWithMetadataLocked ac e rd u m s))"
  by (auto simp: issueTokenPairWithMetadataLocked_def upsertRefreshSessionLocked_def session_upsert_def keeps_revoked_def Let_def
      split: if_splits option.splits prod.splits bool.splits)

lemma keeps_revoked_check: "isAccessTokenRevoked e i s = (b, s') \<Longrightarrow> keeps_revoked now s s'"
  by (auto simp: isAccessTokenRevoked_def keeps_revoked_def Let_def split: if_splits option.splits prod.splits sum.splits)

lemma keeps_delete_user: "delete_user_sessions e u s = (n, s') \<Longrightarrow> keeps_revoked now s s'"
  by (auto simp: delete_user_sessions_def keeps_revoked_def split: if_splits option.splits prod.splits)

lemma keeps_drop:
  "keeps_revoked now s (s\<lparr>au_refreshSessions := r\<rparr>)" "keeps_revoked now s (s\<lparr>au_passwordResetTokens := p\<rparr>)"
  by (simp_all add: keeps_revoked_def)

interpretation keeping: auth_relation e rd "keeps_revoked (env_now e)" for e rd
  by unfold_locales
     (blast intro: keeps_trans keeps_view keeps_cleanup keeps_find keeps_delete keeps_issue keeps_revoked_check keeps_delete_user
        keeps_drop)+

text \<open>Entering a token on the list: another identifier, or the same with the same expiry.\<close>

lemma revoke_listed:
  assumes "revokeAccessTokenLocked e j y s = (b, s')" and "listed i x s" and "trim_space j = i \<Longrightarrow> y = x"
  shows "listed i x s'"
  using assms
  by (auto simp: revokeAccessTokenLocked_def listed_def Let_def distinct_update update_conv
      split: if_splits option.splits prod.splits bool.splits)

lemma logout_keeps_listed:
  assumes "listed i x s" and "env_now e < x"
    and "\<And>c. parseTokenClaims ac (env_now e) (trim_space tok) ''access'' s = Some c \<Longrightarrow> trim_space (tc_ID c) = i \<Longrightarrow> tc_ExpiresAt c = Some x"
  shows "listed i x (snd (Logout ac e tok s))"
  using assms(1,3) listed_cleanup [OF assms(1,2)]
  by (auto simp: Logout_def dest!: revoke_listed split: option.split prod.split bool.split)

lemma logout_frame: "au_signingKey (snd (Logout ac e tok s)) = au_signingKey s" "au_issuer (snd (Logout ac e tok s)) = au_issuer s"
  by (auto simp: Logout_def revokeAccessTokenLocked_def cleanupExpiredLocked_def Let_def
      split: option.split prod.split bool.split if_splits)

lemma step_listed:
  assumes "listed i x s" and "env_now e < x"
    and "\<And>t tok c. jwt_Parse ac (au_signingKey s) t tok = Some c \<Longrightarrow> trim_space (tc_ID c) = i \<Longrightarrow> tc_ExpiresAt c = Some x"
  shows "listed i x (auth_step ac (e, rd, op) s) \<and> au_signingKey (auth_step ac (e, rd, op) s) = au_signingKey s"
proof (cases "\<exists>t. op = OnSession (TokenLogout t)")
  case True
  then show ?thesis using logout_keeps_listed [OF assms(1,2)] assms(3) logout_frame parse_refresh_id by fastforce
next
  case False
  then have "keeps_revoked (env_now e) s (auth_step ac (e, rd, op) s)" by (intro keeping.step_R) auto
  with keeps_listed [OF _ assms(1,2)] show ?thesis by (simp add: keeps_revoked_def)
qed

lemma run_listed:
  "listed i x s \<Longrightarrow> list_all (\<lambda>(e, _). env_now e < x) ops \<Longrightarrow>
   (\<And>t tok c. jwt_Parse ac (au_signingKey s) t tok = Some c \<Longrightarrow> trim_space (tc_ID c) = i \<Longrightarrow> tc_ExpiresAt c = Some x) \<Longrightarrow>
   listed i x (auth_run ac ops s) \<and> au_signingKey (auth_run ac ops s) = au_signingKey s"
proof (induction ops arbitrary: s)
  case (Cons op ops)
  obtain e rd o' where op: "op = (e, rd, o')" by (cases op)
  with Cons.prems have "listed i x (auth_step ac op s) \<and> au_signingKey (auth_step ac op s) = au_signingKey s"
    by (simp add: step_listed)
  with Cons.IH [of "auth_step ac op s"] Cons.prems show ?case by (simp add: auth_run_def)
qed (simp add: auth_run_def)

lemma auth_step_key: "au_signingKey (auth_step ac (e, rd, op) s) = au_signingKey s"
  using auth_step_grows [of rd s ac e op] by (simp add: grows_def)

lemma auth_run_key: "au_signingKey (auth_run ac ops s) = au_signingKey s"
proof (induction ops arbitrary: s)
  case (Cons x ops)
  then show ?case by (cases x) (simp add: auth_run_def auth_step_key)
qed (simp add: auth_run_def)

lemma listed_refused:
  assumes "listed (trim_space (tc_ID c)) x s" and "env_now e < x" and "trim_space (tc_ID c) \<noteq> ''''"
    and "\<And>c'. parseTokenClaims ac (env_now e) (trim_space tok) ''access'' s = Some c' \<Longrightarrow> c' = c"
  shows "fst (VerifyAccessToken ac e tok s) = Inl InvalidAccessToken"
proof -
  have "\<exists>r s1. isAccessTokenRevoked e (tc_ID c) s = (r, s1) \<and> r \<noteq> Inr False"
    using assms(1-3) by (auto simp: isAccessTokenRevoked_def listed_def Let_def split: option.split sum.split prod.split)
  then obtain r s1 where "isAccessTokenRevoked e (tc_ID c) s = (r, s1)" "r \<noteq> Inr False" by blast
  then show ?thesis
    using assms(4) by (auto simp: VerifyAccessToken_def split: option.split sum.split bool.split)
qed

lemma logout_lists:
  assumes "Logout ac e tok s = (None, s')" and "distinct (map fst (au_revokedAccess s))"
  obtains c x where "parseTokenClaims ac (env_now e) (trim_space tok) ''access'' s = Some c" "tc_ExpiresAt c = Some x"
    "trim_space (tc_ID c) \<noteq> ''''" "listed (trim_space (tc_ID c)) x s'"
proof -
  have "distinct (map fst (au_revokedAccess (cleanupExpiredLocked (env_now e) s)))"
    using assms(2) by (simp add: cleanupExpiredLocked_def distinct_map_filter)
  with assms(1) that show thesis
    by (auto simp: Logout_def revokeAccessTokenLocked_def listed_def Let_def distinct_update update_conv
        split: option.splits prod.splits bool.splits if_splits)
qed

end
