(* ===== verification/Auth_Login.thy ===== *)
theory Auth_Login
  imports Auth_Session
begin

text \<open>
  Properties of the authentication module: what a login takes, how long a time-based code lives, and that
  refresh tokens, recovery codes, reset tokens and logged-out access tokens are not accepted again, through any
  run of the module's operations.  The witnesses run a small instance: one user, one session, tokens
  that are their own identifiers.
\<close>

section \<open>An instance\<close>

definition demo_user :: authUser where
  "demo_user = \<lparr>lu_ID = ''u1'', lu_Name = ''Ann'', lu_Email = ''a@b'', lu_Role = ''resident'', lu_TenantID = ''t'',
     lu_BuildingIDs = [], lu_Language = '''', lu_PasswordAuthEnabled = True\<rparr>"

definition demo_claims :: "string \<Rightarrow> string \<Rightarrow> tokenClaims" where
  "demo_claims ty i = \<lparr>tc_UserID = ''u1'', tc_Name = ''Ann'', tc_Email = ''a@b'', tc_Role = ''resident'', tc_TenantID = ''t'',
     tc_BuildingIDs = [], tc_Language = '''', tc_TokenType = ty, tc_ID = i, tc_Subject = ''u1'', tc_Issuer = ''mp'',
     tc_Audience = [''mp''], tc_IssuedAt = Some 0, tc_NotBefore = Some 0, tc_ExpiresAt = Some 1000\<rparr>"

text \<open>Tokens \<open>a1\<close> and \<open>r1\<close> are good until 1000; the hash of a password is the password.\<close>

definition login_crypto :: authCrypto where
  "login_crypto =
     \<lparr>jwt_Sign = (\<lambda>k c. Some (tc_ID c)),
      jwt_Parse = (\<lambda>k now t. if 1000 \<le> now then None else if t = ''r1'' then Some (demo_claims ''refresh'' ''r1'')
                             else if t = ''a1'' then Some (demo_claims ''access'' ''a1'') else None),
      bc_Generate = (\<lambda>salt p. Some p), bc_Compare = (\<lambda>h p. h = p), hmac_sha1 = (\<lambda>k m. replicate 20 0)\<rparr>"

definition demo_auth :: authService where
  "demo_auth = \<lparr>au_signingKey = ''k'', au_issuer = ''mp'', au_accessTTL = 500 * ns_second, au_refreshTTL = 1000 * ns_second,
     au_adminMFARequired = True, au_adminMFA = [], au_persistence = None, au_volatileStore = None, au_secretVault = None,
     au_usersByEmail = [(''a@b'', \<lparr>ur_User = demo_user, ur_PasswordHash = ''Passw0rd''\<rparr>)], au_usersByID = [(''u1'', demo_user)],
     au_refreshSessions = [(''r1'', no_session\<lparr>se_UserID := ''u1'', se_ExpiresAt := 1000\<rparr>)], au_revokedAccess = [],
     au_passwordResetTokens = []\<rparr>"

definition login_env :: "time \<Rightarrow> env" where
  "login_env t = \<lparr>env_now = t, env_save_ok = True, env_rand = None\<rparr>"

definition demo_reads :: reads where
  "demo_reads i = Some (if i = 0 then ''a2'' else ''r2'')"

lemma demo_text [simp]:
  "trim_space ''r1'' = ''r1''" "trim_space ''a1'' = ''a1''" "trim_space ''r2'' = ''r2''" "trim_space ''u1'' = ''u1''"
  "trim_space ''Passw0rd'' = ''Passw0rd''" "trim_space ''Ann'' = ''Ann''" "trim_space ''t'' = ''t''"
  "trim_space ''resident'' = ''resident''" "to_lower ''resident'' = ''resident''" "trim_space '''' = ''''"
  "normalizeEmail_auth ''A@b'' = ''a@b''" "normalizeEmail_auth ''a@b'' = ''a@b''" "to_lower ''a@b'' = ''a@b''"
  "normalizeLanguage '''' = ''''" "trim_space ''JBSWY3DP'' = ''JBSWY3DP''" "trim_space ''a2'' = ''a2''"
  by code_simp+

lemmas demo_eval = demo_auth_def demo_user_def login_crypto_def login_env_def demo_reads_def Let_def
  findUserByEmail_def findUserByEmailLocked_def findUserByID_def findUserByIDLocked_def stored_user_def
  FindAuthUserByEmail_def FindAuthUserByID_def found_user_def normalizeUser_def uniqueNormalizedIDs_def
  persistUserLocked_def cacheUserLocked_def kept_hash_def UpsertAuthUser_def
  verifyPassword_def enforceAdminMFA_def findAdminMFAState_def findAdminMFAStateLocked_def mfa_active_def isAdminRole_def
  metadata_def cleanupExpiredLocked_def issueTokenPairWithMetadataLocked_def issueTokenPairLocked_def signToken_def token_claims_def
  upsertRefreshSessionLocked_def session_upsert_def numeric_date_def ns_second_def is_zero_def zero_time_def
  find_session_same find_session_flat settle_session_def stored_session_def refresh_commit_def deleteRefreshSessionLocked_def usable_session_def
  parseTokenClaims_def demo_claims_def get_or_def

lemma success_obtain: "\<not> isl (fst p) \<Longrightarrow> \<exists>y s. p = (Inr y, s)"
  by (cases p; cases "fst p") auto

lemma demo_parse:
  "jwt_Parse login_crypto k t ''r1'' = (if 1000 \<le> t then None else Some (demo_claims ''refresh'' ''r1''))"
  "jwt_Parse login_crypto k t ''a1'' = (if 1000 \<le> t then None else Some (demo_claims ''access'' ''a1''))"
  by (auto simp: login_crypto_def)

lemma demo_parse_some:
  "jwt_Parse login_crypto k t tok = Some c \<Longrightarrow> t < 1000 \<and> (c = demo_claims ''refresh'' ''r1'' \<or> c = demo_claims ''access'' ''a1'')"
  by (auto simp: login_crypto_def split: if_splits)

section \<open>A refresh token works once\<close>

text \<open>C13: A refresh token works once at a running instance of the service.  After a refresh with it took effect, every
  refresh and every revocation with it fails: those begun later and those already waiting for the lock, whatever
  operations and pieces of refreshes run in between, and whether sessions are kept in memory, in the volatile store or in
  the tables.  Required is that no other use of the token had read the session from the store and not yet put it into memory
  when the first took effect; the code admits two uses that overlap so (\<open>overlapping_refreshes\<close> below), and a
  second instance that still holds the session in memory (\<open>replica_replays\<close>).  Assumed are that the claims read
  from a token do not depend on the time of reading and that no later session draws the identifier of the one used up.\<close>

theorem refresh_token_once:
  assumes first: "refresh_commit ac e rd c user s = (Inr resp, s1)"
    and alone: "\<forall>x. (trim_space (tc_ID c), Inr (Some x)) \<notin> set fs"
    and id: "trim_space (tc_ID c) \<notin> insert '''' (trim_space ` set_option (rd 1))"
    and later: "(auth_flight ac (trim_space (tc_ID c)))\<^sup>*\<^sup>* (fs, s1) (fs', s')"
    and stable: "\<And>t c'. jwt_Parse ac (au_signingKey s) t (trim_space tok) = Some c' \<Longrightarrow> c' = c"
  shows "fst (Refresh ac e2 rd2 tok s') = Inl InvalidRefreshToken \<and>
    fst (RevokeRefreshToken ac e2 tok s') = Some InvalidRefreshToken \<and>
    fst (refresh_commit ac e2 rd2 c user2 s') = Inl InvalidRefreshToken \<and>
    fst (revoke_commit e2 c s') = Some InvalidRefreshToken"
proof -
  let ?i = "trim_space (tc_ID c)"
  from first obtain s4 where g4: "grows {} s s4" and gone: "?i = '''' \<or> ?i \<notin> session_ids s4"
    and iss: "issueTokenPairLocked ac e rd user s4 = (Inr resp, s1)" by (rule commit_deletes)
  with issue_only_new [OF iss] id have "out_of_reach ?i (fs, s1)" and "au_signingKey s1 = au_signingKey s"
    using alone by (auto simp: out_of_reach_def grows_def)
  with auth_flights_keep [OF later] have out: "?i \<notin> session_ids s'" "au_signingKey s' = au_signingKey s"
    by (simp_all add: out_of_reach_def)
  have same: "c' = c" if "parseTokenClaims ac (env_now e2) (trim_space tok) ''refresh'' s' = Some c'" for c'
    using stable parse_refresh_id [OF that] out(2) by simp
  obtain found s2 where f: "findRefreshSessionLocked e2 (tc_ID c) s' = (found, s2)" by fastforce
  have "fst (Refresh ac e2 rd2 tok s') = Inl InvalidRefreshToken"
    "fst (RevokeRefreshToken ac e2 tok s') = Some InvalidRefreshToken"
    using gone_unusable [OF out(1) f] same
    by (auto simp: Refresh_def RevokeRefreshToken_def find_session_same f split: option.split)
  with gone_refused [OF out(1)] show ?thesis by blast
qed

definition flight_auth :: authService where
  "flight_auth = demo_auth\<lparr>au_volatileStore := Some \<lparr>vo_sessions = [(''r1'', ''u1'', 1000)], vo_revoked = []\<rparr>\<rparr>"

abbreviation r1_commit :: "time \<Rightarrow> authService \<Rightarrow> (auth_error, loginResponse) result \<times> authService" where
  "r1_commit t \<equiv> refresh_commit login_crypto (login_env t) demo_reads (demo_claims ''refresh'' ''r1'') demo_user"

text \<open>The second use looks the session up after the first took effect, and waits while a logout runs.\<close>

theorem refresh_token_once_witness:
  "\<not> isl (fst (r1_commit 10 flight_auth)) \<and>
   (let s1 = snd (r1_commit 10 flight_auth);
        answer = stored_session (login_env 20) ''r1'' s1;
        s2 = auth_step login_crypto (login_env 20, demo_reads, OnSession (TokenLogout ''a1'')) s1;
        s3 = snd (settle_session ''r1'' answer s2) in
    fst (r1_commit 30 s3) = Inl InvalidRefreshToken)"
proof -
  have ok: "\<not> isl (fst (r1_commit 10 flight_auth))"
    by (simp add: flight_auth_def demo_eval volatile_session_def)
  then obtain resp s1 where r: "r1_commit 10 flight_auth = (Inr resp, s1)"
    using success_obtain by blast
  let ?a = "stored_session (login_env 20) ''r1'' s1"
  let ?s2 = "auth_step login_crypto (login_env 20, demo_reads, OnSession (TokenLogout ''a1'')) s1"
  have new: "''r1'' \<notin> trim_space ` set_option (demo_reads 1)" by (simp add: demo_reads_def)
  have "auth_flight login_crypto ''r1'' ([], s1) ([(''r1'', ?a)], s1)"
    using look_up [of login_crypto "''r1''" "[]" s1 "''r1''" "login_env 20"] by simp
  moreover have "auth_flight login_crypto ''r1'' ([(''r1'', ?a)], s1) ([(''r1'', ?a)], ?s2)"
    by (rule operation) (rule new)
  moreover have "auth_flight login_crypto ''r1'' ([(''r1'', ?a)], ?s2) ([], snd (settle_session ''r1'' ?a ?s2))"
    using settle [of login_crypto "''r1''" "[]" "''r1''" ?a "[]" ?s2] by simp
  ultimately have "(auth_flight login_crypto ''r1'')\<^sup>*\<^sup>* ([], s1) ([], snd (settle_session ''r1'' ?a ?s2))"
    by (meson converse_rtranclp_into_rtranclp rtranclp.rtrancl_refl)
  then have run: "(auth_flight login_crypto (trim_space (tc_ID (demo_claims ''refresh'' ''r1''))))\<^sup>*\<^sup>*
      ([], s1) ([], snd (settle_session ''r1'' ?a ?s2))" by (simp add: demo_claims_def)
  have id: "trim_space (tc_ID (demo_claims ''refresh'' ''r1'')) \<notin> insert '''' (trim_space ` set_option (demo_reads 1))"
    using new by (simp add: demo_claims_def)
  have same: "c' = demo_claims ''refresh'' ''r1''"
    if "jwt_Parse login_crypto (au_signingKey flight_auth) t (trim_space ''r1'') = Some c'" for t c'
    using that by (simp add: demo_parse split: if_splits)
  have "fst (r1_commit 30 (snd (settle_session ''r1'' ?a ?s2))) = Inl InvalidRefreshToken"
    using refresh_token_once [where ?e2.0 = "login_env 30" and ?rd2.0 = demo_reads and ?user2.0 = demo_user and tok = "''r1''", OF r _ id run same] by simp
  with ok r show ?thesis by (simp add: Let_def)
qed

text \<open>Two uses of one token that overlap: both read the session, the first takes effect, the second puts what it read back
  into memory, takes the lock, finds the store empty, falls back to memory and takes effect too.\<close>

lemma overlapping_refreshes:
  "let answer = stored_session (login_env 10) ''r1'' flight_auth;
       first = r1_commit 10 flight_auth;
       second = r1_commit 10 (snd (settle_session ''r1'' answer (snd first))) in
   \<not> isl (fst first) \<and> \<not> isl (fst second)"
  by (simp add: flight_auth_def demo_eval volatile_session_def)

text \<open>Two instances over one volatile store: the session is refreshed at the one, and again at the other, which holds it in
  memory since the login it served.\<close>

lemma replica_replays:
  "let first = Refresh login_crypto (login_env 10) demo_reads ''r1'' flight_auth;
       replica = flight_auth\<lparr>au_volatileStore := au_volatileStore (snd first)\<rparr> in
   \<not> isl (fst first) \<and> \<not> isl (fst (Refresh login_crypto (login_env 20) demo_reads ''r1'' replica))"
  by (simp add: Refresh_def flight_auth_def demo_eval volatile_session_def)

section \<open>Logging out is final\<close>

text \<open>C14: Logging out is final.  An access token that was logged out is refused ever after, through any run of operations at
  times up to the check, cleaning of the list included.  Assumed of the token library are that claims do not depend on the time
  of reading, that an expired token is not read, and that tokens with one identifier have one expiry.\<close>

theorem logout_is_final:
  assumes out: "Logout ac e tok s = (None, s1)" and keys: "distinct (map fst (au_revokedAccess s))"
    and stable: "\<And>t t' c c'. jwt_Parse ac (au_signingKey s) t (trim_space tok) = Some c \<Longrightarrow>
       jwt_Parse ac (au_signingKey s) t' (trim_space tok) = Some c' \<Longrightarrow> c' = c"
    and expiry: "\<And>t tok' c x. jwt_Parse ac (au_signingKey s) t tok' = Some c \<Longrightarrow> tc_ExpiresAt c = Some x \<Longrightarrow> t < x"
    and unique: "\<And>t t' tok' c c'. jwt_Parse ac (au_signingKey s) t (trim_space tok) = Some c \<Longrightarrow>
       jwt_Parse ac (au_signingKey s) t' tok' = Some c' \<Longrightarrow> trim_space (tc_ID c') = trim_space (tc_ID c) \<Longrightarrow>
       tc_ExpiresAt c' = tc_ExpiresAt c"
    and order: "list_all (\<lambda>(e', _). env_now e' \<le> env_now later) ops"
  shows "fst (VerifyAccessToken ac later tok (auth_run ac ops s1)) = Inl InvalidAccessToken"
proof -
  obtain c x where c: "parseTokenClaims ac (env_now e) (trim_space tok) ''access'' s = Some c"
    and x: "tc_ExpiresAt c = Some x" and ne: "trim_space (tc_ID c) \<noteq> ''''"
    and l: "listed (trim_space (tc_ID c)) x s1" using out keys by (rule logout_lists)
  note p = parse_refresh_id [OF c]
  have k1: "au_signingKey s1 = au_signingKey s" using logout_frame(1) [of ac e tok s] out by simp
  have same: "c' = c" if "parseTokenClaims ac (env_now later) (trim_space tok) ''access'' (auth_run ac ops s1) = Some c'" for c'
    using stable [OF p] parse_refresh_id [OF that] k1 by (simp add: auth_run_key)
  show ?thesis
  proof (cases "env_now later < x")
    case True
    with order have "list_all (\<lambda>(e', _). env_now e' < x) ops" by (auto simp: list_all_iff)
    then have "listed (trim_space (tc_ID c)) x (auth_run ac ops s1)"
      using run_listed [OF l, of ops ac] unique [OF p] x k1 by auto
    then show ?thesis using True ne same by (rule listed_refused)
  next
    case False
    have "parseTokenClaims ac (env_now later) (trim_space tok) ''access'' (auth_run ac ops s1) = None"
    proof (rule ccontr)
      assume "\<not> ?thesis"
      then obtain c' where c': "parseTokenClaims ac (env_now later) (trim_space tok) ''access'' (auth_run ac ops s1) = Some c'" by auto
      with expiry [of "env_now later" "trim_space tok" c' x] False x same [OF c'] parse_refresh_id [OF c'] k1
      show False by (simp add: auth_run_key)
    qed
    then show ?thesis by (simp add: VerifyAccessToken_def)
  qed
qed

theorem logout_is_final_witness:
  "\<not> isl (fst (VerifyAccessToken login_crypto (login_env 10) ''a1'' demo_auth)) \<and>
   fst (VerifyAccessToken login_crypto (login_env 30) ''a1''
     (auth_run login_crypto [(login_env 20, demo_reads, OnSession (TokenRefresh ''r1''))]
       (snd (Logout login_crypto (login_env 10) ''a1'' demo_auth)))) = Inl InvalidAccessToken"
proof -
  have ok: "\<not> isl (fst (VerifyAccessToken login_crypto (login_env 10) ''a1'' demo_auth))" by code_simp
  have "fst (Logout login_crypto (login_env 10) ''a1'' demo_auth) = None" by code_simp
  then obtain s1 where out: "Logout login_crypto (login_env 10) ''a1'' demo_auth = (None, s1)" by (metis prod.collapse)
  have tr: "trim_space ''a1'' = ''a1''" "trim_space ''r1'' = ''r1''" by code_simp+
  have "fst (VerifyAccessToken login_crypto (login_env 30) ''a1''
      (auth_run login_crypto [(login_env 20, demo_reads, OnSession (TokenRefresh ''r1''))] s1)) = Inl InvalidAccessToken"
    by (rule logout_is_final [OF out])
       (auto simp: tr demo_parse login_env_def demo_auth_def demo_claims_def dest!: demo_parse_some split: if_splits)
  with ok out show ?thesis by simp
qed

section \<open>What a login takes\<close>

definition spare_recovery_code :: "authCrypto \<Rightarrow> adminMFAState \<Rightarrow> string \<Rightarrow> bool" where
  "spare_recovery_code ac st code \<longleftrightarrow> list_ex (\<lambda>c. \<not> rc_Used c \<and> bc_Compare ac (rc_CodeHash c) code) (ms_RecoveryCodes st)"

definition second_factor_ok ::
  "authCrypto \<Rightarrow> time \<Rightarrow> bool \<Rightarrow> authUser \<Rightarrow> adminMFAState option \<Rightarrow> string \<Rightarrow> bool" where
  "second_factor_ok ac now required user st code \<longleftrightarrow>
     (if mfa_active st
      then trim_space code \<noteq> '''' \<and>
           (verifyTOTPCode ac (ms_Secret (the st)) (trim_space code) now \<or> spare_recovery_code ac (the st) (trim_space code))
      else \<not> (isAdminRole (lu_Role user) \<and> required))"

lemma consume_spare:
  assumes "verifyAndConsumeRecoveryCode ac (ms_RecoveryCodes st) code = Some codes"
  shows "spare_recovery_code ac st code"
  using assms find_idx_SomeD
  by (fastforce simp: verifyAndConsumeRecoveryCode_def spare_recovery_code_def list_ex_iff split: option.splits)

lemma find_mfa_again:
  assumes "findAdminMFAState e i s = (Inr (Some st), s1)"
  shows "findAdminMFAStateLocked e i s1 = (Inr (Some st), s1)"
  using assms
  by (auto simp: findAdminMFAState_def findAdminMFAStateLocked_def Let_def update_conv split: if_splits option.splits sum.splits)

lemma find_mfa_required: "findAdminMFAState e i s = (r, s1) \<Longrightarrow> au_adminMFARequired s1 = au_adminMFARequired s"
  by (auto simp: findAdminMFAState_def findAdminMFAStateLocked_def Let_def split: if_splits option.splits sum.splits)

lemma enforce_factor:
  assumes "enforceAdminMFA ac e u code s = (None, s')"
  obtains st s1 where "findAdminMFAState e (trim_space (lu_ID u)) s = (Inr st, s1)"
    "second_factor_ok ac (env_now e) (au_adminMFARequired s) u st code"
proof -
  from assms obtain st s1 where f: "findAdminMFAState e (trim_space (lu_ID u)) s = (Inr st, s1)"
    by (auto simp: enforceAdminMFA_def split: prod.splits sum.splits)
  have "second_factor_ok ac (env_now e) (au_adminMFARequired s) u st code"
  proof (cases "mfa_active st")
    case True
    then obtain m where m: "st = Some m" by (auto simp: mfa_active_def split: option.splits)
    from assms f True m find_mfa_again [of e "trim_space (lu_ID u)" s m s1] show ?thesis
      by (auto simp: enforceAdminMFA_def second_factor_ok_def consume_recovery_def Let_def
          dest!: consume_spare split: if_splits option.splits prod.splits bool.splits)
  next
    case False
    with assms f find_mfa_required [OF f] show ?thesis
      by (auto simp: enforceAdminMFA_def second_factor_ok_def split: if_splits)
  qed
  with f that show thesis by blast
qed

text \<open>C12: A password login takes every factor.  When it succeeds, the user was found under the given e-mail, the password
  matches the stored hash, password login is enabled for that user, and the second factor is in order: with one active, the
  code given is a current time-based code or an unused recovery code; without one, the user is no administrator or
  administrators need none.  The tokens are issued for that user.\<close>

theorem login_needs_factors:
  assumes "Login ac e rd email password code meta s = (Inr resp, s')"
  shows "\<exists>r s1 st s2. findUserByEmail e (normalizeEmail_auth email) s = (Inr (Some r), s1) \<and>
    verifyPassword ac (ur_PasswordHash r) (trim_space password) \<and> lu_PasswordAuthEnabled (ur_User r) \<and>
    findAdminMFAState e (trim_space (lu_ID (ur_User r))) s1 = (Inr st, s2) \<and>
    second_factor_ok ac (env_now e) (au_adminMFARequired s1) (ur_User r) st code \<and> lr_User resp = ur_User r"
proof -
  from assms obtain r s1 s2 where f: "findUserByEmail e (normalizeEmail_auth email) s = (Inr (Some r), s1)"
    and pw: "verifyPassword ac (ur_PasswordHash r) (trim_space password)" "lu_PasswordAuthEnabled (ur_User r)"
    and mfa: "enforceAdminMFA ac e (ur_User r) code s1 = (None, s2)"
    and i: "issueTokenPairWithMetadataLocked ac e rd (ur_User r) (metadata ''password'' meta)
      (cleanupExpiredLocked (env_now e) s2) = (Inr resp, s')"
    by (auto simp: Login_def Let_def split: if_splits prod.splits sum.splits option.splits)
  from i have "lr_User resp = ur_User r"
    by (auto simp: issueTokenPairWithMetadataLocked_def split: option.splits prod.splits bool.splits)
  with f pw show ?thesis using mfa by (elim enforce_factor) blast
qed

theorem login_needs_factors_witness:
  "\<not> isl (fst (Login login_crypto (login_env 10) demo_reads ''A@b'' ''Passw0rd'' '''' None demo_auth)) \<and>
   (\<exists>r s1. findUserByEmail (login_env 10) (normalizeEmail_auth ''A@b'') demo_auth = (Inr (Some r), s1) \<and>
     verifyPassword login_crypto (ur_PasswordHash r) (trim_space ''Passw0rd''))"
proof -
  have ok: "\<not> isl (fst (Login login_crypto (login_env 10) demo_reads ''A@b'' ''Passw0rd'' '''' None demo_auth))"
    by (simp add: Login_def demo_eval)
  then obtain resp s1 where "Login login_crypto (login_env 10) demo_reads ''A@b'' ''Passw0rd'' '''' None demo_auth = (Inr resp, s1)"
    using success_obtain by blast
  with ok show ?thesis using login_needs_factors by blast
qed

section \<open>The life of a time-based code\<close>

lemma totp_window_any:
  "totp_window ac secret code cs \<longleftrightarrow>
   (\<exists>c \<in> set cs. totpCodeAt ac secret c = Some code)"
proof (induction cs)
  case (Cons c cs)
  have "totpCodeAt ac secret c' = None" if "totpCodeAt ac secret c = None" for c'
    using that by (auto simp: totpCodeAt_def Let_def split: if_splits option.splits)
  with Cons show ?case by (auto split: option.splits)
qed simp

lemma fmt6_shape: "length (fmt6 n) = 6 \<and> list_all is_digit (fmt6 n)"
proof -
  have "is_digit (digit_char (int (m mod 10)))" for m :: nat
  proof -
    have "m mod 10 = 0 \<or> m mod 10 = 1 \<or> m mod 10 = 2 \<or> m mod 10 = 3 \<or> m mod 10 = 4 \<or>
        m mod 10 = 5 \<or> m mod 10 = 6 \<or> m mod 10 = 7 \<or> m mod 10 = 8 \<or> m mod 10 = 9" by presburger
    then show ?thesis by (elim disjE) (simp_all add: digit_char_def is_digit_def)
  qed
  then show ?thesis by (simp add: fmt6_def)
qed

lemma totp_shape: "totpCodeAt ac secret c = Some code \<Longrightarrow> length code = 6 \<and> list_all is_digit code"
  using fmt6_shape by (auto simp: totpCodeAt_def Let_def split: if_splits option.splits)

text \<open>C17: A time-based code lives ninety seconds.  A code is accepted exactly when it is the six-digit code of some counter
  whose half-open thirty-second step, widened by one step on either side, contains the time; so the code shown for a step works
  from thirty seconds before the step until thirty seconds after it, and no other code does.\<close>

theorem totp_window_exact:
  assumes "0 \<le> unix_sec now"
  shows "verifyTOTPCode ac secret code now \<longleftrightarrow>
    (\<exists>c. totpCodeAt ac secret c = Some (trim_space code) \<and> 30 * c - 30 \<le> unix_sec now \<and> unix_sec now < 30 * c + 60)"
proof -
  have w: "c \<in> {unix_sec now div 30 - 1, unix_sec now div 30, unix_sec now div 30 + 1} \<longleftrightarrow>
      30 * c - 30 \<le> unix_sec now \<and> unix_sec now < 30 * c + 60" for c
    by auto
  have "verifyTOTPCode ac secret code now \<longleftrightarrow> length (trim_space code) = 6 \<and> list_all is_digit (trim_space code) \<and>
      (\<exists>c \<in> {unix_sec now div 30 - 1, unix_sec now div 30, unix_sec now div 30 + 1}. totpCodeAt ac secret c = Some (trim_space code))"
    using assms by (simp add: verifyTOTPCode_def totp_counter_def totp_window_any Let_def del: totp_window.simps)
  also have "\<dots> \<longleftrightarrow> (\<exists>c. totpCodeAt ac secret c = Some (trim_space code) \<and> 30 * c - 30 \<le> unix_sec now \<and> unix_sec now < 30 * c + 60)"
    using w totp_shape by blast
  finally show ?thesis .
qed

lemma demo_totp: "totpCodeAt login_crypto ''JBSWY3DP'' c = Some ''000000''"
proof -
  have "to_upper (trim_space ''JBSWY3DP'') = ''JBSWY3DP''" "b32_decode ''JBSWY3DP'' \<noteq> None" by code_simp+
  moreover have "hmac_sha1 login_crypto k m = replicate 20 0" for k m by (simp add: login_crypto_def)
  moreover have "truncate_digest (replicate 20 0) = 0" by (simp add: truncate_digest_def)
  moreover have "digit_char 0 = CHR ''0''" by code_simp
  then have "fmt6 0 = ''000000''" by (simp add: fmt6_def)
  ultimately show ?thesis by (auto simp: totpCodeAt_def)
qed

theorem totp_window_exact_witness:
  "totpCodeAt login_crypto ''JBSWY3DP'' 2 = Some ''000000'' \<and>
   verifyTOTPCode login_crypto ''JBSWY3DP'' '' 000000 '' (100 * ns_second)"
proof -
  have "trim_space '' 000000 '' = ''000000''" "unix_sec (100 * ns_second) = 100" by code_simp+
  then show ?thesis
    using totp_window_exact [of "100 * ns_second" login_crypto "''JBSWY3DP''" "'' 000000 ''"] demo_totp
    by (auto intro: exI [of _ 2])
qed

section \<open>Reset tokens\<close>

text \<open>Outside the tokens it draws, a step can only remove a reset token, never change one.\<close>

definition fades :: "string set \<Rightarrow> authService \<Rightarrow> authService \<Rightarrow> bool" where
  "fades F s s' \<longleftrightarrow> (distinct (map fst (au_passwordResetTokens s)) \<longrightarrow>
     distinct (map fst (au_passwordResetTokens s')) \<and>
     (\<forall>k. k \<notin> F \<longrightarrow> map_of (au_passwordResetTokens s') k \<in> {None, map_of (au_passwordResetTokens s) k}))"

lemma fades_same: "au_passwordResetTokens s' = au_passwordResetTokens s \<Longrightarrow> fades F s s'"
  by (simp add: fades_def)

lemma fades_trans: "fades F s s' \<Longrightarrow> fades F s' s'' \<Longrightarrow> fades F s s''"
  unfolding fades_def by (metis insert_iff singletonD)

lemma fades_mono: "fades F s s' \<Longrightarrow> F \<subseteq> G \<Longrightarrow> fades G s s'"
  by (auto simp: fades_def)

lemma map_of_filter_cases:
  "distinct (map fst xs) \<Longrightarrow> map_of (filter P xs) k \<in> {None, map_of xs k}"
  by (induction xs) (auto simp: map_of_eq_None_iff image_iff)

lemma fades_filter: "fades F s (s\<lparr>au_passwordResetTokens := filter P (au_passwordResetTokens s)\<rparr>)"
  using map_of_filter_cases [of "au_passwordResetTokens s" P] by (auto simp: fades_def distinct_map_filter)

lemma fades_update: "k \<in> F \<Longrightarrow> fades F s (s\<lparr>au_passwordResetTokens := AList.update k v (au_passwordResetTokens s)\<rparr>)"
  by (auto simp: fades_def distinct_update update_conv)

lemma fades_request:
  "k \<in> F \<Longrightarrow> fades F s (s\<lparr>au_passwordResetTokens := AList.update k v (filter P (au_passwordResetTokens s))\<rparr>)"
  using fades_trans [OF fades_filter fades_update] by simp

lemma fades_delete: "fades F s (s\<lparr>au_passwordResetTokens := AList.delete k (au_passwordResetTokens s)\<rparr>)"
  using fades_filter [of F s "\<lambda>(x, _). k \<noteq> x"] by (simp add: AList.delete_eq case_prod_beta)

lemma view_fades: "tok_view s' = tok_view s \<Longrightarrow> fades F s s'"
  by (rule fades_same) (simp add: tok_view_def)

lemma reset_untouched:
  "findRefreshSessionLocked e i s = (r, s') \<Longrightarrow> au_passwordResetTokens s' = au_passwordResetTokens s"
  "deleteRefreshSessionLocked e i s = (b, s') \<Longrightarrow> au_passwordResetTokens s' = au_passwordResetTokens s"
  "isAccessTokenRevoked e i s = (x, s') \<Longrightarrow> au_passwordResetTokens s' = au_passwordResetTokens s"
  "delete_user_sessions e i s = (n, s') \<Longrightarrow> au_passwordResetTokens s' = au_passwordResetTokens s"
  "revokeAccessTokenLocked e i t s = (b, s') \<Longrightarrow> au_passwordResetTokens s' = au_passwordResetTokens s"
  "au_passwordResetTokens (cleanupExpiredLocked now s) = au_passwordResetTokens s"
  by (auto simp: find_session_flat settle_session_def deleteRefreshSessionLocked_def isAccessTokenRevoked_def delete_user_sessions_def
      revokeAccessTokenLocked_def cleanupExpiredLocked_def Let_def split: if_splits option.splits prod.splits sum.splits bool.splits)

lemma issue_untouched: "au_passwordResetTokens (snd (issueTokenPairWithMetadataLocked ac e rd u m s)) = au_passwordResetTokens s"
  by (auto simp: issueTokenPairWithMetadataLocked_def upsertRefreshSessionLocked_def session_upsert_def Let_def
      split: if_splits option.splits prod.splits bool.splits)

interpretation fading: auth_relation e rd "fades ((@) ''prt_'' ` set_option (rd 0))" for e rd
  by unfold_locales
     (auto intro: fades_trans view_fades fades_delete fades_request fades_same reset_untouched issue_untouched)

lemma auth_step_fades: "fades ((@) ''prt_'' ` set_option (rd 0)) s (auth_step ac (e, rd, op) s)"
proof (cases "\<exists>t. op = OnSession (TokenLogout t)")
  case True
  then show ?thesis using fading.logout_R [of e rd] reset_untouched(5) fades_same by (metis auth_step.simps(3) session_step.simps(8))
next
  case False
  then show ?thesis by (intro fading.step_R) auto
qed

definition draws_reset_token :: "string \<Rightarrow> env \<times> reads \<times> auth_op \<Rightarrow> bool" where
  "draws_reset_token tok op = (case op of (_, rd, _) \<Rightarrow> (case rd 0 of None \<Rightarrow> False | Some h \<Rightarrow> ''prt_'' @ h = tok))"

lemma auth_run_fades: "list_all (\<lambda>op. \<not> draws_reset_token tok op) ops \<Longrightarrow> fades (- {tok}) s (auth_run ac ops s)"
proof (induction ops arbitrary: s)
  case (Cons x ops)
  obtain e rd op where x: "x = (e, rd, op)" by (cases x)
  have "fades (- {tok}) s (auth_step ac x s)"
    unfolding x by (rule fades_mono [OF auth_step_fades]) (use x Cons.prems in \<open>auto simp: draws_reset_token_def\<close>)
  with Cons show ?case by (auto simp: auth_run_def elim: fades_trans)
qed (simp add: auth_run_def fades_same)

lemma confirm_result:
  assumes "ConfirmPasswordReset ac e rd tok pw s = (None, s')"
  obtains prt where "map_of (au_passwordResetTokens s) (trim_space tok) = Some prt" "env_now e \<le> pt_ExpiresAt prt"
  using assms by (auto simp: ConfirmPasswordReset_def Let_def split: if_splits option.splits)

lemma confirm_deletes:
  assumes "ConfirmPasswordReset ac e rd tok pw s = (None, s')"
  shows "au_passwordResetTokens s' = AList.delete (trim_space tok) (au_passwordResetTokens s)"
  using assms
  by (auto simp: ConfirmPasswordReset_def Let_def tok_view_def dest!: user_find_view persist_user_view
      split: if_splits option.splits prod.splits sum.splits bool.splits)

text \<open>C16: A reset token is good for fifteen minutes and once.  A token that a request gave out resets a password, after any run
  of operations that draws no second token of that value, only up to fifteen minutes after the request; and after it has
  done so it never does again.\<close>

theorem reset_token_window:
  assumes request: "RequestPasswordReset e rd email s = (Inr tok, s1)" and tok: "tok \<noteq> ''''" "trim_space tok = tok"
    and keys: "distinct (map fst (au_passwordResetTokens s))"
    and fresh: "list_all (\<lambda>op. \<not> draws_reset_token tok op) (ops1 @ ops2)"
    and used: "ConfirmPasswordReset ac e2 rd2 tok pw (auth_run ac ops1 s1) = (None, s2)"
  shows "env_now e2 \<le> env_now e + 15 * ns_minute \<and>
    fst (ConfirmPasswordReset ac e3 rd3 tok pw' (auth_run ac ops2 s2)) \<noteq> None"
proof -
  let ?p = au_passwordResetTokens
  have d1: "distinct (map fst (?p s1)) \<and>
      (\<forall>prt. map_of (?p s1) tok = Some prt \<longrightarrow> pt_ExpiresAt prt = env_now e + passwordResetTokenTTL)"
  proof -
    have s0: "?p s' = ?p s" if "findUserByEmail e email s = (r, s')" for r s'
      using user_find_view(1) [OF that] by (simp add: tok_view_def)
    show ?thesis
      using request tok(1) keys
      by (auto simp: RequestPasswordReset_def Let_def distinct_update update_conv distinct_map_filter dest!: s0
          split: prod.splits sum.splits option.splits if_splits)
  qed
  have f: "fades (- {tok}) s1 (auth_run ac ops1 s1)" "fades (- {tok}) s2 (auth_run ac ops2 s2)"
    using fresh by (simp_all add: auth_run_fades)
  obtain prt where "map_of (?p (auth_run ac ops1 s1)) (trim_space tok) = Some prt" "env_now e2 \<le> pt_ExpiresAt prt"
    using used by (rule confirm_result)
  moreover have "map_of (?p (auth_run ac ops1 s1)) tok \<in> {None, map_of (?p s1) tok}"
    "distinct (map fst (?p (auth_run ac ops1 s1)))"
    using f(1) d1 by (auto simp: fades_def)
  ultimately have "env_now e2 \<le> env_now e + passwordResetTokenTTL" and d: "distinct (map fst (?p (auth_run ac ops1 s1)))"
    using d1 tok by auto
  moreover have "map_of (?p s2) tok = None" "distinct (map fst (?p s2))"
    using confirm_deletes [OF used] d tok by (simp_all add: AList.delete_conv distinct_delete)
  then have "map_of (?p (auth_run ac ops2 s2)) tok = None"
    using f(2) by (auto simp: fades_def)
  then have "fst (ConfirmPasswordReset ac e3 rd3 tok pw' (auth_run ac ops2 s2)) \<noteq> None"
    using tok by (auto simp: ConfirmPasswordReset_def Let_def split: option.split)
  ultimately show ?thesis by (simp add: passwordResetTokenTTL_def)
qed

theorem reset_token_window_witness:
  "fst (RequestPasswordReset (login_env 10) demo_reads ''a@b'' demo_auth) = Inr ''prt_a2'' \<and>
   fst (ConfirmPasswordReset login_crypto (login_env 20) demo_reads ''prt_a2'' ''Passw0rd''
     (snd (RequestPasswordReset (login_env 10) demo_reads ''a@b'' demo_auth))) = None \<and>
   fst (ConfirmPasswordReset login_crypto (login_env 30) demo_reads ''prt_a2'' ''Passw0rd''
     (snd (ConfirmPasswordReset login_crypto (login_env 20) demo_reads ''prt_a2'' ''Passw0rd''
       (snd (RequestPasswordReset (login_env 10) demo_reads ''a@b'' demo_auth))))) \<noteq> None"
proof -
  have ok: "fst (RequestPasswordReset (login_env 10) demo_reads ''a@b'' demo_auth) = Inr ''prt_a2''"
    "fst (ConfirmPasswordReset login_crypto (login_env 20) demo_reads ''prt_a2'' ''Passw0rd''
     (snd (RequestPasswordReset (login_env 10) demo_reads ''a@b'' demo_auth))) = None"
    "trim_space ''prt_a2'' = ''prt_a2''" by code_simp+
  then obtain s1 s2 where "RequestPasswordReset (login_env 10) demo_reads ''a@b'' demo_auth = (Inr ''prt_a2'', s1)"
    "ConfirmPasswordReset login_crypto (login_env 20) demo_reads ''prt_a2'' ''Passw0rd'' s1 = (None, s2)"
    by (metis prod.collapse snd_conv)
  with ok show ?thesis
    using reset_token_window [of "login_env 10" demo_reads "''a@b''" demo_auth "''prt_a2''" s1 "[]" "[]" login_crypto
        "login_env 20" demo_reads "''Passw0rd''" s2 "login_env 30" demo_reads "''Passw0rd''"]
    by (simp add: auth_run_def demo_auth_def)
qed

section \<open>A recovery code works once\<close>

text \<open>Sign-in and user operations keep every cached second factor, up to marking recovery codes as used.\<close>

definition spends :: "adminMFAState \<Rightarrow> adminMFAState \<Rightarrow> bool" where
  "spends st st' \<longleftrightarrow> ms_Enabled st' = ms_Enabled st \<and> trim_space (ms_Secret st') = trim_space (ms_Secret st) \<and>
     list_all2 (\<lambda>a b. rc_CodeHash b = rc_CodeHash a \<and> (rc_Used a \<longrightarrow> rc_Used b)) (ms_RecoveryCodes st) (ms_RecoveryCodes st')"

definition factors_kept :: "authService \<Rightarrow> authService \<Rightarrow> bool" where
  "factors_kept s s' \<longleftrightarrow> (\<forall>uid st. map_of (au_adminMFA s) uid = Some st \<longrightarrow>
     (\<exists>st'. map_of (au_adminMFA s') uid = Some st' \<and> spends st st'))"

lemma spends_refl [simp, intro]: "spends st st"
  by (simp add: spends_def list.rel_refl)

lemma spends_trans: "spends a b \<Longrightarrow> spends b c \<Longrightarrow> spends a c"
  unfolding spends_def by (auto simp: list_all2_conv_all_nth)

lemma kept_same: "au_adminMFA s' = au_adminMFA s \<Longrightarrow> factors_kept s s'"
  by (auto simp: factors_kept_def)

lemma kept_trans: "factors_kept s s' \<Longrightarrow> factors_kept s' s'' \<Longrightarrow> factors_kept s s''"
  unfolding factors_kept_def by (meson spends_trans)

lemma kept_update:
  "(\<And>old. map_of (au_adminMFA s) uid = Some old \<Longrightarrow> spends old st) \<Longrightarrow>
   factors_kept s (s\<lparr>au_adminMFA := AList.update uid st (au_adminMFA s)\<rparr>)"
  by (auto simp: factors_kept_def update_conv)

lemma users_untouched_mfa:
  "findUserByEmail e m s = (r, s') \<Longrightarrow> au_adminMFA s' = au_adminMFA s"
  "findUserByEmailLocked e m s = (r, s') \<Longrightarrow> au_adminMFA s' = au_adminMFA s"
  "findUserByID e i s = (r', s') \<Longrightarrow> au_adminMFA s' = au_adminMFA s"
  "findUserByIDLocked e i s = (r', s') \<Longrightarrow> au_adminMFA s' = au_adminMFA s"
  "persistUserLocked e u h s = (b, s') \<Longrightarrow> au_adminMFA s' = au_adminMFA s"
  by (auto simp: findUserByEmail_def findUserByEmailLocked_def findUserByID_def findUserByIDLocked_def persistUserLocked_def
      cacheUserLocked_def Let_def split: if_splits sum.splits option.splits prod.splits bool.splits)

lemma sessions_untouched_mfa:
  "findRefreshSessionLocked e i s = (r, s') \<Longrightarrow> au_adminMFA s' = au_adminMFA s"
  "deleteRefreshSessionLocked e i s = (b, s') \<Longrightarrow> au_adminMFA s' = au_adminMFA s"
  "isAccessTokenRevoked e i s = (x, s') \<Longrightarrow> au_adminMFA s' = au_adminMFA s"
  "delete_user_sessions e i s = (n, s') \<Longrightarrow> au_adminMFA s' = au_adminMFA s"
  "revokeAccessTokenLocked e i t s = (b, s') \<Longrightarrow> au_adminMFA s' = au_adminMFA s"
  "au_adminMFA (cleanupExpiredLocked now s) = au_adminMFA s"
  "au_adminMFA (snd (issueTokenPairWithMetadataLocked ac e rd u m s)) = au_adminMFA s"
  by (auto simp: find_session_flat settle_session_def deleteRefreshSessionLocked_def isAccessTokenRevoked_def delete_user_sessions_def
      revokeAccessTokenLocked_def cleanupExpiredLocked_def issueTokenPairWithMetadataLocked_def upsertRefreshSessionLocked_def
      session_upsert_def Let_def split: if_splits option.splits prod.splits sum.splits bool.splits)

lemma consume_codes:
  assumes "verifyAndConsumeRecoveryCode ac codes code = Some codes'"
  obtains i where "i < length codes" "\<not> rc_Used (codes ! i)" "bc_Compare ac (rc_CodeHash (codes ! i)) code"
    "codes' = codes[i := (codes ! i)\<lparr>rc_Used := True\<rparr>]"
  using assms by (auto simp: verifyAndConsumeRecoveryCode_def find_idx_Some_iff split: option.splits)

lemma consume_spends:
  assumes "verifyAndConsumeRecoveryCode ac (ms_RecoveryCodes st) code = Some codes"
  shows "spends st (st\<lparr>ms_RecoveryCodes := codes\<rparr>)"
  using assms by (rule consume_codes) (auto simp: spends_def list_all2_conv_all_nth nth_list_update)

lemma find_mfa_kept:
  assumes "findAdminMFAStateLocked e i s = (r, s')"
  shows "factors_kept s s'"
  using assms
  by (auto simp: findAdminMFAStateLocked_def Let_def kept_same intro!: kept_update split: if_splits sum.splits option.splits)

lemma persist_mfa_kept:
  assumes "persistAdminMFAStateLocked e i st s = (b, s')" and "\<And>old. map_of (au_adminMFA s) (trim_space i) = Some old \<Longrightarrow> spends old st"
  shows "factors_kept s s'"
proof -
  let ?st = "st\<lparr>ms_Secret := trim_space (ms_Secret st), ms_PendingSecret := trim_space (ms_PendingSecret st)\<rparr>"
  have "s' = s \<or> au_adminMFA s' = AList.update (trim_space i) ?st (au_adminMFA s)"
    using assms(1) by (auto simp: persistAdminMFAStateLocked_def Let_def split: if_splits option.splits prod.splits bool.splits)
  moreover have "spends old ?st" if "map_of (au_adminMFA s) (trim_space i) = Some old" for old
    using spends_trans [OF assms(2) [OF that], of ?st] by (simp add: spends_def list.rel_refl)
  ultimately show ?thesis by (auto simp: factors_kept_def update_conv)
qed

lemma find_mfa_cached:
  assumes "findAdminMFAStateLocked e i s = (Inr (Some st), s')"
  shows "map_of (au_adminMFA s') (trim_space i) = Some st"
  using assms by (auto simp: findAdminMFAStateLocked_def Let_def update_conv split: if_splits sum.splits option.splits)

lemma consume_kept:
  assumes "consume_recovery ac e i code s = (r, s')"
  shows "factors_kept s s'"
proof -
  obtain x s1 where f: "findAdminMFAStateLocked e (trim_space i) s = (x, s1)" by fastforce
  note k1 = find_mfa_kept [OF f]
  show ?thesis
  proof (cases "\<exists>st codes. x = Inr (Some st) \<and> ms_Enabled st \<and> verifyAndConsumeRecoveryCode ac (ms_RecoveryCodes st) code = Some codes")
    case False
    with assms f k1 show ?thesis
      by (auto simp: consume_recovery_def split: sum.splits option.splits if_splits)
  next
    case True
    then obtain st codes where x: "x = Inr (Some st)" "ms_Enabled st"
      and v: "verifyAndConsumeRecoveryCode ac (ms_RecoveryCodes st) code = Some codes" by blast
    let ?m = "s1\<lparr>au_adminMFA := AList.update (trim_space i) (st\<lparr>ms_RecoveryCodes := codes\<rparr>) (au_adminMFA s1)\<rparr>"
    from assms f x v obtain b where
      p: "persistAdminMFAStateLocked e i (st\<lparr>ms_RecoveryCodes := codes, ms_UpdatedAt := env_now e\<rparr>) ?m = (b, s')"
      by (auto simp: consume_recovery_def Let_def split: prod.splits bool.splits)
    have "map_of (au_adminMFA s1) (trim_space i) = Some st" using find_mfa_cached f x by fastforce
    then have "factors_kept s1 ?m" using consume_spends [OF v] by (intro kept_update) simp
    moreover have "factors_kept ?m s'"
      using p by (rule persist_mfa_kept) (auto simp: update_conv spends_def list.rel_refl)
    ultimately show ?thesis using k1 by (blast intro: kept_trans)
  qed
qed

lemma enforce_kept: "enforceAdminMFA ac e u c s = (r, s') \<Longrightarrow> factors_kept s s'"
  by (auto simp: enforceAdminMFA_def findAdminMFAState_def dest!: find_mfa_kept consume_kept intro: kept_trans
      split: prod.splits sum.splits if_splits)

lemma password_mfa:
  "au_adminMFA (snd (CreateUser_auth ac e rd m n p s)) = au_adminMFA s"
  "au_adminMFA (snd (RequestPasswordReset e rd m s)) = au_adminMFA s"
  "au_adminMFA (snd (VerifyUserPassword ac e u p s)) = au_adminMFA s"
  by (auto simp: CreateUser_auth_def RequestPasswordReset_def VerifyUserPassword_def Let_def
      dest!: users_untouched_mfa split: prod.split sum.split option.split bool.split)

lemma change_password_mfa: "au_adminMFA (snd (ChangePassword ac e rd u p q s)) = au_adminMFA s"
  by (auto simp: ChangePassword_def dest!: users_untouched_mfa split: prod.split sum.split option.split bool.split)

lemma confirm_reset_mfa: "au_adminMFA (snd (ConfirmPasswordReset ac e rd t p s)) = au_adminMFA s"
  by (auto simp: ConfirmPasswordReset_def Let_def dest!: users_untouched_mfa(2,5)
      split: prod.split sum.split option.split bool.split)

lemma store_changed_mfa: "store_changed e u err s = (r, s') \<Longrightarrow> au_adminMFA s' = au_adminMFA s"
  by (auto simp: store_changed_def dest!: users_untouched_mfa(2,5) split: prod.splits sum.splits bool.splits)

lemma profile_mfa:
  "au_adminMFA (snd (UpdateUserBuildingScope e u bs s)) = au_adminMFA s"
  "au_adminMFA (snd (UpdateUserPasswordAuth e u b s)) = au_adminMFA s"
  "au_adminMFA (snd (UpdateUserProfile e u n l s)) = au_adminMFA s"
  "au_adminMFA (snd (DowngradeTrustedUserToLeastPrivilegeByEmail e m t s)) = au_adminMFA s"
proof -
  have st: "au_adminMFA (snd (store_changed e u' err s')) = au_adminMFA s'" for u' err s'
    using store_changed_mfa [of e u' err s'] by (metis prod.collapse)
  show "au_adminMFA (snd (UpdateUserBuildingScope e u bs s)) = au_adminMFA s"
    "au_adminMFA (snd (UpdateUserProfile e u n l s)) = au_adminMFA s"
    by (auto simp: UpdateUserBuildingScope_def UpdateUserProfile_def st dest!: users_untouched_mfa(4)
        split: prod.split sum.split option.split)
  show "au_adminMFA (snd (UpdateUserPasswordAuth e u b s)) = au_adminMFA s"
    by (auto simp: UpdateUserPasswordAuth_def Let_def dest!: users_untouched_mfa(2,4,5)
        split: prod.split sum.split option.split bool.split)
  show "au_adminMFA (snd (DowngradeTrustedUserToLeastPrivilegeByEmail e m t s)) = au_adminMFA s"
    by (auto simp: DowngradeTrustedUserToLeastPrivilegeByEmail_def Let_def sessions_untouched_mfa(6)
        dest!: users_untouched_mfa(1,5) split: prod.split sum.split option.split bool.split)
qed

lemma user_step_mfa: "au_adminMFA (user_step ac e rd op s) = au_adminMFA s"
  by (cases op) (simp_all add: password_mfa change_password_mfa confirm_reset_mfa profile_mfa)

lemma trusted_login_mfa:
  "au_adminMFA (snd (LoginByTrustedIdentity ac e rd m x s)) = au_adminMFA s"
  "au_adminMFA (snd (LoginByTrustedUser ac e rd u s)) = au_adminMFA s"
  by (auto simp: LoginByTrustedIdentity_def LoginByTrustedUser_def issueTokenPairLocked_def sessions_untouched_mfa(6,7) Let_def
      dest!: users_untouched_mfa split: prod.split sum.split option.split bool.split)

lemma refresh_mfa: "au_adminMFA (snd (Refresh ac e rd t s)) = au_adminMFA s"
  by (auto simp: Refresh_def refresh_commit_def find_session_same issueTokenPairLocked_def sessions_untouched_mfa(6,7)
      dest!: users_untouched_mfa(3) sessions_untouched_mfa(1,2) split: prod.split sum.split option.split bool.split)

lemma revoke_mfa:
  "au_adminMFA (snd (RevokeRefreshToken ac e t s)) = au_adminMFA s"
  "au_adminMFA (snd (RevokeRefreshTokensByUserEmail e m s)) = au_adminMFA s"
  "au_adminMFA (snd (Logout ac e t s)) = au_adminMFA s"
  "au_adminMFA (snd (VerifyAccessToken ac e t s)) = au_adminMFA s"
  "au_adminMFA (snd (RevokeSession e u i s)) = au_adminMFA s"
proof -
  show "au_adminMFA (snd (RevokeRefreshToken ac e t s)) = au_adminMFA s"
    by (auto simp: RevokeRefreshToken_def revoke_commit_def find_session_same sessions_untouched_mfa(6)
        dest!: sessions_untouched_mfa(1,2) split: prod.split option.split bool.split)
  show "au_adminMFA (snd (RevokeRefreshTokensByUserEmail e m s)) = au_adminMFA s"
    by (auto simp: RevokeRefreshTokensByUserEmail_def Let_def sessions_untouched_mfa(6)
        dest!: users_untouched_mfa(1) sessions_untouched_mfa(4) split: prod.split sum.split option.split)
  show "au_adminMFA (snd (Logout ac e t s)) = au_adminMFA s"
    by (auto simp: Logout_def sessions_untouched_mfa(6) dest!: sessions_untouched_mfa(5) split: prod.split option.split bool.split)
  show "au_adminMFA (snd (VerifyAccessToken ac e t s)) = au_adminMFA s"
    by (auto simp: VerifyAccessToken_def dest!: users_untouched_mfa(3) sessions_untouched_mfa(3)
        split: prod.split sum.split option.split bool.split)
  show "au_adminMFA (snd (RevokeSession e u i s)) = au_adminMFA s"
    by (auto simp: RevokeSession_def Let_def dest!: sessions_untouched_mfa(2) split: prod.split option.split bool.split)
qed

lemma session_step_kept: "factors_kept s (session_step ac e rd op s)"
proof -
  have login: "factors_kept s (snd (issueTokenPairWithMetadataLocked ac e rd u m (cleanupExpiredLocked now s2)))"
    if "au_adminMFA s1 = au_adminMFA s" "factors_kept s1 s2" for s s1 s2 u m now
    using kept_trans [OF kept_same [OF that(1)] kept_trans [OF that(2)]] by (simp add: kept_same sessions_untouched_mfa)
  show ?thesis
  proof (cases op)
    case (PasswordLogin m p c x)
    then show ?thesis
      by (auto simp: Login_def Let_def dest!: users_untouched_mfa enforce_kept intro: login kept_same kept_trans
          split: prod.split sum.split option.split)
  next
    case (WebAuthnLogin m c x)
    then show ?thesis
      by (auto simp: LoginByWebAuthn_def dest!: users_untouched_mfa enforce_kept intro: login kept_same kept_trans
          split: prod.split sum.split option.split)
  qed (simp_all add: kept_same trusted_login_mfa refresh_mfa revoke_mfa)
qed

lemma auth_run_kept: "list_all (\<lambda>(_, _, op). \<forall>m. op \<noteq> OnMfa m) ops \<Longrightarrow> factors_kept s (auth_run ac ops s)"
proof (induction ops arbitrary: s)
  case (Cons x ops)
  obtain e rd op where x: "x = (e, rd, op)" by (cases x)
  with Cons.prems have "factors_kept s (auth_step ac x s)"
    by (cases op) (auto simp: session_step_kept user_step_mfa kept_same)
  with Cons show ?case by (auto simp: auth_run_def intro: kept_trans)
qed (simp add: auth_run_def kept_same)

text \<open>A recovery code that let a login through is marked as used in the cached state.\<close>

lemma enforce_recovery:
  assumes "enforceAdminMFA ac e u code s = (None, s')"
    and "findAdminMFAState e (trim_space (lu_ID u)) s = (Inr (Some st), s1)" "mfa_active (Some st)"
    and "\<not> verifyTOTPCode ac (ms_Secret st) (trim_space code) (env_now e)"
  obtains i st' where "i < length (ms_RecoveryCodes st)" "bc_Compare ac (rc_CodeHash (ms_RecoveryCodes st ! i)) (trim_space code)"
    "map_of (au_adminMFA s') (trim_space (lu_ID u)) = Some st'" "spends st st'" "rc_Used (ms_RecoveryCodes st' ! i)"
proof -
  let ?uid = "trim_space (lu_ID u)"
  have "findAdminMFAStateLocked e ?uid s1 = (Inr (Some st), s1)" using assms(2) by (rule find_mfa_again)
  with assms obtain codes where v: "verifyAndConsumeRecoveryCode ac (ms_RecoveryCodes st) (trim_space code) = Some codes"
    and p: "persistAdminMFAStateLocked e (lu_ID u) (st\<lparr>ms_RecoveryCodes := codes, ms_UpdatedAt := env_now e\<rparr>)
      (s1\<lparr>au_adminMFA := AList.update ?uid (st\<lparr>ms_RecoveryCodes := codes\<rparr>) (au_adminMFA s1)\<rparr>) = (True, s')"
    by (auto simp: enforceAdminMFA_def consume_recovery_def Let_def split: if_splits option.splits prod.splits bool.splits)
  from p have "\<exists>st'. map_of (au_adminMFA s') ?uid = Some st' \<and> ms_RecoveryCodes st' = codes \<and> spends (st\<lparr>ms_RecoveryCodes := codes\<rparr>) st'"
    by (auto simp: persistAdminMFAStateLocked_def Let_def update_conv spends_def list.rel_refl
        split: if_splits option.splits prod.splits bool.splits)
  moreover from v obtain i where "i < length (ms_RecoveryCodes st)" "bc_Compare ac (rc_CodeHash (ms_RecoveryCodes st ! i)) (trim_space code)"
    "codes = (ms_RecoveryCodes st)[i := (ms_RecoveryCodes st ! i)\<lparr>rc_Used := True\<rparr>]" by (rule consume_codes)
  ultimately show thesis using that spends_trans [OF consume_spends [OF v]] by auto
qed

text \<open>C15: A recovery code works once.  After a recovery code has served as second factor, it is refused, through any run of
  sign-in and user operations, provided only one of the user's codes matches it and it is no time-based code at the time.\<close>

theorem recovery_code_once:
  assumes first: "enforceAdminMFA ac e u code s = (None, s')"
    and state: "findAdminMFAState e (trim_space (lu_ID u)) s = (Inr (Some st), s1)" "mfa_active (Some st)"
    and no_totp: "\<And>t sec. trim_space sec = trim_space (ms_Secret st) \<Longrightarrow> \<not> verifyTOTPCode ac sec (trim_space code) t"
    and only: "\<And>i j. i < length (ms_RecoveryCodes st) \<Longrightarrow> j < length (ms_RecoveryCodes st) \<Longrightarrow>
      bc_Compare ac (rc_CodeHash (ms_RecoveryCodes st ! i)) (trim_space code) \<Longrightarrow>
      bc_Compare ac (rc_CodeHash (ms_RecoveryCodes st ! j)) (trim_space code) \<Longrightarrow> i = j"
    and ops: "list_all (\<lambda>(_, _, op). \<forall>m. op \<noteq> OnMfa m) ops"
  shows "fst (enforceAdminMFA ac e2 u code (auth_run ac ops s')) = Some InvalidMFACode"
proof -
  let ?uid = "trim_space (lu_ID u)" and ?s = "auth_run ac ops s'"
  have nt: "\<not> verifyTOTPCode ac (ms_Secret st) (trim_space code) (env_now e)" by (rule no_totp) simp
  obtain i st' where i: "i < length (ms_RecoveryCodes st)" "bc_Compare ac (rc_CodeHash (ms_RecoveryCodes st ! i)) (trim_space code)"
    and st': "map_of (au_adminMFA s') ?uid = Some st'" "spends st st'" "rc_Used (ms_RecoveryCodes st' ! i)"
    using first state nt by (rule enforce_recovery)
  from auth_run_kept [OF ops, of s' ac] st' obtain m where m: "map_of (au_adminMFA ?s) ?uid = Some m" "spends st' m"
    by (auto simp: factors_kept_def)
  have sp: "spends st m" using st'(2) m(2) by (rule spends_trans)
  then have act: "ms_Enabled m" "trim_space (ms_Secret m) \<noteq> ''''" using state(2) by (simp_all add: spends_def mfa_active_def)
  have none: "verifyAndConsumeRecoveryCode ac (ms_RecoveryCodes m) (trim_space code) = None"
  proof (rule ccontr)
    assume "\<not> ?thesis"
    then obtain j where j: "j < length (ms_RecoveryCodes m)" "\<not> rc_Used (ms_RecoveryCodes m ! j)"
      "bc_Compare ac (rc_CodeHash (ms_RecoveryCodes m ! j)) (trim_space code)" by (blast elim: consume_codes)
    with sp have "j < length (ms_RecoveryCodes st)" "rc_CodeHash (ms_RecoveryCodes m ! j) = rc_CodeHash (ms_RecoveryCodes st ! j)"
      by (auto simp: spends_def list_all2_conv_all_nth)
    with only i j have "i = j" by simp
    with j st'(2,3) m(2) show False by (auto simp: spends_def list_all2_conv_all_nth)
  qed
  have "?uid \<noteq> '''' \<and> trim_space code \<noteq> ''''"
    using first state
    by (auto simp: enforceAdminMFA_def findAdminMFAState_def findAdminMFAStateLocked_def split: if_splits)
  with none m(1) act show ?thesis
    using no_totp [of "ms_Secret m" "env_now e2"] sp
    by (simp add: enforceAdminMFA_def findAdminMFAState_def findAdminMFAStateLocked_def consume_recovery_def mfa_active_def spends_def)
qed

definition demo_mfa :: adminMFAState where
  "demo_mfa = no_mfa\<lparr>ms_Secret := ''JBSWY3DP'', ms_Enabled := True, ms_RecoveryCodes := [\<lparr>rc_CodeHash = ''c0de'', rc_Used = False\<rparr>]\<rparr>"

theorem recovery_code_once_witness:
  "fst (enforceAdminMFA login_crypto (login_env 10) demo_user ''c0de'' (demo_auth\<lparr>au_adminMFA := [(''u1'', demo_mfa)]\<rparr>)) = None \<and>
   fst (enforceAdminMFA login_crypto (login_env 30) demo_user ''c0de''
     (auth_run login_crypto [(login_env 20, demo_reads, OnSession (TokenRefresh ''r1''))]
       (snd (enforceAdminMFA login_crypto (login_env 10) demo_user ''c0de'' (demo_auth\<lparr>au_adminMFA := [(''u1'', demo_mfa)]\<rparr>)))))
     = Some InvalidMFACode"
proof -
  let ?s = "demo_auth\<lparr>au_adminMFA := [(''u1'', demo_mfa)]\<rparr>"
  have tr: "trim_space ''c0de'' = ''c0de''" "trim_space ''u1'' = ''u1''" "trim_space ''JBSWY3DP'' = ''JBSWY3DP''" by code_simp+
  have nt: "\<not> verifyTOTPCode ac sec ''c0de'' t" for ac sec t by (simp add: verifyTOTPCode_def tr)
  have st: "findAdminMFAState (login_env 10) (trim_space (lu_ID demo_user)) ?s = (Inr (Some demo_mfa), ?s)"
    by (simp add: findAdminMFAState_def findAdminMFAStateLocked_def demo_user_def tr)
  have act: "mfa_active (Some demo_mfa)" by (simp add: mfa_active_def demo_mfa_def tr)
  have ok: "fst (enforceAdminMFA login_crypto (login_env 10) demo_user ''c0de'' ?s) = None" by code_simp
  then obtain s' where f: "enforceAdminMFA login_crypto (login_env 10) demo_user ''c0de'' ?s = (None, s')" by (metis prod.collapse)
  have "fst (enforceAdminMFA login_crypto (login_env 30) demo_user ''c0de''
     (auth_run login_crypto [(login_env 20, demo_reads, OnSession (TokenRefresh ''r1''))] s')) = Some InvalidMFACode"
    by (rule recovery_code_once [OF f st act]) (simp_all add: tr nt demo_mfa_def)
  with ok f show ?thesis by simp
qed

section \<open>What the code leaves open\<close>

text \<open>
  Switching password login off for a user with a password reports success and has no effect: caching the user switches it on again.
\<close>

lemma password_auth_not_disabled:
  "(case UpdateUserPasswordAuth (login_env 10) ''u1'' False demo_auth of
      (Inl _, _) \<Rightarrow> False
    | (Inr u, s) \<Rightarrow> \<not> lu_PasswordAuthEnabled u \<and>
        \<not> isl (fst (Login login_crypto (login_env 20) demo_reads ''a@b'' ''Passw0rd'' '''' None s)))"
  by (simp add: Login_def UpdateUserPasswordAuth_def demo_eval)

text \<open>
  Starting an enrolment reads the cache only.  When an enabled second factor is in the tables and not yet in the cache, as after
  a restart, it is overwritten, and a login needs no code any more.
\<close>

definition demo_restarted :: authService where
  "demo_restarted = demo_auth\<lparr>au_persistence := Some
     \<lparr>db_users = [\<lparr>ur_User = demo_user, ur_PasswordHash = ''Passw0rd''\<rparr>], db_sessions = [], db_revoked = [],
      db_mfa = [(''u1'', demo_mfa)]\<rparr>\<rparr>"

lemma enrolment_erases_factor:
  "fst (Login login_crypto (login_env 10) demo_reads ''a@b'' ''Passw0rd'' '''' None demo_restarted) = Inl AdminMFARequired \<and>
   (case StartUserMFAEnrollment (login_env 10) demo_reads ''u1'' demo_restarted of
      (Inl _, _) \<Rightarrow> False
    | (Inr _, s) \<Rightarrow> \<not> isl (fst (Login login_crypto (login_env 20) demo_reads ''a@b'' ''Passw0rd'' '''' None s)))"
  by (simp add: Login_def StartUserMFAEnrollment_def start_enrollment_def mfa_user_def demo_restarted_def demo_mfa_def
      FindAuthAdminMFAState_def adminMFAStateFromPersistence_def adminMFAStateForPersistence_def decrypt_or_keep_def
      persistAdminMFAStateLocked_def encrypt_secret_def UpsertAuthAdminMFAState_def UpsertAuthRefreshSession_def demo_eval)

text \<open>A password reset leaves the sessions and tokens that were open before it.\<close>

lemma reset_keeps_sessions:
  assumes "ConfirmPasswordReset ac e rd tok pw s = (r, s')"
  shows "au_refreshSessions s' = au_refreshSessions s \<and> au_revokedAccess s' = au_revokedAccess s"
  using assms
  by (auto simp: ConfirmPasswordReset_def Let_def tok_view_def dest!: user_find_view persist_user_view
      split: if_splits option.splits prod.splits sum.splits bool.splits)

end
