(* ===== verification/Secret_Vault.thy ===== *)
theory Secret_Vault
  imports MP_Prelude Go_Strings Go_Time Go_Bytes
begin

text \<open>
  \<open>internal/crypto/vault.go\<close>: encryption of secrets at rest with versioned keys.  HKDF and AES-GCM are
  parameters.  The Go map of keys is an association list whose order stands for the order in which the
  fallback visits the keys.  \<open>gcm.Open\<close> panics on a nonce that is not twelve bytes long, which is an outcome of
  its own.  Properties: what was encrypted is read back, also after any number of rotations that keep the
  old keys, and re-encrypting settles a value on the current key.
\<close>

section \<open>Data\<close>

record vaultKey =
  vk_version :: int
  vk_key :: "byte list"

record vault =
  vt_current :: vaultKey
  vt_keys :: "(int \<times> vaultKey) list"

record gcm =
  gcm_Seal :: "byte list \<Rightarrow> byte list \<Rightarrow> byte list \<Rightarrow> byte list"
  gcm_Open :: "byte list \<Rightarrow> byte list \<Rightarrow> byte list \<Rightarrow> byte list option"

datatype vault_error = VaultNotConfigured | VaultRandFailed | VaultDecryptFailed | VaultBadFormat | VaultPanic

type_synonym kdf = "string \<Rightarrow> string \<Rightarrow> byte list"

definition NewVault :: "kdf \<Rightarrow> string \<Rightarrow> string \<Rightarrow> vault option" where
  "NewVault kdf masterKey purpose =
     (let master = trim_space masterKey; k = \<lparr>vk_version = 1, vk_key = kdf master purpose\<rparr> in
      if master = '''' then None else Some \<lparr>vt_current = k, vt_keys = [(1, k)]\<rparr>)"

fun previous_keys :: "kdf \<Rightarrow> string \<Rightarrow> int \<Rightarrow> string list \<Rightarrow> (int \<times> vaultKey) list" where
  "previous_keys kdf purpose ver [] = []"
| "previous_keys kdf purpose ver (prev # rest) =
     (let p = trim_space prev; more = previous_keys kdf purpose (ver + 1) rest in
      if p = '''' then more else (ver, \<lparr>vk_version = ver, vk_key = kdf p purpose\<rparr>) # more)"

definition NewVaultWithRotation :: "kdf \<Rightarrow> string \<Rightarrow> string \<Rightarrow> string list \<Rightarrow> vault option" where
  "NewVaultWithRotation kdf currentMasterKey purpose previousMasterKeys =
     (let current = trim_space currentMasterKey; version = int (length previousMasterKeys) + 1;
          k = \<lparr>vk_version = version, vk_key = kdf current purpose\<rparr> in
      if current = '''' then None
      else Some \<lparr>vt_current = k, vt_keys = (version, k) # previous_keys kdf purpose 1 previousMasterKeys\<rparr>)"

section \<open>One key\<close>

definition encryptWithKey :: "gcm \<Rightarrow> byte list option \<Rightarrow> vaultKey \<Rightarrow> string \<Rightarrow> (string \<times> string) option" where
  "encryptWithKey g rand k plaintext =
     (case rand of
        None \<Rightarrow> None
      | Some nonce \<Rightarrow> Some (b64_encode nonce, b64_encode (gcm_Seal g (vk_key k) nonce (bytes_of plaintext))))"

definition decryptWithKey :: "gcm \<Rightarrow> vaultKey \<Rightarrow> string \<Rightarrow> string \<Rightarrow> (vault_error, string) result" where
  "decryptWithKey g k nonce ciphertext =
     (case (b64_decode (trim_space nonce), b64_decode (trim_space ciphertext)) of
        (Some n, Some c) \<Rightarrow>
          if length n \<noteq> 12 then Inl VaultPanic
          else (case gcm_Open g (vk_key k) n c of None \<Rightarrow> Inl VaultDecryptFailed | Some p \<Rightarrow> Inr (string_of p))
      | _ \<Rightarrow> Inl VaultDecryptFailed)"

section \<open>The vault\<close>

definition Encrypt :: "gcm \<Rightarrow> byte list option \<Rightarrow> vault option \<Rightarrow> string \<Rightarrow> (vault_error, string \<times> string) result" where
  "Encrypt g rand v plaintext =
     (case v of
        None \<Rightarrow> Inl VaultNotConfigured
      | Some x \<Rightarrow> (case encryptWithKey g rand (vt_current x) plaintext of None \<Rightarrow> Inl VaultRandFailed | Some r \<Rightarrow> Inr r))"

fun try_vault_keys :: "gcm \<Rightarrow> string \<Rightarrow> string \<Rightarrow> vaultKey list \<Rightarrow> (vault_error, string) result" where
  "try_vault_keys g nonce ciphertext [] = Inl VaultDecryptFailed"
| "try_vault_keys g nonce ciphertext (k # ks) =
     (case decryptWithKey g k nonce ciphertext of
        Inr p \<Rightarrow> Inr p
      | Inl VaultPanic \<Rightarrow> Inl VaultPanic
      | Inl _ \<Rightarrow> try_vault_keys g nonce ciphertext ks)"

definition Decrypt_vault :: "gcm \<Rightarrow> vault option \<Rightarrow> string \<Rightarrow> string \<Rightarrow> (vault_error, string) result" where
  "Decrypt_vault g v nonce ciphertext =
     (case v of
        None \<Rightarrow> Inl VaultNotConfigured
      | Some x \<Rightarrow>
          try_vault_keys g nonce ciphertext
            (vt_current x # map snd (filter (\<lambda>(ver, _). ver \<noteq> vk_version (vt_current x)) (vt_keys x))))"

definition EncryptVersioned :: "gcm \<Rightarrow> byte list option \<Rightarrow> vault option \<Rightarrow> string \<Rightarrow> (vault_error, string) result" where
  "EncryptVersioned g rand v plaintext =
     (case v of
        None \<Rightarrow> Inl VaultNotConfigured
      | Some x \<Rightarrow>
          (case encryptWithKey g rand (vt_current x) plaintext of
             None \<Rightarrow> Inl VaultRandFailed
           | Some (nonce, ct) \<Rightarrow> Inr (''enc:v'' @ show_int (vk_version (vt_current x)) @ '':'' @ nonce @ '':'' @ ct)))"

text \<open>\<open>strings.SplitN(s, ":", 3)\<close> and \<open>strconv.Atoi\<close>.\<close>

definition split3 :: "string \<Rightarrow> string list" where
  "split3 x =
     (case split_first CHR '':'' x of
        None \<Rightarrow> [x]
      | Some (a, y) \<Rightarrow> (case split_first CHR '':'' y of None \<Rightarrow> [a, y] | Some (b, c) \<Rightarrow> [a, b, c]))"

fun digits_value :: "int \<Rightarrow> string \<Rightarrow> int" where
  "digits_value n [] = n"
| "digits_value n (c # cs) = digits_value (n * 10 + digit_val c) cs"

definition atoi :: "string \<Rightarrow> int option" where
  "atoi x =
     (let neg = (take 1 x = ''-''); body = (if take 1 x = ''-'' \<or> take 1 x = ''+'' then drop 1 x else x);
          n = (if neg then - digits_value 0 body else digits_value 0 body) in
      if body = '''' \<or> \<not> list_all is_digit body then None
      else if - (2 ^ 63) \<le> n \<and> n < 2 ^ 63 then Some n else None)"

definition tagged_version :: "string list \<Rightarrow> int option" where
  "tagged_version parts = (case parts of [tag, _, _] \<Rightarrow> if take 1 tag = ''v'' then atoi (drop 1 tag) else None | _ \<Rightarrow> None)"

definition DecryptVersioned :: "gcm \<Rightarrow> vault option \<Rightarrow> string \<Rightarrow> (vault_error, string) result" where
  "DecryptVersioned g v value =
     (case v of
        None \<Rightarrow> Inl VaultNotConfigured
      | Some x \<Rightarrow>
          let trimmed = trim_space value in
          if trimmed = '''' then Inr ''''
          else if take 4 trimmed \<noteq> ''enc:'' then Inr trimmed
          else
            (case split3 (drop 4 trimmed) of
               [tag, nonce, ct] \<Rightarrow>
                 if take 1 tag = ''v'' then
                   (case tagged_version [tag, nonce, ct] of
                      None \<Rightarrow> Decrypt_vault g v nonce ct
                    | Some ver \<Rightarrow>
                        (case map_of (vt_keys x) ver of
                           None \<Rightarrow> Decrypt_vault g v nonce ct
                         | Some k \<Rightarrow>
                             (case decryptWithKey g k nonce ct of
                                Inr p \<Rightarrow> Inr p
                              | Inl VaultPanic \<Rightarrow> Inl VaultPanic
                              | Inl _ \<Rightarrow> Decrypt_vault g v nonce ct)))
                 else Inl VaultBadFormat
             | [nonce, ct] \<Rightarrow> Decrypt_vault g v nonce ct
             | _ \<Rightarrow> Inl VaultBadFormat))"

definition NeedsReEncrypt :: "vault option \<Rightarrow> string \<Rightarrow> bool" where
  "NeedsReEncrypt v value =
     (case v of
        None \<Rightarrow> False
      | Some x \<Rightarrow>
          let trimmed = trim_space value in
          if trimmed = '''' then False
          else if take 4 trimmed \<noteq> ''enc:'' then True
          else tagged_version (split3 (drop 4 trimmed)) \<noteq> Some (vk_version (vt_current x)))"

definition ReEncrypt :: "gcm \<Rightarrow> byte list option \<Rightarrow> vault option \<Rightarrow> string \<Rightarrow> (vault_error, string) result" where
  "ReEncrypt g rand v value =
     (case v of
        None \<Rightarrow> Inl VaultNotConfigured
      | Some _ \<Rightarrow>
          (case DecryptVersioned g v value of
             Inl err \<Rightarrow> Inl err
           | Inr plaintext \<Rightarrow> if plaintext = '''' then Inr '''' else EncryptVersioned g rand v plaintext))"

definition CurrentVersion :: "vault option \<Rightarrow> int" where
  "CurrentVersion v = (case v of None \<Rightarrow> 0 | Some x \<Rightarrow> vk_version (vt_current x))"

definition KeyVersionCount :: "vault option \<Rightarrow> nat" where
  "KeyVersionCount v = (case v of None \<Rightarrow> 0 | Some x \<Rightarrow> length (vt_keys x))"

definition IsConfigured :: "vault option \<Rightarrow> bool" where
  "IsConfigured v \<longleftrightarrow> (case v of None \<Rightarrow> False | Some x \<Rightarrow> vt_keys x \<noteq> [])"

section \<open>Version tags\<close>

lemma show_nat_digits: "list_all is_digit (show_nat n) \<and> show_nat n \<noteq> []"
proof (induction n rule: show_nat.induct)
  case (1 n)
  then show ?case
    by (cases "n < 10") (simp_all add: show_nat.simps [of n] digit_char_digit)
qed

lemma digits_value_append: "digits_value m (x @ [c]) = digits_value m x * 10 + digit_val c"
  by (induction x arbitrary: m) simp_all

lemma digits_value_show: "digits_value 0 (show_nat n) = int n"
proof (induction n rule: show_nat.induct)
  case (1 n)
  have d: "digit_val (digit_char (int n)) = int (n mod 10)" by (simp add: digit_char_val zmod_int)
  show ?case
  proof (cases "n < 10")
    case True
    then show ?thesis using d by (simp add: show_nat.simps [of n])
  next
    case False
    then have "digits_value 0 (show_nat (n div 10)) = int (n div 10)" by (rule 1)
    with False d show ?thesis by (simp add: show_nat.simps [of n] digits_value_append zmod_int zdiv_int)
  qed
qed

lemma atoi_show: "0 \<le> v \<Longrightarrow> v < 2 ^ 63 \<Longrightarrow> atoi (show_int v) = Some v"
proof -
  assume v: "0 \<le> v" "v < 2 ^ 63"
  let ?x = "show_nat (nat v)"
  have d: "list_all is_digit ?x" "?x \<noteq> []" using show_nat_digits by blast+
  then have "take 1 ?x \<noteq> ''-''" "take 1 ?x \<noteq> ''+''" by (cases ?x; auto simp: is_digit_def)+
  with d v show ?thesis by (simp add: atoi_def show_int_def digits_value_show Let_def)
qed

lemma split_first_at: "c \<notin> set a \<Longrightarrow> split_first c (a @ c # b) = Some (a, b)"
  by (induction a) auto

lemma split_first_absent: "c \<notin> set a \<Longrightarrow> split_first c a = None"
  by (induction a) auto

text \<open>A stored value: tag, nonce and sealed text.\<close>

definition tagged :: "int \<Rightarrow> string \<Rightarrow> string \<Rightarrow> string" where
  "tagged v nonce ct = ''enc:v'' @ show_int v @ '':'' @ nonce @ '':'' @ ct"

lemma show_int_text: "0 \<le> v \<Longrightarrow> c \<in> set (show_int v) \<Longrightarrow> is_digit c"
  using show_nat_digits [of "nat v"] by (auto simp: show_int_def list_all_iff)

lemma tagged_parts:
  assumes "0 \<le> v" "v < 2 ^ 63"
  shows "trim_space (tagged v (b64_encode n) (b64_encode c)) = tagged v (b64_encode n) (b64_encode c)"
    and "take 4 (tagged v (b64_encode n) (b64_encode c)) = ''enc:''"
    and "split3 (drop 4 (tagged v (b64_encode n) (b64_encode c))) = [CHR ''v'' # show_int v, b64_encode n, b64_encode c]"
    and "tagged_version (split3 (drop 4 (tagged v (b64_encode n) (b64_encode c)))) = Some v"
proof -
  have "plain_char (last (tagged v (b64_encode n) (b64_encode c)))"
    using b64_encode_chars [of _ c] by (cases "b64_encode c = []") (auto simp: tagged_def plain_char_def)
  then show "trim_space (tagged v (b64_encode n) (b64_encode c)) = tagged v (b64_encode n) (b64_encode c)"
    by (intro trim_space_plain) (simp_all add: tagged_def plain_char_def)
  show "take 4 (tagged v (b64_encode n) (b64_encode c)) = ''enc:''" by (simp add: tagged_def)
  have "CHR '':'' \<notin> set (CHR ''v'' # show_int v)" using show_int_text [OF assms(1), of "CHR '':''"] by (auto simp: is_digit_def)
  moreover have "CHR '':'' \<notin> set (b64_encode n)" using b64_encode_chars by blast
  moreover have "drop 4 (tagged v (b64_encode n) (b64_encode c)) = (CHR ''v'' # show_int v) @ CHR '':'' # b64_encode n @ CHR '':'' # b64_encode c"
    by (simp add: tagged_def)
  ultimately show parts: "split3 (drop 4 (tagged v (b64_encode n) (b64_encode c))) = [CHR ''v'' # show_int v, b64_encode n, b64_encode c]"
    by (simp only: split3_def split_first_at option.case prod.case not_False_eq_True)
  show "tagged_version (split3 (drop 4 (tagged v (b64_encode n) (b64_encode c)))) = Some v"
    using assms by (simp add: parts tagged_version_def atoi_show)
qed

lemma b64_trim: "trim_space (b64_encode bs) = b64_encode bs"
proof (cases "b64_encode bs = []")
  case False
  then show ?thesis using b64_encode_chars [of _ bs] by (intro trim_space_plain) auto
qed simp

section \<open>Rotation\<close>

lemma decrypt_tagged:
  assumes "0 \<le> ver" "ver < 2 ^ 63" and "map_of (vt_keys v) ver = Some k" and "length nonce = 12"
    and "gcm_Open g (vk_key k) nonce (gcm_Seal g (vk_key k) nonce (bytes_of x)) = Some (bytes_of x)"
  shows "DecryptVersioned g (Some v) (tagged ver (b64_encode nonce) (b64_encode (gcm_Seal g (vk_key k) nonce (bytes_of x)))) = Inr x"
proof -
  let ?c = "gcm_Seal g (vk_key k) nonce (bytes_of x)"
  have "decryptWithKey g k (b64_encode nonce) (b64_encode ?c) = Inr x"
    using assms(4,5) by (simp add: decryptWithKey_def b64_trim string_of_bytes_of)
  moreover have "tagged ver (b64_encode nonce) (b64_encode ?c) \<noteq> []" by (simp add: tagged_def)
  ultimately show ?thesis
    using tagged_parts [OF assms(1,2), of nonce ?c] assms(3) by (simp add: DecryptVersioned_def Let_def)
qed

lemma needs_tagged:
  "0 \<le> ver \<Longrightarrow> ver < 2 ^ 63 \<Longrightarrow>
   NeedsReEncrypt (Some v) (tagged ver (b64_encode n) (b64_encode c)) \<longleftrightarrow> ver \<noteq> vk_version (vt_current v)"
  using tagged_parts [of ver n c] by (simp add: NeedsReEncrypt_def Let_def) (simp add: tagged_def)

lemma previous_lookup:
  "map_of (previous_keys kdf p ver ks) w =
     (if ver \<le> w \<and> w < ver + int (length ks) \<and> trim_space (ks ! nat (w - ver)) \<noteq> []
      then Some \<lparr>vk_version = w, vk_key = kdf (trim_space (ks ! nat (w - ver))) p\<rparr> else None)"
proof (induction ks arbitrary: ver)
  case (Cons a ks)
  have "nat (w - ver) = Suc (nat (w - (ver + 1)))" if "ver < w" using that by linarith
  with Cons show ?case by (auto simp: Let_def)
qed simp

lemma rotation_keys:
  assumes "NewVaultWithRotation kdf cur p prev = Some v"
  shows "vt_current v = \<lparr>vk_version = int (length prev) + 1, vk_key = kdf (trim_space cur) p\<rparr>"
    and "map_of (vt_keys v) (int (length prev) + 1) = Some (vt_current v)"
    and "i < length prev \<Longrightarrow> trim_space (prev ! i) \<noteq> [] \<Longrightarrow>
      map_of (vt_keys v) (int i + 1) = Some \<lparr>vk_version = int i + 1, vk_key = kdf (trim_space (prev ! i)) p\<rparr>"
  using assms by (auto simp: NewVaultWithRotation_def Let_def previous_lookup split: if_splits)

lemma encrypt_tagged:
  assumes "NewVaultWithRotation kdf cur p prev = Some v"
  shows "EncryptVersioned g (Some nonce) (Some v) x =
    Inr (tagged (int (length prev) + 1) (b64_encode nonce) (b64_encode (gcm_Seal g (kdf (trim_space cur) p) nonce (bytes_of x))))"
  by (simp add: EncryptVersioned_def encryptWithKey_def rotation_keys(1) [OF assms] tagged_def)

text \<open>C23: Rotating the master key keeps every secret readable.  What a vault encrypted is read back by it, and by every later
  vault that lists its master key among the previous ones in its old place, however many rotations follow; the later vault asks
  for it to be re-encrypted, and what re-encrypting gives is read back too and is settled.  Assumed of AES-GCM is that opening undoes
  sealing.\<close>

theorem vault_rotation_keeps_secrets:
  assumes gcm: "\<And>k n m. gcm_Open g k n (gcm_Seal g k n m) = Some m"
    and old: "NewVaultWithRotation kdf cur p prev = Some v" and new: "NewVaultWithRotation kdf next p (prev @ cur # later) = Some w"
    and nonce: "length nonce = 12" "length nonce' = 12" and size: "int (length (prev @ cur # later)) < 2 ^ 63 - 1"
    and val: "EncryptVersioned g (Some nonce) (Some v) x = Inr val"
  shows "DecryptVersioned g (Some v) val = Inr x \<and> DecryptVersioned g (Some w) val = Inr x \<and> NeedsReEncrypt (Some w) val \<and>
    (x \<noteq> [] \<longrightarrow> (\<exists>val'. ReEncrypt g (Some nonce') (Some w) val = Inr val' \<and> DecryptVersioned g (Some w) val' = Inr x \<and>
      \<not> NeedsReEncrypt (Some w) val'))"
proof -
  have tr: "trim_space cur \<noteq> []" using old by (auto simp: NewVaultWithRotation_def Let_def split: if_splits)
  have val': "val = tagged (int (length prev) + 1) (b64_encode nonce) (b64_encode (gcm_Seal g (kdf (trim_space cur) p) nonce (bytes_of x)))"
    using val encrypt_tagged [OF old] by simp
  have range: "int (length prev) + 1 < 2 ^ 63" "int (length (prev @ cur # later)) + 1 < 2 ^ 63" using size by simp_all
  have d1: "DecryptVersioned g (Some v) val = Inr x"
    unfolding val' using range(1) rotation_keys [OF old] nonce gcm by (intro decrypt_tagged [where k = "\<lparr>vk_version = int (length prev) + 1, vk_key = kdf (trim_space cur) p\<rparr>", simplified]) simp_all
  have "map_of (vt_keys w) (int (length prev) + 1) = Some \<lparr>vk_version = int (length prev) + 1, vk_key = kdf (trim_space cur) p\<rparr>"
    using rotation_keys(3) [OF new, of "length prev"] tr by simp
  from decrypt_tagged [OF _ range(1) this nonce(1)] gcm have d2: "DecryptVersioned g (Some w) val = Inr x" by (simp add: val')
  have n: "NeedsReEncrypt (Some w) val"
    using needs_tagged [OF _ range(1)] rotation_keys(1) [OF new] by (simp add: val')
  let ?u = "tagged (int (length (prev @ cur # later)) + 1) (b64_encode nonce')
    (b64_encode (gcm_Seal g (kdf (trim_space next) p) nonce' (bytes_of x)))"
  have "ReEncrypt g (Some nonce') (Some w) val = Inr ?u" if "x \<noteq> []"
    using that d2 encrypt_tagged [OF new, of g nonce' x] by (simp add: ReEncrypt_def)
  moreover have "DecryptVersioned g (Some w) ?u = Inr x"
    using decrypt_tagged [OF _ range(2) rotation_keys(2) [OF new] nonce(2)] gcm rotation_keys(1) [OF new] by simp
  moreover have "\<not> NeedsReEncrypt (Some w) ?u"
    using needs_tagged [OF _ range(2)] rotation_keys(1) [OF new] by simp
  ultimately show ?thesis using d1 d2 n by blast
qed

definition demo_gcm :: gcm where
  "demo_gcm = \<lparr>gcm_Seal = (\<lambda>k n m. m), gcm_Open = (\<lambda>k n c. Some c)\<rparr>"

theorem vault_rotation_keeps_secrets_witness:
  "\<exists>v w val. NewVaultWithRotation (\<lambda>m p. bytes_of m) ''k1'' ''mfa'' [] = Some v \<and>
     NewVaultWithRotation (\<lambda>m p. bytes_of m) ''k2'' ''mfa'' [''k1''] = Some w \<and>
     EncryptVersioned demo_gcm (Some (replicate 12 0)) (Some v) ''secret'' = Inr val \<and> DecryptVersioned demo_gcm (Some w) val = Inr ''secret''"
proof -
  have tr: "trim_space ''k1'' = ''k1''" "trim_space ''k2'' = ''k2''" by code_simp+
  then obtain v w where vw: "NewVaultWithRotation (\<lambda>m p. bytes_of m) ''k1'' ''mfa'' [] = Some v"
    "NewVaultWithRotation (\<lambda>m p. bytes_of m) ''k2'' ''mfa'' ([] @ ''k1'' # []) = Some w" by (simp add: NewVaultWithRotation_def Let_def)
  have gcm: "gcm_Open demo_gcm k n (gcm_Seal demo_gcm k n m) = Some m" for k n m by (simp add: demo_gcm_def)
  have len: "length (replicate 12 (0 :: byte)) = 12" "int (length ([] @ ''k1'' # [])) < 2 ^ 63 - 1" by simp_all
  note enc = encrypt_tagged [OF vw(1), of demo_gcm "replicate 12 0" "''secret''"]
  from vault_rotation_keeps_secrets [OF gcm vw len(1) len(1) len(2) enc] vw enc show ?thesis by auto
qed

section \<open>What the code leaves open\<close>

text \<open>
  Versions are positions in the list of master keys.  Dropping the oldest key shifts them: a value encrypted under the former
  current key keeps a tag that now names the new current key, and is reported as up to date.
\<close>

lemma dropped_key_hides_old_values:
  assumes "NewVaultWithRotation kdf cur p prev = Some v" and "NewVaultWithRotation kdf next p (tl prev @ [cur]) = Some w"
    and "prev \<noteq> []" and "int (length prev) < 2 ^ 63 - 1" and "EncryptVersioned g (Some nonce) (Some v) x = Inr val"
  shows "\<not> NeedsReEncrypt (Some w) val"
proof -
  have "val = tagged (int (length prev) + 1) (b64_encode nonce) (b64_encode (gcm_Seal g (kdf (trim_space cur) p) nonce (bytes_of x)))"
    using assms(5) encrypt_tagged [OF assms(1)] by simp
  moreover have "vk_version (vt_current w) = int (length prev) + 1"
    using rotation_keys(1) [OF assms(2)] assms(3) by (cases prev) simp_all
  ultimately show ?thesis using needs_tagged [of "int (length prev) + 1"] assms(4) by simp
qed

text \<open>A stored value with a nonce of the wrong size stops the process: \<open>enc:AAAA:AAAA\<close> decodes to three bytes.\<close>

lemma short_nonce_panics:
  assumes "NewVault kdf key p = Some v"
  shows "DecryptVersioned g (Some v) ''enc:AAAA:AAAA'' = Inl VaultPanic"
proof -
  have "trim_space ''enc:AAAA:AAAA'' = ''enc:AAAA:AAAA''" "split3 ''AAAA:AAAA'' = [''AAAA'', ''AAAA'']"
    "map_option length (b64_decode (trim_space ''AAAA'')) = Some 3" by code_simp+
  then show ?thesis
    by (auto simp: DecryptVersioned_def Decrypt_vault_def decryptWithKey_def Let_def)
qed

end
