(* ===== verification/Auth_Vault.thy ===== *)
theory Auth_Vault
  imports Auth_Mfa Secret_Vault
begin

text \<open>
  The secrets of second factors at rest: the authentication service relies on the vault through an interface, stated
  here as a locale and met by \<open>internal/crypto/vault.go\<close>.
\<close>

section \<open>The interface\<close>

text \<open>The writing and the reading vault may differ, as after a rotation.\<close>

locale vault_pair =
  fixes writing reading :: secretVault
  assumes configured: "sv_IsConfigured writing" "sv_IsConfigured reading"
    and encrypts: "x \<noteq> [] \<Longrightarrow> \<exists>y. sv_EncryptVersioned writing x = Some y"
    and reads_back: "sv_EncryptVersioned writing x = Some y \<Longrightarrow> sv_DecryptVersioned reading y = Some x"
    and trimmed: "sv_EncryptVersioned writing x = Some y \<Longrightarrow> trim_space y = y"
    and reads_empty: "sv_DecryptVersioned reading [] = Some []"
begin

lemma at_rest:
  assumes "au_secretVault s = Some writing" and "encrypt_secret s x = Some y" and "trim_space x = x"
  shows "trim_space y = y" and "au_secretVault s' = Some reading \<Longrightarrow> decrypt_or_keep s' y = x"
    and "x \<noteq> [] \<Longrightarrow> sv_EncryptVersioned writing x = Some y"
  using assms configured trimmed reads_back reads_empty
  by (auto simp: encrypt_secret_def decrypt_or_keep_def split: if_splits)

text \<open>A state that was saved is found again by an instance that shares only the tables.\<close>

lemma persisted_state_found:
  assumes saved: "persistAdminMFAStateLocked e uid st s = (True, s')" and db: "au_persistence s = Some db"
    and vault: "au_secretVault s = Some writing" and fresh: "au_persistence f = au_persistence s'" "au_adminMFA f = []"
      "au_secretVault f = Some reading" and up: "env_save_ok e2"
  shows "fst (findAdminMFAStateLocked e2 uid f) = Inr (Some (st\<lparr>ms_Secret := trim_space (ms_Secret st),
    ms_PendingSecret := trim_space (ms_PendingSecret st), ms_RecoveryCodes := []\<rparr>))"
proof -
  let ?x = "trim_space (ms_Secret st)" and ?p = "trim_space (ms_PendingSecret st)" and ?u = "trim_space uid"
  from saved db obtain x p where u: "?u \<noteq> []" and e: "encrypt_secret s ?x = Some x" "encrypt_secret s ?p = Some p"
    and s': "au_persistence s' = Some (db\<lparr>db_mfa := AList.update ?u
      (st\<lparr>ms_Secret := trim_space x, ms_PendingSecret := trim_space p, ms_RecoveryCodes := []\<rparr>) (db_mfa db)\<rparr>)"
    by (auto simp: persistAdminMFAStateLocked_def UpsertAuthAdminMFAState_def adminMFAStateForPersistence_def Let_def
        split: if_splits option.splits prod.splits bool.splits)
  have "trim_space x = x" "trim_space p = p" "decrypt_or_keep f x = ?x" "decrypt_or_keep f p = ?p"
    using at_rest(1,2) [OF vault e(1)] at_rest(1,2) [OF vault e(2)] fresh(3) by simp_all
  then show ?thesis
    using u s' fresh up
    by (simp add: findAdminMFAStateLocked_def FindAuthAdminMFAState_def adminMFAStateFromPersistence_def update_conv Let_def)
qed

end

section \<open>The vault of the repository\<close>

definition vault_view :: "gcm \<Rightarrow> byte list option \<Rightarrow> vault option \<Rightarrow> secretVault" where
  "vault_view g rand v =
     \<lparr>sv_IsConfigured = IsConfigured v,
      sv_EncryptVersioned = (\<lambda>x. case EncryptVersioned g rand v x of Inl _ \<Rightarrow> None | Inr y \<Rightarrow> Some y),
      sv_DecryptVersioned = (\<lambda>x. case DecryptVersioned g v x of Inl _ \<Rightarrow> None | Inr y \<Rightarrow> Some y),
      sv_NeedsReEncrypt = NeedsReEncrypt v\<rparr>"

definition succeeds :: "kdf \<Rightarrow> string \<Rightarrow> string \<Rightarrow> string list \<Rightarrow> vault \<Rightarrow> vault \<Rightarrow> bool" where
  "succeeds kdf cur p prev v w \<longleftrightarrow> NewVaultWithRotation kdf cur p prev = Some v \<and> int (length prev) < 2 ^ 62 \<and>
     (w = v \<or> (\<exists>next later. NewVaultWithRotation kdf next p (prev @ cur # later) = Some w \<and> int (length later) < 2 ^ 62))"

lemma rotation_configured: "NewVaultWithRotation kdf cur p prev = Some v \<Longrightarrow> IsConfigured (Some v)"
  by (auto simp: NewVaultWithRotation_def IsConfigured_def Let_def split: if_splits)

lemma succeeding_key:
  assumes "succeeds kdf cur p prev v w"
  shows "map_of (vt_keys w) (int (length prev) + 1) = Some \<lparr>vk_version = int (length prev) + 1, vk_key = kdf (trim_space cur) p\<rparr>"
proof (cases "w = v")
  case True
  with assms show ?thesis using rotation_keys(1,2) by (simp add: succeeds_def)
next
  case False
  with assms obtain nxt later where "NewVaultWithRotation kdf nxt p (prev @ cur # later) = Some w" by (auto simp: succeeds_def)
  moreover have "trim_space cur \<noteq> []" using assms by (auto simp: succeeds_def NewVaultWithRotation_def Let_def split: if_splits)
  ultimately show ?thesis using rotation_keys(3) [of kdf nxt p "prev @ cur # later" w "length prev"] by simp
qed

text \<open>The vaults before and after any number of rotations, over a sealing that can be opened.\<close>

locale rotated_vault =
  fixes g :: gcm and kdf :: kdf and cur p :: string and prev :: "string list" and v w :: vault and nonce :: "byte list"
    and rand :: "byte list option"
  assumes assms: "succeeds kdf cur p prev v w" "length nonce = 12" "\<And>k n m. gcm_Open g k n (gcm_Seal g k n m) = Some m"

sublocale rotated_vault \<subseteq> vault_pair "vault_view g (Some nonce) (Some v)" "vault_view g rand (Some w)"
proof
  have v: "NewVaultWithRotation kdf cur p prev = Some v" and r: "int (length prev) + 1 < 2 ^ 63" using assms(1) by (auto simp: succeeds_def)
  note enc = encrypt_tagged [OF v, of g nonce]
  show "sv_IsConfigured (vault_view g (Some nonce) (Some v))" "sv_IsConfigured (vault_view g rand (Some w))"
    using rotation_configured v assms(1) by (auto simp: vault_view_def succeeds_def)
  show "\<exists>y. sv_EncryptVersioned (vault_view g (Some nonce) (Some v)) x = Some y" for x by (simp add: vault_view_def enc)
  show "sv_DecryptVersioned (vault_view g rand (Some w)) [] = Some []" by (simp add: vault_view_def DecryptVersioned_def)
  fix x y
  assume "sv_EncryptVersioned (vault_view g (Some nonce) (Some v)) x = Some y"
  then have y: "y = tagged (int (length prev) + 1) (b64_encode nonce) (b64_encode (gcm_Seal g (kdf (trim_space cur) p) nonce (bytes_of x)))"
    by (simp add: vault_view_def enc)
  show "trim_space y = y" using tagged_parts(1) [of "int (length prev) + 1"] r by (simp add: y)
  show "sv_DecryptVersioned (vault_view g rand (Some w)) y = Some x"
    using decrypt_tagged [OF _ r succeeding_key [OF assms(1)] assms(2), of g x] assms(3) by (simp add: vault_view_def y)
qed

context rotated_vault
begin

lemma pair: "vault_pair (vault_view g (Some nonce) (Some v)) (vault_view g rand (Some w))"
  by (rule vault_pair_axioms)

end

text \<open>C24: A second factor survives a restart and a rotation, encrypted.  When its state was saved with the vault, an instance that
  shares only the tables, with the same vault or one that succeeds it, finds the state with the same secrets and switch; and what
  the tables hold for a secret carries the mark of encryption.  The recovery codes are not kept.\<close>

theorem mfa_secret_survives_restart:
  assumes gcm: "\<And>k n m. gcm_Open g k n (gcm_Seal g k n m) = Some m" and nonce: "length nonce = 12"
    and vaults: "succeeds kdf cur p prev v w"
    and saved: "persistAdminMFAStateLocked e uid st s = (True, s')" "au_persistence s = Some db"
      "au_secretVault s = Some (vault_view g (Some nonce) (Some v))"
    and fresh: "au_persistence f = au_persistence s'" "au_adminMFA f = []" "au_secretVault f = Some (vault_view g rand (Some w))"
    and up: "env_save_ok e2" and secret: "trim_space (ms_Secret st) \<noteq> []"
  shows "fst (findAdminMFAStateLocked e2 uid f) = Inr (Some (st\<lparr>ms_Secret := trim_space (ms_Secret st),
      ms_PendingSecret := trim_space (ms_PendingSecret st), ms_RecoveryCodes := []\<rparr>)) \<and>
    (\<exists>db' row. au_persistence s' = Some db' \<and> map_of (db_mfa db') (trim_space uid) = Some row \<and> take 5 (ms_Secret row) = ''enc:v'')"
proof -
  have "rotated_vault g kdf cur p prev v w nonce" using vaults nonce gcm by unfold_locales
  note pair = rotated_vault.pair [OF this, of rand]
  have v: "NewVaultWithRotation kdf cur p prev = Some v" using vaults by (simp add: succeeds_def)
  from saved obtain x q where x: "encrypt_secret s (trim_space (ms_Secret st)) = Some x"
    and s': "au_persistence s' = Some (db\<lparr>db_mfa := AList.update (trim_space uid)
      (st\<lparr>ms_Secret := trim_space x, ms_PendingSecret := trim_space q, ms_RecoveryCodes := []\<rparr>) (db_mfa db)\<rparr>)"
    by (auto simp: persistAdminMFAStateLocked_def UpsertAuthAdminMFAState_def adminMFAStateForPersistence_def Let_def
        split: if_splits option.splits prod.splits bool.splits)
  have t: "trim_space x = x" using vault_pair.at_rest(1) [OF pair saved(3) x] by simp
  have "take 5 x = ''enc:v''"
    using vault_pair.at_rest(3) [OF pair saved(3) x _ secret] encrypt_tagged [OF v, of g nonce] by (auto simp: vault_view_def tagged_def)
  then show ?thesis
    using vault_pair.persisted_state_found [OF pair saved fresh up] s' t by (simp add: update_conv)
qed

definition first_vault :: vault where "first_vault = the (NewVaultWithRotation (\<lambda>m p. bytes_of m) ''k1'' ''mfa'' [])"
definition second_vault :: vault where "second_vault = the (NewVaultWithRotation (\<lambda>m p. bytes_of m) ''k2'' ''mfa'' [''k1''])"

lemma demo_succession: "succeeds (\<lambda>m p. bytes_of m) ''k1'' ''mfa'' [] first_vault second_vault"
proof -
  have "trim_space ''k1'' = ''k1''" "trim_space ''k2'' = ''k2''" by code_simp+
  then have "NewVaultWithRotation (\<lambda>m p. bytes_of m) ''k1'' ''mfa'' [] = Some first_vault"
    "NewVaultWithRotation (\<lambda>m p. bytes_of m) ''k2'' ''mfa'' [''k1''] = Some second_vault"
    by (simp_all add: first_vault_def second_vault_def NewVaultWithRotation_def Let_def)
  then show ?thesis unfolding succeeds_def by (intro conjI disjI2 exI [of _ "''k2''"] exI [of _ "[]"]) simp_all
qed

interpretation rotated: rotated_vault demo_gcm "\<lambda>m p. bytes_of m" "''k1''" "''mfa''" "[]" first_vault second_vault "replicate 12 0" None
  by unfold_locales (simp_all add: demo_succession, simp add: demo_gcm_def)

definition mfa_demo :: authService where
  "mfa_demo = \<lparr>au_signingKey = ''k'', au_issuer = ''mp'', au_accessTTL = 1, au_refreshTTL = 1, au_adminMFARequired = True, au_adminMFA = [],
     au_persistence = Some \<lparr>db_users = [], db_sessions = [], db_revoked = [], db_mfa = []\<rparr>, au_volatileStore = None,
     au_secretVault = Some (vault_view demo_gcm (Some (replicate 12 0)) (Some first_vault)), au_usersByEmail = [], au_usersByID = [],
     au_refreshSessions = [], au_revokedAccess = [], au_passwordResetTokens = []\<rparr>"

abbreviation up_env :: env where "up_env \<equiv> \<lparr>env_now = 5, env_save_ok = True, env_rand = None\<rparr>"

theorem mfa_secret_survives_restart_witness:
  "let st = no_mfa\<lparr>ms_Secret := ''JBSWY3DP'', ms_Enabled := True\<rparr>; r = persistAdminMFAStateLocked up_env ''u1'' st mfa_demo;
       f = (snd r)\<lparr>au_adminMFA := [], au_secretVault := Some (vault_view demo_gcm None (Some second_vault))\<rparr> in
   fst r \<and> map_sum id (map_option ms_Secret) (fst (findAdminMFAStateLocked up_env ''u1'' f)) = Inr (Some ''JBSWY3DP'')"
proof -
  let ?st = "no_mfa\<lparr>ms_Secret := ''JBSWY3DP'', ms_Enabled := True\<rparr>"
  let ?r = "persistAdminMFAStateLocked up_env ''u1'' ?st mfa_demo"
  have tr: "trim_space ''JBSWY3DP'' = ''JBSWY3DP''" "trim_space ''u1'' = ''u1''" by code_simp+
  have enc: "(encrypt_secret mfa_demo x = None) = False" for x
    using rotated.encrypts by (auto simp: encrypt_secret_def mfa_demo_def)
  have "au_persistence mfa_demo \<noteq> None" by (simp add: mfa_demo_def)
  then have ok: "fst ?r"
    by (auto simp: persistAdminMFAStateLocked_def UpsertAuthAdminMFAState_def tr enc Let_def split: option.split)
  have gcm: "gcm_Open demo_gcm k n (gcm_Seal demo_gcm k n m) = Some m" for k n m by (simp add: demo_gcm_def)
  have "fst (findAdminMFAStateLocked up_env ''u1'' ((snd ?r)\<lparr>au_adminMFA := [], au_secretVault := Some (vault_view demo_gcm None (Some second_vault))\<rparr>))
      = Inr (Some (?st\<lparr>ms_Secret := trim_space (ms_Secret ?st), ms_PendingSecret := trim_space (ms_PendingSecret ?st), ms_RecoveryCodes := []\<rparr>))"
  proof (rule conjunct1 [OF mfa_secret_survives_restart [OF gcm _ demo_succession]])
    show "persistAdminMFAStateLocked up_env ''u1'' ?st mfa_demo = (True, snd ?r)" using ok by (simp add: prod_eq_iff)
    show "au_secretVault mfa_demo = Some (vault_view demo_gcm (Some (replicate 12 0)) (Some first_vault))" by (simp add: mfa_demo_def)
    show "au_persistence mfa_demo = Some \<lparr>db_users = [], db_sessions = [], db_revoked = [], db_mfa = []\<rparr>" by (simp add: mfa_demo_def)
  qed (use tr in simp_all)
  with ok tr show ?thesis by (simp add: Let_def)
qed

end
