(* ===== verification/Audit_Log.thy ===== *)
theory Audit_Log
  imports MP_Prelude Go_Strings Go_Time Go_Bytes "HOL-Library.AList"
begin

text \<open>
  \<open>internal/modules/audit\<close>: the audit log with its chain of authentication codes, the ingestion of
  entries a gateway recorded while offline, and the webhook that forwards entries.  HMAC-SHA256, JSON
  marshalling and the HTTP client are parameters; an HTTP attempt gives an outcome per attempt
  number.  The seeded demonstration entries are left out.  Properties: an honest single-tenant log
  verifies, two logs that verify with one newest code agree in what the codes cover, a replayed
  offline batch changes nothing, and a dispatch ends after at most three attempts.
\<close>

section \<open>Data\<close>

record auditLogEntry =
  al_TenantID :: string
  al_ID :: string
  al_Actor :: string
  al_Role :: string
  al_Action :: string
  al_Target :: string
  al_Source :: string
  al_At :: time
  al_PrevHash :: string
  al_Hash :: string

record webhookConfig =
  wc_TenantID :: string
  wc_Enabled :: bool
  wc_Endpoint :: string
  wc_Actions :: "string list"
  wc_SigningSecret :: string
  wc_UpdatedBy :: string
  wc_UpdatedAt :: time

record webhookDelivery =
  wd_TenantID :: string
  wd_ID :: string
  wd_AuditLogID :: string
  wd_Action :: string
  wd_Endpoint :: string
  wd_Status :: string
  wd_AttemptCount :: nat
  wd_HTTPStatus :: int
  wd_Error :: string
  wd_ResponseBody :: string
  wd_DispatchedAt :: time

record audit_snapshot =
  as_Logs :: "auditLogEntry list"
  as_WebhookConfigs :: "(string \<times> webhookConfig) list"
  as_WebhookDeliveries :: "webhookDelivery list"

record auditService =
  ad_logs :: "auditLogEntry list"
  ad_webhookConfigs :: "(string \<times> webhookConfig) list"
  ad_webhookDeliveries :: "webhookDelivery list"
  ad_stateStore :: "audit_snapshot store"
  ad_hmacKey :: "byte list"

datatype audit_error =
    WebhookTenantIDRequired | WebhookEndpointRequired | InvalidWebhookEndpoint | WebhookConfigNotFound
  | WebhookDisabled | WebhookActionFiltered | AuditLogNotFound | HmacKeyMissing | AuditRandFailed | AuditStoreFailed
  | AuditRequestInvalid | WebhookRequestFailed string | WebhookReadFailed string | WebhookStatus int

type_synonym mac = "byte list \<Rightarrow> byte list \<Rightarrow> byte list"

definition audit_state :: "auditService \<Rightarrow> audit_snapshot" where
  "audit_state s = \<lparr>as_Logs = ad_logs s, as_WebhookConfigs = ad_webhookConfigs s, as_WebhookDeliveries = ad_webhookDeliveries s\<rparr>"

definition persistLocked_audit :: "env \<Rightarrow> auditService \<Rightarrow> bool \<times> auditService" where
  "persistLocked_audit e s =
     (case store_save e (audit_state s) (ad_stateStore s) of (ok, st) \<Rightarrow> (ok, s\<lparr>ad_stateStore := st\<rparr>))"

definition restoreFromStateStore_audit :: "env \<Rightarrow> auditService \<Rightarrow> bool \<times> auditService" where
  "restoreFromStateStore_audit e s =
     (case ad_stateStore s of
        NoStore \<Rightarrow> (True, s)
      | Store None \<Rightarrow> persistLocked_audit e s
      | Store (Some snap) \<Rightarrow>
          (True, s\<lparr>ad_logs := as_Logs snap, ad_webhookConfigs := as_WebhookConfigs snap,
                   ad_webhookDeliveries := as_WebhookDeliveries snap\<rparr>))"

section \<open>The log\<close>

definition ListFiltered :: "string \<Rightarrow> string \<Rightarrow> string \<Rightarrow> int \<Rightarrow> auditService \<Rightarrow> auditLogEntry list" where
  "ListFiltered tenantID action source limit s =
     (let t = trim_space tenantID; a = trim_space action; c = trim_space source;
          items = filter (\<lambda>l. (t = '''' \<or> al_TenantID l = t) \<and> (a = '''' \<or> al_Action l = a) \<and> (c = '''' \<or> al_Source l = c)) (ad_logs s) in
      if limit > 0 \<and> int (length items) > limit then take (nat limit) items else items)"

text \<open>\<open>time.RFC3339Nano\<close>: the fraction of a second without trailing zeros.\<close>

definition format_rfc3339_nano :: "time \<Rightarrow> string" where
  "format_rfc3339_nano t =
     (let ns = t mod ns_second;
          digits = map (\<lambda>k. digit_char (ns div 10 ^ k)) [8, 7, 6, 5, 4, 3, 2, 1, 0];
          frac = rev (dropWhile (\<lambda>c. c = CHR ''0'') (rev digits)) in
      format_date t @ ''T'' @ fmt2 (hour_of t) @ '':'' @ fmt2 (minute_of t) @ '':'' @ fmt2 (second_of t) @
      (if frac = '''' then '''' else ''.'' @ frac) @ ''Z'')"

definition audit_content :: "auditLogEntry \<Rightarrow> string" where
  "audit_content l =
     al_ID l @ al_TenantID l @ al_Actor l @ al_Role l @ al_Action l @ al_Target l @ al_Source l @ format_rfc3339_nano (al_At l)"

definition computeAuditLogHMAC :: "mac \<Rightarrow> byte list \<Rightarrow> auditLogEntry \<Rightarrow> string" where
  "computeAuditLogHMAC mac key l = hex_encode (mac key (bytes_of (audit_content l @ al_PrevHash l)))"

definition chained :: "mac \<Rightarrow> auditLogEntry \<Rightarrow> auditService \<Rightarrow> auditLogEntry" where
  "chained mac l s =
     (if ad_hmacKey s = [] then l
      else
        let l1 = l\<lparr>al_PrevHash := (case ad_logs s of [] \<Rightarrow> '''' | h # _ \<Rightarrow> al_Hash h)\<rparr> in
        l1\<lparr>al_Hash := computeAuditLogHMAC mac (ad_hmacKey s) l1\<rparr>)"

definition text_or :: "string \<Rightarrow> string \<Rightarrow> string" where
  "text_or d x = (if trim_space x = '''' then d else trim_space x)"

definition AppendWithTimestamp ::
  "mac \<Rightarrow> env \<Rightarrow> string option \<Rightarrow> string \<Rightarrow> string \<Rightarrow> string \<Rightarrow> string \<Rightarrow> string \<Rightarrow> string \<Rightarrow> time \<Rightarrow> auditService \<Rightarrow>
   (audit_error, auditLogEntry) result \<times> auditService" where
  "AppendWithTimestamp mac e rand tenantID actor role action target source at s =
     (case rand of
        None \<Rightarrow> (Inl AuditRandFailed, s)
      | Some h \<Rightarrow>
          let l = chained mac
                    \<lparr>al_TenantID = trim_space tenantID, al_ID = ''aud_'' @ h, al_Actor = text_or ''system'' actor,
                     al_Role = text_or ''system'' role, al_Action = trim_space action, al_Target = trim_space target,
                     al_Source = text_or ''api'' source, al_At = at, al_PrevHash = '''', al_Hash = ''''\<rparr> s in
          (case persistLocked_audit e (s\<lparr>ad_logs := l # ad_logs s\<rparr>) of
             (False, s1) \<Rightarrow> (Inl AuditStoreFailed, s1) | (True, s1) \<Rightarrow> (Inr l, s1)))"

definition Append ::
  "mac \<Rightarrow> env \<Rightarrow> string \<Rightarrow> string \<Rightarrow> string \<Rightarrow> string \<Rightarrow> string \<Rightarrow> string \<Rightarrow> auditService \<Rightarrow>
   (audit_error, auditLogEntry) result \<times> auditService" where
  "Append mac e tenantID actor role action target source s =
     AppendWithTimestamp mac e (env_rand e) tenantID actor role action target source (env_now e) s"

definition SetHMACKey :: "byte list \<Rightarrow> auditService \<Rightarrow> auditService" where
  "SetHMACKey key s = s\<lparr>ad_hmacKey := key\<rparr>"

text \<open>The first entry, newest first, whose code or link is wrong.\<close>

fun first_broken :: "mac \<Rightarrow> byte list \<Rightarrow> nat \<Rightarrow> auditLogEntry list \<Rightarrow> int" where
  "first_broken mac key i [] = - 1"
| "first_broken mac key i (l # ls) =
     (if al_Hash l = '''' then first_broken mac key (Suc i) ls
      else if al_Hash l \<noteq> computeAuditLogHMAC mac key l then int i
      else
        (case ls of
           [] \<Rightarrow> first_broken mac key (Suc i) ls
         | p # _ \<Rightarrow> if al_Hash p \<noteq> '''' \<and> al_PrevHash l \<noteq> al_Hash p then int i else first_broken mac key (Suc i) ls))"

definition VerifyChain :: "mac \<Rightarrow> string \<Rightarrow> auditService \<Rightarrow> (audit_error, int \<times> nat) result" where
  "VerifyChain mac tenantID s =
     (if ad_hmacKey s = [] then Inl HmacKeyMissing
      else
        let ls = filter (\<lambda>l. al_TenantID l = trim_space tenantID) (ad_logs s) in
        Inr (first_broken mac (ad_hmacKey s) 0 ls, length ls))"

section \<open>Entries recorded offline\<close>

record offlineAuditEntry =
  oe_EventID :: string
  oe_UserID :: string
  oe_LockID :: string
  oe_Method :: string
  oe_Result :: string
  oe_Reason :: string
  oe_GatewayID :: "32 word"
  oe_Timestamp :: int
  oe_IsOffline :: bool

lemma leading_shorter: "leading seqs x = Some q \<Longrightarrow> length x - length q < length x"
  using leading_SomeD [of seqs x q] by (cases x; cases q) auto

text \<open>\<open>strings.Fields\<close>: the maximal pieces without white space; the first argument is the piece so far, reversed.\<close>

function fields_from :: "string \<Rightarrow> string \<Rightarrow> string list" where
  "fields_from w x =
     (let out = (if w = '''' then [] else [rev w]) in
      case leading space_seqs x of
        Some q \<Rightarrow> out @ fields_from '''' (drop (length q) x)
      | None \<Rightarrow> (case x of [] \<Rightarrow> out | c # cs \<Rightarrow> fields_from (c # w) cs))"
  by pat_completeness auto
termination
  by (relation "measure (\<lambda>(w, x). length x)") (auto dest: leading_shorter)

declare fields_from.simps [simp del]

definition fields :: "string \<Rightarrow> string list" where
  "fields x = fields_from '''' x"

definition auditTargetHasField :: "string \<Rightarrow> string \<Rightarrow> string \<Rightarrow> bool" where
  "auditTargetHasField target key val =
     (let expected = trim_space key @ ''='' @ trim_space val in
      expected \<noteq> ''='' \<and> expected \<in> set (fields target))"

definition hasEventID :: "string \<Rightarrow> auditService \<Rightarrow> bool" where
  "hasEventID eventID s = list_ex (\<lambda>l. al_ID l = eventID \<or> auditTargetHasField (al_Target l) ''event_id'' eventID) (ad_logs s)"

definition validateOfflineEntry :: "offlineAuditEntry \<Rightarrow> bool" where
  "validateOfflineEntry x \<longleftrightarrow>
     oe_EventID x \<noteq> '''' \<and> oe_UserID x \<noteq> '''' \<and> oe_LockID x \<noteq> '''' \<and> oe_Timestamp x > 0 \<and>
     to_lower (oe_Method x) \<in> {''ble'', ''nfc_hce''} \<and> to_lower (oe_Result x) \<in> {''granted'', ''denied''}"

definition offline_target :: "string \<Rightarrow> offlineAuditEntry \<Rightarrow> string" where
  "offline_target gatewayID x =
     (let t = trim_space (oe_LockID x @ '' event_id='' @ oe_EventID x) in
      if gatewayID = '''' then t else trim_space (t @ '' gateway_id='' @ gatewayID))"

text \<open>One entry: whether it was accepted; \<open>cancelled\<close> ends a batch with the count so far.\<close>

definition ingest_offline ::
  "mac \<Rightarrow> env \<Rightarrow> string option \<Rightarrow> string \<Rightarrow> string \<Rightarrow> offlineAuditEntry \<Rightarrow> auditService \<Rightarrow> bool \<times> auditService" where
  "ingest_offline mac e rand tenantID gatewayID x s =
     (if \<not> validateOfflineEntry x \<or> hasEventID (oe_EventID x) s then (False, s)
      else
        (case AppendWithTimestamp mac e rand tenantID (oe_UserID x) ''system'' (''offline_access_'' @ oe_Result x)
                (offline_target gatewayID x) (''gateway_offline_'' @ oe_Method x) (oe_Timestamp x * ns_second) s of
           (Inl _, s1) \<Rightarrow> (False, s1) | (Inr _, s1) \<Rightarrow> (True, s1)))"

fun offline_loop ::
  "mac \<Rightarrow> env \<Rightarrow> reads \<Rightarrow> (nat \<Rightarrow> bool) \<Rightarrow> string \<Rightarrow> string \<Rightarrow> nat \<Rightarrow> nat \<Rightarrow> offlineAuditEntry list \<Rightarrow> auditService \<Rightarrow>
   bool \<times> nat \<times> auditService" where
  "offline_loop mac e rd cancelled tenantID gatewayID i n [] s = (True, n, s)"
| "offline_loop mac e rd cancelled tenantID gatewayID i n (x # xs) s =
     (if cancelled i then (False, n, s)
      else
        (case ingest_offline mac e (rd i) tenantID gatewayID x s of
           (ok, s1) \<Rightarrow> offline_loop mac e rd cancelled tenantID gatewayID (Suc i) (if ok then Suc n else n) xs s1))"

definition IngestOfflineBatchForGateway ::
  "mac \<Rightarrow> env \<Rightarrow> reads \<Rightarrow> (nat \<Rightarrow> bool) \<Rightarrow> string \<Rightarrow> string \<Rightarrow> offlineAuditEntry list \<Rightarrow> auditService \<Rightarrow>
   bool \<times> nat \<times> auditService" where
  "IngestOfflineBatchForGateway mac e rd cancelled tenantID gatewayID entries s =
     offline_loop mac e rd cancelled (trim_space tenantID) (trim_space gatewayID) 0 0 entries s"

definition IngestOfflineBatch ::
  "mac \<Rightarrow> env \<Rightarrow> reads \<Rightarrow> (nat \<Rightarrow> bool) \<Rightarrow> offlineAuditEntry list \<Rightarrow> auditService \<Rightarrow> bool \<times> nat \<times> auditService" where
  "IngestOfflineBatch mac e rd cancelled entries s = IngestOfflineBatchForGateway mac e rd cancelled '''' '''' entries s"

section \<open>Verification of the chain\<close>

definition sealed :: "mac \<Rightarrow> byte list \<Rightarrow> auditLogEntry \<Rightarrow> bool" where
  "sealed mac key l \<longleftrightarrow> al_Hash l = '''' \<or> al_Hash l = computeAuditLogHMAC mac key l"

definition linked :: "auditLogEntry \<Rightarrow> auditLogEntry \<Rightarrow> bool" where
  "linked l p \<longleftrightarrow> al_Hash l = '''' \<or> al_Hash p = '''' \<or> al_PrevHash l = al_Hash p"

fun intact :: "mac \<Rightarrow> byte list \<Rightarrow> auditLogEntry list \<Rightarrow> bool" where
  "intact mac key [] \<longleftrightarrow> True"
| "intact mac key [l] \<longleftrightarrow> sealed mac key l"
| "intact mac key (l # p # ls) \<longleftrightarrow> sealed mac key l \<and> linked l p \<and> intact mac key (p # ls)"

lemma first_broken_intact: "first_broken mac key i ls = - 1 \<longleftrightarrow> intact mac key ls"
  by (induction mac key ls arbitrary: i rule: intact.induct) (auto simp: sealed_def linked_def)

lemma intact_nth:
  assumes "intact mac key ls" and "k < length ls"
  shows "sealed mac key (ls ! k)" and "Suc k < length ls \<Longrightarrow> linked (ls ! k) (ls ! Suc k)"
  using assms by (induction mac key ls arbitrary: k rule: intact.induct) (auto simp: nth_Cons split: nat.splits)

lemma intact_Cons: "intact mac key (l # ls) \<longleftrightarrow> sealed mac key l \<and> (ls = [] \<or> linked l (hd ls)) \<and> intact mac key ls"
  by (cases ls) auto

lemma VerifyChain_ok_iff:
  "VerifyChain mac t s = Inr (- 1, n) \<longleftrightarrow> ad_hmacKey s \<noteq> [] \<and>
     intact mac (ad_hmacKey s) (filter (\<lambda>l. al_TenantID l = trim_space t) (ad_logs s)) \<and>
     n = length (filter (\<lambda>l. al_TenantID l = trim_space t) (ad_logs s))"
  by (auto simp: VerifyChain_def Let_def first_broken_intact)

section \<open>Runs of the log\<close>

datatype audit_op =
    LogAppend string string string string string string
  | OfflineBatch string string "offlineAuditEntry list" "nat \<Rightarrow> bool"

definition audit_step :: "mac \<Rightarrow> env \<times> reads \<times> audit_op \<Rightarrow> auditService \<Rightarrow> auditService" where
  "audit_step mac x s =
     (case x of
        (e, rd, LogAppend t a r c g o') \<Rightarrow> snd (Append mac e t a r c g o' s)
      | (e, rd, OfflineBatch t g xs cancelled) \<Rightarrow> snd (snd (IngestOfflineBatchForGateway mac e rd cancelled t g xs s)))"

definition audit_run :: "mac \<Rightarrow> (env \<times> reads \<times> audit_op) list \<Rightarrow> auditService \<Rightarrow> auditService" where
  "audit_run mac ops s = fold (audit_step mac) ops s"

fun op_tenant :: "audit_op \<Rightarrow> string" where
  "op_tenant (LogAppend t _ _ _ _ _) = trim_space t"
| "op_tenant (OfflineBatch t _ _ _) = trim_space t"

text \<open>What an appended entry looks like, and that entries are only added.\<close>

lemma persist_audit_frame:
  "persistLocked_audit e s = (b, s') \<Longrightarrow> ad_logs s' = ad_logs s \<and> ad_hmacKey s' = ad_hmacKey s \<and>
     ad_webhookConfigs s' = ad_webhookConfigs s \<and> ad_webhookDeliveries s' = ad_webhookDeliveries s"
  by (auto simp: persistLocked_audit_def split: prod.splits)

lemma chained_fields:
  "al_TenantID (chained mac l s) = al_TenantID l" "al_Target (chained mac l s) = al_Target l" "al_ID (chained mac l s) = al_ID l"
  by (simp_all add: chained_def Let_def)

lemma chained_seal:
  assumes "al_Hash l = ''''"
  shows "sealed mac (ad_hmacKey s) (chained mac l s)" and "ad_logs s = [] \<or> linked (chained mac l s) (hd (ad_logs s))"
  using assms by (auto simp: chained_def sealed_def linked_def computeAuditLogHMAC_def audit_content_def Let_def split: list.splits)

lemma append_shape:
  assumes "AppendWithTimestamp mac e rand t a r c g o' at s = (res, s')"
  shows "ad_hmacKey s' = ad_hmacKey s \<and> (if rand = None then s' = s else
    (\<exists>l. al_Hash l = '''' \<and> al_TenantID l = trim_space t \<and> al_Target l = trim_space g \<and> ad_logs s' = chained mac l s # ad_logs s))"
proof (cases rand)
  case None
  with assms show ?thesis by (simp add: AppendWithTimestamp_def)
next
  case (Some h)
  let ?l = "\<lparr>al_TenantID = trim_space t, al_ID = ''aud_'' @ h, al_Actor = text_or ''system'' a,
     al_Role = text_or ''system'' r, al_Action = trim_space c, al_Target = trim_space g,
     al_Source = text_or ''api'' o', al_At = at, al_PrevHash = '''', al_Hash = ''''\<rparr>"
  from assms Some have "ad_logs s' = chained mac ?l s # ad_logs s \<and> ad_hmacKey s' = ad_hmacKey s"
    by (auto simp: AppendWithTimestamp_def Let_def dest!: persist_audit_frame split: prod.splits bool.splits)
  then show ?thesis using Some by (intro conjI) (auto intro!: exI [of _ ?l])
qed

text \<open>Everything an operation does to the log is appending entries of its tenant.\<close>

inductive extends :: "mac \<Rightarrow> string \<Rightarrow> auditService \<Rightarrow> auditService \<Rightarrow> bool" for mac t where
  same: "extends mac t s s"
| more: "extends mac t s s1 \<Longrightarrow> al_Hash l = '''' \<Longrightarrow> al_TenantID l = t \<Longrightarrow> ad_logs s2 = chained mac l s1 # ad_logs s1 \<Longrightarrow>
    ad_hmacKey s2 = ad_hmacKey s1 \<Longrightarrow> extends mac t s s2"

lemma extends_trans: "extends mac t s1 s2 \<Longrightarrow> extends mac t s s1 \<Longrightarrow> extends mac t s s2"
  by (induction rule: extends.induct) (auto intro: extends.more)

lemma extends_append:
  assumes "AppendWithTimestamp mac e rand t a r c g o' at s = (res, s')"
  shows "extends mac (trim_space t) s s'"
  using append_shape [OF assms] by (auto intro: extends.same extends.more split: if_splits)

lemma extends_ingest: "ingest_offline mac e rand t g x s = (ok, s') \<Longrightarrow> extends mac (trim_space t) s s'"
  by (auto simp: ingest_offline_def dest!: extends_append intro: extends.same split: if_splits prod.splits sum.splits)

lemma extends_loop: "offline_loop mac e rd cancelled t g i n xs s = (ok, n', s') \<Longrightarrow> extends mac (trim_space t) s s'"
proof (induction xs arbitrary: i n s)
  case (Cons x xs)
  then show ?case
    by (auto intro: extends.same extends_trans [OF _ extends_ingest] split: if_splits prod.splits)
qed (auto intro: extends.same)

lemma extends_step: "extends mac (op_tenant op) s (audit_step mac (e, rd, op) s)"
proof (cases op)
  case (LogAppend t a r c g o')
  then show ?thesis
    using extends_append [of mac e "env_rand e" t a r c g o' "env_now e" s]
    by (cases "AppendWithTimestamp mac e (env_rand e) t a r c g o' (env_now e) s") (simp add: audit_step_def Append_def)
next
  case (OfflineBatch t g xs cancelled)
  then show ?thesis
    using extends_loop [of mac e rd cancelled "trim_space t" "trim_space g" 0 0 xs s]
    by (cases "offline_loop mac e rd cancelled (trim_space t) (trim_space g) 0 0 xs s")
       (simp add: audit_step_def IngestOfflineBatchForGateway_def)
qed

lemma extends_props:
  assumes "extends mac t s s'"
  shows "ad_hmacKey s' = ad_hmacKey s" and "intact mac (ad_hmacKey s) (ad_logs s) \<Longrightarrow> intact mac (ad_hmacKey s) (ad_logs s')"
    and "set (ad_logs s) \<subseteq> set (ad_logs s')" and "list_all (\<lambda>l. al_TenantID l = t) (ad_logs s) \<Longrightarrow> list_all (\<lambda>l. al_TenantID l = t) (ad_logs s')"
proof -
  show "ad_hmacKey s' = ad_hmacKey s" using assms by induction auto
  show "set (ad_logs s) \<subseteq> set (ad_logs s')" using assms by induction auto
  show "list_all (\<lambda>l. al_TenantID l = t) (ad_logs s')" if "list_all (\<lambda>l. al_TenantID l = t) (ad_logs s)"
    using assms that by induction (auto simp: chained_fields)
  show "intact mac (ad_hmacKey s) (ad_logs s')" if "intact mac (ad_hmacKey s) (ad_logs s)"
    using assms that
  proof induction
    case (more s s1 l s2)
    have "ad_hmacKey s1 = ad_hmacKey s" using more.hyps(1) by induction auto
    moreover have "sealed mac (ad_hmacKey s1) (chained mac l s1)" "ad_logs s1 = [] \<or> linked (chained mac l s1) (hd (ad_logs s1))"
      using more.hyps(2) by (rule chained_seal)+
    ultimately show ?case using more by (simp add: intact_Cons)
  qed
qed

lemma run_props:
  shows "ad_hmacKey (audit_run mac ops s) = ad_hmacKey s" and "set (ad_logs s) \<subseteq> set (ad_logs (audit_run mac ops s))"
    and "intact mac (ad_hmacKey s) (ad_logs s) \<Longrightarrow> intact mac (ad_hmacKey s) (ad_logs (audit_run mac ops s))"
    and "list_all (\<lambda>l. al_TenantID l = t) (ad_logs s) \<Longrightarrow> list_all (\<lambda>(_, _, op). op_tenant op = t) ops \<Longrightarrow>
      list_all (\<lambda>l. al_TenantID l = t) (ad_logs (audit_run mac ops s))"
proof -
  note e = extends_props [OF extends_step]
  show "ad_hmacKey (audit_run mac ops s) = ad_hmacKey s"
    by (induction ops arbitrary: s) (auto simp: audit_run_def e(1))
  show "set (ad_logs s) \<subseteq> set (ad_logs (audit_run mac ops s))"
  proof (induction ops arbitrary: s)
    case (Cons x ops)
    have "set (ad_logs s) \<subseteq> set (ad_logs (audit_step mac x s))" by (cases x) (simp add: e(3))
    also have "\<dots> \<subseteq> set (ad_logs (audit_run mac ops (audit_step mac x s)))" by (rule Cons)
    finally show ?case by (simp add: audit_run_def)
  qed (simp add: audit_run_def)
  show "intact mac (ad_hmacKey s) (ad_logs (audit_run mac ops s))" if "intact mac (ad_hmacKey s) (ad_logs s)"
    using that
  proof (induction ops arbitrary: s)
    case (Cons x ops)
    have "ad_hmacKey (audit_step mac x s) = ad_hmacKey s" by (cases x) (simp add: e(1))
    moreover have "intact mac (ad_hmacKey s) (ad_logs (audit_step mac x s))" using Cons.prems by (cases x) (simp add: e(2))
    ultimately show ?case using Cons.IH [of "audit_step mac x s"] by (simp add: audit_run_def)
  qed (simp add: audit_run_def)
  show "list_all (\<lambda>l. al_TenantID l = t) (ad_logs (audit_run mac ops s))"
    if "list_all (\<lambda>l. al_TenantID l = t) (ad_logs s)" "list_all (\<lambda>(_, _, op). op_tenant op = t) ops"
    using that by (induction ops arbitrary: s) (use e(4) in \<open>auto simp: audit_run_def\<close>)
qed

text \<open>C20: An honest log verifies.  Through any run of appends and offline batches, failing saves included, the chain over the
  whole log stays intact, and when all entries belong to one tenant, verifying that tenant's chain reports no broken entry.\<close>

theorem audit_chain_verifies:
  assumes "ad_hmacKey s \<noteq> []" and "ad_logs s = []"
  shows "first_broken mac (ad_hmacKey s) 0 (ad_logs (audit_run mac ops s)) = - 1 \<and>
    (list_all (\<lambda>(_, _, op). op_tenant op = trim_space t) ops \<longrightarrow>
      VerifyChain mac t (audit_run mac ops s) = Inr (- 1, length (ad_logs (audit_run mac ops s))))"
proof -
  have i: "intact mac (ad_hmacKey s) (ad_logs (audit_run mac ops s))" using assms(2) by (intro run_props(3)) simp
  have "VerifyChain mac t (audit_run mac ops s) = Inr (- 1, length (ad_logs (audit_run mac ops s)))"
    if "list_all (\<lambda>(_, _, op). op_tenant op = trim_space t) ops"
  proof -
    have "filter (\<lambda>l. al_TenantID l = trim_space t) (ad_logs (audit_run mac ops s)) = ad_logs (audit_run mac ops s)"
      using run_props(4) [of "trim_space t" s ops mac] assms(2) that by (simp add: list_all_iff)
    with i assms(1) show ?thesis by (simp add: VerifyChain_ok_iff run_props(1))
  qed
  with i show ?thesis by (simp add: first_broken_intact)
qed

definition demo_mac :: mac where "demo_mac key m = replicate 32 7"

definition demo_audit :: auditService where
  "demo_audit = \<lparr>ad_logs = [], ad_webhookConfigs = [], ad_webhookDeliveries = [], ad_stateStore = NoStore, ad_hmacKey = [1]\<rparr>"

abbreviation audit_env :: env where
  "audit_env \<equiv> \<lparr>env_now = 0, env_save_ok = True, env_rand = Some ''0a''\<rparr>"

theorem audit_chain_verifies_witness:
  "let ops = [(audit_env, \<lambda>_. None, LogAppend ''t'' ''ann'' ''operator'' ''open'' ''d1'' ''web'')] in
   ad_logs (audit_run demo_mac ops demo_audit) \<noteq> [] \<and>
   VerifyChain demo_mac ''t'' (audit_run demo_mac ops demo_audit) = Inr (- 1, length (ad_logs (audit_run demo_mac ops demo_audit)))"
  using audit_chain_verifies [of demo_audit demo_mac "[(audit_env, \<lambda>_. None, LogAppend ''t'' ''ann'' ''operator'' ''open'' ''d1'' ''web'')]" "''t''"]
  by (simp add: demo_audit_def audit_run_def audit_step_def Append_def AppendWithTimestamp_def persistLocked_audit_def store_save_def Let_def)

section \<open>What the codes protect\<close>

lemma length_hex_encode: "length (hex_encode bs) = 2 * length bs"
  by (induction bs) auto

lemma same_tail: "length b = length b' \<Longrightarrow> a @ b = a' @ b' \<Longrightarrow> a = a' \<and> b = b'"
  by simp

abbreviation audit_text :: "auditLogEntry \<Rightarrow> string" where
  "audit_text l \<equiv> audit_content l @ al_PrevHash l"

definition agreeable :: "mac \<Rightarrow> byte list \<Rightarrow> auditLogEntry list \<Rightarrow> auditLogEntry list \<Rightarrow> bool" where
  "agreeable mac key ls ls' \<longleftrightarrow> intact mac key ls \<and> intact mac key ls' \<and> length ls' = length ls \<and>
     list_all (\<lambda>l. al_Hash l \<noteq> []) (ls @ ls') \<and> (\<forall>m. length (mac key m) = 32) \<and>
     inj_on (mac key) (bytes_of ` audit_text ` set (ls @ ls'))"

lemma agreeable_text:
  assumes "agreeable mac key ls ls'" and "k < length ls" "al_Hash (ls' ! k) = al_Hash (ls ! k)"
  shows "audit_text (ls' ! k) = audit_text (ls ! k)"
proof -
  note a = assms(1) [unfolded agreeable_def]
  have mem: "ls ! k \<in> set ls" "ls' ! k \<in> set ls'" using assms(2) a by simp_all
  with a have "al_Hash (ls ! k) \<noteq> []" "al_Hash (ls' ! k) \<noteq> []" by (auto simp: list_all_iff)
  moreover have "sealed mac key (ls ! k)" "sealed mac key (ls' ! k)" using intact_nth(1) a assms(2) by simp_all
  ultimately have "computeAuditLogHMAC mac key (ls' ! k) = computeAuditLogHMAC mac key (ls ! k)"
    using assms(3) by (simp add: sealed_def)
  then have "mac key (bytes_of (audit_text (ls' ! k))) = mac key (bytes_of (audit_text (ls ! k)))"
    by (simp only: computeAuditLogHMAC_def hex_encode_inject)
  then have "bytes_of (audit_text (ls' ! k)) = bytes_of (audit_text (ls ! k))"
    using a mem by (elim conjE inj_onD) simp_all
  then show ?thesis by (simp only: bytes_of_inject)
qed

lemma agreeable_link:
  assumes "agreeable mac key ls ls'" and "Suc k < length ls" "audit_text (ls' ! k) = audit_text (ls ! k)"
  shows "al_Hash (ls' ! Suc k) = al_Hash (ls ! Suc k)"
proof -
  note a = assms(1) [unfolded agreeable_def]
  have len: "length (al_Hash l) = 64 \<and> al_Hash l \<noteq> []" if "l \<in> set ls \<or> l \<in> set ls'" for l
  proof -
    from that have "sealed mac key l" using intact_nth(1) a by (metis in_set_conv_nth)
    moreover have "al_Hash l \<noteq> []" using that a by (auto simp: list_all_iff)
    ultimately show ?thesis using a by (simp add: sealed_def computeAuditLogHMAC_def length_hex_encode)
  qed
  have n: "ls ! k \<in> set ls" "ls' ! k \<in> set ls'" "ls ! Suc k \<in> set ls" "ls' ! Suc k \<in> set ls'"
    using assms(2) a by simp_all
  then have prev: "al_PrevHash (ls ! k) = al_Hash (ls ! Suc k)" "al_PrevHash (ls' ! k) = al_Hash (ls' ! Suc k)"
    using intact_nth(2) [of mac key ls k] intact_nth(2) [of mac key ls' k] assms(2) a len by (simp_all add: linked_def)
  then have "length (al_PrevHash (ls' ! k)) = length (al_PrevHash (ls ! k))" using len n by simp
  then show ?thesis using same_tail assms(3) prev by metis
qed

lemma chains_agree:
  assumes "agreeable mac key ls ls'" and "ls \<noteq> [] \<Longrightarrow> al_Hash (hd ls') = al_Hash (hd ls)"
  shows "k < length ls \<Longrightarrow> al_Hash (ls' ! k) = al_Hash (ls ! k)"
proof (induction k)
  case 0
  with assms show ?case by (cases ls; cases ls') (auto simp: agreeable_def)
next
  case (Suc k)
  then show ?case using agreeable_text [OF assms(1)] agreeable_link [OF assms(1)] by simp
qed

definition tenant_logs :: "string \<Rightarrow> auditService \<Rightarrow> auditLogEntry list" where
  "tenant_logs t s = filter (\<lambda>l. al_TenantID l = trim_space t) (ad_logs s)"

text \<open>C21: Rewriting the log is detected.  When two logs of a tenant both verify under one key, carry codes throughout, have
  the same length and the same newest code, then each entry has the same code and the same covered text in both; so changing,
  reordering or replacing an older entry while keeping the newest code is detected.  Assumed of the code function are its 32 bytes
  and that the texts of the two logs do not collide.\<close>

theorem audit_tampering_detected:
  assumes "VerifyChain mac t s = Inr (- 1, n)" "VerifyChain mac t s' = Inr (- 1, n)" "ad_hmacKey s' = ad_hmacKey s"
    and "list_all (\<lambda>l. al_Hash l \<noteq> []) (tenant_logs t s @ tenant_logs t s')" and "\<forall>m. length (mac (ad_hmacKey s) m) = 32"
    and "inj_on (mac (ad_hmacKey s)) (bytes_of ` audit_text ` set (tenant_logs t s @ tenant_logs t s'))"
    and "tenant_logs t s \<noteq> [] \<Longrightarrow> al_Hash (hd (tenant_logs t s')) = al_Hash (hd (tenant_logs t s))"
  shows "map al_Hash (tenant_logs t s') = map al_Hash (tenant_logs t s) \<and>
    map audit_text (tenant_logs t s') = map audit_text (tenant_logs t s)"
proof -
  have a: "agreeable mac (ad_hmacKey s) (tenant_logs t s) (tenant_logs t s')"
    using assms(1-6) by (simp add: agreeable_def VerifyChain_ok_iff tenant_logs_def)
  then have len: "length (tenant_logs t s') = length (tenant_logs t s)" by (simp add: agreeable_def)
  note h = chains_agree [OF a assms(7)]
  show ?thesis using h agreeable_text [OF a _ h] len by (auto intro: nth_equalityI)
qed

definition demo_entry :: auditLogEntry where
  "demo_entry = \<lparr>al_TenantID = ''t'', al_ID = ''aud_1'', al_Actor = ''ann'', al_Role = ''op'', al_Action = ''open'', al_Target = ''d'',
     al_Source = ''web'', al_At = 0, al_PrevHash = [], al_Hash = hex_encode (replicate 32 7)\<rparr>"

lemma demo_entry_tenant: "tenant_logs ''t'' (demo_audit\<lparr>ad_logs := [demo_entry\<lparr>al_Actor := a, al_Role := r\<rparr>]\<rparr>) = [demo_entry\<lparr>al_Actor := a, al_Role := r\<rparr>]"
  "VerifyChain demo_mac ''t'' (demo_audit\<lparr>ad_logs := [demo_entry\<lparr>al_Actor := a, al_Role := r\<rparr>]\<rparr>) = Inr (- 1, 1)"
proof -
  have tr: "trim_space ''t'' = ''t''" by code_simp
  show "tenant_logs ''t'' (demo_audit\<lparr>ad_logs := [demo_entry\<lparr>al_Actor := a, al_Role := r\<rparr>]\<rparr>) = [demo_entry\<lparr>al_Actor := a, al_Role := r\<rparr>]"
    by (simp add: tenant_logs_def demo_entry_def tr)
  show "VerifyChain demo_mac ''t'' (demo_audit\<lparr>ad_logs := [demo_entry\<lparr>al_Actor := a, al_Role := r\<rparr>]\<rparr>) = Inr (- 1, 1)"
    by (simp add: VerifyChain_ok_iff demo_entry_def demo_audit_def tr sealed_def computeAuditLogHMAC_def demo_mac_def)
qed

theorem audit_tampering_detected_witness:
  "let s = demo_audit\<lparr>ad_logs := [demo_entry\<lparr>al_Actor := ''ann'', al_Role := ''op''\<rparr>]\<rparr>;
       s' = demo_audit\<lparr>ad_logs := [demo_entry\<lparr>al_Actor := ''an'', al_Role := ''nop''\<rparr>]\<rparr> in
   VerifyChain demo_mac ''t'' s = Inr (- 1, 1) \<and> VerifyChain demo_mac ''t'' s' = Inr (- 1, 1) \<and>
   map audit_text (tenant_logs ''t'' s') = map audit_text (tenant_logs ''t'' s)"
proof -
  let ?s = "demo_audit\<lparr>ad_logs := [demo_entry\<lparr>al_Actor := ''ann'', al_Role := ''op''\<rparr>]\<rparr>"
    and ?s' = "demo_audit\<lparr>ad_logs := [demo_entry\<lparr>al_Actor := ''an'', al_Role := ''nop''\<rparr>]\<rparr>"
  have h: "al_Hash (demo_entry\<lparr>al_Actor := a, al_Role := r\<rparr>) = al_Hash demo_entry" for a r by (simp add: demo_entry_def)
  have ne: "al_Hash demo_entry \<noteq> []"    using length_hex_encode [of "replicate 32 7"] by (auto simp: demo_entry_def)
  have covered: "audit_text (demo_entry\<lparr>al_Actor := ''an'', al_Role := ''nop''\<rparr>) = audit_text (demo_entry\<lparr>al_Actor := ''ann'', al_Role := ''op''\<rparr>)"
    by (simp add: audit_content_def)
  have "map al_Hash (tenant_logs ''t'' ?s') = map al_Hash (tenant_logs ''t'' ?s) \<and>
      map audit_text (tenant_logs ''t'' ?s') = map audit_text (tenant_logs ''t'' ?s)"
  proof (rule audit_tampering_detected)
    show "VerifyChain demo_mac ''t'' ?s = Inr (- 1, 1)" "VerifyChain demo_mac ''t'' ?s' = Inr (- 1, 1)" by (rule demo_entry_tenant(2))+
    show "\<forall>m. length (demo_mac (ad_hmacKey ?s) m) = 32" by (simp add: demo_mac_def)
    show "inj_on (demo_mac (ad_hmacKey ?s)) (bytes_of ` audit_text ` set (tenant_logs ''t'' ?s @ tenant_logs ''t'' ?s'))"
      using covered by (simp add: demo_entry_tenant(1))
  qed (simp_all add: demo_entry_tenant(1) h ne)
  then show ?thesis by (simp add: demo_entry_tenant Let_def)
qed

section \<open>Fields\<close>

text \<open>No white-space sequence starts inside another one, so a text can be cut at any of them.\<close>

lemma space_inner: "r \<in> set space_seqs \<Longrightarrow> 0 < i \<Longrightarrow> i < length r \<Longrightarrow> q \<in> set space_seqs \<Longrightarrow> r ! i \<noteq> hd q"
proof -
  assume r: "r \<in> set space_seqs" "0 < i" "i < length r" and q: "q \<in> set space_seqs"
  have "list_all (\<lambda>r. list_all (\<lambda>c. list_all (\<lambda>h. hd h \<noteq> c) space_seqs) (tl r)) space_seqs" by code_simp
  moreover have "tl r ! (i - 1) = r ! i" "i - 1 < length (tl r)" using r(2,3) by (simp_all add: nth_tl)
  then have "r ! i \<in> set (tl r)" by (metis nth_mem)
  ultimately show ?thesis using r(1) q unfolding list_all_iff by metis
qed

lemma space_prefix: "r \<in> set space_seqs \<Longrightarrow> q \<in> set space_seqs \<Longrightarrow> take (length r) (q @ y) = r \<Longrightarrow> r = q"
proof -
  assume r: "r \<in> set space_seqs" and q: "q \<in> set space_seqs" and p: "take (length r) (q @ y) = r"
  have "list_all (\<lambda>r. list_all (\<lambda>q. take (length r) q = r \<longrightarrow> r = q) space_seqs) space_seqs" by code_simp
  then have free: "a = b" if "a \<in> set space_seqs" "b \<in> set space_seqs" "take (length a) b = a" for a b
    using that by (auto simp: list_all_iff)
  show ?thesis
  proof (cases "length r \<le> length q")
    case True
    then have "take (length r) q = r" using p by simp
    then show ?thesis by (rule free [OF r q])
  next
    case False
    have "take (length q) r = take (length q) (take (length r) (q @ y))" by (simp only: p)
    also have "\<dots> = q" using False by simp
    finally show ?thesis using free [OF q r] by simp
  qed
qed

lemma leading_Nil [simp]: "leading seqs [] = None"
  by (auto simp: leading_None_iff)

lemma leading_cut:
  assumes "q \<in> set space_seqs" and "x \<noteq> []"
  shows "leading space_seqs (x @ q @ y) = leading space_seqs x"
proof -
  have "take (length r) (x @ q @ y) = r \<longleftrightarrow> take (length r) x = r" if r: "r \<in> set space_seqs" for r
  proof (cases "length r \<le> length x")
    case False
    have "q \<noteq> []" using space_ends [OF assms(1)] by simp
    moreover have "r ! length x \<noteq> hd q" using space_inner [OF r _ _ assms(1), of "length x"] False assms(2) by simp
    moreover have "take (length r) (x @ q @ y) ! length x = hd q" using False \<open>q \<noteq> []\<close> by (cases q) (auto simp: nth_append)
    ultimately have "take (length r) (x @ q @ y) \<noteq> r" by auto
    moreover have "take (length r) x \<noteq> r" using False by (auto dest!: arg_cong [where f = length])
    ultimately show ?thesis by blast
  qed simp
  then show ?thesis unfolding leading_def by (intro find_cong) auto
qed

lemma leading_at:
  assumes "q \<in> set space_seqs"
  shows "leading space_seqs (q @ y) = Some q"
proof -
  have q: "q \<noteq> []" using space_ends [OF assms] by simp
  obtain r where r: "leading space_seqs (q @ y) = Some r"
    using assms q by (cases "leading space_seqs (q @ y)") (auto simp: leading_None_iff)
  then have "r = q" using leading_SomeD [OF r] assms by (blast dest: space_prefix)
  with r show ?thesis by simp
qed

lemma fields_cut: "q \<in> set space_seqs \<Longrightarrow> fields_from w (x @ q @ y) = fields_from w x @ fields_from [] y"
proof (induction w x rule: fields_from.induct)
  case (1 w x)
  show ?case
  proof (cases x)
    case Nil
    from Nil leading_at [OF 1(3)] show ?thesis by (simp add: fields_from.simps [of w "q @ y"] fields_from.simps [of w "[]"] Let_def)
  next
    case (Cons c cs)
    have l: "leading space_seqs (x @ q @ y) = leading space_seqs x" by (rule leading_cut [OF 1(3)]) (simp add: Cons)
    show ?thesis
    proof (cases "leading space_seqs x")
      case None
      with 1 Cons l show ?thesis
        by (simp add: fields_from.simps [of w "c # cs @ q @ y"] fields_from.simps [of w "c # cs"] Let_def)
    next
      case (Some r)
      then have "length r \<le> length x" using leading_SomeD(3) [OF Some] by (metis length_take min.cobounded1)
      with 1 Some l show ?thesis
        by (simp add: fields_from.simps [of w "x @ q @ y"] fields_from.simps [of w x] Let_def)
    qed
  qed
qed

lemma fields_Nil [simp]: "fields [] = []"
  by (simp add: fields_def fields_from.simps)

lemma fields_strip_left: "fields (strip_left space_seqs x) = fields x"
proof (induction space_seqs x rule: strip_left.induct)
  case (1 x)
  then show ?case
    by (cases "leading space_seqs x") (simp_all add: strip_left.simps [of _ x] fields_def fields_from.simps [of _ x])
qed

lemma fields_strip_right_rev: "fields (rev (strip_left (map rev space_seqs) x)) = fields (rev x)"
proof (induction "map rev space_seqs" x rule: strip_left.induct)
  case (1 x)
  show ?case
  proof (cases "leading (map rev space_seqs) x")
    case None
    then show ?thesis by (simp add: strip_left_fixed)
  next
    case (Some r)
    then obtain q where q: "q \<in> set space_seqs" "r = rev q" using leading_SomeD(1) [OF Some] by auto
    have "x = rev q @ drop (length r) x" using leading_SomeD(3) [OF Some] q by (metis append_take_drop_id)
    then have "rev x = rev (drop (length r) x) @ q @ []" by (metis append_Nil2 rev_append rev_rev_ident)
    then have "fields (rev x) = fields (rev (drop (length r) x))"
      using fields_cut [OF q(1)] by (simp add: fields_def) (metis append_Nil2 fields_Nil fields_def)
    with 1 [OF Some] Some show ?thesis by (simp add: strip_left.simps [of _ x])
  qed
qed

lemma fields_trim: "fields (trim_space x) = fields x"
  using fields_strip_right_rev [of "rev (strip_left space_seqs x)"]
  by (simp add: trim_space_def strip_right_def fields_strip_left)

lemma fields_append_space: "fields (x @ CHR '' '' # y) = fields x @ fields y"
  using fields_cut [of "'' ''" "[]" x y] by (simp add: fields_def space_seqs_def)

lemma fields_from_plain: "list_all plain_char x \<Longrightarrow> w @ x \<noteq> [] \<Longrightarrow> fields_from w x = [rev w @ x]"
proof (induction x arbitrary: w)
  case Nil
  then show ?case by (simp add: fields_from.simps)
next
  case (Cons c cs)
  have "leading space_seqs (c # cs) = None" using Cons.prems space_ends by (intro leading_plain) auto
  with Cons show ?case by (simp add: fields_from.simps [of w "c # cs"])
qed

lemma fields_plain: "list_all plain_char x \<Longrightarrow> x \<noteq> [] \<Longrightarrow> fields x = [x]"
  using fields_from_plain [of x "[]"] by (simp add: fields_def)

section \<open>Replayed batches\<close>

lemma offline_target_field:
  assumes "list_all plain_char i" and "i \<noteq> []" and "oe_EventID x = i"
  shows "auditTargetHasField (trim_space (offline_target g x)) ''event_id'' i"
proof -
  have "list_all plain_char (''event_id='' @ i)" using assms(1) by (simp add: plain_char_def)
  then have f: "fields (''event_id='' @ i) = [''event_id='' @ i]" by (rule fields_plain) simp
  have "fields (offline_target g x) = fields (oe_LockID x) @ [''event_id='' @ i] @ (if g = [] then [] else fields (''gateway_id='' @ g))"
    using fields_append_space [of "oe_LockID x" "''event_id='' @ i"] assms(3) f
      fields_append_space [of "trim_space (oe_LockID x @ '' event_id='' @ i)" "''gateway_id='' @ g"]
    by (simp add: offline_target_def Let_def fields_trim)
  then have "''event_id='' @ i \<in> set (fields (trim_space (offline_target g x)))" by (simp add: fields_trim)
  moreover have "trim_space ''event_id'' = ''event_id''" by code_simp
  moreover have "trim_space i = i" using assms by (intro trim_space_plain) (auto simp: list_all_iff)
  ultimately show ?thesis by (simp add: auditTargetHasField_def Let_def)
qed

lemma hasEventID_mono: "set (ad_logs s) \<subseteq> set (ad_logs s') \<Longrightarrow> hasEventID i s \<Longrightarrow> hasEventID i s'"
  by (auto simp: hasEventID_def list_ex_iff)

lemma ingest_records:
  assumes "ingest_offline mac e (Some h) t g x s = (ok, s')" and "validateOfflineEntry x" and "list_all plain_char (oe_EventID x)"
  shows "hasEventID (oe_EventID x) s'"
proof (cases "hasEventID (oe_EventID x) s")
  case True
  with assms show ?thesis by (simp add: ingest_offline_def)
next
  case False
  with assms obtain res where
    "AppendWithTimestamp mac e (Some h) t (oe_UserID x) ''system'' (''offline_access_'' @ oe_Result x)
       (offline_target g x) (''gateway_offline_'' @ oe_Method x) (oe_Timestamp x * ns_second) s = (res, s')"
    by (auto simp: ingest_offline_def split: prod.splits sum.splits)
  from append_shape [OF this] obtain l where "al_Target l = trim_space (offline_target g x)" "ad_logs s' = chained mac l s # ad_logs s"
    by auto
  moreover have "oe_EventID x \<noteq> []" using assms(2) by (simp add: validateOfflineEntry_def)
  ultimately show ?thesis using offline_target_field [OF assms(3) _ refl] by (simp add: hasEventID_def chained_fields)
qed

lemma loop_records:
  assumes "offline_loop mac e rd (\<lambda>_. False) t g i n xs s = (ok, n', s')" and "\<And>k. rd k \<noteq> None"
    and "x \<in> set xs" "validateOfflineEntry x" "list_all plain_char (oe_EventID x)"
  shows "hasEventID (oe_EventID x) s'"
  using assms
proof (induction xs arbitrary: i n s)
  case (Cons y ys)
  obtain ok1 s1 where y: "ingest_offline mac e (rd i) t g y s = (ok1, s1)" by fastforce
  with Cons.prems(1) have rest: "offline_loop mac e rd (\<lambda>_. False) t g (Suc i) (if ok1 then Suc n else n) ys s1 = (ok, n', s')" by simp
  show ?case
  proof (cases "x = y")
    case True
    with y Cons.prems have "hasEventID (oe_EventID x) s1" using ingest_records by (metis option.exhaust)
    then show ?thesis using extends_props(3) [OF extends_loop [OF rest]] by (rule hasEventID_mono [rotated])
  next
    case False
    with Cons rest show ?thesis by auto
  qed
qed simp

lemma loop_skips:
  assumes "\<And>x. x \<in> set xs \<Longrightarrow> validateOfflineEntry x \<Longrightarrow> hasEventID (oe_EventID x) s"
  shows "offline_loop mac e rd (\<lambda>_. False) t g i n xs s = (True, n, s)"
  using assms by (induction xs arbitrary: i n) (auto simp: ingest_offline_def)

text \<open>A replayed offline batch changes nothing.  After a batch went through, sending it again, under any tenant and gateway and
  after any further run of the log, accepts no entry and leaves the state as it is, whether or not the first sending could be
  saved.  The event identifiers are printable ASCII without blanks and the random source answered.\<close>

lemma offline_batch_replay:
  assumes "IngestOfflineBatchForGateway mac e rd (\<lambda>_. False) t g xs s = (ok, n, s1)" and "\<And>k. rd k \<noteq> None"
    and "list_all (\<lambda>x. list_all plain_char (oe_EventID x)) xs"
  shows "IngestOfflineBatchForGateway mac e2 rd2 (\<lambda>_. False) t2 g2 xs (audit_run mac ops s1) = (True, 0, audit_run mac ops s1)"
proof -
  have "hasEventID (oe_EventID x) (audit_run mac ops s1)" if "x \<in> set xs" "validateOfflineEntry x" for x
  proof (rule hasEventID_mono [OF run_props(2)])
    show "hasEventID (oe_EventID x) s1"
      using assms(1) [unfolded IngestOfflineBatchForGateway_def] assms(2) that by (rule loop_records) (use assms(3) that in \<open>simp add: list_all_iff\<close>)
  qed
  then show ?thesis unfolding IngestOfflineBatchForGateway_def by (rule loop_skips)
qed

definition demo_offline :: offlineAuditEntry where
  "demo_offline = \<lparr>oe_EventID = ''e1'', oe_UserID = ''u1'', oe_LockID = ''d1'', oe_Method = ''ble'', oe_Result = ''granted'', oe_Reason = '''',
     oe_GatewayID = 1, oe_Timestamp = 5, oe_IsOffline = True\<rparr>"

lemma offline_batch_replay_instance:
  "case IngestOfflineBatchForGateway demo_mac audit_env (\<lambda>_. Some ''0a'') (\<lambda>_. False) ''t'' ''g1'' [demo_offline] demo_audit of
     (_, n, s1) \<Rightarrow> n = 1 \<and>
       IngestOfflineBatchForGateway demo_mac audit_env (\<lambda>_. Some ''0b'') (\<lambda>_. False) ''t'' ''g1'' [demo_offline] s1 = (True, 0, s1)"
proof -
  obtain ok n s1 where i: "IngestOfflineBatchForGateway demo_mac audit_env (\<lambda>_. Some ''0a'') (\<lambda>_. False) ''t'' ''g1'' [demo_offline] demo_audit = (ok, n, s1)"
    using prod_cases3 by blast
  have "validateOfflineEntry demo_offline" by code_simp
  then have "n = 1"
    using i by (auto simp: IngestOfflineBatchForGateway_def ingest_offline_def hasEventID_def demo_audit_def AppendWithTimestamp_def
        persistLocked_audit_def store_save_def Let_def)
  moreover have "list_all (\<lambda>x. list_all plain_char (oe_EventID x)) [demo_offline]" by code_simp
  then have "IngestOfflineBatchForGateway demo_mac audit_env (\<lambda>_. Some ''0b'') (\<lambda>_. False) ''t'' ''g1'' [demo_offline] (audit_run demo_mac [] s1) =
      (True, 0, audit_run demo_mac [] s1)" by (rule offline_batch_replay [OF i, rotated]) simp
  ultimately show ?thesis using i by (simp add: audit_run_def)
qed

section \<open>What the code leaves open\<close>

text \<open>The code covers the fields run together: moving text across a boundary goes unnoticed.\<close>

lemma boundary_unprotected:
  "computeAuditLogHMAC mac key (l\<lparr>al_Actor := a @ b, al_Role := c\<rparr>) = computeAuditLogHMAC mac key (l\<lparr>al_Actor := a, al_Role := b @ c\<rparr>)"
  by (simp add: computeAuditLogHMAC_def audit_content_def)

text \<open>An entry without a code is skipped: erasing the codes erases the protection.\<close>

lemma erased_codes_verify:
  assumes "ad_hmacKey s \<noteq> []"
  shows "VerifyChain mac t (s\<lparr>ad_logs := map (\<lambda>l. l\<lparr>al_Hash := []\<rparr>) ls\<rparr>) =
    Inr (- 1, length (filter (\<lambda>l. al_TenantID l = trim_space t) ls))"
proof -
  have "intact mac key (map (\<lambda>l. l\<lparr>al_Hash := []\<rparr>) xs)" for key xs
    by (induction xs) (auto simp: intact_Cons sealed_def linked_def)
  with assms show ?thesis by (simp add: VerifyChain_ok_iff filter_map comp_def)
qed

text \<open>
  The chain links entries of all tenants, and verification looks at one tenant's: an honest entry of another tenant in between is
  reported as a break.
\<close>

lemma interleaving_reported:
  assumes "ad_hmacKey s \<noteq> []" and "ad_logs s = [l3, l2, l1]" and "intact mac (ad_hmacKey s) (ad_logs s)"
    and "al_TenantID l3 = trim_space t" "al_TenantID l2 \<noteq> trim_space t" "al_TenantID l1 = trim_space t"
    and "al_Hash l3 \<noteq> []" "al_Hash l2 \<noteq> []" "al_Hash l1 \<noteq> []" "al_Hash l2 \<noteq> al_Hash l1"
  shows "VerifyChain mac t s = Inr (0, 2)"
  using assms by (simp add: VerifyChain_def sealed_def linked_def)

end
