(* ===== verification/Audit_Webhook.thy ===== *)
theory Audit_Webhook
  imports Audit_Log
begin

text \<open>
  \<open>internal/modules/audit/webhook.go\<close>: per-tenant configuration of the webhook, signed dispatch with
  retries, and the bounded list of deliveries.
\<close>

section \<open>Configuration\<close>

abbreviation no_webhook :: webhookConfig where
  "no_webhook \<equiv> \<lparr>wc_TenantID = '''', wc_Enabled = False, wc_Endpoint = '''', wc_Actions = [], wc_SigningSecret = '''',
     wc_UpdatedBy = '''', wc_UpdatedAt = zero_time\<rparr>"

fun actions_from :: "string list \<Rightarrow> string list \<Rightarrow> string list" where
  "actions_from seen [] = []"
| "actions_from seen (a # as) =
     (let x = to_lower (trim_space a) in
      if x = '''' \<or> x \<in> set seen then actions_from seen as else x # actions_from (x # seen) as)"

definition normalizeWebhookActions :: "string list \<Rightarrow> string list" where
  "normalizeWebhookActions actions = actions_from [] actions"

definition webhookActionAllowed :: "string list \<Rightarrow> string \<Rightarrow> bool" where
  "webhookActionAllowed actions action \<longleftrightarrow> actions = [] \<or> to_lower (trim_space action) \<in> set actions"

definition isHTTPWebhookEndpoint :: "string \<Rightarrow> bool" where
  "isHTTPWebhookEndpoint input =
     (let next = to_lower (trim_space input) in take 8 next = ''https://'' \<or> take 7 next = ''http://'')"

definition GetWebhookConfig :: "string \<Rightarrow> auditService \<Rightarrow> (audit_error, webhookConfig) result" where
  "GetWebhookConfig tenantID s =
     (if trim_space tenantID = '''' then Inl WebhookTenantIDRequired
      else
        (case map_of (ad_webhookConfigs s) (trim_space tenantID) of None \<Rightarrow> Inl WebhookConfigNotFound | Some c \<Rightarrow> Inr c))"

definition UpsertWebhookConfig ::
  "env \<Rightarrow> string \<Rightarrow> bool \<Rightarrow> string \<Rightarrow> string list \<Rightarrow> string \<Rightarrow> string \<Rightarrow> auditService \<Rightarrow>
   (audit_error, webhookConfig) result \<times> auditService" where
  "UpsertWebhookConfig e tenantID enabled endpoint actions signingSecret updatedBy s =
     (let t = trim_space tenantID;
          current = get_or no_webhook (map_of (ad_webhookConfigs s) t);
          next = text_or (trim_space (wc_Endpoint current)) endpoint;
          secret = text_or (trim_space (wc_SigningSecret current)) signingSecret in
      if t = '''' then (Inl WebhookTenantIDRequired, s)
      else if enabled \<and> next = '''' then (Inl WebhookEndpointRequired, s)
      else if enabled \<and> \<not> isHTTPWebhookEndpoint next then (Inl InvalidWebhookEndpoint, s)
      else
        let c = \<lparr>wc_TenantID = t, wc_Enabled = enabled, wc_Endpoint = next, wc_Actions = normalizeWebhookActions actions,
                 wc_SigningSecret = secret, wc_UpdatedBy = text_or ''system'' updatedBy, wc_UpdatedAt = env_now e\<rparr> in
        (case persistLocked_audit e (s\<lparr>ad_webhookConfigs := AList.update t c (ad_webhookConfigs s)\<rparr>) of
           (False, s1) \<Rightarrow> (Inl AuditStoreFailed, s1) | (True, s1) \<Rightarrow> (Inr c, s1)))"

definition ListWebhookDeliveries :: "string \<Rightarrow> int \<Rightarrow> auditService \<Rightarrow> webhookDelivery list" where
  "ListWebhookDeliveries tenantID limit s =
     (let t = trim_space tenantID;
          items = filter (\<lambda>d. t = '''' \<or> trim_space (wd_TenantID d) = t) (ad_webhookDeliveries s) in
      if limit > 0 \<and> int (length items) > limit then take (nat limit) items else items)"

definition FindLogByID :: "string \<Rightarrow> string \<Rightarrow> auditService \<Rightarrow> (audit_error, auditLogEntry) result" where
  "FindLogByID tenantID logID s =
     (if trim_space tenantID = '''' then Inl WebhookTenantIDRequired
      else if trim_space logID = '''' then Inl AuditLogNotFound
      else
        (case find (\<lambda>l. trim_space (al_TenantID l) = trim_space tenantID \<and> trim_space (al_ID l) = trim_space logID) (ad_logs s) of
           None \<Rightarrow> Inl AuditLogNotFound | Some l \<Rightarrow> Inr l))"

section \<open>Dispatch\<close>

definition webhookDispatchMaxAttempts :: nat where "webhookDispatchMaxAttempts = 3"
definition webhookDispatchRetryBaseDelay :: int where "webhookDispatchRetryBaseDelay = 200 * 1000000"
definition webhookDeliveryMaxRecords :: nat where "webhookDeliveryMaxRecords = 1000"

definition shouldRetryWebhookDispatch :: "nat \<Rightarrow> int \<Rightarrow> bool" where
  "shouldRetryWebhookDispatch attempt statusCode \<longleftrightarrow>
     attempt < webhookDispatchMaxAttempts \<and> (statusCode = 0 \<or> statusCode = 408 \<or> statusCode = 429 \<or> 500 \<le> statusCode)"

text \<open>The delay before the next attempt; whether the context is still alive after it is a parameter.  The wait
  answers with the timers it started, and whether the loop may go on.\<close>

definition webhook_delay :: "nat \<Rightarrow> int" where
  "webhook_delay attempt = webhookDispatchRetryBaseDelay * 2 ^ (attempt - 1)"

definition waitWebhookRetryDelay :: "(int \<Rightarrow> bool) \<Rightarrow> nat \<Rightarrow> int list \<times> bool" where
  "waitWebhookRetryDelay alive attempt =
     (if webhookDispatchMaxAttempts \<le> attempt then ([], False)
      else ([webhook_delay attempt], alive (webhook_delay attempt)))"

definition webhookPayloadSignature :: "mac \<Rightarrow> string \<Rightarrow> string \<Rightarrow> byte list \<Rightarrow> string" where
  "webhookPayloadSignature mac secret timestamp payload =
     ''sha256='' @ hex_encode (mac (bytes_of (trim_space secret)) (bytes_of (trim_space timestamp @ ''.'') @ payload))"

record webhookRequest =
  wq_Endpoint :: string
  wq_EventID :: string
  wq_EventAction :: string
  wq_Timestamp :: "string option"
  wq_Signature :: "string option"
  wq_Body :: "byte list"

datatype http_outcome = RequestInvalid | NoResponse string | BodyUnreadable int string | Response int string

definition webhook_request :: "mac \<Rightarrow> webhookConfig \<Rightarrow> auditLogEntry \<Rightarrow> time \<Rightarrow> byte list \<Rightarrow> webhookRequest" where
  "webhook_request mac c l at body =
     (let secret = trim_space (wc_SigningSecret c); ts = show_int (unix_sec at) in
      \<lparr>wq_Endpoint = wc_Endpoint c, wq_EventID = trim_space (al_ID l), wq_EventAction = trim_space (al_Action l),
       wq_Timestamp = (if secret = '''' then None else Some ts),
       wq_Signature = (if secret = '''' then None else Some (webhookPayloadSignature mac secret ts body)), wq_Body = body\<rparr>)"

text \<open>
  The loop over attempts; \<open>None\<close> stands for a request that could not be built, which is returned without a record.  The
  second component is the error of the last attempt, none after a success; the third lists the timers waited for.
\<close>

definition attempt_result :: "http_outcome \<Rightarrow> webhookDelivery \<Rightarrow> webhookDelivery \<times> audit_error option \<times> int" where
  "attempt_result out d =
     (case out of
        RequestInvalid \<Rightarrow> (d, Some AuditRequestInvalid, 0)
      | NoResponse err \<Rightarrow>
          (d\<lparr>wd_Error := trim_space err, wd_HTTPStatus := 0, wd_ResponseBody := ''''\<rparr>, Some (WebhookRequestFailed err), 0)
      | BodyUnreadable code err \<Rightarrow>
          (d\<lparr>wd_Error := trim_space err, wd_HTTPStatus := code, wd_ResponseBody := ''''\<rparr>, Some (WebhookReadFailed err), code)
      | Response code body \<Rightarrow>
          if 200 \<le> code \<and> code < 300
          then (d\<lparr>wd_HTTPStatus := code, wd_ResponseBody := trim_space body, wd_Status := ''success'', wd_Error := ''''\<rparr>, None, code)
          else (d\<lparr>wd_HTTPStatus := code, wd_ResponseBody := trim_space body, wd_Error := ''webhook status '' @ show_int code\<rparr>,
                Some (WebhookStatus code), code))"

function dispatch_loop ::
  "(nat \<Rightarrow> webhookRequest \<Rightarrow> http_outcome) \<Rightarrow> (int \<Rightarrow> bool) \<Rightarrow> webhookRequest \<Rightarrow> nat \<Rightarrow> webhookDelivery \<Rightarrow>
   (webhookDelivery \<times> audit_error option \<times> int list) option" where
  "dispatch_loop http alive req attempt d =
     (let out = http attempt req in
      if out = RequestInvalid then None
      else
        (case attempt_result out (d\<lparr>wd_AttemptCount := attempt\<rparr>) of
           (d1, None, _) \<Rightarrow> Some (d1, None, [])
         | (d1, Some err, code) \<Rightarrow>
             if \<not> shouldRetryWebhookDispatch attempt code then Some (d1, Some err, [])
             else if \<not> snd (waitWebhookRetryDelay alive attempt)
             then Some (d1, Some err, fst (waitWebhookRetryDelay alive attempt))
             else map_option (\<lambda>(d2, err2, waits). (d2, err2, fst (waitWebhookRetryDelay alive attempt) @ waits))
                    (dispatch_loop http alive req (Suc attempt) d1)))"
  by pat_completeness auto
termination
  by (relation "measure (\<lambda>(_, _, _, attempt, _). webhookDispatchMaxAttempts - attempt)")
     (auto simp: shouldRetryWebhookDispatch_def)

declare dispatch_loop.simps [simp del]

definition recordWebhookDelivery :: "env \<Rightarrow> webhookDelivery \<Rightarrow> auditService \<Rightarrow> auditService" where
  "recordWebhookDelivery e d s =
     snd (persistLocked_audit e (s\<lparr>ad_webhookDeliveries := take webhookDeliveryMaxRecords (d # ad_webhookDeliveries s)\<rparr>))"

definition DispatchWebhookForLog ::
  "mac \<Rightarrow> (string \<Rightarrow> auditLogEntry \<Rightarrow> time \<Rightarrow> byte list option) \<Rightarrow> (nat \<Rightarrow> webhookRequest \<Rightarrow> http_outcome) \<Rightarrow> (int \<Rightarrow> bool) \<Rightarrow> env \<Rightarrow>
   string \<Rightarrow> auditLogEntry \<Rightarrow> auditService \<Rightarrow> webhookDelivery option \<times> audit_error option \<times> int list \<times> auditService" where
  "DispatchWebhookForLog mac marshal http alive e tenantID l s =
     (let t = trim_space tenantID in
      if t = '''' then (None, Some WebhookTenantIDRequired, [], s)
      else
        (case map_of (ad_webhookConfigs s) t of
           None \<Rightarrow> (None, Some WebhookConfigNotFound, [], s)
         | Some c \<Rightarrow>
             if \<not> wc_Enabled c then (None, Some WebhookDisabled, [], s)
             else if \<not> webhookActionAllowed (wc_Actions c) (al_Action l) then (None, Some WebhookActionFiltered, [], s)
             else
               (case (marshal t l (env_now e), env_rand e) of
                  (Some body, Some h) \<Rightarrow>
                    (case dispatch_loop http alive (webhook_request mac c l (env_now e) body) 1
                            \<lparr>wd_TenantID = t, wd_ID = ''awd_'' @ h, wd_AuditLogID = trim_space (al_ID l), wd_Action = trim_space (al_Action l),
                             wd_Endpoint = trim_space (wc_Endpoint c), wd_Status = ''failed'', wd_AttemptCount = 0, wd_HTTPStatus = 0,
                             wd_Error = '''', wd_ResponseBody = '''', wd_DispatchedAt = env_now e\<rparr> of
                       None \<Rightarrow> (None, Some AuditRequestInvalid, [], s)
                     | Some (d, err, waits) \<Rightarrow> (Some d, err, waits, recordWebhookDelivery e d s))
                | (None, _) \<Rightarrow> (None, Some AuditRequestInvalid, [], s)
                | (_, None) \<Rightarrow> (None, Some AuditRandFailed, [], s))))"

section \<open>A dispatch ends\<close>

definition delivered :: "http_outcome \<Rightarrow> bool" where
  "delivered out \<longleftrightarrow> (case out of Response code _ \<Rightarrow> 200 \<le> code \<and> code < 300 | _ \<Rightarrow> False)"

text \<open>An outcome worth another attempt: no answer, a time-out, too many requests or a fault of the server.\<close>

definition transient :: "http_outcome \<Rightarrow> bool" where
  "transient out \<longleftrightarrow>
     (case out of
        RequestInvalid \<Rightarrow> False
      | NoResponse _ \<Rightarrow> True
      | BodyUnreadable code _ \<Rightarrow> code = 0 \<or> code = 408 \<or> code = 429 \<or> 500 \<le> code
      | Response code _ \<Rightarrow> code = 0 \<or> code = 408 \<or> code = 429 \<or> 500 \<le> code)"

lemma attempt_result_props:
  assumes "attempt_result out d = (d1, err, code)" and "out \<noteq> RequestInvalid"
  shows "err = None \<longleftrightarrow> delivered out" and "wd_AttemptCount d1 = wd_AttemptCount d"
    and "wd_Status d1 = (if delivered out then ''success'' else wd_Status d)"
    and "\<not> delivered out \<Longrightarrow> transient out \<longleftrightarrow> code = 0 \<or> code = 408 \<or> code = 429 \<or> 500 \<le> code"
  using assms by (auto simp: attempt_result_def delivered_def transient_def split: http_outcome.splits if_splits)

lemma dispatch_loop_ends:
  assumes "dispatch_loop http alive req a d = Some (d', err, waits)" and "a \<le> webhookDispatchMaxAttempts" and "wd_Status d = ''failed''"
  shows "a \<le> wd_AttemptCount d' \<and> wd_AttemptCount d' \<le> webhookDispatchMaxAttempts \<and>
    (err = None \<longleftrightarrow> delivered (http (wd_AttemptCount d') req)) \<and> wd_Status d' = (if err = None then ''success'' else ''failed'') \<and>
    (\<forall>k. a \<le> k \<longrightarrow> k < wd_AttemptCount d' \<longrightarrow> \<not> delivered (http k req) \<and> transient (http k req) \<and> alive (webhook_delay k)) \<and>
    waits = map webhook_delay [a..<a + length waits] \<and> wd_AttemptCount d' \<le> a + length waits \<and>
    a + length waits \<le> Suc (wd_AttemptCount d') \<and> a + length waits \<le> webhookDispatchMaxAttempts"
  using assms
proof (induction http alive req a d arbitrary: waits rule: dispatch_loop.induct)
  case (1 http alive req a d)
  obtain d1 err1 code where r: "attempt_result (http a req) (d\<lparr>wd_AttemptCount := a\<rparr>) = (d1, err1, code)" using prod_cases3 by blast
  have ok: "http a req \<noteq> RequestInvalid" using 1(2) by (auto simp: dispatch_loop.simps [of http alive req a] Let_def)
  note p = attempt_result_props [OF r ok]
  show ?case
  proof (cases "err1 \<noteq> None \<and> shouldRetryWebhookDispatch a code \<and> snd (waitWebhookRetryDelay alive a)")
    case True
    then have a: "Suc a \<le> webhookDispatchMaxAttempts" "transient (http a req)" "\<not> delivered (http a req)" "alive (webhook_delay a)"
      and w: "fst (waitWebhookRetryDelay alive a) = [webhook_delay a]"
      using p by (auto simp: shouldRetryWebhookDispatch_def waitWebhookRetryDelay_def split: if_splits)
    from True obtain e1 where e1: "err1 = Some e1" by auto
    from 1(2) True r ok w obtain ws where next': "dispatch_loop http alive req (Suc a) d1 = Some (d', err, ws)"
      and ws: "waits = webhook_delay a # ws"
      by (auto simp: dispatch_loop.simps [of http alive req a] Let_def split: if_splits option.splits)
    have st: "wd_Status d1 = ''failed''" using p(3) a(3) 1(4) by simp
    from True have go: "\<not> \<not> shouldRetryWebhookDispatch a code" "\<not> \<not> snd (waitWebhookRetryDelay alive a)" by simp_all
    note ih = 1(1) [OF refl ok r [unfolded e1, symmetric] refl refl go next' a(1) st]
    have "[a..<a + length waits] = a # [Suc a..<Suc a + length ws]" by (simp add: ws upt_conv_Cons del: upt_Suc)
    then have "waits = map webhook_delay [a..<a + length waits]"
      using ih ws by (metis list.map(2))
    with ih a show ?thesis by (simp add: ws) (metis le_antisym not_less_eq_eq)
  next
    case False
    with 1(2) r ok have "d' = d1" "err = err1" "waits = [] \<or> (waits = [webhook_delay a] \<and> Suc a \<le> webhookDispatchMaxAttempts)"
      by (auto simp: dispatch_loop.simps [of http alive req a] waitWebhookRetryDelay_def Let_def split: if_splits option.splits)
    with p 1(3,4) show ?thesis by auto
  qed
qed

text \<open>The two waits add up to six tenths of a second.\<close>

lemma waits_bounded:
  assumes "waits = map webhook_delay [1..<1 + length waits]" and "1 + length waits \<le> webhookDispatchMaxAttempts"
  shows "waits = take (length waits) [200 * 1000000, 400 * 1000000]" and "sum_list waits \<le> 600 * 1000000"
proof -
  have "length waits \<le> 2" using assms(2) by (simp add: webhookDispatchMaxAttempts_def)
  then have "length waits = 0 \<or> length waits = 1 \<or> length waits = 2" by arith
  then have "length waits \<in> {0, 1, 2}" by blast
  moreover have "map webhook_delay [1..<1] = []" "map webhook_delay [1..<2] = [200 * 1000000]"
    "map webhook_delay [1..<3] = [200 * 1000000, 400 * 1000000]"
    by (simp_all add: webhook_delay_def webhookDispatchRetryBaseDelay_def upt_rec)
  ultimately have "waits \<in> {[], [200 * 1000000], [200 * 1000000, 400 * 1000000]}"
    using assms(1) by (auto simp: numeral_2_eq_2 numeral_3_eq_3)
  then show "waits = take (length waits) [200 * 1000000, 400 * 1000000]" and "sum_list waits \<le> 600 * 1000000" by auto
qed

text \<open>C22: A dispatch ends after at most three attempts and is recorded once.  Whatever the endpoint answers, the result counts between
  one and three attempts; it is a success exactly when the last attempt was answered with a 2xx status; every attempt before it
  failed in a way worth repeating and was followed by a wait of 200 ms after the first and 400 ms after the second, so that the waits
  between the attempts never exceed 600 ms in all; the record is the newest of at most a thousand; and every attempt sent the same
  request, whose signature is the code of time stamp and body under the tenant's secret.\<close>

theorem webhook_dispatch_ends:
  assumes "DispatchWebhookForLog mac marshal http alive e tenantID l s = (Some d, err, waits, s')"
  shows "\<exists>c body. let req = webhook_request mac c l (env_now e) body in
    map_of (ad_webhookConfigs s) (trim_space tenantID) = Some c \<and> wc_Enabled c \<and> webhookActionAllowed (wc_Actions c) (al_Action l) \<and>
    1 \<le> wd_AttemptCount d \<and> wd_AttemptCount d \<le> 3 \<and> (err = None \<longleftrightarrow> delivered (http (wd_AttemptCount d) req)) \<and>
    wd_Status d = (if err = None then ''success'' else ''failed'') \<and>
    (\<forall>k. 1 \<le> k \<longrightarrow> k < wd_AttemptCount d \<longrightarrow> transient (http k req)) \<and>
    wd_AttemptCount d \<le> Suc (length waits) \<and> length waits \<le> wd_AttemptCount d \<and>
    waits = take (length waits) [200 * 1000000, 400 * 1000000] \<and> sum_list waits \<le> 600 * 1000000 \<and>
    ad_webhookDeliveries s' = take 1000 (d # ad_webhookDeliveries s) \<and>
    (trim_space (wc_SigningSecret c) \<noteq> [] \<longrightarrow>
      wq_Signature req = Some (webhookPayloadSignature mac (wc_SigningSecret c) (show_int (unix_sec (env_now e))) body))"
proof -
  from assms obtain c body h where c: "map_of (ad_webhookConfigs s) (trim_space tenantID) = Some c" "wc_Enabled c"
      "webhookActionAllowed (wc_Actions c) (al_Action l)"
    and run: "dispatch_loop http alive (webhook_request mac c l (env_now e) body) 1
      \<lparr>wd_TenantID = trim_space tenantID, wd_ID = ''awd_'' @ h, wd_AuditLogID = trim_space (al_ID l), wd_Action = trim_space (al_Action l),
       wd_Endpoint = trim_space (wc_Endpoint c), wd_Status = ''failed'', wd_AttemptCount = 0, wd_HTTPStatus = 0,
       wd_Error = [], wd_ResponseBody = [], wd_DispatchedAt = env_now e\<rparr> = Some (d, err, waits)" and s': "s' = recordWebhookDelivery e d s"
    by (auto simp: DispatchWebhookForLog_def Let_def split: if_splits option.splits)
  have "ad_webhookDeliveries s' = take 1000 (d # ad_webhookDeliveries s)"
    by (simp add: s' recordWebhookDelivery_def persistLocked_audit_def webhookDeliveryMaxRecords_def split: prod.split)
  moreover have "wq_Signature (webhook_request mac c l (env_now e) body) =
      Some (webhookPayloadSignature mac (wc_SigningSecret c) (show_int (unix_sec (env_now e))) body)" if "trim_space (wc_SigningSecret c) \<noteq> []"
    using that by (simp add: webhook_request_def webhookPayloadSignature_def Let_def)
  ultimately show ?thesis
    using c dispatch_loop_ends [OF run] waits_bounded [of waits] by (auto simp: webhookDispatchMaxAttempts_def Let_def)
qed

definition demo_hook :: auditService where
  "demo_hook = demo_audit\<lparr>ad_webhookConfigs := [(''t'', \<lparr>wc_TenantID = ''t'', wc_Enabled = True, wc_Endpoint = ''https://h'', wc_Actions = [],
     wc_SigningSecret = ''k'', wc_UpdatedBy = ''ann'', wc_UpdatedAt = 0\<rparr>)]\<rparr>"

abbreviation demo_http :: "nat \<Rightarrow> webhookRequest \<Rightarrow> http_outcome" where
  "demo_http k r \<equiv> (if k < 3 then Response 503 [] else Response 200 [])"

theorem webhook_dispatch_ends_witness:
  "\<exists>d err s'. DispatchWebhookForLog demo_mac (\<lambda>_ _ _. Some [1]) demo_http (\<lambda>_. True) audit_env ''t'' demo_entry demo_hook =
       (Some d, err, [200 * 1000000, 400 * 1000000], s') \<and>
     2 \<le> wd_AttemptCount d \<and> wd_AttemptCount d \<le> 3 \<and> ad_webhookDeliveries s' = take 1000 [d]"
proof -
  have tr: "trim_space ''t'' = ''t''" by code_simp
  obtain d err s' where r: "DispatchWebhookForLog demo_mac (\<lambda>_ _ _. Some [1]) demo_http (\<lambda>_. True) audit_env ''t'' demo_entry demo_hook =
      (Some d, err, [200 * 1000000, 400 * 1000000], s')"
    by (simp add: DispatchWebhookForLog_def demo_hook_def tr webhookActionAllowed_def dispatch_loop.simps attempt_result_def
        shouldRetryWebhookDispatch_def waitWebhookRetryDelay_def webhook_delay_def webhookDispatchRetryBaseDelay_def
        webhookDispatchMaxAttempts_def Let_def)
  from webhook_dispatch_ends [OF r] have "2 \<le> wd_AttemptCount d" "wd_AttemptCount d \<le> 3" "ad_webhookDeliveries s' = take 1000 (d # ad_webhookDeliveries demo_hook)"
    by (auto simp: Let_def)
  with r show ?thesis by (auto simp: demo_hook_def demo_audit_def)
qed

end
