(* ===== verification/Tenant_Registry.thy ===== *)
theory Tenant_Registry
  imports MP_Prelude Go_Strings Go_Time
begin

text \<open>
  \<open>internal/modules/tenant\<close>: the list of tenants through its layers, from the domain rules over the
  application service and the state repository to the facade.  A missing layer is \<open>None\<close>.
\<close>

record tenant =
  tn_ID :: string
  tn_Name :: string
  tn_Type :: string
  tn_HQRegion :: string
  tn_Status :: string
  tn_CreatedAt :: time

datatype tenant_error =
    TenantNameRequired | TenantNotFound | InvalidTenantStatus | InvalidTenantType | TenantRandFailed | TenantStoreFailed

section \<open>Domain\<close>

definition NormalizeStatus :: "string \<Rightarrow> (tenant_error, string) result" where
  "NormalizeStatus status =
     (let x = to_lower (trim_space status) in
      if x \<in> {''active'', ''suspended'', ''inactive''} then Inr x else Inl InvalidTenantStatus)"

definition NormalizeType :: "string \<Rightarrow> (tenant_error, string) result" where
  "NormalizeType tenantType =
     (let x = to_lower (trim_space tenantType) in
      if x = '''' then Inr ''company''
      else if x \<in> {''company'', ''studio'', ''government'', ''factory'', ''public_facility''} then Inr x
      else Inl InvalidTenantType)"

definition DefaultIDGenerator :: "env \<Rightarrow> string option" where
  "DefaultIDGenerator e = map_option ((@) ''tenant_'') (env_rand e)"

section \<open>The repository and the service\<close>

text \<open>The repository is absent, has no store, or has one.\<close>

record tenantService =
  ts_repo :: "tenant list store"
  ts_tenants :: "tenant list"

definition LoadTenants :: "env \<Rightarrow> tenant list \<Rightarrow> tenant list store \<Rightarrow> tenant list option \<times> tenant list store" where
  "LoadTenants e defaults repo =
     (case repo of
        NoStore \<Rightarrow> (Some defaults, repo)
      | Store (Some items) \<Rightarrow> (Some items, repo)
      | Store None \<Rightarrow> (case store_save e defaults repo of (ok, repo') \<Rightarrow> (if ok then Some defaults else None, repo')))"

definition SaveTenants :: "env \<Rightarrow> tenant list \<Rightarrow> tenant list store \<Rightarrow> bool \<times> tenant list store" where
  "SaveTenants e items repo = store_save e items repo"

definition NewService_tenant :: "env \<Rightarrow> tenant list \<Rightarrow> tenant list store \<Rightarrow> tenantService option \<times> tenant list store" where
  "NewService_tenant e defaults repo =
     (case LoadTenants e defaults repo of
        (None, repo') \<Rightarrow> (None, repo') | (Some items, repo') \<Rightarrow> (Some \<lparr>ts_repo = repo', ts_tenants = items\<rparr>, repo'))"

definition persistLocked_tenant :: "env \<Rightarrow> tenantService \<Rightarrow> bool \<times> tenantService" where
  "persistLocked_tenant e s = (case SaveTenants e (ts_tenants s) (ts_repo s) of (ok, repo) \<Rightarrow> (ok, s\<lparr>ts_repo := repo\<rparr>))"

definition Create_tenant ::
  "env \<Rightarrow> string \<Rightarrow> string \<Rightarrow> string \<Rightarrow> tenantService \<Rightarrow> (tenant_error, tenant) result \<times> tenantService" where
  "Create_tenant e name tenantType hqRegion s =
     (if trim_space name = '''' then (Inl TenantNameRequired, s)
      else
        (case NormalizeType tenantType of
           Inl err \<Rightarrow> (Inl err, s)
         | Inr ty \<Rightarrow>
             (case DefaultIDGenerator e of
                None \<Rightarrow> (Inl TenantRandFailed, s)
              | Some i \<Rightarrow>
                  let r = \<lparr>tn_ID = i, tn_Name = trim_space name, tn_Type = ty, tn_HQRegion = trim_space hqRegion, tn_Status = ''active'',
                           tn_CreatedAt = env_now e\<rparr> in
                  (case persistLocked_tenant e (s\<lparr>ts_tenants := ts_tenants s @ [r]\<rparr>) of
                     (False, s1) \<Rightarrow> (Inl TenantStoreFailed, s1) | (True, s1) \<Rightarrow> (Inr r, s1)))))"

definition UpdateStatus_tenant ::
  "env \<Rightarrow> string \<Rightarrow> string \<Rightarrow> tenantService \<Rightarrow> (tenant_error, tenant) result \<times> tenantService" where
  "UpdateStatus_tenant e tenantID status s =
     (if trim_space tenantID = '''' then (Inl TenantNotFound, s)
      else
        (case NormalizeStatus status of
           Inl err \<Rightarrow> (Inl err, s)
         | Inr st \<Rightarrow>
             (case find_idx (\<lambda>r. tn_ID r = trim_space tenantID) (ts_tenants s) of
                None \<Rightarrow> (Inl TenantNotFound, s)
              | Some i \<Rightarrow>
                  let r = (ts_tenants s ! i)\<lparr>tn_Status := st\<rparr> in
                  (case persistLocked_tenant e (s\<lparr>ts_tenants := (ts_tenants s)[i := r]\<rparr>) of
                     (False, s1) \<Rightarrow> (Inl TenantStoreFailed, s1) | (True, s1) \<Rightarrow> (Inr r, s1)))))"

section \<open>The facade\<close>

definition Facade_List :: "tenantService option \<Rightarrow> tenant list" where
  "Facade_List f = (case f of None \<Rightarrow> [] | Some s \<Rightarrow> ts_tenants s)"

definition Facade_Create ::
  "env \<Rightarrow> string \<Rightarrow> string \<Rightarrow> string \<Rightarrow> tenantService option \<Rightarrow> (tenant_error, tenant) result \<times> tenantService option" where
  "Facade_Create e name tenantType hqRegion f =
     (case f of None \<Rightarrow> (Inl TenantNotFound, f) | Some s \<Rightarrow> map_prod id Some (Create_tenant e name tenantType hqRegion s))"

definition Facade_UpdateStatus ::
  "env \<Rightarrow> string \<Rightarrow> string \<Rightarrow> tenantService option \<Rightarrow> (tenant_error, tenant) result \<times> tenantService option" where
  "Facade_UpdateStatus e tenantID status f =
     (case f of None \<Rightarrow> (Inl TenantNotFound, f) | Some s \<Rightarrow> map_prod id Some (UpdateStatus_tenant e tenantID status s))"

section \<open>Runs\<close>

datatype tenant_op = TenantCreate string string string | TenantStatus string string

fun tenant_step :: "env \<times> tenant_op \<Rightarrow> tenantService \<Rightarrow> tenantService" where
  "tenant_step (e, TenantCreate n t h) s = snd (Create_tenant e n t h s)"
| "tenant_step (e, TenantStatus i x) s = snd (UpdateStatus_tenant e i x s)"

definition known_status :: "string \<Rightarrow> bool" where
  "known_status x \<longleftrightarrow> x \<in> {''active'', ''suspended'', ''inactive''}"

definition known_type :: "string \<Rightarrow> bool" where
  "known_type x \<longleftrightarrow> x \<in> {''company'', ''studio'', ''government'', ''factory'', ''public_facility''}"

definition tenant_ok :: "tenant \<Rightarrow> bool" where
  "tenant_ok r \<longleftrightarrow> tn_Name r \<noteq> [] \<and> trim_space (tn_Name r) = tn_Name r \<and> known_type (tn_Type r) \<and> known_status (tn_Status r)"

lemma normalized_known: "NormalizeStatus x = Inr y \<Longrightarrow> known_status y" "NormalizeType x = Inr z \<Longrightarrow> known_type z"
  by (auto simp: NormalizeStatus_def NormalizeType_def known_status_def known_type_def Let_def split: if_splits)

lemma persist_tenant_frame: "persistLocked_tenant e s = (b, s') \<Longrightarrow> ts_tenants s' = ts_tenants s"
  by (auto simp: persistLocked_tenant_def split: prod.splits)

lemma persist_tenant_synced:
  "env_save_ok e \<Longrightarrow> in_sync (ts_tenants (snd (persistLocked_tenant e s))) (ts_repo (snd (persistLocked_tenant e s)))"
  by (auto simp: persistLocked_tenant_def SaveTenants_def store_save_def in_sync_def split: store.split)

lemma create_shape:
  "ts_tenants (snd (Create_tenant e n t h s)) = ts_tenants s \<or>
   (\<exists>r. ts_tenants (snd (Create_tenant e n t h s)) = ts_tenants s @ [r] \<and> tenant_ok r)"
proof -
  have "known_status ''active''" by (simp add: known_status_def)
  then show ?thesis
    by (auto simp: Create_tenant_def tenant_ok_def trim_space_idem Let_def dest!: persist_tenant_frame normalized_known(2)
        split: sum.split option.split prod.split bool.split)
qed

lemma status_shape:
  "ts_tenants (snd (UpdateStatus_tenant e i x s)) = ts_tenants s \<or>
   (\<exists>k st. k < length (ts_tenants s) \<and> known_status st \<and>
     ts_tenants (snd (UpdateStatus_tenant e i x s)) = (ts_tenants s)[k := (ts_tenants s ! k)\<lparr>tn_Status := st\<rparr>])"
proof -
  have frame: "ts_tenants (snd (case persistLocked_tenant e u of (False, s1) \<Rightarrow> (Inl TenantStoreFailed, s1) | (True, s1) \<Rightarrow> (Inr r, s1))) =
      ts_tenants u" for u and r :: tenant
    by (auto dest: persist_tenant_frame split: prod.split bool.split)
  show ?thesis
  proof (cases "NormalizeStatus x")
    case (Inr st)
    then have "known_status st" by (rule normalized_known(1))
    with Inr show ?thesis
      by (cases "find_idx (\<lambda>r. tn_ID r = trim_space i) (ts_tenants s)")
        (auto simp: UpdateStatus_tenant_def Let_def frame dest: find_idx_SomeD(1))
  qed (simp add: UpdateStatus_tenant_def)
qed

lemma tenant_ok_update:
  "list_all tenant_ok xs \<Longrightarrow> k < length xs \<Longrightarrow> known_status st \<Longrightarrow> list_all tenant_ok (xs[k := (xs ! k)\<lparr>tn_Status := st\<rparr>])"
  by (auto simp: list_all_iff tenant_ok_def dest!: set_update_subset_insert [THEN subsetD])

text \<open>Every stored tenant keeps a name, a known type and a known status, through every operation and failing saves.\<close>

lemma tenants_valid: "list_all tenant_ok (ts_tenants s) \<Longrightarrow> list_all tenant_ok (ts_tenants (fold tenant_step ops s))"
proof (induction ops arbitrary: s)
  case (Cons x ops)
  obtain e op where x: "x = (e, op)" by (cases x)
  have "list_all tenant_ok (ts_tenants (tenant_step x s))"
  proof (cases op)
    case (TenantCreate n t h)
    then show ?thesis using create_shape [of e n t h s] Cons.prems x by auto
  next
    case (TenantStatus i st)
    then show ?thesis
      using status_shape [of e i st s] Cons.prems x by (auto simp: tenant_ok_update)
  qed
  with Cons.IH show ?case by simp
qed simp

text \<open>While saves succeed, a restart restores the tenants.\<close>

lemma tenants_survive_restart:
  assumes "in_sync (ts_tenants s) (ts_repo s)" "ts_repo s \<noteq> NoStore" and "list_all (\<lambda>(e, _). env_save_ok e) ops"
  shows "\<exists>s' r. NewService_tenant e' defaults (ts_repo (fold tenant_step ops s)) = (Some s', r) \<and>
    ts_tenants s' = ts_tenants (fold tenant_step ops s)"
proof -
  have step: "in_sync (ts_tenants (tenant_step x s)) (ts_repo (tenant_step x s)) \<and> ts_repo (tenant_step x s) \<noteq> NoStore"
    if "in_sync (ts_tenants s) (ts_repo s)" "ts_repo s \<noteq> NoStore" "env_save_ok (fst x)" for x s
    using that by (cases x; cases "snd x")
      (auto simp: Create_tenant_def UpdateStatus_tenant_def persistLocked_tenant_def SaveTenants_def store_save_def in_sync_def Let_def
        split: sum.split option.split prod.split bool.split if_splits store.splits)
  have "in_sync (ts_tenants (fold tenant_step ops s)) (ts_repo (fold tenant_step ops s)) \<and> ts_repo (fold tenant_step ops s) \<noteq> NoStore"
    using assms
  proof (induction ops arbitrary: s)
    case (Cons x ops)
    with step [of s x] show ?case by (auto simp: case_prod_beta)
  qed simp
  then show ?thesis by (auto simp: NewService_tenant_def LoadTenants_def in_sync_def split: store.split option.split)
qed

end
