(* ===== verification/Cas_Store.thy ===== *)
theory Cas_Store
  imports MP_Prelude
begin

text \<open>
  Services whose state is one snapshot in a store that several server processes share.  Every
  change goes through \<open>mutateStateLocked\<close>: load the snapshot, run the change on a copy, and put the
  copy back with compare-and-swap, at most five times.  The function occurs in \<open>modules/hris/dlq.go\<close> and
  \<open>modules/hris/pull_worker.go\<close>, which differ in how they copy and tidy their snapshot; the differences are a
  record of functions.  A change is a Go closure: the variables it captures are threaded through the
  attempts.  Below the function the same attempts appear as single accesses to the store, and any
  number of processes interleave them.
\<close>

section \<open>The function\<close>

text \<open>A closure \<open>func() (bool, error)\<close> with its captured variables \<open>'v\<close> over the snapshot \<open>'s\<close>.\<close>

type_synonym ('v, 's, 'e) mutator = "'v \<Rightarrow> 's \<Rightarrow> ('e, bool \<times> 'v \<times> 's) result"

text \<open>How a service reads, copies and tidies its snapshot: the view \<open>Load\<close> gives of what is stored, the copy kept in
  memory, the copy that a plain refresh keeps, and the tidying after a change.\<close>

record 's snapshots =
  sn_view :: "'s \<Rightarrow> 's"
  sn_copy :: "'s \<Rightarrow> 's"
  sn_refresh :: "'s \<Rightarrow> 's"
  sn_tidy :: "'s \<Rightarrow> 's"

text \<open>Answers of the store: \<open>None\<close> is an error.  A store without \<open>CompareAndSwap\<close> has no \<open>so_cas\<close>.\<close>

record ('w, 's) store_ops =
  so_load :: "'w \<Rightarrow> 's option option \<times> 'w"
  so_save :: "'s \<Rightarrow> 'w \<Rightarrow> bool \<times> 'w"
  so_cas :: "('s option \<Rightarrow> 's \<Rightarrow> 'w \<Rightarrow> bool option \<times> 'w) option"

datatype 'e mutation_error = Mutator 'e | StoreFailed | StateConflict

text \<open>What the process does next: read the store with so many attempts left, swap, or return.\<close>

datatype ('v, 's, 'e) phase =
    Reading nat 'v
  | Swapping nat 'v "'s option" 's
  | Finished "'e mutation_error option" 'v

definition maxStateCASRetries :: nat where "maxStateCASRetries = 5"

text \<open>The snapshot an attempt starts from: the stored one, or what was in memory before the first attempt.\<close>

definition start_from :: "'s snapshots \<Rightarrow> 's \<Rightarrow> 's option \<Rightarrow> 's" where
  "start_from c base found = (case found of None \<Rightarrow> sn_copy c base | Some s \<Rightarrow> sn_copy c (sn_view c s))"

text \<open>After a load: run the closure; the second component is the memory of the service.\<close>

definition on_load ::
  "'s snapshots \<Rightarrow> ('v, 's, 'e) mutator \<Rightarrow> 's \<Rightarrow> nat \<Rightarrow> 'v \<Rightarrow> 's \<Rightarrow> 's option option \<Rightarrow> ('v, 's, 'e) phase \<times> 's" where
  "on_load c m base k v mem answer =
     (case answer of
        None \<Rightarrow> (if k = 0 then (Finished (Some StateConflict) v, sn_copy c base) else (Finished (Some StoreFailed) v, mem))
      | Some found \<Rightarrow>
          let cur = start_from c base found in
          if k = 0 then (Finished (Some StateConflict) v, cur)
          else (case m v cur of
                  Inl err \<Rightarrow> (Finished (Some (Mutator err)) v, cur)
                | Inr (False, v', _) \<Rightarrow> (Finished None v', cur)
                | Inr (True, v', s') \<Rightarrow> (Swapping (k - 1) v' found (sn_tidy c s'), sn_tidy c s')))"

text \<open>After a swap.\<close>

definition on_swap ::
  "'s snapshots \<Rightarrow> 's \<Rightarrow> nat \<Rightarrow> 'v \<Rightarrow> 's option \<Rightarrow> 's \<Rightarrow> bool option \<Rightarrow> ('v, 's, 'e) phase \<times> 's" where
  "on_swap c base k v found nx answer =
     (case answer of
        None \<Rightarrow> (Finished (Some StoreFailed) v, start_from c base found)
      | Some True \<Rightarrow> (Finished None v, nx)
      | Some False \<Rightarrow> (Reading k v, nx))"

fun phase_size :: "('v, 's, 'e) phase \<Rightarrow> nat" where
  "phase_size (Reading k v) = Suc (2 * k)"
| "phase_size (Swapping k v found nx) = Suc (Suc (2 * k))"
| "phase_size (Finished r v) = 0"

lemma on_load_size: "(p, mem') = on_load c m base k v mem answer \<Longrightarrow> phase_size p < Suc (2 * k)"
  by (cases k) (auto simp: on_load_def Let_def split: option.splits sum.splits bool.splits)

lemma on_swap_size: "(p, mem') = on_swap c base k v found nx answer \<Longrightarrow> phase_size p < Suc (Suc (2 * k))"
  by (auto simp: on_swap_def split: option.splits bool.splits)

text \<open>The loop.\<close>

function cas_loop ::
  "'s snapshots \<Rightarrow> ('v, 's, 'e) mutator \<Rightarrow> ('w \<Rightarrow> 's option option \<times> 'w) \<Rightarrow> ('s option \<Rightarrow> 's \<Rightarrow> 'w \<Rightarrow> bool option \<times> 'w) \<Rightarrow> 's \<Rightarrow>
   ('v, 's, 'e) phase \<Rightarrow> 's \<Rightarrow> 'w \<Rightarrow> 'e mutation_error option \<times> 'v \<times> 's \<times> 'w" where
  "cas_loop c m load cas base (Reading k v) mem w =
     (case load w of (answer, w') \<Rightarrow> case on_load c m base k v mem answer of (p, mem') \<Rightarrow> cas_loop c m load cas base p mem' w')"
| "cas_loop c m load cas base (Swapping k v found nx) mem w =
     (case cas (map_option (sn_view c) found) (sn_copy c nx) w of
        (answer, w') \<Rightarrow> case on_swap c base k v found nx answer of (p, mem') \<Rightarrow> cas_loop c m load cas base p mem' w')"
| "cas_loop c m load cas base (Finished r v) mem w = (r, v, mem, w)"
  by pat_completeness auto
termination
  by (relation "measure (\<lambda>(_, _, _, _, _, p, _, _). phase_size p)") (auto dest: on_load_size on_swap_size)

definition mutateStateLocked ::
  "'s snapshots \<Rightarrow> ('v, 's, 'e) mutator \<Rightarrow> ('w, 's) store_ops option \<Rightarrow> 'v \<Rightarrow> 's \<Rightarrow> 'w \<Rightarrow> 'e mutation_error option \<times> 'v \<times> 's \<times> 'w" where
  "mutateStateLocked c m stateStore v mem w =
     (case stateStore of
        None \<Rightarrow>
          (case m v mem of
             Inl err \<Rightarrow> (Some (Mutator err), v, mem, w)
           | Inr (changed, v', s') \<Rightarrow> (None, v', if changed then sn_tidy c s' else s', w))
      | Some st \<Rightarrow>
          (case so_cas st of
             None \<Rightarrow>
               (case so_load st w of
                  (None, w1) \<Rightarrow> (Some StoreFailed, v, mem, w1)
                | (Some found, w1) \<Rightarrow>
                    let cur = (case found of None \<Rightarrow> mem | Some s \<Rightarrow> sn_refresh c (sn_view c s)) in
                    (case m v cur of
                       Inl err \<Rightarrow> (Some (Mutator err), v, cur, w1)
                     | Inr (False, v', s') \<Rightarrow> (None, v', s', w1)
                     | Inr (True, v', s') \<Rightarrow>
                         (case so_save st (sn_copy c (sn_tidy c s')) w1 of
                            (ok, w2) \<Rightarrow> (if ok then None else Some StoreFailed, v', sn_tidy c s', w2))))
           | Some cas \<Rightarrow> cas_loop c m (so_load st) cas mem (Reading maxStateCASRetries v) mem w))"

section \<open>Processes that share a store\<close>

text \<open>The store holds a snapshot or nothing.  An access is answered, fails, or is carried out although it reports a failure, as
  \<open>PostgresStore.CompareAndSwap\<close> does when the projection after its commit fails.\<close>

datatype fate = Answers | Fails | FailsCommitted

text \<open>A call is the operation with its captured variables at the start and its closure.\<close>

type_synonym ('o, 'v, 's, 'e) program = "'o \<Rightarrow> 'v \<times> ('v, 's, 'e) mutator"

record ('o, 'v, 's) commit =
  cm_proc :: nat
  cm_op :: 'o
  cm_var :: 'v
  cm_after :: 's

record ('o, 'v, 's, 'e) cluster =
  cl_store :: "'s option"
  cl_mem :: "nat \<Rightarrow> 's"
  cl_calls :: "nat \<Rightarrow> ('o \<times> 's \<times> ('v, 's, 'e) phase) option"
  cl_log :: "('o, 'v, 's) commit list"

datatype 'o event = Call nat 'o | Access nat fate

definition set_proc ::
  "nat \<Rightarrow> 'o \<Rightarrow> 's \<Rightarrow> ('v, 's, 'e) phase \<times> 's \<Rightarrow> ('o, 'v, 's, 'e) cluster \<Rightarrow> ('o, 'v, 's, 'e) cluster" where
  "set_proc i op base r cl = cl\<lparr>cl_calls := (cl_calls cl)(i \<mapsto> (op, base, fst r)), cl_mem := (cl_mem cl)(i := snd r)\<rparr>"

definition swap_works :: "'s snapshots \<Rightarrow> 's option \<Rightarrow> 's option \<Rightarrow> bool" where
  "swap_works c found stored \<longleftrightarrow> stored = map_option (sn_view c) found"

text \<open>The process holds its lock during a call: a second call waits, which is no event.\<close>

fun cluster_step ::
  "'s snapshots \<Rightarrow> ('o, 'v, 's, 'e) program \<Rightarrow> 'o event \<Rightarrow> ('o, 'v, 's, 'e) cluster \<Rightarrow> ('o, 'v, 's, 'e) cluster" where
  "cluster_step c prog (Call i op) cl =
     (case cl_calls cl i of
        Some (_, _, Reading _ _) \<Rightarrow> cl
      | Some (_, _, Swapping _ _ _ _) \<Rightarrow> cl
      | _ \<Rightarrow> set_proc i op (cl_mem cl i) (Reading maxStateCASRetries (fst (prog op)), cl_mem cl i) cl)"
| "cluster_step c prog (Access i fate) cl =
     (case cl_calls cl i of
        None \<Rightarrow> cl
      | Some (op, base, Finished _ _) \<Rightarrow> cl
      | Some (op, base, Reading k v) \<Rightarrow>
          set_proc i op base
            (on_load c (snd (prog op)) base k v (cl_mem cl i) (if fate = Answers then Some (cl_store cl) else None)) cl
      | Some (op, base, Swapping k v found nx) \<Rightarrow>
          let works = swap_works c found (cl_store cl);
              cl1 = (if works \<and> fate \<noteq> Fails
                     then cl\<lparr>cl_store := Some (sn_copy c nx),
                             cl_log := \<lparr>cm_proc = i, cm_op = op, cm_var = v, cm_after = sn_copy c nx\<rparr> # cl_log cl\<rparr>
                     else cl) in
          set_proc i op base (on_swap c base k v found nx (if fate = Answers then Some works else None)) cl1)"

definition cluster_run ::
  "'s snapshots \<Rightarrow> ('o, 'v, 's, 'e) program \<Rightarrow> 'o event list \<Rightarrow> ('o, 'v, 's, 'e) cluster \<Rightarrow> ('o, 'v, 's, 'e) cluster" where
  "cluster_run c prog = fold (cluster_step c prog)"

definition fresh_cluster :: "'s \<Rightarrow> ('o, 'v, 's, 'e) cluster" where
  "fresh_cluster init = \<lparr>cl_store = None, cl_mem = (\<lambda>_. init), cl_calls = (\<lambda>_. None), cl_log = []\<rparr>"

section \<open>Alone on the store\<close>

definition reg_load :: "'s option \<Rightarrow> 's option option \<times> 's option" where
  "reg_load st = (Some st, st)"

definition reg_cas :: "'s option \<Rightarrow> 's \<Rightarrow> 's option \<Rightarrow> bool option \<times> 's option" where
  "reg_cas expected nx st = (if st = expected then (Some True, Some nx) else (Some False, st))"

lemma set_proc_simps [simp]:
  "cl_store (set_proc i op base r cl) = cl_store cl" "cl_log (set_proc i op base r cl) = cl_log cl"
  "cl_mem (set_proc i op base r cl) i = snd r" "cl_calls (set_proc i op base r cl) i = Some (op, base, fst r)"
  "j \<noteq> i \<Longrightarrow> cl_mem (set_proc i op base r cl) j = cl_mem cl j" "j \<noteq> i \<Longrightarrow> cl_calls (set_proc i op base r cl) j = cl_calls cl j"
  by (simp_all add: set_proc_def)

lemma finished_stays:
  "cl_calls cl i = Some (op, base, Finished r v) \<Longrightarrow> (cluster_step c prog (Access i Answers) ^^ n) cl = cl"
  by (induction n) auto

text \<open>The loop of a call is the sequence of its accesses.\<close>

lemma loop_is_schedule:
  fixes p :: "('v, 's, 'e) phase"
  assumes "cl_calls cl i = Some (op, base, p)" and "cl_mem cl i = mem" and "cl_store cl = st" and "snd (prog op) = m"
    and "cas_loop c m reg_load reg_cas base p mem st = (r, v, mem', st')" and "phase_size p \<le> n"
  shows "let cl' = (cluster_step c prog (Access i Answers) ^^ n) cl in
    cl_calls cl' i = Some (op, base, Finished r v) \<and> cl_mem cl' i = mem' \<and> cl_store cl' = st'"
  using assms
proof (induction "phase_size p" arbitrary: p mem st cl n rule: less_induct)
  case less
  show ?case
  proof (cases p)
    case (Reading k u)
    let ?r = "on_load c m base k u mem (Some st)"
    obtain n' where n: "n = Suc n'" using less.prems(6) Reading by (cases n) auto
    have size: "phase_size (fst ?r) < phase_size p" using on_load_size [of "fst ?r" "snd ?r" c m base k u mem "Some st"] Reading by simp
    have "cluster_step c prog (Access i Answers) cl = set_proc i op base ?r cl" using less.prems(1-4) Reading by simp
    moreover have "cas_loop c m reg_load reg_cas base (fst ?r) (snd ?r) st = (r, v, mem', st')"
      using less.prems(5) Reading by (simp add: reg_load_def case_prod_beta)
    ultimately show ?thesis
      using less.hyps [OF size, of "set_proc i op base ?r cl" "snd ?r" st n'] less.prems(3,4,6) size n
      by (simp add: funpow_Suc_right del: funpow.simps)
  next
    case (Swapping k u found nx)
    define w where "w = swap_works c found st"
    let ?r = "on_swap c base k u found nx (Some w) :: ('v, 's, 'e) phase \<times> 's"
    obtain n' where n: "n = Suc n'" using less.prems(6) Swapping by (cases n) auto
    have size: "phase_size (fst ?r) < phase_size p" using on_swap_size [of "fst ?r" "snd ?r" c base k u found nx "Some w"] Swapping by simp
    define st1 where "st1 = (if w then Some (sn_copy c nx) else st)"
    obtain cl1 where cl1: "cluster_step c prog (Access i Answers) cl = set_proc i op base ?r cl1" "cl_store cl1 = st1"
      using less.prems(1-4) Swapping by (simp add: Let_def w_def st1_def)
    have "cas_loop c m reg_load reg_cas base (fst ?r) (snd ?r) st1 = (r, v, mem', st')"
      using less.prems(5) Swapping by (auto simp: reg_cas_def case_prod_beta w_def st1_def swap_works_def split: if_splits)
    then show ?thesis
      using less.hyps [OF size, of "set_proc i op base ?r cl1" "snd ?r" st1 n'] less.prems(4,6) size n cl1
      by (simp add: funpow_Suc_right del: funpow.simps)
  next
    case (Finished r' u)
    then show ?thesis using less.prems by (simp add: finished_stays Let_def)
  qed
qed

text \<open>Single accesses, as equations between clusters.\<close>

lemma set_proc_twice [simp]: "set_proc i op base r (set_proc i op' base' r' cl) = set_proc i op base r cl"
  by (simp add: set_proc_def)

lemma call_turn:
  "(\<forall>op base p. cl_calls cl i = Some (op, base, p) \<longrightarrow> (\<exists>r v. p = Finished r v)) \<Longrightarrow>
   cluster_step c prog (Call i op) cl = set_proc i op (cl_mem cl i) (Reading maxStateCASRetries (fst (prog op)), cl_mem cl i) cl"
  by (auto split: option.split phase.split)

lemma read_turn:
  assumes "cl_calls cl i = Some (op, base, Reading (Suc k) v)" and "snd (prog op) v (start_from c base (cl_store cl)) = Inr (True, v', s')"
  shows "cluster_step c prog (Access i Answers) cl = set_proc i op base (Swapping k v' (cl_store cl) (sn_tidy c s'), sn_tidy c s') cl"
  using assms by (simp add: on_load_def)

lemma swap_turn:
  assumes "cl_calls cl i = Some (op, base, Swapping k v found nx)" and "swap_works c found (cl_store cl)"
  shows "cluster_step c prog (Access i Answers) cl = set_proc i op base (Finished None v, nx)
    (cl\<lparr>cl_store := Some (sn_copy c nx), cl_log := \<lparr>cm_proc = i, cm_op = op, cm_var = v, cm_after = sn_copy c nx\<rparr> # cl_log cl\<rparr>)"
  using assms by (simp add: on_swap_def)

lemma lost_turn:
  assumes "cl_calls cl i = Some (op, base, Swapping k v found nx)" and "\<not> swap_works c found (cl_store cl)"
  shows "cluster_step c prog (Access i Answers) cl = set_proc i op base (Reading k v, nx) cl"
  using assms by (simp add: on_swap_def)

text \<open>A process that nobody disturbs commits with its first attempt.\<close>

lemma whole_turn:
  fixes cl :: "('o, 'v, 's, 'e) cluster"
  assumes "\<forall>op base p. cl_calls cl i = Some (op, base, p) \<longrightarrow> (\<exists>r v. p = Finished r v)"
    and "snd (prog op) (fst (prog op)) (start_from c (cl_mem cl i) (cl_store cl)) = Inr (True, v', s')"
    and "cl_store cl = map_option (sn_view c) (cl_store cl)"
  shows "cluster_run c prog [Call i op, Access i Answers, Access i Answers] cl =
    set_proc i op (cl_mem cl i) (Finished None v', sn_tidy c s')
      (cl\<lparr>cl_store := Some (sn_copy c (sn_tidy c s')),
          cl_log := \<lparr>cm_proc = i, cm_op = op, cm_var = v', cm_after = sn_copy c (sn_tidy c s')\<rparr> # cl_log cl\<rparr>)"
proof -
  let ?r = "(Reading 5 (fst (prog op)), cl_mem cl i) :: ('v, 's, 'e) phase \<times> 's"
  let ?s = "(Swapping 4 v' (cl_store cl) (sn_tidy c s'), sn_tidy c s') :: ('v, 's, 'e) phase \<times> 's"
  have 1: "cluster_step c prog (Call i op) cl = set_proc i op (cl_mem cl i) ?r cl"
    using call_turn [OF assms(1)] by (simp add: maxStateCASRetries_def)
  have 2: "cluster_step c prog (Access i Answers) (set_proc i op (cl_mem cl i) ?r cl) = set_proc i op (cl_mem cl i) ?s cl"
    using assms(2) by (subst read_turn [where k = 4]) (simp_all add: numeral_eq_Suc)
  have "swap_works c (cl_store cl) (cl_store cl)" using assms(3) by (simp add: swap_works_def)
  then have "cluster_step c prog (Access i Answers) (set_proc i op (cl_mem cl i) ?s cl) =
      set_proc i op (cl_mem cl i) (Finished None v', sn_tidy c s')
       ((set_proc i op (cl_mem cl i) ?s cl)\<lparr>cl_store := Some (sn_copy c (sn_tidy c s')),
          cl_log := \<lparr>cm_proc = i, cm_op = op, cm_var = v', cm_after = sn_copy c (sn_tidy c s')\<rparr> # cl_log cl\<rparr>)"
    by (subst swap_turn) simp_all
  then show ?thesis by (simp only: cluster_run_def fold.simps 1 2 id_o o_apply id_apply) (simp add: set_proc_def)
qed

section \<open>Commits form one history\<close>

fun contents :: "'s \<Rightarrow> ('o, 'v, 's) commit list \<Rightarrow> 's" where
  "contents init [] = init"
| "contents init (k # log) = cm_after k"

text \<open>A commit is the whole change, applied to what the history has reached.\<close>

definition applied :: "'s snapshots \<Rightarrow> ('o, 'v, 's, 'e) program \<Rightarrow> 's \<Rightarrow> ('o, 'v, 's) commit \<Rightarrow> bool" where
  "applied c prog s k \<longleftrightarrow>
     (\<exists>v s'. snd (prog (cm_op k)) v (sn_copy c (sn_view c s)) = Inr (True, cm_var k, s') \<and> cm_after k = sn_copy c (sn_tidy c s'))"

fun linear :: "'s snapshots \<Rightarrow> ('o, 'v, 's, 'e) program \<Rightarrow> 's \<Rightarrow> ('o, 'v, 's) commit list \<Rightarrow> bool" where
  "linear c prog init [] \<longleftrightarrow> True"
| "linear c prog init (k # log) \<longleftrightarrow> linear c prog init log \<and> applied c prog (contents init log) k"

text \<open>What a process holds: a proposal made from the snapshot it read, and after a success a commit of its own or a closure that
  found nothing to change.\<close>

definition proc_ok ::
  "'s snapshots \<Rightarrow> ('o, 'v, 's, 'e) program \<Rightarrow> 's \<Rightarrow> ('o, 'v, 's) commit list \<Rightarrow> nat \<Rightarrow> 'o \<times> 's \<times> ('v, 's, 'e) phase \<Rightarrow> bool" where
  "proc_ok c prog init log i = (\<lambda>(op, base, p).
     case p of
       Reading k v \<Rightarrow> log = [] \<longrightarrow> base = init
     | Swapping k v found nx \<Rightarrow>
         (log = [] \<longrightarrow> base = init \<and> found = None) \<and>
         (\<exists>v0 s'. snd (prog op) v0 (start_from c init found) = Inr (True, v, s') \<and> nx = sn_tidy c s')
     | Finished r v \<Rightarrow>
         r = None \<longrightarrow> (\<exists>k\<in>set log. cm_proc k = i \<and> cm_op k = op \<and> cm_var k = v) \<or>
           (\<exists>v0 s s'. snd (prog op) v0 s = Inr (False, v, s')))"

definition slot_ok ::
  "'s snapshots \<Rightarrow> ('o, 'v, 's, 'e) program \<Rightarrow> 's \<Rightarrow> ('o, 'v, 's) commit list \<Rightarrow> nat \<Rightarrow> ('o \<times> 's \<times> ('v, 's, 'e) phase) option \<Rightarrow> 's \<Rightarrow> bool" where
  "slot_ok c prog init log i call mem \<longleftrightarrow>
     (case call of
        None \<Rightarrow> log = [] \<longrightarrow> mem = init
      | Some (op, base, p) \<Rightarrow>
          proc_ok c prog init log i (op, base, p) \<and>
          (log = [] \<longrightarrow> (case p of Swapping _ _ _ _ \<Rightarrow> True | _ \<Rightarrow> mem = init)))"

definition cluster_ok :: "'s snapshots \<Rightarrow> ('o, 'v, 's, 'e) program \<Rightarrow> 's \<Rightarrow> ('o, 'v, 's, 'e) cluster \<Rightarrow> bool" where
  "cluster_ok c prog init cl \<longleftrightarrow>
     linear c prog init (cl_log cl) \<and>
     cl_store cl = (if cl_log cl = [] then None else Some (contents init (cl_log cl))) \<and>
     (\<forall>i. slot_ok c prog init (cl_log cl) i (cl_calls cl i) (cl_mem cl i))"

lemma set_proc_ok:
  assumes "cluster_ok c prog init cl" and "slot_ok c prog init (cl_log cl) i (Some (op, base, fst r)) (snd r)"
  shows "cluster_ok c prog init (set_proc i op base r cl)"
proof -
  have "slot_ok c prog init (cl_log cl) j (cl_calls (set_proc i op base r cl) j) (cl_mem (set_proc i op base r cl) j)" for j
    using assms by (cases "j = i") (simp_all add: cluster_ok_def)
  with assms(1) show ?thesis by (simp add: cluster_ok_def)
qed

lemma proc_ok_grows:
  assumes "proc_ok c prog init log i (op, base, p)"
  shows "proc_ok c prog init (k # log) i (op, base, p)"
  using assms by (cases p) (auto simp: proc_ok_def)

lemma slot_ok_grows:
  "slot_ok c prog init log i call mem \<Longrightarrow> slot_ok c prog init (k # log) i call mem"
  by (auto simp: slot_ok_def split: option.splits dest: proc_ok_grows)

locale snapshot_laws =
  fixes c :: "'s snapshots" and prog :: "('o, 'v, 's, 'e) program" and init :: 's
  assumes view_view: "sn_view c (sn_view c s) = sn_view c s"
    and view_init: "sn_view c init = init"
    and copy_init: "sn_copy c init = init"
begin

lemma start_init [simp]: "start_from c init None = init"
  by (simp add: start_from_def copy_init)

lemma fresh_ok: "cluster_ok c prog init (fresh_cluster init)"
  by (simp add: cluster_ok_def fresh_cluster_def slot_ok_def)

lemma slotD:
  "cluster_ok c prog init cl \<Longrightarrow> cl_calls cl i = Some (op, base, p) \<Longrightarrow> slot_ok c prog init (cl_log cl) i (Some (op, base, p)) (cl_mem cl i)"
  by (metis cluster_ok_def)

lemma load_keeps:
  assumes "cluster_ok c prog init cl" and "cl_calls cl i = Some (op, base, Reading k v)"
  shows "cluster_ok c prog init (set_proc i op base (on_load c (snd (prog op)) base k v (cl_mem cl i) (if b then Some (cl_store cl) else None)) cl)"
proof (rule set_proc_ok [OF assms(1)])
  let ?r = "on_load c (snd (prog op)) base k v (cl_mem cl i) (if b then Some (cl_store cl) else None)"
  have i: "cl_log cl = [] \<Longrightarrow> base = init \<and> cl_mem cl i = init \<and> cl_store cl = None"
    using assms slotD [OF assms] by (auto simp: cluster_ok_def proc_ok_def slot_ok_def)
  have s: "start_from c base (cl_store cl) = start_from c init (cl_store cl)"
    using assms(1) i by (cases "cl_log cl = []") (auto simp: cluster_ok_def start_from_def)
  have "proc_ok c prog init (cl_log cl) i (op, base, fst ?r)"
    using i s by (auto simp: proc_ok_def on_load_def Let_def split: option.split sum.split bool.split)
  moreover have "cl_log cl = [] \<Longrightarrow> (case fst ?r of Swapping _ _ _ _ \<Rightarrow> True | _ \<Rightarrow> snd ?r = init)"
    using i copy_init by (auto simp: on_load_def start_from_def Let_def split: option.split sum.split bool.split)
  ultimately show "slot_ok c prog init (cl_log cl) i (Some (op, base, fst ?r)) (snd ?r)" by (simp add: slot_ok_def)
qed

lemma commit_keeps:
  assumes ok: "cluster_ok c prog init cl" and call: "cl_calls cl i = Some (op, base, Swapping k v found nx)"
    and w: "swap_works c found (cl_store cl)"
  shows "cluster_ok c prog init
    (cl\<lparr>cl_store := Some (sn_copy c nx), cl_log := \<lparr>cm_proc = i, cm_op = op, cm_var = v, cm_after = sn_copy c nx\<rparr> # cl_log cl\<rparr>)"
proof -
  let ?k = "\<lparr>cm_proc = i, cm_op = op, cm_var = v, cm_after = sn_copy c nx\<rparr>"
  from slotD [OF ok call] obtain v0 s' where m: "snd (prog op) v0 (start_from c init found) = Inr (True, v, s')" "nx = sn_tidy c s'"
    by (auto simp: slot_ok_def proc_ok_def)
  have "start_from c init found = sn_copy c (sn_view c (contents init (cl_log cl)))"
    using ok w by (cases found; cases "cl_log cl")
      (simp_all add: cluster_ok_def swap_works_def start_from_def view_init, metis view_view)
  with m have "applied c prog (contents init (cl_log cl)) ?k" by (auto simp: applied_def)
  with ok show ?thesis by (auto simp: cluster_ok_def slot_ok_grows)
qed

lemma swap_keeps:
  assumes ok: "cluster_ok c prog init cl" and call: "cl_calls cl i = Some (op, base, Swapping k v found nx)"
  shows "cluster_ok c prog init (cluster_step c prog (Access i f) cl)"
proof -
  define w where "w = swap_works c found (cl_store cl)"
  let ?k = "\<lparr>cm_proc = i, cm_op = op, cm_var = v, cm_after = sn_copy c nx\<rparr>"
  define cl1 where "cl1 = (if w \<and> f \<noteq> Fails then cl\<lparr>cl_store := Some (sn_copy c nx), cl_log := ?k # cl_log cl\<rparr> else cl)"
  let ?r = "on_swap c base k v found nx (if f = Answers then Some w else None) :: ('v, 's, 'e) phase \<times> 's"
  have cl1: "cluster_ok c prog init cl1" using ok commit_keeps [OF ok call] by (simp add: cl1_def w_def)
  have e: "cl_log cl1 = [] \<Longrightarrow> base = init \<and> found = None \<and> w \<and> f = Fails"
    using ok slotD [OF ok call] by (auto simp: cl1_def slot_ok_def proc_ok_def cluster_ok_def w_def swap_works_def split: if_splits)
  have "slot_ok c prog init (cl_log cl1) i (Some (op, base, fst ?r)) (snd ?r)"
  proof (cases "cl_log cl1 = []")
    case True
    with e show ?thesis by (simp add: on_swap_def slot_ok_def proc_ok_def start_from_def copy_init)
  next
    case False
    then show ?thesis by (cases f; cases w) (auto simp: on_swap_def slot_ok_def proc_ok_def cl1_def)
  qed
  with cl1 have "cluster_ok c prog init (set_proc i op base ?r cl1)" by (rule set_proc_ok)
  moreover have "cluster_step c prog (Access i f) cl = set_proc i op base ?r cl1"
    using call by (simp add: Let_def cl1_def flip: w_def)
  ultimately show ?thesis by simp
qed

lemma step_keeps:
  assumes ok: "cluster_ok c prog init cl"
  shows "cluster_ok c prog init (cluster_step c prog x cl)"
proof (cases x)
  case (Call i op)
  have m: "slot_ok c prog init (cl_log cl) i (cl_calls cl i) (cl_mem cl i)" using ok by (simp add: cluster_ok_def)
  have "cluster_ok c prog init (set_proc i op (cl_mem cl i) (Reading n v, cl_mem cl i) cl)"
    if "cl_log cl = [] \<Longrightarrow> cl_mem cl i = init" for n v
    using that by (intro set_proc_ok [OF ok]) (simp add: slot_ok_def proc_ok_def)
  with m ok show ?thesis unfolding Call by (auto simp: slot_ok_def split: option.splits phase.splits)
next
  case (Access i f)
  show ?thesis
  proof (cases "cl_calls cl i")
    case None
    then show ?thesis using ok Access by simp
  next
    case (Some call)
    obtain op base p where call: "call = (op, base, p)" by (cases call)
    show ?thesis
    proof (cases p)
      case (Reading k v)
      then show ?thesis using load_keeps [OF ok, of i op base k v "f = Answers"] Some call Access by simp
    next
      case (Swapping k v found nx)
      then show ?thesis using swap_keeps [OF ok, of i op base k v found nx f] Some call Access by simp
    next
      case (Finished r v)
      then show ?thesis using ok Some call Access by simp
    qed
  qed
qed

lemma run_ok: "cluster_ok c prog init cl \<Longrightarrow> cluster_ok c prog init (cluster_run c prog es cl)"
  unfolding cluster_run_def by (induction es arbitrary: cl) (simp_all add: step_keeps)

end

section \<open>Claims\<close>

text \<open>
  Work is handed out by claims on one item: a claim at a time \<open>t\<close> with a time-out \<open>p\<close> is granted when no earlier
  claim is younger than \<open>p\<close>.  \<open>holder\<close> reads the time of the present claim from the snapshot; \<open>settles\<close> marks the commits that
  end it.
\<close>

locale claim_lock =
  fixes c :: "'s snapshots" and prog :: "('o, 'v, 's, 'e) program" and holder :: "'s \<Rightarrow> time option"
    and claim :: "'o \<Rightarrow> (time \<times> int) option" and settles :: "'o \<Rightarrow> 'v \<Rightarrow> bool"
  assumes claimed: "applied c prog s k \<Longrightarrow> claim (cm_op k) = Some (t, p) \<Longrightarrow>
      0 < p \<and> holder (cm_after k) = Some t \<and> (\<forall>t0. holder s = Some t0 \<longrightarrow> t0 + p \<le> t)"
    and kept: "applied c prog s k \<Longrightarrow> claim (cm_op k) = None \<Longrightarrow> \<not> settles (cm_op k) (cm_var k) \<Longrightarrow> holder (cm_after k) = holder s"
begin

lemma held:
  assumes "linear c prog init (ys @ k # zs)" and "claim (cm_op k) = Some (t, p)" and "\<forall>k\<in>set ys. \<not> settles (cm_op k) (cm_var k)"
  shows "\<exists>t'. holder (contents init (ys @ k # zs)) = Some t' \<and> t \<le> t'"
  using assms
proof (induction ys)
  case Nil
  then show ?case using claimed by fastforce
next
  case (Cons y ys)
  then obtain t' where t': "holder (contents init (ys @ k # zs)) = Some t'" "t \<le> t'" by auto
  show ?case
  proof (cases "claim (cm_op y)")
    case None
    with Cons.prems t' kept show ?thesis by fastforce
  next
    case (Some tp)
    with Cons.prems t' claimed [of "contents init (ys @ k # zs)" y "fst tp" "snd tp"] show ?thesis by fastforce
  qed
qed

lemma spaced:
  assumes "linear c prog init (xs @ k2 # ys @ k1 # zs)" and "claim (cm_op k1) = Some (t1, p1)" "claim (cm_op k2) = Some (t2, p2)"
    and "\<forall>k\<in>set ys. \<not> settles (cm_op k) (cm_var k)"
  shows "t1 + p2 \<le> t2"
proof -
  from assms(1) have l: "linear c prog init (k2 # ys @ k1 # zs)" by (induction xs) auto
  then obtain t' where "holder (contents init (ys @ k1 # zs)) = Some t'" "t1 \<le> t'" using held [OF _ assms(2,4)] by auto
  moreover have "applied c prog (contents init (ys @ k1 # zs)) k2" using l by simp
  ultimately show ?thesis using claimed [OF _ assms(3)] by fastforce
qed

end

end
