(* ===== verification/Hris_Dlq.thy ===== *)
theory Hris_Dlq
  imports Go_Strings Go_Time Retry_Backoff Cas_Store
    "HOL-Library.Product_Lexorder" "HOL-Library.List_Lexorder" "HOL-Library.Char_ord"
begin

text \<open>
  \<open>internal/modules/hris/dlq.go\<close>: the dead letters of the HR connectors.  A failed delivery becomes an
  entry; workers of several server processes claim entries, replay them and mark the outcome.  The snapshot
  holds the entries and an index of when each is due; all changes go through \<open>mutateStateLocked\<close>.
  \<open>sort.Slice\<close> is sorting by the key the comparison reads; the order of entries with the same key is left open by
  Go and is the stable one here.
\<close>

section \<open>Data\<close>

record deadLetterEntry =
  dl_ID :: string
  dl_TenantID :: string
  dl_ConnectorID :: string
  dl_Vendor :: string
  dl_ReceiptID :: string
  dl_RequestID :: string
  dl_EventType :: string
  dl_FailureStage :: string
  dl_Error :: string
  dl_RawPayloadRef :: string
  dl_Status :: string
  dl_ReplayCount :: int
  dl_LastReplayAt :: "time option"
  dl_ResolvedAt :: "time option"
  dl_CreatedAt :: time
  dl_UpdatedAt :: time

record deadLetterFailureInput =
  di_TenantID :: string
  di_ConnectorID :: string
  di_Vendor :: string
  di_ReceiptID :: string
  di_RequestID :: string
  di_EventType :: string
  di_FailureStage :: string
  di_Error :: string
  di_RawPayloadRef :: string

record deadLetterDueIndexEntry =
  du_EntryID :: string
  du_DueAt :: time

record deadLetterSnapshot =
  ds_Entries :: "deadLetterEntry list"
  ds_Due :: "deadLetterDueIndexEntry list"

datatype dlq_error =
    DLQTenantIDRequired | DLQFailureStageRequired | DLQErrorRequired | DLQEntryNotFound | DLQStateConflict
  | DLQRandFailed | DLQStoreFailed

definition randomDLQID :: "env \<Rightarrow> string option" where
  "randomDLQID e = map_option ((@) ''hdlq_'') (env_rand e)"

section \<open>When an entry may be replayed\<close>

record dlqClaimParams =
  cp_maxAttempts :: int
  cp_retryCooldown :: int
  cp_retryMaxBackoff :: int
  cp_processingTimeout :: int
  cp_now :: time

definition normalizeDLQReplayClaimParams :: "env \<Rightarrow> dlqClaimParams \<Rightarrow> dlqClaimParams" where
  "normalizeDLQReplayClaimParams e p =
     (case Normalize (cp_retryCooldown p) (cp_retryMaxBackoff p) of
        (cooldown, maxBackoff) \<Rightarrow>
          \<lparr>cp_maxAttempts = (if cp_maxAttempts p < 0 then 0 else cp_maxAttempts p),
           cp_retryCooldown = cooldown, cp_retryMaxBackoff = maxBackoff,
           cp_processingTimeout = (if cp_processingTimeout p \<le> 0 then 5 * ns_minute else cp_processingTimeout p),
           cp_now = (if is_zero (cp_now p) then env_now e else cp_now p)\<rparr>)"

text \<open>The empty text is the permission.\<close>

definition dlqReplayClaimReason :: "deadLetterEntry \<Rightarrow> dlqClaimParams \<Rightarrow> string" where
  "dlqReplayClaimReason item p =
     (let status = trim_space (dl_Status item) in
      if status = ''dlq'' then
        (if cp_maxAttempts p > 0 \<and> dl_ReplayCount item \<ge> cp_maxAttempts p then ''attempt_limit''
         else
           let retryDelay = Exponential (dl_ReplayCount item) (cp_retryCooldown p) (cp_retryMaxBackoff p) in
           case dl_LastReplayAt item of
             None \<Rightarrow> ''''
           | Some t \<Rightarrow> if retryDelay > 0 \<and> t + retryDelay > cp_now p then ''cooldown'' else '''')
      else if status = ''replaying'' then
        (case dl_LastReplayAt item of
           None \<Rightarrow> ''''
         | Some t \<Rightarrow> if t + cp_processingTimeout p > cp_now p then ''in_flight'' else '''')
      else ''not_replayable'')"

section \<open>The index of due entries\<close>

definition isDLQDueIndexCandidate :: "string \<Rightarrow> bool" where
  "isDLQDueIndexCandidate status \<longleftrightarrow> trim_space status \<in> {''dlq'', ''replaying''}"

definition dlqReplayDueIndexHeuristic :: "deadLetterEntry \<Rightarrow> time" where
  "dlqReplayDueIndexHeuristic item =
     (case dl_LastReplayAt item of Some t \<Rightarrow> if is_zero t then dl_CreatedAt item else t | None \<Rightarrow> dl_CreatedAt item)"

definition dlqReplayProcessingDueAt :: "env \<Rightarrow> time \<Rightarrow> int \<Rightarrow> time" where
  "dlqReplayProcessingDueAt e now processingTimeout =
     (let now = (if is_zero now then env_now e else now) in if processingTimeout \<le> 0 then now else now + processingTimeout)"

definition dlqReplayFailureDueAt :: "env \<Rightarrow> deadLetterEntry \<Rightarrow> int \<Rightarrow> int \<Rightarrow> time \<Rightarrow> time" where
  "dlqReplayFailureDueAt e item retryCooldown retryMaxBackoff now =
     (let other = (if is_zero now then env_now e else now);
          base = (case dl_LastReplayAt item of Some t \<Rightarrow> if is_zero t then other else t | None \<Rightarrow> other) in
      base + Exponential (dl_ReplayCount item) retryCooldown retryMaxBackoff)"

definition sortDLQDueIndexEntries :: "deadLetterDueIndexEntry list \<Rightarrow> deadLetterDueIndexEntry list" where
  "sortDLQDueIndexEntries = sort_key (\<lambda>d. (du_DueAt d, du_EntryID d))"

definition upsertDLQDueIndexLocked :: "env \<Rightarrow> string \<Rightarrow> time \<Rightarrow> deadLetterSnapshot \<Rightarrow> deadLetterSnapshot" where
  "upsertDLQDueIndexLocked e entryID dueAt s =
     (let i = trim_space entryID; due = (if is_zero dueAt then env_now e else dueAt) in
      if i = '''' then s
      else
        (case find_idx (\<lambda>d. trim_space (du_EntryID d) = i) (ds_Due s) of
           Some k \<Rightarrow> s\<lparr>ds_Due := sortDLQDueIndexEntries ((ds_Due s)[k := (ds_Due s ! k)\<lparr>du_DueAt := due\<rparr>])\<rparr>
         | None \<Rightarrow> s\<lparr>ds_Due := sortDLQDueIndexEntries (ds_Due s @ [\<lparr>du_EntryID = i, du_DueAt = due\<rparr>])\<rparr>))"

definition removeDLQDueIndexLocked :: "string \<Rightarrow> deadLetterSnapshot \<Rightarrow> deadLetterSnapshot" where
  "removeDLQDueIndexLocked entryID s =
     (let i = trim_space entryID in
      if i = '''' then s else s\<lparr>ds_Due := filter (\<lambda>d. trim_space (du_EntryID d) \<noteq> i) (ds_Due s)\<rparr>)"

text \<open>The map \<open>existing\<close>: the last usable index entry of an identifier.\<close>

definition existing_due :: "deadLetterDueIndexEntry list \<Rightarrow> string \<Rightarrow> time option" where
  "existing_due ds i =
     map_option du_DueAt (find (\<lambda>d. trim_space (du_EntryID d) = i \<and> \<not> is_zero (du_DueAt d)) (rev ds))"

definition normalizeDLQDueIndexLocked :: "deadLetterSnapshot \<Rightarrow> deadLetterSnapshot" where
  "normalizeDLQDueIndexLocked s =
     s\<lparr>ds_Due := sortDLQDueIndexEntries
        (map (\<lambda>x. let i = trim_space (dl_ID x) in
                  \<lparr>du_EntryID = i, du_DueAt = (case existing_due (ds_Due s) i of Some t \<Rightarrow> t | None \<Rightarrow> dlqReplayDueIndexHeuristic x)\<rparr>)
          (filter (\<lambda>x. isDLQDueIndexCandidate (dl_Status x) \<and> trim_space (dl_ID x) \<noteq> '''') (ds_Entries s)))\<rparr>"

definition cloneDLQDueIndexEntries :: "deadLetterDueIndexEntry list \<Rightarrow> deadLetterDueIndexEntry list" where
  "cloneDLQDueIndexEntries ds =
     filter (\<lambda>d. du_EntryID d \<noteq> '''') (map (\<lambda>d. d\<lparr>du_EntryID := trim_space (du_EntryID d)\<rparr>) ds)"

definition clone_snapshot :: "deadLetterSnapshot \<Rightarrow> deadLetterSnapshot" where
  "clone_snapshot s = s\<lparr>ds_Due := cloneDLQDueIndexEntries (ds_Due s)\<rparr>"

definition dlq_snapshots :: "deadLetterSnapshot snapshots" where
  "dlq_snapshots = \<lparr>sn_view = (\<lambda>s. s), sn_copy = clone_snapshot, sn_refresh = normalizeDLQDueIndexLocked \<circ> clone_snapshot,
     sn_tidy = normalizeDLQDueIndexLocked\<rparr>"

section \<open>Changes\<close>

text \<open>A closure captures the entry it reports and the reason of a refusal.\<close>

type_synonym dlq_mutator = "(deadLetterEntry \<times> string, deadLetterSnapshot, dlq_error) mutator"

abbreviation no_entry :: deadLetterEntry where
  "no_entry \<equiv> \<lparr>dl_ID = '''', dl_TenantID = '''', dl_ConnectorID = '''', dl_Vendor = '''', dl_ReceiptID = '''', dl_RequestID = '''',
     dl_EventType = '''', dl_FailureStage = '''', dl_Error = '''', dl_RawPayloadRef = '''', dl_Status = '''', dl_ReplayCount = 0,
     dl_LastReplayAt = None, dl_ResolvedAt = None, dl_CreatedAt = zero_time, dl_UpdatedAt = zero_time\<rparr>"

definition entry_idx :: "string \<Rightarrow> deadLetterSnapshot \<Rightarrow> nat option" where
  "entry_idx i s = find_idx (\<lambda>x. trim_space (dl_ID x) = i) (ds_Entries s)"

definition set_entry :: "nat \<Rightarrow> deadLetterEntry \<Rightarrow> deadLetterSnapshot \<Rightarrow> deadLetterSnapshot" where
  "set_entry k x s = s\<lparr>ds_Entries := (ds_Entries s)[k := x]\<rparr>"

definition new_dead_letter :: "env \<Rightarrow> string \<Rightarrow> deadLetterFailureInput \<Rightarrow> deadLetterEntry" where
  "new_dead_letter e i inp =
     \<lparr>dl_ID = i, dl_TenantID = trim_space (di_TenantID inp), dl_ConnectorID = trim_space (di_ConnectorID inp),
      dl_Vendor = trim_space (di_Vendor inp), dl_ReceiptID = trim_space (di_ReceiptID inp), dl_RequestID = trim_space (di_RequestID inp),
      dl_EventType = trim_space (di_EventType inp), dl_FailureStage = trim_space (di_FailureStage inp), dl_Error = trim_space (di_Error inp),
      dl_RawPayloadRef = trim_space (di_RawPayloadRef inp), dl_Status = ''dlq'', dl_ReplayCount = 0, dl_LastReplayAt = None,
      dl_ResolvedAt = None, dl_CreatedAt = env_now e, dl_UpdatedAt = env_now e\<rparr>"

definition repeated_failure :: "env \<Rightarrow> deadLetterFailureInput \<Rightarrow> deadLetterEntry \<Rightarrow> deadLetterEntry" where
  "repeated_failure e inp x =
     x\<lparr>dl_ConnectorID := trim_space (di_ConnectorID inp), dl_Vendor := trim_space (di_Vendor inp), dl_RequestID := trim_space (di_RequestID inp),
       dl_EventType := trim_space (di_EventType inp), dl_Error := trim_space (di_Error inp),
       dl_RawPayloadRef := trim_space (di_RawPayloadRef inp), dl_UpdatedAt := env_now e\<rparr>"

definition append_mutator :: "env \<Rightarrow> deadLetterFailureInput \<Rightarrow> dlq_mutator" where
  "append_mutator e inp v s =
     (let receipt = trim_space (di_ReceiptID inp);
          hit = (if receipt = '''' then None
                 else find_idx (\<lambda>x. trim_space (dl_ReceiptID x) = receipt \<and> trim_space (dl_FailureStage x) = trim_space (di_FailureStage inp) \<and>
                        trim_space (dl_Status x) = ''dlq'') (ds_Entries s)) in
      case hit of
        Some k \<Rightarrow> let x = repeated_failure e inp (ds_Entries s ! k) in Inr (True, (x, snd v), set_entry k x s)
      | None \<Rightarrow>
          Inr (True, v, upsertDLQDueIndexLocked e (dl_ID (fst v)) (dl_CreatedAt (fst v)) (s\<lparr>ds_Entries := fst v # ds_Entries s\<rparr>)))"

definition claim_mutator :: "env \<Rightarrow> string \<Rightarrow> dlqClaimParams \<Rightarrow> dlq_mutator" where
  "claim_mutator e i p v s =
     (case entry_idx i s of
        None \<Rightarrow> Inl DLQEntryNotFound
      | Some k \<Rightarrow>
          let x = ds_Entries s ! k; reason = dlqReplayClaimReason x p in
          if reason \<noteq> '''' then Inr (False, (x, reason), s)
          else
            let x' = x\<lparr>dl_ReplayCount := dl_ReplayCount x + 1, dl_Status := ''replaying'', dl_ResolvedAt := None,
                       dl_UpdatedAt := cp_now p, dl_LastReplayAt := Some (cp_now p)\<rparr> in
            Inr (True, (x', ''''), upsertDLQDueIndexLocked e (dl_ID x) (dlqReplayProcessingDueAt e (cp_now p) (cp_processingTimeout p)) (set_entry k x' s)))"

text \<open>An outcome that no claim preceded counts as a replay of its own.\<close>

definition counted_replay :: "env \<Rightarrow> deadLetterEntry \<Rightarrow> deadLetterEntry" where
  "counted_replay e x =
     (if trim_space (dl_Status x) \<noteq> ''replaying'' \<or> dl_LastReplayAt x = None
      then x\<lparr>dl_ReplayCount := dl_ReplayCount x + 1, dl_LastReplayAt := Some (env_now e)\<rparr> else x)"

definition fail_mutator :: "env \<Rightarrow> string \<Rightarrow> string \<Rightarrow> int \<Rightarrow> int \<Rightarrow> dlq_mutator" where
  "fail_mutator e i failure retryCooldown retryMaxBackoff v s =
     (case entry_idx i s of
        None \<Rightarrow> Inl DLQEntryNotFound
      | Some k \<Rightarrow>
          let x = (counted_replay e (ds_Entries s ! k))
                    \<lparr>dl_UpdatedAt := env_now e, dl_ResolvedAt := None, dl_Status := ''dlq'', dl_Error := trim_space failure\<rparr> in
          Inr (True, (x, ''''),
            upsertDLQDueIndexLocked e (dl_ID x) (dlqReplayFailureDueAt e x retryCooldown retryMaxBackoff (env_now e)) (set_entry k x s)))"

definition resolve_mutator :: "env \<Rightarrow> string \<Rightarrow> dlq_mutator" where
  "resolve_mutator e i v s =
     (case entry_idx i s of
        None \<Rightarrow> Inl DLQEntryNotFound
      | Some k \<Rightarrow>
          let x = (counted_replay e (ds_Entries s ! k))
                    \<lparr>dl_ResolvedAt := Some (env_now e), dl_UpdatedAt := env_now e, dl_Status := ''resolved''\<rparr> in
          Inr (True, (x, ''''), removeDLQDueIndexLocked (dl_ID x) (set_entry k x s)))"

definition restore_mutator :: "deadLetterEntry \<Rightarrow> dlq_mutator" where
  "restore_mutator snapshot v s =
     (case entry_idx (trim_space (dl_ID snapshot)) s of
        None \<Rightarrow> Inl DLQEntryNotFound
      | Some k \<Rightarrow> Inr (True, (snapshot, ''''), set_entry k snapshot s))"

section \<open>Operations\<close>

text \<open>A call checks its arguments and yields the captured variables and the closure.\<close>

datatype dlq_op =
    AppendFailure_op env deadLetterFailureInput
  | Claim_op env string dlqClaimParams
  | MarkReplayFailed_op env string "string option" int int
  | MarkResolved_op env string
  | RestoreEntry_op deadLetterEntry

fun dlq_call :: "dlq_op \<Rightarrow> (dlq_error, (deadLetterEntry \<times> string) \<times> dlq_mutator) result" where
  "dlq_call (AppendFailure_op e inp) =
     (if trim_space (di_TenantID inp) = '''' then Inl DLQTenantIDRequired
      else if trim_space (di_FailureStage inp) = '''' then Inl DLQFailureStageRequired
      else if trim_space (di_Error inp) = '''' then Inl DLQErrorRequired
      else
        (case randomDLQID e of
           None \<Rightarrow> Inl DLQRandFailed
         | Some i \<Rightarrow> Inr ((new_dead_letter e i inp, ''''), append_mutator e inp)))"
| "dlq_call (Claim_op e entryID p) =
     (if trim_space entryID = '''' then Inl DLQEntryNotFound
      else Inr ((no_entry, ''''), claim_mutator e (trim_space entryID) (normalizeDLQReplayClaimParams e p)))"
| "dlq_call (MarkReplayFailed_op e entryID failure retryCooldown retryMaxBackoff) =
     (if trim_space entryID = '''' then Inl DLQEntryNotFound
      else
        (case failure of
           None \<Rightarrow> Inl DLQErrorRequired
         | Some err \<Rightarrow> Inr ((no_entry, ''''), fail_mutator e (trim_space entryID) err retryCooldown retryMaxBackoff)))"
| "dlq_call (MarkResolved_op e entryID) =
     (if trim_space entryID = '''' then Inl DLQEntryNotFound
      else Inr ((no_entry, ''''), resolve_mutator e (trim_space entryID)))"
| "dlq_call (RestoreEntry_op snapshot) =
     (if trim_space (dl_ID snapshot) = '''' then Inl DLQEntryNotFound
      else Inr ((no_entry, ''''), restore_mutator snapshot))"

fun dlq_fault :: "dlq_error mutation_error \<Rightarrow> dlq_error" where
  "dlq_fault (Mutator err) = err"
| "dlq_fault StoreFailed = DLQStoreFailed"
| "dlq_fault StateConflict = DLQStateConflict"

definition run_dlq ::
  "dlq_op \<Rightarrow> ('w, deadLetterSnapshot) store_ops option \<Rightarrow> deadLetterSnapshot \<Rightarrow> 'w \<Rightarrow>
   (dlq_error, deadLetterEntry \<times> string) result \<times> deadLetterSnapshot \<times> 'w" where
  "run_dlq op stateStore mem w =
     (case dlq_call op of
        Inl err \<Rightarrow> (Inl err, mem, w)
      | Inr (v, m) \<Rightarrow>
          (case mutateStateLocked dlq_snapshots m stateStore v mem w of
             (None, v', mem', w') \<Rightarrow> (Inr v', mem', w')
           | (Some err, _, mem', w') \<Rightarrow> (Inl (dlq_fault err), mem', w')))"

definition AppendFailure where
  "AppendFailure e inp stateStore mem w = map_prod (map_sum id fst) id (run_dlq (AppendFailure_op e inp) stateStore mem w)"

definition ClaimEntryForReplayWithBackoff where
  "ClaimEntryForReplayWithBackoff e entryID p stateStore mem w =
     (case run_dlq (Claim_op e entryID p) stateStore mem w of
        (Inr (x, reason), s) \<Rightarrow> (if reason = '''' \<and> dl_ID x = '''' then Inl DLQEntryNotFound else Inr (x, reason), s)
      | r \<Rightarrow> r)"

definition ClaimEntryForReplay where
  "ClaimEntryForReplay e entryID p = ClaimEntryForReplayWithBackoff e entryID (p\<lparr>cp_retryMaxBackoff := cp_retryCooldown p\<rparr>)"

definition MarkReplayFailedWithBackoff where
  "MarkReplayFailedWithBackoff e entryID failure retryCooldown retryMaxBackoff stateStore mem w =
     map_prod (map_sum id fst) id (run_dlq (MarkReplayFailed_op e entryID failure retryCooldown retryMaxBackoff) stateStore mem w)"

definition MarkReplayFailed where
  "MarkReplayFailed e entryID failure = MarkReplayFailedWithBackoff e entryID failure 0 0"

definition MarkResolved where
  "MarkResolved e entryID stateStore mem w = map_prod (map_sum id fst) id (run_dlq (MarkResolved_op e entryID) stateStore mem w)"

definition RestoreEntry where
  "RestoreEntry snapshot stateStore mem w = map_prod (map_sum id fst) id (run_dlq (RestoreEntry_op snapshot) stateStore mem w)"

definition refreshStateLocked_dlq ::
  "('w, deadLetterSnapshot) store_ops option \<Rightarrow> deadLetterSnapshot \<Rightarrow> 'w \<Rightarrow> bool \<times> deadLetterSnapshot \<times> 'w" where
  "refreshStateLocked_dlq stateStore mem w =
     (case stateStore of
        None \<Rightarrow> (True, mem, w)
      | Some st \<Rightarrow>
          (case so_load st w of
             (None, w') \<Rightarrow> (False, mem, w')
           | (Some None, w') \<Rightarrow> (True, mem, w')
           | (Some (Some s), w') \<Rightarrow> (True, sn_refresh dlq_snapshots s, w')))"

section \<open>Listings\<close>

definition dlq_listed :: "string \<Rightarrow> string \<Rightarrow> deadLetterEntry \<Rightarrow> bool" where
  "dlq_listed tenantID connectorID x \<longleftrightarrow>
     in_scope (trim_space tenantID) (trim_space (dl_TenantID x)) \<and> in_scope (trim_space connectorID) (trim_space (dl_ConnectorID x))"

text \<open>Newest change first.\<close>

definition newest_first :: "deadLetterEntry list \<Rightarrow> deadLetterEntry list" where
  "newest_first xs = rev (sort_key (\<lambda>x. (dl_UpdatedAt x, dl_ID x)) xs)"

definition cut :: "int \<Rightarrow> 'a list \<Rightarrow> 'a list" where
  "cut limit xs = (if limit > 0 then take (nat limit) xs else xs)"

definition ListEntries :: "string \<Rightarrow> string \<Rightarrow> int \<Rightarrow> deadLetterSnapshot \<Rightarrow> deadLetterEntry list" where
  "ListEntries tenantID connectorID limit s = cut limit (newest_first (filter (dlq_listed tenantID connectorID) (ds_Entries s)))"

definition claimable :: "string \<Rightarrow> string \<Rightarrow> dlqClaimParams \<Rightarrow> deadLetterEntry \<Rightarrow> bool" where
  "claimable tenantID connectorID p x \<longleftrightarrow> dlq_listed tenantID connectorID x \<and> dlqReplayClaimReason x p = ''''"

definition listClaimable :: "deadLetterEntry list \<Rightarrow> string \<Rightarrow> string \<Rightarrow> dlqClaimParams \<Rightarrow> int \<Rightarrow> deadLetterEntry list" where
  "listClaimable es tenantID connectorID p limit = cut limit (newest_first (filter (claimable tenantID connectorID p) es))"

definition ListClaimableEntriesForReplayWithBackoff ::
  "env \<Rightarrow> string \<Rightarrow> string \<Rightarrow> dlqClaimParams \<Rightarrow> int \<Rightarrow> deadLetterSnapshot \<Rightarrow> deadLetterEntry list" where
  "ListClaimableEntriesForReplayWithBackoff e tenantID connectorID p limit s =
     listClaimable (ds_Entries s) tenantID connectorID (normalizeDLQReplayClaimParams e p) limit"

definition findDLQEntryByIDLocked :: "deadLetterEntry list \<Rightarrow> string \<Rightarrow> deadLetterEntry option" where
  "findDLQEntryByIDLocked es entryID =
     (let i = trim_space entryID in if i = '''' then None else find (\<lambda>x. trim_space (dl_ID x) = i) es)"

definition GetEntry :: "string \<Rightarrow> deadLetterSnapshot \<Rightarrow> (dlq_error, deadLetterEntry) result" where
  "GetEntry entryID s = (case findDLQEntryByIDLocked (ds_Entries s) entryID of None \<Rightarrow> Inl DLQEntryNotFound | Some x \<Rightarrow> Inr x)"

text \<open>The walk along the index stops at the first entry that is not yet due; the flag says that the limit is reached.\<close>

fun due_scan ::
  "(deadLetterEntry \<Rightarrow> bool) \<Rightarrow> deadLetterEntry list \<Rightarrow> time \<Rightarrow> int \<Rightarrow> deadLetterDueIndexEntry list \<Rightarrow> deadLetterEntry list \<Rightarrow> bool \<times> deadLetterEntry list" where
  "due_scan ok es now limit [] items = (False, items)"
| "due_scan ok es now limit (d # ds) items =
     (if \<not> is_zero (du_DueAt d) \<and> du_DueAt d > now then (False, items)
      else
        (case findDLQEntryByIDLocked es (du_EntryID d) of
           None \<Rightarrow> due_scan ok es now limit ds items
         | Some x \<Rightarrow>
             if \<not> ok x \<or> dl_ID x \<in> dl_ID ` set items then due_scan ok es now limit ds items
             else if limit > 0 \<and> int (length items) + 1 \<ge> limit then (True, items @ [x])
             else due_scan ok es now limit ds (items @ [x])))"

text \<open>The rest is filled up from all claimable entries.\<close>

fun fill_up :: "int \<Rightarrow> deadLetterEntry list \<Rightarrow> deadLetterEntry list \<Rightarrow> deadLetterEntry list" where
  "fill_up limit [] items = items"
| "fill_up limit (x # xs) items =
     (if dl_ID x \<in> dl_ID ` set items then fill_up limit xs items
      else if limit > 0 \<and> int (length items) + 1 \<ge> limit then items @ [x]
      else fill_up limit xs (items @ [x]))"

text \<open>\<open>None\<close>: \<open>make([]DeadLetterEntry, 0, limit)\<close> panics on a negative capacity.\<close>

definition ListDueEntriesForReplayWithBackoff ::
  "env \<Rightarrow> string \<Rightarrow> string \<Rightarrow> dlqClaimParams \<Rightarrow> int \<Rightarrow> deadLetterSnapshot \<Rightarrow> deadLetterEntry list option" where
  "ListDueEntriesForReplayWithBackoff e tenantID connectorID p0 limit s =
     (let p = normalizeDLQReplayClaimParams e p0 in
      if limit < 0 then None
      else
        (case due_scan (claimable tenantID connectorID p) (ds_Entries s) (cp_now p) limit (ds_Due s) [] of
           (True, items) \<Rightarrow> Some items
         | (False, items) \<Rightarrow> Some (fill_up limit (listClaimable (ds_Entries s) tenantID connectorID p 0) items)))"

section \<open>Start\<close>

definition NewDLQService :: deadLetterSnapshot where
  "NewDLQService = \<lparr>ds_Entries = [], ds_Due = []\<rparr>"

definition NewDLQServiceWithStateStore :: "('w, deadLetterSnapshot) store_ops option \<Rightarrow> 'w \<Rightarrow> deadLetterSnapshot option \<times> 'w" where
  "NewDLQServiceWithStateStore stateStore w =
     (case refreshStateLocked_dlq stateStore NewDLQService w of (ok, mem, w') \<Rightarrow> (if ok then Some mem else None, w'))"

section \<open>Claims are exclusive\<close>

text \<open>Calls that fail their checks change nothing.\<close>

definition dlq_prog :: "(dlq_op, deadLetterEntry \<times> string, deadLetterSnapshot, dlq_error) program" where
  "dlq_prog op = (case dlq_call op of Inl err \<Rightarrow> ((no_entry, ''''), \<lambda>_ _. Inl err) | Inr vm \<Rightarrow> vm)"

interpretation dlq: snapshot_laws dlq_snapshots dlq_prog NewDLQService
  by unfold_locales (simp_all add: dlq_snapshots_def clone_snapshot_def NewDLQService_def cloneDLQDueIndexEntries_def)

lemma entries_kept [simp]:
  "ds_Entries (upsertDLQDueIndexLocked e i t s) = ds_Entries s" "ds_Entries (removeDLQDueIndexLocked i s) = ds_Entries s"
  "ds_Entries (normalizeDLQDueIndexLocked s) = ds_Entries s" "ds_Entries (clone_snapshot s) = ds_Entries s"
  "ds_Entries (set_entry k x s) = (ds_Entries s)[k := x]" "entry_idx i (clone_snapshot s) = entry_idx i s"
  by (simp_all add: upsertDLQDueIndexLocked_def removeDLQDueIndexLocked_def normalizeDLQDueIndexLocked_def clone_snapshot_def
      set_entry_def entry_idx_def Let_def split: option.split)

lemma dlq_snapshots_simps [simp]:
  "sn_view dlq_snapshots s = s" "sn_copy dlq_snapshots = clone_snapshot" "sn_tidy dlq_snapshots = normalizeDLQDueIndexLocked"
  by (simp_all add: dlq_snapshots_def)

definition replay_claim :: "string \<Rightarrow> deadLetterSnapshot \<Rightarrow> time option" where
  "replay_claim i s =
     (case find (\<lambda>x. trim_space (dl_ID x) = i) (ds_Entries s) of
        None \<Rightarrow> None | Some x \<Rightarrow> if trim_space (dl_Status x) = ''replaying'' then dl_LastReplayAt x else None)"

fun claims_entry :: "string \<Rightarrow> dlq_op \<Rightarrow> (time \<times> int) option" where
  "claims_entry i (Claim_op e entryID p) =
     (if trim_space entryID = i
      then Some (cp_now (normalizeDLQReplayClaimParams e p), cp_processingTimeout (normalizeDLQReplayClaimParams e p)) else None)"
| "claims_entry i _ = None"

text \<open>The outcome of a replay settles the entry it reports: a failure, a resolution, or the entry put back.  A report of
  a new failure is no outcome; it names an entry too, the stored one it repeats or the one it adds.\<close>

fun settles_entry :: "string \<Rightarrow> dlq_op \<Rightarrow> deadLetterEntry \<times> string \<Rightarrow> bool" where
  "settles_entry i (MarkReplayFailed_op _ _ _ _ _) v \<longleftrightarrow> trim_space (dl_ID (fst v)) = i"
| "settles_entry i (MarkResolved_op _ _) v \<longleftrightarrow> trim_space (dl_ID (fst v)) = i"
| "settles_entry i (RestoreEntry_op _) v \<longleftrightarrow> trim_space (dl_ID (fst v)) = i"
| "settles_entry i _ v \<longleftrightarrow> False"

fun names_entry :: "string \<Rightarrow> dlq_op \<Rightarrow> deadLetterEntry \<times> string \<Rightarrow> bool" where
  "names_entry i (AppendFailure_op _ _) v \<longleftrightarrow> trim_space (dl_ID (fst v)) = i"
| "names_entry i _ v \<longleftrightarrow> False"

lemma find_update_unmatched: "\<not> P (xs ! k) \<Longrightarrow> \<not> P y \<Longrightarrow> find P (xs[k := y]) = find P xs"
proof (induction xs arbitrary: k)
  case (Cons x xs)
  then show ?case by (cases k) auto
qed simp

lemma counted_ID [simp]: "dl_ID (counted_replay e x) = dl_ID x"
  by (simp add: counted_replay_def)

lemma entry_idx_ID: "entry_idx i s = Some k \<Longrightarrow> trim_space (dl_ID (ds_Entries s ! k)) = i"
  unfolding entry_idx_def by (rule find_idx_SomeD(2))

lemma repeated_ID [simp]: "dl_ID (repeated_failure e inp x) = dl_ID x"
  by (simp add: repeated_failure_def)

text \<open>Every closure changes at most the entry it reports.\<close>

lemma dlq_change:
  assumes "snd (dlq_prog op) v s = Inr (True, v', s')"
  obtains k where "trim_space (dl_ID (ds_Entries s ! k)) = trim_space (dl_ID (fst v'))" "ds_Entries s' = (ds_Entries s)[k := fst v']"
  | "ds_Entries s' = fst v' # ds_Entries s"
proof (cases op)
  case (AppendFailure_op e inp)
  with assms that show ?thesis
    by (auto simp: dlq_prog_def append_mutator_def Let_def split: sum.splits if_splits option.splits)
next
  case (RestoreEntry_op x)
  with assms that show ?thesis
    by (auto simp: dlq_prog_def restore_mutator_def split: if_splits option.splits dest: entry_idx_ID)
qed (use assms that in \<open>auto simp: dlq_prog_def claim_mutator_def fail_mutator_def resolve_mutator_def Let_def
        split: if_splits option.splits dest: entry_idx_ID\<close>)

lemma trim_replaying [simp]: "trim_space ''replaying'' = ''replaying''" "trim_space ''dlq'' = ''dlq''" "trim_space ''resolved'' = ''resolved''"
  by code_simp+

lemma claim_granted:
  assumes "snd (dlq_prog (Claim_op e entryID p0)) v s = Inr (True, v', s')"
  defines "p \<equiv> normalizeDLQReplayClaimParams e p0"
  obtains k x where "entry_idx (trim_space entryID) s = Some k" "x = ds_Entries s ! k" "dlqReplayClaimReason x p = ''''"
    "v' = (x\<lparr>dl_ReplayCount := dl_ReplayCount x + 1, dl_Status := ''replaying'', dl_ResolvedAt := None, dl_UpdatedAt := cp_now p,
      dl_LastReplayAt := Some (cp_now p)\<rparr>, '''')" "ds_Entries s' = (ds_Entries s)[k := fst v']"
  using assms by (auto simp: dlq_prog_def claim_mutator_def Let_def split: if_splits option.splits)

lemma unclaimed_keeps:
  assumes "snd (dlq_prog op) v s = Inr (True, v', s')" and "claims_entry i op = None"
    and "\<not> settles_entry i op v'" and "\<not> names_entry i op v'"
  shows "replay_claim i s' = replay_claim i s"
proof -
  have ne: "trim_space (dl_ID (fst v')) \<noteq> i"
  proof (cases op)
    case (Claim_op e entryID p0)
    with assms(1) obtain k where "entry_idx (trim_space entryID) s = Some k" "dl_ID (fst v') = dl_ID (ds_Entries s ! k)"
      by (auto elim: claim_granted)
    with Claim_op assms(2) show ?thesis by (auto dest: entry_idx_ID split: if_splits)
  qed (use assms(3,4) in simp_all)
  from assms(1) show ?thesis
  proof (cases rule: dlq_change)
    case (1 k)
    then show ?thesis
      using ne find_update_unmatched [of "\<lambda>x. trim_space (dl_ID x) = i" "ds_Entries s" k "fst v'"] by (simp add: replay_claim_def)
  next
    case 2
    with ne show ?thesis by (simp add: replay_claim_def)
  qed
qed

lemma in_flight_blocks:
  assumes "dlqReplayClaimReason x p = ''''" "trim_space (dl_Status x) = ''replaying''" "dl_LastReplayAt x = Some t"
  shows "t + cp_processingTimeout p \<le> cp_now p"
  using assms by (simp add: dlqReplayClaimReason_def split: if_splits)

lemma timeout_positive: "0 < cp_processingTimeout (normalizeDLQReplayClaimParams e p)"
  by (simp add: normalizeDLQReplayClaimParams_def duration_defs split: prod.split)

lemma claim_sets:
  assumes "snd (dlq_prog op) v s = Inr (True, v', s')" and "claims_entry i op = Some (t, p)"
  shows "0 < p \<and> replay_claim i s' = Some t \<and> (\<forall>t0. replay_claim i s = Some t0 \<longrightarrow> t0 + p \<le> t)"
proof -
  from assms(2) obtain e entryID p0 where op: "op = Claim_op e entryID p0" "trim_space entryID = i"
    "t = cp_now (normalizeDLQReplayClaimParams e p0)" "p = cp_processingTimeout (normalizeDLQReplayClaimParams e p0)"
    by (cases op) (auto split: if_splits)
  let ?p = "normalizeDLQReplayClaimParams e p0"
  from assms(1) op(1,2) obtain k x where x: "entry_idx i s = Some k" "x = ds_Entries s ! k" "dlqReplayClaimReason x ?p = ''''"
    "fst v' = x\<lparr>dl_ReplayCount := dl_ReplayCount x + 1, dl_Status := ''replaying'', dl_ResolvedAt := None, dl_UpdatedAt := cp_now ?p,
      dl_LastReplayAt := Some (cp_now ?p)\<rparr>" "ds_Entries s' = (ds_Entries s)[k := fst v']"
    by (auto elim!: claim_granted)
  have "replay_claim i s' = Some t"
    using x entry_idx_ID [OF x(1)] op find_update_key [of "\<lambda>x. trim_space (dl_ID x)" i "ds_Entries s" k "fst v'" i]
    by (simp add: replay_claim_def entry_idx_def)
  moreover have "find (\<lambda>x. trim_space (dl_ID x) = i) (ds_Entries s) = Some x" using x(1,2) by (simp add: entry_idx_def find_find_idx)
  ultimately show ?thesis
    using in_flight_blocks [OF x(3)] op timeout_positive by (auto simp: replay_claim_def split: if_splits)
qed

interpretation replay: claim_lock dlq_snapshots dlq_prog "replay_claim i" "claims_entry i"
  "\<lambda>op v. settles_entry i op v \<or> names_entry i op v" for i
proof
  fix s :: deadLetterSnapshot and k :: "(dlq_op, deadLetterEntry \<times> string, deadLetterSnapshot) commit" and t p
  assume "applied dlq_snapshots dlq_prog s k"
  then obtain v s' where m: "snd (dlq_prog (cm_op k)) v (clone_snapshot s) = Inr (True, cm_var k, s')"
    and a: "cm_after k = clone_snapshot (normalizeDLQDueIndexLocked s')" by (auto simp: applied_def)
  have e: "replay_claim i (cm_after k) = replay_claim i s'" "replay_claim i (clone_snapshot s) = replay_claim i s"
    by (simp_all add: replay_claim_def a)
  show "0 < p \<and> replay_claim i (cm_after k) = Some t \<and> (\<forall>t0. replay_claim i s = Some t0 \<longrightarrow> t0 + p \<le> t)"
    if "claims_entry i (cm_op k) = Some (t, p)"
    using claim_sets [OF m that] by (simp add: e)
  show "replay_claim i (cm_after k) = replay_claim i s"
    if "claims_entry i (cm_op k) = None" "\<not> (settles_entry i (cm_op k) (cm_var k) \<or> names_entry i (cm_op k) (cm_var k))"
    using unclaimed_keeps [OF m that(1)] that(2) by (simp add: e)
qed

abbreviation dlq_cluster :: "dlq_op event list \<Rightarrow> (dlq_op, deadLetterEntry \<times> string, deadLetterSnapshot, dlq_error) cluster" where
  "dlq_cluster es \<equiv> cluster_run dlq_snapshots dlq_prog es (fresh_cluster NewDLQService)"

lemma dlq_cluster_ok: "cluster_ok dlq_snapshots dlq_prog NewDLQService (dlq_cluster es)"
  by (intro dlq.run_ok dlq.fresh_ok)

lemma unchanged_reports: "snd (dlq_prog op) v s = Inr (False, v', s') \<Longrightarrow> snd v' \<noteq> ''''"
  by (cases op) (auto simp: dlq_prog_def append_mutator_def claim_mutator_def fail_mutator_def resolve_mutator_def restore_mutator_def Let_def
      split: if_splits option.splits)

text \<open>A report whose captured entry is another one leaves a running replay alone: while identifiers are distinct, the entry it
  repeats waits in the queue, and the one it adds has the identifier it drew.\<close>

lemma report_spares_claims:
  assumes "append_mutator e inp v s = Inr (True, v', s')" and "replay_claim i s \<noteq> None" and "trim_space (dl_ID (fst v)) \<noteq> i"
    and "distinct (map (\<lambda>x. trim_space (dl_ID x)) (ds_Entries s))"
  shows "trim_space (dl_ID (fst v')) \<noteq> i" and "replay_claim i s' = replay_claim i s"
proof -
  from assms(2) obtain x where x: "find (\<lambda>x. trim_space (dl_ID x) = i) (ds_Entries s) = Some x" "trim_space (dl_Status x) = ''replaying''"
    by (auto simp: replay_claim_def split: option.splits if_splits)
  have waiting: "\<forall>k<length (ds_Entries s). trim_space (dl_Status (ds_Entries s ! k)) = ''dlq'' \<longrightarrow> trim_space (dl_ID (ds_Entries s ! k)) \<noteq> i"
  proof (intro allI impI notI)
    fix k
    assume that: "k < length (ds_Entries s)" "trim_space (dl_Status (ds_Entries s ! k)) = ''dlq''" and "trim_space (dl_ID (ds_Entries s ! k)) = i"
    moreover from x(1) have "x \<in> set (ds_Entries s)" "trim_space (dl_ID x) = i" by (auto dest: find_memberD)
    ultimately have "ds_Entries s ! k = x" using assms(4) that(1) by (auto simp: distinct_map dest: inj_onD)
    with that(2) x(2) show False by simp
  qed
  show ne: "trim_space (dl_ID (fst v')) \<noteq> i"
    using assms(1,3) waiting by (auto simp: append_mutator_def Let_def split: option.splits if_splits dest!: find_idx_Some_iff [THEN iffD1])
  show "replay_claim i s' = replay_claim i s"
  proof (cases "ds_Entries s' = fst v # ds_Entries s")
    case True
    with assms(3) show ?thesis by (simp add: replay_claim_def)
  next
    case False
    with assms(1) obtain k where "trim_space (dl_ID (ds_Entries s ! k)) = trim_space (dl_ID (fst v'))" "ds_Entries s' = (ds_Entries s)[k := fst v']"
      by (auto simp: append_mutator_def Let_def split: option.splits if_splits)
    then show ?thesis
      using ne find_update_unmatched [of "\<lambda>x. trim_space (dl_ID x) = i" "ds_Entries s" k "fst v'"] by (simp add: replay_claim_def)
  qed
qed

text \<open>C18: Two claims of one dead letter are a processing time-out apart unless something about the entry is recorded between
  them.  Any number of server processes share the store, their accesses interleave in any order and may fail, also after having
  been carried out.  Whoever is told that an entry is claimed has a commit in the one history of the store; and of two commits that
  claim the same entry, between which no outcome of its replay is committed and no report of a failure names it, the later reads
  the clock at least the processing time-out after the earlier.  Both exceptions matter: an outcome gives the entry free, and a
  report that loses a swap against a claim can store a second copy of the claimed entry (\<open>append_race\<close> below).  A report names an
  entry with a running replay in no other way (\<open>report_spares_claims\<close>).\<close>

theorem replay_claims_exclusive:
  fixes es :: "dlq_op event list"
  defines "log \<equiv> cl_log (dlq_cluster es)"
  shows "(cl_calls (dlq_cluster es) w = Some (Claim_op e i p, base, Finished None (x, '''')) \<longrightarrow>
      (\<exists>k\<in>set log. cm_proc k = w \<and> cm_op k = Claim_op e i p \<and> cm_var k = (x, ''''))) \<and>
    (log = later @ k2 # between @ k1 # earlier \<longrightarrow>
     claims_entry i' (cm_op k1) = Some (t1, p1) \<longrightarrow> claims_entry i' (cm_op k2) = Some (t2, p2) \<longrightarrow>
     (\<forall>k\<in>set between. \<not> settles_entry i' (cm_op k) (cm_var k) \<and> \<not> names_entry i' (cm_op k) (cm_var k)) \<longrightarrow> t1 + p2 \<le> t2)"
proof (intro conjI impI)
  assume "cl_calls (dlq_cluster es) w = Some (Claim_op e i p, base, Finished None (x, ''''))"
  then have "proc_ok dlq_snapshots dlq_prog NewDLQService log w (Claim_op e i p, base, Finished None (x, ''''))"
    using dlq.slotD [OF dlq_cluster_ok] by (auto simp: slot_ok_def log_def)
  then show "\<exists>k\<in>set log. cm_proc k = w \<and> cm_op k = Claim_op e i p \<and> cm_var k = (x, '''')"
    using unchanged_reports [of "Claim_op e i p" _ _ "(x, '''')"] by (fastforce simp: proc_ok_def)
next
  assume a: "log = later @ k2 # between @ k1 # earlier" "claims_entry i' (cm_op k1) = Some (t1, p1)"
    "claims_entry i' (cm_op k2) = Some (t2, p2)" "\<forall>k\<in>set between. \<not> settles_entry i' (cm_op k) (cm_var k) \<and> \<not> names_entry i' (cm_op k) (cm_var k)"
  have "linear dlq_snapshots dlq_prog NewDLQService (later @ k2 # between @ k1 # earlier)"
    using dlq_cluster_ok [of es] a(1) by (simp add: cluster_ok_def log_def)
  moreover have "\<forall>k\<in>set between. \<not> (settles_entry i' (cm_op k) (cm_var k) \<or> names_entry i' (cm_op k) (cm_var k))"
    using a(4) by blast
  ultimately show "t1 + p2 \<le> t2" using a(2,3) by (blast intro: replay.spaced)
qed

section \<open>Two workers and one entry\<close>

abbreviation dlq_env :: "time \<Rightarrow> env" where
  "dlq_env t \<equiv> \<lparr>env_now = t, env_save_ok = True, env_rand = Some ''0a''\<rparr>"

abbreviation demo_failure :: deadLetterFailureInput where
  "demo_failure \<equiv> \<lparr>di_TenantID = ''t'', di_ConnectorID = ''c'', di_Vendor = ''v'', di_ReceiptID = ''r'', di_RequestID = ''q'',
     di_EventType = ''hire'', di_FailureStage = ''sync'', di_Error = ''down'', di_RawPayloadRef = ''''\<rparr>"

abbreviation demo_claim :: "time \<Rightarrow> dlq_op" where
  "demo_claim t \<equiv> Claim_op (dlq_env t) ''hdlq_0a'' \<lparr>cp_maxAttempts = 3, cp_retryCooldown = 0, cp_retryMaxBackoff = 0, cp_processingTimeout = 100, cp_now = t\<rparr>"

definition demo_letter :: "time \<Rightarrow> deadLetterEntry" where
  "demo_letter t = new_dead_letter (dlq_env t) ''hdlq_0a'' demo_failure"

definition taken_letter :: "int \<Rightarrow> time \<Rightarrow> deadLetterEntry \<Rightarrow> deadLetterEntry" where
  "taken_letter n t x =
     x\<lparr>dl_ReplayCount := n, dl_Status := ''replaying'', dl_ResolvedAt := None, dl_UpdatedAt := t, dl_LastReplayAt := Some t\<rparr>"

definition one_letter :: "deadLetterEntry \<Rightarrow> time \<Rightarrow> deadLetterSnapshot" where
  "one_letter x t = \<lparr>ds_Entries = [x], ds_Due = [\<lparr>du_EntryID = ''hdlq_0a'', du_DueAt = t\<rparr>]\<rparr>"

lemma not_zero: "0 \<le> t \<Longrightarrow> \<not> is_zero t"
  by (simp add: is_zero_def zero_time_def)

lemma demo_trims:
  "trim_space ''t'' = ''t''" "trim_space ''sync'' = ''sync''" "trim_space ''down'' = ''down''" "trim_space ''r'' = ''r''"
  "trim_space ''hdlq_0a'' = ''hdlq_0a''"
  by code_simp+

lemma letter_fields [simp]:
  "dl_ID (demo_letter t) = ''hdlq_0a''" "dl_Status (demo_letter t) = ''dlq''" "dl_ReplayCount (demo_letter t) = 0"
  "dl_LastReplayAt (demo_letter t) = None" "dl_CreatedAt (demo_letter t) = t" "dl_ReceiptID (demo_letter t) = ''r''"
  "dl_FailureStage (demo_letter t) = ''sync''"
  "dl_ID (taken_letter n u x) = dl_ID x" "dl_Status (taken_letter n u x) = ''replaying''"
  "dl_ReplayCount (taken_letter n u x) = n" "dl_LastReplayAt (taken_letter n u x) = Some u"
  by (simp_all add: demo_letter_def new_dead_letter_def taken_letter_def demo_trims)

lemma append_call:
  "dlq_prog (AppendFailure_op (dlq_env t) demo_failure) = ((demo_letter t, ''''), append_mutator (dlq_env t) demo_failure)"
  by (simp add: dlq_prog_def randomDLQID_def demo_trims demo_letter_def)

lemma append_first:
  "0 \<le> t \<Longrightarrow> append_mutator (dlq_env t) demo_failure (demo_letter t, '''') NewDLQService = Inr (True, (demo_letter t, ''''), one_letter (demo_letter t) t)"
  by (simp add: not_zero append_mutator_def NewDLQService_def upsertDLQDueIndexLocked_def sortDLQDueIndexEntries_def
      one_letter_def demo_trims Let_def)

lemma one_letter_tidy [simp]:
  "dl_ID x = ''hdlq_0a'' \<Longrightarrow> dl_Status x \<in> {''dlq'', ''replaying''} \<Longrightarrow> 0 \<le> t \<Longrightarrow> normalizeDLQDueIndexLocked (one_letter x t) = one_letter x t"
  "clone_snapshot (one_letter x t) = one_letter x t"
  by (auto simp: normalizeDLQDueIndexLocked_def one_letter_def sortDLQDueIndexEntries_def demo_trims isDLQDueIndexCandidate_def
      existing_due_def clone_snapshot_def cloneDLQDueIndexEntries_def not_zero)

lemma claim_one:
  assumes "0 \<le> t" and "dl_ID x = ''hdlq_0a''" "dl_Status x \<in> {''dlq'', ''replaying''}" "dl_ReplayCount x < 3"
    and "dl_LastReplayAt x = None \<or> the (dl_LastReplayAt x) + 100 \<le> t"
  shows "snd (dlq_prog (demo_claim t)) v (one_letter x u) =
    Inr (True, (taken_letter (dl_ReplayCount x + 1) t x, ''''), one_letter (taken_letter (dl_ReplayCount x + 1) t x) (t + 100))"
  using assms by (auto simp: not_zero dlq_prog_def demo_trims claim_mutator_def entry_idx_def one_letter_def normalizeDLQReplayClaimParams_def
      Normalize_def dlqReplayClaimReason_def Exponential_def set_entry_def upsertDLQDueIndexLocked_def dlqReplayProcessingDueAt_def
      taken_letter_def sortDLQDueIndexEntries_def Let_def split: option.split)

lemma run_append: "cluster_run c prog (xs @ ys) cl = cluster_run c prog ys (cluster_run c prog xs cl)"
  by (simp add: cluster_run_def)

definition turn :: "nat \<Rightarrow> dlq_op \<Rightarrow> dlq_op event list" where
  "turn i op = [Call i op, Access i Answers, Access i Answers]"

lemma start_one: "start_from dlq_snapshots base (Some (one_letter x t)) = one_letter x t"
  by (simp add: start_from_def)

definition dlq_schedule :: "dlq_op event list" where
  "dlq_schedule = turn 1 (AppendFailure_op (dlq_env 1) demo_failure) @ turn 1 (demo_claim 2) @ turn 2 (demo_claim 103)"

abbreviation idle :: "(dlq_op, deadLetterEntry \<times> string, deadLetterSnapshot, dlq_error) cluster \<Rightarrow> nat \<Rightarrow> bool" where
  "idle cl i \<equiv> \<forall>op base p. cl_calls cl i = Some (op, base, p) \<longrightarrow> (\<exists>r v. p = Finished r v)"

lemma first_turn:
  defines "cl \<equiv> dlq_cluster (turn 1 (AppendFailure_op (dlq_env 1) demo_failure))"
  shows "cl_store cl = Some (one_letter (demo_letter 1) 1)" "length (cl_log cl) = 1" "idle cl j"
proof -
  have "clone_snapshot NewDLQService = NewDLQService" using dlq.copy_init by simp
  then have "cl = set_proc 1 (AppendFailure_op (dlq_env 1) demo_failure) NewDLQService (Finished None (demo_letter 1, ''''), one_letter (demo_letter 1) 1)
     ((fresh_cluster NewDLQService)\<lparr>cl_store := Some (one_letter (demo_letter 1) 1),
       cl_log := [\<lparr>cm_proc = 1, cm_op = AppendFailure_op (dlq_env 1) demo_failure, cm_var = (demo_letter 1, ''''), cm_after = one_letter (demo_letter 1) 1\<rparr>]\<rparr>)"
    unfolding cl_def turn_def
    by (subst whole_turn [where v' = "(demo_letter 1, '''')" and s' = "one_letter (demo_letter 1) 1"])
      (simp_all add: fresh_cluster_def append_call append_first start_from_def)
  then show "cl_store cl = Some (one_letter (demo_letter 1) 1)" "length (cl_log cl) = 1" "idle cl j"
    by (simp_all add: set_proc_def fresh_cluster_def)
qed

lemma claim_turn:
  assumes "idle cl i" and "cl_store cl = Some s"
    and "snd (dlq_prog (demo_claim t)) (fst (dlq_prog (demo_claim t))) (clone_snapshot s) = Inr (True, v', s')"
  defines "cl' \<equiv> cluster_run dlq_snapshots dlq_prog (turn i (demo_claim t)) cl"
  shows "cl_store cl' = Some (clone_snapshot (normalizeDLQDueIndexLocked s'))"
    and "\<exists>k. cl_log cl' = k # cl_log cl \<and> cm_op k = demo_claim t" and "cl_calls cl' j = (if j = i then Some (demo_claim t, cl_mem cl i, Finished None v') else cl_calls cl j)"
  unfolding cl'_def turn_def
  by (subst whole_turn [OF assms(1), where v' = v' and s' = s'], use assms(2,3) in \<open>simp_all add: start_from_def\<close>)+

lemma dlq_schedule_log:
  "\<exists>k2 k1 k0. cl_log (dlq_cluster dlq_schedule) = [] @ k2 # [] @ k1 # [k0] \<and> cm_op k1 = demo_claim 2 \<and> cm_op k2 = demo_claim 103"
proof -
  let ?x = "demo_letter 1"
  define cl1 where "cl1 = dlq_cluster (turn 1 (AppendFailure_op (dlq_env 1) demo_failure))"
  define cl2 where "cl2 = cluster_run dlq_snapshots dlq_prog (turn 1 (demo_claim 2)) cl1"
  note 1 = first_turn [folded cl1_def]
  have "snd (dlq_prog (demo_claim 2)) v (clone_snapshot (one_letter ?x 1)) = Inr (True, (taken_letter 1 2 ?x, ''''), one_letter (taken_letter 1 2 ?x) 102)" for v
    using claim_one [of 2 ?x v 1] by simp
  note 2 = claim_turn [OF 1(3) [of 1] 1(1) this, folded cl2_def]
  have 3: "snd (dlq_prog (demo_claim 103)) v (clone_snapshot (one_letter (taken_letter 1 2 ?x) 102)) =
      Inr (True, (taken_letter 2 103 (taken_letter 1 2 ?x), ''''), one_letter (taken_letter 2 103 (taken_letter 1 2 ?x)) 203)" for v
    using claim_one [of 103 "taken_letter 1 2 ?x" v 102] by simp
  have "cl_store cl2 = Some (one_letter (taken_letter 1 2 ?x) 102)" "idle cl2 2" using 2(1,3) 1(3) by simp_all
  from claim_turn(2) [OF this(2,1) 3] show ?thesis
    using 2(2) 1(2) by (auto simp: dlq_schedule_def run_append cl1_def cl2_def length_Suc_conv)
qed

theorem replay_claims_exclusive_witness:
  "\<exists>k2 k1 k0. cl_log (dlq_cluster dlq_schedule) = [] @ k2 # [] @ k1 # [k0] \<and> claims_entry ''hdlq_0a'' (cm_op k1) = Some (2, 100) \<and>
     claims_entry ''hdlq_0a'' (cm_op k2) = Some (103, 100) \<and> (2 :: int) + 100 \<le> 103"
proof -
  obtain k2 k1 k0 where l: "cl_log (dlq_cluster dlq_schedule) = [] @ k2 # [] @ k1 # [k0]" "cm_op k1 = demo_claim 2" "cm_op k2 = demo_claim 103"
    using dlq_schedule_log by blast
  have c: "claims_entry ''hdlq_0a'' (demo_claim t) = Some (t, 100)" if "0 \<le> t" for t
    using that by (simp add: demo_trims normalizeDLQReplayClaimParams_def Normalize_def not_zero)
  have "claims_entry ''hdlq_0a'' (cm_op k1) = Some (2, 100)" "claims_entry ''hdlq_0a'' (cm_op k2) = Some (103, 100)"
    using c l(2,3) by simp_all
  moreover from this l(1) have "(2 :: int) + 100 \<le> 103"
    using replay_claims_exclusive [of dlq_schedule] by (metis empty_iff empty_set)
  ultimately show ?thesis using l(1) by blast
qed

section \<open>What the code leaves open\<close>

text \<open>
  The closure of \<open>AppendFailure\<close> captures the entry it reports.  When its first attempt finds an older entry of the
  same receipt and loses the swap to a claim of that entry, the second attempt no longer finds it and stores the captured
  copy, identifier included, as a new entry: the next worker claims it while the first still replays it.
\<close>

lemma append_again:
  "append_mutator (dlq_env t) demo_failure v (one_letter (demo_letter 1) 1) =
     Inr (True, (repeated_failure (dlq_env t) demo_failure (demo_letter 1), snd v), one_letter (repeated_failure (dlq_env t) demo_failure (demo_letter 1)) 1)"
  by (simp add: append_mutator_def one_letter_def demo_trims set_entry_def Let_def)

lemma append_missed:
  assumes "trim_space (dl_Status x) \<noteq> ''dlq''"
  shows "\<exists>s'. append_mutator (dlq_env t) demo_failure v (one_letter x u) = Inr (True, v, s') \<and> ds_Entries s' = fst v # [x]"
  using assms by (auto simp: append_mutator_def one_letter_def demo_trims Let_def)

lemma claim_head:
  assumes "ds_Entries s = x # xs" "dl_ID x = ''hdlq_0a''" "dl_Status x = ''dlq''" "dl_ReplayCount x < 3" "dl_LastReplayAt x = None"
  shows "\<exists>v' s'. snd (dlq_prog (demo_claim t)) v s = Inr (True, v', s')"
  using assms by (auto simp: dlq_prog_def demo_trims claim_mutator_def entry_idx_def normalizeDLQReplayClaimParams_def Normalize_def
      dlqReplayClaimReason_def Exponential_def Let_def)

lemma repeated_fields [simp]:
  "dl_Status (repeated_failure e inp x) = dl_Status x" "dl_ReplayCount (repeated_failure e inp x) = dl_ReplayCount x"
  "dl_LastReplayAt (repeated_failure e inp x) = dl_LastReplayAt x"
  by (simp_all add: repeated_failure_def)

lemma append_race:
  defines "op \<equiv> AppendFailure_op (dlq_env 2) demo_failure"
  shows "\<exists>k4 k3 k2 k1. cl_log (dlq_cluster (turn 1 (AppendFailure_op (dlq_env 1) demo_failure) @ [Call 2 op, Access 2 Answers] @
      turn 1 (demo_claim 3) @ [Access 2 Answers, Access 2 Answers, Access 2 Answers] @ turn 3 (demo_claim 4))) = [k4, k3, k2, k1] \<and>
    cm_op k2 = demo_claim 3 \<and> cm_op k4 = demo_claim 4"
proof -
  let ?x = "demo_letter 1" and ?run = "cluster_run dlq_snapshots dlq_prog" and ?step = "cluster_step dlq_snapshots dlq_prog"
  let ?y = "repeated_failure (dlq_env 2) demo_failure ?x" and ?s1 = "one_letter ?x 1"
  define cl1 where "cl1 = dlq_cluster (turn 1 (AppendFailure_op (dlq_env 1) demo_failure))"
  note 1 = first_turn [folded cl1_def]
  have p: "dlq_prog op = ((demo_letter 2, ''''), append_mutator (dlq_env 2) demo_failure)" by (simp add: op_def append_call)
  define cl2 where "cl2 = set_proc 2 op (cl_mem cl1 2) (Swapping 4 (?y, '''') (Some ?s1) (one_letter ?y 1), one_letter ?y 1) cl1"
  have "?step (Call 2 op) cl1 = set_proc 2 op (cl_mem cl1 2) (Reading (Suc 4) (demo_letter 2, ''''), cl_mem cl1 2) cl1"
    using call_turn [OF 1(3) [of 2], of dlq_snapshots dlq_prog op] by (simp add: p maxStateCASRetries_def)
  moreover have "?step (Access 2 Answers) (set_proc 2 op (cl_mem cl1 2) (Reading (Suc 4) (demo_letter 2, ''''), cl_mem cl1 2) cl1) = cl2"
  proof -
    have "snd (dlq_prog op) (demo_letter 2, '''') ?s1 = Inr (True, (?y, ''''), one_letter ?y 1)"
      using append_again [of 2 "(demo_letter 2, '''')"] by (simp add: p)
    then show ?thesis using 1(1) by (subst read_turn) (auto simp: start_one cl2_def)
  qed
  ultimately have r2: "?run [Call 2 op, Access 2 Answers] cl1 = cl2" by (simp only: cluster_run_def fold.simps o_apply id_apply)
  define cl3 where "cl3 = ?run (turn 1 (demo_claim 3)) cl2"
  have "snd (dlq_prog (demo_claim 3)) v (clone_snapshot ?s1) = Inr (True, (taken_letter 1 3 ?x, ''''), one_letter (taken_letter 1 3 ?x) 103)" for v
    using claim_one [of 3 ?x v 1] by simp
  moreover have "idle cl2 1" "cl_store cl2 = Some ?s1" using 1(1) 1(3) [of 1] by (simp_all add: cl2_def)
  ultimately have 3: "cl_store cl3 = Some (one_letter (taken_letter 1 3 ?x) 103)" "\<exists>k. cl_log cl3 = k # cl_log cl1 \<and> cm_op k = demo_claim 3"
    "cl_calls cl3 j = (if j = 1 then Some (demo_claim 3, cl_mem cl2 1, Finished None (taken_letter 1 3 ?x, '''')) else cl_calls cl2 j)" for j
    using claim_turn [of cl2 1 ?s1 3, folded cl3_def] by (simp_all add: cl2_def)
  have c3: "cl_calls cl3 2 = Some (op, cl_mem cl1 2, Swapping 4 (?y, '''') (Some ?s1) (one_letter ?y 1))" using 3(3) [of 2] by (simp add: cl2_def)
  define cl4 where "cl4 = set_proc 2 op (cl_mem cl1 2) (Reading 4 (?y, ''''), one_letter ?y 1) cl3"
  have r4: "?step (Access 2 Answers) cl3 = cl4"
    using 3(1) by (subst lost_turn [OF c3]) (simp_all add: cl4_def swap_works_def one_letter_def)
  obtain s' where s': "append_mutator (dlq_env 2) demo_failure (?y, '''') (one_letter (taken_letter 1 3 ?x) 103) = Inr (True, (?y, ''''), s')"
    "ds_Entries s' = ?y # [taken_letter 1 3 ?x]" using append_missed [of "taken_letter 1 3 ?x" 2 "(?y, '''')" 103] by auto
  let ?n = "normalizeDLQDueIndexLocked s'"
  define cl5 where "cl5 = set_proc 2 op (cl_mem cl1 2) (Swapping 3 (?y, '''') (cl_store cl3) ?n, ?n) cl4"
  have r5: "?step (Access 2 Answers) cl4 = cl5"
    using s'(1) 3(1) by (subst read_turn [where k = 3]) (simp_all add: cl4_def cl5_def p start_one numeral_eq_Suc)
  define cl6 where "cl6 = ?step (Access 2 Answers) cl5"
  have c5: "cl_calls cl5 2 = Some (op, cl_mem cl1 2, Swapping 3 (?y, '''') (cl_store cl3) ?n)" by (simp add: cl5_def)
  have w: "swap_works dlq_snapshots (cl_store cl3) (cl_store cl5)" using 3(1) by (simp add: swap_works_def cl5_def cl4_def)
  have 6: "cl_store cl6 = Some (clone_snapshot ?n)" "\<exists>k. cl_log cl6 = k # cl_log cl3" "idle cl6 3"
    unfolding cl6_def swap_turn [OF c5 w] using 3(3) [of 3] 1(3) [of 3] by (simp_all add: cl5_def cl4_def cl2_def)
  have "\<exists>v' s''. snd (dlq_prog (demo_claim 4)) (fst (dlq_prog (demo_claim 4))) (clone_snapshot (clone_snapshot ?n)) = Inr (True, v', s'')"
    by (rule claim_head [of _ ?y "[taken_letter 1 3 ?x]"]) (simp_all add: s'(2))
  then obtain v' s'' where "snd (dlq_prog (demo_claim 4)) (fst (dlq_prog (demo_claim 4))) (clone_snapshot (clone_snapshot ?n)) = Inr (True, v', s'')"
    by (elim exE)
  note 7 = claim_turn(2) [OF 6(3,1) this]
  have r6: "?run [Access 2 Answers, Access 2 Answers, Access 2 Answers] cl3 = cl6"
    by (simp only: cluster_run_def fold.simps o_apply id_apply r4 r5 cl6_def)
  obtain k1 where "cl_log cl1 = [k1]" using 1(2) by (auto simp: length_Suc_conv)
  with 3(2) 6(2) 7 show ?thesis
    unfolding run_append cl1_def [symmetric] r2 cl3_def [symmetric] r6 by auto
qed

text \<open>The limit on attempts is not applied to an entry whose worker stopped: after the time-out it is handed out again, however often.\<close>

lemma abandoned_unlimited:
  assumes "dl_LastReplayAt x = Some t" "trim_space (dl_Status x) = ''replaying''" "t + cp_processingTimeout p \<le> cp_now p"
  shows "dlqReplayClaimReason x p = ''''"
  using assms by (simp add: dlqReplayClaimReason_def Let_def)

section \<open>Which entries are offered\<close>

lemma due_scan_sound:
  assumes "due_scan ok es now limit ds items = (full, out)" "distinct (map dl_ID items)" "set items \<subseteq> {x \<in> set es. ok x}"
    and "limit > 0 \<Longrightarrow> int (length items) < limit"
  shows "distinct (map dl_ID out) \<and> set out \<subseteq> {x \<in> set es. ok x} \<and> (limit > 0 \<longrightarrow> int (length out) \<le> limit) \<and>
    (full \<longrightarrow> limit > 0 \<and> int (length out) = limit) \<and> (\<not> full \<longrightarrow> limit > 0 \<longrightarrow> int (length out) < limit)"
  using assms
proof (induction ds arbitrary: items)
  case (Cons d ds)
  show ?case
  proof (cases "findDLQEntryByIDLocked es (du_EntryID d)")
    case None
    with Cons show ?thesis by (auto split: if_splits)
  next
    case (Some x)
    then have "x \<in> set es" by (auto simp: findDLQEntryByIDLocked_def Let_def split: if_splits dest: find_memberD)
    with Some Cons.prems Cons.IH [of items] Cons.IH [of "items @ [x]"] show ?thesis by (auto split: if_splits)
  qed
qed auto

lemma fill_up_sound:
  fixes xs :: "deadLetterEntry list"
  assumes "distinct (map dl_ID items)" "limit > 0 \<Longrightarrow> int (length items) < limit"
  defines "out \<equiv> fill_up limit xs items"
  shows "distinct (map dl_ID out) \<and> set items \<subseteq> set out \<and> set out \<subseteq> set items \<union> set xs \<and> (limit > 0 \<longrightarrow> int (length out) \<le> limit) \<and>
    (limit \<le> 0 \<or> int (length out) < limit \<longrightarrow> dl_ID ` set xs \<subseteq> dl_ID ` set out)"
  unfolding out_def using assms(1,2)
proof (induction xs arbitrary: items)
  case (Cons x xs)
  show ?case
  proof (cases "dl_ID x \<in> dl_ID ` set items")
    case True
    with Cons.IH [OF Cons.prems] show ?thesis by (auto simp: image_iff subset_iff)
  next
    case False
    with Cons.prems Cons.IH [of "items @ [x]"] show ?thesis by auto blast
  qed
qed auto

lemma set_listClaimable: "set (listClaimable es t c p 0) = {x \<in> set es. claimable t c p x}"
  by (simp add: listClaimable_def cut_def newest_first_def)

text \<open>C19: The due index is only a short cut.  Whatever it contains, the list of entries to replay names each identifier once,
  contains only entries of the tenant and connector that may be claimed now, keeps the limit, and, unless the limit is reached, names
  every entry that the walk over all entries would.  A negative limit stops the program.\<close>

theorem due_listing_complete:
  shows "(ListDueEntriesForReplayWithBackoff e t c p limit s = None \<longleftrightarrow> limit < 0) \<and>
    (\<forall>out. ListDueEntriesForReplayWithBackoff e t c p limit s = Some out \<longrightarrow>
      distinct (map dl_ID out) \<and>
      set out \<subseteq> set (ListClaimableEntriesForReplayWithBackoff e t c p 0 s) \<and>
      (limit > 0 \<longrightarrow> int (length out) \<le> limit) \<and>
      (limit = 0 \<or> int (length out) < limit \<longrightarrow>
        dl_ID ` set out = dl_ID ` set (ListClaimableEntriesForReplayWithBackoff e t c p 0 s)))"
proof -
  let ?p = "normalizeDLQReplayClaimParams e p"
  obtain full items where sc: "due_scan (claimable t c ?p) (ds_Entries s) (cp_now ?p) limit (ds_Due s) [] = (full, items)" by (cases "due_scan (claimable t c ?p) (ds_Entries s) (cp_now ?p) limit (ds_Due s) []")
  have all: "set (ListClaimableEntriesForReplayWithBackoff e t c p 0 s) = {x \<in> set (ds_Entries s). claimable t c ?p x}"
    by (simp add: ListClaimableEntriesForReplayWithBackoff_def set_listClaimable)
  have a: "distinct (map dl_ID items) \<and> set items \<subseteq> {x \<in> set (ds_Entries s). claimable t c ?p x} \<and> (limit > 0 \<longrightarrow> int (length items) \<le> limit) \<and>
    (full \<longrightarrow> limit > 0 \<and> int (length items) = limit) \<and> (\<not> full \<longrightarrow> limit > 0 \<longrightarrow> int (length items) < limit)"
    using due_scan_sound [OF sc] by simp
  show ?thesis
  proof (cases full)
    case True
    with sc a all show ?thesis by (auto simp: ListDueEntriesForReplayWithBackoff_def Let_def)
  next
    case False
    define S where "S = {x \<in> set (ds_Entries s). claimable t c ?p x}"
    define out where "out = fill_up limit (listClaimable (ds_Entries s) t c ?p 0) items"
    have f: "distinct (map dl_ID out)" "set out \<subseteq> set items \<union> S" "limit > 0 \<longrightarrow> int (length out) \<le> limit"
      "limit \<le> 0 \<or> int (length out) < limit \<longrightarrow> dl_ID ` S \<subseteq> dl_ID ` set out"
      using fill_up_sound [of items limit "listClaimable (ds_Entries s) t c ?p 0"] a False by (simp_all add: set_listClaimable S_def out_def)
    have sub: "set out \<subseteq> S" using f(2) a by (auto simp: S_def)
    have "ListDueEntriesForReplayWithBackoff e t c p limit s = (if limit < 0 then None else Some out)"
      using sc False by (simp add: ListDueEntriesForReplayWithBackoff_def out_def Let_def)
    moreover have "dl_ID ` set out \<subseteq> dl_ID ` S" using sub by (rule image_mono)
    ultimately show ?thesis unfolding all S_def [symmetric] using f sub by auto
  qed
qed

theorem due_listing_complete_witness:
  "\<exists>out. ListDueEntriesForReplayWithBackoff (dlq_env 5) ''t'' '''' \<lparr>cp_maxAttempts = 3, cp_retryCooldown = 0, cp_retryMaxBackoff = 0,
       cp_processingTimeout = 100, cp_now = 5\<rparr> 0 (one_letter (demo_letter 1) 1) = Some out \<and> dl_ID ` set out = {''hdlq_0a''}"
proof -
  let ?p = "\<lparr>cp_maxAttempts = 3, cp_retryCooldown = 0, cp_retryMaxBackoff = 0, cp_processingTimeout = 100, cp_now = 5\<rparr>"
  have "dl_TenantID (demo_letter 1) = ''t''" by (simp add: demo_letter_def new_dead_letter_def demo_trims)
  then have "set (ListClaimableEntriesForReplayWithBackoff (dlq_env 5) ''t'' '''' ?p 0 (one_letter (demo_letter 1) 1)) = {demo_letter 1}"
    by (auto simp: ListClaimableEntriesForReplayWithBackoff_def set_listClaimable one_letter_def claimable_def dlq_listed_def demo_trims
        scope_simps normalizeDLQReplayClaimParams_def Normalize_def dlqReplayClaimReason_def Let_def)
  moreover obtain out where "ListDueEntriesForReplayWithBackoff (dlq_env 5) ''t'' '''' ?p 0 (one_letter (demo_letter 1) 1) = Some out"
    using due_listing_complete [of "dlq_env 5" "''t''" "''''" ?p 0 "one_letter (demo_letter 1) 1"] by auto
  ultimately show ?thesis
    using due_listing_complete [of "dlq_env 5" "''t''" "''''" ?p 0 "one_letter (demo_letter 1) 1"] by auto
qed

end
