(* ===== verification/Hris_Pull.thy ===== *)
theory Hris_Pull
  imports Go_Strings Go_Time Retry_Backoff Cas_Store
    "HOL-Library.Product_Lexorder" "HOL-Library.List_Lexorder" "HOL-Library.Char_ord"
begin

text \<open>
  \<open>internal/modules/hris/pull_worker.go\<close>: when each HR connector was last pulled and by whom it is being pulled now.
  The states of all connectors are one snapshot in the shared store; a worker claims a connector, pulls and
  marks the outcome.
\<close>

section \<open>Data\<close>

record connectorPullState =
  ps_TenantID :: string
  ps_ConnectorID :: string
  ps_Vendor :: string
  ps_Status :: string
  ps_LastRequestID :: string
  ps_LastMode :: string
  ps_LastStartedAt :: "time option"
  ps_LastSuccessAt :: "time option"
  ps_LastFullSuccessAt :: "time option"
  ps_LastFailureAt :: "time option"
  ps_LastError :: string
  ps_ConsecutiveFailures :: int
  ps_CreatedAt :: time
  ps_UpdatedAt :: time

datatype pull_error =
    PullTenantIDRequired | PullConnectorIDRequired | PullStateNotFound | PullFailureRequired | PullStateConflict | PullStoreFailed

type_synonym pull_states = "connectorPullState list"

definition NormalizeVendor :: "string \<Rightarrow> string" where
  "NormalizeVendor vendor = to_lower (trim_space vendor)"

definition NormalizePullMode :: "string \<Rightarrow> string" where
  "NormalizePullMode mode = (if to_lower (trim_space mode) = ''incremental'' then ''incremental'' else ''full'')"

text \<open>A loaded snapshot is stripped of states without tenant or connector.\<close>

definition pull_named :: "connectorPullState \<Rightarrow> bool" where
  "pull_named x \<longleftrightarrow> trim_space (ps_TenantID x) \<noteq> '''' \<and> trim_space (ps_ConnectorID x) \<noteq> ''''"

definition normalizePullStateSnapshotStates :: "pull_states \<Rightarrow> pull_states" where
  "normalizePullStateSnapshotStates items = filter pull_named items"

definition pull_snapshots :: "pull_states snapshots" where
  "pull_snapshots = \<lparr>sn_view = normalizePullStateSnapshotStates, sn_copy = (\<lambda>s. s), sn_refresh = (\<lambda>s. s), sn_tidy = (\<lambda>s. s)\<rparr>"

section \<open>Changes\<close>

type_synonym pull_mutator = "(connectorPullState \<times> string, pull_states, pull_error) mutator"

abbreviation blank_pull :: connectorPullState where
  "blank_pull \<equiv> \<lparr>ps_TenantID = '''', ps_ConnectorID = '''', ps_Vendor = '''', ps_Status = '''', ps_LastRequestID = '''', ps_LastMode = '''',
     ps_LastStartedAt = None, ps_LastSuccessAt = None, ps_LastFullSuccessAt = None, ps_LastFailureAt = None, ps_LastError = '''',
     ps_ConsecutiveFailures = 0, ps_CreatedAt = zero_time, ps_UpdatedAt = zero_time\<rparr>"

record pullClaimParams =
  pp_mode :: string
  pp_maxAttempts :: int
  pp_retryCooldown :: int
  pp_retryMaxBackoff :: int
  pp_processingTimeout :: int
  pp_now :: time

definition normalize_pull_params :: "env \<Rightarrow> pullClaimParams \<Rightarrow> pullClaimParams" where
  "normalize_pull_params e p =
     (case Normalize (pp_retryCooldown p) (pp_retryMaxBackoff p) of
        (cooldown, maxBackoff) \<Rightarrow>
          \<lparr>pp_mode = NormalizePullMode (pp_mode p), pp_maxAttempts = (if pp_maxAttempts p \<le> 0 then 1 else pp_maxAttempts p),
           pp_retryCooldown = cooldown, pp_retryMaxBackoff = maxBackoff,
           pp_processingTimeout = (if pp_processingTimeout p \<le> 0 then 30 * ns_minute else pp_processingTimeout p),
           pp_now = (if is_zero (pp_now p) then env_now e else pp_now p)\<rparr>)"

text \<open>The empty text is the permission.\<close>

definition pull_refusal :: "connectorPullState \<Rightarrow> pullClaimParams \<Rightarrow> string" where
  "pull_refusal x p =
     (let status = trim_space (ps_Status x) in
      if status \<in> {'''', ''idle'', ''succeeded''} then ''''
      else if status = ''failed'' then
        (if pp_maxAttempts p > 0 \<and> ps_ConsecutiveFailures x \<ge> pp_maxAttempts p then ''attempt_limit''
         else
           let retryDelay = Exponential (ps_ConsecutiveFailures x) (pp_retryCooldown p) (pp_retryMaxBackoff p) in
           case ps_LastFailureAt x of
             None \<Rightarrow> '''' | Some t \<Rightarrow> if retryDelay > 0 \<and> t + retryDelay > pp_now p then ''cooldown'' else '''')
      else if status = ''running'' then
        (case ps_LastStartedAt x of
           None \<Rightarrow> '''' | Some t \<Rightarrow> if t + pp_processingTimeout p > pp_now p then ''in_flight'' else '''')
      else ''not_queueable'')"

definition pull_idx :: "string \<Rightarrow> pull_states \<Rightarrow> nat option" where
  "pull_idx connectorID s = find_idx (\<lambda>x. trim_space (ps_ConnectorID x) = connectorID) s"

definition claim_pull :: "string \<Rightarrow> string \<Rightarrow> string \<Rightarrow> pullClaimParams \<Rightarrow> pull_mutator" where
  "claim_pull tenantID connectorID vendor p v s =
     (case pull_idx connectorID s of
        Some k \<Rightarrow>
          let x = s ! k; current = trim_space (ps_TenantID x); reason = pull_refusal x p in
          if current \<noteq> '''' \<and> current \<noteq> tenantID then Inl PullStateNotFound
          else if reason \<noteq> '''' then Inr (False, (x, reason), s)
          else
            let x' = x\<lparr>ps_Vendor := (if vendor \<noteq> '''' then vendor else ps_Vendor x), ps_TenantID := tenantID, ps_Status := ''running'',
                       ps_LastMode := pp_mode p, ps_LastStartedAt := Some (pp_now p), ps_UpdatedAt := pp_now p\<rparr> in
            Inr (True, (x', ''''), s[k := x'])
      | None \<Rightarrow>
          let x' = blank_pull\<lparr>ps_TenantID := tenantID, ps_ConnectorID := connectorID, ps_Vendor := vendor, ps_Status := ''running'',
                     ps_LastMode := pp_mode p, ps_LastStartedAt := Some (pp_now p), ps_CreatedAt := pp_now p, ps_UpdatedAt := pp_now p\<rparr> in
          Inr (True, (x', ''''), x' # s))"

definition upsert_pull ::
  "env \<Rightarrow> string \<Rightarrow> string \<Rightarrow> string \<Rightarrow> (connectorPullState \<Rightarrow> time \<Rightarrow> connectorPullState) \<Rightarrow> pull_mutator" where
  "upsert_pull e tenantID connectorID vendor mutate v s =
     (case pull_idx connectorID s of
        Some k \<Rightarrow>
          let x = s ! k;
              x' = mutate (x\<lparr>ps_Vendor := (if vendor \<noteq> '''' then vendor else ps_Vendor x), ps_TenantID := tenantID\<rparr>) (env_now e) in
          Inr (True, (x', ''''), s[k := x'])
      | None \<Rightarrow>
          let x' = mutate (blank_pull\<lparr>ps_TenantID := tenantID, ps_ConnectorID := connectorID, ps_Vendor := vendor, ps_Status := ''idle'',
                            ps_CreatedAt := env_now e, ps_UpdatedAt := env_now e\<rparr>) (env_now e) in
          Inr (True, (x', ''''), x' # s))"

definition started :: "string \<Rightarrow> time \<Rightarrow> connectorPullState \<Rightarrow> time \<Rightarrow> connectorPullState" where
  "started mode startedAt x now =
     x\<lparr>ps_Status := ''running'', ps_LastMode := NormalizePullMode mode, ps_LastStartedAt := Some startedAt, ps_UpdatedAt := now\<rparr>"

definition succeeded :: "string \<Rightarrow> string \<Rightarrow> time \<Rightarrow> connectorPullState \<Rightarrow> time \<Rightarrow> connectorPullState" where
  "succeeded mode requestID succeededAt x now =
     (let completedAt = (if is_zero succeededAt then now else succeededAt); nextMode = NormalizePullMode mode in
      x\<lparr>ps_Status := ''succeeded'', ps_LastRequestID := trim_space requestID, ps_LastMode := nextMode, ps_LastSuccessAt := Some completedAt,
        ps_LastFullSuccessAt := (if nextMode = ''full'' then Some completedAt else ps_LastFullSuccessAt x), ps_LastFailureAt := None,
        ps_LastError := '''', ps_ConsecutiveFailures := 0, ps_UpdatedAt := completedAt\<rparr>)"

definition failed :: "string \<Rightarrow> time \<Rightarrow> connectorPullState \<Rightarrow> time \<Rightarrow> connectorPullState" where
  "failed failure failedAt x now =
     (let completedAt = (if is_zero failedAt then now else failedAt) in
      x\<lparr>ps_Status := ''failed'', ps_LastFailureAt := Some completedAt, ps_LastError := trim_space failure,
        ps_ConsecutiveFailures := ps_ConsecutiveFailures x + 1, ps_UpdatedAt := completedAt\<rparr>)"

section \<open>Operations\<close>

datatype pull_op =
    ClaimState_op env string string string pullClaimParams
  | MarkStarted_op env string string string string time
  | MarkSucceeded_op env string string string string string time
  | MarkFailed_op env string string string time "string option"

definition checked_pull :: "string \<Rightarrow> string \<Rightarrow> pull_mutator \<Rightarrow> (pull_error, (connectorPullState \<times> string) \<times> pull_mutator) result" where
  "checked_pull tenantID connectorID m =
     (if trim_space tenantID = '''' then Inl PullTenantIDRequired
      else if trim_space connectorID = '''' then Inl PullConnectorIDRequired
      else Inr ((blank_pull, ''''), m))"

fun pull_call :: "pull_op \<Rightarrow> (pull_error, (connectorPullState \<times> string) \<times> pull_mutator) result" where
  "pull_call (ClaimState_op e tenantID connectorID vendor p) =
     checked_pull tenantID connectorID
       (claim_pull (trim_space tenantID) (trim_space connectorID) (NormalizeVendor vendor) (normalize_pull_params e p))"
| "pull_call (MarkStarted_op e tenantID connectorID vendor mode startedAt) =
     checked_pull tenantID connectorID
       (upsert_pull e (trim_space tenantID) (trim_space connectorID) (NormalizeVendor vendor) (started mode startedAt))"
| "pull_call (MarkSucceeded_op e tenantID connectorID vendor mode requestID succeededAt) =
     checked_pull tenantID connectorID
       (upsert_pull e (trim_space tenantID) (trim_space connectorID) (NormalizeVendor vendor) (succeeded mode requestID succeededAt))"
| "pull_call (MarkFailed_op e tenantID connectorID vendor failedAt failure) =
     (case failure of
        None \<Rightarrow> Inl PullFailureRequired
      | Some err \<Rightarrow>
          checked_pull tenantID connectorID
            (upsert_pull e (trim_space tenantID) (trim_space connectorID) (NormalizeVendor vendor) (failed err failedAt)))"

fun pull_fault :: "pull_error mutation_error \<Rightarrow> pull_error" where
  "pull_fault (Mutator err) = err"
| "pull_fault StoreFailed = PullStoreFailed"
| "pull_fault StateConflict = PullStateConflict"

definition run_pull ::
  "pull_op \<Rightarrow> ('w, pull_states) store_ops option \<Rightarrow> pull_states \<Rightarrow> 'w \<Rightarrow>
   (pull_error, connectorPullState \<times> string) result \<times> pull_states \<times> 'w" where
  "run_pull op stateStore mem w =
     (case pull_call op of
        Inl err \<Rightarrow> (Inl err, mem, w)
      | Inr (v, m) \<Rightarrow>
          (case mutateStateLocked pull_snapshots m stateStore v mem w of
             (None, v', mem', w') \<Rightarrow> (Inr v', mem', w')
           | (Some err, _, mem', w') \<Rightarrow> (Inl (pull_fault err), mem', w')))"

definition ClaimStateForPullWithBackoff where
  "ClaimStateForPullWithBackoff e tenantID connectorID vendor p = run_pull (ClaimState_op e tenantID connectorID vendor p)"

definition ClaimStateForPull where
  "ClaimStateForPull e tenantID connectorID vendor p =
     ClaimStateForPullWithBackoff e tenantID connectorID vendor (p\<lparr>pp_retryMaxBackoff := pp_retryCooldown p\<rparr>)"

definition MarkStarted where
  "MarkStarted e tenantID connectorID vendor mode startedAt stateStore mem w =
     map_prod (map_sum id fst) id (run_pull (MarkStarted_op e tenantID connectorID vendor mode startedAt) stateStore mem w)"

definition MarkSucceeded where
  "MarkSucceeded e tenantID connectorID vendor mode requestID succeededAt stateStore mem w =
     map_prod (map_sum id fst) id (run_pull (MarkSucceeded_op e tenantID connectorID vendor mode requestID succeededAt) stateStore mem w)"

definition MarkFailed where
  "MarkFailed e tenantID connectorID vendor failedAt failure stateStore mem w =
     map_prod (map_sum id fst) id (run_pull (MarkFailed_op e tenantID connectorID vendor failedAt failure) stateStore mem w)"

definition refreshStateLocked_pull ::
  "('w, pull_states) store_ops option \<Rightarrow> pull_states \<Rightarrow> 'w \<Rightarrow> bool \<times> pull_states \<times> 'w" where
  "refreshStateLocked_pull stateStore mem w =
     (case stateStore of
        None \<Rightarrow> (True, mem, w)
      | Some st \<Rightarrow>
          (case so_load st w of
             (None, w') \<Rightarrow> (False, mem, w')
           | (Some None, w') \<Rightarrow> (True, mem, w')
           | (Some (Some s), w') \<Rightarrow> (True, normalizePullStateSnapshotStates s, w')))"

definition NewPullStateServiceWithStateStore :: "('w, pull_states) store_ops option \<Rightarrow> 'w \<Rightarrow> pull_states option \<times> 'w" where
  "NewPullStateServiceWithStateStore stateStore w =
     (case refreshStateLocked_pull stateStore [] w of (ok, mem, w') \<Rightarrow> (if ok then Some mem else None, w'))"

definition ListStates :: "string \<Rightarrow> pull_states \<Rightarrow> pull_states" where
  "ListStates tenantID s =
     rev (sort_key (\<lambda>x. (ps_UpdatedAt x, ps_ConnectorID x))
       (filter (\<lambda>x. in_scope (trim_space tenantID) (trim_space (ps_TenantID x))) s))"

definition GetState :: "string \<Rightarrow> pull_states \<Rightarrow> (pull_error, connectorPullState) result" where
  "GetState connectorID s =
     (if trim_space connectorID = '''' then Inl PullConnectorIDRequired
      else
        (case find (\<lambda>x. trim_space (ps_ConnectorID x) = trim_space connectorID) s of
           None \<Rightarrow> Inl PullStateNotFound | Some x \<Rightarrow> Inr x))"

section \<open>Pulls are exclusive\<close>

definition pull_prog :: "(pull_op, connectorPullState \<times> string, pull_states, pull_error) program" where
  "pull_prog op = (case pull_call op of Inl err \<Rightarrow> ((blank_pull, ''''), \<lambda>_ _. Inl err) | Inr vm \<Rightarrow> vm)"

interpretation pull: snapshot_laws pull_snapshots pull_prog "[]"
  by unfold_locales (simp_all add: pull_snapshots_def normalizePullStateSnapshotStates_def)

lemma pull_snapshots_simps [simp]:
  "sn_view pull_snapshots = filter pull_named" "sn_copy pull_snapshots s = s" "sn_tidy pull_snapshots s = s"
  by (simp_all add: pull_snapshots_def normalizePullStateSnapshotStates_def fun_eq_iff)

definition pull_claim :: "string \<Rightarrow> pull_states \<Rightarrow> time option" where
  "pull_claim i s =
     (case find (\<lambda>x. trim_space (ps_ConnectorID x) = i) (filter pull_named s) of
        None \<Rightarrow> None | Some x \<Rightarrow> if trim_space (ps_Status x) = ''running'' then ps_LastStartedAt x else None)"

fun op_connector :: "pull_op \<Rightarrow> string" where
  "op_connector (ClaimState_op e t c v p) = trim_space c"
| "op_connector (MarkStarted_op e t c v m a) = trim_space c"
| "op_connector (MarkSucceeded_op e t c v m r a) = trim_space c"
| "op_connector (MarkFailed_op e t c v a f) = trim_space c"

fun claims_pull :: "string \<Rightarrow> pull_op \<Rightarrow> (time \<times> int) option" where
  "claims_pull i (ClaimState_op e t c v p) =
     (if trim_space c = i then Some (pp_now (normalize_pull_params e p), pp_processingTimeout (normalize_pull_params e p)) else None)"
| "claims_pull i _ = None"

fun settles_pull :: "string \<Rightarrow> pull_op \<Rightarrow> bool" where
  "settles_pull i (ClaimState_op e t c v p) \<longleftrightarrow> False"
| "settles_pull i op \<longleftrightarrow> op_connector op = i"

lemma mutated_fields [simp]:
  "ps_ConnectorID (started m a x now) = ps_ConnectorID x" "ps_TenantID (started m a x now) = ps_TenantID x"
  "ps_ConnectorID (succeeded m r a x now) = ps_ConnectorID x" "ps_TenantID (succeeded m r a x now) = ps_TenantID x"
  "ps_ConnectorID (failed f a x now) = ps_ConnectorID x" "ps_TenantID (failed f a x now) = ps_TenantID x"
  by (simp_all add: started_def succeeded_def failed_def Let_def)

lemma pull_idx_ID: "pull_idx i s = Some k \<Longrightarrow> trim_space (ps_ConnectorID (s ! k)) = i"
  unfolding pull_idx_def by (rule find_idx_SomeD(2))

text \<open>Every closure rewrites the state of its connector, or puts one in front where there is none.\<close>

lemma pull_change:
  assumes "snd (pull_prog op) v s = Inr (True, v', s')"
  shows "trim_space (ps_ConnectorID (fst v')) = op_connector op \<and> pull_named (fst v') \<and>
    (case pull_idx (op_connector op) s of None \<Rightarrow> s' = fst v' # s | Some k \<Rightarrow> s' = s[k := fst v'])"
  using assms by (cases op) (auto simp: pull_prog_def checked_pull_def claim_pull_def upsert_pull_def pull_named_def Let_def
      split: if_splits option.splits dest!: pull_idx_ID)

lemma pull_claim_after:
  assumes "snd (pull_prog op) v (filter pull_named s) = Inr (True, v', s')"
  shows "pull_claim i s' =
    (if i = op_connector op then (if trim_space (ps_Status (fst v')) = ''running'' then ps_LastStartedAt (fst v') else None) else pull_claim i s)"
proof -
  note c = pull_change [OF assms]
  show ?thesis
  proof (cases "pull_idx (op_connector op) (filter pull_named s)")
    case None
    with c show ?thesis by (simp add: pull_claim_def)
  next
    case (Some k)
    with c have s': "s' = (filter pull_named s)[k := fst v']" by simp
    have "list_all pull_named s'" using c set_update_subset_insert [of "filter pull_named s" k "fst v'"] by (auto simp: s' list_all_iff)
    then have f: "filter pull_named s' = s'" by (simp add: list_all_iff)
    show ?thesis
      using find_update_key [of "\<lambda>x. trim_space (ps_ConnectorID x)" "op_connector op" "filter pull_named s" k "fst v'" i] Some c
      by (simp only: pull_claim_def f) (simp add: s' pull_idx_def)
  qed
qed

lemma pull_granted:
  assumes "snd (pull_prog (ClaimState_op e t c vd p0)) v s = Inr (True, v', s')"
  defines "p \<equiv> normalize_pull_params e p0"
  shows "trim_space (ps_Status (fst v')) = ''running'' \<and> ps_LastStartedAt (fst v') = Some (pp_now p) \<and> 0 < pp_processingTimeout p \<and>
    (\<forall>x t0. find (\<lambda>x. trim_space (ps_ConnectorID x) = trim_space c) s = Some x \<longrightarrow> trim_space (ps_Status x) = ''running'' \<longrightarrow>
      ps_LastStartedAt x = Some t0 \<longrightarrow> t0 + pp_processingTimeout p \<le> pp_now p)"
proof -
  have "trim_space ''running'' = ''running''" by code_simp
  moreover have "0 < pp_processingTimeout p" by (simp add: p_def normalize_pull_params_def duration_defs split: prod.split)
  ultimately show ?thesis
    using assms by (auto simp: pull_prog_def checked_pull_def claim_pull_def pull_refusal_def pull_idx_def find_find_idx Let_def
        split: if_splits option.splits)
qed

interpretation pulling: claim_lock pull_snapshots pull_prog "pull_claim i" "claims_pull i" "\<lambda>op _. settles_pull i op" for i
proof
  fix s :: pull_states and k :: "(pull_op, connectorPullState \<times> string, pull_states) commit" and t p
  assume "applied pull_snapshots pull_prog s k"
  then have m: "\<exists>v. snd (pull_prog (cm_op k)) v (filter pull_named s) = Inr (True, cm_var k, cm_after k)" by (auto simp: applied_def)
  show "0 < p \<and> pull_claim i (cm_after k) = Some t \<and> (\<forall>t0. pull_claim i s = Some t0 \<longrightarrow> t0 + p \<le> t)"
    if c: "claims_pull i (cm_op k) = Some (t, p)"
  proof -
    from c obtain e tn c vd p0 where op: "cm_op k = ClaimState_op e tn c vd p0" "trim_space c = i"
      "t = pp_now (normalize_pull_params e p0)" "p = pp_processingTimeout (normalize_pull_params e p0)"
      by (cases "cm_op k") (auto split: if_splits)
    from m obtain v where "snd (pull_prog (ClaimState_op e tn c vd p0)) v (filter pull_named s) = Inr (True, cm_var k, cm_after k)"
      by (auto simp: op(1))
    from pull_granted [OF this] pull_claim_after [OF this, of i] op show ?thesis
      by (auto simp: pull_claim_def split: option.splits if_splits)
  qed
  show "pull_claim i (cm_after k) = pull_claim i s" if "claims_pull i (cm_op k) = None" "\<not> settles_pull i (cm_op k)"
  proof -
    from m obtain v where v: "snd (pull_prog (cm_op k)) v (filter pull_named s) = Inr (True, cm_var k, cm_after k)" by blast
    have "op_connector (cm_op k) \<noteq> i" using that by (cases "cm_op k") (auto split: if_splits)
    then show ?thesis using pull_claim_after [OF v, of i] by simp
  qed
qed

abbreviation pull_cluster :: "pull_op event list \<Rightarrow> (pull_op, connectorPullState \<times> string, pull_states, pull_error) cluster" where
  "pull_cluster es \<equiv> cluster_run pull_snapshots pull_prog es (fresh_cluster [])"

text \<open>A connector is pulled by one worker at a time, however the processes interleave: two commits that claim it with no
  outcome in between are the time-out apart.\<close>

lemma pulls_exclusive:
  assumes "cl_log (pull_cluster es) = later @ k2 # between @ k1 # earlier"
    and "claims_pull i (cm_op k1) = Some (t1, p1)" "claims_pull i (cm_op k2) = Some (t2, p2)"
    and "\<forall>k\<in>set between. \<not> settles_pull i (cm_op k)"
  shows "t1 + p2 \<le> t2"
proof (rule pulling.spaced)
  show "linear pull_snapshots pull_prog [] (later @ k2 # between @ k1 # earlier)"
    using pull.run_ok [OF pull.fresh_ok, of es] assms(1) by (simp add: cluster_ok_def)
qed (use assms in simp_all)

section \<open>What the code leaves open\<close>

text \<open>Claiming checks the tenant of a connector, marking an outcome does not: it moves the state to the tenant named in the call.\<close>

lemma outcome_moves_tenant:
  assumes "pull_idx c s = Some k" and "\<And>x now. ps_TenantID (mutate x now) = ps_TenantID x"
  shows "\<exists>x. upsert_pull e t c v mutate u s = Inr (True, (x, ''''), s[k := x]) \<and> ps_TenantID x = t"
  using assms by (simp add: upsert_pull_def Let_def)

text \<open>An outcome is not tied to a claim: whoever marks it ends the claim of the worker that took over.\<close>

lemma late_outcome_releases:
  assumes "snd (pull_prog (MarkFailed_op e t c vd a (Some err))) v (filter pull_named s) = Inr (True, v', s')"
  shows "pull_claim (trim_space c) s' = None"
proof -
  have "trim_space ''failed'' = ''failed''" by code_simp
  then have "trim_space (ps_Status (fst v')) \<noteq> ''running''"
    using assms by (auto simp: pull_prog_def checked_pull_def upsert_pull_def failed_def Let_def split: if_splits option.splits)
  then show ?thesis using pull_claim_after [OF assms, of "trim_space c"] by simp
qed

end
