(* ===== verification/Access_Groups.thy ===== *)
theory Access_Groups
  imports Access_Directory
begin

text \<open>
  User groups, teams, team memberships and group links of the access module (\<open>service_users.go\<close>), and the
  deletions that reach across them: deleting a user, a team or a user group also removes what refers
  to it.  A deletion whose save fails puts the old lists back; a creation or update does not.
\<close>

section \<open>User groups\<close>

text \<open>\<open>removeID\<close> also trims, drops blanks and repetitions.\<close>

definition removeID :: "string list \<Rightarrow> string \<Rightarrow> string list" where
  "removeID values target = filter (\<lambda>v. trim_space target = '''' \<or> v \<noteq> trim_space target) (uniqueIDs values)"

definition ListUserGroups :: "string \<Rightarrow> accessService \<Rightarrow> userGroup list" where
  "ListUserGroups tenantID s = map cloneUserGroup (list_scoped ug_TenantID (trim_space tenantID) (ac_userGroups s))"

definition find_group :: "string \<Rightarrow> string \<Rightarrow> accessService \<Rightarrow> nat option" where
  "find_group tenantID groupID s =
     (if trim_space groupID = '''' then None
      else lookup_strict ug_ID ug_TenantID (trim_space tenantID) (trim_space groupID) (ac_userGroups s))"

definition GetUserGroup :: "string \<Rightarrow> string \<Rightarrow> accessService \<Rightarrow> (access_error, userGroup) result" where
  "GetUserGroup tenantID groupID s =
     (case find_group tenantID groupID s of None \<Rightarrow> Inl (GroupError UserGroupNotFound) | Some i \<Rightarrow> Inr (cloneUserGroup (ac_userGroups s ! i)))"

definition new_group :: "env \<Rightarrow> string \<Rightarrow> string \<Rightarrow> string \<Rightarrow> string \<Rightarrow> string \<Rightarrow> string list \<Rightarrow> userGroup" where
  "new_group e newID tenantID buildingID name description members =
     \<lparr>ug_ID = newID, ug_ResourceType = ''Group'', ug_TenantID = trim_space tenantID, ug_BuildingID = trim_space buildingID,
      ug_PlaceID = trim_space buildingID, ug_Name = trim_space name, ug_Description = trim_space description, ug_LoginEnabled = True,
      ug_GeofenceRestrictionEnabled = False, ug_GeofenceRestrictionRadius = 150, ug_PrimaryDeviceRestrictionEnabled = False,
      ug_ManagedDeviceRestrictionEnabled = False, ug_ReaderRestrictionEnabled = False, ug_TimeRestrictionEnabled = False,
      ug_TapToAccessRestrictionEnabled = False, ug_TimeRestrictionTimeZone = '''', ug_Members = uniqueIDs members, ug_UsersCount = 0,
      ug_LocksCount = 0, ug_ElevatorStopsCount = 0, ug_CreatedAt = env_now e, ug_UpdatedAt = env_now e\<rparr>"

definition CreateUserGroup ::
  "env \<Rightarrow> string \<Rightarrow> string \<Rightarrow> string \<Rightarrow> string \<Rightarrow> string list \<Rightarrow> accessService \<Rightarrow> (access_error, userGroup) result \<times> accessService" where
  "CreateUserGroup e tenantID buildingID name description members s =
     (if trim_space tenantID = '''' then (Inl TenantIDRequired, s)
      else if trim_space name = '''' then (Inl (GroupError UserGroupNameRequired), s)
      else
        (case accessID e ''ug_'' of
           Inl err \<Rightarrow> (Inl err, s)
         | Inr newID \<Rightarrow>
             let r = new_group e newID tenantID buildingID name description members in
             save_return e r (s\<lparr>ac_userGroups := r # ac_userGroups s\<rparr>)))"

definition UpdateUserGroup ::
  "env \<Rightarrow> string \<Rightarrow> string \<Rightarrow> string \<Rightarrow> string \<Rightarrow> string \<Rightarrow> string list \<Rightarrow> accessService \<Rightarrow>
   (access_error, userGroup) result \<times> accessService" where
  "UpdateUserGroup e tenantID groupID buildingID name description members s =
     (if trim_space groupID = '''' then (Inl (GroupError UserGroupNotFound), s)
      else if trim_space name = '''' then (Inl (GroupError UserGroupNameRequired), s)
      else
        (case find_group tenantID groupID s of
           None \<Rightarrow> (Inl (GroupError UserGroupNotFound), s)
         | Some i \<Rightarrow>
             let r = (ac_userGroups s ! i)\<lparr>ug_Name := trim_space name, ug_BuildingID := trim_space buildingID,
                       ug_PlaceID := trim_space buildingID, ug_Description := trim_space description, ug_Members := uniqueIDs members,
                       ug_UpdatedAt := env_now e\<rparr> in
             save_return e (cloneUserGroup r) (s\<lparr>ac_userGroups := (ac_userGroups s)[i := r]\<rparr>)))"

record userGroupRestrictionsInput =
  gr_LoginEnabled :: "bool option"
  gr_GeofenceRestrictionEnabled :: "bool option"
  gr_GeofenceRestrictionRadius :: "real option"
  gr_PrimaryDeviceRestrictionEnabled :: "bool option"
  gr_ManagedDeviceRestrictionEnabled :: "bool option"
  gr_ReaderRestrictionEnabled :: "bool option"
  gr_TimeRestrictionEnabled :: "bool option"
  gr_TapToAccessRestrictionEnabled :: "bool option"
  gr_TimeRestrictionTimeZone :: "string option"

definition UpdateUserGroupRestrictions ::
  "env \<Rightarrow> string \<Rightarrow> string \<Rightarrow> userGroupRestrictionsInput \<Rightarrow> accessService \<Rightarrow> (access_error, userGroup) result \<times> accessService" where
  "UpdateUserGroupRestrictions e tenantID groupID inp s =
     (case find_group tenantID groupID s of
        None \<Rightarrow> (Inl (GroupError UserGroupNotFound), s)
      | Some i \<Rightarrow>
          let g = applyUserGroupDefaults (ac_userGroups s ! i);
              r = g\<lparr>ug_LoginEnabled := get_or (ug_LoginEnabled g) (gr_LoginEnabled inp),
                    ug_GeofenceRestrictionEnabled := get_or (ug_GeofenceRestrictionEnabled g) (gr_GeofenceRestrictionEnabled inp),
                    ug_GeofenceRestrictionRadius := get_or (ug_GeofenceRestrictionRadius g) (gr_GeofenceRestrictionRadius inp),
                    ug_PrimaryDeviceRestrictionEnabled := get_or (ug_PrimaryDeviceRestrictionEnabled g) (gr_PrimaryDeviceRestrictionEnabled inp),
                    ug_ManagedDeviceRestrictionEnabled := get_or (ug_ManagedDeviceRestrictionEnabled g) (gr_ManagedDeviceRestrictionEnabled inp),
                    ug_ReaderRestrictionEnabled := get_or (ug_ReaderRestrictionEnabled g) (gr_ReaderRestrictionEnabled inp),
                    ug_TimeRestrictionEnabled := get_or (ug_TimeRestrictionEnabled g) (gr_TimeRestrictionEnabled inp),
                    ug_TapToAccessRestrictionEnabled := get_or (ug_TapToAccessRestrictionEnabled g) (gr_TapToAccessRestrictionEnabled inp),
                    ug_TimeRestrictionTimeZone := get_or (ug_TimeRestrictionTimeZone g) (map_option trim_space (gr_TimeRestrictionTimeZone inp)),
                    ug_UpdatedAt := env_now e\<rparr> in
          save_return e (cloneUserGroup r) (s\<lparr>ac_userGroups := (ac_userGroups s)[i := r]\<rparr>))"

text \<open>\<open>if err := s.persistLocked(); err != nil { ... = original; return err }\<close>: the lists are put back.  Putting
  user groups back uses their copies, which fill in defaults.\<close>

definition save_or_undo ::
  "env \<Rightarrow> 'a \<Rightarrow> (accessService \<Rightarrow> accessService) \<Rightarrow> accessService \<Rightarrow> (access_error, 'a) result \<times> accessService" where
  "save_or_undo e v undo s =
     (case persistLocked e s of (True, s') \<Rightarrow> (Inr v, s') | (False, s') \<Rightarrow> (Inl AccessStoreFailed, undo s'))"

definition DeleteUserGroup ::
  "env \<Rightarrow> string \<Rightarrow> string \<Rightarrow> accessService \<Rightarrow> (access_error, unit) result \<times> accessService" where
  "DeleteUserGroup e tenantID groupID s =
     (let g = trim_space groupID in
      case find_group tenantID groupID s of
        None \<Rightarrow> (Inl (GroupError UserGroupNotFound), s)
      | Some i \<Rightarrow>
          save_or_undo e ()
            (\<lambda>s'. s'\<lparr>ac_userGroups := map cloneUserGroup (ac_userGroups s), ac_users := ac_users s,
                     ac_roleAssignments := ac_roleAssignments s, ac_groupLinks := map cloneGroupLink (ac_groupLinks s)\<rparr>)
            (s\<lparr>ac_userGroups := remove_at i (ac_userGroups s),
               ac_users := map (\<lambda>u. u\<lparr>us_GroupIDs := removeID (us_GroupIDs u) g\<rparr>) (ac_users s),
               ac_roleAssignments := filter (\<lambda>r. \<not> (ra_AppliesToType r = ''Group'' \<and> ra_AppliesToID r = g)) (ac_roleAssignments s),
               ac_groupLinks := filter (\<lambda>l. gl_GroupID l \<noteq> g) (ac_groupLinks s)\<rparr>))"

section \<open>Teams\<close>

definition normalizeTeamScope :: "string \<Rightarrow> string \<Rightarrow> (access_error, string) result" where
  "normalizeTeamScope scope placeID =
     (let x = to_lower (trim_space scope) in
      if x = '''' \<or> x = ''organization'' then Inr (if trim_space placeID \<noteq> '''' then ''place'' else ''organization'')
      else if x = ''place'' then Inr ''place'' else Inl InvalidScopeType)"

definition normalizeTeamMemberType :: "string \<Rightarrow> (access_error, string) result" where
  "normalizeTeamMemberType v =
     (let x = to_lower (trim_space v) in
      if x = ''user'' \<or> x = '''' then Inr ''User'' else if x = ''guest'' then Inr ''Guest'' else Inl (GroupError InvalidTeamMemberType))"

definition ListTeams :: "string \<Rightarrow> accessService \<Rightarrow> team list" where
  "ListTeams tenantID s = list_scoped tm_TenantID (trim_space tenantID) (ac_teams s)"

definition find_team :: "string \<Rightarrow> string \<Rightarrow> accessService \<Rightarrow> nat option" where
  "find_team tenantID teamID s =
     (if trim_space teamID = '''' then None
      else lookup_strict tm_ID tm_TenantID (trim_space tenantID) (trim_space teamID) (ac_teams s))"

definition GetTeam :: "string \<Rightarrow> string \<Rightarrow> accessService \<Rightarrow> (access_error, team) result" where
  "GetTeam tenantID teamID s = (case find_team tenantID teamID s of None \<Rightarrow> Inl (GroupError TeamNotFound) | Some i \<Rightarrow> Inr (ac_teams s ! i))"

record team_input =
  ti_Name :: string
  ti_Scope :: string
  ti_PlaceID :: string
  ti_Description :: string
  ti_Source :: string

definition team_place :: "string \<Rightarrow> team_input \<Rightarrow> string" where
  "team_place scope inp = (if scope = ''organization'' then '''' else trim_space (ti_PlaceID inp))"

definition CreateTeam ::
  "env \<Rightarrow> string \<Rightarrow> team_input \<Rightarrow> accessService \<Rightarrow> (access_error, team) result \<times> accessService" where
  "CreateTeam e tenantID inp s =
     (if trim_space tenantID = '''' then (Inl TenantIDRequired, s)
      else if trim_space (ti_Name inp) = '''' then (Inl (GroupError TeamNameRequired), s)
      else
        (case normalizeTeamScope (ti_Scope inp) (ti_PlaceID inp) of
           Inl err \<Rightarrow> (Inl err, s)
         | Inr scope \<Rightarrow>
             (case accessID e ''team_'' of
                Inl err \<Rightarrow> (Inl err, s)
              | Inr newID \<Rightarrow>
                  let r = \<lparr>tm_ID = newID, tm_ResourceType = ''Team'', tm_TenantID = trim_space tenantID, tm_Name = trim_space (ti_Name inp),
                           tm_Scope = scope, tm_PlaceID = team_place scope inp, tm_Description = trim_space (ti_Description inp),
                           tm_Source = firstNonEmpty2 (trim_space (ti_Source inp)) ''Manual'', tm_CreatedAt = env_now e, tm_UpdatedAt = env_now e\<rparr> in
                  save_return e r (s\<lparr>ac_teams := r # ac_teams s\<rparr>))))"

definition UpdateTeam ::
  "env \<Rightarrow> string \<Rightarrow> string \<Rightarrow> team_input \<Rightarrow> accessService \<Rightarrow> (access_error, team) result \<times> accessService" where
  "UpdateTeam e tenantID teamID inp s =
     (if trim_space teamID = '''' then (Inl (GroupError TeamNotFound), s)
      else if trim_space (ti_Name inp) = '''' then (Inl (GroupError TeamNameRequired), s)
      else
        (case normalizeTeamScope (ti_Scope inp) (ti_PlaceID inp) of
           Inl err \<Rightarrow> (Inl err, s)
         | Inr scope \<Rightarrow>
             (case find_team tenantID teamID s of
                None \<Rightarrow> (Inl (GroupError TeamNotFound), s)
              | Some i \<Rightarrow>
                  let t = ac_teams s ! i;
                      r = t\<lparr>tm_Name := trim_space (ti_Name inp), tm_Scope := scope, tm_PlaceID := team_place scope inp,
                            tm_Description := trim_space (ti_Description inp),
                            tm_Source := firstNonEmpty2 (trim_space (ti_Source inp)) (firstNonEmpty2 (tm_Source t) ''Manual''),
                            tm_UpdatedAt := env_now e\<rparr> in
                  save_return e r (s\<lparr>ac_teams := (ac_teams s)[i := r]\<rparr>))))"

definition DeleteTeam ::
  "env \<Rightarrow> string \<Rightarrow> string \<Rightarrow> accessService \<Rightarrow> (access_error, unit) result \<times> accessService" where
  "DeleteTeam e tenantID teamID s =
     (let t = trim_space teamID in
      case find_team tenantID teamID s of
        None \<Rightarrow> (Inl (GroupError TeamNotFound), s)
      | Some i \<Rightarrow>
          save_or_undo e ()
            (\<lambda>s'. s'\<lparr>ac_teams := ac_teams s, ac_teamMemberships := ac_teamMemberships s, ac_roleAssignments := ac_roleAssignments s\<rparr>)
            (s\<lparr>ac_teams := remove_at i (ac_teams s),
               ac_teamMemberships := filter (\<lambda>m. mb_TeamID m \<noteq> t) (ac_teamMemberships s),
               ac_roleAssignments := filter (\<lambda>r. \<not> (ra_AssigneeType r = ''Team'' \<and> ra_AssigneeID r = t)) (ac_roleAssignments s)\<rparr>))"

definition ListTeamMemberships :: "string \<Rightarrow> accessService \<Rightarrow> teamMembership list" where
  "ListTeamMemberships tenantID s = list_scoped mb_TenantID (trim_space tenantID) (ac_teamMemberships s)"

record membership_input =
  mi_TeamID :: string
  mi_MemberType :: string
  mi_MemberID :: string
  mi_MemberEmail :: string
  mi_MemberName :: string
  mi_Source :: string

definition CreateTeamMembership ::
  "env \<Rightarrow> string \<Rightarrow> membership_input \<Rightarrow> accessService \<Rightarrow> (access_error, teamMembership) result \<times> accessService" where
  "CreateTeamMembership e tenantID inp s =
     (let t = trim_space tenantID; team = trim_space (mi_TeamID inp); member = trim_space (mi_MemberID inp) in
      if t = '''' then (Inl TenantIDRequired, s)
      else if team = '''' then (Inl (GroupError TeamIDRequired), s)
      else
        (case normalizeTeamMemberType (mi_MemberType inp) of
           Inl err \<Rightarrow> (Inl err, s)
         | Inr ty \<Rightarrow>
             if member = '''' then (Inl (GroupError TeamMemberIDRequired), s)
             else
               (case accessID e ''tm_'' of
                  Inl err \<Rightarrow> (Inl err, s)
                | Inr newID \<Rightarrow>
                    let r = \<lparr>mb_ID = newID, mb_ResourceType = ''TeamMembership'', mb_TenantID = t, mb_TeamID = team, mb_MemberType = ty,
                             mb_MemberID = member, mb_MemberEmail = trim_space (mi_MemberEmail inp), mb_MemberName = trim_space (mi_MemberName inp),
                             mb_Source = firstNonEmpty2 (trim_space (mi_Source inp)) ''Manual'', mb_CreatedAt = env_now e, mb_UpdatedAt = env_now e\<rparr> in
                    if \<not> list_ex (\<lambda>x. tm_ID x = team \<and> tm_TenantID x = t) (ac_teams s) then (Inl (GroupError TeamNotFound), s)
                    else
                      (case find_idx (\<lambda>m. mb_TenantID m = t \<and> mb_TeamID m = team \<and> mb_MemberType m = ty \<and> mb_MemberID m = member)
                              (ac_teamMemberships s) of
                         Some i \<Rightarrow>
                           let m = (ac_teamMemberships s ! i)\<lparr>mb_MemberEmail := mb_MemberEmail r, mb_MemberName := mb_MemberName r,
                                     mb_Source := mb_Source r, mb_UpdatedAt := env_now e\<rparr> in
                           save_return e m (s\<lparr>ac_teamMemberships := (ac_teamMemberships s)[i := m]\<rparr>)
                       | None \<Rightarrow> save_return e r (s\<lparr>ac_teamMemberships := r # ac_teamMemberships s\<rparr>)))))"

definition DeleteTeamMembership ::
  "env \<Rightarrow> string \<Rightarrow> string \<Rightarrow> accessService \<Rightarrow> (access_error, unit) result \<times> accessService" where
  "DeleteTeamMembership e tenantID membershipID s =
     (if trim_space membershipID = '''' then (Inl (GroupError TeamMembershipNotFound), s)
      else
        (case lookup_strict mb_ID mb_TenantID (trim_space tenantID) (trim_space membershipID) (ac_teamMemberships s) of
           None \<Rightarrow> (Inl (GroupError TeamMembershipNotFound), s)
         | Some i \<Rightarrow>
             save_or_undo e () (\<lambda>s'. s'\<lparr>ac_teamMemberships := ac_teamMemberships s\<rparr>)
               (s\<lparr>ac_teamMemberships := remove_at i (ac_teamMemberships s)\<rparr>)))"

section \<open>Deleting users\<close>

definition DeleteUser ::
  "env \<Rightarrow> string \<Rightarrow> string \<Rightarrow> accessService \<Rightarrow> (access_error, accessUser) result \<times> accessService" where
  "DeleteUser e tenantID userID s =
     (let u = trim_space userID in
      case find_user tenantID userID s of
        None \<Rightarrow> (Inl UserNotFound, s)
      | Some i \<Rightarrow>
          save_or_undo e (ac_users s ! i)
            (\<lambda>s'. s'\<lparr>ac_users := ac_users s, ac_userGroups := map cloneUserGroup (ac_userGroups s),
                     ac_roleAssignments := ac_roleAssignments s, ac_teamMemberships := ac_teamMemberships s\<rparr>)
            (s\<lparr>ac_users := remove_at i (ac_users s),
               ac_userGroups := map (\<lambda>g. g\<lparr>ug_Members := removeID (ug_Members g) u\<rparr>) (ac_userGroups s),
               ac_roleAssignments := filter (\<lambda>r. \<not> (equal_fold (ra_AssigneeType r) ''User'' \<and> ra_AssigneeID r = u)) (ac_roleAssignments s),
               ac_teamMemberships := filter (\<lambda>m. \<not> (equal_fold (mb_MemberType m) ''User'' \<and> mb_MemberID m = u)) (ac_teamMemberships s)\<rparr>))"

record batchUserDeleteResult =
  bd_TenantID :: string
  bd_Deleted :: nat
  bd_NotFound :: int
  bd_UserIDs :: "string list"

text \<open>The batch removes the identifiers in the order of a Go map, which is open; the result is the same for every order.\<close>

definition BatchDeleteUsers ::
  "env \<Rightarrow> string \<Rightarrow> string list \<Rightarrow> accessService \<Rightarrow> (access_error, batchUserDeleteResult) result \<times> accessService" where
  "BatchDeleteUsers e tenantID userIDs s =
     (let t = trim_space tenantID; ids = uniqueIDs userIDs in
      if t = '''' then (Inl TenantIDRequired, s)
      else if userIDs = [] then (Inl UserIDsRequired, s)
      else
        let hit = filter (batch_target t ids) (ac_users s); gone = map us_ID hit;
            r = \<lparr>bd_TenantID = t, bd_Deleted = length hit, bd_NotFound = int (length ids) - int (length hit), bd_UserIDs = gone\<rparr>;
            s1 = s\<lparr>ac_users := filter (\<lambda>u. \<not> batch_target t ids u) (ac_users s),
                   ac_userGroups := map (\<lambda>g. g\<lparr>ug_Members := fold (\<lambda>i ms. removeID ms i) (remdups gone) (ug_Members g)\<rparr>) (ac_userGroups s),
                   ac_roleAssignments := filter (\<lambda>r. \<not> (equal_fold (ra_AssigneeType r) ''User'' \<and> ra_AssigneeID r \<in> set gone)) (ac_roleAssignments s),
                   ac_teamMemberships := filter (\<lambda>m. \<not> (equal_fold (mb_MemberType m) ''User'' \<and> mb_MemberID m \<in> set gone)) (ac_teamMemberships s)\<rparr> in
        if hit = [] then (Inr r, s) else save_return e r s1)"

section \<open>Group links\<close>

definition normalizeGroupLinkQRCodeType :: "string \<Rightarrow> (access_error, string) result" where
  "normalizeGroupLinkQRCodeType v =
     (let x = to_lower (trim_space v) in
      if x \<in> {'''', ''none'', ''null''} then Inr '''' else if x = ''online'' then Inr ''online''
      else if x = ''offline'' then Inr ''offline'' else Inl (GroupError InvalidGroupLinkQRCodeType))"

definition normalizeGroupLinkCreatorType :: "string \<Rightarrow> string" where
  "normalizeGroupLinkCreatorType v =
     (let x = to_lower (trim_space v) in
      if x = ''user'' then ''User''
      else if x \<in> {''marketplaceinstallation'', ''marketplace_installation''} then ''MarketplaceInstallation'' else '''')"

definition find_link :: "string \<Rightarrow> string \<Rightarrow> accessService \<Rightarrow> nat option" where
  "find_link filterTenantID groupLinkID s =
     (if trim_space groupLinkID = '''' then None
      else lookup_strict gl_ID gl_TenantID filterTenantID (trim_space groupLinkID) (ac_groupLinks s))"

definition GetGroupLink :: "string \<Rightarrow> string \<Rightarrow> accessService \<Rightarrow> (access_error, groupLink) result" where
  "GetGroupLink tenantID groupLinkID s =
     (case find_link (trim_space tenantID) groupLinkID s of
        None \<Rightarrow> Inl (GroupError GroupLinkNotFound) | Some i \<Rightarrow> Inr (cloneGroupLink (ac_groupLinks s ! i)))"

text \<open>The name of a group for a link of a tenant; the first group with the identifier decides.\<close>

definition linked_group :: "string \<Rightarrow> string \<Rightarrow> accessService \<Rightarrow> (access_error, string) result" where
  "linked_group tenantID groupID s =
     (case find (\<lambda>g. ug_ID g = groupID) (ac_userGroups s) of
        None \<Rightarrow> Inl (GroupError UserGroupNotFound)
      | Some g \<Rightarrow> if ug_TenantID g \<noteq> tenantID \<or> ug_Name g = '''' then Inl (GroupError UserGroupNotFound) else Inr (ug_Name g))"

record groupLinkInput =
  li_TenantID :: string
  li_GroupID :: string
  li_Name :: string
  li_Email :: string
  li_Phone :: string
  li_LinkEnabled :: "bool option"
  li_QuickResponseCodeType :: string
  li_ValidFrom :: string
  li_ValidUntil :: string
  li_CreatedByType :: string
  li_CreatedByID :: string
  li_CreatedByEmail :: string
  li_CreatedByName :: string

definition new_link :: "env \<Rightarrow> string \<Rightarrow> string \<Rightarrow> string \<Rightarrow> string \<Rightarrow> string \<Rightarrow> groupLinkInput \<Rightarrow> groupLink" where
  "new_link e newID secret qrToken qrType groupName inp =
     \<lparr>gl_ID = newID, gl_ResourceType = ''GroupLink'', gl_TenantID = trim_space (li_TenantID inp), gl_GroupID = trim_space (li_GroupID inp),
      gl_GroupName = groupName, gl_Name = trim_space (li_Name inp), gl_Email = normalizeEmail (li_Email inp), gl_Phone = trim_space (li_Phone inp),
      gl_LastUsedAt = '''', gl_LinkEnabled = get_or True (li_LinkEnabled inp), gl_QuickResponseCodeType = qrType,
      gl_ValidFrom = trim_space (li_ValidFrom inp), gl_ValidUntil = trim_space (li_ValidUntil inp),
      gl_CreatedByType = normalizeGroupLinkCreatorType (li_CreatedByType inp), gl_CreatedByID = trim_space (li_CreatedByID inp),
      gl_CreatedByEmail = normalizeEmail (li_CreatedByEmail inp), gl_CreatedByName = trim_space (li_CreatedByName inp),
      gl_IssuedByID = trim_space (li_CreatedByID inp), gl_Secret = secret, gl_QuickResponseCodeToken = qrToken, gl_QuickResponseCodeImage = '''',
      gl_CreatedAt = env_now e, gl_UpdatedAt = env_now e\<rparr>"

text \<open>\<open>rs\<close> are the random reads: identifier, secret and token.\<close>

definition CreateGroupLink ::
  "env \<Rightarrow> reads \<Rightarrow> groupLinkInput \<Rightarrow> accessService \<Rightarrow> (access_error, groupLink) result \<times> accessService" where
  "CreateGroupLink e rs inp s =
     (if trim_space (li_TenantID inp) = '''' then (Inl TenantIDRequired, s)
      else if trim_space (li_GroupID inp) = '''' then (Inl (GroupError GroupIDRequired), s)
      else if trim_space (li_Name inp) = '''' then (Inl (GroupError GroupLinkNameRequired), s)
      else
        (case normalizeGroupLinkQRCodeType (li_QuickResponseCodeType inp) of
           Inl err \<Rightarrow> (Inl err, s)
         | Inr qrType \<Rightarrow>
             (case (rs 0, rs 1, if qrType = '''' then Some '''' else map_option ((@) ''glq_'') (rs 2)) of
                (Some i, Some sec, Some qrToken) \<Rightarrow>
                  (case linked_group (trim_space (li_TenantID inp)) (trim_space (li_GroupID inp)) s of
                     Inl err \<Rightarrow> (Inl err, s)
                   | Inr groupName \<Rightarrow>
                       let r = new_link e (''gl_'' @ i) (''gls_'' @ sec) qrToken qrType groupName inp in
                       save_return e (cloneGroupLink r) (s\<lparr>ac_groupLinks := r # ac_groupLinks s\<rparr>))
              | _ \<Rightarrow> (Inl AccessRandFailed, s))))"

record groupLinkUpdateInput =
  lu_TenantID :: string
  lu_GroupID :: "string option"
  lu_Name :: "string option"
  lu_Email :: "string option"
  lu_Phone :: "string option"
  lu_LinkEnabled :: "bool option"
  lu_QuickResponseCodeType :: "string option"
  lu_ValidFrom :: "string option"
  lu_ValidUntil :: "string option"

definition update_group :: "groupLinkUpdateInput \<Rightarrow> accessService \<Rightarrow> groupLink \<Rightarrow> (access_error, groupLink) result" where
  "update_group inp s l =
     (case lu_GroupID inp of
        None \<Rightarrow> Inr l
      | Some g \<Rightarrow> map_sum id (\<lambda>name. l\<lparr>gl_GroupID := trim_space g, gl_GroupName := name\<rparr>) (linked_group (gl_TenantID l) (trim_space g) s))"

definition update_fields :: "groupLinkUpdateInput \<Rightarrow> groupLink \<Rightarrow> groupLink" where
  "update_fields inp l =
     l\<lparr>gl_Name := get_or (gl_Name l) (map_option trim_space (lu_Name inp)), gl_Email := get_or (gl_Email l) (map_option normalizeEmail (lu_Email inp)),
       gl_Phone := get_or (gl_Phone l) (map_option trim_space (lu_Phone inp)), gl_LinkEnabled := get_or (gl_LinkEnabled l) (lu_LinkEnabled inp)\<rparr>"

definition update_code :: "env \<Rightarrow> string option \<Rightarrow> groupLink \<Rightarrow> (access_error, groupLink) result" where
  "update_code e qrType l =
     (case qrType of
        None \<Rightarrow> Inr l
      | Some q \<Rightarrow>
          if q = '''' then Inr (l\<lparr>gl_QuickResponseCodeType := '''', gl_QuickResponseCodeToken := '''', gl_QuickResponseCodeImage := ''''\<rparr>)
          else if gl_QuickResponseCodeToken l = ''''
          then map_sum id (\<lambda>tok. l\<lparr>gl_QuickResponseCodeType := q, gl_QuickResponseCodeToken := tok\<rparr>) (accessID e ''glq_'')
          else Inr (l\<lparr>gl_QuickResponseCodeType := q\<rparr>))"

definition requested_code :: "groupLinkUpdateInput \<Rightarrow> (access_error, string option) result" where
  "requested_code inp =
     (case lu_QuickResponseCodeType inp of
        None \<Rightarrow> Inr None
      | Some v \<Rightarrow> (case normalizeGroupLinkQRCodeType v of Inl err \<Rightarrow> Inl err | Inr q \<Rightarrow> Inr (Some q)))"

definition UpdateGroupLink ::
  "env \<Rightarrow> string \<Rightarrow> string \<Rightarrow> groupLinkUpdateInput \<Rightarrow> accessService \<Rightarrow> (access_error, groupLink) result \<times> accessService" where
  "UpdateGroupLink e tenantID groupLinkID inp s =
     (if trim_space groupLinkID = '''' then (Inl (GroupError GroupLinkNotFound), s)
      else if map_option trim_space (lu_GroupID inp) = Some '''' then (Inl (GroupError GroupIDRequired), s)
      else if map_option trim_space (lu_Name inp) = Some '''' then (Inl (GroupError GroupLinkNameRequired), s)
      else
        (case requested_code inp of
           Inl err \<Rightarrow> (Inl err, s)
         | Inr qr \<Rightarrow>
             (case find_link (firstNonEmpty2 tenantID (lu_TenantID inp)) groupLinkID s of
                None \<Rightarrow> (Inl (GroupError GroupLinkNotFound), s)
              | Some i \<Rightarrow>
                  (case update_group inp s (ac_groupLinks s ! i) of
                     Inl err \<Rightarrow> (Inl err, s)
                   | Inr l1 \<Rightarrow>
                       (case update_code e qr (update_fields inp l1) of
                          Inl err \<Rightarrow> (Inl err, s)
                        | Inr l2 \<Rightarrow>
                            let r = l2\<lparr>gl_ValidFrom := get_or (gl_ValidFrom l2) (map_option trim_space (lu_ValidFrom inp)),
                                       gl_ValidUntil := get_or (gl_ValidUntil l2) (map_option trim_space (lu_ValidUntil inp)),
                                       gl_ResourceType := ''GroupLink'', gl_UpdatedAt := env_now e\<rparr> in
                            save_or_undo e (cloneGroupLink r) (\<lambda>s'. s'\<lparr>ac_groupLinks := map cloneGroupLink (ac_groupLinks s)\<rparr>)
                              (s\<lparr>ac_groupLinks := (ac_groupLinks s)[i := r]\<rparr>))))))"

definition DeleteGroupLink ::
  "env \<Rightarrow> string \<Rightarrow> string \<Rightarrow> accessService \<Rightarrow> (access_error, unit) result \<times> accessService" where
  "DeleteGroupLink e tenantID groupLinkID s =
     (case find_link (trim_space tenantID) groupLinkID s of
        None \<Rightarrow> (Inl (GroupError GroupLinkNotFound), s)
      | Some i \<Rightarrow>
          save_or_undo e () (\<lambda>s'. s'\<lparr>ac_groupLinks := map cloneGroupLink (ac_groupLinks s)\<rparr>)
            (s\<lparr>ac_groupLinks := remove_at i (ac_groupLinks s)\<rparr>))"

section \<open>Using a group link\<close>

text \<open>\<open>time.Parse\<close> with the layouts \<open>2006-01-02\<close>, and that day followed by a separator and \<open>15:04\<close>.\<close>

definition parse_ymd :: "string \<Rightarrow> (int \<times> int \<times> int \<times> string) option" where
  "parse_ymd s = do {
     (y, s) \<leftarrow> num_fixed 4 s;
     s \<leftarrow> expect (CHR ''-'') s;
     (mo, s) \<leftarrow> num_fixed 2 s;
     in_range 1 12 mo;
     s \<leftarrow> expect (CHR ''-'') s;
     (d, s) \<leftarrow> num_fixed 2 s;
     Some (y, mo, d, s)
   }"

definition parse_day :: "string \<Rightarrow> time option" where
  "parse_day s = do {
     (y, mo, d, s) \<leftarrow> parse_ymd s;
     in_range 1 (days_in mo y) d;
     (if s = [] then Some (days_from_civil y mo d * 86400 * 1000000000) else None)
   }"

definition parse_minute :: "char \<Rightarrow> string \<Rightarrow> time option" where
  "parse_minute sep s = do {
     (y, mo, d, s) \<leftarrow> parse_ymd s;
     s \<leftarrow> expect sep s;
     (h, s) \<leftarrow> num_one_or_two s;
     in_range 0 23 h;
     s \<leftarrow> expect (CHR '':'') s;
     (mi, s) \<leftarrow> num_fixed 2 s;
     in_range 0 59 mi;
     in_range 1 (days_in mo y) d;
     (if s = [] then Some ((days_from_civil y mo d * 86400 + h * 3600 + mi * 60) * 1000000000) else None)
   }"

text \<open>The layouts are tried in turn; both RFC 3339 layouts accept the same texts.\<close>

definition parseGroupLinkInstant :: "string \<Rightarrow> (access_error, time option) result" where
  "parseGroupLinkInstant v =
     (let raw = trim_space v in
      if raw = '''' then Inr None
      else
        (case find (\<lambda>x. x \<noteq> None)
                [parse_rfc3339 raw, parse_minute (CHR ''T'') raw, parse_minute (CHR '' '') raw, parse_day raw] of
           Some x \<Rightarrow> Inr x | None \<Rightarrow> Inl (GroupError InvalidGroupLinkValidityWindow)))"

definition link_window :: "time \<Rightarrow> groupLink \<Rightarrow> (access_error, unit) result" where
  "link_window ts l =
     (case parseGroupLinkInstant (gl_ValidFrom l) of
        Inl err \<Rightarrow> Inl err
      | Inr from \<Rightarrow>
          if (case from of None \<Rightarrow> False | Some f \<Rightarrow> ts < f) then Inl (GroupError GroupLinkNotYetValid)
          else
            (case parseGroupLinkInstant (gl_ValidUntil l) of
               Inl err \<Rightarrow> Inl err
             | Inr until \<Rightarrow>
                 if (case until of None \<Rightarrow> False | Some u \<Rightarrow> u < ts) then Inl (GroupError GroupLinkExpired) else Inr ()))"

definition link_match :: "string \<Rightarrow> string \<Rightarrow> groupLink \<Rightarrow> bool" where
  "link_match filterTenantID token l \<longleftrightarrow>
     in_scope filterTenantID (gl_TenantID l) \<and> (gl_Secret l = token \<or> gl_QuickResponseCodeToken l = token)"

definition VerifyGroupLinkToken ::
  "env \<Rightarrow> string \<Rightarrow> string \<Rightarrow> time \<Rightarrow> accessService \<Rightarrow> (access_error, groupLink) result \<times> accessService" where
  "VerifyGroupLinkToken e tenantID token verifiedAt s =
     (let ts = (if is_zero verifiedAt then env_now e else verifiedAt) in
      if trim_space token = '''' then (Inl (GroupError GroupLinkTokenRequired), s)
      else
        (case find_idx (link_match (trim_space tenantID) (trim_space token)) (ac_groupLinks s) of
           None \<Rightarrow> (Inl (GroupError GroupLinkTokenInvalid), s)
         | Some i \<Rightarrow>
             let l = ac_groupLinks s ! i in
             if \<not> gl_LinkEnabled l then (Inl (GroupError GroupLinkDisabled), s)
             else
               (case link_window ts l of
                  Inl err \<Rightarrow> (Inl err, s)
                | Inr _ \<Rightarrow>
                    let r = l\<lparr>gl_LastUsedAt := format_rfc3339 ts, gl_ResourceType := ''GroupLink'', gl_UpdatedAt := ts\<rparr> in
                    save_or_undo e (cloneGroupLink r) (\<lambda>s'. s'\<lparr>ac_groupLinks := map cloneGroupLink (ac_groupLinks s)\<rparr>)
                      (s\<lparr>ac_groupLinks := (ac_groupLinks s)[i := r]\<rparr>))))"

section \<open>Moving an organisation\<close>

text \<open>Users, user groups, policies, invitations and role assignments take the target's tenant; links,
  teams, memberships, guests, shares and passes stay behind.  Nothing is undone when the save fails.\<close>

definition TransferOrganization ::
  "env \<Rightarrow> string \<Rightarrow> string \<Rightarrow> accessService \<Rightarrow> (access_error, unit) result \<times> accessService" where
  "TransferOrganization e sourceTenantID targetTenantID s =
     (let source = trim_space sourceTenantID; target = trim_space targetTenantID in
      if source = '''' \<or> target = '''' then (Inl TenantIDRequired, s)
      else if source = target then (Inl SameTransferTenant, s)
      else
        save_return e ()
          (s\<lparr>ac_users := map (\<lambda>u. if us_TenantID u = source then u\<lparr>us_TenantID := target\<rparr> else u) (ac_users s),
             ac_userGroups := map (\<lambda>g. if ug_TenantID g = source then g\<lparr>ug_TenantID := target\<rparr> else g) (ac_userGroups s),
             ac_policies := map (\<lambda>p. if pl_TenantID p = source then p\<lparr>pl_TenantID := target\<rparr> else p) (ac_policies s),
             ac_userInvitationDeliveries :=
               map (\<lambda>i. if iv_TenantID i = source then i\<lparr>iv_TenantID := target\<rparr> else i) (ac_userInvitationDeliveries s),
             ac_roleAssignments :=
               map (\<lambda>r. if ra_TenantID r = source then r\<lparr>ra_TenantID := target\<rparr> else r) (ac_roleAssignments s),
             ac_organizationSettings :=
               (case ac_organizationSettings s source of
                  None \<Rightarrow> ac_organizationSettings s
                | Some old \<Rightarrow> (ac_organizationSettings s)(source \<mapsto> old\<lparr>os_Status := ''transferred'', os_UpdatedAt := env_now e\<rparr>))\<rparr>))"

section \<open>Runs\<close>

datatype group_op =
    OpCreateUserGroup string string string string "string list"
  | OpUpdateUserGroup string string string string string "string list"
  | OpUpdateUserGroupRestrictions string string userGroupRestrictionsInput
  | OpDeleteUserGroup string string
  | OpCreateTeam string team_input
  | OpUpdateTeam string string team_input
  | OpDeleteTeam string string
  | OpCreateTeamMembership string membership_input
  | OpDeleteTeamMembership string string
  | OpDeleteUser string string
  | OpBatchDeleteUsers string "string list"
  | OpCreateGroupLink reads groupLinkInput
  | OpUpdateGroupLink string string groupLinkUpdateInput
  | OpDeleteGroupLink string string
  | OpVerifyGroupLinkToken string string time

fun group_step :: "env \<Rightarrow> group_op \<Rightarrow> accessService \<Rightarrow> accessService" where
  "group_step e (OpCreateUserGroup t b n d ms) s = snd (CreateUserGroup e t b n d ms s)"
| "group_step e (OpUpdateUserGroup t g b n d ms) s = snd (UpdateUserGroup e t g b n d ms s)"
| "group_step e (OpUpdateUserGroupRestrictions t g inp) s = snd (UpdateUserGroupRestrictions e t g inp s)"
| "group_step e (OpDeleteUserGroup t g) s = snd (DeleteUserGroup e t g s)"
| "group_step e (OpCreateTeam t inp) s = snd (CreateTeam e t inp s)"
| "group_step e (OpUpdateTeam t tm inp) s = snd (UpdateTeam e t tm inp s)"
| "group_step e (OpDeleteTeam t tm) s = snd (DeleteTeam e t tm s)"
| "group_step e (OpCreateTeamMembership t inp) s = snd (CreateTeamMembership e t inp s)"
| "group_step e (OpDeleteTeamMembership t m) s = snd (DeleteTeamMembership e t m s)"
| "group_step e (OpDeleteUser t u) s = snd (DeleteUser e t u s)"
| "group_step e (OpBatchDeleteUsers t us) s = snd (BatchDeleteUsers e t us s)"
| "group_step e (OpCreateGroupLink rs inp) s = snd (CreateGroupLink e rs inp s)"
| "group_step e (OpUpdateGroupLink t l inp) s = snd (UpdateGroupLink e t l inp s)"
| "group_step e (OpDeleteGroupLink t l) s = snd (DeleteGroupLink e t l s)"
| "group_step e (OpVerifyGroupLinkToken t tok ts) s = snd (VerifyGroupLinkToken e t tok ts s)"

datatype access_op = Dir dir_op | Grp group_op | Org string string

fun access_step :: "env \<Rightarrow> access_op \<Rightarrow> accessService \<Rightarrow> accessService" where
  "access_step e (Dir op) s = dir_step e op s"
| "access_step e (Grp op) s = group_step e op s"
| "access_step e (Org source target) s = snd (TransferOrganization e source target s)"

definition access_run :: "(env \<times> access_op) list \<Rightarrow> accessService \<Rightarrow> accessService" where
  "access_run ops s = fold (\<lambda>(e, op). access_step e op) ops s"

section \<open>References\<close>

text \<open>What refers to what: a membership to a team of its tenant, a link to a user group of its tenant.\<close>

definition team_key :: "team \<Rightarrow> string \<times> string" where "team_key t = (tm_ID t, tm_TenantID t)"
definition team_ref :: "teamMembership \<Rightarrow> string \<times> string" where "team_ref m = (mb_TeamID m, mb_TenantID m)"
definition group_key :: "userGroup \<Rightarrow> string \<times> string" where "group_key g = (ug_ID g, ug_TenantID g)"
definition group_ref :: "groupLink \<Rightarrow> string \<times> string" where "group_ref l = (gl_GroupID l, gl_TenantID l)"

definition team_keys :: "accessService \<Rightarrow> (string \<times> string) set" where
  "team_keys s = team_key ` set (ac_teams s)"

definition team_refs :: "accessService \<Rightarrow> (string \<times> string) set" where
  "team_refs s = team_ref ` set (ac_teamMemberships s)"

definition group_keys :: "accessService \<Rightarrow> (string \<times> string) set" where
  "group_keys s = group_key ` set (ac_userGroups s)"

definition group_refs :: "accessService \<Rightarrow> (string \<times> string) set" where
  "group_refs s = group_ref ` set (ac_groupLinks s)"

text \<open>What one operation may do to the owners and to the references to them: it may drop owners, and
  then drops every reference to an identifier it drops, in any tenant, and it adds references to owners only.\<close>

definition refs_move ::
  "('i \<times> 't) set \<Rightarrow> ('i \<times> 't) set \<Rightarrow> ('i \<times> 't) set \<Rightarrow> ('i \<times> 't) set \<Rightarrow> bool" where
  "refs_move ps cs ps' cs' \<longleftrightarrow> (\<exists>I. ps - I \<times> UNIV \<subseteq> ps' \<and> cs' \<subseteq> (cs \<union> ps) - I \<times> UNIV)"

text \<open>References are sound up to a set of tenants that were moved: of those the owner is known to exist
  only by its identifier.\<close>

definition refs_sound :: "'t set \<Rightarrow> ('i \<times> 't) set \<Rightarrow> ('i \<times> 't) set \<Rightarrow> bool" where
  "refs_sound M ps cs \<longleftrightarrow> fst ` cs \<subseteq> fst ` ps \<and> (\<forall>k\<in>cs. snd k \<notin> M \<longrightarrow> k \<in> ps)"

lemma refs_soundI: "cs \<subseteq> ps \<Longrightarrow> refs_sound M ps cs"
  by (auto simp: refs_sound_def)

locale references =
  fixes owners :: "'s \<Rightarrow> ('i \<times> 't) set" and refs :: "'s \<Rightarrow> ('i \<times> 't) set" and step :: "'o \<Rightarrow> 's \<Rightarrow> 's"
  assumes moves: "refs_move (owners s) (refs s) (owners (step op s)) (refs (step op s))"
begin

lemma step_sound:
  assumes "refs_sound M (owners s) (refs s)"
  shows "refs_sound M (owners (step op s)) (refs (step op s))"
proof -
  obtain I where I: "owners s - I \<times> UNIV \<subseteq> owners (step op s)" "refs (step op s) \<subseteq> (refs s \<union> owners s) - I \<times> UNIV"
    using moves [of s op] unfolding refs_move_def by blast
  have "fst k \<in> fst ` owners (step op s) \<and> (snd k \<notin> M \<longrightarrow> k \<in> owners (step op s))" if "k \<in> refs (step op s)" for k
  proof -
    from that I(2) have k: "k \<in> refs s \<union> owners s" "fst k \<notin> I" by (auto simp: mem_Times_iff)
    with assms obtain k' where "k' \<in> owners s" "fst k' = fst k" "snd k \<notin> M \<longrightarrow> k \<in> owners s"
      unfolding refs_sound_def by (metis UnE image_iff subsetD)
    from this(1,2) k(2) I(1) have "k' \<in> owners (step op s)" by (auto simp: mem_Times_iff)
    moreover from k I(1) \<open>snd k \<notin> M \<longrightarrow> k \<in> owners s\<close> have "snd k \<notin> M \<longrightarrow> k \<in> owners (step op s)"
      by (auto simp: mem_Times_iff)
    ultimately show ?thesis using \<open>fst k' = fst k\<close> by (metis imageI)
  qed
  then show ?thesis unfolding refs_sound_def by blast
qed

lemma run_sound: "refs_sound M (owners s) (refs s) \<Longrightarrow> refs_sound M (owners (fold step ops s)) (refs (fold step ops s))"
  by (induction ops arbitrary: s) (simp_all add: step_sound)

end

lemma refs_keep: "ps \<subseteq> ps' \<Longrightarrow> cs' \<subseteq> cs \<union> ps \<Longrightarrow> refs_move ps cs ps' cs'"
  unfolding refs_move_def by (rule exI [of _ "{}"]) auto

lemma refs_same [simp]: "refs_move ps cs ps cs"
  by (rule refs_keep) auto

lemma refs_simple:
  "ps \<subseteq> ps' \<Longrightarrow> refs_move ps cs ps' cs" "cs' \<subseteq> cs \<union> ps \<Longrightarrow> refs_move ps cs ps cs'" "cs' \<subseteq> cs \<Longrightarrow> refs_move ps cs ps cs'"
  by (auto intro: refs_keep)

lemma refs_drop: "{k \<in> ps. fst k \<noteq> i} \<subseteq> ps' \<Longrightarrow> cs' \<subseteq> {k \<in> cs. fst k \<noteq> i} \<Longrightarrow> refs_move ps cs ps' cs'"
  unfolding refs_move_def by (rule exI [of _ "{i}"]) auto

lemma image_update_same: "f y = f (xs ! i) \<Longrightarrow> f ` set (xs[i := y]) = f ` set xs"
  by (metis list.set_map map_update_same)

lemma image_remove_at_subset: "f ` set (remove_at i xs) \<subseteq> f ` set xs"
  using set_remove_at by fast

lemma image_remove_at_rest:
  assumes "i < length xs" and "fst (f (xs ! i)) = k"
  shows "{x \<in> f ` set xs. fst x \<noteq> k} \<subseteq> f ` set (remove_at i xs)"
proof -
  have "filter (\<lambda>x. fst (f x) \<noteq> k) (remove_at i xs) = filter (\<lambda>x. fst (f x) \<noteq> k) xs"
    using assms by (intro filter_remove_at) simp_all
  then have "{x \<in> set xs. fst (f x) \<noteq> k} \<subseteq> set (remove_at i xs)"
    by (metis filter_is_subset set_filter)
  then show ?thesis by auto
qed

lemma save_or_undo_state:
  "snd (save_or_undo e v undo s) =
     (if fst (persistLocked e s) then snd (persistLocked e s) else undo (snd (persistLocked e s)))"
  by (simp add: save_or_undo_def case_prod_unfold split: bool.splits)

lemma save_or_undo_value: "fst (save_or_undo e v undo s) = Inr w \<longleftrightarrow> w = v \<and> fst (persistLocked e s)"
  by (auto simp: save_or_undo_def case_prod_unfold split: bool.splits)

lemma clone_keys [simp]:
  "group_key (cloneUserGroup g) = group_key g" "group_ref (cloneGroupLink l) = group_ref l"
  by (simp_all add: group_key_def group_ref_def cloneUserGroup_def applyUserGroupDefaults_def cloneGroupLink_def)

lemmas key_defs = team_keys_def team_refs_def group_keys_def group_refs_def

lemma linked_group_key: "linked_group t g s = Inr n \<Longrightarrow> (g, t) \<in> group_keys s"
  by (auto simp: linked_group_def group_keys_def group_key_def image_iff dest!: find_memberD
      split: option.splits if_splits)

lemma team_exists_key: "list_ex (\<lambda>x. tm_ID x = i \<and> tm_TenantID x = t) (ac_teams s) \<longleftrightarrow> (i, t) \<in> team_keys s"
  by (auto simp: list_ex_iff team_keys_def team_key_def image_iff)

lemma find_teamD:
  "find_team t i s = Some k \<Longrightarrow> k < length (ac_teams s) \<and> tm_ID (ac_teams s ! k) = trim_space i"
  by (auto simp: find_team_def dest: lookup_strict_SomeD split: if_splits)

lemma find_groupD:
  "find_group t i s = Some k \<Longrightarrow> k < length (ac_userGroups s) \<and> ug_ID (ac_userGroups s ! k) = trim_space i"
  by (auto simp: find_group_def dest: lookup_strict_SomeD split: if_splits)

lemma CreateUserGroup_moves:
  fixes s e t b n d ms defines "s' \<equiv> snd (CreateUserGroup e t b n d ms s)"
  shows "ac_teams s' = ac_teams s" "ac_teamMemberships s' = ac_teamMemberships s" "ac_groupLinks s' = ac_groupLinks s"
    "group_keys s \<subseteq> group_keys s'"
  by (auto simp: s'_def CreateUserGroup_def group_keys_def Let_def split: sum.splits)

lemma UpdateUserGroup_moves:
  fixes s e t g b n d ms defines "s' \<equiv> snd (UpdateUserGroup e t g b n d ms s)"
  shows "ac_teams s' = ac_teams s" "ac_teamMemberships s' = ac_teamMemberships s" "ac_groupLinks s' = ac_groupLinks s"
    "group_keys s \<subseteq> group_keys s'"
  by (auto simp: s'_def UpdateUserGroup_def group_keys_def Let_def image_update_same group_key_def split: option.splits)

lemma UpdateUserGroupRestrictions_moves:
  fixes s e t g inp defines "s' \<equiv> snd (UpdateUserGroupRestrictions e t g inp s)"
  shows "ac_teams s' = ac_teams s" "ac_teamMemberships s' = ac_teamMemberships s" "ac_groupLinks s' = ac_groupLinks s"
    "group_keys s \<subseteq> group_keys s'"
  by (auto simp: s'_def UpdateUserGroupRestrictions_def group_keys_def Let_def image_update_same group_key_def
      applyUserGroupDefaults_def split: option.splits)

lemma DeleteUserGroup_moves:
  fixes s e t g defines "s' \<equiv> snd (DeleteUserGroup e t g s)"
  shows "ac_teams s' = ac_teams s" "ac_teamMemberships s' = ac_teamMemberships s"
    "refs_move (group_keys s) (group_refs s) (group_keys s') (group_refs s')"
proof -
  show "ac_teams s' = ac_teams s" "ac_teamMemberships s' = ac_teamMemberships s"
    by (simp_all add: s'_def DeleteUserGroup_def Let_def save_or_undo_state split: option.splits)
  show "refs_move (group_keys s) (group_refs s) (group_keys s') (group_refs s')"
  proof (cases "find_group t g s")
    case None
    then show ?thesis by (simp add: s'_def DeleteUserGroup_def Let_def)
  next
    case (Some k)
    note k = find_groupD [OF Some]
    have "refs_move (group_keys s) (group_refs s) (group_key ` set (remove_at k (ac_userGroups s)))
            (group_ref ` set (filter (\<lambda>l. gl_GroupID l \<noteq> trim_space g) (ac_groupLinks s)))"
      using k by (intro refs_drop [of _ "trim_space g"])
        (auto simp: key_defs group_key_def group_ref_def intro!: image_remove_at_rest [THEN subsetD])
    moreover have "group_key ` cloneUserGroup ` set (ac_userGroups s) = group_keys s"
      "group_ref ` cloneGroupLink ` set (ac_groupLinks s) = group_refs s"
      by (simp_all add: key_defs image_image)
    ultimately show ?thesis using Some
      by (simp add: s'_def DeleteUserGroup_def Let_def save_or_undo_state key_defs)
  qed
qed

lemma CreateTeam_moves:
  fixes s e t inp defines "s' \<equiv> snd (CreateTeam e t inp s)"
  shows "ac_userGroups s' = ac_userGroups s" "ac_groupLinks s' = ac_groupLinks s" "ac_teamMemberships s' = ac_teamMemberships s"
    "team_keys s \<subseteq> team_keys s'"
  by (auto simp: s'_def CreateTeam_def team_keys_def Let_def split: sum.splits)

lemma UpdateTeam_moves:
  fixes s e t i inp defines "s' \<equiv> snd (UpdateTeam e t i inp s)"
  shows "ac_userGroups s' = ac_userGroups s" "ac_groupLinks s' = ac_groupLinks s" "ac_teamMemberships s' = ac_teamMemberships s"
    "team_keys s \<subseteq> team_keys s'"
  by (auto simp: s'_def UpdateTeam_def team_keys_def Let_def image_update_same team_key_def split: sum.splits option.splits)

lemma DeleteTeam_moves:
  fixes s e t i defines "s' \<equiv> snd (DeleteTeam e t i s)"
  shows "ac_userGroups s' = ac_userGroups s" "ac_groupLinks s' = ac_groupLinks s"
    "refs_move (team_keys s) (team_refs s) (team_keys s') (team_refs s')"
proof -
  show "ac_userGroups s' = ac_userGroups s" "ac_groupLinks s' = ac_groupLinks s"
    by (simp_all add: s'_def DeleteTeam_def Let_def save_or_undo_state split: option.splits)
  show "refs_move (team_keys s) (team_refs s) (team_keys s') (team_refs s')"
  proof (cases "find_team t i s")
    case None
    then show ?thesis by (simp add: s'_def DeleteTeam_def Let_def)
  next
    case (Some k)
    note k = find_teamD [OF Some]
    have "refs_move (team_keys s) (team_refs s) (team_key ` set (remove_at k (ac_teams s)))
            (team_ref ` set (filter (\<lambda>m. mb_TeamID m \<noteq> trim_space i) (ac_teamMemberships s)))"
      using k by (intro refs_drop [of _ "trim_space i"])
        (auto simp: key_defs team_key_def team_ref_def intro!: image_remove_at_rest [THEN subsetD])
    with Some show ?thesis
      by (simp add: s'_def DeleteTeam_def Let_def save_or_undo_state key_defs)
  qed
qed

lemma CreateTeamMembership_moves:
  fixes s e t inp defines "s' \<equiv> snd (CreateTeamMembership e t inp s)"
  shows "ac_userGroups s' = ac_userGroups s" "ac_groupLinks s' = ac_groupLinks s" "ac_teams s' = ac_teams s"
    "team_refs s' \<subseteq> team_refs s \<union> team_keys s"
  by (auto simp: s'_def CreateTeamMembership_def team_refs_def Let_def image_update_same team_exists_key team_ref_def
      split: sum.splits option.splits)

lemma DeleteTeamMembership_moves:
  fixes s e t i defines "s' \<equiv> snd (DeleteTeamMembership e t i s)"
  shows "ac_userGroups s' = ac_userGroups s" "ac_groupLinks s' = ac_groupLinks s" "ac_teams s' = ac_teams s"
    "team_refs s' \<subseteq> team_refs s"
  using image_remove_at_subset [of team_ref _ "ac_teamMemberships s"]
  by (auto simp: s'_def DeleteTeamMembership_def key_defs save_or_undo_state split: option.splits)

lemma DeleteUser_moves:
  fixes s e t u defines "s' \<equiv> snd (DeleteUser e t u s)"
  shows "ac_teams s' = ac_teams s" "ac_groupLinks s' = ac_groupLinks s" "team_refs s' \<subseteq> team_refs s" "group_keys s' = group_keys s"
proof -
  show "ac_teams s' = ac_teams s" "ac_groupLinks s' = ac_groupLinks s" "team_refs s' \<subseteq> team_refs s"
    by (auto simp: s'_def DeleteUser_def Let_def save_or_undo_state team_refs_def split: option.splits)
  show "group_keys s' = group_keys s"
    by (simp add: s'_def DeleteUser_def Let_def save_or_undo_state group_keys_def image_image group_key_def
        cloneUserGroup_def applyUserGroupDefaults_def split: option.splits)
qed

lemma BatchDeleteUsers_moves:
  fixes s e t us defines "s' \<equiv> snd (BatchDeleteUsers e t us s)"
  shows "ac_teams s' = ac_teams s" "ac_groupLinks s' = ac_groupLinks s" "team_refs s' \<subseteq> team_refs s" "group_keys s' = group_keys s"
proof -
  show "ac_teams s' = ac_teams s" "ac_groupLinks s' = ac_groupLinks s" "team_refs s' \<subseteq> team_refs s"
    by (auto simp: s'_def BatchDeleteUsers_def Let_def team_refs_def)
  show "group_keys s' = group_keys s"
    by (simp add: s'_def BatchDeleteUsers_def Let_def group_keys_def image_image group_key_def)
qed

lemma CreateGroupLink_moves:
  fixes s e rs inp defines "s' \<equiv> snd (CreateGroupLink e rs inp s)"
  shows "ac_teams s' = ac_teams s" "ac_teamMemberships s' = ac_teamMemberships s" "ac_userGroups s' = ac_userGroups s"
    "group_refs s' \<subseteq> group_refs s \<union> group_keys s"
  by (auto simp: s'_def CreateGroupLink_def group_refs_def Let_def group_ref_def new_link_def
      dest: linked_group_key split: sum.splits option.splits)

lemma update_code_ref: "update_code e q l = Inr l' \<Longrightarrow> group_ref l' = group_ref l"
  by (cases "accessID e ''glq_''") (auto simp: update_code_def group_ref_def split: option.splits if_splits)

lemma update_group_ref:
  "update_group inp s l = Inr l' \<Longrightarrow> group_ref l' = group_ref l \<or> group_ref l' \<in> group_keys s"
proof (cases "lu_GroupID inp")
  case (Some g)
  assume *: "update_group inp s l = Inr l'"
  then obtain n where "linked_group (gl_TenantID l) (trim_space g) s = Inr n"
    and "l' = l\<lparr>gl_GroupID := trim_space g, gl_GroupName := n\<rparr>"
    using Some by (cases "linked_group (gl_TenantID l) (trim_space g) s") (auto simp: update_group_def)
  then show ?thesis by (auto simp: group_ref_def dest: linked_group_key)
qed (simp add: update_group_def)

lemma image_update_subset: "f ` set (xs[i := y]) \<subseteq> insert (f y) (f ` set xs)"
  using set_update_subset_insert by fast

lemma find_linkD: "find_link t i s = Some k \<Longrightarrow> k < length (ac_groupLinks s)"
  by (auto simp: find_link_def dest: lookup_strict_SomeD split: if_splits)

lemma UpdateGroupLink_moves:
  fixes s e t i inp defines "s' \<equiv> snd (UpdateGroupLink e t i inp s)"
  shows "ac_teams s' = ac_teams s" "ac_teamMemberships s' = ac_teamMemberships s" "ac_userGroups s' = ac_userGroups s"
    "group_refs s' \<subseteq> group_refs s \<union> group_keys s"
proof -
  show "ac_teams s' = ac_teams s" "ac_teamMemberships s' = ac_teamMemberships s" "ac_userGroups s' = ac_userGroups s"
    by (simp_all add: s'_def UpdateGroupLink_def Let_def save_or_undo_state split: sum.splits option.splits)
  define P where "P L \<longleftrightarrow> group_ref ` set L \<subseteq> group_refs s \<union> group_keys s" for L
  have keep: "P (ac_groupLinks s)" "P (map cloneGroupLink (ac_groupLinks s))"
    by (auto simp: P_def group_refs_def)
  have upd: "P ((ac_groupLinks s)[k := r])"
    if "find_link f i s = Some k" "update_group inp s (ac_groupLinks s ! k) = Inr l1"
      "update_code e q (update_fields inp l1) = Inr l2" "group_ref r = group_ref l2" for f k l1 q l2 r
  proof -
    have "group_ref r = group_ref l1"
      using that(4) update_code_ref [OF that(3)] by (simp add: update_fields_def group_ref_def)
    moreover have "group_ref (ac_groupLinks s ! k) \<in> group_refs s"
      using find_linkD [OF that(1)] by (simp add: group_refs_def)
    ultimately have "group_ref r \<in> group_refs s \<union> group_keys s"
      using update_group_ref [OF that(2)] by auto
    then show ?thesis using image_update_subset [of group_ref "ac_groupLinks s" k r] by (auto simp: P_def group_refs_def)
  qed
  have "P (ac_groupLinks s')"
    unfolding s'_def UpdateGroupLink_def Let_def
    by (auto simp: save_or_undo_state keep group_ref_def split: sum.splits option.splits elim!: upd)
  then show "group_refs s' \<subseteq> group_refs s \<union> group_keys s" by (simp add: P_def group_refs_def)
qed

lemma DeleteGroupLink_moves:
  fixes s e t i defines "s' \<equiv> snd (DeleteGroupLink e t i s)"
  shows "ac_teams s' = ac_teams s" "ac_teamMemberships s' = ac_teamMemberships s" "ac_userGroups s' = ac_userGroups s"
    "group_refs s' \<subseteq> group_refs s"
  using image_remove_at_subset [of group_ref _ "ac_groupLinks s"]
  by (auto simp: s'_def DeleteGroupLink_def group_refs_def save_or_undo_state image_image split: option.splits)

lemma VerifyGroupLinkToken_moves:
  fixes s e t tok ts defines "s' \<equiv> snd (VerifyGroupLinkToken e t tok ts s)"
  shows "ac_teams s' = ac_teams s" "ac_teamMemberships s' = ac_teamMemberships s" "ac_userGroups s' = ac_userGroups s"
    "group_refs s' = group_refs s"
proof -
  show "ac_teams s' = ac_teams s" "ac_teamMemberships s' = ac_teamMemberships s" "ac_userGroups s' = ac_userGroups s"
    by (simp_all add: s'_def VerifyGroupLinkToken_def Let_def save_or_undo_state split: sum.splits option.splits)
  show "group_refs s' = group_refs s"
    by (simp add: s'_def VerifyGroupLinkToken_def Let_def save_or_undo_state group_refs_def image_image image_update_same group_ref_def
        cloneGroupLink_def split: sum.splits option.splits)
qed

lemma dir_step_frame [simp]:
  "ac_teams (dir_step e op s) = ac_teams s" "ac_teamMemberships (dir_step e op s) = ac_teamMemberships s"
  "ac_userGroups (dir_step e op s) = ac_userGroups s" "ac_groupLinks (dir_step e op s) = ac_groupLinks s"
  by (cases op; simp add: dir_op_defs Let_def case_prod_unfold split: sum.splits option.splits bool.splits)+

lemma unchanged_keys:
  "ac_teams s' = ac_teams s \<Longrightarrow> team_keys s' = team_keys s" "ac_teamMemberships s' = ac_teamMemberships s \<Longrightarrow> team_refs s' = team_refs s"
  "ac_userGroups s' = ac_userGroups s \<Longrightarrow> group_keys s' = group_keys s" "ac_groupLinks s' = ac_groupLinks s \<Longrightarrow> group_refs s' = group_refs s"
  by (simp_all add: key_defs)

lemmas team_key_frames_base =
  CreateUserGroup_moves(1) UpdateUserGroup_moves(1) UpdateUserGroupRestrictions_moves(1) DeleteUserGroup_moves(1)
  CreateTeamMembership_moves(3) DeleteTeamMembership_moves(3) DeleteUser_moves(1) BatchDeleteUsers_moves(1)
  CreateGroupLink_moves(1) UpdateGroupLink_moves(1) DeleteGroupLink_moves(1) VerifyGroupLinkToken_moves(1)

lemmas team_key_frames = team_key_frames_base [THEN unchanged_keys(1)]

lemmas team_ref_frames_base =
  CreateUserGroup_moves(2) UpdateUserGroup_moves(2) UpdateUserGroupRestrictions_moves(2) DeleteUserGroup_moves(2)
  CreateTeam_moves(3) UpdateTeam_moves(3) CreateGroupLink_moves(2) UpdateGroupLink_moves(2) DeleteGroupLink_moves(2)
  VerifyGroupLinkToken_moves(2)

lemmas team_ref_frames = team_ref_frames_base [THEN unchanged_keys(2)]

lemmas group_key_frames_base =
  CreateTeam_moves(1) UpdateTeam_moves(1) DeleteTeam_moves(1) CreateTeamMembership_moves(1)
  DeleteTeamMembership_moves(1) CreateGroupLink_moves(3) UpdateGroupLink_moves(3) DeleteGroupLink_moves(3)
  VerifyGroupLinkToken_moves(3)

lemmas group_key_frames = group_key_frames_base [THEN unchanged_keys(3)]

lemmas group_ref_frames_base =
  CreateUserGroup_moves(3) UpdateUserGroup_moves(3) UpdateUserGroupRestrictions_moves(3) CreateTeam_moves(2)
  UpdateTeam_moves(2) DeleteTeam_moves(2) CreateTeamMembership_moves(2) DeleteTeamMembership_moves(2)
  DeleteUser_moves(2) BatchDeleteUsers_moves(2)

lemmas group_ref_frames = group_ref_frames_base [THEN unchanged_keys(4)]

lemma group_step_teams:
  "refs_move (team_keys s) (team_refs s) (team_keys (group_step e op s)) (team_refs (group_step e op s))"
  by (cases op) (simp_all add: team_key_frames team_ref_frames CreateTeam_moves UpdateTeam_moves DeleteTeam_moves
      CreateTeamMembership_moves DeleteTeamMembership_moves DeleteUser_moves BatchDeleteUsers_moves refs_simple)

lemma group_step_links:
  "refs_move (group_keys s) (group_refs s) (group_keys (group_step e op s)) (group_refs (group_step e op s))"
  by (cases op) (simp_all add: group_key_frames group_ref_frames CreateUserGroup_moves UpdateUserGroup_moves UpdateUserGroupRestrictions_moves
      DeleteUserGroup_moves DeleteUser_moves BatchDeleteUsers_moves CreateGroupLink_moves UpdateGroupLink_moves DeleteGroupLink_moves
      VerifyGroupLinkToken_moves refs_simple)

lemma TransferOrganization_frame:
  "ac_teams (snd (TransferOrganization e a b s)) = ac_teams s"
  "ac_teamMemberships (snd (TransferOrganization e a b s)) = ac_teamMemberships s"
  "ac_groupLinks (snd (TransferOrganization e a b s)) = ac_groupLinks s"
  "us_ID ` set (ac_users (snd (TransferOrganization e a b s))) = us_ID ` set (ac_users s)"
proof -
  have "map us_ID (ac_users (snd (TransferOrganization e a b s))) = map us_ID (ac_users s)"
    by (simp add: TransferOrganization_def Let_def)
  then show "us_ID ` set (ac_users (snd (TransferOrganization e a b s))) = us_ID ` set (ac_users s)"
    by (metis list.set_map)
qed (simp_all add: TransferOrganization_def Let_def)

lemma access_step_teams:
  "refs_move (team_keys s) (team_refs s) (team_keys (access_step e op s)) (team_refs (access_step e op s))"
  by (cases op) (simp_all add: group_step_teams unchanged_keys(1) [OF dir_step_frame(1)] unchanged_keys(2) [OF dir_step_frame(2)]
      unchanged_keys(1) [OF TransferOrganization_frame(1)] unchanged_keys(2) [OF TransferOrganization_frame(2)])

interpretation team_members: references team_keys team_refs "\<lambda>(e, op). access_step e op"
  by unfold_locales (simp add: access_step_teams split: prod.split)

interpretation linked_groups: references group_keys group_refs "\<lambda>(e, op). group_step e op"
  by unfold_locales (simp add: group_step_links split: prod.split)

text \<open>A transfer takes the groups of one tenant along, so links stay sound up to that tenant.\<close>

fun moved_away :: "access_op \<Rightarrow> string set" where
  "moved_away (Org source target) = {trim_space source}"
| "moved_away _ = {}"

definition transferred :: "(env \<times> access_op) list \<Rightarrow> string set" where
  "transferred ops = (\<Union>(e, op)\<in>set ops. moved_away op)"

lemma transfer_keeps_links:
  assumes "refs_sound M (group_keys s) (group_refs s)" and "trim_space a \<in> M"
  shows "refs_sound M (group_keys (snd (TransferOrganization e a b s))) (group_refs (snd (TransferOrganization e a b s)))"
proof -
  let ?s = "snd (TransferOrganization e a b s)"
  have "\<exists>h\<in>group_keys ?s. fst h = fst k \<and> (snd k \<notin> M \<longrightarrow> h = k)" if k: "k \<in> group_keys s" for k
  proof -
    from k obtain g where g: "g \<in> set (ac_userGroups s)" "k = (ug_ID g, ug_TenantID g)"
      by (auto simp: group_keys_def group_key_def)
    define f :: "userGroup \<Rightarrow> userGroup" where "f = (\<lambda>g. if ug_TenantID g = trim_space a then g\<lparr>ug_TenantID := trim_space b\<rparr> else g)"
    have "ac_userGroups ?s = ac_userGroups s \<or> ac_userGroups ?s = map f (ac_userGroups s)"
      by (simp add: TransferOrganization_def Let_def f_def)
    then have "g \<in> set (ac_userGroups ?s) \<or> f g \<in> set (ac_userGroups ?s)" using imageI [OF g(1), of f] g(1) by auto
    moreover have "ug_ID (f g) = ug_ID g" "ug_TenantID g \<noteq> trim_space a \<longrightarrow> ug_TenantID (f g) = ug_TenantID g"
      by (simp_all add: f_def)
    ultimately obtain h where h: "h \<in> set (ac_userGroups ?s)" "ug_ID h = ug_ID g"
      "ug_TenantID g \<noteq> trim_space a \<longrightarrow> ug_TenantID h = ug_TenantID g"
      by blast
    from h(1) have "group_key h \<in> group_keys ?s" by (simp add: group_keys_def)
    moreover have "fst (group_key h) = fst k" using g(2) h(2) by (simp add: group_key_def)
    moreover have "snd k \<notin> M \<longrightarrow> group_key h = k" using g(2) h(2,3) assms(2) by (auto simp: group_key_def)
    ultimately show ?thesis by blast
  qed
  then have "fst ` group_keys s \<subseteq> fst ` group_keys ?s" "k \<in> group_keys s \<Longrightarrow> snd k \<notin> M \<Longrightarrow> k \<in> group_keys ?s" for k
    by (force, blast)
  with assms(1) show ?thesis
    by (simp add: refs_sound_def group_refs_def TransferOrganization_frame(3)) blast
qed

lemma access_run_links:
  assumes "refs_sound M (group_keys s) (group_refs s)" and "transferred ops \<subseteq> M"
  shows "refs_sound M (group_keys (access_run ops s)) (group_refs (access_run ops s))"
  using assms
proof (induction ops arbitrary: s)
  case (Cons eo ops)
  obtain e op where eo: "eo = (e, op)" by fastforce
  have "refs_sound M (group_keys (access_step e op s)) (group_refs (access_step e op s))"
  proof (cases op)
    case (Dir x)
    with Cons.prems(1) show ?thesis
      by (simp add: unchanged_keys(3) [OF dir_step_frame(3)] unchanged_keys(4) [OF dir_step_frame(4)])
  next
    case (Grp x)
    with linked_groups.step_sound [OF Cons.prems(1), of "(e, x)"] show ?thesis by simp
  next
    case (Org a b)
    with Cons.prems eo show ?thesis by (simp add: transfer_keeps_links transferred_def)
  qed
  with Cons.IH [of "access_step e op s"] Cons.prems(2) eo show ?case by (simp add: access_run_def transferred_def)
qed (simp add: access_run_def)

section \<open>Durability\<close>

lemmas group_op_defs = CreateUserGroup_def UpdateUserGroup_def UpdateUserGroupRestrictions_def DeleteUserGroup_def
  CreateTeam_def UpdateTeam_def DeleteTeam_def CreateTeamMembership_def DeleteTeamMembership_def DeleteUser_def
  BatchDeleteUsers_def CreateGroupLink_def UpdateGroupLink_def DeleteGroupLink_def VerifyGroupLinkToken_def

interpretation groups_durable: durable snapshot_of ac_store group_step
proof
  fix e :: env and s op
  assume "env_save_ok e" and "in_sync (snapshot_of s) (ac_store s)"
  then show "in_sync (snapshot_of (group_step e op s)) (ac_store (group_step e op s))"
    by (cases op) (simp_all add: group_op_defs Let_def save_or_undo_state persist_in_sync persist_ok
      split: sum.splits option.splits)
qed

section \<open>Deleted users\<close>



lemma lookup_user_unique:
  assumes "distinct (map us_ID (ac_users s))" and "find_user t u s = Some i"
  shows "trim_space u \<notin> us_ID ` set (remove_at i (ac_users s))"
proof -
  from assms(2) have i: "i < length (ac_users s)" "us_ID (ac_users s ! i) = trim_space u"
    by (auto simp: find_user_def dest: lookup_strict_SomeD split: if_splits)
  have "us_ID x \<noteq> trim_space u" if "x \<in> set (remove_at i (ac_users s))" for x
    using that unfolding set_remove_distinct [OF assms(1) i(1)] i(2) by simp
  then show ?thesis by force
qed

text \<open>A deletion that succeeds leaves nothing of the user: no group entry, no role assignment, no team
  membership and, where identifiers are unique, no record.  What belongs to others stays.\<close>

lemma user_deletion_complete:
  fixes s e t u defines "s' \<equiv> snd (DeleteUser e t u s)" and "v \<equiv> trim_space u"
  assumes ok: "fst (DeleteUser e t u s) = Inr x"
  shows "us_ID x = v \<and> in_scope (trim_space t) (us_TenantID x)"
    "\<forall>g\<in>set (ac_userGroups s'). v \<notin> set (ug_Members g)"
    "\<forall>r\<in>set (ac_roleAssignments s'). \<not> (equal_fold (ra_AssigneeType r) ''User'' \<and> ra_AssigneeID r = v)"
    "\<forall>m\<in>set (ac_teamMemberships s'). \<not> (equal_fold (mb_MemberType m) ''User'' \<and> mb_MemberID m = v)"
    "distinct (map us_ID (ac_users s)) \<Longrightarrow> v \<notin> us_ID ` set (ac_users s')"
    "filter (\<lambda>a. us_ID a \<noteq> v) (ac_users s') = filter (\<lambda>a. us_ID a \<noteq> v) (ac_users s)"
proof -
  from ok obtain i where i: "find_user t u s = Some i"
    by (auto simp: DeleteUser_def Let_def split: option.splits)
  then have u: "i < length (ac_users s)" "us_ID (ac_users s ! i) = v" "in_scope (trim_space t) (us_TenantID (ac_users s ! i))" "v \<noteq> ''''"
    by (auto simp: find_user_def v_def dest: lookup_strict_SomeD split: if_splits)
  have p: "x = ac_users s ! i" and saved: "fst (persistLocked e (s\<lparr>ac_users := remove_at i (ac_users s),
       ac_userGroups := map (\<lambda>g. g\<lparr>ug_Members := removeID (ug_Members g) v\<rparr>) (ac_userGroups s),
       ac_roleAssignments := filter (\<lambda>r. \<not> (equal_fold (ra_AssigneeType r) ''User'' \<and> ra_AssigneeID r = v)) (ac_roleAssignments s),
       ac_teamMemberships := filter (\<lambda>m. \<not> (equal_fold (mb_MemberType m) ''User'' \<and> mb_MemberID m = v)) (ac_teamMemberships s)\<rparr>))"
    using ok i by (simp_all add: DeleteUser_def Let_def save_or_undo_value v_def)
  show "us_ID x = v \<and> in_scope (trim_space t) (us_TenantID x)" using p u by simp
  have s': "ac_users s' = remove_at i (ac_users s)"
    "ac_userGroups s' = map (\<lambda>g. g\<lparr>ug_Members := removeID (ug_Members g) v\<rparr>) (ac_userGroups s)"
    "ac_roleAssignments s' = filter (\<lambda>r. \<not> (equal_fold (ra_AssigneeType r) ''User'' \<and> ra_AssigneeID r = v)) (ac_roleAssignments s)"
    "ac_teamMemberships s' = filter (\<lambda>m. \<not> (equal_fold (mb_MemberType m) ''User'' \<and> mb_MemberID m = v)) (ac_teamMemberships s)"
    using saved i by (simp_all add: s'_def DeleteUser_def Let_def save_or_undo_state v_def)
  show "\<forall>g\<in>set (ac_userGroups s'). v \<notin> set (ug_Members g)"
    using u(4) by (auto simp: s' v_def removeID_def)
  show "\<forall>r\<in>set (ac_roleAssignments s'). \<not> (equal_fold (ra_AssigneeType r) ''User'' \<and> ra_AssigneeID r = v)"
    "\<forall>m\<in>set (ac_teamMemberships s'). \<not> (equal_fold (mb_MemberType m) ''User'' \<and> mb_MemberID m = v)"
    by (simp_all add: s')
  show "distinct (map us_ID (ac_users s)) \<Longrightarrow> v \<notin> us_ID ` set (ac_users s')"
    unfolding s' v_def by (rule lookup_user_unique [OF _ i])
  show "filter (\<lambda>a. us_ID a \<noteq> v) (ac_users s') = filter (\<lambda>a. us_ID a \<noteq> v) (ac_users s)"
    unfolding s' using u(1,2) by (intro filter_remove_at) simp_all
qed

text \<open>A deletion that fails, for want of the user or of the store, leaves users, assignments and
  memberships as they were, and the user groups up to the defaults.\<close>

lemma user_deletion_undone:
  fixes s e t u defines "s' \<equiv> snd (DeleteUser e t u s)"
  assumes "fst (DeleteUser e t u s) = Inl err"
  shows "ac_users s' = ac_users s \<and> ac_roleAssignments s' = ac_roleAssignments s \<and> ac_teamMemberships s' = ac_teamMemberships s \<and>
    map cloneUserGroup (ac_userGroups s') = map cloneUserGroup (ac_userGroups s)"
proof -
  have [simp]: "cloneUserGroup (cloneUserGroup g) = cloneUserGroup g" for g
    by (simp add: cloneUserGroup_def applyUserGroupDefaults_def)
  show ?thesis using assms(2)
    by (auto simp: s'_def DeleteUser_def Let_def save_or_undo_def case_prod_unfold split: option.splits bool.splits)
qed

text \<open>No operation but the creation of a user, with the identifier it draws, adds a user.\<close>

definition drawn_users :: "env \<Rightarrow> string set" where
  "drawn_users e = (case env_rand e of None \<Rightarrow> {} | Some h \<Rightarrow> {''usr_'' @ h})"

lemma apply_user_id [simp]: "us_ID (apply_user inp st u) = us_ID u"
  by (simp add: apply_user_def)

lemma dir_step_users: "us_ID ` set (ac_users (dir_step e op s)) \<subseteq> us_ID ` set (ac_users s) \<union> drawn_users e"
proof (cases op)
  case (UserCreate t inp)
  then show ?thesis
    by (auto simp: CreateUser_def Let_def accessID_def drawn_users_def new_user_def split: sum.splits option.splits)
next
  case (UserBatch t ids x)
  then show ?thesis
    by (auto simp: BatchUpdateUserStatus_def Let_def split: sum.splits if_splits)
qed (auto simp: dir_op_defs Let_def case_prod_unfold image_update_same split: sum.splits option.splits bool.splits)

lemma group_step_users: "us_ID ` set (ac_users (group_step e op s)) \<subseteq> us_ID ` set (ac_users s)"
proof (cases op)
  case (OpDeleteUser t u)
  then show ?thesis using image_remove_at_subset [of us_ID _ "ac_users s"]
    by (auto simp: DeleteUser_def Let_def save_or_undo_state split: option.splits)
qed (auto simp: group_op_defs Let_def save_or_undo_state split: sum.splits option.splits)

lemma deleted_user_stays:
  assumes "v \<notin> us_ID ` set (ac_users s)" and "\<forall>(e, op)\<in>set ops. v \<notin> drawn_users e"
  shows "v \<notin> us_ID ` set (ac_users (access_run ops s))"
  using assms
proof (induction ops arbitrary: s)
  case (Cons eo ops)
  obtain e op where eo: "eo = (e, op)" by fastforce
  have "us_ID ` set (ac_users (access_step e op s)) \<subseteq> us_ID ` set (ac_users s) \<union> drawn_users e"
    using dir_step_users group_step_users TransferOrganization_frame(4) by (cases op) (simp, fastforce, simp)
  with Cons.prems eo have "v \<notin> us_ID ` set (ac_users (access_step e op s))" by auto
  with Cons.IH [of "access_step e op s"] Cons.prems(2) eo show ?case by (simp add: access_run_def)
qed (simp add: access_run_def)

lemma GetUser_absent: "trim_space u \<notin> us_ID ` set (ac_users s) \<Longrightarrow> GetUser t u s = Inl UserNotFound"
  using lookup_strict_SomeD(1,2) [of us_ID us_TenantID "trim_space t" "trim_space u" "ac_users s"]
  by (auto simp: GetUser_def find_user_def split: option.splits) (metis image_eqI nth_mem)

section \<open>Accepted links\<close>

text \<open>The instant a verification counts for, and the window it must fall in.\<close>

definition verify_instant :: "env \<Rightarrow> time \<Rightarrow> time" where
  "verify_instant e ts = (if is_zero ts then env_now e else ts)"

definition open_between :: "string \<Rightarrow> string \<Rightarrow> time \<Rightarrow> bool" where
  "open_between from until ts \<longleftrightarrow>
     (case parseGroupLinkInstant from of Inl _ \<Rightarrow> False | Inr None \<Rightarrow> True | Inr (Some f) \<Rightarrow> f \<le> ts) \<and>
     (case parseGroupLinkInstant until of Inl _ \<Rightarrow> False | Inr None \<Rightarrow> True | Inr (Some u) \<Rightarrow> ts \<le> u)"

lemma link_window_iff: "link_window ts l = Inr () \<longleftrightarrow> open_between (gl_ValidFrom l) (gl_ValidUntil l) ts"
  by (auto simp: link_window_def open_between_def split: sum.splits option.splits)

lemma VerifyGroupLinkToken_accepts:
  assumes "fst (VerifyGroupLinkToken e t tok ts s) = Inr l"
  shows "group_ref l \<in> group_refs s \<and> gl_LinkEnabled l \<and> link_match (trim_space t) (trim_space tok) l \<and>
    open_between (gl_ValidFrom l) (gl_ValidUntil l) (verify_instant e ts)"
proof -
  from assms obtain i where i: "find_idx (link_match (trim_space t) (trim_space tok)) (ac_groupLinks s) = Some i"
    by (auto simp: VerifyGroupLinkToken_def Let_def split: if_splits option.splits)
  let ?l = "ac_groupLinks s ! i"
  from assms i have en: "gl_LinkEnabled ?l" and w: "link_window (verify_instant e ts) ?l = Inr ()"
    and l: "l = cloneGroupLink (?l\<lparr>gl_LastUsedAt := format_rfc3339 (verify_instant e ts), gl_ResourceType := ''GroupLink'',
      gl_UpdatedAt := verify_instant e ts\<rparr>)"
    by (auto simp: VerifyGroupLinkToken_def Let_def verify_instant_def save_or_undo_value split: if_splits sum.splits)
  have "group_ref ?l \<in> group_refs s" using find_idx_SomeD(1) [OF i] by (simp add: group_refs_def)
  then show ?thesis
    using en w [unfolded link_window_iff] find_idx_SomeD(2) [OF i]
    by (simp add: l cloneGroupLink_def group_ref_def link_match_def)
qed

section \<open>Properties\<close>

text \<open>
  C9: A group link whose token is accepted belongs to a user group that still exists, in the link's tenant
  unless that tenant was transferred to another, is enabled, carries the presented token and is
  inside its validity window, whatever groups, links, teams, users, guests and role assignments were
  created, changed and deleted and whatever organisations were transferred before, failing saves
  included.  Likewise every team membership names a team of its tenant.
\<close>

theorem accepted_link_has_group:
  assumes "group_refs s \<subseteq> group_keys s" and "team_refs s \<subseteq> team_keys s"
    and "fst (VerifyGroupLinkToken e t tok ts (access_run ops s)) = Inr l"
  shows "(\<exists>g\<in>set (ac_userGroups (access_run ops s)). ug_ID g = gl_GroupID l \<and>
      (ug_TenantID g = gl_TenantID l \<or> gl_TenantID l \<in> transferred ops)) \<and>
    gl_LinkEnabled l \<and> link_match (trim_space t) (trim_space tok) l \<and>
    open_between (gl_ValidFrom l) (gl_ValidUntil l) (verify_instant e ts) \<and>
    (\<forall>m\<in>set (ac_teamMemberships (access_run ops s)).
       \<exists>x\<in>set (ac_teams (access_run ops s)). tm_ID x = mb_TeamID m \<and> tm_TenantID x = mb_TenantID m)"
proof -
  let ?s = "access_run ops s"
  have g: "refs_sound (transferred ops) (group_keys ?s) (group_refs ?s)"
    by (rule access_run_links [OF refs_soundI [OF assms(1)]]) simp
  have m: "refs_sound {} (team_keys ?s) (team_refs ?s)"
    unfolding access_run_def by (rule team_members.run_sound [OF refs_soundI [OF assms(2)]])
  note l = VerifyGroupLinkToken_accepts [OF assms(3)]
  then have "group_ref l \<in> group_refs ?s" by blast
  with g have "fst (group_ref l) \<in> fst ` group_keys ?s" "snd (group_ref l) \<notin> transferred ops \<Longrightarrow> group_ref l \<in> group_keys ?s"
    unfolding refs_sound_def by blast+
  then have "\<exists>g\<in>set (ac_userGroups ?s). ug_ID g = gl_GroupID l \<and>
      (ug_TenantID g = gl_TenantID l \<or> gl_TenantID l \<in> transferred ops)"
    by (cases "gl_TenantID l \<in> transferred ops") (auto simp: group_keys_def group_ref_def group_key_def)
  moreover have "\<exists>x\<in>set (ac_teams ?s). tm_ID x = mb_TeamID m \<and> tm_TenantID x = mb_TenantID m"
    if "m \<in> set (ac_teamMemberships ?s)" for m
  proof -
    from that m have "team_ref m \<in> team_keys ?s" by (auto simp: team_refs_def refs_sound_def)
    then show ?thesis by (auto simp: team_keys_def team_ref_def team_key_def)
  qed
  ultimately show ?thesis using l by blast
qed

definition demo_link :: groupLinkInput where
  "demo_link = \<lparr>li_TenantID = ''t1'', li_GroupID = ''ug_0a'', li_Name = ''Visitors'', li_Email = '''', li_Phone = '''', li_LinkEnabled = None,
     li_QuickResponseCodeType = ''online'', li_ValidFrom = ''2024-01-01'', li_ValidUntil = ''2024-01-31 18:00'', li_CreatedByType = ''user'',
     li_CreatedByID = ''u1'', li_CreatedByEmail = '''', li_CreatedByName = ''''\<rparr>"

definition demo_team :: team_input where
  "demo_team = \<lparr>ti_Name = ''Ops'', ti_Scope = '''', ti_PlaceID = '''', ti_Description = '''', ti_Source = ''''\<rparr>"

definition demo_member :: membership_input where
  "demo_member = \<lparr>mi_TeamID = ''team_0a'', mi_MemberType = '''', mi_MemberID = ''u1'', mi_MemberEmail = '''', mi_MemberName = '''', mi_Source = ''''\<rparr>"

text \<open>A group and a link, a team with a member, a deletion of the group that the store refuses, and the transfer of
  another tenant.\<close>

definition demo_ops :: "(env \<times> access_op) list" where
  "demo_ops =
     [(dir_env, Grp (OpCreateUserGroup ''t1'' ''b1'' ''Staff'' '''' [])),
      (dir_env, Grp (OpCreateGroupLink (\<lambda>n. Some ''0b'') demo_link)),
      (dir_env, Grp (OpCreateTeam ''t1'' demo_team)),
      (dir_env, Grp (OpCreateTeamMembership ''t1'' demo_member)),
      (dir_env\<lparr>env_save_ok := False\<rparr>, Grp (OpDeleteUserGroup ''t1'' ''ug_0a'')),
      (dir_env, Org ''t2'' ''t3'')]"

definition demo_now :: time where
  "demo_now = days_from_civil 2024 1 31 * 86400 * 1000000000"

lemma demo_link_accepted:
  "case fst (VerifyGroupLinkToken dir_env ''t1'' '' gls_0b '' demo_now (access_run demo_ops demo_directory)) of
     Inl _ \<Rightarrow> False | Inr l \<Rightarrow> gl_GroupID l = ''ug_0a''"
  by code_simp

lemma trim_t1: "trim_space ''t1'' = ''t1''" and trim_t2: "trim_space ''t2'' = ''t2''"
  by code_simp+

theorem accepted_link_has_group_witness:
  "\<exists>l. fst (VerifyGroupLinkToken dir_env ''t1'' '' gls_0b '' demo_now (access_run demo_ops demo_directory)) = Inr l \<and>
    (\<exists>g\<in>set (ac_userGroups (access_run demo_ops demo_directory)). ug_ID g = gl_GroupID l \<and> ug_TenantID g = gl_TenantID l)"
proof -
  obtain l where l: "fst (VerifyGroupLinkToken dir_env ''t1'' '' gls_0b '' demo_now (access_run demo_ops demo_directory)) = Inr l"
    using demo_link_accepted by (auto split: sum.splits)
  have sound: "group_refs demo_directory \<subseteq> group_keys demo_directory" "team_refs demo_directory \<subseteq> team_keys demo_directory"
    by (simp_all add: key_defs demo_directory_def)
  have "gl_TenantID l = ''t1''" using VerifyGroupLinkToken_accepts [OF l] trim_t1 by (auto simp: link_match_def in_scope_def)
  moreover have "''t1'' \<notin> transferred demo_ops" by (simp add: transferred_def demo_ops_def trim_t2)
  ultimately show ?thesis using accepted_link_has_group [OF sound l] l by auto
qed

text \<open>A transfer leaves the links behind: the token is still accepted in the old tenant, whose group has
  moved.\<close>

lemma transfer_leaves_links:
  "case fst (VerifyGroupLinkToken dir_env ''t1'' '' gls_0b '' demo_now (access_run (demo_ops @ [(dir_env, Org ''t1'' ''t3'')]) demo_directory)) of
     Inl _ \<Rightarrow> False
   | Inr l \<Rightarrow> gl_TenantID l = ''t1'' \<and>
       map ug_TenantID (ac_userGroups (access_run (demo_ops @ [(dir_env, Org ''t1'' ''t3'')]) demo_directory)) = [''t3'']"
  by code_simp

end
