(* ===== verification/Access_Grants.thy ===== *)
theory Access_Grants
  imports Access_Groups
begin

text \<open>
  Policies, temporary access and visitor passes of the access module (\<open>service_policies.go\<close>), and the
  periodic review of access rights (\<open>ReviewAccessRights\<close> of \<open>service.go\<close>).  A creation or update whose
  save fails stays in memory; a deletion and a review are undone.
\<close>

section \<open>Normal forms\<close>

definition normalizePolicyStatus :: "string \<Rightarrow> (access_error, string) result" where
  "normalizePolicyStatus status =
     (let x = to_lower (trim_space status) in
      if x = '''' \<or> x = ''active'' then Inr ''active''
      else if x = ''inactive'' then Inr ''inactive''
      else if x = ''draft'' then Inr ''draft'' else Inl (GrantError InvalidPolicyStatus))"

definition normalizeScopeType :: "string \<Rightarrow> (access_error, string) result" where
  "normalizeScopeType scope =
     (let x = to_lower (trim_space scope) in
      if x = '''' \<or> x = ''all'' then Inr ''all''
      else if x = ''building'' then Inr ''building''
      else if x = ''area'' then Inr ''area''
      else if x = ''door'' then Inr ''door'' else Inl InvalidScopeType)"

definition normalizeDeliveryMethod :: "string \<Rightarrow> (access_error, string) result" where
  "normalizeDeliveryMethod method =
     (let x = to_lower (trim_space method) in
      if x = '''' \<or> x = ''wallet'' then Inr ''wallet''
      else if x = ''email_qr'' then Inr ''email_qr'' else Inl (GrantError DeliveryMethodInvalid))"

section \<open>Policies\<close>

record policy_input =
  po_Name :: string
  po_ScopeType :: string
  po_BuildingID :: string
  po_AreaID :: string
  po_DoorID :: string
  po_Schedule :: string
  po_Members :: int
  po_Status :: string

definition ListPolicies :: "string \<Rightarrow> accessService \<Rightarrow> policy list" where
  "ListPolicies tenantID s = list_scoped pl_TenantID (trim_space tenantID) (ac_policies s)"

definition apply_policy :: "env \<Rightarrow> policy_input \<Rightarrow> string \<Rightarrow> string \<Rightarrow> policy \<Rightarrow> policy" where
  "apply_policy e inp scope status p =
     p\<lparr>pl_Name := trim_space (po_Name inp), pl_ScopeType := scope, pl_BuildingID := trim_space (po_BuildingID inp),
       pl_AreaID := trim_space (po_AreaID inp), pl_DoorID := trim_space (po_DoorID inp), pl_Schedule := trim_space (po_Schedule inp),
       pl_Members := max 0 (po_Members inp), pl_Status := status, pl_UpdatedAt := env_now e\<rparr>"

definition new_policy :: "env \<Rightarrow> string \<Rightarrow> string \<Rightarrow> policy_input \<Rightarrow> string \<Rightarrow> string \<Rightarrow> policy" where
  "new_policy e newID tenantID inp scope status =
     apply_policy e inp scope status
       \<lparr>pl_ID = newID, pl_TenantID = trim_space tenantID, pl_Name = '''', pl_ScopeType = '''', pl_BuildingID = '''', pl_AreaID = '''',
        pl_DoorID = '''', pl_Schedule = '''', pl_Members = 0, pl_Status = '''', pl_UpdatedAt = 0\<rparr>"

definition CreatePolicy ::
  "env \<Rightarrow> string \<Rightarrow> policy_input \<Rightarrow> accessService \<Rightarrow> (access_error, policy) result \<times> accessService" where
  "CreatePolicy e tenantID inp s =
     (if trim_space tenantID = '''' then (Inl TenantIDRequired, s)
      else if trim_space (po_Name inp) = '''' then (Inl (GrantError PolicyNameRequired), s)
      else
        (case (normalizeScopeType (po_ScopeType inp), normalizePolicyStatus (po_Status inp)) of
           (Inl err, _) \<Rightarrow> (Inl err, s)
         | (_, Inl err) \<Rightarrow> (Inl err, s)
         | (Inr scope, Inr status) \<Rightarrow>
             (case accessID e ''plc_'' of
                Inl err \<Rightarrow> (Inl err, s)
              | Inr newID \<Rightarrow>
                  let r = new_policy e newID tenantID inp scope status in
                  save_return e r (s\<lparr>ac_policies := r # ac_policies s\<rparr>))))"

definition UpdatePolicy ::
  "env \<Rightarrow> string \<Rightarrow> string \<Rightarrow> policy_input \<Rightarrow> accessService \<Rightarrow> (access_error, policy) result \<times> accessService" where
  "UpdatePolicy e tenantID policyID inp s =
     (if trim_space policyID = '''' then (Inl (GrantError PolicyNotFound), s)
      else if trim_space (po_Name inp) = '''' then (Inl (GrantError PolicyNameRequired), s)
      else
        (case (normalizeScopeType (po_ScopeType inp), normalizePolicyStatus (po_Status inp)) of
           (Inl err, _) \<Rightarrow> (Inl err, s)
         | (_, Inl err) \<Rightarrow> (Inl err, s)
         | (Inr scope, Inr status) \<Rightarrow>
             (case lookup_strict pl_ID pl_TenantID (trim_space tenantID) (trim_space policyID) (ac_policies s) of
                None \<Rightarrow> (Inl (GrantError PolicyNotFound), s)
              | Some i \<Rightarrow>
                  let r = apply_policy e inp scope status (ac_policies s ! i) in
                  save_return e r (s\<lparr>ac_policies := (ac_policies s)[i := r]\<rparr>))))"

section \<open>Temporary access\<close>

record temporaryAccessInput =
  tn_TenantID :: string
  tn_ScopeType :: string
  tn_BuildingID :: string
  tn_AreaID :: string
  tn_DoorID :: string
  tn_GroupID :: string
  tn_RoleID :: string
  tn_DeliveryMethod :: string
  tn_GranteeName :: string
  tn_GranteeGender :: string
  tn_GranteePhone :: string
  tn_GranteeEmail :: string
  tn_MobileModel :: string
  tn_PassType :: string
  tn_ValidFrom :: string
  tn_ValidUntil :: string
  tn_AuthorizedByID :: string
  tn_AuthorizedByEmail :: string
  tn_AuthorizedByRole :: string
  tn_KeepAuthorizedTime :: bool
  tn_ReviewedAt :: string
  tn_ReviewedBy :: string

definition ListTemporaryAccess :: "string \<Rightarrow> accessService \<Rightarrow> temporaryAccess list" where
  "ListTemporaryAccess tenantID s = list_scoped ta_TenantID (trim_space tenantID) (ac_temporaryAccess s)"

definition find_share :: "string \<Rightarrow> string \<Rightarrow> accessService \<Rightarrow> nat option" where
  "find_share tenantID grantID s =
     (if trim_space grantID = '''' then None
      else lookup_strict ta_ID ta_TenantID (trim_space tenantID) (trim_space grantID) (ac_temporaryAccess s))"

definition GetTemporaryAccess :: "string \<Rightarrow> string \<Rightarrow> accessService \<Rightarrow> (access_error, temporaryAccess) result" where
  "GetTemporaryAccess tenantID grantID s =
     (case find_share tenantID grantID s of
        None \<Rightarrow> Inl (GrantError TemporaryAccessNotFound) | Some i \<Rightarrow> Inr (ac_temporaryAccess s ! i))"

text \<open>The normal form keeps no mark to keep the authorization time; the caller reads it from its input.\<close>

definition normalizeTemporaryAccessInput :: "temporaryAccessInput \<Rightarrow> (access_error, temporaryAccessInput) result" where
  "normalizeTemporaryAccessInput inp =
     (if trim_space (tn_TenantID inp) = '''' then Inl TenantIDRequired
      else
        (case (normalizeScopeType (tn_ScopeType inp), normalizeDeliveryMethod (tn_DeliveryMethod inp)) of
           (Inl err, _) \<Rightarrow> Inl err
         | (_, Inl err) \<Rightarrow> Inl err
         | (Inr scope, Inr method) \<Rightarrow>
             if trim_space (tn_GranteeName inp) = '''' then Inl (GrantError GranteeNameRequired)
             else if trim_space (tn_GranteePhone inp) = '''' then Inl (GrantError GranteePhoneRequired)
             else if trim_space (tn_GranteeEmail inp) = '''' then Inl (GrantError GranteeEmailRequired)
             else if trim_space (tn_ValidUntil inp) = '''' then Inl (GrantError ValidUntilRequired)
             else Inr
               \<lparr>tn_TenantID = trim_space (tn_TenantID inp), tn_ScopeType = scope, tn_BuildingID = trim_space (tn_BuildingID inp),
                tn_AreaID = trim_space (tn_AreaID inp), tn_DoorID = trim_space (tn_DoorID inp), tn_GroupID = trim_space (tn_GroupID inp),
                tn_RoleID = firstNonEmpty2 (tn_RoleID inp) ''role_group_access'', tn_DeliveryMethod = method,
                tn_GranteeName = trim_space (tn_GranteeName inp), tn_GranteeGender = trim_space (tn_GranteeGender inp),
                tn_GranteePhone = trim_space (tn_GranteePhone inp), tn_GranteeEmail = trim_space (tn_GranteeEmail inp),
                tn_MobileModel = trim_space (tn_MobileModel inp), tn_PassType = trim_space (tn_PassType inp),
                tn_ValidFrom = trim_space (tn_ValidFrom inp), tn_ValidUntil = trim_space (tn_ValidUntil inp),
                tn_AuthorizedByID = trim_space (tn_AuthorizedByID inp), tn_AuthorizedByEmail = normalizeEmail (tn_AuthorizedByEmail inp),
                tn_AuthorizedByRole = trim_space (tn_AuthorizedByRole inp), tn_KeepAuthorizedTime = False,
                tn_ReviewedAt = trim_space (tn_ReviewedAt inp), tn_ReviewedBy = trim_space (tn_ReviewedBy inp)\<rparr>))"

text \<open>A grant from a normal form; the time windows, exceptions and calendar have no input and stay empty.\<close>

definition share_of :: "string \<Rightarrow> temporaryAccessInput \<Rightarrow> time \<Rightarrow> time \<Rightarrow> temporaryAccess" where
  "share_of i n authorizedAt createdAt =
     \<lparr>ta_ID = i, ta_TenantID = tn_TenantID n, ta_ScopeType = tn_ScopeType n, ta_BuildingID = tn_BuildingID n, ta_AreaID = tn_AreaID n,
      ta_DoorID = tn_DoorID n, ta_GroupID = tn_GroupID n, ta_RoleID = tn_RoleID n, ta_DeliveryMethod = tn_DeliveryMethod n,
      ta_GranteeName = tn_GranteeName n, ta_GranteeGender = tn_GranteeGender n, ta_GranteePhone = tn_GranteePhone n,
      ta_GranteeEmail = tn_GranteeEmail n, ta_MobileModel = tn_MobileModel n, ta_PassType = tn_PassType n, ta_ValidFrom = tn_ValidFrom n,
      ta_ValidUntil = tn_ValidUntil n, ta_TimeWindows = [], ta_ExceptionDates = [], ta_HolidayCalendarID = '''',
      ta_AuthorizedByID = tn_AuthorizedByID n, ta_AuthorizedByEmail = tn_AuthorizedByEmail n, ta_AuthorizedByRole = tn_AuthorizedByRole n,
      ta_AuthorizedAt = authorizedAt, ta_ReviewedAt = trim_space (tn_ReviewedAt n), ta_ReviewedBy = trim_space (tn_ReviewedBy n),
      ta_CreatedAt = createdAt\<rparr>"

definition CreateTemporaryAccessWithInput ::
  "env \<Rightarrow> temporaryAccessInput \<Rightarrow> accessService \<Rightarrow> (access_error, temporaryAccess) result \<times> accessService" where
  "CreateTemporaryAccessWithInput e inp s =
     (case normalizeTemporaryAccessInput inp of
        Inl err \<Rightarrow> (Inl err, s)
      | Inr n \<Rightarrow>
          (case accessID e ''tmp_'' of
             Inl err \<Rightarrow> (Inl err, s)
           | Inr newID \<Rightarrow>
               let r = share_of newID n (env_now e) (env_now e) in
               save_return e r (s\<lparr>ac_temporaryAccess := r # ac_temporaryAccess s\<rparr>)))"

definition UpdateTemporaryAccess ::
  "env \<Rightarrow> string \<Rightarrow> string \<Rightarrow> temporaryAccessInput \<Rightarrow> accessService \<Rightarrow>
   (access_error, temporaryAccess) result \<times> accessService" where
  "UpdateTemporaryAccess e tenantID grantID inp s =
     (if trim_space grantID = '''' then (Inl (GrantError TemporaryAccessNotFound), s)
      else
        (case normalizeTemporaryAccessInput (inp\<lparr>tn_TenantID := firstNonEmpty2 (tn_TenantID inp) (trim_space tenantID)\<rparr>) of
           Inl err \<Rightarrow> (Inl err, s)
         | Inr n \<Rightarrow>
             (case find_share tenantID grantID s of
                None \<Rightarrow> (Inl (GrantError TemporaryAccessNotFound), s)
              | Some i \<Rightarrow>
                  let old = ac_temporaryAccess s ! i;
                      r = share_of (trim_space grantID) n
                            (if tn_KeepAuthorizedTime inp then ta_AuthorizedAt old else env_now e) (ta_CreatedAt old) in
                  save_return e r (s\<lparr>ac_temporaryAccess := (ac_temporaryAccess s)[i := r]\<rparr>))))"

definition DeleteTemporaryAccess ::
  "env \<Rightarrow> string \<Rightarrow> string \<Rightarrow> accessService \<Rightarrow> (access_error, unit) result \<times> accessService" where
  "DeleteTemporaryAccess e tenantID grantID s =
     (case find_share tenantID grantID s of
        None \<Rightarrow> (Inl (GrantError TemporaryAccessNotFound), s)
      | Some i \<Rightarrow>
          save_or_undo e () (\<lambda>s'. s'\<lparr>ac_temporaryAccess := ac_temporaryAccess s\<rparr>)
            (s\<lparr>ac_temporaryAccess := remove_at i (ac_temporaryAccess s)\<rparr>))"

section \<open>Visitor passes\<close>

definition ListVisitorPasses :: "string \<Rightarrow> accessService \<Rightarrow> visitorPass list" where
  "ListVisitorPasses tenantID s = list_scoped vi_TenantID (trim_space tenantID) (ac_visitorPasses s)"

definition CreateVisitorPass ::
  "env \<Rightarrow> string \<Rightarrow> string \<Rightarrow> string \<Rightarrow> string \<Rightarrow> string \<Rightarrow> string \<Rightarrow> accessService \<Rightarrow>
   (access_error, visitorPass) result \<times> accessService" where
  "CreateVisitorPass e tenantID buildingID host visitor deliveryMethod expiresAt s =
     (if trim_space tenantID = '''' then (Inl TenantIDRequired, s)
      else if trim_space host = '''' then (Inl (GrantError HostRequired), s)
      else if trim_space visitor = '''' then (Inl (GrantError VisitorRequired), s)
      else
        (case normalizeDeliveryMethod deliveryMethod of
           Inl err \<Rightarrow> (Inl err, s)
         | Inr method \<Rightarrow>
             if trim_space expiresAt = '''' then (Inl (GrantError ExpiresAtRequired), s)
             else
               (case accessID e ''vst_'' of
                  Inl err \<Rightarrow> (Inl err, s)
                | Inr newID \<Rightarrow>
                    let r = \<lparr>vi_ID = newID, vi_TenantID = trim_space tenantID, vi_BuildingID = trim_space buildingID, vi_Host = trim_space host,
                             vi_Visitor = trim_space visitor, vi_DeliveryMethod = method, vi_ExpiresAt = trim_space expiresAt,
                             vi_CreatedAt = env_now e\<rparr> in
                    save_return e r (s\<lparr>ac_visitorPasses := r # ac_visitorPasses s\<rparr>))))"

section \<open>The review of access rights\<close>

text \<open>The rights still to review among the selected positions are marked in turn; the others are counted.\<close>

fun review_loop :: "('r \<Rightarrow> bool) \<Rightarrow> ('r \<Rightarrow> 'r) \<Rightarrow> ('r \<Rightarrow> string) \<Rightarrow> nat list \<Rightarrow> 'r list \<Rightarrow> 'r list \<times> string list \<times> nat" where
  "review_loop done_already mark key [] xs = (xs, [], 0)"
| "review_loop done_already mark key (i # sel) xs =
     (if done_already (xs ! i)
      then (case review_loop done_already mark key sel xs of (ys, ids, n) \<Rightarrow> (ys, ids, Suc n))
      else (case review_loop done_already mark key sel (xs[i := mark (xs ! i)]) of (ys, ids, n) \<Rightarrow> (ys, key (xs ! i) # ids, n)))"

record accessRightsReviewResult =
  rv_TenantID :: string
  rv_ReviewedAt :: string
  rv_ReviewedBy :: string
  rv_ReviewedCount :: nat
  rv_SkippedCount :: nat
  rv_ReviewedRoleAssignmentIDs :: "string list"
  rv_ReviewedShareIDs :: "string list"

definition assignment_reviewed :: "roleAssignment \<Rightarrow> bool" where
  "assignment_reviewed r \<longleftrightarrow> trim_space (ra_ReviewedAt r) \<noteq> ''''"

definition share_reviewed :: "temporaryAccess \<Rightarrow> bool" where
  "share_reviewed r \<longleftrightarrow> trim_space (ta_ReviewedAt r) \<noteq> ''''"

definition mark_assignment :: "env \<Rightarrow> string \<Rightarrow> roleAssignment \<Rightarrow> roleAssignment" where
  "mark_assignment e who r = r\<lparr>ra_ReviewedAt := format_rfc3339 (env_now e), ra_ReviewedBy := who, ra_UpdatedAt := env_now e\<rparr>"

definition mark_share :: "env \<Rightarrow> string \<Rightarrow> temporaryAccess \<Rightarrow> temporaryAccess" where
  "mark_share e who r = r\<lparr>ta_ReviewedAt := format_rfc3339 (env_now e), ta_ReviewedBy := who\<rparr>"

text \<open>The positions of the selected records, none when one of them is missing or of another tenant.\<close>

definition selected :: "('r \<Rightarrow> string) \<Rightarrow> ('r \<Rightarrow> string) \<Rightarrow> string \<Rightarrow> string list \<Rightarrow> 'r list \<Rightarrow> nat list option" where
  "selected key tenant t ids xs = those (map (\<lambda>i. lookup_strict key tenant t i xs) ids)"

definition reviewer :: "string \<Rightarrow> string" where
  "reviewer by_whom = (if trim_space by_whom = '''' then ''system'' else trim_space by_whom)"

definition ReviewAccessRights ::
  "env \<Rightarrow> string \<Rightarrow> string list \<Rightarrow> string list \<Rightarrow> string \<Rightarrow> accessService \<Rightarrow>
   (access_error, accessRightsReviewResult) result \<times> accessService" where
  "ReviewAccessRights e tenantID roleAssignmentIDs shareIDs reviewedBy s =
     (let t = trim_space tenantID; who = reviewer reviewedBy; ras = uniqueIDs roleAssignmentIDs; shs = uniqueIDs shareIDs in
      if t = '''' then (Inl TenantIDRequired, s)
      else if ras = [] \<and> shs = [] then (Inl (GrantError AccessRightSelectionRequired), s)
      else
        (case selected ra_ID ra_TenantID t ras (ac_roleAssignments s) of
           None \<Rightarrow> (Inl RoleAssignmentNotFound, s)
         | Some il \<Rightarrow>
             (case selected ta_ID ta_TenantID t shs (ac_temporaryAccess s) of
                None \<Rightarrow> (Inl (GrantError TemporaryAccessNotFound), s)
              | Some jl \<Rightarrow>
                  (case (review_loop assignment_reviewed (mark_assignment e who) ra_ID il (ac_roleAssignments s),
                         review_loop share_reviewed (mark_share e who) ta_ID jl (ac_temporaryAccess s)) of
                     ((as1, aids, an), (ts1, tids, tn)) \<Rightarrow>
                       save_or_undo e
                         \<lparr>rv_TenantID = t, rv_ReviewedAt = format_rfc3339 (env_now e), rv_ReviewedBy = who,
                          rv_ReviewedCount = length aids + length tids, rv_SkippedCount = an + tn,
                          rv_ReviewedRoleAssignmentIDs = aids, rv_ReviewedShareIDs = tids\<rparr>
                         (\<lambda>s'. s'\<lparr>ac_roleAssignments := ac_roleAssignments s, ac_temporaryAccess := ac_temporaryAccess s\<rparr>)
                         (s\<lparr>ac_roleAssignments := as1, ac_temporaryAccess := ts1\<rparr>)))))"

lemma review_loop_settled:
  "\<forall>i\<in>set sel. P (xs ! i) \<Longrightarrow> review_loop P f k sel xs = (xs, [], length sel)"
  by (induction sel) simp_all

text \<open>A pass over a selection leaves every selected record reviewed and the reviewed ones as they were.\<close>

lemma review_loop_result:
  assumes "review_loop P f k sel xs = (ys, ids, n)" and "\<forall>i\<in>set sel. i < length xs" and "\<And>x. P (f x)"
  shows "length ys = length xs \<and> (\<forall>i\<in>set sel. P (ys ! i)) \<and> n + length ids = length sel \<and>
    (\<forall>i<length xs. ys ! i = (if i \<in> set sel \<and> \<not> P (xs ! i) then f (xs ! i) else xs ! i))"
  using assms(1,2)
proof (induction sel arbitrary: xs ids n)
  case (Cons j sel)
  show ?case
  proof (cases "P (xs ! j)")
    case True
    with Cons.prems obtain m where m: "review_loop P f k sel xs = (ys, ids, m)" "n = Suc m"
      by (auto split: prod.splits)
    with Cons.IH [OF m(1)] Cons.prems(2) True show ?thesis by auto
  next
    case False
    let ?xs = "xs[j := f (xs ! j)]"
    from False Cons.prems obtain ids' where m: "review_loop P f k sel ?xs = (ys, ids', n)" "ids = k (xs ! j) # ids'"
      by (auto split: prod.splits)
    from Cons.IH [OF m(1)] Cons.prems(2)
    have IH: "length ys = length xs" "\<forall>i\<in>set sel. P (ys ! i)" "n + length ids' = length sel"
      "\<forall>i<length xs. ys ! i = (if i \<in> set sel \<and> \<not> P (?xs ! i) then f (?xs ! i) else ?xs ! i)" by auto
    have j: "ys ! j = f (xs ! j)" using IH(4) Cons.prems(2) assms(3) by (auto simp: nth_list_update)
    have "ys ! i = (if i \<in> set (j # sel) \<and> \<not> P (xs ! i) then f (xs ! i) else xs ! i)" if "i < length xs" for i
      using IH(4) [rule_format, OF that] j False by (cases "i = j") (auto simp: nth_list_update)
    then show ?thesis using IH(1-3) m(2) j assms(3) by auto
  qed
qed auto

lemma selected_Some:
  assumes "selected k g t ids xs = Some sel" and "t \<noteq> ''''"
  shows "\<forall>i\<in>set sel. i < length xs \<and> g (xs ! i) = t" "map (\<lambda>i. k (xs ! i)) sel = ids"
proof -
  have "those ys = Some zs \<Longrightarrow> ys = map Some zs" for ys :: "'x option list" and zs
    by (induction ys arbitrary: zs) (auto split: option.splits)
  from this [OF assms(1) [unfolded selected_def]]
  have m: "map (\<lambda>i. lookup_strict k g t i xs) ids = map Some sel" .
  have "list_all2 (\<lambda>i p. lookup_strict k g t i xs = Some p) ids sel"
    using m by (simp add: list_all2_conv_all_nth) (metis length_map nth_map)
  then have "(\<forall>i\<in>set sel. i < length xs \<and> g (xs ! i) = t) \<and> map (\<lambda>i. k (xs ! i)) sel = ids"
    by (induction rule: list_all2_induct) (auto dest: lookup_strictD [OF _ assms(2)])
  then show "\<forall>i\<in>set sel. i < length xs \<and> g (xs ! i) = t" "map (\<lambda>i. k (xs ! i)) sel = ids" by simp_all
qed

text \<open>A selection depends on identifiers and tenants only.\<close>

lemma selected_cong: "map k xs = map k ys \<Longrightarrow> map g xs = map g ys \<Longrightarrow> selected k g t ids xs = selected k g t ids ys"
proof -
  assume k: "map k xs = map k ys" and g: "map g xs = map g ys"
  then have len: "length xs = length ys" by (metis length_map)
  have f: "find_idx (\<lambda>r. k r = i) xs = find_idx (\<lambda>r. k r = i) ys" for i
    using len k by (induction xs ys rule: list_induct2) auto
  have "g (xs ! p) = g (ys ! p)" if "find_idx (\<lambda>r. k r = i) ys = Some p" for i p
    using find_idx_SomeD(1) [OF that] g len by (metis nth_map)
  then have "lookup_strict k g t i xs = lookup_strict k g t i ys" for i
    by (auto simp: lookup_strict_def f split: option.splits)
  then show ?thesis by (simp add: selected_def)
qed

lemma show_nat_plain: "show_nat n \<noteq> [] \<and> plain_char (hd (show_nat n))"
  by (induction n rule: show_nat.induct) (subst (1 2) show_nat.simps, auto simp: digit_plain)

lemma format_rfc3339_trim [simp]: "trim_space (format_rfc3339 t) = format_rfc3339 t"
proof -
  obtain y m d where c: "civil_from_days (day_of t) = (y, m, d)" by (metis prod_cases3)
  have "plain_char (CHR ''-'')" by code_simp
  then have "fmt4 y \<noteq> [] \<and> plain_char (hd (fmt4 y))"
    using show_nat_plain by (auto simp: fmt4_def show_int_def digit_plain)
  then show ?thesis
    by (intro trim_space_plain) (auto simp: format_rfc3339_def format_date_def c hd_append plain_char_def)
qed

lemma format_rfc3339_nonempty [simp]: "format_rfc3339 t \<noteq> ''''"
  by (simp add: format_rfc3339_def)

lemma marked_reviewed [simp]: "assignment_reviewed (mark_assignment e w r)" "share_reviewed (mark_share e w x)"
  by (simp_all add: assignment_reviewed_def mark_assignment_def share_reviewed_def mark_share_def)

lemma marked_keys [simp]:
  "ra_ID (mark_assignment e w r) = ra_ID r" "ra_TenantID (mark_assignment e w r) = ra_TenantID r"
  "ta_ID (mark_share e w x) = ta_ID x" "ta_TenantID (mark_share e w x) = ta_TenantID x"
  by (simp_all add: mark_assignment_def mark_share_def)

lemma ReviewAccessRights_cases:
  assumes "fst (ReviewAccessRights e t ras shs who s) = Inr r"
  obtains il jl as1 aids an ts1 tids tn where
    "trim_space t \<noteq> ''''" "\<not> (uniqueIDs ras = [] \<and> uniqueIDs shs = [])"
    "selected ra_ID ra_TenantID (trim_space t) (uniqueIDs ras) (ac_roleAssignments s) = Some il"
    "selected ta_ID ta_TenantID (trim_space t) (uniqueIDs shs) (ac_temporaryAccess s) = Some jl"
    "review_loop assignment_reviewed (mark_assignment e (reviewer who)) ra_ID il (ac_roleAssignments s) = (as1, aids, an)"
    "review_loop share_reviewed (mark_share e (reviewer who)) ta_ID jl (ac_temporaryAccess s) = (ts1, tids, tn)"
    "rv_ReviewedCount r = length aids + length tids" "rv_SkippedCount r = an + tn"
    "ac_roleAssignments (snd (ReviewAccessRights e t ras shs who s)) = as1"
    "ac_temporaryAccess (snd (ReviewAccessRights e t ras shs who s)) = ts1"
proof -
  obtain il jl where sel: "selected ra_ID ra_TenantID (trim_space t) (uniqueIDs ras) (ac_roleAssignments s) = Some il"
    "selected ta_ID ta_TenantID (trim_space t) (uniqueIDs shs) (ac_temporaryAccess s) = Some jl"
    "trim_space t \<noteq> ''''" "\<not> (uniqueIDs ras = [] \<and> uniqueIDs shs = [])"
    using assms by (auto simp: ReviewAccessRights_def Let_def split: if_splits option.splits)
  obtain as1 aids an ts1 tids tn where
    loops: "review_loop assignment_reviewed (mark_assignment e (reviewer who)) ra_ID il (ac_roleAssignments s) = (as1, aids, an)"
    "review_loop share_reviewed (mark_share e (reviewer who)) ta_ID jl (ac_temporaryAccess s) = (ts1, tids, tn)"
    by (metis prod_cases3)
  note unf = ReviewAccessRights_def Let_def save_or_undo_state save_or_undo_value sel(1,2) loops
  show thesis
    using that [OF sel(3,4,1,2) loops] assms sel(3,4) by (simp add: unf)
qed

text \<open>A review that is refused, or whose save fails, changes no right.\<close>

lemma review_all_or_nothing:
  assumes "fst (ReviewAccessRights e t ras shs who s) = Inl err"
  shows "ac_roleAssignments (snd (ReviewAccessRights e t ras shs who s)) = ac_roleAssignments s \<and>
    ac_temporaryAccess (snd (ReviewAccessRights e t ras shs who s)) = ac_temporaryAccess s"
  using assms
  by (auto simp: ReviewAccessRights_def Let_def save_or_undo_def case_prod_unfold split: if_splits option.splits bool.splits)

lemma loop_marks:
  assumes "review_loop P f k sel xs = (ys, ids, n)" and "\<forall>i\<in>set sel. i < length xs \<and> g (xs ! i) = t" and "map (\<lambda>i. k (xs ! i)) sel = want"
    and "\<And>x. P (f x)" "\<And>x. k (f x) = k x" "\<And>x. g (f x) = g x"
  shows "map k ys = map k xs" "map g ys = map g xs" "n + length ids = length want" "\<forall>i\<in>set sel. P (ys ! i)"
    "\<forall>w\<in>set want. \<exists>y\<in>set ys. k y = w \<and> g y = t \<and> P y"
proof -
  note R = review_loop_result [OF assms(1) _ assms(4)]
  from R assms(2) have r: "length ys = length xs" "\<forall>i\<in>set sel. P (ys ! i)" "n + length ids = length sel"
    "\<forall>i<length xs. ys ! i = (if i \<in> set sel \<and> \<not> P (xs ! i) then f (xs ! i) else xs ! i)" by auto
  show "map k ys = map k xs" "map g ys = map g xs"
    using r(1,4) assms(5,6) by (simp_all add: list_eq_iff_nth_eq)
  show "n + length ids = length want" "\<forall>i\<in>set sel. P (ys ! i)" using r(2,3) assms(3) by auto
  show "\<forall>w\<in>set want. \<exists>y\<in>set ys. k y = w \<and> g y = t \<and> P y"
  proof
    fix w
    assume "w \<in> set want"
    then obtain i where i: "i \<in> set sel" "k (xs ! i) = w" using assms(3) by auto
    then have "i < length xs" "ys ! i \<in> set ys" using r(1) assms(2) by auto
    moreover have "k (ys ! i) = w \<and> g (ys ! i) = t \<and> P (ys ! i)"
      using r(4) [rule_format, of i] r(2) calculation(1) i assms(2,5,6) by (auto split: if_splits)
    ultimately show "\<exists>y\<in>set ys. k y = w \<and> g y = t \<and> P y" by blast
  qed
qed

section \<open>Properties\<close>

text \<open>
  C10: A review that succeeds accounts for every selected right, each of them of the tenant and reviewed
  afterwards, and is final: whoever reviews the same selection again, and whenever, reviews nothing more
  and changes no role assignment and no temporary access, even when that second save fails.
\<close>

theorem review_once:
  assumes "fst (ReviewAccessRights e t ras shs who s) = Inr r"
  defines "s1 \<equiv> snd (ReviewAccessRights e t ras shs who s)"
  shows "(\<forall>i\<in>set (uniqueIDs ras). \<exists>a\<in>set (ac_roleAssignments s1). ra_ID a = i \<and> ra_TenantID a = trim_space t \<and> assignment_reviewed a) \<and>
    (\<forall>i\<in>set (uniqueIDs shs). \<exists>a\<in>set (ac_temporaryAccess s1). ta_ID a = i \<and> ta_TenantID a = trim_space t \<and> share_reviewed a) \<and>
    rv_ReviewedCount r + rv_SkippedCount r = length (uniqueIDs ras) + length (uniqueIDs shs) \<and>
    (case fst (ReviewAccessRights e2 t ras shs who2 s1) of
       Inl err \<Rightarrow> err = AccessStoreFailed
     | Inr r2 \<Rightarrow> rv_ReviewedCount r2 = 0 \<and> rv_SkippedCount r2 = length (uniqueIDs ras) + length (uniqueIDs shs)) \<and>
    ac_roleAssignments (snd (ReviewAccessRights e2 t ras shs who2 s1)) = ac_roleAssignments s1 \<and>
    ac_temporaryAccess (snd (ReviewAccessRights e2 t ras shs who2 s1)) = ac_temporaryAccess s1"
proof -
  from ReviewAccessRights_cases [OF assms(1)] obtain il jl as1 aids an ts1 tids tn where
    t: "trim_space t \<noteq> ''''" and ne: "\<not> (uniqueIDs ras = [] \<and> uniqueIDs shs = [])"
    and sel: "selected ra_ID ra_TenantID (trim_space t) (uniqueIDs ras) (ac_roleAssignments s) = Some il"
      "selected ta_ID ta_TenantID (trim_space t) (uniqueIDs shs) (ac_temporaryAccess s) = Some jl"
    and loops: "review_loop assignment_reviewed (mark_assignment e (reviewer who)) ra_ID il (ac_roleAssignments s) = (as1, aids, an)"
      "review_loop share_reviewed (mark_share e (reviewer who)) ta_ID jl (ac_temporaryAccess s) = (ts1, tids, tn)"
    and r: "rv_ReviewedCount r = length aids + length tids" "rv_SkippedCount r = an + tn"
    and s1: "ac_roleAssignments s1 = as1" "ac_temporaryAccess s1 = ts1"
    unfolding s1_def by metis
  note A = loop_marks [OF loops(1) selected_Some [OF sel(1) t], simplified]
  note B = loop_marks [OF loops(2) selected_Some [OF sel(2) t], simplified]
  have sel2: "selected ra_ID ra_TenantID (trim_space t) (uniqueIDs ras) (ac_roleAssignments s1) = Some il"
    "selected ta_ID ta_TenantID (trim_space t) (uniqueIDs shs) (ac_temporaryAccess s1) = Some jl"
    unfolding s1 using sel selected_cong [OF A(1,2)] selected_cong [OF B(1,2)] by simp_all
  have len: "length il = length (uniqueIDs ras)" "length jl = length (uniqueIDs shs)"
    using selected_Some(2) [OF sel(1) t] selected_Some(2) [OF sel(2) t] by (metis length_map)+
  have again: "review_loop assignment_reviewed (mark_assignment e2 (reviewer who2)) ra_ID il (ac_roleAssignments s1) = (ac_roleAssignments s1, [], length il)"
    "review_loop share_reviewed (mark_share e2 (reviewer who2)) ta_ID jl (ac_temporaryAccess s1) = (ac_temporaryAccess s1, [], length jl)"
    unfolding s1 using A(4) B(4) by (simp_all add: review_loop_settled)
  show ?thesis
    using A(3,5) B(3,5) r s1 t ne
    by (auto simp: ReviewAccessRights_def Let_def save_or_undo_def case_prod_unfold sel2 again len split: bool.splits)
qed

definition review_directory :: accessService where
  "review_directory = snd (CreateTemporaryAccessWithInput (dir_env\<lparr>env_rand := Some ''0d''\<rparr>)
     \<lparr>tn_TenantID = ''t1'', tn_ScopeType = ''door'', tn_BuildingID = '''', tn_AreaID = '''', tn_DoorID = ''d1'', tn_GroupID = '''', tn_RoleID = '''',
      tn_DeliveryMethod = '''', tn_GranteeName = ''Gil'', tn_GranteeGender = '''', tn_GranteePhone = ''1'', tn_GranteeEmail = ''g@x.io'',
      tn_MobileModel = '''', tn_PassType = '''', tn_ValidFrom = '''', tn_ValidUntil = ''2024-01-31'', tn_AuthorizedByID = '''',
      tn_AuthorizedByEmail = '''', tn_AuthorizedByRole = '''', tn_KeepAuthorizedTime = False, tn_ReviewedAt = '''', tn_ReviewedBy = ''''\<rparr>
     (dir_step dir_env (RoleCreate demo_role) demo_directory))"

lemma demo_review:
  "case fst (ReviewAccessRights dir_env ''t1'' [''ra_0a'', '' ra_0a''] [''tmp_0d''] '''' review_directory) of
     Inl _ \<Rightarrow> False | Inr r \<Rightarrow> rv_ReviewedCount r = 2"
  by code_simp

theorem review_once_witness:
  "\<exists>r. fst (ReviewAccessRights dir_env ''t1'' [''ra_0a'', '' ra_0a''] [''tmp_0d''] '''' review_directory) = Inr r \<and>
     rv_ReviewedCount r + rv_SkippedCount r = length (uniqueIDs [''ra_0a'', '' ra_0a'']) + length (uniqueIDs [''tmp_0d''])"
proof -
  obtain r where r: "fst (ReviewAccessRights dir_env ''t1'' [''ra_0a'', '' ra_0a''] [''tmp_0d''] '''' review_directory) = Inr r"
    using demo_review by (auto split: sum.splits)
  from review_once [OF this, of dir_env "''''"] r show ?thesis by blast
qed

end
