(* ===== verification/Access_Sync.thy ===== *)
theory Access_Sync
  imports Access_Groups
begin

text \<open>
  Invitations, import, export and directory synchronisation of users (\<open>service_users.go\<close>).  A batch from
  a directory is matched against the users of the tenant and against the users it creates itself, by
  synchronisation key and by e-mail address, through four index maps; the maps are shown to be the
  searches they stand for, so that addresses and keys stay unique.
\<close>

section \<open>Invitations\<close>

definition normalizeUserInvitationDeliveryMethod :: "string \<Rightarrow> (access_error, string) result" where
  "normalizeUserInvitationDeliveryMethod method =
     (let x = to_lower (trim_space method) in
      if x = '''' \<or> x = ''email'' then Inr ''email''
      else if x = ''email_qr'' then Inr ''email_qr'' else Inl (GrantError DeliveryMethodInvalid))"

definition normalizeUserInvitationStatus :: "string \<Rightarrow> (access_error, string) result" where
  "normalizeUserInvitationStatus status =
     (let x = to_lower (trim_space status) in
      if x \<in> {''sent'', ''delivered''} then Inr ''sent''
      else if x \<in> {''failed'', ''bounced'', ''rejected'', ''undelivered''} then Inr ''failed''
      else Inl (InviteError InvalidUserInvitationStatus))"

definition ListUserInvitationDeliveries :: "string \<Rightarrow> string \<Rightarrow> accessService \<Rightarrow> userInvitationDelivery list" where
  "ListUserInvitationDeliveries tenantID userID s =
     map cloneUserInvitationDelivery
       (filter (\<lambda>d. in_scope (trim_space tenantID) (iv_TenantID d) \<and> in_scope (trim_space userID) (iv_UserID d))
         (ac_userInvitationDeliveries s))"

definition new_invitation :: "env \<Rightarrow> string \<Rightarrow> string \<Rightarrow> accessUser \<Rightarrow> userInvitationDelivery" where
  "new_invitation e newID method u =
     \<lparr>iv_ID = newID, iv_ResourceType = ''UserInvitationDelivery'', iv_TenantID = us_TenantID u, iv_UserID = us_ID u, iv_Email = us_Email u,
      iv_PlaceID = us_BuildingID u, iv_DeliveryMethod = method, iv_Status = ''queued'', iv_Provider = '''', iv_ProviderDeliveryID = '''',
      iv_ProviderError = '''', iv_Retryable = False, iv_QueuedAt = env_now e, iv_DeliveredAt = None, iv_UpdatedAt = env_now e\<rparr>"

definition CreateUserInvitationDelivery ::
  "env \<Rightarrow> string \<Rightarrow> string \<Rightarrow> string \<Rightarrow> accessService \<Rightarrow>
   (access_error, userInvitationDelivery \<times> accessUser) result \<times> accessService" where
  "CreateUserInvitationDelivery e tenantID userID deliveryMethod s =
     (if trim_space userID = '''' then (Inl UserNotFound, s)
      else
        (case normalizeUserInvitationDeliveryMethod deliveryMethod of
           Inl err \<Rightarrow> (Inl err, s)
         | Inr method \<Rightarrow>
             (case accessID e ''user_invite_'' of
                Inl err \<Rightarrow> (Inl err, s)
              | Inr newID \<Rightarrow>
                  (case find_user tenantID userID s of
                     None \<Rightarrow> (Inl UserNotFound, s)
                   | Some i \<Rightarrow>
                       let u = ac_users s ! i; r = new_invitation e newID method u in
                       save_return e (cloneUserInvitationDelivery r, u)
                         (s\<lparr>ac_userInvitationDeliveries := r # ac_userInvitationDeliveries s\<rparr>)))))"

record receipt_input =
  rc_Status :: string
  rc_Provider :: string
  rc_ProviderDeliveryID :: string
  rc_ProviderError :: string
  rc_Retryable :: bool

definition apply_receipt :: "env \<Rightarrow> receipt_input \<Rightarrow> string \<Rightarrow> userInvitationDelivery \<Rightarrow> userInvitationDelivery" where
  "apply_receipt e inp status d =
     d\<lparr>iv_Status := status, iv_Provider := trim_space (rc_Provider inp), iv_ProviderDeliveryID := trim_space (rc_ProviderDeliveryID inp),
       iv_ProviderError := trim_space (rc_ProviderError inp), iv_Retryable := rc_Retryable inp, iv_UpdatedAt := env_now e,
       iv_DeliveredAt := (if status = ''sent'' then Some (env_now e) else iv_DeliveredAt d)\<rparr>"

text \<open>The first delivery with both identifiers decides, whatever its tenant.\<close>

definition RecordUserInvitationReceipt ::
  "env \<Rightarrow> string \<Rightarrow> string \<Rightarrow> string \<Rightarrow> receipt_input \<Rightarrow> accessService \<Rightarrow>
   (access_error, userInvitationDelivery) result \<times> accessService" where
  "RecordUserInvitationReceipt e tenantID userID deliveryID inp s =
     (if trim_space userID = '''' then (Inl UserNotFound, s)
      else if trim_space deliveryID = '''' then (Inl (InviteError UserInvitationDeliveryNotFound), s)
      else
        (case normalizeUserInvitationStatus (rc_Status inp) of
           Inl err \<Rightarrow> (Inl err, s)
         | Inr status \<Rightarrow>
             (case find_idx (\<lambda>d. iv_ID d = trim_space deliveryID \<and> iv_UserID d = trim_space userID) (ac_userInvitationDeliveries s) of
                None \<Rightarrow> (Inl (InviteError UserInvitationDeliveryNotFound), s)
              | Some i \<Rightarrow>
                  if \<not> in_scope (trim_space tenantID) (iv_TenantID (ac_userInvitationDeliveries s ! i))
                  then (Inl (InviteError UserInvitationDeliveryNotFound), s)
                  else
                    let r = apply_receipt e inp status (ac_userInvitationDeliveries s ! i) in
                    save_return e (cloneUserInvitationDelivery r)
                      (s\<lparr>ac_userInvitationDeliveries := (ac_userInvitationDeliveries s)[i := r]\<rparr>))))"

definition find_delivery :: "string \<Rightarrow> string \<Rightarrow> accessService \<Rightarrow> nat option" where
  "find_delivery tenantID deliveryID s =
     (if trim_space deliveryID = '''' then None
      else lookup_scan iv_ID iv_TenantID (trim_space tenantID) (trim_space deliveryID) (ac_userInvitationDeliveries s))"

definition GetInvitationDelivery :: "string \<Rightarrow> string \<Rightarrow> accessService \<Rightarrow> (access_error, userInvitationDelivery) result" where
  "GetInvitationDelivery tenantID deliveryID s =
     (case find_delivery tenantID deliveryID s of
        None \<Rightarrow> Inl (InviteError UserInvitationDeliveryNotFound)
      | Some i \<Rightarrow> Inr (cloneUserInvitationDelivery (ac_userInvitationDeliveries s ! i)))"

definition CancelInvitationDelivery ::
  "env \<Rightarrow> string \<Rightarrow> string \<Rightarrow> accessService \<Rightarrow> (access_error, userInvitationDelivery) result \<times> accessService" where
  "CancelInvitationDelivery e tenantID deliveryID s =
     (case find_delivery tenantID deliveryID s of
        None \<Rightarrow> (Inl (InviteError UserInvitationDeliveryNotFound), s)
      | Some i \<Rightarrow>
          let d = ac_userInvitationDeliveries s ! i in
          if iv_Status d = ''sent'' then (Inl (InviteError CannotCancelDelivered), s)
          else if iv_Status d = ''cancelled'' then (Inr (cloneUserInvitationDelivery d), s)
          else
            let r = d\<lparr>iv_Status := ''cancelled'', iv_UpdatedAt := env_now e\<rparr> in
            save_return e (cloneUserInvitationDelivery r)
              (s\<lparr>ac_userInvitationDeliveries := (ac_userInvitationDeliveries s)[i := r]\<rparr>))"

text \<open>The lock is free between reading the original and creating its copy; the two are one step here.\<close>

definition ResendInvitationDelivery ::
  "env \<Rightarrow> string \<Rightarrow> string \<Rightarrow> accessService \<Rightarrow>
   (access_error, userInvitationDelivery \<times> accessUser) result \<times> accessService" where
  "ResendInvitationDelivery e tenantID deliveryID s =
     (case find_delivery tenantID deliveryID s of
        None \<Rightarrow> (Inl (InviteError UserInvitationDeliveryNotFound), s)
      | Some i \<Rightarrow>
          let d = ac_userInvitationDeliveries s ! i in
          CreateUserInvitationDelivery e (iv_TenantID d) (iv_UserID d) (iv_DeliveryMethod d) s)"

record batchUserInviteResult =
  bi_TenantID :: string
  bi_Queued :: nat
  bi_Skipped :: nat
  bi_NotFound :: nat
  bi_UserIDs :: "string list"

text \<open>Each invitation of a batch is a call of its own, with its own random read, clock and save: \<open>es k\<close> for
  the user at position \<open>k\<close> of those selected.\<close>

definition invite_one ::
  "string \<Rightarrow> string \<Rightarrow> env \<times> accessUser \<Rightarrow> (nat \<times> string list) \<times> accessService \<Rightarrow> (nat \<times> string list) \<times> accessService" where
  "invite_one t method eu acc =
     (case (eu, acc) of ((e, u), ((skipped, ids), s)) \<Rightarrow>
        if equal_fold (us_Status u) ''suspended'' \<or> equal_fold (us_Status u) ''disabled'' then ((Suc skipped, ids), s)
        else
          (case CreateUserInvitationDelivery e t (us_ID u) method s of
             (Inl _, s') \<Rightarrow> ((Suc skipped, ids), s')
           | (Inr _, s') \<Rightarrow> ((skipped, ids @ [us_ID u]), s')))"

definition BatchInviteUsers ::
  "(nat \<Rightarrow> env) \<Rightarrow> string \<Rightarrow> string list \<Rightarrow> string \<Rightarrow> accessService \<Rightarrow>
   (access_error, batchUserInviteResult) result \<times> accessService" where
  "BatchInviteUsers es tenantID userIDs deliveryMethod s =
     (let t = trim_space tenantID; ids = uniqueIDs userIDs in
      if t = '''' then (Inl TenantIDRequired, s)
      else if userIDs = [] then (Inl UserIDsRequired, s)
      else
        (case normalizeUserInvitationDeliveryMethod deliveryMethod of
           Inl err \<Rightarrow> (Inl err, s)
         | Inr method \<Rightarrow>
             let hit = filter (batch_target t ids) (ac_users s) in
             (case fold (invite_one t method) (zip (map es [0..<length hit]) hit) ((0, []), s) of
                ((skipped, queued), s') \<Rightarrow>
                  (Inr \<lparr>bi_TenantID = t, bi_Queued = length queued, bi_Skipped = skipped,
                        bi_NotFound = length ids - length (remdups (map us_ID hit)), bi_UserIDs = queued\<rparr>, s'))))"

section \<open>Export\<close>

definition csvEscape :: "string \<Rightarrow> string" where
  "csvEscape s =
     (if list_ex (\<lambda>c. c \<in> {CHR '','', CHR 0x22, CHR 0x0A, CHR 0x0D}) s
      then [CHR 0x22] @ concat (map (\<lambda>c. if c = CHR 0x22 then [c, c] else [c]) s) @ [CHR 0x22] else s)"

definition user_row :: "accessUser \<Rightarrow> string" where
  "user_row u =
     concat (map (\<lambda>x. csvEscape x @ '','')
       [us_ID u, us_Name u, us_Email u, us_Role u, us_Status u, us_BuildingID u, us_SyncSource u]) @
     format_rfc3339 (us_CreatedAt u) @ [CHR 0x0A]"

definition ExportUsersCSV :: "string \<Rightarrow> accessService \<Rightarrow> (access_error, string) result" where
  "ExportUsersCSV tenantID s =
     (if trim_space tenantID = '''' then Inl TenantIDRequired
      else Inr (''id,name,email,role,status,building_id,sync_source,created_at'' @ [CHR 0x0A] @
        concat (map user_row (filter (\<lambda>u. us_TenantID u = trim_space tenantID) (ac_users s)))))"

section \<open>One user by address\<close>

definition UpsertUserByEmail ::
  "env \<Rightarrow> string \<Rightarrow> user_input \<Rightarrow> accessService \<Rightarrow> (access_error, accessUser \<times> bool) result \<times> accessService" where
  "UpsertUserByEmail e tenantID inp s =
     (let t = trim_space tenantID in
      if t = '''' then (Inl TenantIDRequired, s)
      else if trim_space (ui_Name inp) = '''' then (Inl UserNameRequired, s)
      else if normalizeEmail (ui_Email inp) = '''' then (Inl UserEmailRequired, s)
      else
        (case normalizeUserStatus (ui_Status inp) of
           Inl err \<Rightarrow> (Inl err, s)
         | Inr status \<Rightarrow>
             (case find_idx (\<lambda>u. us_TenantID u = t \<and> normalizeEmail (us_Email u) = normalizeEmail (ui_Email inp)) (ac_users s) of
                Some i \<Rightarrow>
                  let r = apply_user inp status (ac_users s ! i) in
                  save_return e (r, False) (s\<lparr>ac_users := (ac_users s)[i := r]\<rparr>)
              | None \<Rightarrow>
                  (case accessID e ''usr_'' of
                     Inl err \<Rightarrow> (Inl err, s)
                   | Inr newID \<Rightarrow>
                       let r = new_user e newID t inp status in
                       save_return e (r, True) (s\<lparr>ac_users := r # ac_users s\<rparr>)))))"

record userImportRecord =
  im_Name :: string
  im_Email :: string
  im_Role :: string
  im_Status :: string
  im_BuildingID :: string

record userImportResult =
  ir_TenantID :: string
  ir_Created :: nat
  ir_Updated :: nat
  ir_Skipped :: nat
  ir_Errors :: nat

definition import_input :: "userImportRecord \<Rightarrow> user_input" where
  "import_input r =
     (let email = normalizeEmail (im_Email r); name = trim_space (im_Name r);
          role = to_lower (trim_space (im_Role r)); status = to_lower (trim_space (im_Status r)) in
      \<lparr>ui_BuildingID = trim_space (im_BuildingID r), ui_Name = (if name = '''' then email else name), ui_Email = email,
       ui_Role = (if role = '''' then ''employee'' else role), ui_Status = (if status = '''' then ''active'' else status), ui_GroupIDs = []\<rparr>)"

definition import_one :: "string \<Rightarrow> env \<times> userImportRecord \<Rightarrow> userImportResult \<times> accessService \<Rightarrow> userImportResult \<times> accessService" where
  "import_one t er acc =
     (case (er, acc) of ((e, r), (n, s)) \<Rightarrow>
        if normalizeEmail (im_Email r) = '''' then (n\<lparr>ir_Errors := Suc (ir_Errors n)\<rparr>, s)
        else
          (case UpsertUserByEmail e t (import_input r) s of
             (Inl _, s') \<Rightarrow> (n\<lparr>ir_Errors := Suc (ir_Errors n)\<rparr>, s')
           | (Inr (_, isNew), s') \<Rightarrow>
               (if isNew then n\<lparr>ir_Created := Suc (ir_Created n)\<rparr> else n\<lparr>ir_Updated := Suc (ir_Updated n)\<rparr>, s')))"

definition ImportUsersCSV ::
  "(nat \<Rightarrow> env) \<Rightarrow> string \<Rightarrow> userImportRecord list \<Rightarrow> accessService \<Rightarrow> (access_error, userImportResult) result \<times> accessService" where
  "ImportUsersCSV es tenantID records s =
     (let t = trim_space tenantID in
      if t = '''' then (Inl TenantIDRequired, s)
      else if records = [] then (Inl (InviteError UsersImportRecordsRequired), s)
      else
        (case fold (import_one t) (zip (map es [0..<length records]) records)
                (\<lparr>ir_TenantID = t, ir_Created = 0, ir_Updated = 0, ir_Skipped = 0, ir_Errors = 0\<rparr>, s) of
           (n, s') \<Rightarrow> (Inr n, s')))"

section \<open>A batch from a directory\<close>

definition normalizeSyncSource :: "string \<Rightarrow> string" where
  "normalizeSyncSource source = to_lower (trim_space source)"

definition accessSyncIdentityKey :: "string \<Rightarrow> string \<Rightarrow> string" where
  "accessSyncIdentityKey source ref =
     (let x = normalizeSyncSource source; r = trim_space ref in
      if x = '''' \<or> r = '''' then '''' else x @ '':'' @ r)"

definition sync_key :: "accessUser \<Rightarrow> string" where
  "sync_key u = accessSyncIdentityKey (us_SyncSource u) (us_SyncRef u)"

definition mail_key :: "accessUser \<Rightarrow> string" where
  "mail_key u = normalizeEmail (us_Email u)"

record batchUpsertUserByEmailInput =
  bu_BuildingID :: string
  bu_Name :: string
  bu_Email :: string
  bu_Role :: string
  bu_Status :: string
  bu_GroupIDs :: "string list"
  bu_SyncSource :: string
  bu_SyncRef :: string

text \<open>What one call keeps while it walks the inputs: the users, those to create, an index of each by
  address and by key, and the counters.\<close>

record sync_batch =
  sb_users :: "accessUser list"
  sb_byEmail :: "string \<rightharpoonup> nat"
  sb_bySync :: "string \<rightharpoonup> nat"
  sb_new :: "accessUser list"
  sb_newByEmail :: "string \<rightharpoonup> nat"
  sb_newBySync :: "string \<rightharpoonup> nat"
  sb_created :: nat
  sb_updated :: nat
  sb_rejected :: nat

definition index_by :: "(accessUser \<Rightarrow> bool) \<Rightarrow> (accessUser \<Rightarrow> string) \<Rightarrow> accessUser list \<Rightarrow> string \<rightharpoonup> nat" where
  "index_by P f xs = fold (\<lambda>i m. if P (xs ! i) then m(f (xs ! i) \<mapsto> i) else m) [0..<length xs] Map.empty"

definition of_tenant :: "string \<Rightarrow> accessUser \<Rightarrow> bool" where
  "of_tenant t u \<longleftrightarrow> us_TenantID u = t"

definition has_key :: "string \<Rightarrow> accessUser \<Rightarrow> bool" where
  "has_key t u \<longleftrightarrow> us_TenantID u = t \<and> sync_key u \<noteq> ''''"

definition start_batch :: "string \<Rightarrow> accessUser list \<Rightarrow> sync_batch" where
  "start_batch t us =
     \<lparr>sb_users = us, sb_byEmail = index_by (of_tenant t) mail_key us, sb_bySync = index_by (has_key t) sync_key us,
      sb_new = [], sb_newByEmail = Map.empty, sb_newBySync = Map.empty, sb_created = 0, sb_updated = 0, sb_rejected = 0\<rparr>"

text \<open>The normal form of an input, none when it is rejected.\<close>

definition normalize_sync :: "batchUpsertUserByEmailInput \<Rightarrow> batchUpsertUserByEmailInput option" where
  "normalize_sync inp =
     (if trim_space (bu_Name inp) = '''' \<or> normalizeEmail (bu_Email inp) = '''' then None
      else
        (case normalizeUserStatus (bu_Status inp) of
           Inl _ \<Rightarrow> None
         | Inr status \<Rightarrow>
             let source = normalizeSyncSource (bu_SyncSource inp); ref = trim_space (bu_SyncRef inp) in
             if (source = '''') \<noteq> (ref = '''') then None
             else Some \<lparr>bu_BuildingID = trim_space (bu_BuildingID inp), bu_Name = trim_space (bu_Name inp),
                        bu_Email = normalizeEmail (bu_Email inp), bu_Role = role_or_employee (bu_Role inp), bu_Status = status,
                        bu_GroupIDs = uniqueIDs (bu_GroupIDs inp), bu_SyncSource = source, bu_SyncRef = ref\<rparr>))"

definition input_key :: "batchUpsertUserByEmailInput \<Rightarrow> string" where
  "input_key n = accessSyncIdentityKey (bu_SyncSource n) (bu_SyncRef n)"

datatype sync_target = NewUser | Existing nat | Created nat | Conflict

definition match_input :: "sync_batch \<Rightarrow> string \<Rightarrow> string \<Rightarrow> sync_target" where
  "match_input b email key =
     (let es = (if key = '''' then None else sb_bySync b key); cs = (if key = '''' then None else sb_newBySync b key);
          ee = sb_byEmail b email; ce = sb_newByEmail b email in
      if (es \<noteq> None \<or> cs \<noteq> None) \<and> (ee \<noteq> None \<or> ce \<noteq> None) then
        (if es \<noteq> None \<and> ee \<noteq> None \<and> the es = the ee then Existing (the es)
         else if cs \<noteq> None \<and> ce \<noteq> None \<and> the cs = the ce then Created (the cs)
         else Conflict)
      else if es \<noteq> None then Existing (the es)
      else if cs \<noteq> None then Created (the cs)
      else if ee \<noteq> None then Existing (the ee)
      else if ce \<noteq> None then Created (the ce)
      else NewUser)"

definition apply_sync :: "batchUpsertUserByEmailInput \<Rightarrow> accessUser \<Rightarrow> accessUser" where
  "apply_sync n u =
     u\<lparr>us_BuildingID := bu_BuildingID n, us_Name := bu_Name n, us_Email := bu_Email n, us_Role := bu_Role n, us_Status := bu_Status n,
       us_GroupIDs := bu_GroupIDs n,
       us_SyncSource := (if input_key n \<noteq> '''' then bu_SyncSource n else us_SyncSource u),
       us_SyncRef := (if input_key n \<noteq> '''' then bu_SyncRef n else us_SyncRef u)\<rparr>"

definition synced_user :: "env \<Rightarrow> string \<Rightarrow> string \<Rightarrow> batchUpsertUserByEmailInput \<Rightarrow> accessUser" where
  "synced_user e newID t n =
     \<lparr>us_ID = newID, us_TenantID = t, us_BuildingID = bu_BuildingID n, us_Name = bu_Name n, us_Email = bu_Email n, us_Role = bu_Role n,
      us_Status = bu_Status n, us_GroupIDs = bu_GroupIDs n, us_SyncSource = bu_SyncSource n, us_SyncRef = bu_SyncRef n, us_CreatedAt = env_now e\<rparr>"

definition key_clash :: "string \<Rightarrow> accessUser \<Rightarrow> bool" where
  "key_clash key u \<longleftrightarrow> key \<noteq> '''' \<and> sync_key u \<noteq> '''' \<and> key \<noteq> sync_key u"

definition move_entry :: "string \<Rightarrow> string \<Rightarrow> nat \<Rightarrow> (string \<rightharpoonup> nat) \<Rightarrow> string \<rightharpoonup> nat" where
  "move_entry previous email i m =
     (let m1 = (if previous \<noteq> email \<and> m previous = Some i then m(previous := None) else m) in m1(email \<mapsto> i))"

definition set_entry_if :: "string \<Rightarrow> nat \<Rightarrow> (string \<rightharpoonup> nat) \<Rightarrow> string \<rightharpoonup> nat" where
  "set_entry_if key i m = (if key \<noteq> '''' then m(key \<mapsto> i) else m)"

definition reject :: "sync_batch \<Rightarrow> sync_batch" where
  "reject b = b\<lparr>sb_rejected := Suc (sb_rejected b)\<rparr>"

text \<open>One input.  \<open>rs k\<close> is the random read for the user created as number \<open>k\<close>; none of it ends the call.\<close>

definition sync_one ::
  "env \<Rightarrow> reads \<Rightarrow> string \<Rightarrow> batchUpsertUserByEmailInput \<Rightarrow> sync_batch \<Rightarrow> sync_batch option" where
  "sync_one e rs t inp b =
     (case normalize_sync inp of
        None \<Rightarrow> Some (reject b)
      | Some n \<Rightarrow>
          (case match_input b (bu_Email n) (input_key n) of
             Conflict \<Rightarrow> Some (reject b)
           | Created i \<Rightarrow>
               let u = sb_new b ! i in
               if key_clash (input_key n) u then Some (reject b)
               else Some (b\<lparr>sb_new := (sb_new b)[i := apply_sync n u], sb_newBySync := set_entry_if (input_key n) i (sb_newBySync b),
                            sb_newByEmail := move_entry (mail_key u) (bu_Email n) i (sb_newByEmail b)\<rparr>)
           | Existing i \<Rightarrow>
               let u = sb_users b ! i in
               if key_clash (input_key n) u then Some (reject b)
               else Some (b\<lparr>sb_users := (sb_users b)[i := apply_sync n u], sb_bySync := set_entry_if (input_key n) i (sb_bySync b),
                            sb_byEmail := move_entry (mail_key u) (bu_Email n) i (sb_byEmail b), sb_updated := Suc (sb_updated b)\<rparr>)
           | NewUser \<Rightarrow>
               (case rs (sb_created b) of
                  None \<Rightarrow> None
                | Some h \<Rightarrow>
                    let k = length (sb_new b) in
                    Some (b\<lparr>sb_new := sb_new b @ [synced_user e (''usr_'' @ h) t n], sb_newByEmail := (sb_newByEmail b)(bu_Email n \<mapsto> k),
                            sb_newBySync := set_entry_if (input_key n) k (sb_newBySync b), sb_created := Suc (sb_created b)\<rparr>))))"

fun sync_loop ::
  "env \<Rightarrow> reads \<Rightarrow> string \<Rightarrow> batchUpsertUserByEmailInput list \<Rightarrow> sync_batch \<Rightarrow> sync_batch option" where
  "sync_loop e rs t [] b = Some b"
| "sync_loop e rs t (inp # inps) b =
     (case sync_one e rs t inp b of None \<Rightarrow> None | Some b' \<Rightarrow> sync_loop e rs t inps b')"

definition UpsertUsersByEmail ::
  "env \<Rightarrow> reads \<Rightarrow> string \<Rightarrow> batchUpsertUserByEmailInput list \<Rightarrow> accessService \<Rightarrow>
   (access_error, nat \<times> nat \<times> nat) result \<times> accessService" where
  "UpsertUsersByEmail e rs tenantID inputs s =
     (let t = trim_space tenantID in
      if t = '''' then (Inl TenantIDRequired, s)
      else if inputs = [] then (Inr (0, 0, 0), s)
      else
        (case sync_loop e rs t inputs (start_batch t (ac_users s)) of
           None \<Rightarrow> (Inl AccessRandFailed, s)
         | Some b \<Rightarrow>
             let r = (sb_created b, sb_updated b, sb_rejected b); s1 = s\<lparr>ac_users := sb_new b @ sb_users b\<rparr> in
             if sb_created b > 0 \<or> sb_updated b > 0
             then save_or_undo e r (\<lambda>s'. s'\<lparr>ac_users := ac_users s\<rparr>) s1 else (Inr r, s1)))"

section \<open>Indexes\<close>

text \<open>An index that is exact; it can only be when its key is unique.\<close>

definition indexes :: "(string \<rightharpoonup> nat) \<Rightarrow> (accessUser \<Rightarrow> bool) \<Rightarrow> (accessUser \<Rightarrow> string) \<Rightarrow> accessUser list \<Rightarrow> bool" where
  "indexes m P f xs \<longleftrightarrow> (\<forall>k i. m k = Some i \<longleftrightarrow> i < length xs \<and> P (xs ! i) \<and> f (xs ! i) = k)"

lemma distinct_filter_iff:
  "distinct (map f (filter P xs)) \<longleftrightarrow>
     (\<forall>i<length xs. \<forall>j<length xs. P (xs ! i) \<and> P (xs ! j) \<and> f (xs ! i) = f (xs ! j) \<longrightarrow> i = j)" (is "_ \<longleftrightarrow> ?R xs")
proof (induction xs)
  case (Cons x xs)
  have mem: "f x \<notin> f ` set (filter P xs) \<longleftrightarrow> (\<forall>i<length xs. P (xs ! i) \<longrightarrow> f (xs ! i) \<noteq> f x)"
  proof -
    have "set (filter P xs) = {xs ! i | i. i < length xs \<and> P (xs ! i)}" unfolding set_filter by (auto simp: in_set_conv_nth)
    then show ?thesis by (auto simp: image_iff)
  qed
  have "?R (x # xs) \<longleftrightarrow> ?R xs \<and> (P x \<longrightarrow> (\<forall>i<length xs. P (xs ! i) \<longrightarrow> f (xs ! i) \<noteq> f x))"
    by (auto simp: All_less_Suc2 eq_commute)
  also have "\<dots> \<longleftrightarrow> distinct (map f (filter P (x # xs)))"
    unfolding Cons.IH [symmetric] using mem by auto
  finally show ?case ..
qed simp

lemma indexes_distinct: "indexes m P f xs \<Longrightarrow> distinct (map f (filter P xs))"
  unfolding distinct_filter_iff indexes_def by (metis option.inject)

lemma indexes_dom: "indexes m P f xs \<Longrightarrow> dom m = f ` set (filter P xs)"
  by (fastforce simp: indexes_def in_set_conv_nth)

lemma indexes_both:
  assumes "indexes m P f xs" and "indexes m' P f ys" and "dom m \<inter> dom m' = {}"
  shows "distinct (map f (filter P (ys @ xs)))"
proof -
  have "f ` set (filter P ys) \<inter> f ` set (filter P xs) = {}"
    using assms(3) unfolding indexes_dom [OF assms(1)] indexes_dom [OF assms(2)] by blast
  then show ?thesis
    using indexes_distinct [OF assms(1)] indexes_distinct [OF assms(2)] by (simp del: set_filter)
qed

lemma indexes_index_by:
  assumes "distinct (map f (filter P xs))"
  shows "indexes (index_by P f xs) P f xs"
proof -
  note d = assms [unfolded distinct_filter_iff]
  have "n \<le> length xs \<Longrightarrow>
      fold (\<lambda>i m. if P (xs ! i) then m(f (xs ! i) \<mapsto> i) else m) [0..<n] Map.empty k = Some i \<longleftrightarrow>
      i < n \<and> P (xs ! i) \<and> f (xs ! i) = k" for n k i
  proof (induction n arbitrary: i)
    case (Suc n)
    then show ?case using d by (auto simp: less_Suc_eq)
  qed simp
  then show ?thesis by (simp add: indexes_def index_by_def)
qed

lemma indexes_move:
  assumes "indexes m P f xs" and "i < length xs" and "P (xs ! i)" and "P y" and "f y = k" and "m k = None \<or> m k = Some i"
  shows "indexes (move_entry (f (xs ! i)) k i m) P f (xs[i := y])"
proof -
  have "m (f (xs ! i)) = Some i" using assms(1-3) by (simp add: indexes_def)
  then show ?thesis using assms unfolding indexes_def move_entry_def Let_def
    by (auto simp: nth_list_update) (metis option.distinct(1) option.inject)+
qed

lemma indexes_same:
  "indexes m P f xs \<Longrightarrow> P y = P (xs ! i) \<Longrightarrow> f y = f (xs ! i) \<Longrightarrow> indexes m P f (xs[i := y])"
  by (cases "i < length xs") (auto simp: indexes_def nth_list_update)

lemma indexes_add:
  assumes "indexes m P f xs" and "i < length xs" and "\<not> P (xs ! i) \<or> f (xs ! i) = k" and "P y" and "f y = k"
    and "m k = None \<or> m k = Some i"
  shows "indexes (m(k \<mapsto> i)) P f (xs[i := y])"
  using assms unfolding indexes_def by (auto simp: nth_list_update) (metis option.distinct(1) option.inject)+

lemma indexes_append:
  assumes "indexes m P f xs" and "m k = None" and "P y" and "f y = k"
  shows "indexes (m(k \<mapsto> length xs)) P f (xs @ [y])"
  using assms unfolding indexes_def by (auto simp: nth_append less_Suc_eq) (metis option.distinct(1))+

lemma indexes_append_other: "indexes m P f xs \<Longrightarrow> \<not> P y \<Longrightarrow> indexes m P f (xs @ [y])"
  unfolding indexes_def by (auto simp: nth_append less_Suc_eq)

section \<open>Addresses are stable under normalisation\<close>

lemma lower_char_other:
  assumes "\<not> (65 \<le> (of_char d :: nat) \<and> (of_char d :: nat) \<le> 90)" and "\<not> (97 \<le> (of_char d :: nat) \<and> (of_char d :: nat) \<le> 122)"
  shows "lower_char c = d \<longleftrightarrow> c = d"
proof (cases "65 \<le> (of_char c :: nat) \<and> (of_char c :: nat) \<le> 90")
  case True
  then have "(of_char (lower_char c) :: nat) = of_char c + 32"
    by (simp add: lower_char_def Let_def)
  then show ?thesis using True assms by auto
next
  case False
  then show ?thesis by (auto simp: lower_char_def Let_def)
qed

lemma space_chars: "\<forall>q\<in>set space_seqs. \<forall>d\<in>set q. \<forall>c. lower_char c = d \<longleftrightarrow> c = d"
proof (intro ballI allI)
  fix q d c
  assume "q \<in> set space_seqs" "d \<in> set q"
  then have "\<not> (65 \<le> (of_char d :: nat) \<and> (of_char d :: nat) \<le> 90) \<and> \<not> (97 \<le> (of_char d :: nat) \<and> (of_char d :: nat) \<le> 122)"
    by (auto simp: space_seqs_def)
  then show "lower_char c = d \<longleftrightarrow> c = d" using lower_char_other by blast
qed

lemma leading_lower:
  assumes "\<forall>q\<in>set seqs. \<forall>d\<in>set q. \<forall>c. lower_char c = d \<longleftrightarrow> c = d"
  shows "leading seqs (to_lower s) = None \<longleftrightarrow> leading seqs s = None"
proof -
  have "map lower_char xs = q \<longleftrightarrow> xs = q" if "q \<in> set seqs" for xs q
    using assms that by (auto simp: list_eq_iff_nth_eq)
  then show ?thesis unfolding leading_None_iff to_lower_def take_map by blast
qed

lemma trim_lower: "trim_space (to_lower (trim_space s)) = to_lower (trim_space s)"
proof -
  let ?x = "trim_space s"
  have l: "leading space_seqs ?x = None"
    by (simp add: trim_space_def leading_strip_right)
  have r: "leading (map rev space_seqs) (rev ?x) = None"
    by (simp add: trim_space_def strip_right_def)
  have "leading space_seqs (to_lower ?x) = None"
    using l leading_lower [OF space_chars] by blast
  moreover have "leading (map rev space_seqs) (to_lower (rev ?x)) = None"
    using r leading_lower [of "map rev space_seqs"] space_chars by auto
  then have "leading (map rev space_seqs) (rev (to_lower ?x)) = None"
    by (simp add: to_lower_def rev_map)
  ultimately show ?thesis
    by (simp add: trim_space_def [of "to_lower ?x"] strip_right_def strip_left_fixed)
qed

lemma normalizeEmail_idem [simp]: "normalizeEmail (normalizeEmail x) = normalizeEmail x"
  by (simp add: normalizeEmail_def trim_lower)

section \<open>The batch keeps its indexes exact\<close>

definition batch_ok :: "string \<Rightarrow> sync_batch \<Rightarrow> bool" where
  "batch_ok t b \<longleftrightarrow>
     indexes (sb_byEmail b) (of_tenant t) mail_key (sb_users b) \<and> indexes (sb_bySync b) (has_key t) sync_key (sb_users b) \<and>
     indexes (sb_newByEmail b) (of_tenant t) mail_key (sb_new b) \<and> indexes (sb_newBySync b) (has_key t) sync_key (sb_new b) \<and>
     list_all (of_tenant t) (sb_new b) \<and>
     dom (sb_byEmail b) \<inter> dom (sb_newByEmail b) = {} \<and> dom (sb_bySync b) \<inter> dom (sb_newBySync b) = {}"

lemma normalize_sync_mail: "normalize_sync inp = Some n \<Longrightarrow> normalizeEmail (bu_Email n) = bu_Email n"
  by (auto simp: normalize_sync_def Let_def split: if_splits sum.splits)

lemma apply_sync_keys:
  "us_TenantID (apply_sync n u) = us_TenantID u" "mail_key (apply_sync n u) = normalizeEmail (bu_Email n)"
  "sync_key (apply_sync n u) = (if input_key n \<noteq> '''' then input_key n else sync_key u)"
  by (simp_all add: apply_sync_def mail_key_def sync_key_def input_key_def)

lemma synced_user_keys:
  "us_TenantID (synced_user e i t n) = t" "mail_key (synced_user e i t n) = normalizeEmail (bu_Email n)"
  "sync_key (synced_user e i t n) = input_key n"
  by (simp_all add: synced_user_def mail_key_def sync_key_def input_key_def)

lemma batch_indexes:
  assumes "batch_ok t b"
  shows "sb_byEmail b x = Some j \<Longrightarrow> j < length (sb_users b) \<and> of_tenant t (sb_users b ! j)"
    "sb_bySync b x = Some j \<Longrightarrow> j < length (sb_users b) \<and> of_tenant t (sb_users b ! j)"
    "sb_newByEmail b x = Some j \<Longrightarrow> j < length (sb_new b) \<and> of_tenant t (sb_new b ! j)"
    "sb_newBySync b x = Some j \<Longrightarrow> j < length (sb_new b) \<and> of_tenant t (sb_new b ! j)"
    "sb_byEmail b x = None \<or> sb_newByEmail b x = None" "sb_bySync b x = None \<or> sb_newBySync b x = None"
  using assms by (auto simp: batch_ok_def indexes_def of_tenant_def has_key_def domIff)

text \<open>Where an input may go: its address and its key belong to nobody, or to the target already.\<close>

lemma target_existing:
  assumes "batch_ok t b" and "match_input b m k = Existing i"
  shows "i < length (sb_users b) \<and> of_tenant t (sb_users b ! i) \<and>
      (sb_byEmail b m = None \<or> sb_byEmail b m = Some i) \<and> sb_newByEmail b m = None \<and>
      (k \<noteq> '''' \<longrightarrow> (sb_bySync b k = None \<or> sb_bySync b k = Some i) \<and> sb_newBySync b k = None)"
  using assms(2) batch_indexes(1-4) [OF assms(1), of m i] batch_indexes(1-4) [OF assms(1), of k i]
    batch_indexes(5) [OF assms(1), of m] batch_indexes(6) [OF assms(1), of k]
  by (auto simp: match_input_def Let_def split: if_splits)

lemma target_created:
  assumes "batch_ok t b" and "match_input b m k = Created i"
  shows "i < length (sb_new b) \<and> of_tenant t (sb_new b ! i) \<and>
      (sb_newByEmail b m = None \<or> sb_newByEmail b m = Some i) \<and> sb_byEmail b m = None \<and>
      (k \<noteq> '''' \<longrightarrow> (sb_newBySync b k = None \<or> sb_newBySync b k = Some i) \<and> sb_bySync b k = None)"
  using assms(2) batch_indexes(1-4) [OF assms(1), of m i] batch_indexes(1-4) [OF assms(1), of k i]
    batch_indexes(5) [OF assms(1), of m] batch_indexes(6) [OF assms(1), of k]
  by (auto simp: match_input_def Let_def split: if_splits)

lemma target_new:
  assumes "match_input b m k = NewUser"
  shows "sb_byEmail b m = None \<and> sb_newByEmail b m = None \<and> (k \<noteq> '''' \<longrightarrow> sb_bySync b k = None \<and> sb_newBySync b k = None)"
  using assms by (auto simp: match_input_def Let_def split: if_splits)

text \<open>Both indexes after the target has been overwritten.\<close>

lemma indexes_apply:
  assumes "indexes mm (of_tenant t) mail_key xs" and "indexes mk (has_key t) sync_key xs" and "i < length xs" and "of_tenant t (xs ! i)"
    and "normalizeEmail (bu_Email n) = bu_Email n" and "mm (bu_Email n) = None \<or> mm (bu_Email n) = Some i"
    and "input_key n \<noteq> '''' \<longrightarrow> mk (input_key n) = None \<or> mk (input_key n) = Some i" and "\<not> key_clash (input_key n) (xs ! i)"
  shows "indexes (move_entry (mail_key (xs ! i)) (bu_Email n) i mm) (of_tenant t) mail_key (xs[i := apply_sync n (xs ! i)])"
    and "indexes (set_entry_if (input_key n) i mk) (has_key t) sync_key (xs[i := apply_sync n (xs ! i)])"
proof -
  have t: "us_TenantID (xs ! i) = t" using assms(4) by (simp add: of_tenant_def)
  show "indexes (move_entry (mail_key (xs ! i)) (bu_Email n) i mm) (of_tenant t) mail_key (xs[i := apply_sync n (xs ! i)])"
    by (rule indexes_move [OF assms(1,3,4)]) (use assms(5,6) t in \<open>simp_all add: of_tenant_def apply_sync_keys\<close>)
  show "indexes (set_entry_if (input_key n) i mk) (has_key t) sync_key (xs[i := apply_sync n (xs ! i)])"
  proof (cases "input_key n = ''''")
    case True
    then show ?thesis
      using assms(2) by (auto simp: set_entry_if_def apply_sync_keys has_key_def intro!: indexes_same)
  next
    case False
    then show ?thesis
      using assms(2,3,7,8) t by (auto simp: set_entry_if_def apply_sync_keys has_key_def key_clash_def intro!: indexes_add)
  qed
qed

lemma disjoint_entries:
  "dom m \<inter> dom m' = {} \<Longrightarrow> m' k = None \<Longrightarrow> dom (move_entry p k i m) \<inter> dom m' = {}"
  "dom m' \<inter> dom m = {} \<Longrightarrow> m' k = None \<Longrightarrow> dom m' \<inter> dom (move_entry p k i m) = {}"
  "dom m \<inter> dom m' = {} \<Longrightarrow> (k \<noteq> '''' \<longrightarrow> m' k = None) \<Longrightarrow> dom (set_entry_if k i m) \<inter> dom m' = {}"
  "dom m' \<inter> dom m = {} \<Longrightarrow> (k \<noteq> '''' \<longrightarrow> m' k = None) \<Longrightarrow> dom m' \<inter> dom (set_entry_if k i m) = {}"
  by (auto simp: move_entry_def set_entry_if_def Let_def disjoint_iff dom_def split: if_splits)

lemma sync_one_ok:
  assumes "batch_ok t b" and "sync_one e rs t inp b = Some b'"
  shows "batch_ok t b'"
proof (cases "normalize_sync inp")
  case None
  with assms(2) have "b' = reject b" by (simp add: sync_one_def)
  with assms(1) show ?thesis by (simp add: reject_def batch_ok_def)
next
  case (Some n)
  note m = normalize_sync_mail [OF Some]
  note B = assms(1) [unfolded batch_ok_def]
  have rej: "batch_ok t (reject b)" using assms(1) by (simp add: batch_ok_def reject_def)
  show ?thesis
  proof (cases "match_input b (bu_Email n) (input_key n)")
    case Conflict
    with Some assms(2) rej show ?thesis by (simp add: sync_one_def)
  next
    case (Existing i)
    note T = target_existing [OF assms(1) Existing]
    show ?thesis
    proof (cases "key_clash (input_key n) (sb_users b ! i)")
      case True
      with Some Existing assms(2) rej show ?thesis by (simp add: sync_one_def)
    next
      case False
      note I = indexes_apply [of "sb_byEmail b" t "sb_users b" "sb_bySync b" i n]
      have "dom (move_entry (mail_key (sb_users b ! i)) (bu_Email n) i (sb_byEmail b)) \<inter> dom (sb_newByEmail b) = {}"
        using B T by (intro disjoint_entries(1)) simp_all
      moreover have "dom (set_entry_if (input_key n) i (sb_bySync b)) \<inter> dom (sb_newBySync b) = {}"
        using B T by (intro disjoint_entries(3)) simp_all
      moreover have "b' = b\<lparr>sb_users := (sb_users b)[i := apply_sync n (sb_users b ! i)], sb_bySync := set_entry_if (input_key n) i (sb_bySync b),
          sb_byEmail := move_entry (mail_key (sb_users b ! i)) (bu_Email n) i (sb_byEmail b), sb_updated := Suc (sb_updated b)\<rparr>"
        using Some Existing False assms(2) by (simp add: sync_one_def Let_def)
      ultimately show ?thesis using B T I False m by (simp add: batch_ok_def)
    qed
  next
    case (Created i)
    note T = target_created [OF assms(1) Created]
    show ?thesis
    proof (cases "key_clash (input_key n) (sb_new b ! i)")
      case True
      with Some Created assms(2) rej show ?thesis by (simp add: sync_one_def)
    next
      case False
      note I = indexes_apply [of "sb_newByEmail b" t "sb_new b" "sb_newBySync b" i n]
      have "dom (sb_byEmail b) \<inter> dom (move_entry (mail_key (sb_new b ! i)) (bu_Email n) i (sb_newByEmail b)) = {}"
        using B T by (intro disjoint_entries(2)) simp_all
      moreover have "dom (sb_bySync b) \<inter> dom (set_entry_if (input_key n) i (sb_newBySync b)) = {}"
        using B T by (intro disjoint_entries(4)) simp_all
      moreover have "list_all (of_tenant t) ((sb_new b)[i := apply_sync n (sb_new b ! i)])"
        using B T by (intro list_all_update) (auto simp: of_tenant_def apply_sync_keys)
      moreover have "b' = b\<lparr>sb_new := (sb_new b)[i := apply_sync n (sb_new b ! i)], sb_newBySync := set_entry_if (input_key n) i (sb_newBySync b),
          sb_newByEmail := move_entry (mail_key (sb_new b ! i)) (bu_Email n) i (sb_newByEmail b)\<rparr>"
        using Some Created False assms(2) by (simp add: sync_one_def Let_def)
      ultimately show ?thesis using B T I False m by (simp add: batch_ok_def)
    qed
  next
    case NewUser
    note T = target_new [OF NewUser]
    from Some NewUser assms(2) obtain h where h: "rs (sb_created b) = Some h" by (auto simp: sync_one_def split: option.splits)
    let ?u = "synced_user e (''usr_'' @ h) t n" and ?k = "length (sb_new b)"
    have "indexes ((sb_newByEmail b)(bu_Email n \<mapsto> ?k)) (of_tenant t) mail_key (sb_new b @ [?u])"
      using B T m by (intro indexes_append) (simp_all add: of_tenant_def synced_user_keys)
    moreover have "indexes (set_entry_if (input_key n) ?k (sb_newBySync b)) (has_key t) sync_key (sb_new b @ [?u])"
    proof (cases "input_key n = ''''")
      case True
      then have "\<not> has_key t ?u" by (simp add: has_key_def synced_user_keys)
      with True show ?thesis using B by (simp add: set_entry_if_def indexes_append_other)
    next
      case False
      then have "has_key t ?u" by (simp add: has_key_def synced_user_keys)
      with False show ?thesis using B T by (simp add: set_entry_if_def indexes_append synced_user_keys)
    qed
    moreover have "dom (sb_bySync b) \<inter> dom (set_entry_if (input_key n) ?k (sb_newBySync b)) = {}"
      using B T by (intro disjoint_entries(4)) simp_all
    moreover have "b' = b\<lparr>sb_new := sb_new b @ [?u], sb_newByEmail := (sb_newByEmail b)(bu_Email n \<mapsto> ?k),
        sb_newBySync := set_entry_if (input_key n) ?k (sb_newBySync b), sb_created := Suc (sb_created b)\<rparr>"
      using Some NewUser assms(2) h by (simp add: sync_one_def Let_def)
    ultimately show ?thesis using B T by (auto simp: batch_ok_def of_tenant_def synced_user_keys domIff)
  qed
qed

lemma sync_loop_ok: "sync_loop e rs t inps b = Some b' \<Longrightarrow> batch_ok t b \<Longrightarrow> batch_ok t b'"
  by (induction inps arbitrary: b) (auto split: option.splits dest: sync_one_ok)

text \<open>Users of other tenants are not touched.\<close>

lemma sync_one_others:
  assumes "batch_ok t b" and "sync_one e rs t inp b = Some b'" and "u \<noteq> t"
  shows "filter (of_tenant u) (sb_users b') = filter (of_tenant u) (sb_users b)"
proof (cases "normalize_sync inp")
  case None
  with assms(2) show ?thesis by (auto simp: sync_one_def reject_def)
next
  case (Some n)
  show ?thesis
  proof (cases "match_input b (bu_Email n) (input_key n)")
    case (Existing i)
    note T = target_existing [OF assms(1) Existing]
    with assms(2,3) Some Existing show ?thesis
      by (auto simp: sync_one_def reject_def Let_def of_tenant_def apply_sync_keys intro!: filter_update_other split: if_splits)
  qed (use assms(2) Some in \<open>auto simp: sync_one_def reject_def Let_def split: if_splits option.splits\<close>)
qed

lemma sync_loop_others:
  "sync_loop e rs t inps b = Some b' \<Longrightarrow> batch_ok t b \<Longrightarrow> u \<noteq> t \<Longrightarrow>
   filter (of_tenant u) (sb_users b') = filter (of_tenant u) (sb_users b)"
proof (induction inps arbitrary: b)
  case (Cons inp inps)
  then obtain b1 where b1: "sync_one e rs t inp b = Some b1" "sync_loop e rs t inps b1 = Some b'"
    by (auto split: option.splits)
  from Cons.IH [OF b1(2) sync_one_ok [OF Cons.prems(2) b1(1)] Cons.prems(3)] sync_one_others [OF Cons.prems(2) b1(1) Cons.prems(3)]
  show ?case by simp
qed simp

section \<open>Unique identities\<close>

definition identities_unique :: "accessUser list \<Rightarrow> bool" where
  "identities_unique us \<longleftrightarrow>
     distinct (map (\<lambda>u. (us_TenantID u, mail_key u)) us) \<and>
     distinct (map (\<lambda>u. (us_TenantID u, sync_key u)) (filter (\<lambda>u. sync_key u \<noteq> '''') us))"

definition identity :: "accessUser \<Rightarrow> string \<times> string \<times> string" where
  "identity u = (us_TenantID u, mail_key u, sync_key u)"

lemma identities_cong:
  assumes "map identity us = map identity vs"
  shows "identities_unique us = identities_unique vs"
proof -
  have F: "identities_unique us \<longleftrightarrow> distinct (map (\<lambda>(t, m, k). (t, m)) (map identity us)) \<and>
      distinct (map (\<lambda>(t, m, k). (t, k)) (filter (\<lambda>(t, m, k). k \<noteq> '''') (map identity us)))" for us
    by (simp add: identities_unique_def identity_def filter_map comp_def case_prod_unfold)
  show ?thesis by (simp only: F assms)
qed

lemma distinct_by_tenant:
  "distinct (map (\<lambda>u. (us_TenantID u, f u)) (filter Q us)) \<longleftrightarrow> (\<forall>t. distinct (map f (filter (\<lambda>u. us_TenantID u = t \<and> Q u) us)))"
proof (induction us)
  case (Cons a us)
  then show ?case by (auto simp: image_iff) metis+
qed simp

lemma identities_by_tenant:
  "identities_unique us \<longleftrightarrow>
     (\<forall>t. distinct (map mail_key (filter (of_tenant t) us)) \<and> distinct (map sync_key (filter (has_key t) us)))"
  using distinct_by_tenant [of mail_key "\<lambda>_. True" us] distinct_by_tenant [of sync_key "\<lambda>u. sync_key u \<noteq> ''''" us]
  by (auto simp: identities_unique_def of_tenant_def [abs_def] has_key_def [abs_def])

lemma identities_filter: "identities_unique us \<Longrightarrow> identities_unique (filter P us)"
  by (auto simp: identities_unique_def distinct_map inj_on_def)

lemma identities_remove_at: "identities_unique us \<Longrightarrow> i < length us \<Longrightarrow> identities_unique (remove_at i us)"
proof -
  assume u: "identities_unique us" and i: "i < length us"
  have "identities_unique (take i us @ us ! i # drop (Suc i) us)" using u i by (simp add: id_take_nth_drop [symmetric])
  then show ?thesis by (auto simp: identities_unique_def remove_at_def split: if_splits)
qed

lemma batch_unique:
  assumes "identities_unique us" and "sync_loop e rs t inps (start_batch t us) = Some b"
  shows "identities_unique (sb_new b @ sb_users b)"
proof -
  have d: "distinct (map mail_key (filter (of_tenant t) us))" "distinct (map sync_key (filter (has_key t) us))"
    using assms(1) by (simp_all add: identities_by_tenant)
  have start: "batch_ok t (start_batch t us)"
    using indexes_index_by [OF d(1)] indexes_index_by [OF d(2)]
    by (simp add: batch_ok_def start_batch_def) (simp add: indexes_def)
  note b = sync_loop_ok [OF assms(2) start, unfolded batch_ok_def]
  have other: "filter (of_tenant u) (sb_new b @ sb_users b) = filter (of_tenant u) us" if "u \<noteq> t" for u
    using sync_loop_others [OF assms(2) start that] b that
    by (auto simp: start_batch_def of_tenant_def list_all_iff filter_empty_conv)
  have k: "filter (has_key u) xs = filter (\<lambda>x. sync_key x \<noteq> '''') (filter (of_tenant u) xs)" for u xs
    unfolding has_key_def [abs_def] of_tenant_def [abs_def] by (simp add: conj_commute)
  show ?thesis
    unfolding identities_by_tenant
  proof (intro allI conjI)
    fix u
    have "distinct (map mail_key (filter (of_tenant t) (sb_new b @ sb_users b)))"
      by (rule indexes_both [of "sb_byEmail b" _ _ _ "sb_newByEmail b"]) (simp_all only: b)
    moreover have "distinct (map sync_key (filter (has_key t) (sb_new b @ sb_users b)))"
      by (rule indexes_both [of "sb_bySync b" _ _ _ "sb_newBySync b"]) (simp_all only: b)
    ultimately show "distinct (map mail_key (filter (of_tenant u) (sb_new b @ sb_users b)))"
      "distinct (map sync_key (filter (has_key u) (sb_new b @ sb_users b)))"
      using assms(1) other [of u] unfolding identities_by_tenant k by (cases "u = t"; simp)+
  qed
qed

lemma apply_user_identity:
  "mail_key u = normalizeEmail (ui_Email inp) \<Longrightarrow> identity (apply_user inp st u) = identity u"
  by (simp add: identity_def apply_user_def mail_key_def sync_key_def)

lemma UpsertUserByEmail_unique:
  assumes "identities_unique (ac_users s)"
  shows "identities_unique (ac_users (snd (UpsertUserByEmail e t inp s)))"
proof -
  let ?P = "\<lambda>u. us_TenantID u = trim_space t \<and> normalizeEmail (us_Email u) = normalizeEmail (ui_Email inp)"
  have upd: "identities_unique ((ac_users s)[i := apply_user inp st (ac_users s ! i)])" if "find_idx ?P (ac_users s) = Some i" for i st
  proof -
    have "mail_key (ac_users s ! i) = normalizeEmail (ui_Email inp)"
      using find_idx_SomeD(2) [OF that] by (simp add: mail_key_def)
    then have "map identity ((ac_users s)[i := apply_user inp st (ac_users s ! i)]) = map identity (ac_users s)"
      by (intro map_update_same apply_user_identity)
    from identities_cong [OF this] assms show ?thesis by simp
  qed
  have new: "identities_unique (new_user e i (trim_space t) inp st # ac_users s)" if "find_idx ?P (ac_users s) = None" for i st
  proof -
    have "sync_key (new_user e i (trim_space t) inp st) = ''''"
      by (simp add: new_user_def sync_key_def accessSyncIdentityKey_def normalizeSyncSource_def)
    moreover have "(trim_space t, mail_key (new_user e i (trim_space t) inp st)) \<notin> (\<lambda>u. (us_TenantID u, mail_key u)) ` set (ac_users s)"
      using that by (auto simp: find_idx_None_iff mail_key_def new_user_def)
    ultimately show ?thesis using assms by (simp add: identities_unique_def new_user_def)
  qed
  show ?thesis
    using assms by (auto simp: UpsertUserByEmail_def Let_def intro: upd new split: sum.splits option.splits)
qed

lemma UpsertUsersByEmail_unique:
  assumes "identities_unique (ac_users s)"
  shows "identities_unique (ac_users (snd (UpsertUsersByEmail e rs t inps s)))"
  using assms batch_unique [OF assms]
  by (auto simp: UpsertUsersByEmail_def Let_def save_or_undo_state split: option.splits)

lemma import_one_unique:
  "identities_unique (ac_users (snd acc)) \<Longrightarrow> identities_unique (ac_users (snd (import_one t er acc)))"
proof -
  assume u: "identities_unique (ac_users (snd acc))"
  obtain e r n s where [simp]: "er = (e, r)" "acc = (n, s)" by (cases er, cases acc)
  have "identities_unique (ac_users (snd (UpsertUserByEmail e t (import_input r) s)))"
    using u by (intro UpsertUserByEmail_unique) simp
  with u show ?thesis by (auto simp: import_one_def split: prod.splits sum.splits)
qed

lemma ImportUsersCSV_unique:
  assumes "identities_unique (ac_users s)"
  shows "identities_unique (ac_users (snd (ImportUsersCSV es t rs s)))"
proof -
  have "identities_unique (ac_users (snd acc)) \<Longrightarrow> identities_unique (ac_users (snd (fold (import_one u) ers acc)))" for u ers acc
    by (induction ers arbitrary: acc) (simp_all add: import_one_unique)
  from this [of "(n, s)" for n] assms show ?thesis
    by (auto simp: ImportUsersCSV_def Let_def split: prod.splits) (metis snd_conv)
qed

lemma CreateUserInvitationDelivery_users [simp]: "ac_users (snd (CreateUserInvitationDelivery e t u m s)) = ac_users s"
  by (simp add: CreateUserInvitationDelivery_def Let_def split: sum.splits option.splits)

lemma invite_one_users: "ac_users (snd (invite_one t m eu acc)) = ac_users (snd acc)"
proof -
  obtain e u k ids s where [simp]: "eu = (e, u)" "acc = ((k, ids), s)" by (cases eu, cases acc, cases "fst acc") auto
  show ?thesis
    using CreateUserInvitationDelivery_users [of e t "us_ID u" m s]
    by (auto simp: invite_one_def simp del: CreateUserInvitationDelivery_users split: prod.splits sum.splits)
qed

lemma BatchInviteUsers_users [simp]: "ac_users (snd (BatchInviteUsers es t ids m s)) = ac_users s"
proof -
  have "ac_users (snd (fold (invite_one u mm) eus acc)) = ac_users (snd acc)" for u mm eus acc
    by (induction eus arbitrary: acc) (simp_all add: invite_one_users)
  from this [of _ _ _ "((0, []), s)"] show ?thesis
    by (auto simp: BatchInviteUsers_def Let_def split: prod.splits sum.splits) (metis snd_conv)+
qed

lemma group_step_unique:
  assumes "identities_unique (ac_users s)"
  shows "identities_unique (ac_users (group_step e op s))"
proof (cases op)
  case (OpDeleteUser t u)
  then show ?thesis
    using assms by (auto simp: DeleteUser_def Let_def save_or_undo_state intro!: identities_remove_at dest: find_user_SomeD split: option.splits)
next
  case (OpBatchDeleteUsers t us)
  then show ?thesis using assms by (auto simp: BatchDeleteUsers_def Let_def intro: identities_filter)
next
  case (OpDeleteUserGroup t g)
  have "map identity (map (\<lambda>u. u\<lparr>us_GroupIDs := f u\<rparr>) us) = map identity us" for f us
    by (simp add: identity_def mail_key_def sync_key_def)
  from identities_cong [OF this] show ?thesis
    using assms OpDeleteUserGroup by (auto simp: DeleteUserGroup_def Let_def save_or_undo_state split: option.splits)
qed (use assms in \<open>simp_all add: group_op_defs Let_def save_or_undo_state split: sum.splits option.splits\<close>)

datatype sync_op =
    OpUpsertUser string user_input
  | OpUpsertUsers reads string "batchUpsertUserByEmailInput list"
  | OpImport "nat \<Rightarrow> env" string "userImportRecord list"
  | OpInvite string string string
  | OpBatchInvite "nat \<Rightarrow> env" string "string list" string
  | OpReceipt string string string receipt_input
  | OpCancelInvite string string
  | OpResendInvite string string
  | OpGroup group_op

fun sync_step :: "env \<Rightarrow> sync_op \<Rightarrow> accessService \<Rightarrow> accessService" where
  "sync_step e (OpUpsertUser t inp) s = snd (UpsertUserByEmail e t inp s)"
| "sync_step e (OpUpsertUsers rs t inps) s = snd (UpsertUsersByEmail e rs t inps s)"
| "sync_step e (OpImport es t rs) s = snd (ImportUsersCSV es t rs s)"
| "sync_step e (OpInvite t u m) s = snd (CreateUserInvitationDelivery e t u m s)"
| "sync_step e (OpBatchInvite es t us m) s = snd (BatchInviteUsers es t us m s)"
| "sync_step e (OpReceipt t u d inp) s = snd (RecordUserInvitationReceipt e t u d inp s)"
| "sync_step e (OpCancelInvite t d) s = snd (CancelInvitationDelivery e t d s)"
| "sync_step e (OpResendInvite t d) s = snd (ResendInvitationDelivery e t d s)"
| "sync_step e (OpGroup op) s = group_step e op s"

definition sync_run :: "(env \<times> sync_op) list \<Rightarrow> accessService \<Rightarrow> accessService" where
  "sync_run ops s = fold (\<lambda>(e, op). sync_step e op) ops s"

lemma sync_step_unique:
  assumes "identities_unique (ac_users s)"
  shows "identities_unique (ac_users (sync_step e op s))"
  using assms
  by (cases op)
    (auto simp: UpsertUserByEmail_unique UpsertUsersByEmail_unique ImportUsersCSV_unique group_step_unique RecordUserInvitationReceipt_def
      CancelInvitationDelivery_def ResendInvitationDelivery_def Let_def split: sum.splits option.splits)

section \<open>Accounting of a batch\<close>

lemma sync_one_counts:
  assumes "sync_one e rs t inp b = Some b'"
  shows "length (sb_users b') = length (sb_users b)" "length (sb_new b') + sb_created b = length (sb_new b) + sb_created b'"
    "sb_created b' + sb_updated b' + sb_rejected b' \<le> Suc (sb_created b + sb_updated b + sb_rejected b)"
  using assms by (auto simp: sync_one_def reject_def Let_def split: option.splits sync_target.splits if_splits)

lemma sync_loop_counts:
  assumes "sync_loop e rs t inps b = Some b'"
  shows "length (sb_users b') = length (sb_users b) \<and> length (sb_new b') + sb_created b = length (sb_new b) + sb_created b' \<and>
    sb_created b' + sb_updated b' + sb_rejected b' \<le> length inps + sb_created b + sb_updated b + sb_rejected b"
  using assms
proof (induction inps arbitrary: b)
  case (Cons inp inps)
  then obtain b1 where b1: "sync_one e rs t inp b = Some b1" "sync_loop e rs t inps b1 = Some b'"
    by (auto split: option.splits)
  from Cons.IH [OF b1(2)] sync_one_counts [OF b1(1)] show ?case by simp
qed simp

lemma upsert_accounting:
  assumes "fst (UpsertUsersByEmail e rs t inps s) = Inr (c, u, r)"
  shows "length (ac_users (snd (UpsertUsersByEmail e rs t inps s))) = length (ac_users s) + c \<and> c + u + r \<le> length inps"
proof (cases "inps = []")
  case True
  with assms show ?thesis by (auto simp: UpsertUsersByEmail_def Let_def split: if_splits)
next
  case False
  from assms False obtain b where b: "sync_loop e rs (trim_space t) inps (start_batch (trim_space t) (ac_users s)) = Some b"
    and t: "trim_space t \<noteq> ''''"
    by (auto simp: UpsertUsersByEmail_def Let_def split: if_splits option.splits)
  from assms t False b show ?thesis
    using sync_loop_counts [OF b]
    by (auto simp: UpsertUsersByEmail_def Let_def start_batch_def save_or_undo_state save_or_undo_value split: if_splits)
qed

section \<open>Properties\<close>

text \<open>
  C11: Directory synchronisation keeps identities apart.  When no two users of a tenant share an e-mail address
  or a synchronisation key, then none do after any run of synchronisation batches, single
  upserts, imports, invitations, deletions and changes of groups and teams, failing saves and failing random reads included.
\<close>

theorem sync_identities_unique:
  assumes "identities_unique (ac_users s)"
  shows "identities_unique (ac_users (sync_run ops s))"
  using assms unfolding sync_run_def
proof (induction ops arbitrary: s)
  case (Cons eo ops)
  obtain e op where "eo = (e, op)" by fastforce
  with Cons.IH [OF sync_step_unique [OF Cons.prems]] show ?case by simp
qed simp

definition demo_sync :: "string \<Rightarrow> string \<Rightarrow> string \<Rightarrow> batchUpsertUserByEmailInput" where
  "demo_sync name email ref =
     \<lparr>bu_BuildingID = '''', bu_Name = name, bu_Email = email, bu_Role = '''', bu_Status = '''', bu_GroupIDs = [],
      bu_SyncSource = (if ref = '''' then '''' else ''Okta''), bu_SyncRef = ref\<rparr>"

text \<open>Eve moves to a new address, Ana is created under Eve's old one, and a second record for Ana under
  another key is rejected.\<close>

definition demo_batches :: "(env \<times> sync_op) list" where
  "demo_batches =
     [(dir_env, OpUpsertUsers (\<lambda>k. Some (show_nat k)) ''t1'' [demo_sync ''Eve'' ''eve@x.io'' ''1'']),
      (dir_env, OpUpsertUsers (\<lambda>k. Some (show_nat (7 + k))) ''t1''
         [demo_sync ''Eve'' ''eva@x.io'' ''1'', demo_sync ''Ana'' ''Eve@x.io'' ''2'', demo_sync ''Ana'' ''eve@x.io '' ''3''])]"

lemma demo_batches_users:
  "map (\<lambda>u. (us_ID u, us_Email u, us_SyncRef u)) (ac_users (sync_run demo_batches demo_directory)) =
     [(''usr_7'', ''eve@x.io'', ''2''), (''usr_0'', ''eva@x.io'', ''1'')]"
  by code_simp

theorem sync_identities_unique_witness:
  "identities_unique (ac_users (sync_run demo_batches demo_directory)) \<and>
   map us_Email (ac_users (sync_run demo_batches demo_directory)) = [''eve@x.io'', ''eva@x.io'']"
proof -
  have "identities_unique (ac_users demo_directory)" by (simp add: identities_unique_def demo_directory_def)
  from sync_identities_unique [OF this, of demo_batches] demo_batches_users
  show ?thesis by (auto simp: map_eq_Cons_conv)
qed

section \<open>What the code leaves open\<close>

text \<open>A record of a batch that updates a user created by the same batch is counted nowhere.\<close>

lemma batch_update_uncounted:
  "fst (UpsertUsersByEmail dir_env (\<lambda>k. Some (show_nat k)) ''t1''
     [demo_sync ''Eve'' ''eve@x.io'' ''1'', demo_sync ''Eve'' ''eva@x.io'' ''1''] demo_directory) = Inr (1, 0, 0)"
  by code_simp

text \<open>Two references of two sources can have one key.\<close>

lemma sync_keys_collide: "accessSyncIdentityKey ''a:b'' ''c'' = accessSyncIdentityKey ''a'' ''b:c''"
  by code_simp

definition employee_at :: "string \<Rightarrow> user_input" where
  "employee_at email = \<lparr>ui_BuildingID = '''', ui_Name = ''Eve'', ui_Email = email, ui_Role = '''', ui_Status = '''', ui_GroupIDs = []\<rparr>"

text \<open>Creating users does not look for the address, so it can break what synchronisation keeps.\<close>

lemma create_user_repeats_address:
  "\<not> identities_unique (ac_users (dir_step (dir_env\<lparr>env_rand := Some ''0f''\<rparr>)
     (UserCreate ''t1'' (employee_at ''EVE@x.io'')) (dir_step dir_env (UserCreate ''t1'' (employee_at ''eve@x.io'')) demo_directory)))"
  by code_simp

end
