(* ===== verification/Access_Writers.thy ===== *)
theory Access_Writers
  imports Access_Grants Access_Sync
begin

text \<open>
  Every operation of the access module that writes users, guests or role assignments, in one run:
  the directory operations, those of groups, teams, links and deleted users, transfers of
  organisations, single upserts, imports, synchronisation batches and invitations, and reviews of access
  rights.  The shape that the directory validates on input survives them all.
\<close>

section \<open>The writers\<close>

datatype writer_op =
    OnAccess access_op | OnSync sync_op | OnReview string "string list" "string list" string

fun writer_step :: "env \<Rightarrow> writer_op \<Rightarrow> accessService \<Rightarrow> accessService" where
  "writer_step e (OnAccess op) s = access_step e op s"
| "writer_step e (OnSync op) s = sync_step e op s"
| "writer_step e (OnReview t ras shs who) s = snd (ReviewAccessRights e t ras shs who s)"

definition writer_run :: "(env \<times> writer_op) list \<Rightarrow> accessService \<Rightarrow> accessService" where
  "writer_run ops s = fold (\<lambda>(e, op). writer_step e op) ops s"

section \<open>Users\<close>

lemma list_all_filter: "list_all P xs \<Longrightarrow> list_all P (filter Q xs)"
  by (simp add: list_all_iff)

lemma list_all_mapI: "list_all P xs \<Longrightarrow> (\<And>x. P x \<Longrightarrow> P (f x)) \<Longrightarrow> list_all P (map f xs)"
  by (simp add: list_all_iff)

lemma list_all_update_nth: "list_all P xs \<Longrightarrow> (P (xs ! i) \<Longrightarrow> P y) \<Longrightarrow> list_all P (xs[i := y])"
  by (cases "i < length xs") (auto intro: list_all_update list_all_nth' simp: list_update_beyond)

lemma user_ok_groups: "user_ok u \<Longrightarrow> user_ok (u\<lparr>us_GroupIDs := removeID (us_GroupIDs u) g\<rparr>)"
  by (simp add: user_ok_def removeID_def)

lemma user_ok_moved: "user_ok u \<Longrightarrow> t \<noteq> '''' \<Longrightarrow> user_ok (u\<lparr>us_TenantID := t\<rparr>)"
  by (simp add: user_ok_def)

lemma group_step_directory:
  assumes "directory_ok s"
  shows "directory_ok (group_step e op s)"
  using assms
  by (cases op) (auto simp: group_op_defs Let_def save_or_undo_state directory_ok_def
      intro: list_all_filter list_all_remove_at list_all_mapI user_ok_groups split: sum.splits option.splits)

lemma transfer_directory:
  assumes "directory_ok s"
  shows "directory_ok (snd (TransferOrganization e a b s))"
  using assms
  by (auto simp: TransferOrganization_def Let_def directory_ok_def assignment_ok_def
      intro!: list_all_map_if user_ok_moved)

lemma access_step_directory:
  assumes "directory_ok s"
  shows "directory_ok (access_step e op s)"
proof (cases op)
  case (Dir x)
  with assms show ?thesis by (simp add: directory_ok_def directory_users directory_guests directory_assignments)
qed (use assms in \<open>simp_all add: group_step_directory transfer_directory\<close>)

section \<open>Synchronisation\<close>

lemma UpsertUserByEmail_directory:
  assumes "directory_ok s"
  shows "directory_ok (snd (UpsertUserByEmail e t inp s))"
  using assms
  by (auto simp: UpsertUserByEmail_def Let_def directory_ok_def intro: list_all_update_nth user_record_ok
      split: sum.splits option.splits)

lemma normalize_sync_ok:
  assumes "normalize_sync inp = Some n"
  shows "user_ok u \<Longrightarrow> user_ok (apply_sync n u)" and "t \<noteq> '''' \<Longrightarrow> user_ok (synced_user e i t n)"
  using assms
  by (auto simp: normalize_sync_def Let_def apply_sync_def synced_user_def user_ok_def
      dest!: normalizeUserStatus_range split: if_splits sum.splits)

lemma sync_one_directory:
  assumes "sync_one e rs t inp b = Some b'" and "list_all user_ok (sb_users b)" and "list_all user_ok (sb_new b)"
    and "t \<noteq> ''''"
  shows "list_all user_ok (sb_users b') \<and> list_all user_ok (sb_new b')"
  using assms
  by (auto simp: sync_one_def Let_def reject_def intro!: list_all_update_nth normalize_sync_ok
      split: option.splits sync_target.splits if_splits)

lemma sync_loop_directory:
  "sync_loop e rs t inps b = Some b' \<Longrightarrow> list_all user_ok (sb_users b) \<Longrightarrow> list_all user_ok (sb_new b) \<Longrightarrow>
   t \<noteq> '''' \<Longrightarrow> list_all user_ok (sb_users b') \<and> list_all user_ok (sb_new b')"
proof (induction inps arbitrary: b)
  case (Cons inp inps)
  then obtain b1 where b1: "sync_one e rs t inp b = Some b1" "sync_loop e rs t inps b1 = Some b'"
    by (auto split: option.splits)
  from Cons.IH [OF b1(2)] sync_one_directory [OF b1(1) Cons.prems(2-4)] Cons.prems(4) show ?case by blast
qed simp

lemma UpsertUsersByEmail_directory:
  assumes "directory_ok s"
  shows "directory_ok (snd (UpsertUsersByEmail e rs t inps s))"
proof -
  have "list_all user_ok (sb_new b @ sb_users b)"
    if "sync_loop e rs (trim_space t) inps (start_batch (trim_space t) (ac_users s)) = Some b" "trim_space t \<noteq> ''''" for b
    using sync_loop_directory [OF that(1) _ _ that(2)] assms by (simp add: start_batch_def directory_ok_def)
  with assms show ?thesis
    by (auto simp: UpsertUsersByEmail_def Let_def save_or_undo_state directory_ok_def split: option.splits)
qed

lemma ImportUsersCSV_directory:
  assumes "directory_ok s"
  shows "directory_ok (snd (ImportUsersCSV es t rs s))"
proof -
  have one: "directory_ok (snd acc) \<Longrightarrow> directory_ok (snd (import_one u er acc))" for u er acc
    using UpsertUserByEmail_directory [of "snd acc" "fst er" u "import_input (snd er)"]
    by (auto simp: import_one_def case_prod_unfold split: sum.splits prod.splits)
  have "directory_ok (snd acc) \<Longrightarrow> directory_ok (snd (fold (import_one u) ers acc))" for u ers acc
    by (induction ers arbitrary: acc) (simp_all add: one)
  from this [of "(n, s)" for n] assms show ?thesis
    by (auto simp: ImportUsersCSV_def Let_def split: prod.splits) (metis snd_conv)
qed

lemma invitations_frame:
  "ac_guests (snd (CreateUserInvitationDelivery e t u m s)) = ac_guests s"
  "ac_roleAssignments (snd (CreateUserInvitationDelivery e t u m s)) = ac_roleAssignments s"
  by (simp_all add: CreateUserInvitationDelivery_def Let_def split: sum.splits option.splits)

lemma invite_directory: "directory_ok (snd (CreateUserInvitationDelivery e t u m s)) = directory_ok s"
  by (simp add: directory_ok_def invitations_frame)

lemma BatchInviteUsers_directory:
  assumes "directory_ok s"
  shows "directory_ok (snd (BatchInviteUsers es t us m s))"
proof -
  have one: "directory_ok (snd (invite_one u mm eu acc)) = directory_ok (snd acc)" for u mm eu acc
    using invite_directory [of "fst eu" u "us_ID (snd eu)" mm "snd acc"]
    by (auto simp: invite_one_def case_prod_unfold split: sum.splits prod.splits)
  have "directory_ok (snd acc) \<Longrightarrow> directory_ok (snd (fold (invite_one u mm) eus acc))" for u mm eus acc
    by (induction eus arbitrary: acc) (simp_all add: one)
  from this [of "(k, s)" for k] assms show ?thesis
    by (auto simp: BatchInviteUsers_def Let_def split: prod.splits sum.splits) (metis snd_conv)+
qed

lemma sync_step_directory:
  assumes "directory_ok s"
  shows "directory_ok (sync_step e op s)"
proof (cases op)
  case (OpReceipt t u d inp)
  with assms show ?thesis
    by (auto simp: RecordUserInvitationReceipt_def Let_def directory_ok_def split: sum.splits option.splits)
next
  case (OpCancelInvite t d)
  with assms show ?thesis
    by (auto simp: CancelInvitationDelivery_def Let_def directory_ok_def split: option.splits)
next
  case (OpResendInvite t d)
  with assms show ?thesis
    by (auto simp: ResendInvitationDelivery_def Let_def invite_directory split: option.splits)
qed (use assms in \<open>simp_all add: UpsertUserByEmail_directory UpsertUsersByEmail_directory ImportUsersCSV_directory
      invite_directory BatchInviteUsers_directory group_step_directory\<close>)

section \<open>Reviews\<close>

lemma review_loop_all:
  assumes "list_all Q xs" and "\<And>x. Q x \<Longrightarrow> Q (f x)"
  shows "list_all Q (fst (review_loop P f k il xs))"
  using assms(1)
proof (induction il arbitrary: xs)
  case (Cons i il)
  have "list_all Q (xs[i := f (xs ! i)])" by (rule list_all_update_nth [OF Cons.prems]) (rule assms(2))
  with Cons show ?case by (auto simp: case_prod_unfold Let_def split: if_splits)
qed simp

lemma ReviewAccessRights_directory:
  assumes "directory_ok s"
  shows "directory_ok (snd (ReviewAccessRights e t ras shs who s))"
proof -
  have "list_all assignment_ok (fst (review_loop P (mark_assignment e w) k il (ac_roleAssignments s)))" for P w k il
    by (rule review_loop_all) (use assms in \<open>simp_all add: directory_ok_def assignment_ok_def mark_assignment_def\<close>)
  with assms show ?thesis
    by (auto simp: ReviewAccessRights_def Let_def save_or_undo_state directory_ok_def split: option.splits prod.splits)
      (metis fst_conv)+
qed

lemma writer_step_directory: "directory_ok s \<Longrightarrow> directory_ok (writer_step e op s)"
  by (cases op) (simp_all add: access_step_directory sync_step_directory ReviewAccessRights_directory)

section \<open>Properties\<close>

text \<open>
  C36: Every role assignment the directory holds names a built-in role, at the level that
  role applies to, for a non-empty object and assignee; every user has a tenant, a name, an address,
  a known status and no repeated group; every guest has a known status and a token that
  runs out between one hour and 72 hours after registration.  Any run of the operations that write
  users, guests or role assignments keeps this, failing operations, failing saves and failing
  random reads included: creating, changing and deleting users one by one and in batches, single
  upserts, imports and synchronisation batches, guests, role assignments, groups, teams and links, reviews of
  access rights, invitations, and transfers of organisations.  (The reload of a stored snapshot at
  start-up is the state the run begins in.)
\<close>

theorem directory_valid:
  assumes "directory_ok s"
  shows "directory_ok (writer_run ops s)"
  using assms unfolding writer_run_def
proof (induction ops arbitrary: s)
  case (Cons eo ops)
  obtain e op where "eo = (e, op)" by fastforce
  with Cons.IH [OF writer_step_directory [OF Cons.prems]] show ?case by simp
qed simp

text \<open>A role assignment, a batch with a record that is rejected for its status, the deletion of a user, and
  the transfer of the tenant.\<close>

definition demo_writers :: "(env \<times> writer_op) list" where
  "demo_writers =
     [(dir_env, OnAccess (Dir (RoleCreate demo_role))),
      (dir_env, OnSync (OpUpsertUsers (\<lambda>k. Some (if k = 0 then ''a'' else ''b'')) ''t1''
         [demo_sync ''Eve'' ''eve@x.io'' ''1'', (demo_sync ''Ana'' ''ana@x.io'' '''')\<lparr>bu_Status := ''gone''\<rparr>,
          demo_sync ''Bo'' ''bo@x.io'' ''''])),
      (dir_env, OnAccess (Grp (OpDeleteUser ''t1'' ''usr_b''))), (dir_env, OnAccess (Org ''t1'' ''t2''))]"

theorem directory_valid_witness:
  "directory_ok (writer_run demo_writers demo_directory) \<and>
   map (\<lambda>u. (us_Name u, us_TenantID u)) (ac_users (writer_run demo_writers demo_directory)) = [(''Eve'', ''t2'')]"
proof
  show "directory_ok (writer_run demo_writers demo_directory)"
    by (rule directory_valid [OF demo_directory_ok])
  show "map (\<lambda>u. (us_Name u, us_TenantID u)) (ac_users (writer_run demo_writers demo_directory)) = [(''Eve'', ''t2'')]"
    by code_simp
qed

end
