(* ===== verification/Gateway_Rules.thy ===== *)
theory Gateway_Rules
  imports Verify_Credential Access_Grants Gateway_Agent
    "HOL-Library.Product_Lexorder" "HOL-Library.List_Lexorder" "HOL-Library.Char_ord"
begin

text \<open>
  \<open>internal/http/router_handlers_gateway.go\<close>: the authorisation cache the cloud builds for a gateway, with the
  access rules the gateway agent decides by while it is offline, and what those rules let the
  agent grant.  The rules are JSON objects with the fields of the agent's \<open>AccessRule\<close>, so the agent's
  record stands for both ends.  Go sets are lists read as sets; \<open>sort.Slice\<close> is sorting by the key that its
  comparison reads.  The server has all its services, except that the credential service may be absent.  The
  cache's counts (the lengths of its lists) and its version (a hash of its JSON text) are left out.
\<close>

section \<open>Sets and scopes\<close>

definition sortedSetKeys :: "string list \<Rightarrow> string list" where
  "sortedSetKeys xs = sort (filter (\<lambda>x. trim_space x \<noteq> '''') (remdups xs))"

definition sortedUniqueTrimmedIDs :: "string list \<Rightarrow> string list" where
  "sortedUniqueTrimmedIDs xs = sort (uniqueIDs xs)"

definition filterAndSortUserGroupIDs :: "string list \<Rightarrow> string list \<Rightarrow> string list" where
  "filterAndSortUserGroupIDs xs allowed = sort (filter (\<lambda>x. allowed = [] \<or> x \<in> set allowed) (uniqueIDs xs))"

record authz_scope =
  as_BuildingIDs :: "string list"
  as_AreaIDs :: "string list"
  as_DoorIDs :: "string list"

text \<open>The scope with the doors it holds; the sets of buildings and areas are its lists.\<close>

definition gatewayConfigAuthzScopeFromBoundDoors ::
  "string \<Rightarrow> string list \<Rightarrow> spaceService \<Rightarrow> authz_scope \<times> door list" where
  "gatewayConfigAuthzScopeFromBoundDoors tenantID boundDoorIDs sp =
     (let ids = sortedUniqueTrimmedIDs boundDoorIDs;
          hit = filter (\<lambda>d. trim_space (dr_ID d) \<in> set ids) (ListDoors tenantID sp);
          names = (\<lambda>f. sortedSetKeys (filter (\<lambda>x. x \<noteq> '''') (map (\<lambda>d. trim_space (f d)) hit))) in
      if ids = [] then (\<lparr>as_BuildingIDs = [], as_AreaIDs = [], as_DoorIDs = []\<rparr>, [])
      else (\<lparr>as_BuildingIDs = names dr_BuildingID, as_AreaIDs = names dr_AreaID, as_DoorIDs = ids\<rparr>, sort_key dr_ID hit))"

definition gatewayConfigAuthzScopeMatch ::
  "string \<Rightarrow> string \<Rightarrow> string \<Rightarrow> string \<Rightarrow> authz_scope \<Rightarrow> bool" where
  "gatewayConfigAuthzScopeMatch scopeType buildingID areaID doorID sc =
     (let x = to_lower (trim_space scopeType) in
      if x = '''' \<or> x = ''all'' then as_DoorIDs sc \<noteq> []
      else if x = ''building'' then trim_space buildingID \<in> set (as_BuildingIDs sc)
      else if x = ''area'' then trim_space areaID \<in> set (as_AreaIDs sc)
      else if x = ''door'' then trim_space doorID \<in> set (as_DoorIDs sc)
      else False)"

text \<open>A record without a building, or of a building with a bound door.\<close>

definition in_buildings :: "string \<Rightarrow> authz_scope \<Rightarrow> bool" where
  "in_buildings buildingID sc \<longleftrightarrow> trim_space buildingID = '''' \<or> trim_space buildingID \<in> set (as_BuildingIDs sc)"

definition gatewayConfigAuthzPolicies :: "string \<Rightarrow> authz_scope \<Rightarrow> accessService \<Rightarrow> policy list" where
  "gatewayConfigAuthzPolicies tenantID sc ac =
     (if as_DoorIDs sc = [] then []
      else sort_key (\<lambda>p. (pl_ID p, pl_Name p))
        (filter (\<lambda>p. to_lower (trim_space (pl_Status p)) = ''active'' \<and>
           gatewayConfigAuthzScopeMatch (pl_ScopeType p) (pl_BuildingID p) (pl_AreaID p) (pl_DoorID p) sc)
         (ListPolicies tenantID ac)))"

definition gatewayConfigAuthzTemporaryAccess :: "string \<Rightarrow> authz_scope \<Rightarrow> accessService \<Rightarrow> temporaryAccess list" where
  "gatewayConfigAuthzTemporaryAccess tenantID sc ac =
     (if as_DoorIDs sc = [] then []
      else sort_key (\<lambda>r. (ta_ID r, ta_CreatedAt r))
        (filter (\<lambda>r. gatewayConfigAuthzScopeMatch (ta_ScopeType r) (ta_BuildingID r) (ta_AreaID r) (ta_DoorID r) sc)
         (ListTemporaryAccess tenantID ac)))"

definition gatewayConfigAuthzVisitorPasses :: "string \<Rightarrow> authz_scope \<Rightarrow> accessService \<Rightarrow> visitorPass list" where
  "gatewayConfigAuthzVisitorPasses tenantID sc ac =
     (if as_DoorIDs sc = [] then []
      else sort_key (\<lambda>r. (vi_ID r, vi_CreatedAt r))
        (filter (\<lambda>r. in_buildings (vi_BuildingID r) sc) (ListVisitorPasses tenantID ac)))"

definition gatewayConfigAuthzUserGroups :: "string \<Rightarrow> authz_scope \<Rightarrow> accessService \<Rightarrow> userGroup list" where
  "gatewayConfigAuthzUserGroups tenantID sc ac =
     (if as_DoorIDs sc = [] then []
      else sort_key (\<lambda>g. (ug_ID g, ug_Name g))
        (map (\<lambda>g. g\<lparr>ug_Members := sortedUniqueTrimmedIDs (ug_Members g)\<rparr>)
          (filter (\<lambda>g. in_buildings (ug_BuildingID g) sc) (ListUserGroups tenantID ac))))"

definition gatewayConfigAuthzUsers :: "string \<Rightarrow> authz_scope \<Rightarrow> string list \<Rightarrow> accessService \<Rightarrow> accessUser list" where
  "gatewayConfigAuthzUsers tenantID sc allowedUserGroupIDs ac =
     (if as_DoorIDs sc = [] then []
      else sort_key (\<lambda>u. (us_ID u, us_Email u))
        (map (\<lambda>u. u\<lparr>us_GroupIDs := filterAndSortUserGroupIDs (us_GroupIDs u) allowedUserGroupIDs\<rparr>)
          (filter (\<lambda>u. to_lower (trim_space (us_Status u)) = ''active'' \<and> in_buildings (us_BuildingID u) sc)
            (ListUsers tenantID ac))))"

section \<open>Which locks a user opens\<close>

text \<open>A member of any user group is given every bound door of every door group, and the bound doors of the
  group's building.\<close>

definition group_locks :: "string list \<Rightarrow> doorGroup list \<Rightarrow> door list \<Rightarrow> userGroup \<Rightarrow> string list" where
  "group_locks bound doorGroups doors ug =
     filter (\<lambda>d. d \<in> set bound) (concat (map dg_DoorIDs doorGroups)) @
     map dr_ID (filter (\<lambda>d. dr_ID d \<in> set bound \<and>
       (dr_BuildingID d = ug_BuildingID ug \<or> dr_BuildingID d = ug_PlaceID ug)) doors)"

definition role_locks :: "string list \<Rightarrow> door list \<Rightarrow> roleAssignment \<Rightarrow> string list" where
  "role_locks bound doors ra =
     map dr_ID (filter (\<lambda>d. dr_ID d \<in> set bound \<and>
       (ra_AppliesToType ra = ''Organization'' \<or> ra_AppliesToType ra = ''Place'' \<and> ra_AppliesToID ra = dr_BuildingID d)) doors)"

definition user_locks :: "string \<Rightarrow> string list \<Rightarrow> userGroup list \<Rightarrow> verifyServer \<Rightarrow> accessUser \<Rightarrow> string list" where
  "user_locks tenantID bound userGroups s u =
     (let doorGroups = ListDoorGroups tenantID (vs_space s); doors = ListDoors tenantID (vs_space s) in
      concat (map (group_locks bound doorGroups doors) (filter (\<lambda>ug. ug_ID ug \<in> set (us_GroupIDs u)) userGroups)) @
      concat (map (role_locks bound doors)
        (filter (\<lambda>ra. ra_AssigneeType ra = ''User'' \<and> ra_AssigneeID ra = us_ID u)
          (ListRoleAssignments tenantID (vs_access s)))))"

text \<open>The map from users to their locks, as an association list.\<close>

definition buildGatewayUserLockAccessForUsers ::
  "string \<Rightarrow> string list \<Rightarrow> accessUser list \<Rightarrow> userGroup list \<Rightarrow> verifyServer \<Rightarrow> (string \<times> string list) list" where
  "buildGatewayUserLockAccessForUsers tenantID boundDoorIDs users userGroups s =
     (let bound = filter (\<lambda>d. d \<noteq> '''') (map trim_space boundDoorIDs) in
      if bound = [] then []
      else fold (\<lambda>u m. let ls = user_locks tenantID bound userGroups s u in
                 if ls = [] then m else AList.update (us_ID u) (sortedSetKeys ls) m) users [])"

definition buildGatewayUserLockAccess :: "string \<Rightarrow> string list \<Rightarrow> verifyServer \<Rightarrow> (string \<times> string list) list" where
  "buildGatewayUserLockAccess tenantID boundDoorIDs s =
     (let sc = fst (gatewayConfigAuthzScopeFromBoundDoors tenantID boundDoorIDs (vs_space s));
          groups = gatewayConfigAuthzUserGroups tenantID sc (vs_access s);
          users = gatewayConfigAuthzUsers tenantID sc (map ug_ID groups) (vs_access s) in
      buildGatewayUserLockAccessForUsers tenantID boundDoorIDs users groups s)"

section \<open>The rules\<close>

definition findUserByID_rules :: "accessUser list \<Rightarrow> string \<Rightarrow> accessUser option" where
  "findUserByID_rules users i = find (\<lambda>u. us_ID u = i) users"

definition userEmail :: "accessUser option \<Rightarrow> string" where
  "userEmail u = (case u of None \<Rightarrow> '''' | Some u \<Rightarrow> us_Email u)"

definition offline_rule ::
  "string \<Rightarrow> accessUser list \<Rightarrow> string \<Rightarrow> string \<Rightarrow> string \<Rightarrow> string list \<Rightarrow> accessRule" where
  "offline_rule validUntil users credentialType credentialData userID lockIDs =
     \<lparr>ru_CredentialType = credentialType, ru_CredentialData = credentialData, ru_UserID = userID,
      ru_UserEmail = userEmail (findUserByID_rules users userID), ru_LockIDs = lockIDs, ru_ValidUntil = validUntil\<rparr>"

definition card_rules ::
  "string \<Rightarrow> string \<Rightarrow> accessUser list \<Rightarrow> (string \<times> string list) list \<Rightarrow> walletService \<Rightarrow> physicalCardInventoryItem \<Rightarrow> accessRule list" where
  "card_rules tenantID validUntil users locks w item =
     (if ci_UID item = '''' \<or> ci_AssignedPassID item = '''' then []
      else
        (case GetPass tenantID (ci_AssignedPassID item) w of
           Inl _ \<Rightarrow> []
         | Inr p \<Rightarrow>
             if pi_TargetType p \<noteq> ''user'' \<or> pi_Status p \<noteq> ''active'' then []
             else
               (case map_of locks (pi_TargetID p) of
                  None \<Rightarrow> []
                | Some ls \<Rightarrow>
                    offline_rule validUntil users ''nfc_uid'' (ci_UID item) (pi_TargetID p) ls #
                    (if ci_CardNumber item \<noteq> ''''
                     then [offline_rule validUntil users ''card_number'' (ci_CardNumber item) (pi_TargetID p) ls] else []))))"

text \<open>One pass of the second loop: a card registered directly, unless a rule for its UID is there.\<close>

definition add_pass_rule ::
  "string \<Rightarrow> accessUser list \<Rightarrow> (string \<times> string list) list \<Rightarrow> passInstance \<Rightarrow> accessRule list \<Rightarrow> accessRule list" where
  "add_pass_rule validUntil users locks p rules =
     (if pi_UID p = '''' \<or> pi_TargetType p \<noteq> ''user'' \<or> pi_Status p \<noteq> ''active'' then rules
      else
        (case map_of locks (pi_TargetID p) of
           None \<Rightarrow> rules
         | Some ls \<Rightarrow>
             if \<exists>r\<in>set rules. ru_CredentialType r = ''nfc_uid'' \<and> ru_CredentialData r = pi_UID p then rules
             else rules @ [offline_rule validUntil users ''nfc_uid'' (pi_UID p) (pi_TargetID p) ls]))"

definition ble_rule :: "string \<Rightarrow> gatewayCredentialSync \<Rightarrow> accessRule" where
  "ble_rule validUntil mc =
     \<lparr>ru_CredentialType = ''ble_signature'', ru_CredentialData = gs_PublicKeyPEM mc, ru_UserID = gs_UserID mc,
      ru_UserEmail = gs_UserEmail mc, ru_LockIDs = gs_LockIDs mc, ru_ValidUntil = validUntil\<rparr>"

definition offline_lifetime :: int where "offline_lifetime = 72 * ns_hour"

definition buildGatewayAccessRules ::
  "time \<Rightarrow> string \<Rightarrow> string list \<Rightarrow> accessUser list \<Rightarrow> userGroup list \<Rightarrow> verifyServer \<Rightarrow> accessRule list" where
  "buildGatewayAccessRules now tenantID boundDoorIDs users userGroups s =
     (if boundDoorIDs = [] then []
      else
        (let locks = buildGatewayUserLockAccessForUsers tenantID boundDoorIDs users userGroups s;
             validUntil = format_rfc3339 (now + offline_lifetime);
             cards = concat (map (card_rules tenantID validUntil users locks (vs_wallet s))
               (ListPhysicalCardInventory tenantID '''' (vs_wallet s)));
             passes = fold (add_pass_rule validUntil users locks) (ListPasses tenantID (vs_wallet s)) cards in
         passes @
         (case vs_credentials s of
            None \<Rightarrow> []
          | Some cs \<Rightarrow> map (ble_rule validUntil) (BuildGatewayCredentialSync now tenantID boundDoorIDs locks cs))))"

section \<open>The cache\<close>

record authz_cache =
  cz_GeneratedAt :: time
  cz_ExpiresAt :: time
  cz_StaleUntil :: time
  cz_RollbackVersion :: string
  cz_Scope :: authz_scope
  cz_Doors :: "door list"
  cz_Policies :: "policy list"
  cz_TemporaryAccess :: "temporaryAccess list"
  cz_VisitorPasses :: "visitorPass list"
  cz_Users :: "accessUser list"
  cz_UserGroups :: "userGroup list"
  cz_AccessRules :: "accessRule list"

text \<open>\<open>rollbackVersion\<close> is the version the gateway acknowledged last; the rules read the clock once more.\<close>

definition buildGatewayConfigAuthzCache ::
  "time \<Rightarrow> time \<Rightarrow> string \<Rightarrow> string \<Rightarrow> string list \<Rightarrow> verifyServer \<Rightarrow> authz_cache" where
  "buildGatewayConfigAuthzCache generatedAt now rollbackVersion tenantID boundDoorIDs s =
     (case gatewayConfigAuthzScopeFromBoundDoors tenantID boundDoorIDs (vs_space s) of
        (sc, doors) \<Rightarrow>
          let groups = gatewayConfigAuthzUserGroups tenantID sc (vs_access s);
              users = gatewayConfigAuthzUsers tenantID sc (map ug_ID groups) (vs_access s) in
          \<lparr>cz_GeneratedAt = generatedAt, cz_ExpiresAt = generatedAt + 300 * ns_second,
           cz_StaleUntil = generatedAt + 900 * ns_second, cz_RollbackVersion = rollbackVersion, cz_Scope = sc,
           cz_Doors = doors, cz_Policies = gatewayConfigAuthzPolicies tenantID sc (vs_access s),
           cz_TemporaryAccess = gatewayConfigAuthzTemporaryAccess tenantID sc (vs_access s),
           cz_VisitorPasses = gatewayConfigAuthzVisitorPasses tenantID sc (vs_access s),
           cz_Users = users, cz_UserGroups = groups,
           cz_AccessRules = buildGatewayAccessRules now tenantID boundDoorIDs users groups s\<rparr>)"

datatype authz_status = AuthzFresh | AuthzStale | AuthzMissing | AuthzDrift

definition gatewayConfigAuthzResolveStatus :: "string \<Rightarrow> string \<Rightarrow> string \<Rightarrow> authz_status" where
  "gatewayConfigAuthzResolveStatus reportedVersion expectedVersion rollbackVersion =
     (let reported = trim_space reportedVersion; expected = trim_space expectedVersion; rollback = trim_space rollbackVersion in
      if reported = '''' then AuthzMissing
      else if expected \<noteq> '''' \<and> reported = expected then AuthzFresh
      else if rollback \<noteq> '''' \<and> reported = rollback then AuthzStale
      else AuthzDrift)"

section \<open>What backs a rule\<close>

lemma set_sortedSetKeys [simp]: "set (sortedSetKeys xs) = {x \<in> set xs. trim_space x \<noteq> ''''}"
  by (auto simp: sortedSetKeys_def)

lemma fold_update_Some:
  "map_of (fold (\<lambda>u m. if g u = [] then m else AList.update (k u) (h u) m) us m) i = Some ls \<Longrightarrow>
   map_of m i = Some ls \<or> (\<exists>u\<in>set us. k u = i \<and> g u \<noteq> [] \<and> ls = h u)"
  by (induction us arbitrary: m) (fastforce simp: update_conv' split: if_splits)+

lemma user_locks_bound: "set (user_locks t bound groups s u) \<subseteq> set bound"
  by (auto simp: user_locks_def group_locks_def role_locks_def Let_def)

lemma lock_access_SomeD:
  assumes "map_of (buildGatewayUserLockAccessForUsers t bound us groups s) i = Some ls"
  shows "\<exists>u\<in>set us. us_ID u = i" and "ls \<noteq> []" and "set ls \<subseteq> trim_space ` set bound"
proof -
  let ?b = "filter (\<lambda>d. d \<noteq> '''') (map trim_space bound)"
  from assms obtain u where u: "u \<in> set us" "us_ID u = i" "user_locks t ?b groups s u \<noteq> []"
    "ls = sortedSetKeys (user_locks t ?b groups s u)"
    using fold_update_Some [of "user_locks t ?b groups s" us_ID "\<lambda>u. sortedSetKeys (user_locks t ?b groups s u)" us "[]" i ls]
    by (auto simp: buildGatewayUserLockAccessForUsers_def Let_def split: if_splits)
  have sub: "set (user_locks t ?b groups s u) \<subseteq> set ?b" by (rule user_locks_bound)
  then have "set ls = set (user_locks t ?b groups s u)" using u(4) by auto
  moreover from this u(3) have "ls \<noteq> []" by (metis set_empty)
  ultimately show "\<exists>u\<in>set us. us_ID u = i" "ls \<noteq> []" "set ls \<subseteq> trim_space ` set bound" using sub u(1,2) by auto
qed

text \<open>The card or pass behind a rule for a card.\<close>

definition card_backed :: "string \<Rightarrow> string \<Rightarrow> (string \<times> string list) list \<Rightarrow> walletService \<Rightarrow> accessRule \<Rightarrow> bool" where
  "card_backed t validUntil locks w r \<longleftrightarrow>
     ru_ValidUntil r = validUntil \<and> map_of locks (ru_UserID r) = Some (ru_LockIDs r) \<and>
     ru_CredentialType r \<in> {''nfc_uid'', ''card_number''} \<and>
     (\<exists>p\<in>set (wa_passes w). pi_TenantID p = normalizeTenantID t \<and> pi_TargetType p = ''user'' \<and> pi_TargetID p = ru_UserID r \<and>
        pi_Status p = ''active'' \<and>
        (pi_UID p = ru_CredentialData r \<or>
         (\<exists>i\<in>set (wa_physicalCardInventory w). trim_space (ci_AssignedPassID i) = pi_ID p \<and>
            ru_CredentialData r \<in> {ci_UID i, ci_CardNumber i})))"

lemma find_pass_id: "find_pass t i s = Some k \<Longrightarrow> pi_ID (wa_passes s ! k) = trim_space i"
  by (auto simp: find_pass_def split: if_splits dest: lookup_strict_SomeD)

lemma card_rules_backed:
  assumes "r \<in> set (card_rules t v users locks w i)" and "i \<in> set (ListPhysicalCardInventory t '''' w)"
  shows "card_backed t v locks w r"
proof -
  obtain p where g: "GetPass t (ci_AssignedPassID i) w = Inr p"
    using assms(1) by (cases "GetPass t (ci_AssignedPassID i) w") (auto simp: card_rules_def split: if_splits)
  obtain ls where ls: "map_of locks (pi_TargetID p) = Some ls"
    using assms(1) g by (cases "map_of locks (pi_TargetID p)") (auto simp: card_rules_def split: if_splits)
  have p: "GetPass t (ci_AssignedPassID i) w = Inr p" "pi_TargetType p = ''user''"
    "pi_Status p = ''active''" "map_of locks (pi_TargetID p) = Some ls"
    and r: "ru_ValidUntil r = v" "ru_UserID r = pi_TargetID p" "ru_LockIDs r = ls"
      "ru_CredentialType r \<in> {''nfc_uid'', ''card_number''}" "ru_CredentialData r \<in> {ci_UID i, ci_CardNumber i}"
    using assms(1) g ls by (auto simp: card_rules_def offline_rule_def split: if_splits)
  from p(1) have "p \<in> set (wa_passes w)" "pi_TenantID p = normalizeTenantID t" "pi_ID p = trim_space (ci_AssignedPassID i)"
    by (auto simp: GetPass_def split: option.splits dest: find_pass_SomeD find_pass_id)
  moreover have "i \<in> set (wa_physicalCardInventory w)"
    using assms(2) by (auto simp: ListPhysicalCardInventory_def Let_def)
  ultimately show ?thesis
    unfolding card_backed_def r(1-3) using p(2-4) r(4,5) by (metis insert_iff)
qed

lemma pass_rules_backed:
  assumes "list_all (card_backed t v locks w) rules" and "set ps \<subseteq> set (ListPasses t w)"
  shows "list_all (card_backed t v locks w) (fold (add_pass_rule v users locks) ps rules)"
  using assms
proof (induction ps arbitrary: rules)
  case (Cons p ps)
  have "card_backed t v locks w (offline_rule v users ''nfc_uid'' (pi_UID p) (pi_TargetID p) ls)"
    if "map_of locks (pi_TargetID p) = Some ls" "pi_TargetType p = ''user''" "pi_Status p = ''active''" for ls
    using that Cons.prems(2) by (auto simp: offline_rule_def card_backed_def ListPasses_def)
  with Cons.prems have "list_all (card_backed t v locks w) (add_pass_rule v users locks p rules)"
    by (auto simp: add_pass_rule_def split: option.split)
  with Cons.IH Cons.prems(2) show ?case by simp
qed simp

lemma set_map_filter: "y \<in> set (List.map_filter f xs) \<longleftrightarrow> (\<exists>x\<in>set xs. f x = Some y)"
  by (force simp: List.map_filter_def)

lemma sync_mem:
  "y \<in> set (BuildGatewayCredentialSync now t bound locks cs) \<longleftrightarrow>
   (\<exists>c\<in>set (ListActiveCredentials now t cs). \<exists>ls. map_of locks (mc_UserID c) = Some ls \<and>
      filter (\<lambda>d. d \<in> set ls) bound \<noteq> [] \<and> y = sync_entry c (filter (\<lambda>d. d \<in> set ls) bound) 0)"
  by (auto simp: BuildGatewayCredentialSync_def set_map_filter Let_def split: option.splits)

lemma access_rules_split:
  assumes "r \<in> set (buildGatewayAccessRules now t bound users groups s)"
  defines "locks \<equiv> buildGatewayUserLockAccessForUsers t bound users groups s"
  shows "card_backed t (format_rfc3339 (now + offline_lifetime)) locks (vs_wallet s) r \<or>
    (\<exists>cs y. vs_credentials s = Some cs \<and> y \<in> set (BuildGatewayCredentialSync now t bound locks cs) \<and>
       r = ble_rule (format_rfc3339 (now + offline_lifetime)) y)"
proof -
  let ?v = "format_rfc3339 (now + offline_lifetime)" and ?w = "vs_wallet s"
  let ?cards = "concat (map (card_rules t ?v users locks ?w) (ListPhysicalCardInventory t '''' ?w))"
  have "list_all (card_backed t ?v locks ?w) ?cards"
    using card_rules_backed by (fastforce simp: list_all_iff)
  then have "list_all (card_backed t ?v locks ?w) (fold (add_pass_rule ?v users locks) (ListPasses t ?w) ?cards)"
    by (rule pass_rules_backed) simp
  then have "card_backed t ?v locks ?w r" if "r \<in> set (fold (add_pass_rule ?v users locks) (ListPasses t ?w) ?cards)"
    using that by (simp add: list_all_iff)
  with assms(1) show ?thesis
    unfolding buildGatewayAccessRules_def locks_def Let_def
    by (cases "vs_credentials s") (auto split: if_splits)
qed

lemma cache_rules:
  obtains users groups where
    "cz_AccessRules (buildGatewayConfigAuthzCache g now rb t bound s) = buildGatewayAccessRules now t bound users groups s"
    "buildGatewayUserLockAccessForUsers t bound users groups s = buildGatewayUserLockAccess t bound s"
  by (rule that [of "gatewayConfigAuthzUsers t (fst (gatewayConfigAuthzScopeFromBoundDoors t bound (vs_space s)))
        (map ug_ID (gatewayConfigAuthzUserGroups t (fst (gatewayConfigAuthzScopeFromBoundDoors t bound (vs_space s))) (vs_access s)))
        (vs_access s)"
      "gatewayConfigAuthzUserGroups t (fst (gatewayConfigAuthzScopeFromBoundDoors t bound (vs_space s))) (vs_access s)"])
    (simp_all add: buildGatewayConfigAuthzCache_def buildGatewayUserLockAccess_def case_prod_unfold Let_def)

text \<open>A user with offline locks is an active user of the tenant.\<close>

definition active_user :: "string \<Rightarrow> string \<Rightarrow> accessService \<Rightarrow> bool" where
  "active_user t i ac \<longleftrightarrow> (\<exists>u\<in>set (ac_users ac). us_ID u = i \<and> in_scope (trim_space t) (us_TenantID u) \<and>
     to_lower (trim_space (us_Status u)) = ''active'')"

lemma locks_active_user:
  assumes "map_of (buildGatewayUserLockAccess t bound s) i = Some ls"
  shows "active_user t i (vs_access s)" "ls \<noteq> []" "set ls \<subseteq> trim_space ` set bound"
  using lock_access_SomeD [OF assms [unfolded buildGatewayUserLockAccess_def Let_def]]
  by (auto simp: gatewayConfigAuthzUsers_def active_user_def ListUsers_def list_scoped_def split: if_splits)

text \<open>Every rule of a cache names an active user of the tenant and locks among the bound doors, runs
  out 72 hours after it was built, and rests on an active pass or an active, unexpired mobile
  credential of that user.\<close>

lemma offline_rules_backed:
  assumes "r \<in> set (cz_AccessRules (buildGatewayConfigAuthzCache g now rb t bound s))"
  shows "active_user t (ru_UserID r) (vs_access s)" and "ru_LockIDs r \<noteq> []"
    and "set (ru_LockIDs r) \<subseteq> trim_space ` set bound"
    and "ru_ValidUntil r = format_rfc3339 (now + offline_lifetime)"
    and "card_backed t (ru_ValidUntil r) (buildGatewayUserLockAccess t bound s) (vs_wallet s) r \<or>
      (\<exists>cs c. vs_credentials s = Some cs \<and> c \<in> set (ListActiveCredentials now t cs) \<and> mc_UserID c = ru_UserID r \<and>
         ru_CredentialType r = ''ble_signature'' \<and> ru_CredentialData r = mc_PublicKeyPEM c)"
proof -
  let ?locks = "buildGatewayUserLockAccess t bound s"
  obtain users groups where
    "r \<in> set (buildGatewayAccessRules now t bound users groups s)"
    "buildGatewayUserLockAccessForUsers t bound users groups s = ?locks"
    using assms cache_rules by metis
  with access_rules_split have "card_backed t (format_rfc3339 (now + offline_lifetime)) ?locks (vs_wallet s) r \<or>
    (\<exists>cs y. vs_credentials s = Some cs \<and> y \<in> set (BuildGatewayCredentialSync now t bound ?locks cs) \<and>
       r = ble_rule (format_rfc3339 (now + offline_lifetime)) y)" by metis
  then have "active_user t (ru_UserID r) (vs_access s) \<and> ru_LockIDs r \<noteq> [] \<and> set (ru_LockIDs r) \<subseteq> trim_space ` set bound \<and>
    ru_ValidUntil r = format_rfc3339 (now + offline_lifetime) \<and>
    (card_backed t (ru_ValidUntil r) ?locks (vs_wallet s) r \<or>
      (\<exists>cs c. vs_credentials s = Some cs \<and> c \<in> set (ListActiveCredentials now t cs) \<and> mc_UserID c = ru_UserID r \<and>
         ru_CredentialType r = ''ble_signature'' \<and> ru_CredentialData r = mc_PublicKeyPEM c))"
  proof (elim disjE exE conjE)
    assume c: "card_backed t (format_rfc3339 (now + offline_lifetime)) ?locks (vs_wallet s) r"
    then have "map_of ?locks (ru_UserID r) = Some (ru_LockIDs r)" by (simp add: card_backed_def)
    from locks_active_user [OF this] c show ?thesis by (simp add: card_backed_def)
  next
    fix cs y
    assume cs: "vs_credentials s = Some cs" and y: "y \<in> set (BuildGatewayCredentialSync now t bound ?locks cs)"
      and r: "r = ble_rule (format_rfc3339 (now + offline_lifetime)) y"
    from y obtain c ls where c: "c \<in> set (ListActiveCredentials now t cs)" "map_of ?locks (mc_UserID c) = Some ls"
      "filter (\<lambda>d. d \<in> set ls) bound \<noteq> []" "y = sync_entry c (filter (\<lambda>d. d \<in> set ls) bound) 0"
      unfolding sync_mem by blast
    have "active_user t (mc_UserID c) (vs_access s)" "set (filter (\<lambda>d. d \<in> set ls) bound) \<subseteq> trim_space ` set bound"
      using locks_active_user [OF c(2)] by auto
    with c(1,3) cs show ?thesis unfolding r c(4) by (auto simp: ble_rule_def sync_entry_def)
  qed
  then show "active_user t (ru_UserID r) (vs_access s)" "ru_LockIDs r \<noteq> []"
    "set (ru_LockIDs r) \<subseteq> trim_space ` set bound"
    "ru_ValidUntil r = format_rfc3339 (now + offline_lifetime)"
    "card_backed t (ru_ValidUntil r) ?locks (vs_wallet s) r \<or>
      (\<exists>cs c. vs_credentials s = Some cs \<and> c \<in> set (ListActiveCredentials now t cs) \<and> mc_UserID c = ru_UserID r \<and>
         ru_CredentialType r = ''ble_signature'' \<and> ru_CredentialData r = mc_PublicKeyPEM c)"
    by blast+
qed

section \<open>Cloud and gateway\<close>

text \<open>The bound doors that the rules of a cache give a user.\<close>

definition offline_doors :: "string \<Rightarrow> string list \<Rightarrow> verifyServer \<Rightarrow> string \<Rightarrow> string list" where
  "offline_doors t bound s u =
     (case map_of (buildGatewayUserLockAccess t bound s) u of
        None \<Rightarrow> [] | Some ls \<Rightarrow> filter (\<lambda>d. d \<in> set ls) bound)"

text \<open>What the agent asks of a challenge before it looks at any rule: its length, the age of the cached rules, a
  nonce not used before, and its own number in a challenge of the second version.\<close>

definition challenge_good :: "time \<Rightarrow> byte list \<Rightarrow> agent \<Rightarrow> bool" where
  "challenge_good now challenge a \<longleftrightarrow>
     32 \<le> length challenge \<and> \<not> cacheExpired now a \<and> \<not> fst (ask_nonce now (take 32 challenge) a) \<and>
     (ChallengeV2Size \<le> length challenge \<longrightarrow> word_of_nat (get_be (take 4 (drop 48 challenge))) = ag_gatewayIDUint32 a)"

lemma rule_expired_offline:
  assumes "0 \<le> t" and "t < 2 ^ 63" and "ru_ValidUntil r = format_rfc3339 t"
  shows "rule_expired now r \<longleftrightarrow> now > unix_sec t * ns_second"
  using assms format_rfc3339_nonempty [of t] by (simp add: rule_expired_def parse_format_int64)

lemma ble_rules_of_cache:
  assumes "vs_credentials s = Some cs"
  shows "(\<exists>r\<in>set (cz_AccessRules (buildGatewayConfigAuthzCache g t0 rb t bound s)).
      ru_CredentialType r = ''ble_signature'' \<and> ru_UserID r = u \<and> P (ru_CredentialData r) (ru_ValidUntil r)) \<longleftrightarrow>
    offline_doors t bound s u \<noteq> [] \<and>
    (\<exists>c\<in>set (ListActiveCredentials t0 t cs). mc_UserID c = u \<and> P (mc_PublicKeyPEM c) (format_rfc3339 (t0 + offline_lifetime)))"
    (is "?L \<longleftrightarrow> ?R")
proof
  let ?v = "format_rfc3339 (t0 + offline_lifetime)" and ?locks = "buildGatewayUserLockAccess t bound s"
  obtain us gs where rules: "cz_AccessRules (buildGatewayConfigAuthzCache g t0 rb t bound s) = buildGatewayAccessRules t0 t bound us gs s"
    and locks: "buildGatewayUserLockAccessForUsers t bound us gs s = ?locks" by (rule cache_rules)
  { assume ?L
    then obtain r where r: "r \<in> set (buildGatewayAccessRules t0 t bound us gs s)" "ru_CredentialType r = ''ble_signature''"
      "ru_UserID r = u" "P (ru_CredentialData r) (ru_ValidUntil r)" unfolding rules by blast
    from access_rules_split [OF r(1)] r(2) assms obtain y where
      y: "y \<in> set (BuildGatewayCredentialSync t0 t bound ?locks cs)" "r = ble_rule ?v y"
      unfolding locks by (auto simp: card_backed_def)
    from y(1) obtain c ls where "c \<in> set (ListActiveCredentials t0 t cs)" "map_of ?locks (mc_UserID c) = Some ls"
      "filter (\<lambda>d. d \<in> set ls) bound \<noteq> []" "y = sync_entry c (filter (\<lambda>d. d \<in> set ls) bound) 0"
      unfolding sync_mem by blast
    with y(2) r(3,4) show ?R by (auto simp: ble_rule_def sync_entry_def offline_doors_def) }
  { assume ?R
    then obtain c ls where c: "c \<in> set (ListActiveCredentials t0 t cs)" "mc_UserID c = u" "P (mc_PublicKeyPEM c) ?v"
      and ls: "map_of ?locks u = Some ls" "filter (\<lambda>d. d \<in> set ls) bound \<noteq> []"
      by (auto simp: offline_doors_def split: option.splits)
    let ?y = "sync_entry c (filter (\<lambda>d. d \<in> set ls) bound) 0"
    have "?y \<in> set (BuildGatewayCredentialSync t0 t bound ?locks cs)" using c(1,2) ls unfolding sync_mem by blast
    moreover have "bound \<noteq> []" using ls(2) by auto
    ultimately have "ble_rule ?v ?y \<in> set (buildGatewayAccessRules t0 t bound us gs s)"
      by (simp add: buildGatewayAccessRules_def Let_def assms locks)
    then show ?L unfolding rules
      by (rule bexI [rotated]) (use c in \<open>simp add: ble_rule_def sync_entry_def\<close>) }
qed

lemma one_credential:
  assumes "c \<in> set (ListActiveCredentials t0 t cs)" and "mc_UserID c = u"
  shows "VerifyBLESignatureV2_svc cr t0 t u nonce tag sg (cs\<lparr>cs_credentials := [c]\<rparr>) = Inr c \<longleftrightarrow>
    VerifyBLESignatureV2 cr (mc_PublicKeyPEM c) nonce u tag sg = Inr ()"
  using assms by (simp add: cloud_check_as_gateway active_cred_def ListActiveCredentials_def)

text \<open>C34: Offline, the gateway decides on a phone's response by what the cloud knew when it built the rules.  An
  agent whose cached rules are those of a cache built at \<open>t0\<close> grants a v2 response to a fresh challenge exactly when at most 72
  hours have passed (to the second), the cloud's directory gave the user one of the gateway's doors, and some active, unexpired credential
  of the user is one under which the cloud itself would have accepted the response.  So whatever the cloud accepted from a
  user with such a door, the gateway grants; and whomever it grants was an active user of the tenant.\<close>

theorem cloud_gateway_agree:
  assumes rules: "ag_accessRules a = cz_AccessRules (buildGatewayConfigAuthzCache g t0 rb t bound s)"
    and cs: "vs_credentials s = Some cs"
    and time: "0 \<le> t0" "t0 + offline_lifetime < 2 ^ 63"
  shows "(br_Code (fst (VerifyAuthResponseV2 cr now resp ch tr a)) = BLEResultGranted \<longleftrightarrow>
      challenge_good now ch a \<and> now \<le> unix_sec (t0 + offline_lifetime) * ns_second \<and>
      offline_doors t bound s (ar_UserID resp) \<noteq> [] \<and>
      (\<exists>c\<in>set (ListActiveCredentials t0 t cs). mc_UserID c = ar_UserID resp \<and>
         VerifyBLESignatureV2_svc cr t0 t (ar_UserID resp) (take 32 ch) tr (ar_Signature resp)
           (cs\<lparr>cs_credentials := [c]\<rparr>) = Inr c)) \<and>
    (isl (VerifyBLESignatureV2_svc cr t0 t (ar_UserID resp) (take 32 ch) tr (ar_Signature resp) cs) \<or>
      \<not> challenge_good now ch a \<or> now > unix_sec (t0 + offline_lifetime) * ns_second \<or>
      offline_doors t bound s (ar_UserID resp) = [] \<or>
      br_Code (fst (VerifyAuthResponseV2 cr now resp ch tr a)) = BLEResultGranted) \<and>
    (br_Code (fst (VerifyAuthResponseV2 cr now resp ch tr a)) = BLEResultGranted \<longrightarrow>
      active_user t (ar_UserID resp) (vs_access s))"
proof -
  let ?u = "ar_UserID resp" and ?v = "format_rfc3339 (t0 + offline_lifetime)"
  let ?ok = "\<lambda>k. VerifyBLESignatureV2 cr k (take 32 ch) ?u tr (ar_Signature resp) = Inr ()"
  have "0 \<le> t0 + offline_lifetime" using time(1) by (simp add: offline_lifetime_def duration_defs)
  note expired = rule_expired_offline [OF this time(2)]
  have "(\<exists>r\<in>set (ag_accessRules a). ru_CredentialType r = ''ble_signature'' \<and> ru_UserID r = ?u \<and> \<not> rule_expired now r \<and>
      ?ok (ru_CredentialData r)) \<longleftrightarrow>
    (\<exists>r\<in>set (ag_accessRules a). ru_CredentialType r = ''ble_signature'' \<and> ru_UserID r = ?u \<and>
      (now \<le> unix_sec (t0 + offline_lifetime) * ns_second \<and> ?ok (ru_CredentialData r)))"
    using offline_rules_backed(4) expired unfolding rules by (metis linorder_not_less)
  also have "\<dots> \<longleftrightarrow> offline_doors t bound s ?u \<noteq> [] \<and> (\<exists>c\<in>set (ListActiveCredentials t0 t cs). mc_UserID c = ?u \<and>
      (now \<le> unix_sec (t0 + offline_lifetime) * ns_second \<and> ?ok (mc_PublicKeyPEM c)))"
    unfolding rules
    by (rule ble_rules_of_cache [OF cs, where P = "\<lambda>k v. now \<le> unix_sec (t0 + offline_lifetime) * ns_second \<and> ?ok k"])
  finally have iff: "br_Code (fst (VerifyAuthResponseV2 cr now resp ch tr a)) = BLEResultGranted \<longleftrightarrow>
      challenge_good now ch a \<and> now \<le> unix_sec (t0 + offline_lifetime) * ns_second \<and>
      offline_doors t bound s ?u \<noteq> [] \<and>
      (\<exists>c\<in>set (ListActiveCredentials t0 t cs). mc_UserID c = ?u \<and>
         VerifyBLESignatureV2_svc cr t0 t ?u (take 32 ch) tr (ar_Signature resp) (cs\<lparr>cs_credentials := [c]\<rparr>) = Inr c)"
    unfolding V2_granted_iff v2_authorised_def challenge_good_def using one_credential [of _ t0 t cs ?u]
    by (smt (verit, best))
  moreover have "br_Code (fst (VerifyAuthResponseV2 cr now resp ch tr a)) = BLEResultGranted"
    if "VerifyBLESignatureV2_svc cr t0 t ?u (take 32 ch) tr (ar_Signature resp) cs = Inr c" "challenge_good now ch a"
      "now \<le> unix_sec (t0 + offline_lifetime) * ns_second" "offline_doors t bound s ?u \<noteq> []" for c
  proof -
    from that(1) have c: "active_cred t0 t ?u cs = Some c" "?ok (mc_PublicKeyPEM c)" by (simp_all add: cloud_check_as_gateway)
    from active_cred_SomeD [OF c(1)] have mem: "c \<in> set (ListActiveCredentials t0 t cs)" "mc_UserID c = ?u"
      by (simp_all add: ListActiveCredentials_def)
    with c(2) that(2-4) show ?thesis unfolding iff using one_credential [OF mem] by blast
  qed
  moreover have "active_user t ?u (vs_access s)"
    if "br_Code (fst (VerifyAuthResponseV2 cr now resp ch tr a)) = BLEResultGranted"
  proof -
    from that have "offline_doors t bound s ?u \<noteq> []" unfolding iff by blast
    then obtain ls where "map_of (buildGatewayUserLockAccess t bound s) ?u = Some ls"
      by (auto simp: offline_doors_def split: option.splits)
    then show ?thesis by (rule locks_active_user)
  qed
  ultimately show ?thesis
    by (cases "VerifyBLESignatureV2_svc cr t0 t ?u (take 32 ch) tr (ar_Signature resp) cs") (auto simp: not_less)
qed

text \<open>A user of one user group, a door group that is not the user's, and two credentials of which one is revoked.\<close>

definition rules_server :: verifyServer where
  "rules_server = demo_server\<lparr>
     vs_access := demo_directory\<lparr>
       ac_users := [new_user dir_env ''u1'' ''t1'' \<lparr>ui_BuildingID = '''', ui_Name = ''Uma'', ui_Email = ''u1@x'', ui_Role = '''',
                      ui_Status = '''', ui_GroupIDs = [''ug1'']\<rparr> ''active''],
       ac_userGroups := [new_group dir_env ''ug1'' ''t1'' '''' ''Staff'' '''' []]\<rparr>,
     vs_space := sample_space, vs_credentials := Some demo_creds\<rparr>"

definition rules_agent :: agent where
  "rules_agent = demo_agent\<lparr>ag_accessRules :=
     cz_AccessRules (buildGatewayConfigAuthzCache 1000 1000 '''' ''t1'' [''d1''] rules_server)\<rparr>"

definition rules_response :: bleAuthResponse where
  "rules_response = \<lparr>ar_UserID = ''u1'', ar_Signature = rev (messageV2 (replicate 32 5) ''u1'' TransportTagBLE)\<rparr>"

theorem cloud_gateway_agree_witness:
  "br_Code (fst (VerifyAuthResponseV2 demo_crypto 1200 rules_response (replicate 32 5) TransportTagBLE rules_agent)) = BLEResultGranted \<and>
   active_user ''t1'' ''u1'' (vs_access rules_server)"
proof -
  have rules: "ag_accessRules rules_agent = cz_AccessRules (buildGatewayConfigAuthzCache 1000 1000 '''' ''t1'' [''d1''] rules_server)"
    by (simp add: rules_agent_def)
  have cs: "vs_credentials rules_server = Some demo_creds" by (simp add: rules_server_def)
  have time: "(0 :: int) \<le> 1000" "1000 + offline_lifetime < 2 ^ 63" by (simp_all add: offline_lifetime_def duration_defs)
  have user: "ar_UserID rules_response = ''u1''" by (simp add: rules_response_def)
  have v: "\<not> isl (VerifyBLESignatureV2_svc demo_crypto 1000 ''t1'' ''u1'' (take 32 (replicate 32 5)) TransportTagBLE
      (ar_Signature rules_response) demo_creds)"
  proof -
    have "case active_cred 1000 ''t1'' ''u1'' demo_creds of None \<Rightarrow> False | Some c \<Rightarrow> mc_PublicKeyPEM c = ''key''" by code_simp
    then obtain c where "active_cred 1000 ''t1'' ''u1'' demo_creds = Some c" "mc_PublicKeyPEM c = ''key''"
      by (auto split: option.splits)
    moreover have "VerifyBLESignatureV2 demo_crypto ''key'' (take 32 (replicate 32 5)) ''u1'' TransportTagBLE
        (ar_Signature rules_response) = Inr ()" by code_simp
    ultimately have "VerifyBLESignatureV2_svc demo_crypto 1000 ''t1'' ''u1'' (take 32 (replicate 32 5)) TransportTagBLE
        (ar_Signature rules_response) demo_creds = Inr c" by (simp add: cloud_check_as_gateway)
    then show ?thesis by simp
  qed
  have c: "challenge_good 1200 (replicate 32 5) rules_agent"
  proof -
    have "challenge_good 1200 (replicate 32 5) demo_agent" by code_simp
    then show ?thesis by (simp add: rules_agent_def challenge_good_def cacheExpired_def ask_nonce_def split: option.splits)
  qed
  have n: "\<not> (1200 :: int) > unix_sec (1000 + offline_lifetime) * ns_second" by code_simp
  have d: "offline_doors ''t1'' [''d1''] rules_server ''u1'' \<noteq> []" by code_simp
  from cloud_gateway_agree [OF rules cs time, of demo_crypto 1200 rules_response "replicate 32 5" TransportTagBLE] v c n d
  show ?thesis unfolding user by blast
qed

section \<open>Where the two differ\<close>

text \<open>The offline rules open every door of every door group to the members of any user group; the cloud opens it to the
  members of that group only.\<close>

lemma any_group_opens_all:
  "offline_doors ''t1'' [''d1''] rules_server ''u1'' = [''d1''] \<and>
   checkUserLockAccess ''t1'' [''ug1''] ''d1'' (vs_space rules_server) = None \<and>
   ListRoleAssignments ''t1'' (vs_access rules_server) = []"
  by code_simp

text \<open>A user with two devices: the cloud tries the first active credential only and refuses the second device, which
  the gateway admits.\<close>

definition two_devices :: credService where
  "two_devices = demo_creds\<lparr>cs_credentials := [demo_cred\<lparr>mc_PublicKeyPEM := ''k1''\<rparr>, demo_cred\<lparr>mc_ID := ''c2'', mc_PublicKeyPEM := ''k2''\<rparr>]\<rparr>"

lemma second_device_refused_online:
  "let cr = demo_crypto\<lparr>VerifyASN1 := (\<lambda>k h s. s = k @ h)\<rparr>; sg = bytes_of ''k2'' @ messageV2 [9] ''u1'' TransportTagBLE in
   VerifyBLESignatureV2_svc cr 6000 ''t1'' ''u1'' [9] TransportTagBLE sg two_devices = Inl SignatureFailed \<and>
   VerifyBLESignatureV2 cr ''k2'' [9] ''u1'' TransportTagBLE sg = Inr ()"
  by code_simp

end
