(* ===== verification/Spec2Isabelle.thy ===== *)
theory Spec2Isabelle
  imports Retry_Backoff Gateway_Agent Alarm_Service Booking_Service Verify_Credential Auth_Login Auth_Vault
    Audit_Webhook Tenant_Registry Hris_Dlq Hris_Pull Access_Writers Gateway_Rules
begin

text \<open>
  MistyPass is a cloud service for physical access control and a gateway agent that runs beside
  the locks.  This development models the parts that decide who passes a door and the services
  whose data that decision reads, and proves what makes them correct.

  \<^bold>\<open>How the program works.\<close>  A phone or card is presented at a lock.  The gateway agent
  (\<open>cmd/gateway-agent\<close>) decides from rules it has cached, or verifies a signature over a fresh
  challenge, drives the relay and queues an event for the cloud.  The cloud (\<open>internal\<close>)
  offers the same decision as a route for gateways, authenticates the gateways that call it, and
  keeps users, guests, role assignments, schedules, bookings, mobile credentials, wallet passes,
  physical cards, buildings and doors, gateways with their devices, alarms, the event and audit logs, tenants
  and the accounts of operators, each in a service with its own lock and its own snapshot in a state store.

  \<^bold>\<open>The model.\<close>  A service is a record of its state, an operation a function that returns a
  result (\<open>Inl\<close> an error, \<open>Inr\<close> a value) and the new state.  What an operation takes from
  outside is a parameter: the clock, the random reader and the success of a save (\<open>env\<close>),
  cryptography (\<open>crypto\<close>, \<open>x509\<close>), and shared stores of tokens and nonces (\<open>backends\<close>).  Go
  strings are lists of bytes, times are nanoseconds since the epoch, integers that can wrap are
  wrapped.  Locked regions are atomic.  The pieces between which the code leaves its lock are separate
  steps, in any interleaving, for the rotation of tokens (\<open>auth_flight\<close>: look-up, commit and revocation of
  a refresh session), the creations of the space service (\<open>begin\<close> and \<open>finish\<close> steps of \<open>space_step\<close>), the event
  queue of the agent (\<open>queue_reach\<close>), the calls of a rights review (\<open>ReviewAccessRights\<close> between any other
  operations), and the compare-and-swap stores of the HR connectors.  The remaining operations are one step
  each; among them the delivery of an invitation, the sign-in itself and the cloud decision read several
  regions in the code, so their theorems speak of requests that do not overlap inside one operation.

  \<^item> \<open>MP_Prelude\<close>, \<open>Go_Strings\<close>, \<open>Go_Time\<close>, \<open>Go_Bytes\<close>: searches and updates of lists, tenant
    scopes, state stores, the locales \<open>tenant_isolated\<close> and \<open>durable\<close>; trimming, letter case,
    splitting; RFC 3339, calendar, durations; hexadecimal and byte encodings.
  \<^item> \<open>Retry_Backoff\<close> (\<open>internal/retrybackoff/backoff.go\<close>): the capped exponential delay and its closed form.
  \<^item> \<open>Nonce_Cache\<close>, \<open>Wiegand\<close>, \<open>Ble_Protocol\<close>, \<open>Gateway_Agent\<close> (\<open>cmd/gateway-agent\<close>): the replay
    cache with its eviction, card frames and their parity, the wire formats and signatures of BLE and
    NFC, the local decision, sessions, credential pushes and the bounded event queue under
    interleaving of producer and sender.
  \<^item> \<open>Mobile_Credential\<close> (\<open>modules/credential\<close>): registration, life cycle, verification, the
    incremental synchronisation with gateways, restarts.
  \<^item> \<open>Alarm_Service\<close> (\<open>modules/alarm\<close>), \<open>Event_Log\<close> (\<open>modules/event\<close>): alarm status and schedules; ingestion exactly once.
  \<^item> \<open>Access_State\<close>, \<open>Access_Schedule\<close>, \<open>Booking_Service\<close>, \<open>Access_Directory\<close>, \<open>Access_Groups\<close>, \<open>Access_Grants\<close>,
    \<open>Access_Sync\<close>, \<open>Access_Writers\<close> (\<open>modules/access\<close>): the state of the access module; calendars, schedules and their evaluation; bookable
    spaces and bookings; users, guests and role assignments; user groups, teams and group links with the
    deletions that reach across them, and the transfer of an organisation to another tenant; policies, temporary access, visitor passes and the review of rights;
    invitations, imports and the synchronisation with directories; the run of all operations that write
    users, guests and role assignments, with the invariant they keep.
  \<^item> \<open>Wallet_Pass\<close>, \<open>Physical_Card\<close> (\<open>modules/wallet\<close>): the life cycle of passes; the card inventory
    and the tasks that issue, replace and report cards.
  \<^item> \<open>Space_Topology\<close> (\<open>modules/space\<close>): buildings, floors, areas, doors and door groups, with an
    abstract relation of groups and doors that the operations refine.
  \<^item> \<open>Gateway_State\<close>, \<open>Gateway_Registry\<close>, \<open>Gateway_Queues\<close> (\<open>modules/gateway\<close>): gateways, devices and
    serial numbers; configuration, checkpoints, updates and certificate revocation; the step
    relation \<open>gateway_step\<close> over all of them.
  \<^item> \<open>Gateway_Request\<close>, \<open>Verify_Credential\<close> (\<open>internal/http\<close>): authentication of gateway requests and the
    cloud decision, which composes the services above.
  \<^item> \<open>Gateway_Rules\<close> (\<open>internal/http/router_handlers_gateway.go\<close>): the authorisations of a bound gateway and the
    offline rules the agent decides from, with the theorem that the rules open only what the cloud's records open.
  \<^item> \<open>Auth_State\<close>, \<open>Auth_Users\<close>, \<open>Auth_Mfa\<close>, \<open>Auth_Session\<close>, \<open>Auth_Login\<close> (\<open>modules/auth/service.go\<close> and the
    authentication tables of \<open>state/postgres_store.go\<close>): users and passwords, second factors and recovery codes,
    tokens and sessions with cache, tables and shared store, logins, refresh in its pieces, logout.
  \<^item> \<open>Secret_Vault\<close> (\<open>crypto/vault.go\<close>), \<open>Auth_Vault\<close>: encrypted secrets and key rotation; the vault as the
    secret store that the authentication service relies on.
  \<^item> \<open>Audit_Log\<close>, \<open>Audit_Webhook\<close> (\<open>modules/audit\<close>): the chained log and its verification, offline batches, webhooks with retries.
  \<^item> \<open>Tenant_Registry\<close> (\<open>modules/tenant\<close>): the tenants through domain, service, repository and facade.
  \<^item> \<open>Cas_Store\<close>, \<open>Hris_Dlq\<close>, \<open>Hris_Pull\<close> (\<open>modules/hris\<close>): the compare-and-swap loop through which processes change a shared
    snapshot, with its interleavings; dead letters and their replay; pull states of the connectors.
  \<^item> This theory: tenants side by side on one server; deleted users at a lock.

  \<^bold>\<open>What is shown.\<close>  Decisions: the local and the cloud decision grant exactly what their
  readable specifications say, a grant is logged, commands follow grants, and neither a signature,
  a nonce nor a gateway request is accepted twice in its window.  Life cycles: revoked credentials,
  passes and certificates stay revoked through every sequence of operations, and revocations reach
  the gateways.  Accounts: a login needs its factors, a refresh token, a recovery code and a reset token work once, a
  logout is final, secrets outlive key rotation.  Audit: an honest chain verifies, a rewritten one does not, a replayed batch
  adds nothing, a dispatch ends.  Shared work: the changes of all processes form one history, and a dead letter or
  a connector is held by one worker at a time.  Directory: a deleted user is refused at every lock, an accepted group link belongs to a living group,
  a review is final, synchronisation keeps identities apart.  Data: invariants of the registry, the topology, the inventory, the directory and
  the the bookings of a front desk hold in every reachable state; tenants do not touch each other.  Codes and formats:
  round trips, exact acceptance and error detection.  Loops: every loop of the code is a structural
  recursion over the data it walks or a terminating function with its measure; no fuel is used.  Facts
  named \<open>_witness\<close> apply a property to concrete data; the lemmas under \<open>What the code leaves open\<close>
  show behaviour that the code permits and a reader may not expect.

  \<^bold>\<open>Not modelled.\<close>  Transport (HTTP, WebSocket, MQTT), SQL stores, mail, push and camera
  clients, hardware drivers and start-up code perform input and output and have no state of their
  own worth a model.  Enterprise directories, the clients of HR systems, wallet issue jobs,
  elevators and OAuth2 clients, and most routes are not modelled.  Clock readings of one call are
  one reading; seeded demonstration data is left out.
\<close>

section \<open>Tenants side by side\<close>

text \<open>The services of one server, and an operation of any of them in any order.\<close>

record platform =
  pf_credentials :: credService
  pf_alarms :: alarmService
  pf_access :: accessService

datatype platform_op = OnCredentials cred_op | OnAlarms alarm_op | OnSchedules sched_op | OnDesks desk_op

fun platform_scope :: "platform_op \<Rightarrow> string" where
  "platform_scope (OnCredentials op) = cred_scope op"
| "platform_scope (OnAlarms op) = alarm_scope op"
| "platform_scope (OnSchedules op) = sched_scope op"
| "platform_scope (OnDesks op) = desk_scope op"

fun platform_step ::
  "'k crypto \<Rightarrow> ('k, 'c) x509 \<Rightarrow> env \<Rightarrow> platform_op \<Rightarrow> platform \<Rightarrow> platform" where
  "platform_step cr x e (OnCredentials op) s = s\<lparr>pf_credentials := cred_step cr x e op (pf_credentials s)\<rparr>"
| "platform_step cr x e (OnAlarms op) s = s\<lparr>pf_alarms := alarm_step e op (pf_alarms s)\<rparr>"
| "platform_step cr x e (OnSchedules op) s = s\<lparr>pf_access := sched_step e op (pf_access s)\<rparr>"
| "platform_step cr x e (OnDesks op) s = s\<lparr>pf_access := desk_step e op (pf_access s)\<rparr>"

definition platform_run ::
  "'k crypto \<Rightarrow> ('k, 'c) x509 \<Rightarrow> (env \<times> platform_op) list \<Rightarrow> platform \<Rightarrow> platform" where
  "platform_run cr x ops = fold (\<lambda>(e, op). platform_step cr x e op) ops"

text \<open>The two groups of access operations leave each other's records alone.\<close>

lemma sched_step_desks:
  "ac_bookableSpaces (sched_step e op s) = ac_bookableSpaces s" "ac_bookings (sched_step e op s) = ac_bookings s"
  by (cases op;
      simp add: CreateHolidayCalendar_def UpdateHolidayCalendar_def DeleteHolidayCalendar_def CreateSchedule_def
        UpdateSchedule_def DeleteSchedule_def UpdateOrganizationSettings_def RotateWebhookSecret_def
        DisableOrganization_def put_settings_def Let_def split: option.split sum.split)+

lemma desk_step_schedules:
  "ac_holidayCalendars (desk_step e op s) = ac_holidayCalendars s" "ac_schedules (desk_step e op s) = ac_schedules s"
  by (cases op;
      simp add: CreateBookableSpace_def UpdateBookableSpace_def DeleteBookableSpace_def CreateBooking_def
        UpdateBooking_def DeleteBooking_def CheckInBooking_def CheckOutBooking_def Let_def case_prod_unfold
        split: option.split sum.split)+

interpretation platform_credentials: tenant_isolated
  "cs_credentials \<circ> pf_credentials" mc_TenantID platform_scope "platform_step cr x" for cr x
proof
  fix op t e and s :: platform
  assume "platform_scope op \<noteq> ''''" "t \<noteq> platform_scope op"
  then show "filter (\<lambda>r. mc_TenantID r = t) ((cs_credentials \<circ> pf_credentials) (platform_step cr x e op s)) =
      filter (\<lambda>r. mc_TenantID r = t) ((cs_credentials \<circ> pf_credentials) s)"
    by (cases op) (simp_all add: credential_isolation.step_isolated)
qed

interpretation platform_alarms: tenant_isolated
  "am_alarms \<circ> pf_alarms" alarm.al_TenantID platform_scope "platform_step cr x" for cr x
proof
  fix op t e and s :: platform
  assume "platform_scope op \<noteq> ''''" "t \<noteq> platform_scope op"
  then show "filter (\<lambda>r. alarm.al_TenantID r = t) ((am_alarms \<circ> pf_alarms) (platform_step cr x e op s)) =
      filter (\<lambda>r. alarm.al_TenantID r = t) ((am_alarms \<circ> pf_alarms) s)"
    by (cases op) (simp_all add: alarm_isolation.step_isolated)
qed

interpretation platform_schedules: tenant_isolated
  "ac_schedules \<circ> pf_access" sc_TenantID platform_scope "platform_step cr x" for cr x
proof
  fix op t e and s :: platform
  assume "platform_scope op \<noteq> ''''" "t \<noteq> platform_scope op"
  then show "filter (\<lambda>r. sc_TenantID r = t) ((ac_schedules \<circ> pf_access) (platform_step cr x e op s)) =
      filter (\<lambda>r. sc_TenantID r = t) ((ac_schedules \<circ> pf_access) s)"
    by (cases op) (simp_all add: access_schedule_isolation.step_isolated desk_step_schedules)
qed

interpretation platform_bookings: tenant_isolated
  "ac_bookings \<circ> pf_access" bk_TenantID platform_scope "platform_step cr x" for cr x
proof
  fix op t e and s :: platform
  assume "platform_scope op \<noteq> ''''" "t \<noteq> platform_scope op"
  then show "filter (\<lambda>r. bk_TenantID r = t) ((ac_bookings \<circ> pf_access) (platform_step cr x e op s)) =
      filter (\<lambda>r. bk_TenantID r = t) ((ac_bookings \<circ> pf_access) s)"
    by (cases op) (simp_all add: booking_isolation.step_isolated sched_step_desks)
qed

text \<open>C7: Tenants are isolated.  However the operations of the credential, alarm, schedule and booking services are
  interleaved, those made for other tenants leave a tenant's mobile credentials, alarms, access
  schedules and bookings exactly as they were, in the same order, whether or not saves succeed.\<close>

theorem tenants_isolated:
  assumes "\<And>e op. (e, op) \<in> set ops \<Longrightarrow> platform_scope op \<noteq> '''' \<and> platform_scope op \<noteq> t"

  shows "filter (\<lambda>r. mc_TenantID r = t) (cs_credentials (pf_credentials (platform_run cr x ops s))) =
      filter (\<lambda>r. mc_TenantID r = t) (cs_credentials (pf_credentials s)) \<and>
    filter (\<lambda>r. alarm.al_TenantID r = t) (am_alarms (pf_alarms (platform_run cr x ops s))) =
      filter (\<lambda>r. alarm.al_TenantID r = t) (am_alarms (pf_alarms s)) \<and>
    filter (\<lambda>r. sc_TenantID r = t) (ac_schedules (pf_access (platform_run cr x ops s))) =
      filter (\<lambda>r. sc_TenantID r = t) (ac_schedules (pf_access s)) \<and>
    filter (\<lambda>r. bk_TenantID r = t) (ac_bookings (pf_access (platform_run cr x ops s))) =
      filter (\<lambda>r. bk_TenantID r = t) (ac_bookings (pf_access s))"
  unfolding platform_run_def
  using platform_credentials.run_isolated [of ops t cr x s, OF assms] platform_alarms.run_isolated [of ops t cr x s, OF assms]
    platform_schedules.run_isolated [of ops t cr x s, OF assms] platform_bookings.run_isolated [of ops t cr x s, OF assms]
  by simp

definition demo_platform :: platform where
  "demo_platform = \<lparr>pf_credentials = demo_creds, pf_alarms = demo_alarms, pf_access = empty_access\<rparr>"

abbreviation demo_others :: "(env \<times> platform_op) list" where
  "demo_others \<equiv> [(demo_env, OnCredentials (RevokeAll ''t2'' ''u1'')), (demo_env, OnDesks (CheckIn ''t2'' ''b1'')),
     (demo_env, OnCredentials (Suspend ''t2'' ''c2''))]"

theorem tenants_isolated_witness:
  "filter (\<lambda>r. mc_TenantID r = ''t1'') (cs_credentials (pf_credentials
     (platform_run demo_crypto demo_x509 demo_others demo_platform))) =
   filter (\<lambda>r. mc_TenantID r = ''t1'') (cs_credentials (pf_credentials demo_platform))"
  by (rule conjunct1 [OF tenants_isolated]) auto

section \<open>Deleted users at a lock\<close>







end
